(* ===== verification/Rust_Prelude.thy ===== *)
theory Rust_Prelude
  imports Main "HOL-Library.Sublist"
begin

text \<open>
  Shared vocabulary of the development: the parts of Rust's standard library that the modelled
  code uses on strings, byte classes, options and integers, with the lemmas the component
  theories rest on.

  A Rust \<open>&str\<close> is its UTF-8 byte sequence, so it is a \<^typ>\<open>string\<close> (a list of 8-bit characters):
  \<open>len\<close> is \<^const>\<open>length\<close>, byte tests are character tests, and code-point level operations
  (\<open>trim\<close>, \<open>is_whitespace\<close>) are written over the UTF-8 encodings they recognise.
  Slices are modelled by the list they denote.
\<close>

named_theorems rust_str \<open>characterisations of the string operations\<close>
named_theorems rust_defs \<open>definitions that witnesses unfold to evaluate the model\<close>

section \<open>Prefixes and suffixes\<close>

fun strip_prefix :: "'a list \<Rightarrow> 'a list \<Rightarrow> 'a list option" where
  "strip_prefix [] s = Some s"
| "strip_prefix (a # p) [] = None"
| "strip_prefix (a # p) (b # s) = (if a = b then strip_prefix p s else None)"

definition starts_with :: "'a list \<Rightarrow> 'a list \<Rightarrow> bool" where
  "starts_with s p \<longleftrightarrow> strip_prefix p s \<noteq> None"

definition strip_suffix :: "'a list \<Rightarrow> 'a list \<Rightarrow> 'a list option" where
  "strip_suffix p s = map_option rev (strip_prefix (rev p) (rev s))"

definition ends_with :: "'a list \<Rightarrow> 'a list \<Rightarrow> bool" where
  "ends_with s p \<longleftrightarrow> strip_suffix p s \<noteq> None"

lemma strip_prefix_Some [rust_str]: "strip_prefix p s = Some r \<longleftrightarrow> s = p @ r"
  by (induction p s rule: strip_prefix.induct) auto

lemma strip_prefix_append [simp]: "strip_prefix p (p @ r) = Some r"
  by (simp add: strip_prefix_Some)

lemma starts_with_iff [rust_str]: "starts_with s p \<longleftrightarrow> (\<exists>r. s = p @ r)"
  by (auto simp: starts_with_def strip_prefix_Some)

lemma starts_with_prefix: "starts_with s p \<longleftrightarrow> prefix p s"
  by (simp add: starts_with_iff prefix_def)

lemma strip_prefix_None [rust_str]: "strip_prefix p s = None \<longleftrightarrow> \<not> starts_with s p"
  by (simp add: starts_with_def)

lemma starts_with_code [simp]:
  "starts_with s []"
  "starts_with [] (a # p) \<longleftrightarrow> False"
  "starts_with (b # s) (a # p) \<longleftrightarrow> a = b \<and> starts_with s p"
  by (auto simp: starts_with_def)

lemma starts_with_append [simp]: "starts_with (p @ r) p"
  by (auto simp: starts_with_iff)

lemma starts_with_hd: "starts_with (c # s) p \<Longrightarrow> p \<noteq> [] \<Longrightarrow> hd p = c"
  by (cases p) auto

lemma strip_suffix_Some [rust_str]: "strip_suffix p s = Some r \<longleftrightarrow> s = r @ p"
proof -
  have "strip_suffix p s = Some r \<longleftrightarrow> strip_prefix (rev p) (rev s) = Some (rev r)"
    by (auto simp: strip_suffix_def)
  also have "\<dots> \<longleftrightarrow> rev s = rev p @ rev r"
    by (rule strip_prefix_Some)
  also have "\<dots> \<longleftrightarrow> s = r @ p"
    by (metis rev_append rev_rev_ident)
  finally show ?thesis .
qed

lemma strip_suffix_append [simp]: "strip_suffix p (r @ p) = Some r"
  by (simp add: strip_suffix_Some)

lemma ends_with_iff [rust_str]: "ends_with s p \<longleftrightarrow> (\<exists>r. s = r @ p)"
  by (auto simp: ends_with_def strip_suffix_Some)

lemma strip_suffix_None [rust_str]: "strip_suffix p s = None \<longleftrightarrow> \<not> ends_with s p"
  by (simp add: ends_with_def)

section \<open>Byte classes\<close>

abbreviation backslash :: char where "backslash \<equiv> CHR 0x5C"
abbreviation slash :: char where "slash \<equiv> CHR 0x2F"
abbreviation squote :: char where "squote \<equiv> CHR 0x27"
abbreviation dquote :: char where "dquote \<equiv> CHR 0x22"
abbreviation newline :: char where "newline \<equiv> CHR 0x0A"

definition byte_between :: "nat \<Rightarrow> nat \<Rightarrow> char \<Rightarrow> bool" where
  "byte_between lo hi c \<longleftrightarrow> lo \<le> (of_char c :: nat) \<and> (of_char c :: nat) \<le> hi"

definition is_ascii_digit :: "char \<Rightarrow> bool" where
  "is_ascii_digit = byte_between 0x30 0x39"

definition is_ascii_uppercase :: "char \<Rightarrow> bool" where
  "is_ascii_uppercase = byte_between 0x41 0x5A"

definition is_ascii_lowercase :: "char \<Rightarrow> bool" where
  "is_ascii_lowercase = byte_between 0x61 0x7A"

definition is_ascii_alphabetic :: "char \<Rightarrow> bool" where
  "is_ascii_alphabetic c \<longleftrightarrow> is_ascii_uppercase c \<or> is_ascii_lowercase c"

definition is_ascii_alphanumeric :: "char \<Rightarrow> bool" where
  "is_ascii_alphanumeric c \<longleftrightarrow> is_ascii_alphabetic c \<or> is_ascii_digit c"

text \<open>The lower-case hexadecimal digits \<open>b'0'..=b'9' | b'a'..=b'f'\<close>.\<close>

definition is_lower_hex :: "char \<Rightarrow> bool" where
  "is_lower_hex c \<longleftrightarrow> is_ascii_digit c \<or> byte_between 0x61 0x66 c"

definition ascii_lower :: "char \<Rightarrow> char" where
  "ascii_lower c = (if is_ascii_uppercase c then char_of ((of_char c :: nat) + 32) else c)"

definition to_ascii_lowercase :: "string \<Rightarrow> string" where
  "to_ascii_lowercase = map ascii_lower"

definition eq_ignore_ascii_case :: "string \<Rightarrow> string \<Rightarrow> bool" where
  "eq_ignore_ascii_case a b \<longleftrightarrow> to_ascii_lowercase a = to_ascii_lowercase b"

lemmas byte_class_defs [rust_defs] =
  byte_between_def is_ascii_digit_def is_ascii_uppercase_def is_ascii_lowercase_def
  is_ascii_alphabetic_def is_ascii_alphanumeric_def is_lower_hex_def ascii_lower_def
  to_ascii_lowercase_def eq_ignore_ascii_case_def

lemma of_char_lt_256: "(of_char c :: nat) < 256"
  by (metis nat_of_char_less_256)

lemma ascii_lower_idem [simp]: "ascii_lower (ascii_lower c) = ascii_lower c"
  by (auto simp: ascii_lower_def is_ascii_uppercase_def byte_between_def)

lemma to_ascii_lowercase_idem [simp]:
  "to_ascii_lowercase (to_ascii_lowercase s) = to_ascii_lowercase s"
  by (simp add: to_ascii_lowercase_def)

lemma length_to_ascii_lowercase [simp]: "length (to_ascii_lowercase s) = length s"
  by (simp add: to_ascii_lowercase_def)

section \<open>White space and trimming\<close>

text \<open>
  The UTF-8 encodings of the code points with the Unicode property White\_Space, which is what
  \<open>char::is_whitespace\<close> and \<open>str::trim\<close> use: U+0009 to U+000D, U+0020, U+0085, U+00A0, U+1680,
  U+2000 to U+200A, U+2028, U+2029, U+202F, U+205F and U+3000.
\<close>

definition whitespace_encodings :: "string list" where
  "whitespace_encodings =
     [[CHR 0x09], [CHR 0x0A], [CHR 0x0B], [CHR 0x0C], [CHR 0x0D], [CHR 0x20],
      [CHR 0xC2, CHR 0x85], [CHR 0xC2, CHR 0xA0], [CHR 0xE1, CHR 0x9A, CHR 0x80],
      [CHR 0xE2, CHR 0x80, CHR 0x80], [CHR 0xE2, CHR 0x80, CHR 0x81],
      [CHR 0xE2, CHR 0x80, CHR 0x82], [CHR 0xE2, CHR 0x80, CHR 0x83],
      [CHR 0xE2, CHR 0x80, CHR 0x84], [CHR 0xE2, CHR 0x80, CHR 0x85],
      [CHR 0xE2, CHR 0x80, CHR 0x86], [CHR 0xE2, CHR 0x80, CHR 0x87],
      [CHR 0xE2, CHR 0x80, CHR 0x88], [CHR 0xE2, CHR 0x80, CHR 0x89],
      [CHR 0xE2, CHR 0x80, CHR 0x8A], [CHR 0xE2, CHR 0x80, CHR 0xA8],
      [CHR 0xE2, CHR 0x80, CHR 0xA9], [CHR 0xE2, CHR 0x80, CHR 0xAF],
      [CHR 0xE2, CHR 0x81, CHR 0x9F], [CHR 0xE3, CHR 0x80, CHR 0x80]]"

fun strip_first :: "'a list list \<Rightarrow> 'a list \<Rightarrow> 'a list option" where
  "strip_first [] s = None"
| "strip_first (p # ps) s =
     (case strip_prefix p s of Some r \<Rightarrow> Some r | None \<Rightarrow> strip_first ps s)"

lemma strip_first_Some: "strip_first ps s = Some r \<Longrightarrow> \<exists>p \<in> set ps. s = p @ r"
  by (induction ps) (auto simp: strip_prefix_Some split: option.splits)

lemma strip_first_None: "strip_first ps s = None \<longleftrightarrow> (\<forall>p \<in> set ps. \<not> starts_with s p)"
  by (induction ps) (auto simp: strip_prefix_None strip_prefix_Some split: option.splits)

lemma strip_first_shorter:
  assumes "strip_first ps s = Some r" and "[] \<notin> set ps"
  shows "length r < length s"
proof -
  from assms(1) obtain p where "p \<in> set ps" and s: "s = p @ r"
    by (blast dest: strip_first_Some)
  with assms(2) have "p \<noteq> []" by auto
  with s show ?thesis by simp
qed

text \<open>Strip encodings from the front while one of them is there.\<close>

function strip_all :: "'a list list \<Rightarrow> 'a list \<Rightarrow> 'a list" where
  "strip_all ps s =
     (if [] \<in> set ps then s
      else case strip_first ps s of None \<Rightarrow> s | Some r \<Rightarrow> strip_all ps r)"
  by pat_completeness auto
termination
  by (relation "measure (\<lambda>(ps, s). length s)") (auto dest: strip_first_shorter)

declare strip_all.simps [simp del]

definition trim_start :: "string \<Rightarrow> string" where
  "trim_start = strip_all whitespace_encodings"

definition trim_end :: "string \<Rightarrow> string" where
  "trim_end s = rev (strip_all (map rev whitespace_encodings) (rev s))"

definition trim :: "string \<Rightarrow> string" where
  "trim s = trim_end (trim_start s)"

text \<open>\<open>s.contains(char::is_whitespace)\<close>.\<close>

fun contains_sub :: "'a list \<Rightarrow> 'a list \<Rightarrow> bool" where
  "contains_sub [] p \<longleftrightarrow> p = []"
| "contains_sub (a # s) p \<longleftrightarrow> starts_with (a # s) p \<or> contains_sub s p"

definition contains_whitespace :: "string \<Rightarrow> bool" where
  "contains_whitespace s \<longleftrightarrow> list_ex (contains_sub s) whitespace_encodings"

lemma strip_all_suffix: "\<exists>u. s = u @ strip_all ps s"
proof (induction ps s rule: strip_all.induct)
  case (1 ps s)
  show ?case
  proof (cases "strip_first ps s")
    case None
    then show ?thesis by (simp add: strip_all.simps [of ps s])
  next
    case (Some r)
    then obtain p where p: "s = p @ r"
      by (blast dest: strip_first_Some)
    show ?thesis
    proof (cases "[] \<in> set ps")
      case True
      then show ?thesis by (simp add: strip_all.simps [of ps s])
    next
      case False
      with 1 Some obtain u where "r = u @ strip_all ps r" by blast
      with p have "s = (p @ u) @ strip_all ps r" by simp
      moreover have "strip_all ps s = strip_all ps r"
        using False Some by (simp add: strip_all.simps [of ps s])
      ultimately show ?thesis by metis
    qed
  qed
qed

lemma strip_all_done: "[] \<notin> set ps \<Longrightarrow> strip_first ps (strip_all ps s) = None"
proof (induction ps s rule: strip_all.induct)
  case (1 ps s)
  then show ?case
    by (cases "strip_first ps s") (auto simp: strip_all.simps [of ps s])
qed

lemma strip_all_fixed: "strip_first ps s = None \<Longrightarrow> strip_all ps s = s"
  by (simp add: strip_all.simps [of ps s])

lemma strip_all_idem [simp]: "strip_all ps (strip_all ps s) = strip_all ps s"
proof (cases "[] \<in> set ps")
  case True
  then show ?thesis by (simp add: strip_all.simps [of ps])
next
  case False
  then show ?thesis by (intro strip_all_fixed strip_all_done)
qed

lemma trim_start_suffix: "suffix (trim_start s) s"
  using strip_all_suffix [of s whitespace_encodings] by (auto simp: trim_start_def suffix_def)

lemma trim_start_idem [simp]: "trim_start (trim_start s) = trim_start s"
  by (simp add: trim_start_def)

text \<open>A string whose ends are plain printable ASCII bytes is left alone by \<open>trim\<close>.\<close>

definition plain_byte :: "char \<Rightarrow> bool" where
  "plain_byte = byte_between 0x21 0x7E"

lemma whitespace_not_plain:
  "list_all (\<lambda>p. p \<noteq> [] \<and> \<not> plain_byte (hd p) \<and> \<not> plain_byte (last p)) whitespace_encodings"
  by (simp add: whitespace_encodings_def plain_byte_def byte_between_def)

lemma strip_first_plain:
  assumes "plain_byte c"
  shows "strip_first whitespace_encodings (c # s) = None"
    and "strip_first (map rev whitespace_encodings) (c # s) = None"
proof -
  have enc: "p \<noteq> [] \<and> \<not> plain_byte (hd p) \<and> \<not> plain_byte (last p)"
    if "p \<in> set whitespace_encodings" for p
    using whitespace_not_plain that by (simp add: list_all_iff)
  have "\<not> starts_with (c # s) p \<and> \<not> starts_with (c # s) (rev p)"
    if "p \<in> set whitespace_encodings" for p
    using enc [OF that] assms starts_with_hd [of c s p] starts_with_hd [of c s "rev p"]
    by (auto simp: hd_rev)
  then show "strip_first whitespace_encodings (c # s) = None"
    and "strip_first (map rev whitespace_encodings) (c # s) = None"
    by (auto simp: strip_first_None)
qed

lemma trim_start_plain: "plain_byte c \<Longrightarrow> trim_start (c # s) = c # s"
  by (simp add: trim_start_def strip_all_fixed strip_first_plain)

lemma trim_plain:
  assumes "s \<noteq> []" and "plain_byte (hd s)" and "plain_byte (last s)"
  shows "trim s = s"
proof -
  obtain c t where s: "s = c # t" using assms(1) by (cases s) auto
  have start: "trim_start s = s" using assms(2) s by (simp add: trim_start_plain)
  obtain d u where r: "rev s = d # u" using assms(1) by (cases "rev s") auto
  then have "d = last s" using assms(1) by (metis hd_rev list.sel(1))
  then have "strip_all (map rev whitespace_encodings) (rev s) = rev s"
    using assms(3) unfolding r by (simp add: strip_all_fixed strip_first_plain)
  with start show ?thesis by (simp add: trim_def trim_end_def)
qed

lemma trim_Nil [simp]: "trim [] = []"
  by (simp add: trim_def trim_end_def trim_start_def strip_all.simps [of _ "[]"]
      whitespace_encodings_def)

lemma trim_idem [simp]: "trim (trim s) = trim s"
proof -
  let ?w = whitespace_encodings
  have ne: "[] \<notin> set ?w" using whitespace_not_plain by (auto simp: list_all_iff)
  have "\<exists>u. trim_start s = trim s @ u"
    using strip_all_suffix [of "rev (trim_start s)" "map rev ?w"]
    by (metis rev_append rev_rev_ident trim_def trim_end_def)
  then obtain u where u: "trim_start s = trim s @ u" by blast
  have "strip_first ?w (trim_start s) = None" unfolding trim_start_def by (rule strip_all_done [OF ne])
  then have "strip_first ?w (trim s) = None" unfolding u by (fastforce simp: strip_first_None starts_with_iff)
  then have "trim_start (trim s) = trim s" by (simp add: trim_start_def strip_all_fixed)
  moreover have "trim_end (trim s) = trim s" by (simp add: trim_def trim_end_def)
  ultimately show ?thesis by (simp add: trim_def [of "trim s"])
qed

section \<open>Splitting and joining\<close>

text \<open>\<open>s.rsplit(['/', '\\']).next()\<close>: what follows the last separator; it is never absent.\<close>

definition is_path_sep :: "char \<Rightarrow> bool" where
  "is_path_sep c \<longleftrightarrow> c = slash \<or> c = backslash"

definition last_component :: "string \<Rightarrow> string" where
  "last_component s = rev (takeWhile (\<lambda>c. \<not> is_path_sep c) (rev s))"

text \<open>\<open>s.split_once(c)\<close>.\<close>

fun split_once :: "'a \<Rightarrow> 'a list \<Rightarrow> ('a list \<times> 'a list) option" where
  "split_once c [] = None"
| "split_once c (x # xs) =
     (if x = c then Some ([], xs)
      else map_option (\<lambda>(a, b). (x # a, b)) (split_once c xs))"

text \<open>\<open>s.rsplit_once(c)\<close>.\<close>

definition rsplit_once :: "'a \<Rightarrow> 'a list \<Rightarrow> ('a list \<times> 'a list) option" where
  "rsplit_once c s = map_option (\<lambda>(a, b). (rev b, rev a)) (split_once c (rev s))"

text \<open>\<open>s.split_once(c).map(|(f, _)| f).unwrap_or(s)\<close>.\<close>

definition before_first :: "'a \<Rightarrow> 'a list \<Rightarrow> 'a list" where
  "before_first c s = takeWhile (\<lambda>x. x \<noteq> c) s"

text \<open>\<open>s.split(c)\<close> on a single separator.\<close>

fun split_on :: "('a \<Rightarrow> bool) \<Rightarrow> 'a list \<Rightarrow> 'a list list" where
  "split_on p [] = [[]]"
| "split_on p (x # xs) =
     (if p x then [] # split_on p xs
      else case split_on p xs of [] \<Rightarrow> [[x]] | w # ws \<Rightarrow> (x # w) # ws)"

text \<open>\<open>words.join(sep)\<close>.\<close>

fun join :: "'a list \<Rightarrow> 'a list list \<Rightarrow> 'a list" where
  "join sep [] = []"
| "join sep [w] = w"
| "join sep (w # v # ws) = w @ sep @ join sep (v # ws)"

lemma split_once_Some: "split_once c s = Some (a, b) \<longleftrightarrow> s = a @ c # b \<and> c \<notin> set a"
proof (induction s arbitrary: a b)
  case Nil
  then show ?case by simp
next
  case (Cons x s)
  then show ?case
    by (cases a) (auto split: if_splits)
qed

lemma split_once_None: "split_once c s = None \<longleftrightarrow> c \<notin> set s"
  by (induction s) auto

lemma before_first_split_once:
  "before_first c s = (case split_once c s of Some (a, b) \<Rightarrow> a | None \<Rightarrow> s)"
  unfolding before_first_def
  by (induction s) (auto split: option.splits)

lemma before_first_plain: "c \<notin> set s \<Longrightarrow> before_first c s = s"
  by (simp add: before_first_split_once split_once_None [THEN iffD2])

lemma before_first_append: "c \<notin> set a \<Longrightarrow> before_first c (a @ c # b) = a"
  by (simp add: before_first_split_once split_once_Some [THEN iffD2])

lemma rsplit_once_Some: "rsplit_once c s = Some (a, b) \<longleftrightarrow> s = a @ c # b \<and> c \<notin> set b"
proof -
  have "rsplit_once c s = Some (a, b) \<longleftrightarrow> split_once c (rev s) = Some (rev b, rev a)"
    by (auto simp: rsplit_once_def)
  also have "\<dots> \<longleftrightarrow> s = a @ c # b \<and> c \<notin> set b"
    by (simp add: split_once_Some rev_swap)
  finally show ?thesis .
qed

lemma rsplit_once_None: "rsplit_once c s = None \<longleftrightarrow> c \<notin> set s"
  by (simp add: rsplit_once_def split_once_None)

lemma split_on_nonempty [simp]: "split_on p s \<noteq> []"
  by (induction s) (auto split: list.splits)

lemma last_component_no_sep: "\<forall>c \<in> set (last_component s). \<not> is_path_sep c"
  by (auto simp: last_component_def dest: set_takeWhileD)

lemma last_component_suffix: "suffix (last_component s) s"
proof -
  have "prefix (takeWhile (\<lambda>c. \<not> is_path_sep c) (rev s)) (rev s)"
    by (metis prefixI takeWhile_dropWhile_id)
  then show ?thesis
    by (metis last_component_def suffix_to_prefix rev_rev_ident)
qed

lemma last_component_append_sep:
  assumes "is_path_sep c" and "\<forall>x \<in> set b. \<not> is_path_sep x"
  shows "last_component (a @ c # b) = b"
proof -
  have "takeWhile (\<lambda>c. \<not> is_path_sep c) (rev b @ c # rev a) = rev b @ takeWhile (\<lambda>c. \<not> is_path_sep c) (c # rev a)"
    using assms(2) by (intro takeWhile_append2) simp
  then show ?thesis using assms(1) by (simp add: last_component_def)
qed

lemma last_component_plain: "\<forall>x \<in> set b. \<not> is_path_sep x \<Longrightarrow> last_component b = b"
  by (simp add: last_component_def takeWhile_eq_all_conv [THEN iffD2])

section \<open>Integers\<close>

text \<open>
  \<open>str::parse\<close> for the unsigned integer types with largest value \<open>mx\<close>: an optional \<open>+\<close>, at least
  one decimal digit, nothing else, and no overflow.
\<close>

definition digit_value :: "char \<Rightarrow> nat" where
  "digit_value c = (of_char c :: nat) - 0x30"

definition decimal_value :: "string \<Rightarrow> nat" where
  "decimal_value s = foldl (\<lambda>n c. 10 * n + digit_value c) 0 s"

definition parse_uint :: "nat \<Rightarrow> string \<Rightarrow> nat option" where
  "parse_uint mx s =
     (let ds = (case s of c # r \<Rightarrow> if c = CHR ''+'' then r else s | [] \<Rightarrow> s)
      in if ds \<noteq> [] \<and> list_all is_ascii_digit ds \<and> decimal_value ds \<le> mx
         then Some (decimal_value ds) else None)"

definition parse_bool :: "string \<Rightarrow> bool option" where
  "parse_bool s = (if s = ''true'' then Some True else if s = ''false'' then Some False else None)"

abbreviation u8_max :: nat where "u8_max \<equiv> 2 ^ 8 - 1"
abbreviation u16_max :: nat where "u16_max \<equiv> 2 ^ 16 - 1"
abbreviation u32_max :: nat where "u32_max \<equiv> 2 ^ 32 - 1"
abbreviation u64_max :: nat where "u64_max \<equiv> 2 ^ 64 - 1"
abbreviation usize_max :: nat where "usize_max \<equiv> 2 ^ 64 - 1"

lemma parse_uint_bound: "parse_uint mx s = Some n \<Longrightarrow> n \<le> mx"
  by (auto simp: parse_uint_def Let_def split: if_splits)

text \<open>Decimal digits, as \<open>format!("{n}")\<close> prints them.\<close>

fun to_decimal :: "nat \<Rightarrow> string" where
  "to_decimal n = (if n < 10 then [char_of (0x30 + n)] else to_decimal (n div 10) @ [char_of (0x30 + n mod 10)])"

declare to_decimal.simps [simp del]

text \<open>Lower-case hexadecimal, as \<open>format!("{n:x}")\<close> prints it.\<close>

definition hex_digit :: "nat \<Rightarrow> char" where
  "hex_digit d = char_of (if d < 10 then 0x30 + d else 0x57 + d)"

fun to_hex :: "nat \<Rightarrow> string" where
  "to_hex n = (if n < 16 then [hex_digit n] else to_hex (n div 16) @ [hex_digit (n mod 16)])"

declare to_hex.simps [simp del]

definition hex_digit_value :: "char \<Rightarrow> nat" where
  "hex_digit_value c = (let v = (of_char c :: nat) in if v < 0x3A then v - 0x30 else v - 0x57)"

definition hex_value :: "string \<Rightarrow> nat" where
  "hex_value s = foldl (\<lambda>n c. 16 * n + hex_digit_value c) 0 s"

lemma of_char_hex_digit: "d < 16 \<Longrightarrow> (of_char (hex_digit d) :: nat) = (if d < 10 then 0x30 + d else 0x57 + d)"
  by (simp add: hex_digit_def)

lemma hex_digit_lower_hex: "d < 16 \<Longrightarrow> is_lower_hex (hex_digit d)"
  by (auto simp: is_lower_hex_def is_ascii_digit_def byte_between_def of_char_hex_digit)

lemma hex_digit_value_hex_digit: "d < 16 \<Longrightarrow> hex_digit_value (hex_digit d) = d"
  by (simp add: hex_digit_value_def of_char_hex_digit Let_def)

lemma to_hex_nonempty [simp]: "to_hex n \<noteq> []"
  by (subst to_hex.simps) simp

lemma to_hex_lower_hex: "list_all is_lower_hex (to_hex n)"
proof (induction n rule: to_hex.induct)
  case (1 n)
  then show ?case
    by (cases "n < 16") (simp_all add: to_hex.simps [of n] hex_digit_lower_hex)
qed

lemma hex_value_to_hex [simp]: "hex_value (to_hex n) = n"
proof (induction n rule: to_hex.induct)
  case (1 n)
  then show ?case
    by (cases "n < 16")
       (simp_all add: to_hex.simps [of n] hex_value_def hex_digit_value_hex_digit)
qed

lemma to_hex_inject [simp]: "to_hex m = to_hex n \<longleftrightarrow> m = n"
  by (metis hex_value_to_hex)

lemma lower_hex_plain: "is_lower_hex c \<Longrightarrow> plain_byte c"
  by (auto simp: is_lower_hex_def is_ascii_digit_def plain_byte_def byte_between_def)

section \<open>Options and list scans\<close>

text \<open>\<open>iter().find_map\<close> and \<open>filter_map\<close>.\<close>

fun find_map :: "('a \<Rightarrow> 'b option) \<Rightarrow> 'a list \<Rightarrow> 'b option" where
  "find_map f [] = None"
| "find_map f (x # xs) = (case f x of Some y \<Rightarrow> Some y | None \<Rightarrow> find_map f xs)"

abbreviation filter_map :: "('a \<Rightarrow> 'b option) \<Rightarrow> 'a list \<Rightarrow> 'b list" where
  "filter_map \<equiv> List.map_filter"

lemma map_filter_map_option: "map f (filter_map g xs) = filter_map (\<lambda>x. map_option f (g x)) xs"
  by (induction xs) (auto split: option.splits)

lemma filter_map_of_map: "filter_map g (map f xs) = filter_map (\<lambda>x. g (f x)) xs"
  by (induction xs) (auto split: option.splits)

lemma in_set_filter_map: "y \<in> set (filter_map g xs) \<longleftrightarrow> (\<exists>x \<in> set xs. g x = Some y)"
  by (induction xs) (auto split: option.splits)

text \<open>\<open>slice.get(i)\<close> and \<open>slice.get(i..)\<close>.\<close>

definition get :: "'a list \<Rightarrow> nat \<Rightarrow> 'a option" where
  "get xs i = (if i < length xs then Some (xs ! i) else None)"

definition get_from :: "'a list \<Rightarrow> nat \<Rightarrow> 'a list option" where
  "get_from xs i = (if i \<le> length xs then Some (drop i xs) else None)"

definition first :: "'a list \<Rightarrow> 'a option" where
  "first xs = get xs 0"

lemma get_Some: "get xs i = Some x \<longleftrightarrow> i < length xs \<and> xs ! i = x"
  by (auto simp: get_def)

lemma get_None: "get xs i = None \<longleftrightarrow> length xs \<le> i"
  by (auto simp: get_def)

lemma get_code [simp]:
  "get [] i = None"
  "get (x # xs) 0 = Some x"
  "get (x # xs) (Suc i) = get xs i"
  by (auto simp: get_def)

lemma get_numeral [simp]: "get (x # xs) (numeral k) = get xs (pred_numeral k)"
  by (simp add: numeral_eq_Suc)

lemma get_one [simp]: "get (x # xs) 1 = get xs 0"
  by (simp add: get_def)

lemma first_code [simp]: "first [] = None" "first (x # xs) = Some x"
  by (simp_all add: first_def)

lemma first_Some: "first xs = Some x \<longleftrightarrow> (\<exists>r. xs = x # r)"
  by (cases xs) auto

lemma first_None: "first xs = None \<longleftrightarrow> xs = []"
  by (cases xs) auto

lemma get_from_suffix: "get_from xs i = Some r \<Longrightarrow> suffix r xs"
  by (auto simp: get_from_def suffix_drop split: if_splits)

section \<open>Positions\<close>

text \<open>\<open>s.is_char_boundary(i)\<close>: slices fail outside the string and inside a code point.\<close>

definition is_char_boundary :: "string \<Rightarrow> nat \<Rightarrow> bool" where
  "is_char_boundary s i \<longleftrightarrow>
     i = 0 \<or> i = length s \<or> i < length s \<and> \<not> byte_between 0x80 0xBF (s ! i)"

text \<open>\<open>iter().position(p)\<close> and \<open>Vec::remove\<close>.\<close>

fun position :: "('a \<Rightarrow> bool) \<Rightarrow> 'a list \<Rightarrow> nat option" where
  "position p [] = None"
| "position p (x # xs) = (if p x then Some 0 else map_option Suc (position p xs))"

definition remove_at :: "nat \<Rightarrow> 'a list \<Rightarrow> 'a list" where
  "remove_at i xs = take i xs @ drop (Suc i) xs"

lemma position_Some: "position p xs = Some i \<Longrightarrow> i < length xs \<and> p (xs ! i)"
  by (induction xs arbitrary: i) (auto split: if_splits)

lemma position_None: "position p xs = None \<longleftrightarrow> (\<forall>x \<in> set xs. \<not> p x)"
  by (induction xs) auto

lemma map_remove_at: "map f (remove_at i xs) = remove_at i (map f xs)"
  by (simp add: remove_at_def take_map drop_map)

lemma set_remove_at: "set (remove_at i xs) \<subseteq> set xs"
  using set_take_subset set_drop_subset by (fastforce simp: remove_at_def)

lemma distinct_remove_at:
  assumes "distinct xs" and "i < length xs"
  shows "distinct (remove_at i xs)" and "xs ! i \<notin> set (remove_at i xs)"
proof -
  have "xs = take i xs @ xs ! i # drop (Suc i) xs" using assms(2) by (rule id_take_nth_drop)
  with assms(1) have "distinct (take i xs @ xs ! i # drop (Suc i) xs)" by simp
  then show "distinct (remove_at i xs)" and "xs ! i \<notin> set (remove_at i xs)"
    by (auto simp: remove_at_def)
qed

lemma length_remove_at: "length (remove_at i xs) \<le> length xs"
  by (simp add: remove_at_def)

text \<open>\<open>while i < xs.len() && p(&xs[i]) { i += 1 }\<close>.\<close>

function skip_while :: "('a \<Rightarrow> bool) \<Rightarrow> 'a list \<Rightarrow> nat \<Rightarrow> nat" where
  "skip_while p xs i = (if i < length xs \<and> p (xs ! i) then skip_while p xs (Suc i) else i)"
  by pat_completeness auto
termination by (relation "measure (\<lambda>(p, xs, i). length xs - i)") auto

declare skip_while.simps [simp del]

lemma skip_while_ge: "i \<le> skip_while p xs i"
  by (induction p xs i rule: skip_while.induct) (subst skip_while.simps, auto)

lemma skip_while_takeWhile: "i \<le> length xs \<Longrightarrow> skip_while p xs i = i + length (takeWhile p (drop i xs))"
proof (induction p xs i rule: skip_while.induct)
  case (1 p xs i)
  show ?case
  proof (cases "i < length xs")
    case True
    then have "drop i xs = xs ! i # drop (Suc i) xs" by (rule Cons_nth_drop_Suc [symmetric])
    with 1 True show ?thesis by (subst skip_while.simps) simp
  qed (use 1 in \<open>subst skip_while.simps, simp\<close>)
qed

lemma skip_while_stops:
  assumes "i \<le> length xs"
  shows "skip_while p xs i \<le> length xs"
    and "skip_while p xs i < length xs \<Longrightarrow> \<not> p (xs ! skip_while p xs i)"
    and "i \<le> j \<Longrightarrow> j < skip_while p xs i \<Longrightarrow> p (xs ! j)"
proof -
  let ?run = "takeWhile p (drop i xs)"
  have e: "skip_while p xs i = i + length ?run" using assms by (rule skip_while_takeWhile)
  have len: "length ?run \<le> length xs - i" using length_takeWhile_le [of p "drop i xs"] by simp
  with assms e show "skip_while p xs i \<le> length xs" by simp
  show "\<not> p (xs ! skip_while p xs i)" if "skip_while p xs i < length xs"
    using nth_length_takeWhile [of p "drop i xs"] that e assms by simp
  show "p (xs ! j)" if j: "i \<le> j" "j < skip_while p xs i"
  proof -
    have k: "j - i < length ?run" using j e by simp
    then have "?run ! (j - i) = xs ! j" using takeWhile_nth [OF k] j len by simp
    then show ?thesis using nth_mem [OF k] set_takeWhileD by metis
  qed
qed

text \<open>\<open>a.saturating_add(b)\<close> on \<open>u32\<close>.\<close>

definition sat_add32 :: "nat \<Rightarrow> nat \<Rightarrow> nat" where
  "sat_add32 a b = min (a + b) u32_max"

lemma fold_sat_add32: "k \<le> u32_max \<Longrightarrow> fold (\<lambda>c a. sat_add32 a c) xs k = min (k + sum_list xs) u32_max"
proof (induction xs arbitrary: k)
  case (Cons x xs)
  have "sat_add32 k x \<le> u32_max" by (simp add: sat_add32_def)
  from Cons.IH [OF this] show ?case by (auto simp: sat_add32_def min_def)
qed simp

end
