(* ===== verification/Bash_Words.thy ===== *)
theory Bash_Words
  imports Rust_Prelude
begin

text \<open>
  Command words of the permission gates
  (\<open>crates/codegen/xai-grok-workspace/src/permission/bash_command_splitting.rs\<close>): the scan of
  \<open>env\<close> options, the peeling of wrapper commands (\<open>timeout\<close>, \<open>nice\<close>, \<open>env\<close>, \ldots) and of the
  shell-transparent prefixes (\<open>exec\<close>, \<open>command\<close>, \<open>builtin\<close>), their bounded alternation in
  \<open>normalize_command_words\<close>, and the walk of the parsed script.

  A slice of argv is the list it denotes; every peel returns a suffix of its argument, so the
  pointer comparison that ends \<open>normalize_command_words\<close> is a comparison of lengths.
  The loops over an index are functions of that index with the length still to scan as measure.
\<close>

type_synonym words = "string list"

section \<open>Scanning the options of env\<close>

definition is_env_assignment :: "string \<Rightarrow> bool" where
  "is_env_assignment tok =
     (case split_once (CHR ''='') tok of
        None \<Rightarrow> False
      | Some (name, _) \<Rightarrow>
          name \<noteq> [] \<and> (is_ascii_alphabetic (hd name) \<or> hd name = CHR ''_'') \<and>
          list_all (\<lambda>b. is_ascii_alphanumeric b \<or> b = CHR ''_'') name)"

record EnvScan =
  es_chdir :: "string option"
  es_has_split_string :: bool
  es_options_uncertain :: bool
  es_split_string_script :: "string option"
  es_command_start :: nat

text \<open>
  \<open>decode_shell_literal_spelling\<close>: the state is the open quote. The bytes it distinguishes are
  ASCII, so working on bytes and on code points gives the same text.
\<close>

fun decode_shell_chars :: "char option \<Rightarrow> string \<Rightarrow> string option" where
  "decode_shell_chars q [] = (if q = None then Some [] else None)"
| "decode_shell_chars None (c # s) =
     (if c = squote \<or> c = dquote then decode_shell_chars (Some c) s
      else if c = backslash then
        (case s of [] \<Rightarrow> None | n # r \<Rightarrow> map_option ((#) n) (decode_shell_chars None r))
      else map_option ((#) c) (decode_shell_chars None s))"
| "decode_shell_chars (Some q) (c # s) =
     (if c = q then decode_shell_chars None s
      else if q = dquote \<and> c = backslash then
        (case s of
           [] \<Rightarrow> None
         | n # r \<Rightarrow>
             (if n \<in> {CHR ''$'', CHR 0x60, dquote, backslash, newline}
              then map_option ((#) n) (decode_shell_chars (Some q) r)
              else map_option (\<lambda>out. backslash # n # out) (decode_shell_chars (Some q) r)))
      else map_option ((#) c) (decode_shell_chars (Some q) s))"

definition decode_shell_literal_spelling :: "string \<Rightarrow> string option" where
  "decode_shell_literal_spelling raw = decode_shell_chars None raw"

definition decode_env_option_token :: "string \<Rightarrow> string" where
  "decode_env_option_token raw =
     (if \<not> (squote \<in> set raw \<or> dquote \<in> set raw) then raw
      else case decode_shell_literal_spelling raw of Some decoded \<Rightarrow> decoded | None \<Rightarrow> raw)"

definition is_high_confidence_env_s_payload :: "string \<Rightarrow> bool" where
  "is_high_confidence_env_s_payload s \<longleftrightarrow>
     s \<noteq> [] \<and> CHR 0x00 \<notin> set s \<and>
     \<not> list_ex (\<lambda>c. c \<in> {squote, dquote, backslash, CHR ''#'', CHR 0x60, CHR ''$'',
                         newline, CHR 0x0D}) s"

definition take_high_confidence_payload :: "string \<Rightarrow> string option" where
  "take_high_confidence_payload raw =
     (if is_high_confidence_env_s_payload raw then Some raw else None)"

datatype EnvShort =
  SplitStringNext
| SplitStringGlued string
| SplitStringDetect
| NoArg
| ArgNeedNext char
| ArgGlued char
| Uncertain

text \<open>The loop over the letters of a short-option cluster.\<close>

fun classify_env_cluster :: "string \<Rightarrow> EnvShort" where
  "classify_env_cluster [] = NoArg"
| "classify_env_cluster (c # rest) =
     (if c \<in> {CHR ''i'', CHR ''v'', CHR ''0''} then classify_env_cluster rest
      else if c = CHR ''S'' then SplitStringDetect
      else if c \<in> {CHR ''u'', CHR ''C'', CHR ''P'', CHR ''a''}
      then (if rest \<noteq> [] then ArgGlued c else ArgNeedNext c)
      else Uncertain)"

definition classify_env_short :: "string \<Rightarrow> EnvShort" where
  "classify_env_short tok =
     (if \<not> starts_with tok ''-'' \<or> starts_with tok ''--'' \<or> tok = ''-'' then Uncertain
      else let body = tl tok in
        if body = [] then Uncertain
        else case strip_prefix ''S'' body of
               Some rest \<Rightarrow> if rest = [] then SplitStringNext else SplitStringGlued rest
             | None \<Rightarrow> classify_env_cluster body)"

text \<open>How the scan ends: at the command, on options of unknown arity, or on a packed string.\<close>

definition env_done :: "string option \<Rightarrow> nat \<Rightarrow> EnvScan" where
  "env_done chdir i =
     \<lparr>es_chdir = chdir, es_has_split_string = False, es_options_uncertain = False,
      es_split_string_script = None, es_command_start = i\<rparr>"

definition env_uncertain :: "string option \<Rightarrow> nat \<Rightarrow> EnvScan" where
  "env_uncertain chdir i = (env_done chdir i)\<lparr>es_options_uncertain := True\<rparr>"

definition env_split :: "string option \<Rightarrow> string option \<Rightarrow> nat \<Rightarrow> EnvScan" where
  "env_split chdir script i =
     (env_done chdir i)\<lparr>es_has_split_string := True, es_split_string_script := script\<rparr>"

function env_scan_from :: "words \<Rightarrow> string option \<Rightarrow> nat \<Rightarrow> EnvScan" where
  "env_scan_from cmd chdir i =
     (case get cmd i of
        None \<Rightarrow> env_done chdir i
      | Some tok_raw \<Rightarrow>
          if tok_raw = ''--'' then env_done chdir (i + 1)
          else if tok_raw = ''-'' then env_scan_from cmd chdir (i + 1)
          else if \<not> starts_with tok_raw ''-'' then
            (if is_env_assignment tok_raw then env_scan_from cmd chdir (i + 1)
             else env_done chdir i)
          else if starts_with tok_raw ''--'' then
            (if tok_raw = ''--chdir'' then
               (case get cmd (i + 1) of
                  Some dir \<Rightarrow> env_scan_from cmd (Some dir) (i + 2)
                | None \<Rightarrow> env_uncertain chdir i)
             else case strip_prefix ''--chdir='' tok_raw of
               Some dir \<Rightarrow> env_scan_from cmd (Some dir) (i + 1)
             | None \<Rightarrow>
             if tok_raw \<in> {''--unset'', ''--path'', ''--argv0''} then
               (case get cmd (i + 1) of
                  None \<Rightarrow> env_uncertain chdir i
                | Some _ \<Rightarrow> env_scan_from cmd chdir (i + 2))
             else if starts_with tok_raw ''--unset='' \<or> starts_with tok_raw ''--path='' \<or>
                     starts_with tok_raw ''--argv0=''
             then env_scan_from cmd chdir (i + 1)
             else if tok_raw \<in> {''--ignore-environment'', ''--null'', ''--debug'',
                                ''--version'', ''--help''}
             then env_scan_from cmd chdir (i + 1)
             else if tok_raw = ''--split-string'' then
               env_split chdir
                 (case get cmd (i + 1) of
                    Some raw \<Rightarrow> take_high_confidence_payload raw | None \<Rightarrow> None) i
             else case strip_prefix ''--split-string='' tok_raw of
               Some payload \<Rightarrow>
                 env_split chdir
                   (take_high_confidence_payload
                     (case strip_prefix ''--split-string='' (decode_env_option_token tok_raw) of
                        Some p \<Rightarrow> p | None \<Rightarrow> payload)) i
             | None \<Rightarrow> env_uncertain chdir i)
          else case classify_env_short (decode_env_option_token tok_raw) of
            SplitStringNext \<Rightarrow>
              env_split chdir
                (case get cmd (i + 1) of
                   Some raw \<Rightarrow> take_high_confidence_payload raw | None \<Rightarrow> None) i
          | SplitStringGlued payload \<Rightarrow> env_split chdir (take_high_confidence_payload payload) i
          | SplitStringDetect \<Rightarrow> env_split chdir None i
          | NoArg \<Rightarrow> env_scan_from cmd chdir (i + 1)
          | ArgNeedNext kind \<Rightarrow>
              (case get cmd (i + 1) of
                 Some operand \<Rightarrow>
                   env_scan_from cmd (if kind = CHR ''C'' then Some operand else chdir) (i + 2)
               | None \<Rightarrow> env_uncertain chdir i)
          | ArgGlued kind \<Rightarrow>
              env_scan_from cmd
                (if kind = CHR ''C''
                 then Some (case strip_prefix ''-C'' tok_raw of Some d \<Rightarrow> d | None \<Rightarrow> [])
                 else chdir) (i + 1)
          | Uncertain \<Rightarrow> env_uncertain chdir i)"
  by pat_completeness auto
termination
  by (relation "measure (\<lambda>(cmd, chdir, i). length cmd - i)")
     (auto simp: get_Some)

declare env_scan_from.simps [simp del]

definition env_scan :: "words \<Rightarrow> EnvScan" where
  "env_scan cmd = env_scan_from cmd None 1"

definition env_split_string_script :: "words \<Rightarrow> string option" where
  "env_split_string_script ws =
     (case first ws of
        None \<Rightarrow> None
      | Some h \<Rightarrow>
          if last_component h \<noteq> ''env'' then None
          else let scan = env_scan ws in
            if \<not> es_has_split_string scan then None else es_split_string_script scan)"

section \<open>Peeling wrapper commands\<close>

definition is_setup_command :: "words \<Rightarrow> bool" where
  "is_setup_command cmd =
     (case cmd of
        [] \<Rightarrow> True
      | h # _ \<Rightarrow> h \<in> {''cd'', ''pushd'', ''popd'', ''export'', ''unset'', ''set'', ''sleep'', ''timeout''})"

text \<open>\<open>while i < cmd.len() && cmd[i].starts_with('-')\<close>, skipping the value of the options in \<open>vals\<close>.\<close>

function skip_options :: "string list \<Rightarrow> words \<Rightarrow> nat \<Rightarrow> nat" where
  "skip_options vals cmd i =
     (if i < length cmd \<and> starts_with (cmd ! i) ''-''
      then skip_options vals cmd (if cmd ! i \<in> set vals then i + 2 else i + 1)
      else i)"
  by pat_completeness auto
termination
  by (relation "measure (\<lambda>(vals, cmd, i). length cmd - i)") auto

declare skip_options.simps [simp del]

text \<open>Skip the options, then one mandatory operand; \<open>None\<close> when it is missing.\<close>

definition skip_options_and_operand :: "string list \<Rightarrow> words \<Rightarrow> nat option" where
  "skip_options_and_operand vals cmd =
     (let i = skip_options vals cmd 1 in if i \<ge> length cmd then None else Some (i + 1))"

definition wrapper_command_start :: "string \<Rightarrow> words \<Rightarrow> nat option" where
  "wrapper_command_start head cmd =
     (if head = ''timeout'' then
        skip_options_and_operand [''-k'', ''-s'', ''--kill-after'', ''--signal''] cmd
      else if head = ''nice'' then Some (skip_options [''-n'', ''--adjustment''] cmd 1)
      else if head = ''ionice'' then
        Some (skip_options [''-c'', ''-n'', ''-p'', ''-P'', ''-u'', ''--class'', ''--classdata'',
                            ''--pid'', ''--pgid'', ''--uid''] cmd 1)
      else if head = ''chrt'' then skip_options_and_operand [] cmd
      else if head = ''stdbuf'' then Some (skip_options [''-i'', ''-o'', ''-e''] cmd 1)
      else if head = ''env'' then
        (let scan = env_scan cmd in
         if es_has_split_string scan \<or> es_options_uncertain scan then None
         else Some (es_command_start scan))
      else None)"

definition strip_wrapper_command :: "words \<Rightarrow> words option" where
  "strip_wrapper_command cmd =
     (case first cmd of
        None \<Rightarrow> None
      | Some h \<Rightarrow>
          (case wrapper_command_start (last_component h) cmd of
             None \<Rightarrow> None
           | Some i \<Rightarrow>
               (case get_from cmd i of
                  None \<Rightarrow> None
                | Some inner \<Rightarrow> if inner = [] then None else Some inner)))"

definition is_wrapper_command :: "words \<Rightarrow> bool" where
  "is_wrapper_command ws =
     (case first ws of
        None \<Rightarrow> False
      | Some w \<Rightarrow> last_component w \<in>
          {''timeout'', ''nice'', ''ionice'', ''chrt'', ''stdbuf'', ''env''})"

definition MAX_WRAPPER_DEPTH :: nat where "MAX_WRAPPER_DEPTH = 8"
definition MAX_INLINE_SHELL_DEPTH :: nat where "MAX_INLINE_SHELL_DEPTH = 8"

record CheckedWrapperPeel =
  cw_words :: words
  cw_has_chdir :: bool
  cw_has_split_string :: bool
  cw_env_options_uncertain :: bool
  cw_exhausted :: bool

definition head_is_env :: "words \<Rightarrow> bool" where
  "head_is_env ws = (case first ws of None \<Rightarrow> False | Some w \<Rightarrow> last_component w = ''env'')"

fun unwrap_wrappers_loop :: "nat \<Rightarrow> words \<Rightarrow> bool \<Rightarrow> bool \<Rightarrow> bool \<Rightarrow> CheckedWrapperPeel" where
  "unwrap_wrappers_loop 0 current has_chdir has_split uncertain =
     \<lparr>cw_words = current, cw_has_chdir = has_chdir, cw_has_split_string = has_split,
      cw_env_options_uncertain = uncertain,
      cw_exhausted = (is_wrapper_command current \<and> strip_wrapper_command current \<noteq> None)\<rparr>"
| "unwrap_wrappers_loop (Suc n) current has_chdir has_split uncertain =
     (let scan = env_scan current; is_env = head_is_env current;
          has_chdir = (has_chdir \<or> is_env \<and> es_chdir scan \<noteq> None);
          has_split = (has_split \<or> is_env \<and> es_has_split_string scan);
          uncertain = (uncertain \<or> is_env \<and> es_options_uncertain scan)
      in case strip_wrapper_command current of
           Some inner \<Rightarrow> unwrap_wrappers_loop n inner has_chdir has_split uncertain
         | None \<Rightarrow>
             \<lparr>cw_words = current, cw_has_chdir = has_chdir, cw_has_split_string = has_split,
              cw_env_options_uncertain = uncertain, cw_exhausted = False\<rparr>)"

definition unwrap_wrappers_checked :: "words \<Rightarrow> CheckedWrapperPeel" where
  "unwrap_wrappers_checked ws = unwrap_wrappers_loop MAX_WRAPPER_DEPTH ws False False False"

definition unwrap_wrappers :: "words \<Rightarrow> words" where
  "unwrap_wrappers ws = cw_words (unwrap_wrappers_checked ws)"

section \<open>Peeling shell-transparent prefixes\<close>

datatype TransparentStrip = NotPrefix | Peeled words | Ambiguous
datatype TransparentPrefixPeel = Ready words | AmbiguousPeel

text \<open>What remains after the options: a command word to peel to, or nothing.\<close>

definition peel_from :: "words \<Rightarrow> nat \<Rightarrow> TransparentStrip" where
  "peel_from cmd i =
     (case get_from cmd i of
        Some inner \<Rightarrow> if inner \<noteq> [] then Peeled inner else NotPrefix
      | None \<Rightarrow> NotPrefix)"

function strip_exec_from :: "words \<Rightarrow> nat \<Rightarrow> TransparentStrip" where
  "strip_exec_from cmd i =
     (case get cmd i of
        None \<Rightarrow> peel_from cmd i
      | Some tok \<Rightarrow>
          if tok = ''--'' then peel_from cmd (i + 1)
          else if tok = ''-'' \<or> \<not> starts_with tok ''-'' then peel_from cmd i
          else if tok \<in> {''-c'', ''-l'', ''-cl'', ''-lc''} then strip_exec_from cmd (i + 1)
          else if tok = ''-a'' then
            (case get cmd (i + 1) of
               Some v \<Rightarrow>
                 if v \<noteq> [CHR 0x00] \<and> v \<noteq> [] then strip_exec_from cmd (i + 2) else Ambiguous
             | None \<Rightarrow> Ambiguous)
          else if starts_with tok ''-a'' then
            (if strip_prefix ''-a'' tok = Some [CHR 0x00] then Ambiguous
             else strip_exec_from cmd (i + 1))
          else if \<not> starts_with tok ''--'' \<and>
                  list_all (\<lambda>c. c = CHR ''c'' \<or> c = CHR ''l'') (tl tok)
          then strip_exec_from cmd (i + 1)
          else Ambiguous)"
  by pat_completeness auto
termination
  by (relation "measure (\<lambda>(cmd, i). length cmd - i)") (auto simp: get_Some)

declare strip_exec_from.simps [simp del]

definition strip_exec_prefix :: "words \<Rightarrow> TransparentStrip" where
  "strip_exec_prefix cmd = strip_exec_from cmd 1"

function strip_command_from :: "words \<Rightarrow> nat \<Rightarrow> TransparentStrip" where
  "strip_command_from cmd i =
     (case get cmd i of
        None \<Rightarrow> peel_from cmd i
      | Some tok \<Rightarrow>
          if tok = ''--'' then peel_from cmd (i + 1)
          else if tok = ''-'' \<or> \<not> starts_with tok ''-'' then peel_from cmd i
          else if tok \<in> {''-v'', ''-V'', ''--help'', ''--version''} \<or>
                  \<not> starts_with tok ''--'' \<and>
                  list_ex (\<lambda>c. c = CHR ''v'' \<or> c = CHR ''V'') (tl tok)
          then NotPrefix
          else if tok = ''-p'' \<or>
                  \<not> starts_with tok ''--'' \<and> list_all (\<lambda>c. c = CHR ''p'') (tl tok)
          then strip_command_from cmd (i + 1)
          else Ambiguous)"
  by pat_completeness auto
termination
  by (relation "measure (\<lambda>(cmd, i). length cmd - i)") (auto simp: get_Some)

declare strip_command_from.simps [simp del]

definition strip_command_prefix :: "words \<Rightarrow> TransparentStrip" where
  "strip_command_prefix cmd = strip_command_from cmd 1"

definition strip_builtin_prefix :: "words \<Rightarrow> TransparentStrip" where
  "strip_builtin_prefix cmd =
     (case get cmd 1 of
        None \<Rightarrow> NotPrefix
      | Some tok \<Rightarrow>
          if starts_with tok ''-'' \<and> tok \<noteq> ''-'' then Ambiguous else peel_from cmd 1)"

definition strip_transparent_prefix :: "words \<Rightarrow> TransparentStrip" where
  "strip_transparent_prefix cmd =
     (case first cmd of
        None \<Rightarrow> NotPrefix
      | Some h \<Rightarrow>
          if h = [] \<or> h = [CHR 0x00] then NotPrefix
          else let head = last_component h in
            if head = ''exec'' then strip_exec_prefix cmd
            else if head = ''command'' then strip_command_prefix cmd
            else if head = ''builtin'' then strip_builtin_prefix cmd
            else NotPrefix)"

definition MAX_TRANSPARENT_PREFIX_DEPTH :: nat where "MAX_TRANSPARENT_PREFIX_DEPTH = 8"

fun peel_transparent_loop :: "nat \<Rightarrow> words \<Rightarrow> TransparentPrefixPeel" where
  "peel_transparent_loop 0 current =
     (case strip_transparent_prefix current of
        NotPrefix \<Rightarrow> Ready current
      | Peeled _ \<Rightarrow> AmbiguousPeel
      | Ambiguous \<Rightarrow> AmbiguousPeel)"
| "peel_transparent_loop (Suc n) current =
     (case strip_transparent_prefix current of
        NotPrefix \<Rightarrow> Ready current
      | Peeled inner \<Rightarrow> peel_transparent_loop n inner
      | Ambiguous \<Rightarrow> AmbiguousPeel)"

definition peel_transparent_prefixes :: "words \<Rightarrow> TransparentPrefixPeel" where
  "peel_transparent_prefixes ws = peel_transparent_loop MAX_TRANSPARENT_PREFIX_DEPTH ws"

section \<open>The bounded alternation of both peels\<close>

definition MAX_NORMALIZE_ROUNDS :: nat where
  "MAX_NORMALIZE_ROUNDS = MAX_WRAPPER_DEPTH + MAX_TRANSPARENT_PREFIX_DEPTH"

record NormalizedCommandPeel =
  nc_words :: words
  nc_has_chdir :: bool
  nc_has_split_string :: bool
  nc_env_options_uncertain :: bool
  nc_exhausted :: bool
  nc_ambiguous :: bool

definition absorb_wrapped :: "CheckedWrapperPeel \<Rightarrow> NormalizedCommandPeel \<Rightarrow> NormalizedCommandPeel" where
  "absorb_wrapped w st =
     st\<lparr>nc_words := cw_words w,
        nc_has_chdir := nc_has_chdir st \<or> cw_has_chdir w,
        nc_has_split_string := nc_has_split_string st \<or> cw_has_split_string w,
        nc_env_options_uncertain := nc_env_options_uncertain st \<or> cw_env_options_uncertain w,
        nc_exhausted := nc_exhausted st \<or> cw_exhausted w\<rparr>"

fun normalize_rounds :: "nat \<Rightarrow> NormalizedCommandPeel \<Rightarrow> NormalizedCommandPeel" where
  "normalize_rounds 0 st = st"
| "normalize_rounds (Suc n) st =
     (let start_len = length (nc_words st);
          st = absorb_wrapped (unwrap_wrappers_checked (nc_words st)) st
      in if nc_has_split_string st \<or> nc_env_options_uncertain st then st
         else case peel_transparent_prefixes (nc_words st) of
                AmbiguousPeel \<Rightarrow> st\<lparr>nc_ambiguous := True\<rparr>
              | Ready inner \<Rightarrow>
                  if length inner = start_len then st\<lparr>nc_words := inner\<rparr>
                  else normalize_rounds n (st\<lparr>nc_words := inner\<rparr>))"

definition mark_still_peelable :: "NormalizedCommandPeel \<Rightarrow> NormalizedCommandPeel" where
  "mark_still_peelable st =
     (if \<not> nc_ambiguous st \<and> \<not> nc_has_split_string st \<and> \<not> nc_env_options_uncertain st \<and>
         (is_wrapper_command (nc_words st) \<and> strip_wrapper_command (nc_words st) \<noteq> None \<or>
          strip_transparent_prefix (nc_words st) \<noteq> NotPrefix)
      then st\<lparr>nc_exhausted := True\<rparr> else st)"

definition normalize_command_words :: "words \<Rightarrow> NormalizedCommandPeel" where
  "normalize_command_words ws =
     mark_still_peelable
       (normalize_rounds MAX_NORMALIZE_ROUNDS
          \<lparr>nc_words = ws, nc_has_chdir = False, nc_has_split_string = False,
           nc_env_options_uncertain = False, nc_exhausted = False, nc_ambiguous = False\<rparr>)"

text \<open>The fail-closed flags every caller checks before it trusts the peeled words.\<close>

definition nc_untrusted :: "NormalizedCommandPeel \<Rightarrow> bool" where
  "nc_untrusted n \<longleftrightarrow>
     nc_exhausted n \<or> nc_ambiguous n \<or> nc_env_options_uncertain n \<or> nc_has_split_string n"

section \<open>Peeling as repeated stripping\<close>

text \<open>
  Both peels iterate a function that removes a prefix of argv and never removes all of it.
  The interface below is that contract; its lemmas say where a bounded iteration ends.
\<close>

fun peel_upto :: "('a list \<Rightarrow> 'a list option) \<Rightarrow> nat \<Rightarrow> 'a list \<Rightarrow> 'a list" where
  "peel_upto strip 0 xs = xs"
| "peel_upto strip (Suc n) xs = (case strip xs of None \<Rightarrow> xs | Some ys \<Rightarrow> peel_upto strip n ys)"

locale peeler =
  fixes strip :: "'a list \<Rightarrow> 'a list option"
  assumes strip_is_suffix: "strip xs = Some ys \<Longrightarrow> suffix ys xs"
    and strip_shortens: "strip xs = Some ys \<Longrightarrow> length ys < length xs"
    and strip_keeps_command: "strip xs = Some ys \<Longrightarrow> ys \<noteq> []"
begin

lemma peel_suffix: "suffix (peel_upto strip n xs) xs"
proof (induction n arbitrary: xs)
  case 0
  show ?case by simp
next
  case (Suc n)
  then show ?case
    by (cases "strip xs") (auto dest: strip_is_suffix intro: suffix_order.trans)
qed

lemma peel_keeps_command: "xs \<noteq> [] \<Longrightarrow> peel_upto strip n xs \<noteq> []"
proof (induction n arbitrary: xs)
  case 0
  then show ?case by simp
next
  case (Suc n)
  then show ?case
    by (cases "strip xs") (auto dest: strip_keeps_command)
qed

lemma peel_reaches_fixpoint: "length xs \<le> Suc n \<Longrightarrow> strip (peel_upto strip n xs) = None"
proof (induction n arbitrary: xs)
  case 0
  show ?case
  proof (cases "strip xs")
    case (Some ys)
    then have "length ys < length xs" and "ys \<noteq> []"
      by (auto dest: strip_shortens strip_keeps_command)
    with 0 have False by (cases ys) auto
    then show ?thesis ..
  qed simp
next
  case (Suc n)
  show ?case
  proof (cases "strip xs")
    case (Some ys)
    then have "length ys \<le> Suc n" using Suc.prems by (auto dest: strip_shortens)
    with Suc.IH Some show ?thesis by simp
  qed simp
qed

lemma peel_stable: "strip (peel_upto strip n xs) = None \<Longrightarrow> peel_upto strip (n + k) xs = peel_upto strip n xs"
proof (induction n arbitrary: xs)
  case 0
  then show ?case by (cases k) auto
next
  case (Suc n)
  then show ?case by (cases "strip xs") auto
qed

end

section \<open>What each strip returns\<close>

inductive env_result_from :: "nat \<Rightarrow> EnvScan \<Rightarrow> bool" for i where
  er_done: "i \<le> j \<Longrightarrow> env_result_from i (env_done c j)"
| er_uncertain: "i \<le> j \<Longrightarrow> env_result_from i (env_uncertain c j)"
| er_split: "i \<le> j \<Longrightarrow> env_result_from i (env_split c script j)"

lemma env_result_mono: "env_result_from j r \<Longrightarrow> i \<le> j \<Longrightarrow> env_result_from i r"
  by (induction rule: env_result_from.induct) (auto intro: env_result_from.intros)

lemma env_result_branches:
  "env_result_from i x \<Longrightarrow> env_result_from i y \<Longrightarrow> env_result_from i (if b then x else y)"
  "env_result_from i x \<Longrightarrow> (\<And>v. env_result_from i (f v)) \<Longrightarrow>
     env_result_from i (case opt of None \<Rightarrow> x | Some v \<Rightarrow> f v)"
  "env_result_from i a1 \<Longrightarrow> (\<And>v. env_result_from i (a2 v)) \<Longrightarrow> env_result_from i a3 \<Longrightarrow>
     env_result_from i a4 \<Longrightarrow> (\<And>v. env_result_from i (a5 v)) \<Longrightarrow>
     (\<And>v. env_result_from i (a6 v)) \<Longrightarrow> env_result_from i a7 \<Longrightarrow>
     env_result_from i (case e of SplitStringNext \<Rightarrow> a1 | SplitStringGlued v \<Rightarrow> a2 v
       | SplitStringDetect \<Rightarrow> a3 | NoArg \<Rightarrow> a4 | ArgNeedNext v \<Rightarrow> a5 v | ArgGlued v \<Rightarrow> a6 v
       | Uncertain \<Rightarrow> a7)"
  by (simp_all split: option.split EnvShort.split)

text \<open>The scan always ends in one of its three ways, at or after the index it started from.\<close>

lemma env_scan_outcome: "env_result_from i (env_scan_from cmd chdir i)"
proof (induction "length cmd - i" arbitrary: chdir i rule: less_induct)
  case less
  show ?case
  proof (cases "get cmd i")
    case None
    then show ?thesis
      by (simp add: env_scan_from.simps [of cmd chdir i] er_done)
  next
    case (Some tok)
    then have lt: "i < length cmd" by (simp add: get_Some)
    have IH: "env_result_from i (env_scan_from cmd c (i + 1))"
      "env_result_from i (env_scan_from cmd c (i + 2))" for c
      using less [of "i + 1" c] less [of "i + 2" c] lt
      by (auto intro: env_result_mono [of "i + 1"] env_result_mono [of "i + 2"])
    show ?thesis
      unfolding env_scan_from.simps [of cmd chdir i] Some option.case
      by (intro env_result_branches IH env_result_from.intros le_add1 order_refl)
  qed
qed

lemma env_scan_start: "1 \<le> es_command_start (env_scan cmd)"
  using env_scan_outcome [of 1 cmd None]
  by (auto simp: env_scan_def env_done_def env_uncertain_def env_split_def
      elim!: env_result_from.cases)

lemma env_scan_exclusive: "\<not> (es_has_split_string (env_scan cmd) \<and> es_options_uncertain (env_scan cmd))"
  using env_scan_outcome [of 1 cmd None]
  by (auto simp: env_scan_def env_done_def env_uncertain_def env_split_def
      elim!: env_result_from.cases)

lemma skip_options_ge: "i \<le> skip_options vals cmd i"
proof (induction vals cmd i rule: skip_options.induct)
  case (1 vals cmd i)
  then show ?case by (auto simp: skip_options.simps [of vals cmd i])
qed

lemma skip_options_stop:
  "i \<ge> length cmd \<or> \<not> starts_with (cmd ! i) ''-'' \<Longrightarrow> skip_options vals cmd i = i"
  by (auto simp: skip_options.simps [of vals cmd i])

lemma wrapper_command_start_pos: "wrapper_command_start head cmd = Some i \<Longrightarrow> 1 \<le> i"
  using skip_options_ge [of 1] env_scan_start [of cmd]
  by (auto simp: wrapper_command_start_def skip_options_and_operand_def Let_def
      split: if_splits intro: order_trans)

lemma strip_wrapper_command_Some:
  assumes "strip_wrapper_command cmd = Some inner"
  obtains i where "1 \<le> i" and "inner = drop i cmd" and "inner \<noteq> []"
proof -
  from assms obtain h i where "wrapper_command_start (last_component h) cmd = Some i"
    and "inner = drop i cmd" and "inner \<noteq> []"
    by (auto simp: strip_wrapper_command_def get_from_def split: option.splits if_splits)
  then show ?thesis using that wrapper_command_start_pos by blast
qed

lemma wrapper_heads:
  "wrapper_command_start head cmd \<noteq> None \<Longrightarrow>
   head \<in> {''timeout'', ''nice'', ''ionice'', ''chrt'', ''stdbuf'', ''env''}"
  by (rule ccontr) (simp add: wrapper_command_start_def)

lemma strip_wrapper_is_wrapper: "strip_wrapper_command cmd \<noteq> None \<Longrightarrow> is_wrapper_command cmd"
  using wrapper_heads
  by (auto simp: strip_wrapper_command_def is_wrapper_command_def split: option.splits)

interpretation wrapper: peeler strip_wrapper_command
proof
  fix xs ys :: words
  assume "strip_wrapper_command xs = Some ys"
  then obtain i where "1 \<le> i" "ys = drop i xs" "ys \<noteq> []"
    by (rule strip_wrapper_command_Some)
  then show "suffix ys xs" "length ys < length xs" "ys \<noteq> []"
    by (auto simp: suffix_drop)
qed

text \<open>The words of \<open>unwrap_wrappers_checked\<close> are the bounded peel, and its exhaustion flag is exact.\<close>

lemma unwrap_loop_words:
  "cw_words (unwrap_wrappers_loop n ws c s u) = peel_upto strip_wrapper_command n ws"
  by (induction n arbitrary: ws c s u) (auto simp: Let_def split: option.splits)

lemma unwrap_loop_exhausted:
  "cw_exhausted (unwrap_wrappers_loop n ws c s u) \<longleftrightarrow>
   strip_wrapper_command (peel_upto strip_wrapper_command n ws) \<noteq> None"
  by (induction n arbitrary: ws c s u)
     (auto simp: Let_def strip_wrapper_is_wrapper split: option.splits)

lemma unwrap_wrappers_words:
  "cw_words (unwrap_wrappers_checked ws) = peel_upto strip_wrapper_command MAX_WRAPPER_DEPTH ws"
  by (simp add: unwrap_wrappers_checked_def unwrap_loop_words)

lemma peel_from_Peeled: "peel_from cmd i = Peeled inner \<longleftrightarrow> i \<le> length cmd \<and> inner = drop i cmd \<and> inner \<noteq> []"
  by (auto simp: peel_from_def get_from_def split: option.splits if_splits)

lemma strip_exec_from_Peeled:
  "strip_exec_from cmd i = Peeled inner \<Longrightarrow> \<exists>j \<ge> i. peel_from cmd j = Peeled inner"
proof (induction "length cmd - i" arbitrary: i rule: less_induct)
  case less
  show ?case
  proof (cases "get cmd i")
    case None
    with less.prems show ?thesis by (auto simp: strip_exec_from.simps [of cmd i])
  next
    case (Some tok)
    then have lt: "i < length cmd" by (simp add: get_Some)
    have IH: "\<exists>j \<ge> i. peel_from cmd j = Peeled inner"
      if "strip_exec_from cmd (i + 1) = Peeled inner \<or> strip_exec_from cmd (i + 2) = Peeled inner"
      using that less.hyps [of "i + 1"] less.hyps [of "i + 2"] lt
      by (meson add_leD1 diff_less_mono2 less_add_one less_add_same_cancel1 zero_less_numeral)
    from less.prems Some
    have "peel_from cmd (i + 1) = Peeled inner \<or> peel_from cmd i = Peeled inner \<or>
      strip_exec_from cmd (i + 1) = Peeled inner \<or> strip_exec_from cmd (i + 2) = Peeled inner"
      unfolding strip_exec_from.simps [of cmd i] Some option.case
      by (simp split: if_splits option.splits del: starts_with_code strip_prefix.simps
          One_nat_def add_2_eq_Suc' add_Suc_right)
    then show ?thesis using IH by (metis le_add1 order_refl)
  qed
qed

lemma strip_command_from_Peeled:
  "strip_command_from cmd i = Peeled inner \<Longrightarrow> \<exists>j \<ge> i. peel_from cmd j = Peeled inner"
proof (induction "length cmd - i" arbitrary: i rule: less_induct)
  case less
  show ?case
  proof (cases "get cmd i")
    case None
    with less.prems show ?thesis by (auto simp: strip_command_from.simps [of cmd i])
  next
    case (Some tok)
    then have lt: "i < length cmd" by (simp add: get_Some)
    have IH: "\<exists>j \<ge> i. peel_from cmd j = Peeled inner"
      if "strip_command_from cmd (i + 1) = Peeled inner"
      using that less.hyps [of "i + 1"] lt
      by (meson add_leD1 diff_less_mono2 less_add_one)
    from less.prems Some
    have "peel_from cmd (i + 1) = Peeled inner \<or> peel_from cmd i = Peeled inner \<or>
      strip_command_from cmd (i + 1) = Peeled inner"
      unfolding strip_command_from.simps [of cmd i] Some option.case
      by (simp split: if_splits del: starts_with_code One_nat_def add_Suc_right)
    then show ?thesis using IH by (metis le_add1 order_refl)
  qed
qed

text \<open>The transparent strip seen as an optional peel.\<close>

definition transparent_inner :: "words \<Rightarrow> words option" where
  "transparent_inner cmd =
     (case strip_transparent_prefix cmd of Peeled inner \<Rightarrow> Some inner | _ \<Rightarrow> None)"

lemma transparent_inner_Some:
  assumes "transparent_inner cmd = Some inner"
  obtains j where "1 \<le> j" and "inner = drop j cmd" and "inner \<noteq> []"
proof -
  from assms have "strip_transparent_prefix cmd = Peeled inner"
    by (auto simp: transparent_inner_def split: TransparentStrip.splits)
  then consider "strip_exec_from cmd 1 = Peeled inner" | "strip_command_from cmd 1 = Peeled inner"
    | "peel_from cmd 1 = Peeled inner"
    by (auto simp: strip_transparent_prefix_def strip_exec_prefix_def strip_command_prefix_def
        strip_builtin_prefix_def Let_def split: option.splits if_splits)
  then have "\<exists>j \<ge> 1. peel_from cmd j = Peeled inner"
    by cases (auto dest: strip_exec_from_Peeled strip_command_from_Peeled)
  then show ?thesis using that by (auto simp: peel_from_Peeled)
qed

interpretation transparent: peeler transparent_inner
proof
  fix xs ys :: words
  assume "transparent_inner xs = Some ys"
  then obtain i where "1 \<le> i" "ys = drop i xs" "ys \<noteq> []"
    by (rule transparent_inner_Some)
  then show "suffix ys xs" "length ys < length xs" "ys \<noteq> []"
    by (auto simp: suffix_drop)
qed

lemma peel_transparent_Ready:
  "peel_transparent_loop n ws = Ready inner \<Longrightarrow>
   inner = peel_upto transparent_inner n ws \<and> strip_transparent_prefix inner = NotPrefix"
  by (induction n arbitrary: ws)
     (auto simp: transparent_inner_def split: TransparentStrip.splits)

section \<open>The reference peel\<close>

text \<open>
  The reference for the bounded alternation: strip whichever prefix is there, one at a time, until
  none is. The two kinds of prefix have different head words, so the order of stripping does not
  matter.
\<close>

definition strip_any :: "words \<Rightarrow> words option" where
  "strip_any ws =
     (case strip_wrapper_command ws of Some inner \<Rightarrow> Some inner | None \<Rightarrow> transparent_inner ws)"

definition fully_peeled :: "words \<Rightarrow> words" where
  "fully_peeled ws = peel_upto strip_any (length ws) ws"

interpretation any_prefix: peeler strip_any
proof
  fix xs ys :: words
  assume "strip_any xs = Some ys"
  then show "suffix ys xs" "length ys < length xs" "ys \<noteq> []"
    by (auto simp: strip_any_def split: option.splits
        dest: wrapper.strip_is_suffix wrapper.strip_shortens wrapper.strip_keeps_command
          transparent.strip_is_suffix transparent.strip_shortens transparent.strip_keeps_command)
qed

lemma transparent_not_wrapper:
  assumes "transparent_inner ws = Some inner"
  shows "strip_wrapper_command ws = None"
proof (rule ccontr)
  assume "strip_wrapper_command ws \<noteq> None"
  then have "is_wrapper_command ws" by (rule strip_wrapper_is_wrapper)
  with assms show False
    by (auto simp: transparent_inner_def strip_transparent_prefix_def is_wrapper_command_def
        Let_def split: option.splits if_splits TransparentStrip.splits)
qed

lemma strip_any_wrapper: "strip_wrapper_command ws = Some inner \<Longrightarrow> strip_any ws = Some inner"
  by (simp add: strip_any_def)

lemma strip_any_transparent: "transparent_inner ws = Some inner \<Longrightarrow> strip_any ws = Some inner"
  by (simp add: strip_any_def transparent_not_wrapper)

lemma peel_upto_add: "peel_upto f (m + n) xs = peel_upto f n (peel_upto f m xs)"
proof (induction m arbitrary: xs)
  case 0
  show ?case by simp
next
  case (Suc m)
  show ?case
  proof (cases "f xs")
    case None
    then have "peel_upto f k xs = xs" for k by (cases k) auto
    then show ?thesis by metis
  qed (simp add: Suc)
qed

definition peels_to :: "words \<Rightarrow> words \<Rightarrow> bool" where
  "peels_to ws ws' \<longleftrightarrow> (\<exists>k. peel_upto strip_any k ws = ws')"

lemma peels_to_refl: "peels_to ws ws"
  unfolding peels_to_def by (rule exI [of _ 0]) simp

lemma peels_to_trans: "peels_to a b \<Longrightarrow> peels_to b c \<Longrightarrow> peels_to a c"
  by (metis peels_to_def peel_upto_add)

lemma peel_upto_peels_to:
  assumes "\<And>xs ys. f xs = Some ys \<Longrightarrow> strip_any xs = Some ys"
  shows "peels_to ws (peel_upto f n ws)"
proof (induction n arbitrary: ws)
  case 0
  show ?case by (simp add: peels_to_refl)
next
  case (Suc n)
  show ?case
  proof (cases "f ws")
    case None
    then show ?thesis by (simp add: peels_to_refl)
  next
    case (Some inner)
    then have "peel_upto strip_any 1 ws = inner" by (simp add: assms)
    then have "peels_to ws inner" unfolding peels_to_def by blast
    with Suc.IH [of inner] Some show ?thesis by (auto intro: peels_to_trans)
  qed
qed

lemma peels_to_fixpoint:
  assumes "peels_to ws ws'" and "strip_any ws' = None"
  shows "ws' = fully_peeled ws"
proof -
  obtain k where k: "peel_upto strip_any k ws = ws'" using assms(1) by (auto simp: peels_to_def)
  have "strip_any (fully_peeled ws) = None"
    unfolding fully_peeled_def by (rule any_prefix.peel_reaches_fixpoint) simp
  then have "peel_upto strip_any (length ws + k) ws = fully_peeled ws"
    unfolding fully_peeled_def by (rule any_prefix.peel_stable)
  moreover have "peel_upto strip_any (k + length ws) ws = ws'"
    using any_prefix.peel_stable [of k ws "length ws"] k assms(2) by simp
  ultimately show ?thesis by (simp add: add.commute)
qed

lemma normalize_rounds_peels: "peels_to (nc_words st) (nc_words (normalize_rounds n st))"
proof (induction n arbitrary: st)
  case 0
  show ?case by (simp add: peels_to_refl)
next
  case (Suc n)
  let ?st = "absorb_wrapped (unwrap_wrappers_checked (nc_words st)) st"
  have wrapped: "peels_to (nc_words st) (nc_words ?st)"
    by (simp add: absorb_wrapped_def unwrap_wrappers_words peel_upto_peels_to strip_any_wrapper)
  show ?case
  proof (cases "peel_transparent_prefixes (nc_words ?st)")
    case (Ready inner)
    then have "inner = peel_upto transparent_inner MAX_TRANSPARENT_PREFIX_DEPTH (nc_words ?st)"
      by (auto simp: peel_transparent_prefixes_def dest: peel_transparent_Ready)
    then have "peels_to (nc_words ?st) inner"
      by (simp add: peel_upto_peels_to strip_any_transparent)
    with wrapped have "peels_to (nc_words st) inner" by (rule peels_to_trans)
    with Suc.IH [of "?st\<lparr>nc_words := inner\<rparr>"] wrapped Ready show ?thesis
      by (auto simp: Let_def intro: peels_to_trans)
  qed (use wrapped in \<open>simp add: Let_def\<close>)
qed

lemma mark_still_peelable_words [simp]: "nc_words (mark_still_peelable st) = nc_words st"
  by (simp add: mark_still_peelable_def)

lemma normalize_peels_to: "peels_to ws (nc_words (normalize_command_words ws))"
  using normalize_rounds_peels
    [of "\<lparr>nc_words = ws, nc_has_chdir = False, nc_has_split_string = False,
           nc_env_options_uncertain = False, nc_exhausted = False, nc_ambiguous = False\<rparr>"]
  by (simp add: normalize_command_words_def)

lemma peels_to_suffix: "peels_to ws ws' \<Longrightarrow> suffix ws' ws"
  using any_prefix.peel_suffix by (auto simp: peels_to_def)

lemma peels_to_nonempty: "peels_to ws ws' \<Longrightarrow> ws \<noteq> [] \<Longrightarrow> ws' \<noteq> []"
  using any_prefix.peel_keeps_command by (auto simp: peels_to_def)

lemma mark_still_peelable_trusted:
  "\<not> nc_untrusted (mark_still_peelable st) \<Longrightarrow>
   strip_wrapper_command (nc_words st) = None \<and> strip_transparent_prefix (nc_words st) = NotPrefix"
  using strip_wrapper_is_wrapper [of "nc_words st"]
  by (cases "strip_wrapper_command (nc_words st)")
     (auto simp: mark_still_peelable_def nc_untrusted_def split: if_splits)

lemma normalize_trusted_stuck:
  assumes "\<not> nc_untrusted (normalize_command_words ws)"
  shows "strip_wrapper_command (nc_words (normalize_command_words ws)) = None \<and>
         strip_transparent_prefix (nc_words (normalize_command_words ws)) = NotPrefix"
  using assms mark_still_peelable_trusted by (simp add: normalize_command_words_def)

text \<open>
  C36: Whenever \<open>normalize_command_words\<close> raises none of its fail-closed flags, its bounded
  alternation of wrapper and transparent peels computes exactly the full peel: the words it returns
  are the unique end of stripping prefixes one by one, and no wrapper or transparent prefix is left
  for a command to hide behind.
\<close>

theorem normalize_command_words_full_peel:
  assumes "\<not> nc_untrusted (normalize_command_words ws)"
  shows "nc_words (normalize_command_words ws) = fully_peeled ws \<and>
         strip_wrapper_command (fully_peeled ws) = None \<and>
         strip_transparent_prefix (fully_peeled ws) = NotPrefix"
proof -
  note stuck = normalize_trusted_stuck [OF assms]
  then have "strip_any (nc_words (normalize_command_words ws)) = None"
    by (simp add: strip_any_def transparent_inner_def)
  then have "nc_words (normalize_command_words ws) = fully_peeled ws"
    using normalize_peels_to by (intro peels_to_fixpoint)
  with stuck show ?thesis by simp
qed

text \<open>A command behind \<open>timeout\<close>, an absolute \<open>env\<close> and \<open>command\<close> is revealed.\<close>

theorem normalize_command_words_full_peel_witness:
  "nc_words (normalize_command_words
      [''timeout'', ''30'', ''/usr/bin/env'', ''A=1'', ''command'', ''rm'', ''-rf'']) = [''rm'', ''-rf'']"
  (is "nc_words (normalize_command_words ?ws) = _")
proof -
  have "\<not> nc_untrusted (normalize_command_words ?ws)"
    by code_simp
  then have "nc_words (normalize_command_words ?ws) = fully_peeled ?ws"
    using normalize_command_words_full_peel by blast
  also have "\<dots> = [''rm'', ''-rf'']" by code_simp
  finally show ?thesis .
qed

text \<open>Sixteen rounds of prefixes: \<open>command\<close>, then \<open>nice command\<close> fifteen times.\<close>

definition sixteen_rounds :: words where
  "sixteen_rounds = ''command'' # concat (replicate 15 [''nice'', ''command''])"

text \<open>
  The round bound of \<open>normalize_command_words\<close> hides what it should flag. An \<open>env\<close> with a split
  string, or with an option the scan cannot read, raises its flag after fewer rounds of prefixes
  but not after sixteen: the peel then ends on the unread \<open>env\<close> with every fail-closed flag down.
\<close>

theorem normalize_command_words_unread_env:
  "nc_has_split_string (normalize_command_words [''env'', ''-S'', ''rm -rf /''])
   \<and> nc_env_options_uncertain (normalize_command_words [''env'', ''--strange'', ''rm''])
   \<and> nc_words (normalize_command_words (sixteen_rounds @ [''env'', ''-S'', ''rm -rf /'']))
       = [''env'', ''-S'', ''rm -rf /'']
   \<and> \<not> nc_untrusted (normalize_command_words (sixteen_rounds @ [''env'', ''-S'', ''rm -rf /'']))
   \<and> nc_words (normalize_command_words (sixteen_rounds @ [''env'', ''--strange'', ''rm'']))
       = [''env'', ''--strange'', ''rm'']
   \<and> \<not> nc_untrusted (normalize_command_words (sixteen_rounds @ [''env'', ''--strange'', ''rm'']))"
  by code_simp

section \<open>Shell decoding inverts quoting\<close>

fun escape_double :: "string \<Rightarrow> string" where
  "escape_double [] = []"
| "escape_double (c # s) =
     (if c \<in> {CHR ''$'', CHR 0x60, dquote, backslash, newline} then [backslash, c] else [c])
     @ escape_double s"

lemma decode_single_quoted:
  "squote \<notin> set s \<Longrightarrow> decode_shell_chars (Some squote) (s @ squote # r) = map_option (\<lambda>x. s @ x) (decode_shell_chars None r)"
  by (cases "decode_shell_chars None r"; induction s) auto

lemma decode_double_quoted:
  "decode_shell_chars (Some dquote) (escape_double s @ dquote # r) = map_option (\<lambda>x. s @ x) (decode_shell_chars None r)"
  by (cases "decode_shell_chars None r"; induction s) auto

lemma decode_unquoted:
  "list_all (\<lambda>c. c \<notin> {squote, dquote, backslash}) s \<Longrightarrow>
   decode_shell_chars None (s @ r) = map_option (\<lambda>x. s @ x) (decode_shell_chars None r)"
  by (cases "decode_shell_chars None r"; induction s) auto

text \<open>
  Shell decoding inverts shell quoting. A word glued from an unquoted option, a double-quoted
  part (the five special characters escaped) and a single-quoted part decodes to the concatenation
  of the three texts, so that \<open>-S"a"'b'\<close> is read as the argument the shell would pass.
\<close>

theorem decode_shell_literal_spelling_quoted:
  assumes "list_all (\<lambda>c. c \<notin> {squote, dquote, backslash}) opt" and "squote \<notin> set raw"
  shows "decode_shell_literal_spelling
           (opt @ [dquote] @ escape_double body @ [dquote] @ [squote] @ raw @ [squote])
         = Some (opt @ body @ raw)"
proof -
  have raw: "decode_shell_chars None (squote # raw @ [squote]) = Some raw"
    using decode_single_quoted [OF assms(2), of "[]"] by simp
  have "decode_shell_chars None (dquote # escape_double body @ dquote # squote # raw @ [squote])
    = Some (body @ raw)"
    using decode_double_quoted [of body "squote # raw @ [squote]"] raw by simp
  then show ?thesis
    using decode_unquoted [OF assms(1), of "dquote # escape_double body @ dquote # squote # raw @ [squote]"]
    by (simp add: decode_shell_literal_spelling_def)
qed

theorem decode_shell_literal_spelling_quoted_witness:
  "decode_shell_literal_spelling
     (''-S'' @ [dquote] @ escape_double (''a'' @ [dquote]) @ [dquote] @ [squote] @ ''b c'' @ [squote])
   = Some (''-S'' @ (''a'' @ [dquote]) @ ''b c'')"
  by (rule decode_shell_literal_spelling_quoted) simp_all

end
