(* ===== verification/Bash_Script.thy ===== *)
theory Bash_Script
  imports Bash_Words "HOL-Library.Multiset"
begin

text \<open>
  The decomposition of a bash script into plain commands
  (\<open>permission/bash_command_splitting.rs\<close>, \<open>try_parse_word_only_commands_sequence\<close> and what it
  calls). The parser itself is the tree-sitter crate with its bash grammar: it is the parameter
  \<open>ts_parse\<close>, which maps a script to an optional tree and the tree's error flag. The tree is the
  part of the tree-sitter node interface that the code reads.
\<close>

datatype ts_node =
  Node (node_kind: string) (node_named: bool) (node_field: "string option")
       (node_start: nat) (node_end: nat) (node_children: "ts_node list")

record ts_tree =
  root_node :: ts_node
  has_error :: bool

type_synonym ts_parser = "string \<Rightarrow> ts_tree option"

record PlainCommand =
  pc_words :: words
  pc_span_start :: nat
  pc_span_end :: nat

text \<open>\<open>Node::utf8_text\<close>: the bytes of the node in the source; nodes end on code-point boundaries.\<close>

definition utf8_text :: "ts_node \<Rightarrow> string \<Rightarrow> string" where
  "utf8_text n src = take (node_end n - node_start n) (drop (node_start n) src)"

definition named_children :: "ts_node \<Rightarrow> ts_node list" where
  "named_children n = filter node_named (node_children n)"

section \<open>The allowlist walk\<close>

definition ALLOWED_KINDS :: "string list" where
  "ALLOWED_KINDS =
     [''program'', ''list'', ''pipeline'', ''command'', ''command_name'', ''word'', ''string'',
      ''string_content'', ''raw_string'', ''number'', ''concatenation'', ''variable_assignment'',
      ''variable_name'', ''redirected_statement'', ''file_redirect'', ''file_descriptor'',
      ''comment'', ''heredoc_redirect'', ''heredoc_start'', ''heredoc_body'', ''heredoc_content'',
      ''heredoc_end'']"

definition ALLOWED_PUNCT_TOKENS :: "string list" where
  "ALLOWED_PUNCT_TOKENS =
     [''&&'', ''||'', '';'', ''|'', [dquote], [squote], ''='', ''>'', ''>>'', ''<'', ''<<'',
      ''>&'', ''&>'', ''&>>'']"

definition node_allowed :: "ts_node \<Rightarrow> bool" where
  "node_allowed n =
     (let kind = node_kind n in
      if node_named n then kind \<in> set ALLOWED_KINDS
      else if list_ex (\<lambda>c. c \<in> set ''&;|'') kind \<and> kind \<notin> set ALLOWED_PUNCT_TOKENS then False
      else kind \<in> set ALLOWED_PUNCT_TOKENS \<or> trim kind = [])"

definition is_command_node :: "ts_node \<Rightarrow> bool" where
  "is_command_node n \<longleftrightarrow> node_named n \<and> node_kind n = ''command''"

lemma sum_size_children: "sum_list (map size cs) \<le> size_list size (cs :: ts_node list)"
  by (induction cs) auto

text \<open>The loop over the explicit stack, whose top is the head of the list.\<close>

function word_only_walk :: "ts_node list \<Rightarrow> ts_node list \<Rightarrow> ts_node list option" where
  "word_only_walk [] command_nodes = Some command_nodes"
| "word_only_walk (n # stack) command_nodes =
     (if \<not> node_allowed n then None
      else word_only_walk (rev (node_children n) @ stack)
             (if is_command_node n then command_nodes @ [n] else command_nodes))"
  by pat_completeness auto
termination
proof (relation "measure (\<lambda>(stack, _). sum_list (map size stack))")
  fix n :: ts_node and stack acc :: "ts_node list"
  show "((rev (node_children n) @ stack, if is_command_node n then acc @ [n] else acc),
         n # stack, acc) \<in> measure (\<lambda>(stack, _). sum_list (map size stack))"
    using sum_size_children [of "node_children n"]
    by (cases n) (simp add: rev_map [symmetric] le_imp_less_Suc)
qed simp

section \<open>Words of one command\<close>

text \<open>
  What one named child contributes: \<open>None\<close> rejects the command, \<open>Some None\<close> skips the child,
  \<open>Some (Some (text, start, end))\<close> is a word with the span it highlights.
\<close>

definition child_word :: "string \<Rightarrow> ts_node \<Rightarrow> (string \<times> nat \<times> nat) option option" where
  "child_word src child =
     (let kind = node_kind child; whole = (\<lambda>text. Some (Some (text, node_start child, node_end child)))
      in if kind = ''variable_assignment'' then Some None
         else if kind = ''command_name'' then
           (case first (named_children child) of
              None \<Rightarrow> None
            | Some w \<Rightarrow>
                if node_kind w \<noteq> ''word'' then None
                else Some (Some (utf8_text w src, node_start w, node_end w)))
         else if kind = ''word'' \<or> kind = ''number'' then whole (utf8_text child src)
         else if kind = ''string'' \<and> map node_kind (node_children child) = [[dquote], ''string_content'', [dquote]]
         then whole (utf8_text (node_children child ! 1) src)
         else if kind = ''raw_string'' then
           (case Option.bind (strip_prefix [squote] (utf8_text child src)) (strip_suffix [squote]) of
              Some s \<Rightarrow> whole s
            | None \<Rightarrow> None)
         else if kind = ''concatenation'' then whole (utf8_text child src)
         else None)"

fun plain_words :: "string \<Rightarrow> ts_node list \<Rightarrow> words \<times> nat option \<times> nat option \<Rightarrow>
    (words \<times> nat option \<times> nat option) option" where
  "plain_words src [] acc = Some acc"
| "plain_words src (child # cs) (ws, span_start, span_end) =
     (case child_word src child of
        None \<Rightarrow> None
      | Some None \<Rightarrow> plain_words src cs (ws, span_start, span_end)
      | Some (Some (text, s, e)) \<Rightarrow>
          plain_words src cs
            (ws @ [text], (case span_start of None \<Rightarrow> Some s | Some _ \<Rightarrow> span_start), Some e))"

definition parse_plain_command_from_node :: "string \<Rightarrow> ts_node \<Rightarrow> PlainCommand option" where
  "parse_plain_command_from_node src cmd =
     (if node_kind cmd \<noteq> ''command'' then None
      else case plain_words src (named_children cmd) ([], None, None) of
             None \<Rightarrow> None
           | Some (ws, s, e) \<Rightarrow>
               Some \<lparr>pc_words = ws,
                     pc_span_start = (case s of Some p \<Rightarrow> p | None \<Rightarrow> node_start cmd),
                     pc_span_end = (case e of Some p \<Rightarrow> p | None \<Rightarrow> node_end cmd)\<rparr>)"

text \<open>Parse the command nodes in order, rejecting the script at the first that is not plain.\<close>

fun parse_all :: "string \<Rightarrow> ts_node list \<Rightarrow> PlainCommand list option" where
  "parse_all src [] = Some []"
| "parse_all src (n # ns) =
     (case parse_plain_command_from_node src n of
        None \<Rightarrow> None
      | Some cmd \<Rightarrow> map_option ((#) cmd) (parse_all src ns))"

definition try_parse_word_only_commands_sequence :: "ts_tree \<Rightarrow> string \<Rightarrow> PlainCommand list option" where
  "try_parse_word_only_commands_sequence tree src =
     (if has_error tree then None
      else case word_only_walk [root_node tree] [] of
             None \<Rightarrow> None
           | Some command_nodes \<Rightarrow> parse_all src (sort_key node_start command_nodes))"

definition all_commands_from_script :: "ts_parser \<Rightarrow> string \<Rightarrow> PlainCommand list option" where
  "all_commands_from_script ts_parse script =
     (case ts_parse script of
        None \<Rightarrow> None
      | Some tree \<Rightarrow> try_parse_word_only_commands_sequence tree script)"

section \<open>The primary command shown to the user\<close>

definition spans_whole_script :: "PlainCommand \<Rightarrow> string \<Rightarrow> bool" where
  "spans_whole_script c script \<longleftrightarrow>
     is_char_boundary script (pc_span_start c) \<and> is_char_boundary script (pc_span_end c) \<and>
     trim (take (pc_span_start c) script) = [] \<and> trim (drop (pc_span_end c) script) = []"

text \<open>\<open>sh_split_simple\<close>: the state is the current word and the two quote flags.\<close>

definition flush_word :: "string \<Rightarrow> words" where
  "flush_word current = (if current = [] then [] else [current])"

function sh_split_from :: "string \<Rightarrow> bool \<Rightarrow> bool \<Rightarrow> string \<Rightarrow> words" where
  "sh_split_from current in_single in_double [] = flush_word current"
| "sh_split_from current in_single in_double (c # s) =
     (if c = squote \<and> \<not> in_double then sh_split_from current (\<not> in_single) in_double s
      else if c = dquote \<and> \<not> in_single then sh_split_from current in_single (\<not> in_double) s
      else if c = backslash then
        (case s of
           [] \<Rightarrow> flush_word current
         | n # r \<Rightarrow> sh_split_from (current @ [n]) in_single in_double r)
      else if in_single \<or> in_double then sh_split_from (current @ [c]) in_single in_double s
      else case strip_first whitespace_encodings (c # s) of
             Some r \<Rightarrow> flush_word current @ sh_split_from [] in_single in_double r
           | None \<Rightarrow> sh_split_from (current @ [c]) in_single in_double s)"
  by pat_completeness auto
termination
proof (relation "measure (\<lambda>(current, s1, s2, s). length s)")
  fix c :: char and s r :: string
  assume "strip_first whitespace_encodings (c # s) = Some r"
  then have "length r < length (c # s)"
    by (rule strip_first_shorter) (simp add: whitespace_encodings_def)
  then show "(([], x, y, r), current, x, y, c # s)
      \<in> measure (\<lambda>(current, s1, s2, s). length s)" for x y :: bool and current :: string
    by simp
qed auto

definition sh_split_simple :: "string \<Rightarrow> words" where
  "sh_split_simple s = sh_split_from [] False False s"

record BashCommandHighlights =
  bh_prefix :: words
  bh_highlighted_words :: words
  bh_suffix :: words

definition primary_of :: "PlainCommand \<Rightarrow> (PlainCommand \<times> nat \<times> words) option" where
  "primary_of c =
     (let peeled = unwrap_wrappers (pc_words c) in
      if peeled = [] \<or> is_setup_command peeled then None
      else let peeled_off = length (pc_words c) - length peeled
           in Some (c, peeled_off, drop peeled_off (pc_words c)))"

definition primary_command_from_script :: "ts_parser \<Rightarrow> string \<Rightarrow> BashCommandHighlights option" where
  "primary_command_from_script ts_parse script =
     (case all_commands_from_script ts_parse script of
        None \<Rightarrow> None
      | Some commands \<Rightarrow>
          (case find_map primary_of commands of
             None \<Rightarrow> None
           | Some (primary, peeled_off, peeled_words) \<Rightarrow>
               Some \<lparr>bh_prefix = sh_split_simple (take (pc_span_start primary) script)
                                 @ take peeled_off (pc_words primary),
                     bh_highlighted_words = peeled_words,
                     bh_suffix = sh_split_simple (drop (pc_span_end primary) script)\<rparr>))"

section \<open>No command is lost in the walk\<close>

fun all_nodes :: "ts_node \<Rightarrow> ts_node list" where
  "all_nodes (Node k nm f s e cs) = Node k nm f s e cs # concat (map all_nodes cs)"

lemma all_nodes_unfold: "all_nodes n = n # concat (map all_nodes (node_children n))"
  by (cases n) simp

lemma mset_concat_rev_map: "mset (concat (map f (rev xs))) = mset (concat (map f xs))"
  by (induction xs) auto

lemma word_only_walk_Some:
  "word_only_walk stack acc = Some cs \<Longrightarrow>
   list_all node_allowed (concat (map all_nodes stack)) \<and>
   mset cs = mset acc + mset (filter is_command_node (concat (map all_nodes stack)))"
proof (induction stack acc rule: word_only_walk.induct)
  case (1 acc)
  then show ?case by simp
next
  case (2 n stack acc)
  then have "node_allowed n" by (auto split: if_splits)
  with 2 have IH: "list_all node_allowed (concat (map all_nodes (rev (node_children n) @ stack)))"
    "mset cs = mset (if is_command_node n then acc @ [n] else acc)
       + mset (filter is_command_node (concat (map all_nodes (rev (node_children n) @ stack))))"
    by simp_all
  have "mset (filter is_command_node (concat (map all_nodes (rev (node_children n)))))
      = mset (filter is_command_node (concat (map all_nodes (node_children n))))"
    by (simp only: mset_filter mset_concat_rev_map)
  with IH \<open>node_allowed n\<close> show ?case
    by (simp add: all_nodes_unfold [of n] list_all_iff)
qed

lemma parse_all_Some: "parse_all src ns = Some cmds \<longleftrightarrow> map (parse_plain_command_from_node src) ns = map Some cmds"
  by (induction ns arbitrary: cmds) (auto split: option.splits simp: Cons_eq_map_conv)

text \<open>
  When the decomposition of a script succeeds, the tree has no parse error, every node of it is
  on the allowlist (so there is no substitution, subshell, control flow or background job anywhere),
  and every command node of the tree has been turned into exactly one plain command: no command of
  the script escapes the gates that run over the result.
\<close>

theorem all_commands_from_script_complete:
  assumes "all_commands_from_script ts_parse script = Some cmds" and "ts_parse script = Some tree"
  shows "\<not> has_error tree \<and> list_all node_allowed (all_nodes (root_node tree)) \<and>
         mset (map Some cmds) =
         image_mset (parse_plain_command_from_node script)
           (mset (filter is_command_node (all_nodes (root_node tree))))"
proof -
  from assms obtain nodes where err: "\<not> has_error tree"
    and walk: "word_only_walk [root_node tree] [] = Some nodes"
    and parse: "parse_all script (sort_key node_start nodes) = Some cmds"
    by (auto simp: all_commands_from_script_def try_parse_word_only_commands_sequence_def
        split: if_splits option.splits)
  note walked = word_only_walk_Some [OF walk]
  from parse have "map Some cmds = map (parse_plain_command_from_node script) (sort_key node_start nodes)"
    by (simp add: parse_all_Some)
  then have "mset (map Some cmds) = image_mset (parse_plain_command_from_node script) (mset nodes)"
    by (metis mset_map mset_sort)
  with err walked show ?thesis by simp
qed

text \<open>The tree of \<open>ls -l\<close>.\<close>

definition ls_tree :: ts_tree where
  "ls_tree =
     \<lparr>root_node = Node ''program'' True None 0 5
        [Node ''command'' True None 0 5
           [Node ''command_name'' True (Some ''name'') 0 2 [Node ''word'' True None 0 2 []],
            Node ''word'' True None 3 5 []]],
      has_error = False\<rparr>"

theorem all_commands_from_script_complete_witness:
  "\<not> has_error ls_tree \<and> list_all node_allowed (all_nodes (root_node ls_tree)) \<and>
   mset (map Some [\<lparr>pc_words = [''ls'', ''-l''], pc_span_start = 0, pc_span_end = 5\<rparr>]) =
   image_mset (parse_plain_command_from_node ''ls -l'')
     (mset (filter is_command_node (all_nodes (root_node ls_tree))))"
proof (rule all_commands_from_script_complete)
  show "all_commands_from_script (\<lambda>_. Some ls_tree) ''ls -l'' =
    Some [\<lparr>pc_words = [''ls'', ''-l''], pc_span_start = 0, pc_span_end = 5\<rparr>]"
    by code_simp
qed simp

end
