(* ===== verification/Unix_Path.thy ===== *)
theory Unix_Path
  imports Rust_Prelude
begin

text \<open>
  Lexical paths: the part of \<open>std::path\<close> that the permission code uses, on Unix, and the lexical
  normalisation of \<open>crates/codegen/xai-grok-paths/src/lib.rs\<close>. A \<open>Path\<close> is its byte string; its
  components, \<open>join\<close>, \<open>strip_prefix\<close> and the \<open>PathBuf\<close> collected from components are functions
  of it. Nothing here touches a file system.
\<close>

section \<open>Components\<close>

datatype Component = RootDir | CurDir | ParentDir | Normal string

definition segments :: "string \<Rightarrow> string list" where
  "segments s = split_on (\<lambda>c. c = slash) s"

text \<open>Empty segments and \<open>.\<close> are not components, except a leading \<open>.\<close> of a relative path.\<close>

definition is_noise :: "string \<Rightarrow> bool" where
  "is_noise seg \<longleftrightarrow> seg = [] \<or> seg = ''.''"

definition segment_component :: "string \<Rightarrow> Component" where
  "segment_component seg = (if seg = ''..'' then ParentDir else Normal seg)"

definition body_components :: "string list \<Rightarrow> Component list" where
  "body_components segs = map segment_component (filter (\<lambda>s. \<not> is_noise s) segs)"

definition is_absolute :: "string \<Rightarrow> bool" where
  "is_absolute s \<longleftrightarrow> starts_with s ''/''"

definition components :: "string \<Rightarrow> Component list" where
  "components s =
     (if is_absolute s then RootDir # body_components (segments (tl s))
      else case segments s of
             seg # segs \<Rightarrow> (if seg = ''.'' then [CurDir] else body_components [seg]) @ body_components segs
           | [] \<Rightarrow> [])"

section \<open>Building paths\<close>

text \<open>\<open>PathBuf::push\<close> and \<open>Path::join\<close>.\<close>

definition path_push :: "string \<Rightarrow> string \<Rightarrow> string" where
  "path_push buf p =
     (if is_absolute p then p
      else if buf \<noteq> [] \<and> last buf \<noteq> slash then buf @ slash # p
      else buf @ p)"

abbreviation path_join :: "string \<Rightarrow> string \<Rightarrow> string" where
  "path_join \<equiv> path_push"

fun component_str :: "Component \<Rightarrow> string" where
  "component_str RootDir = ''/''"
| "component_str CurDir = ''.''"
| "component_str ParentDir = ''..''"
| "component_str (Normal s) = s"

text \<open>\<open>components.into_iter().collect::<PathBuf>()\<close>.\<close>

definition collect_path :: "Component list \<Rightarrow> string" where
  "collect_path cs = foldl (\<lambda>buf c. path_push buf (component_str c)) [] cs"

section \<open>Stripping a prefix\<close>

text \<open>
  \<open>Path::strip_prefix\<close> compares components and returns the rest as a slice of the original string:
  the segments after the matched ones, without noise at either end.
\<close>

fun drop_real :: "nat \<Rightarrow> string list \<Rightarrow> string list" where
  "drop_real 0 segs = segs"
| "drop_real (Suc n) [] = []"
| "drop_real (Suc n) (s # ss) = (if is_noise s then drop_real (Suc n) ss else drop_real n ss)"

definition trim_noise :: "string list \<Rightarrow> string list" where
  "trim_noise segs = rev (dropWhile is_noise (rev (dropWhile is_noise segs)))"

definition rest_slice :: "string \<Rightarrow> nat \<Rightarrow> string" where
  "rest_slice path k =
     (if is_absolute path then join ''/'' (trim_noise (drop_real (k - 1) (segments (tl path))))
      else case segments path of
             seg # segs \<Rightarrow>
               (if seg = ''.'' then join ''/'' (trim_noise (drop_real (k - 1) segs))
                else join ''/'' (trim_noise (drop_real k (seg # segs))))
           | [] \<Rightarrow> [])"

definition path_strip_prefix :: "string \<Rightarrow> string \<Rightarrow> string option" where
  "path_strip_prefix path base =
     (case strip_prefix (components base) (components path) of
        None \<Rightarrow> None
      | Some _ \<Rightarrow> Some (rest_slice path (length (components base))))"

definition path_starts_with :: "string \<Rightarrow> string \<Rightarrow> bool" where
  "path_starts_with path base \<longleftrightarrow> starts_with (components path) (components base)"

section \<open>Lexical normalisation\<close>

text \<open>The loop of \<open>normalize_lexically\<close>, its vector kept with the last element first.\<close>

fun norm_push :: "Component list \<Rightarrow> Component \<Rightarrow> Component list" where
  "norm_push st CurDir = st"
| "norm_push (Normal s # st) ParentDir = st"
| "norm_push (RootDir # st) ParentDir = RootDir # st"
| "norm_push st ParentDir = ParentDir # st"
| "norm_push st c = c # st"

definition normalize_components :: "Component list \<Rightarrow> Component list" where
  "normalize_components cs = rev (foldl norm_push [] cs)"

definition normalize_lexically :: "string \<Rightarrow> string" where
  "normalize_lexically path =
     (let cs = normalize_components (components path)
      in if cs = [] then ''.'' else collect_path cs)"

text \<open>\<open>to_relative_path\<close>, \<open>from_relative_path\<close> and \<open>AbsPathBuf::contains_path\<close>.\<close>

definition to_relative_path :: "string \<Rightarrow> string \<Rightarrow> string" where
  "to_relative_path root abs_path =
     (case path_strip_prefix abs_path root of Some p \<Rightarrow> p | None \<Rightarrow> abs_path)"

definition from_relative_path :: "string \<Rightarrow> string \<Rightarrow> string" where
  "from_relative_path root rel_path =
     (if is_absolute rel_path then rel_path else path_join root rel_path)"

definition contains_path :: "string \<Rightarrow> string \<Rightarrow> bool" where
  "contains_path self path \<longleftrightarrow> path_starts_with (normalize_lexically path) self"

section \<open>Components and strings\<close>

text \<open>A component list that a path can have: ordinary names, and the root or \<open>.\<close> only in front.\<close>

definition good_name :: "string \<Rightarrow> bool" where
  "good_name s \<longleftrightarrow> s \<noteq> [] \<and> s \<noteq> ''.'' \<and> s \<noteq> ''..'' \<and> slash \<notin> set s"

fun body_component :: "Component \<Rightarrow> bool" where
  "body_component (Normal s) = good_name s"
| "body_component ParentDir = True"
| "body_component _ = False"

definition wf_components :: "Component list \<Rightarrow> bool" where
  "wf_components cs =
     (case cs of
        [] \<Rightarrow> True
      | c # rest \<Rightarrow> (c = RootDir \<or> c = CurDir \<or> body_component c) \<and> list_all body_component rest)"

lemma split_on_sep_free: "seg \<in> set (split_on p s) \<Longrightarrow> \<forall>c \<in> set seg. \<not> p c"
proof (induction s arbitrary: seg)
  case Nil
  then show ?case by simp
next
  case (Cons x s)
  obtain w ws where split: "split_on p s = w # ws"
    using split_on_nonempty [of p s] by (cases "split_on p s") auto
  have "\<forall>c \<in> set w. \<not> p c" by (rule Cons.IH) (simp add: split)
  moreover have "seg \<in> set ws \<Longrightarrow> \<forall>c \<in> set seg. \<not> p c" by (rule Cons.IH) (simp add: split)
  ultimately show ?case using Cons.prems Cons.IH [of seg] by (auto simp: split split: if_splits)
qed

lemma split_on_append_sep:
  "\<forall>c \<in> set a. \<not> p c \<Longrightarrow> p x \<Longrightarrow> split_on p (a @ x # b) = a # split_on p b"
  by (induction a) auto

lemma split_on_no_sep: "\<forall>c \<in> set a. \<not> p c \<Longrightarrow> split_on p a = [a]"
  by (induction a) auto

lemma split_on_join_sep:
  assumes "list_all (\<lambda>s. x \<notin> set s) segs" and "segs \<noteq> []"
  shows "split_on (\<lambda>c. c = x) (join [x] segs) = segs"
  using assms
proof (induction "[x]" segs rule: join.induct)
  case 1
  then show ?case by simp
next
  case (2 w)
  then have "split_on (\<lambda>c. c = x) w = [w]" by (intro split_on_no_sep) auto
  then show ?case by simp
next
  case (3 w v ws)
  then have "split_on (\<lambda>c. c = x) (join [x] (v # ws)) = v # ws" by simp
  moreover have "split_on (\<lambda>c. c = x) (w @ x # join [x] (v # ws))
    = w # split_on (\<lambda>c. c = x) (join [x] (v # ws))"
    using 3 by (intro split_on_append_sep) auto
  ultimately show ?case by simp
qed

lemmas split_on_join = split_on_join_sep [where x = slash]

lemma body_components_good: "list_all (\<lambda>s. slash \<notin> set s) segs \<Longrightarrow> list_all body_component (body_components segs)"
  by (auto simp: body_components_def segment_component_def list_all_iff is_noise_def good_name_def)

lemma segments_sep_free: "list_all (\<lambda>s. slash \<notin> set s) (segments s)"
  by (auto simp: segments_def list_all_iff dest: split_on_sep_free)

lemma body_components_Cons: "body_components (seg # segs) = body_components [seg] @ body_components segs"
  by (simp add: body_components_def)

lemma components_relative:
  assumes "\<not> is_absolute s"
  shows "\<exists>segs. list_all (\<lambda>s. slash \<notin> set s) segs \<and>
    (components s = CurDir # body_components segs \<or> components s = body_components segs)"
proof -
  obtain seg segs where split: "segments s = seg # segs"
    using split_on_nonempty by (cases "segments s") (auto simp: segments_def)
  have "list_all (\<lambda>s. slash \<notin> set s) (seg # segs)"
    using segments_sep_free [of s] by (simp add: split)
  then show ?thesis
    using assms
    by (intro exI [of _ "if seg = ''.'' then segs else seg # segs"])
       (simp add: components_def split body_components_Cons [of seg segs, symmetric])
qed

lemma wf_components_intros:
  "list_all body_component cs \<Longrightarrow> wf_components cs"
  "list_all body_component cs \<Longrightarrow> wf_components (RootDir # cs)"
  "list_all body_component cs \<Longrightarrow> wf_components (CurDir # cs)"
  by (auto simp: wf_components_def split: list.splits)

lemma components_wf: "wf_components (components s)"
proof (cases "is_absolute s")
  case True
  then show ?thesis
    by (simp add: components_def wf_components_intros body_components_good segments_sep_free)
next
  case False
  then show ?thesis
    using components_relative [of s] by (auto simp: wf_components_intros body_components_good)
qed

lemma components_absolute_iff: "is_absolute s \<longleftrightarrow> (\<exists>cs. components s = RootDir # cs)"
  by (auto simp: components_def body_components_def segment_component_def split: list.splits if_splits)

section \<open>Collecting components inverts splitting\<close>

lemma join_Cons: "join sep (w # ws) = w @ concat (map (\<lambda>v. sep @ v) ws)"
  by (induction ws arbitrary: w) auto

lemma body_component_str:
  "body_component c \<Longrightarrow> component_str c \<noteq> [] \<and> slash \<notin> set (component_str c) \<and>
     \<not> is_noise (component_str c) \<and> segment_component (component_str c) = c"
  by (cases c) (auto simp: good_name_def is_noise_def segment_component_def)

lemma path_push_body:
  assumes "body_component c" and "buf \<noteq> []" and "last buf \<noteq> slash"
  shows "path_push buf (component_str c) = buf @ slash # component_str c"
  using assms body_component_str [OF assms(1)]
  by (cases "component_str c") (auto simp: path_push_def is_absolute_def)

lemma fold_push_body:
  "list_all body_component cs \<Longrightarrow> buf \<noteq> [] \<Longrightarrow> last buf \<noteq> slash \<Longrightarrow>
   foldl (\<lambda>b c. path_push b (component_str c)) buf cs
   = buf @ concat (map (\<lambda>v. ''/'' @ v) (map component_str cs))"
proof (induction cs arbitrary: buf)
  case Nil
  then show ?case by simp
next
  case (Cons c cs)
  then have c: "body_component c" by simp
  note str = body_component_str [OF c]
  have "last (buf @ slash # component_str c) = last (component_str c)" using str by simp
  moreover have "last (component_str c) \<noteq> slash" using str last_in_set by metis
  ultimately have "foldl (\<lambda>b c. path_push b (component_str c)) (buf @ slash # component_str c) cs
    = (buf @ slash # component_str c) @ concat (map (\<lambda>v. ''/'' @ v) (map component_str cs))"
    using Cons by (intro Cons.IH) auto
  then show ?case using Cons.prems c by (simp add: path_push_body)
qed

lemma collect_path_body:
  assumes "list_all body_component cs"
  shows "collect_path cs = join ''/'' (map component_str cs)"
    and "collect_path (RootDir # cs) = slash # join ''/'' (map component_str cs)"
proof -
  show "collect_path cs = join ''/'' (map component_str cs)"
  proof (cases cs)
    case Nil
    then show ?thesis by (simp add: collect_path_def)
  next
    case (Cons c rest)
    with assms have c: "body_component c" and rest: "list_all body_component rest" by auto
    note str = body_component_str [OF c]
    have "path_push [] (component_str c) = component_str c"
      by (simp add: path_push_def)
    moreover have "last (component_str c) \<noteq> slash" using str last_in_set by metis
    ultimately show ?thesis
      using str rest by (simp add: Cons collect_path_def fold_push_body join_Cons)
  qed
  show "collect_path (RootDir # cs) = slash # join ''/'' (map component_str cs)"
  proof (cases cs)
    case Nil
    then show ?thesis by (simp add: collect_path_def path_push_def)
  next
    case (Cons c rest)
    with assms have c: "body_component c" and rest: "list_all body_component rest" by auto
    note str = body_component_str [OF c]
    have root: "path_push [] ''/'' = ''/''" by (simp add: path_push_def)
    have push: "path_push ''/'' (component_str c) = slash # component_str c"
      using str by (cases "component_str c") (auto simp: path_push_def is_absolute_def)
    have "last (component_str c) \<noteq> slash" using str last_in_set by metis
    then have "last (slash # component_str c) \<noteq> slash" using str by simp
    with str rest root push show ?thesis
      by (simp add: Cons collect_path_def fold_push_body join_Cons)
  qed
qed

lemma components_collect:
  assumes "list_all body_component cs"
  shows "components (collect_path (RootDir # cs)) = RootDir # cs"
    and "cs \<noteq> [] \<Longrightarrow> components (collect_path cs) = cs"
proof -
  let ?segs = "map component_str cs"
  have strs: "\<forall>c \<in> set cs. component_str c \<noteq> [] \<and> slash \<notin> set (component_str c) \<and>
      \<not> is_noise (component_str c) \<and> segment_component (component_str c) = c"
    using assms body_component_str by (auto simp: list_all_iff)
  then have free: "list_all (\<lambda>s. slash \<notin> set s) ?segs" by (auto simp: list_all_iff)
  have "filter (\<lambda>s. \<not> is_noise s) ?segs = ?segs"
    using strs by (auto simp: filter_id_conv)
  then have body: "body_components ?segs = cs"
    using strs by (auto simp: body_components_def intro!: nth_equalityI)
  show "components (collect_path (RootDir # cs)) = RootDir # cs"
  proof (cases "cs = []")
    case True
    then show ?thesis
      by (simp add: collect_path_body components_def is_absolute_def segments_def
          body_components_def is_noise_def)
  next
    case False
    with free have "segments (join ''/'' ?segs) = ?segs"
      unfolding segments_def by (intro split_on_join) auto
    with body show ?thesis
      using assms by (simp add: collect_path_body components_def is_absolute_def)
  qed
  assume ne: "cs \<noteq> []"
  with free have split: "segments (join ''/'' ?segs) = ?segs"
    unfolding segments_def by (intro split_on_join) auto
  obtain c rest where cs: "cs = c # rest" using ne by (cases cs) auto
  have rel: "\<not> is_absolute (join ''/'' ?segs)"
    using strs unfolding cs is_absolute_def
    by (cases "component_str c") (auto simp: join_Cons)
  have "component_str c \<noteq> ''.''" using strs by (auto simp: cs is_noise_def)
  with split rel body show "components (collect_path cs) = cs"
    using assms by (simp add: collect_path_body components_def cs
        body_components_Cons [of "component_str c", symmetric])
qed

section \<open>Normal forms\<close>

definition norm_stack :: "Component list \<Rightarrow> bool" where
  "norm_stack st \<longleftrightarrow>
     (\<exists>ns t. st = map Normal ns @ t \<and> list_all good_name ns \<and>
        (t = [RootDir] \<or> (\<exists>k. t = replicate k ParentDir)))"

lemma norm_push_stack:
  assumes "norm_stack st" and "body_component c"
  shows "norm_stack (norm_push st c)"
proof -
  from assms(1) obtain ns t where st: "st = map Normal ns @ t" and ns: "list_all good_name ns"
    and t: "t = [RootDir] \<or> (\<exists>k. t = replicate k ParentDir)"
    by (auto simp: norm_stack_def)
  show ?thesis
  proof (cases c)
    case (Normal s)
    with assms(2) st ns have "norm_push st c = map Normal (s # ns) @ t" and "list_all good_name (s # ns)"
      by auto
    with t show ?thesis unfolding norm_stack_def by blast
  next
    case ParentDir
    show ?thesis
    proof (cases ns)
      case (Cons n rest)
      with ParentDir st ns have "norm_push st c = map Normal rest @ t" and "list_all good_name rest"
        by auto
      with t show ?thesis unfolding norm_stack_def by blast
    next
      case Nil
      show ?thesis
      proof (cases "t = [RootDir]")
        case True
        with Nil ParentDir st assms(1) show ?thesis by simp
      next
        case False
        with t obtain k where "t = replicate k ParentDir" by blast
        with Nil ParentDir st have "norm_push st c = map Normal [] @ replicate (Suc k) ParentDir"
          by (cases k) auto
        moreover have "list_all good_name []" by simp
        ultimately show ?thesis unfolding norm_stack_def by blast
      qed
    qed
  qed (use assms(2) in auto)
qed

lemma fold_norm_stack:
  "list_all body_component cs \<Longrightarrow> norm_stack st \<Longrightarrow> norm_stack (foldl norm_push st cs)"
  by (induction cs arbitrary: st) (auto intro: norm_push_stack)

lemma norm_stack_base: "norm_stack []" "norm_stack [RootDir]"
proof -
  have "[] = map Normal [] @ replicate 0 ParentDir" "[RootDir] = map Normal [] @ [RootDir]" by simp_all
  then show "norm_stack []" "norm_stack [RootDir]"
    unfolding norm_stack_def by (metis list.pred_inject(1))+
qed

lemma norm_push_last: "norm_stack st \<Longrightarrow> body_component c \<Longrightarrow> RootDir \<in> set (norm_push st c) \<longleftrightarrow> RootDir \<in> set st"
  by (cases "(st, c)" rule: norm_push.cases) auto

lemma fold_norm_root:
  "list_all body_component cs \<Longrightarrow> norm_stack st \<Longrightarrow>
   RootDir \<in> set (foldl norm_push st cs) \<longleftrightarrow> RootDir \<in> set st"
  by (induction cs arbitrary: st) (auto simp: norm_push_last norm_push_stack)

lemma normalize_components_normal:
  assumes "wf_components cs"
  shows "norm_stack (rev (normalize_components cs)) \<and>
    (RootDir \<in> set (normalize_components cs) \<longleftrightarrow> (\<exists>r. cs = RootDir # r))"
proof -
  have body: "norm_stack (foldl norm_push [] b) \<and> RootDir \<notin> set (foldl norm_push [] b)"
    "norm_stack (foldl norm_push [RootDir] b) \<and> RootDir \<in> set (foldl norm_push [RootDir] b)"
    if "list_all body_component b" for b
    using that fold_norm_stack fold_norm_root norm_stack_base by (metis empty_iff empty_set list.set_intros(1))+
  show ?thesis
  proof (cases cs)
    case Nil
    then show ?thesis by (simp add: normalize_components_def norm_stack_base)
  next
    case (Cons c rest)
    with assms have rest: "list_all body_component rest" and c: "c = RootDir \<or> c = CurDir \<or> body_component c"
      by (auto simp: wf_components_def)
    show ?thesis
    proof (cases "body_component c")
      case True
      with rest have "list_all body_component cs" by (simp add: Cons)
      with body(1) [of cs] True show ?thesis by (auto simp: normalize_components_def Cons)
    next
      case False
      with c body [OF rest] show ?thesis by (auto simp: normalize_components_def Cons)
    qed
  qed
qed

lemma fold_norm_Normals: "foldl norm_push st (map Normal ns) = map Normal (rev ns) @ st"
  by (induction ns arbitrary: st) auto

lemma fold_norm_Parents: "foldl norm_push [] (replicate k ParentDir) = replicate k ParentDir"
proof -
  have "foldl norm_push (replicate j ParentDir) (replicate k ParentDir) = replicate (k + j) ParentDir" for j
  proof (induction k arbitrary: j)
    case (Suc k)
    have "norm_push (replicate j ParentDir) ParentDir = replicate (Suc j) ParentDir" by (cases j) auto
    with Suc [of "Suc j"] show ?case by simp
  qed simp
  from this [of 0] show ?thesis by simp
qed

lemma normalize_components_stable:
  assumes "norm_stack st"
  shows "normalize_components (rev st) = rev st"
proof -
  from assms obtain ns t where st: "st = map Normal ns @ t"
    and t: "t = [RootDir] \<or> (\<exists>k. t = replicate k ParentDir)"
    by (auto simp: norm_stack_def)
  then have "foldl norm_push [] (rev t) = t" by (auto simp: fold_norm_Parents)
  then show ?thesis
    by (simp add: normalize_components_def st rev_map fold_norm_Normals)
qed

lemma norm_stack_shape:
  assumes "norm_stack st"
  obtains (rooted) ns where "rev st = RootDir # map Normal ns" "list_all good_name ns"
  | (relative) k ns where "rev st = replicate k ParentDir @ map Normal ns" "list_all good_name ns"
proof -
  from assms obtain ns t where st: "st = map Normal ns @ t" and ns: "list_all good_name ns"
    and t: "t = [RootDir] \<or> (\<exists>k. t = replicate k ParentDir)"
    by (auto simp: norm_stack_def)
  from ns have "list_all good_name (rev ns)" by (simp add: list_all_rev)
  with st t that show thesis by (auto simp: rev_map)
qed

lemma components_of_norm:
  assumes "norm_stack (rev cs)" and "cs \<noteq> []"
  shows "components (collect_path cs) = cs"
  using assms(1)
proof (cases rule: norm_stack_shape)
  case (rooted ns)
  then have "list_all body_component (map Normal ns)" by (simp add: list_all_iff)
  then show ?thesis using rooted components_collect(1) by simp
next
  case (relative k ns)
  then have "list_all body_component cs" by (auto simp: list_all_iff)
  then show ?thesis using assms(2) components_collect(2) by blast
qed

lemma components_normalize:
  "components (normalize_lexically p) =
     (if normalize_components (components p) = [] then [CurDir] else normalize_components (components p))"
proof -
  have "norm_stack (rev (normalize_components (components p)))"
    using normalize_components_normal [OF components_wf] by blast
  moreover have "components ''.'' = [CurDir]"
    by (simp add: components_def is_absolute_def segments_def body_components_def)
  ultimately show ?thesis
    by (simp add: normalize_lexically_def Let_def components_of_norm)
qed

lemma normalize_root_iff: "RootDir \<in> set (normalize_components (components p)) \<longleftrightarrow> is_absolute p"
  using normalize_components_normal [OF components_wf, of p] components_absolute_iff by auto

lemma normalize_absolute: "is_absolute (normalize_lexically p) \<longleftrightarrow> is_absolute p"
proof -
  have "norm_stack (rev (normalize_components (components p)))"
    using normalize_components_normal [OF components_wf] by blast
  then show ?thesis
  proof (cases rule: norm_stack_shape)
    case (rooted ns)
    then show ?thesis
      using normalize_root_iff [of p] components_absolute_iff [of "normalize_lexically p"]
      by (auto simp: components_normalize)
  next
    case (relative k ns)
    then have "RootDir \<notin> set (components (normalize_lexically p))"
      by (auto simp: components_normalize)
    with relative show ?thesis
      using normalize_root_iff [of p] components_absolute_iff [of "normalize_lexically p"] by auto
  qed
qed

lemma normalize_absolute_shape:
  assumes "is_absolute p"
  obtains ns where "list_all good_name ns" "components (normalize_lexically p) = RootDir # map Normal ns"
proof -
  have "norm_stack (rev (normalize_components (components p)))"
    using normalize_components_normal [OF components_wf] by blast
  then show thesis
  proof (cases rule: norm_stack_shape)
    case (rooted ns)
    then show thesis using that by (auto simp: components_normalize)
  next
    case (relative k ns)
    then show thesis using assms normalize_root_iff [of p] by auto
  qed
qed

lemma normalize_absolute_string:
  assumes "is_absolute p"
  obtains ns where "list_all good_name ns" "normalize_lexically p = slash # join ''/'' ns"
    "components (normalize_lexically p) = RootDir # map Normal ns"
proof -
  obtain ns where ns: "list_all good_name ns" "components (normalize_lexically p) = RootDir # map Normal ns"
    using normalize_absolute_shape [OF assms] .
  then have cs: "normalize_components (components p) = RootDir # map Normal ns"
    by (auto simp: components_normalize split: if_splits)
  have "list_all body_component (map Normal ns)" using ns(1) by (simp add: list_all_iff)
  from collect_path_body(2) [OF this] have "normalize_lexically p = slash # join ''/'' ns"
    by (simp add: normalize_lexically_def cs comp_def)
  with ns that show thesis by blast
qed

lemma components_join_names:
  assumes "list_all good_name ns"
  shows "components (join ''/'' ns) = map Normal ns"
    and "components (slash # join ''/'' ns) = RootDir # map Normal ns"
proof -
  have body: "list_all body_component (map Normal ns)" using assms by (simp add: list_all_iff)
  have "components [] = []"
    by (simp add: components_def is_absolute_def segments_def body_components_def is_noise_def)
  then show "components (join ''/'' ns) = map Normal ns"
    using components_collect(2) [OF body] collect_path_body(1) [OF body]
    by (cases "ns = []") (simp_all add: comp_def)
  show "components (slash # join ''/'' ns) = RootDir # map Normal ns"
    using components_collect(1) [OF body] collect_path_body(2) [OF body] by (simp add: comp_def)
qed

subsection \<open>Stripping a prefix of a normal form\<close>

lemma good_not_noise: "good_name s \<Longrightarrow> \<not> is_noise s"
  by (simp add: good_name_def is_noise_def)

lemma drop_real_names: "list_all good_name ns \<Longrightarrow> drop_real j ns = drop j ns"
  by (induction j ns rule: drop_real.induct) (auto simp: good_not_noise)

lemma trim_noise_names: "list_all good_name ns \<Longrightarrow> trim_noise ns = ns"
proof -
  assume ns: "list_all good_name ns"
  have "dropWhile is_noise xs = xs" if "list_all good_name xs" for xs
    using that by (cases xs) (auto simp: good_not_noise)
  with ns show ?thesis by (simp add: trim_noise_def)
qed

lemma rest_slice_rooted:
  assumes "list_all good_name ns"
  shows "rest_slice (slash # join ''/'' ns) (Suc j) = join ''/'' (drop j ns)"
proof (cases "ns = []")
  case True
  have "drop_real j [[]] = [[]] \<or> drop_real j [[]] = []" by (cases j) (auto simp: is_noise_def)
  then show ?thesis
    using True by (auto simp: rest_slice_def is_absolute_def segments_def trim_noise_def is_noise_def)
next
  case False
  have "list_all (\<lambda>s. slash \<notin> set s) ns" using assms by (auto simp: list_all_iff good_name_def)
  then have "segments (join ''/'' ns) = ns" using False by (simp add: segments_def split_on_join)
  moreover have "list_all good_name (drop j ns)" using assms by (auto simp: list_all_iff dest: in_set_dropD)
  ultimately show ?thesis
    using assms by (simp add: rest_slice_def is_absolute_def drop_real_names trim_noise_names)
qed

lemma strip_prefix_normalized:
  assumes "is_absolute p" and "is_absolute base"
    and "path_strip_prefix (normalize_lexically p) (normalize_lexically base) = Some rel"
  obtains bs rs where "list_all good_name bs" "list_all good_name rs" "rel = join ''/'' rs"
    "normalize_lexically base = slash # join ''/'' bs"
    "normalize_lexically p = slash # join ''/'' (bs @ rs)"
proof -
  obtain ps where ps: "list_all good_name ps" "normalize_lexically p = slash # join ''/'' ps"
    "components (normalize_lexically p) = RootDir # map Normal ps"
    using normalize_absolute_string [OF assms(1)] .
  obtain bs where bs: "list_all good_name bs" "normalize_lexically base = slash # join ''/'' bs"
    "components (normalize_lexically base) = RootDir # map Normal bs"
    using normalize_absolute_string [OF assms(2)] .
  from assms(3) obtain q where "strip_prefix (RootDir # map Normal bs) (RootDir # map Normal ps) = Some q"
    and rel: "rel = rest_slice (slash # join ''/'' ps) (Suc (length bs))"
    using ps bs by (auto simp: path_strip_prefix_def split: option.splits)
  then have "map Normal ps = map Normal bs @ q" by (simp add: strip_prefix_Some)
  then obtain rs where rs: "ps = bs @ rs"
    by (auto simp: map_eq_append_conv) (metis Component.inject list.inj_map_strong)
  with rel ps(1) have "rel = join ''/'' rs" by (simp add: rest_slice_rooted)
  moreover have "list_all good_name rs" using ps(1) rs by simp
  ultimately show thesis using that bs ps(2) rs by simp
qed

subsection \<open>Normalising keeps to the bytes of the path\<close>

lemma split_on_bytes: "seg \<in> set (split_on q s) \<Longrightarrow> set seg \<subseteq> set s"
proof (induction s arbitrary: seg)
  case (Cons x s)
  obtain w ws where split: "split_on q s = w # ws"
    using split_on_nonempty [of q s] by (cases "split_on q s") auto
  show ?case using Cons.prems Cons.IH [of seg] Cons.IH [of w] by (auto simp: split split: if_splits)
qed simp

lemma components_bytes:
  assumes "c \<in> set (components p)"
  shows "set (component_str c) \<subseteq> set p \<union> {slash, CHR ''.''}"
proof -
  have body: "set (component_str c) \<subseteq> set s \<union> {CHR ''.''}"
    if "c \<in> set (body_components segs)" "set segs \<subseteq> set (segments s)" for segs s
  proof -
    from that(1) obtain seg where "seg \<in> set segs" "c = segment_component seg"
      by (auto simp: body_components_def)
    moreover from this that(2) have "set seg \<subseteq> set s"
      unfolding segments_def by (blast dest: split_on_bytes)
    ultimately show ?thesis by (auto simp: segment_component_def)
  qed
  show ?thesis
  proof (cases "is_absolute p")
    case True
    then have "set (tl p) \<subseteq> set p" by (cases p) auto
    with True assms body [of "segments (tl p)" "tl p"] show ?thesis
      by (auto simp: components_def)
  next
    case False
    then show ?thesis
      using assms body [of "[hd (segments p)]" p] body [of "tl (segments p)" p]
      by (cases "segments p") (fastforce simp: components_def split: if_splits)+
  qed
qed

lemma norm_push_set: "set (norm_push st c) \<subseteq> insert c (set st)"
  by (cases "(st, c)" rule: norm_push.cases) auto

lemma fold_norm_set: "set (foldl norm_push st cs) \<subseteq> set st \<union> set cs"
proof (induction cs arbitrary: st)
  case (Cons c cs)
  then show ?case using norm_push_set [of st c] by fastforce
qed simp

lemma fold_push_bytes:
  "set (foldl (\<lambda>b c. path_push b (component_str c)) buf cs)
    \<subseteq> set buf \<union> {slash} \<union> (\<Union>c \<in> set cs. set (component_str c))"
proof (induction cs arbitrary: buf)
  case (Cons c cs)
  have "set (path_push buf (component_str c)) \<subseteq> set buf \<union> {slash} \<union> set (component_str c)"
    by (auto simp: path_push_def)
  with Cons [of "path_push buf (component_str c)"] show ?case by auto
qed auto

lemma normalize_bytes: "set (normalize_lexically p) \<subseteq> set p \<union> {slash, CHR ''.''}"
proof -
  have "set (normalize_components (components p)) \<subseteq> set (components p)"
    using fold_norm_set [of "[]"] by (simp add: normalize_components_def)
  then have "(\<Union>c \<in> set (normalize_components (components p)). set (component_str c))
      \<subseteq> set p \<union> {slash, CHR ''.''}"
    using components_bytes by blast
  moreover have "set (collect_path (normalize_components (components p)))
      \<subseteq> {slash} \<union> (\<Union>c \<in> set (normalize_components (components p)). set (component_str c))"
    using fold_push_bytes [of "[]" "normalize_components (components p)"] by (simp add: collect_path_def)
  ultimately have "set (collect_path (normalize_components (components p))) \<subseteq> set p \<union> {slash, CHR ''.''}"
    by blast
  then show ?thesis by (simp add: normalize_lexically_def Let_def)
qed

subsection \<open>Joining onto a normal form\<close>

lemma split_on_join_append:
  assumes "list_all (\<lambda>s. slash \<notin> set s) segs" and "segs \<noteq> []"
  shows "split_on (\<lambda>c. c = slash) (join ''/'' segs @ slash # f) = segs @ split_on (\<lambda>c. c = slash) f"
  using assms
proof (induction "''/''" segs rule: join.induct)
  case (2 w)
  then have "\<forall>c \<in> set w. c \<noteq> slash" by auto
  then show ?case by (simp add: split_on_append_sep)
next
  case (3 w v ws)
  then have "split_on (\<lambda>c. c = slash) (join ''/'' (v # ws) @ slash # f)
    = (v # ws) @ split_on (\<lambda>c. c = slash) f" by simp
  moreover have "split_on (\<lambda>c. c = slash) (w @ slash # (join ''/'' (v # ws) @ slash # f))
    = w # split_on (\<lambda>c. c = slash) (join ''/'' (v # ws) @ slash # f)"
    using 3 by (intro split_on_append_sep) auto
  ultimately show ?case by simp
qed simp

lemma body_components_names: "list_all good_name ns \<Longrightarrow> body_components ns = map Normal ns"
  by (induction ns) (auto simp: body_components_def segment_component_def good_name_def is_noise_def)

lemma join_names_last: "list_all good_name ns \<Longrightarrow> ns \<noteq> [] \<Longrightarrow> join ''/'' ns \<noteq> [] \<and> last (join ''/'' ns) \<noteq> slash"
proof (induction "''/''" ns rule: join.induct)
  case (2 w)
  then have "w \<noteq> []" "slash \<notin> set w" by (simp_all add: good_name_def)
  then show ?case using last_in_set [of w] by (simp, metis)
next
  case (3 w v ws)
  then show ?case by simp
qed simp

lemma components_push_rooted:
  assumes "list_all good_name bs" and "\<not> is_absolute f"
  shows "components (path_push (slash # join ''/'' bs) f) = RootDir # map Normal bs @ body_components (segments f)"
proof (cases "bs = []")
  case True
  then show ?thesis using assms(2) by (simp add: path_push_def components_def is_absolute_def)
next
  case False
  have free: "list_all (\<lambda>s. slash \<notin> set s) bs" using assms(1) by (auto simp: list_all_iff good_name_def)
  have "path_push (slash # join ''/'' bs) f = slash # join ''/'' bs @ slash # f"
    using assms False join_names_last [OF assms(1) False] by (simp add: path_push_def)
  then show ?thesis
    using split_on_join_append [OF free False, of f] body_components_names [OF assms(1)]
    by (simp add: components_def is_absolute_def segments_def body_components_def)
qed

lemma normalize_push_rooted:
  assumes "list_all good_name bs" and "list_all good_name rs" and "\<not> is_absolute f"
    and "body_components (segments f) = map Normal rs"
  shows "normalize_lexically (path_push (slash # join ''/'' bs) f) = slash # join ''/'' (bs @ rs)"
proof -
  have "normalize_components (RootDir # map Normal (bs @ rs)) = RootDir # map Normal (bs @ rs)"
    by (simp add: normalize_components_def fold_norm_Normals rev_map flip: map_append rev_append)
  moreover have "list_all body_component (map Normal (bs @ rs))"
    using assms by (simp add: list_all_iff ball_Un)
  ultimately show ?thesis
    using assms components_push_rooted [OF assms(1,3)] collect_path_body(2)
    by (simp add: normalize_lexically_def comp_def flip: map_append)
qed

lemma segments_names:
  assumes "list_all good_name rs"
  shows "body_components (segments (join ''/'' rs)) = map Normal rs"
    and "body_components (segments (''./'' @ join ''/'' rs)) = map Normal rs"
    and "\<not> is_absolute (join ''/'' rs)"
proof -
  have rel: "body_components (segments (join ''/'' rs)) = map Normal rs"
  proof (cases "rs = []")
    case True
    then show ?thesis by (simp add: segments_def body_components_def is_noise_def)
  next
    case False
    have "list_all (\<lambda>s. slash \<notin> set s) rs" using assms by (auto simp: list_all_iff good_name_def)
    then show ?thesis using False assms by (simp add: segments_def split_on_join body_components_names)
  qed
  then show "body_components (segments (join ''/'' rs)) = map Normal rs" .
  have "segments (''./'' @ join ''/'' rs) = ''.'' # segments (join ''/'' rs)"
    by (simp add: segments_def)
  with rel show "body_components (segments (''./'' @ join ''/'' rs)) = map Normal rs"
    by (simp add: body_components_def is_noise_def)
  show "\<not> is_absolute (join ''/'' rs)"
    using components_join_names(1) [OF assms] components_absolute_iff [of "join ''/'' rs"]
    by (cases rs) auto
qed

lemma normalize_idem: "normalize_lexically (normalize_lexically p) = normalize_lexically p"
proof (cases "normalize_components (components p) = []")
  case True
  then have "normalize_lexically p = ''.''" by (simp add: normalize_lexically_def)
  moreover have "normalize_lexically ''.'' = ''.''" by code_simp
  ultimately show ?thesis by simp
next
  case False
  have "norm_stack (rev (normalize_components (components p)))"
    using normalize_components_normal [OF components_wf] by blast
  from normalize_components_stable [OF this] False show ?thesis
    by (simp add: normalize_lexically_def [of "normalize_lexically p"] components_normalize)
      (simp add: normalize_lexically_def)
qed

text \<open>
  Lexical normalisation puts every path in its normal form. An absolute path becomes the root
  followed by ordinary names, with no \<open>..\<close> left (so a traversal cannot climb above the root); a
  relative path becomes some number of \<open>..\<close> followed by ordinary names, or \<open>.\<close> alone; and
  normalising again changes nothing.
\<close>

theorem normalize_lexically_normal_form:
  "(if is_absolute p
    then \<exists>ns. list_all good_name ns \<and> components (normalize_lexically p) = RootDir # map Normal ns
    else normalize_lexically p = ''.'' \<or>
         (\<exists>k ns. list_all good_name ns \<and>
            components (normalize_lexically p) = replicate k ParentDir @ map Normal ns))
   \<and> normalize_lexically (normalize_lexically p) = normalize_lexically p"
proof -
  let ?cs = "normalize_components (components p)"
  have stack: "norm_stack (rev ?cs)"
    using normalize_components_normal [OF components_wf] by blast
  note idem = normalize_idem [of p]
  from stack show ?thesis
  proof (cases rule: norm_stack_shape)
    case (rooted ns)
    then have "is_absolute p" using normalize_root_iff [of p] by simp
    with rooted idem show ?thesis by (auto simp: components_normalize)
  next
    case (relative k ns)
    then have "\<not> is_absolute p" using normalize_root_iff [of p] by auto
    moreover have "normalize_lexically p = ''.'' \<or>
      components (normalize_lexically p) = replicate k ParentDir @ map Normal ns"
    proof (cases "?cs = []")
      case True
      then show ?thesis by (simp add: normalize_lexically_def)
    next
      case False
      with relative show ?thesis by (auto simp: components_normalize)
    qed
    ultimately show ?thesis using relative(2) idem by auto
  qed
qed

end
