(* ===== verification/Permission_Rules.thy ===== *)
theory Permission_Rules
  imports Rust_Prelude
begin

text \<open>
  Permission rules: the data types of
  \<open>crates/codegen/xai-grok-workspace/src/permission/types.rs\<close> and the rule parser of
  \<open>permission/rules.rs\<close>. A parse error is the left side of a sum. Constructors keep the names of
  the source; where two enumerations share one (\<open>Allow\<close>, \<open>Read\<close>, \ldots) it is written with its
  type in front.
\<close>

section \<open>Data types\<close>

datatype json = JNull | JBool bool | JNumber string | JString string
  | JArray "json list" | JObject "(string \<times> json) list"

text \<open>\<open>Value::get\<close> and the accessors of a JSON value.\<close>

fun json_get :: "json \<Rightarrow> string \<Rightarrow> json option" where
  "json_get (JObject kvs) k = map_of kvs k"
| "json_get _ k = None"

fun as_bool :: "json \<Rightarrow> bool option" where
  "as_bool (JBool b) = Some b"
| "as_bool _ = None"

fun as_str :: "json \<Rightarrow> string option" where
  "as_str (JString s) = Some s"
| "as_str _ = None"

fun as_array :: "json \<Rightarrow> json list option" where
  "as_array (JArray xs) = Some xs"
| "as_array _ = None"

fun as_object :: "json \<Rightarrow> (string \<times> json) list option" where
  "as_object (JObject kvs) = Some kvs"
| "as_object _ = None"

datatype RuleAction = Allow | Deny | Ask

datatype PatternMode = Glob | Domain

datatype ToolFilter = Any | Bash | Edit | Read | Grep | Mcp | WebFetch | WebSearch | AgentMessage

datatype PromptPolicy = Ask | Deny | Auto | Allow

datatype AccessKind =
  Read "string option"
| Grep "string option" "string option"
| Edit string
| Bash string
| MCPTool string json
| WebFetch string
| WebSearch string
| AgentMessage string

datatype Decision =
  Allow
| Ask
| FollowupMessage string
| Reject string
| PolicyDeny string
| Cancelled

record PermissionRule =
  pr_action :: RuleAction
  pr_tool :: ToolFilter
  pr_pattern :: "string option"
  pr_pattern_mode :: PatternMode

record PermissionConfig =
  cfg_rules :: "PermissionRule list"
  cfg_prompt_policy :: PromptPolicy
  cfg_default_mode_configured :: bool

text \<open>\<open>PermissionConfig::new\<close>.\<close>

definition new_permission_config :: "PermissionRule list \<Rightarrow> PermissionConfig" where
  "new_permission_config rules =
     \<lparr>cfg_rules = rules, cfg_prompt_policy = PromptPolicy.Ask, cfg_default_mode_configured = False\<rparr>"

text \<open>Rule actions ordered by how much they restrict: the policy takes the greatest that matches.\<close>

fun strictness :: "RuleAction \<Rightarrow> nat" where
  "strictness RuleAction.Allow = 0"
| "strictness RuleAction.Ask = 1"
| "strictness RuleAction.Deny = 2"

instantiation RuleAction :: linorder
begin

definition less_eq_RuleAction :: "RuleAction \<Rightarrow> RuleAction \<Rightarrow> bool" where
  "less_eq_RuleAction a b \<longleftrightarrow> strictness a \<le> strictness b"

definition less_RuleAction :: "RuleAction \<Rightarrow> RuleAction \<Rightarrow> bool" where
  "less_RuleAction a b \<longleftrightarrow> strictness a < strictness b"

instance
proof
  fix a b c :: RuleAction
  show "a < b \<longleftrightarrow> a \<le> b \<and> \<not> b \<le> a"
    by (auto simp: less_eq_RuleAction_def less_RuleAction_def)
  show "a \<le> a" by (simp add: less_eq_RuleAction_def)
  show "a \<le> b \<Longrightarrow> b \<le> c \<Longrightarrow> a \<le> c" by (simp add: less_eq_RuleAction_def)
  show "a \<le> b \<Longrightarrow> b \<le> a \<Longrightarrow> a = b"
    by (cases a; cases b) (auto simp: less_eq_RuleAction_def)
  show "a \<le> b \<or> b \<le> a" by (auto simp: less_eq_RuleAction_def)
qed

end

section \<open>The default mode of a settings file\<close>

datatype DefaultPermissionMode = Default | AcceptEdits | Plan | Auto | DontAsk | BypassPermissions

definition parse_default_mode :: "string \<Rightarrow> string + DefaultPermissionMode" where
  "parse_default_mode s =
     (if s = ''default'' then Inr Default
      else if s = ''acceptEdits'' then Inr AcceptEdits
      else if s = ''plan'' then Inr Plan
      else if s = ''auto'' then Inr DefaultPermissionMode.Auto
      else if s = ''dontAsk'' then Inr DontAsk
      else if s = ''bypassPermissions'' then Inr BypassPermissions
      else Inl s)"

record DefaultModeEffects =
  dm_prompt_policy :: PromptPolicy
  dm_accept_edits :: bool
  dm_bypass_permissions :: bool

definition default_mode_effects :: DefaultModeEffects where
  "default_mode_effects =
     \<lparr>dm_prompt_policy = PromptPolicy.Ask, dm_accept_edits = False, dm_bypass_permissions = False\<rparr>"

fun effects :: "DefaultPermissionMode \<Rightarrow> DefaultModeEffects" where
  "effects AcceptEdits = default_mode_effects\<lparr>dm_accept_edits := True\<rparr>"
| "effects BypassPermissions = default_mode_effects\<lparr>dm_bypass_permissions := True\<rparr>"
| "effects Default = default_mode_effects"
| "effects Plan = default_mode_effects"
| "effects DontAsk = default_mode_effects\<lparr>dm_prompt_policy := PromptPolicy.Deny\<rparr>"
| "effects DefaultPermissionMode.Auto = default_mode_effects\<lparr>dm_prompt_policy := PromptPolicy.Auto\<rparr>"

section \<open>Escapes in rule strings\<close>

text \<open>The loop of \<open>is_unescaped\<close>: how many backslashes stand directly before a position.\<close>

fun backslashes_before :: "string \<Rightarrow> nat \<Rightarrow> nat" where
  "backslashes_before bytes 0 = 0"
| "backslashes_before bytes (Suc j) =
     (if bytes ! j = backslash then Suc (backslashes_before bytes j) else 0)"

definition is_unescaped :: "string \<Rightarrow> nat \<Rightarrow> bool" where
  "is_unescaped bytes pos \<longleftrightarrow> even (backslashes_before bytes pos)"

definition find_first_unescaped :: "string \<Rightarrow> char \<Rightarrow> nat option" where
  "find_first_unescaped s target =
     List.find (\<lambda>i. s ! i = target \<and> is_unescaped s i) [0..<length s]"

definition find_last_unescaped :: "string \<Rightarrow> char \<Rightarrow> nat option" where
  "find_last_unescaped s target =
     List.find (\<lambda>i. s ! i = target \<and> is_unescaped s i) (rev [0..<length s])"

text \<open>\<open>str::replace\<close> with a non-empty pattern: left to right, matches do not overlap.\<close>

function replace_all :: "string \<Rightarrow> string \<Rightarrow> string \<Rightarrow> string" where
  "replace_all pat rep s =
     (if pat = [] then s
      else case s of
             [] \<Rightarrow> []
           | c # r \<Rightarrow>
               (case strip_prefix pat s of
                  Some t \<Rightarrow> rep @ replace_all pat rep t
                | None \<Rightarrow> c # replace_all pat rep r))"
  by pat_completeness auto
termination
  by (relation "measure (\<lambda>(pat, rep, s). length s)") (auto simp: strip_prefix_Some)

declare replace_all.simps [simp del]

definition unescape_rule_content :: "string \<Rightarrow> string" where
  "unescape_rule_content s =
     (if backslash \<notin> set s then s
      else replace_all [backslash, backslash] [backslash]
             (replace_all [backslash, CHR '')''] '')''
               (replace_all [backslash, CHR ''(''] ''('' s)))"

definition strip_domain_prefix :: "string \<Rightarrow> string \<times> PatternMode" where
  "strip_domain_prefix pattern =
     (case strip_prefix ''domain:'' pattern of
        Some domain \<Rightarrow> (domain, Domain)
      | None \<Rightarrow> (pattern, Glob))"

definition strip_bash_colon_wildcard :: "string \<Rightarrow> string" where
  "strip_bash_colon_wildcard pattern =
     (case strip_suffix '':*'' pattern of Some stem \<Rightarrow> stem | None \<Rightarrow> pattern)"

section \<open>The rule parser\<close>

datatype RuleParseError =
  UnsupportedToolPrefix string
| UnknownToolPrefix string
| MalformedRule string

definition tool_name_to_filter :: "string \<Rightarrow> ToolFilter option" where
  "tool_name_to_filter name =
     (if name = ''Bash'' then Some ToolFilter.Bash
      else if name = ''Read'' then Some ToolFilter.Read
      else if name = ''Edit'' \<or> name = ''Write'' then Some ToolFilter.Edit
      else if name = ''MCPTool'' then Some Mcp
      else if name = ''Grep'' \<or> name = ''Glob'' then Some ToolFilter.Grep
      else if name = ''WebFetch'' then Some ToolFilter.WebFetch
      else if name = ''WebSearch'' then Some ToolFilter.WebSearch
      else if name = ''AgentMessage'' \<or> name = ''SendSubagentMessage'' \<or> name = ''SendAgentMessage''
      then Some ToolFilter.AgentMessage
      else None)"

definition unsupported_tools :: "string list" where
  "unsupported_tools = [''EnterWorktree'', ''NotebookEdit'', ''NotebookRead'']"

definition opt_pattern :: "string \<Rightarrow> string option" where
  "opt_pattern p = (if p = [] then None else Some p)"

text \<open>The branch for \<open>Tool(content)\<close>, given the text before and after the opening parenthesis.\<close>

definition parse_scoped_rule :: "string \<Rightarrow> string \<Rightarrow> RuleAction \<Rightarrow> RuleParseError + PermissionRule" where
  "parse_scoped_rule tool_prefix content_and_close action =
     (let prefix_trimmed = trim tool_prefix in
      case find_last_unescaped content_and_close (CHR '')'') of
        None \<Rightarrow> Inl (MalformedRule ''missing closing parenthesis'')
      | Some close_paren \<Rightarrow>
          (let raw_content = trim (take close_paren content_and_close);
               pattern = (if raw_content = [] \<or> raw_content = ''*'' then []
                          else unescape_rule_content raw_content)
           in case tool_name_to_filter prefix_trimmed of
                None \<Rightarrow>
                  if prefix_trimmed \<in> set unsupported_tools
                  then Inl (UnsupportedToolPrefix prefix_trimmed)
                  else Inl (UnknownToolPrefix prefix_trimmed)
              | Some tool \<Rightarrow>
                  (let pattern = (if tool = ToolFilter.Bash then strip_bash_colon_wildcard pattern
                                  else pattern);
                       (pattern, mode) = strip_domain_prefix pattern
                   in Inr \<lparr>pr_action = action, pr_tool = tool, pr_pattern = opt_pattern pattern,
                           pr_pattern_mode = mode\<rparr>)))"

text \<open>The branch for a rule without parentheses.\<close>

definition parse_bare_rule :: "string \<Rightarrow> RuleAction \<Rightarrow> RuleParseError + PermissionRule" where
  "parse_bare_rule rule action =
     (if rule \<in> set unsupported_tools then Inl (UnsupportedToolPrefix rule)
      else case tool_name_to_filter rule of
        Some tool \<Rightarrow>
          Inr \<lparr>pr_action = action, pr_tool = tool, pr_pattern = None, pr_pattern_mode = Glob\<rparr>
      | None \<Rightarrow>
          (case strip_prefix ''mcp__'' rule of
             Some (c # cs) \<Rightarrow>
               (let rest = c # cs;
                    pattern = (if rest = ''*'' then None
                               else if contains_sub rest ''__'' then Some rest
                               else Some (rest @ ''__*''))
                in Inr \<lparr>pr_action = action, pr_tool = Mcp, pr_pattern = pattern,
                        pr_pattern_mode = Glob\<rparr>)
           | _ \<Rightarrow>
               Inr \<lparr>pr_action = action, pr_tool = ToolFilter.Any, pr_pattern = opt_pattern rule,
                    pr_pattern_mode = Glob\<rparr>))"

definition parse_permission_rule :: "string \<Rightarrow> RuleAction \<Rightarrow> RuleParseError + PermissionRule" where
  "parse_permission_rule rule action =
     (let rule = trim rule in
      case find_first_unescaped rule (CHR ''('') of
        Some open_paren \<Rightarrow>
          parse_scoped_rule (take open_paren rule) (drop (open_paren + 1) rule) action
      | None \<Rightarrow> parse_bare_rule rule action)"

section \<open>Unescaping in three passes is unescaping in one\<close>

definition is_rule_special :: "char \<Rightarrow> bool" where
  "is_rule_special c \<longleftrightarrow> c = CHR ''('' \<or> c = CHR '')'' \<or> c = backslash"

text \<open>The reference: read the content once, dropping the backslash of each escape.\<close>

fun unescape_once :: "string \<Rightarrow> string" where
  "unescape_once [] = []"
| "unescape_once [c] = [c]"
| "unescape_once (c # d # s) =
     (if c = backslash \<and> is_rule_special d then d # unescape_once s
      else c # unescape_once (d # s))"

fun escape_rule_content :: "string \<Rightarrow> string" where
  "escape_rule_content [] = []"
| "escape_rule_content (c # s) =
     (if is_rule_special c then [backslash, c] else [c]) @ escape_rule_content s"

abbreviation bs :: "nat \<Rightarrow> string" where "bs k \<equiv> replicate k backslash"

lemma replace_all_simps:
  "pat \<noteq> [] \<Longrightarrow> replace_all pat rep [] = []"
  "pat \<noteq> [] \<Longrightarrow> replace_all pat rep (c # r) =
     (case strip_prefix pat (c # r) of
        Some t \<Rightarrow> rep @ replace_all pat rep t | None \<Rightarrow> c # replace_all pat rep r)"
  by (simp_all add: replace_all.simps [of pat rep])

lemma replace_escape_run:
  assumes "p \<noteq> backslash" and "c \<noteq> backslash"
  shows "replace_all [backslash, p] [p] (bs k @ c # r) =
    bs (if c = p then k - 1 else k) @ c # replace_all [backslash, p] [p] r"
proof (induction k)
  case 0
  then show ?case using assms by (simp add: replace_all_simps)
next
  case (Suc k)
  then show ?case
    using assms by (cases k) (auto simp: replace_all_simps split: option.splits)
qed

lemma replace_escape_bs: "p \<noteq> backslash \<Longrightarrow> replace_all [backslash, p] [p] (bs k) = bs k"
proof (induction k)
  case (Suc k)
  then show ?case by (cases k) (auto simp: replace_all_simps split: option.splits)
qed (simp add: replace_all_simps)

lemma replace_pairs_run:
  assumes "c \<noteq> backslash"
  shows "replace_all [backslash, backslash] [backslash] (bs k @ c # r) =
    bs (Suc k div 2) @ c # replace_all [backslash, backslash] [backslash] r"
proof (induction k rule: less_induct)
  case (less k)
  consider "k = 0" | "k = 1" | j where "k = Suc (Suc j)"
    by (metis One_nat_def not0_implies_Suc)
  then show ?case
  proof cases
    case (3 j)
    with less [of j] show ?thesis by (simp add: replace_all_simps)
  qed (use assms in \<open>simp_all add: replace_all_simps\<close>)
qed

lemma replace_pairs_bs: "replace_all [backslash, backslash] [backslash] (bs k) = bs (Suc k div 2)"
proof (induction k rule: less_induct)
  case (less k)
  consider "k = 0" | "k = 1" | j where "k = Suc (Suc j)"
    by (metis One_nat_def not0_implies_Suc)
  then show ?case
  proof cases
    case (3 j)
    with less [of j] show ?thesis by (simp add: replace_all_simps)
  qed (simp_all add: replace_all_simps)
qed

lemma unescape_once_run:
  assumes "c \<noteq> backslash"
  shows "unescape_once (bs k @ c # r) =
    bs (if is_rule_special c then k div 2 else Suc k div 2) @ c # unescape_once r"
proof (induction k rule: less_induct)
  case (less k)
  consider "k = 0" | "k = 1" | j where "k = Suc (Suc j)"
    by (metis One_nat_def not0_implies_Suc)
  then show ?case
  proof cases
    case 1
    then show ?thesis using assms by (cases r) auto
  next
    case 2
    then show ?thesis using assms by (cases r) auto
  next
    case (3 j)
    with less [of j] show ?thesis by (auto simp: is_rule_special_def)
  qed
qed

lemma unescape_once_bs: "unescape_once (bs k) = bs (Suc k div 2)"
proof (induction k rule: less_induct)
  case (less k)
  consider "k = 0" | "k = 1" | j where "k = Suc (Suc j)"
    by (metis One_nat_def not0_implies_Suc)
  then show ?case
  proof cases
    case (3 j)
    with less [of j] show ?thesis by (simp add: is_rule_special_def)
  qed simp_all
qed

lemma backslash_run: "(\<exists>k. s = bs k) \<or> (\<exists>k c r. s = bs k @ c # r \<and> c \<noteq> backslash)"
proof (induction s)
  case Nil
  have "[] = bs 0" by simp
  then show ?case by blast
next
  case (Cons x s)
  show ?case
  proof (cases "x = backslash")
    case True
    from Cons show ?thesis
    proof (elim disjE exE conjE)
      fix k assume "s = bs k"
      with True have "x # s = bs (Suc k)" by simp
      then show ?thesis by blast
    next
      fix k c r assume "s = bs k @ c # r" "c \<noteq> backslash"
      with True have "x # s = bs (Suc k) @ c # r" "c \<noteq> backslash" by simp_all
      then show ?thesis by blast
    qed
  next
    case False
    then have "x # s = bs 0 @ x # s" by simp
    with False show ?thesis by blast
  qed
qed

lemma unescape_passes:
  "replace_all [backslash, backslash] [backslash]
     (replace_all [backslash, CHR '')''] '')'' (replace_all [backslash, CHR ''(''] ''('' s))
   = unescape_once s"
proof (induction "length s" arbitrary: s rule: less_induct)
  case less
  from backslash_run [of s] show ?case
  proof (elim disjE exE conjE)
    fix k assume "s = bs k"
    then show ?thesis by (simp add: replace_escape_bs replace_pairs_bs unescape_once_bs)
  next
    fix k c r assume s: "s = bs k @ c # r" and c: "c \<noteq> backslash"
    then have "length r < length s" by simp
    moreover have "Suc (k - 1) div 2 = k div 2" by (cases k) simp_all
    ultimately show ?thesis
      using less s c
      by (auto simp: replace_escape_run replace_pairs_run unescape_once_run is_rule_special_def)
  qed
qed

lemma unescape_once_plain: "backslash \<notin> set s \<Longrightarrow> unescape_once s = s"
  by (induction s rule: unescape_once.induct) auto

text \<open>
  The three global replacements of \<open>unescape_rule_content\<close> (parentheses first, then
  backslashes) give the same text as a single left-to-right reading of the escapes, on every
  content, including runs of backslashes before a parenthesis.
\<close>

theorem unescape_rule_content_single_pass: "unescape_rule_content s = unescape_once s"
  by (simp add: unescape_rule_content_def unescape_passes unescape_once_plain)

section \<open>Printing a rule and parsing it back\<close>

lemma unescape_escape: "unescape_once (escape_rule_content s) = s"
proof (induction s)
  case (Cons c s)
  then show ?case
    by (cases "escape_rule_content s") (auto simp: is_rule_special_def)
qed simp

lemma escape_append: "escape_rule_content (s @ t) = escape_rule_content s @ escape_rule_content t"
  by (induction s) auto

lemma escape_Nil [simp]: "escape_rule_content s = [] \<longleftrightarrow> s = []"
  by (cases s) auto

lemma backslashes_before_append:
  "n \<le> length s \<Longrightarrow> backslashes_before (s @ t) n = backslashes_before s n"
  by (induction n) (auto simp: nth_append)

lemma escape_even: "even (backslashes_before (escape_rule_content s) (length (escape_rule_content s)))"
proof (induction s rule: rev_induct)
  case (snoc c s)
  show ?case
  proof (cases "c = backslash")
    case True
    with snoc show ?thesis
      by (simp add: escape_append is_rule_special_def nth_append backslashes_before_append)
  next
    case False
    then show ?thesis by (auto simp: escape_append nth_append)
  qed
qed simp

lemma escape_hd_last:
  assumes "s \<noteq> []" and "plain_byte (hd s)" and "plain_byte (last s)"
  shows "plain_byte (hd (escape_rule_content s))" and "plain_byte (last (escape_rule_content s))"
proof -
  have bs: "plain_byte backslash" by (simp add: plain_byte_def byte_between_def)
  obtain c t where "s = c # t" using assms(1) by (cases s) auto
  with assms(2) bs show "plain_byte (hd (escape_rule_content s))" by auto
  obtain d u where "s = u @ [d]" using assms(1) by (cases s rule: rev_cases) auto
  with assms(3) show "plain_byte (last (escape_rule_content s))"
    by (auto simp: escape_append)
qed

lemma find_upt_first:
  assumes "k < n" and "P k" and "\<And>i. i < k \<Longrightarrow> \<not> P i"
  shows "List.find P [0..<n] = Some k"
proof -
  have "[0..<n] = [0..<k] @ k # [Suc k..<n]"
    using assms(1) upt_add_eq_append [of 0 k "n - k"] by (simp add: upt_conv_Cons)
  moreover have "List.find P (xs @ k # ys) = Some k" if "\<forall>x\<in>set xs. \<not> P x" for xs ys
    using that assms(2) by (induction xs) auto
  ultimately show ?thesis using assms(3) by simp
qed

lemma find_last_unescaped_snoc:
  assumes "even (backslashes_before s (length s))"
  shows "find_last_unescaped (s @ [c]) c = Some (length s)"
  using assms by (simp add: find_last_unescaped_def is_unescaped_def backslashes_before_append)

lemma find_first_unescaped_here:
  assumes "c \<notin> set s" and "backslash \<notin> set s"
  shows "find_first_unescaped (s @ c # t) c = Some (length s)"
  unfolding find_first_unescaped_def
proof (rule find_upt_first)
  have "backslashes_before (s @ c # t) n = 0" if "n \<le> length s" for n
    using that assms(2) by (cases n) (auto simp: nth_append Suc_le_eq, metis nth_mem)
  then show "(s @ c # t) ! length s = c \<and> is_unescaped (s @ c # t) (length s)"
    by (simp add: is_unescaped_def)
qed (use assms(1) in \<open>auto simp: nth_append\<close>)

lemma tool_name_plain:
  assumes "tool_name_to_filter name = Some tool"
  shows "list_all is_ascii_alphabetic name \<and> name \<noteq> []"
proof -
  let ?names = "[''Bash'', ''Read'', ''Edit'', ''Write'', ''MCPTool'', ''Grep'', ''Glob'', ''WebFetch'',
    ''WebSearch'', ''AgentMessage'', ''SendSubagentMessage'', ''SendAgentMessage'']"
  have "name \<in> set ?names"
    using assms by (rule_tac ccontr) (simp add: tool_name_to_filter_def)
  moreover have "list_all (\<lambda>n. list_all is_ascii_alphabetic n \<and> n \<noteq> []) ?names" by code_simp
  ultimately show ?thesis unfolding list_all_iff [of _ ?names] by blast
qed

lemma alphabetic_plain: "is_ascii_alphabetic c \<Longrightarrow> plain_byte c"
  by (auto simp: is_ascii_alphabetic_def plain_byte_def byte_between_def
      is_ascii_uppercase_def is_ascii_lowercase_def)

lemma parse_scoped_rule_escape:
  assumes "tool_name_to_filter name = Some tool" and "trim name = name"
    and "pat \<noteq> []" and "pat \<noteq> ''*''" and "plain_byte (hd pat)" and "plain_byte (last pat)"
    and "\<not> starts_with pat ''domain:''" and "\<not> ends_with pat '':*''"
  shows "parse_scoped_rule name (escape_rule_content pat @ '')'') action
    = Inr \<lparr>pr_action = action, pr_tool = tool, pr_pattern = Some pat, pr_pattern_mode = Glob\<rparr>"
proof -
  let ?e = "escape_rule_content pat"
  have e: "trim ?e = ?e" using assms(3,5,6) by (simp add: trim_plain escape_hd_last)
  have star: "?e \<noteq> ''*''"
  proof
    assume "?e = ''*''"
    then have "unescape_once ?e = unescape_once ''*''" by simp
    with assms(4) show False by (simp add: unescape_escape)
  qed
  have un: "unescape_rule_content ?e = pat"
    by (simp add: unescape_rule_content_def unescape_passes unescape_escape)
      (metis unescape_escape unescape_once_plain)
  have "strip_bash_colon_wildcard pat = pat"
    using assms(8) by (simp add: strip_bash_colon_wildcard_def flip: strip_suffix_None)
  moreover have "strip_domain_prefix pat = (pat, Glob)"
    using assms(7) by (simp add: strip_domain_prefix_def flip: strip_prefix_None)
  ultimately show ?thesis
    using assms(1,2,3) e star un
    by (simp add: parse_scoped_rule_def find_last_unescaped_snoc [OF escape_even] opt_pattern_def)
qed

text \<open>
  Escaping a pattern (a backslash before each parenthesis and backslash), wrapping it in a
  supported tool name and parsing the result gives back exactly that tool and that pattern,
  whatever parentheses and backslashes the pattern holds. The excluded patterns are the spellings
  the syntax reserves: blank borders, the lone star, the \<open>domain:\<close> prefix and the \<open>:*\<close> suffix.
\<close>

theorem parse_permission_rule_roundtrip:
  assumes "tool_name_to_filter name = Some tool"
    and "pat \<noteq> []" and "pat \<noteq> ''*''" and "plain_byte (hd pat)" and "plain_byte (last pat)"
    and "\<not> starts_with pat ''domain:''" and "\<not> ends_with pat '':*''"
  shows "parse_permission_rule (name @ ''('' @ escape_rule_content pat @ '')'') action
    = Inr \<lparr>pr_action = action, pr_tool = tool, pr_pattern = Some pat, pr_pattern_mode = Glob\<rparr>"
proof -
  let ?r = "name @ ''('' @ escape_rule_content pat @ '')''"
  have alpha: "list_all is_ascii_alphabetic name" "name \<noteq> []"
    using tool_name_plain [OF assms(1)] by simp_all
  have hd_plain: "plain_byte (hd name)" and last_plain: "plain_byte (last name)"
    using alpha by (auto simp: list_all_iff intro: alphabetic_plain)
  have tn: "trim name = name" using alpha hd_plain last_plain by (simp add: trim_plain)
  have "trim ?r = ?r"
    by (rule trim_plain) (use alpha hd_plain in \<open>auto simp: plain_byte_def byte_between_def\<close>)
  moreover have "\<not> is_ascii_alphabetic (CHR ''('')" "\<not> is_ascii_alphabetic backslash"
    by (simp_all add: is_ascii_alphabetic_def byte_between_def
        is_ascii_uppercase_def is_ascii_lowercase_def)
  then have "CHR ''('' \<notin> set name" "backslash \<notin> set name"
    using alpha(1) by (auto simp: list_all_iff)
  then have "find_first_unescaped ?r (CHR ''('') = Some (length name)"
    using find_first_unescaped_here by simp
  ultimately show ?thesis
    using parse_scoped_rule_escape [OF assms(1) tn assms(2-7)]
    by (simp add: parse_permission_rule_def)
qed

theorem parse_permission_rule_roundtrip_witness:
  "parse_permission_rule (''Edit('' @ escape_rule_content ''src/(a)/*.rs'' @ '')'') RuleAction.Deny
    = Inr \<lparr>pr_action = RuleAction.Deny, pr_tool = ToolFilter.Edit,
           pr_pattern = Some ''src/(a)/*.rs'', pr_pattern_mode = Glob\<rparr>"
proof -
  have "tool_name_to_filter ''Edit'' = Some ToolFilter.Edit" by code_simp
  moreover have "\<not> ends_with ''src/(a)/*.rs'' '':*''" by code_simp
  moreover have "plain_byte (CHR ''s'')" by code_simp
  ultimately show ?thesis
    using parse_permission_rule_roundtrip [of "''Edit''" ToolFilter.Edit "''src/(a)/*.rs''"]
    by simp
qed

end
