(* ===== verification/Shell_Inline.thy ===== *)
theory Shell_Inline
  imports Rust_Prelude
begin

text \<open>
  Which commands hand a string to a shell: \<open>shell_dash_c_script\<close> and the exec-vehicle heads of
  \<open>crates/codegen/xai-grok-workspace/src/permission/policy.rs\<close>. The option loop over \<open>words.get(i)\<close>
  is a recursion over the words from index \<open>i\<close> on, with the index kept beside them.
\<close>

section \<open>The inline script of a shell\<close>

datatype ShellWord = Literal string | Untrusted

datatype InlineShellScript = NotInline | Literal nat | Untrusted | Unrecognized

text \<open>\<open>From<&String> for ShellWord\<close>: a parsed word is a literal one.\<close>

definition shell_word :: "string \<Rightarrow> ShellWord" where
  "shell_word w = ShellWord.Literal w"

definition is_potential_inline :: "InlineShellScript \<Rightarrow> bool" where
  "is_potential_inline s = (case s of
       InlineShellScript.Literal _ \<Rightarrow> True | InlineShellScript.Untrusted \<Rightarrow> True | _ \<Rightarrow> False)"

text \<open>The closures \<open>ambiguous\<close> and \<open>finish_literal\<close>, and the result when no operand is met.\<close>

definition ambiguous :: "bool \<Rightarrow> InlineShellScript" where
  "ambiguous saw_c = (if saw_c then InlineShellScript.Untrusted else Unrecognized)"

definition finish_literal :: "bool \<Rightarrow> nat \<Rightarrow> InlineShellScript" where
  "finish_literal dynamic_head index =
     (if dynamic_head then InlineShellScript.Untrusted else InlineShellScript.Literal index)"

definition no_script :: "bool \<Rightarrow> InlineShellScript" where
  "no_script unrecognized = (if unrecognized then Unrecognized else NotInline)"

text \<open>The branches of the loop, in order: how the word at index \<open>i\<close> is read.\<close>

datatype OptionWord =
  EndOfOptions          \<comment> \<open>\<open>--\<close> or \<open>-\<close>\<close>
| Operand               \<comment> \<open>no leading sign\<close>
| TakesFile             \<comment> \<open>\<open>--init-file\<close>, \<open>--rcfile\<close>\<close>
| KnownLong
| UnmodeledLong
| TakesName             \<comment> \<open>\<open>-o\<close>, \<open>+o\<close>, \<open>-O\<close>, \<open>+O\<close>\<close>
| Skipped
| AmbiguousCluster
| Flags string

definition option_word :: "string \<Rightarrow> OptionWord" where
  "option_word word =
     (if word = ''--'' \<or> word = ''-'' then EndOfOptions
      else if \<not> starts_with word ''-'' \<and> \<not> starts_with word ''+'' then Operand
      else if word = ''--init-file'' \<or> word = ''--rcfile'' then TakesFile
      else if starts_with word ''--'' then
        (if word = ''--noprofile'' \<or> word = ''--norc'' \<or> word = ''--posix'' then KnownLong
         else UnmodeledLong)
      else if word = ''-o'' \<or> word = ''+o'' \<or> word = ''-O'' \<or> word = ''+O'' then TakesName
      else if starts_with word ''-O'' \<and> length word > 2 then Skipped
      else if (starts_with word ''+O'' \<or> starts_with word ''+o'') \<and> length word > 2 then Skipped
      else if starts_with word ''-o'' \<and> length word > 2 then AmbiguousCluster
      else if starts_with word ''+'' then Skipped
      else (let flags = drop 1 word in
            if CHR ''o'' \<in> set flags \<or> CHR ''O'' \<in> set flags then AmbiguousCluster
            else Flags flags))"

fun dash_c_scan :: "bool \<Rightarrow> nat \<Rightarrow> ShellWord list \<Rightarrow> bool \<Rightarrow> bool \<Rightarrow> InlineShellScript" where
  "dash_c_scan dynamic_head i [] saw_c unrecognized =
     (if saw_c then InlineShellScript.Untrusted else no_script unrecognized)"
| "dash_c_scan dynamic_head i (ShellWord.Untrusted # ws) saw_c unrecognized = ambiguous saw_c"
| "dash_c_scan dynamic_head i (ShellWord.Literal word # ws) saw_c unrecognized =
     (case option_word word of
        EndOfOptions \<Rightarrow>
          (if \<not> saw_c then no_script unrecognized
           else case ws of
                  ShellWord.Literal _ # _ \<Rightarrow> finish_literal dynamic_head (i + 1)
                | _ \<Rightarrow> InlineShellScript.Untrusted)
      | Operand \<Rightarrow> (if saw_c then finish_literal dynamic_head i else no_script unrecognized)
      | TakesFile \<Rightarrow>
          (case ws of
             ShellWord.Literal _ # rest \<Rightarrow> dash_c_scan dynamic_head (i + 2) rest saw_c unrecognized
           | _ \<Rightarrow> ambiguous saw_c)
      | KnownLong \<Rightarrow> dash_c_scan dynamic_head (i + 1) ws saw_c unrecognized
      | UnmodeledLong \<Rightarrow>
          (if saw_c then InlineShellScript.Untrusted
           else dash_c_scan dynamic_head (i + 1) ws saw_c True)
      | TakesName \<Rightarrow>
          (case ws of
             ShellWord.Literal value # rest \<Rightarrow>
               (if \<not> starts_with value ''-''
                then dash_c_scan dynamic_head (i + 2) rest saw_c unrecognized
                else ambiguous saw_c)
           | _ \<Rightarrow> ambiguous saw_c)
      | Skipped \<Rightarrow> dash_c_scan dynamic_head (i + 1) ws saw_c unrecognized
      | AmbiguousCluster \<Rightarrow> ambiguous saw_c
      | Flags flags \<Rightarrow>
          dash_c_scan dynamic_head (i + 1) ws (saw_c \<or> CHR ''c'' \<in> set flags) unrecognized)"

definition INLINE_SHELLS :: "string list" where
  "INLINE_SHELLS = [''bash'', ''sh'', ''dash'', ''zsh'', ''ksh'']"

definition shell_dash_c_script :: "ShellWord list \<Rightarrow> InlineShellScript" where
  "shell_dash_c_script words =
     (case words of
        [] \<Rightarrow> NotInline
      | ShellWord.Literal program # ws \<Rightarrow>
          (if last_component program \<notin> set INLINE_SHELLS then NotInline
           else dash_c_scan False 1 ws False False)
      | ShellWord.Untrusted # ws \<Rightarrow> dash_c_scan True 1 ws False False)"

section \<open>Program heads that run code handed to them\<close>

definition EXEC_VEHICLE_HEADS :: "string list" where
  "EXEC_VEHICLE_HEADS =
     [''sh'', ''bash'', ''zsh'', ''dash'', ''ksh'', ''fish'',
      ''deno'', ''bun'', ''julia'', ''rscript'', ''awk'', ''gawk'', ''mawk'', ''nawk'', ''nodejs'',
      ''luajit'', ''phpdbg'', ''php-cgi'', ''pythonw'',
      ''npx'', ''bunx'', ''pipx'', ''uvx'', ''uv'',
      ''xargs'', ''find'', ''sudo'', ''doas'', ''su'', ''ssh'', ''watch'', ''setsid'', ''flock'',
      ''chroot'', ''nsenter'',
      ''docker'', ''podman'']"

definition EXEC_VEHICLE_HEAD_FAMILIES :: "string list" where
  "EXEC_VEHICLE_HEAD_FAMILIES = [''python'', ''node'', ''ruby'', ''perl'', ''php'', ''lua'']"

definition normalized_command_head :: "string list \<Rightarrow> string option" where
  "normalized_command_head words =
     (case words of
        [] \<Rightarrow> None
      | w # _ \<Rightarrow>
          (let head = to_ascii_lowercase (last_component w) in
           Some (case strip_suffix ''.exe'' head of Some h \<Rightarrow> h | None \<Rightarrow> head)))"

definition version_suffix :: "string \<Rightarrow> bool" where
  "version_suffix rest =
     (let core = (case strip_suffix ''t'' rest of Some r \<Rightarrow> r | None \<Rightarrow> rest)
      in list_all (\<lambda>c. is_ascii_digit c \<or> c = CHR ''.'') core)"

definition head_is_exec_vehicle :: "string list \<Rightarrow> bool" where
  "head_is_exec_vehicle words =
     (case normalized_command_head words of
        None \<Rightarrow> False
      | Some head \<Rightarrow>
          if head \<in> set EXEC_VEHICLE_HEADS then True
          else list_ex (\<lambda>family. case strip_prefix family head of
                                   Some rest \<Rightarrow> version_suffix rest
                                 | None \<Rightarrow> False) EXEC_VEHICLE_HEAD_FAMILIES)"

section \<open>What the option scan guarantees\<close>

text \<open>A short option cluster with \<open>c\<close> in it, the spellings the scan reads as \<open>-c\<close>.\<close>

definition dash_c_cluster :: "string \<Rightarrow> bool" where
  "dash_c_cluster w \<longleftrightarrow>
     starts_with w ''-'' \<and> \<not> starts_with w ''--'' \<and> \<not> starts_with w ''-O'' \<and> CHR ''c'' \<in> set w"

lemma option_word_Flags:
  assumes "option_word w = Flags flags"
  shows "CHR ''c'' \<in> set flags \<longleftrightarrow> dash_c_cluster w"
proof -
  have "starts_with w ''-''" "\<not> starts_with w ''--''" "\<not> starts_with w ''+''" "flags = drop 1 w"
    using assms by (simp_all add: option_word_def Let_def split: if_splits)
  then show ?thesis
    using assms
    by (cases w; cases flags) (auto simp: dash_c_cluster_def option_word_def Let_def split: if_splits)
qed

lemma dash_c_cluster_option_word:
  assumes "dash_c_cluster w"
  shows "option_word w = AmbiguousCluster \<or> (\<exists>flags. option_word w = Flags flags \<and> CHR ''c'' \<in> set flags)"
proof -
  obtain r where r: "w = CHR ''-'' # r" "CHR ''c'' \<in> set r"
    using assms by (cases w) (auto simp: dash_c_cluster_def)
  then show ?thesis
    using assms by (cases r) (auto simp: dash_c_cluster_def option_word_def Let_def)
qed

text \<open>The script found: where it is, and the flag that was read before it.\<close>

definition script_found :: "nat \<Rightarrow> ShellWord list \<Rightarrow> bool \<Rightarrow> nat \<Rightarrow> bool" where
  "script_found i ws saw k \<longleftrightarrow>
     (\<exists>pre w post. ws = pre @ ShellWord.Literal w # post \<and> k = i + length pre \<and>
        (saw \<or> (\<exists>v. ShellWord.Literal v \<in> set pre \<and> dash_c_cluster v)))"

lemma script_found_here: "saw \<Longrightarrow> script_found i (ShellWord.Literal w # ws) saw i"
  unfolding script_found_def by (rule exI [of _ "[]"]) simp

lemma script_found_Cons: "script_found (Suc i) ws saw k \<Longrightarrow> script_found i (x # ws) saw k"
  unfolding script_found_def
  by (elim exE, rule_tac x = "x # pre" in exI) auto

lemma script_found_flag:
  assumes "script_found (Suc i) ws (saw \<or> b) k" and "b \<Longrightarrow> dash_c_cluster w"
  shows "script_found i (ShellWord.Literal w # ws) saw k"
proof -
  from assms(1) obtain pre v post where *: "ws = pre @ ShellWord.Literal v # post"
    "k = Suc i + length pre" "saw \<or> b \<or> (\<exists>v. ShellWord.Literal v \<in> set pre \<and> dash_c_cluster v)"
    by (auto simp: script_found_def)
  then show ?thesis unfolding script_found_def
    by (rule_tac x = "ShellWord.Literal w # pre" in exI) (use assms(2) in auto)
qed

lemma dash_c_scan_Literal:
  assumes "dash_c_scan dynamic i ws saw unrec = InlineShellScript.Literal k"
  shows "\<not> dynamic \<and> script_found i ws saw k"
  using assms
proof (induction dynamic i ws saw unrec rule: dash_c_scan.induct)
  case (3 dynamic i word ws saw unrec)
  show ?case
  proof (cases "option_word word")
    case EndOfOptions
    with "3.prems" show ?thesis
      by (auto simp: no_script_def finish_literal_def split: if_splits list.splits ShellWord.splits
          intro!: script_found_Cons script_found_here)
  next
    case Operand
    with "3.prems" show ?thesis
      by (auto simp: no_script_def finish_literal_def split: if_splits intro: script_found_here)
  next
    case TakesFile
    with "3.prems" "3.IH"(1) show ?thesis
      by (auto simp: ambiguous_def split: if_splits list.splits ShellWord.splits
          intro!: script_found_Cons)
  next
    case TakesName
    with "3.prems" "3.IH"(4) show ?thesis
      by (auto simp: ambiguous_def split: if_splits list.splits ShellWord.splits
          intro!: script_found_Cons)
  next
    case (Flags flags)
    with "3.prems" "3.IH"(6) [of flags] show ?thesis
      using option_word_Flags [OF Flags] script_found_flag [of i ws saw "CHR ''c'' \<in> set flags" k word]
      by auto
  qed (use "3" in \<open>auto simp: ambiguous_def split: if_splits intro: script_found_Cons\<close>)
qed (auto simp: no_script_def ambiguous_def split: if_splits)

text \<open>
  When the scan reports a literal inline script at an index, that index is a word of the
  command after its head, that word is a literal, the head is a literal naming one of the supported
  shells, and a short option cluster with \<open>c\<close> stands before the script. A dynamic head never
  yields a script to recurse into.
\<close>

theorem shell_dash_c_script_literal_sound:
  assumes "shell_dash_c_script words = InlineShellScript.Literal k"
  shows "\<exists>program pre script post. words = ShellWord.Literal program # pre @ ShellWord.Literal script # post
    \<and> k = Suc (length pre) \<and> last_component program \<in> set INLINE_SHELLS
    \<and> (\<exists>v. ShellWord.Literal v \<in> set pre \<and> dash_c_cluster v)"
proof -
  obtain program ws where w: "words = ShellWord.Literal program # ws"
    and p: "last_component program \<in> set INLINE_SHELLS"
    and "dash_c_scan False 1 ws False False = InlineShellScript.Literal k"
    using assms
    by (auto simp: shell_dash_c_script_def dest: dash_c_scan_Literal
        split: list.splits ShellWord.splits if_splits)
  then have "script_found 1 ws False k" using dash_c_scan_Literal by blast
  with w p show ?thesis by (auto simp: script_found_def)
qed

theorem shell_dash_c_script_literal_sound_witness:
  "\<exists>program pre script post.
     [ShellWord.Literal ''/bin/bash'', ShellWord.Literal ''-lc'', ShellWord.Literal ''ls'']
       = ShellWord.Literal program # pre @ ShellWord.Literal script # post
     \<and> (2::nat) = Suc (length pre) \<and> last_component program \<in> set INLINE_SHELLS
     \<and> (\<exists>v. ShellWord.Literal v \<in> set pre \<and> dash_c_cluster v)"
proof -
  have "shell_dash_c_script
      [ShellWord.Literal ''/bin/bash'', ShellWord.Literal ''-lc'', ShellWord.Literal ''ls'']
    = InlineShellScript.Literal 2" by code_simp
  then show ?thesis by (rule shell_dash_c_script_literal_sound)
qed

definition option_with_sign :: "ShellWord \<Rightarrow> bool" where
  "option_with_sign sw =
     (case sw of
        ShellWord.Untrusted \<Rightarrow> False
      | ShellWord.Literal w \<Rightarrow>
          (starts_with w ''-'' \<or> starts_with w ''+'') \<and>
          w \<notin> set [''-'', ''--'', ''--init-file'', ''--rcfile''])"

lemma option_with_sign_word:
  "option_with_sign (ShellWord.Literal w) \<Longrightarrow> option_word w \<notin> {EndOfOptions, Operand, TakesFile}"
  by (simp add: option_with_sign_def option_word_def Let_def)

lemma dash_c_scan_flagged:
  assumes "saw \<or> unrec" shows "dash_c_scan dynamic i ws saw unrec \<noteq> NotInline"
  using assms
proof (induction dynamic i ws saw unrec rule: dash_c_scan.induct)
  case (3 dynamic i word ws saw unrec)
  show ?case
  proof (cases "option_word word")
    case (Flags flags)
    with "3.prems" "3.IH"(6) [of flags] show ?thesis by auto
  qed (use "3.prems" "3.IH"(1-5) in
      \<open>auto simp: ambiguous_def no_script_def finish_literal_def split: list.splits ShellWord.splits\<close>)
qed (auto simp: ambiguous_def no_script_def)

lemma dash_c_scan_complete:
  assumes "list_all option_with_sign opts" and "ShellWord.Literal v \<in> set opts" and "dash_c_cluster v"
  shows "dash_c_scan dynamic i (opts @ rest) saw unrec \<noteq> NotInline"
  using assms(1,2)
proof (induction "length opts" arbitrary: opts i saw unrec rule: less_induct)
  case less
  obtain w os where opts: "opts = ShellWord.Literal w # os" and w: "option_with_sign (ShellWord.Literal w)"
    using less.prems by (cases opts; cases "hd opts") (auto simp: option_with_sign_def)
  have IH: "v \<noteq> w \<Longrightarrow> dash_c_scan dynamic j (os @ rest) s u \<noteq> NotInline" for j s u
    using less opts by auto
  show ?case
  proof (cases "v = w")
    case True
    then show ?thesis
      using dash_c_cluster_option_word [OF assms(3)] opts dash_c_scan_flagged
      by (auto simp: ambiguous_def)
  next
    case False
    have cluster: "starts_with v ''-''" using assms(3) by (simp add: dash_c_cluster_def)
    have after_name: "dash_c_scan dynamic j (drop 1 (os @ rest)) s u \<noteq> NotInline"
      if "os = ShellWord.Literal x # os'" "\<not> starts_with x ''-''" for j s u x os'
      using less.hyps [of os'] less.prems opts False that cluster by auto
    show ?thesis
      using option_with_sign_word [OF w] opts IH [OF False] after_name less.prems(2) False
      by (cases "option_word w"; cases os) (auto simp: ambiguous_def split: ShellWord.splits)
  qed
qed

text \<open>
  No inline script slips past as an ordinary command: if the head is a supported shell and a
  short option cluster with \<open>c\<close> stands among its leading options, the scan never answers that the
  command is not inline, whatever the other options are and whatever follows.
\<close>

theorem shell_dash_c_script_complete:
  assumes "last_component program \<in> set INLINE_SHELLS" and "list_all option_with_sign opts"
    and "ShellWord.Literal v \<in> set opts" and "dash_c_cluster v"
  shows "shell_dash_c_script (ShellWord.Literal program # opts @ rest) \<noteq> NotInline"
  using assms dash_c_scan_complete by (simp add: shell_dash_c_script_def)

theorem shell_dash_c_script_complete_witness:
  "shell_dash_c_script (ShellWord.Literal ''zsh'' # map ShellWord.Literal [''--verbose'', ''-xc''] @
     [ShellWord.Literal ''make'']) \<noteq> NotInline"
  by (rule shell_dash_c_script_complete [where v = "''-xc''"]) code_simp+

text \<open>
  An option cluster that begins with \<open>-O\<close> and carries \<open>c\<close> is read as a glued operand of \<open>-O\<close>
  and its \<open>c\<close> is not seen, for every option name and script after it: the command counts as not
  inline and its script is not examined, although the shell takes the \<open>c\<close> of such a cluster.
\<close>

theorem dash_O_cluster_not_seen:
  "shell_dash_c_script (map ShellWord.Literal [''bash'', ''-Oc'', ''extglob'', script]) = NotInline"
proof -
  have "last_component ''bash'' \<in> set INLINE_SHELLS" "option_word ''-Oc'' = Skipped"
    "option_word ''extglob'' = Operand" by code_simp+
  then show ?thesis by (simp add: shell_dash_c_script_def no_script_def)
qed

section \<open>Spellings of a vehicle\<close>

lemma vehicle_heads_plain:
  "h \<in> set EXEC_VEHICLE_HEADS \<Longrightarrow> list_all (\<lambda>c. \<not> is_path_sep c) h \<and> \<not> ends_with h ''.exe''"
proof -
  have "list_all (\<lambda>h. list_all (\<lambda>c. \<not> is_path_sep c) h \<and> \<not> ends_with h ''.exe'') EXEC_VEHICLE_HEADS"
    by code_simp
  then show "h \<in> set EXEC_VEHICLE_HEADS \<Longrightarrow> ?thesis" by (simp add: list_all_iff)
qed

lemma is_path_sep_code: "is_path_sep c \<longleftrightarrow> (of_char c :: nat) = 47 \<or> (of_char c :: nat) = 92"
proof -
  have "c = slash \<longleftrightarrow> (of_char c :: nat) = of_char slash"
    and "c = backslash \<longleftrightarrow> (of_char c :: nat) = of_char backslash" by (simp_all only: of_char_eq_iff)
  then show ?thesis by (simp add: is_path_sep_def)
qed

lemma lower_path_sep: "is_path_sep (ascii_lower c) \<longleftrightarrow> is_path_sep c"
proof (cases "is_ascii_uppercase c")
  case True
  then have "65 \<le> (of_char c :: nat)" "(of_char c :: nat) \<le> 90"
    by (simp_all add: is_ascii_uppercase_def byte_between_def)
  with True show ?thesis
    by (simp add: is_path_sep_code ascii_lower_def)
qed (simp add: ascii_lower_def)

lemma lower_no_sep:
  "list_all (\<lambda>c. \<not> is_path_sep c) (to_ascii_lowercase h) \<longleftrightarrow> list_all (\<lambda>c. \<not> is_path_sep c) h"
  by (simp add: to_ascii_lowercase_def list_all_iff lower_path_sep)

text \<open>
  A listed exec vehicle is recognised in every spelling of its head: any letter case, any
  directory in front, with or without an \<open>.exe\<close> extension in any case, and with any arguments.
\<close>

theorem head_is_exec_vehicle_spellings:
  assumes "to_ascii_lowercase h \<in> set EXEC_VEHICLE_HEADS"
    and "ext = [] \<or> to_ascii_lowercase ext = ''.exe''" and "dir = [] \<or> is_path_sep (last dir)"
  shows "head_is_exec_vehicle ((dir @ h @ ext) # args)"
proof -
  have h: "list_all (\<lambda>c. \<not> is_path_sep c) h" "\<not> ends_with (to_ascii_lowercase h) ''.exe''"
    using vehicle_heads_plain [OF assms(1)] by (simp_all add: lower_no_sep)
  have "list_all (\<lambda>c. \<not> is_path_sep c) ''.exe''" by code_simp
  then have ext: "list_all (\<lambda>c. \<not> is_path_sep c) ext"
    using assms(2) lower_no_sep [of ext] by auto
  have "last_component (dir @ h @ ext) = h @ ext"
  proof (cases dir rule: rev_cases)
    case Nil
    then show ?thesis using h(1) ext by (simp add: last_component_plain list_all_iff ball_Un)
  next
    case (snoc d c)
    then show ?thesis
      using assms(3) h(1) ext last_component_append_sep [of c "h @ ext" d]
      by (simp add: list_all_iff ball_Un)
  qed
  then have "normalized_command_head ((dir @ h @ ext) # args) = Some (to_ascii_lowercase h)"
    using assms(2) h(2) [folded strip_suffix_None]
    by (auto simp: normalized_command_head_def to_ascii_lowercase_def Let_def)
  then show ?thesis using assms(1) by (simp add: head_is_exec_vehicle_def)
qed

theorem head_is_exec_vehicle_spellings_witness:
  "head_is_exec_vehicle ((''/usr/bin/'' @ ''Docker'' @ ''.EXE'') # [''run''])"
  by (rule head_is_exec_vehicle_spellings) code_simp+

end
