(* ===== verification/Symlink_Follow.thy ===== *)
theory Symlink_Follow
  imports Permission_Match
begin

text \<open>
  Following symbolic links: \<open>path_has_symlink\<close>, \<open>resolve_symlink_target\<close>,
  \<open>resolve_following_symlinks\<close> and \<open>follow_absolute_symlink\<close> of
  \<open>crates/codegen/xai-grok-workspace/src/permission/policy.rs\<close>. The file system is a parameter
  read at one moment: \<open>canonicalize\<close>, \<open>symlink_metadata\<close> and \<open>read_link\<close>. The recursion counts its
  depth up to \<open>MAX_SYMLINK_DEPTH\<close> as in the code, which is what makes it end on cyclic links.
\<close>

section \<open>Parent and file name of a path\<close>

text \<open>\<open>Path::file_name\<close>, and \<open>Path::parent\<close> as a slice of the original string.\<close>

definition path_file_name :: "string \<Rightarrow> string option" where
  "path_file_name path =
     (case rev (components path) of Normal name # _ \<Rightarrow> Some name | _ \<Rightarrow> None)"

definition drop_trailing_noise :: "string list \<Rightarrow> string list" where
  "drop_trailing_noise segs = rev (dropWhile is_noise (rev segs))"

definition drop_last_real :: "string list \<Rightarrow> string list" where
  "drop_last_real segs = drop_trailing_noise (butlast (drop_trailing_noise segs))"

definition path_parent :: "string \<Rightarrow> string option" where
  "path_parent path =
     (case rev (components path) of
        [] \<Rightarrow> None
      | RootDir # _ \<Rightarrow> None
      | _ \<Rightarrow>
          Some (if is_absolute path then slash # join ''/'' (drop_last_real (segments (tl path)))
                else case segments path of
                       seg # segs \<Rightarrow>
                         (if seg = ''.''
                          then (if drop_trailing_noise segs = [] then []
                                else join ''/'' (seg # drop_last_real segs))
                          else join ''/'' (drop_last_real (seg # segs)))
                     | [] \<Rightarrow> []))"

section \<open>Following links\<close>

definition MAX_SYMLINK_DEPTH :: nat where "MAX_SYMLINK_DEPTH = 40"

function walk :: "FileSystem \<Rightarrow> string \<Rightarrow> nat \<Rightarrow> string option" where
  "walk fs path depth =
     (if depth > MAX_SYMLINK_DEPTH then None
      else case canonicalize fs path of
        Some canonical \<Rightarrow> Some canonical
      | None \<Rightarrow>
          (case path_parent path of
             None \<Rightarrow> None
           | Some parent \<Rightarrow>
               (case path_file_name path of
                  None \<Rightarrow> None
                | Some file_name \<Rightarrow>
                    (case walk fs parent (depth + 1) of
                       None \<Rightarrow> None
                     | Some resolved_parent \<Rightarrow>
                         (let candidate = path_join resolved_parent file_name in
                          case symlink_metadata fs candidate of
                            MetadataError \<Rightarrow> None
                          | IsSymlink \<Rightarrow>
                              (case read_link fs candidate of
                                 None \<Rightarrow> None
                               | Some target \<Rightarrow>
                                   walk fs (if is_absolute target then target
                                            else path_join resolved_parent target) (depth + 1))
                          | NotSymlink \<Rightarrow> Some candidate
                          | NotFound \<Rightarrow> Some candidate)))))"
  by pat_completeness auto
termination
  by (relation "measure (\<lambda>(fs, path, depth). Suc MAX_SYMLINK_DEPTH - depth)") auto

declare walk.simps [simp del]

definition resolve_following_symlinks :: "FileSystem \<Rightarrow> string \<Rightarrow> string option" where
  "resolve_following_symlinks fs path = walk fs path 0"

definition path_has_symlink :: "FileSystem \<Rightarrow> string \<Rightarrow> bool" where
  "path_has_symlink fs absolute =
     (if \<not> is_absolute absolute then False
      else fst (foldl (\<lambda>(found, buf) comp.
                         if found then (found, buf)
                         else let buf = path_push buf (component_str comp)
                              in (symlink_metadata fs buf = IsSymlink, buf))
                      (False, []) (components absolute)))"

definition resolve_symlink_target :: "FileSystem \<Rightarrow> string \<Rightarrow> string option" where
  "resolve_symlink_target fs absolute =
     (if \<not> is_absolute absolute then None
      else case resolve_following_symlinks fs absolute of
             None \<Rightarrow> None
           | Some resolved \<Rightarrow> Some (path_match_string (normalize_lexically resolved)))"

datatype SymlinkFollow = NoFollow | Target string | Unresolvable

definition follow_absolute_symlink :: "FileSystem \<Rightarrow> string \<Rightarrow> string \<Rightarrow> SymlinkFollow" where
  "follow_absolute_symlink fs raw_absolute lexical_absolute =
     (case resolve_symlink_target fs raw_absolute of
        Some resolved \<Rightarrow> if resolved \<noteq> lexical_absolute then Target resolved else NoFollow
      | None \<Rightarrow> if path_has_symlink fs raw_absolute then Unresolvable else NoFollow)"

section \<open>What following promises\<close>

text \<open>The documented behaviour of \<open>std::fs::canonicalize\<close> that this needs.\<close>

definition canonical_not_link :: "FileSystem \<Rightarrow> bool" where
  "canonical_not_link fs \<longleftrightarrow>
     (\<forall>p q. canonicalize fs p = Some q \<longrightarrow> symlink_metadata fs q \<noteq> IsSymlink)"

lemma walk_not_link:
  assumes "canonical_not_link fs"
    and "walk fs path depth = Some r"
  shows "symlink_metadata fs r \<noteq> IsSymlink"
  using assms(2)
proof (induction "Suc MAX_SYMLINK_DEPTH - depth" arbitrary: path depth r rule: less_induct)
  case less
  show ?case
  proof (cases "canonicalize fs path")
    case (Some q)
    with less.prems assms(1) show ?thesis
      by (subst (asm) walk.simps) (auto simp: canonical_not_link_def split: if_splits)
  next
    case None
    have IH: "walk fs p (Suc depth) = Some r \<Longrightarrow> \<not> MAX_SYMLINK_DEPTH < depth \<Longrightarrow>
        symlink_metadata fs r \<noteq> IsSymlink" for p
      using less.hyps [of "Suc depth"] by auto
    from less.prems None show ?thesis
      by (subst (asm) walk.simps)
        (auto simp: Let_def split: if_splits option.splits SymlinkMetadata.splits dest: IH)
  qed
qed

text \<open>
  Following links never stops at a link: when the resolution of a path succeeds, and
  canonical paths are themselves no links, the result is not a symbolic link, even when the leaf
  dangles, is missing, or goes through further links within the depth bound.
\<close>

theorem resolve_following_symlinks_not_link:
  assumes "canonical_not_link fs"
    and "resolve_following_symlinks fs path = Some r"
  shows "symlink_metadata fs r \<noteq> IsSymlink"
  using walk_not_link [OF assms(1)] assms(2) unfolding resolve_following_symlinks_def by blast

text \<open>A directory \<open>/w\<close> with the links \<open>a\<close> to \<open>b\<close>, \<open>b\<close> to the missing \<open>/w/c\<close>, and \<open>l\<close> to itself.\<close>

definition linked_fs :: FileSystem where
  "linked_fs =
     \<lparr>canonicalize = (\<lambda>p. if p = ''/'' then Some ''/'' else if p = ''/w'' then Some ''/w'' else None),
      symlink_metadata = (\<lambda>p. if p \<in> set [''/w/a'', ''/w/b'', ''/w/l''] then IsSymlink
                            else if p = ''/'' \<or> p = ''/w'' then NotSymlink else NotFound),
      read_link = (\<lambda>p. if p = ''/w/a'' then Some ''b'' else if p = ''/w/b'' then Some ''/w/c''
                     else if p = ''/w/l'' then Some ''l'' else None)\<rparr>"

theorem resolve_following_symlinks_not_link_witness:
  "resolve_following_symlinks linked_fs ''/w/a'' = Some ''/w/c''
   \<and> symlink_metadata linked_fs ''/w/c'' \<noteq> IsSymlink
   \<and> resolve_following_symlinks linked_fs ''/w/l'' = None"
proof -
  have "resolve_following_symlinks linked_fs ''/w/a'' = Some ''/w/c''"
    "resolve_following_symlinks linked_fs ''/w/l'' = None" by code_simp+
  moreover have "canonical_not_link linked_fs"
    by (auto simp: canonical_not_link_def linked_fs_def split: if_splits)
  ultimately show ?thesis using resolve_following_symlinks_not_link [of linked_fs "''/w/a''"] by blast
qed

end
