(* ===== verification/Permission_Policy.thy ===== *)
theory Permission_Policy
  imports Symlink_Follow Shell_Inline
begin

text \<open>
  The compiled permission policy: \<open>GateDecision\<close>, \<open>CompiledPolicy\<close> and its evaluations in
  \<open>crates/codegen/xai-grok-workspace/src/permission/policy.rs\<close>. A decision to leave the access to
  later stages is \<open>None\<close>. The recursion into inline scripts is on the remaining depth; what a
  recursive call would be at depth zero is what the code does there (deny the allow, or ask).
\<close>

section \<open>Decisions and their ranks\<close>

datatype GateDecision = Reject string | AskRuleMatch | AskFailClosed

fun into_decision :: "GateDecision \<Rightarrow> Decision" where
  "into_decision (GateDecision.Reject reason) = Decision.Reject reason"
| "into_decision AskRuleMatch = Decision.Ask"
| "into_decision AskFailClosed = Decision.Ask"

definition is_ask :: "GateDecision \<Rightarrow> bool" where
  "is_ask d \<longleftrightarrow> d = AskRuleMatch \<or> d = AskFailClosed"

fun gate_rank :: "GateDecision \<Rightarrow> nat" where
  "gate_rank (GateDecision.Reject _) = 3"
| "gate_rank AskRuleMatch = 2"
| "gate_rank AskFailClosed = 1"

definition combine_gate_decisions ::
  "GateDecision option \<Rightarrow> GateDecision option \<Rightarrow> GateDecision option" where
  "combine_gate_decisions a b =
     (case (a, b) of
        (None, other) \<Rightarrow> other
      | (other, None) \<Rightarrow> other
      | (Some a, Some b) \<Rightarrow> Some (if gate_rank a \<ge> gate_rank b then a else b))"

fun decision_rank :: "Decision \<Rightarrow> nat" where
  "decision_rank (Decision.Reject _) = 3"
| "decision_rank (PolicyDeny _) = 3"
| "decision_rank Decision.Ask = 2"
| "decision_rank Decision.Allow = 1"
| "decision_rank (FollowupMessage _) = 0"
| "decision_rank Cancelled = 0"

definition combine_decisions :: "Decision option \<Rightarrow> Decision option \<Rightarrow> Decision option" where
  "combine_decisions a b =
     (case (a, b) of
        (None, other) \<Rightarrow> other
      | (other, None) \<Rightarrow> other
      | (Some a, Some b) \<Rightarrow> Some (if decision_rank a \<ge> decision_rank b then a else b))"

text \<open>
  Both combinations are the same construction: the choice of higher rank, the earlier one on a tie,
  with no decision as the neutral element. What holds of it is proved once.
\<close>

locale ranked_join =
  fixes rank :: "'d \<Rightarrow> nat" and join2 :: "'d option \<Rightarrow> 'd option \<Rightarrow> 'd option"
  assumes join_None_left: "join2 None b = b"
    and join_None_right: "join2 a None = a"
    and join_Some: "join2 (Some x) (Some y) = Some (if rank y \<le> rank x then x else y)"
begin

definition orank :: "'d option \<Rightarrow> nat" where
  "orank d = (case d of None \<Rightarrow> 0 | Some x \<Rightarrow> Suc (rank x))"

lemma orank_simps [simp]: "orank None = 0" "orank (Some x) = Suc (rank x)"
  by (simp_all add: orank_def)

lemma orank_join: "orank (join2 a b) = max (orank a) (orank b)"
  by (cases a; cases b) (auto simp: join_None_left join_None_right join_Some)

lemma join_mem: "join2 a b = a \<or> join2 a b = b"
  by (cases a; cases b) (auto simp: join_None_left join_None_right join_Some)

lemma join_assoc: "join2 (join2 a b) c = join2 a (join2 b c)"
  by (cases a; cases b; cases c) (auto simp: join_None_left join_None_right join_Some)

lemma join_idem: "join2 a a = a"
  by (cases a) (auto simp: join_None_left join_Some)

lemma join_None_iff: "join2 a b = None \<longleftrightarrow> a = None \<and> b = None"
  by (cases a; cases b) (auto simp: join_None_left join_None_right join_Some)

lemma fold_join_base: "orank a \<le> orank (foldl (\<lambda>d x. join2 d (f x)) a xs)"
proof (induction xs arbitrary: a)
  case (Cons x xs)
  from Cons [of "join2 a (f x)"] show ?case by (simp add: orank_join)
qed simp

lemma fold_join_ge:
  "x \<in> set xs \<Longrightarrow> orank (f x) \<le> orank (foldl (\<lambda>d x. join2 d (f x)) a xs)"
proof (induction xs arbitrary: a)
  case (Cons y ys)
  show ?case
  proof (cases "x = y")
    case True
    have "orank (f x) \<le> orank (join2 a (f x))" by (simp add: orank_join)
    also have "\<dots> \<le> orank (foldl (\<lambda>d x. join2 d (f x)) (join2 a (f x)) ys)"
      by (rule fold_join_base)
    finally show ?thesis using True by simp
  qed (use Cons in auto)
qed simp

lemma fold_join_mem:
  "foldl (\<lambda>d x. join2 d (f x)) a xs = a \<or> (\<exists>x \<in> set xs. foldl (\<lambda>d x. join2 d (f x)) a xs = f x)"
proof (induction xs arbitrary: a)
  case (Cons x xs)
  from Cons [of "join2 a (f x)"] join_mem [of a "f x"] show ?case by auto
qed simp

lemma fold_join_None:
  "foldl (\<lambda>d x. join2 d (f x)) a xs = None \<longleftrightarrow> a = None \<and> (\<forall>x \<in> set xs. f x = None)"
  by (induction xs arbitrary: a) (auto simp: join_None_iff)

end

interpretation gate: ranked_join gate_rank combine_gate_decisions
  by unfold_locales (auto simp: combine_gate_decisions_def split: option.splits)

interpretation verdict: ranked_join decision_rank combine_decisions
  by unfold_locales (auto simp: combine_decisions_def split: option.splits)

section \<open>The compiled policy\<close>

record 'g CompiledPolicy =
  config :: PermissionConfig
  matchers :: "'g option list"
  has_file_restrictions :: bool
  has_bash_command_restrictions :: bool
  has_bash_allow_rules :: bool
  catchall :: "bool list"

definition restricts :: "PermissionRule \<Rightarrow> bool" where
  "restricts rule \<longleftrightarrow> pr_action rule = RuleAction.Deny \<or> pr_action rule = RuleAction.Ask"

definition compiled_policy_new :: "'g env \<Rightarrow> PermissionConfig \<Rightarrow> 'g CompiledPolicy" where
  "compiled_policy_new env cfg =
     \<lparr>config = cfg,
      matchers = map (compile_matcher env) (cfg_rules cfg),
      has_file_restrictions =
        list_ex (\<lambda>rule. restricts rule \<and>
          pr_tool rule \<in> set [ToolFilter.Read, ToolFilter.Edit, ToolFilter.Any]) (cfg_rules cfg),
      has_bash_command_restrictions =
        list_ex (\<lambda>rule. restricts rule \<and>
          pr_tool rule \<in> set [ToolFilter.Bash, ToolFilter.Any]) (cfg_rules cfg),
      has_bash_allow_rules =
        list_ex (\<lambda>rule. pr_action rule = RuleAction.Allow \<and>
          pr_tool rule \<in> set [ToolFilter.Bash, ToolFilter.Any]) (cfg_rules cfg),
      catchall = map (rule_is_catchall env) (cfg_rules cfg)\<rparr>"

section \<open>The conjunctive Bash allow\<close>

datatype AllowRuleScope = Any | NarrowOnly

definition bash_words_allowed :: "'g env \<Rightarrow> 'g CompiledPolicy \<Rightarrow> words \<Rightarrow> AllowRuleScope \<Rightarrow> bool" where
  "bash_words_allowed env policy ws scope =
     (if ws = [] then False
      else let narrow_only = (scope = NarrowOnly) in
        if narrow_only \<and> head_is_exec_vehicle ws then False
        else let cmd = join '' '' ws in
          list_ex (\<lambda>((rule, matcher), catchall).
              \<not> (narrow_only \<and> catchall) \<and> pr_action rule = RuleAction.Allow \<and>
              pr_tool rule \<in> set [ToolFilter.Bash, ToolFilter.Any] \<and>
              bash_allow_pattern_matches env cmd rule matcher)
            (zip (zip (cfg_rules (config policy)) (matchers policy)) (catchall policy)))"

text \<open>One script, given what is asked of the literal inline scripts in it.\<close>

definition segment_allowed ::
  "'g env \<Rightarrow> 'g CompiledPolicy \<Rightarrow> (string \<Rightarrow> bool) \<Rightarrow> AllowRuleScope \<Rightarrow> PlainCommand \<Rightarrow> bool" where
  "segment_allowed env policy inner scope parsed =
     (let norm = normalize_command_words (pc_words parsed) in
      if nc_exhausted norm \<or> nc_ambiguous norm \<or> nc_env_options_uncertain norm
         \<or> nc_has_split_string norm
      then False
      else let inner_words = nc_words norm in
        if \<not> bash_words_allowed env policy inner_words scope then False
        else case shell_dash_c_script (map shell_word inner_words) of
               InlineShellScript.Literal index \<Rightarrow> inner (inner_words ! index)
             | NotInline \<Rightarrow> True
             | _ \<Rightarrow> False)"

definition script_allowed ::
  "'g env \<Rightarrow> 'g CompiledPolicy \<Rightarrow> (string \<Rightarrow> bool) \<Rightarrow> AllowRuleScope \<Rightarrow> string \<Rightarrow> bool" where
  "script_allowed env policy inner scope cmd =
     (case all_commands_from_script (ts_parse env) cmd of
        None \<Rightarrow> False
      | Some segs \<Rightarrow>
          if segs = [] then False else list_all (segment_allowed env policy inner scope) segs)"

fun bash_chain_fully_allowed ::
  "'g env \<Rightarrow> 'g CompiledPolicy \<Rightarrow> string \<Rightarrow> nat \<Rightarrow> AllowRuleScope \<Rightarrow> bool" where
  "bash_chain_fully_allowed env policy cmd 0 scope = script_allowed env policy (\<lambda>_. False) scope cmd"
| "bash_chain_fully_allowed env policy cmd (Suc depth) scope =
     script_allowed env policy (\<lambda>script. bash_chain_fully_allowed env policy script depth scope) scope cmd"

definition narrow_allow_authorizes :: "'g env \<Rightarrow> 'g CompiledPolicy \<Rightarrow> AccessKind \<Rightarrow> bool" where
  "narrow_allow_authorizes env policy access =
     (case access of
        AccessKind.Bash cmd \<Rightarrow>
          has_bash_allow_rules policy \<and>
          bash_chain_fully_allowed env policy cmd MAX_INLINE_SHELL_DEPTH NarrowOnly
      | _ \<Rightarrow> False)"

section \<open>Lexical evaluation\<close>

fun tool_label :: "ToolFilter \<Rightarrow> string" where
  "tool_label ToolFilter.Any = ''any tool''"
| "tool_label ToolFilter.Bash = ''bash''"
| "tool_label ToolFilter.Edit = ''edit''"
| "tool_label ToolFilter.Read = ''read''"
| "tool_label ToolFilter.Grep = ''grep''"
| "tool_label ToolFilter.Mcp = ''mcp''"
| "tool_label ToolFilter.WebFetch = ''web_fetch''"
| "tool_label ToolFilter.WebSearch = ''web_search''"
| "tool_label ToolFilter.AgentMessage = ''agent_message''"

definition deny_reason :: "PermissionRule \<Rightarrow> string" where
  "deny_reason rule =
     ''Denied by permission policy: deny rule on '' @ tool_label (pr_tool rule) @
     (case pr_pattern rule of
        Some pattern \<Rightarrow> '' matching '' @ [dquote] @ pattern @ [dquote]
      | None \<Rightarrow> [])"

text \<open>The loop over the rules: the reason of a deny, or whether ask and allow rules matched.\<close>

fun lexical_scan ::
  "'g env \<Rightarrow> AccessKind \<Rightarrow> string option \<Rightarrow> (PermissionRule \<times> 'g option) list \<Rightarrow> bool \<Rightarrow> bool
   \<Rightarrow> string + bool \<times> bool" where
  "lexical_scan env access cwd [] matched_ask matched_allow = Inr (matched_ask, matched_allow)"
| "lexical_scan env access cwd ((rule, matcher) # rest) matched_ask matched_allow =
     (if \<not> tool_filter_matches access (pr_tool rule) then
        lexical_scan env access cwd rest matched_ask matched_allow
      else if \<not> pattern_matches env access \<lparr>cr_rule = rule, cr_matcher = matcher\<rparr> cwd then
        lexical_scan env access cwd rest matched_ask matched_allow
      else case pr_action rule of
             RuleAction.Deny \<Rightarrow> Inl (deny_reason rule)
           | RuleAction.Ask \<Rightarrow> lexical_scan env access cwd rest True matched_allow
           | RuleAction.Allow \<Rightarrow> lexical_scan env access cwd rest matched_ask True)"

definition evaluate_lexical_with_cwd ::
  "'g env \<Rightarrow> 'g CompiledPolicy \<Rightarrow> AccessKind \<Rightarrow> string option \<Rightarrow> Decision option" where
  "evaluate_lexical_with_cwd env policy access cwd =
     (case lexical_scan env access cwd (zip (cfg_rules (config policy)) (matchers policy)) False False of
        Inl reason \<Rightarrow> Some (Decision.Reject reason)
      | Inr (matched_ask, matched_allow) \<Rightarrow>
          if matched_ask then Some Decision.Ask
          else case access of
            AccessKind.Bash cmd \<Rightarrow>
              (if has_bash_allow_rules policy \<and>
                  bash_chain_fully_allowed env policy cmd MAX_INLINE_SHELL_DEPTH AllowRuleScope.Any
               then Some Decision.Allow else None)
          | _ \<Rightarrow> if matched_allow then Some Decision.Allow else None)"

section \<open>Evaluation with symbolic links\<close>

definition native_file_path :: "AccessKind \<Rightarrow> string option" where
  "native_file_path access =
     (case access of
        AccessKind.Edit path \<Rightarrow> Some path
      | AccessKind.Read (Some path) \<Rightarrow> Some path
      | AccessKind.Grep (Some path) _ \<Rightarrow> Some path
      | _ \<Rightarrow> None)"

text \<open>The last branch of \<open>access_with_path\<close> is unreachable; the code panics there.\<close>

definition access_with_path :: "AccessKind \<Rightarrow> string \<Rightarrow> AccessKind" where
  "access_with_path access path =
     (case access of
        AccessKind.Edit _ \<Rightarrow> AccessKind.Edit path
      | AccessKind.Read _ \<Rightarrow> AccessKind.Read (Some path)
      | AccessKind.Grep _ glob \<Rightarrow> AccessKind.Grep (Some path) glob
      | _ \<Rightarrow> undefined)"

definition raw_absolute_tool_path :: "string \<Rightarrow> string option \<Rightarrow> string option" where
  "raw_absolute_tool_path path cwd =
     (if is_tilde_path path then None
      else let joined = join_cwd cwd path in
        if is_absolute joined then Some (path_match_string joined) else None)"

definition native_path_restrictions_apply :: "'g CompiledPolicy \<Rightarrow> AccessKind \<Rightarrow> bool" where
  "native_path_restrictions_apply policy access =
     list_ex (\<lambda>rule. restricts rule \<and> tool_filter_matches access (pr_tool rule)) (cfg_rules (config policy))"

definition evaluate_with_cwd_details ::
  "'g env \<Rightarrow> 'g CompiledPolicy \<Rightarrow> AccessKind \<Rightarrow> string option \<Rightarrow> Decision option \<times> bool" where
  "evaluate_with_cwd_details env policy access cwd =
     (let lexical = evaluate_lexical_with_cwd env policy access cwd in
      case native_file_path access of
        None \<Rightarrow> (lexical, False)
      | Some path \<Rightarrow>
          (case raw_absolute_tool_path path cwd of
             None \<Rightarrow> (lexical, False)
           | Some raw_absolute \<Rightarrow>
               (let lexical_abs = path_match_string (absolute_normalized_path path cwd) in
                case follow_absolute_symlink (file_system env) raw_absolute lexical_abs of
                  Target resolved \<Rightarrow>
                    (let resolved_decision =
                           (case evaluate_lexical_with_cwd env policy (access_with_path access resolved) cwd of
                              Some (Decision.Reject r) \<Rightarrow> Some (Decision.Reject r)
                            | Some Decision.Ask \<Rightarrow> Some Decision.Ask
                            | _ \<Rightarrow> None)
                     in (combine_decisions lexical resolved_decision, False))
                | Unresolvable \<Rightarrow>
                    (if native_path_restrictions_apply policy access
                     then (combine_decisions lexical (Some Decision.Ask), True)
                     else (lexical, False))
                | NoFollow \<Rightarrow> (lexical, False))))"

definition evaluate_with_cwd ::
  "'g env \<Rightarrow> 'g CompiledPolicy \<Rightarrow> AccessKind \<Rightarrow> string option \<Rightarrow> Decision option" where
  "evaluate_with_cwd env policy access cwd = fst (evaluate_with_cwd_details env policy access cwd)"

definition evaluate :: "'g env \<Rightarrow> 'g CompiledPolicy \<Rightarrow> AccessKind \<Rightarrow> Decision option" where
  "evaluate env policy access = evaluate_with_cwd env policy access None"

section \<open>The Bash command gate\<close>

definition escalate :: "'g env \<Rightarrow> 'g CompiledPolicy \<Rightarrow> string \<Rightarrow> GateDecision option" where
  "escalate env policy segment =
     (case evaluate env policy (AccessKind.Bash segment) of
        Some (Decision.Reject reason) \<Rightarrow> Some (GateDecision.Reject reason)
      | Some Decision.Ask \<Rightarrow> Some AskRuleMatch
      | _ \<Rightarrow> None)"

definition then_some :: "bool \<Rightarrow> 'a \<Rightarrow> 'a option" where
  "then_some b x = (if b then Some x else None)"

text \<open>\<open>inner\<close> is the gate on an inline script: one level down, or fail-closed when no depth is left.\<close>

definition evaluate_command_words ::
  "'g env \<Rightarrow> 'g CompiledPolicy \<Rightarrow> (string \<Rightarrow> GateDecision option) \<Rightarrow> words \<Rightarrow> GateDecision option" where
  "evaluate_command_words env policy inner raw_words =
     (let norm = normalize_command_words raw_words;
          decision = then_some (nc_exhausted norm \<or> nc_ambiguous norm \<or> nc_env_options_uncertain norm)
                       AskFailClosed;
          decision = combine_gate_decisions decision
                       (then_some (nc_has_split_string norm) AskFailClosed);
          inner_words = nc_words norm;
          forms = raw_words # (if length inner_words \<noteq> length raw_words then [inner_words] else []);
          decision = foldl (\<lambda>d ws. combine_gate_decisions d (escalate env policy (join '' '' ws)))
                       decision forms;
          decision = (case shell_dash_c_script (map shell_word inner_words) of
              InlineShellScript.Literal index \<Rightarrow>
                combine_gate_decisions decision (inner (inner_words ! index))
            | InlineShellScript.Untrusted \<Rightarrow> combine_gate_decisions decision (Some AskFailClosed)
            | Unrecognized \<Rightarrow> combine_gate_decisions decision (Some AskFailClosed)
            | NotInline \<Rightarrow> decision)
      in case env_split_string_script inner_words of
           Some script \<Rightarrow> combine_gate_decisions decision (inner script)
         | None \<Rightarrow> decision)"

definition gate_segments ::
  "'g env \<Rightarrow> 'g CompiledPolicy \<Rightarrow> (string \<Rightarrow> GateDecision option) \<Rightarrow> string \<Rightarrow> GateDecision option" where
  "gate_segments env policy inner cmd =
     (case all_commands_from_script (ts_parse env) cmd of
        None \<Rightarrow> Some AskFailClosed
      | Some segs \<Rightarrow>
          foldl (\<lambda>d parsed. combine_gate_decisions d
                   (evaluate_command_words env policy inner (pc_words parsed))) None segs)"

fun evaluate_bash_command_segments ::
  "'g env \<Rightarrow> 'g CompiledPolicy \<Rightarrow> string \<Rightarrow> nat \<Rightarrow> GateDecision option" where
  "evaluate_bash_command_segments env policy cmd 0 =
     gate_segments env policy (\<lambda>_. Some AskFailClosed) cmd"
| "evaluate_bash_command_segments env policy cmd (Suc depth) =
     gate_segments env policy (\<lambda>script. evaluate_bash_command_segments env policy script depth) cmd"

definition evaluate_bash_command_gate :: "'g env \<Rightarrow> 'g CompiledPolicy \<Rightarrow> string \<Rightarrow> GateDecision option" where
  "evaluate_bash_command_gate env policy cmd =
     (if \<not> has_bash_command_restrictions policy then None
      else evaluate_bash_command_segments env policy cmd MAX_INLINE_SHELL_DEPTH)"

definition evaluate_bash_command_policy :: "'g env \<Rightarrow> 'g CompiledPolicy \<Rightarrow> string \<Rightarrow> Decision option" where
  "evaluate_bash_command_policy env policy cmd =
     map_option into_decision (evaluate_bash_command_gate env policy cmd)"

section \<open>Strictest matching rule wins\<close>

text \<open>The specification: the strictest action among the rules that match the access.\<close>

definition rule_matches :: "'g env \<Rightarrow> AccessKind \<Rightarrow> string option \<Rightarrow> PermissionRule \<Rightarrow> bool" where
  "rule_matches env access cwd rule \<longleftrightarrow>
     tool_filter_matches access (pr_tool rule) \<and>
     pattern_matches env access \<lparr>cr_rule = rule, cr_matcher = compile_matcher env rule\<rparr> cwd"

definition strictest_match :: "'g env \<Rightarrow> PermissionConfig \<Rightarrow> AccessKind \<Rightarrow> string option \<Rightarrow> RuleAction option" where
  "strictest_match env cfg access cwd =
     (let actions = map pr_action (filter (rule_matches env access cwd) (cfg_rules cfg))
      in if actions = [] then None else Some (Max (set actions)))"

definition first_deny :: "'g env \<Rightarrow> PermissionConfig \<Rightarrow> AccessKind \<Rightarrow> string option \<Rightarrow> PermissionRule" where
  "first_deny env cfg access cwd =
     hd (filter (\<lambda>r. rule_matches env access cwd r \<and> pr_action r = RuleAction.Deny) (cfg_rules cfg))"

lemma zip_matchers:
  "zip (cfg_rules (config (compiled_policy_new env cfg))) (matchers (compiled_policy_new env cfg))
     = map (\<lambda>r. (r, compile_matcher env r)) (cfg_rules cfg)"
  by (simp add: compiled_policy_new_def zip_map2 zip_same_conv_map)

lemma lexical_scan_compiled:
  "lexical_scan env access cwd (map (\<lambda>r. (r, compile_matcher env r)) rules) ask allow =
     (let ms = filter (rule_matches env access cwd) rules;
          denies = filter (\<lambda>r. rule_matches env access cwd r \<and> pr_action r = RuleAction.Deny) rules
      in if denies \<noteq> [] then Inl (deny_reason (hd denies))
         else Inr (ask \<or> RuleAction.Ask \<in> pr_action ` set ms, allow \<or> RuleAction.Allow \<in> pr_action ` set ms))"
proof (induction rules arbitrary: ask allow)
  case (Cons r rules)
  show ?case
  proof (cases "rule_matches env access cwd r")
    case False
    then show ?thesis using Cons by (auto simp: rule_matches_def)
  next
    case True
    then show ?thesis using Cons by (cases "pr_action r") (auto simp: rule_matches_def Let_def)
  qed
qed simp

lemma Max_action:
  fixes A :: "RuleAction set"
  assumes "finite A" and "A \<noteq> {}"
  shows "Max A = (if RuleAction.Deny \<in> A then RuleAction.Deny
                  else if RuleAction.Ask \<in> A then RuleAction.Ask else RuleAction.Allow)"
proof (rule Max_eqI)
  show "finite A" by fact
  have le: "strictness a \<le> 2" for a by (cases a) auto
  show "b \<le> (if RuleAction.Deny \<in> A then RuleAction.Deny
                  else if RuleAction.Ask \<in> A then RuleAction.Ask else RuleAction.Allow)"
    if "b \<in> A" for b
    using that le [of b] by (cases b) (auto simp: less_eq_RuleAction_def)
  show "(if RuleAction.Deny \<in> A then RuleAction.Deny
                  else if RuleAction.Ask \<in> A then RuleAction.Ask else RuleAction.Allow) \<in> A"
    using assms(2) by (auto, metis RuleAction.exhaust)
qed

definition matched_actions :: "'g env \<Rightarrow> PermissionConfig \<Rightarrow> AccessKind \<Rightarrow> string option \<Rightarrow> RuleAction set" where
  "matched_actions env cfg access cwd =
     set (map pr_action (filter (rule_matches env access cwd) (cfg_rules cfg)))"

lemma strictest_match_eq:
  "strictest_match env cfg access cwd =
     (let A = matched_actions env cfg access cwd in
      if A = {} then None
      else Some (if RuleAction.Deny \<in> A then RuleAction.Deny
                 else if RuleAction.Ask \<in> A then RuleAction.Ask else RuleAction.Allow))"
proof -
  have "finite (matched_actions env cfg access cwd)" by (simp add: matched_actions_def)
  from Max_action [OF this] show ?thesis
    by (simp add: strictest_match_def matched_actions_def Let_def del: set_map set_filter)
qed

lemma no_denies:
  "filter (\<lambda>r. rule_matches env access cwd r \<and> pr_action r = RuleAction.Deny) (cfg_rules cfg) = []
     \<longleftrightarrow> RuleAction.Deny \<notin> matched_actions env cfg access cwd"
  by (auto simp: matched_actions_def filter_empty_conv image_iff)

lemma lexical_scan_strictest:
  "lexical_scan env access cwd (map (\<lambda>r. (r, compile_matcher env r)) (cfg_rules cfg)) False False =
     (let A = matched_actions env cfg access cwd in
      if RuleAction.Deny \<in> A then Inl (deny_reason (first_deny env cfg access cwd))
      else Inr (RuleAction.Ask \<in> A, RuleAction.Allow \<in> A))"
  by (simp add: lexical_scan_compiled Let_def no_denies first_deny_def)
    (simp add: matched_actions_def)

lemma evaluate_lexical_matched:
  "evaluate_lexical_with_cwd env (compiled_policy_new env cfg) access cwd =
     (let A = matched_actions env cfg access cwd; policy = compiled_policy_new env cfg in
      if RuleAction.Deny \<in> A then Some (Decision.Reject (deny_reason (first_deny env cfg access cwd)))
      else if RuleAction.Ask \<in> A then Some Decision.Ask
      else case access of
             AccessKind.Bash cmd \<Rightarrow>
               (if has_bash_allow_rules policy \<and>
                   bash_chain_fully_allowed env policy cmd MAX_INLINE_SHELL_DEPTH AllowRuleScope.Any
                then Some Decision.Allow else None)
           | _ \<Rightarrow> if RuleAction.Allow \<in> A then Some Decision.Allow else None)"
  unfolding evaluate_lexical_with_cwd_def zip_matchers lexical_scan_strictest Let_def by simp

text \<open>
  C1: The lexical evaluation computes the specification: it looks for the strictest action among
  all matching rules (deny over ask over allow). A deny rejects with the reason of the first
  matching deny rule, an ask asks, and an allow grants; for a Bash command the grant is instead the
  conjunctive check over the whole chain.
\<close>

theorem evaluate_lexical_strictest:
  "evaluate_lexical_with_cwd env (compiled_policy_new env cfg) access cwd =
     (case strictest_match env cfg access cwd of
        Some RuleAction.Deny \<Rightarrow> Some (Decision.Reject (deny_reason (first_deny env cfg access cwd)))
      | Some RuleAction.Ask \<Rightarrow> Some Decision.Ask
      | m \<Rightarrow> (case access of
                AccessKind.Bash cmd \<Rightarrow>
                  if has_bash_allow_rules (compiled_policy_new env cfg) \<and>
                     bash_chain_fully_allowed env (compiled_policy_new env cfg) cmd
                       MAX_INLINE_SHELL_DEPTH AllowRuleScope.Any
                  then Some Decision.Allow else None
              | _ \<Rightarrow> if m = Some RuleAction.Allow then Some Decision.Allow else None))"
proof -
  define A where "A = matched_actions env cfg access cwd"
  have "A = {} \<longleftrightarrow> RuleAction.Deny \<notin> A \<and> RuleAction.Ask \<notin> A \<and> RuleAction.Allow \<notin> A"
    unfolding set_eq_iff by (auto, metis RuleAction.exhaust)
  then show ?thesis
    unfolding evaluate_lexical_matched strictest_match_eq A_def [symmetric] Let_def
    by (cases access; cases "RuleAction.Deny \<in> A"; cases "RuleAction.Ask \<in> A";
        cases "RuleAction.Allow \<in> A") simp_all
qed

section \<open>The order of the rules does not matter\<close>

lemma words_allowed_compiled:
  "bash_words_allowed env (compiled_policy_new env cfg) ws scope \<longleftrightarrow>
     ws \<noteq> [] \<and> \<not> (scope = NarrowOnly \<and> head_is_exec_vehicle ws) \<and>
     (\<exists>rule \<in> set (cfg_rules cfg). \<not> (scope = NarrowOnly \<and> rule_is_catchall env rule) \<and>
        pr_action rule = RuleAction.Allow \<and> pr_tool rule \<in> {ToolFilter.Bash, ToolFilter.Any} \<and>
        bash_allow_pattern_matches env (join '' '' ws) rule (compile_matcher env rule))"
proof -
  have "zip (zip rules (map (compile_matcher env) rules)) (map (rule_is_catchall env) rules)
      = map (\<lambda>r. ((r, compile_matcher env r), rule_is_catchall env r)) rules" for rules
    by (induction rules) auto
  then show ?thesis
    by (auto simp: bash_words_allowed_def compiled_policy_new_def list_ex_iff Let_def)
qed

lemma script_allowed_cong:
  assumes "\<And>ws. bash_words_allowed env p ws scope = bash_words_allowed env q ws scope"
    and "\<And>s. inner s = inner' s"
  shows "script_allowed env p inner scope cmd = script_allowed env q inner' scope cmd"
proof -
  have "segment_allowed env p inner scope = segment_allowed env q inner' scope"
    by (rule ext) (simp add: segment_allowed_def assms cong: InlineShellScript.case_cong)
  then show ?thesis by (simp only: script_allowed_def)
qed

lemma chain_allowed_cong:
  assumes "\<And>ws. bash_words_allowed env p ws scope = bash_words_allowed env q ws scope"
  shows "bash_chain_fully_allowed env p cmd depth scope = bash_chain_fully_allowed env q cmd depth scope"
  by (induction depth arbitrary: cmd) (auto intro!: script_allowed_cong assms)

lemma evaluate_lexical_same_rules:
  assumes "set (cfg_rules cfg) = set (cfg_rules cfg')"
  shows "map_option decision_rank (evaluate_lexical_with_cwd env (compiled_policy_new env cfg) access cwd)
    = map_option decision_rank (evaluate_lexical_with_cwd env (compiled_policy_new env cfg') access cwd)"
proof -
  have acts: "matched_actions env cfg access cwd = matched_actions env cfg' access cwd"
    using assms by (simp add: matched_actions_def)
  have flag: "has_bash_allow_rules (compiled_policy_new env cfg) = has_bash_allow_rules (compiled_policy_new env cfg')"
    using assms by (simp add: compiled_policy_new_def list_ex_iff)
  have chain: "bash_chain_fully_allowed env (compiled_policy_new env cfg) cmd d sc
      = bash_chain_fully_allowed env (compiled_policy_new env cfg') cmd d sc" for cmd d sc
    by (rule chain_allowed_cong) (simp add: words_allowed_compiled assms)
  show ?thesis
    unfolding evaluate_lexical_matched acts flag chain Let_def
    by (simp split: AccessKind.split)
qed

lemma rank_join:
  assumes "map_option decision_rank a = map_option decision_rank a'"
    and "map_option decision_rank b = map_option decision_rank b'"
  shows "map_option decision_rank (combine_decisions a b) = map_option decision_rank (combine_decisions a' b')"
  using assms by (auto simp: combine_decisions_def split: option.splits)

definition escalation_only :: "Decision option \<Rightarrow> Decision option" where
  "escalation_only d =
     (case d of
        Some (Decision.Reject r) \<Rightarrow> Some (Decision.Reject r)
      | Some Decision.Ask \<Rightarrow> Some Decision.Ask
      | _ \<Rightarrow> None)"

lemma lexical_values:
  "evaluate_lexical_with_cwd env policy access cwd \<in>
     {None, Some Decision.Ask, Some Decision.Allow} \<union> {Some (Decision.Reject r) |r. True}"
  by (auto simp: evaluate_lexical_with_cwd_def split: sum.splits prod.splits AccessKind.splits)

lemma lexical_escalation:
  "escalation_only (evaluate_lexical_with_cwd env policy access cwd) =
     (if evaluate_lexical_with_cwd env policy access cwd \<in> {None, Some Decision.Allow} then None
      else evaluate_lexical_with_cwd env policy access cwd)"
  using lexical_values [of env policy access cwd] by (auto simp: escalation_only_def)

lemma escalation_rank:
  assumes "map_option decision_rank a = map_option decision_rank b"
    and "a \<in> {None, Some Decision.Ask, Some Decision.Allow} \<union> {Some (Decision.Reject r) |r. True}"
    and "b \<in> {None, Some Decision.Ask, Some Decision.Allow} \<union> {Some (Decision.Reject r) |r. True}"
  shows "map_option decision_rank (escalation_only a) = map_option decision_rank (escalation_only b)"
  using assms by (auto simp: escalation_only_def)

lemma details_unfold:
  "evaluate_with_cwd env policy access cwd =
     (let lexical = evaluate_lexical_with_cwd env policy access cwd in
      case native_file_path access of
        None \<Rightarrow> lexical
      | Some path \<Rightarrow>
          (case raw_absolute_tool_path path cwd of
             None \<Rightarrow> lexical
           | Some raw \<Rightarrow>
               (case follow_absolute_symlink (file_system env) raw
                       (path_match_string (absolute_normalized_path path cwd)) of
                  Target resolved \<Rightarrow> combine_decisions lexical
                    (escalation_only (evaluate_lexical_with_cwd env policy (access_with_path access resolved) cwd))
                | Unresolvable \<Rightarrow>
                    (if native_path_restrictions_apply policy access
                     then combine_decisions lexical (Some Decision.Ask) else lexical)
                | NoFollow \<Rightarrow> lexical)))"
  by (simp add: evaluate_with_cwd_def evaluate_with_cwd_details_def escalation_only_def Let_def
      split: option.split SymlinkFollow.split)

text \<open>
  The verdict depends only on which rules there are: reordering or repeating the rules of a
  configuration never changes whether an access is rejected, asked about, allowed or left open, for
  every tool, with the symbolic-link check and the conjunctive Bash grant included.
\<close>

theorem evaluate_rule_order_irrelevant:
  assumes "set (cfg_rules cfg) = set (cfg_rules cfg')"
  shows "map_option decision_rank (evaluate_with_cwd env (compiled_policy_new env cfg) access cwd)
    = map_option decision_rank (evaluate_with_cwd env (compiled_policy_new env cfg') access cwd)"
proof -
  note same = evaluate_lexical_same_rules [OF assms]
  have esc: "map_option decision_rank (escalation_only (evaluate_lexical_with_cwd env (compiled_policy_new env cfg) a cwd))
      = map_option decision_rank (escalation_only (evaluate_lexical_with_cwd env (compiled_policy_new env cfg') a cwd))" for a
    by (rule escalation_rank [OF same lexical_values lexical_values])
  have native: "native_path_restrictions_apply (compiled_policy_new env cfg) access
      = native_path_restrictions_apply (compiled_policy_new env cfg') access"
    using assms by (simp add: native_path_restrictions_apply_def compiled_policy_new_def list_ex_iff)
  show ?thesis
    unfolding details_unfold native Let_def
    by (auto split: option.split SymlinkFollow.split intro!: rank_join same esc)
qed

definition rm_deny :: PermissionRule where
  "rm_deny = \<lparr>pr_action = RuleAction.Deny, pr_tool = ToolFilter.Bash, pr_pattern = Some ''rm'', pr_pattern_mode = Glob\<rparr>"

definition edit_allow :: PermissionRule where
  "edit_allow = \<lparr>pr_action = RuleAction.Allow, pr_tool = ToolFilter.Edit, pr_pattern = None, pr_pattern_mode = Glob\<rparr>"

theorem evaluate_rule_order_irrelevant_witness:
  "map_option decision_rank (evaluate_with_cwd example_env
      (compiled_policy_new example_env (new_permission_config [rm_deny, edit_allow])) (AccessKind.Bash ''rm -rf x'') None)
   = map_option decision_rank (evaluate_with_cwd example_env
      (compiled_policy_new example_env (new_permission_config [edit_allow, rm_deny, edit_allow]))
        (AccessKind.Bash ''rm -rf x'') None)"
  by (rule evaluate_rule_order_irrelevant) (auto simp: new_permission_config_def)

section \<open>A symbolic link can only make the verdict stricter\<close>

text \<open>
  C10: The check of the link target never relaxes a verdict. The verdict on an access is at least as
  strict as that on its spelled path, where an answer is stricter than none; a rejection of the spelled
  path stays the same rejection. When the path is a link to a target that is denied or asked about, the
  verdict is at least as strict as the one on the target, otherwise it is the one on the spelled path;
  when the link cannot be resolved and a restriction applies to the tool, it is at least a question. So an access
  is allowed only if its spelled path is allowed, the target it resolves to is neither denied nor asked about,
  and no restriction applies when the link cannot be resolved.
\<close>

theorem symlink_check_only_escalates:
  "verdict.orank (evaluate_lexical_with_cwd env policy access cwd) \<le> verdict.orank (evaluate_with_cwd env policy access cwd)
   \<and> (\<forall>path raw. native_file_path access = Some path \<longrightarrow> raw_absolute_tool_path path cwd = Some raw \<longrightarrow>
         (case follow_absolute_symlink (file_system env) raw
                 (path_match_string (absolute_normalized_path path cwd)) of
            Target t \<Rightarrow>
              (if evaluate_lexical_with_cwd env policy (access_with_path access t) cwd \<in> {None, Some Decision.Allow}
               then evaluate_with_cwd env policy access cwd = evaluate_lexical_with_cwd env policy access cwd
               else verdict.orank (evaluate_lexical_with_cwd env policy (access_with_path access t) cwd)
                      \<le> verdict.orank (evaluate_with_cwd env policy access cwd))
          | Unresolvable \<Rightarrow>
              (if native_path_restrictions_apply policy access
               then verdict.orank (Some Decision.Ask) \<le> verdict.orank (evaluate_with_cwd env policy access cwd)
               else evaluate_with_cwd env policy access cwd = evaluate_lexical_with_cwd env policy access cwd)
          | NoFollow \<Rightarrow> evaluate_with_cwd env policy access cwd = evaluate_lexical_with_cwd env policy access cwd))
   \<and> (evaluate_lexical_with_cwd env policy access cwd = Some (Decision.Reject r) \<longrightarrow>
      evaluate_with_cwd env policy access cwd = Some (Decision.Reject r))
   \<and> (evaluate_with_cwd env policy access cwd = Some Decision.Allow \<longrightarrow>
      evaluate_lexical_with_cwd env policy access cwd = Some Decision.Allow \<and>
      (\<forall>path raw. native_file_path access = Some path \<longrightarrow> raw_absolute_tool_path path cwd = Some raw \<longrightarrow>
         (case follow_absolute_symlink (file_system env) raw
                 (path_match_string (absolute_normalized_path path cwd)) of
            Target t \<Rightarrow> evaluate_lexical_with_cwd env policy (access_with_path access t) cwd
                          \<in> {None, Some Decision.Allow}
          | Unresolvable \<Rightarrow> \<not> native_path_restrictions_apply policy access
          | NoFollow \<Rightarrow> True)))"
proof (intro conjI impI)
  show "verdict.orank (evaluate_lexical_with_cwd env policy access cwd) \<le> verdict.orank (evaluate_with_cwd env policy access cwd)"
    unfolding details_unfold Let_def by (auto simp: verdict.orank_join split: option.split SymlinkFollow.split)
next
  show "\<forall>path raw. native_file_path access = Some path \<longrightarrow> raw_absolute_tool_path path cwd = Some raw \<longrightarrow>
         (case follow_absolute_symlink (file_system env) raw (path_match_string (absolute_normalized_path path cwd)) of
            Target t \<Rightarrow>
              (if evaluate_lexical_with_cwd env policy (access_with_path access t) cwd \<in> {None, Some Decision.Allow}
               then evaluate_with_cwd env policy access cwd = evaluate_lexical_with_cwd env policy access cwd
               else verdict.orank (evaluate_lexical_with_cwd env policy (access_with_path access t) cwd)
                      \<le> verdict.orank (evaluate_with_cwd env policy access cwd))
          | Unresolvable \<Rightarrow>
              (if native_path_restrictions_apply policy access
               then verdict.orank (Some Decision.Ask) \<le> verdict.orank (evaluate_with_cwd env policy access cwd)
               else evaluate_with_cwd env policy access cwd = evaluate_lexical_with_cwd env policy access cwd)
          | NoFollow \<Rightarrow> evaluate_with_cwd env policy access cwd = evaluate_lexical_with_cwd env policy access cwd)"
    by (auto simp: details_unfold Let_def lexical_escalation verdict.orank_join verdict.join_None_right
        simp del: verdict.orank_simps split: SymlinkFollow.split)
next
  assume lex: "evaluate_lexical_with_cwd env policy access cwd = Some (Decision.Reject r)"
  have "combine_decisions (Some (Decision.Reject r)) d = Some (Decision.Reject r)"
    if "d \<in> {None, Some Decision.Ask} \<union> {Some (Decision.Reject r) |r. True}" for d
    using that by (auto simp: combine_decisions_def)
  moreover have "escalation_only d \<in> {None, Some Decision.Ask} \<union> {Some (Decision.Reject r) |r. True}" for d
    by (auto simp: escalation_only_def split: option.splits Decision.splits)
  ultimately show "evaluate_with_cwd env policy access cwd = Some (Decision.Reject r)"
    unfolding details_unfold lex Let_def by (simp split: option.split SymlinkFollow.split)
next
  assume allow: "evaluate_with_cwd env policy access cwd = Some Decision.Allow"
  have comb: "combine_decisions a b = Some Decision.Allow \<longleftrightarrow>
      a = Some Decision.Allow \<and> b = None"
    if "b \<in> {None, Some Decision.Ask} \<union> {Some (Decision.Reject r) |r. True}" for a b
    using that by (cases a) (auto simp: combine_decisions_def split: if_splits)
  have esc: "escalation_only d \<in> {None, Some Decision.Ask} \<union> {Some (Decision.Reject r) |r. True}" for d
    by (auto simp: escalation_only_def split: option.splits Decision.splits)
  have none: "escalation_only d = None \<longleftrightarrow> d \<in> {None, Some Decision.Allow}"
    if "d \<in> {None, Some Decision.Ask, Some Decision.Allow} \<union> {Some (Decision.Reject r) |r. True}" for d
    using that by (auto simp: escalation_only_def)
  note facts = comb [OF esc] comb [of "Some Decision.Ask"] none [OF lexical_values]
  from allow show "evaluate_lexical_with_cwd env policy access cwd = Some Decision.Allow"
    unfolding details_unfold Let_def
    by (simp add: facts split: option.splits SymlinkFollow.splits if_splits)
  from allow show "\<forall>path raw. native_file_path access = Some path \<longrightarrow> raw_absolute_tool_path path cwd = Some raw \<longrightarrow>
         (case follow_absolute_symlink (file_system env) raw
                 (path_match_string (absolute_normalized_path path cwd)) of
            Target t \<Rightarrow> evaluate_lexical_with_cwd env policy (access_with_path access t) cwd
                          \<in> {None, Some Decision.Allow}
          | Unresolvable \<Rightarrow> \<not> native_path_restrictions_apply policy access
          | NoFollow \<Rightarrow> True)"
    unfolding details_unfold Let_def
    by (auto simp: facts split: SymlinkFollow.splits if_splits)
qed

definition linked_env :: "string env" where
  "linked_env = example_env\<lparr>file_system := linked_fs\<rparr>"

definition linked_policy :: "string CompiledPolicy" where
  "linked_policy = compiled_policy_new linked_env (new_permission_config
     [edit_allow, \<lparr>pr_action = RuleAction.Deny, pr_tool = ToolFilter.Edit, pr_pattern = Some ''/w/c'',
                   pr_pattern_mode = Glob\<rparr>])"

theorem symlink_check_only_escalates_witness:
  "evaluate_with_cwd linked_env linked_policy (AccessKind.Edit ''c'') (Some ''/w'') \<noteq> Some Decision.Allow
   \<and> evaluate_lexical_with_cwd linked_env linked_policy (AccessKind.Edit ''d'') (Some ''/w'') = Some Decision.Allow
   \<and> evaluate_with_cwd linked_env linked_policy (AccessKind.Edit ''a'') (Some ''/w'') \<noteq> Some Decision.Allow"
proof -
  note only = symlink_check_only_escalates [of linked_env linked_policy]
  obtain r where "evaluate_lexical_with_cwd linked_env linked_policy (AccessKind.Edit ''c'') (Some ''/w'')
      = Some (Decision.Reject r)"
  proof -
    have "(case evaluate_lexical_with_cwd linked_env linked_policy (AccessKind.Edit ''c'') (Some ''/w'') of
        Some (Decision.Reject _) \<Rightarrow> True | _ \<Rightarrow> False)" by code_simp
    then show thesis using that by (auto split: option.splits Decision.splits)
  qed
  moreover have "evaluate_with_cwd linked_env linked_policy (AccessKind.Edit ''d'') (Some ''/w'') = Some Decision.Allow"
    by code_simp
  moreover have "evaluate_with_cwd linked_env linked_policy (AccessKind.Edit ''a'') (Some ''/w'') \<noteq> Some Decision.Allow"
    by code_simp
  ultimately show ?thesis using only by auto
qed

end
