(* ===== verification/Bash_Gate.thy ===== *)
theory Bash_Gate
  imports Permission_Policy
begin

text \<open>
  What the policy guarantees about Bash scripts. The commands a script runs include those of its
  inline scripts: the string after a shell's \<open>-c\<close> and, for the gate, the packed string of \<open>env -S\<close>.
  The relations below say which scripts are reached at which depth; the theorems say that the
  conjunctive allow and the escalation gate of \<open>permission/policy.rs\<close> cover every reached command,
  and fail closed beyond the depth they explore.
\<close>

section \<open>Scripts within scripts\<close>

abbreviation peeled :: "PlainCommand \<Rightarrow> words" where
  "peeled p \<equiv> nc_words (normalize_command_words (pc_words p))"

abbreviation dash_c :: "words \<Rightarrow> InlineShellScript" where
  "dash_c ws \<equiv> shell_dash_c_script (map shell_word ws)"

text \<open>\<open>inner_scripts env cmd\<close>: the literal \<open>-c\<close> scripts and the \<open>-S\<close> scripts directly in \<open>cmd\<close>.\<close>

inductive dash_c_script :: "'g env \<Rightarrow> string \<Rightarrow> string \<Rightarrow> bool" for env where
  dash_c_scriptI: "all_commands_from_script (ts_parse env) cmd = Some segs \<Longrightarrow> p \<in> set segs \<Longrightarrow>
     dash_c (peeled p) = InlineShellScript.Literal i \<Longrightarrow> dash_c_script env cmd (peeled p ! i)"

inductive split_script :: "'g env \<Rightarrow> string \<Rightarrow> string \<Rightarrow> bool" for env where
  split_scriptI: "all_commands_from_script (ts_parse env) cmd = Some segs \<Longrightarrow> p \<in> set segs \<Longrightarrow>
     env_split_string_script (peeled p) = Some script \<Longrightarrow> split_script env cmd script"

inductive reached :: "('a \<Rightarrow> 'a \<Rightarrow> bool) \<Rightarrow> nat \<Rightarrow> 'a \<Rightarrow> 'a \<Rightarrow> bool" for R where
  reached_self: "reached R 0 s s"
| reached_step: "R s t \<Longrightarrow> reached R n t u \<Longrightarrow> reached R (Suc n) s u"

inductive_cases reached_SucE: "reached R (Suc n) s u"
inductive_cases dash_c_scriptE: "dash_c_script env cmd script"
inductive_cases split_scriptE: "split_script env cmd script"

definition gate_script :: "'g env \<Rightarrow> string \<Rightarrow> string \<Rightarrow> bool" where
  "gate_script env s t \<longleftrightarrow> dash_c_script env s t \<or> split_script env s t"

section \<open>The conjunctive allow covers every command\<close>

lemma script_allowed_segment:
  assumes "script_allowed env policy inner scope cmd"
  obtains segs where "all_commands_from_script (ts_parse env) cmd = Some segs" "segs \<noteq> []"
    "\<forall>p \<in> set segs. segment_allowed env policy inner scope p"
  using assms by (auto simp: script_allowed_def list_all_iff split: option.splits if_splits)

lemma segment_allowed_facts:
  assumes "segment_allowed env policy inner scope p"
  shows "\<not> nc_untrusted (normalize_command_words (pc_words p))"
    and "bash_words_allowed env policy (peeled p) scope"
    and "dash_c (peeled p) = InlineShellScript.Literal i \<Longrightarrow> inner (peeled p ! i)"
  using assms by (auto simp: segment_allowed_def nc_untrusted_def Let_def split: if_splits)

lemma chain_allowed_script:
  "bash_chain_fully_allowed env policy cmd depth scope \<Longrightarrow>
   \<exists>inner. script_allowed env policy inner scope cmd \<and>
     (\<forall>s. inner s \<longrightarrow> depth > 0 \<and> bash_chain_fully_allowed env policy s (depth - 1) scope)"
  by (cases depth) auto

lemma chain_allowed_reached:
  assumes "reached (dash_c_script env) n cmd s"
    and "bash_chain_fully_allowed env policy cmd depth scope"
  shows "n \<le> depth \<and> bash_chain_fully_allowed env policy s (depth - n) scope"
  using assms
proof (induction arbitrary: depth rule: reached.induct)
  case (reached_step s t n u)
  obtain inner where inner: "script_allowed env policy inner scope s"
    and down: "\<And>x. inner x \<Longrightarrow> depth > 0 \<and> bash_chain_fully_allowed env policy x (depth - 1) scope"
    using chain_allowed_script [OF reached_step.prems] by blast
  from reached_step.hyps(1) inner have "inner t"
    by (auto elim!: dash_c_scriptE script_allowed_segment dest: segment_allowed_facts(3))
  from down [OF this] reached_step.IH show ?case by fastforce
qed simp

text \<open>
  C3: A Bash command is allowed only if every command it can run is. When the policy answers allow,
  the script and each literal \<open>-c\<close> script in it, at every depth, decompose fully into plain
  commands; none of them raises a fail-closed flag when its wrappers are peeled; and the peeled
  words of each match some allow rule of the configuration on their own.
\<close>

theorem bash_allow_covers_every_command:
  assumes "evaluate env (compiled_policy_new env cfg) (AccessKind.Bash cmd) = Some Decision.Allow"
    and "reached (dash_c_script env) n cmd script"
  shows "n \<le> MAX_INLINE_SHELL_DEPTH \<and>
    (\<exists>segs. all_commands_from_script (ts_parse env) script = Some segs \<and> segs \<noteq> [] \<and>
       (\<forall>p \<in> set segs. \<not> nc_untrusted (normalize_command_words (pc_words p)) \<and> peeled p \<noteq> [] \<and>
          (\<exists>rule \<in> set (cfg_rules cfg). pr_action rule = RuleAction.Allow \<and>
             pr_tool rule \<in> {ToolFilter.Bash, ToolFilter.Any} \<and>
             bash_allow_pattern_matches env (join '' '' (peeled p)) rule (compile_matcher env rule))))"
proof -
  let ?policy = "compiled_policy_new env cfg"
  have "evaluate_lexical_with_cwd env ?policy (AccessKind.Bash cmd) None = Some Decision.Allow"
    using assms(1) by (simp add: evaluate_def evaluate_with_cwd_def evaluate_with_cwd_details_def native_file_path_def)
  then have "bash_chain_fully_allowed env ?policy cmd MAX_INLINE_SHELL_DEPTH AllowRuleScope.Any"
    by (simp add: evaluate_lexical_matched Let_def split: if_splits)
  from chain_allowed_reached [OF assms(2) this] obtain inner
    where n: "n \<le> MAX_INLINE_SHELL_DEPTH" and inner: "script_allowed env ?policy inner AllowRuleScope.Any script"
    by (auto dest: chain_allowed_script)
  from inner obtain segs where segs: "all_commands_from_script (ts_parse env) script = Some segs" "segs \<noteq> []"
    "\<forall>p \<in> set segs. segment_allowed env ?policy inner AllowRuleScope.Any p"
    by (rule script_allowed_segment)
  have "\<not> nc_untrusted (normalize_command_words (pc_words p)) \<and> peeled p \<noteq> [] \<and>
          (\<exists>rule \<in> set (cfg_rules cfg). pr_action rule = RuleAction.Allow \<and>
             pr_tool rule \<in> {ToolFilter.Bash, ToolFilter.Any} \<and>
             bash_allow_pattern_matches env (join '' '' (peeled p)) rule (compile_matcher env rule))"
    if "p \<in> set segs" for p
    using segment_allowed_facts(1,2) [of env ?policy inner AllowRuleScope.Any p] segs(3) that
    unfolding words_allowed_compiled by blast
  with n segs(1,2) show ?thesis by blast
qed

section \<open>The gate sees every command\<close>

lemma nc_words_same_length:
  "length (nc_words (normalize_command_words ws)) = length ws \<Longrightarrow> nc_words (normalize_command_words ws) = ws"
  using peels_to_suffix [OF normalize_peels_to [of ws]] suffix_length_less [of _ ws]
  by (metis less_irrefl strict_suffix_def)

text \<open>The gate on one command is the strictest of six parts.\<close>

definition command_parts ::
  "'g env \<Rightarrow> 'g CompiledPolicy \<Rightarrow> (string \<Rightarrow> GateDecision option) \<Rightarrow> words \<Rightarrow> GateDecision option list" where
  "command_parts env policy inner raw =
     (let norm = normalize_command_words raw; ws = nc_words norm in
      [then_some (nc_exhausted norm \<or> nc_ambiguous norm \<or> nc_env_options_uncertain norm) AskFailClosed,
       then_some (nc_has_split_string norm) AskFailClosed,
       escalate env policy (join '' '' raw),
       escalate env policy (join '' '' ws),
       (case dash_c ws of
          InlineShellScript.Literal i \<Rightarrow> inner (ws ! i) | NotInline \<Rightarrow> None | _ \<Rightarrow> Some AskFailClosed),
       (case env_split_string_script ws of Some script \<Rightarrow> inner script | None \<Rightarrow> None)])"

lemma command_words_parts:
  "evaluate_command_words env policy inner raw =
     foldl (\<lambda>d x. combine_gate_decisions d x) None (command_parts env policy inner raw)"
proof -
  let ?ws = "nc_words (normalize_command_words raw)"
  have forms: "length ?ws \<noteq> length raw \<or> ?ws = raw" using nc_words_same_length by blast
  have fold2: "foldl (\<lambda>d w. combine_gate_decisions d (f w)) a (raw # (if length ?ws \<noteq> length raw then [?ws] else []))
      = combine_gate_decisions (combine_gate_decisions a (f raw)) (f ?ws)"
    for f :: "words \<Rightarrow> GateDecision option" and a
    using forms by (auto simp: gate.join_assoc gate.join_idem)
  show ?thesis
    unfolding evaluate_command_words_def command_parts_def Let_def fold2
    by (simp add: gate.join_None_left gate.join_None_right split: InlineShellScript.split option.split)
qed

lemma command_words_part_le:
  "x \<in> set (command_parts env policy inner raw) \<Longrightarrow>
   gate.orank x \<le> gate.orank (evaluate_command_words env policy inner raw)"
  unfolding command_words_parts using gate.fold_join_ge [of x _ id] by simp

lemma gate_segments_ge:
  assumes "all_commands_from_script (ts_parse env) cmd = Some segs" and "p \<in> set segs"
  shows "gate.orank (evaluate_command_words env policy inner (pc_words p))
    \<le> gate.orank (gate_segments env policy inner cmd)"
  using gate.fold_join_ge [OF assms(2), of "\<lambda>p. evaluate_command_words env policy inner (pc_words p)" None]
  by (simp add: gate_segments_def assms(1))

lemma gate_segments_inner:
  assumes "gate_script env s t"
  shows "gate.orank (inner t) \<le> gate.orank (gate_segments env policy inner s)"
  using assms unfolding gate_script_def
proof (elim disjE dash_c_scriptE split_scriptE)
  fix segs p i assume *: "t = peeled p ! i" "all_commands_from_script (ts_parse env) s = Some segs"
    "p \<in> set segs" "dash_c (peeled p) = InlineShellScript.Literal i"
  then have "inner t \<in> set (command_parts env policy inner (pc_words p))"
    by (simp add: command_parts_def Let_def)
  with * show ?thesis by (meson command_words_part_le gate_segments_ge order_trans)
next
  fix segs p assume *: "all_commands_from_script (ts_parse env) s = Some segs" "p \<in> set segs"
    "env_split_string_script (peeled p) = Some t"
  then have "inner t \<in> set (command_parts env policy inner (pc_words p))"
    by (simp add: command_parts_def Let_def)
  with * show ?thesis by (meson command_words_part_le gate_segments_ge order_trans)
qed

text \<open>A reached script is judged no more strictly than the whole, and too deep ones still ask.\<close>

lemma gate_reached:
  assumes "reached (gate_script env) n cmd s"
  shows "if n \<le> depth
    then gate.orank (evaluate_bash_command_segments env policy s (depth - n))
           \<le> gate.orank (evaluate_bash_command_segments env policy cmd depth)
    else 2 \<le> gate.orank (evaluate_bash_command_segments env policy cmd depth)"
  using assms
proof (induction arbitrary: depth rule: reached.induct)
  case (reached_step s t n u)
  show ?case
  proof (cases depth)
    case 0
    then show ?thesis
      using gate_segments_inner [OF reached_step.hyps(1), of "\<lambda>_. Some AskFailClosed" policy]
      by (simp add: numeral_2_eq_2)
  next
    case (Suc d)
    then show ?thesis
      using gate_segments_inner [OF reached_step.hyps(1), of "\<lambda>x. evaluate_bash_command_segments env policy x d" policy]
        reached_step.IH [of d]
      by (fastforce split: if_splits)
  qed
qed simp

lemma gate_segments_script:
  "\<exists>inner. evaluate_bash_command_segments env policy s depth = gate_segments env policy inner s"
  by (cases depth) auto

lemma gate_segments_ask:
  assumes "all_commands_from_script (ts_parse env) s = Some segs" and "p \<in> set segs"
    and "Some AskFailClosed \<in> set (command_parts env policy inner (pc_words p))"
  shows "2 \<le> gate.orank (gate_segments env policy inner s)"
  using command_words_part_le [OF assms(3)] gate_segments_ge [OF assms(1,2), of policy inner] by simp

lemma gate_segments_fails_closed:
  assumes "all_commands_from_script (ts_parse env) s = None \<or>
    (\<exists>segs p. all_commands_from_script (ts_parse env) s = Some segs \<and> p \<in> set segs \<and>
       (nc_untrusted (normalize_command_words (pc_words p)) \<or>
        dash_c (peeled p) \<in> {InlineShellScript.Untrusted, Unrecognized}))"
  shows "2 \<le> gate.orank (gate_segments env policy inner s)"
  using assms
proof (elim disjE exE conjE)
  assume "all_commands_from_script (ts_parse env) s = None"
  then show ?thesis by (simp add: gate_segments_def)
next
  fix segs p assume *: "all_commands_from_script (ts_parse env) s = Some segs" "p \<in> set segs"
    "nc_untrusted (normalize_command_words (pc_words p))"
  then have "Some AskFailClosed \<in> set (command_parts env policy inner (pc_words p))"
    by (auto simp: command_parts_def Let_def then_some_def nc_untrusted_def)
  with * show ?thesis by (blast intro: gate_segments_ask)
next
  fix segs p assume *: "all_commands_from_script (ts_parse env) s = Some segs" "p \<in> set segs"
    "dash_c (peeled p) \<in> {InlineShellScript.Untrusted, Unrecognized}"
  then have "Some AskFailClosed \<in> set (command_parts env policy inner (pc_words p))"
    by (auto simp: command_parts_def Let_def)
  with * show ?thesis by (blast intro: gate_segments_ask)
qed

lemma escalate_needs_rule:
  assumes "escalate env (compiled_policy_new env cfg) seg \<noteq> None"
  shows "has_bash_command_restrictions (compiled_policy_new env cfg)"
proof -
  let ?A = "matched_actions env cfg (AccessKind.Bash seg) None"
  from assms have "RuleAction.Deny \<in> ?A \<or> RuleAction.Ask \<in> ?A"
    by (auto simp: escalate_def evaluate_def evaluate_with_cwd_def evaluate_with_cwd_details_def
        native_file_path_def evaluate_lexical_matched Let_def split: if_splits)
  then obtain rule where "rule \<in> set (cfg_rules cfg)" "restricts rule"
    "tool_filter_matches (AccessKind.Bash seg) (pr_tool rule)"
    by (auto simp: matched_actions_def restricts_def rule_matches_def)
  then show ?thesis
    by (cases "pr_tool rule") (auto simp: compiled_policy_new_def list_ex_iff)
qed

lemma gate_ge_command:
  assumes "reached (gate_script env) n cmd script" and "n \<le> MAX_INLINE_SHELL_DEPTH"
    and "all_commands_from_script (ts_parse env) script = Some segs" and "p \<in> set segs"
    and "ws = pc_words p \<or> ws = peeled p"
  shows "gate.orank (escalate env policy (join '' '' ws))
    \<le> gate.orank (evaluate_bash_command_segments env policy cmd MAX_INLINE_SHELL_DEPTH)"
proof -
  obtain inner where inner: "evaluate_bash_command_segments env policy script (MAX_INLINE_SHELL_DEPTH - n)
      = gate_segments env policy inner script" using gate_segments_script by blast
  have "escalate env policy (join '' '' ws) \<in> set (command_parts env policy inner (pc_words p))"
    using assms(5) by (auto simp: command_parts_def Let_def)
  from command_words_part_le [OF this] gate_segments_ge [OF assms(3,4), of policy inner]
    gate_reached [OF assms(1), of MAX_INLINE_SHELL_DEPTH policy] assms(2) inner
  show ?thesis by simp
qed

text \<open>
  C2: No command hides from a deny or ask rule inside a script. Take any script reached within the
  inline depth through literal \<open>-c\<close> strings and packed \<open>env -S\<close> strings, any command of it, and
  either its raw words or its words after peeling wrappers: if the policy rejects those words, the
  gate rejects the whole command; if it asks about them, the gate rejects or asks, and the question
  keeps its rule-match provenance.
\<close>

theorem gate_sees_every_command:
  assumes "reached (gate_script env) n cmd script" and "n \<le> MAX_INLINE_SHELL_DEPTH"
    and "all_commands_from_script (ts_parse env) script = Some segs" and "p \<in> set segs"
    and "ws = pc_words p \<or> ws = peeled p"
  shows "(\<forall>r. evaluate env (compiled_policy_new env cfg) (AccessKind.Bash (join '' '' ws)) = Some (Decision.Reject r) \<longrightarrow>
            (\<exists>r'. evaluate_bash_command_gate env (compiled_policy_new env cfg) cmd = Some (GateDecision.Reject r')))
    \<and> (evaluate env (compiled_policy_new env cfg) (AccessKind.Bash (join '' '' ws)) = Some Decision.Ask \<longrightarrow>
        (\<exists>d. evaluate_bash_command_gate env (compiled_policy_new env cfg) cmd = Some d \<and> d \<noteq> AskFailClosed))"
proof -
  let ?policy = "compiled_policy_new env cfg"
  let ?gate = "evaluate_bash_command_gate env ?policy cmd"
  let ?esc = "escalate env ?policy (join '' '' ws)"
  have le: "gate.orank ?esc \<le> gate.orank ?gate" if "?esc \<noteq> None"
    using gate_ge_command [OF assms, of ?policy] escalate_needs_rule [OF that]
    by (simp add: evaluate_bash_command_gate_def)
  have "\<exists>r'. ?gate = Some (GateDecision.Reject r')" if "?esc = Some (GateDecision.Reject r)" for r
    using le that by (cases ?gate; cases "the ?gate") auto
  moreover have "\<exists>d. ?gate = Some d \<and> d \<noteq> AskFailClosed" if "?esc = Some AskRuleMatch"
    using le that by (cases ?gate) auto
  ultimately show ?thesis by (auto simp: escalate_def)
qed

text \<open>
  C4: The gate fails closed. If the policy has any Bash restriction and the analysis meets something
  it cannot follow in a reached script, the gate at least asks: a script that does not decompose
  into plain commands, a command whose peel raised a fail-closed flag, a shell whose inline script
  cannot be trusted or recognised, or inline scripts nested beyond the explored depth.
\<close>

theorem gate_fails_closed:
  assumes "reached (gate_script env) n cmd script"
    and "has_bash_command_restrictions policy"
    and "MAX_INLINE_SHELL_DEPTH < n \<or> all_commands_from_script (ts_parse env) script = None \<or>
      (\<exists>segs p. all_commands_from_script (ts_parse env) script = Some segs \<and> p \<in> set segs \<and>
         (nc_untrusted (normalize_command_words (pc_words p)) \<or>
          dash_c (peeled p) \<in> {InlineShellScript.Untrusted, Unrecognized}))"
  shows "evaluate_bash_command_gate env policy cmd \<noteq> None"
proof -
  let ?D = "gate.orank (evaluate_bash_command_segments env policy cmd MAX_INLINE_SHELL_DEPTH)"
  have "2 \<le> ?D"
  proof (cases "n \<le> MAX_INLINE_SHELL_DEPTH")
    case True
    obtain inner where "evaluate_bash_command_segments env policy script (MAX_INLINE_SHELL_DEPTH - n)
      = gate_segments env policy inner script" using gate_segments_script by blast
    moreover have "2 \<le> gate.orank (gate_segments env policy inner script)"
      by (rule gate_segments_fails_closed) (use assms(3) True in auto)
    ultimately show ?thesis
      using gate_reached [OF assms(1), of MAX_INLINE_SHELL_DEPTH policy] True by simp
  next
    case False
    then show ?thesis using gate_reached [OF assms(1), of MAX_INLINE_SHELL_DEPTH policy] by simp
  qed
  then show ?thesis
    using assms(2)
    by (cases "evaluate_bash_command_segments env policy cmd MAX_INLINE_SHELL_DEPTH")
      (simp_all add: evaluate_bash_command_gate_def)
qed

section \<open>The theorems at work\<close>

text \<open>A grammar that knows \<open>bash -c "rm x"\<close> and \<open>rm x\<close>, and three configurations.\<close>

definition bash_rm :: string where
  "bash_rm = ''bash -c '' @ [dquote] @ ''rm x'' @ [dquote]"

definition shell_env :: "string env" where
  "shell_env = example_env\<lparr>ts_parse := (\<lambda>s.
     if s = bash_rm then
       Some \<lparr>root_node = Node ''program'' True None 0 14
          [Node ''command'' True None 0 14
            [Node ''command_name'' True (Some ''name'') 0 4 [Node ''word'' True None 0 4 []],
             Node ''word'' True None 5 7 [],
             Node ''string'' True None 8 14
               [Node [dquote] False None 8 9 [], Node ''string_content'' True None 9 13 [], Node [dquote] False None 13 14 []]]],
        has_error = False\<rparr>
     else if s = ''rm x'' then
       Some \<lparr>root_node = Node ''program'' True None 0 4
          [Node ''command'' True None 0 4
            [Node ''command_name'' True (Some ''name'') 0 2 [Node ''word'' True None 0 2 []], Node ''word'' True None 3 4 []]],
        has_error = False\<rparr>
     else None)\<rparr>"

definition bash_rule :: "RuleAction \<Rightarrow> string \<Rightarrow> PermissionRule" where
  "bash_rule action pattern =
     \<lparr>pr_action = action, pr_tool = ToolFilter.Bash, pr_pattern = Some pattern, pr_pattern_mode = Glob\<rparr>"

definition rm_x :: PlainCommand where
  "rm_x = \<lparr>pc_words = [''rm'', ''x''], pc_span_start = 0, pc_span_end = 4\<rparr>"

lemma bash_rm_script:
  "all_commands_from_script (ts_parse shell_env) bash_rm
     = Some [\<lparr>pc_words = [''bash'', ''-c'', ''rm x''], pc_span_start = 0, pc_span_end = 14\<rparr>]"
  "all_commands_from_script (ts_parse shell_env) ''rm x'' = Some [rm_x]"
  by code_simp+

lemma bash_rm_inline: "dash_c_script shell_env bash_rm ''rm x''"
proof -
  let ?p = "\<lparr>pc_words = [''bash'', ''-c'', ''rm x''], pc_span_start = 0, pc_span_end = 14\<rparr>"
  have "dash_c (peeled ?p) = InlineShellScript.Literal 2" "peeled ?p ! 2 = ''rm x''" by code_simp+
  then show ?thesis using dash_c_scriptI [OF bash_rm_script(1), of ?p 2] by simp
qed

lemma bash_rm_reached:
  "reached (dash_c_script shell_env) 1 bash_rm ''rm x''"
  "reached (gate_script shell_env) 1 bash_rm ''rm x''"
proof -
  have "gate_script shell_env bash_rm ''rm x''" using bash_rm_inline by (simp add: gate_script_def)
  with bash_rm_inline show "reached (dash_c_script shell_env) 1 bash_rm ''rm x''"
    "reached (gate_script shell_env) 1 bash_rm ''rm x''"
    using reached_step [OF _ reached_self] by (metis One_nat_def)+
qed

theorem bash_allow_covers_every_command_witness:
  "\<exists>rule \<in> set [bash_rule RuleAction.Allow ''bash'', bash_rule RuleAction.Allow ''rm''].
     bash_allow_pattern_matches shell_env (join '' '' (peeled rm_x)) rule (compile_matcher shell_env rule)"
proof -
  let ?cfg = "new_permission_config [bash_rule RuleAction.Allow ''bash'', bash_rule RuleAction.Allow ''rm'']"
  have "evaluate shell_env (compiled_policy_new shell_env ?cfg) (AccessKind.Bash bash_rm) = Some Decision.Allow"
    by code_simp
  from bash_allow_covers_every_command [OF this bash_rm_reached(1)] show ?thesis
    by (auto simp: bash_rm_script new_permission_config_def)
qed

theorem gate_sees_every_command_witness:
  "\<exists>r. evaluate_bash_command_gate shell_env
     (compiled_policy_new shell_env (new_permission_config [bash_rule RuleAction.Deny ''rm''])) bash_rm
     = Some (GateDecision.Reject r)"
proof -
  let ?cfg = "new_permission_config [bash_rule RuleAction.Deny ''rm'']"
  have "(1::nat) \<le> MAX_INLINE_SHELL_DEPTH" by code_simp
  moreover have "evaluate shell_env (compiled_policy_new shell_env ?cfg)
      (AccessKind.Bash (join '' '' (pc_words rm_x)))
      = Some (Decision.Reject (deny_reason (bash_rule RuleAction.Deny ''rm'')))"
    by code_simp
  ultimately show ?thesis
    using gate_sees_every_command [OF bash_rm_reached(2) _ bash_rm_script(2), of rm_x "pc_words rm_x" ?cfg]
    by simp
qed

theorem gate_fails_closed_witness:
  "evaluate_bash_command_gate shell_env
     (compiled_policy_new shell_env (new_permission_config [bash_rule RuleAction.Ask ''git push'']))
     ''ls $(x)'' \<noteq> None"
proof (rule gate_fails_closed [OF reached_self])
  show "has_bash_command_restrictions
    (compiled_policy_new shell_env (new_permission_config [bash_rule RuleAction.Ask ''git push'']))"
    by code_simp
  have "all_commands_from_script (ts_parse shell_env) ''ls $(x)'' = None" by code_simp
  then show "MAX_INLINE_SHELL_DEPTH < 0 \<or> all_commands_from_script (ts_parse shell_env) ''ls $(x)'' = None \<or>
      (\<exists>segs p. all_commands_from_script (ts_parse shell_env) ''ls $(x)'' = Some segs \<and> p \<in> set segs \<and>
         (nc_untrusted (normalize_command_words (pc_words p)) \<or>
          dash_c (peeled p) \<in> {InlineShellScript.Untrusted, Unrecognized}))"
    by simp
qed

end
