(* ===== verification/Shell_Tree.thy ===== *)
theory Shell_Tree
  imports Bash_Gate
begin

text \<open>
  What the shell file gate reads off a syntax tree: the command invocations with their decoded words,
  the redirections and the directory changes, each with the execution scope it belongs to
  (\<open>permission/shell_access.rs\<close>, from \<open>execution_scope\<close> to \<open>shell_redirect_one\<close>). A node met on a
  walk is a cursor: the node and the way back to the root, so that parents and siblings can be asked
  for. Unlike the word-only decomposition, this reading takes trees of any shape.
\<close>

section \<open>Cursors\<close>

type_synonym cursor = "ts_node \<times> (ts_node \<times> nat) list"

definition child_cursors :: "cursor \<Rightarrow> cursor list" where
  "child_cursors c = (case c of (n, up) \<Rightarrow> map (\<lambda>(i, m). (m, (n, i) # up)) (enumerate 0 (node_children n)))"

lemma fst_child_cursors: "map fst (child_cursors (n, up)) = node_children n"
  by (simp add: child_cursors_def comp_def split_beta)

text \<open>The loop over the explicit stack that every reader shares; the result is the order of the visits.\<close>

function tree_walk :: "cursor list \<Rightarrow> cursor list" where
  "tree_walk [] = []"
| "tree_walk (c # stack) = c # tree_walk (rev (child_cursors c) @ stack)"
  by pat_completeness auto
termination
proof (relation "measure (\<lambda>stack. sum_list (map (size \<circ> fst) stack))")
  fix c :: cursor and stack :: "cursor list"
  obtain n up where c: "c = (n, up)" by (cases c)
  have "sum_list (map (size \<circ> fst) (child_cursors c)) = sum_list (map size (node_children n))"
    unfolding c by (metis fst_child_cursors map_map)
  then show "(rev (child_cursors c) @ stack, c # stack) \<in> measure (\<lambda>stack. sum_list (map (size \<circ> fst) stack))"
    using sum_size_children [of "node_children n"] c
    by (cases n) (simp add: rev_map [symmetric] sum_list_rev le_imp_less_Suc)
qed simp

definition root_cursor :: "ts_node \<Rightarrow> cursor" where
  "root_cursor n = (n, [])"

definition next_sibling :: "(ts_node \<times> nat) list \<Rightarrow> ts_node option" where
  "next_sibling up = (case up of [] \<Rightarrow> None | (parent, i) # _ \<Rightarrow> get (node_children parent) (i + 1))"

definition child_by_field_name :: "string \<Rightarrow> ts_node \<Rightarrow> ts_node option" where
  "child_by_field_name f n = find (\<lambda>c. node_field c = Some f) (node_children n)"

section \<open>Execution scopes and directory changes\<close>

record ExecutionScope =
  scope_start :: int
  scope_end :: int

definition scope_contains :: "ExecutionScope \<Rightarrow> ExecutionScope \<Rightarrow> bool" where
  "scope_contains a b \<longleftrightarrow> scope_start a \<le> scope_start b \<and> scope_end b \<le> scope_end a"

definition scope_of :: "ts_node \<Rightarrow> ExecutionScope" where
  "scope_of n = \<lparr>scope_start = int (node_start n), scope_end = int (node_end n)\<rparr>"

fun execution_scope :: "ts_node \<Rightarrow> (ts_node \<times> nat) list \<Rightarrow> ExecutionScope" where
  "execution_scope current [] = \<lparr>scope_start = 0, scope_end = 2 ^ 64 - 1\<rparr>"
| "execution_scope current ((parent, i) # up) =
     (if map_option node_kind (next_sibling ((parent, i) # up)) = Some ''&''
      then scope_of (if node_kind current = ''list'' then current else parent)
      else if node_kind parent \<in> set [''subshell'', ''command_substitution'', ''process_substitution'']
      then scope_of parent
      else if node_kind parent = ''pipeline'' then scope_of current
      else execution_scope parent up)"

record CwdPoison =
  poison_at :: nat
  poison_scope :: ExecutionScope

definition shell_program_name :: "string \<Rightarrow> string" where
  "shell_program_name word = last_component word"

definition changes_cwd :: "string \<Rightarrow> ts_node \<Rightarrow> bool" where
  "changes_cwd src n \<longleftrightarrow>
     node_kind n = ''command'' \<and>
     (case child_by_field_name ''name'' n of
        None \<Rightarrow> False
      | Some name \<Rightarrow> shell_program_name (utf8_text name src) \<in> set [''cd'', ''pushd'', ''popd''])"

definition cwd_poison_positions :: "ts_node \<Rightarrow> string \<Rightarrow> CwdPoison list" where
  "cwd_poison_positions root src =
     filter_map (\<lambda>(n, up).
         if changes_cwd src n
         then Some \<lparr>poison_at = node_start n, poison_scope = execution_scope n up\<rparr> else None)
       (tree_walk [root_cursor root])"

definition script_has_cwd_change :: "ts_node \<Rightarrow> string \<Rightarrow> bool" where
  "script_has_cwd_change root src \<longleftrightarrow> cwd_poison_positions root src \<noteq> []"

definition cwd_unpinned_before :: "CwdPoison list \<Rightarrow> nat \<Rightarrow> ExecutionScope \<Rightarrow> bool" where
  "cwd_unpinned_before positions pos scope =
     list_ex (\<lambda>p. poison_at p < pos \<and> (poison_scope p = scope \<or> scope_contains (poison_scope p) scope)) positions"

section \<open>Words\<close>

datatype ArgText = Literal string | Ambiguous

definition EXPANSION_KINDS :: "string list" where
  "EXPANSION_KINDS =
     [''expansion'', ''simple_expansion'', ''command_substitution'', ''arithmetic_expansion'', ''process_substitution'']"

text \<open>Every visited node but the first is a child of an earlier one.\<close>

definition node_has_expansion :: "ts_node \<Rightarrow> bool" where
  "node_has_expansion n = list_ex (\<lambda>(m, _). node_kind m \<in> set EXPANSION_KINDS) (tl (tree_walk [root_cursor n]))"

definition is_windows_path_like :: "string \<Rightarrow> bool" where
  "is_windows_path_like raw \<longleftrightarrow>
     starts_with raw [backslash, backslash] \<or>
     (case first raw of None \<Rightarrow> False | Some b \<Rightarrow> is_ascii_alphabetic b) \<and> get raw 1 = Some CHR '':''"

fun decode_escapes :: "string \<Rightarrow> string option" where
  "decode_escapes [] = Some []"
| "decode_escapes (c # s) =
     (if c = backslash
      then (case s of [] \<Rightarrow> None | d # t \<Rightarrow> map_option ((#) d) (decode_escapes t))
      else map_option ((#) c) (decode_escapes s))"

definition decode_unquoted_word :: "string \<Rightarrow> string option" where
  "decode_unquoted_word raw =
     (if backslash \<notin> set raw then Some raw
      else if is_windows_path_like raw then Some raw
      else decode_escapes raw)"

fun decode_quoted_escapes :: "string \<Rightarrow> string option" where
  "decode_quoted_escapes [] = Some []"
| "decode_quoted_escapes (c # s) =
     (if c \<noteq> backslash then map_option ((#) c) (decode_quoted_escapes s)
      else case s of
             [] \<Rightarrow> None
           | d # t \<Rightarrow>
               if d \<in> set [CHR ''$'', CHR 0x60, dquote, backslash, CHR 0x0A]
               then map_option ((#) d) (decode_quoted_escapes t)
               else map_option (\<lambda>r. backslash # d # r) (decode_quoted_escapes t))"

definition decode_double_quoted_content :: "string \<Rightarrow> string option" where
  "decode_double_quoted_content content =
     (if backslash \<notin> set content then Some content else decode_quoted_escapes content)"

definition literal_or_ambiguous :: "string option \<Rightarrow> ArgText" where
  "literal_or_ambiguous s = (case s of Some literal \<Rightarrow> ArgText.Literal literal | None \<Rightarrow> ArgText.Ambiguous)"

text \<open>Strip a quote from both ends, or neither.\<close>

definition unquote :: "char \<Rightarrow> string \<Rightarrow> string" where
  "unquote q raw =
     (case Option.bind (strip_prefix [q] raw) (strip_suffix [q]) of Some s \<Rightarrow> s | None \<Rightarrow> raw)"

definition shell_node_arg :: "ts_node \<Rightarrow> string \<Rightarrow> ArgText option" where
  "shell_node_arg n src =
     (let kind = node_kind n; raw = utf8_text n src in
      if kind = ''variable_assignment'' then None
      else if kind = ''word'' \<or> kind = ''number'' then Some (literal_or_ambiguous (decode_unquoted_word raw))
      else if kind = ''raw_string'' then Some (ArgText.Literal (unquote squote raw))
      else if kind = ''string'' then
        (if node_has_expansion n then Some ArgText.Ambiguous
         else Some (literal_or_ambiguous (decode_double_quoted_content (unquote dquote raw))))
      else if kind = ''concatenation'' then
        (if node_has_expansion n then Some ArgText.Ambiguous
         else Some (literal_or_ambiguous (decode_shell_literal_spelling raw)))
      else Some ArgText.Ambiguous)"

section \<open>Invocations\<close>

datatype InvocationWord = Literal string | Untrusted

record ShellInvocation =
  inv_start_byte :: nat
  inv_scope :: ExecutionScope
  inv_words :: "InvocationWord list"
  inv_wrapper_words :: words

definition NUL_WORD :: string where "NUL_WORD = [CHR 0x00]"

definition literal_words :: "InvocationWord list \<Rightarrow> words" where
  "literal_words ws = filter_map (\<lambda>w. case w of InvocationWord.Literal s \<Rightarrow> Some s | InvocationWord.Untrusted \<Rightarrow> None) ws"

definition shell_words :: "InvocationWord list \<Rightarrow> ShellWord list" where
  "shell_words ws = map (\<lambda>w. case w of
     InvocationWord.Literal s \<Rightarrow> ShellWord.Literal s | InvocationWord.Untrusted \<Rightarrow> ShellWord.Untrusted) ws"

definition invocation_word :: "string \<Rightarrow> ts_node \<Rightarrow> InvocationWord option" where
  "invocation_word src child =
     (let operand =
        (if node_kind child = ''command_name''
         then (case first (named_children child) of None \<Rightarrow> None | Some inner \<Rightarrow> shell_node_arg inner src)
         else shell_node_arg child src)
      in case operand of
           Some (ArgText.Literal word) \<Rightarrow> Some (InvocationWord.Literal word)
         | Some ArgText.Ambiguous \<Rightarrow> Some InvocationWord.Untrusted
         | None \<Rightarrow> None)"

definition invocation_of :: "string \<Rightarrow> cursor \<Rightarrow> ShellInvocation" where
  "invocation_of src c =
     (case c of (n, up) \<Rightarrow>
        let ws = filter_map (invocation_word src) (named_children n)
        in \<lparr>inv_start_byte = node_start n, inv_scope = execution_scope n up, inv_words = ws,
            inv_wrapper_words = map (\<lambda>w. case w of
               InvocationWord.Literal s \<Rightarrow> s | InvocationWord.Untrusted \<Rightarrow> NUL_WORD) ws\<rparr>)"

definition shell_command_invocations :: "ts_node \<Rightarrow> string \<Rightarrow> ShellInvocation list" where
  "shell_command_invocations root src =
     sort_key inv_start_byte
       (map (invocation_of src) (filter (\<lambda>(n, _). node_kind n = ''command'') (tree_walk [root_cursor root])))"

record CheckedInvocationPeel =
  ci_words :: "InvocationWord list"
  ci_has_chdir :: bool
  ci_has_split_string :: bool
  ci_env_options_uncertain :: bool
  ci_exhausted :: bool
  ci_transparent_ambiguous :: bool

definition unwrap_invocation_checked :: "ShellInvocation \<Rightarrow> CheckedInvocationPeel" where
  "unwrap_invocation_checked invocation =
     (let norm = normalize_command_words (inv_wrapper_words invocation);
          peeled_count = length (inv_wrapper_words invocation) - length (nc_words norm)
      in \<lparr>ci_words = (case get_from (inv_words invocation) peeled_count of Some ws \<Rightarrow> ws | None \<Rightarrow> []),
          ci_has_chdir = nc_has_chdir norm,
          ci_has_split_string = nc_has_split_string norm,
          ci_env_options_uncertain = nc_env_options_uncertain norm,
          ci_exhausted = nc_exhausted norm,
          ci_transparent_ambiguous = nc_ambiguous norm\<rparr>)"

definition words_are_opaque_shell :: "ShellWord list \<Rightarrow> bool" where
  "words_are_opaque_shell ws \<longleftrightarrow>
     is_potential_inline (shell_dash_c_script ws) \<or>
     (case first ws of Some (ShellWord.Literal program) \<Rightarrow> shell_program_name program = ''eval'' | _ \<Rightarrow> False)"

definition tree_has_opaque_shell :: "ts_node \<Rightarrow> string \<Rightarrow> bool" where
  "tree_has_opaque_shell root src =
     list_ex (\<lambda>invocation. words_are_opaque_shell (shell_words (ci_words (unwrap_invocation_checked invocation))))
       (shell_command_invocations root src)"

section \<open>Redirections\<close>

datatype ShellFileMode = Read | Write | Create

record ShellRedirectTarget =
  rt_path :: "string option"
  rt_mode :: ShellFileMode
  rt_ambiguous :: bool
  rt_start_byte :: nat
  rt_scope :: ExecutionScope

definition shell_arg_is_ambiguous :: "string \<Rightarrow> bool" where
  "shell_arg_is_ambiguous token \<longleftrightarrow> CHR ''*'' \<in> set token \<or> CHR ''?'' \<in> set token \<or> CHR ''['' \<in> set token"

text \<open>The operator of a redirection; a heredoc or here-string has none that names a file.\<close>

fun redirect_operator :: "ts_node list \<Rightarrow> string option" where
  "redirect_operator [] = None"
| "redirect_operator (c # cs) =
     (let kind = node_kind c in
      if contains_sub kind ''<<'' then None
      else if CHR ''>'' \<in> set kind \<or> CHR ''<'' \<in> set kind then Some kind
      else redirect_operator cs)"

definition shell_redirect_one :: "ts_node \<Rightarrow> string \<Rightarrow> (string option \<times> ShellFileMode \<times> bool) option" where
  "shell_redirect_one n src =
     (case redirect_operator (node_children n) of
        None \<Rightarrow> None
      | Some redirect \<Rightarrow>
          let mode = (if CHR ''>'' \<in> set redirect then Write else ShellFileMode.Read);
              duplicates_fd = (redirect = ''>&'' \<or> redirect = ''<&'')
          in case Option.bind (child_by_field_name ''destination'' n) (\<lambda>dest. shell_node_arg dest src) of
               None \<Rightarrow> None
             | Some (ArgText.Literal s) \<Rightarrow>
                 if s = [] \<or> starts_with s ''&'' \<or>
                    duplicates_fd \<and> (s = ''-'' \<or> list_all is_ascii_digit s)
                 then None
                 else Some (Some s, mode, shell_arg_is_ambiguous s)
             | Some ArgText.Ambiguous \<Rightarrow> Some (None, mode, True))"

definition redirect_target :: "string \<Rightarrow> cursor \<Rightarrow> ShellRedirectTarget option" where
  "redirect_target src c =
     (case c of (n, up) \<Rightarrow>
        if node_kind n \<noteq> ''file_redirect'' then None
        else map_option (\<lambda>(path, mode, ambig).
               \<lparr>rt_path = path, rt_mode = mode, rt_ambiguous = ambig, rt_start_byte = node_start n,
                rt_scope = execution_scope n up\<rparr>) (shell_redirect_one n src))"

definition shell_redirect_targets :: "ts_node \<Rightarrow> string \<Rightarrow> ShellRedirectTarget list" where
  "shell_redirect_targets root src = filter_map (redirect_target src) (tree_walk [root_cursor root])"

section \<open>The walk visits every node once\<close>

lemma tree_walk_mset:
  "mset (map fst (tree_walk stack)) = mset (concat (map (all_nodes \<circ> fst) stack))"
proof (induction stack rule: tree_walk.induct)
  case (2 c stack)
  obtain n up where c: "c = (n, up)" by (cases c)
  have "map (all_nodes \<circ> fst) (rev (child_cursors c)) = map all_nodes (rev (node_children n))"
    unfolding c by (metis fst_child_cursors map_map rev_map)
  then have "mset (concat (map (all_nodes \<circ> fst) (rev (child_cursors c)))) = mset (concat (map all_nodes (node_children n)))"
    by (metis mset_concat_rev_map)
  with 2 show ?case by (simp add: c all_nodes_unfold [of n] comp_def)
qed simp

lemma mset_filter_map_cong: "mset xs = mset ys \<Longrightarrow> mset (filter_map f xs) = mset (filter_map f ys)"
  by (simp add: map_filter_def)

lemma walk_nodes: "set (map fst (tree_walk [root_cursor n])) = set (all_nodes n)"
  using tree_walk_mset [of "[root_cursor n]"] by (metis comp_apply concat.simps list.simps(8,9) append_Nil2 fst_conv
      root_cursor_def set_mset_mset)

text \<open>
  The reading of a tree is complete whatever its shape: every command node gives exactly one
  invocation at its position, and every redirection node that names a file or a target that cannot be read
  gives a redirect target. Nothing in a substitution, a subshell, a loop or a function body is missed.
\<close>

theorem shell_reading_complete:
  "mset (map inv_start_byte (shell_command_invocations root src)) =
     image_mset node_start (mset (filter (\<lambda>n. node_kind n = ''command'') (all_nodes root))) \<and>
   mset (map (\<lambda>t. (rt_path t, rt_mode t, rt_ambiguous t)) (shell_redirect_targets root src)) =
     mset (filter_map (\<lambda>n. if node_kind n = ''file_redirect'' then shell_redirect_one n src else None) (all_nodes root))"
proof
  have nodes: "mset (map fst (tree_walk [root_cursor root])) = mset (all_nodes root)"
    using tree_walk_mset [of "[root_cursor root]"] by (simp add: root_cursor_def)
  have filt: "map fst (filter (\<lambda>(n, _). P n) cs) = filter P (map fst cs)" for P and cs :: "cursor list"
    by (induction cs) auto
  have start: "inv_start_byte (invocation_of src c) = node_start (fst c)" for c
    by (simp add: invocation_of_def Let_def split_beta)
  let ?walk = "tree_walk [root_cursor root]" and ?cmd = "\<lambda>n. node_kind n = ''command''"
  have "mset (map inv_start_byte (shell_command_invocations root src)) =
      image_mset node_start (mset (map fst (filter (\<lambda>(n, _). ?cmd n) ?walk)))"
    by (simp add: shell_command_invocations_def image_mset.compositionality comp_def start)
  also have "\<dots> = image_mset node_start (filter_mset ?cmd (mset (map fst ?walk)))"
    unfolding filt by simp
  finally show "mset (map inv_start_byte (shell_command_invocations root src)) =
     image_mset node_start (mset (filter ?cmd (all_nodes root)))"
    unfolding nodes by simp
  have "map (\<lambda>t. (rt_path t, rt_mode t, rt_ambiguous t)) (filter_map (redirect_target src) cs) =
      filter_map (\<lambda>n. if node_kind n = ''file_redirect'' then shell_redirect_one n src else None) (map fst cs)" for cs
    unfolding map_filter_map_option filter_map_of_map by (intro arg_cong [of _ _ "\<lambda>g. filter_map g cs"] ext)
      (simp add: redirect_target_def split_beta option.map_comp comp_def option.map_ident)
  from this [of ?walk] show "mset (map (\<lambda>t. (rt_path t, rt_mode t, rt_ambiguous t)) (shell_redirect_targets root src)) =
     mset (filter_map (\<lambda>n. if node_kind n = ''file_redirect'' then shell_redirect_one n src else None) (all_nodes root))"
    unfolding shell_redirect_targets_def by (simp only: mset_filter_map_cong [OF nodes])
qed

end
