(* ===== verification/Exec_Risk.thy ===== *)
theory Exec_Risk
  imports Bash_Script Unix_Path
begin

text \<open>
  Execution risk of a Bash request: \<open>crates/codegen/xai-grok-workspace/src/permission/exec_risk.rs\<close>
  and \<open>filter_command_driver\<close> of \<open>git_content_filters.rs\<close>. Which argv flags make \<open>git\<close> or \<open>sort\<close>
  start a program, which git invocations count as read-only queries, and which directories' git
  configuration has to be scanned. The libgit2 reads (the local configuration entries of a directory,
  and its boolean parser) are parameters. Slices of one argv are compared by length, as two suffixes
  of a list are the same exactly when they are equally long.
\<close>

section \<open>Peeling before the inspection\<close>

datatype NormalizedArgv = Ready words | FailClosed

fun exec_risk_rounds :: "nat \<Rightarrow> words \<Rightarrow> NormalizedArgv" where
  "exec_risk_rounds 0 current = NormalizedArgv.FailClosed"
| "exec_risk_rounds (Suc n) current =
     (let checked = unwrap_wrappers_checked current in
      if cw_exhausted checked \<or> cw_has_split_string checked \<or> cw_has_chdir checked
      then NormalizedArgv.FailClosed
      else let after_wrap = cw_words checked in
        case peel_transparent_prefixes after_wrap of
          AmbiguousPeel \<Rightarrow> NormalizedArgv.FailClosed
        | TransparentPrefixPeel.Ready after_trans \<Rightarrow>
            if length after_trans = length current then NormalizedArgv.Ready after_trans
            else if length after_trans = length after_wrap then NormalizedArgv.Ready after_trans
            else exec_risk_rounds n after_trans)"

definition normalize_for_exec_risk :: "words \<Rightarrow> NormalizedArgv" where
  "normalize_for_exec_risk ws = exec_risk_rounds MAX_NORMALIZE_ROUNDS ws"

section \<open>Option words\<close>

definition is_accepted_long_option_prefix :: "string \<Rightarrow> string \<Rightarrow> nat \<Rightarrow> bool" where
  "is_accepted_long_option_prefix flag full min_len \<longleftrightarrow>
     starts_with flag ''--'' \<and> length flag \<ge> min_len \<and> starts_with full flag \<and>
     list_all (\<lambda>b. is_ascii_alphanumeric b \<or> b = CHR ''-'') flag"

text \<open>\<open>s.split_once('=').map(|(f, _)| f).unwrap_or(s)\<close>.\<close>

definition before_equals :: "string \<Rightarrow> string" where
  "before_equals w = (case split_once (CHR ''='') w of Some (f, _) \<Rightarrow> f | None \<Rightarrow> w)"

definition strip_exe :: "string \<Rightarrow> string" where
  "strip_exe name = (case strip_suffix ''.exe'' name of Some stem \<Rightarrow> stem | None \<Rightarrow> name)"

definition normalized_program_name :: "words \<Rightarrow> string option" where
  "normalized_program_name ws =
     (case first ws of
        None \<Rightarrow> None
      | Some raw \<Rightarrow>
          (let base = last_component raw in
           if base = [] then None else Some (strip_exe (to_ascii_lowercase base))))"

definition is_git_program :: "words \<Rightarrow> bool" where
  "is_git_program ws \<longleftrightarrow> normalized_program_name ws = Some ''git''"

definition is_sort_program :: "words \<Rightarrow> bool" where
  "is_sort_program ws \<longleftrightarrow> normalized_program_name ws = Some ''sort''"

definition normalized_token_basename :: "string \<Rightarrow> string" where
  "normalized_token_basename token = strip_exe (to_ascii_lowercase (last_component token))"

definition is_compress_program_flag :: "string \<Rightarrow> bool" where
  "is_compress_program_flag w \<longleftrightarrow>
     w = ''--compress-program'' \<or> starts_with w ''--compress-program='' \<or>
     is_accepted_long_option_prefix (before_equals w) ''--compress-program'' 4"

definition sort_has_compress_program_flag :: "words \<Rightarrow> bool" where
  "sort_has_compress_program_flag ws =
     list_ex is_compress_program_flag (takeWhile (\<lambda>w. w \<noteq> ''--'') (drop 1 ws))"

definition is_git_config_env_flag :: "string \<Rightarrow> bool" where
  "is_git_config_env_flag tok \<longleftrightarrow>
     tok = ''--config-env'' \<or> starts_with tok ''--config-env='' \<or>
     is_accepted_long_option_prefix (before_equals tok) ''--config-env'' 4"

definition is_git_repo_retarget_flag :: "string \<Rightarrow> bool" where
  "is_git_repo_retarget_flag tok \<longleftrightarrow>
     tok = ''--git-dir'' \<or> starts_with tok ''--git-dir='' \<or>
     tok = ''--work-tree'' \<or> starts_with tok ''--work-tree='' \<or>
     is_accepted_long_option_prefix (before_equals tok) ''--git-dir'' 4 \<or>
     is_accepted_long_option_prefix (before_equals tok) ''--work-tree'' 4"

definition is_attached_git_config_c :: "string \<Rightarrow> bool" where
  "is_attached_git_config_c tok \<longleftrightarrow>
     starts_with tok ''-c'' \<and> length tok > 2 \<and> \<not> starts_with tok ''--''"

definition attached_git_c_path :: "string \<Rightarrow> string option" where
  "attached_git_c_path tok =
     (case strip_prefix ''-C'' tok of
        Some rest \<Rightarrow> if rest \<noteq> [] \<and> \<not> starts_with tok ''--'' then Some rest else None
      | None \<Rightarrow> None)"

definition git_global_option_takes_value :: "string \<Rightarrow> bool" where
  "git_global_option_takes_value tok \<longleftrightarrow>
     tok \<in> set [''-C'', ''-c'', ''--git-dir'', ''--work-tree'', ''--namespace'', ''--super-prefix'',
                ''--exec-path'', ''--list-cmds'', ''--attr-source'', ''--config-env''] \<or>
     is_accepted_long_option_prefix tok ''--config-env'' 4 \<or>
     is_accepted_long_option_prefix tok ''--git-dir'' 4 \<or>
     is_accepted_long_option_prefix tok ''--work-tree'' 4 \<or>
     is_accepted_long_option_prefix tok ''--namespace'' 7 \<or>
     is_accepted_long_option_prefix tok ''--super-prefix'' 8 \<or>
     is_accepted_long_option_prefix tok ''--exec-path'' 7 \<or>
     is_accepted_long_option_prefix tok ''--list-cmds'' 7 \<or>
     is_accepted_long_option_prefix tok ''--attr-source'' 8"

text \<open>The step over a global option that is none of the above: two words if it takes a value.\<close>

definition global_option_step :: "words \<Rightarrow> nat \<Rightarrow> nat" where
  "global_option_step ws i =
     (if CHR ''='' \<notin> set (ws ! i) \<and> git_global_option_takes_value (ws ! i) \<and>
         (case get ws (i + 1) of Some n \<Rightarrow> \<not> starts_with n ''-'' \<or> n = ''-'' | None \<Rightarrow> False)
      then 2 else 1)"

lemma global_option_step_pos: "0 < global_option_step ws i"
  by (simp add: global_option_step_def)

section \<open>Flags that run programs\<close>

definition is_exec_risk_token :: "string \<Rightarrow> bool" where
  "is_exec_risk_token tok \<longleftrightarrow>
     tok = ''-c'' \<or> is_attached_git_config_c tok \<or> is_git_config_env_flag tok \<or>
     is_git_repo_retarget_flag tok"

function git_has_exec_risk_from :: "words \<Rightarrow> nat \<Rightarrow> bool" where
  "git_has_exec_risk_from ws i =
     (if i < length ws then
        (let tok = ws ! i in
         if tok = ''--'' then False
         else if \<not> starts_with tok ''-'' \<or> tok = ''-'' then False
         else if is_exec_risk_token tok then True
         else if attached_git_c_path tok \<noteq> None then git_has_exec_risk_from ws (i + 1)
         else git_has_exec_risk_from ws (i + global_option_step ws i))
      else False)"
  by pat_completeness auto
termination
  by (relation "measure (\<lambda>(ws, i). length ws - i)")
    (use global_option_step_pos in \<open>auto intro: diff_less_mono2\<close>)

declare git_has_exec_risk_from.simps [simp del]

definition git_has_exec_risk_global :: "words \<Rightarrow> bool" where
  "git_has_exec_risk_global ws = git_has_exec_risk_from ws 1"

definition segment_has_exec_risk_flag :: "words \<Rightarrow> bool" where
  "segment_has_exec_risk_flag ws =
     (if is_sort_program ws then sort_has_compress_program_flag ws
      else if is_git_program ws then git_has_exec_risk_global ws
      else False)"

record SegmentExecFacts =
  exec_risk :: bool
  has_git :: bool

definition segment_exec_facts :: "words \<Rightarrow> SegmentExecFacts" where
  "segment_exec_facts ws =
     (case normalize_for_exec_risk ws of
        NormalizedArgv.FailClosed \<Rightarrow> \<lparr>exec_risk = True, has_git = False\<rparr>
      | NormalizedArgv.Ready inner \<Rightarrow>
          \<lparr>exec_risk = segment_has_exec_risk_flag inner, has_git = is_git_program inner\<rparr>)"

section \<open>Read-only git queries\<close>

definition SAFE_GIT_SUBCOMMANDS :: "string list" where
  "SAFE_GIT_SUBCOMMANDS =
     [''status'', ''branch'', ''log'', ''diff'', ''ls-files'', ''show'', ''rev-parse'', ''blame'', ''grep'',
      ''describe'', ''merge-base'', ''check-ignore'', ''check-attr'', ''cat-file'', ''ls-tree'', ''show-ref'',
      ''for-each-ref'', ''rev-list'', ''name-rev'', ''count-objects'', ''shortlog'']"

definition GIT_QUERY_UNSAFE_OPTIONS :: "string list" where
  "GIT_QUERY_UNSAFE_OPTIONS =
     [''--filters'', ''--textconv'', ''--output'', ''--ext-diff'', ''--open-files-in-pager'']"

definition git_query_option_is_unsafe :: "string \<Rightarrow> bool" where
  "git_query_option_is_unsafe word =
     (let flag = before_equals word in
      length flag > 2 \<and> list_ex (\<lambda>full. starts_with full flag) GIT_QUERY_UNSAFE_OPTIONS)"

function git_safe_verb_from :: "words \<Rightarrow> nat \<Rightarrow> nat option" where
  "git_safe_verb_from ws i =
     (case get ws i of
        None \<Rightarrow> None
      | Some tok \<Rightarrow>
          if tok = ''-'' \<or> tok = ''--'' then None
          else if \<not> starts_with tok ''-'' then Some i
          else if tok = ''-C'' then git_safe_verb_from ws (i + 2)
          else if attached_git_c_path tok \<noteq> None \<or> tok = ''--no-pager'' \<or> tok = ''-P''
          then git_safe_verb_from ws (i + 1)
          else None)"
  by pat_completeness auto
termination
  by (relation "measure (\<lambda>(ws, i). length ws - i)") (auto simp: get_Some)

declare git_safe_verb_from.simps [simp del]

definition git_safe_query_verb_index :: "words \<Rightarrow> nat option" where
  "git_safe_query_verb_index ws = git_safe_verb_from ws 1"

definition git_words_have_unsafe_query_option :: "words \<Rightarrow> bool" where
  "git_words_have_unsafe_query_option ws =
     (if first ws \<noteq> Some ''git'' then False
      else if list_ex git_query_option_is_unsafe (drop 1 ws) then True
      else (case git_safe_query_verb_index ws of Some i \<Rightarrow> ws ! i = ''grep'' | None \<Rightarrow> False) \<and>
           list_ex (\<lambda>w. starts_with w ''-O'') (drop 1 ws))"

definition git_words_are_read_only_query :: "words \<Rightarrow> bool" where
  "git_words_are_read_only_query ws =
     (if first ws \<noteq> Some ''git'' then False
      else if git_has_exec_risk_global ws then False
      else case git_safe_query_verb_index ws of
             None \<Rightarrow> False
           | Some verb_idx \<Rightarrow>
               if ws ! verb_idx \<notin> set SAFE_GIT_SUBCOMMANDS then False
               else \<not> git_words_have_unsafe_query_option ws)"

section \<open>Ambient git configuration\<close>

definition filter_command_driver :: "string \<Rightarrow> string option" where
  "filter_command_driver name =
     (if length name < 7 \<or> \<not> is_char_boundary name 7 then None
      else if \<not> eq_ignore_ascii_case (take 7 name) ''filter.'' then None
      else case rsplit_once (CHR ''.'') (drop 7 name) of
             None \<Rightarrow> None
           | Some (driver, prop) \<Rightarrow>
               if driver \<noteq> [] \<and> (eq_ignore_ascii_case prop ''clean'' \<or> eq_ignore_ascii_case prop ''smudge''
                                  \<or> eq_ignore_ascii_case prop ''process'')
               then Some driver else None)"

text \<open>\<open>parses_bool\<close> stands for \<open>git2::Config::parse_bool(v).is_ok()\<close>.\<close>

definition local_git_config_entry_is_exec :: "(string \<Rightarrow> bool) \<Rightarrow> string \<Rightarrow> string \<Rightarrow> bool" where
  "local_git_config_entry_is_exec parses_bool name value =
     (let name = to_ascii_lowercase name; value = trim value in
      if value = [] then False
      else if name = ''core.fsmonitor'' then \<not> parses_bool value
      else if name = ''diff.external'' then True
      else if (case strip_prefix ''diff.'' name of
                 Some rest \<Rightarrow> ends_with rest ''.command'' \<or> ends_with rest ''.textconv'' \<or> ends_with rest ''.external''
               | None \<Rightarrow> False) then True
      else if filter_command_driver name \<noteq> None then True
      else if (case strip_prefix ''alias.'' name of
                 Some alias \<Rightarrow> alias \<in> set SAFE_GIT_SUBCOMMANDS \<and> starts_with value ''!''
               | None \<Rightarrow> False) then True
      else False)"

type_synonym git_config = "string \<Rightarrow> (string \<times> string) list option"

definition local_repo_config_has_exec_risk :: "(string \<Rightarrow> bool) \<Rightarrow> git_config \<Rightarrow> string \<Rightarrow> bool" where
  "local_repo_config_has_exec_risk parses_bool read_entries cwd =
     (case read_entries cwd of
        None \<Rightarrow> True
      | Some entries \<Rightarrow> list_ex (\<lambda>(name, value). local_git_config_entry_is_exec parses_bool name value) entries)"

definition is_static_path_operand :: "string \<Rightarrow> bool" where
  "is_static_path_operand p \<longleftrightarrow>
     p \<noteq> [] \<and> p \<noteq> ''-'' \<and> \<not> starts_with p ''-'' \<and> CHR ''$'' \<notin> set p \<and> CHR 0x60 \<notin> set p \<and>
     \<not> contains_sub p ''$(''"

definition join_cwd_operand :: "string \<Rightarrow> string \<Rightarrow> string" where
  "join_cwd_operand base operand = (if is_absolute operand then operand else path_join base operand)"

text \<open>The loop over the arguments of \<open>cd\<close> and \<open>pushd\<close>: \<open>None\<close> rejects, \<open>Some t\<close> is the target so far.\<close>

fun chdir_target :: "words \<Rightarrow> string option \<Rightarrow> string option option" where
  "chdir_target [] target = Some target"
| "chdir_target (tok # args) target =
     (if tok = ''--'' then Some (first args)
      else if starts_with tok ''-'' then None
      else if target \<noteq> None then None
      else chdir_target args (Some tok))"

definition apply_literal_chdir :: "string \<Rightarrow> words \<Rightarrow> string option" where
  "apply_literal_chdir cwd ws =
     (case chdir_target (drop 1 ws) None of
        None \<Rightarrow> None
      | Some None \<Rightarrow> None
      | Some (Some target) \<Rightarrow>
          if \<not> is_static_path_operand target then None else Some (join_cwd_operand cwd target))"

function git_effective_cwd_from :: "words \<Rightarrow> string \<Rightarrow> nat \<Rightarrow> string option" where
  "git_effective_cwd_from ws cwd i =
     (if i < length ws then
        (let tok = ws ! i in
         if tok = ''--'' \<or> \<not> starts_with tok ''-'' \<or> tok = ''-'' then Some cwd
         else if is_git_repo_retarget_flag tok then None
         else if tok = ''-C'' then
           (case get ws (i + 1) of
              None \<Rightarrow> None
            | Some path \<Rightarrow>
                if \<not> is_static_path_operand path then None
                else git_effective_cwd_from ws (join_cwd_operand cwd path) (i + 2))
         else case attached_git_c_path tok of
                Some path \<Rightarrow>
                  if \<not> is_static_path_operand path then None
                  else git_effective_cwd_from ws (join_cwd_operand cwd path) (i + 1)
              | None \<Rightarrow> git_effective_cwd_from ws cwd (i + global_option_step ws i))
      else Some cwd)"
  by pat_completeness auto
termination
  by (relation "measure (\<lambda>(ws, cwd, i). length ws - i)")
    (use global_option_step_pos in \<open>auto intro: diff_less_mono2\<close>)

declare git_effective_cwd_from.simps [simp del]

definition git_effective_cwd :: "words \<Rightarrow> string \<Rightarrow> string option" where
  "git_effective_cwd ws start_cwd = git_effective_cwd_from ws start_cwd 1"

datatype AmbientScanPlan = FailClosed | CheckDirs "string list"

fun ambient_scan :: "words list \<Rightarrow> string \<Rightarrow> string list \<Rightarrow> AmbientScanPlan" where
  "ambient_scan [] cwd git_cwds =
     (if git_cwds = [] then AmbientScanPlan.FailClosed else CheckDirs git_cwds)"
| "ambient_scan (raw # segs) cwd git_cwds =
     (case normalize_for_exec_risk raw of
        NormalizedArgv.FailClosed \<Rightarrow> AmbientScanPlan.FailClosed
      | NormalizedArgv.Ready ws \<Rightarrow>
          (let name = normalized_program_name ws in
           if name = Some ''cd'' \<or> name = Some ''pushd'' then
             (case apply_literal_chdir cwd ws of
                Some cwd' \<Rightarrow> ambient_scan segs cwd' git_cwds
              | None \<Rightarrow> AmbientScanPlan.FailClosed)
           else if name = Some ''popd'' then AmbientScanPlan.FailClosed
           else if name = Some ''git'' then
             (case git_effective_cwd ws cwd of
                Some effective \<Rightarrow> ambient_scan segs cwd (git_cwds @ [effective])
              | None \<Rightarrow> AmbientScanPlan.FailClosed)
           else ambient_scan segs cwd git_cwds))"

definition ambient_scan_plan_from_segments :: "words list \<Rightarrow> string \<Rightarrow> AmbientScanPlan" where
  "ambient_scan_plan_from_segments raw_segments session_cwd = ambient_scan raw_segments session_cwd []"

definition ambient_exec_risk_from_plan :: "(string \<Rightarrow> bool) \<Rightarrow> git_config \<Rightarrow> AmbientScanPlan \<Rightarrow> bool" where
  "ambient_exec_risk_from_plan parses_bool read_entries plan =
     (case plan of
        AmbientScanPlan.FailClosed \<Rightarrow> True
      | CheckDirs dirs \<Rightarrow> list_ex (local_repo_config_has_exec_risk parses_bool read_entries) dirs)"

section \<open>Unparseable scripts\<close>

definition is_token_separator :: "char \<Rightarrow> bool" where
  "is_token_separator c \<longleftrightarrow> c \<in> set (''|&;()<>'' @ [CHR 0x60, newline])"

text \<open>\<open>cmd.split(..)\<close> at Unicode white space and shell punctuation, the current token kept reversed.\<close>

function split_tokens :: "string \<Rightarrow> string \<Rightarrow> string list" where
  "split_tokens cur s =
     (case s of
        [] \<Rightarrow> [rev cur]
      | c # r \<Rightarrow>
          (case strip_first whitespace_encodings s of
             Some t \<Rightarrow> rev cur # split_tokens [] t
           | None \<Rightarrow>
               if is_token_separator c then rev cur # split_tokens [] r else split_tokens (c # cur) r))"
  by pat_completeness auto
termination
proof (relation "measure (\<lambda>(cur, s). length s)")
  fix cur s c r t assume "s = c # r" "strip_first whitespace_encodings s = Some t"
  moreover have "[] \<notin> set whitespace_encodings" by code_simp
  ultimately show "(([], t), (cur, s)) \<in> measure (\<lambda>(cur, s). length s)"
    using strip_first_shorter [of whitespace_encodings s t] by simp
qed auto

declare split_tokens.simps [simp del]

definition trim_quotes :: "string \<Rightarrow> string" where
  "trim_quotes s =
     (let q = (\<lambda>c. c = squote \<or> c = dquote \<or> c = CHR 0x60)
      in rev (dropWhile q (rev (dropWhile q s))))"

definition script_may_invoke_git :: "string \<Rightarrow> bool" where
  "script_may_invoke_git cmd =
     list_ex (\<lambda>token. let trimmed = trim_quotes token in
        trimmed \<noteq> [] \<and> normalized_token_basename trimmed = ''git'') (split_tokens [] cmd)"

section \<open>Every configuration flag before the subcommand is seen\<close>

definition dashed :: "string \<Rightarrow> bool" where
  "dashed w \<longleftrightarrow> starts_with w ''-'' \<and> w \<noteq> ''-'' \<and> w \<noteq> ''--''"

text \<open>
  Words that read as global options: each begins with a dash, and a word that does not may stand
  only as the value of an option that takes one.
\<close>

definition takes_next :: "string \<Rightarrow> string \<Rightarrow> bool" where
  "takes_next g v \<longleftrightarrow> CHR ''='' \<notin> set g \<and> git_global_option_takes_value g \<and> (\<not> starts_with v ''-'' \<or> v = ''-'')"

fun option_run :: "words \<Rightarrow> bool" where
  "option_run [] \<longleftrightarrow> True"
| "option_run [g] \<longleftrightarrow> dashed g"
| "option_run (g # v # gs) \<longleftrightarrow> dashed g \<and> (if takes_next g v then option_run gs else option_run (v # gs))"

text \<open>The flags that matter: \<open>-c\<close>, alone or attached, and three long options, abbreviated or not, with a value or not.\<close>

definition runs_configured_program :: "string \<Rightarrow> bool" where
  "runs_configured_program tok \<longleftrightarrow>
     starts_with tok ''-c'' \<or>
     list_ex (\<lambda>full. 4 \<le> length (before_equals tok) \<and> prefix (before_equals tok) full)
       [''--config-env'', ''--git-dir'', ''--work-tree'']"

lemma abbreviation_accepted:
  assumes "prefix flag full" and "4 \<le> length flag" and "full \<in> {''--config-env'', ''--git-dir'', ''--work-tree''}"
  shows "is_accepted_long_option_prefix flag full 4"
proof -
  obtain r where r: "full = flag @ r" using assms(1) by (auto simp: prefix_def)
  have "list_all (\<lambda>b. is_ascii_alphanumeric b \<or> b = CHR ''-'') full"
    using assms(3) by (elim insertE emptyE) (simp_all, code_simp+)
  moreover have "take 2 full = ''--''" using assms(3) by auto
  then have "take 2 flag = ''--''" using r assms(2) by simp
  then have "starts_with flag ''--''" by (metis append_take_drop_id starts_with_append)
  ultimately show ?thesis
    using assms(2) by (simp add: is_accepted_long_option_prefix_def r)
qed

lemma runs_configured_program_risk:
  assumes "runs_configured_program tok"
  shows "is_exec_risk_token tok" and "dashed tok"
proof -
  have "is_exec_risk_token tok \<and> dashed tok"
  proof (cases "starts_with tok ''-c''")
    case True
    then show ?thesis
      by (auto simp: is_exec_risk_token_def is_attached_git_config_c_def dashed_def starts_with_iff)
  next
    case False
    with assms obtain full where full: "full \<in> {''--config-env'', ''--git-dir'', ''--work-tree''}"
      and len: "4 \<le> length (before_equals tok)" and abbr: "prefix (before_equals tok) full"
      by (auto simp: runs_configured_program_def)
    note acc = abbreviation_accepted [OF abbr len full]
    obtain rest where "tok = before_equals tok @ rest"
      by (cases "split_once (CHR ''='') tok") (auto simp: before_equals_def split_once_Some)
    with acc len have "starts_with tok ''--'' \<and> 4 \<le> length tok"
      by (metis append.assoc is_accepted_long_option_prefix_def le_add1 le_trans length_append starts_with_iff)
    then have "dashed tok" by (auto simp: dashed_def starts_with_iff)
    with acc full show ?thesis
      by (auto simp: is_exec_risk_token_def is_git_config_env_flag_def is_git_repo_retarget_flag_def)
  qed
  then show "is_exec_risk_token tok" and "dashed tok" by auto
qed

lemma attached_takes_none: "attached_git_c_path g \<noteq> None \<Longrightarrow> \<not> takes_next g v"
  by (auto simp: attached_git_c_path_def takes_next_def git_global_option_takes_value_def
      is_accepted_long_option_prefix_def strip_prefix_Some split: option.splits if_splits)

lemma git_risk_step:
  assumes "dashed g" and "length pre = i" and "ws \<noteq> []"
    and "git_has_exec_risk_from (pre @ g # ws) (i + (if takes_next g (hd ws) then 2 else 1))"
  shows "git_has_exec_risk_from (pre @ g # ws) i"
proof -
  have here: "(pre @ g # ws) ! i = g" and following: "get (pre @ g # ws) (i + 1) = Some (hd ws)"
    using assms(2,3) by (auto simp: get_def nth_append hd_conv_nth)
  have step: "global_option_step (pre @ g # ws) i = (if takes_next g (hd ws) then 2 else 1)"
    unfolding global_option_step_def here following by (simp add: takes_next_def)
  show ?thesis
  proof (cases "attached_git_c_path g = None")
    case True
    with assms step here show ?thesis
      by (subst git_has_exec_risk_from.simps) (simp add: Let_def dashed_def)
  next
    case False
    with assms attached_takes_none [OF False] here show ?thesis
      by (subst git_has_exec_risk_from.simps) (simp add: Let_def dashed_def)
  qed
qed

lemma git_risk_from_run:
  assumes "option_run gs" and "dashed tok" and "is_exec_risk_token tok" and "length pre = i"
  shows "git_has_exec_risk_from (pre @ gs @ tok # rest) i"
  using assms(1,4)
proof (induction gs arbitrary: pre i rule: option_run.induct)
  case 1
  then show ?case
    using assms(2,3) by (subst git_has_exec_risk_from.simps) (auto simp: dashed_def Let_def nth_append)
next
  case (2 g)
  have "git_has_exec_risk_from ((pre @ [g]) @ tok # rest) (i + 1)"
    using 2 assms(2,3) by (subst git_has_exec_risk_from.simps) (auto simp: dashed_def Let_def nth_append)
  moreover have "\<not> takes_next g tok" using assms(2) by (auto simp: takes_next_def dashed_def)
  ultimately show ?case using git_risk_step [of g pre i "tok # rest"] 2 by simp
next
  case (3 g v gs)
  show ?case
  proof (cases "takes_next g v")
    case True
    with 3 have "git_has_exec_risk_from ((pre @ [g, v]) @ gs @ tok # rest) (i + 2)"
      by (intro "3.IH"(1)) simp_all
    with True 3 show ?thesis using git_risk_step [of g pre i "v # gs @ tok # rest"] by simp
  next
    case False
    with 3 have "git_has_exec_risk_from ((pre @ [g]) @ (v # gs) @ tok # rest) (i + 1)"
      by (intro "3.IH"(2)) simp_all
    with False 3 show ?thesis using git_risk_step [of g pre i "v # gs @ tok # rest"] by simp
  qed
qed

text \<open>
  Whatever global options stand in front, with or without values, a flag that makes git run a
  configured program or read another configuration is found: a \<open>-c\<close>, alone or attached, or a
  \<open>--config-env\<close>, \<open>--git-dir\<close> or \<open>--work-tree\<close>, abbreviated or not, is flagged as an execution
  risk wherever it stands among them.
\<close>

theorem git_exec_risk_complete:
  assumes "option_run gs" and "runs_configured_program tok"
  shows "git_has_exec_risk_global (program # gs @ tok # rest)"
  using git_risk_from_run [OF assms(1) runs_configured_program_risk(2,1) [OF assms(2)], of "[program]" 1 rest]
  by (simp add: git_has_exec_risk_global_def)

theorem git_exec_risk_complete_witness:
  "git_has_exec_risk_global (''git'' # [''-C'', ''dir'', ''--no-pager''] @ ''--conf=x'' # [''log''])"
  by (rule git_exec_risk_complete) code_simp+

text \<open>
  A directory named like the end of the options hides what follows: git takes the word after \<open>-C\<close> as
  its value whatever it is, while the scan takes \<open>--\<close> for the end of the options.
\<close>

theorem dash_dash_directory_hides_flag:
  "\<not> git_has_exec_risk_global [''git'', ''-C'', ''--'', ''-c'', ''core.pager=x'', ''log'']"
  by code_simp

section \<open>What passes as a read-only query\<close>

text \<open>Globals that only choose the directory or the pager.\<close>

fun safe_globals :: "words \<Rightarrow> bool" where
  "safe_globals [] = True"
| "safe_globals (g # gs) =
     (if g = ''-C'' then (case gs of [] \<Rightarrow> False | _ # gs' \<Rightarrow> safe_globals gs')
      else (attached_git_c_path g \<noteq> None \<or> g = ''--no-pager'' \<or> g = ''-P'') \<and> safe_globals gs)"

lemma git_safe_verb_from_Some:
  assumes "git_safe_verb_from ws i = Some k"
  shows "\<exists>gs verb args. drop i ws = gs @ verb # args \<and> k = i + length gs \<and> safe_globals gs"
  using assms
proof (induction "length ws - i" arbitrary: i rule: less_induct)
  case less
  obtain tok where tok: "i < length ws" "ws ! i = tok"
    using less.prems by (subst (asm) git_safe_verb_from.simps) (auto simp: get_def split: if_splits)
  then have drop_i: "drop i ws = tok # drop (Suc i) ws" using Cons_nth_drop_Suc by metis
  have got: "get ws i = Some tok" using tok by (simp add: get_def)
  consider (verb) "k = i"
    | (dir) "tok = ''-C''" "git_safe_verb_from ws (i + 2) = Some k"
    | (flag) "tok \<noteq> ''-C''" "attached_git_c_path tok \<noteq> None \<or> tok = ''--no-pager'' \<or> tok = ''-P''"
        "git_safe_verb_from ws (i + 1) = Some k"
    using less.prems by (subst (asm) git_safe_verb_from.simps) (auto simp: got split: if_splits)
  then show ?case
  proof cases
    case verb
    then have "drop i ws = [] @ tok # drop (Suc i) ws \<and> k = i + length [] \<and> safe_globals []"
      using drop_i by simp
    then show ?thesis by blast
  next
    case dir
    from dir(2) have "i + 2 < length ws"
      by (subst (asm) git_safe_verb_from.simps) (auto simp: get_def split: if_splits)
    then have "drop i ws = tok # ws ! Suc i # drop (i + 2) ws"
      using drop_i Cons_nth_drop_Suc [of "Suc i" ws] by simp
    moreover have "length ws - (i + 2) < length ws - i" using tok(1) by linarith
    from less.hyps [OF this dir(2)]
    obtain gs verb args where "drop (i + 2) ws = gs @ verb # args" "k = i + 2 + length gs" "safe_globals gs"
      by blast
    ultimately show ?thesis
      using dir(1) by (intro exI [of _ "tok # ws ! Suc i # gs"] exI [of _ verb] exI [of _ args]) simp
  next
    case flag
    have "length ws - (i + 1) < length ws - i" using tok(1) by linarith
    from less.hyps [OF this flag(3)]
    obtain gs verb args where "drop (i + 1) ws = gs @ verb # args" "k = i + 1 + length gs" "safe_globals gs"
      by blast
    moreover from this flag(1,2) have "safe_globals (tok # gs)" by (simp only: safe_globals.simps if_False simp_thms)
    ultimately show ?thesis
      using drop_i by (intro exI [of _ "tok # gs"] exI [of _ verb] exI [of _ args]) simp
  qed
qed

text \<open>
  What is approved as a read-only git query has exactly the shape it should: the literal \<open>git\<close>,
  globals that only choose the directory or the pager, a verb from the safe list, and no word after
  \<open>git\<close> that spells or abbreviates an option running a driver or writing a file; for \<open>grep\<close> no
  \<open>-O\<close> either; and no exec-risk flag before the verb.
\<close>

theorem read_only_query_shape:
  assumes "git_words_are_read_only_query ws"
  shows "\<exists>gs verb args. ws = ''git'' # gs @ verb # args \<and> safe_globals gs \<and>
    verb \<in> set SAFE_GIT_SUBCOMMANDS \<and> \<not> git_has_exec_risk_global ws \<and>
    (\<forall>w \<in> set (gs @ verb # args). \<not> git_query_option_is_unsafe w \<and> (verb = ''grep'' \<longrightarrow> \<not> starts_with w ''-O''))"
proof -
  from assms obtain k where g: "first ws = Some ''git''" and r: "\<not> git_has_exec_risk_global ws"
    and k: "git_safe_query_verb_index ws = Some k" and v: "ws ! k \<in> set SAFE_GIT_SUBCOMMANDS"
    and u: "\<not> git_words_have_unsafe_query_option ws"
    by (auto simp: git_words_are_read_only_query_def split: if_splits option.splits)
  from g have ws: "ws = ''git'' # drop 1 ws" by (cases ws) (auto simp: first_def get_def)
  obtain gs verb args where d: "drop 1 ws = gs @ verb # args" "k = 1 + length gs" "safe_globals gs"
    using git_safe_verb_from_Some k unfolding git_safe_query_verb_index_def by blast
  with ws have verb: "ws ! k = verb" by (metis nth_Cons_Suc nth_append_length plus_1_eq_Suc)
  from u g k verb have "\<forall>w \<in> set (drop 1 ws). \<not> git_query_option_is_unsafe w \<and>
      (verb = ''grep'' \<longrightarrow> \<not> starts_with w ''-O'')"
    by (auto simp: git_words_have_unsafe_query_option_def list_ex_iff split: if_splits)
  with ws d r v verb show ?thesis by metis
qed

theorem read_only_query_shape_witness:
  "\<exists>gs verb args. [''git'', ''-C'', ''sub'', ''--no-pager'', ''log'', ''-p''] = ''git'' # gs @ verb # args \<and>
    safe_globals gs \<and> verb \<in> set SAFE_GIT_SUBCOMMANDS"
proof -
  have "git_words_are_read_only_query [''git'', ''-C'', ''sub'', ''--no-pager'', ''log'', ''-p'']" by code_simp
  from read_only_query_shape [OF this] show ?thesis by blast
qed

text \<open>
  The list of read-only verbs holds one that is not: \<open>git branch\<close> with a delete, force or rename
  flag changes the repository, and passes as a read-only query with any further arguments that are
  not driver options.
\<close>

theorem branch_delete_is_a_query:
  "list_all git_words_are_read_only_query
     [[''git'', ''branch'', ''-D'', ''main''], [''git'', ''branch'', ''-f'', ''main'', ''HEAD~3''],
      [''git'', ''branch'', ''--move'', ''main'', ''old'']]"
  by code_simp

text \<open>
  An \<open>env\<close> with an option its scan cannot read hides a risky git command from the execution-risk
  facts: the peel stops at \<open>env\<close> without failing closed, so the segment counts as neither risky nor
  git, although the same command without that option is flagged.
\<close>

theorem unread_env_option_hides_git:
  "segment_exec_facts [''env'', ''git'', ''-c'', ''core.pager=sh'', ''log'']
     = \<lparr>exec_risk = True, has_git = True\<rparr>
   \<and> cw_env_options_uncertain (unwrap_wrappers_checked [''env'', ''--strange'', ''git'', ''-c'', ''core.pager=sh'', ''log''])
   \<and> segment_exec_facts [''env'', ''--strange'', ''git'', ''-c'', ''core.pager=sh'', ''log'']
     = \<lparr>exec_risk = False, has_git = False\<rparr>"
  by code_simp

section \<open>The ambient scan covers every git command\<close>

text \<open>The working directory after a sequence of segments, when the scan gets that far.\<close>

fun cwd_after :: "words list \<Rightarrow> string \<Rightarrow> string option" where
  "cwd_after [] cwd = Some cwd"
| "cwd_after (raw # segs) cwd =
     (case normalize_for_exec_risk raw of
        NormalizedArgv.FailClosed \<Rightarrow> None
      | NormalizedArgv.Ready ws \<Rightarrow>
          if normalized_program_name ws \<in> {Some ''cd'', Some ''pushd''}
          then Option.bind (apply_literal_chdir cwd ws) (cwd_after segs)
          else cwd_after segs cwd)"

lemma ambient_scan_keeps: "ambient_scan segs cwd gits = CheckDirs dirs \<Longrightarrow> set gits \<subseteq> set dirs"
  by (induction segs arbitrary: cwd gits)
    (auto simp: Let_def split: if_splits NormalizedArgv.splits option.splits, fastforce+)

lemma ambient_scan_git:
  assumes "ambient_scan (pre @ raw # post) cwd gits = CheckDirs dirs"
  shows "\<exists>ws c. normalize_for_exec_risk raw = NormalizedArgv.Ready ws \<and> cwd_after pre cwd = Some c \<and>
    (is_git_program ws \<longrightarrow> (\<exists>d \<in> set dirs. git_effective_cwd ws c = Some d))"
  using assms
proof (induction pre arbitrary: cwd gits)
  case Nil
  then show ?case
    by (auto simp: Let_def is_git_program_def dest!: ambient_scan_keeps
        split: if_splits NormalizedArgv.splits option.splits)
next
  case (Cons r pre)
  then show ?case
    by (auto simp: Let_def split: if_splits NormalizedArgv.splits option.splits)
qed

text \<open>
  When the ambient scan names directories to check, it has missed no git command of the request:
  every segment was peeled, and for each that runs git, its effective directory, computed from the
  directory changes before it and its own \<open>-C\<close> options, is among the directories.
\<close>

theorem ambient_plan_covers_git:
  assumes "ambient_scan_plan_from_segments segs session_cwd = CheckDirs dirs"
    and "segs = pre @ raw # post"
  shows "\<exists>ws c. normalize_for_exec_risk raw = NormalizedArgv.Ready ws \<and> cwd_after pre session_cwd = Some c \<and>
    (is_git_program ws \<longrightarrow> (\<exists>d \<in> set dirs. git_effective_cwd ws c = Some d))"
  using assms ambient_scan_git by (simp add: ambient_scan_plan_from_segments_def)

theorem ambient_plan_covers_git_witness:
  "\<exists>ws c. normalize_for_exec_risk [''git'', ''-C'', ''b'', ''log''] = NormalizedArgv.Ready ws \<and>
    cwd_after [[''cd'', ''a'']] ''/w'' = Some c \<and>
    (is_git_program ws \<longrightarrow> (\<exists>d \<in> set [''/w/a/b'']. git_effective_cwd ws c = Some d))"
proof (rule ambient_plan_covers_git)
  show "ambient_scan_plan_from_segments ([[''cd'', ''a'']] @ [''git'', ''-C'', ''b'', ''log''] # []) ''/w''
    = CheckDirs [''/w/a/b'']" by code_simp
qed simp

end
