(* ===== verification/Float64.thy ===== *)
theory Float64
  imports Complex_Main "HOL-Library.Log_Nat"
begin

text \<open>
  The binary64 arithmetic of the program: conversion of integers, quotient, product, \<open>round\<close> and the cast back. A finite
  value is a rational number; each operation is the exact result rounded to 53 bits, ties to even. All values of
  the program that are computed here lie far from overflow and from the subnormal range.
\<close>

section \<open>Rounding\<close>

text \<open>How often to double \<open>f\<close> until it reaches \<open>n\<close>.\<close>

function scale_bits :: "nat \<Rightarrow> nat \<Rightarrow> nat" where
  "scale_bits f n = (if f = 0 \<or> n \<le> f then 0 else Suc (scale_bits (2 * f) n))"
  by pat_completeness auto
termination by (relation "measure (\<lambda>(f, n). n - f)") auto

declare scale_bits.simps [simp del]

definition round_half_even :: "nat \<Rightarrow> nat \<Rightarrow> nat" where
  "round_half_even a b =
     (let q = a div b; r = a mod b in
      if 2 * r < b \<or> (2 * r = b \<and> even q) then q else q + 1)"

lemma round_half_even_le: "a \<le> c * b \<Longrightarrow> 0 < b \<Longrightarrow> round_half_even a b \<le> c"
proof -
  assume a: "a \<le> c * b" and b: "0 < b"
  then have q: "a div b \<le> c" by (metis div_le_mono nonzero_mult_div_cancel_right not_less_zero)
  show ?thesis
  proof (cases "a div b = c")
    case True
    with a b have "a mod b = 0"
      by (metis add_le_same_cancel1 bot_nat_0.extremum_uniqueI div_mult_mod_eq)
    with True b show ?thesis by (simp add: round_half_even_def)
  next
    case False
    with q show ?thesis by (simp add: round_half_even_def Let_def)
  qed
qed

text \<open>The nearest number with 53 significant bits to \<open>a / b\<close>: scale the quotient into \<open>[2^52, 2^53)\<close>, round, scale back.\<close>

definition f64_ratio :: "nat \<Rightarrow> nat \<Rightarrow> rat" where
  "f64_ratio a b =
     (if a = 0 then 0
      else if a < b then
        (let k = scale_bits a b + 52 in of_nat (round_half_even (a * 2 ^ k) b) / 2 ^ k)
      else
        (let e = floorlog 2 (a div b) - 1 in
         if e \<le> 52 then of_nat (round_half_even (a * 2 ^ (52 - e)) b) / 2 ^ (52 - e)
         else of_nat (round_half_even a (b * 2 ^ (e - 52))) * 2 ^ (e - 52)))"

definition f64_nearest :: "rat \<Rightarrow> rat" where
  "f64_nearest x = (let (p, q) = quotient_of x in f64_ratio (nat p) (nat q))"

text \<open>\<open>x.round()\<close> takes halves away from zero; \<open>x as u64\<close> saturates. Both for a value that is not negative.\<close>

definition f64_round :: "rat \<Rightarrow> rat" where
  "f64_round x = of_int \<lfloor>x + 1 / 2\<rfloor>"

definition f64_as_u64 :: "rat \<Rightarrow> nat" where
  "f64_as_u64 x = min (nat \<lfloor>x\<rfloor>) (2 ^ 64 - 1)"

section \<open>Errors\<close>

lemma round_half_even_error:
  assumes "0 < b"
  shows "\<bar>of_nat (round_half_even a b) - of_nat a / of_nat b\<bar> \<le> (1 / 2 :: rat)"
proof -
  define q r where "q = a div b" and "r = a mod b"
  have a: "a = q * b + r" and r: "r < b" unfolding q_def r_def using assms by simp_all
  have split: "of_nat a / of_nat b = of_nat q + (of_nat r / of_nat b :: rat)"
    unfolding a using assms by (simp add: add_divide_distrib)
  have bp: "(0 :: rat) < of_nat b" using assms by simp
  show ?thesis
  proof (cases "2 * r < b \<or> 2 * r = b \<and> even q")
    case True
    then have "2 * of_nat r \<le> (of_nat b :: rat)" by (metis less_imp_le of_nat_le_iff of_nat_mult of_nat_numeral order_refl)
    with bp have "of_nat r / of_nat b \<le> (1 / 2 :: rat)" by (simp add: divide_le_eq)
    with True show ?thesis unfolding split round_half_even_def q_def [symmetric] r_def [symmetric] by simp
  next
    case False
    then have "b \<le> 2 * r" by auto
    then have "of_nat b \<le> 2 * (of_nat r :: rat)" by (metis of_nat_le_iff of_nat_mult of_nat_numeral)
    with bp have "(1 / 2 :: rat) \<le> of_nat r / of_nat b" by (simp add: le_divide_eq)
    moreover have "of_nat r / of_nat b \<le> (1 :: rat)" using r bp by (simp add: divide_le_eq)
    ultimately show ?thesis using False assms
      unfolding split round_half_even_def q_def [symmetric] r_def [symmetric] by (auto simp: Let_def)
  qed
qed

lemma scale_bits_ge: "0 < f \<Longrightarrow> n \<le> f * 2 ^ scale_bits f n"
proof (induction f n rule: scale_bits.induct)
  case (1 f n)
  then show ?case by (subst scale_bits.simps) (auto simp: mult.assoc mult.left_commute)
qed

text \<open>A significand of at least \<open>2^52\<close> loses at most half a unit.\<close>

lemma significand_error:
  fixes c :: rat
  assumes "0 < B" and "0 < c" and "B * 2 ^ 52 \<le> A"
  shows "\<bar>of_nat (round_half_even A B) * c - of_nat A / of_nat B * c\<bar> \<le> of_nat A / of_nat B * c / 2 ^ 53"
proof -
  let ?x = "of_nat A / of_nat B :: rat"
  have "of_nat (B * 2 ^ 52) \<le> (of_nat A :: rat)" using assms(3) by (rule of_nat_mono)
  then have "2 ^ 52 \<le> ?x" using assms(1) by (simp add: le_divide_eq mult.commute)
  then have x: "1 / 2 \<le> ?x / 2 ^ 53" by simp
  have "\<bar>of_nat (round_half_even A B) - ?x\<bar> \<le> ?x / 2 ^ 53"
    using round_half_even_error [OF assms(1), of A] x by linarith
  then have "\<bar>of_nat (round_half_even A B) - ?x\<bar> * c \<le> ?x / 2 ^ 53 * c" using assms(2) by (intro mult_right_mono) simp_all
  moreover have "\<bar>of_nat (round_half_even A B) * c - ?x * c\<bar> = \<bar>of_nat (round_half_even A B) - ?x\<bar> * c"
    by (simp only: left_diff_distrib [symmetric] abs_mult abs_of_pos [OF assms(2)])
  ultimately show ?thesis by simp
qed

lemma f64_ratio_error:
  assumes "0 < b"
  shows "\<bar>f64_ratio a b - of_nat a / of_nat b\<bar> \<le> of_nat a / of_nat b / 2 ^ 53"
proof -
  consider "a = 0" | "0 < a" "a < b" | "0 < a" "b \<le> a" "floorlog 2 (a div b) - 1 \<le> 52"
    | "0 < a" "b \<le> a" "52 < floorlog 2 (a div b) - 1" by linarith
  then show ?thesis
  proof cases
    case 1
    then show ?thesis by (simp add: f64_ratio_def)
  next
    case 2
    let ?k = "scale_bits a b + 52"
    have "b * 2 ^ 52 \<le> a * 2 ^ ?k" using scale_bits_ge [OF 2(1), of b] by (simp add: power_add)
    from significand_error [OF assms _ this, of "1 / 2 ^ ?k"] 2 show ?thesis by (simp add: f64_ratio_def Let_def)
  next
    case 3
    let ?e = "floorlog 2 (a div b) - 1"
    have "0 < a div b" using 3 assms by (simp add: div_greater_zero_iff)
    then have "2 ^ ?e \<le> a div b" using floorlog_bounds [of "a div b" 2] by simp
    then have "b * 2 ^ ?e \<le> a" using assms by (simp add: less_eq_div_iff_mult_less_eq mult.commute)
    then have "b * 2 ^ ?e * 2 ^ (52 - ?e) \<le> a * 2 ^ (52 - ?e)" by simp
    moreover have "b * 2 ^ ?e * 2 ^ (52 - ?e) = b * 2 ^ 52" using 3(3) by (metis le_add_diff_inverse mult.assoc power_add)
    ultimately have "b * 2 ^ 52 \<le> a * 2 ^ (52 - ?e)" by (simp only:)
    from significand_error [OF assms _ this, of "1 / 2 ^ (52 - ?e)"] 3 show ?thesis by (simp add: f64_ratio_def Let_def)
  next
    case 4
    let ?e = "floorlog 2 (a div b) - 1"
    have "0 < a div b" using 4 assms by (simp add: div_greater_zero_iff)
    then have "2 ^ ?e \<le> a div b" using floorlog_bounds [of "a div b" 2] by simp
    then have "b * 2 ^ ?e \<le> a" using assms by (simp add: less_eq_div_iff_mult_less_eq mult.commute)
    moreover have "b * 2 ^ ?e = b * 2 ^ (?e - 52) * 2 ^ 52" using 4(3)
      by (metis le_add_diff_inverse2 less_imp_le mult.assoc power_add)
    ultimately have "b * 2 ^ (?e - 52) * 2 ^ 52 \<le> a" by (simp only:)
    from significand_error [OF _ _ this, of "2 ^ (?e - 52)"] 4 assms show ?thesis
      by (simp add: f64_ratio_def Let_def)
  qed
qed

lemma f64_nearest_nonneg: "0 \<le> f64_nearest x"
  by (simp add: f64_nearest_def f64_ratio_def Let_def split_beta)

lemma f64_nearest_error: "0 \<le> x \<Longrightarrow> \<bar>f64_nearest x - x\<bar> \<le> x / 2 ^ 53"
proof -
  assume x: "0 \<le> x"
  obtain p q where pq: "quotient_of x = (p, q)" by (cases "quotient_of x")
  then have q: "0 < q" and val: "x = of_int p / of_int q" by (simp_all add: quotient_of_denom_pos quotient_of_div)
  with x have "0 \<le> p" by (simp add: zero_le_divide_iff)
  with q val have x': "of_nat (nat p) / of_nat (nat q) = x" by (simp add: of_nat_nat)
  have "f64_nearest x = f64_ratio (nat p) (nat q)" by (simp add: f64_nearest_def pq)
  with f64_ratio_error [of "nat q" "nat p"] q show ?thesis unfolding x' by simp
qed

lemma f64_nearest_nat: "n < 2 ^ 53 \<Longrightarrow> f64_nearest (of_nat n) = of_nat n"
proof -
  assume n: "n < 2 ^ 53"
  have "quotient_of (rat_of_nat n) = (int n, 1)" using quotient_of_int [of "int n"] by (simp add: of_int_def)
  moreover have "round_half_even m 1 = m" for m by (simp add: round_half_even_def)
  moreover have "floorlog 2 n \<le> 53" using n by (simp add: floorlog_le_iff)
  ultimately show ?thesis by (auto simp: f64_nearest_def f64_ratio_def Let_def)
qed

end
