(* ===== verification/Sliding_Window.thy ===== *)
theory Sliding_Window
  imports Float64 "HOL-Library.Word"
begin

text \<open>
  The bounded sample window of a circuit breaker:
  \<open>crates/common/xai-circuit-breaker/src/window.rs\<close>. An \<open>Instant\<close> is a number of nanoseconds, a
  \<open>usize\<close> a 64-bit word whose arithmetic wraps, and the \<open>f64\<close> quotient is the exact ratio rounded
  to the nearest binary64 number, ties to even.
\<close>

section \<open>Time and floating point\<close>

type_synonym instant = int
type_synonym usize = "64 word"
type_synonym u64 = "64 word"

text \<open>\<open>Instant::checked_sub\<close> on Linux: the seconds are an \<open>i64\<close>.\<close>

definition instant_min :: instant where "instant_min = - (2 ^ 63) * 10 ^ 9"

definition checked_sub :: "instant \<Rightarrow> nat \<Rightarrow> instant option" where
  "checked_sub t d = (if t - int d < instant_min then None else Some (t - int d))"

text \<open>The values a threshold can have, and the comparison \<open>x >= threshold\<close> for a finite \<open>x\<close>.\<close>

datatype f64 = Finite rat | Infinity | NegInfinity | NaN

fun f64_ge :: "rat \<Rightarrow> f64 \<Rightarrow> bool" where
  "f64_ge x (Finite t) \<longleftrightarrow> t \<le> x"
| "f64_ge x Infinity \<longleftrightarrow> False"
| "f64_ge x NegInfinity \<longleftrightarrow> True"
| "f64_ge x NaN \<longleftrightarrow> False"

text \<open>
  \<open>f as f64 / n as f64\<close> for \<open>0 <= f <= n\<close> below \<open>2^53\<close>: scale the ratio into \<open>[1, 2)\<close>, round the
  53-bit significand to even, scale back. Such ratios are far from the subnormal range.
\<close>

definition f64_div :: "nat \<Rightarrow> nat \<Rightarrow> rat" where
  "f64_div f n =
     (if f = 0 then 0
      else let k = scale_bits f n + 52
           in of_nat (round_half_even (f * 2 ^ k) n) / 2 ^ k)"

lemma f64_div_zero [simp]: "f64_div 0 n = 0"
  by (simp add: f64_div_def)

lemma f64_div_self: "0 < n \<Longrightarrow> f64_div n n = 1"
  by (simp add: f64_div_def scale_bits.simps round_half_even_def)

lemma f64_div_range: "f \<le> n \<Longrightarrow> 0 \<le> f64_div f n \<and> f64_div f n \<le> 1"
proof (cases "f = 0")
  case False
  assume le: "f \<le> n"
  let ?k = "scale_bits f n + 52"
  have "round_half_even (f * 2 ^ ?k) n \<le> 2 ^ ?k"
    by (rule round_half_even_le) (use le False in \<open>auto simp: mult.commute\<close>)
  then have "(of_nat (round_half_even (f * 2 ^ ?k) n) :: rat) \<le> 2 ^ ?k"
    by (metis of_nat_le_iff of_nat_numeral of_nat_power)
  with False show ?thesis by (simp add: f64_div_def Let_def)
qed simp

section \<open>The window\<close>

definition MAX_WINDOW_ENTRIES :: nat where "MAX_WINDOW_ENTRIES = 10000"

record SlidingWindow =
  entries :: "(instant \<times> bool) list"
  failures :: usize

definition window_new :: SlidingWindow where
  "window_new = \<lparr>entries = [], failures = 0\<rparr>"

definition window_pop_front :: "SlidingWindow \<Rightarrow> SlidingWindow" where
  "window_pop_front w =
     (case entries w of
        [] \<Rightarrow> w
      | (_, was_failure) # rest \<Rightarrow>
          w\<lparr>entries := rest, failures := (if was_failure then failures w - 1 else failures w)\<rparr>)"

definition window_push :: "bool \<Rightarrow> instant \<Rightarrow> SlidingWindow \<Rightarrow> SlidingWindow" where
  "window_push is_failure at_time w =
     (let w = (if length (entries w) \<ge> MAX_WINDOW_ENTRIES then window_pop_front w else w)
      in w\<lparr>entries := entries w @ [(at_time, is_failure)],
           failures := (if is_failure then failures w + 1 else failures w)\<rparr>)"

function evict_loop :: "instant \<Rightarrow> SlidingWindow \<Rightarrow> SlidingWindow" where
  "evict_loop cutoff w =
     (case entries w of
        [] \<Rightarrow> w
      | (ts, _) # _ \<Rightarrow> if ts < cutoff then evict_loop cutoff (window_pop_front w) else w)"
  by pat_completeness auto
termination
  by (relation "measure (\<lambda>(c, w). length (entries w))") (auto simp: window_pop_front_def)

declare evict_loop.simps [simp del]

definition window_evict :: "nat \<Rightarrow> instant \<Rightarrow> SlidingWindow \<Rightarrow> SlidingWindow" where
  "window_evict window now w =
     (case checked_sub now window of None \<Rightarrow> w | Some cutoff \<Rightarrow> evict_loop cutoff w)"

definition window_error_rate :: "SlidingWindow \<Rightarrow> rat" where
  "window_error_rate w =
     (if entries w = [] then 0 else f64_div (unat (failures w)) (length (entries w)))"

definition sample_count :: "SlidingWindow \<Rightarrow> nat" where
  "sample_count w = length (entries w)"

definition window_clear :: "SlidingWindow \<Rightarrow> SlidingWindow" where
  "window_clear w = w\<lparr>entries := [], failures := 0\<rparr>"

section \<open>The counter is the count\<close>

definition failing :: "(instant \<times> bool) list \<Rightarrow> nat" where
  "failing es = length (filter snd es)"

definition window_inv :: "SlidingWindow \<Rightarrow> bool" where
  "window_inv w \<longleftrightarrow> length (entries w) \<le> MAX_WINDOW_ENTRIES \<and> unat (failures w) = failing (entries w)"

lemma failing_simps [simp]:
  "failing [] = 0" "failing (e # es) = (if snd e then Suc (failing es) else failing es)"
  "failing (es @ fs) = failing es + failing fs"
  by (simp_all add: failing_def)

lemma failing_le: "failing es \<le> length es"
  by (simp add: failing_def)

lemma unat_pred: "0 < unat (w :: usize) \<Longrightarrow> unat (w - 1) = unat w - 1"
  by (metis unat_minus_one unat_eq_zero less_numeral_extra(3))

lemma unat_succ: "unat (w :: usize) < 10 ^ 6 \<Longrightarrow> unat (w + 1) = unat w + 1"
  by (subst unat_plus_if') (simp add: word_less_nat_alt)

lemma pop_front_inv:
  assumes "window_inv w"
  shows "window_inv (window_pop_front w)" and "entries (window_pop_front w) = tl (entries w)"
  using assms by (auto simp: window_inv_def window_pop_front_def unat_pred split: list.split)

lemma push_inv:
  assumes "window_inv w"
  shows "window_inv (window_push is_failure at_time w)"
    and "entries (window_push is_failure at_time w) =
      (if length (entries w) \<ge> MAX_WINDOW_ENTRIES then tl (entries w) else entries w) @ [(at_time, is_failure)]"
proof -
  define w' where "w' = (if length (entries w) \<ge> MAX_WINDOW_ENTRIES then window_pop_front w else w)"
  have inv: "window_inv w'" and len: "length (entries w') < MAX_WINDOW_ENTRIES"
    using assms pop_front_inv [OF assms] by (auto simp: w'_def window_inv_def MAX_WINDOW_ENTRIES_def)
  then have "unat (failures w') < 10 ^ 6"
    using failing_le [of "entries w'"] by (simp add: window_inv_def MAX_WINDOW_ENTRIES_def)
  then show "window_inv (window_push is_failure at_time w)"
    using inv len unfolding window_push_def w'_def [symmetric] Let_def
    by (auto simp: window_inv_def unat_succ)
  show "entries (window_push is_failure at_time w) =
      (if length (entries w) \<ge> MAX_WINDOW_ENTRIES then tl (entries w) else entries w) @ [(at_time, is_failure)]"
    using pop_front_inv [OF assms] by (simp add: window_push_def Let_def)
qed

lemma evict_loop_inv:
  assumes "window_inv w"
  shows "window_inv (evict_loop c w) \<and> entries (evict_loop c w) = dropWhile (\<lambda>(ts, _). ts < c) (entries w)"
  using assms
proof (induction "length (entries w)" arbitrary: w)
  case 0
  then show ?case by (subst (1 2) evict_loop.simps) simp
next
  case (Suc n)
  obtain ts b rest where e: "entries w = (ts, b) # rest" using Suc.hyps(2) by (cases "entries w") auto
  have "window_inv (window_pop_front w)" "entries (window_pop_front w) = rest"
    using pop_front_inv [OF Suc.prems] e by simp_all
  with Suc.hyps(1) [of "window_pop_front w"] Suc.hyps(2) Suc.prems e show ?case
    by (subst (1 2) evict_loop.simps) simp
qed

lemma evict_inv:
  assumes "window_inv w"
  shows "window_inv (window_evict d now w)"
    and "entries (window_evict d now w) =
      (case checked_sub now d of None \<Rightarrow> entries w
       | Some c \<Rightarrow> dropWhile (\<lambda>(ts, _). ts < c) (entries w))"
  using assms evict_loop_inv by (auto simp: window_evict_def split: option.split)

lemma entries_clear [simp]: "entries (window_clear w) = []"
  by (simp add: window_clear_def)

lemma clear_inv: "window_inv (window_clear w)" "window_inv window_new"
  by (simp_all add: window_inv_def window_clear_def window_new_def)

lemma error_rate_exact:
  assumes "window_inv w"
  shows "window_error_rate w = (if entries w = [] then 0 else f64_div (failing (entries w)) (length (entries w)))"
  using assms by (simp add: window_error_rate_def window_inv_def)

lemma error_rate_range: "window_inv w \<Longrightarrow> 0 \<le> window_error_rate w \<and> window_error_rate w \<le> 1"
  by (simp add: error_rate_exact f64_div_range failing_le)

section \<open>The contract of a sample window\<close>

text \<open>
  What a breaker relies on: an abstract list of samples, oldest first, that the operations act on,
  with the oldest dropped at capacity and the expired ones dropped by an eviction, and a rate that
  is the quotient over exactly those samples.
\<close>

definition keep_recent :: "'a list \<Rightarrow> 'a list" where
  "keep_recent es = (if length es \<ge> MAX_WINDOW_ENTRIES then tl es else es)"

definition drop_expired :: "nat \<Rightarrow> instant \<Rightarrow> (instant \<times> bool) list \<Rightarrow> (instant \<times> bool) list" where
  "drop_expired d now es =
     (case checked_sub now d of None \<Rightarrow> es | Some c \<Rightarrow> dropWhile (\<lambda>(ts, _). ts < c) es)"

locale sample_window =
  fixes inv :: "'w \<Rightarrow> bool" and samples :: "'w \<Rightarrow> (instant \<times> bool) list"
    and push :: "bool \<Rightarrow> instant \<Rightarrow> 'w \<Rightarrow> 'w" and evict :: "nat \<Rightarrow> instant \<Rightarrow> 'w \<Rightarrow> 'w"
    and clear :: "'w \<Rightarrow> 'w" and count :: "'w \<Rightarrow> nat" and rate :: "'w \<Rightarrow> rat"
  assumes inv_push: "inv w \<Longrightarrow> inv (push b t w)"
    and inv_evict: "inv w \<Longrightarrow> inv (evict d now w)"
    and inv_clear: "inv (clear w)"
    and samples_push: "inv w \<Longrightarrow> samples (push b t w) = keep_recent (samples w) @ [(t, b)]"
    and samples_evict: "inv w \<Longrightarrow> samples (evict d now w) = drop_expired d now (samples w)"
    and samples_clear: "samples (clear w) = []"
    and count_samples: "inv w \<Longrightarrow> count w = length (samples w)"
    and rate_samples: "inv w \<Longrightarrow> samples w \<noteq> [] \<Longrightarrow> rate w = f64_div (failing (samples w)) (length (samples w))"
begin

definition recorded :: "nat \<Rightarrow> bool \<Rightarrow> instant \<Rightarrow> 'w \<Rightarrow> 'w" where
  "recorded d b now w = evict d now (push b now w)"

lemma recorded_inv: "inv w \<Longrightarrow> inv (recorded d b now w)"
  by (simp add: recorded_def inv_push inv_evict)

lemma recorded_samples:
  "inv w \<Longrightarrow> samples (recorded d b now w) = drop_expired d now (keep_recent (samples w) @ [(now, b)])"
  by (simp add: recorded_def inv_push samples_evict samples_push)

lemma recorded_keeps_new:
  assumes "inv w"
  shows "samples (recorded d b now w) \<noteq> [] \<and> last (samples (recorded d b now w)) = (now, b)"
proof -
  have "dropWhile (\<lambda>(ts, _). ts < c) (es @ [(now, b)]) \<noteq> [] \<and>
      last (dropWhile (\<lambda>(ts, _). ts < c) (es @ [(now, b)])) = (now, b)" if "c \<le> now" for c es
    using that by (induction es) auto
  then show ?thesis
    using assms by (auto simp: recorded_samples drop_expired_def checked_sub_def)
qed

lemma recorded_trips:
  "inv w \<Longrightarrow> n \<le> count (recorded d b now w) \<and> f64_ge (rate (recorded d b now w)) thr \<longleftrightarrow>
     (let es = drop_expired d now (keep_recent (samples w) @ [(now, b)])
      in n \<le> length es \<and> f64_ge (f64_div (failing es) (length es)) thr)"
  using recorded_keeps_new [of w d b now] recorded_samples [of w d b now]
  by (simp add: recorded_inv count_samples rate_samples Let_def)

end

interpretation window: sample_window window_inv entries window_push window_evict window_clear
  sample_count window_error_rate
  by unfold_locales
    (auto simp: push_inv evict_inv clear_inv keep_recent_def drop_expired_def sample_count_def
      error_rate_exact)

section \<open>No run of operations breaks the counter\<close>

datatype WindowOp = Push bool instant | Evict nat instant | Clear

fun window_op :: "SlidingWindow \<Rightarrow> WindowOp \<Rightarrow> SlidingWindow" where
  "window_op w (Push b t) = window_push b t w"
| "window_op w (Evict d now) = window_evict d now w"
| "window_op w Clear = window_clear w"

lemma window_op_inv: "window_inv w \<Longrightarrow> window_inv (window_op w oper)"
  by (cases oper) (simp_all add: push_inv evict_inv clear_inv)

text \<open>
  After any sequence of pushes, evictions and clears, the window holds at most its cap of
  samples, the incremental failure counter is exactly the number of failing samples it holds (it
  never wraps), and the error rate is the rounded quotient of the two, a number between 0 and 1.
\<close>

theorem window_counter_exact:
  "let w = foldl window_op window_new ops in
     length (entries w) \<le> MAX_WINDOW_ENTRIES \<and>
     unat (failures w) = length (filter snd (entries w)) \<and>
     window_error_rate w =
       (if entries w = [] then 0 else f64_div (length (filter snd (entries w))) (length (entries w))) \<and>
     0 \<le> window_error_rate w \<and> window_error_rate w \<le> 1"
proof -
  have "window_inv (foldl window_op w ops)" if "window_inv w" for w
    using that by (induction ops arbitrary: w) (simp_all add: window_op_inv)
  then have "window_inv (foldl window_op window_new ops)" using clear_inv(2) by blast
  then show ?thesis
    using error_rate_exact error_rate_range by (simp add: window_inv_def failing_def Let_def)
qed

end
