(* ===== verification/Circuit_Breaker.thy ===== *)
theory Circuit_Breaker
  imports Sliding_Window Rust_Prelude
begin

text \<open>
  The circuit breaker: \<open>state.rs\<close>, \<open>config.rs\<close>, \<open>breaker.rs\<close> and \<open>registry.rs\<close> of
  \<open>crates/common/xai-circuit-breaker/src\<close>, run by one thread at a time. Atomics are fields read and
  written in the order of the code, counters are 64-bit words, durations natural numbers of
  nanoseconds. The clock is a sequence of readings; every \<open>clock.now()\<close> takes the next one. The
  telemetry calls are kept in the order they are made. Interleavings are in another theory.
\<close>

section \<open>States, outcomes and configuration\<close>

datatype BreakerState = Closed | Open | HalfOpen

fun state_code :: "BreakerState \<Rightarrow> 8 word" where
  "state_code Closed = 0"
| "state_code Open = 1"
| "state_code HalfOpen = 2"

text \<open>An invalid code trips a debug assertion; release builds answer \<open>Closed\<close>.\<close>

definition from_u8 :: "8 word \<Rightarrow> BreakerState" where
  "from_u8 v = (if v = 0 then Closed else if v = 1 then Open else if v = 2 then HalfOpen else Closed)"

datatype Outcome = Success | Failure

text \<open>\<open>Result<(), BreakerOpen>\<close>: the error carries \<open>retry_after\<close>.\<close>

datatype CheckResult = Ok | BreakerOpen nat

record BreakerConfig =
  window_duration :: nat
  min_samples :: nat
  error_rate_threshold :: f64
  open_duration :: nat
  half_open_max_probes :: usize
  failure_codes :: "nat list"
  enabled :: bool

definition secs :: "nat \<Rightarrow> nat" where "secs n = n * 10 ^ 9"
definition millis :: "nat \<Rightarrow> nat" where "millis n = n * 10 ^ 6"

definition default_failure_codes :: "nat list" where
  "default_failure_codes = [429, 500, 502, 503, 504]"

definition server_config :: BreakerConfig where
  "server_config =
     \<lparr>window_duration = secs 60, min_samples = 10, error_rate_threshold = Finite (1 / 2),
      open_duration = secs 10, half_open_max_probes = 1, failure_codes = default_failure_codes,
      enabled = True\<rparr>"

definition client_config :: BreakerConfig where
  "client_config =
     \<lparr>window_duration = secs 60, min_samples = 5, error_rate_threshold = Finite (1 / 2),
      open_duration = secs 60, half_open_max_probes = 1, failure_codes = [401], enabled = True\<rparr>"

definition parse_failure_codes :: "string \<Rightarrow> nat list" where
  "parse_failure_codes s = List.map_filter (\<lambda>c. parse_uint u16_max (trim c)) (split_on (\<lambda>c. c = CHR '','') s)"

definition lookup_or :: "(string \<Rightarrow> 'a option) \<Rightarrow> (string \<Rightarrow> string option) \<Rightarrow> string \<Rightarrow> 'a \<Rightarrow> 'a" where
  "lookup_or parse lookup key dflt =
     (case lookup key of
        Some v \<Rightarrow> (case parse v of Some parsed \<Rightarrow> parsed | None \<Rightarrow> dflt)
      | None \<Rightarrow> dflt)"

text \<open>\<open>parse_f64\<close> is \<open>str::parse::<f64>\<close>, which this development does not spell out.\<close>

definition from_lookup_with_prefix ::
  "(string \<Rightarrow> f64 option) \<Rightarrow> string \<Rightarrow> (string \<Rightarrow> string option) \<Rightarrow> BreakerConfig" where
  "from_lookup_with_prefix parse_f64 env_prefix lookup =
     (let codes = (case lookup (env_prefix @ ''FAILURE_CODES'') of
            Some raw \<Rightarrow> (let codes = parse_failure_codes raw in
                         if codes = [] then default_failure_codes else codes)
          | None \<Rightarrow> default_failure_codes)
      in \<lparr>window_duration = secs (lookup_or (parse_uint u64_max) lookup (env_prefix @ ''WINDOW_SECS'') 60),
          min_samples = lookup_or (parse_uint usize_max) lookup (env_prefix @ ''MIN_SAMPLES'') 10,
          error_rate_threshold = lookup_or parse_f64 lookup (env_prefix @ ''ERROR_RATE_THRESHOLD'') (Finite (1 / 2)),
          open_duration = secs (lookup_or (parse_uint u64_max) lookup (env_prefix @ ''OPEN_DURATION_SECS'') 10),
          half_open_max_probes =
            max (of_nat (lookup_or (parse_uint usize_max) lookup (env_prefix @ ''HALF_OPEN_MAX_PROBES'') 1)) 1,
          failure_codes = codes,
          enabled = lookup_or parse_bool lookup (env_prefix @ ''ENABLED'') True\<rparr>)"

definition is_failure_status :: "BreakerConfig \<Rightarrow> nat \<Rightarrow> bool" where
  "is_failure_status cfg status \<longleftrightarrow> status \<in> set (failure_codes cfg)"

section \<open>The breaker\<close>

datatype ObserverEvent =
  on_state_change BreakerState BreakerState string
| on_probe_admission bool
| on_outcome Outcome BreakerState

record Breaker =
  config :: BreakerConfig
  state :: BreakerState
  baseline :: instant
  opened_at_millis :: u64
  half_open_probes :: usize
  probe_claimed_at_millis :: u64
  is_open_fast :: bool
  window :: SlidingWindow
  ticks :: nat                    \<comment> \<open>clock readings taken so far\<close>
  observed :: "ObserverEvent list"

type_synonym clock = "nat \<Rightarrow> instant"

definition read_clock :: "clock \<Rightarrow> Breaker \<Rightarrow> instant \<times> Breaker" where
  "read_clock clock b = (clock (ticks b), b\<lparr>ticks := ticks b + 1\<rparr>)"

definition observe :: "ObserverEvent \<Rightarrow> Breaker \<Rightarrow> Breaker" where
  "observe e b = b\<lparr>observed := observed b @ [e]\<rparr>"

definition with_clock :: "BreakerConfig \<Rightarrow> clock \<Rightarrow> Breaker" where
  "with_clock cfg clock =
     \<lparr>config = cfg\<lparr>half_open_max_probes := max (half_open_max_probes cfg) 1\<rparr>,
      state = Closed, baseline = clock 0, opened_at_millis = 0, half_open_probes = 0,
      probe_claimed_at_millis = 0, is_open_fast = False, window = window_new,
      ticks = 1, observed = []\<rparr>"

text \<open>\<open>saturating_duration_since(..).as_millis() as u64\<close>.\<close>

definition elapsed_millis :: "clock \<Rightarrow> Breaker \<Rightarrow> u64 \<times> Breaker" where
  "elapsed_millis clock b =
     (let (now, b) = read_clock clock b
      in (of_int (max 0 (now - baseline b) div 10 ^ 6), b))"

definition sat_sub :: "u64 \<Rightarrow> u64 \<Rightarrow> u64" where
  "sat_sub a b = (if a < b then 0 else a - b)"

definition try_half_open_probe :: "clock \<Rightarrow> Breaker \<Rightarrow> CheckResult \<times> Breaker" where
  "try_half_open_probe clock b =
     (let (now, b) = elapsed_millis clock b;
          prev = half_open_probes b;
          b = b\<lparr>half_open_probes := prev + 1\<rparr>
      in if prev < half_open_max_probes (config b)
         then (Ok, observe (on_probe_admission True) (b\<lparr>probe_claimed_at_millis := now\<rparr>))
         else
           let b = b\<lparr>half_open_probes := half_open_probes b - 1\<rparr>;
               lease_millis = of_nat (open_duration (config b) div 10 ^ 6);
               claimed = probe_claimed_at_millis b
           in if sat_sub now claimed \<ge> lease_millis \<and> probe_claimed_at_millis b = claimed
              then (Ok, observe (on_probe_admission True) (b\<lparr>probe_claimed_at_millis := now\<rparr>))
              else (BreakerOpen (min (millis 50) (open_duration (config b))),
                    observe (on_probe_admission False) b))"

text \<open>
  \<open>check_open\<close>, with the branch taken when the compare-and-swap loses, which one thread alone
  cannot reach.
\<close>

definition check_open :: "clock \<Rightarrow> Breaker \<Rightarrow> CheckResult \<times> Breaker" where
  "check_open clock b =
     (let opened = opened_at_millis b;
          (now, b) = elapsed_millis clock b;
          elapsed = millis (unat (sat_sub now opened))
      in if elapsed \<ge> open_duration (config b)
         then (if state b = Open
               then try_half_open_probe clock
                      (observe (on_state_change Open HalfOpen ''open_elapsed'')
                        (b\<lparr>state := HalfOpen, is_open_fast := False\<rparr>))
               else case state b of
                      Closed \<Rightarrow> (Ok, b)
                    | HalfOpen \<Rightarrow> try_half_open_probe clock b
                    | Open \<Rightarrow>
                        (let opened = opened_at_millis b;
                             (now, b) = elapsed_millis clock b;
                             elapsed = millis (unat (sat_sub now opened))
                         in (BreakerOpen (open_duration (config b) - elapsed), b)))
         else (BreakerOpen (open_duration (config b) - elapsed), b))"

definition check :: "clock \<Rightarrow> Breaker \<Rightarrow> CheckResult \<times> Breaker" where
  "check clock b =
     (if \<not> enabled (config b) then (Ok, b)
      else case state b of
             Closed \<Rightarrow> (Ok, b)
           | Open \<Rightarrow> check_open clock b
           | HalfOpen \<Rightarrow> try_half_open_probe clock b)"

definition trip :: "clock \<Rightarrow> BreakerState \<Rightarrow> string \<Rightarrow> Breaker \<Rightarrow> Breaker" where
  "trip clock prev reason b =
     (let b = b\<lparr>state := Open\<rparr>;
          (now, b) = elapsed_millis clock b;
          b = b\<lparr>opened_at_millis := now, half_open_probes := 0, is_open_fast := True\<rparr>
      in if prev \<noteq> Open then observe (on_state_change prev Open reason) b else b)"

definition close :: "BreakerState \<Rightarrow> string \<Rightarrow> Breaker \<Rightarrow> Breaker" where
  "close prev reason b =
     (let b = b\<lparr>state := Closed, window := window_clear (window b), half_open_probes := 0,
                is_open_fast := False\<rparr>
      in if prev \<noteq> Closed then observe (on_state_change prev Closed reason) b else b)"

definition add_sample :: "bool \<Rightarrow> instant \<Rightarrow> Breaker \<Rightarrow> Breaker" where
  "add_sample is_failure now b =
     b\<lparr>window := window_evict (window_duration (config b)) now (window_push is_failure now (window b))\<rparr>"

definition should_trip :: "Breaker \<Rightarrow> bool" where
  "should_trip b \<longleftrightarrow>
     min_samples (config b) \<le> sample_count (window b) \<and>
     f64_ge (window_error_rate (window b)) (error_rate_threshold (config b))"

definition breaker_record :: "clock \<Rightarrow> Outcome \<Rightarrow> Breaker \<Rightarrow> Breaker" where
  "breaker_record clock outcome b =
     (if \<not> enabled (config b) then b
      else
        let is_failure = (outcome = Failure);
            (now, b) = read_clock clock b;
            prev_state = state b;
            b = (case prev_state of
                   Closed \<Rightarrow>
                     (let b = add_sample is_failure now b
                      in if should_trip b then trip clock prev_state ''trip'' b else b)
                 | HalfOpen \<Rightarrow>
                     if is_failure then trip clock prev_state ''probe_failure'' b
                     else close prev_state ''probe_success'' b
                 | Open \<Rightarrow> add_sample is_failure now b)
        in observe (on_outcome outcome (state b)) b)"

definition is_open :: "Breaker \<Rightarrow> bool" where
  "is_open b = is_open_fast b"

definition breaker_error_rate :: "clock \<Rightarrow> Breaker \<Rightarrow> rat \<times> Breaker" where
  "breaker_error_rate clock b =
     (let (now, b) = read_clock clock b;
          b = b\<lparr>window := window_evict (window_duration (config b)) now (window b)\<rparr>
      in (window_error_rate (window b), b))"

definition force_half_open :: "Breaker \<Rightarrow> Breaker" where
  "force_half_open b =
     (let prev = state b;
          b = b\<lparr>state := HalfOpen, is_open_fast := False, half_open_probes := 0\<rparr>
      in if prev \<noteq> HalfOpen then observe (on_state_change prev HalfOpen ''force_half_open'') b else b)"

section \<open>The registry\<close>

record Registry =
  reg_config :: BreakerConfig
  breakers :: "string \<rightharpoonup> Breaker"

definition registry_new :: "BreakerConfig \<Rightarrow> Registry" where
  "registry_new cfg = \<lparr>reg_config = cfg, breakers = Map.empty\<rparr>"

definition registry_get :: "clock \<Rightarrow> string \<Rightarrow> Registry \<Rightarrow> Breaker option \<times> Registry" where
  "registry_get clock key reg =
     (if \<not> enabled (reg_config reg) then (None, reg)
      else case breakers reg key of
             Some cb \<Rightarrow> (Some cb, reg)
           | None \<Rightarrow>
               (let cb = with_clock (reg_config reg) clock
                in (Some cb, reg\<lparr>breakers := (breakers reg)(key \<mapsto> cb)\<rparr>)))"

end
