(* ===== verification/Breaker_Laws.thy ===== *)
theory Breaker_Laws
  imports Circuit_Breaker
begin

text \<open>
  What the circuit breaker guarantees when its operations run one after another: an invariant of
  every reachable breaker, the exact condition on which it trips, how long it sheds traffic, how
  many probes it admits, and that it never stays shut.
\<close>

section \<open>The invariant\<close>

definition breaker_inv :: "Breaker \<Rightarrow> bool" where
  "breaker_inv b \<longleftrightarrow>
     window_inv (window b) \<and>
     (is_open_fast b \<longleftrightarrow> state b = Open) \<and>
     (state b \<noteq> HalfOpen \<longrightarrow> half_open_probes b = 0) \<and>
     half_open_probes b \<le> half_open_max_probes (config b) \<and>
     1 \<le> half_open_max_probes (config b)"

inductive breaker_step :: "clock \<Rightarrow> Breaker \<Rightarrow> Breaker \<Rightarrow> bool" for clock where
  step_check: "breaker_step clock b (snd (check clock b))"
| step_record: "breaker_step clock b (breaker_record clock outcome b)"
| step_error_rate: "breaker_step clock b (snd (breaker_error_rate clock b))"
| step_force: "breaker_step clock b (force_half_open b)"

inductive_cases breaker_stepE: "breaker_step clock b b'"

inductive breaker_reachable :: "clock \<Rightarrow> BreakerConfig \<Rightarrow> Breaker \<Rightarrow> bool" for clock cfg where
  reach_new: "breaker_reachable clock cfg (with_clock cfg clock)"
| reach_step: "breaker_reachable clock cfg b \<Longrightarrow> breaker_step clock b b' \<Longrightarrow> breaker_reachable clock cfg b'"

lemmas breaker_ops = read_clock_def elapsed_millis_def observe_def Let_def split_def

lemma config_probe [simp]: "config (snd (try_half_open_probe clock b)) = config b"
  by (simp add: try_half_open_probe_def breaker_ops)

lemma config_check [simp]: "config (snd (check clock b)) = config b"
  by (simp add: check_def check_open_def breaker_ops split: BreakerState.split)

lemma config_record [simp]: "config (breaker_record clock outcome b) = config b"
  by (simp add: breaker_record_def trip_def close_def add_sample_def breaker_ops split: BreakerState.split)

lemma unat_inc: "(p :: usize) < m \<Longrightarrow> unat (p + 1) = unat p + 1"
proof -
  assume "p < m"
  moreover have "unat m < 2 ^ 64" using unsigned_less [of m] by simp
  ultimately show ?thesis by (subst unat_plus_if') (simp add: word_less_nat_alt)
qed

lemma inc_le: "(p :: usize) < m \<Longrightarrow> p + 1 \<le> m"
  using unat_inc [of p m] by (simp add: word_less_nat_alt word_le_nat_alt)

lemma probe_inv:
  assumes "breaker_inv b" and "state b = HalfOpen"
  shows "breaker_inv (snd (try_half_open_probe clock b))"
  using assms inc_le [of "half_open_probes b" "half_open_max_probes (config b)"]
  by (auto simp: breaker_inv_def try_half_open_probe_def breaker_ops)

lemma check_inv:
  assumes "breaker_inv b" shows "breaker_inv (snd (check clock b))"
proof (cases "state b")
  case Open
  have "breaker_inv (observe (on_state_change Open HalfOpen ''open_elapsed'')
      ((snd (elapsed_millis clock b))\<lparr>state := HalfOpen, is_open_fast := False\<rparr>))"
    using assms Open by (auto simp: breaker_inv_def breaker_ops)
  from probe_inv [OF this, of clock] assms Open show ?thesis
    by (auto simp: check_def check_open_def breaker_inv_def breaker_ops)
qed (use assms probe_inv in \<open>auto simp: check_def\<close>)

lemma record_inv:
  assumes "breaker_inv b" shows "breaker_inv (breaker_record clock outcome b)"
  using assms
  by (cases "state b")
    (auto simp: breaker_record_def trip_def close_def add_sample_def breaker_inv_def breaker_ops
      push_inv evict_inv clear_inv)

lemma step_inv:
  assumes "breaker_inv b" and "breaker_step clock b b'"
  shows "breaker_inv b'"
  using assms(2)
proof (cases rule: breaker_step.cases)
  case step_error_rate
  then show ?thesis
    using assms(1) by (simp add: breaker_error_rate_def breaker_inv_def breaker_ops evict_inv)
next
  case step_force
  then show ?thesis using assms(1) by (auto simp: force_half_open_def breaker_inv_def breaker_ops)
qed (simp_all add: check_inv record_inv assms(1))

lemma step_config: "breaker_step clock b b' \<Longrightarrow> config b' = config b"
  by (erule breaker_stepE)
    (simp_all add: breaker_error_rate_def force_half_open_def breaker_ops)

lemma reachable_inv:
  assumes "breaker_reachable clock cfg b"
  shows "breaker_inv b \<and> config b = cfg\<lparr>half_open_max_probes := max (half_open_max_probes cfg) 1\<rparr>"
  using assms
proof induction
  case reach_new
  show ?case by (simp add: breaker_inv_def with_clock_def clear_inv)
next
  case (reach_step b b')
  then show ?case using step_inv [of b clock b'] step_config [of clock b b'] by simp
qed

text \<open>
  C38: In every breaker reached by checks, records, rate reads and forced half-opens that run one after another, none
  inside another: the lock-free open flag mirrors the state, probe slots are claimed only while half-open, never more
  of them than configured, at least one slot exists whatever was configured, the configuration is otherwise
  unchanged, and the sample window is consistent. Interleaved operations of several threads can break this for a while;
  they are the subject of \<open>Breaker_Races\<close>.
\<close>

theorem breaker_reachable_invariant:
  assumes "breaker_reachable clock cfg b"
  shows "(is_open b \<longleftrightarrow> state b = Open) \<and> (state b \<noteq> HalfOpen \<longrightarrow> half_open_probes b = 0)
    \<and> half_open_probes b \<le> max (half_open_max_probes cfg) 1
    \<and> config b = cfg\<lparr>half_open_max_probes := max (half_open_max_probes cfg) 1\<rparr>
    \<and> window_inv (window b)"
  using reachable_inv [OF assms] by (auto simp: breaker_inv_def is_open_def)

text \<open>A clock that advances one second at every reading.\<close>

definition second_clock :: clock where "second_clock n = int n * 10 ^ 9"

theorem breaker_reachable_invariant_witness:
  "let b = breaker_record second_clock Success (with_clock (server_config\<lparr>half_open_max_probes := 0\<rparr>) second_clock)
   in (is_open b \<longleftrightarrow> state b = Open) \<and> half_open_max_probes (config b) = 1"
proof -
  let ?cfg = "server_config\<lparr>half_open_max_probes := 0\<rparr>"
  have "breaker_reachable second_clock ?cfg (breaker_record second_clock Success (with_clock ?cfg second_clock))"
    by (rule reach_step [OF reach_new step_record])
  from breaker_reachable_invariant [OF this] show ?thesis by (auto simp: Let_def)
qed

section \<open>When the breaker trips\<close>

text \<open>
  A recorded outcome trips a closed breaker exactly when the samples still in the window, with
  the new one, are at least the configured number and their rounded failure quotient reaches the
  threshold; otherwise the breaker stays closed. The window meant is the list of samples itself,
  newest last, the oldest dropped at capacity and those older than the window duration evicted.
\<close>

theorem record_trips_exactly:
  assumes "breaker_reachable clock cfg b" and "state b = Closed" and "enabled cfg"
  shows "state (breaker_record clock outcome b) =
    (let now = clock (ticks b);
         es = drop_expired (window_duration cfg) now
                (keep_recent (entries (window b)) @ [(now, outcome = Failure)])
     in if min_samples cfg \<le> length es \<and> f64_ge (f64_div (failing es) (length es)) (error_rate_threshold cfg)
        then Open else Closed)"
proof -
  have inv: "window_inv (window b)" and cfg: "config b = cfg\<lparr>half_open_max_probes := max (half_open_max_probes cfg) 1\<rparr>"
    using reachable_inv [OF assms(1)] by (simp_all add: breaker_inv_def)
  show ?thesis
    using window.recorded_trips [OF inv, of "min_samples cfg" "window_duration cfg" "outcome = Failure"
        "clock (ticks b)" "error_rate_threshold cfg"] assms(2,3)
    by (auto simp: breaker_record_def should_trip_def add_sample_def trip_def window.recorded_def cfg breaker_ops)
qed

theorem record_trips_exactly_witness:
  "state (breaker_record second_clock Failure (with_clock (server_config\<lparr>min_samples := 1\<rparr>) second_clock)) = Open"
proof -
  let ?cfg = "server_config\<lparr>min_samples := 1\<rparr>"
  have "f64_ge (f64_div 1 1) (Finite (1 / 2))" by (simp add: f64_div_self)
  then show ?thesis
    using record_trips_exactly [OF reach_new, of ?cfg second_clock Failure]
    by (simp add: with_clock_def server_config_def secs_def second_clock_def window_new_def Let_def
        keep_recent_def MAX_WINDOW_ENTRIES_def drop_expired_def checked_sub_def instant_min_def)
qed

section \<open>Shedding and recovering\<close>

lemma unat_sat_sub: "unat (sat_sub a b) = unat a - unat b"
proof (cases "a < b")
  case False
  then have "b \<le> a" by simp
  then show ?thesis using False by (simp add: sat_sub_def unat_sub)
qed (simp add: sat_sub_def word_less_nat_alt)

text \<open>
  An open breaker sheds for its full cool-down and then lets a probe through. While less than
  the open duration has passed since it tripped, a check is refused with exactly the remaining time
  (positive, at most the whole duration) and changes nothing but the clock; from then on a check is
  admitted and the breaker is half-open with one slot claimed.
\<close>

theorem open_breaker_check:
  assumes "breaker_reachable clock cfg b" and "state b = Open" and "enabled cfg"
  defines "passed \<equiv> millis (unat (fst (elapsed_millis clock b)) - unat (opened_at_millis b))"
  shows "if passed < open_duration cfg
    then check clock b = (BreakerOpen (open_duration cfg - passed), b\<lparr>ticks := ticks b + 1\<rparr>)
         \<and> 0 < open_duration cfg - passed \<and> open_duration cfg - passed \<le> open_duration cfg
    else fst (check clock b) = Ok \<and> state (snd (check clock b)) = HalfOpen
         \<and> half_open_probes (snd (check clock b)) = 1 \<and> \<not> is_open (snd (check clock b))"
proof -
  have inv: "breaker_inv b" and cfg: "config b = cfg\<lparr>half_open_max_probes := max (half_open_max_probes cfg) 1\<rparr>"
    using reachable_inv [OF assms(1)] by simp_all
  then have p0: "half_open_probes b = 0" and m1: "0 < half_open_max_probes (config b)"
    using assms(2) by (auto simp: breaker_inv_def word_less_nat_alt word_le_nat_alt)
  have passed: "passed = millis (unat (sat_sub (fst (elapsed_millis clock b)) (opened_at_millis b)))"
    by (simp add: passed_def unat_sat_sub)
  show ?thesis
    using assms(2,3) p0 m1
    unfolding passed check_def check_open_def try_half_open_probe_def
    by (simp add: breaker_ops cfg is_open_def)
qed

lemma lease_expired:
  fixes now claimed :: u64
  assumes "dur \<le> millis d" and "unat claimed + d \<le> unat now"
  shows "of_nat (dur div 10 ^ 6) \<le> sat_sub now claimed"
proof -
  have "dur div 10 ^ 6 \<le> d" using div_le_mono [OF assms(1), of "10 ^ 6"] by (simp add: millis_def)
  moreover have "unat (of_nat (dur div 10 ^ 6) :: u64) \<le> dur div 10 ^ 6" by (simp add: unat_of_nat)
  ultimately show ?thesis
    unfolding word_le_nat_alt unat_sat_sub using assms(2) by linarith
qed

lemma probe_admitted:
  assumes "open_duration (config b) \<le> millis d"
    and "unat (probe_claimed_at_millis b) + d \<le> unat (fst (elapsed_millis clock b))"
  shows "fst (try_half_open_probe clock b) = Ok"
  using lease_expired [OF assms(1,2)]
  by (simp add: try_half_open_probe_def breaker_ops)

text \<open>
  C39: The breaker never stays shut. Whatever happened before, even if every admitted probe was
  abandoned without a recorded outcome, a check is admitted as soon as the clock shows one open
  duration past both the last trip and the last claimed probe slot.
\<close>

theorem breaker_never_stuck:
  assumes "breaker_reachable clock cfg b" and "open_duration cfg \<le> millis d"
    and "unat (opened_at_millis b) + d \<le> unat (fst (elapsed_millis clock b))"
    and "unat (probe_claimed_at_millis b) + d \<le> unat (fst (elapsed_millis clock b))"
  shows "fst (check clock b) = Ok"
proof -
  have inv: "breaker_inv b" and cfg: "config b = cfg\<lparr>half_open_max_probes := max (half_open_max_probes cfg) 1\<rparr>"
    using reachable_inv [OF assms(1)] by simp_all
  show ?thesis
  proof (cases "state b")
    case Open
    with inv have p0: "half_open_probes b = 0" and m1: "0 < half_open_max_probes (config b)"
      by (auto simp: breaker_inv_def word_less_nat_alt word_le_nat_alt)
    have "open_duration cfg \<le> millis (unat (fst (elapsed_millis clock b)) - unat (opened_at_millis b))"
      using assms(2,3) by (simp add: millis_def)
    then show ?thesis
      using Open p0 m1
      by (simp add: check_def check_open_def try_half_open_probe_def breaker_ops cfg unat_sat_sub)
  next
    case HalfOpen
    then show ?thesis using probe_admitted [of b d clock] assms(2,4) cfg by (simp add: check_def)
  qed (simp add: check_def)
qed

theorem open_breaker_check_witness:
  "let b = breaker_record second_clock Failure (with_clock (server_config\<lparr>min_samples := 1\<rparr>) second_clock)
   in check second_clock b = (BreakerOpen (secs 9), b\<lparr>ticks := ticks b + 1\<rparr>)"
proof -
  let ?cfg = "server_config\<lparr>min_samples := 1\<rparr>"
  let ?b = "breaker_record second_clock Failure (with_clock ?cfg second_clock)"
  have reach: "breaker_reachable second_clock ?cfg ?b" by (rule reach_step [OF reach_new step_record])
  have ge: "f64_ge (f64_div 1 1) (Finite (1 / 2))" by (simp add: f64_div_self)
  have b: "state ?b = Open" "opened_at_millis ?b = 2000" "ticks ?b = 3" "baseline ?b = 0"
    using ge
    by (simp_all add: breaker_record_def add_sample_def should_trip_def trip_def with_clock_def server_config_def
        second_clock_def window_new_def window_push_def window_evict_def evict_loop.simps checked_sub_def
        instant_min_def sample_count_def window_error_rate_def MAX_WINDOW_ENTRIES_def secs_def breaker_ops)
  then have e: "fst (elapsed_millis second_clock ?b) = 3000"
    by (simp add: elapsed_millis_def read_clock_def second_clock_def)
  show ?thesis
    using open_breaker_check [OF reach b(1)] b(2) e
    by (simp add: Let_def server_config_def millis_def secs_def)
qed

theorem breaker_never_stuck_witness:
  "fst (check (\<lambda>n. int n * 10 ^ 12) (force_half_open (with_clock server_config (\<lambda>n. int n * 10 ^ 12)))) = Ok"
proof -
  let ?clock = "\<lambda>n. int n * 10 ^ 12"
  let ?b = "force_half_open (with_clock server_config ?clock)"
  have "breaker_reachable ?clock server_config ?b" by (rule reach_step [OF reach_new step_force])
  moreover have "fst (elapsed_millis ?clock ?b) = 1000000" "opened_at_millis ?b = 0" "probe_claimed_at_millis ?b = 0"
    by (simp_all add: force_half_open_def with_clock_def breaker_ops)
  moreover have "open_duration server_config \<le> millis 10000" by (simp add: server_config_def secs_def millis_def)
  ultimately show ?thesis using breaker_never_stuck [of ?clock server_config ?b 10000] by simp
qed

section \<open>How many probes a half-open breaker admits\<close>

fun run_checks :: "clock \<Rightarrow> nat \<Rightarrow> Breaker \<Rightarrow> CheckResult list" where
  "run_checks clock 0 b = []"
| "run_checks clock (Suc n) b = (let (r, b') = check clock b in r # run_checks clock n b')"

text \<open>The millisecond reading that the next check, and the \<open>k\<close>-th after it, will take.\<close>

definition reading :: "clock \<Rightarrow> Breaker \<Rightarrow> nat \<Rightarrow> u64" where
  "reading clock b k = of_int (max 0 (clock (ticks b + k) - baseline b) div 10 ^ 6)"

definition within_lease :: "clock \<Rightarrow> Breaker \<Rightarrow> nat \<Rightarrow> bool" where
  "within_lease clock b n \<longleftrightarrow>
     (\<forall>k < n. \<not> of_nat (open_duration (config b) div 10 ^ 6) \<le> sat_sub (reading clock b k) (probe_claimed_at_millis b)) \<and>
     (\<forall>j < n. \<forall>k < n. j \<le> k \<longrightarrow>
        \<not> of_nat (open_duration (config b) div 10 ^ 6) \<le> sat_sub (reading clock b k) (reading clock b j))"

lemma half_open_step:
  assumes "state b = HalfOpen" and "enabled (config b)" and "within_lease clock b (Suc n)"
  defines "b' \<equiv> snd (check clock b)" and "m \<equiv> half_open_max_probes (config b)"
  shows "state b' = HalfOpen \<and> config b' = config b \<and> within_lease clock b' n \<and>
    (if half_open_probes b < m
     then fst (check clock b) = Ok \<and> half_open_probes b' = half_open_probes b + 1
     else fst (check clock b) \<noteq> Ok \<and> half_open_probes b' = half_open_probes b)"
proof -
  have r0: "fst (elapsed_millis clock b) = reading clock b 0"
    by (simp add: elapsed_millis_def read_clock_def reading_def)
  have t: "ticks b' = Suc (ticks b)" "baseline b' = baseline b" "config b' = config b"
    "probe_claimed_at_millis b' \<in> {probe_claimed_at_millis b, reading clock b 0}"
    using assms(1,2) r0 by (auto simp: b'_def check_def try_half_open_probe_def breaker_ops)
  have "reading clock b' k = reading clock b (Suc k)" for k
    by (simp add: reading_def t)
  then have lease: "within_lease clock b' n"
    using assms(3) t(3,4) unfolding within_lease_def
    by (metis Suc_le_mono Suc_mono insert_iff singletonD zero_less_Suc zero_le)
  have "\<not> of_nat (open_duration (config b) div 10 ^ 6) \<le> sat_sub (reading clock b 0) (probe_claimed_at_millis b)"
    using assms(3) by (auto simp: within_lease_def)
  then show ?thesis
    using assms(1,2) lease r0 t(3) unfolding b'_def m_def
    by (auto simp: check_def try_half_open_probe_def breaker_ops)
qed

lemma half_open_admits:
  assumes "state b = HalfOpen" and "enabled (config b)" and "within_lease clock b n"
  shows "length (filter (\<lambda>r. r = Ok) (run_checks clock n b))
    \<le> unat (half_open_max_probes (config b)) - unat (half_open_probes b)"
  using assms
proof (induction n arbitrary: b)
  case (Suc n)
  note step = half_open_step [OF Suc.prems]
  have IH: "length (filter (\<lambda>r. r = Ok) (run_checks clock n (snd (check clock b))))
    \<le> unat (half_open_max_probes (config b)) - unat (half_open_probes (snd (check clock b)))"
    using Suc.IH [of "snd (check clock b)"] step Suc.prems by auto
  show ?case
  proof (cases "half_open_probes b < half_open_max_probes (config b)")
    case True
    then have "unat (half_open_probes b + 1) = unat (half_open_probes b) + 1"
      by (rule unat_inc)
    with True IH step show ?thesis by (simp add: split_def Let_def word_less_nat_alt)
  next
    case False
    with IH step show ?thesis by (simp add: split_def Let_def)
  qed
qed simp

text \<open>
  A half-open breaker admits no more probes than it has free slots: over any number of checks
  taken within one lease of the claims (none older than the open duration), at most the configured
  number minus those already claimed are let through.
\<close>

theorem half_open_probe_limit:
  assumes "breaker_reachable clock cfg b" and "state b = HalfOpen" and "enabled cfg"
    and "within_lease clock b n"
  shows "length (filter (\<lambda>r. r = Ok) (run_checks clock n b))
    \<le> unat (max (half_open_max_probes cfg) 1) - unat (half_open_probes b)"
  using half_open_admits [OF assms(2) _ assms(4)] reachable_inv [OF assms(1)] assms(3) by simp

theorem half_open_probe_limit_witness:
  "length (filter (\<lambda>r. r = Ok) (run_checks second_clock 5 (force_half_open (with_clock server_config second_clock)))) \<le> 1"
proof -
  let ?b = "force_half_open (with_clock server_config second_clock)"
  have reach: "breaker_reachable second_clock server_config ?b" by (rule reach_step [OF reach_new step_force])
  have b: "state ?b = HalfOpen" "half_open_probes ?b = 0" "ticks ?b = 1" "baseline ?b = 0"
    "probe_claimed_at_millis ?b = 0" "open_duration (config ?b) = secs 10"
    by (simp_all add: force_half_open_def with_clock_def second_clock_def server_config_def breaker_ops)
  have r: "reading second_clock ?b k = of_nat ((1 + k) * 1000)" for k
  proof -
    have "int (Suc k) * 10 ^ 9 div 10 ^ 6 = int (Suc k) * 1000" by simp
    then show ?thesis by (simp add: reading_def b second_clock_def algebra_simps)
  qed
  have u: "unat (reading second_clock ?b k) = (1 + k) * 1000" if "k < 5" for k
  proof -
    have "unat (of_nat ((1 + k) * 1000) :: u64) = (1 + k) * 1000 mod 2 ^ 64"
      by (simp only: unat_of_nat) simp
    then show ?thesis unfolding r using that by simp
  qed
  have "within_lease second_clock ?b 5"
    using u by (auto simp: within_lease_def b word_le_nat_alt unat_sat_sub secs_def)
  moreover have "enabled server_config" "max (half_open_max_probes server_config) 1 = 1"
    by (simp_all add: server_config_def)
  ultimately show ?thesis using half_open_probe_limit [OF reach b(1), of 5] by simp
qed

end
