(* ===== verification/Shell_Access.thy ===== *)
theory Shell_Access
  imports Shell_Tree
begin

text \<open>
  The shell file gate: file rules applied to what a shell command reads and writes, through
  redirections, file-handling programs and nested inline scripts (\<open>permission/shell_access.rs\<close>). The
  gate only escalates: it rejects, asks or says nothing.
\<close>

section \<open>Shell path spellings\<close>

definition is_absolute_shell_path :: "string \<Rightarrow> bool" where
  "is_absolute_shell_path path \<longleftrightarrow>
     starts_with path ''/'' \<or> starts_with path ''~/'' \<or> get path 1 = Some CHR '':''"

definition trim_shell_quotes :: "string \<Rightarrow> string" where
  "trim_shell_quotes s =
     (let q = (\<lambda>c. c = dquote \<or> c = squote) in rev (dropWhile q (rev (dropWhile q s))))"

definition normalize_shell_path_raw :: "string \<Rightarrow> string" where
  "normalize_shell_path_raw path =
     (let p = map (\<lambda>c. if c = backslash then slash else c) (trim_shell_quotes path)
      in case strip_prefix ''/c/'' p of Some rest \<Rightarrow> ''C:/'' @ rest | None \<Rightarrow> p)"

text \<open>The loop over the segments, its vector kept with the last element first.\<close>

fun lexical_push :: "bool \<Rightarrow> string list \<Rightarrow> string \<Rightarrow> string list" where
  "lexical_push absolute out segment =
     (if segment = [] \<or> segment = ''.'' then out
      else if segment = ''..'' then
        (case out of
           s # rest \<Rightarrow> if s \<noteq> ''..'' then rest else if \<not> absolute then ''..'' # out else out
         | [] \<Rightarrow> if \<not> absolute then [''..''] else [])
      else segment # out)"

declare lexical_push.simps [simp del]

lemma lexical_push_absolute_simps:
  "is_noise seg \<Longrightarrow> lexical_push absolute out seg = out"
  "list_all (\<lambda>s. s \<noteq> ''..'') out \<Longrightarrow> lexical_push True out ''..'' = tl out"
  "\<not> is_noise seg \<Longrightarrow> seg \<noteq> ''..'' \<Longrightarrow> lexical_push absolute out seg = seg # out"
  by (auto simp: lexical_push.simps is_noise_def split: list.splits)

definition drive_len :: "string \<Rightarrow> nat" where
  "drive_len path = (if get path 1 = Some CHR '':'' then 2 else 0)"

definition lexical_normalize :: "string \<Rightarrow> string" where
  "lexical_normalize path =
     (let drive = take (drive_len path) path; rest = drop (drive_len path) path;
          absolute = starts_with rest ''/'';
          body = join ''/'' (rev (foldl (lexical_push absolute) [] (split_on (\<lambda>c. c = slash) rest)))
      in if drive \<noteq> [] then (if absolute then drive @ ''/'' @ body else drive @ body)
         else if absolute then ''/'' @ body else body)"

definition normalize_shell_path :: "string \<Rightarrow> string" where
  "normalize_shell_path path = lexical_normalize (normalize_shell_path_raw path)"

section \<open>Operands that name files\<close>

definition SHELL_READERS :: "string list" where
  "SHELL_READERS =
     [''cat'', ''tac'', ''nl'', ''head'', ''tail'', ''grep'', ''egrep'', ''fgrep'', ''rg'', ''sed'',
      ''awk'', ''less'', ''more'', ''bat'', ''strings'', ''xxd'', ''od'', ''hexdump'', ''base64'',
      ''base32'', ''cut'', ''sort'', ''uniq'', ''wc'', ''type'', ''get-content'', ''gc'', ''diff'',
      ''comm'', ''rev'', ''jq'', ''yq'', ''select-string'', ''sls'', ''ag'', ''ack'', ''zcat'',
      ''zless'', ''zmore'', ''zgrep'', ''zegrep'', ''zfgrep'', ''bzcat'', ''bzgrep'', ''xzcat'',
      ''xzgrep'', ''zstdcat'', ''lz4cat'']"

definition SHELL_WRITERS :: "string list" where
  "SHELL_WRITERS = [''tee'', ''set-content'', ''out-file'', ''add-content'', ''tee-object'', ''truncate'']"

definition shell_file_mode :: "string \<Rightarrow> ShellFileMode option" where
  "shell_file_mode program =
     (if program \<in> set SHELL_READERS then Some ShellFileMode.Read
      else if program \<in> set SHELL_WRITERS then Some Write else None)"

definition is_creation_program :: "string \<Rightarrow> bool" where
  "is_creation_program program \<longleftrightarrow> program = ''mkdir'' \<or> program = ''touch''"

definition is_safe_write_sink :: "string \<Rightarrow> bool" where
  "is_safe_write_sink path \<longleftrightarrow> path \<in> set [''/dev/null'', ''/dev/stdout'', ''/dev/stderr'']"

definition shell_sed_in_place :: "words \<Rightarrow> bool" where
  "shell_sed_in_place ws =
     list_ex (\<lambda>w. w = ''--in-place'' \<or> starts_with w ''--in-place='' \<or>
        starts_with w ''-'' \<and> \<not> starts_with w ''--'' \<and> CHR ''i'' \<in> set w) (drop 1 ws)"

definition nonempty :: "string option \<Rightarrow> string option" where
  "nonempty s = (case s of Some v \<Rightarrow> if v = [] then None else Some v | None \<Rightarrow> None)"

definition or_else :: "'a option \<Rightarrow> 'a option \<Rightarrow> 'a option" where
  "or_else a b = (case a of Some x \<Rightarrow> Some x | None \<Rightarrow> b)"

definition shell_output_flag_values :: "words \<Rightarrow> string list" where
  "shell_output_flag_values ws =
     filter_map (\<lambda>(i, token).
        or_else (strip_prefix ''--output='' token)
          (or_else (nonempty (strip_prefix ''-o'' token))
            (if token = ''--output'' \<or> token = ''-o'' then get ws (i + 1) else None)))
       (enumerate 0 ws)"

definition value_flag_values :: "words \<Rightarrow> string \<Rightarrow> string list" where
  "value_flag_values ws flag =
     filter_map (\<lambda>(i, token).
        case strip_prefix (flag @ ''='') token of
          Some value \<Rightarrow> Some value
        | None \<Rightarrow>
            if token = flag then get ws (i + 1)
            else if \<not> starts_with flag ''--'' then nonempty (strip_prefix flag token)
            else None)
       (enumerate 0 ws)"

fun file_candidates_from :: "bool \<Rightarrow> words \<Rightarrow> string list" where
  "file_candidates_from end_of_options [] = []"
| "file_candidates_from end_of_options (token # ws) =
     (if \<not> end_of_options \<and> token = ''--'' then file_candidates_from True ws
      else if end_of_options \<or> token \<noteq> ''-'' \<and> \<not> starts_with token ''-''
      then token # file_candidates_from end_of_options ws
      else file_candidates_from end_of_options ws)"

definition shell_file_candidates :: "words \<Rightarrow> string list" where
  "shell_file_candidates ws = file_candidates_from False (drop 1 ws)"

definition special_file_operands :: "string \<Rightarrow> words \<Rightarrow> (string \<times> ShellFileMode) list" where
  "special_file_operands program ws =
     (let writes = map (\<lambda>p. (p, Write)) in
      if program = ''dd'' then
        filter_map (\<lambda>token.
          or_else (map_option (\<lambda>p. (p, ShellFileMode.Read)) (strip_prefix ''if='' token))
                  (map_option (\<lambda>p. (p, Write)) (strip_prefix ''of='' token))) (drop 1 ws)
      else if program \<in> set [''sort'', ''go'', ''git''] then writes (shell_output_flag_values ws)
      else if program = ''rustc'' then writes (shell_output_flag_values ws @ value_flag_values ws ''--out-dir'')
      else if program = ''rustfmt'' then writes (shell_file_candidates ws)
      else [])"

definition shell_path_command_operands :: "string \<Rightarrow> words \<Rightarrow> (string \<times> ShellFileMode) list option" where
  "shell_path_command_operands program ws =
     (let operands = shell_file_candidates ws in
      if program \<in> set [''cp'', ''mv'', ''ln'', ''install''] then
        (if operands = [] then None
         else Some (map (\<lambda>s. (s, ShellFileMode.Read)) (butlast operands) @ [(last operands, Write)]))
      else if program = ''rm'' \<or> program = ''rmdir'' then Some (map (\<lambda>c. (c, Write)) operands)
      else if is_creation_program program then Some (map (\<lambda>c. (c, Create)) operands)
      else if program = ''uniq'' then
        (case operands of input # output # _ \<Rightarrow> Some [(input, ShellFileMode.Read), (output, Write)] | _ \<Rightarrow> None)
      else None)"

definition is_directory_operand :: "string \<Rightarrow> bool" where
  "is_directory_operand token \<longleftrightarrow> token = ''.'' \<or> token = ''..'' \<or> ends_with token ''/''"

definition shell_reader_can_recurse :: "string \<Rightarrow> words \<Rightarrow> string list \<Rightarrow> bool" where
  "shell_reader_can_recurse program ws candidates \<longleftrightarrow>
     program \<in> set [''grep'', ''egrep'', ''fgrep''] \<and>
       list_ex (\<lambda>w. w = ''--recursive'' \<or> w = ''--dereference-recursive'' \<or>
         starts_with w ''-'' \<and> \<not> starts_with w ''--'' \<and> (CHR ''r'' \<in> set w \<or> CHR ''R'' \<in> set w)) ws \<or>
     program \<in> set [''rg'', ''ag'', ''ack''] \<and>
       (length candidates \<le> 1 \<or> list_ex is_directory_operand (drop 1 candidates))"

section \<open>Written paths\<close>

definition command_words_write_paths :: "words \<Rightarrow> string list" where
  "command_words_write_paths ws =
     (let inner = unwrap_wrappers ws in
      case map_option (to_ascii_lowercase \<circ> shell_program_name) (first inner) of
        None \<Rightarrow> []
      | Some program \<Rightarrow>
          let written = (\<lambda>ops. map fst (filter (\<lambda>(_, mode). mode = Write) ops));
              out = written (special_file_operands program inner)
          in case shell_path_command_operands program inner of
               Some operands \<Rightarrow> out @ written operands
             | None \<Rightarrow>
                 if shell_file_mode program = Some Write \<or> program = ''sed'' \<and> shell_sed_in_place inner
                 then out @ shell_file_candidates inner else out)"

definition command_words_creation_paths :: "words \<Rightarrow> string list" where
  "command_words_creation_paths ws =
     (let inner = unwrap_wrappers ws in
      case map_option (to_ascii_lowercase \<circ> shell_program_name) (first inner) of
        None \<Rightarrow> []
      | Some program \<Rightarrow>
          map fst (filter (\<lambda>(_, mode). mode = Create)
            (case shell_path_command_operands program inner of Some ops \<Rightarrow> ops | None \<Rightarrow> [])))"

record WritePathsSplit =
  redirect_paths :: "string list"
  unextracted_write_redirect :: bool
  word_paths :: "string list"
  creation_paths :: "string list"

definition command_write_paths_split :: "ts_node \<Rightarrow> string \<Rightarrow> WritePathsSplit" where
  "command_write_paths_split root src =
     (let writes = filter (\<lambda>r. rt_mode r = Write) (shell_redirect_targets root src);
          invocations = map (\<lambda>i. literal_words (inv_words i)) (shell_command_invocations root src)
      in \<lparr>redirect_paths = filter_map rt_path writes,
          unextracted_write_redirect = list_ex (\<lambda>r. rt_path r = None) writes,
          word_paths = concat (map command_words_write_paths invocations),
          creation_paths = concat (map command_words_creation_paths invocations)\<rparr>)"

definition command_write_paths_in_tree :: "ts_node \<Rightarrow> string \<Rightarrow> string list" where
  "command_write_paths_in_tree root src =
     (let split = command_write_paths_split root src in redirect_paths split @ word_paths split)"

section \<open>The gate\<close>

fun shell_access :: "ShellFileMode \<Rightarrow> string \<Rightarrow> AccessKind" where
  "shell_access ShellFileMode.Read path = AccessKind.Read (Some path)"
| "shell_access Write path = AccessKind.Edit path"
| "shell_access Create path = AccessKind.Edit path"

definition escalate_access ::
  "'g env \<Rightarrow> 'g CompiledPolicy \<Rightarrow> string option \<Rightarrow> AccessKind \<Rightarrow> GateDecision option" where
  "escalate_access env policy rule_cwd access =
     (case evaluate_lexical_with_cwd env policy access rule_cwd of
        Some (Decision.Reject reason) \<Rightarrow> Some (GateDecision.Reject reason)
      | Some Decision.Ask \<Rightarrow> Some AskRuleMatch
      | _ \<Rightarrow> None)"

definition shell_rule_cwd :: "string \<Rightarrow> string \<Rightarrow> bool \<Rightarrow> string option" where
  "shell_rule_cwd token cwd cwd_unpinned =
     then_some (is_absolute_shell_path (normalize_shell_path token) \<or> \<not> cwd_unpinned) cwd"

definition raw_absolute_shell_path :: "string \<Rightarrow> string \<Rightarrow> bool \<Rightarrow> string option" where
  "raw_absolute_shell_path token cwd cwd_unpinned =
     (let raw = normalize_shell_path_raw token in
      if is_absolute_shell_path raw then Some raw
      else if cwd_unpinned then None
      else Some (normalize_shell_path_raw (path_join cwd raw)))"

definition absolute_shell_path :: "string \<Rightarrow> string \<Rightarrow> string" where
  "absolute_shell_path token cwd =
     (let path = normalize_shell_path token in
      if is_absolute_shell_path path then path else normalize_shell_path (path_join cwd path))"

definition evaluate_shell_path ::
  "'g env \<Rightarrow> 'g CompiledPolicy \<Rightarrow> string \<Rightarrow> string \<Rightarrow> ShellFileMode \<Rightarrow> bool \<Rightarrow> GateDecision option" where
  "evaluate_shell_path env policy token cwd mode cwd_unpinned =
     (let path = normalize_shell_path token;
          absolute = is_absolute_shell_path path;
          esc = (\<lambda>p. escalate_access env policy (shell_rule_cwd token cwd cwd_unpinned) (shell_access mode p));
          resolved_decision =
            (case raw_absolute_shell_path token cwd cwd_unpinned of
               None \<Rightarrow> None
             | Some raw_absolute \<Rightarrow>
                 (case follow_absolute_symlink (file_system env) raw_absolute (absolute_shell_path token cwd) of
                    Target resolved \<Rightarrow> esc resolved
                  | Unresolvable \<Rightarrow> Some AskFailClosed
                  | NoFollow \<Rightarrow> None));
          path_decision = esc path;
          anchored_decision =
            (if cwd_unpinned \<and> \<not> absolute then None
             else combine_gate_decisions (esc (absolute_shell_path token cwd)) resolved_decision)
      in combine_gate_decisions (combine_gate_decisions path_decision anchored_decision)
           (then_some (cwd_unpinned \<and> \<not> absolute) AskFailClosed))"

text \<open>
  What one invocation contributes: the file accesses in the order they are judged, and whether one of
  its file operands forces a question. The arguments are the lower-case program and its literal words.
\<close>

definition operand_modes :: "string \<Rightarrow> words \<Rightarrow> ShellFileMode list" where
  "operand_modes program ws =
     (case shell_file_mode program of
        Some mode \<Rightarrow>
          if program = ''sed'' \<and> shell_sed_in_place ws then [ShellFileMode.Read, Write]
          else if mode = Create then [] else [mode]
      | None \<Rightarrow> [])"

definition positional_accesses :: "string \<Rightarrow> words \<Rightarrow> (string \<times> ShellFileMode) list" where
  "positional_accesses program ws =
     (if program = ''dd'' then []
      else case shell_path_command_operands program ws of
             Some operands \<Rightarrow> operands
           | None \<Rightarrow> concat (map (\<lambda>token. map (Pair token) (operand_modes program ws)) (shell_file_candidates ws)))"

definition program_accesses :: "string \<Rightarrow> words \<Rightarrow> (string \<times> ShellFileMode) list" where
  "program_accesses program ws = special_file_operands program ws @ positional_accesses program ws"

definition is_known_program :: "string \<Rightarrow> words \<Rightarrow> bool" where
  "is_known_program program ws \<longleftrightarrow>
     program = ''dd'' \<or> shell_file_mode program \<noteq> None \<or> shell_path_command_operands program ws \<noteq> None"

definition program_recurses :: "string \<Rightarrow> words \<Rightarrow> bool" where
  "program_recurses program ws \<longleftrightarrow>
     program \<noteq> ''dd'' \<and> shell_path_command_operands program ws = None \<and> operand_modes program ws \<noteq> [] \<and>
     shell_reader_can_recurse program ws (shell_file_candidates ws)"

text \<open>The program of the peeled words, unless it is unreadable or only changes directory.\<close>

definition file_program :: "InvocationWord list \<Rightarrow> string option" where
  "file_program ws =
     (case first ws of
        Some (InvocationWord.Literal program) \<Rightarrow>
          let lower = to_ascii_lowercase (shell_program_name program)
          in if lower \<in> set [''cd'', ''pushd'', ''popd''] then None else Some lower
      | _ \<Rightarrow> None)"

definition invocation_accesses :: "InvocationWord list \<Rightarrow> (string \<times> ShellFileMode) list" where
  "invocation_accesses ws =
     (case file_program ws of None \<Rightarrow> [] | Some program \<Rightarrow> program_accesses program (literal_words ws))"

definition program_forces_ask :: "InvocationWord list \<Rightarrow> bool \<Rightarrow> bool \<Rightarrow> bool" where
  "program_forces_ask ws invocation_cwd_unpinned parse_failed =
     (case file_program ws of
        None \<Rightarrow> False
      | Some program \<Rightarrow>
          is_known_program program (literal_words ws) \<and>
            (invocation_cwd_unpinned \<or> InvocationWord.Untrusted \<in> set ws \<or> parse_failed) \<or>
          list_ex (\<lambda>(path, _). shell_arg_is_ambiguous path) (program_accesses program (literal_words ws)) \<or>
          program_recurses program (literal_words ws))"

definition invocation_unpinned :: "bool \<Rightarrow> CwdPoison list \<Rightarrow> ShellInvocation \<Rightarrow> bool" where
  "invocation_unpinned cwd_unpinned cwd_changes invocation \<longleftrightarrow>
     cwd_unpinned \<or> cwd_unpinned_before cwd_changes (inv_start_byte invocation) (inv_scope invocation) \<or>
     ci_has_chdir (unwrap_invocation_checked invocation)"

text \<open>
  \<open>inner\<close> judges a literal inline script with its directory flag; it is \<open>None\<close> when no depth is left.
\<close>

type_synonym inline_gate = "(string \<Rightarrow> bool \<Rightarrow> GateDecision option) option"

definition invocation_forces_ask :: "inline_gate \<Rightarrow> bool \<Rightarrow> bool \<Rightarrow> ShellInvocation \<Rightarrow> bool" where
  "invocation_forces_ask inner unpinned parse_failed invocation =
     (let peel = unwrap_invocation_checked invocation; script = shell_dash_c_script (shell_words (ci_words peel)) in
      ci_exhausted peel \<or> ci_has_split_string peel \<or> ci_env_options_uncertain peel \<or> ci_transparent_ambiguous peel \<or>
      parse_failed \<and> script \<noteq> NotInline \<or>
      (case script of InlineShellScript.Literal _ \<Rightarrow> inner = None | NotInline \<Rightarrow> False | _ \<Rightarrow> True) \<or>
      program_forces_ask (ci_words peel) unpinned parse_failed)"

definition inline_decision :: "inline_gate \<Rightarrow> bool \<Rightarrow> ShellInvocation \<Rightarrow> GateDecision option" where
  "inline_decision inner unpinned invocation =
     (let ws = shell_words (ci_words (unwrap_invocation_checked invocation)) in
      case shell_dash_c_script ws of
        InlineShellScript.Literal index \<Rightarrow>
          (case (inner, ws ! index) of (Some gate, ShellWord.Literal script) \<Rightarrow> gate script unpinned | _ \<Rightarrow> None)
      | _ \<Rightarrow> None)"

definition invocation_decisions ::
  "'g env \<Rightarrow> 'g CompiledPolicy \<Rightarrow> string \<Rightarrow> inline_gate \<Rightarrow> bool \<Rightarrow> ShellInvocation \<Rightarrow> GateDecision option list" where
  "invocation_decisions env policy cwd inner unpinned invocation =
     inline_decision inner unpinned invocation #
     map (\<lambda>(path, mode). evaluate_shell_path env policy path cwd mode unpinned)
       (invocation_accesses (ci_words (unwrap_invocation_checked invocation)))"

definition script_invocation_decisions ::
  "'g env \<Rightarrow> 'g CompiledPolicy \<Rightarrow> string \<Rightarrow> inline_gate \<Rightarrow> bool \<Rightarrow> CwdPoison list \<Rightarrow> ShellInvocation
    \<Rightarrow> GateDecision option list" where
  "script_invocation_decisions env policy cwd inner cwd_unpinned cwd_changes invocation =
     invocation_decisions env policy cwd inner (invocation_unpinned cwd_unpinned cwd_changes invocation) invocation"

definition script_invocation_forces_ask ::
  "inline_gate \<Rightarrow> bool \<Rightarrow> CwdPoison list \<Rightarrow> bool \<Rightarrow> ShellInvocation \<Rightarrow> bool" where
  "script_invocation_forces_ask inner cwd_unpinned cwd_changes parse_failed invocation =
     invocation_forces_ask inner (invocation_unpinned cwd_unpinned cwd_changes invocation) parse_failed invocation"

definition redirect_unpinned :: "bool \<Rightarrow> CwdPoison list \<Rightarrow> ShellRedirectTarget \<Rightarrow> bool" where
  "redirect_unpinned cwd_unpinned cwd_changes redirect \<longleftrightarrow>
     cwd_unpinned \<or> cwd_unpinned_before cwd_changes (rt_start_byte redirect) (rt_scope redirect)"

definition redirect_decisions ::
  "'g env \<Rightarrow> 'g CompiledPolicy \<Rightarrow> string \<Rightarrow> bool \<Rightarrow> CwdPoison list \<Rightarrow> ShellRedirectTarget \<Rightarrow> GateDecision option list" where
  "redirect_decisions env policy cwd cwd_unpinned cwd_changes redirect =
     (case rt_path redirect of
        Some path \<Rightarrow> [evaluate_shell_path env policy path cwd (rt_mode redirect)
                       (redirect_unpinned cwd_unpinned cwd_changes redirect)]
      | None \<Rightarrow> [])"

definition file_gate_tree ::
  "'g env \<Rightarrow> 'g CompiledPolicy \<Rightarrow> string \<Rightarrow> inline_gate \<Rightarrow> bool \<Rightarrow> bool \<Rightarrow> ts_tree \<Rightarrow> string \<Rightarrow> GateDecision option" where
  "file_gate_tree env policy cwd inner cwd_unpinned entered_inline tree cmd =
     (let root = root_node tree; parse_failed = has_error tree;
          invocations = shell_command_invocations root cmd;
          cwd_changes = cwd_poison_positions root cmd;
          redirects = shell_redirect_targets root cmd;
          decisions =
            concat (map (redirect_decisions env policy cwd cwd_unpinned cwd_changes) redirects) @
            concat (map (script_invocation_decisions env policy cwd inner cwd_unpinned cwd_changes) invocations);
          forced_ask =
            (entered_inline \<and> parse_failed \<or> list_ex rt_ambiguous redirects \<or>
             list_ex (script_invocation_forces_ask inner cwd_unpinned cwd_changes parse_failed) invocations)
      in combine_gate_decisions (foldl combine_gate_decisions None decisions) (then_some forced_ask AskFailClosed))"

definition file_gate_script ::
  "'g env \<Rightarrow> 'g CompiledPolicy \<Rightarrow> string \<Rightarrow> inline_gate \<Rightarrow> bool \<Rightarrow> bool \<Rightarrow> string \<Rightarrow> GateDecision option" where
  "file_gate_script env policy cwd inner cwd_unpinned entered_inline cmd =
     (case ts_parse env cmd of
        None \<Rightarrow> then_some entered_inline AskFailClosed
      | Some tree \<Rightarrow> file_gate_tree env policy cwd inner cwd_unpinned entered_inline tree cmd)"

text \<open>The recursive call on an inline script, which is entered with its own directory flag.\<close>

definition recurse_inline :: "(bool \<Rightarrow> bool \<Rightarrow> string \<Rightarrow> GateDecision option) \<Rightarrow> string \<Rightarrow> bool \<Rightarrow> GateDecision option" where
  "recurse_inline f script unpinned = f unpinned True script"

fun evaluate_shell_file_access_inner ::
  "'g env \<Rightarrow> 'g CompiledPolicy \<Rightarrow> string \<Rightarrow> nat \<Rightarrow> bool \<Rightarrow> bool \<Rightarrow> string \<Rightarrow> GateDecision option" where
  "evaluate_shell_file_access_inner env policy cwd 0 cwd_unpinned entered_inline cmd =
     file_gate_script env policy cwd None cwd_unpinned entered_inline cmd"
| "evaluate_shell_file_access_inner env policy cwd (Suc depth) cwd_unpinned entered_inline cmd =
     file_gate_script env policy cwd
       (Some (recurse_inline (evaluate_shell_file_access_inner env policy cwd depth)))
       cwd_unpinned entered_inline cmd"

definition evaluate_shell_file_access_gate ::
  "'g env \<Rightarrow> 'g CompiledPolicy \<Rightarrow> string \<Rightarrow> string \<Rightarrow> GateDecision option" where
  "evaluate_shell_file_access_gate env policy cmd cwd =
     (if \<not> has_file_restrictions policy then None
      else evaluate_shell_file_access_inner env policy cwd MAX_INLINE_SHELL_DEPTH False False cmd)"

definition evaluate_shell_file_access ::
  "'g env \<Rightarrow> 'g CompiledPolicy \<Rightarrow> string \<Rightarrow> string \<Rightarrow> Decision option" where
  "evaluate_shell_file_access env policy cmd cwd =
     map_option into_decision (evaluate_shell_file_access_gate env policy cmd cwd)"

section \<open>What the gate judges\<close>

text \<open>A file access of a script: the path as spelled, the mode, and whether the directory is unknown there.\<close>

definition redirect_file_access ::
  "bool \<Rightarrow> CwdPoison list \<Rightarrow> ShellRedirectTarget \<Rightarrow> (string \<times> ShellFileMode \<times> bool) option" where
  "redirect_file_access unpinned changes r =
     map_option (\<lambda>path. (path, rt_mode r, redirect_unpinned unpinned changes r)) (rt_path r)"

definition invocation_file_accesses ::
  "bool \<Rightarrow> CwdPoison list \<Rightarrow> ShellInvocation \<Rightarrow> (string \<times> ShellFileMode \<times> bool) list" where
  "invocation_file_accesses unpinned changes i =
     (let v = invocation_unpinned unpinned changes i
      in map (\<lambda>(path, mode). (path, mode, v)) (invocation_accesses (ci_words (unwrap_invocation_checked i))))"

definition script_file_accesses :: "ts_tree \<Rightarrow> string \<Rightarrow> bool \<Rightarrow> (string \<times> ShellFileMode \<times> bool) list" where
  "script_file_accesses tree src unpinned =
     (let root = root_node tree; changes = cwd_poison_positions root src in
      filter_map (redirect_file_access unpinned changes) (shell_redirect_targets root src) @
      concat (map (invocation_file_accesses unpinned changes) (shell_command_invocations root src)))"

text \<open>A literal inline script of a script, with the directory flag that it inherits.\<close>

inductive file_script :: "'g env \<Rightarrow> string \<times> bool \<Rightarrow> string \<times> bool \<Rightarrow> bool" for env where
  file_scriptI: "ts_parse env s = Some tree \<Longrightarrow> i \<in> set (shell_command_invocations (root_node tree) s) \<Longrightarrow>
     ws = shell_words (ci_words (unwrap_invocation_checked i)) \<Longrightarrow>
     shell_dash_c_script ws = InlineShellScript.Literal k \<Longrightarrow> ws ! k = ShellWord.Literal t \<Longrightarrow>
     file_script env (s, u) (t, invocation_unpinned u (cwd_poison_positions (root_node tree) s) i)"

inductive_cases file_scriptE: "file_script env (s, u) (t, v)"

lemma gate_fold_ge: "d \<in> set ds \<Longrightarrow> gate.orank d \<le> gate.orank (foldl combine_gate_decisions None ds)"
  using gate.fold_join_ge [of d ds id None] by simp

lemma file_gate_tree_invocation:
  assumes "i \<in> set (shell_command_invocations (root_node tree) cmd)"
    and "d \<in> set (invocation_decisions env policy cwd inner
           (invocation_unpinned u (cwd_poison_positions (root_node tree) cmd) i) i)"
  shows "gate.orank d \<le> gate.orank (file_gate_tree env policy cwd inner u e tree cmd)"
  unfolding file_gate_tree_def Let_def gate.orank_join
  by (rule max.coboundedI1 [OF gate_fold_ge]) (use assms in \<open>auto simp: script_invocation_decisions_def\<close>)

lemma file_gate_tree_redirect:
  assumes "r \<in> set (shell_redirect_targets (root_node tree) cmd)"
    and "d \<in> set (redirect_decisions env policy cwd u (cwd_poison_positions (root_node tree) cmd) r)"
  shows "gate.orank d \<le> gate.orank (file_gate_tree env policy cwd inner u e tree cmd)"
  unfolding file_gate_tree_def Let_def gate.orank_join
  by (rule max.coboundedI1 [OF gate_fold_ge]) (use assms in \<open>auto simp: script_invocation_decisions_def\<close>)

lemma file_gate_tree_access:
  assumes "(path, mode, v) \<in> set (script_file_accesses tree cmd u)"
  shows "gate.orank (evaluate_shell_path env policy path cwd mode v)
    \<le> gate.orank (file_gate_tree env policy cwd inner u e tree cmd)"
proof -
  let ?changes = "cwd_poison_positions (root_node tree) cmd"
  from assms consider
    (redirect) r where "r \<in> set (shell_redirect_targets (root_node tree) cmd)" "rt_path r = Some path"
      "mode = rt_mode r" "v = redirect_unpinned u ?changes r"
  | (operand) i where "i \<in> set (shell_command_invocations (root_node tree) cmd)"
      "(path, mode) \<in> set (invocation_accesses (ci_words (unwrap_invocation_checked i)))"
      "v = invocation_unpinned u ?changes i"
    unfolding script_file_accesses_def Let_def by (auto simp: in_set_filter_map redirect_file_access_def invocation_file_accesses_def Let_def)
  then show ?thesis
  proof cases
    case redirect
    then show ?thesis by (intro file_gate_tree_redirect) (auto simp: redirect_decisions_def)
  next
    case operand
    then show ?thesis by (intro file_gate_tree_invocation [of i]) (force simp: invocation_decisions_def)+
  qed
qed

lemma file_gate_tree_forced:
  assumes "e \<and> has_error tree \<or> (\<exists>r \<in> set (shell_redirect_targets (root_node tree) cmd). rt_ambiguous r) \<or>
    (\<exists>i \<in> set (shell_command_invocations (root_node tree) cmd).
       invocation_forces_ask inner (invocation_unpinned u (cwd_poison_positions (root_node tree) cmd) i) (has_error tree) i)"
  shows "2 \<le> gate.orank (file_gate_tree env policy cwd inner u e tree cmd)"
  unfolding file_gate_tree_def Let_def gate.orank_join
  using assms by (auto simp: list_ex_iff then_some_def script_invocation_forces_ask_def)

lemma file_gate_inner:
  assumes "file_script env (s, u) (t, v)"
  shows "case inner of Some gate \<Rightarrow> gate.orank (gate t v) \<le> gate.orank (file_gate_script env policy cwd inner u e s)
    | None \<Rightarrow> 2 \<le> gate.orank (file_gate_script env policy cwd inner u e s)"
proof -
  from assms obtain tree i k where 1: "ts_parse env s = Some tree"
    "i \<in> set (shell_command_invocations (root_node tree) s)"
    "shell_dash_c_script (shell_words (ci_words (unwrap_invocation_checked i))) = InlineShellScript.Literal k"
    "shell_words (ci_words (unwrap_invocation_checked i)) ! k = ShellWord.Literal t"
    "v = invocation_unpinned u (cwd_poison_positions (root_node tree) s) i"
    by (elim file_scriptE) blast
  show ?thesis
  proof (cases inner)
    case None
    with 1 have "invocation_forces_ask inner v (has_error tree) i"
      by (simp add: invocation_forces_ask_def Let_def)
    with 1 None show ?thesis
      using file_gate_tree_forced [of e tree s inner u env policy cwd] by (auto simp: file_gate_script_def)
  next
    case (Some gate)
    with 1 have "gate t v \<in> set (invocation_decisions env policy cwd inner v i)"
      by (simp add: invocation_decisions_def inline_decision_def Let_def)
    with 1 Some show ?thesis
      using file_gate_tree_invocation [of i tree s "gate t v" env policy cwd inner u e]
      by (simp add: file_gate_script_def)
  qed
qed

lemma file_gate_reached:
  assumes "reached (file_script env) n su tv"
  shows "if n \<le> depth
    then gate.orank (evaluate_shell_file_access_inner env policy cwd (depth - n) (snd tv) (e \<or> 0 < n) (fst tv))
           \<le> gate.orank (evaluate_shell_file_access_inner env policy cwd depth (snd su) e (fst su))
    else 2 \<le> gate.orank (evaluate_shell_file_access_inner env policy cwd depth (snd su) e (fst su))"
  using assms
proof (induction arbitrary: depth e rule: reached.induct)
  case (reached_step su tv n xw)
  obtain s u t v where [simp]: "su = (s, u)" "tv = (t, v)" by (cases su, cases tv)
  note hop = reached_step.hyps(1) [simplified]
  show ?case
  proof (cases depth)
    case 0
    then show ?thesis using file_gate_inner [OF hop, where inner = None and policy = policy and cwd = cwd and e = e] by simp
  next
    case (Suc d)
    then show ?thesis
      using file_gate_inner [OF hop, where inner = "Some (recurse_inline (evaluate_shell_file_access_inner env policy cwd d))" and policy = policy and cwd = cwd and e = e]
        reached_step.IH [of d True]
      by (auto simp: recurse_inline_def split: if_splits)
  qed
qed simp

lemma file_gate_script_ex:
  "\<exists>inner. evaluate_shell_file_access_inner env policy cwd depth u e s = file_gate_script env policy cwd inner u e s"
  by (cases depth) auto

section \<open>No file access hides from a file rule\<close>

text \<open>The spellings under which the gate judges an operand: normalised, anchored, and the link target.\<close>

definition shell_path_forms :: "'g env \<Rightarrow> string \<Rightarrow> string \<Rightarrow> bool \<Rightarrow> string list" where
  "shell_path_forms env token cwd unpinned =
     normalize_shell_path token #
     (if unpinned \<and> \<not> is_absolute_shell_path (normalize_shell_path token) then []
      else absolute_shell_path token cwd #
        (case raw_absolute_shell_path token cwd unpinned of
           None \<Rightarrow> []
         | Some raw \<Rightarrow> (case follow_absolute_symlink (file_system env) raw (absolute_shell_path token cwd) of
                         Target t \<Rightarrow> [t] | _ \<Rightarrow> [])))"

lemma shell_path_form_ge:
  assumes "path \<in> set (shell_path_forms env token cwd v)"
  shows "gate.orank (escalate_access env policy (shell_rule_cwd token cwd v) (shell_access mode path))
    \<le> gate.orank (evaluate_shell_path env policy token cwd mode v)"
  using assms unfolding shell_path_forms_def evaluate_shell_path_def Let_def
  by (auto simp: gate.orank_join split: if_splits option.splits SymlinkFollow.splits)

lemma shell_path_unpinned_asks:
  assumes "\<not> is_absolute_shell_path (normalize_shell_path token)"
  shows "2 \<le> gate.orank (evaluate_shell_path env policy token cwd mode True)"
  using assms by (simp add: evaluate_shell_path_def Let_def gate.orank_join then_some_def)

lemma escalate_access_needs_rule:
  assumes "escalate_access env (compiled_policy_new env cfg) rule_cwd (shell_access mode path) \<noteq> None"
  shows "has_file_restrictions (compiled_policy_new env cfg)"
proof -
  let ?access = "shell_access mode path"
  let ?A = "matched_actions env cfg ?access rule_cwd"
  from assms have "RuleAction.Deny \<in> ?A \<or> RuleAction.Ask \<in> ?A"
    by (cases mode) (auto simp: escalate_access_def evaluate_lexical_matched Let_def split: if_splits)
  then obtain rule where "rule \<in> set (cfg_rules cfg)" "restricts rule" "tool_filter_matches ?access (pr_tool rule)"
    by (auto simp: matched_actions_def restricts_def rule_matches_def)
  then show ?thesis
    by (cases mode; cases "pr_tool rule") (auto simp: compiled_policy_new_def list_ex_iff)
qed

lemma file_gate_ge_access:
  assumes "reached (file_script env) n (cmd, False) (script, u)" and "n \<le> MAX_INLINE_SHELL_DEPTH"
    and "ts_parse env script = Some tree"
    and "(token, mode, v) \<in> set (script_file_accesses tree script u)"
  shows "gate.orank (evaluate_shell_path env policy token cwd mode v)
    \<le> gate.orank (evaluate_shell_file_access_inner env policy cwd MAX_INLINE_SHELL_DEPTH False False cmd)"
proof -
  obtain inner where inner:
    "evaluate_shell_file_access_inner env policy cwd (MAX_INLINE_SHELL_DEPTH - n) u (0 < n) script
      = file_gate_script env policy cwd inner u (0 < n) script"
    using file_gate_script_ex by blast
  have "gate.orank (evaluate_shell_path env policy token cwd mode v)
      \<le> gate.orank (file_gate_script env policy cwd inner u (0 < n) script)"
    using file_gate_tree_access [OF assms(4)] assms(3) by (simp add: file_gate_script_def)
  also have "\<dots> \<le> gate.orank (evaluate_shell_file_access_inner env policy cwd MAX_INLINE_SHELL_DEPTH False False cmd)"
    using file_gate_reached [OF assms(1), of MAX_INLINE_SHELL_DEPTH policy cwd False] assms(2) inner by simp
  finally show ?thesis .
qed

text \<open>
  C5: No file that a shell command touches hides from a file rule. Take any script reached within the
  inline depth, any redirection target of it and any file operand of a file-handling program in it,
  wherever it stands in the script, and any of its spellings: as written and normalised, anchored at
  the working directory, or the target of its symbolic links. If the policy rejects reading or editing
  that path, the gate rejects the whole command; if it asks, the gate rejects or asks with the
  question bound to the rule.
\<close>

theorem file_gate_sees_every_path:
  assumes "reached (file_script env) n (cmd, False) (script, u)" and "n \<le> MAX_INLINE_SHELL_DEPTH"
    and "ts_parse env script = Some tree"
    and "(token, mode, v) \<in> set (script_file_accesses tree script u)"
    and "path \<in> set (shell_path_forms env token cwd v)"
    and "policy = compiled_policy_new env cfg"
  shows "(\<forall>r. evaluate_lexical_with_cwd env policy (shell_access mode path) (shell_rule_cwd token cwd v) =
              Some (Decision.Reject r) \<longrightarrow>
            (\<exists>r'. evaluate_shell_file_access_gate env policy cmd cwd = Some (GateDecision.Reject r')))
    \<and> (evaluate_lexical_with_cwd env policy (shell_access mode path) (shell_rule_cwd token cwd v) = Some Decision.Ask \<longrightarrow>
        (\<exists>d. evaluate_shell_file_access_gate env policy cmd cwd = Some d \<and> d \<noteq> AskFailClosed))"
proof -
  let ?gate = "evaluate_shell_file_access_gate env policy cmd cwd"
  let ?esc = "escalate_access env policy (shell_rule_cwd token cwd v) (shell_access mode path)"
  have le: "gate.orank ?esc \<le> gate.orank ?gate" if "?esc \<noteq> None"
    using shell_path_form_ge [OF assms(5), of policy mode] file_gate_ge_access [OF assms(1-4), of policy cwd]
      escalate_access_needs_rule that assms(6)
    by (fastforce simp: evaluate_shell_file_access_gate_def)
  have "\<exists>r'. ?gate = Some (GateDecision.Reject r')" if "?esc = Some (GateDecision.Reject r)" for r
    using le that by (cases ?gate; cases "the ?gate") auto
  moreover have "\<exists>d. ?gate = Some d \<and> d \<noteq> AskFailClosed" if "?esc = Some AskRuleMatch"
    using le that by (cases ?gate) auto
  ultimately show ?thesis by (auto simp: escalate_access_def)
qed

text \<open>
  An invocation the analysis cannot follow: peeling raised a flag, the inline script cannot be trusted,
  a file-handling program has an unreadable word or stands in a script with a syntax error or behind
  a change of directory, or a file operand is a glob.
\<close>

definition unfollowable :: "ts_tree \<Rightarrow> string \<Rightarrow> ShellInvocation \<Rightarrow> bool" where
  "unfollowable tree src i \<longleftrightarrow>
     (let ws = ci_words (unwrap_invocation_checked i) in
      nc_untrusted (normalize_command_words (inv_wrapper_words i)) \<or>
      shell_dash_c_script (shell_words ws) \<in> {InlineShellScript.Untrusted, Unrecognized} \<or>
      (\<exists>(token, mode) \<in> set (invocation_accesses ws). shell_arg_is_ambiguous token) \<or>
      (\<exists>program. file_program ws = Some program \<and> is_known_program program (literal_words ws) \<and>
         (InvocationWord.Untrusted \<in> set ws \<or> has_error tree \<or>
          cwd_unpinned_before (cwd_poison_positions (root_node tree) src) (inv_start_byte i) (inv_scope i))))"

lemma unfollowable_forces_ask:
  assumes "unfollowable tree src i"
  shows "invocation_forces_ask inner (invocation_unpinned u (cwd_poison_positions (root_node tree) src) i) (has_error tree) i"
proof -
  let ?ws = "ci_words (unwrap_invocation_checked i)"
  let ?unp = "invocation_unpinned u (cwd_poison_positions (root_node tree) src) i"
  have ask: "program_forces_ask ?ws ?unp (has_error tree) \<Longrightarrow> ?thesis"
    by (simp add: invocation_forces_ask_def Let_def)
  from assms consider
    (peel) "nc_untrusted (normalize_command_words (inv_wrapper_words i))"
  | (script) "shell_dash_c_script (shell_words ?ws) \<in> {InlineShellScript.Untrusted, Unrecognized}"
  | (glob) token mode where "(token, mode) \<in> set (invocation_accesses ?ws)" "shell_arg_is_ambiguous token"
  | (known) program where "file_program ?ws = Some program" "is_known_program program (literal_words ?ws)"
      "InvocationWord.Untrusted \<in> set ?ws \<or> has_error tree \<or>
       cwd_unpinned_before (cwd_poison_positions (root_node tree) src) (inv_start_byte i) (inv_scope i)"
    unfolding unfollowable_def Let_def by auto
  then show ?thesis
  proof cases
    case peel
    then show ?thesis
      by (auto simp: invocation_forces_ask_def unwrap_invocation_checked_def nc_untrusted_def Let_def)
  next
    case script
    then show ?thesis by (auto simp: invocation_forces_ask_def Let_def)
  next
    case glob
    then show ?thesis
      by (intro ask, cases "file_program ?ws") (auto simp: program_forces_ask_def invocation_accesses_def list_ex_iff)
  next
    case known
    then show ?thesis by (intro ask) (auto simp: program_forces_ask_def invocation_unpinned_def)
  qed
qed

lemma file_gate_script_fails_closed:
  assumes "e \<and> ts_parse env script = None \<or>
      (\<exists>tree. ts_parse env script = Some tree \<and>
        (e \<and> has_error tree \<or>
         (\<exists>r \<in> set (shell_redirect_targets (root_node tree) script). rt_ambiguous r) \<or>
         (\<exists>(token, mode, v) \<in> set (script_file_accesses tree script u).
            v \<and> \<not> is_absolute_shell_path (normalize_shell_path token)) \<or>
         (\<exists>i \<in> set (shell_command_invocations (root_node tree) script). unfollowable tree script i)))"
  shows "2 \<le> gate.orank (file_gate_script env policy cwd inner u e script)"
  using assms
proof (elim disjE exE conjE bexE)
  assume "e" "ts_parse env script = None"
  then show ?thesis by (simp add: file_gate_script_def then_some_def)
next
  fix tree a assume *: "ts_parse env script = Some tree" "a \<in> set (script_file_accesses tree script u)"
    "case a of (token, mode, v) \<Rightarrow> v \<and> \<not> is_absolute_shell_path (normalize_shell_path token)"
  then obtain token mode where "a = (token, mode, True)" "\<not> is_absolute_shell_path (normalize_shell_path token)"
    by (cases a) auto
  with * show ?thesis
    using shell_path_unpinned_asks [of token env policy cwd mode]
      file_gate_tree_access [of token mode True tree script u env policy cwd inner e]
    by (simp add: file_gate_script_def)
qed (auto simp: file_gate_script_def intro!: file_gate_tree_forced intro: unfollowable_forces_ask)

text \<open>
  C6: The file gate fails closed. With any file restriction in the policy, and for the scripts reached from the command
  through literal \<open>-c\<close> strings, the gate at least asks: when such a script is nested beyond the depth bound; when a nested
  script does not parse or has a syntax error (a malformed top-level script is asked about only through a known file
  program in it); when a redirection target is a glob or otherwise ambiguous; when an access whose path counts as
  relative comes after a change of directory (the code's own test decides what counts as relative: a name
  whose second byte is a colon counts as absolute, \<open>colon_name_is_not_asked\<close>); and when an invocation cannot be followed,
  which is the predicate \<open>unfollowable\<close>: a flagged peel, an inline shell that is not a recognised literal, an
  ambiguous operand, or a known file program with untrusted words, under a syntax error or after a change of directory.
\<close>

theorem file_gate_fails_closed:
  assumes "reached (file_script env) n (cmd, False) (script, u)"
    and "has_file_restrictions policy"
    and "MAX_INLINE_SHELL_DEPTH < n \<or> 0 < n \<and> ts_parse env script = None \<or>
      (\<exists>tree. ts_parse env script = Some tree \<and>
        (0 < n \<and> has_error tree \<or>
         (\<exists>r \<in> set (shell_redirect_targets (root_node tree) script). rt_ambiguous r) \<or>
         (\<exists>(token, mode, v) \<in> set (script_file_accesses tree script u).
            v \<and> \<not> is_absolute_shell_path (normalize_shell_path token)) \<or>
         (\<exists>i \<in> set (shell_command_invocations (root_node tree) script). unfollowable tree script i)))"
  shows "evaluate_shell_file_access_gate env policy cmd cwd \<noteq> None"
proof -
  let ?D = "gate.orank (evaluate_shell_file_access_inner env policy cwd MAX_INLINE_SHELL_DEPTH False False cmd)"
  have "2 \<le> ?D"
  proof (cases "n \<le> MAX_INLINE_SHELL_DEPTH")
    case True
    obtain inner where inner:
      "evaluate_shell_file_access_inner env policy cwd (MAX_INLINE_SHELL_DEPTH - n) u (0 < n) script
        = file_gate_script env policy cwd inner u (0 < n) script"
      using file_gate_script_ex by blast
    have "2 \<le> gate.orank (file_gate_script env policy cwd inner u (0 < n) script)"
      by (rule file_gate_script_fails_closed) (use assms(3) True in auto)
    then show ?thesis
      using file_gate_reached [OF assms(1), of MAX_INLINE_SHELL_DEPTH policy cwd False] True inner by simp
  next
    case False
    then show ?thesis using file_gate_reached [OF assms(1), of MAX_INLINE_SHELL_DEPTH policy cwd False] by simp
  qed
  then show ?thesis using assms(2)
    by (cases "evaluate_shell_file_access_inner env policy cwd MAX_INLINE_SHELL_DEPTH False False cmd")
      (simp_all add: evaluate_shell_file_access_gate_def)
qed

section \<open>The two normalisations agree\<close>

lemma lexical_push_absolute:
  assumes "list_all (\<lambda>s. s \<noteq> ''..'') out"
  shows "list_all (\<lambda>s. s \<noteq> ''..'') (foldl (lexical_push True) out segs) \<and>
    foldl norm_push (map Normal out @ [RootDir]) (body_components segs)
      = map Normal (foldl (lexical_push True) out segs) @ [RootDir]"
  using assms
proof (induction segs arbitrary: out)
  case (Cons seg segs)
  consider "is_noise seg" | "seg = ''..''" | "\<not> is_noise seg" "seg \<noteq> ''..''" by blast
  then show ?case
  proof cases
    case 1
    then have "body_components (seg # segs) = body_components segs" "lexical_push True out seg = out"
      by (simp_all add: body_components_def lexical_push_absolute_simps(1))
    with Cons show ?thesis by simp
  next
    case 2
    then have "body_components (seg # segs) = ParentDir # body_components segs"
      by (simp add: body_components_def is_noise_def segment_component_def)
    with 2 Cons.prems Cons.IH [of "tl out"] show ?thesis
      by (cases out) (simp_all add: lexical_push_absolute_simps)
  next
    case 3
    then have "body_components (seg # segs) = Normal seg # body_components segs"
      by (simp add: body_components_def segment_component_def)
    with 3 Cons.prems Cons.IH [of "seg # out"] show ?thesis
      by (simp add: lexical_push_absolute_simps)
  qed
qed (simp add: body_components_def)

text \<open>
  On an absolute path the textual normalisation of the shell gate and the component-wise one of the
  path crate give the same string, so that comparing a resolved link target with a normalised operand
  compares like with like.
\<close>

theorem lexical_normalize_agrees:
  assumes "is_absolute path" and "get path 1 \<noteq> Some CHR '':''"
  shows "lexical_normalize path = normalize_lexically path"
proof -
  let ?out = "foldl (lexical_push True) [] (segments (tl path))"
  from assms obtain rest where path: "path = slash # rest"
    by (cases path) (auto simp: is_absolute_def)
  have comps: "components (slash # rest) = RootDir # body_components (segments rest)"
    using assms(1) by (simp add: components_def path)
  have norm: "normalize_components (components path) = RootDir # map Normal (rev ?out)"
    using lexical_push_absolute [of "[]" "segments rest"]
    by (simp add: normalize_components_def comps path rev_map)
  then have "components (normalize_lexically path) = RootDir # map Normal (rev ?out)"
    by (simp add: components_normalize)
  with normalize_absolute_string [OF assms(1)] have "normalize_lexically path = slash # join ''/'' (rev ?out)"
    by (metis (no_types, lifting) Component.inject list.inj_map_strong list.inject)
  moreover have "lexical_normalize path = slash # join ''/'' (rev ?out)"
    using assms by (simp add: lexical_normalize_def drive_len_def path is_absolute_def segments_def
        lexical_push_absolute_simps is_noise_def)
  ultimately show ?thesis by simp
qed

theorem lexical_normalize_agrees_witness:
  "lexical_normalize ''/etc/../srv//./a'' = normalize_lexically ''/etc/../srv//./a''"
  by (rule lexical_normalize_agrees) code_simp+

section \<open>The gate at work\<close>

definition edit_rule :: "RuleAction \<Rightarrow> string \<Rightarrow> PermissionRule" where
  "edit_rule action pattern =
     \<lparr>pr_action = action, pr_tool = ToolFilter.Edit, pr_pattern = Some pattern, pr_pattern_mode = Glob\<rparr>"

definition rm_tree :: ts_tree where
  "rm_tree = the (ts_parse shell_env ''rm x'')"

lemma bash_rm_file_script: "file_script shell_env (bash_rm, False) (''rm x'', False)"
proof -
  let ?tree = "the (ts_parse shell_env bash_rm)"
  let ?i = "hd (shell_command_invocations (root_node ?tree) bash_rm)"
  let ?ws = "shell_words (ci_words (unwrap_invocation_checked ?i))"
  have "shell_command_invocations (root_node ?tree) bash_rm \<noteq> []"
    "shell_dash_c_script ?ws = InlineShellScript.Literal 2" "?ws ! 2 = ShellWord.Literal ''rm x''"
    "ts_parse shell_env bash_rm = Some ?tree"
    "\<not> invocation_unpinned False (cwd_poison_positions (root_node ?tree) bash_rm) ?i"
    by code_simp+
  then show ?thesis using file_scriptI [of shell_env bash_rm ?tree ?i ?ws 2 "''rm x''" False] by simp
qed

lemma bash_rm_file_reached: "reached (file_script shell_env) 1 (bash_rm, False) (''rm x'', False)"
  using reached_step [of "file_script shell_env", OF bash_rm_file_script reached_self] by simp

theorem file_gate_sees_every_path_witness:
  "\<exists>r. evaluate_shell_file_access_gate shell_env
     (compiled_policy_new shell_env (new_permission_config [edit_rule RuleAction.Deny ''x''])) bash_rm ''/w''
     = Some (GateDecision.Reject r)"
proof -
  let ?cfg = "new_permission_config [edit_rule RuleAction.Deny ''x'']"
  have "(1::nat) \<le> MAX_INLINE_SHELL_DEPTH" "ts_parse shell_env ''rm x'' = Some rm_tree"
    "(''x'', Write, False) \<in> set (script_file_accesses rm_tree ''rm x'' False)"
    "''x'' \<in> set (shell_path_forms shell_env ''x'' ''/w'' False)"
    by code_simp+
  note gate = file_gate_sees_every_path [OF bash_rm_file_reached this, of _ ?cfg, OF refl]
  have "evaluate_lexical_with_cwd shell_env (compiled_policy_new shell_env ?cfg) (shell_access Write ''x'')
      (shell_rule_cwd ''x'' ''/w'' False) = Some (Decision.Reject (deny_reason (edit_rule RuleAction.Deny ''x'')))"
    by code_simp
  with gate show ?thesis by blast
qed

text \<open>A nested script that does not parse.\<close>

definition broken_env :: "string env" where
  "broken_env = shell_env\<lparr>ts_parse := (\<lambda>s. if s = bash_rm then ts_parse shell_env s else None)\<rparr>"

theorem file_gate_fails_closed_witness:
  "evaluate_shell_file_access_gate shell_env
     (compiled_policy_new shell_env (new_permission_config [edit_rule RuleAction.Ask ''y''])) bash_rm ''/w'' = None
   \<and> evaluate_shell_file_access_gate broken_env
     (compiled_policy_new broken_env (new_permission_config [edit_rule RuleAction.Ask ''y''])) bash_rm ''/w'' \<noteq> None"
proof
  let ?tree = "the (ts_parse broken_env bash_rm)"
  let ?i = "hd (shell_command_invocations (root_node ?tree) bash_rm)"
  let ?ws = "shell_words (ci_words (unwrap_invocation_checked ?i))"
  show "evaluate_shell_file_access_gate shell_env
     (compiled_policy_new shell_env (new_permission_config [edit_rule RuleAction.Ask ''y''])) bash_rm ''/w'' = None"
    by code_simp
  have "shell_command_invocations (root_node ?tree) bash_rm \<noteq> []"
    "shell_dash_c_script ?ws = InlineShellScript.Literal 2" "?ws ! 2 = ShellWord.Literal ''rm x''"
    "ts_parse broken_env bash_rm = Some ?tree"
    by code_simp+
  then have "file_script broken_env (bash_rm, False)
      (''rm x'', invocation_unpinned False (cwd_poison_positions (root_node ?tree) bash_rm) ?i)"
    using file_scriptI [of broken_env bash_rm ?tree ?i ?ws 2 "''rm x''" False] by simp
  note reach = reached_step [of "file_script broken_env", OF this reached_self]
  show "evaluate_shell_file_access_gate broken_env
     (compiled_policy_new broken_env (new_permission_config [edit_rule RuleAction.Ask ''y''])) bash_rm ''/w'' \<noteq> None"
  proof (rule file_gate_fails_closed [OF reach])
    show "has_file_restrictions (compiled_policy_new broken_env (new_permission_config [edit_rule RuleAction.Ask ''y'']))"
      by code_simp
    have "ts_parse broken_env ''rm x'' = None" by code_simp
    then show "MAX_INLINE_SHELL_DEPTH < Suc 0 \<or> 0 < Suc 0 \<and> ts_parse broken_env ''rm x'' = None \<or> P" for P
      by simp
  qed
qed

text \<open>
  A relative file whose name has a colon as its second byte is taken for a path on a drive, hence for an
  absolute one: behind a change of directory it is neither anchored nor asked about, unlike any other
  relative name.
\<close>

theorem colon_name_is_not_asked:
  "evaluate_shell_path shell_env
     (compiled_policy_new shell_env (new_permission_config [edit_rule RuleAction.Deny ''/w/sub/a:b''])) ''a:b'' ''/w'' Write True
   = None
   \<and> evaluate_shell_path shell_env
     (compiled_policy_new shell_env (new_permission_config [edit_rule RuleAction.Deny ''/w/sub/a:b''])) ''a-b'' ''/w'' Write True
   = Some AskFailClosed"
  by code_simp

end
