(* ===== verification/Edit_Protection.thy ===== *)
theory Edit_Protection
  imports Symlink_Follow
begin

text \<open>
  Edits that must be confirmed even when edits are accepted in general: hooks, startup files,
  credentials and the settings that hold the guard rails themselves (\<open>ProtectedEditReason\<close>,
  \<open>edit_target_protection\<close> and its helpers in \<open>permission/shell_access.rs\<close>). The grok home directory,
  which the configuration crate reads from the environment, and the file system are parameters. Path
  names are taken as they are: the code's lossy conversion changes only names that are not UTF-8.
\<close>

section \<open>Reasons\<close>

datatype ProtectedEditReason =
  HookRoot | GitHooks | Ssh | StartupFile | Etc | GrokConfig | GrokSandbox | ClaudeSettings | CursorHooks | Sensitive

fun reason_kind :: "ProtectedEditReason \<Rightarrow> string" where
  "reason_kind HookRoot = ''hook_root''"
| "reason_kind GitHooks = ''git_hooks''"
| "reason_kind Ssh = ''ssh''"
| "reason_kind StartupFile = ''startup_file''"
| "reason_kind Etc = ''etc''"
| "reason_kind GrokConfig = ''grok_config''"
| "reason_kind GrokSandbox = ''grok_sandbox''"
| "reason_kind ClaudeSettings = ''claude_settings''"
| "reason_kind CursorHooks = ''cursor_hooks''"
| "reason_kind Sensitive = ''sensitive''"

section \<open>Names of a path\<close>

definition path_names :: "string \<Rightarrow> string list" where
  "path_names path = filter_map (\<lambda>c. case c of Normal part \<Rightarrow> Some (to_ascii_lowercase part) | _ \<Rightarrow> None) (components path)"

text \<open>Two paths are equal when their components are.\<close>

definition path_eq :: "string \<Rightarrow> string \<Rightarrow> bool" where
  "path_eq p q \<longleftrightarrow> components p = components q"

definition has_window :: "'a \<Rightarrow> 'a \<Rightarrow> 'a list \<Rightarrow> bool" where
  "has_window a b xs = list_ex (\<lambda>w. w = (a, b)) (zip xs (drop 1 xs))"

lemma has_window_iff: "has_window a b xs \<longleftrightarrow> (\<exists>ys zs. xs = ys @ [a, b] @ zs)"
proof
  assume "has_window a b xs"
  then obtain n where "n < length xs - 1" "xs ! n = a" "xs ! Suc n = b"
    by (auto simp: has_window_def list_ex_iff in_set_zip)
  then have "xs = take n xs @ [a, b] @ drop (Suc (Suc n)) xs"
    using id_take_nth_drop [of n xs] Cons_nth_drop_Suc [of "Suc n" xs] by simp
  then show "\<exists>ys zs. xs = ys @ [a, b] @ zs" by blast
next
  assume "\<exists>ys zs. xs = ys @ [a, b] @ zs"
  then obtain ys zs where "xs = ys @ [a, b] @ zs" by blast
  then have "length ys < length (zip xs (drop 1 xs))" "zip xs (drop 1 xs) ! length ys = (a, b)"
    by (auto simp: nth_append)
  then show "has_window a b xs" unfolding has_window_def list_ex_iff using nth_mem by metis
qed

section \<open>Protected paths\<close>

definition STARTUP_FILES :: "string list" where
  "STARTUP_FILES =
     [''.bashrc'', ''.bash_profile'', ''.bash_login'', ''.bash_logout'', ''.profile'', ''.zshrc'', ''.zshenv'',
      ''.zprofile'', ''.zlogin'', ''.zlogout'', ''.kshrc'', ''.cshrc'', ''.tcshrc'', ''.login'', ''.logout'',
      ''.inputrc'', ''.xprofile'']"

definition GROK_CONFIG_FILES :: "string list" where
  "GROK_CONFIG_FILES = [''config.toml'', ''managed_config.toml'', ''requirements.toml'']"

definition SANDBOX_CONFIG_FILENAME :: string where
  "SANDBOX_CONFIG_FILENAME = ''sandbox.toml''"

definition grok_home_matches :: "FileSystem \<Rightarrow> string option \<Rightarrow> (string \<Rightarrow> bool) \<Rightarrow> bool" where
  "grok_home_matches fs home pred =
     (case home of
        None \<Rightarrow> False
      | Some home \<Rightarrow>
          let lexical = normalize_lexically home in
          pred lexical \<or>
          (case resolve_following_symlinks fs lexical of None \<Rightarrow> False | Some resolved \<Rightarrow> pred resolved))"

definition path_is_under_user_grok_hook_root :: "string \<Rightarrow> string \<Rightarrow> bool" where
  "path_is_under_user_grok_hook_root path grok_home \<longleftrightarrow>
     path_starts_with path (path_join grok_home ''hooks'') \<or> path_eq path (path_join grok_home ''hooks-paths'')"

definition protected_grok_hook_root :: "FileSystem \<Rightarrow> string option \<Rightarrow> string \<Rightarrow> string list \<Rightarrow> bool" where
  "protected_grok_hook_root fs home path names \<longleftrightarrow>
     has_window ''.grok'' ''hooks'' names \<or> ends_with names [''.grok'', ''hooks-paths''] \<or>
     grok_home_matches fs home (path_is_under_user_grok_hook_root path)"

definition is_parent :: "string \<Rightarrow> string \<Rightarrow> bool" where
  "is_parent path home \<longleftrightarrow> (case path_parent path of None \<Rightarrow> False | Some parent \<Rightarrow> path_eq parent home)"

definition protected_grok_config_file_with_home ::
  "FileSystem \<Rightarrow> string option \<Rightarrow> string \<Rightarrow> string list \<Rightarrow> ProtectedEditReason option" where
  "protected_grok_config_file_with_home fs home path names =
     (let located = (\<lambda>reason.
            if 2 \<le> length names \<and> names ! (length names - 2) = ''.grok'' \<or> grok_home_matches fs home (is_parent path)
            then Some reason else None)
      in if names = [] then None
         else if last names \<in> set GROK_CONFIG_FILES then located GrokConfig
         else if last names = SANDBOX_CONFIG_FILENAME then located GrokSandbox
         else None)"

definition git_modules_hooks :: "string list \<Rightarrow> nat \<Rightarrow> bool" where
  "git_modules_hooks names git \<longleftrightarrow>
     get names git = Some ''.git'' \<and> get names (git + 1) = Some ''modules'' \<and>
     list_ex (\<lambda>n. n = ''hooks'') (drop 1 (drop (git + 2) names))"

definition protected_git_hooks_path :: "string list \<Rightarrow> bool" where
  "protected_git_hooks_path names \<longleftrightarrow>
     has_window ''.git'' ''hooks'' names \<or> list_ex (git_modules_hooks names) [0..<length names]"

definition protected_edit_reason :: "FileSystem \<Rightarrow> string option \<Rightarrow> string \<Rightarrow> ProtectedEditReason option" where
  "protected_edit_reason fs home path =
     (let names = path_names path; file = (if names = [] then [] else last names) in
      if protected_grok_hook_root fs home path names then Some HookRoot
      else if ends_with names [''.claude'', ''settings.json''] \<or> ends_with names [''.claude'', ''settings.local.json'']
      then Some ClaudeSettings
      else if ends_with names [''.cursor'', ''hooks.json''] then Some CursorHooks
      else if protected_git_hooks_path names then Some GitHooks
      else if ''.ssh'' \<in> set names then Some Ssh
      else if file \<in> set STARTUP_FILES then Some StartupFile
      else case protected_grok_config_file_with_home fs home path names of
             Some reason \<Rightarrow> Some reason
           | None \<Rightarrow>
               if path_eq path ''/etc'' \<or> path_starts_with path ''/etc'' then Some Etc else None)"

definition resolved_path_is_within_root :: "FileSystem \<Rightarrow> string \<Rightarrow> string \<Rightarrow> bool" where
  "resolved_path_is_within_root fs resolved_path root =
     (case resolve_following_symlinks fs root of
        Some resolved_root \<Rightarrow> path_starts_with resolved_path resolved_root
      | None \<Rightarrow> True)"

definition edit_target_protection :: "FileSystem \<Rightarrow> string option \<Rightarrow> string \<Rightarrow> ProtectedEditReason option" where
  "edit_target_protection fs home path =
     (if \<not> is_absolute path then Some Sensitive
      else case protected_edit_reason fs home (normalize_lexically path) of
        Some reason \<Rightarrow> Some reason
      | None \<Rightarrow>
          (case resolve_following_symlinks fs path of
             None \<Rightarrow> Some Sensitive
           | Some resolved \<Rightarrow>
               (case protected_edit_reason fs home resolved of
                  Some reason \<Rightarrow> Some reason
                | None \<Rightarrow> if resolved_path_is_within_root fs resolved ''/etc'' then Some Sensitive else None)))"

section \<open>Which edits pass unconfirmed\<close>

text \<open>The protected places, stated on the names of the path.\<close>

definition guarded_names :: "string list \<Rightarrow> bool" where
  "guarded_names ns \<longleftrightarrow>
     (\<exists>xs ys. ns = xs @ [''.grok'', ''hooks''] @ ys) \<or> (\<exists>xs. ns = xs @ [''.grok'', ''hooks-paths'']) \<or>
     (\<exists>xs f. ns = xs @ [''.claude'', f] \<and> f \<in> {''settings.json'', ''settings.local.json''}) \<or>
     (\<exists>xs. ns = xs @ [''.cursor'', ''hooks.json'']) \<or>
     (\<exists>xs ys. ns = xs @ [''.git'', ''hooks''] @ ys) \<or>
     (\<exists>xs m ys zs. ns = xs @ [''.git'', ''modules'', m] @ ys @ [''hooks''] @ zs) \<or>
     ''.ssh'' \<in> set ns \<or> (\<exists>xs f. ns = xs @ [f] \<and> f \<in> set STARTUP_FILES) \<or>
     (\<exists>xs f. ns = xs @ [''.grok'', f] \<and> f \<in> set (SANDBOX_CONFIG_FILENAME # GROK_CONFIG_FILES))"

text \<open>The places below the grok home and below \<open>/etc\<close>, whose spelling is compared exactly.\<close>

definition guarded_place :: "FileSystem \<Rightarrow> string option \<Rightarrow> string \<Rightarrow> bool" where
  "guarded_place fs home path \<longleftrightarrow>
     path_starts_with path ''/etc'' \<or>
     grok_home_matches fs home (path_is_under_user_grok_hook_root path) \<or>
     path_names path \<noteq> [] \<and> last (path_names path) \<in> set (SANDBOX_CONFIG_FILENAME # GROK_CONFIG_FILES) \<and>
       grok_home_matches fs home (is_parent path)"

lemma git_modules_hooks_iff:
  "list_ex (git_modules_hooks ns) [0..<length ns] \<longleftrightarrow>
   (\<exists>xs m ys zs. ns = xs @ [''.git'', ''modules'', m] @ ys @ [''hooks''] @ zs)"
proof
  assume "list_ex (git_modules_hooks ns) [0..<length ns]"
  then obtain g where g: "ns ! g = ''.git''" "ns ! Suc g = ''modules''" "Suc g < length ns"
    "''hooks'' \<in> set (drop (Suc (g + 2)) ns)"
    by (auto simp: list_ex_iff git_modules_hooks_def get_def split: if_splits)
  obtain ys zs where "drop (Suc (g + 2)) ns = ys @ ''hooks'' # zs" using split_list [OF g(4)] by blast
  moreover from this have "g + 2 < length ns" by (cases "g + 2 < length ns") auto
  ultimately have "ns = take g ns @ [''.git'', ''modules'', ns ! (g + 2)] @ ys @ [''hooks''] @ zs"
    using g id_take_nth_drop [of g ns] Cons_nth_drop_Suc [of "Suc g" ns] Cons_nth_drop_Suc [of "g + 2" ns]
    by simp
  then show "\<exists>xs m ys zs. ns = xs @ [''.git'', ''modules'', m] @ ys @ [''hooks''] @ zs" by blast
next
  assume "\<exists>xs m ys zs. ns = xs @ [''.git'', ''modules'', m] @ ys @ [''hooks''] @ zs"
  then obtain xs m ys zs where "ns = xs @ [''.git'', ''modules'', m] @ ys @ [''hooks''] @ zs" by blast
  then have "git_modules_hooks ns (length xs)" "length xs < length ns"
    by (auto simp: git_modules_hooks_def get_def nth_append list_ex_iff)
  then show "list_ex (git_modules_hooks ns) [0..<length ns]" by (auto simp: list_ex_iff)
qed

lemma last_two_iff: "2 \<le> length ns \<and> ns ! (length ns - 2) = a \<and> last ns = b \<longleftrightarrow> (\<exists>xs. ns = xs @ [a, b])"
proof (cases ns rule: rev_cases)
  case (snoc ms z)
  then show ?thesis by (cases ms rule: rev_cases) (auto simp: nth_append)
qed simp

lemma last_iff: "ns \<noteq> [] \<and> last ns = b \<longleftrightarrow> (\<exists>xs. ns = xs @ [b])"
  by (metis append_butlast_last_id last_snoc snoc_eq_iff_butlast)

lemma config_file_iff:
  "protected_grok_config_file_with_home fs home path ns \<noteq> None \<longleftrightarrow>
   ns \<noteq> [] \<and> last ns \<in> set (SANDBOX_CONFIG_FILENAME # GROK_CONFIG_FILES) \<and>
   (2 \<le> length ns \<and> ns ! (length ns - 2) = ''.grok'' \<or> grok_home_matches fs home (is_parent path))"
  unfolding protected_grok_config_file_with_home_def Let_def by simp

lemma protected_edit_reason_iff:
  "protected_edit_reason fs home path \<noteq> None \<longleftrightarrow> guarded_names (path_names path) \<or> guarded_place fs home path"
proof -
  let ?ns = "path_names path" and ?cfg = "set (SANDBOX_CONFIG_FILENAME # GROK_CONFIG_FILES)"
  have startup: "(if ?ns = [] then [] else last ?ns) \<in> set STARTUP_FILES \<longleftrightarrow>
      (\<exists>xs f. ?ns = xs @ [f] \<and> f \<in> set STARTUP_FILES)"
  proof -
    have "[] \<notin> set STARTUP_FILES" by (simp add: STARTUP_FILES_def)
    then show ?thesis by (cases ?ns rule: rev_cases) auto
  qed
  have cfg: "(\<exists>xs f. ?ns = xs @ [''.grok'', f] \<and> f \<in> ?cfg) \<longleftrightarrow>
      ?ns \<noteq> [] \<and> last ?ns \<in> ?cfg \<and> 2 \<le> length ?ns \<and> ?ns ! (length ?ns - 2) = ''.grok''"
    using last_two_iff [of ?ns "''.grok''"] by (metis append_is_Nil_conv list.distinct(1))
  have etc: "path_eq path ''/etc'' \<Longrightarrow> path_starts_with path ''/etc''"
    by (simp add: path_eq_def path_starts_with_def starts_with_iff)
  show ?thesis
    unfolding protected_edit_reason_def Let_def guarded_names_def guarded_place_def startup cfg
      protected_grok_hook_root_def protected_git_hooks_path_def git_modules_hooks_iff has_window_iff ends_with_iff
    using config_file_iff [of fs home path ?ns] etc
    by (cases "protected_grok_config_file_with_home fs home path ?ns") (simp_all, blast+)
qed

text \<open>
  Exactly which edits pass without confirmation: the target is absolute and resolves through its
  links; neither the spelled path, with its dots folded, nor the resolved one lies in a protected
  place, by the names of its components in any letter case, below the grok home or below \<open>/etc\<close>; and
  \<open>/etc\<close> itself resolves to a directory that does not contain the target.
\<close>

theorem edit_passes_iff:
  "edit_target_protection fs home path = None \<longleftrightarrow>
   is_absolute path \<and>
   \<not> guarded_names (path_names (normalize_lexically path)) \<and> \<not> guarded_place fs home (normalize_lexically path) \<and>
   (\<exists>r e. resolve_following_symlinks fs path = Some r \<and> resolve_following_symlinks fs ''/etc'' = Some e \<and>
      \<not> guarded_names (path_names r) \<and> \<not> guarded_place fs home r \<and> \<not> path_starts_with r e)"
proof -
  have none: "protected_edit_reason fs home p = None \<longleftrightarrow> \<not> guarded_names (path_names p) \<and> \<not> guarded_place fs home p" for p
    using protected_edit_reason_iff [of fs home p] by blast
  have "edit_target_protection fs home path = None \<longleftrightarrow>
      is_absolute path \<and> protected_edit_reason fs home (normalize_lexically path) = None \<and>
      (\<exists>r e. resolve_following_symlinks fs path = Some r \<and> resolve_following_symlinks fs ''/etc'' = Some e \<and>
         protected_edit_reason fs home r = None \<and> \<not> path_starts_with r e)"
    unfolding edit_target_protection_def resolved_path_is_within_root_def by (auto split: option.split)
  then show ?thesis unfolding none by blast
qed

end
