(* ===== verification/Security_Findings.thy ===== *)
theory Security_Findings
  imports Shell_Access Exec_Risk
begin

text \<open>
  What static analysis reports about a Bash request: the findings of
  \<open>permission/auto_mode/security_findings.rs\<close>, kept as an ordered set, and the risk of the environment
  variables a script sets (\<open>script_env_risk\<close>, \<open>command_env_risk\<close> of \<open>permission/auto_mode/mod.rs\<close>).
\<close>

section \<open>Findings\<close>

datatype ClassifierSecurityFinding =
  FailClosedPolicy | UnparseableShell | OpaqueShell | ExecOrAmbientGit | EnvInjection | UnvettedEnv
| FileWrite | DangerousCommand | SpecialExecSurface

definition ALL_FINDINGS :: "ClassifierSecurityFinding list" where
  "ALL_FINDINGS =
     [FailClosedPolicy, UnparseableShell, OpaqueShell, ExecOrAmbientGit, EnvInjection, UnvettedEnv,
      FileWrite, DangerousCommand, SpecialExecSurface]"

fun finding_token :: "ClassifierSecurityFinding \<Rightarrow> string" where
  "finding_token FailClosedPolicy = ''fail_closed_policy''"
| "finding_token UnparseableShell = ''unparseable_shell''"
| "finding_token OpaqueShell = ''opaque_shell''"
| "finding_token ExecOrAmbientGit = ''exec_or_ambient_git''"
| "finding_token EnvInjection = ''env_injection''"
| "finding_token UnvettedEnv = ''unvetted_env''"
| "finding_token FileWrite = ''file_write''"
| "finding_token DangerousCommand = ''dangerous_command''"
| "finding_token SpecialExecSurface = ''special_exec_surface''"

fun finding_description :: "ClassifierSecurityFinding \<Rightarrow> string" where
  "finding_description FailClosedPolicy = ''permission policy could not determine whether a rule applies''"
| "finding_description UnparseableShell = ''shell structure could not be fully parsed''"
| "finding_description OpaqueShell = ''invokes a nested or dynamically supplied shell command''"
| "finding_description ExecOrAmbientGit = ''may run code via an execution callback or ambient Git configuration''"
| "finding_description EnvInjection = ''sets environment variables that can change which code executes''"
| "finding_description UnvettedEnv = ''sets environment variables outside the known-safe set''"
| "finding_description FileWrite = ''writes to a real file rather than a sink''"
| "finding_description DangerousCommand = ''a destructive or high-impact command''"
| "finding_description SpecialExecSurface = ''options or tools that can write arbitrary output, execute code, override config/identity, or disclose the process environment''"

fun is_grant_floor :: "ClassifierSecurityFinding \<Rightarrow> bool" where
  "is_grant_floor FileWrite = True"
| "is_grant_floor UnvettedEnv = True"
| "is_grant_floor EnvInjection = True"
| "is_grant_floor OpaqueShell = True"
| "is_grant_floor ExecOrAmbientGit = True"
| "is_grant_floor SpecialExecSurface = True"
| "is_grant_floor DangerousCommand = False"
| "is_grant_floor UnparseableShell = False"
| "is_grant_floor FailClosedPolicy = False"

text \<open>The derived order is the order of the variants.\<close>

fun finding_index :: "ClassifierSecurityFinding \<Rightarrow> nat" where
  "finding_index FailClosedPolicy = 0"
| "finding_index UnparseableShell = 1"
| "finding_index OpaqueShell = 2"
| "finding_index ExecOrAmbientGit = 3"
| "finding_index EnvInjection = 4"
| "finding_index UnvettedEnv = 5"
| "finding_index FileWrite = 6"
| "finding_index DangerousCommand = 7"
| "finding_index SpecialExecSurface = 8"

lemma finding_index_inj: "finding_index a = finding_index b \<Longrightarrow> a = b"
  by (cases a; cases b) simp_all

instantiation ClassifierSecurityFinding :: linorder
begin

definition less_eq_ClassifierSecurityFinding :: "ClassifierSecurityFinding \<Rightarrow> ClassifierSecurityFinding \<Rightarrow> bool" where
  "less_eq_ClassifierSecurityFinding a b \<longleftrightarrow> finding_index a \<le> finding_index b"

definition less_ClassifierSecurityFinding :: "ClassifierSecurityFinding \<Rightarrow> ClassifierSecurityFinding \<Rightarrow> bool" where
  "less_ClassifierSecurityFinding a b \<longleftrightarrow> finding_index a < finding_index b"

instance
  by standard
    (auto simp: less_eq_ClassifierSecurityFinding_def less_ClassifierSecurityFinding_def dest: finding_index_inj)

end

section \<open>The assessment, an ordered set\<close>

text \<open>\<open>BTreeSet\<close>: its elements in ascending order.\<close>

type_synonym BashSecurityAssessment = "ClassifierSecurityFinding list"

definition assessment_insert :: "ClassifierSecurityFinding \<Rightarrow> BashSecurityAssessment \<Rightarrow> BashSecurityAssessment" where
  "assessment_insert f a = insort_insert f a"

definition assessment_insert_if :: "bool \<Rightarrow> ClassifierSecurityFinding \<Rightarrow> BashSecurityAssessment \<Rightarrow> BashSecurityAssessment" where
  "assessment_insert_if b f a = (if b then assessment_insert f a else a)"

definition assessment_contains :: "ClassifierSecurityFinding \<Rightarrow> BashSecurityAssessment \<Rightarrow> bool" where
  "assessment_contains f a \<longleftrightarrow> f \<in> set a"

definition constrains_broad_grant :: "BashSecurityAssessment \<Rightarrow> bool" where
  "constrains_broad_grant a = list_ex is_grant_floor a"

definition is_file_write_only :: "BashSecurityAssessment \<Rightarrow> bool" where
  "is_file_write_only a \<longleftrightarrow> length a = 1 \<and> FileWrite \<in> set a"

definition assessment_tokens :: "BashSecurityAssessment \<Rightarrow> string list" where
  "assessment_tokens a = map finding_token a"

definition render_glossary :: "BashSecurityAssessment \<Rightarrow> string" where
  "render_glossary a =
     join [CHR 0x0A] (map (\<lambda>f. ''- '' @ finding_token f @ '': '' @ finding_description f) a)"

definition assessment_ok :: "BashSecurityAssessment \<Rightarrow> bool" where
  "assessment_ok a \<longleftrightarrow> sorted a \<and> distinct a"

lemma assessment_insert_ok: "assessment_ok a \<Longrightarrow> assessment_ok (assessment_insert f a)"
  by (auto simp: assessment_ok_def assessment_insert_def sorted_insort_insert distinct_insort_insert)

lemma set_assessment_insert [simp]: "set (assessment_insert f a) = insert f (set a)"
  by (simp add: assessment_insert_def set_insort_insert)

lemma set_assessment_insert_if [simp]:
  "set (assessment_insert_if b f a) = (if b then insert f (set a) else set a)"
  by (simp add: assessment_insert_if_def)

section \<open>Environment variables\<close>

datatype EnvRisk = Safe | Unvetted | Injection

fun env_risk_rank :: "EnvRisk \<Rightarrow> nat" where
  "env_risk_rank Safe = 0"
| "env_risk_rank Unvetted = 1"
| "env_risk_rank Injection = 2"

lemma env_risk_rank_inj: "env_risk_rank a = env_risk_rank b \<Longrightarrow> a = b"
  by (cases a; cases b) simp_all

instantiation EnvRisk :: linorder
begin

definition less_eq_EnvRisk :: "EnvRisk \<Rightarrow> EnvRisk \<Rightarrow> bool" where
  "less_eq_EnvRisk a b \<longleftrightarrow> env_risk_rank a \<le> env_risk_rank b"

definition less_EnvRisk :: "EnvRisk \<Rightarrow> EnvRisk \<Rightarrow> bool" where
  "less_EnvRisk a b \<longleftrightarrow> env_risk_rank a < env_risk_rank b"

instance
  by standard (auto simp: less_eq_EnvRisk_def less_EnvRisk_def dest: env_risk_rank_inj)

end

definition SAFE_ENV_KEYS :: "string list" where
  "SAFE_ENV_KEYS =
     [''CARGO_TERM_COLOR'', ''CARGO_TERM_PROGRESS_WHEN'', ''RUST_LOG'', ''RUST_LOG_STYLE'', ''RUST_BACKTRACE'',
      ''RUST_TEST_THREADS'', ''RUST_MIN_STACK'', ''NO_COLOR'', ''CLICOLOR'', ''CLICOLOR_FORCE'', ''FORCE_COLOR'',
      ''COLORTERM'']"

definition INJECTION_ENV_KEYS :: "string list" where
  "INJECTION_ENV_KEYS =
     [''LD_PRELOAD'', ''LD_AUDIT'', ''BASH_ENV'', ''ENV'', ''IFS'', ''PATH'', ''GIT_EXTERNAL_DIFF'',
      ''GIT_PROXY_COMMAND'', ''PROMPT_COMMAND'']"

definition INJECTION_ENV_KEY_PREFIXES :: "string list" where
  "INJECTION_ENV_KEY_PREFIXES = [''DYLD_'', ''GIT_CONFIG'']"

definition is_safe_env_key :: "string \<Rightarrow> bool" where
  "is_safe_env_key key \<longleftrightarrow> key \<in> set SAFE_ENV_KEYS"

definition env_key_risk :: "string \<Rightarrow> EnvRisk" where
  "env_key_risk key =
     (if is_safe_env_key key then Safe
      else if key \<in> set INJECTION_ENV_KEYS \<or> list_ex (starts_with key) INJECTION_ENV_KEY_PREFIXES then Injection
      else Unvetted)"

definition assignment_key :: "ts_node \<Rightarrow> string \<Rightarrow> string" where
  "assignment_key n src =
     (case find (\<lambda>c. node_kind c = ''variable_name'') (node_children n) of
        Some child \<Rightarrow> utf8_text child src
      | None \<Rightarrow> before_first CHR ''='' (utf8_text n src))"

text \<open>The arguments of one \<open>env\<close>: \<open>None\<close> when an option settles the risk at once.\<close>

fun env_args_risk :: "words \<Rightarrow> bool \<Rightarrow> EnvRisk \<Rightarrow> EnvRisk option" where
  "env_args_risk [] options_done risk = Some risk"
| "env_args_risk (arg # args) options_done risk =
     (if arg = ''--'' then env_args_risk args True risk
      else if \<not> options_done \<and> starts_with arg ''-'' then None
      else case split_once CHR ''='' arg of
             Some (key, _) \<Rightarrow> env_args_risk args options_done (max risk (env_key_risk key))
           | None \<Rightarrow> Some risk)"

definition env_round_risk :: "words \<Rightarrow> EnvRisk \<Rightarrow> EnvRisk option" where
  "env_round_risk current risk =
     (if map_option last_component (first current) = Some ''env'' then env_args_risk (drop 1 current) False risk
      else Some risk)"

fun command_env_risk_loop :: "nat \<Rightarrow> words \<Rightarrow> EnvRisk \<Rightarrow> EnvRisk" where
  "command_env_risk_loop 0 current risk = risk"
| "command_env_risk_loop (Suc rounds) current risk =
     (case env_round_risk current risk of
        None \<Rightarrow> Injection
      | Some risk \<Rightarrow>
          (case strip_wrapper_command current of
             Some inner \<Rightarrow> command_env_risk_loop rounds inner risk
           | None \<Rightarrow> risk))"

definition command_env_risk :: "words \<Rightarrow> EnvRisk" where
  "command_env_risk ws = command_env_risk_loop 8 ws Safe"

definition assignment_risk :: "string \<Rightarrow> ts_node \<Rightarrow> EnvRisk" where
  "assignment_risk src n =
     (if node_kind n = ''variable_assignment'' then env_key_risk (assignment_key n src) else Safe)"

text \<open>The walk pushes all children, as the readers of the shell gate do; \<open>Safe\<close> is the neutral risk.\<close>

definition script_env_risk :: "ts_node \<Rightarrow> string \<Rightarrow> PlainCommand list \<Rightarrow> EnvRisk" where
  "script_env_risk root src cmds =
     (let risk = foldl (\<lambda>risk c. max risk (assignment_risk src (fst c))) Safe (tree_walk [root_cursor root])
      in foldl (\<lambda>risk c. max risk (command_env_risk (pc_words c))) risk cmds)"

lemma Safe_least [simp]: "Safe \<le> r" "max Safe r = r" "max r Safe = r"
  by (simp_all add: less_eq_EnvRisk_def max_def) (cases r; simp add: less_eq_EnvRisk_def)+

lemma foldl_max_ge: "(a :: 'b :: linorder) \<le> foldl (\<lambda>r x. max r (f x)) a xs"
  by (induction xs arbitrary: a) (auto intro: order_trans [OF max.cobounded1])

lemma foldl_max_mem_ge: "x \<in> set xs \<Longrightarrow> f x \<le> foldl (\<lambda>r x. max r (f x)) (a :: 'b :: linorder) xs"
proof (induction xs arbitrary: a)
  case (Cons y ys)
  then show ?case using foldl_max_ge [of "max a (f y)" f ys] by auto
qed simp

lemma foldl_max_cases:
  "foldl (\<lambda>r x. max r (f x)) (a :: 'b :: linorder) xs = a \<or> (\<exists>x \<in> set xs. foldl (\<lambda>r x. max r (f x)) a xs = f x)"
proof (induction xs arbitrary: a)
  case (Cons y ys)
  from Cons [of "max a (f y)"] show ?case by (auto simp: max_def split: if_splits)
qed simp

lemma Injection_top [simp]: "r \<le> Injection"
  by (cases r) (simp_all add: less_eq_EnvRisk_def)

lemma env_args_risk_ge: "env_args_risk args b r = Some r' \<Longrightarrow> r \<le> r'"
proof (induction args arbitrary: b r)
  case (Cons arg args)
  show ?case
  proof (cases "arg = ''--'' \<or> \<not> b \<and> starts_with arg ''-''")
    case True
    then show ?thesis using Cons by (auto split: if_splits)
  next
    case False
    then show ?thesis
      using Cons.prems Cons.IH [of b "max r (env_key_risk (fst (the (split_once CHR ''='' arg))))"]
      by (cases "split_once CHR ''='' arg") (auto simp: split_beta)
  qed
qed simp

text \<open>The assignments before the command that \<open>env\<close> runs.\<close>

definition env_operands :: "words \<Rightarrow> words" where
  "env_operands args = takeWhile (\<lambda>a. a = ''--'' \<or> CHR ''='' \<in> set a) args"

lemma env_args_risk_key:
  assumes "arg \<in> set (env_operands args)" and "split_once CHR ''='' arg = Some (key, v)"
    and "env_args_risk args b r = Some r'"
  shows "env_key_risk key \<le> r'"
  using assms
proof (induction args arbitrary: b r)
  case (Cons a args)
  have arg: "CHR ''='' \<in> set arg" using Cons.prems(2) by (auto simp: split_once_Some)
  show ?case
  proof (cases "a = ''--''")
    case True
    then have "arg \<noteq> a" using arg by auto
    then show ?thesis using Cons True by (auto simp: env_operands_def split: if_splits)
  next
    case False
    note nd = False
    then obtain k w where a: "split_once CHR ''='' a = Some (k, w)"
      using Cons.prems(1) by (cases "split_once CHR ''='' a") (auto simp: env_operands_def split_once_None split: if_splits)
    have rest: "env_args_risk args b (max r (env_key_risk k)) = Some r'"
      using Cons.prems(3) a nd by (simp split: if_splits)
    show ?thesis
    proof (cases "arg = a")
      case True
      then show ?thesis using env_args_risk_ge [OF rest] a Cons.prems(2) by auto
    next
      case False
      then have "arg \<in> set (env_operands args)"
        using Cons.prems(1) by (auto simp: env_operands_def split: if_splits)
      from Cons.IH [OF this Cons.prems(2) rest] show ?thesis .
    qed
  qed
qed (simp add: env_operands_def)

lemma command_env_risk_loop_ge: "r \<le> command_env_risk_loop n ws r"
proof (induction n arbitrary: ws r)
  case (Suc n)
  show ?case
  proof (cases "env_round_risk ws r")
    case (Some r')
    then have "r \<le> r'" by (auto simp: env_round_risk_def split: if_splits dest: env_args_risk_ge)
    also have "r' \<le> (case strip_wrapper_command ws of Some i \<Rightarrow> command_env_risk_loop n i r' | None \<Rightarrow> r')"
      using Suc by (simp split: option.split)
    finally show ?thesis using Some by simp
  qed simp
qed simp

text \<open>A command behind \<open>n\<close> wrappers.\<close>

inductive wraps :: "nat \<Rightarrow> words \<Rightarrow> words \<Rightarrow> bool" where
  wraps_self: "wraps 0 ws ws"
| wraps_step: "strip_wrapper_command ws = Some inner \<Longrightarrow> wraps n inner vs \<Longrightarrow> wraps (Suc n) ws vs"

lemma command_env_risk_loop_wraps:
  assumes "wraps n ws current" and "n < rounds"
    and "map_option last_component (first current) = Some ''env''"
    and "arg \<in> set (env_operands (drop 1 current))" and "split_once CHR ''='' arg = Some (key, v)"
  shows "env_key_risk key \<le> command_env_risk_loop rounds ws r"
  using assms
proof (induction arbitrary: rounds r rule: wraps.induct)
  case (wraps_self ws)
  then obtain m where "rounds = Suc m" by (cases rounds) auto
  then show ?case
    using env_args_risk_key [OF wraps_self.prems(3,4)] wraps_self.prems(2) command_env_risk_loop_ge
    by (auto simp: env_round_risk_def split: option.split intro: order_trans [OF _ command_env_risk_loop_ge])
next
  case (wraps_step ws inner n vs)
  then obtain m where "rounds = Suc m" "n < m" by (cases rounds) auto
  then show ?case using wraps_step by (auto split: option.split)
qed

lemma script_env_risk_command:
  "c \<in> set cmds \<Longrightarrow> command_env_risk (pc_words c) \<le> script_env_risk root src cmds"
  unfolding script_env_risk_def Let_def by (rule foldl_max_mem_ge [of c cmds "\<lambda>c. command_env_risk (pc_words c)"])

lemma env_risk_le_Safe: "r \<le> Safe \<Longrightarrow> r = Safe"
  by (cases r) (simp_all add: less_eq_EnvRisk_def)

text \<open>
  No environment variable hides from the risk. The risk of a script is at least that of every
  variable it assigns: by an assignment node anywhere in the tree, or by an operand of an \<open>env\<close> that
  stands behind at most seven wrappers of one of its commands. And it is the safe tier exactly when
  every assignment and every command on its own is.
\<close>

theorem script_env_risk_complete:
  "(\<forall>n. n \<in> set (all_nodes root) \<and> node_kind n = ''variable_assignment'' \<longrightarrow>
      env_key_risk (assignment_key n src) \<le> script_env_risk root src cmds) \<and>
   (\<forall>c k current arg key v. c \<in> set cmds \<and> wraps k (pc_words c) current \<and> k < 8 \<and>
      map_option last_component (first current) = Some ''env'' \<and>
      arg \<in> set (env_operands (drop 1 current)) \<and> split_once CHR ''='' arg = Some (key, v) \<longrightarrow>
      env_key_risk key \<le> script_env_risk root src cmds) \<and>
   (script_env_risk root src cmds = Safe \<longleftrightarrow>
      (\<forall>n \<in> set (all_nodes root). node_kind n = ''variable_assignment'' \<longrightarrow> env_key_risk (assignment_key n src) = Safe) \<and>
      (\<forall>c \<in> set cmds. command_env_risk (pc_words c) = Safe))"
proof -
  let ?tree = "foldl (\<lambda>risk c. max risk (assignment_risk src (fst c))) Safe (tree_walk [root_cursor root])"
  have all: "script_env_risk root src cmds = foldl (\<lambda>risk c. max risk (command_env_risk (pc_words c))) ?tree cmds"
    by (simp add: script_env_risk_def)
  have tree_le: "?tree \<le> script_env_risk root src cmds" unfolding all by (rule foldl_max_ge)
  have node: "assignment_risk src n \<le> script_env_risk root src cmds" if "n \<in> set (all_nodes root)" for n
  proof -
    from that obtain c where c: "c \<in> set (tree_walk [root_cursor root])" "fst c = n"
      using walk_nodes [of root] by (metis image_iff set_map)
    show ?thesis
      using foldl_max_mem_ge [OF c(1), of "\<lambda>c. assignment_risk src (fst c)" Safe] c(2) tree_le by simp
  qed
  note cmd = script_env_risk_command [of _ cmds root src] and safe = env_risk_le_Safe
  have sound: "script_env_risk root src cmds = Safe"
    if n: "\<forall>n \<in> set (all_nodes root). node_kind n = ''variable_assignment'' \<longrightarrow> env_key_risk (assignment_key n src) = Safe"
      and c: "\<forall>c \<in> set cmds. command_env_risk (pc_words c) = Safe"
  proof -
    have "assignment_risk src (fst c) = Safe" if "c \<in> set (tree_walk [root_cursor root])" for c
    proof -
      have "fst c \<in> set (all_nodes root)" unfolding walk_nodes [symmetric] set_map using that by (rule imageI)
      then show ?thesis using n by (simp add: assignment_risk_def)
    qed
    then have "?tree = Safe"
      using foldl_max_cases [of "\<lambda>c. assignment_risk src (fst c)" Safe "tree_walk [root_cursor root]"] by auto
    then show ?thesis
      unfolding all using foldl_max_cases [of "\<lambda>c. command_env_risk (pc_words c)" Safe cmds] c by auto
  qed
  have inline: "env_key_risk (assignment_key n src) \<le> script_env_risk root src cmds"
    if "n \<in> set (all_nodes root)" "node_kind n = ''variable_assignment''" for n
    using node [OF that(1)] that(2) by (simp add: assignment_risk_def)
  have behind: "env_key_risk key \<le> script_env_risk root src cmds"
    if "c \<in> set cmds" "wraps k (pc_words c) current" "k < 8" "map_option last_component (first current) = Some ''env''"
      "arg \<in> set (env_operands (drop 1 current))" "split_once CHR ''='' arg = Some (key, v)" for c k current arg key v
    using command_env_risk_loop_wraps [OF that(2-6), of Safe] cmd [OF that(1)]
    by (simp add: command_env_risk_def)
  have "env_key_risk (assignment_key n src) = Safe"
    if "script_env_risk root src cmds = Safe" "n \<in> set (all_nodes root)" "node_kind n = ''variable_assignment''" for n
    using inline [OF that(2,3)] that(1) safe by simp
  moreover have "command_env_risk (pc_words c) = Safe" if "script_env_risk root src cmds = Safe" "c \<in> set cmds" for c
    using cmd [OF that(2)] that(1) safe by simp
  ultimately show ?thesis using inline behind sound by blast
qed

text \<open>\<open>timeout 5 env LD_PRELOAD=x ls\<close>.\<close>

theorem script_env_risk_complete_witness:
  "script_env_risk (Node ''program'' True None 0 0 []) []
     [\<lparr>pc_words = [''timeout'', ''5'', ''env'', ''LD_PRELOAD=x'', ''ls''], pc_span_start = 0, pc_span_end = 0\<rparr>] = Injection"
proof -
  let ?c = "\<lparr>pc_words = [''timeout'', ''5'', ''env'', ''LD_PRELOAD=x'', ''ls''], pc_span_start = 0, pc_span_end = 0\<rparr>"
  have "strip_wrapper_command (pc_words ?c) = Some [''env'', ''LD_PRELOAD=x'', ''ls'']" by code_simp
  then have w: "wraps 1 (pc_words ?c) [''env'', ''LD_PRELOAD=x'', ''ls'']"
    using wraps_step [OF _ wraps_self] by (metis One_nat_def)
  have facts: "map_option last_component (first [''env'', ''LD_PRELOAD=x'', ''ls'']) = Some ''env''"
    "''LD_PRELOAD=x'' \<in> set (env_operands (drop 1 [''env'', ''LD_PRELOAD=x'', ''ls'']))"
    "split_once CHR ''='' ''LD_PRELOAD=x'' = Some (''LD_PRELOAD'', ''x'')" "(1::nat) < 8"
    "env_key_risk ''LD_PRELOAD'' = Injection"
    by code_simp+
  have "env_key_risk ''LD_PRELOAD'' \<le> script_env_risk (Node ''program'' True None 0 0 []) [] [?c]"
    by (rule script_env_risk_complete [THEN conjunct2, THEN conjunct1, rule_format, of ?c _ 1, OF conjI, OF _ conjI,
          OF _ w conjI, OF _ facts(4) conjI, OF _ facts(1) conjI, OF _ facts(2,3)]) simp
  then show ?thesis unfolding facts(5) by (rule antisym [OF Injection_top])
qed

end
