(* ===== verification/Domain_Matcher.thy ===== *)
theory Domain_Matcher
  imports Permission_Match
begin

text \<open>
  Which hosts may be fetched: the precomputed domain allowlist \<open>DomainMatcher\<close> of
  \<open>xai-grok-tools/src/implementations/grok_build/web_fetch/domain.rs\<close> and the remembered denials of
  \<open>permission/manager/mod.rs\<close>. A URL is the part of the \<open>url\<close> crate's value that is read: its host
  and its path.
\<close>

record Url =
  host_str :: "string option"
  url_path :: string

section \<open>The allowlist\<close>

datatype HostEntry = AnyPath | PathPrefixes "string list"

type_synonym DomainMatcher = "string \<rightharpoonup> HostEntry"

text \<open>The host of a normalised entry, and its path from the first slash on.\<close>

definition split_entry :: "string \<Rightarrow> string \<times> string option" where
  "split_entry normalized =
     (case split_once slash normalized of
        Some (host, rest) \<Rightarrow> (host, Some (slash # rest))
      | None \<Rightarrow> (normalized, None))"

definition entry_prefix :: "string \<Rightarrow> string option" where
  "entry_prefix raw_path =
     (let p = trim_end_byte slash raw_path in
      if p = [] \<or> p = ''/'' then None else Some (if starts_with p ''/'' then p else slash # p))"

definition add_prefix :: "string \<Rightarrow> string \<Rightarrow> DomainMatcher \<Rightarrow> DomainMatcher" where
  "add_prefix host p entries =
     (case entries host of
        Some (PathPrefixes v) \<Rightarrow> if p \<in> set v then entries else entries(host \<mapsto> PathPrefixes (v @ [p]))
      | Some AnyPath \<Rightarrow> entries
      | None \<Rightarrow> entries(host \<mapsto> PathPrefixes [p]))"

definition add_entry :: "'g env \<Rightarrow> DomainMatcher \<Rightarrow> string \<Rightarrow> DomainMatcher" where
  "add_entry env entries raw =
     (let normalized = normalize_domain env raw in
      if normalized = [] then entries
      else case split_entry normalized of
             (host, None) \<Rightarrow> entries(host \<mapsto> AnyPath)
           | (host, Some raw_path) \<Rightarrow>
               if entries host = Some AnyPath then entries
               else case entry_prefix raw_path of
                      None \<Rightarrow> entries(host \<mapsto> AnyPath)
                    | Some p \<Rightarrow> add_prefix host p entries)"

definition domain_matcher_new :: "'g env \<Rightarrow> string list \<Rightarrow> DomainMatcher" where
  "domain_matcher_new env raw_entries = foldl (add_entry env) Map.empty raw_entries"

definition path_under :: "string \<Rightarrow> string \<Rightarrow> bool" where
  "path_under path p \<longleftrightarrow> path = p \<or> starts_with path p \<and> get path (length p) = Some slash"

text \<open>\<open>None\<close> permits the URL; otherwise the host that is not allowed.\<close>

definition domain_check :: "'g env \<Rightarrow> DomainMatcher \<Rightarrow> Url \<Rightarrow> string option" where
  "domain_check env entries url =
     (case host_str url of
        None \<Rightarrow> Some []
      | Some raw_host \<Rightarrow>
          let host = normalize_domain env raw_host in
          case entries host of
            Some AnyPath \<Rightarrow> None
          | Some (PathPrefixes ps) \<Rightarrow>
              if list_ex (path_under (str_to_lowercase env (url_path url))) ps then None else Some host
          | None \<Rightarrow> Some host)"

section \<open>The table means what the entries say\<close>

text \<open>One entry: the host, and the path prefix it is restricted to, if any.\<close>

definition parsed_entry :: "'g env \<Rightarrow> string \<Rightarrow> (string \<times> string option) option" where
  "parsed_entry env raw =
     (let normalized = normalize_domain env raw in
      if normalized = [] then None
      else case split_entry normalized of
             (host, None) \<Rightarrow> Some (host, None)
           | (host, Some raw_path) \<Rightarrow> Some (host, entry_prefix raw_path))"

definition entry_permits :: "'g env \<Rightarrow> string \<Rightarrow> string \<Rightarrow> string \<Rightarrow> bool" where
  "entry_permits env host path raw =
     (case parsed_entry env raw of
        None \<Rightarrow> False
      | Some (h, None) \<Rightarrow> h = host
      | Some (h, Some p) \<Rightarrow> h = host \<and> path_under path p)"

fun host_ok :: "HostEntry option \<Rightarrow> (string \<times> string option) set \<Rightarrow> string \<Rightarrow> bool" where
  "host_ok None es h \<longleftrightarrow> (\<forall>p. (h, p) \<notin> es)"
| "host_ok (Some AnyPath) es h \<longleftrightarrow> (h, None) \<in> es"
| "host_ok (Some (PathPrefixes ps)) es h \<longleftrightarrow> (h, None) \<notin> es \<and> set ps = {p. (h, Some p) \<in> es}"

definition table_ok :: "DomainMatcher \<Rightarrow> (string \<times> string option) set \<Rightarrow> bool" where
  "table_ok entries es \<longleftrightarrow> (\<forall>h. host_ok (entries h) es h)"

lemma host_ok_other: "h' \<noteq> h \<Longrightarrow> host_ok e (insert (h, q) es) h' \<longleftrightarrow> host_ok e es h'"
  by (cases "(e, es, h')" rule: host_ok.cases) auto

lemma add_entry_parsed:
  "add_entry env entries raw =
     (case parsed_entry env raw of
        None \<Rightarrow> entries
      | Some (h, None) \<Rightarrow> entries(h \<mapsto> AnyPath)
      | Some (h, Some p) \<Rightarrow> add_prefix h p entries)"
  by (auto simp: add_entry_def parsed_entry_def add_prefix_def Let_def fun_upd_idem split: option.splits prod.splits)

lemma table_ok_add_prefix:
  assumes "table_ok entries es"
  shows "table_ok (add_prefix h p entries) (insert (h, Some p) es)"
  unfolding table_ok_def
proof
  fix h'
  have ok: "host_ok (entries h') es h'" using assms by (simp add: table_ok_def)
  show "host_ok (add_prefix h p entries h') (insert (h, Some p) es) h'"
  proof (cases "h' = h")
    case True
    then show ?thesis
      using ok by (cases "(entries h, es, h)" rule: host_ok.cases) (auto simp: add_prefix_def)
  next
    case False
    then show ?thesis
      using ok by (auto simp: host_ok_other add_prefix_def split: option.split HostEntry.split)
  qed
qed

lemma table_ok_add_any: "table_ok entries es \<Longrightarrow> table_ok (entries(h \<mapsto> AnyPath)) (insert (h, None) es)"
  by (simp add: table_ok_def host_ok_other)

lemma table_ok_fold:
  assumes "table_ok entries es"
  shows "table_ok (foldl (add_entry env) entries raws) (es \<union> {e. \<exists>raw \<in> set raws. parsed_entry env raw = Some e})"
  using assms
proof (induction raws arbitrary: entries es)
  case (Cons raw raws)
  show ?case
  proof (cases "parsed_entry env raw")
    case None
    with Cons show ?thesis by (simp add: add_entry_parsed)
  next
    case (Some e)
    obtain h q where e: "e = (h, q)" by (cases e)
    have "table_ok (add_entry env entries raw) (insert e es)"
      using Some e table_ok_add_prefix [OF Cons.prems] table_ok_add_any [OF Cons.prems]
      by (cases q) (simp_all add: add_entry_parsed)
    from Cons.IH [OF this] have "table_ok (foldl (add_entry env) entries (raw # raws))
        (insert e es \<union> {e. \<exists>raw \<in> set raws. parsed_entry env raw = Some e})"
      by (simp only: foldl.simps)
    moreover have "insert e es \<union> {e. \<exists>raw \<in> set raws. parsed_entry env raw = Some e} =
        es \<union> {e. \<exists>raw \<in> set (raw # raws). parsed_entry env raw = Some e}"
      using Some by auto
    ultimately show ?thesis by (simp only:)
  qed
qed simp

text \<open>
  The precomputed table permits a URL exactly when one entry of the allowlist does, taken on its
  own: an entry without a path permits every path of its host, an entry with a path only that path and
  what lies below it. So neither the order of the entries nor duplicates nor a later, narrower entry
  changes what may be fetched.
\<close>

theorem domain_check_exact:
  "domain_check env (domain_matcher_new env raws) url = None \<longleftrightarrow>
   (\<exists>raw_host. host_str url = Some raw_host \<and>
      (\<exists>raw \<in> set raws. entry_permits env (normalize_domain env raw_host) (str_to_lowercase env (url_path url)) raw))"
proof (cases "host_str url")
  case (Some raw_host)
  let ?h = "normalize_domain env raw_host" and ?p = "str_to_lowercase env (url_path url)"
  let ?es = "{e. \<exists>raw \<in> set raws. parsed_entry env raw = Some e}"
  have ok: "table_ok (domain_matcher_new env raws) ?es"
    using table_ok_fold [of Map.empty "{}" env raws] by (simp add: domain_matcher_new_def table_ok_def)
  have permits: "entry_permits env ?h ?p raw \<longleftrightarrow>
      parsed_entry env raw = Some (?h, None) \<or> (\<exists>p. parsed_entry env raw = Some (?h, Some p) \<and> path_under ?p p)" for raw
  proof (cases "parsed_entry env raw")
    case (Some e)
    then show ?thesis by (cases e; cases "snd e") (auto simp: entry_permits_def)
  qed (simp add: entry_permits_def)
  have spec: "(\<exists>raw \<in> set raws. entry_permits env ?h ?p raw) \<longleftrightarrow>
      (?h, None) \<in> ?es \<or> (\<exists>p. (?h, Some p) \<in> ?es \<and> path_under ?p p)"
    unfolding permits by blast
  have check: "domain_check env (domain_matcher_new env raws) url = None \<longleftrightarrow>
      domain_matcher_new env raws ?h = Some AnyPath \<or>
      (\<exists>ps. domain_matcher_new env raws ?h = Some (PathPrefixes ps) \<and> (\<exists>p \<in> set ps. path_under ?p p))"
    by (auto simp: domain_check_def Some Let_def list_ex_iff split: option.split HostEntry.split)
  from ok have "host_ok (domain_matcher_new env raws ?h) ?es ?h" by (simp add: table_ok_def)
  then show ?thesis
    unfolding check using spec Some
    by (cases "(domain_matcher_new env raws ?h, ?es, ?h)" rule: host_ok.cases) auto
qed (simp add: domain_check_def)

end
