(* ===== verification/Session_Grants.thy ===== *)
theory Session_Grants
  imports Security_Findings Domain_Matcher
begin

text \<open>
  What a session remembers and which commands need no question: \<open>PermissionState\<close> and its merge
  (\<open>permission/state.rs\<close>), the lookups of MCP tools and web hosts, the built-in lists of safe and of
  dangerous commands, and the scopes of an "always allow" (\<open>permission/manager/mod.rs\<close>). A hash set is
  the list of its elements in the order in which it happens to be iterated; nothing proved here
  depends on that order.
\<close>

section \<open>The remembered state\<close>

datatype EditPolicy = Ask | Allow | Reject

record PermissionState =
  edit_policy :: EditPolicy
  allow_bash_execute :: bool
  allowed_bash_commands :: "string list"
  disallowed_bash_commands :: "string list"
  allowed_bash_globs :: "string list"
  allowed_web_fetch_domains :: "string list"
  allowed_mcp_tools :: "string list"
  allowed_mcp_servers :: "string list"
  disallowed_mcp_tools :: "string list"
  disallowed_web_fetch_domains :: "string list"
  validated_mcp_server_grants_version :: int

definition VALIDATED_MCP_SERVER_GRANTS_VERSION :: int where
  "VALIDATED_MCP_SERVER_GRANTS_VERSION = 1"

definition default_state :: PermissionState where
  "default_state =
     \<lparr>edit_policy = EditPolicy.Ask, allow_bash_execute = False, allowed_bash_commands = [],
      disallowed_bash_commands = [], allowed_bash_globs = [], allowed_web_fetch_domains = [],
      allowed_mcp_tools = [], allowed_mcp_servers = [], disallowed_mcp_tools = [],
      disallowed_web_fetch_domains = [],
      validated_mcp_server_grants_version = VALIDATED_MCP_SERVER_GRANTS_VERSION\<rparr>"

text \<open>\<open>HashSet::insert\<close> and \<open>extend\<close>.\<close>

definition hs_extend :: "'a list \<Rightarrow> 'a list \<Rightarrow> 'a list" where
  "hs_extend xs ys = fold List.insert ys xs"

lemma set_hs_extend [simp]: "set (hs_extend xs ys) = set xs \<union> set ys"
  unfolding hs_extend_def by (induction ys arbitrary: xs) auto

lemma distinct_hs_extend [simp]: "distinct xs \<Longrightarrow> distinct (hs_extend xs ys)"
  unfolding hs_extend_def by (induction ys arbitrary: xs) auto

definition merge_grants_from :: "PermissionState \<Rightarrow> PermissionState \<Rightarrow> PermissionState" where
  "merge_grants_from state other =
     state\<lparr>allow_bash_execute := allow_bash_execute state \<or> allow_bash_execute other,
           allowed_bash_commands := hs_extend (allowed_bash_commands state) (allowed_bash_commands other),
           disallowed_bash_commands := hs_extend (disallowed_bash_commands state) (disallowed_bash_commands other),
           allowed_bash_globs := hs_extend (allowed_bash_globs state) (allowed_bash_globs other),
           allowed_web_fetch_domains := hs_extend (allowed_web_fetch_domains state) (allowed_web_fetch_domains other),
           allowed_mcp_tools := hs_extend (allowed_mcp_tools state) (allowed_mcp_tools other),
           allowed_mcp_servers := hs_extend (allowed_mcp_servers state) (allowed_mcp_servers other),
           disallowed_mcp_tools := hs_extend (disallowed_mcp_tools state) (disallowed_mcp_tools other),
           disallowed_web_fetch_domains :=
             hs_extend (disallowed_web_fetch_domains state) (disallowed_web_fetch_domains other)\<rparr>"

text \<open>
  Reading a store whose server-wide grants predate their validation drops those grants. The state is
  what the TOML reader made of the file; the rewriting of the file is not modelled.
\<close>

definition invalidate_legacy_grants :: "PermissionState \<Rightarrow> PermissionState" where
  "invalidate_legacy_grants state =
     (if validated_mcp_server_grants_version state < VALIDATED_MCP_SERVER_GRANTS_VERSION
      then state\<lparr>allowed_mcp_servers := [],
                 validated_mcp_server_grants_version := VALIDATED_MCP_SERVER_GRANTS_VERSION\<rparr>
      else state)"

definition deserialize_mcp_server_grants_version :: "int option \<Rightarrow> int" where
  "deserialize_mcp_server_grants_version v = (case v of Some version \<Rightarrow> if version \<ge> 0 then version else 0 | None \<Rightarrow> 0)"

section \<open>MCP tools\<close>

definition is_id_char :: "char \<Rightarrow> bool" where
  "is_id_char c \<longleftrightarrow> is_ascii_alphanumeric c \<or> c = CHR ''_'' \<or> c = CHR ''-''"

definition is_valid_segment :: "string \<Rightarrow> bool" where
  "is_valid_segment s \<longleftrightarrow> s \<noteq> [] \<and> list_all is_id_char s"

text \<open>\<open>splitn(3, ':')\<close>: three pieces or more are refused.\<close>

definition is_well_formed_tool_id :: "string \<Rightarrow> bool" where
  "is_well_formed_tool_id s =
     (case split_on (\<lambda>c. c = CHR '':'') s of
        [a] \<Rightarrow> is_valid_segment a
      | [a, b] \<Rightarrow> is_valid_segment a \<and> is_valid_segment b
      | _ \<Rightarrow> False)"

text \<open>The positions where \<open>__\<close> starts, overlapping ones included.\<close>

definition delimiter_boundaries :: "string \<Rightarrow> nat list" where
  "delimiter_boundaries name =
     filter (\<lambda>i. name ! i = CHR ''_'' \<and> name ! (i + 1) = CHR ''_'') [0..<length name - 1]"

definition parse_mcp_qualified_name :: "string \<Rightarrow> (string \<times> string) option" where
  "parse_mcp_qualified_name name =
     (case delimiter_boundaries name of
        [boundary] \<Rightarrow>
          let server = take boundary name; tool = drop (boundary + 2) name
          in if server = [] \<or> tool = [] then None
             else if is_well_formed_tool_id name then Some (server, tool) else None
      | _ \<Rightarrow> None)"

definition mcp_server_prefix_allowed :: "string \<Rightarrow> string list \<Rightarrow> bool" where
  "mcp_server_prefix_allowed name servers \<longleftrightarrow>
     servers \<noteq> [] \<and>
     (case parse_mcp_qualified_name name of Some (server, _) \<Rightarrow> server \<in> set servers | None \<Rightarrow> False)"

definition previously_rejected :: "string \<Rightarrow> string" where
  "previously_rejected what = ''User previously rejected `'' @ what @ ''` in this project''"

definition mcp_pre_decision :: "string \<Rightarrow> PermissionState \<Rightarrow> bool \<Rightarrow> bool \<Rightarrow> Decision option" where
  "mcp_pre_decision name state policy_forced_prompt remember_tool_approvals =
     (if name \<in> set (disallowed_mcp_tools state) then Some (Decision.Reject (previously_rejected name))
      else if policy_forced_prompt \<and> \<not> remember_tool_approvals then None
      else if name \<in> set (allowed_mcp_tools state) then Some Decision.Allow
      else if mcp_server_prefix_allowed name (allowed_mcp_servers state) then Some Decision.Allow
      else None)"

section \<open>Web hosts\<close>

definition web_fetch_deny_key :: "'g env \<Rightarrow> string \<Rightarrow> string" where
  "web_fetch_deny_key env host = str_to_lowercase env (trim_end_byte CHR ''.'' (trim host))"

definition denies_domain :: "string \<Rightarrow> string \<Rightarrow> bool" where
  "denies_domain domain denied \<longleftrightarrow>
     denied \<noteq> [] \<and>
     (domain = denied \<or>
      length domain > length denied + 1 \<and> ends_with domain denied \<and>
      domain ! (length domain - length denied - 1) = CHR ''.'')"

definition denied_web_fetch_domain :: "'g env \<Rightarrow> string \<Rightarrow> string list \<Rightarrow> string option" where
  "denied_web_fetch_domain env host disallowed =
     (if disallowed = [] then None else find (denies_domain (web_fetch_deny_key env host)) disallowed)"

definition web_fetch_deny_pre_decision :: "'g env \<Rightarrow> Url \<Rightarrow> PermissionState \<Rightarrow> Decision option" where
  "web_fetch_deny_pre_decision env url state =
     (case host_str url of
        None \<Rightarrow> None
      | Some host \<Rightarrow>
          map_option (\<lambda>denied. Decision.Reject (previously_rejected denied))
            (denied_web_fetch_domain env host (disallowed_web_fetch_domains state)))"

section \<open>Built-in command lists\<close>

definition KUBECTL_UNSAFE_FLAGS :: "string list" where
  "KUBECTL_UNSAFE_FLAGS =
     [''--kubeconfig'', ''--context'', ''--cluster'', ''--server'', ''-s'', ''--token'', ''--user'', ''--as'',
      ''--as-group'', ''--as-uid'', ''--as-user-extra'', ''--username'', ''--password'',
      ''--client-certificate'', ''--client-key'', ''--certificate-authority'']"

definition rg_has_pre_flag :: "words \<Rightarrow> bool" where
  "rg_has_pre_flag ws \<longleftrightarrow>
     normalized_command_head ws = Some ''rg'' \<and> list_ex (\<lambda>w. w = ''--pre'' \<or> starts_with w ''--pre='') ws"

definition kubectl_has_unsafe_flag :: "words \<Rightarrow> bool" where
  "kubectl_has_unsafe_flag ws \<longleftrightarrow>
     normalized_command_head ws = Some ''kubectl'' \<and>
     list_ex (\<lambda>w. before_first CHR ''='' w \<in> set KUBECTL_UNSAFE_FLAGS) (drop 1 ws)"

definition PS_VALUE_FLAGS :: "string list" where
  "PS_VALUE_FLAGS =
     [''-o'', ''-O'', ''--format'', ''--sort'', ''-p'', ''-q'', ''-t'', ''-u'', ''-U'', ''-g'', ''-G'', ''-C'', ''-s'',
      ''--pid'', ''--ppid'', ''--sid'', ''--tty'', ''--user'', ''--group'', ''--cols'', ''--columns'', ''--width'',
      ''o'', ''O'']"

definition ps_word_dumps :: "string \<Rightarrow> bool" where
  "ps_word_dumps s \<longleftrightarrow>
     CHR ''E'' \<in> set s \<or>
     CHR ''e'' \<in> set s \<and>
       (\<not> starts_with s ''-'' \<or>
        starts_with s ''-'' \<and> \<not> starts_with s ''--'' \<and> (CHR ''a'' \<in> set s \<or> CHR ''x'' \<in> set s))"

definition ps_cluster_takes_value :: "string \<Rightarrow> bool" where
  "ps_cluster_takes_value s \<longleftrightarrow>
     starts_with s ''-'' \<and> \<not> starts_with s ''--'' \<and> (ends_with s ''o'' \<or> ends_with s ''O'')"

fun ps_scan :: "words \<Rightarrow> bool \<Rightarrow> bool" where
  "ps_scan [] skip_next = False"
| "ps_scan (s # ws) skip_next =
     (if skip_next then ps_scan ws False
      else if starts_with s ''--format='' \<or> starts_with s ''--sort='' then ps_scan ws False
      else if s \<in> set PS_VALUE_FLAGS then ps_scan ws True
      else if starts_with s ''-o'' \<or> starts_with s ''-O'' then ps_scan ws False
      else if ps_word_dumps s then True
      else ps_scan ws (ps_cluster_takes_value s))"

definition ps_dumps_environment :: "words \<Rightarrow> bool" where
  "ps_dumps_environment ws \<longleftrightarrow> normalized_command_head ws = Some ''ps'' \<and> ps_scan (drop 1 ws) False"

definition is_safe_git_query_prefix :: "string \<Rightarrow> bool" where
  "is_safe_git_query_prefix cmd =
     (case strip_prefix ''git '' cmd of
        Some rest \<Rightarrow> list_ex (matches_command_prefix rest) SAFE_GIT_SUBCOMMANDS
      | None \<Rightarrow> False)"

definition SAFE_COMMAND_PREFIXES :: "string list" where
  "SAFE_COMMAND_PREFIXES =
     [''ls'', ''cat'', ''pwd'', ''date'', ''whoami'', ''hostname'', ''uptime'', ''grep'', ''rg'', ''kubectl get'',
      ''kubectl logs'', ''kubectl describe'', ''ps'', ''bin/explorer ls'', ''head'', ''tail'', ''wc'', ''sort'',
      ''uniq'', ''tr'', ''cut'', ''echo'', ''printf'']"

definition is_safe_command_words_str :: "string \<Rightarrow> bool" where
  "is_safe_command_words_str cmd \<longleftrightarrow>
     list_ex (matches_command_prefix cmd) SAFE_COMMAND_PREFIXES \<or> is_safe_git_query_prefix cmd"

definition has_special_surface :: "words \<Rightarrow> bool" where
  "has_special_surface ws \<longleftrightarrow> rg_has_pre_flag ws \<or> kubectl_has_unsafe_flag ws \<or> ps_dumps_environment ws"

definition is_safe_command_words :: "words \<Rightarrow> bool" where
  "is_safe_command_words ws =
     (if ws = [] \<or> has_special_surface ws then False
      else if first ws = Some ''git'' then git_words_are_read_only_query ws
      else is_safe_command_words_str (join '' '' ws))"

definition ALWAYS_SAFE_COMMANDS :: "string list" where
  "ALWAYS_SAFE_COMMANDS =
     [''ls'', ''cat'', ''pwd'', ''date'', ''whoami'', ''hostname'', ''uptime'', ''ps'', ''grep'', ''rg'', ''kubectl get'',
      ''kubectl logs'', ''kubectl describe'', ''bin/explorer ls'']"

definition is_always_safe_command_words :: "words \<Rightarrow> bool" where
  "is_always_safe_command_words ws =
     (if ws = [] \<or> has_special_surface ws then False
      else if first ws = Some ''git'' then git_words_are_read_only_query ws
      else list_ex (matches_command_prefix (join '' '' ws)) ALWAYS_SAFE_COMMANDS)"

definition is_safe_creation_command :: "words \<Rightarrow> bool" where
  "is_safe_creation_command ws = (case first ws of Some w \<Rightarrow> is_creation_program w | None \<Rightarrow> False)"

definition DANGEROUS_COMMANDS :: "string list" where
  "DANGEROUS_COMMANDS =
     [''rm'', ''chmod'', ''chown'', ''chgrp'', ''chattr'', ''pkill'', ''kill'', ''killall'', ''git push'']"

definition is_dangerous_command_words :: "words \<Rightarrow> bool" where
  "is_dangerous_command_words ws =
     (case normalized_command_head ws of
        None \<Rightarrow> False
      | Some head \<Rightarrow>
          let joined = (if length ws = 1 then head else head @ '' '' @ join '' '' (drop 1 ws))
          in list_ex (matches_command_prefix joined) DANGEROUS_COMMANDS)"

section \<open>Scopes of an always-allow\<close>

definition always_allow_scope_pinned :: "words \<Rightarrow> bool" where
  "always_allow_scope_pinned ws \<longleftrightarrow>
     is_dangerous_command_words ws \<or> head_is_exec_vehicle ws \<or> normalized_command_head ws = Some ''sed''"

definition gh_always_allow_scope :: "words \<Rightarrow> nat option" where
  "gh_always_allow_scope ws =
     (if normalized_command_head ws \<noteq> Some ''gh'' then None
      else Some (case (get ws 1, get ws 2) of
             (Some grp, Some verb) \<Rightarrow>
               if \<not> starts_with grp ''-'' \<and> \<not> starts_with verb ''-'' then 3 else length ws
           | _ \<Rightarrow> length ws))"

text \<open>\<open>extend_flags\<close> counts on while the next word is a flag.\<close>

definition extend_flags :: "words \<Rightarrow> nat \<Rightarrow> nat" where
  "extend_flags ws n = n + length (takeWhile (\<lambda>w. starts_with w ''-'') (drop n ws))"

definition base_scope :: "words \<Rightarrow> nat" where
  "base_scope ws =
     (if is_safe_command_words ws \<and> is_safe_command_words_str (ws ! 0) then 1
      else if is_safe_command_words ws \<and> 2 \<le> length ws \<and> is_safe_command_words_str (join '' '' (take 2 ws)) then 2
      else extend_flags ws (min (length ws) 2))"

definition default_always_allow_scope :: "words \<Rightarrow> nat" where
  "default_always_allow_scope ws =
     (if ws = [] then 0
      else if always_allow_scope_pinned ws then length ws
      else case gh_always_allow_scope ws of Some n \<Rightarrow> n | None \<Rightarrow> base_scope ws)"

definition default_always_deny_scope :: "words \<Rightarrow> nat" where
  "default_always_deny_scope ws = (if ws = [] then 0 else base_scope ws)"

definition minimum_always_allow_scope :: "words \<Rightarrow> nat" where
  "minimum_always_allow_scope ws =
     (if always_allow_scope_pinned ws then length ws
      else case gh_always_allow_scope ws of Some n \<Rightarrow> n | None \<Rightarrow> 1)"

section \<open>Denials win\<close>

lemma delimiter_boundaries_single:
  assumes "delimiter_boundaries name = [b]"
  shows "name = take b name @ ''__'' @ drop (b + 2) name"
proof -
  have "b \<in> set (delimiter_boundaries name)" using assms by simp
  then have "Suc b < length name" "name ! b = CHR ''_''" "name ! Suc b = CHR ''_''"
    by (auto simp: delimiter_boundaries_def)
  then show ?thesis
    using id_take_nth_drop [of b name] Cons_nth_drop_Suc [of "Suc b" name] by simp
qed

lemma parse_mcp_qualified_name_Some:
  assumes "parse_mcp_qualified_name name = Some (server, tool)"
  shows "name = server @ ''__'' @ tool \<and> server \<noteq> [] \<and> tool \<noteq> [] \<and> is_well_formed_tool_id name"
proof -
  from assms obtain b where b: "delimiter_boundaries name = [b]"
    by (auto simp: parse_mcp_qualified_name_def split: list.splits)
  with assms have "server = take b name" "tool = drop (b + 2) name" "server \<noteq> []" "tool \<noteq> []" "is_well_formed_tool_id name"
    by (auto simp: parse_mcp_qualified_name_def Let_def split: if_splits)
  with delimiter_boundaries_single [OF b] show ?thesis by simp
qed

text \<open>
  A remembered refusal of an MCP tool wins over every grant. The tool is refused whenever it is on
  the deny list; it is let through only if it is not denied, no policy question stands in the way
  unless approvals are remembered, and the user granted this tool by name or granted the server whose
  name is the part before the only delimiter of a well-formed name.
\<close>

theorem mcp_pre_decision_deny_wins:
  "(name \<in> set (disallowed_mcp_tools state) \<longrightarrow>
      mcp_pre_decision name state forced remember = Some (Decision.Reject (previously_rejected name))) \<and>
   (mcp_pre_decision name state forced remember = Some Decision.Allow \<longrightarrow>
      name \<notin> set (disallowed_mcp_tools state) \<and> (forced \<longrightarrow> remember) \<and>
      (name \<in> set (allowed_mcp_tools state) \<or>
       (\<exists>server \<in> set (allowed_mcp_servers state). \<exists>tool. name = server @ ''__'' @ tool \<and> server \<noteq> [] \<and> tool \<noteq> [] \<and>
          is_well_formed_tool_id name)))"
proof -
  have "\<exists>server \<in> set servers. \<exists>tool. name = server @ ''__'' @ tool \<and> server \<noteq> [] \<and> tool \<noteq> [] \<and> is_well_formed_tool_id name"
    if "mcp_server_prefix_allowed name servers" for servers
    using that parse_mcp_qualified_name_Some
    by (auto simp: mcp_server_prefix_allowed_def split: option.splits) metis
  then show ?thesis by (simp add: mcp_pre_decision_def)
qed

theorem mcp_pre_decision_deny_wins_witness:
  "mcp_pre_decision ''notion__fetch'' (default_state\<lparr>disallowed_mcp_tools := [''notion__fetch''],
     allowed_mcp_servers := [''notion'']\<rparr>) False False = Some (Decision.Reject (previously_rejected ''notion__fetch''))
   \<and> mcp_pre_decision ''notion__fetch'' (default_state\<lparr>allowed_mcp_servers := [''notion'']\<rparr>) False False = Some Decision.Allow"
proof
  show "mcp_pre_decision ''notion__fetch'' (default_state\<lparr>disallowed_mcp_tools := [''notion__fetch''],
     allowed_mcp_servers := [''notion'']\<rparr>) False False = Some (Decision.Reject (previously_rejected ''notion__fetch''))"
    using mcp_pre_decision_deny_wins [of "''notion__fetch''" "default_state\<lparr>disallowed_mcp_tools := [''notion__fetch''],
     allowed_mcp_servers := [''notion'']\<rparr>" False False] by simp
  show "mcp_pre_decision ''notion__fetch'' (default_state\<lparr>allowed_mcp_servers := [''notion'']\<rparr>) False False = Some Decision.Allow"
    by code_simp
qed

lemma denies_domain_iff:
  "denies_domain domain denied \<longleftrightarrow> denied \<noteq> [] \<and> (domain = denied \<or> (\<exists>sub. sub \<noteq> [] \<and> domain = sub @ ''.'' @ denied))"
proof (cases "\<exists>pre. domain = pre @ denied")
  case True
  then obtain pre where d: "domain = pre @ denied" by blast
  show ?thesis
  proof (cases pre rule: rev_cases)
    case (snoc sub c)
    then show ?thesis using d by (auto simp: denies_domain_def ends_with_iff nth_append)
  qed (use d in \<open>auto simp: denies_domain_def\<close>)
next
  case False
  then show ?thesis
    by (auto simp: denies_domain_def ends_with_iff)
qed

text \<open>
  A remembered refusal of a web host covers exactly that host and its subdomains: the request is
  refused if and only if the host is an entry or ends in a dot and an entry with something before it.
  A host is never refused because of a longer entry, nor because its name merely ends in the same
  letters.
\<close>

theorem web_fetch_deny_exact:
  "(\<exists>r. web_fetch_deny_pre_decision env url state = Some (Decision.Reject r)) \<longleftrightarrow>
   (\<exists>host. host_str url = Some host \<and>
      (\<exists>denied \<in> set (disallowed_web_fetch_domains state). denied \<noteq> [] \<and>
         (web_fetch_deny_key env host = denied \<or>
          (\<exists>sub. sub \<noteq> [] \<and> web_fetch_deny_key env host = sub @ ''.'' @ denied))))"
proof -
  have "find P xs \<noteq> None \<longleftrightarrow> (\<exists>x \<in> set xs. P x)" for P :: "string \<Rightarrow> bool" and xs
    by (metis find_None_iff)
  then show ?thesis
    unfolding web_fetch_deny_pre_decision_def denied_web_fetch_domain_def
    by (auto simp: denies_domain_iff split: option.split)
qed

section \<open>Scopes stay within the command\<close>

lemma extend_flags_le: "n \<le> length ws \<Longrightarrow> extend_flags ws n \<le> length ws"
  using length_takeWhile_le [of "\<lambda>w. starts_with w ''-''" "drop n ws"] by (simp add: extend_flags_def)

lemma base_scope_bounds: "ws \<noteq> [] \<Longrightarrow> 1 \<le> base_scope ws \<and> base_scope ws \<le> length ws"
  using extend_flags_le [of "min (length ws) 2" ws]
  by (auto simp: base_scope_def Suc_le_eq extend_flags_def)

lemma gh_scope_bounds: "gh_always_allow_scope ws = Some n \<Longrightarrow> ws \<noteq> [] \<Longrightarrow> 1 \<le> n \<and> n \<le> length ws"
  by (auto simp: gh_always_allow_scope_def get_def Suc_le_eq split: if_splits)

text \<open>
  The scopes a prompt offers are scopes of the command. For a non-empty command the narrowest
  always-allow scope is at least one word, the default lies between it and the whole command, and so
  does the deny scope; for a command that must be pinned both are the whole command.
\<close>

theorem always_allow_scope_bounds:
  assumes "ws \<noteq> []"
  shows "1 \<le> minimum_always_allow_scope ws \<and> minimum_always_allow_scope ws \<le> default_always_allow_scope ws \<and>
    default_always_allow_scope ws \<le> length ws \<and> 1 \<le> default_always_deny_scope ws \<and>
    default_always_deny_scope ws \<le> length ws \<and>
    (always_allow_scope_pinned ws \<longrightarrow> minimum_always_allow_scope ws = length ws)"
  using assms base_scope_bounds [OF assms] gh_scope_bounds [OF _ assms]
  by (auto simp: minimum_always_allow_scope_def default_always_allow_scope_def default_always_deny_scope_def Suc_le_eq
      split: option.split)

theorem always_allow_scope_bounds_witness:
  "minimum_always_allow_scope [''/bin/rm'', ''-rf'', ''x''] = 3 \<and> default_always_allow_scope [''gh'', ''pr'', ''view'', ''1''] \<le> 4"
proof -
  have "always_allow_scope_pinned [''/bin/rm'', ''-rf'', ''x'']" by code_simp
  then show ?thesis
    using always_allow_scope_bounds [of "[''/bin/rm'', ''-rf'', ''x'']"]
      always_allow_scope_bounds [of "[''gh'', ''pr'', ''view'', ''1'']"] by simp
qed

text \<open>
  The safe lists compare the joined words, so a program whose own quoted name contains a space is
  taken for the program named before the space.
\<close>

theorem spaced_name_passes_safe_list:
  "is_safe_command_words [''ls dir/payload''] \<and> is_always_safe_command_words [''cat dir/payload'', ''x''] \<and>
   normalized_command_head [''ls dir/payload''] = Some ''payload''"
  by code_simp

end
