(* ===== verification/Bash_Evaluation.thy ===== *)
theory Bash_Evaluation
  imports Session_Grants
begin

text \<open>
  One Bash request against the remembered grants: \<open>evaluate_bash\<close> and the decisions taken before the
  auto-mode classifier is asked (\<open>permission/manager/mod.rs\<close>), and the translation between what a prompt
  showed and what is remembered (\<open>permission/manager/bash_grants.rs\<close>).
\<close>

section \<open>Grant keys\<close>

definition words_join_unambiguously :: "'g env \<Rightarrow> words \<Rightarrow> bool" where
  "words_join_unambiguously env ws =
     (let joined = join '' '' ws in
      case all_commands_from_script (ts_parse env) joined of
        Some [only] \<Rightarrow> spans_whole_script only joined \<and> pc_words only = ws
      | _ \<Rightarrow> False)"

definition whole_script_grant :: "'g env \<Rightarrow> string \<Rightarrow> PlainCommand list \<Rightarrow> PermissionState \<Rightarrow> bool" where
  "whole_script_grant env cmd segs state =
     (if cmd \<in> set (allowed_bash_commands state) then True
      else case segs of
             [only] \<Rightarrow>
               spans_whole_script only cmd \<and> words_join_unambiguously env (pc_words only) \<and>
               join '' '' (pc_words only) \<in> set (allowed_bash_commands state)
           | _ \<Rightarrow> False)"

definition MAX_SEGMENT_GRANTS :: nat where "MAX_SEGMENT_GRANTS = 5"

definition segment_grant :: "'g env \<Rightarrow> PlainCommand \<Rightarrow> string option" where
  "segment_grant env parsed =
     (let ws = unwrap_wrappers (pc_words parsed) in
      if ws \<noteq> [] \<and> \<not> is_setup_command ws \<and> \<not> is_dangerous_command_words ws \<and> \<not> head_is_exec_vehicle ws \<and>
         words_join_unambiguously env ws
      then Some (join '' '' ws) else None)"

definition bash_grant_segments :: "'g env \<Rightarrow> string \<Rightarrow> string list" where
  "bash_grant_segments env cmd =
     (case all_commands_from_script (ts_parse env) cmd of
        None \<Rightarrow> []
      | Some segs \<Rightarrow>
          let grants = filter_map (segment_grant env) segs
          in if length grants > MAX_SEGMENT_GRANTS then [] else grants)"

definition always_allow_scope_persists :: "'g env \<Rightarrow> BashCommandHighlights \<Rightarrow> nat \<Rightarrow> bool" where
  "always_allow_scope_persists env h n =
     (let ws = bh_highlighted_words h in
      if n = 0 \<or> n > length ws \<or> n < minimum_always_allow_scope ws then False
      else words_join_unambiguously env (take n ws) \<or> n = length ws \<and> bh_prefix h = [] \<and> bh_suffix h = [])"

definition remember_command :: "string \<Rightarrow> PermissionState \<Rightarrow> PermissionState" where
  "remember_command key state = state\<lparr>allowed_bash_commands := List.insert key (allowed_bash_commands state)\<rparr>"

definition persist_bash_always_allow :: "'g env \<Rightarrow> PermissionState \<Rightarrow> string \<Rightarrow> string \<Rightarrow> PermissionState" where
  "persist_bash_always_allow env state cmd label =
     (case primary_command_from_script (ts_parse env) cmd of
        None \<Rightarrow> state
      | Some h \<Rightarrow>
          let ws = bh_highlighted_words h;
              min_scope = minimum_always_allow_scope ws;
              labeled_words_verified =
                list_ex (\<lambda>n. words_join_unambiguously env (take n ws) \<and> join '' '' (take n ws) = label)
                  [min_scope..<Suc (length ws)]
          in if labeled_words_verified then remember_command label state
             else if bh_prefix h = [] \<and> bh_suffix h = [] \<and> join '' '' ws = label then remember_command cmd state
             else state)"

definition bash_glob_covers_script :: "'g env \<Rightarrow> string \<Rightarrow> string \<Rightarrow> bool" where
  "bash_glob_covers_script env cmd pattern =
     (if bash_glob_is_catchall env pattern then False
      else case all_commands_from_script (ts_parse env) cmd of
             None \<Rightarrow> bash_pattern_matches_command env pattern cmd
           | Some segs \<Rightarrow>
               list_ex (\<lambda>seg. let ws = unwrap_wrappers (pc_words seg) in
                 ws \<noteq> [] \<and> \<not> is_setup_command ws \<and> bash_pattern_matches_command env pattern (join '' '' ws)) segs)"

section \<open>Evaluating a request\<close>

datatype SegmentEvaluation = AutoAllow bool | Reject string | NeedsPrompts "string list" | Unparseable

record BashEvaluation =
  be_segments :: SegmentEvaluation
  be_exact_grant :: bool
  be_all_segments_granted :: bool
  be_assessment :: BashSecurityAssessment
  be_redirect_write :: bool
  be_ambient_segments :: "words list option"
  be_creation_paths :: "string list"
  be_has_cwd_change :: bool

definition env_risk_finding :: "EnvRisk \<Rightarrow> ClassifierSecurityFinding option" where
  "env_risk_finding r =
     (case r of Injection \<Rightarrow> Some EnvInjection | Unvetted \<Rightarrow> Some UnvettedEnv | Safe \<Rightarrow> None)"

definition raw_deny_rejection :: "string \<Rightarrow> PermissionState \<Rightarrow> SegmentEvaluation option" where
  "raw_deny_rejection cmd state =
     map_option (\<lambda>d. Reject (previously_rejected d))
       (find (matches_command_prefix cmd) (disallowed_bash_commands state))"

record SegmentLoop =
  sl_needs_prompt :: "string list"
  sl_via_session_grant :: bool
  sl_all_granted :: bool
  sl_exec_risk :: bool
  sl_has_git :: bool
  sl_ambient_raw :: "words list"
  sl_assessment :: BashSecurityAssessment

definition matched_command_grant :: "PermissionState \<Rightarrow> words \<Rightarrow> bool" where
  "matched_command_grant state ws =
     (let s = join '' '' ws in
      if always_allow_scope_pinned ws then s \<in> set (allowed_bash_commands state)
      else list_ex (matches_command_prefix s) (allowed_bash_commands state))"

definition matched_grant :: "'g env \<Rightarrow> PermissionState \<Rightarrow> words \<Rightarrow> bool" where
  "matched_grant env state ws \<longleftrightarrow>
     matched_command_grant state ws \<or>
     list_ex (\<lambda>g. bash_pattern_matches_command env g (join '' '' ws)) (allowed_bash_globs state)"

definition special_exec_surface :: "words \<Rightarrow> bool" where
  "special_exec_surface ws \<longleftrightarrow>
     kubectl_has_unsafe_flag ws \<or> rg_has_pre_flag ws \<or> ps_dumps_environment ws \<or> git_words_have_unsafe_query_option ws"

definition matched_safe :: "words \<Rightarrow> bool" where
  "matched_safe ws \<longleftrightarrow>
     is_safe_command_words ws \<or> is_always_safe_command_words ws \<or> is_safe_creation_command ws"

text \<open>What every segment contributes before its own outcome is decided.\<close>

definition segment_facts :: "PlainCommand \<Rightarrow> SegmentLoop \<Rightarrow> SegmentLoop" where
  "segment_facts parsed st =
     (let raw_words = pc_words parsed;
          ws = unwrap_wrappers raw_words;
          facts = segment_exec_facts raw_words;
          a = assessment_insert_if (words_are_opaque_shell (map shell_word ws)) OpaqueShell (sl_assessment st);
          a = assessment_insert_if (exec_risk facts) ExecOrAmbientGit a
      in st\<lparr>sl_ambient_raw := sl_ambient_raw st @ [raw_words],
            sl_assessment := a,
            sl_exec_risk := sl_exec_risk st \<or> exec_risk facts,
            sl_has_git := sl_has_git st \<or> has_git facts\<rparr>)"

definition segment_outcome :: "'g env \<Rightarrow> PermissionState \<Rightarrow> bool \<Rightarrow> words \<Rightarrow> SegmentLoop \<Rightarrow> SegmentLoop" where
  "segment_outcome env state honor_safe_lists ws st =
     (let s = join '' '' ws;
          granted = matched_grant env state ws;
          st = st\<lparr>sl_all_granted := sl_all_granted st \<and> granted\<rparr>;
          prompt = (\<lambda>st. st\<lparr>sl_needs_prompt := sl_needs_prompt st @ [s]\<rparr>)
      in if is_dangerous_command_words ws then
           prompt (st\<lparr>sl_assessment := assessment_insert DangerousCommand (sl_assessment st)\<rparr>)
         else if special_exec_surface ws \<and> s \<notin> set (allowed_bash_commands state) then
           prompt (st\<lparr>sl_assessment := assessment_insert SpecialExecSurface (sl_assessment st)\<rparr>)
         else if granted \<or> honor_safe_lists \<and> matched_safe ws then
           st\<lparr>sl_via_session_grant := sl_via_session_grant st \<or> granted\<rparr>
         else prompt st)"

text \<open>The loop; a denied segment ends it with the reason and the state so far.\<close>

fun segment_loop ::
  "'g env \<Rightarrow> PermissionState \<Rightarrow> bool \<Rightarrow> PlainCommand list \<Rightarrow> SegmentLoop \<Rightarrow> string option \<times> SegmentLoop" where
  "segment_loop env state honor_safe_lists [] st = (None, st)"
| "segment_loop env state honor_safe_lists (parsed # rest) st =
     (let st = segment_facts parsed st; ws = unwrap_wrappers (pc_words parsed) in
      if is_setup_command ws then segment_loop env state honor_safe_lists rest st
      else case find (matches_command_prefix (join '' '' ws)) (disallowed_bash_commands state) of
             Some d \<Rightarrow> (Some (previously_rejected d), st)
           | None \<Rightarrow> segment_loop env state honor_safe_lists rest (segment_outcome env state honor_safe_lists ws st))"

definition opt_insert :: "ClassifierSecurityFinding option \<Rightarrow> BashSecurityAssessment \<Rightarrow> BashSecurityAssessment" where
  "opt_insert f a = (case f of Some x \<Rightarrow> assessment_insert x a | None \<Rightarrow> a)"

definition unparseable_evaluation ::
  "string \<Rightarrow> PermissionState \<Rightarrow> BashSecurityAssessment \<Rightarrow> BashEvaluation" where
  "unparseable_evaluation cmd state a =
     \<lparr>be_segments = (case raw_deny_rejection cmd state of Some r \<Rightarrow> r | None \<Rightarrow> Unparseable),
      be_exact_grant = (cmd \<in> set (allowed_bash_commands state)),
      be_all_segments_granted = False, be_assessment = a, be_redirect_write = True,
      be_ambient_segments = None, be_creation_paths = [], be_has_cwd_change = False\<rparr>"

definition redirect_write :: "WritePathsSplit \<Rightarrow> bool" where
  "redirect_write writes \<longleftrightarrow>
     unextracted_write_redirect writes \<or> list_ex (\<lambda>path. \<not> is_safe_write_sink path) (redirect_paths writes)"

definition tree_assessment :: "ts_tree \<Rightarrow> string \<Rightarrow> PlainCommand list \<Rightarrow> BashSecurityAssessment" where
  "tree_assessment tree cmd segs =
     (let writes = command_write_paths_split (root_node tree) cmd;
          a = assessment_insert_if
                (redirect_write writes \<or> list_ex (\<lambda>path. \<not> is_safe_write_sink path) (word_paths writes)) FileWrite []
      in opt_insert (env_risk_finding (script_env_risk (root_node tree) cmd segs)) a)"

definition evaluate_segments ::
  "'g env \<Rightarrow> string \<Rightarrow> PermissionState \<Rightarrow> bool \<Rightarrow> ts_tree \<Rightarrow> PlainCommand list \<Rightarrow> BashEvaluation" where
  "evaluate_segments env cmd state honor_safe_lists tree segs =
     (let writes = command_write_paths_split (root_node tree) cmd;
          st0 = \<lparr>sl_needs_prompt = [], sl_via_session_grant = False, sl_all_granted = True, sl_exec_risk = False,
                 sl_has_git = False, sl_ambient_raw = [], sl_assessment = tree_assessment tree cmd segs\<rparr>
      in case segment_loop env state honor_safe_lists segs st0 of
           (Some reason, st) \<Rightarrow>
             \<lparr>be_segments = Reject reason, be_exact_grant = whole_script_grant env cmd segs state,
              be_all_segments_granted = sl_all_granted st, be_assessment = sl_assessment st,
              be_redirect_write = redirect_write writes, be_ambient_segments = None, be_creation_paths = [],
              be_has_cwd_change = False\<rparr>
         | (None, st) \<Rightarrow>
             \<lparr>be_segments = (if sl_needs_prompt st = [] then AutoAllow (sl_via_session_grant st)
                             else NeedsPrompts (sl_needs_prompt st)),
              be_exact_grant = whole_script_grant env cmd segs state,
              be_all_segments_granted = sl_all_granted st, be_assessment = sl_assessment st,
              be_redirect_write = redirect_write writes,
              be_ambient_segments = (if sl_has_git st \<and> \<not> sl_exec_risk st then Some (sl_ambient_raw st) else None),
              be_creation_paths = creation_paths writes,
              be_has_cwd_change = script_has_cwd_change (root_node tree) cmd\<rparr>)"

definition evaluate_bash :: "'g env \<Rightarrow> string \<Rightarrow> PermissionState \<Rightarrow> bool \<Rightarrow> BashEvaluation" where
  "evaluate_bash env cmd state honor_safe_lists =
     (case ts_parse env cmd of
        None \<Rightarrow>
          unparseable_evaluation cmd state
            (assessment_insert_if (script_may_invoke_git cmd) ExecOrAmbientGit (assessment_insert UnparseableShell []))
      | Some tree \<Rightarrow>
          (case try_parse_word_only_commands_sequence tree cmd of
             None \<Rightarrow>
               let a = assessment_insert UnparseableShell (tree_assessment tree cmd []);
                   a = assessment_insert_if (tree_has_opaque_shell (root_node tree) cmd) OpaqueShell a;
                   a = assessment_insert_if (script_may_invoke_git cmd) ExecOrAmbientGit a
               in unparseable_evaluation cmd state a
           | Some segs \<Rightarrow> evaluate_segments env cmd state honor_safe_lists tree segs))"

section \<open>Decisions from remembered grants\<close>

definition SESSION_DENY :: string where "SESSION_DENY = ''session_deny''"
definition SESSION_GRANT :: string where "SESSION_GRANT = ''session_grant''"
definition SAFE_COMMAND :: string where "SAFE_COMMAND = ''safe_command''"
definition STATIC_ALLOWLIST :: string where "STATIC_ALLOWLIST = ''static_allowlist''"

definition clamp_yolo :: "bool \<Rightarrow> string option \<Rightarrow> bool" where
  "clamp_yolo requested yolo_pin \<longleftrightarrow> requested \<and> yolo_pin = None"

definition persisted_bash_auto_allows :: "PermissionState \<Rightarrow> string \<Rightarrow> string option \<Rightarrow> bool" where
  "persisted_bash_auto_allows state cmd yolo_pin \<longleftrightarrow>
     allow_bash_execute state \<and> yolo_pin = None \<or> cmd \<in> set (allowed_bash_commands state)"

definition bash_request_floor_requires_prompt :: "BashEvaluation option \<Rightarrow> bool" where
  "bash_request_floor_requires_prompt evaluation =
     (case evaluation of
        Some e \<Rightarrow> \<not> be_exact_grant e \<and> constrains_broad_grant (be_assessment e) | None \<Rightarrow> False)"

definition narrow_allow_clears_write_floor ::
  "'g env \<Rightarrow> BashEvaluation option \<Rightarrow> 'g CompiledPolicy option \<Rightarrow> AccessKind \<Rightarrow> bool" where
  "narrow_allow_clears_write_floor env evaluation policy access \<longleftrightarrow>
     (case evaluation of Some e \<Rightarrow> is_file_write_only (be_assessment e) \<and> \<not> be_redirect_write e | None \<Rightarrow> False) \<and>
     (case policy of Some p \<Rightarrow> narrow_allow_authorizes env p access | None \<Rightarrow> False)"

definition bash_assessment_is_clear :: "BashEvaluation option \<Rightarrow> bool" where
  "bash_assessment_is_clear evaluation = (case evaluation of Some e \<Rightarrow> be_assessment e = [] | None \<Rightarrow> True)"

definition classifier_assessment :: "BashEvaluation option \<Rightarrow> bool \<Rightarrow> BashSecurityAssessment" where
  "classifier_assessment evaluation fail_closed_policy =
     assessment_insert_if fail_closed_policy FailClosedPolicy
       (case evaluation of Some e \<Rightarrow> be_assessment e | None \<Rightarrow> [])"

definition sandbox_may_auto_allow_bash :: "BashEvaluation option \<Rightarrow> bool \<Rightarrow> bool" where
  "sandbox_may_auto_allow_bash evaluation sandbox_active \<longleftrightarrow>
     sandbox_active \<and> \<not> bash_request_floor_requires_prompt evaluation"

record BashGrantOpts =
  honor_safe_lists :: bool
  allow_blanket :: bool
  conservative_blanket :: bool

definition PRE_CLASSIFIER :: BashGrantOpts where
  "PRE_CLASSIFIER = \<lparr>honor_safe_lists = True, allow_blanket = True, conservative_blanket = True\<rparr>"

definition ASK_FLOOR_REMEMBER :: BashGrantOpts where
  "ASK_FLOOR_REMEMBER = \<lparr>honor_safe_lists = False, allow_blanket = False, conservative_blanket = False\<rparr>"

definition post_classify :: "bool \<Rightarrow> BashGrantOpts" where
  "post_classify auto_forced_prompt =
     \<lparr>honor_safe_lists = True, allow_blanket = \<not> auto_forced_prompt, conservative_blanket = False\<rparr>"

definition grant_if :: "bool \<Rightarrow> (Decision \<times> string) option" where
  "grant_if b = (if b then Some (Decision.Allow, SESSION_GRANT) else None)"

definition bash_grant_pre_decision ::
  "string \<Rightarrow> BashEvaluation \<Rightarrow> PermissionState \<Rightarrow> string option \<Rightarrow> BashGrantOpts \<Rightarrow> (Decision \<times> string) option" where
  "bash_grant_pre_decision cmd evaluation state yolo_pin opts =
     (case be_segments evaluation of
        Reject reason \<Rightarrow> Some (Decision.Reject reason, SESSION_DENY)
      | segs \<Rightarrow>
          if bash_request_floor_requires_prompt (Some evaluation) then None
          else case segs of
            AutoAllow via_session_grant \<Rightarrow>
              if \<not> honor_safe_lists opts \<and> \<not> be_all_segments_granted evaluation then None
              else Some (Decision.Allow, if via_session_grant then SESSION_GRANT else SAFE_COMMAND)
          | NeedsPrompts _ \<Rightarrow>
              if \<not> allow_blanket opts then None
              else if conservative_blanket opts \<and> assessment_contains DangerousCommand (be_assessment evaluation)
              then grant_if (be_exact_grant evaluation)
              else grant_if (persisted_bash_auto_allows state cmd yolo_pin)
          | _ \<Rightarrow>
              if \<not> allow_blanket opts then None
              else grant_if (if conservative_blanket opts then be_exact_grant evaluation
                             else persisted_bash_auto_allows state cmd yolo_pin))"

definition session_grant_pre_decision ::
  "'g env \<Rightarrow> (string \<Rightarrow> Url option) \<Rightarrow> AccessKind \<Rightarrow> BashEvaluation option \<Rightarrow> PermissionState \<Rightarrow> bool \<Rightarrow> DomainMatcher \<Rightarrow>
   bool \<Rightarrow> string option \<Rightarrow> (Decision \<times> string) option" where
  "session_grant_pre_decision env url_parse access bash_evaluation state allow_edits_for_session static_domain_matcher
     honor_static_web_allowlist yolo_pin =
     (case access of
        MCPTool name _ \<Rightarrow>
          map_option (\<lambda>d. (d, case d of Decision.Reject _ \<Rightarrow> SESSION_DENY | _ \<Rightarrow> SESSION_GRANT))
            (mcp_pre_decision name state False False)
      | AccessKind.WebFetch url \<Rightarrow>
          (case url_parse url of
             None \<Rightarrow> None
           | Some parsed_url \<Rightarrow>
               (case web_fetch_deny_pre_decision env parsed_url state of
                  Some reject \<Rightarrow> Some (reject, SESSION_DENY)
                | None \<Rightarrow>
                    if honor_static_web_allowlist \<and> domain_check env static_domain_matcher parsed_url = None
                    then Some (Decision.Allow, STATIC_ALLOWLIST)
                    else (case host_str parsed_url of
                            None \<Rightarrow> None
                          | Some host \<Rightarrow>
                              grant_if (normalize_domain env host \<in> set (allowed_web_fetch_domains state)))))
      | AccessKind.Edit _ \<Rightarrow> grant_if allow_edits_for_session
      | AccessKind.Bash cmd \<Rightarrow>
          (case bash_evaluation of
             None \<Rightarrow> None
           | Some e \<Rightarrow> bash_grant_pre_decision cmd e state yolo_pin PRE_CLASSIFIER)
      | _ \<Rightarrow> None)"

definition always_allow_row_is_effective :: "'g env \<Rightarrow> string \<Rightarrow> bool" where
  "always_allow_row_is_effective env cmd =
     (case primary_command_from_script (ts_parse env) cmd of
        None \<Rightarrow> False
      | Some h \<Rightarrow>
          let scope = default_always_allow_scope (bh_highlighted_words h) in
          if \<not> always_allow_scope_persists env h scope then False
          else let scratch = persist_bash_always_allow env default_state cmd
                     (join '' '' (take scope (bh_highlighted_words h)))
               in case bash_grant_pre_decision cmd (evaluate_bash env cmd scratch True) scratch None PRE_CLASSIFIER of
                    Some (Decision.Allow, _) \<Rightarrow> True
                  | _ \<Rightarrow> False)"

section \<open>What the loop over the segments computes\<close>

text \<open>The segments that are judged: peeled, and not mere set-up.\<close>

definition judged_words :: "PlainCommand list \<Rightarrow> words list" where
  "judged_words segs = filter (\<lambda>ws. \<not> is_setup_command ws) (map (\<lambda>p. unwrap_wrappers (pc_words p)) segs)"

definition denied_segment :: "PermissionState \<Rightarrow> words \<Rightarrow> bool" where
  "denied_segment state ws \<longleftrightarrow> (\<exists>d \<in> set (disallowed_bash_commands state). matches_command_prefix (join '' '' ws) d)"

definition segment_passes :: "'g env \<Rightarrow> PermissionState \<Rightarrow> bool \<Rightarrow> words \<Rightarrow> bool" where
  "segment_passes env state honor ws \<longleftrightarrow>
     \<not> is_dangerous_command_words ws \<and>
     (special_exec_surface ws \<longrightarrow> join '' '' ws \<in> set (allowed_bash_commands state)) \<and>
     (matched_grant env state ws \<or> honor \<and> matched_safe ws)"

definition fact_findings :: "PlainCommand \<Rightarrow> ClassifierSecurityFinding set" where
  "fact_findings p =
     (if words_are_opaque_shell (map shell_word (unwrap_wrappers (pc_words p))) then {OpaqueShell} else {}) \<union>
     (if exec_risk (segment_exec_facts (pc_words p)) then {ExecOrAmbientGit} else {})"

definition outcome_findings :: "PermissionState \<Rightarrow> words \<Rightarrow> ClassifierSecurityFinding set" where
  "outcome_findings state ws =
     (if is_dangerous_command_words ws then {DangerousCommand}
      else if special_exec_surface ws \<and> join '' '' ws \<notin> set (allowed_bash_commands state) then {SpecialExecSurface}
      else {})"

lemma find_None: "find P xs = None \<longleftrightarrow> (\<forall>x \<in> set xs. \<not> P x)"
  by (auto simp: find_None_iff)

lemma segment_outcome_facts:
  "sl_needs_prompt (segment_outcome env state honor ws st) = [] \<longleftrightarrow>
     sl_needs_prompt st = [] \<and> segment_passes env state honor ws"
  "set (sl_assessment (segment_outcome env state honor ws st)) = set (sl_assessment st) \<union> outcome_findings state ws"
  "sl_all_granted (segment_outcome env state honor ws st) \<longleftrightarrow> sl_all_granted st \<and> matched_grant env state ws"
  by (auto simp: segment_outcome_def segment_passes_def outcome_findings_def Let_def)

lemma segment_facts_facts:
  "sl_needs_prompt (segment_facts p st) = sl_needs_prompt st"
  "sl_all_granted (segment_facts p st) = sl_all_granted st"
  "set (sl_assessment (segment_facts p st)) = set (sl_assessment st) \<union> fact_findings p"
  by (auto simp: segment_facts_def fact_findings_def Let_def)

lemma segment_loop_rejects:
  "fst (segment_loop env state honor segs st) = None \<longleftrightarrow> (\<forall>ws \<in> set (judged_words segs). \<not> denied_segment state ws)"
proof (induction segs arbitrary: st)
  case (Cons p segs)
  let ?ws = "unwrap_wrappers (pc_words p)"
  have "find (matches_command_prefix (join '' '' ?ws)) (disallowed_bash_commands state) = None \<longleftrightarrow> \<not> denied_segment state ?ws"
    by (auto simp: denied_segment_def find_None)
  then show ?case
    using Cons by (cases "find (matches_command_prefix (join '' '' ?ws)) (disallowed_bash_commands state)")
      (simp_all add: Let_def judged_words_def)
qed (simp add: judged_words_def)

lemma segment_loop_facts:
  assumes "segment_loop env state honor segs st = (None, st')"
  shows "sl_needs_prompt st' = [] \<longleftrightarrow>
      sl_needs_prompt st = [] \<and> (\<forall>ws \<in> set (judged_words segs). segment_passes env state honor ws)"
    and "set (sl_assessment st') = set (sl_assessment st) \<union> (\<Union>p \<in> set segs. fact_findings p)
      \<union> (\<Union>ws \<in> set (judged_words segs). outcome_findings state ws)"
    and "sl_all_granted st' \<longleftrightarrow> sl_all_granted st \<and> (\<forall>ws \<in> set (judged_words segs). matched_grant env state ws)"
proof -
  have "(sl_needs_prompt st' = [] \<longleftrightarrow>
      sl_needs_prompt st = [] \<and> (\<forall>ws \<in> set (judged_words segs). segment_passes env state honor ws)) \<and>
    set (sl_assessment st') = set (sl_assessment st) \<union> (\<Union>p \<in> set segs. fact_findings p)
      \<union> (\<Union>ws \<in> set (judged_words segs). outcome_findings state ws) \<and>
    (sl_all_granted st' \<longleftrightarrow> sl_all_granted st \<and> (\<forall>ws \<in> set (judged_words segs). matched_grant env state ws))"
    using assms
  proof (induction segs arbitrary: st)
    case (Cons p segs)
    let ?ws = "unwrap_wrappers (pc_words p)" and ?f = "segment_facts p st"
    show ?case
    proof (cases "is_setup_command ?ws")
      case True
      have "judged_words (p # segs) = judged_words segs" using True by (simp add: judged_words_def)
      with Cons.IH [of ?f] Cons.prems True show ?thesis by (simp add: Let_def segment_facts_facts Un_ac)
    next
      case False
      have "judged_words (p # segs) = ?ws # judged_words segs" using False by (simp add: judged_words_def)
      moreover have "segment_loop env state honor segs (segment_outcome env state honor ?ws ?f) = (None, st')"
        using Cons.prems False by (simp add: Let_def split: option.splits)
      ultimately show ?thesis
        using Cons.IH by (simp add: segment_outcome_facts segment_facts_facts Un_ac)
    qed
  qed (simp add: judged_words_def)
  then show "sl_needs_prompt st' = [] \<longleftrightarrow>
      sl_needs_prompt st = [] \<and> (\<forall>ws \<in> set (judged_words segs). segment_passes env state honor ws)"
    "set (sl_assessment st') = set (sl_assessment st) \<union> (\<Union>p \<in> set segs. fact_findings p)
      \<union> (\<Union>ws \<in> set (judged_words segs). outcome_findings state ws)"
    "sl_all_granted st' \<longleftrightarrow> sl_all_granted st \<and> (\<forall>ws \<in> set (judged_words segs). matched_grant env state ws)"
    by blast+
qed

text \<open>The evaluation of a script that decomposes.\<close>

definition script_findings :: "ts_tree \<Rightarrow> string \<Rightarrow> PlainCommand list \<Rightarrow> PermissionState \<Rightarrow> ClassifierSecurityFinding set" where
  "script_findings tree cmd segs state =
     set (tree_assessment tree cmd segs) \<union> (\<Union>p \<in> set segs. fact_findings p)
       \<union> (\<Union>ws \<in> set (judged_words segs). outcome_findings state ws)"

lemma evaluate_bash_decomposed:
  assumes "ts_parse env cmd = Some tree" and "try_parse_word_only_commands_sequence tree cmd = Some segs"
  shows "be_exact_grant (evaluate_bash env cmd state honor) \<longleftrightarrow> whole_script_grant env cmd segs state"
    and "(\<exists>r. be_segments (evaluate_bash env cmd state honor) = Reject r) \<longleftrightarrow>
      (\<exists>ws \<in> set (judged_words segs). denied_segment state ws)"
    and "(\<forall>ws \<in> set (judged_words segs). \<not> denied_segment state ws) \<Longrightarrow>
      set (be_assessment (evaluate_bash env cmd state honor)) = script_findings tree cmd segs state \<and>
      ((\<exists>v. be_segments (evaluate_bash env cmd state honor) = AutoAllow v) \<longleftrightarrow>
         (\<forall>ws \<in> set (judged_words segs). segment_passes env state honor ws)) \<and>
      ((\<exists>l. be_segments (evaluate_bash env cmd state honor) = NeedsPrompts l) \<longleftrightarrow>
         \<not> (\<forall>ws \<in> set (judged_words segs). segment_passes env state honor ws)) \<and>
      (be_all_segments_granted (evaluate_bash env cmd state honor) \<longleftrightarrow>
         (\<forall>ws \<in> set (judged_words segs). matched_grant env state ws))"
proof -
  define st0 where "st0 = \<lparr>sl_needs_prompt = [], sl_via_session_grant = False, sl_all_granted = True, sl_exec_risk = False,
                 sl_has_git = False, sl_ambient_raw = [], sl_assessment = tree_assessment tree cmd segs\<rparr>"
  have e: "evaluate_bash env cmd state honor = evaluate_segments env cmd state honor tree segs"
    using assms by (simp add: evaluate_bash_def)
  obtain r st where loop: "segment_loop env state honor segs st0 = (r, st)" by (cases "segment_loop env state honor segs st0")
  have r: "r = None \<longleftrightarrow> (\<forall>ws \<in> set (judged_words segs). \<not> denied_segment state ws)"
    using segment_loop_rejects [of env state honor segs st0] loop by simp
  note shape = evaluate_segments_def [of env cmd state honor tree segs, folded st0_def, unfolded loop Let_def]
  show "be_exact_grant (evaluate_bash env cmd state honor) \<longleftrightarrow> whole_script_grant env cmd segs state"
    unfolding e shape by (simp split: option.split)
  show "(\<exists>r. be_segments (evaluate_bash env cmd state honor) = Reject r) \<longleftrightarrow>
      (\<exists>ws \<in> set (judged_words segs). denied_segment state ws)"
    unfolding e shape using r by (cases r) auto
  assume "\<forall>ws \<in> set (judged_words segs). \<not> denied_segment state ws"
  with r loop have none: "segment_loop env state honor segs st0 = (None, st)" "r = None" by auto
  note facts = segment_loop_facts [OF none(1)]
  show "set (be_assessment (evaluate_bash env cmd state honor)) = script_findings tree cmd segs state \<and>
      ((\<exists>v. be_segments (evaluate_bash env cmd state honor) = AutoAllow v) \<longleftrightarrow>
         (\<forall>ws \<in> set (judged_words segs). segment_passes env state honor ws)) \<and>
      ((\<exists>l. be_segments (evaluate_bash env cmd state honor) = NeedsPrompts l) \<longleftrightarrow>
         \<not> (\<forall>ws \<in> set (judged_words segs). segment_passes env state honor ws)) \<and>
      (be_all_segments_granted (evaluate_bash env cmd state honor) \<longleftrightarrow>
         (\<forall>ws \<in> set (judged_words segs). matched_grant env state ws))"
    unfolding e shape none(2) script_findings_def using facts by (simp add: st0_def)
qed

section \<open>A remembered refusal wins\<close>

lemma evaluate_bash_undecomposed:
  assumes "all_commands_from_script (ts_parse env) cmd = None"
  shows "\<exists>a. \<forall>state honor. evaluate_bash env cmd state honor = unparseable_evaluation cmd state a"
  using assms by (auto simp: all_commands_from_script_def evaluate_bash_def Let_def split: option.splits)

text \<open>
  C7: A remembered "never allow" wins over every grant. If a judged segment of the script, with its
  wrappers peeled, begins with a denied command at a word boundary, or if the script does not decompose
  and its raw text does, then the request is refused, whatever else is granted, whether safe lists
  count, whether always-approve is pinned, and at every stage that consults the grants.
\<close>

theorem session_deny_wins:
  assumes "(\<exists>segs ws. all_commands_from_script (ts_parse env) cmd = Some segs \<and> ws \<in> set (judged_words segs) \<and>
      denied_segment state ws) \<or>
    (all_commands_from_script (ts_parse env) cmd = None \<and>
      (\<exists>d \<in> set (disallowed_bash_commands state). matches_command_prefix cmd d))"
  shows "\<exists>r. bash_grant_pre_decision cmd (evaluate_bash env cmd state honor) state pin opts
    = Some (Decision.Reject r, SESSION_DENY)"
proof -
  have "\<exists>r. be_segments (evaluate_bash env cmd state honor) = Reject r"
    using assms
  proof (elim disjE exE conjE)
    fix segs ws assume *: "all_commands_from_script (ts_parse env) cmd = Some segs" "ws \<in> set (judged_words segs)"
      "denied_segment state ws"
    then obtain tree where "ts_parse env cmd = Some tree" "try_parse_word_only_commands_sequence tree cmd = Some segs"
      by (auto simp: all_commands_from_script_def split: option.splits)
    from evaluate_bash_decomposed(2) [OF this] * show ?thesis by blast
  next
    assume *: "all_commands_from_script (ts_parse env) cmd = None"
      "\<exists>d \<in> set (disallowed_bash_commands state). matches_command_prefix cmd d"
    then obtain d where "find (matches_command_prefix cmd) (disallowed_bash_commands state) = Some d"
      using find_None [of "matches_command_prefix cmd"] by fastforce
    with evaluate_bash_undecomposed [OF *(1)] show ?thesis
      by (auto simp: unparseable_evaluation_def raw_deny_rejection_def)
  qed
  then show ?thesis by (auto simp: bash_grant_pre_decision_def)
qed

section \<open>What a grant vouches for\<close>

text \<open>No effect outside what the matched words say: what a broad grant may vouch for.\<close>

definition plain_effects :: "ts_tree \<Rightarrow> string \<Rightarrow> PlainCommand list \<Rightarrow> bool" where
  "plain_effects tree cmd segs \<longleftrightarrow>
     \<not> redirect_write (command_write_paths_split (root_node tree) cmd) \<and>
     list_all is_safe_write_sink (word_paths (command_write_paths_split (root_node tree) cmd)) \<and>
     script_env_risk (root_node tree) cmd segs = Safe \<and>
     (\<forall>p \<in> set segs. \<not> words_are_opaque_shell (map shell_word (unwrap_wrappers (pc_words p))) \<and>
        \<not> exec_risk (segment_exec_facts (pc_words p)))"

lemma plain_effects_iff:
  "(\<forall>f \<in> set (tree_assessment tree cmd segs) \<union> (\<Union>p \<in> set segs. fact_findings p). \<not> is_grant_floor f)
     \<longleftrightarrow> plain_effects tree cmd segs"
proof -
  have env: "(\<forall>f \<in> set (opt_insert (env_risk_finding r) a). \<not> is_grant_floor f) \<longleftrightarrow>
      r = Safe \<and> (\<forall>f \<in> set a. \<not> is_grant_floor f)" for r a
    by (cases r) (auto simp: opt_insert_def env_risk_finding_def)
  have facts: "(\<forall>f \<in> fact_findings p. \<not> is_grant_floor f) \<longleftrightarrow>
      \<not> words_are_opaque_shell (map shell_word (unwrap_wrappers (pc_words p))) \<and> \<not> exec_risk (segment_exec_facts (pc_words p))" for p
    by (auto simp: fact_findings_def)
  have tree: "(\<forall>f \<in> set (tree_assessment tree cmd segs). \<not> is_grant_floor f) \<longleftrightarrow>
      script_env_risk (root_node tree) cmd segs = Safe \<and>
      \<not> redirect_write (command_write_paths_split (root_node tree) cmd) \<and>
      list_all is_safe_write_sink (word_paths (command_write_paths_split (root_node tree) cmd))"
    unfolding tree_assessment_def Let_def env by (auto simp: list_ex_iff list_all_iff)
  have "(\<forall>f \<in> set (tree_assessment tree cmd segs) \<union> (\<Union>p \<in> set segs. fact_findings p). \<not> is_grant_floor f) \<longleftrightarrow>
      (\<forall>f \<in> set (tree_assessment tree cmd segs). \<not> is_grant_floor f) \<and>
      (\<forall>p \<in> set segs. \<forall>f \<in> fact_findings p. \<not> is_grant_floor f)" by blast
  then show ?thesis unfolding tree facts plain_effects_def by blast
qed

lemma no_floor_iff:
  "(\<forall>f \<in> script_findings tree cmd segs state. \<not> is_grant_floor f) \<longleftrightarrow>
   plain_effects tree cmd segs \<and>
   (\<forall>ws \<in> set (judged_words segs). special_exec_surface ws \<longrightarrow>
      is_dangerous_command_words ws \<or> join '' '' ws \<in> set (allowed_bash_commands state))"
proof -
  have out: "(\<forall>f \<in> outcome_findings state ws. \<not> is_grant_floor f) \<longleftrightarrow>
      (special_exec_surface ws \<longrightarrow> is_dangerous_command_words ws \<or> join '' '' ws \<in> set (allowed_bash_commands state))" for ws
    by (auto simp: outcome_findings_def)
  have "(\<forall>f \<in> script_findings tree cmd segs state. \<not> is_grant_floor f) \<longleftrightarrow>
      (\<forall>f \<in> set (tree_assessment tree cmd segs) \<union> (\<Union>p \<in> set segs. fact_findings p). \<not> is_grant_floor f) \<and>
      (\<forall>ws \<in> set (judged_words segs). \<forall>f \<in> outcome_findings state ws. \<not> is_grant_floor f)"
    unfolding script_findings_def by blast
  then show ?thesis unfolding plain_effects_iff out .
qed

lemma dangerous_finding_iff:
  "DangerousCommand \<in> script_findings tree cmd segs state \<longleftrightarrow> (\<exists>ws \<in> set (judged_words segs). is_dangerous_command_words ws)"
proof -
  have "DangerousCommand \<notin> set (tree_assessment tree cmd segs)"
    by (auto simp: tree_assessment_def opt_insert_def env_risk_finding_def Let_def split: option.splits EnvRisk.splits)
  moreover have "DangerousCommand \<notin> fact_findings p" for p by (simp add: fact_findings_def)
  moreover have "DangerousCommand \<in> outcome_findings state ws \<longleftrightarrow> is_dangerous_command_words ws" for ws
    by (simp add: outcome_findings_def)
  ultimately show ?thesis unfolding script_findings_def by blast
qed

text \<open>The decision of the gate before the classifier, on a script that decomposes.\<close>

lemma pre_classifier_decomposed:
  assumes "ts_parse env cmd = Some tree" and "try_parse_word_only_commands_sequence tree cmd = Some segs"
    and "\<forall>ws \<in> set (judged_words segs). \<not> denied_segment state ws"
  shows "(\<exists>why. bash_grant_pre_decision cmd (evaluate_bash env cmd state True) state pin PRE_CLASSIFIER = Some (Decision.Allow, why))
    \<longleftrightarrow> (whole_script_grant env cmd segs state \<or> (\<forall>f \<in> script_findings tree cmd segs state. \<not> is_grant_floor f)) \<and>
       ((\<forall>ws \<in> set (judged_words segs). segment_passes env state True ws) \<or>
        (if \<exists>ws \<in> set (judged_words segs). is_dangerous_command_words ws then whole_script_grant env cmd segs state
         else persisted_bash_auto_allows state cmd pin))"
proof -
  let ?e = "evaluate_bash env cmd state True"
  note facts = evaluate_bash_decomposed(3) [OF assms, of True]
  have exact: "be_exact_grant ?e \<longleftrightarrow> whole_script_grant env cmd segs state"
    by (rule evaluate_bash_decomposed(1) [OF assms(1,2)])
  have floor: "bash_request_floor_requires_prompt (Some ?e) \<longleftrightarrow>
      \<not> whole_script_grant env cmd segs state \<and> \<not> (\<forall>f \<in> script_findings tree cmd segs state. \<not> is_grant_floor f)"
    using facts exact by (simp add: bash_request_floor_requires_prompt_def constrains_broad_grant_def list_ex_iff)
  have dang: "assessment_contains DangerousCommand (be_assessment ?e) \<longleftrightarrow>
      (\<exists>ws \<in> set (judged_words segs). is_dangerous_command_words ws)"
    using facts by (simp add: assessment_contains_def dangerous_finding_iff)
  show ?thesis
  proof (cases "\<forall>ws \<in> set (judged_words segs). segment_passes env state True ws")
    case True
    with facts obtain v where "be_segments ?e = AutoAllow v" by blast
    with True floor show ?thesis by (simp add: bash_grant_pre_decision_def PRE_CLASSIFIER_def)
  next
    case False
    with facts obtain l where "be_segments ?e = NeedsPrompts l" by blast
    with False floor dang exact show ?thesis
      by (auto simp: bash_grant_pre_decision_def PRE_CLASSIFIER_def grant_if_def)
  qed
qed

lemma pre_classifier_undecomposed:
  assumes "all_commands_from_script (ts_parse env) cmd = None"
    and "\<not> (\<exists>d \<in> set (disallowed_bash_commands state). matches_command_prefix cmd d)"
  shows "(\<exists>why. bash_grant_pre_decision cmd (evaluate_bash env cmd state True) state pin PRE_CLASSIFIER = Some (Decision.Allow, why))
    \<longleftrightarrow> cmd \<in> set (allowed_bash_commands state)"
proof -
  have none: "raw_deny_rejection cmd state = None"
    using assms(2) by (auto simp: raw_deny_rejection_def find_None)
  obtain a where "evaluate_bash env cmd state True = unparseable_evaluation cmd state a"
    using evaluate_bash_undecomposed [OF assms(1)] by blast
  with none show ?thesis
    by (auto simp: bash_grant_pre_decision_def unparseable_evaluation_def PRE_CLASSIFIER_def grant_if_def
        bash_request_floor_requires_prompt_def)
qed

lemma pre_classifier_not_denied:
  assumes "bash_grant_pre_decision cmd (evaluate_bash env cmd state honor) state pin opts = Some (Decision.Allow, why)"
  shows "(\<forall>segs. all_commands_from_script (ts_parse env) cmd = Some segs \<longrightarrow>
      (\<forall>ws \<in> set (judged_words segs). \<not> denied_segment state ws)) \<and>
    (all_commands_from_script (ts_parse env) cmd = None \<longrightarrow>
      \<not> (\<exists>d \<in> set (disallowed_bash_commands state). matches_command_prefix cmd d))"
proof -
  have not: "\<not> (\<exists>r. be_segments (evaluate_bash env cmd state honor) = Reject r)"
    using assms by (auto simp: bash_grant_pre_decision_def)
  have "\<not> denied_segment state ws"
    if segs: "all_commands_from_script (ts_parse env) cmd = Some segs" and ws: "ws \<in> set (judged_words segs)" for segs ws
  proof -
    obtain tree where "ts_parse env cmd = Some tree" "try_parse_word_only_commands_sequence tree cmd = Some segs"
      using segs by (auto simp: all_commands_from_script_def split: option.splits)
    from evaluate_bash_decomposed(2) [OF this, of state honor] not ws show ?thesis by blast
  qed
  moreover have "\<not> (\<exists>d \<in> set (disallowed_bash_commands state). matches_command_prefix cmd d)"
    if none: "all_commands_from_script (ts_parse env) cmd = None"
  proof -
    obtain a where "evaluate_bash env cmd state honor = unparseable_evaluation cmd state a"
      using evaluate_bash_undecomposed [OF none] by blast
    with not have "raw_deny_rejection cmd state = None"
      by (cases "raw_deny_rejection cmd state") (auto simp: unparseable_evaluation_def raw_deny_rejection_def)
    then show ?thesis by (simp add: raw_deny_rejection_def find_None)
  qed
  ultimately show ?thesis by blast
qed

text \<open>
  C8: What the grants let through before the classifier. An approval means that nothing in the request
  was refused before, and that one of these holds: the user granted exactly this script; or the
  script decomposes, writes no real file, sets no unvetted variable, reinterprets no string as shell,
  runs no configured callback, and each of its segments is granted or safe-listed, is not a
  dangerous command, and uses a special option only under a grant of exactly that segment; or, with the
  blanket grant on and not pinned, it has these plain effects and no dangerous command.
\<close>

theorem session_grant_authority:
  assumes "bash_grant_pre_decision cmd (evaluate_bash env cmd state True) state pin PRE_CLASSIFIER
    = Some (Decision.Allow, why)"
  shows "cmd \<in> set (allowed_bash_commands state) \<or>
    (\<exists>tree segs. ts_parse env cmd = Some tree \<and> try_parse_word_only_commands_sequence tree cmd = Some segs \<and>
       (\<forall>ws \<in> set (judged_words segs). \<not> denied_segment state ws) \<and>
       (whole_script_grant env cmd segs state \<or>
        plain_effects tree cmd segs \<and> (\<forall>ws \<in> set (judged_words segs). segment_passes env state True ws) \<or>
        plain_effects tree cmd segs \<and> allow_bash_execute state \<and> pin = None \<and>
          (\<forall>ws \<in> set (judged_words segs). \<not> is_dangerous_command_words ws \<and>
             (special_exec_surface ws \<longrightarrow> join '' '' ws \<in> set (allowed_bash_commands state)))))"
proof (cases "all_commands_from_script (ts_parse env) cmd")
  case None
  with pre_classifier_not_denied [OF assms] assms pre_classifier_undecomposed [OF None, of state pin]
  show ?thesis by blast
next
  case (Some segs)
  then obtain tree where tree: "ts_parse env cmd = Some tree" "try_parse_word_only_commands_sequence tree cmd = Some segs"
    by (auto simp: all_commands_from_script_def split: option.splits)
  have deny: "\<forall>ws \<in> set (judged_words segs). \<not> denied_segment state ws"
    using pre_classifier_not_denied [OF assms] Some by blast
  note iff = pre_classifier_decomposed [OF tree deny, of pin]
  from assms iff have
    floor: "whole_script_grant env cmd segs state \<or> (\<forall>f \<in> script_findings tree cmd segs state. \<not> is_grant_floor f)" and
    auth: "(\<forall>ws \<in> set (judged_words segs). segment_passes env state True ws) \<or>
        (if \<exists>ws \<in> set (judged_words segs). is_dangerous_command_words ws then whole_script_grant env cmd segs state
         else persisted_bash_auto_allows state cmd pin)" by blast+
  show ?thesis
    using tree deny floor auth unfolding no_floor_iff persisted_bash_auto_allows_def by (metis (lifting))
qed

section \<open>Grants only help\<close>

definition more_grants :: "PermissionState \<Rightarrow> PermissionState \<Rightarrow> bool" where
  "more_grants s t \<longleftrightarrow>
     set (allowed_bash_commands s) \<subseteq> set (allowed_bash_commands t) \<and> set (allowed_bash_globs s) \<subseteq> set (allowed_bash_globs t)"

lemma matched_grant_mono: "more_grants s t \<Longrightarrow> matched_grant env s ws \<Longrightarrow> matched_grant env t ws"
  unfolding matched_grant_def matched_command_grant_def more_grants_def list_ex_iff Let_def by (auto split: if_splits)

lemma segment_passes_mono: "more_grants s t \<Longrightarrow> segment_passes env s honor ws \<Longrightarrow> segment_passes env t honor ws"
  using matched_grant_mono [of s t env ws] by (auto simp: segment_passes_def more_grants_def)

lemma whole_script_grant_mono: "more_grants s t \<Longrightarrow> whole_script_grant env cmd segs s \<Longrightarrow> whole_script_grant env cmd segs t"
  by (auto simp: whole_script_grant_def more_grants_def split: if_splits list.splits)

lemma script_findings_antimono: "more_grants s t \<Longrightarrow> script_findings tree cmd segs t \<subseteq> script_findings tree cmd segs s"
proof -
  assume "more_grants s t"
  then have "outcome_findings t ws \<subseteq> outcome_findings s ws" for ws
    by (auto simp: outcome_findings_def more_grants_def)
  then show ?thesis unfolding script_findings_def by blast
qed

lemma pre_classifier_mono:
  assumes "more_grants s t" and "\<not> allow_bash_execute s"
    and "\<not> (\<exists>r. be_segments (evaluate_bash env cmd t True) = Reject r)"
    and "bash_grant_pre_decision cmd (evaluate_bash env cmd s True) s pin PRE_CLASSIFIER = Some (Decision.Allow, why)"
  shows "\<exists>why. bash_grant_pre_decision cmd (evaluate_bash env cmd t True) t pin' PRE_CLASSIFIER = Some (Decision.Allow, why)"
proof (cases "all_commands_from_script (ts_parse env) cmd")
  case None
  have raw: "\<not> (\<exists>d \<in> set (disallowed_bash_commands t). matches_command_prefix cmd d)"
  proof -
    obtain a where "evaluate_bash env cmd t True = unparseable_evaluation cmd t a"
      using evaluate_bash_undecomposed [OF None] by blast
    with assms(3) show ?thesis
      by (cases "raw_deny_rejection cmd t") (auto simp: unparseable_evaluation_def raw_deny_rejection_def find_None)
  qed
  have "cmd \<in> set (allowed_bash_commands s)"
    using pre_classifier_not_denied [OF assms(4)] assms(4) pre_classifier_undecomposed [OF None, of s pin] None by blast
  with assms(1) pre_classifier_undecomposed [OF None raw, of pin'] show ?thesis by (auto simp: more_grants_def)
next
  case (Some segs)
  then obtain tree where tree: "ts_parse env cmd = Some tree" "try_parse_word_only_commands_sequence tree cmd = Some segs"
    by (auto simp: all_commands_from_script_def split: option.splits)
  have deny: "\<forall>ws \<in> set (judged_words segs). \<not> denied_segment s ws" "\<forall>ws \<in> set (judged_words segs). \<not> denied_segment t ws"
    using pre_classifier_not_denied [OF assms(4)] Some evaluate_bash_decomposed(2) [OF tree, of t True] assms(3) by blast+
  have whole: "whole_script_grant env cmd segs s" if "cmd \<in> set (allowed_bash_commands s)"
    using that by (simp add: whole_script_grant_def)
  have "persisted_bash_auto_allows s cmd pin \<longleftrightarrow> cmd \<in> set (allowed_bash_commands s)"
    using assms(2) by (simp add: persisted_bash_auto_allows_def)
  moreover have "cmd \<in> set (allowed_bash_commands s) \<Longrightarrow> persisted_bash_auto_allows t cmd pin'"
    using assms(1) by (auto simp: persisted_bash_auto_allows_def more_grants_def)
  ultimately show ?thesis
    using assms(4) pre_classifier_decomposed [OF tree deny(1), of pin] pre_classifier_decomposed [OF tree deny(2), of pin']
      whole_script_grant_mono [OF assms(1), of env cmd segs] segment_passes_mono [OF assms(1), of env True]
      script_findings_antimono [OF assms(1), of tree cmd segs] whole
    by (auto split: if_splits)
qed

section \<open>What is remembered\<close>

text \<open>
  What accepting an "always allow" row can store. The store gains at most one command and nothing
  else changes: either the label itself, which then is the join of the first \<open>n\<close> words of the primary
  command, no fewer than the narrowest scope offered for it, and reads back as exactly these words; or
  the script itself, when the label is the whole primary command and nothing stands around it. A label
  that fits neither stores nothing.
\<close>

theorem persist_stores_what_was_shown:
  "(case primary_command_from_script (ts_parse env) cmd of
      None \<Rightarrow> persist_bash_always_allow env state cmd label = state
    | Some h \<Rightarrow>
        persist_bash_always_allow env state cmd label = state \<or>
        persist_bash_always_allow env state cmd label = remember_command label state \<and>
          (\<exists>n. minimum_always_allow_scope (bh_highlighted_words h) \<le> n \<and> n \<le> length (bh_highlighted_words h) \<and>
             label = join '' '' (take n (bh_highlighted_words h)) \<and>
             words_join_unambiguously env (take n (bh_highlighted_words h))) \<or>
        persist_bash_always_allow env state cmd label = remember_command cmd state \<and>
          bh_prefix h = [] \<and> bh_suffix h = [] \<and> label = join '' '' (bh_highlighted_words h))"
proof (cases "primary_command_from_script (ts_parse env) cmd")
  case (Some h)
  then show ?thesis
    by (auto simp: persist_bash_always_allow_def Let_def list_ex_iff less_Suc_eq_le)
qed (simp add: persist_bash_always_allow_def)

lemma persist_more_grants:
  "more_grants (persist_bash_always_allow env default_state cmd label) (persist_bash_always_allow env state cmd label)"
  by (auto simp: more_grants_def persist_bash_always_allow_def remember_command_def default_state_def Let_def
      split: option.split)

text \<open>
  The "always allow" row keeps its promise. When the row is offered, because it would work on an
  empty store, then accepting it on the real store, whatever that has granted, lets the same script
  through without a question from then on, as long as none of its segments was refused for good,
  even when the always-approve mode is pinned off.
\<close>

theorem always_allow_row_keeps_promise:
  assumes "always_allow_row_is_effective env cmd"
    and "primary_command_from_script (ts_parse env) cmd = Some h"
    and "state' = persist_bash_always_allow env state cmd
           (join '' '' (take (default_always_allow_scope (bh_highlighted_words h)) (bh_highlighted_words h)))"
    and "\<not> (\<exists>r. be_segments (evaluate_bash env cmd state' True) = Reject r)"
  shows "\<exists>why. bash_grant_pre_decision cmd (evaluate_bash env cmd state' True) state' pin PRE_CLASSIFIER
    = Some (Decision.Allow, why)"
proof -
  let ?label = "join '' '' (take (default_always_allow_scope (bh_highlighted_words h)) (bh_highlighted_words h))"
  let ?s = "persist_bash_always_allow env default_state cmd ?label"
  from assms(1,2) obtain why where
    "bash_grant_pre_decision cmd (evaluate_bash env cmd ?s True) ?s None PRE_CLASSIFIER = Some (Decision.Allow, why)"
    by (auto simp: always_allow_row_is_effective_def Let_def split: if_splits option.splits Decision.splits)
  moreover have "\<not> allow_bash_execute ?s"
    by (simp add: persist_bash_always_allow_def remember_command_def default_state_def Let_def split: option.split)
  moreover have "more_grants ?s state'" unfolding assms(3) by (rule persist_more_grants)
  ultimately show ?thesis using pre_classifier_mono assms(4) by blast
qed

text \<open>
  A web host that was refused stays refused, whatever lists allow it: the refusal is consulted before
  the static allowlist and before the granted hosts; and an approval always comes from one of these.
\<close>

theorem web_fetch_session_decision:
  assumes "url_parse url = Some parsed" and "host_str parsed = Some host"
  shows "session_grant_pre_decision env url_parse (AccessKind.WebFetch url) e state edits static_list honor pin =
    (case find (denies_domain (web_fetch_deny_key env host)) (disallowed_web_fetch_domains state) of
       Some denied \<Rightarrow> Some (Decision.Reject (previously_rejected denied), SESSION_DENY)
     | None \<Rightarrow>
         if honor \<and> domain_check env static_list parsed = None then Some (Decision.Allow, STATIC_ALLOWLIST)
         else if normalize_domain env host \<in> set (allowed_web_fetch_domains state)
         then Some (Decision.Allow, SESSION_GRANT) else None)"
  using assms
  by (auto simp: session_grant_pre_decision_def web_fetch_deny_pre_decision_def denied_web_fetch_domain_def grant_if_def
      split: option.split)

section \<open>The grants at work\<close>

definition rm_granted :: PermissionState where
  "rm_granted = default_state\<lparr>allowed_bash_commands := [''rm x'']\<rparr>"

definition rm_refused :: PermissionState where
  "rm_refused = rm_granted\<lparr>disallowed_bash_commands := [''rm'']\<rparr>"

theorem session_deny_wins_witness:
  "\<exists>r. bash_grant_pre_decision ''rm x'' (evaluate_bash shell_env ''rm x'' rm_refused True) rm_refused None PRE_CLASSIFIER
     = Some (Decision.Reject r, SESSION_DENY)"
proof (rule session_deny_wins, rule disjI1)
  have "[''rm'', ''x''] \<in> set (judged_words [rm_x])" "matches_command_prefix (join '' '' [''rm'', ''x'']) ''rm''"
    by code_simp+
  then show "\<exists>segs ws. all_commands_from_script (ts_parse shell_env) ''rm x'' = Some segs \<and> ws \<in> set (judged_words segs) \<and>
      denied_segment rm_refused ws"
    using bash_rm_script(2) by (auto simp: denied_segment_def rm_refused_def)
qed

lemma rm_granted_allows:
  "bash_grant_pre_decision ''rm x'' (evaluate_bash shell_env ''rm x'' rm_granted True) rm_granted None PRE_CLASSIFIER
     = Some (Decision.Allow, SESSION_GRANT)"
  by code_simp

theorem session_grant_authority_witness:
  "''rm x'' \<in> set (allowed_bash_commands rm_granted) \<or>
    (\<exists>segs. whole_script_grant shell_env ''rm x'' segs rm_granted)"
  using session_grant_authority [OF rm_granted_allows] by (simp add: rm_granted_def)

theorem always_allow_row_keeps_promise_witness:
  "\<exists>why. bash_grant_pre_decision ''rm x'' (evaluate_bash shell_env ''rm x'' rm_granted True) rm_granted (Some ''mdm'') PRE_CLASSIFIER
    = Some (Decision.Allow, why)"
proof (rule always_allow_row_keeps_promise)
  let ?h = "\<lparr>bh_prefix = [], bh_highlighted_words = [''rm'', ''x''], bh_suffix = []\<rparr>"
  show "always_allow_row_is_effective shell_env ''rm x''"
    "primary_command_from_script (ts_parse shell_env) ''rm x'' = Some ?h"
    "rm_granted = persist_bash_always_allow shell_env default_state ''rm x''
           (join '' '' (take (default_always_allow_scope (bh_highlighted_words ?h)) (bh_highlighted_words ?h)))"
    by code_simp+
  have "(case be_segments (evaluate_bash shell_env ''rm x'' rm_granted True) of Reject _ \<Rightarrow> False | _ \<Rightarrow> True)" by code_simp
  then show "\<not> (\<exists>r. be_segments (evaluate_bash shell_env ''rm x'' rm_granted True) = Reject r)"
    by (auto split: SegmentEvaluation.splits)
qed

theorem web_fetch_session_decision_witness:
  "session_grant_pre_decision example_env (\<lambda>_. Some \<lparr>host_str = Some ''api.x.ai'', url_path = ''/''\<rparr>)
     (AccessKind.WebFetch ''https://api.x.ai/'') None (default_state\<lparr>disallowed_web_fetch_domains := [''x.ai'']\<rparr>) False
     (\<lambda>_. Some AnyPath) True None = Some (Decision.Reject (previously_rejected ''x.ai''), SESSION_DENY)"
proof -
  have "find (denies_domain (web_fetch_deny_key example_env ''api.x.ai'')) [''x.ai''] = Some ''x.ai''" by code_simp
  then show ?thesis
    by (subst web_fetch_session_decision [where parsed = "\<lparr>host_str = Some ''api.x.ai'', url_path = ''/''\<rparr>" and host = "''api.x.ai''"])
      simp_all
qed

end
