(* ===== verification/Routine_Bash.thy ===== *)
theory Routine_Bash
  imports Session_Grants
begin

text \<open>
  The rule-based classifier of auto mode (\<open>HeuristicPermissionClassifier\<close>, \<open>classify_bash\<close> and its
  helpers in \<open>permission/auto_mode/mod.rs\<close>, the git arm in \<open>permission/auto_mode/routine_git.rs\<close>) and the
  fast path taken before any classifier. It lets a command pass only when it can show that it is a chain
  of routine commands. A launcher such as \<open>uv run\<close> is judged by the command it launches; the
  recursion is on the words that remain.
\<close>

section \<open>Routine git\<close>

definition BRANCH_SWITCH_BENIGN_FLAGS :: "string list" where
  "BRANCH_SWITCH_BENIGN_FLAGS =
     [''-q'', ''--quiet'', ''-d'', ''--detach'', ''-t'', ''--track'', ''--no-track'', ''--guess'', ''--no-guess'',
      ''--progress'', ''--no-progress'', ''--recurse-submodules'', ''--no-recurse-submodules'']"

definition BRANCH_CREATE_FLAGS :: "string list" where
  "BRANCH_CREATE_FLAGS = [''-b'', ''-B'', ''-c'', ''-C'', ''--orphan'']"

definition not_a_branch_name :: "string \<Rightarrow> bool" where
  "not_a_branch_name op \<longleftrightarrow>
     list_ex (\<lambda>c. starts_with c ''.'' \<or> ends_with c ''.lock'') (split_on (\<lambda>c. c = slash) op) \<or>
     ends_with op ''/'' \<or> ends_with op ''.'' \<or> contains_sub op ''..'' \<or> contains_sub op [CHR ''@'', CHR ''{''] \<or>
     list_ex (\<lambda>c. c \<in> set [CHR ''~'', CHR ''^'', CHR '':'', backslash]) op \<or> contains_whitespace op \<or>
     starts_with op ''/'' \<or> list_ex (\<lambda>c. c \<in> set [CHR ''*'', CHR ''?'', CHR ''['']) op"

definition is_maintenance_branch :: "string \<Rightarrow> string \<Rightarrow> bool" where
  "is_maintenance_branch stem ext \<longleftrightarrow>
     (let leaf = (case rsplit_once slash stem of Some (_, l) \<Rightarrow> l | None \<Rightarrow> stem) in
      ext = ''x'' \<and> list_ex is_ascii_digit leaf \<and> list_all (\<lambda>b. is_ascii_digit b \<or> b = CHR ''.'') leaf)"

definition operand_reads_as_path :: "string \<Rightarrow> bool" where
  "operand_reads_as_path op =
     (if not_a_branch_name op then True
      else case rsplit_once CHR ''.'' op of
             None \<Rightarrow> False
           | Some (stem, ext) \<Rightarrow>
               if is_maintenance_branch stem ext then False
               else 1 \<le> length ext \<and> length ext \<le> 5 \<and> list_all is_ascii_alphanumeric ext \<and> list_ex is_ascii_alphabetic ext)"

fun branch_switch_operands :: "words \<Rightarrow> nat \<Rightarrow> nat option" where
  "branch_switch_operands [] operands = Some operands"
| "branch_switch_operands (word # ws) operands =
     (if word \<in> set BRANCH_CREATE_FLAGS
      then (case ws of [] \<Rightarrow> Some operands | _ # rest \<Rightarrow> branch_switch_operands rest operands)
      else if word = ''-'' then branch_switch_operands ws (operands + 1)
      else if word \<in> set BRANCH_SWITCH_BENIGN_FLAGS then branch_switch_operands ws operands
      else if starts_with word ''-'' then None
      else if operand_reads_as_path word then None
      else branch_switch_operands ws (operands + 1))"

definition is_routine_branch_switch :: "words \<Rightarrow> bool" where
  "is_routine_branch_switch args =
     (case branch_switch_operands args 0 of Some operands \<Rightarrow> operands \<le> 1 | None \<Rightarrow> False)"

text \<open>The subcommand of \<open>git stash\<close>; the outer \<open>None\<close> is an option that is not recognised.\<close>

fun stash_subcommand :: "words \<Rightarrow> string option option" where
  "stash_subcommand [] = Some None"
| "stash_subcommand (word # ws) =
     (if word = ''-m'' \<or> word = ''--message'' then (case ws of [] \<Rightarrow> Some None | _ # rest \<Rightarrow> stash_subcommand rest)
      else if word = ''-q'' \<or> word = ''--quiet'' then stash_subcommand ws
      else if starts_with word ''-'' then None
      else Some (Some word))"

definition is_routine_stash :: "words \<Rightarrow> bool" where
  "is_routine_stash args =
     (case stash_subcommand args of
        None \<Rightarrow> False
      | Some None \<Rightarrow> True
      | Some (Some sub) \<Rightarrow> sub \<in> set [''push'', ''save'', ''pop'', ''apply'', ''list'', ''show'', ''branch''])"

definition git_verb_is_routine :: "string \<Rightarrow> words \<Rightarrow> bool" where
  "git_verb_is_routine verb args =
     (if verb \<in> set [''add'', ''commit'', ''pull'', ''fetch''] then True
      else if verb = ''worktree'' then first args = Some ''list''
      else if verb = ''checkout'' \<or> verb = ''switch'' then is_routine_branch_switch args
      else if verb = ''stash'' then is_routine_stash args
      else False)"

definition git_words_are_routine :: "words \<Rightarrow> bool" where
  "git_words_are_routine ws =
     (if first ws \<noteq> Some ''git'' then False
      else if git_words_are_read_only_query ws then True
      else if git_words_have_unsafe_query_option ws then False
      else case get ws 1 of None \<Rightarrow> False | Some verb \<Rightarrow> git_verb_is_routine verb (drop 2 ws))"

section \<open>Package managers and launchers\<close>

definition NPM_SAFE_SUBCOMMANDS :: "string list" where
  "NPM_SAFE_SUBCOMMANDS =
     [''install'', ''i'', ''ci'', ''add'', ''remove'', ''rm'', ''uninstall'', ''update'', ''up'', ''upgrade'', ''test'', ''t'',
      ''run'', ''run-script'', ''start'', ''build'', ''audit'', ''list'', ''ls'', ''ll'', ''outdated'', ''why'', ''view'',
      ''info'', ''dedupe'', ''prune'', ''version'', ''pack'', ''config'', ''link'', ''unlink'', ''rebuild'', ''store'',
      ''fetch'', ''import'']"

definition UV_SAFE_SUBCOMMANDS :: "string list" where
  "UV_SAFE_SUBCOMMANDS =
     [''sync'', ''pip'', ''lock'', ''venv'', ''add'', ''remove'', ''tree'', ''export'', ''build'', ''version'', ''python'',
      ''cache'', ''init'', ''self'', ''help'']"

definition RUSTUP_SAFE_SUBCOMMANDS :: "string list" where
  "RUSTUP_SAFE_SUBCOMMANDS =
     [''show'', ''toolchain'', ''component'', ''target'', ''default'', ''update'', ''which'', ''doc'', ''self'',
      ''completions'', ''set'', ''override'']"

definition is_npm_like :: "string \<Rightarrow> bool" where
  "is_npm_like head \<longleftrightarrow> head \<in> set [''npm'', ''pnpm'', ''yarn'']"

definition launcher_subcommand :: "string \<Rightarrow> words \<Rightarrow> string option" where
  "launcher_subcommand head inner =
     map_option (\<lambda>sub. if is_npm_like head \<and> sub = ''x'' then ''exec''
                      else if is_npm_like head \<and> sub = ''innit'' then ''init'' else sub) (get inner 1)"

definition is_remote_launcher :: "string \<Rightarrow> words \<Rightarrow> bool" where
  "is_remote_launcher head inner =
     (if head = ''npx'' \<or> head = ''uvx'' then True
      else if head = ''uv'' \<and> get inner 1 = Some ''tool'' \<and> get inner 2 = Some ''run'' then True
      else case launcher_subcommand head inner of
             None \<Rightarrow> False
           | Some sub \<Rightarrow>
               is_npm_like head \<and>
               (sub \<in> set [''dlx'', ''create'', ''explore''] \<or>
                sub = ''init'' \<and> (case get inner 2 of Some a \<Rightarrow> \<not> starts_with a ''-'' | None \<Rightarrow> False)))"

datatype LaunchTarget = NotLauncher | Inner words | Unresolved

definition launch_from :: "words \<Rightarrow> nat \<Rightarrow> LaunchTarget" where
  "launch_from inner start =
     (case get inner start of
        Some tok \<Rightarrow> if starts_with tok ''-'' then Unresolved else Inner (drop start inner)
      | None \<Rightarrow> Unresolved)"

definition explicit_launch_target :: "string \<Rightarrow> words \<Rightarrow> LaunchTarget" where
  "explicit_launch_target head inner =
     (case launcher_subcommand head inner of
        None \<Rightarrow> NotLauncher
      | Some sub \<Rightarrow>
          if head = ''uv'' \<and> sub = ''run'' then launch_from inner 2
          else if head = ''rustup'' \<and> sub = ''run'' then
            (case get inner 2 of
               Some toolchain \<Rightarrow> if starts_with toolchain ''-'' then Unresolved else launch_from inner 3
             | None \<Rightarrow> Unresolved)
          else if is_npm_like head \<and> sub = ''exec'' then
            launch_from inner (if get inner 2 = Some ''--'' then 3 else 2)
          else NotLauncher)"

definition launched_writes_nonsink :: "words \<Rightarrow> bool" where
  "launched_writes_nonsink ws = list_ex (\<lambda>p. \<not> is_safe_write_sink p) (command_words_write_paths ws)"

definition is_package_manager :: "string \<Rightarrow> bool" where
  "is_package_manager prog \<longleftrightarrow> prog \<in> set [''uv'', ''uvx'', ''npm'', ''npx'', ''pnpm'', ''yarn'', ''rustup'']"

definition safe_subcommand :: "string \<Rightarrow> words \<Rightarrow> bool" where
  "safe_subcommand prog inner =
     (case launcher_subcommand prog inner of
        None \<Rightarrow> False
      | Some s \<Rightarrow>
          if is_npm_like prog then s \<in> set NPM_SAFE_SUBCOMMANDS
          else if prog = ''uv'' then s \<in> set UV_SAFE_SUBCOMMANDS
          else if prog = ''rustup'' then s \<in> set RUSTUP_SAFE_SUBCOMMANDS else False)"

section \<open>Routine commands\<close>

definition ROUTINE_PREFIXES :: "string list" where
  "ROUTINE_PREFIXES =
     [''cargo '', ''pytest'', ''python '', ''python3 '', ''node '', ''rustc '', ''rustfmt'', ''clippy'', ''make '', ''cmake '',
      ''cd'', ''pushd'', ''popd'', ''ls'', ''pwd'', ''echo '', ''printf '', ''cat '', ''head '', ''tail '', ''wc '', ''rg '',
      ''grep '', ''which '', ''type '', ''true'', ''false'', ''test '', ''sort '', ''uniq '', ''tr '', ''cut '', ''diff '', ''jq '',
      ''date'', ''whoami'', ''hostname'', ''uname'', ''nproc'', ''printenv'', ''stat '', ''file '', ''tree'', ''basename '',
      ''dirname '', ''realpath '', ''readlink '', ''strings '', ''sleep '', ''df '', ''du '', ''ps '', ''top'', ''htop'', ''bazel '',
      ''just '', ''go '', ''kubectl get'', ''kubectl logs'', ''kubectl describe'', ''set'']"

definition is_lone_wrapper :: "words \<Rightarrow> bool" where
  "is_lone_wrapper ws \<longleftrightarrow> length ws = 1 \<and> is_wrapper_command ws"

definition FIND_ACTIONS :: "string list" where
  "FIND_ACTIONS =
     [''-delete'', ''-exec'', ''-execdir'', ''-ok'', ''-okdir'', ''-fprint'', ''-fprint0'', ''-fprintf'', ''-fls'']"

definition find_is_read_only :: "words \<Rightarrow> bool" where
  "find_is_read_only ws \<longleftrightarrow> \<not> list_ex (\<lambda>w. w \<in> set FIND_ACTIONS) ws"

definition nonflag_tokens :: "words \<Rightarrow> nat \<Rightarrow> words" where
  "nonflag_tokens inner n = take n (filter (\<lambda>w. \<not> starts_with w ''-'') (drop 1 inner))"

definition gh_subcommand_is_read_only :: "words \<Rightarrow> bool" where
  "gh_subcommand_is_read_only inner =
     (case nonflag_tokens inner 2 of
        [grp, sub] \<Rightarrow>
          grp \<in> set [''pr'', ''issue'', ''release'', ''run'', ''workflow'', ''repo'', ''gist''] \<and>
            sub \<in> set [''view'', ''list'', ''status'', ''checks'', ''diff''] \<or> grp = ''auth'' \<and> sub = ''status''
      | [sub] \<Rightarrow> sub = ''status''
      | _ \<Rightarrow> False)"

definition tree_writes :: "words \<Rightarrow> bool" where
  "tree_writes inner =
     list_ex (\<lambda>w. starts_with w ''-'' \<and> \<not> starts_with w ''--'' \<and> CHR ''o'' \<in> set w \<or> starts_with w ''--output'') inner"

definition routine_prefix_matches :: "string \<Rightarrow> string \<Rightarrow> bool" where
  "routine_prefix_matches joined p \<longleftrightarrow>
     (let base = trim p in joined = base \<or> starts_with joined base \<and> starts_with (drop (length base) joined) '' '')"

text \<open>The arms after the package managers.\<close>

definition plain_command_is_routine :: "string \<Rightarrow> words \<Rightarrow> bool" where
  "plain_command_is_routine head inner =
     (if head = ''find'' then find_is_read_only inner
      else if head = ''git'' then git_words_are_routine inner
      else if head = ''tree'' \<and> tree_writes inner then False
      else if head = ''rg'' \<and> list_ex (\<lambda>w. w = ''--pre'' \<or> starts_with w ''--pre='') inner then False
      else if head = ''kubectl'' \<and> list_ex (\<lambda>w. before_first CHR ''='' w \<in> set KUBECTL_UNSAFE_FLAGS) (drop 1 inner)
      then False
      else if head = ''gh'' then gh_subcommand_is_read_only inner
      else list_ex (routine_prefix_matches (to_ascii_lowercase (join '' '' inner))) ROUTINE_PREFIXES)"

definition routine_head :: "words \<Rightarrow> string" where
  "routine_head inner = to_ascii_lowercase (last_component (hd inner))"

lemma launch_from_suffix: "launch_from inner start = Inner l \<Longrightarrow> start < length inner \<and> l = drop start inner \<and> \<not> starts_with (hd l) ''-''"
  by (auto simp: launch_from_def get_def hd_drop_conv_nth split: option.splits if_splits)

lemma launch_target_suffix:
  assumes "explicit_launch_target head inner = Inner l"
  shows "\<exists>k \<in> {2, 3}. k < length inner \<and> l = drop k inner \<and> \<not> starts_with (hd l) ''-''"
  using assms unfolding explicit_launch_target_def
  by (auto split: option.splits if_splits dest!: launch_from_suffix)

lemma unwrap_wrappers_suffix: "suffix (unwrap_wrappers ws) ws"
  unfolding unwrap_wrappers_def unwrap_wrappers_words by (rule wrapper.peel_suffix)

function bash_command_is_routine :: "words \<Rightarrow> bool" where
  "bash_command_is_routine ws =
     (let inner = unwrap_wrappers ws in
      if inner = [] \<or> is_lone_wrapper inner then True
      else let head = routine_head inner in
        if is_package_manager head then
          (if is_remote_launcher head inner then False
           else case explicit_launch_target head inner of
                  Unresolved \<Rightarrow> False
                | Inner launched \<Rightarrow>
                    command_env_risk launched = Safe \<and> \<not> launched_writes_nonsink launched \<and>
                    bash_command_is_routine launched
                | NotLauncher \<Rightarrow> safe_subcommand head inner)
        else plain_command_is_routine head inner)"
  by pat_completeness auto
termination
proof (relation "measure length", simp)
  fix ws x xa x2
  assume "x = unwrap_wrappers ws" "xa = routine_head x" "explicit_launch_target xa x = Inner x2"
  with launch_target_suffix [of xa x x2] suffix_length_le [OF unwrap_wrappers_suffix [of ws]]
  show "(x2, ws) \<in> measure length" by auto
qed

declare bash_command_is_routine.simps [simp del]

datatype ClassifierVerdict = Allow | Block | Unavailable

definition classify_bash :: "ts_parser \<Rightarrow> string \<Rightarrow> ClassifierVerdict" where
  "classify_bash parse cmd =
     (case parse cmd of
        None \<Rightarrow> Block
      | Some tree \<Rightarrow>
          (case try_parse_word_only_commands_sequence tree cmd of
             None \<Rightarrow> Block
           | Some cmds \<Rightarrow>
               if script_env_risk (root_node tree) cmd cmds \<noteq> Safe then Block
               else if list_ex (\<lambda>path. \<not> is_safe_write_sink path) (command_write_paths_in_tree (root_node tree) cmd) then Block
               else if cmds \<noteq> [] \<and> list_all (\<lambda>c. bash_command_is_routine (pc_words c)) cmds then ClassifierVerdict.Allow
               else Block))"

section \<open>The heuristic classifier and the fast path\<close>

definition DANGEROUS_PATTERNS :: "string list" where
  "DANGEROUS_PATTERNS =
     [''rm -rf /'', ''rm -rf /*'', ''mkfs'', ''dd if='', '':(){ :|:& };:'', ''curl | sh'', ''curl|sh'', ''curl | bash'',
      ''curl|bash'', ''wget | sh'', ''wget|sh'', ''wget | bash'', ''wget|bash'', ''chmod 777'', ''chmod -r 777'',
      ''chmod +x /tmp'', ''base64 -d'', ''base64 --decode'', ''nc -e'', ''ncat -e'', ''/dev/tcp/'', ''shutdown'', ''reboot'',
      ''useradd'', ''userdel'', ''passwd '', ''chown -r /'', ''iptables -f'', ''kill -9 1'', ''sudo rm'', ''sudo dd'', ''sudo mkfs'',
      ''exfiltrat'', ''steal credential'', ''send secrets'']"

definition HOSTILE_INTENT :: "string list" where
  "HOSTILE_INTENT =
     [''delete all files'', ''wipe the disk'', ''exfiltrate'', ''steal secrets'', ''send my credentials'', ''ignore safety'',
      ''bypass permission'']"

definition pipes_to_shell :: "string \<Rightarrow> bool" where
  "pipes_to_shell blob \<longleftrightarrow>
     list_ex (contains_sub blob) [''curl'', ''wget'', ''fetch''] \<and>
     list_ex (contains_sub blob) [''| sh'', ''|sh'', ''| bash'', ''|bash'', ''| zsh'', ''|zsh'']"

text \<open>The transcript is the text that the context flattens to.\<close>

definition classify_sync ::
  "ts_parser \<Rightarrow> string \<Rightarrow> AccessKind \<Rightarrow> string option \<Rightarrow> string \<Rightarrow> ClassifierVerdict" where
  "classify_sync parse tool_name access access_detail transcript_text =
     (let detail = to_ascii_lowercase (case access_detail of Some d \<Rightarrow> d | None \<Rightarrow> []);
          tool = to_ascii_lowercase tool_name;
          transcript = to_ascii_lowercase transcript_text;
          blob = tool @ '' '' @ detail @ '' '' @ transcript
      in if contains_sub tool ''ask_user'' \<or> contains_sub tool ''askuserquestion'' then Block
         else if list_ex (contains_sub blob) DANGEROUS_PATTERNS then Block
         else if pipes_to_shell blob then Block
         else if list_ex (contains_sub transcript) HOSTILE_INTENT then Block
         else case access of
                AccessKind.Bash cmd \<Rightarrow> classify_bash parse cmd
              | AccessKind.WebFetch _ \<Rightarrow> Block
              | AccessKind.Edit _ \<Rightarrow> Block
              | MCPTool _ _ \<Rightarrow> Block
              | AccessKind.AgentMessage _ \<Rightarrow> Block
              | AccessKind.Read _ \<Rightarrow> ClassifierVerdict.Allow
              | AccessKind.Grep _ _ \<Rightarrow> ClassifierVerdict.Allow
              | AccessKind.WebSearch _ \<Rightarrow> ClassifierVerdict.Allow)"

definition access_requires_user_interaction :: "string \<Rightarrow> AccessKind \<Rightarrow> bool" where
  "access_requires_user_interaction tool_name access \<longleftrightarrow>
     (let t = to_ascii_lowercase tool_name in
      contains_sub t ''ask_user'' \<or> contains_sub t ''askuserquestion'' \<or> contains_sub t ''user_question'' \<or>
      t = ''ask_user_question'') \<or>
     (case access of
        MCPTool name _ \<Rightarrow>
          let n = to_ascii_lowercase name in
          contains_sub n ''ask_user'' \<or> contains_sub n ''confirm'' \<and> contains_sub n ''human''
      | _ \<Rightarrow> False)"

definition is_auto_mode_allowlisted_access :: "AccessKind \<Rightarrow> bool" where
  "is_auto_mode_allowlisted_access access =
     (case access of AccessKind.Read _ \<Rightarrow> True | AccessKind.Grep _ _ \<Rightarrow> True | AccessKind.WebSearch _ \<Rightarrow> True | _ \<Rightarrow> False)"

definition is_auto_mode_allowlisted_tool_name :: "string \<Rightarrow> bool" where
  "is_auto_mode_allowlisted_tool_name tool_name \<longleftrightarrow>
     tool_name \<in> set
       [''todo_write'', ''TodoWrite'', ''task_output'', ''TaskOutput'', ''wait_tasks'', ''WaitTasks'', ''ask_user_question'',
        ''AskUserQuestion'', ''enter_plan_mode'', ''EnterPlanMode'', ''exit_plan_mode'', ''ExitPlanMode'', ''switch_mode'',
        ''SwitchMode'', ''create_plan'', ''CreatePlan'', ''update_plan'', ''UpdatePlan'', ''list_mcp_resources'',
        ''ListMcpResources'', ''read_mcp_resource'', ''ReadMcpResource'', ''tool_search'', ''ToolSearch'', ''sleep'', ''Sleep'']"

datatype AutoFastPath = Allow | PromptUser | Classify

definition auto_mode_fast_path :: "AccessKind \<Rightarrow> string \<Rightarrow> bool \<Rightarrow> AutoFastPath" where
  "auto_mode_fast_path access tool_name requires_user_interaction =
     (if requires_user_interaction then PromptUser
      else if is_auto_mode_allowlisted_access access \<or> is_auto_mode_allowlisted_tool_name tool_name then AutoFastPath.Allow
      else case access of
             AccessKind.Edit _ \<Rightarrow> AutoFastPath.Allow
           | AccessKind.AgentMessage _ \<Rightarrow> AutoFastPath.Allow
           | AccessKind.Bash cmd \<Rightarrow>
               if trim cmd \<in> set [''true'', '':'', ''false''] then AutoFastPath.Allow else Classify
           | _ \<Rightarrow> Classify)"

section \<open>Nothing hides behind a launcher\<close>

text \<open>The command that a package-manager launcher runs.\<close>

inductive launches :: "words \<Rightarrow> words \<Rightarrow> bool" where
  launchesI: "inner = unwrap_wrappers ws \<Longrightarrow> inner \<noteq> [] \<Longrightarrow> \<not> is_lone_wrapper inner \<Longrightarrow>
    is_package_manager (routine_head inner) \<Longrightarrow> explicit_launch_target (routine_head inner) inner = Inner l \<Longrightarrow>
    launches ws l"

text \<open>
  C37: Following launchers ends: what a launcher runs is a proper end of the command, at least two words
  shorter, and starts with a word that is no option; so a chain of launchers is at most half as long
  as the command has words.
\<close>

theorem launcher_chain_bounded:
  assumes "(launches ^^ n) ws l"
  shows "suffix l ws \<and> length l + 2 * n \<le> length ws \<and> (0 < n \<longrightarrow> l \<noteq> [] \<and> \<not> starts_with (hd l) ''-'')"
  using assms
proof (induction n arbitrary: l)
  case (Suc n)
  then obtain m where m: "(launches ^^ n) ws m" "launches m l" by auto
  from m(2) obtain k where k: "k \<in> {2, 3}" "k < length (unwrap_wrappers m)" "l = drop k (unwrap_wrappers m)"
    "\<not> starts_with (hd l) ''-''"
    by (auto elim!: launches.cases dest!: launch_target_suffix)
  have "suffix l (unwrap_wrappers m)" unfolding k(3) by (rule suffix_drop)
  then have "suffix l m" using unwrap_wrappers_suffix [of m] by (rule suffix_order.trans)
  moreover have "length l + 2 \<le> length m"
    using k suffix_length_le [OF unwrap_wrappers_suffix [of m]] by auto
  ultimately show ?case
    using Suc.IH [OF m(1)] k by (auto intro: suffix_order.trans)
qed simp

theorem launcher_chain_bounded_witness:
  "suffix [''pytest''] [''uv'', ''run'', ''pytest'']"
proof -
  have "unwrap_wrappers [''uv'', ''run'', ''pytest''] = [''uv'', ''run'', ''pytest'']"
    "\<not> is_lone_wrapper [''uv'', ''run'', ''pytest'']" "is_package_manager (routine_head [''uv'', ''run'', ''pytest''])"
    "explicit_launch_target (routine_head [''uv'', ''run'', ''pytest'']) [''uv'', ''run'', ''pytest''] = Inner [''pytest'']"
    by code_simp+
  then have "launches [''uv'', ''run'', ''pytest''] [''pytest'']" by (intro launchesI) simp_all
  then have "(launches ^^ 1) [''uv'', ''run'', ''pytest''] [''pytest'']" by (simp add: OO_def)
  from launcher_chain_bounded [OF this] show ?thesis by simp
qed

lemma routine_launched:
  assumes "bash_command_is_routine ws" and "launches ws l"
  shows "bash_command_is_routine l" "command_env_risk l = Safe" "\<not> launched_writes_nonsink l"
  using assms by (auto elim!: launches.cases simp: bash_command_is_routine.simps [of ws] Let_def split: if_splits)

lemma routine_chain:
  assumes "launches\<^sup>*\<^sup>* ws l" and "bash_command_is_routine ws" and "command_env_risk ws = Safe"
  shows "bash_command_is_routine l \<and> command_env_risk l = Safe \<and> (l = ws \<or> \<not> launched_writes_nonsink l)"
  using assms
proof (induction rule: rtranclp_induct)
  case (step l m)
  with routine_launched [of l m] show ?case by blast
qed simp

text \<open>A command that fetches and runs remote code, or runs a callback or deletes through an option.\<close>

definition runs_payload :: "words \<Rightarrow> bool" where
  "runs_payload inner \<longleftrightarrow>
     (let head = routine_head inner in
      is_package_manager head \<and> (is_remote_launcher head inner \<or> explicit_launch_target head inner = Unresolved) \<or>
      head = ''find'' \<and> (\<exists>w \<in> set inner. w \<in> set FIND_ACTIONS) \<or>
      head = ''rg'' \<and> (\<exists>w \<in> set inner. w = ''--pre'' \<or> starts_with w ''--pre='') \<or>
      head = ''kubectl'' \<and> (\<exists>w \<in> set (drop 1 inner). before_first CHR ''='' w \<in> set KUBECTL_UNSAFE_FLAGS) \<or>
      head = ''tree'' \<and> tree_writes inner)"

lemma routine_no_payload:
  assumes "bash_command_is_routine ws"
  shows "unwrap_wrappers ws = [] \<or> is_lone_wrapper (unwrap_wrappers ws) \<or> \<not> runs_payload (unwrap_wrappers ws)"
proof -
  let ?inner = "unwrap_wrappers ws"
  have pm: "is_package_manager (routine_head ?inner) \<Longrightarrow>
      routine_head ?inner \<notin> {''find'', ''rg'', ''kubectl'', ''tree''}"
    by (auto simp: is_package_manager_def)
  show ?thesis
  proof (cases "?inner = [] \<or> is_lone_wrapper ?inner")
    case False
    note simps = bash_command_is_routine.simps [of ws]
    show ?thesis
    proof (cases "is_package_manager (routine_head ?inner)")
      case True
      then show ?thesis using assms False pm simps by (auto simp: runs_payload_def Let_def split: if_splits)
    next
      case nopm: False
      then have "plain_command_is_routine (routine_head ?inner) ?inner" using assms False simps by (simp add: Let_def)
      then have "\<not> (routine_head ?inner = ''find'' \<and> (\<exists>w \<in> set ?inner. w \<in> set FIND_ACTIONS))"
        "\<not> (routine_head ?inner = ''rg'' \<and> (\<exists>w \<in> set ?inner. w = ''--pre'' \<or> starts_with w ''--pre=''))"
        "\<not> (routine_head ?inner = ''kubectl'' \<and> (\<exists>w \<in> set (drop 1 ?inner). before_first CHR ''='' w \<in> set KUBECTL_UNSAFE_FLAGS))"
        "\<not> (routine_head ?inner = ''tree'' \<and> tree_writes ?inner)"
        by (simp_all add: plain_command_is_routine_def find_is_read_only_def list_ex_iff split: if_splits)
      with nopm show ?thesis by (simp add: runs_payload_def Let_def)
    qed
  qed blast
qed

text \<open>
  C9: What the rule-based classifier requires of a script it lets pass. The script parses and decomposes into at
  least one plain command; it sets only cosmetic variables; every written path that the extractors
  \<open>command_write_paths_in_tree\<close> and \<open>command_words_write_paths\<close> see is a sink such as \<open>/dev/null\<close>; and behind every chain of
  launchers each launched command again sets only cosmetic variables, has only sinks among the written paths seen, and
  is not one of the program and option combinations listed by \<open>runs_payload\<close>, the fixed tables of package runners,
  payload-hiding launcher options and the executing or deleting options of \<open>find\<close>, \<open>rg\<close>, \<open>kubectl\<close> and \<open>tree\<close>.
  Nothing is said about what an allowed program does: by design the code of the project runs.
\<close>

theorem classify_bash_allow_sound:
  assumes "classify_bash parse cmd = ClassifierVerdict.Allow"
  shows "\<exists>tree cmds. parse cmd = Some tree \<and> try_parse_word_only_commands_sequence tree cmd = Some cmds \<and> cmds \<noteq> [] \<and>
    script_env_risk (root_node tree) cmd cmds = Safe \<and>
    (\<forall>path \<in> set (command_write_paths_in_tree (root_node tree) cmd). is_safe_write_sink path) \<and>
    (\<forall>c \<in> set cmds. \<forall>l. launches\<^sup>*\<^sup>* (pc_words c) l \<longrightarrow>
       command_env_risk l = Safe \<and>
       (l = pc_words c \<or> (\<forall>path \<in> set (command_words_write_paths l). is_safe_write_sink path)) \<and>
       (unwrap_wrappers l = [] \<or> is_lone_wrapper (unwrap_wrappers l) \<or> \<not> runs_payload (unwrap_wrappers l)))"
proof -
  from assms obtain tree cmds where c: "parse cmd = Some tree"
    "try_parse_word_only_commands_sequence tree cmd = Some cmds" "cmds \<noteq> []"
    "script_env_risk (root_node tree) cmd cmds = Safe"
    "\<forall>path \<in> set (command_write_paths_in_tree (root_node tree) cmd). is_safe_write_sink path"
    "\<forall>c \<in> set cmds. bash_command_is_routine (pc_words c)"
    by (auto simp: classify_bash_def list_ex_iff list_all_iff split: option.splits if_splits)
  have "command_env_risk l = Safe \<and>
       (l = pc_words p \<or> (\<forall>path \<in> set (command_words_write_paths l). is_safe_write_sink path)) \<and>
       (unwrap_wrappers l = [] \<or> is_lone_wrapper (unwrap_wrappers l) \<or> \<not> runs_payload (unwrap_wrappers l))"
    if p: "p \<in> set cmds" and l: "launches\<^sup>*\<^sup>* (pc_words p) l" for p l
  proof -
    have "command_env_risk (pc_words p) = Safe"
      using script_env_risk_command [OF p, of "root_node tree" cmd] c(4) by (auto intro: env_risk_le_Safe)
    with routine_chain [OF l] c(6) p have "bash_command_is_routine l" "command_env_risk l = Safe"
      "l = pc_words p \<or> \<not> launched_writes_nonsink l" by auto
    then show ?thesis using routine_no_payload [of l] by (auto simp: launched_writes_nonsink_def list_ex_iff)
  qed
  with c show ?thesis by blast
qed

theorem classify_bash_allow_sound_witness:
  "\<exists>cmds. try_parse_word_only_commands_sequence ls_tree ''ls -l'' = Some cmds \<and> cmds \<noteq> []"
proof -
  have "classify_bash (\<lambda>_. Some ls_tree) ''ls -l'' = ClassifierVerdict.Allow" by code_simp
  from classify_bash_allow_sound [OF this] show ?thesis by auto
qed

section \<open>A routine branch switch discards nothing\<close>

lemma branch_switch_words:
  assumes "branch_switch_operands args n = Some m" and "i < length args"
    and "i = 0 \<or> args ! (i - 1) \<notin> set BRANCH_CREATE_FLAGS"
  shows "args ! i = ''-'' \<or> args ! i \<in> set BRANCH_CREATE_FLAGS \<or> args ! i \<in> set BRANCH_SWITCH_BENIGN_FLAGS \<or>
    \<not> starts_with (args ! i) ''-'' \<and> \<not> operand_reads_as_path (args ! i)"
  using assms
proof (induction args n arbitrary: i rule: branch_switch_operands.induct)
  case (2 word ws operands)
  show ?case
  proof (cases i)
    case 0
    then show ?thesis using "2.prems"(1) by (auto split: if_splits)
  next
    case (Suc j)
    have before: "(word # ws) ! j \<notin> set BRANCH_CREATE_FLAGS" using "2.prems"(3) Suc by simp
    have j: "j < length ws" using "2.prems"(2) Suc by simp
    have prev: "j = 0 \<or> ws ! (j - 1) \<notin> set BRANCH_CREATE_FLAGS" using before by (cases j) simp_all
    show ?thesis
    proof (cases "word \<in> set BRANCH_CREATE_FLAGS")
      case True
      then obtain v rest k where ws: "ws = v # rest" "j = Suc k" using j before by (cases ws; cases j) auto
      have "branch_switch_operands rest operands = Some m" using "2.prems"(1) True ws by simp
      moreover have "k = 0 \<or> rest ! (k - 1) \<notin> set BRANCH_CREATE_FLAGS" using prev ws by (cases k) simp_all
      ultimately show ?thesis using "2.IH"(1) [OF True ws(1)] j ws Suc by simp
    next
      case False
      then show ?thesis using "2.IH"(2-4) "2.prems"(1) j prev Suc by (auto split: if_splits)
    qed
  qed
qed simp

text \<open>
  Which words a branch switch that passes as routine consists of: apart from the values of
  branch-creating options, each is such an option, one of the listed options in its exact spelling, the
  previous branch, or an operand that does not read as a path. So no \<open>-f\<close>, no \<open>--\<close> with paths behind it,
  no pathspec pattern and no cluster of options is among them.
\<close>

theorem routine_branch_switch_words:
  assumes "is_routine_branch_switch (pre @ w # post)"
    and "pre = [] \<or> last pre \<notin> set BRANCH_CREATE_FLAGS"
  shows "w = ''-'' \<or> w \<in> set BRANCH_CREATE_FLAGS \<or> w \<in> set BRANCH_SWITCH_BENIGN_FLAGS \<or>
    \<not> starts_with w ''-'' \<and> \<not> operand_reads_as_path w"
proof -
  obtain m where "branch_switch_operands (pre @ w # post) 0 = Some m"
    using assms(1) by (auto simp: is_routine_branch_switch_def split: option.splits)
  from branch_switch_words [OF this, of "length pre"] assms(2) show ?thesis
    by (cases pre rule: rev_cases) (auto simp: nth_append)
qed

theorem routine_branch_switch_words_witness:
  "\<not> is_routine_branch_switch [''main'', ''-f''] \<and> is_routine_branch_switch [''-b'', ''fix'', ''-q'']"
proof
  have "\<not> (''-f'' = ''-'' \<or> ''-f'' \<in> set BRANCH_CREATE_FLAGS \<or> ''-f'' \<in> set BRANCH_SWITCH_BENIGN_FLAGS \<or>
      \<not> starts_with ''-f'' ''-'' \<and> \<not> operand_reads_as_path ''-f'')" "''main'' \<notin> set BRANCH_CREATE_FLAGS"
    by code_simp+
  then show "\<not> is_routine_branch_switch [''main'', ''-f'']"
    using routine_branch_switch_words [of "[''main'']" "''-f''" "[]"] by auto
  show "is_routine_branch_switch [''-b'', ''fix'', ''-q'']" by code_simp
qed

end
