(* ===== verification/Url_Match.thy ===== *)
theory Url_Match
  imports Permission_Match
begin

text \<open>
  Matching a server address against the patterns of a managed policy:
  \<open>crates/codegen/xai-grok-workspace/src/permission/managed_policy/url_match.rs\<close>. An allow pattern is a
  positive grant: scheme, host, port and path are compared one by one. A deny pattern looks only at host
  and path and never fails open. The parsing of addresses of \<open>std::net\<close> is modelled; the \<open>url\<close> and
  \<open>glob\<close> crates are the fields of a record of parameters.
\<close>

section \<open>Addresses\<close>

text \<open>
  \<open>Ipv4Addr\<close> and \<open>Ipv6Addr\<close> of the standard library as lists of four bytes and of eight 16-bit groups,
  with the reader behind \<open>from_str\<close> and the printer behind \<open>to_string\<close>.
\<close>

type_synonym Ipv4Addr = "nat list"

type_synonym Ipv6Addr = "nat list"

datatype IpAddr = V4 Ipv4Addr | V6 Ipv6Addr

definition hex_val :: "char \<Rightarrow> nat option" where
  "hex_val b =
     (if is_ascii_digit b then Some (of_char b - 0x30)
      else if byte_between 0x61 0x66 b then Some (of_char b - 0x61 + 10)
      else if byte_between 0x41 0x46 b then Some (of_char b - 0x41 + 10)
      else None)"

definition to_digit :: "nat \<Rightarrow> char \<Rightarrow> nat option" where
  "to_digit radix c = (case hex_val c of Some d \<Rightarrow> if d < radix then Some d else None | None \<Rightarrow> None)"

definition read_number :: "nat \<Rightarrow> nat \<Rightarrow> nat \<Rightarrow> bool \<Rightarrow> string \<Rightarrow> (nat \<times> string) option" where
  "read_number radix max_digits limit allow_zero_prefix s =
     (let ds = takeWhile (\<lambda>c. to_digit radix c \<noteq> None) s;
          n = foldl (\<lambda>a c. a * radix + the (to_digit radix c)) 0 ds
      in if ds = [] \<or> max_digits < length ds \<or> \<not> allow_zero_prefix \<and> starts_with s ''0'' \<and> 1 < length ds \<or> limit \<le> n
         then None else Some (n, drop (length ds) s))"

definition read_separator :: "char \<Rightarrow> nat \<Rightarrow> (string \<Rightarrow> ('a \<times> string) option) \<Rightarrow> string \<Rightarrow> ('a \<times> string) option" where
  "read_separator sep i inner s =
     (if i = 0 then inner s
      else case s of c # r \<Rightarrow> if c = sep then inner r else None | [] \<Rightarrow> None)"

fun read_ipv4_addr :: "nat \<Rightarrow> nat \<Rightarrow> string \<Rightarrow> (Ipv4Addr \<times> string) option" where
  "read_ipv4_addr i 0 s = Some ([], s)"
| "read_ipv4_addr i (Suc k) s =
     (case read_separator CHR ''.'' i (read_number 10 3 256 False) s of
        None \<Rightarrow> None
      | Some (g, r) \<Rightarrow> map_option (\<lambda>(gs, r). (g # gs, r)) (read_ipv4_addr (Suc i) k r))"

fun read_groups :: "nat \<Rightarrow> nat \<Rightarrow> string \<Rightarrow> nat list \<times> bool \<times> string" where
  "read_groups i 0 s = ([], False, s)"
| "read_groups i (Suc k) s =
     (case (if 0 < k then read_separator CHR '':'' i (read_ipv4_addr 0 4) s else None) of
        Some (v4, r) \<Rightarrow> ([v4 ! 0 * 256 + v4 ! 1, v4 ! 2 * 256 + v4 ! 3], True, r)
      | None \<Rightarrow>
          (case read_separator CHR '':'' i (read_number 16 4 65536 True) s of
             None \<Rightarrow> ([], False, s)
           | Some (g, r) \<Rightarrow> (case read_groups (Suc i) k r of (gs, v4, r) \<Rightarrow> (g # gs, v4, r))))"

definition parse_ipv6 :: "string \<Rightarrow> Ipv6Addr option" where
  "parse_ipv6 s =
     (case read_groups 0 8 s of (head, v4, r) \<Rightarrow>
        if length head = 8 then (if r = [] then Some head else None)
        else if v4 then None
        else case strip_prefix ''::'' r of
               None \<Rightarrow> None
             | Some t \<Rightarrow>
                 (case read_groups 0 (7 - length head) t of (tail, _, r) \<Rightarrow>
                    if r = [] then Some (head @ replicate (8 - length head - length tail) 0 @ tail) else None))"

definition ipv4_to_string :: "Ipv4Addr \<Rightarrow> string" where
  "ipv4_to_string a = join ''.'' (map to_decimal a)"

definition to_ipv4_mapped :: "Ipv6Addr \<Rightarrow> Ipv4Addr option" where
  "to_ipv4_mapped a =
     (if take 6 a = [0, 0, 0, 0, 0, 0xFFFF]
      then Some [a ! 6 div 256, a ! 6 mod 256, a ! 7 div 256, a ! 7 mod 256] else None)"

text \<open>The first longest run of zero groups: start and length.\<close>

definition zero_run :: "Ipv6Addr \<Rightarrow> nat \<times> nat" where
  "zero_run a =
     snd (foldl (\<lambda>((cs, cl), longest) (i, g).
            if g = (0::nat) then
              (let cur = (if cl = 0 then i else cs, Suc cl) in (cur, if snd longest < snd cur then cur else longest))
            else ((0, 0), longest))
          ((0, 0), (0, 0)) (List.enumerate 0 a))"

definition ipv6_to_string :: "Ipv6Addr \<Rightarrow> string" where
  "ipv6_to_string a =
     (case to_ipv4_mapped a of
        Some v4 \<Rightarrow> ''::ffff:'' @ ipv4_to_string v4
      | None \<Rightarrow>
          (case zero_run a of (start, len) \<Rightarrow>
             if 1 < len then join '':'' (map to_hex (take start a)) @ ''::'' @ join '':'' (map to_hex (drop (start + len) a))
             else join '':'' (map to_hex a)))"

fun to_canonical :: "IpAddr \<Rightarrow> IpAddr" where
  "to_canonical (V4 a) = V4 a"
| "to_canonical (V6 a) = (case to_ipv4_mapped a of Some v4 \<Rightarrow> V4 v4 | None \<Rightarrow> V6 a)"

section \<open>What comes from the \<open>url\<close> and \<open>glob\<close> crates\<close>

datatype Host = Domain string | Ipv4 Ipv4Addr | Ipv6 Ipv6Addr

record ParsedUrl =
  pu_scheme :: string
  pu_host :: "Host option"
  pu_port :: "nat option"
  pu_path :: string

text \<open>
  \<open>glob_with env case_sensitive p text\<close> stands for \<open>p.matches_with(text, ..)\<close> with the options of
  \<open>ALLOW_PATH_GLOB_OPTS\<close> (case-sensitive) or \<open>POLICY_GLOB_OPTS\<close> (not).
\<close>

record 'g url_env =
  pattern_new :: "string \<Rightarrow> 'g option"
  matches_with :: "bool \<Rightarrow> 'g \<Rightarrow> string \<Rightarrow> bool"
  url_parse :: "string \<Rightarrow> ParsedUrl option"
  host_parse :: "string \<Rightarrow> Host option"

section \<open>Runtime addresses\<close>

definition is_ascii :: "string \<Rightarrow> bool" where
  "is_ascii s = list_all (\<lambda>c. (of_char c :: nat) < 0x80) s"

definition is_glob_char :: "char \<Rightarrow> bool" where
  "is_glob_char c \<longleftrightarrow> c = CHR ''*'' \<or> c = CHR ''?'' \<or> c = CHR ''[''"

definition to_ascii_uppercase :: "char \<Rightarrow> char" where
  "to_ascii_uppercase c = (if is_ascii_lowercase c then char_of ((of_char c :: nat) - 0x20) else c)"

definition is_unreserved :: "char \<Rightarrow> bool" where
  "is_unreserved c \<longleftrightarrow> is_ascii_alphanumeric c \<or> c \<in> set ''-._~''"

fun decode_unreserved_escapes :: "string \<Rightarrow> string" where
  "decode_unreserved_escapes (p # a # b # rest) =
     (if p = CHR ''%'' then
        (case (hex_val a, hex_val b) of
           (Some hi, Some lo) \<Rightarrow>
             (let decoded = char_of (hi * 16 + lo) in
              if is_unreserved decoded then decoded # decode_unreserved_escapes rest
              else CHR ''%'' # to_ascii_uppercase a # to_ascii_uppercase b # decode_unreserved_escapes rest)
         | _ \<Rightarrow> p # decode_unreserved_escapes (a # b # rest))
      else p # decode_unreserved_escapes (a # b # rest))"
| "decode_unreserved_escapes s = s"

record RuntimeUrl =
  ru_scheme :: string
  ru_host :: Host
  ru_port :: "nat option"
  ru_path :: string

definition runtime_parse :: "'g url_env \<Rightarrow> string \<Rightarrow> RuntimeUrl option" where
  "runtime_parse env url =
     (case url_parse env url of
        None \<Rightarrow> None
      | Some parsed \<Rightarrow>
          map_option (\<lambda>host. \<lparr>ru_scheme = pu_scheme parsed, ru_host = host, ru_port = pu_port parsed,
                            ru_path = decode_unreserved_escapes (pu_path parsed)\<rparr>) (pu_host parsed))"

fun host_text :: "Host \<Rightarrow> string" where
  "host_text (Domain d) = to_ascii_lowercase (trim_end_byte CHR ''.'' d)"
| "host_text (Ipv4 a) = ipv4_to_string a"
| "host_text (Ipv6 a) = ipv6_to_string a"

definition authority_text :: "RuntimeUrl \<Rightarrow> string" where
  "authority_text r =
     (let host = (case ru_host r of Ipv6 a \<Rightarrow> ''['' @ ipv6_to_string a @ '']'' | h \<Rightarrow> host_text h) in
      case ru_port r of Some port \<Rightarrow> host @ '':'' @ to_decimal port | None \<Rightarrow> host)"

section \<open>Patterns\<close>

text \<open>\<open>s.find("://")\<close> and the two parts around it.\<close>

fun find_scheme_sep :: "string \<Rightarrow> (string \<times> string) option" where
  "find_scheme_sep s =
     (case strip_prefix ''://'' s of
        Some rest \<Rightarrow> Some ([], rest)
      | None \<Rightarrow> (case s of [] \<Rightarrow> None | c # r \<Rightarrow> map_option (\<lambda>(a, b). (c # a, b)) (find_scheme_sep r)))"

declare find_scheme_sep.simps [simp del]

definition split_scheme :: "string \<Rightarrow> string option \<times> string" where
  "split_scheme s = (case find_scheme_sep s of Some (scheme, rest) \<Rightarrow> (Some scheme, rest) | None \<Rightarrow> (None, s))"

definition split_authority_path :: "string \<Rightarrow> string \<times> string" where
  "split_authority_path s = (case split_once slash s of Some (a, p) \<Rightarrow> (a, slash # p) | None \<Rightarrow> (s, []))"

definition after_userinfo :: "string \<Rightarrow> string" where
  "after_userinfo authority = (case rsplit_once CHR ''@'' authority of Some (_, a) \<Rightarrow> a | None \<Rightarrow> authority)"

definition is_bracketed_ipv6 :: "string \<Rightarrow> bool" where
  "is_bracketed_ipv6 authority =
     (case strip_prefix ''['' authority of
        None \<Rightarrow> False
      | Some rest \<Rightarrow> (case split_once CHR '']'' rest of None \<Rightarrow> False | Some (addr, _) \<Rightarrow> parse_ipv6 addr \<noteq> None))"

definition canonical_label :: "'g url_env \<Rightarrow> string \<Rightarrow> string" where
  "canonical_label env label =
     (if list_ex is_glob_char label \<or> is_ascii label \<and> CHR ''%'' \<notin> set label then to_ascii_lowercase label
      else case host_parse env label of Some (Domain canonical) \<Rightarrow> canonical | _ \<Rightarrow> to_ascii_lowercase label)"

definition canonicalize_pattern_host :: "'g url_env \<Rightarrow> string \<Rightarrow> string" where
  "canonicalize_pattern_host env host0 =
     (let host = trim_end_byte CHR ''.'' host0 in
      if is_ascii host \<and> CHR ''%'' \<notin> set host then to_ascii_lowercase host
      else join ''.'' (map (canonical_label env) (split_on (\<lambda>c. c = CHR ''.'') host)))"

definition push_segment :: "string list \<Rightarrow> string \<Rightarrow> string list" where
  "push_segment out seg =
     (if seg = ''.'' then out
      else if seg = ''..'' then (if 1 < length out then butlast out else out)
      else out @ [seg])"

definition resolve_pattern_dot_segments :: "string \<Rightarrow> string" where
  "resolve_pattern_dot_segments path =
     (if \<not> contains_sub path ''/.'' then path
      else let segs = split_on (\<lambda>c. c = slash) path;
               ends_dir = last segs \<in> set [''.'', ''..''];
               joined = join ''/'' (foldl push_segment [] segs);
               joined = (if joined = [] then ''/'' else joined)
           in if ends_dir \<and> \<not> ends_with joined ''/'' then joined @ ''/'' else joined)"

definition needs_encoding :: "char \<Rightarrow> bool" where
  "needs_encoding b \<longleftrightarrow>
     \<not> (of_char b :: nat) < 0x80 \<or> (of_char b :: nat) < 0x20 \<or> b = CHR '' '' \<or> b = dquote \<or> b = CHR ''#'' \<or> b = CHR ''<'' \<or>
     b = CHR ''>'' \<or> b = CHR 0x60 \<or> b = CHR ''{'' \<or> b = CHR ''}'' \<or> b = CHR 0x7F"

definition percent_encode :: "char \<Rightarrow> string" where
  "percent_encode b =
     (if needs_encoding b
      then [CHR ''%'', to_ascii_uppercase (hex_digit (of_char b div 16)), to_ascii_uppercase (hex_digit (of_char b mod 16))]
      else [b])"

definition canonicalize_pattern_path :: "string \<Rightarrow> string" where
  "canonicalize_pattern_path path = concat (map percent_encode (resolve_pattern_dot_segments (decode_unreserved_escapes path)))"

definition scheme_default_port :: "string \<Rightarrow> string option" where
  "scheme_default_port scheme =
     (if scheme = ''http'' \<or> scheme = ''ws'' then Some ''80''
      else if scheme = ''https'' \<or> scheme = ''wss'' then Some ''443'' else None)"

definition parse_u16 :: "string \<Rightarrow> nat option" where
  "parse_u16 = parse_uint 65535"

definition strip_pattern_default_port :: "string \<Rightarrow> string \<Rightarrow> string" where
  "strip_pattern_default_port authority scheme =
     (case (case scheme_default_port scheme of Some d \<Rightarrow> parse_u16 d | None \<Rightarrow> None) of
        None \<Rightarrow> authority
      | Some d \<Rightarrow>
          (case rsplit_once CHR '':'' authority of
             Some (host, port) \<Rightarrow> if ends_with host '']'' \<and> parse_u16 port = Some d then host else authority
           | None \<Rightarrow> authority))"

definition bracketed_parts :: "string \<Rightarrow> (Ipv6Addr \<times> string) option" where
  "bracketed_parts authority =
     (case strip_prefix ''['' authority of
        None \<Rightarrow> None
      | Some rest \<Rightarrow>
          (case split_once CHR '']'' rest of
             None \<Rightarrow> None
           | Some (a, port) \<Rightarrow> map_option (\<lambda>addr. (addr, port)) (parse_ipv6 a)))"

definition colon_port :: "string \<Rightarrow> nat option" where
  "colon_port s = (case strip_prefix '':'' s of Some p \<Rightarrow> parse_u16 p | None \<Rightarrow> None)"

definition ports_equal :: "string \<Rightarrow> string \<Rightarrow> bool" where
  "ports_equal a b = (case (colon_port a, colon_port b) of (Some pa, Some pb) \<Rightarrow> pa = pb | _ \<Rightarrow> a = b)"

definition ipv6_authorities_equal :: "string \<Rightarrow> string \<Rightarrow> bool" where
  "ipv6_authorities_equal a b =
     (case (bracketed_parts a, bracketed_parts b) of
        (Some (addr_a, port_a), Some (addr_b, port_b)) \<Rightarrow> addr_a = addr_b \<and> ports_equal port_a port_b
      | _ \<Rightarrow> eq_ignore_ascii_case a b)"

section \<open>Allow patterns\<close>

datatype AllowScheme = SchemeAny | SchemeLiteral string | SchemeNever

definition SUPPORTED_REMOTE_SCHEMES :: "string list" where
  "SUPPORTED_REMOTE_SCHEMES = [''http'', ''https'']"

definition allow_scheme_new :: "string \<Rightarrow> AllowScheme" where
  "allow_scheme_new scheme =
     (if scheme = ''*'' then SchemeAny
      else if scheme = [] \<or> list_ex is_glob_char scheme then SchemeNever
      else SchemeLiteral scheme)"

fun allow_scheme_matches :: "AllowScheme \<Rightarrow> string \<Rightarrow> bool" where
  "allow_scheme_matches SchemeAny runtime_scheme \<longleftrightarrow>
     list_ex (\<lambda>s. eq_ignore_ascii_case s runtime_scheme) SUPPORTED_REMOTE_SCHEMES"
| "allow_scheme_matches (SchemeLiteral scheme) runtime_scheme \<longleftrightarrow> eq_ignore_ascii_case scheme runtime_scheme"
| "allow_scheme_matches SchemeNever runtime_scheme \<longleftrightarrow> False"

datatype 'g AllowAuthority = BracketedIpv6 string | HostPort "'g option" "string option"

datatype 'g AllowPath = PathAny | PathGlob 'g | PathNever

definition allow_path_new :: "'g url_env \<Rightarrow> string \<Rightarrow> 'g AllowPath" where
  "allow_path_new env canonical =
     (if canonical = [] \<or> canonical = ''/'' then PathAny
      else case pattern_new env canonical of Some p \<Rightarrow> PathGlob p | None \<Rightarrow> PathNever)"

fun allow_path_matches :: "'g url_env \<Rightarrow> 'g AllowPath \<Rightarrow> string \<Rightarrow> bool" where
  "allow_path_matches env PathAny path \<longleftrightarrow> True"
| "allow_path_matches env (PathGlob p) path \<longleftrightarrow> matches_with env True p path"
| "allow_path_matches env PathNever path \<longleftrightarrow> False"

record AllowPatternParts =
  ap_scheme :: "string option"
  ap_authority :: string
  ap_bracketed_ipv6 :: bool
  ap_host :: string
  ap_port :: "string option"
  ap_path :: string

definition split_allow_pattern :: "string \<Rightarrow> AllowPatternParts" where
  "split_allow_pattern pat =
     (case split_scheme pat of (scheme, rest) \<Rightarrow>
      case split_authority_path rest of (auth, path) \<Rightarrow>
      let authority = after_userinfo auth;
          bracketed = is_bracketed_ipv6 authority;
          hp = (if bracketed then (authority, None)
                else case rsplit_once CHR '':'' authority of
                       Some (host, port) \<Rightarrow> (host, Some port)
                     | None \<Rightarrow> (authority, None))
      in \<lparr>ap_scheme = scheme, ap_authority = authority, ap_bracketed_ipv6 = bracketed,
          ap_host = fst hp, ap_port = snd hp, ap_path = path\<rparr>)"

record 'g CompiledAllow =
  ca_scheme :: AllowScheme
  ca_authority :: "'g AllowAuthority"
  ca_path :: "'g AllowPath"

type_synonym 'g AllowUrlMatcher = "'g CompiledAllow option"

definition allow_url_new :: "'g url_env \<Rightarrow> string \<Rightarrow> 'g AllowUrlMatcher" where
  "allow_url_new env pat =
     (let parts = split_allow_pattern pat in
      map_option (\<lambda>scheme.
        \<lparr>ca_scheme = allow_scheme_new scheme,
         ca_authority =
           (if ap_bracketed_ipv6 parts then BracketedIpv6 (ap_authority parts)
            else HostPort (pattern_new env (canonicalize_pattern_host env (ap_host parts))) (ap_port parts)),
         ca_path = allow_path_new env (canonicalize_pattern_path (ap_path parts))\<rparr>) (ap_scheme parts))"

definition port_matches :: "string option \<Rightarrow> RuntimeUrl \<Rightarrow> bool" where
  "port_matches port runtime =
     (case (port, ru_port runtime) of
        (None, None) \<Rightarrow> True
      | (None, Some _) \<Rightarrow> False
      | (Some p, Some q) \<Rightarrow> parse_u16 p = Some q
      | (Some p, None) \<Rightarrow>
          (case scheme_default_port (ru_scheme runtime) of Some d \<Rightarrow> parse_u16 p = parse_u16 d | None \<Rightarrow> False))"

fun allow_authority_matches :: "'g url_env \<Rightarrow> 'g AllowAuthority \<Rightarrow> RuntimeUrl \<Rightarrow> bool" where
  "allow_authority_matches env (BracketedIpv6 pat_authority) runtime \<longleftrightarrow>
     ipv6_authorities_equal (strip_pattern_default_port pat_authority (ru_scheme runtime)) (authority_text runtime)"
| "allow_authority_matches env (HostPort host port) runtime \<longleftrightarrow>
     (case host of Some h \<Rightarrow> matches_with env False h (host_text (ru_host runtime)) | None \<Rightarrow> False) \<and>
     port_matches port runtime"

definition allow_url_matches :: "'g url_env \<Rightarrow> 'g AllowUrlMatcher \<Rightarrow> string \<Rightarrow> bool" where
  "allow_url_matches env m url =
     (case (m, runtime_parse env url) of
        (Some c, Some runtime) \<Rightarrow>
          allow_scheme_matches (ca_scheme c) (ru_scheme runtime) \<and>
          allow_authority_matches env (ca_authority c) runtime \<and>
          allow_path_matches env (ca_path c) (ru_path runtime)
      | _ \<Rightarrow> False)"

section \<open>Deny patterns\<close>

datatype 'g DenyHost = HostGlob 'g | HostLiteral string

datatype 'g DenyPath = HostOnly | DenyGlob 'g | Broken

definition parse_ip_host :: "'g url_env \<Rightarrow> string \<Rightarrow> IpAddr option" where
  "parse_ip_host env host =
     (case parse_ipv6 host of
        Some v6 \<Rightarrow> Some (to_canonical (V6 v6))
      | None \<Rightarrow>
          (case host_parse env host of
             Some (Ipv4 a) \<Rightarrow> Some (to_canonical (V4 a))
           | Some (Ipv6 a) \<Rightarrow> Some (to_canonical (V6 a))
           | _ \<Rightarrow> None))"

definition bracket_content :: "string \<Rightarrow> string option" where
  "bracket_content authority =
     (case strip_prefix ''['' authority of
        None \<Rightarrow> None
      | Some rest \<Rightarrow>
          (let content = before_first CHR '']'' rest in
           if parse_ipv6 content \<noteq> None then Some content else None))"

definition pattern_host :: "string \<Rightarrow> string" where
  "pattern_host authority =
     (case bracket_content authority of
        Some content \<Rightarrow> content
      | None \<Rightarrow>
          let fallback = (if parse_ipv6 authority \<noteq> None then authority else before_first CHR '':'' authority) in
          case rsplit_once CHR '':'' authority of
            Some (before_port, port) \<Rightarrow>
              if port \<noteq> [] \<and> list_all is_ascii_digit port \<and> parse_u16 port \<noteq> None \<and> parse_ipv6 before_port \<noteq> None
              then before_port else fallback
          | None \<Rightarrow> fallback)"

definition split_host_path :: "string \<Rightarrow> string option \<times> string" where
  "split_host_path s =
     (case split_authority_path (snd (split_scheme s)) of (auth, path) \<Rightarrow>
      let host = to_ascii_lowercase (trim_end_byte CHR ''.'' (pattern_host (after_userinfo auth))) in
      (if host = [] then None else Some host, path))"

definition push_collapsed :: "string \<Rightarrow> char \<Rightarrow> string" where
  "push_collapsed out c = (if c = slash \<and> ends_with out ''/'' then out else out @ [c])"

definition collapse_empty_segments :: "string \<Rightarrow> string" where
  "collapse_empty_segments path = foldl push_collapsed [] path"

record 'g CompiledDeny =
  cd_ip :: "IpAddr option"
  cd_host :: "'g DenyHost"
  cd_path :: "'g DenyPath"

type_synonym 'g DenyUrlMatcher = "'g CompiledDeny option"

definition deny_path_new :: "'g url_env \<Rightarrow> string \<Rightarrow> 'g DenyPath" where
  "deny_path_new env pat_path =
     (if pat_path = [] \<or> pat_path = ''/'' then HostOnly
      else case pattern_new env pat_path of Some p \<Rightarrow> DenyGlob p | None \<Rightarrow> Broken)"

definition deny_url_new :: "'g url_env \<Rightarrow> string \<Rightarrow> 'g DenyUrlMatcher" where
  "deny_url_new env pat =
     (case split_host_path pat of (None, _) \<Rightarrow> None
      | (Some pat_host, pat_path) \<Rightarrow>
          let canonical_host = canonicalize_pattern_host env pat_host in
          Some \<lparr>cd_ip = parse_ip_host env pat_host,
                cd_host = (case pattern_new env canonical_host of Some p \<Rightarrow> HostGlob p | None \<Rightarrow> HostLiteral canonical_host),
                cd_path = deny_path_new env (collapse_empty_segments (canonicalize_pattern_path pat_path))\<rparr>)"

definition deny_host_matches :: "'g url_env \<Rightarrow> 'g CompiledDeny \<Rightarrow> string \<Rightarrow> bool" where
  "deny_host_matches env c uhost =
     (case (cd_ip c, parse_ip_host env uhost) of
        (Some pat_ip, Some url_ip) \<Rightarrow> pat_ip = url_ip
      | _ \<Rightarrow>
          (case cd_host c of
             HostGlob p \<Rightarrow> matches_with env False p uhost
           | HostLiteral canonical \<Rightarrow> eq_ignore_ascii_case canonical uhost))"

fun deny_path_matches :: "'g url_env \<Rightarrow> 'g DenyPath \<Rightarrow> string \<Rightarrow> bool" where
  "deny_path_matches env HostOnly path \<longleftrightarrow> True"
| "deny_path_matches env (DenyGlob p) path \<longleftrightarrow> matches_with env False p (collapse_empty_segments path)"
| "deny_path_matches env Broken path \<longleftrightarrow> True"

definition deny_url_matches :: "'g url_env \<Rightarrow> 'g DenyUrlMatcher \<Rightarrow> string \<Rightarrow> bool" where
  "deny_url_matches env m url =
     (case m of
        None \<Rightarrow> False
      | Some c \<Rightarrow>
          (case runtime_parse env url of
             None \<Rightarrow> True
           | Some runtime \<Rightarrow>
               deny_host_matches env c (host_text (ru_host runtime)) \<and> deny_path_matches env (cd_path c) (ru_path runtime)))"

text \<open>The part of the lints that decides: a deny pattern that can never match.\<close>

definition dead_unicode_glob_label :: "string \<Rightarrow> bool" where
  "dead_unicode_glob_label host =
     list_ex (\<lambda>label. \<not> is_ascii label \<and> list_ex is_glob_char label) (split_on (\<lambda>c. c = CHR ''.'') host)"

definition warn_on_unmatchable_deny_url :: "'g url_env \<Rightarrow> string \<Rightarrow> bool" where
  "warn_on_unmatchable_deny_url env pat =
     (case fst (split_host_path pat) of
        None \<Rightarrow> True
      | Some host \<Rightarrow> pattern_new env (canonicalize_pattern_host env host) = None \<or> dead_unicode_glob_label host)"

section \<open>What is granted by a pattern is denied by the same pattern\<close>

text \<open>The colons an address consumes.\<close>

lemma read_number_rest: "read_number radix d limit z s = Some (n, r) \<Longrightarrow> \<exists>u. s = u @ r"
  by (auto simp: read_number_def Let_def split: if_splits) (metis append_take_drop_id)+

lemma read_separator_rest:
  assumes "read_separator c i inner s = Some (x, r)" and "\<And>t x r. inner t = Some (x, r) \<Longrightarrow> \<exists>u. t = u @ r"
  shows "\<exists>u. s = u @ r \<and> (0 < i \<longrightarrow> c \<in> set u)"
proof (cases "i = 0")
  case True
  with assms show ?thesis by (auto simp: read_separator_def)
next
  case False
  with assms(1) obtain t where t: "s = c # t" "inner t = Some (x, r)"
    by (auto simp: read_separator_def split: list.splits if_splits)
  from assms(2) [OF t(2)] obtain u where "t = u @ r" by blast
  with t(1) have "s = (c # u) @ r \<and> c \<in> set (c # u)" by simp
  then show ?thesis by blast
qed

lemma read_ipv4_rest: "read_ipv4_addr i k s = Some (gs, r) \<Longrightarrow> \<exists>u. s = u @ r"
proof (induction i k s arbitrary: gs r rule: read_ipv4_addr.induct)
  case (2 i k s)
  from "2.prems" obtain g t hs where t: "read_separator CHR ''.'' i (read_number 10 3 256 False) s = Some (g, t)"
    "read_ipv4_addr (Suc i) k t = Some (hs, r)"
    by (auto split: option.splits)
  have "\<exists>u. s = u @ t \<and> (0 < i \<longrightarrow> CHR ''.'' \<in> set u)"
    by (rule read_separator_rest [OF t(1)]) (rule read_number_rest)
  then obtain u where "s = u @ t" by blast
  moreover obtain v where "t = v @ r" using "2.IH" [OF t(1) refl t(2)] by blast
  ultimately have "s = (u @ v) @ r" by simp
  then show ?case by blast
qed simp

lemma read_groups_colons:
  "read_groups i k s = (gs, v4, r) \<Longrightarrow>
    \<exists>u. s = u @ r \<and> length gs \<le> length (filter (\<lambda>c. c = CHR '':'') u) + (if i = 0 then 1 else 0) + (if v4 then 1 else 0)"
proof (induction i k s arbitrary: gs v4 r rule: read_groups.induct)
  case (2 i k s)
  let ?n = "\<lambda>u. length (filter (\<lambda>c. c = CHR '':'') u)"
  have pos: "1 \<le> ?n u" if "CHR '':'' \<in> set u" for u
    using that by (auto simp: Suc_le_eq length_greater_0_conv filter_empty_conv)
  consider (ip) a t where "0 < k" "read_separator CHR '':'' i (read_ipv4_addr 0 4) s = Some (a, t)"
    | (group) g t where "(if 0 < k then read_separator CHR '':'' i (read_ipv4_addr 0 4) s else None) = None"
        "read_separator CHR '':'' i (read_number 16 4 65536 True) s = Some (g, t)"
    | (none) "(if 0 < k then read_separator CHR '':'' i (read_ipv4_addr 0 4) s else None) = None"
        "read_separator CHR '':'' i (read_number 16 4 65536 True) s = None"
    by (metis (no_types, opaque_lifting) not_None_eq surj_pair)
  then show ?case
  proof cases
    case ip
    with "2.prems" have "length gs = 2" "v4" "r = t" by auto
    moreover have "\<exists>u. s = u @ t \<and> (0 < i \<longrightarrow> CHR '':'' \<in> set u)"
      by (rule read_separator_rest [OF ip(2)]) (rule read_ipv4_rest)
    then obtain u where "s = u @ t" "0 < i \<longrightarrow> CHR '':'' \<in> set u" by blast
    ultimately show ?thesis using pos [of u] by (intro exI [of _ u]) auto
  next
    case group
    obtain hs w q where rec: "read_groups (Suc i) k t = (hs, w, q)" by (metis surj_pair)
    with "2.prems" group have eqs: "gs = g # hs" "v4 = w" "r = q" by auto
    have "\<exists>u. s = u @ t \<and> (0 < i \<longrightarrow> CHR '':'' \<in> set u)"
      by (rule read_separator_rest [OF group(2)]) (rule read_number_rest)
    then obtain u where u: "s = u @ t" "0 < i \<longrightarrow> CHR '':'' \<in> set u" by blast
    obtain v where v: "t = v @ q" "length hs \<le> ?n v + (if w then 1 else 0)"
      using "2.IH" [OF group(1) group(2) refl rec] by auto
    from u v eqs pos [of u] show ?thesis by (intro exI [of _ "u @ v"]) auto
  next
    case none
    with "2.prems" show ?thesis by auto
  qed
qed auto

lemma parse_ipv6_colons:
  assumes "parse_ipv6 s = Some a"
  shows "2 \<le> length (filter (\<lambda>c. c = CHR '':'') s)"
proof -
  obtain gs v4 r where g: "read_groups 0 8 s = (gs, v4, r)" by (metis surj_pair)
  from read_groups_colons [OF g] obtain u where u: "s = u @ r"
    "length gs \<le> length (filter (\<lambda>c. c = CHR '':'') u) + 1 + (if v4 then 1 else 0)" by auto
  show ?thesis
  proof (cases "length gs = 8")
    case True
    with u show ?thesis by (auto split: if_splits)
  next
    case False
    with assms g obtain t where "r = ''::'' @ t"
      by (auto simp: parse_ipv6_def strip_prefix_Some split: if_splits option.splits)
    with u(1) show ?thesis by simp
  qed
qed

corollary parse_ipv6_needs_colon: "CHR '':'' \<notin> set s \<Longrightarrow> parse_ipv6 s = None"
proof (rule ccontr)
  assume no: "CHR '':'' \<notin> set s" and "parse_ipv6 s \<noteq> None"
  then obtain a where "parse_ipv6 s = Some a" by blast
  moreover have "filter (\<lambda>c. c = CHR '':'') s = []" using no by (auto simp: filter_empty_conv)
  ultimately show False using parse_ipv6_colons [of s a] by simp
qed

text \<open>A runtime host is in lower case.\<close>

lemma lower_digit: "is_ascii_digit c \<or> is_lower_hex c \<Longrightarrow> ascii_lower c = c"
  by (auto simp: ascii_lower_def is_lower_hex_def is_ascii_digit_def is_ascii_uppercase_def byte_between_def)

lemma to_decimal_digits: "c \<in> set (to_decimal n) \<Longrightarrow> is_ascii_digit c"
proof (induction n arbitrary: c rule: to_decimal.induct)
  case (1 n)
  have d: "is_ascii_digit (char_of (0x30 + m :: nat))" if "m < 10" for m
    using that by (simp add: is_ascii_digit_def byte_between_def)
  from 1 show ?case by (cases "n < 10") (auto simp: to_decimal.simps [of n] d)
qed

lemma lower_to_decimal: "to_ascii_lowercase (to_decimal n) = to_decimal n"
  unfolding to_ascii_lowercase_def by (rule map_idI) (auto dest: to_decimal_digits intro: lower_digit)

lemma lower_to_hex: "to_ascii_lowercase (to_hex n) = to_hex n"
  unfolding to_ascii_lowercase_def
  by (rule map_idI) (metis list_all_iff lower_digit to_hex_lower_hex)

lemma lower_join: "(\<And>w. w \<in> set ws \<Longrightarrow> to_ascii_lowercase w = w) \<Longrightarrow> to_ascii_lowercase sep = sep \<Longrightarrow>
    to_ascii_lowercase (join sep ws) = join sep ws"
  by (induction sep ws rule: join.induct) (auto simp: to_ascii_lowercase_def)

lemma lower_append: "to_ascii_lowercase (a @ b) = to_ascii_lowercase a @ to_ascii_lowercase b"
  by (simp add: to_ascii_lowercase_def)

lemma lower_Cons: "to_ascii_lowercase (c # s) = ascii_lower c # to_ascii_lowercase s" "to_ascii_lowercase [] = []"
  by (simp_all add: to_ascii_lowercase_def)

lemma lower_host_text [simp]: "to_ascii_lowercase (host_text h) = host_text h"
proof -
  have seps: "ascii_lower CHR ''.'' = CHR ''.''" "ascii_lower CHR '':'' = CHR '':''" "ascii_lower CHR ''f'' = CHR ''f''"
    by code_simp+
  have v4: "to_ascii_lowercase (ipv4_to_string a) = ipv4_to_string a" for a
    unfolding ipv4_to_string_def by (rule lower_join) (auto simp: lower_to_decimal lower_Cons seps)
  have hex: "to_ascii_lowercase (join '':'' (map to_hex gs)) = join '':'' (map to_hex gs)" for gs
    by (rule lower_join) (auto simp: lower_to_hex lower_Cons seps)
  show ?thesis
    by (cases h) (auto simp: v4 hex seps ipv6_to_string_def lower_append lower_Cons split: option.split prod.split)
qed

lemma contains_sub_append: "p \<noteq> [] \<Longrightarrow> contains_sub (u @ p @ t) p"
  by (induction u) (cases p; simp)+

lemma lower_eq_fixed: "\<not> is_ascii_alphabetic d \<Longrightarrow> ascii_lower c = d \<longleftrightarrow> c = d"
proof -
  assume d: "\<not> is_ascii_alphabetic d"
  have "is_ascii_alphabetic (ascii_lower c)" if "is_ascii_uppercase c"
    using that by (auto simp: ascii_lower_def is_ascii_alphabetic_def is_ascii_lowercase_def is_ascii_uppercase_def byte_between_def)
  with d show ?thesis by (auto simp: ascii_lower_def is_ascii_alphabetic_def split: if_splits)
qed

lemma lower_byte: "\<not> is_ascii_alphabetic c \<Longrightarrow> c \<in> set (to_ascii_lowercase s) \<longleftrightarrow> c \<in> set s"
  using lower_eq_fixed [of c] by (force simp: to_ascii_lowercase_def)

lemma plain_not_alphabetic: "\<not> is_ascii_alphabetic CHR ''.''" "\<not> is_ascii_alphabetic CHR '':''"
  "\<not> is_ascii_alphabetic CHR ''*''" "\<not> is_ascii_alphabetic CHR ''?''" "\<not> is_ascii_alphabetic CHR ''[''"
  "\<not> is_ascii_alphabetic CHR ''%''"
  by code_simp+

lemma trim_lower: "trim_end_byte CHR ''.'' (to_ascii_lowercase s) = to_ascii_lowercase (trim_end_byte CHR ''.'' s)"
proof -
  have "(\<lambda>x. x = CHR ''.'') \<circ> ascii_lower = (\<lambda>x. x = CHR ''.'')"
    using lower_eq_fixed [OF plain_not_alphabetic(1)] by (simp add: comp_def)
  then show ?thesis by (simp add: trim_end_byte_def to_ascii_lowercase_def rev_map dropWhile_map)
qed

lemma trim_end_byte_idem [simp]: "trim_end_byte c (trim_end_byte c s) = trim_end_byte c s"
  by (simp add: trim_end_byte_def)

lemma trim_end_byte_set: "x \<in> set (trim_end_byte c s) \<Longrightarrow> x \<in> set s"
  by (auto simp: trim_end_byte_def dest: set_dropWhileD)

lemma collapse_plain:
  assumes "\<not> contains_sub s ''//''"
  shows "collapse_empty_segments s = s"
proof -
  have "foldl push_collapsed out t = out @ t" if "\<not> contains_sub (out @ t) ''//''" for out t
    using that
  proof (induction t arbitrary: out)
    case (Cons c t)
    have "\<not> (c = slash \<and> ends_with out ''/'')"
    proof
      assume "c = slash \<and> ends_with out ''/''"
      then obtain u where "out @ c # t = u @ ''//'' @ t" by (auto simp: ends_with_iff)
      then have "contains_sub (out @ c # t) ''//''" using contains_sub_append [of "''//''" u t] by simp
      with Cons.prems show False by simp
    qed
    moreover have "\<not> contains_sub ((out @ [c]) @ t) ''//''" using Cons.prems by simp
    ultimately show ?case using Cons.IH [of "out @ [c]"] by (auto simp: push_collapsed_def)
  qed simp
  from this [of "[]" s] assms show ?thesis by (simp add: collapse_empty_segments_def)
qed

text \<open>
  The documented behaviour of the two crates that is used. Matching without case accepts what matching
  with case accepts; a pattern without metacharacters matches only itself, up to the case of ASCII
  letters; a host with a star or a question mark is never an IP address.
\<close>

definition url_env_ok :: "'g url_env \<Rightarrow> bool" where
  "url_env_ok env \<longleftrightarrow>
     (\<forall>g t. matches_with env True g t \<longrightarrow> matches_with env False g t) \<and>
     (\<forall>s g t. \<not> list_ex is_glob_char s \<longrightarrow> pattern_new env s = Some g \<longrightarrow> matches_with env False g t \<longrightarrow> eq_ignore_ascii_case s t) \<and>
     (\<forall>s a. host_parse env s = Some (Ipv4 a) \<or> host_parse env s = Some (Ipv6 a) \<longrightarrow> CHR ''*'' \<notin> set s \<and> CHR ''?'' \<notin> set s)"

text \<open>The host part of an allow pattern, when it is a plain name, is what the deny pattern looks at.\<close>

lemma pattern_host_plain:
  assumes "\<not> is_bracketed_ipv6 authority"
    and "h = (case rsplit_once CHR '':'' authority of Some (host, _) \<Rightarrow> host | None \<Rightarrow> authority)"
    and "CHR '':'' \<notin> set h" and "CHR ''['' \<notin> set h"
  shows "pattern_host authority = h"
proof (cases "rsplit_once CHR '':'' authority")
  case None
  then have "authority = h" using assms(2) by simp
  moreover from this have "bracket_content authority = None"
    using assms(4) by (auto simp: bracket_content_def strip_prefix_Some split: option.splits)
  ultimately show ?thesis using None assms(3) parse_ipv6_needs_colon [of authority]
    by (simp add: pattern_host_def before_first_plain)
next
  case (Some x)
  then obtain p where p: "rsplit_once CHR '':'' authority = Some (h, p)" using assms(2) by (cases x) simp
  then have auth: "authority = h @ CHR '':'' # p" and cp: "CHR '':'' \<notin> set p" by (simp_all add: rsplit_once_Some)
  have "filter (\<lambda>c. c = CHR '':'') h = []" "filter (\<lambda>c. c = CHR '':'') p = []"
    using assms(3) cp by (auto simp: filter_empty_conv)
  then have one: "parse_ipv6 authority = None" "parse_ipv6 h = None"
    using parse_ipv6_colons [of authority] parse_ipv6_needs_colon [OF assms(3)]
    by (cases "parse_ipv6 authority"; simp add: auth)+
  have "bracket_content authority = None"
    using assms(4)
    by (cases h) (auto simp: auth bracket_content_def strip_prefix_Some split: option.splits)
  with p one assms(3) show ?thesis
    by (simp add: pattern_host_def auth before_first_append)
qed

text \<open>The parts of an allow pattern whose host is a plain name.\<close>

definition plain_pattern_host :: "string \<Rightarrow> bool" where
  "plain_pattern_host h \<longleftrightarrow> is_ascii h \<and> set h \<inter> {CHR '':'', CHR ''['', CHR ''%''} = {}"

lemma canonical_plain_host:
  assumes "plain_pattern_host h"
  shows "canonicalize_pattern_host env h = to_ascii_lowercase (trim_end_byte CHR ''.'' h)"
    and "canonicalize_pattern_host env (to_ascii_lowercase (trim_end_byte CHR ''.'' h)) = to_ascii_lowercase (trim_end_byte CHR ''.'' h)"
proof -
  have ascii: "is_ascii (to_ascii_lowercase t)" if "is_ascii t" for t
    using that by (auto simp: is_ascii_def list_all_iff to_ascii_lowercase_def ascii_lower_def is_ascii_uppercase_def byte_between_def)
  have t: "is_ascii (trim_end_byte CHR ''.'' h)" "CHR ''%'' \<notin> set (trim_end_byte CHR ''.'' h)"
    using assms by (auto simp: plain_pattern_host_def is_ascii_def list_all_iff dest: trim_end_byte_set)
  then show "canonicalize_pattern_host env h = to_ascii_lowercase (trim_end_byte CHR ''.'' h)"
    by (simp add: canonicalize_pattern_host_def)
  from t show "canonicalize_pattern_host env (to_ascii_lowercase (trim_end_byte CHR ''.'' h)) = to_ascii_lowercase (trim_end_byte CHR ''.'' h)"
    by (simp add: canonicalize_pattern_host_def trim_lower ascii lower_byte plain_not_alphabetic)
qed

lemma deny_host_covers:
  assumes "url_env_ok env" and "plain_pattern_host h" and "hh = to_ascii_lowercase (trim_end_byte CHR ''.'' h)"
    and "pattern_new env hh = Some g" and "matches_with env False g (host_text host)"
  shows "deny_host_matches env \<lparr>cd_ip = parse_ip_host env hh, cd_host = HostGlob g, cd_path = q\<rparr> (host_text host)"
proof (cases "parse_ip_host env hh")
  case None
  with assms(5) show ?thesis by (simp add: deny_host_matches_def)
next
  case (Some ip)
  have no: "CHR '':'' \<notin> set hh" "CHR ''['' \<notin> set hh"
    using assms(2,3) by (auto simp: plain_pattern_host_def lower_byte plain_not_alphabetic dest: trim_end_byte_set)
  then have "\<exists>a. host_parse env hh = Some (Ipv4 a) \<or> host_parse env hh = Some (Ipv6 a)"
    using Some by (auto simp: parse_ip_host_def parse_ipv6_needs_colon split: option.splits Host.splits)
  then have "\<not> list_ex is_glob_char hh"
    using assms(1) no(2) by (auto simp: url_env_ok_def list_ex_iff is_glob_char_def)
  then have "eq_ignore_ascii_case hh (host_text host)" using assms(1,4,5) by (auto simp: url_env_ok_def)
  then have "hh = host_text host" using assms(3) by (simp add: eq_ignore_ascii_case_def)
  with Some show ?thesis by (simp add: deny_host_matches_def)
qed

text \<open>
  An entry that would grant an address denies it when it is moved to the deny list: the deny list
  ignores scheme and port and compares host and path at least as widely. This holds for entries whose
  host is written in ASCII without colon, bracket or escape and which the deny list accepts, and for
  paths without empty segments.
\<close>

theorem deny_covers_allow:
  assumes "url_env_ok env"
    and "allow_url_matches env (allow_url_new env pat) url"
    and "plain_pattern_host (ap_host (split_allow_pattern pat))" and "\<not> ap_bracketed_ipv6 (split_allow_pattern pat)"
    and "\<not> warn_on_unmatchable_deny_url env pat"
    and "\<not> contains_sub (canonicalize_pattern_path (ap_path (split_allow_pattern pat))) ''//''"
    and "\<And>r. runtime_parse env url = Some r \<Longrightarrow> \<not> contains_sub (ru_path r) ''//''"
  shows "deny_url_matches env (deny_url_new env pat) url"
proof -
  obtain scheme rest where sc: "split_scheme pat = (scheme, rest)" by (metis surj_pair)
  obtain auth path where ap: "split_authority_path rest = (auth, path)" by (metis surj_pair)
  let ?a = "after_userinfo auth" and ?parts = "split_allow_pattern pat"
  let ?h = "ap_host ?parts" and ?hh = "to_ascii_lowercase (trim_end_byte CHR ''.'' (ap_host (split_allow_pattern pat)))"
  have nb: "\<not> is_bracketed_ipv6 ?a" and path: "ap_path ?parts = path"
    using assms(4) by (simp_all add: split_allow_pattern_def sc ap Let_def)
  have "?h = (case rsplit_once CHR '':'' ?a of Some (host, _) \<Rightarrow> host | None \<Rightarrow> ?a)"
    using nb by (simp add: split_allow_pattern_def sc ap Let_def split: option.split prod.split)
  then have host: "pattern_host ?a = ?h"
    using pattern_host_plain [OF nb, of ?h] assms(3) by (auto simp: plain_pattern_host_def)
  have split: "split_host_path pat = (if ?hh = [] then None else Some ?hh, path)"
    by (simp add: split_host_path_def sc ap host)
  with assms(5) have hh: "split_host_path pat = (Some ?hh, path)"
    by (auto simp: warn_on_unmatchable_deny_url_def)
  from assms(2) obtain s r where s: "ap_scheme ?parts = Some s" and r: "runtime_parse env url = Some r"
    by (auto simp: allow_url_matches_def allow_url_new_def Let_def split: option.splits)
  with assms(2,4) obtain g where g: "pattern_new env ?hh = Some g"
    "matches_with env False g (host_text (ru_host r))"
    and p: "allow_path_matches env (allow_path_new env (canonicalize_pattern_path path)) (ru_path r)"
    by (auto simp: allow_url_matches_def allow_url_new_def Let_def path canonical_plain_host(1) [OF assms(3)] split: option.splits)
  have "deny_path_matches env (deny_path_new env (collapse_empty_segments (canonicalize_pattern_path path))) (ru_path r)"
    using p assms(1) assms(6) assms(7) [OF r]
    by (auto simp: path collapse_plain allow_path_new_def deny_path_new_def url_env_ok_def split: if_splits option.splits)
  with deny_host_covers [OF assms(1,3) refl g] show ?thesis
    by (simp add: deny_url_matches_def deny_url_new_def hh r g canonical_plain_host(2) [OF assms(3)])
qed

text \<open>An environment to evaluate on: globs with one star at their end, and two addresses.\<close>

definition star_matches :: "bool \<Rightarrow> string \<Rightarrow> string \<Rightarrow> bool" where
  "star_matches cs p t = (if ends_with p ''*'' then starts_with t (butlast p) else p = t)"

definition corp_host_parse :: "string \<Rightarrow> Host option" where
  "corp_host_parse s = (if s = ''2001'' then Some (Ipv4 [0, 0, 7, 209]) else Some (Domain s))"

definition corp_url_parse :: "string \<Rightarrow> ParsedUrl option" where
  "corp_url_parse url =
     (if url = ''https://mcp.corp/v1/x'' then
        Some \<lparr>pu_scheme = ''https'', pu_host = Some (Domain ''mcp.corp''), pu_port = None, pu_path = ''/v1/x''\<rparr>
      else if url = ''https://[2001:db8::1]/x'' then
        Some \<lparr>pu_scheme = ''https'', pu_host = Some (Ipv6 [0x2001, 0xdb8, 0, 0, 0, 0, 0, 1]), pu_port = None, pu_path = ''/x''\<rparr>
      else None)"

definition corp_env :: "string url_env" where
  "corp_env = \<lparr>pattern_new = Some, matches_with = star_matches, url_parse = corp_url_parse, host_parse = corp_host_parse\<rparr>"

lemma corp_env_ok: "url_env_ok corp_env"
  by (auto simp: url_env_ok_def corp_env_def star_matches_def corp_host_parse_def ends_with_iff is_glob_char_def
      eq_ignore_ascii_case_def split: if_splits)

text \<open>Rules to evaluate with; the 16-bit bounds rule out evaluation by unary numbers.\<close>

lemma read_groups_numeral:
  "read_groups i (numeral v) s =
     (case (if 0 < (pred_numeral v) then read_separator CHR '':'' i (read_ipv4_addr 0 4) s else None) of
        Some (v4, r) \<Rightarrow> ([v4 ! 0 * 256 + v4 ! 1, v4 ! 2 * 256 + v4 ! 3], True, r)
      | None \<Rightarrow>
          (case read_separator CHR '':'' i (read_number 16 4 65536 True) s of
             None \<Rightarrow> ([], False, s)
           | Some (g, r) \<Rightarrow> (case read_groups (Suc i) (pred_numeral v) r of (gs, v4, r) \<Rightarrow> (g # gs, v4, r))))"
  by (simp add: numeral_eq_Suc)

lemma read_ipv4_addr_numeral:
  "read_ipv4_addr i (numeral v) s =
     (case read_separator CHR ''.'' i (read_number 10 3 256 False) s of
        None \<Rightarrow> None
      | Some (g, r) \<Rightarrow> map_option (\<lambda>(gs, r). (g # gs, r)) (read_ipv4_addr (Suc i) (pred_numeral v) r))"
  by (simp add: numeral_eq_Suc)

lemma replicate_numeral: "replicate (numeral v) x = x # replicate (pred_numeral v) x"
  by (simp add: numeral_eq_Suc)

lemmas address_eval =
  read_groups_numeral read_ipv4_addr_numeral read_separator_def read_number_def to_digit_def hex_val_def
  is_ascii_digit_def byte_between_def

lemmas pattern_eval =
  split_allow_pattern_def split_scheme_def find_scheme_sep.simps split_authority_path_def after_userinfo_def
  is_bracketed_ipv6_def rsplit_once_def split_host_path_def canonicalize_pattern_host_def canonicalize_pattern_path_def
  trim_end_byte_def resolve_pattern_dot_segments_def percent_encode_def needs_encoding_def is_ascii_def to_ascii_lowercase_def
  ascii_lower_def is_ascii_uppercase_def byte_between_def

lemma corp_star_pattern:
  "split_allow_pattern ''https://MCP.corp/v1/*'' =
     \<lparr>ap_scheme = Some ''https'', ap_authority = ''MCP.corp'', ap_bracketed_ipv6 = False, ap_host = ''MCP.corp'',
      ap_port = None, ap_path = ''/v1/*''\<rparr>"
  "canonicalize_pattern_path ''/v1/*'' = ''/v1/*''"
  by (simp_all add: pattern_eval Let_def)

theorem deny_covers_allow_witness:
  "deny_url_matches corp_env (deny_url_new corp_env ''https://MCP.corp/v1/*'') ''https://mcp.corp/v1/x''"
proof (rule deny_covers_allow [OF corp_env_ok])
  have r: "runtime_parse corp_env ''https://mcp.corp/v1/x''
      = Some \<lparr>ru_scheme = ''https'', ru_host = Domain ''mcp.corp'', ru_port = None, ru_path = ''/v1/x''\<rparr>"
    by (simp add: runtime_parse_def corp_env_def corp_url_parse_def)
  then show "\<And>r. runtime_parse corp_env ''https://mcp.corp/v1/x'' = Some r \<Longrightarrow> \<not> contains_sub (ru_path r) ''//''" by auto
  show "allow_url_matches corp_env (allow_url_new corp_env ''https://MCP.corp/v1/*'') ''https://mcp.corp/v1/x''"
    by (simp add: allow_url_matches_def allow_url_new_def corp_star_pattern r, code_simp)
  show "\<not> warn_on_unmatchable_deny_url corp_env ''https://MCP.corp/v1/*''"
    by (simp add: warn_on_unmatchable_deny_url_def pattern_eval pattern_host_def bracket_content_def parse_ipv6_needs_colon
        before_first_plain dead_unicode_glob_label_def corp_env_def)
  show "plain_pattern_host (ap_host (split_allow_pattern ''https://MCP.corp/v1/*''))"
    by (simp add: corp_star_pattern plain_pattern_host_def is_ascii_def)
qed (simp_all add: corp_star_pattern)

text \<open>
  An IPv6 host with a star and without brackets is outside this: the allow list reads the text before the
  last colon as the host pattern and grants by it, while the deny list cuts it at the first colon,
  accepts the entry and matches nothing of what is meant.
\<close>

theorem unbracketed_ipv6_glob_not_denied:
  "allow_url_matches corp_env (allow_url_new corp_env ''https://2001:db8*:443'') ''https://[2001:db8::1]/x'' \<and>
   \<not> warn_on_unmatchable_deny_url corp_env ''https://2001:db8*:443'' \<and>
   \<not> deny_url_matches corp_env (deny_url_new corp_env ''https://2001:db8*:443'') ''https://[2001:db8::1]/x''"
proof -
  have r: "runtime_parse corp_env ''https://[2001:db8::1]/x'' = Some \<lparr>ru_scheme = ''https'',
      ru_host = Ipv6 [0x2001, 0xdb8, 0, 0, 0, 0, 0, 1], ru_port = None, ru_path = ''/x''\<rparr>"
    by (simp add: runtime_parse_def corp_env_def corp_url_parse_def)
  have t: "ipv6_to_string [0x2001, 0xdb8, 0, 0, 0, 0, 0, 1] = ''2001:db8::1''"
    by (simp add: ipv6_to_string_def to_ipv4_mapped_def zero_run_def to_hex.simps hex_digit_def Let_def) code_simp
  have p: "parse_ipv6 ''2001:db8::1'' = Some [0x2001, 0xdb8, 0, 0, 0, 0, 0, 1]"
    "parse_ipv6 ''2001:db8*'' = None" "parse_ipv6 ''2001:db8*:443'' = None"
    by (simp_all add: parse_ipv6_def address_eval Let_def replicate_numeral)
  have parts: "split_allow_pattern ''https://2001:db8*:443'' =
      \<lparr>ap_scheme = Some ''https'', ap_authority = ''2001:db8*:443'', ap_bracketed_ipv6 = False, ap_host = ''2001:db8*'',
       ap_port = Some ''443'', ap_path = []\<rparr>"
    "split_host_path ''https://2001:db8*:443'' = (Some ''2001'', [])"
    by (simp_all add: pattern_eval pattern_host_def bracket_content_def p before_first_def Let_def)
  have "allow_url_matches corp_env (allow_url_new corp_env ''https://2001:db8*:443'') ''https://[2001:db8::1]/x''"
    by (simp add: allow_url_matches_def allow_url_new_def parts r t [unfolded One_nat_def] Let_def)
      (simp add: corp_env_def star_matches_def allow_scheme_new_def is_glob_char_def port_matches_def allow_path_new_def
        scheme_default_port_def eq_ignore_ascii_case_def ends_with_iff pattern_eval t [unfolded One_nat_def])
  moreover have "\<not> warn_on_unmatchable_deny_url corp_env ''https://2001:db8*:443''"
    by (simp add: warn_on_unmatchable_deny_url_def parts corp_env_def dead_unicode_glob_label_def is_ascii_def)
  moreover have "\<not> deny_url_matches corp_env (deny_url_new corp_env ''https://2001:db8*:443'') ''https://[2001:db8::1]/x''"
    by (simp add: deny_url_matches_def deny_url_new_def parts r t [unfolded One_nat_def] deny_host_matches_def parse_ip_host_def p
        parse_ipv6_needs_colon to_ipv4_mapped_def Let_def)
      (simp add: corp_env_def corp_host_parse_def)
  ultimately show ?thesis by blast
qed

end
