(* ===== verification/Managed_Policy.thy ===== *)
theory Managed_Policy
  imports Url_Match Symlink_Follow
begin

text \<open>
  Managed policy on MCP servers and plugin marketplaces:
  \<open>crates/codegen/xai-grok-workspace/src/permission/managed_policy/\<close> (\<open>layer.rs\<close>, \<open>parse.rs\<close>,
  \<open>mcp.rs\<close>, \<open>marketplace.rs\<close>, \<open>verdict.rs\<close> and the resolution in \<open>mod.rs\<close>). Policy layers of different
  trust are parsed into allow lists and pins and folded together, strictest wins. JSON objects are lists
  of keys and values in the order of the map; conversion of a TOML table to JSON and Unicode lower-casing
  are parameters, and logging is left out.
\<close>

section \<open>Layers (\<open>layer.rs\<close>)\<close>

datatype PolicyLayerTier = Mdm | SystemRequirements | SystemManaged | UserRequirements | UserManaged | Vendor

datatype PolicySourceAuthority = Native | Advisory

datatype PolicyLayerOwnership = Admin | User

fun tier_rank :: "PolicyLayerTier \<Rightarrow> nat" where
  "tier_rank Mdm = 0"
| "tier_rank SystemRequirements = 1"
| "tier_rank SystemManaged = 2"
| "tier_rank UserRequirements = 3"
| "tier_rank UserManaged = 4"
| "tier_rank Vendor = 5"

lemma tier_rank_inj: "tier_rank a = tier_rank b \<Longrightarrow> a = b"
  by (cases a; cases b) simp_all

instantiation PolicyLayerTier :: linorder
begin

definition less_eq_PolicyLayerTier :: "PolicyLayerTier \<Rightarrow> PolicyLayerTier \<Rightarrow> bool" where
  "less_eq_PolicyLayerTier a b \<longleftrightarrow> tier_rank a \<le> tier_rank b"

definition less_PolicyLayerTier :: "PolicyLayerTier \<Rightarrow> PolicyLayerTier \<Rightarrow> bool" where
  "less_PolicyLayerTier a b \<longleftrightarrow> tier_rank a < tier_rank b"

instance
  by intro_classes (auto simp: less_eq_PolicyLayerTier_def less_PolicyLayerTier_def dest: tier_rank_inj)

end

fun tier_authority :: "PolicyLayerTier \<Rightarrow> PolicySourceAuthority" where
  "tier_authority Vendor = Advisory"
| "tier_authority _ = Native"

fun tier_ownership :: "PolicyLayerTier \<Rightarrow> PolicyLayerOwnership" where
  "tier_ownership UserRequirements = User"
| "tier_ownership UserManaged = User"
| "tier_ownership _ = Admin"

text \<open>\<open>pl_table\<close> is \<open>value.as_table()\<close>, with values of the TOML crate.\<close>

record 'v PolicyLayer =
  pl_tier :: PolicyLayerTier
  pl_path :: string
  pl_table :: "(string \<times> 'v) list option"

datatype PolicyPin = Unpinned | Disabled (pin_source: string) (pin_ownership: PolicyLayerOwnership)

definition is_disabled :: "PolicyPin \<Rightarrow> bool" where
  "is_disabled p \<longleftrightarrow> p \<noteq> Unpinned"

definition accepts_grant_from :: "PolicyLayerOwnership \<Rightarrow> PolicyLayerOwnership \<Rightarrow> bool" where
  "accepts_grant_from restriction grant \<longleftrightarrow> restriction = User \<or> grant = Admin"

section \<open>Servers and entries (\<open>mcp.rs\<close>)\<close>

datatype PolicySubjectOrigin = GrokNative | Foreign

datatype AllowedMcpServer = Http string | Stdio string | StdioArgv "string list" | Name string

text \<open>The part of \<open>agent_client_protocol::McpServer\<close> that is read; \<open>OtherServer\<close> is a transport unknown to this build.\<close>

datatype McpServer = HttpServer string string | SseServer string string | StdioServer string string "string list" | OtherServer

fun mcp_server_name :: "McpServer \<Rightarrow> string" where
  "mcp_server_name (HttpServer name _) = name"
| "mcp_server_name (SseServer name _) = name"
| "mcp_server_name (StdioServer name _ _) = name"
| "mcp_server_name OtherServer = []"

fun server_url :: "McpServer \<Rightarrow> string option" where
  "server_url (HttpServer _ url) = Some url"
| "server_url (SseServer _ url) = Some url"
| "server_url _ = None"

fun argv_matches :: "string list \<Rightarrow> string \<Rightarrow> string list \<Rightarrow> bool" where
  "argv_matches [] command args = False"
| "argv_matches (f # rest) command args \<longleftrightarrow> f = command \<and> rest = args"

definition MANAGED_MCP_PREFIX :: string where
  "MANAGED_MCP_PREFIX = ''grok_com_''"

definition MANAGED_MCP_NAME_MAX_CHARS :: nat where
  "MANAGED_MCP_NAME_MAX_CHARS = 39"

definition normalize_managed_name :: "(string \<Rightarrow> string) \<Rightarrow> string \<Rightarrow> string" where
  "normalize_managed_name lower bare = map (\<lambda>c. if c = CHR '' '' then CHR ''_'' else c) (lower bare)"

definition name_key :: "(string \<Rightarrow> string) \<Rightarrow> string \<Rightarrow> string" where
  "name_key lower s =
     normalize_managed_name lower (case strip_prefix MANAGED_MCP_PREFIX s of Some r \<Rightarrow> r | None \<Rightarrow> s)"

text \<open>The byte offsets at which the characters of a string start, for \<open>chars().count()\<close> and \<open>char_indices().nth\<close>.\<close>

definition char_starts :: "string \<Rightarrow> nat list" where
  "char_starts s = map fst (filter (\<lambda>(i, c). \<not> byte_between 0x80 0xBF c) (List.enumerate 0 s))"

definition truncate_key :: "string \<Rightarrow> string" where
  "truncate_key key =
     (case get (char_starts key) (MANAGED_MCP_NAME_MAX_CHARS - length MANAGED_MCP_PREFIX) of
        Some i \<Rightarrow> take i key | None \<Rightarrow> key)"

definition mcp_name_matches :: "(string \<Rightarrow> string) \<Rightarrow> string \<Rightarrow> string \<Rightarrow> bool" where
  "mcp_name_matches lower pat name =
     (let truncated = starts_with name MANAGED_MCP_PREFIX \<and> length (char_starts name) = MANAGED_MCP_NAME_MAX_CHARS;
          key = (\<lambda>s. if truncated then truncate_key (name_key lower s) else name_key lower s)
      in key pat \<noteq> [] \<and> key pat = key name)"

fun mcp_entry_matches :: "(string \<Rightarrow> string) \<Rightarrow> AllowedMcpServer \<Rightarrow> McpServer \<Rightarrow> bool" where
  "mcp_entry_matches lower (Name name) server = mcp_name_matches lower name (mcp_server_name server)"
| "mcp_entry_matches lower (Stdio command) (StdioServer _ server_command _) \<longleftrightarrow> command = server_command"
| "mcp_entry_matches lower (StdioArgv argv) (StdioServer _ server_command args) = argv_matches argv server_command args"
| "mcp_entry_matches lower _ _ = False"

fun mcp_entry_restricts :: "AllowedMcpServer \<Rightarrow> McpServer \<Rightarrow> bool" where
  "mcp_entry_restricts _ OtherServer = True"
| "mcp_entry_restricts (Name _) _ = True"
| "mcp_entry_restricts (Http _) server = (case server of HttpServer _ _ \<Rightarrow> True | SseServer _ _ \<Rightarrow> True | _ \<Rightarrow> False)"
| "mcp_entry_restricts _ server = (case server of StdioServer _ _ _ \<Rightarrow> True | _ \<Rightarrow> False)"

record 'm CompiledEntry =
  ce_entry :: AllowedMcpServer
  ce_matcher :: "'m option"

definition compile_entries :: "(string \<Rightarrow> 'm) \<Rightarrow> AllowedMcpServer list \<Rightarrow> 'm CompiledEntry list" where
  "compile_entries compile entries =
     map (\<lambda>entry. \<lparr>ce_entry = entry,
                   ce_matcher = (case entry of Http url_pattern \<Rightarrow> Some (compile url_pattern) | _ \<Rightarrow> None)\<rparr>) entries"

record 'g McpServerAllowlist =
  al_entries :: "'g AllowUrlMatcher CompiledEntry list"
  al_deny_entries :: "'g DenyUrlMatcher CompiledEntry list"
  al_managed_only :: bool
  al_lockdown :: bool
  al_ownership :: PolicyLayerOwnership
  al_source_path :: "string option"
  al_authority :: PolicySourceAuthority

definition allowlist_new ::
  "'g url_env \<Rightarrow> AllowedMcpServer list \<Rightarrow> AllowedMcpServer list \<Rightarrow> string option \<Rightarrow> 'g McpServerAllowlist" where
  "allowlist_new env entries deny_entries source_path =
     \<lparr>al_entries = compile_entries (allow_url_new env) entries,
      al_deny_entries = compile_entries (deny_url_new env) deny_entries,
      al_managed_only = False, al_lockdown = False, al_ownership = User, al_source_path = source_path,
      al_authority = Native\<rparr>"

definition allowlist_binds :: "'g McpServerAllowlist \<Rightarrow> PolicySubjectOrigin \<Rightarrow> bool" where
  "allowlist_binds a origin \<longleftrightarrow> al_authority a = Native \<or> origin = Foreign"

definition allowlist_is_restricted :: "'g McpServerAllowlist \<Rightarrow> bool" where
  "allowlist_is_restricted a \<longleftrightarrow> al_lockdown a \<or> al_managed_only a \<or> al_entries a \<noteq> [] \<or> al_deny_entries a \<noteq> []"

definition entry_hits ::
  "('m \<Rightarrow> string \<Rightarrow> bool) \<Rightarrow> (string \<Rightarrow> string) \<Rightarrow> McpServer \<Rightarrow> 'm CompiledEntry \<Rightarrow> bool" where
  "entry_hits matches lower server compiled =
     (case ce_matcher compiled of
        Some m \<Rightarrow> (case server_url server of Some url \<Rightarrow> matches m url | None \<Rightarrow> False)
      | None \<Rightarrow> mcp_entry_matches lower (ce_entry compiled) server)"

definition matches_allow_entry ::
  "'g url_env \<Rightarrow> (string \<Rightarrow> string) \<Rightarrow> 'g McpServerAllowlist \<Rightarrow> McpServer \<Rightarrow> bool" where
  "matches_allow_entry env lower a server = list_ex (entry_hits (allow_url_matches env) lower server) (al_entries a)"

definition is_server_denied ::
  "'g url_env \<Rightarrow> (string \<Rightarrow> string) \<Rightarrow> 'g McpServerAllowlist \<Rightarrow> McpServer \<Rightarrow> bool" where
  "is_server_denied env lower a server = list_ex (entry_hits (deny_url_matches env) lower server) (al_deny_entries a)"

definition allows_ignoring_managed_only ::
  "'g url_env \<Rightarrow> (string \<Rightarrow> string) \<Rightarrow> 'g McpServerAllowlist \<Rightarrow> McpServer \<Rightarrow> bool" where
  "allows_ignoring_managed_only env lower a server =
     (if al_lockdown a then False
      else if \<not> allowlist_is_restricted a then True
      else \<not> list_ex (\<lambda>compiled. mcp_entry_restricts (ce_entry compiled) server) (al_entries a) \<or>
           matches_allow_entry env lower a server)"

type_synonym 'g McpServerPolicy = "'g McpServerAllowlist list"

definition binding_sources :: "'g McpServerPolicy \<Rightarrow> PolicySubjectOrigin \<Rightarrow> 'g McpServerAllowlist list" where
  "binding_sources policy origin = filter (\<lambda>s. allowlist_binds s origin) policy"

definition denying_source ::
  "'g url_env \<Rightarrow> (string \<Rightarrow> string) \<Rightarrow> 'g McpServerPolicy \<Rightarrow> McpServer \<Rightarrow> PolicySubjectOrigin \<Rightarrow> 'g McpServerAllowlist option" where
  "denying_source env lower policy server origin =
     find (\<lambda>s. is_server_denied env lower s server) (binding_sources policy origin)"

definition grants_exception ::
  "'g url_env \<Rightarrow> (string \<Rightarrow> string) \<Rightarrow> 'g McpServerPolicy \<Rightarrow> McpServer \<Rightarrow> PolicyLayerOwnership \<Rightarrow> bool" where
  "grants_exception env lower policy server restriction_ownership =
     list_ex (\<lambda>s. accepts_grant_from restriction_ownership (al_ownership s) \<and> matches_allow_entry env lower s server) policy"

definition blocking_allow_source ::
  "'g url_env \<Rightarrow> (string \<Rightarrow> string) \<Rightarrow> 'g McpServerPolicy \<Rightarrow> McpServer \<Rightarrow> PolicySubjectOrigin \<Rightarrow> 'g McpServerAllowlist option" where
  "blocking_allow_source env lower policy server origin =
     (case find (\<lambda>s. al_managed_only s \<and> \<not> grants_exception env lower policy server (al_ownership s))
             (binding_sources policy origin) of
        Some s \<Rightarrow> Some s
      | None \<Rightarrow> find (\<lambda>s. \<not> allows_ignoring_managed_only env lower s server) (binding_sources policy origin))"

definition is_server_allowed ::
  "'g url_env \<Rightarrow> (string \<Rightarrow> string) \<Rightarrow> 'g McpServerPolicy \<Rightarrow> McpServer \<Rightarrow> PolicySubjectOrigin \<Rightarrow> bool" where
  "is_server_allowed env lower policy server origin \<longleftrightarrow>
     denying_source env lower policy server origin = None \<and> blocking_allow_source env lower policy server origin = None"

section \<open>Marketplaces (\<open>marketplace.rs\<close>)\<close>

record MarketplaceAllowlist =
  ma_allowed_urls :: "string list"
  ma_source_path :: "string option"
  ma_authority :: PolicySourceAuthority

text \<open>\<open>rest.find('/')\<close> splits the rest into authority and path.\<close>

definition normalize_git_url :: "string \<Rightarrow> string" where
  "normalize_git_url url0 =
     (let url = (case strip_suffix ''.git'' url0 of Some u \<Rightarrow> u | None \<Rightarrow> url0) in
      case find_scheme_sep url of
        Some (scheme, rest) \<Rightarrow>
          (case split_authority_path rest of (authority, path) \<Rightarrow>
             to_ascii_lowercase scheme @ ''://'' @ to_ascii_lowercase authority @ path)
      | None \<Rightarrow>
          (case split_once CHR '':'' url of
             Some (user_host, path) \<Rightarrow>
               if CHR ''@'' \<in> set user_host then to_ascii_lowercase user_host @ '':'' @ path else url
           | None \<Rightarrow> url))"

definition marketplace_binds :: "MarketplaceAllowlist \<Rightarrow> PolicySubjectOrigin \<Rightarrow> bool" where
  "marketplace_binds a origin \<longleftrightarrow> ma_authority a = Native \<or> origin = Foreign"

definition source_allows_url :: "MarketplaceAllowlist \<Rightarrow> string \<Rightarrow> bool" where
  "source_allows_url a url = list_ex (\<lambda>allowed. normalize_git_url allowed = normalize_git_url url) (ma_allowed_urls a)"

definition is_restricted_for :: "MarketplaceAllowlist list \<Rightarrow> PolicySubjectOrigin \<Rightarrow> bool" where
  "is_restricted_for policy origin = list_ex (\<lambda>s. marketplace_binds s origin) policy"

definition is_url_allowed :: "MarketplaceAllowlist list \<Rightarrow> string \<Rightarrow> PolicySubjectOrigin \<Rightarrow> bool" where
  "is_url_allowed policy url origin = list_all (\<lambda>s. source_allows_url s url) (filter (\<lambda>s. marketplace_binds s origin) policy)"

definition blocking_source ::
  "MarketplaceAllowlist list \<Rightarrow> string \<Rightarrow> PolicySubjectOrigin \<Rightarrow> MarketplaceAllowlist option" where
  "blocking_source policy url origin =
     (case find (\<lambda>s. marketplace_binds s origin \<and> \<not> source_allows_url s url) policy of
        Some s \<Rightarrow> Some s
      | None \<Rightarrow> find (\<lambda>s. marketplace_binds s origin) policy)"

definition user_facing_policy_source :: "string \<Rightarrow> string" where
  "user_facing_policy_source path = (case path_file_name path of Some name \<Rightarrow> name | None \<Rightarrow> path)"

definition NOT_IN_STRICT :: string where
  "NOT_IN_STRICT = ''source not in strictKnownMarketplaces''"

definition user_facing_block_reason :: "MarketplaceAllowlist \<Rightarrow> string" where
  "user_facing_block_reason a =
     (case ma_source_path a of
        Some p \<Rightarrow> NOT_IN_STRICT @ '' ('' @ user_facing_policy_source p @ '')''
      | None \<Rightarrow> NOT_IN_STRICT)"

definition add_block_reason :: "MarketplaceAllowlist list \<Rightarrow> string \<Rightarrow> string option" where
  "add_block_reason policy identity =
     (if is_restricted_for policy Foreign \<and> \<not> is_url_allowed policy identity Foreign
      then Some (case blocking_source policy identity Foreign of Some s \<Rightarrow> user_facing_block_reason s | None \<Rightarrow> NOT_IN_STRICT)
      else None)"

definition push_new :: "string list \<Rightarrow> string \<Rightarrow> string list" where
  "push_new out url = (if url \<in> set out then out else out @ [url])"

definition allowed_urls :: "MarketplaceAllowlist list \<Rightarrow> string list" where
  "allowed_urls policy = foldl (\<lambda>out source. foldl push_new out (ma_allowed_urls source)) [] policy"

datatype ManagedMarketplaceKind = Git string "string option" | Local string

record ManagedMarketplace =
  mm_name :: string
  mm_kind :: ManagedMarketplaceKind
  mm_ownership :: PolicyLayerOwnership

section \<open>Reading the policy keys (\<open>parse.rs\<close>)\<close>

datatype 'a PolicyKey = Absent | Present 'a | Malformed

fun key_and_then :: "'a PolicyKey \<Rightarrow> ('a \<Rightarrow> 'b PolicyKey) \<Rightarrow> 'b PolicyKey" where
  "key_and_then Absent f = Absent"
| "key_and_then (Present x) f = f x"
| "key_and_then Malformed f = Malformed"

definition key_map :: "'a PolicyKey \<Rightarrow> ('a \<Rightarrow> 'b) \<Rightarrow> 'b PolicyKey" where
  "key_map k f = key_and_then k (\<lambda>x. Present (f x))"

definition locks_down :: "'a list PolicyKey \<Rightarrow> bool" where
  "locks_down k \<longleftrightarrow> k = Present [] \<or> k = Malformed"

fun key_entries :: "'a list PolicyKey \<Rightarrow> 'a list" where
  "key_entries (Present entries) = entries"
| "key_entries _ = []"

definition policy_field :: "json \<Rightarrow> string list \<Rightarrow> (string \<times> json) PolicyKey" where
  "policy_field j ks =
     (case filter_map (\<lambda>k. map_option (Pair k) (json_get j k)) ks of
        [] \<Rightarrow> Absent
      | f # present \<Rightarrow> if list_ex (\<lambda>(_, v). v \<noteq> snd f) present then Malformed else Present f)"

definition policy_bool :: "json \<Rightarrow> string list \<Rightarrow> bool \<Rightarrow> bool option" where
  "policy_bool j ks fail_closed =
     (case policy_field j ks of
        Absent \<Rightarrow> None
      | Malformed \<Rightarrow> Some fail_closed
      | Present (_, v) \<Rightarrow> (case as_bool v of Some b \<Rightarrow> Some b | None \<Rightarrow> Some fail_closed))"

definition policy_array :: "json \<Rightarrow> string list \<Rightarrow> json list PolicyKey" where
  "policy_array j ks =
     (case policy_field j ks of
        Absent \<Rightarrow> Absent
      | Malformed \<Rightarrow> Malformed
      | Present (_, v) \<Rightarrow> (case as_array v of Some arr \<Rightarrow> Present arr | None \<Rightarrow> Malformed))"

definition obind :: "'a option \<Rightarrow> ('a \<Rightarrow> 'b option) \<Rightarrow> 'b option" where
  "obind x f = (case x of Some y \<Rightarrow> f y | None \<Rightarrow> None)"

definition str_field :: "json \<Rightarrow> string \<Rightarrow> string option" where
  "str_field j k = obind (json_get j k) as_str"

definition marketplace_source_from_json :: "json \<Rightarrow> ManagedMarketplaceKind option" where
  "marketplace_source_from_json entry =
     (let git_ref = obind (case json_get entry ''ref'' of Some v \<Rightarrow> Some v | None \<Rightarrow> json_get entry ''branch'') as_str in
      obind (str_field entry ''source'') (\<lambda>source.
        if source = ''git'' then map_option (\<lambda>url. Git url git_ref) (str_field entry ''url'')
        else if source = ''github'' then
          map_option (\<lambda>repo. Git (''https://github.com/'' @ repo @ ''.git'') git_ref) (str_field entry ''repo'')
        else if source = ''local'' then map_option Local (str_field entry ''path'')
        else None))"

definition STRICT_KEYS :: "string list" where
  "STRICT_KEYS = [''strictKnownMarketplaces'', ''strict_known_marketplaces'']"

definition git_source_url :: "json \<Rightarrow> string option" where
  "git_source_url entry = (case marketplace_source_from_json entry of Some (Git url _) \<Rightarrow> Some url | _ \<Rightarrow> None)"

definition parse_strict_marketplaces :: "json \<Rightarrow> string list PolicyKey" where
  "parse_strict_marketplaces j = key_map (policy_array j STRICT_KEYS) (filter_map git_source_url)"

record ExtraMarketplaces =
  em_entries :: "ManagedMarketplace list"
  em_pin_auto_update_off :: bool

definition EXTRA_KEYS :: "string list" where
  "EXTRA_KEYS = [''extraKnownMarketplaces'', ''extra_known_marketplaces'']"

definition add_extra :: "PolicyLayerOwnership \<Rightarrow> ExtraMarketplaces \<Rightarrow> string \<times> json \<Rightarrow> ExtraMarketplaces" where
  "add_extra ownership out ne =
     (case ne of (name, entry) \<Rightarrow>
        case as_object entry of
          None \<Rightarrow> out\<lparr>em_pin_auto_update_off := True\<rparr>
        | Some _ \<Rightarrow>
            let out = (if policy_bool entry [''autoUpdate'', ''auto_update''] False = Some False
                       then out\<lparr>em_pin_auto_update_off := True\<rparr> else out)
            in case obind (json_get entry ''source'') marketplace_source_from_json of
                 None \<Rightarrow> out
               | Some kind \<Rightarrow>
                   out\<lparr>em_entries := em_entries out @ [\<lparr>mm_name = name, mm_kind = kind, mm_ownership = ownership\<rparr>]\<rparr>)"

definition parse_extra_marketplaces :: "json \<Rightarrow> PolicyLayerOwnership \<Rightarrow> ExtraMarketplaces" where
  "parse_extra_marketplaces j ownership =
     (let none = \<lparr>em_entries = [], em_pin_auto_update_off = False\<rparr> in
      case policy_field j EXTRA_KEYS of
        Absent \<Rightarrow> none
      | Malformed \<Rightarrow> none\<lparr>em_pin_auto_update_off := True\<rparr>
      | Present (_, v) \<Rightarrow>
          (case as_object v of
             None \<Rightarrow> none\<lparr>em_pin_auto_update_off := True\<rparr>
           | Some entries \<Rightarrow> foldl (add_extra ownership) none entries))"

datatype McpPolicyList = AllowList | DenyList

fun list_keys :: "McpPolicyList \<Rightarrow> string list" where
  "list_keys AllowList = [''allowedMcpServers'', ''allowed_mcp_servers'']"
| "list_keys DenyList = [''deniedMcpServers'', ''denied_mcp_servers'']"

definition MANAGED_POLICY_CONFIG_KEYS :: "string list" where
  "MANAGED_POLICY_CONFIG_KEYS =
     [''allowedMcpServers'', ''allowed_mcp_servers'', ''deniedMcpServers'', ''denied_mcp_servers'',
      ''allowManagedMcpServersOnly'', ''allow_managed_mcp_servers_only'', ''enableAllProjectMcpServers'',
      ''enable_all_project_mcp_servers'', ''pluginAutoUpdate'', ''plugin_auto_update'', ''strictKnownMarketplaces'',
      ''strict_known_marketplaces'', ''extraKnownMarketplaces'', ''extra_known_marketplaces'']"

definition SERVER_URL :: "string list" where
  "SERVER_URL = [''serverUrl'', ''server_url'']"

definition SERVER_COMMAND :: "string list" where
  "SERVER_COMMAND = [''serverCommand'', ''server_command'']"

definition SERVER_NAME :: "string list" where
  "SERVER_NAME = [''serverName'', ''server_name'']"

definition entry_field :: "json \<Rightarrow> string list \<Rightarrow> json option" where
  "entry_field entry ks = find_map (json_get entry) ks"

text \<open>All-or-nothing collection of an argument vector.\<close>

fun all_strings :: "json list \<Rightarrow> string list option" where
  "all_strings [] = Some []"
| "all_strings (v # vs) = obind (as_str v) (\<lambda>s. map_option (Cons s) (all_strings vs))"

definition entry_argv :: "json \<Rightarrow> string list option" where
  "entry_argv entry =
     obind (obind (entry_field entry SERVER_COMMAND) as_array) (\<lambda>a.
       case all_strings a of Some argv \<Rightarrow> if argv = [] then None else Some argv | None \<Rightarrow> None)"

definition parse_mcp_entry :: "'g url_env \<Rightarrow> json \<Rightarrow> McpPolicyList \<Rightarrow> AllowedMcpServer option" where
  "parse_mcp_entry env entry list =
     (if list_ex (\<lambda>ks. policy_field entry ks = Malformed) [SERVER_URL, SERVER_COMMAND, SERVER_NAME] then None
      else case obind (entry_field entry SERVER_URL) as_str of
             Some url \<Rightarrow> if list = DenyList \<and> warn_on_unmatchable_deny_url env url then None else Some (Http url)
           | None \<Rightarrow>
               (case entry_argv entry of
                  Some argv \<Rightarrow> Some (StdioArgv argv)
                | None \<Rightarrow>
                    (case str_field entry ''command'' of
                       Some cmd \<Rightarrow> Some (Stdio cmd)
                     | None \<Rightarrow> map_option Name (obind (entry_field entry SERVER_NAME) as_str))))"

definition parse_mcp_entries :: "'g url_env \<Rightarrow> json list \<Rightarrow> McpPolicyList \<Rightarrow> AllowedMcpServer list option" where
  "parse_mcp_entries env arr list =
     (if list = DenyList \<and> list_ex (\<lambda>entry. parse_mcp_entry env entry list = None) arr then None
      else Some (filter_map (\<lambda>entry. parse_mcp_entry env entry list) arr))"

definition parse_mcp_entry_list :: "'g url_env \<Rightarrow> json \<Rightarrow> McpPolicyList \<Rightarrow> AllowedMcpServer list PolicyKey" where
  "parse_mcp_entry_list env j list =
     key_and_then (policy_array j (list_keys list)) (\<lambda>arr.
       case parse_mcp_entries env arr list of Some entries \<Rightarrow> Present entries | None \<Rightarrow> Malformed)"

section \<open>Resolution (\<open>mod.rs\<close>)\<close>

text \<open>
  The policy part of \<open>ManagedSettings\<close>; features, permission rules and default mode come from the
  vendor file alone and are not modelled.
\<close>

record 'g ManagedSettings =
  mcp_allowlist :: "'g McpServerPolicy"
  marketplace_allowlist :: "MarketplaceAllowlist list"
  project_mcp :: PolicyPin
  plugin_auto_update :: PolicyPin
  extra_marketplaces :: "ManagedMarketplace list"

definition default_settings :: "'g ManagedSettings" where
  "default_settings =
     \<lparr>mcp_allowlist = [], marketplace_allowlist = [], project_mcp = Unpinned, plugin_auto_update = Unpinned,
      extra_marketplaces = []\<rparr>"

definition pin_disabled :: "string \<Rightarrow> PolicyLayerOwnership \<Rightarrow> PolicyPin \<Rightarrow> PolicyPin" where
  "pin_disabled path ownership pin =
     (let upgrades = (ownership = Admin \<and> (case pin of Disabled _ own \<Rightarrow> own = User | Unpinned \<Rightarrow> False)) in
      if \<not> is_disabled pin \<or> upgrades then Disabled path ownership else pin)"

definition layer_lockdown :: "'g url_env \<Rightarrow> json \<Rightarrow> bool" where
  "layer_lockdown env j \<longleftrightarrow>
     locks_down (parse_mcp_entry_list env j AllowList) \<or> parse_mcp_entry_list env j DenyList = Malformed"

definition layer_managed_only :: "json \<Rightarrow> bool" where
  "layer_managed_only j \<longleftrightarrow>
     policy_bool j [''allowManagedMcpServersOnly'', ''allow_managed_mcp_servers_only''] True = Some True"

definition layer_allowlist :: "'g url_env \<Rightarrow> json \<Rightarrow> string \<Rightarrow> PolicyLayerTier \<Rightarrow> 'g McpServerAllowlist" where
  "layer_allowlist env j path tier =
     (allowlist_new env (key_entries (parse_mcp_entry_list env j AllowList))
        (key_entries (parse_mcp_entry_list env j DenyList)) (Some path))
       \<lparr>al_authority := tier_authority tier, al_ownership := tier_ownership tier,
        al_managed_only := layer_managed_only j, al_lockdown := layer_lockdown env j\<rparr>"

definition layer_sources :: "'g url_env \<Rightarrow> json \<Rightarrow> string \<Rightarrow> PolicyLayerTier \<Rightarrow> 'g McpServerAllowlist list" where
  "layer_sources env j path tier =
     (if layer_lockdown env j \<or> key_entries (parse_mcp_entry_list env j AllowList) \<noteq> [] \<or>
         key_entries (parse_mcp_entry_list env j DenyList) \<noteq> [] \<or> layer_managed_only j
      then [layer_allowlist env j path tier] else [])"

definition PROJECT_KEYS :: "string list" where
  "PROJECT_KEYS = [''enableAllProjectMcpServers'', ''enable_all_project_mcp_servers'']"

definition AUTO_UPDATE_KEYS :: "string list" where
  "AUTO_UPDATE_KEYS = [''pluginAutoUpdate'', ''plugin_auto_update'']"

definition pin_if :: "bool \<Rightarrow> string \<Rightarrow> PolicyLayerOwnership \<Rightarrow> PolicyPin \<Rightarrow> PolicyPin" where
  "pin_if b path ownership pin = (if b then pin_disabled path ownership pin else pin)"

definition layer_marketplaces :: "json \<Rightarrow> string \<Rightarrow> PolicyLayerTier \<Rightarrow> MarketplaceAllowlist list" where
  "layer_marketplaces j path tier =
     (case parse_strict_marketplaces j of
        Absent \<Rightarrow> []
      | strict \<Rightarrow> [\<lparr>ma_allowed_urls = key_entries strict, ma_source_path = Some path, ma_authority = tier_authority tier\<rparr>])"

text \<open>The first claim of a name wins, except that an admin entry replaces a user's.\<close>

fun claim_marketplace :: "ManagedMarketplace list \<Rightarrow> ManagedMarketplace \<Rightarrow> ManagedMarketplace list" where
  "claim_marketplace [] extra = [extra]"
| "claim_marketplace (m # ms) extra =
     (if mm_name m = mm_name extra
      then (if mm_ownership m = User \<and> mm_ownership extra = Admin then extra else m) # ms
      else m # claim_marketplace ms extra)"

definition apply_policy_source ::
  "'g url_env \<Rightarrow> json \<Rightarrow> string \<Rightarrow> PolicyLayerTier \<Rightarrow> 'g ManagedSettings \<Rightarrow> 'g ManagedSettings" where
  "apply_policy_source env j path tier ms =
     (let ownership = tier_ownership tier; extras = parse_extra_marketplaces j ownership in
      \<lparr>mcp_allowlist = mcp_allowlist ms @ layer_sources env j path tier,
       marketplace_allowlist = marketplace_allowlist ms @ layer_marketplaces j path tier,
       project_mcp = pin_if (policy_bool j PROJECT_KEYS False = Some False) path ownership (project_mcp ms),
       plugin_auto_update =
         pin_if (em_pin_auto_update_off extras) path ownership
           (pin_if (policy_bool j AUTO_UPDATE_KEYS False = Some False) path ownership (plugin_auto_update ms)),
       extra_marketplaces = foldl claim_marketplace (extra_marketplaces ms) (em_entries extras)\<rparr>)"

definition unreadable_allowlist :: "'g url_env \<Rightarrow> string \<Rightarrow> PolicyLayerTier \<Rightarrow> 'g McpServerAllowlist" where
  "unreadable_allowlist env path tier =
     (allowlist_new env [] [] (Some path))
       \<lparr>al_authority := tier_authority tier, al_ownership := tier_ownership tier, al_lockdown := True\<rparr>"

definition apply_unreadable_policy_source ::
  "'g url_env \<Rightarrow> string \<Rightarrow> PolicyLayerTier \<Rightarrow> 'g ManagedSettings \<Rightarrow> 'g ManagedSettings" where
  "apply_unreadable_policy_source env path tier ms =
     ms\<lparr>mcp_allowlist := mcp_allowlist ms @ [unreadable_allowlist env path tier],
        marketplace_allowlist :=
          marketplace_allowlist ms @ [\<lparr>ma_allowed_urls = [], ma_source_path = Some path, ma_authority = tier_authority tier\<rparr>],
        project_mcp := pin_disabled path (tier_ownership tier) (project_mcp ms),
        plugin_auto_update := pin_disabled path (tier_ownership tier) (plugin_auto_update ms)\<rparr>"

definition policy_table :: "'v PolicyLayer \<Rightarrow> (string \<times> 'v) list" where
  "policy_table layer =
     (case pl_table layer of
        Some t \<Rightarrow> filter (\<lambda>(k, _). k \<in> set MANAGED_POLICY_CONFIG_KEYS) t
      | None \<Rightarrow> [])"

definition apply_layer ::
  "'g url_env \<Rightarrow> ((string \<times> 'v) list \<Rightarrow> json option) \<Rightarrow> 'g ManagedSettings \<Rightarrow> 'v PolicyLayer \<Rightarrow> 'g ManagedSettings" where
  "apply_layer env to_value ms layer =
     (if policy_table layer = [] then ms
      else case to_value (policy_table layer) of
             Some j \<Rightarrow> apply_policy_source env j (pl_path layer) (pl_tier layer) ms
           | None \<Rightarrow> apply_unreadable_policy_source env (pl_path layer) (pl_tier layer) ms)"

definition resolve_managed_settings ::
  "'g url_env \<Rightarrow> ((string \<times> 'v) list \<Rightarrow> json option) \<Rightarrow> (json \<times> string) option \<Rightarrow> 'v PolicyLayer list \<Rightarrow> 'g ManagedSettings" where
  "resolve_managed_settings env to_value claude toml_layers =
     (let ms = foldl (apply_layer env to_value) default_settings (sort_key pl_tier toml_layers) in
      case claude of
        Some (j, path) \<Rightarrow> apply_policy_source env j path Vendor ms
      | None \<Rightarrow> ms)"

section \<open>Verdicts (\<open>verdict.rs\<close>)\<close>

datatype McpBlockReason =
  Deny (block_source: string) | NotGranted (block_source: string) | Lockdown (block_source: string) | ProjectPin (block_source: string)

datatype McpVerdict = Allowed | Blocked McpBlockReason

record McpSubject =
  subject_origin :: PolicySubjectOrigin
  project_scoped :: bool

definition source_or_default :: "'g McpServerAllowlist \<Rightarrow> string" where
  "source_or_default s = (case al_source_path s of Some p \<Rightarrow> p | None \<Rightarrow> [])"

definition mcp_project_pin_block ::
  "'g url_env \<Rightarrow> (string \<Rightarrow> string) \<Rightarrow> 'g ManagedSettings \<Rightarrow> McpServer \<Rightarrow> McpSubject \<Rightarrow> McpBlockReason option" where
  "mcp_project_pin_block env lower ms server subject =
     (case project_mcp ms of
        Unpinned \<Rightarrow> None
      | Disabled source ownership \<Rightarrow>
          if \<not> project_scoped subject \<or> grants_exception env lower (mcp_allowlist ms) server ownership then None
          else Some (ProjectPin source))"

definition mcp_verdict ::
  "'g url_env \<Rightarrow> (string \<Rightarrow> string) \<Rightarrow> 'g ManagedSettings \<Rightarrow> McpServer \<Rightarrow> McpSubject \<Rightarrow> McpVerdict" where
  "mcp_verdict env lower ms server subject =
     (let policy = mcp_allowlist ms; origin = subject_origin subject in
      case denying_source env lower policy server origin of
        Some denying \<Rightarrow> Blocked (Deny (source_or_default denying))
      | None \<Rightarrow>
          (case blocking_allow_source env lower policy server origin of
             Some blocking \<Rightarrow>
               Blocked (if al_lockdown blocking then Lockdown (source_or_default blocking)
                        else NotGranted (source_or_default blocking))
           | None \<Rightarrow>
               (case mcp_project_pin_block env lower ms server subject of
                  Some reason \<Rightarrow> Blocked reason
                | None \<Rightarrow> Allowed)))"

fun rule_text :: "McpBlockReason \<Rightarrow> string" where
  "rule_text (Deny _) = ''matches deniedMcpServers''"
| "rule_text (NotGranted _) = ''not in allowedMcpServers''"
| "rule_text (Lockdown _) = ''locked down by policy''"
| "rule_text (ProjectPin _) = ''project MCP disabled by enableAllProjectMcpServers = false''"

definition user_facing_reason :: "McpBlockReason \<Rightarrow> string" where
  "user_facing_reason r = rule_text r @ '' ('' @ user_facing_policy_source (block_source r) @ '')''"

section \<open>What the layers add up to\<close>

text \<open>
  Folding layers into the settings, seen from one list of restrictions: every layer only appends to it.
  So the result holds what each layer contributes on its own, and nothing a layer adds is ever removed.
\<close>

locale accumulating =
  fixes step :: "'s \<Rightarrow> 'l \<Rightarrow> 's" and sources :: "'s \<Rightarrow> 'a list" and contribution :: "'l \<Rightarrow> 'a list"
  assumes step_appends: "sources (step s l) = sources s @ contribution l"
begin

lemma fold_appends: "sources (foldl step s ls) = sources s @ concat (map contribution ls)"
  by (induction ls arbitrary: s) (simp_all add: step_appends)

lemma fold_set: "set (sources (foldl step s ls)) = set (sources s) \<union> (\<Union>l \<in> set ls. set (contribution l))"
  by (simp add: fold_appends)

end

text \<open>What one layer contributes, read off its own text.\<close>

definition layer_mcp :: "'g url_env \<Rightarrow> ((string \<times> 'v) list \<Rightarrow> json option) \<Rightarrow> 'v PolicyLayer \<Rightarrow> 'g McpServerAllowlist list" where
  "layer_mcp env to_value l =
     (if policy_table l = [] then []
      else case to_value (policy_table l) of
             Some j \<Rightarrow> layer_sources env j (pl_path l) (pl_tier l)
           | None \<Rightarrow> [unreadable_allowlist env (pl_path l) (pl_tier l)])"

definition layer_pins_project :: "((string \<times> 'v) list \<Rightarrow> json option) \<Rightarrow> 'v PolicyLayer \<Rightarrow> bool" where
  "layer_pins_project to_value l \<longleftrightarrow>
     policy_table l \<noteq> [] \<and>
     (case to_value (policy_table l) of Some j \<Rightarrow> policy_bool j PROJECT_KEYS False = Some False | None \<Rightarrow> True)"

fun pin_owner :: "PolicyPin \<Rightarrow> PolicyLayerOwnership option" where
  "pin_owner Unpinned = None"
| "pin_owner (Disabled _ own) = Some own"

lemma apply_layer_fields:
  "mcp_allowlist (apply_layer env to_value ms l) = mcp_allowlist ms @ layer_mcp env to_value l"
  "project_mcp (apply_layer env to_value ms l) =
     pin_if (layer_pins_project to_value l) (pl_path l) (tier_ownership (pl_tier l)) (project_mcp ms)"
  by (auto simp: apply_layer_def layer_mcp_def layer_pins_project_def apply_policy_source_def Let_def
      apply_unreadable_policy_source_def pin_if_def split: option.split)

interpretation mcp_layers: accumulating "apply_layer env to_value" mcp_allowlist "layer_mcp env to_value" for env to_value
  by unfold_locales (rule apply_layer_fields)

lemma pin_owner_pin_if:
  "pin_owner (pin_if b path own pin) =
     (if b \<and> (pin_owner pin = None \<or> own = Admin \<and> pin_owner pin = Some User) then Some own else pin_owner pin)"
  by (cases pin) (auto simp: pin_if_def pin_disabled_def is_disabled_def)

lemma PolicyLayerOwnership_cases: "own \<noteq> Admin \<longleftrightarrow> own = User"
  by (cases own) auto

lemma fold_layers_pin_admin:
  "pin_owner (project_mcp (foldl (apply_layer env to_value) ms ls)) = Some Admin \<longleftrightarrow>
     pin_owner (project_mcp ms) = Some Admin \<or>
     (\<exists>l \<in> set ls. layer_pins_project to_value l \<and> tier_ownership (pl_tier l) = Admin)"
proof (induction ls arbitrary: ms)
  case (Cons l ls)
  then show ?case
    by (cases "pin_owner (project_mcp ms)")
      (auto simp: apply_layer_fields pin_owner_pin_if, (metis PolicyLayerOwnership_cases)+)
qed simp

lemma layer_mcp_ownership: "s \<in> set (layer_mcp env to_value l) \<Longrightarrow> al_ownership s = tier_ownership (pl_tier l)"
  by (auto simp: layer_mcp_def layer_sources_def layer_allowlist_def unreadable_allowlist_def split: if_splits option.splits)

lemma layer_mcp_authority: "s \<in> set (layer_mcp env to_value l) \<Longrightarrow> al_authority s = tier_authority (pl_tier l)"
  by (auto simp: layer_mcp_def layer_sources_def layer_allowlist_def unreadable_allowlist_def split: if_splits option.splits)

definition vendor_sources :: "'g url_env \<Rightarrow> (json \<times> string) option \<Rightarrow> 'g McpServerAllowlist list" where
  "vendor_sources env claude = (case claude of Some (j, path) \<Rightarrow> layer_sources env j path Vendor | None \<Rightarrow> [])"

definition vendor_pins_project :: "(json \<times> string) option \<Rightarrow> bool" where
  "vendor_pins_project claude = (case claude of Some (j, _) \<Rightarrow> policy_bool j PROJECT_KEYS False = Some False | None \<Rightarrow> False)"

lemma resolve_sources:
  "set (mcp_allowlist (resolve_managed_settings env to_value claude ls)) =
     (\<Union>l \<in> set ls. set (layer_mcp env to_value l)) \<union> set (vendor_sources env claude)"
  by (auto simp: resolve_managed_settings_def Let_def mcp_layers.fold_set default_settings_def vendor_sources_def
      apply_policy_source_def split: option.splits)

lemma vendor_source_owner: "s \<in> set (vendor_sources env claude) \<Longrightarrow> al_ownership s = Admin"
  by (auto simp: vendor_sources_def layer_sources_def layer_allowlist_def split: option.splits if_splits)

lemma resolve_pin_admin:
  "pin_owner (project_mcp (resolve_managed_settings env to_value claude ls)) = Some Admin \<longleftrightarrow>
     vendor_pins_project claude \<or> (\<exists>l \<in> set ls. layer_pins_project to_value l \<and> tier_ownership (pl_tier l) = Admin)"
proof -
  have fold: "pin_owner (project_mcp (foldl (apply_layer env to_value) default_settings (sort_key pl_tier ls))) = Some Admin \<longleftrightarrow>
      (\<exists>l \<in> set ls. layer_pins_project to_value l \<and> tier_ownership (pl_tier l) = Admin)"
    by (simp add: fold_layers_pin_admin default_settings_def)
  show ?thesis
  proof (cases claude)
    case (Some jp)
    obtain j path where "jp = (j, path)" by (cases jp)
    then show ?thesis
      using fold PolicyLayerOwnership_cases Some
      by (cases "pin_owner (project_mcp (foldl (apply_layer env to_value) default_settings (sort_key pl_tier ls)))")
        (auto simp: resolve_managed_settings_def vendor_pins_project_def apply_policy_source_def Let_def pin_owner_pin_if)
  qed (simp add: resolve_managed_settings_def vendor_pins_project_def fold)
qed

lemma fold_layers_pin_owner:
  "pin_owner (project_mcp (foldl (apply_layer env to_value) ms ls)) = Some own \<Longrightarrow>
     pin_owner (project_mcp ms) = Some own \<or> (\<exists>l \<in> set ls. own = tier_ownership (pl_tier l))"
proof (induction ls arbitrary: ms)
  case (Cons l ls)
  from Cons.prems Cons.IH [of "apply_layer env to_value ms l"] show ?case
    by (auto simp: apply_layer_fields pin_owner_pin_if split: if_splits)
qed simp

lemma resolve_pin_owner:
  assumes "pin_owner (project_mcp (resolve_managed_settings env to_value claude ls)) = Some own"
  shows "own = Admin \<or> (\<exists>l \<in> set ls. own = tier_ownership (pl_tier l))"
  using assms fold_layers_pin_owner [of env to_value default_settings "sort_key pl_tier ls" own]
  by (auto simp: resolve_managed_settings_def Let_def apply_policy_source_def pin_owner_pin_if default_settings_def
      split: option.splits if_splits)

section \<open>The verdict\<close>

text \<open>When a source blocks a server, given all sources.\<close>

definition source_blocks ::
  "'g url_env \<Rightarrow> (string \<Rightarrow> string) \<Rightarrow> 'g McpServerPolicy \<Rightarrow> McpServer \<Rightarrow> 'g McpServerAllowlist \<Rightarrow> bool" where
  "source_blocks env lower policy server s \<longleftrightarrow>
     is_server_denied env lower s server \<or>
     al_managed_only s \<and> \<not> grants_exception env lower policy server (al_ownership s) \<or>
     \<not> allows_ignoring_managed_only env lower s server"

lemma find_None_ball: "find P xs = None \<longleftrightarrow> (\<forall>x \<in> set xs. \<not> P x)"
  by (auto simp: find_None_iff)

lemma blocking_allow_source_None:
  "blocking_allow_source env lower policy server origin = None \<longleftrightarrow>
     find (\<lambda>s. al_managed_only s \<and> \<not> grants_exception env lower policy server (al_ownership s)) (binding_sources policy origin) = None \<and>
     find (\<lambda>s. \<not> allows_ignoring_managed_only env lower s server) (binding_sources policy origin) = None"
  by (auto simp: blocking_allow_source_def split: option.splits)

lemma mcp_verdict_allowed_iff:
  "mcp_verdict env lower ms server subject = Allowed \<longleftrightarrow>
     (\<forall>s \<in> set (mcp_allowlist ms). allowlist_binds s (subject_origin subject) \<longrightarrow>
        \<not> source_blocks env lower (mcp_allowlist ms) server s) \<and>
     (\<forall>own. pin_owner (project_mcp ms) = Some own \<longrightarrow> project_scoped subject \<longrightarrow>
        grants_exception env lower (mcp_allowlist ms) server own)"
proof -
  let ?p = "mcp_allowlist ms" and ?o = "subject_origin subject"
  have "denying_source env lower ?p server ?o = None \<and> blocking_allow_source env lower ?p server ?o = None \<longleftrightarrow>
      (\<forall>s \<in> set ?p. allowlist_binds s ?o \<longrightarrow> \<not> source_blocks env lower ?p server s)"
    by (auto simp: denying_source_def blocking_allow_source_None binding_sources_def source_blocks_def find_None_ball)
  moreover have "mcp_project_pin_block env lower ms server subject = None \<longleftrightarrow>
      (\<forall>own. pin_owner (project_mcp ms) = Some own \<longrightarrow> project_scoped subject \<longrightarrow> grants_exception env lower ?p server own)"
    by (cases "project_mcp ms") (auto simp: mcp_project_pin_block_def)
  ultimately show ?thesis
    by (auto simp: mcp_verdict_def Let_def split: option.splits)
qed

definition admin_layer :: "'v PolicyLayer \<Rightarrow> bool" where
  "admin_layer l \<longleftrightarrow> tier_ownership (pl_tier l) = Admin"

text \<open>
  C11: What the layers a user can write cannot undo. If the administrator's layers together with the
  vendor file block a server, then they block it whatever further layers the user adds, in whatever
  order the layers are found: a user's allow entry satisfies no restriction of the administrator, and no
  layer removes another's denial, lockdown or pin.
\<close>

theorem user_layers_cannot_unblock:
  assumes "mcp_verdict env lower (resolve_managed_settings env to_value claude (filter admin_layer layers)) server subject
      = Blocked reason"
  shows "mcp_verdict env lower (resolve_managed_settings env to_value claude layers) server subject \<noteq> Allowed"
proof
  let ?small = "resolve_managed_settings env to_value claude (filter admin_layer layers)"
  let ?big = "resolve_managed_settings env to_value claude layers"
  let ?S = "mcp_allowlist ?small" and ?B = "mcp_allowlist ?big"
  assume "mcp_verdict env lower ?big server subject = Allowed"
  then have allowed: "\<And>s. s \<in> set ?B \<Longrightarrow> allowlist_binds s (subject_origin subject) \<Longrightarrow> \<not> source_blocks env lower ?B server s"
    "\<And>own. pin_owner (project_mcp ?big) = Some own \<Longrightarrow> project_scoped subject \<Longrightarrow> grants_exception env lower ?B server own"
    by (auto simp: mcp_verdict_allowed_iff)
  have sub: "set ?S \<subseteq> set ?B" by (auto simp: resolve_sources)
  have admin: "al_ownership s = Admin" if "s \<in> set ?S" for s
    using that by (auto simp: resolve_sources admin_layer_def layer_mcp_ownership vendor_source_owner)
  have only: "s \<in> set ?S" if "s \<in> set ?B" "al_ownership s = Admin" for s
    using that by (auto simp: resolve_sources admin_layer_def) (metis layer_mcp_ownership)
  have grants: "grants_exception env lower ?S server Admin" if "grants_exception env lower ?B server Admin"
    using that only by (auto simp: grants_exception_def accepts_grant_from_def list_ex_iff)
  have "\<not> source_blocks env lower ?S server s" if "s \<in> set ?S" "allowlist_binds s (subject_origin subject)" for s
    using allowed(1) [of s] that sub admin [OF that(1)] grants by (auto simp: source_blocks_def)
  moreover have "grants_exception env lower ?S server own"
    if "pin_owner (project_mcp ?small) = Some own" "project_scoped subject" for own
  proof -
    have "own = Admin" using resolve_pin_owner [OF that(1)] by (auto simp: admin_layer_def)
    with that(1) have "pin_owner (project_mcp ?big) = Some Admin" by (auto simp: resolve_pin_admin)
    with \<open>own = Admin\<close> that(2) allowed(2) grants show ?thesis by blast
  qed
  ultimately have "mcp_verdict env lower ?small server subject = Allowed" by (auto simp: mcp_verdict_allowed_iff)
  with assms show False by simp
qed

text \<open>
  When the text of a layer does not say what is meant: it cannot be read, or a list has the wrong type or
  two spellings that differ, or an entry of the deny list is unusable.
\<close>

definition mcp_unclear :: "'g url_env \<Rightarrow> json option \<Rightarrow> bool" where
  "mcp_unclear env text_of =
     (case text_of of
        None \<Rightarrow> True
      | Some j \<Rightarrow>
          policy_array j (list_keys AllowList) = Malformed \<or> policy_array j (list_keys DenyList) = Malformed \<or>
          (\<exists>arr \<in> set_option (case policy_array j (list_keys DenyList) of Present a \<Rightarrow> Some a | _ \<Rightarrow> None).
             list_ex (\<lambda>entry. parse_mcp_entry env entry DenyList = None) arr))"

definition strict_unclear :: "json option \<Rightarrow> bool" where
  "strict_unclear text_of = (case text_of of None \<Rightarrow> True | Some j \<Rightarrow> policy_array j STRICT_KEYS = Malformed)"

definition bool_unclear :: "json option \<Rightarrow> string list \<Rightarrow> bool" where
  "bool_unclear text_of ks =
     (case text_of of
        None \<Rightarrow> True
      | Some j \<Rightarrow> (case policy_field j ks of Absent \<Rightarrow> False | Malformed \<Rightarrow> True | Present (_, v) \<Rightarrow> as_bool v = None))"

lemma unclear_layer_locks:
  assumes "policy_table l \<noteq> []" and "mcp_unclear env (to_value (policy_table l))"
  shows "\<exists>s \<in> set (layer_mcp env to_value l). al_lockdown s"
proof (cases "to_value (policy_table l)")
  case None
  with assms(1) show ?thesis by (simp add: layer_mcp_def unreadable_allowlist_def)
next
  case (Some j)
  have "layer_lockdown env j"
    using assms(2) Some
    by (auto simp: mcp_unclear_def layer_lockdown_def locks_down_def parse_mcp_entry_list_def parse_mcp_entries_def
        split: PolicyKey.splits)
  with assms(1) Some show ?thesis by (simp add: layer_mcp_def layer_sources_def layer_allowlist_def)
qed

definition layer_markets :: "((string \<times> 'v) list \<Rightarrow> json option) \<Rightarrow> 'v PolicyLayer \<Rightarrow> MarketplaceAllowlist list" where
  "layer_markets to_value l =
     (if policy_table l = [] then []
      else case to_value (policy_table l) of
             Some j \<Rightarrow> layer_marketplaces j (pl_path l) (pl_tier l)
           | None \<Rightarrow> [\<lparr>ma_allowed_urls = [], ma_source_path = Some (pl_path l), ma_authority = tier_authority (pl_tier l)\<rparr>])"

interpretation market_layers: accumulating "apply_layer env to_value" marketplace_allowlist "layer_markets to_value" for env to_value
  by unfold_locales
    (auto simp: apply_layer_def layer_markets_def apply_policy_source_def Let_def apply_unreadable_policy_source_def split: option.split)

lemma resolve_markets:
  "l \<in> set ls \<Longrightarrow> set (layer_markets to_value l) \<subseteq> set (marketplace_allowlist (resolve_managed_settings env to_value claude ls))"
  by (auto simp: resolve_managed_settings_def Let_def market_layers.fold_set apply_policy_source_def split: option.splits)

lemma fold_layers_pinned:
  "is_disabled (project_mcp (foldl (apply_layer env to_value) ms ls)) \<longleftrightarrow>
     is_disabled (project_mcp ms) \<or> (\<exists>l \<in> set ls. layer_pins_project to_value l)"
proof (induction ls arbitrary: ms)
  case (Cons l ls)
  have "is_disabled (pin_if b path own pin) \<longleftrightarrow> is_disabled pin \<or> b" for b path own pin
    by (auto simp: pin_if_def pin_disabled_def is_disabled_def)
  with Cons show ?case by (simp add: apply_layer_fields)
qed simp

lemma resolve_pinned:
  "l \<in> set ls \<Longrightarrow> layer_pins_project to_value l \<Longrightarrow>
     is_disabled (project_mcp (resolve_managed_settings env to_value claude ls))"
  using fold_layers_pinned [of env to_value default_settings "sort_key pl_tier ls"]
  by (auto simp: resolve_managed_settings_def Let_def apply_policy_source_def pin_if_def pin_disabled_def is_disabled_def
      split: option.splits)

text \<open>
  C12: A policy that cannot be understood blocks. Take any layer of the configuration, in any position and
  with any others around it. If its MCP lists are unclear, no MCP server runs, wherever it was defined; if
  its list of marketplaces is unclear, no marketplace passes and none can be added; and if its switch for
  project servers is unclear, project servers are pinned off.
\<close>

theorem unclear_policy_fails_closed:
  assumes "l \<in> set layers" and "pl_tier l \<noteq> Vendor" and "policy_table l \<noteq> []"
    and "ms = resolve_managed_settings env to_value claude layers"
  shows "(mcp_unclear env (to_value (policy_table l)) \<longrightarrow> mcp_verdict env lower ms server subject \<noteq> Allowed) \<and>
    (strict_unclear (to_value (policy_table l)) \<longrightarrow>
       \<not> is_url_allowed (marketplace_allowlist ms) url origin \<and> add_block_reason (marketplace_allowlist ms) url \<noteq> None) \<and>
    (bool_unclear (to_value (policy_table l)) PROJECT_KEYS \<longrightarrow> is_disabled (project_mcp ms))"
proof (intro conjI impI)
  have native: "tier_authority (pl_tier l) = Native" using assms(2) by (cases "pl_tier l") auto
  {
    assume "mcp_unclear env (to_value (policy_table l))"
    with unclear_layer_locks [OF assms(3)] obtain s where s: "s \<in> set (layer_mcp env to_value l)" "al_lockdown s" by blast
    then have "s \<in> set (mcp_allowlist ms)" using assms(1,4) by (auto simp: resolve_sources)
    moreover have "allowlist_binds s (subject_origin subject)"
      using layer_mcp_authority [OF s(1)] native by (simp add: allowlist_binds_def)
    moreover have "source_blocks env lower (mcp_allowlist ms) server s"
      using s(2) by (simp add: source_blocks_def allows_ignoring_managed_only_def)
    ultimately show "mcp_verdict env lower ms server subject \<noteq> Allowed" by (auto simp: mcp_verdict_allowed_iff)
  next
    let ?m = "\<lparr>ma_allowed_urls = [], ma_source_path = Some (pl_path l), ma_authority = tier_authority (pl_tier l)\<rparr>"
    assume "strict_unclear (to_value (policy_table l))"
    then have "?m \<in> set (layer_markets to_value l)"
      using assms(3)
      by (auto simp: layer_markets_def strict_unclear_def layer_marketplaces_def parse_strict_marketplaces_def key_map_def
          split: option.splits)
    then have m: "?m \<in> set (marketplace_allowlist ms)" using resolve_markets [OF assms(1)] assms(4) by blast
    have blocked: "\<not> is_url_allowed (marketplace_allowlist ms) url org" for org
      using m native by (auto simp: is_url_allowed_def list_all_iff marketplace_binds_def source_allows_url_def)
    then show "\<not> is_url_allowed (marketplace_allowlist ms) url origin" .
    have "is_restricted_for (marketplace_allowlist ms) Foreign"
      using m native by (auto simp: is_restricted_for_def list_ex_iff marketplace_binds_def)
    with blocked show "add_block_reason (marketplace_allowlist ms) url \<noteq> None" by (simp add: add_block_reason_def)
  next
    assume "bool_unclear (to_value (policy_table l)) PROJECT_KEYS"
    then have "layer_pins_project to_value l"
      using assms(3) by (auto simp: bool_unclear_def layer_pins_project_def policy_bool_def split: option.splits PolicyKey.splits)
    then show "is_disabled (project_mcp ms)" using resolve_pinned [OF assms(1)] assms(4) by blast
  }
qed

section \<open>Claims on marketplace names\<close>

lemma claim_names: "map mm_name (claim_marketplace ms e) =
    map mm_name ms @ (if mm_name e \<in> mm_name ` set ms then [] else [mm_name e])"
  by (induction ms) auto

lemma claim_keeps_admin: "m \<in> set ms \<Longrightarrow> mm_ownership m = Admin \<Longrightarrow> m \<in> set (claim_marketplace ms e)"
  by (induction ms) auto

lemma claim_admin: "mm_ownership e = Admin \<Longrightarrow> \<exists>m \<in> set (claim_marketplace ms e). mm_name m = mm_name e \<and> mm_ownership m = Admin"
proof (induction ms)
  case (Cons m ms)
  then show ?case using PolicyLayerOwnership_cases [of "mm_ownership m"] by auto
qed simp

lemma fold_claims:
  "distinct (map mm_name ms) \<Longrightarrow>
     distinct (map mm_name (foldl claim_marketplace ms es)) \<and>
     (\<forall>e. e \<in> set ms \<union> set es \<longrightarrow> mm_ownership e = Admin \<longrightarrow>
        (\<exists>m \<in> set (foldl claim_marketplace ms es). mm_name m = mm_name e \<and> mm_ownership m = Admin))"
proof (induction es arbitrary: ms)
  case (Cons e es)
  have "distinct (map mm_name (claim_marketplace ms e))"
    using Cons.prems by (auto simp: claim_names)
  from Cons.IH [OF this] show ?case
    using claim_keeps_admin [of _ ms e] claim_admin [of e ms] by (fastforce simp: Un_iff)
qed auto

definition layer_extras :: "((string \<times> 'v) list \<Rightarrow> json option) \<Rightarrow> 'v PolicyLayer \<Rightarrow> ManagedMarketplace list" where
  "layer_extras to_value l =
     (if policy_table l = [] then []
      else case to_value (policy_table l) of
             Some j \<Rightarrow> em_entries (parse_extra_marketplaces j (tier_ownership (pl_tier l)))
           | None \<Rightarrow> [])"

lemma fold_layers_extras:
  "extra_marketplaces (foldl (apply_layer env to_value) ms ls) =
     foldl claim_marketplace (extra_marketplaces ms) (concat (map (layer_extras to_value) ls))"
proof (induction ls arbitrary: ms)
  case (Cons l ls)
  have "extra_marketplaces (apply_layer env to_value ms l) = foldl claim_marketplace (extra_marketplaces ms) (layer_extras to_value l)"
    by (auto simp: apply_layer_def layer_extras_def apply_policy_source_def Let_def apply_unreadable_policy_source_def
        split: option.split)
  with Cons show ?case by simp
qed simp

text \<open>
  Marketplaces are pinned under distinct names, and a name that a layer of the administrator or the
  vendor file claims is not held by a layer of the user.
\<close>

theorem extra_marketplace_claims:
  "distinct (map mm_name (extra_marketplaces (resolve_managed_settings env to_value claude layers))) \<and>
   (\<forall>l \<in> set layers. \<forall>e \<in> set (layer_extras to_value l). mm_ownership e = Admin \<longrightarrow>
      (\<exists>m \<in> set (extra_marketplaces (resolve_managed_settings env to_value claude layers)).
         mm_name m = mm_name e \<and> mm_ownership m = Admin))"
proof -
  define v where "v = (case claude of Some (j, _) \<Rightarrow> em_entries (parse_extra_marketplaces j Admin) | None \<Rightarrow> [])"
  have eq: "extra_marketplaces (resolve_managed_settings env to_value claude layers) =
      foldl claim_marketplace [] (concat (map (layer_extras to_value) (sort_key pl_tier layers)) @ v)"
    by (auto simp: resolve_managed_settings_def Let_def fold_layers_extras default_settings_def apply_policy_source_def v_def
        split: option.split)
  show ?thesis
    using fold_claims [of "[]" "concat (map (layer_extras to_value) (sort_key pl_tier layers)) @ v"]
    unfolding eq by fastforce
qed

section \<open>Examples\<close>

definition json_table :: "(string \<times> json) list \<Rightarrow> json option" where
  "json_table t = Some (JObject t)"

definition mdm_layer :: "json PolicyLayer" where
  "mdm_layer = \<lparr>pl_tier = Mdm, pl_path = ''mdm'',
     pl_table = Some [(''allowManagedMcpServersOnly'', JBool True), (''theme'', JString ''dark'')]\<rparr>"

definition user_layer :: "json PolicyLayer" where
  "user_layer = \<lparr>pl_tier = UserManaged, pl_path = ''user'',
     pl_table = Some [(''allowedMcpServers'', JArray [JObject [(''serverName'', JString ''x'')]])]\<rparr>"

definition broken_layer :: "json PolicyLayer" where
  "broken_layer = \<lparr>pl_tier = SystemManaged, pl_path = ''sys'',
     pl_table = Some [(''deniedMcpServers'', JString ''x'')]\<rparr>"

definition local_subject :: McpSubject where
  "local_subject = \<lparr>subject_origin = GrokNative, project_scoped = False\<rparr>"

theorem user_layers_cannot_unblock_witness:
  "mcp_verdict corp_env id (resolve_managed_settings corp_env json_table None [user_layer, mdm_layer])
     (StdioServer ''x'' ''run'' []) local_subject \<noteq> Allowed"
proof (rule user_layers_cannot_unblock)
  have "filter admin_layer [user_layer, mdm_layer] = [mdm_layer]"
    by (simp add: admin_layer_def user_layer_def mdm_layer_def)
  moreover have "mcp_verdict corp_env id (resolve_managed_settings corp_env json_table None [mdm_layer])
     (StdioServer ''x'' ''run'' []) local_subject = Blocked (NotGranted ''mdm'')" by code_simp
  ultimately show "mcp_verdict corp_env id
     (resolve_managed_settings corp_env json_table None (filter admin_layer [user_layer, mdm_layer]))
     (StdioServer ''x'' ''run'' []) local_subject = Blocked (NotGranted ''mdm'')" by simp
qed

theorem unclear_policy_fails_closed_witness:
  "mcp_verdict corp_env id (resolve_managed_settings corp_env json_table None [user_layer, broken_layer])
     (StdioServer ''x'' ''run'' []) local_subject \<noteq> Allowed"
proof -
  have "mcp_unclear corp_env (json_table (policy_table broken_layer))" by code_simp
  moreover have "policy_table broken_layer \<noteq> []" by code_simp
  ultimately show ?thesis
    using unclear_policy_fails_closed [of broken_layer "[user_layer, broken_layer]"
        "resolve_managed_settings corp_env json_table None [user_layer, broken_layer]" corp_env json_table None id
        "StdioServer ''x'' ''run'' []" local_subject]
    by (simp add: broken_layer_def)
qed

end
