(* ===== verification/Patch_Parser.thy ===== *)
theory Patch_Parser
  imports Unix_Path
begin

text \<open>
  The patch format of the apply-patch tool and its parser:
  \<open>crates/codegen/xai-grok-tools/src/implementations/codex/apply_patch/parser.rs\<close> and \<open>errors.rs\<close>. A patch
  is a sequence of hunks that add, delete or update files. The parser walks over lines and reports how
  many it consumed; a loop over the remaining lines is a recursion on them, which ends because every
  hunk and every chunk takes at least one line.
\<close>

section \<open>Lines\<close>

abbreviation nl :: char where "nl \<equiv> CHR 0x0A"

abbreviation cr :: char where "cr \<equiv> CHR 0x0D"

text \<open>\<open>str::lines\<close>: a line feed ends a line, with the carriage return before it; a last line may be unended.\<close>

definition strip_cr :: "string \<Rightarrow> string" where
  "strip_cr l = (case strip_suffix [cr] l of Some r \<Rightarrow> r | None \<Rightarrow> l)"

definition str_lines :: "string \<Rightarrow> string list" where
  "str_lines s =
     (let parts = split_on (\<lambda>c. c = nl) s in
      map strip_cr (butlast parts) @ (if last parts = [] then [] else [last parts]))"

section \<open>The data of a patch\<close>

record UpdateFileChunk =
  change_context :: "string option"
  old_lines :: "string list"
  new_lines :: "string list"
  is_end_of_file :: bool

datatype Hunk =
    AddFile string string
  | DeleteFile string
  | UpdateFile string "string option" "UpdateFileChunk list"

record ParsedPatch =
  pp_hunks :: "Hunk list"
  pp_patch :: string

datatype ParseError = InvalidPatchError string | InvalidHunkError string nat

definition BEGIN_PATCH_MARKER :: string where "BEGIN_PATCH_MARKER = ''*** Begin Patch''"
definition END_PATCH_MARKER :: string where "END_PATCH_MARKER = ''*** End Patch''"
definition ADD_FILE_MARKER :: string where "ADD_FILE_MARKER = ''*** Add File: ''"
definition DELETE_FILE_MARKER :: string where "DELETE_FILE_MARKER = ''*** Delete File: ''"
definition UPDATE_FILE_MARKER :: string where "UPDATE_FILE_MARKER = ''*** Update File: ''"
definition MOVE_TO_MARKER :: string where "MOVE_TO_MARKER = ''*** Move to: ''"
definition EOF_MARKER :: string where "EOF_MARKER = ''*** End of File''"
definition CHANGE_CONTEXT_MARKER :: string where "CHANGE_CONTEXT_MARKER = ''@@ ''"
definition EMPTY_CHANGE_CONTEXT_MARKER :: string where "EMPTY_CHANGE_CONTEXT_MARKER = ''@@''"

lemmas patch_markers =
  BEGIN_PATCH_MARKER_def END_PATCH_MARKER_def ADD_FILE_MARKER_def DELETE_FILE_MARKER_def
  UPDATE_FILE_MARKER_def MOVE_TO_MARKER_def EOF_MARKER_def CHANGE_CONTEXT_MARKER_def
  EMPTY_CHANGE_CONTEXT_MARKER_def

datatype ParseMode = Strict | Lenient

text \<open>A word in single quotes, as the messages print it.\<close>

definition quoted :: "string \<Rightarrow> string" where
  "quoted s = squote # s @ [squote]"

section \<open>Boundaries\<close>

definition check_start_and_end_lines_strict :: "string option \<Rightarrow> string option \<Rightarrow> ParseError + unit" where
  "check_start_and_end_lines_strict first_line last_line =
     (let f = map_option trim first_line; l = map_option trim last_line in
      if f = Some BEGIN_PATCH_MARKER \<and> l = Some END_PATCH_MARKER then Inr ()
      else if f \<noteq> None \<and> f \<noteq> Some BEGIN_PATCH_MARKER
      then Inl (InvalidPatchError (''The first line of the patch must be '' @ quoted ''*** Begin Patch''))
      else Inl (InvalidPatchError (''The last line of the patch must be '' @ quoted ''*** End Patch'')))"

definition check_patch_boundaries_strict :: "string list \<Rightarrow> ParseError + unit" where
  "check_patch_boundaries_strict ls =
     (case ls of
        [] \<Rightarrow> check_start_and_end_lines_strict None None
      | f # r \<Rightarrow> check_start_and_end_lines_strict (Some f) (Some (last ls)))"

definition check_patch_boundaries_lenient :: "string list \<Rightarrow> ParseError \<Rightarrow> ParseError + string list" where
  "check_patch_boundaries_lenient original_lines original_parse_error =
     (if 2 \<le> length original_lines
         \<and> hd original_lines \<in> {''<<EOF'', ''<<'' @ quoted ''EOF'', ''<<'' @ [CHR 0x22] @ ''EOF'' @ [CHR 0x22]}
         \<and> ends_with (last original_lines) ''EOF'' \<and> 4 \<le> length original_lines
      then let inner_lines = butlast (tl original_lines) in
           (case check_patch_boundaries_strict inner_lines of
              Inr _ \<Rightarrow> Inr inner_lines
            | Inl e \<Rightarrow> Inl e)
      else Inl original_parse_error)"

section \<open>Chunks\<close>

abbreviation no_lines :: string where
  "no_lines \<equiv> ''Update hunk does not contain any lines''"

definition unexpected_line :: "string \<Rightarrow> string" where
  "unexpected_line l =
     ''Unexpected line found in update hunk: '' @ quoted l @ ''. Every line should start with '' @
     quoted '' '' @ '' (context line), '' @ quoted ''+'' @ '' (added line), or '' @ quoted ''-'' @
     '' (removed line)''"

definition push_old_line :: "string \<Rightarrow> UpdateFileChunk \<Rightarrow> UpdateFileChunk" where
  "push_old_line l ch = ch\<lparr>old_lines := old_lines ch @ [l]\<rparr>"

definition push_new_line :: "string \<Rightarrow> UpdateFileChunk \<Rightarrow> UpdateFileChunk" where
  "push_new_line l ch = ch\<lparr>new_lines := new_lines ch @ [l]\<rparr>"

text \<open>The \<open>for line in &lines[start_index..]\<close> loop, with \<open>parsed_lines\<close> as \<open>n\<close>.\<close>

fun chunk_loop :: "nat \<Rightarrow> string list \<Rightarrow> UpdateFileChunk \<Rightarrow> nat \<Rightarrow> ParseError + UpdateFileChunk \<times> nat" where
  "chunk_loop line_number [] ch n = Inr (ch, n)"
| "chunk_loop line_number (l # ls) ch n =
     (if l = EOF_MARKER
      then if n = 0 then Inl (InvalidHunkError no_lines (line_number + 1))
           else Inr (ch\<lparr>is_end_of_file := True\<rparr>, n + 1)
      else case l of
             [] \<Rightarrow> chunk_loop line_number ls (push_new_line [] (push_old_line [] ch)) (n + 1)
           | c # r \<Rightarrow>
               if c = CHR '' '' then chunk_loop line_number ls (push_new_line r (push_old_line r ch)) (n + 1)
               else if c = CHR ''+'' then chunk_loop line_number ls (push_new_line r ch) (n + 1)
               else if c = CHR ''-'' then chunk_loop line_number ls (push_old_line r ch) (n + 1)
               else if n = 0 then Inl (InvalidHunkError (unexpected_line l) (line_number + 1))
               else Inr (ch, n))"

definition empty_chunk :: "string option \<Rightarrow> UpdateFileChunk" where
  "empty_chunk ctx = \<lparr>change_context = ctx, old_lines = [], new_lines = [], is_end_of_file = False\<rparr>"

definition chunk_start :: "string \<Rightarrow> nat \<Rightarrow> bool \<Rightarrow> ParseError + string option \<times> nat" where
  "chunk_start l line_number allow_missing_context =
     (if l = EMPTY_CHANGE_CONTEXT_MARKER then Inr (None, 1)
      else case strip_prefix CHANGE_CONTEXT_MARKER l of
             Some ctx \<Rightarrow> Inr (Some ctx, 1)
           | None \<Rightarrow>
               if \<not> allow_missing_context
               then Inl (InvalidHunkError
                      (''Expected update hunk to start with a @@ context marker, got: '' @ quoted l) line_number)
               else Inr (None, 0))"

definition parse_update_file_chunk ::
    "string list \<Rightarrow> nat \<Rightarrow> bool \<Rightarrow> ParseError + UpdateFileChunk \<times> nat" where
  "parse_update_file_chunk ls line_number allow_missing_context =
     (case ls of
        [] \<Rightarrow> Inl (InvalidHunkError no_lines line_number)
      | l # _ \<Rightarrow>
          (case chunk_start l line_number allow_missing_context of
             Inl e \<Rightarrow> Inl e
           | Inr (ctx, start_index) \<Rightarrow>
               if start_index \<ge> length ls then Inl (InvalidHunkError no_lines (line_number + 1))
               else (case chunk_loop line_number (drop start_index ls) (empty_chunk ctx) 0 of
                       Inl e \<Rightarrow> Inl e
                     | Inr (ch, parsed_lines) \<Rightarrow> Inr (ch, parsed_lines + start_index))))"

text \<open>One round of the loop: an error, a stop after at least one line, or one more line taken.\<close>

lemma chunk_loop_round:
  "(\<exists>e. chunk_loop ln (l # ls) ch n = Inl e)
   \<or> (0 < n \<and> (\<exists>ch'. chunk_loop ln (l # ls) ch n = Inr (ch', n) \<or> chunk_loop ln (l # ls) ch n = Inr (ch', n + 1)))
   \<or> (\<exists>ch'. chunk_loop ln (l # ls) ch n = chunk_loop ln ls ch' (n + 1))"
proof (cases "l = EOF_MARKER")
  case True
  then show ?thesis by auto
next
  case False
  then show ?thesis by (cases l) auto
qed

lemma chunk_loop_count:
  "chunk_loop ln ls ch n = Inr (ch', m) \<Longrightarrow> ls \<noteq> [] \<Longrightarrow> 0 < m \<and> n \<le> m \<and> m \<le> n + length ls"
proof (induction ls arbitrary: ch n)
  case Nil
  then show ?case by simp
next
  case (Cons l ls)
  have rec: "0 < m \<and> n \<le> m \<and> m \<le> n + length (l # ls)" if "chunk_loop ln ls ch'' (n + 1) = Inr (ch', m)" for ch''
    using Cons.IH [OF that] that by (cases "ls = []") auto
  from chunk_loop_round [of ln l ls ch n] Cons.prems(1) rec show ?case by (auto simp del: chunk_loop.simps)
qed

lemma parse_update_file_chunk_count:
  assumes "parse_update_file_chunk ls ln allow = Inr (ch, k)"
  shows "0 < k \<and> k \<le> length ls"
proof -
  from assms obtain l r ctx st m where ls: "ls = l # r"
    and st: "chunk_start l ln allow = Inr (ctx, st)" and lt: "st < length ls"
    and m: "chunk_loop ln (drop st ls) (empty_chunk ctx) 0 = Inr (ch, m)" and k: "k = m + st"
    by (auto simp: parse_update_file_chunk_def split: list.splits sum.splits prod.splits if_splits)
  from chunk_loop_count [OF m] lt k show ?thesis by auto
qed

section \<open>Hunks\<close>

fun add_lines :: "string list \<Rightarrow> string \<times> nat" where
  "add_lines [] = ([], 0)"
| "add_lines (l # ls) =
     (case strip_prefix ''+'' l of
        None \<Rightarrow> ([], 0)
      | Some line_to_add \<Rightarrow> let (contents, n) = add_lines ls in (line_to_add @ nl # contents, n + 1))"

text \<open>The \<open>while\<close> loop over the chunks of an update, with \<open>parsed_lines\<close> as \<open>n\<close>.\<close>

function update_loop ::
    "nat \<Rightarrow> string list \<Rightarrow> UpdateFileChunk list \<Rightarrow> nat \<Rightarrow> ParseError + UpdateFileChunk list \<times> nat" where
  "update_loop line_number ls chunks n =
     (case ls of
        [] \<Rightarrow> Inr (chunks, n)
      | l # r \<Rightarrow>
          if trim l = [] then update_loop line_number r chunks (n + 1)
          else if starts_with l ''***'' then Inr (chunks, n)
          else (case parse_update_file_chunk ls (line_number + n) (chunks = []) of
                  Inl e \<Rightarrow> Inl e
                | Inr (chunk, k) \<Rightarrow> update_loop line_number (drop k ls) (chunks @ [chunk]) (n + k)))"
  by pat_completeness auto
termination
  by (relation "measure (\<lambda>(_, ls, _, _). length ls)")
    (auto dest!: parse_update_file_chunk_count)

declare update_loop.simps [simp del]

lemma update_loop_code:
  "update_loop ln [] chunks n = Inr (chunks, n)"
  "trim l = [] \<Longrightarrow> update_loop ln (l # r) chunks n = update_loop ln r chunks (n + 1)"
  "trim l \<noteq> [] \<Longrightarrow> starts_with l ''***'' \<Longrightarrow> update_loop ln (l # r) chunks n = Inr (chunks, n)"
  "trim l \<noteq> [] \<Longrightarrow> \<not> starts_with l ''***'' \<Longrightarrow>
     update_loop ln (l # r) chunks n =
       (case parse_update_file_chunk (l # r) (ln + n) (chunks = []) of
          Inl e \<Rightarrow> Inl e
        | Inr (chunk, k) \<Rightarrow> update_loop ln (drop k (l # r)) (chunks @ [chunk]) (n + k))"
  by (subst update_loop.simps, simp)+

definition split_move_to :: "string list \<Rightarrow> string option \<times> string list" where
  "split_move_to ls =
     (case ls of
        [] \<Rightarrow> (None, ls)
      | x # r \<Rightarrow> (case strip_prefix MOVE_TO_MARKER x of None \<Rightarrow> (None, ls) | Some p \<Rightarrow> (Some p, r)))"

definition invalid_header :: "string \<Rightarrow> string" where
  "invalid_header l =
     quoted l @ '' is not a valid hunk header. Valid hunk headers: '' @ quoted ''*** Add File: {path}'' @
     '', '' @ quoted ''*** Delete File: {path}'' @ '', '' @ quoted ''*** Update File: {path}''"

definition parse_update :: "string \<Rightarrow> string list \<Rightarrow> nat \<Rightarrow> ParseError + Hunk \<times> nat" where
  "parse_update path r line_number =
     (let (move_path, remaining_lines) = split_move_to r;
          parsed_lines = (if move_path = None then 1 else 2) in
      (case update_loop line_number remaining_lines [] parsed_lines of
         Inl e \<Rightarrow> Inl e
       | Inr (chunks, n) \<Rightarrow>
           if chunks = []
           then Inl (InvalidHunkError (''Update file hunk for path '' @ quoted path @ '' is empty'') line_number)
           else Inr (UpdateFile path move_path chunks, n)))"

text \<open>\<open>lines\<close> is never empty at the call, so that the indexing \<open>lines[0]\<close> does not panic.\<close>

definition parse_one_hunk :: "string list \<Rightarrow> nat \<Rightarrow> ParseError + Hunk \<times> nat" where
  "parse_one_hunk ls line_number =
     (let first_line = trim (hd ls) in
      case strip_prefix ADD_FILE_MARKER first_line of
        Some path \<Rightarrow> (let (contents, n) = add_lines (tl ls) in Inr (AddFile path contents, n + 1))
      | None \<Rightarrow>
          (case strip_prefix DELETE_FILE_MARKER first_line of
             Some path \<Rightarrow> Inr (DeleteFile path, 1)
           | None \<Rightarrow>
               (case strip_prefix UPDATE_FILE_MARKER first_line of
                  Some path \<Rightarrow> parse_update path (tl ls) line_number
                | None \<Rightarrow> Inl (InvalidHunkError (invalid_header first_line) line_number))))"

lemma add_lines_count: "add_lines ls = (c, n) \<Longrightarrow> n \<le> length ls"
  by (induction ls arbitrary: c n) (auto split: option.splits prod.splits)

lemma update_loop_count:
  "update_loop ln ls chunks n = Inr (cs, m) \<Longrightarrow> n \<le> m \<and> m \<le> n + length ls"
proof (induction ln ls chunks n rule: update_loop.induct)
  case (1 ln ls chunks n)
  show ?case
  proof (cases ls)
    case Nil
    with "1.prems" show ?thesis by (simp add: update_loop_code)
  next
    case (Cons l r)
    consider (blank) "trim l = []" | (stop) "trim l \<noteq> []" "starts_with l ''***''"
      | (chunk) "trim l \<noteq> []" "\<not> starts_with l ''***''" by blast
    then show ?thesis
    proof cases
      case blank
      with "1.prems" "1.IH"(1) [OF Cons] Cons show ?thesis by (simp add: update_loop_code)
    next
      case stop
      with "1.prems" Cons show ?thesis by (simp add: update_loop_code)
    next
      case chunk
      with "1.prems" Cons obtain ch k where k: "parse_update_file_chunk ls (ln + n) (chunks = []) = Inr (ch, k)"
        and rest: "update_loop ln (drop k ls) (chunks @ [ch]) (n + k) = Inr (cs, m)"
        by (auto simp: update_loop_code split: sum.splits)
      from "1.IH"(2) [OF Cons chunk k refl rest] parse_update_file_chunk_count [OF k]
      show ?thesis by simp
    qed
  qed
qed

lemma parse_update_count:
  assumes "parse_update path r ln = Inr (h, k)"
  shows "0 < k \<and> k \<le> Suc (length r)"
  using assms update_loop_count
  by (fastforce simp: parse_update_def split_move_to_def split: list.splits option.splits sum.splits prod.splits if_splits)

lemma parse_one_hunk_count:
  assumes "parse_one_hunk ls ln = Inr (h, k)" and "ls \<noteq> []"
  shows "0 < k \<and> k \<le> length ls"
proof -
  obtain l r where "ls = l # r" using assms(2) by (cases ls) auto
  with assms(1) parse_update_count show ?thesis
    by (fastforce simp: parse_one_hunk_def Let_def split: option.splits prod.splits dest: add_lines_count)
qed

section \<open>Patches\<close>

text \<open>The \<open>while\<close> loop of \<open>parse_patch_text\<close>.\<close>

function hunk_loop :: "string list \<Rightarrow> nat \<Rightarrow> ParseError + Hunk list" where
  "hunk_loop remaining_lines line_number =
     (if remaining_lines = [] then Inr []
      else case parse_one_hunk remaining_lines line_number of
             Inl e \<Rightarrow> Inl e
           | Inr (hunk, hunk_lines) \<Rightarrow>
               (case hunk_loop (drop hunk_lines remaining_lines) (line_number + hunk_lines) of
                  Inl e \<Rightarrow> Inl e
                | Inr hunks \<Rightarrow> Inr (hunk # hunks)))"
  by pat_completeness auto
termination
  by (relation "measure (\<lambda>(ls, _). length ls)") (auto dest!: parse_one_hunk_count)

declare hunk_loop.simps [simp del]

definition patch_boundaries :: "string list \<Rightarrow> ParseMode \<Rightarrow> ParseError + string list" where
  "patch_boundaries ls mode =
     (case check_patch_boundaries_strict ls of
        Inr _ \<Rightarrow> Inr ls
      | Inl e \<Rightarrow> (case mode of Strict \<Rightarrow> Inl e | Lenient \<Rightarrow> check_patch_boundaries_lenient ls e))"

definition parse_patch_text :: "string \<Rightarrow> ParseMode \<Rightarrow> ParseError + ParsedPatch" where
  "parse_patch_text patch mode =
     (case patch_boundaries (str_lines (trim patch)) mode of
        Inl e \<Rightarrow> Inl e
      | Inr ls \<Rightarrow>
          (case hunk_loop (butlast (tl ls)) 2 of
             Inl e \<Rightarrow> Inl e
           | Inr hunks \<Rightarrow> Inr \<lparr>pp_hunks = hunks, pp_patch = join [nl] ls\<rparr>))"

definition PARSE_IN_STRICT_MODE :: bool where "PARSE_IN_STRICT_MODE = False"

definition parse_patch :: "string \<Rightarrow> ParseError + ParsedPatch" where
  "parse_patch patch = parse_patch_text patch (if PARSE_IN_STRICT_MODE then Strict else Lenient)"

section \<open>Writing a patch\<close>

text \<open>
  Patches as they are written, used to state that the parser reads them. A chunk may begin with a context mark, a bare mark or
  (the first of an update) none; its lines are context, removed and added lines in any order, an empty line
  being an empty line of context.
\<close>

datatype WrittenLine = ContextLine string | BlankLine | RemovedLine string | AddedLine string

datatype WrittenMark = NoMark | BareMark | MarkWith string

record WrittenChunk =
  wc_mark :: WrittenMark
  wc_lines :: "WrittenLine list"
  wc_eof :: bool

datatype WrittenHunk =
    WrittenAdd string "string list"
  | WrittenDelete string
  | WrittenUpdate string "string option" "WrittenChunk list"

fun print_line :: "WrittenLine \<Rightarrow> string" where
  "print_line (ContextLine l) = CHR '' '' # l"
| "print_line BlankLine = []"
| "print_line (RemovedLine l) = CHR ''-'' # l"
| "print_line (AddedLine l) = CHR ''+'' # l"

fun print_mark :: "WrittenMark \<Rightarrow> string list" where
  "print_mark NoMark = []"
| "print_mark BareMark = [EMPTY_CHANGE_CONTEXT_MARKER]"
| "print_mark (MarkWith ctx) = [CHANGE_CONTEXT_MARKER @ ctx]"

definition print_chunk :: "WrittenChunk \<Rightarrow> string list" where
  "print_chunk w = print_mark (wc_mark w) @ map print_line (wc_lines w) @ (if wc_eof w then [EOF_MARKER] else [])"

fun header_line :: "WrittenHunk \<Rightarrow> string" where
  "header_line (WrittenAdd path _) = ADD_FILE_MARKER @ path"
| "header_line (WrittenDelete path) = DELETE_FILE_MARKER @ path"
| "header_line (WrittenUpdate path _ _) = UPDATE_FILE_MARKER @ path"

fun body_lines :: "WrittenHunk \<Rightarrow> string list" where
  "body_lines (WrittenAdd _ ls) = map ((#) (CHR ''+'')) ls"
| "body_lines (WrittenDelete _) = []"
| "body_lines (WrittenUpdate _ move_path chunks) =
     (case move_path of None \<Rightarrow> [] | Some p \<Rightarrow> [MOVE_TO_MARKER @ p]) @ concat (map print_chunk chunks)"

definition print_hunk :: "WrittenHunk \<Rightarrow> string list" where
  "print_hunk h = header_line h # body_lines h"

definition print_patch :: "WrittenHunk list \<Rightarrow> string" where
  "print_patch hs = join [nl] (BEGIN_PATCH_MARKER # concat (map print_hunk hs) @ [END_PATCH_MARKER])"

text \<open>What a written patch means: a context line is an old and a new line.\<close>

fun line_old :: "WrittenLine \<Rightarrow> string list" where
  "line_old (ContextLine l) = [l]" | "line_old BlankLine = [[]]" | "line_old (RemovedLine l) = [l]" | "line_old (AddedLine l) = []"

fun line_new :: "WrittenLine \<Rightarrow> string list" where
  "line_new (ContextLine l) = [l]" | "line_new BlankLine = [[]]" | "line_new (RemovedLine l) = []" | "line_new (AddedLine l) = [l]"

fun mark_context :: "WrittenMark \<Rightarrow> string option" where
  "mark_context (MarkWith ctx) = Some ctx" | "mark_context _ = None"

definition chunk_of :: "WrittenChunk \<Rightarrow> UpdateFileChunk" where
  "chunk_of w = \<lparr>change_context = mark_context (wc_mark w), old_lines = concat (map line_old (wc_lines w)),
     new_lines = concat (map line_new (wc_lines w)), is_end_of_file = wc_eof w\<rparr>"

fun hunk_of :: "WrittenHunk \<Rightarrow> Hunk" where
  "hunk_of (WrittenAdd path ls) = AddFile path (concat (map (\<lambda>l. l @ [nl]) ls))"
| "hunk_of (WrittenDelete path) = DeleteFile path"
| "hunk_of (WrittenUpdate path move_path chunks) = UpdateFile path move_path (map chunk_of chunks)"

text \<open>
  Lines hold no line ends, paths have no trailing white space, chunks have lines. Only the first chunk of an update may go
  without a mark, and then it does not begin with a line of white space, which the parser skips.
\<close>

definition line_ok :: "string \<Rightarrow> bool" where
  "line_ok l \<longleftrightarrow> nl \<notin> set l \<and> \<not> ends_with l [cr]"

definition path_ok :: "string \<Rightarrow> bool" where
  "path_ok p \<longleftrightarrow> p \<noteq> [] \<and> line_ok p \<and> trim_end p = p"

definition chunk_ok :: "WrittenChunk \<Rightarrow> bool" where
  "chunk_ok w \<longleftrightarrow> wc_lines w \<noteq> [] \<and> list_all (\<lambda>l. list_all line_ok (line_old l @ line_new l)) (wc_lines w)
     \<and> pred_option line_ok (mark_context (wc_mark w))"

definition first_chunk_ok :: "WrittenChunk \<Rightarrow> bool" where
  "first_chunk_ok w \<longleftrightarrow> (wc_mark w = NoMark \<longrightarrow> trim (print_line (hd (wc_lines w))) \<noteq> [])"

fun hunk_ok :: "WrittenHunk \<Rightarrow> bool" where
  "hunk_ok (WrittenAdd path ls) \<longleftrightarrow> path_ok path \<and> list_all line_ok ls"
| "hunk_ok (WrittenDelete path) \<longleftrightarrow> path_ok path"
| "hunk_ok (WrittenUpdate path move_path chunks) \<longleftrightarrow>
     path_ok path \<and> pred_option line_ok move_path \<and> chunks \<noteq> [] \<and> list_all chunk_ok chunks
     \<and> first_chunk_ok (hd chunks) \<and> list_all (\<lambda>w. wc_mark w \<noteq> NoMark) (tl chunks)"

subsection \<open>Reading back what was printed\<close>

lemma whitespace_wide: "list_all (\<lambda>e. length e = 1 \<or> CHR '' '' \<notin> set e) whitespace_encodings"
  by (simp add: whitespace_encodings_def)

lemma trim_end_append:
  assumes p: "trim_end p = p" "p \<noteq> []"
  shows "trim_end (m @ CHR '' '' # p) = m @ CHR '' '' # p"
proof -
  let ?w = "map rev whitespace_encodings"
  have "[] \<notin> set ?w" using whitespace_not_plain by (auto simp: list_all_iff)
  from strip_all_done [OF this, of "rev p"] p(1) have none: "strip_first ?w (rev p) = None"
    by (simp add: trim_end_def rev_swap)
  have "\<not> starts_with (rev p @ CHR '' '' # rev m) (rev e)" if e: "e \<in> set whitespace_encodings" for e
  proof
    assume "starts_with (rev p @ CHR '' '' # rev m) (rev e)"
    then obtain r where r: "rev p @ CHR '' '' # rev m = rev e @ r" by (auto simp: starts_with_iff)
    have "\<not> starts_with (rev p) (rev e)" using none e by (simp add: strip_first_None)
    with r obtain x where x: "rev e = rev p @ x" "x \<noteq> []" "CHR '' '' # rev m = x @ r"
      by (fastforce simp: append_eq_append_conv2 starts_with_iff)
    then have "CHR '' '' \<in> set x" by (cases x) auto
    then have "CHR '' '' \<in> set e" using arg_cong [OF x(1), of set] by auto
    moreover have "length e = length p + length x" using arg_cong [OF x(1), of length] by simp
    then have "length e \<noteq> 1" using x(2) p(2) by (cases x; cases p) auto
    ultimately show False using whitespace_wide e by (auto simp: list_all_iff)
  qed
  then have "strip_first ?w (rev (m @ CHR '' '' # p)) = None" by (auto simp: strip_first_None)
  then show ?thesis by (simp add: trim_end_def strip_all_fixed)
qed

lemma header_trim:
  assumes "path_ok p" and "c = CHR ''*''"
  shows "trim (c # m @ CHR '' '' # p) = c # m @ CHR '' '' # p"
  using assms trim_end_append [of p "c # m"]
  by (simp add: trim_def trim_start_plain plain_byte_def byte_between_def path_ok_def)

lemma header_line_trim: "hunk_ok h \<Longrightarrow> trim (header_line h) = header_line h"
  using header_trim [of _ "CHR ''*''" "''** Add File:''"] header_trim [of _ "CHR ''*''" "''** Delete File:''"]
    header_trim [of _ "CHR ''*''" "''** Update File:''"]
  by (cases h) (simp_all add: patch_markers)

lemma chunk_loop_lines:
  "chunk_loop ln (map print_line ls @ rest) ch n
   = chunk_loop ln rest (ch\<lparr>old_lines := old_lines ch @ concat (map line_old ls),
       new_lines := new_lines ch @ concat (map line_new ls)\<rparr>) (n + length ls)"
proof (induction ls arbitrary: ch n)
  case (Cons l ls)
  then show ?case by (cases l) (simp_all add: push_old_line_def push_new_line_def EOF_MARKER_def)
qed simp

text \<open>A line at which a chunk with lines stops: the next chunk or the next hunk.\<close>

definition stops_chunk :: "string list \<Rightarrow> bool" where
  "stops_chunk ls \<longleftrightarrow>
     (case ls of
        [] \<Rightarrow> True
      | l # _ \<Rightarrow> l \<noteq> EOF_MARKER \<and> l \<noteq> [] \<and> hd l \<notin> {CHR '' '', CHR ''+'', CHR ''-''})"

lemma chunk_loop_stops: "stops_chunk rest \<Longrightarrow> 0 < n \<Longrightarrow> chunk_loop ln rest ch n = Inr (ch, n)"
  by (cases rest) (auto simp: stops_chunk_def neq_Nil_conv)

lemma print_line_head: "print_line l = [] \<or> hd (print_line l) \<in> {CHR '' '', CHR ''-'', CHR ''+''}"
  by (cases l) simp_all

lemma chunk_start_print:
  assumes "wc_mark w = NoMark \<longrightarrow> allow \<and> wc_lines w \<noteq> []"
  shows "chunk_start (hd (print_chunk w)) ln allow = Inr (mark_context (wc_mark w), length (print_mark (wc_mark w)))"
proof (cases "wc_mark w")
  case NoMark
  with assms have hd: "hd (print_chunk w) = print_line (hd (wc_lines w))" by (simp add: print_chunk_def hd_append hd_map)
  have "hd (print_chunk w) \<noteq> ''@@''" "strip_prefix ''@@ '' (hd (print_chunk w)) = None"
    unfolding hd by (cases "hd (wc_lines w)"; simp)+
  with NoMark assms show ?thesis by (simp add: chunk_start_def patch_markers)
qed (simp_all add: print_chunk_def chunk_start_def patch_markers)

lemma parse_print_chunk:
  assumes ok: "chunk_ok w" and mark: "wc_mark w = NoMark \<longrightarrow> allow" and rest: "stops_chunk rest"
  shows "parse_update_file_chunk (print_chunk w @ rest) ln allow = Inr (chunk_of w, length (print_chunk w))"
proof -
  let ?ls = "wc_lines w" and ?tail = "(if wc_eof w then [EOF_MARKER] else []) @ rest" and ?m = "print_mark (wc_mark w)"
  have pos: "?ls \<noteq> []" using ok by (simp add: chunk_ok_def)
  have ne: "print_chunk w \<noteq> []" using pos by (simp add: print_chunk_def)
  have start: "chunk_start (hd (print_chunk w)) ln allow = Inr (mark_context (wc_mark w), length ?m)"
    using mark pos by (intro chunk_start_print) simp
  have "chunk_loop ln (map print_line ?ls @ ?tail) (empty_chunk (mark_context (wc_mark w))) 0
    = Inr (chunk_of w, length ?ls + (if wc_eof w then 1 else 0))"
    using pos rest by (simp add: chunk_loop_lines empty_chunk_def chunk_loop_stops chunk_of_def)
  moreover have "drop (length ?m) (print_chunk w @ rest) = map print_line ?ls @ ?tail" by (simp add: print_chunk_def)
  moreover have "length ?m < length (print_chunk w @ rest)" using pos by (simp add: print_chunk_def)
  moreover have "length (print_chunk w) = length ?ls + (if wc_eof w then 1 else 0) + length ?m" by (simp add: print_chunk_def)
  ultimately show ?thesis using start ne
    by (cases "print_chunk w") (simp_all add: parse_update_file_chunk_def)
qed

lemma print_chunk_mark: "wc_mark w \<noteq> NoMark \<Longrightarrow> \<exists>r t. print_chunk w = (CHR ''@'' # CHR ''@'' # r) # t"
  by (cases "wc_mark w") (simp_all add: print_chunk_def patch_markers)

text \<open>What follows the chunks of an update: nothing, or the header of the next hunk.\<close>

definition header_next :: "string list \<Rightarrow> bool" where
  "header_next ls \<longleftrightarrow> ls = [] \<or> (\<exists>h r. hunk_ok h \<and> ls = header_line h # r)"

lemma header_line_shape:
  "\<exists>r. header_line h = ''*** '' @ r \<and> r \<noteq> [] \<and> hd r \<in> {CHR ''A'', CHR ''D'', CHR ''U''}"
  by (cases h) (simp_all add: patch_markers)

lemma header_stops: "header_next ls \<Longrightarrow> stops_chunk ls"
  unfolding header_next_def stops_chunk_def
proof (elim disjE exE conjE)
  fix h r assume "ls = header_line h # r"
  with header_line_shape [of h] show "case ls of [] \<Rightarrow> True
      | l # _ \<Rightarrow> l \<noteq> EOF_MARKER \<and> l \<noteq> [] \<and> hd l \<notin> {CHR '' '', CHR ''+'', CHR ''-''}"
    by (auto simp: EOF_MARKER_def)
qed simp

lemma strip_all_keeps_last:
  "\<forall>p \<in> set ps. p \<noteq> [] \<longrightarrow> last p \<noteq> last s \<Longrightarrow> s \<noteq> [] \<Longrightarrow> strip_all ps s \<noteq> []"
proof (induction ps s rule: strip_all.induct)
  case (1 ps s)
  show ?case
  proof (cases "[] \<in> set ps \<or> strip_first ps s = None")
    case True
    with "1.prems"(2) show ?thesis by (auto simp: strip_all.simps [of ps s])
  next
    case False
    then obtain r p where r: "strip_first ps s = Some r" and p: "p \<in> set ps" "s = p @ r" "p \<noteq> []"
      by (metis not_None_eq strip_first_Some)
    with "1.prems"(1) have "r \<noteq> []" by auto
    with p "1.prems"(1) have "strip_all ps r \<noteq> []" using "1.IH" [OF _ r] False by simp
    with r False show ?thesis by (simp add: strip_all.simps [of ps s])
  qed
qed

lemma trim_plain_head:
  assumes "plain_byte c"
  shows "trim (c # s) \<noteq> []"
proof -
  have "strip_all (map rev whitespace_encodings) (rev (c # s)) \<noteq> []"
    using assms whitespace_not_plain by (intro strip_all_keeps_last) (auto simp: list_all_iff last_rev)
  then show ?thesis using assms by (simp add: trim_def trim_end_def trim_start_plain)
qed

lemma print_chunk_head:
  assumes "chunk_ok w" and "first_chunk_ok w"
  obtains l r where "print_chunk w = l # r" and "trim l \<noteq> []" and "\<not> starts_with l ''***''"
    and "strip_prefix MOVE_TO_MARKER l = None"
proof (cases "wc_mark w = NoMark")
  case True
  with assms obtain x xs where x: "wc_lines w = x # xs" "trim (print_line x) \<noteq> []"
    by (cases "wc_lines w") (auto simp: chunk_ok_def first_chunk_ok_def)
  then have "print_chunk w = print_line x # tl (print_chunk w)" using True by (simp add: print_chunk_def)
  moreover have "\<not> starts_with (print_line x) ''***''" "strip_prefix MOVE_TO_MARKER (print_line x) = None"
    by (cases x; simp add: MOVE_TO_MARKER_def)+
  ultimately show thesis using that x(2) by metis
next
  case False
  from print_chunk_mark [OF this] trim_plain_head [of "CHR ''@''"] that show thesis
    by (fastforce simp: plain_byte_def byte_between_def MOVE_TO_MARKER_def)
qed

lemma marked_first: "wc_mark w \<noteq> NoMark \<Longrightarrow> first_chunk_ok w"
  by (simp add: first_chunk_ok_def)

lemma update_loop_print:
  assumes "list_all chunk_ok ws" and "header_next rest" and "ws \<noteq> [] \<longrightarrow> first_chunk_ok (hd ws)"
    and "list_all (\<lambda>w. wc_mark w \<noteq> NoMark) (if cs = [] then tl ws else ws)"
  shows "update_loop ln (concat (map print_chunk ws) @ rest) cs n
    = Inr (cs @ map chunk_of ws, n + length (concat (map print_chunk ws)))"
  using assms(1,3,4)
proof (induction ws arbitrary: cs n)
  case Nil
  show ?case
  proof (cases rest)
    case (Cons l r)
    with assms(2) obtain h where h: "hunk_ok h" "l = header_line h" by (auto simp: header_next_def)
    then have "trim l \<noteq> []" "starts_with l ''***''"
      using header_line_shape [of h] header_line_trim [of h] by auto
    with Cons show ?thesis by (simp add: update_loop_code)
  qed (simp add: update_loop_code)
next
  case (Cons w ws)
  let ?rest = "concat (map print_chunk ws) @ rest"
  have marked: "list_all (\<lambda>w. wc_mark w \<noteq> NoMark) ws" using Cons.prems(3) by (auto split: if_splits)
  have "stops_chunk ?rest"
  proof (cases ws)
    case Nil
    with header_stops [OF assms(2)] show ?thesis by simp
  next
    case (Cons w' ws')
    with print_chunk_mark [of w'] marked show ?thesis by (auto simp: stops_chunk_def EOF_MARKER_def)
  qed
  then have parse: "parse_update_file_chunk (print_chunk w @ ?rest) (ln + n) (cs = []) = Inr (chunk_of w, length (print_chunk w))"
    using Cons.prems by (intro parse_print_chunk) (auto split: if_splits)
  have "chunk_ok w" "first_chunk_ok w" using Cons.prems(1,2) by auto
  then obtain l r where l: "print_chunk w = l # r" "trim l \<noteq> []" "\<not> starts_with l ''***''"
    and "strip_prefix MOVE_TO_MARKER l = None"
    by (rule print_chunk_head)
  have "update_loop ln (print_chunk w @ ?rest) cs n = update_loop ln ?rest (cs @ [chunk_of w]) (n + length (print_chunk w))"
    using parse l by (simp add: update_loop_code)
  also have "\<dots> = Inr ((cs @ [chunk_of w]) @ map chunk_of ws, n + length (print_chunk w) + length (concat (map print_chunk ws)))"
    using Cons.prems(1) marked by (intro Cons.IH) (cases ws; auto intro: marked_first)+
  finally show ?case by simp
qed

lemma add_lines_print:
  assumes "header_next rest"
  shows "add_lines (map ((#) (CHR ''+'')) ls @ rest) = (concat (map (\<lambda>l. l @ [nl]) ls), length ls)"
proof (induction ls)
  case Nil
  show ?case
  proof (cases rest)
    case (Cons l r)
    with assms obtain h where "l = header_line h" by (auto simp: header_next_def)
    with Cons header_line_shape [of h] show ?thesis by auto
  qed simp
next
  case (Cons l ls)
  then show ?case by simp
qed

lemma parse_print_hunk:
  assumes ok: "hunk_ok h" and rest: "header_next rest"
  shows "parse_one_hunk (print_hunk h @ rest) ln = Inr (hunk_of h, length (print_hunk h))"
proof (cases h)
  case (WrittenAdd p c)
  with ok header_line_trim [OF ok] show ?thesis
    by (simp add: parse_one_hunk_def print_hunk_def add_lines_print [OF rest])
next
  case (WrittenDelete p)
  with header_line_trim [OF ok] show ?thesis
    by (simp add: parse_one_hunk_def print_hunk_def patch_markers)
next
  case (WrittenUpdate p m ws)
  then have ws: "list_all chunk_ok ws" "ws \<noteq> [] \<longrightarrow> first_chunk_ok (hd ws)" "list_all (\<lambda>w. wc_mark w \<noteq> NoMark) (tl ws)" "ws \<noteq> []"
    using ok by auto
  from ws(1,2,4) have "chunk_ok (hd ws)" "first_chunk_ok (hd ws)" by (cases ws; simp)+
  then obtain l r where "print_chunk (hd ws) = l # r" "strip_prefix MOVE_TO_MARKER l = None" by (rule print_chunk_head)
  then have "split_move_to (concat (map print_chunk ws) @ rest) = (None, concat (map print_chunk ws) @ rest)"
    using ws(4) by (cases ws) (auto simp: split_move_to_def)
  then have "split_move_to (body_lines h @ rest) = (m, concat (map print_chunk ws) @ rest)"
    using WrittenUpdate by (cases m) (simp_all add: split_move_to_def)
  then have "parse_update p (body_lines h @ rest) ln = Inr (hunk_of h, length (print_hunk h))"
    using ws(4) update_loop_print [OF ws(1) rest ws(2), of "[]"] ws(3)
    by (auto simp: parse_update_def WrittenUpdate print_hunk_def split: option.splits)
  with WrittenUpdate header_line_trim [OF ok] show ?thesis
    by (simp add: parse_one_hunk_def print_hunk_def patch_markers)
qed

lemma hunk_loop_print: "list_all hunk_ok hs \<Longrightarrow> hunk_loop (concat (map print_hunk hs)) n = Inr (map hunk_of hs)"
proof (induction hs arbitrary: n)
  case Nil
  then show ?case by (simp add: hunk_loop.simps)
next
  case (Cons h hs)
  have "header_next (concat (map print_hunk hs))"
    using Cons.prems by (cases hs) (auto simp: header_next_def print_hunk_def)
  then have "parse_one_hunk (concat (map print_hunk (h # hs))) n = Inr (hunk_of h, length (print_hunk h))"
    using parse_print_hunk Cons.prems by simp
  moreover have "concat (map print_hunk (h # hs)) \<noteq> []" by (simp add: print_hunk_def)
  ultimately show ?case using Cons by (subst hunk_loop.simps) simp
qed

subsection \<open>Lines of the text\<close>

lemma strip_cr_ok: "line_ok l \<Longrightarrow> strip_cr l = l"
  by (auto simp: strip_cr_def line_ok_def ends_with_def split: option.splits)

lemma str_lines_join:
  assumes "list_all line_ok ls" and "ls \<noteq> []" and "last ls \<noteq> []"
  shows "str_lines (join [nl] ls) = ls"
proof -
  have "split_on (\<lambda>c. c = nl) (join [nl] ls) = ls"
    using assms by (intro split_on_join_sep) (auto simp: list_all_iff line_ok_def)
  moreover have "map strip_cr (butlast ls) = butlast ls"
    using assms(1) by (intro map_idI strip_cr_ok) (auto simp: list_all_iff dest: in_set_butlastD)
  ultimately show ?thesis using assms by (simp add: str_lines_def)
qed

lemma line_ok_append: "nl \<notin> set m \<Longrightarrow> m \<noteq> [] \<Longrightarrow> last m \<noteq> cr \<Longrightarrow> line_ok l \<Longrightarrow> line_ok (m @ l)"
  by (cases l rule: rev_cases) (auto simp: line_ok_def ends_with_iff)

lemma print_line_ok: "list_all line_ok (line_old l @ line_new l) \<Longrightarrow> line_ok (print_line l)"
  using line_ok_append [of "''-''"] line_ok_append [of "''+''"] line_ok_append [of "'' ''"]
  by (cases l) (auto simp: line_ok_def ends_with_iff)

lemma print_chunk_lines: "chunk_ok w \<Longrightarrow> list_all line_ok (print_chunk w)"
proof -
  assume ok: "chunk_ok w"
  have "list_all line_ok (print_mark (wc_mark w))"
    using ok line_ok_append [of "''@@ ''"]
    by (cases "wc_mark w") (auto simp: chunk_ok_def patch_markers line_ok_def ends_with_iff)
  moreover have "list_all line_ok (map print_line (wc_lines w))"
    using ok print_line_ok by (auto simp: chunk_ok_def list_all_iff)
  ultimately show ?thesis by (simp add: print_chunk_def EOF_MARKER_def line_ok_def ends_with_iff)
qed

lemma body_lines_ok: "hunk_ok h \<Longrightarrow> list_all line_ok (body_lines h)"
proof (cases h)
  case (WrittenAdd p c)
  assume "hunk_ok h"
  with WrittenAdd line_ok_append [of "''+''"] show ?thesis by (auto simp: list_all_iff)
next
  case (WrittenUpdate p m chs)
  assume "hunk_ok h"
  with WrittenUpdate print_chunk_lines line_ok_append [of MOVE_TO_MARKER] show ?thesis
    by (auto simp: list_all_iff MOVE_TO_MARKER_def split: option.splits)
qed simp

lemma print_hunk_lines:
  assumes "hunk_ok h"
  shows "list_all line_ok (print_hunk h)"
proof -
  have "line_ok (header_line h)"
    using assms line_ok_append [of ADD_FILE_MARKER] line_ok_append [of DELETE_FILE_MARKER]
      line_ok_append [of UPDATE_FILE_MARKER]
    by (cases h) (auto simp: patch_markers path_ok_def)
  with body_lines_ok [OF assms] show ?thesis by (simp add: print_hunk_def)
qed

lemma marker_trims [simp]:
  "trim BEGIN_PATCH_MARKER = BEGIN_PATCH_MARKER" "trim END_PATCH_MARKER = END_PATCH_MARKER"
  by (rule trim_plain; simp add: patch_markers plain_byte_def byte_between_def)+

lemma last_join: "ws \<noteq> [] \<Longrightarrow> last ws \<noteq> [] \<Longrightarrow> join sep ws \<noteq> [] \<and> last (join sep ws) = last (last ws)"
  by (induction sep ws rule: join.induct) auto

lemma print_patch_lines:
  assumes "list_all hunk_ok ws"
  shows "list_all line_ok (BEGIN_PATCH_MARKER # concat (map print_hunk ws) @ [END_PATCH_MARKER])"
  using assms print_hunk_lines by (auto simp: list_all_iff line_ok_def ends_with_iff patch_markers)

lemma strict_boundaries:
  "check_patch_boundaries_strict (BEGIN_PATCH_MARKER # ls @ [END_PATCH_MARKER]) = Inr ()"
  by (simp add: check_patch_boundaries_strict_def check_start_and_end_lines_strict_def)

text \<open>The first line of a here-document.\<close>

abbreviation here_starts :: "string set" where
  "here_starts \<equiv> {''<<EOF'', ''<<'' @ quoted ''EOF'', ''<<'' @ [CHR 0x22] @ ''EOF'' @ [CHR 0x22]}"

lemma here_start:
  assumes "start \<in> here_starts"
  shows "line_ok start" and "start \<noteq> []" and "plain_byte (hd start)" and "trim start = start" and "start \<noteq> BEGIN_PATCH_MARKER"
proof -
  show a: "line_ok start" "start \<noteq> []" "plain_byte (hd start)" "start \<noteq> BEGIN_PATCH_MARKER"
    using assms by (auto simp: quoted_def line_ok_def ends_with_iff plain_byte_def byte_between_def patch_markers)
  have "plain_byte (last start)" using assms by (auto simp: quoted_def plain_byte_def byte_between_def)
  with a show "trim start = start" by (intro trim_plain)
qed

text \<open>A text of good lines that begins and ends with visible bytes is seen as those lines.\<close>

lemma text_lines:
  assumes "list_all line_ok ls" and "ls \<noteq> []" and "hd ls \<noteq> []" and "plain_byte (hd (hd ls))"
    and "last ls \<noteq> []" and "plain_byte (last (last ls))"
  shows "str_lines (trim (join [nl] ls)) = ls"
proof -
  have "trim (join [nl] ls) = join [nl] ls"
    using assms last_join [of ls "[nl]"] by (intro trim_plain) (cases ls; simp add: join_Cons hd_append)+
  with str_lines_join assms show ?thesis by simp
qed

text \<open>
  C27: The parser reads written patches. Take hunks that add a file of given lines, delete a file, or update one, with or without
  a move, by chunks of context, removed, added and empty lines in any order, each behind a context mark or a bare one (the
  first chunk of an update also without) and with or without the mark of the end of the file; where lines hold no line
  ends, paths are not empty and end in no white space, chunks have at least one line, and an unmarked first chunk does not
  begin with white space only. The written text is parsed to exactly these hunks, a context line being both an old and a new
  line, whatever the lines contain; the normalised text is the written one; and so it is when the text
  comes inside one of the three here-document forms. Texts outside of this, such as indented marker lines, blank lines
  between hunks or several \<open>@@\<close> lines in a row (\<open>second_context_line_refused\<close>), are not covered.
\<close>

theorem parse_patch_reads_back:
  assumes "list_all hunk_ok ws"
  defines "result \<equiv> \<lparr>pp_hunks = map hunk_of ws, pp_patch = print_patch ws\<rparr>"
  shows "parse_patch (print_patch ws) = Inr result
    \<and> (\<forall>start \<in> here_starts.
         parse_patch (start @ [nl] @ print_patch ws @ [nl] @ ''EOF'') = Inr result)"
proof -
  let ?body = "concat (map print_hunk ws)"
  let ?ls = "BEGIN_PATCH_MARKER # ?body @ [END_PATCH_MARKER]"
  note lines = print_patch_lines [OF assms(1)]
  have parsed: "parse_patch s = Inr result" if "patch_boundaries (str_lines (trim s)) Lenient = Inr ?ls" for s
    using hunk_loop_print [OF assms(1)] that
    by (simp add: parse_patch_def PARSE_IN_STRICT_MODE_def parse_patch_text_def butlast_append print_patch_def result_def)
  have "str_lines (trim (print_patch ws)) = ?ls"
    unfolding print_patch_def by (rule text_lines [OF lines]) (simp_all add: patch_markers plain_byte_def byte_between_def)
  then have "parse_patch (print_patch ws) = Inr result"
    using strict_boundaries by (intro parsed) (simp add: patch_boundaries_def)
  moreover have "parse_patch (start @ [nl] @ print_patch ws @ [nl] @ ''EOF'') = Inr result"
    if start: "start \<in> here_starts" for start
  proof (rule parsed)
    have whole: "start @ [nl] @ print_patch ws @ [nl] @ ''EOF'' = join [nl] (start # ?ls @ [''EOF''])"
      by (simp add: print_patch_def join_Cons)
    have "str_lines (trim (start @ [nl] @ print_patch ws @ [nl] @ ''EOF'')) = start # ?ls @ [''EOF'']"
      unfolding whole using lines here_start [OF start]
      by (intro text_lines) (simp_all add: line_ok_def ends_with_iff plain_byte_def byte_between_def)
    moreover obtain err where "check_patch_boundaries_strict (start # ?ls @ [''EOF'']) = Inl err"
      using here_start(4,5) [OF start] by (simp add: check_patch_boundaries_strict_def check_start_and_end_lines_strict_def Let_def)
    ultimately show "patch_boundaries (str_lines (trim (start @ [nl] @ print_patch ws @ [nl] @ ''EOF''))) Lenient = Inr ?ls"
      using start strict_boundaries [of ?body]
      by (simp add: patch_boundaries_def check_patch_boundaries_lenient_def ends_with_iff butlast_append)
  qed
  ultimately show ?thesis by blast
qed

definition sample_written :: "WrittenHunk list" where
  "sample_written =
     [WrittenAdd ''a.txt'' [''*** End Patch''],
      WrittenUpdate ''b.txt'' (Some ''c.txt'')
        [\<lparr>wc_mark = NoMark, wc_lines = [ContextLine ''*** End of File'', RemovedLine ''x'', BlankLine, AddedLine ''@@ ''], wc_eof = False\<rparr>,
         \<lparr>wc_mark = MarkWith '' f()'', wc_lines = [AddedLine [], ContextLine ''y''], wc_eof = True\<rparr>],
      WrittenDelete ''d.txt'']"

lemma sample_written_ok: "list_all hunk_ok sample_written"
proof -
  have "path_ok ''a.txt''" "path_ok ''b.txt''" "path_ok ''d.txt''" "trim '' *** End of File'' \<noteq> []" by code_simp+
  then show ?thesis by (simp add: sample_written_def chunk_ok_def first_chunk_ok_def line_ok_def ends_with_iff)
qed

lemma parse_patch_reads_back_witness:
  "parse_patch (''<<EOF'' @ [nl] @ print_patch sample_written @ [nl] @ ''EOF'')
   = Inr \<lparr>pp_hunks = [AddFile ''a.txt'' (''*** End Patch'' @ [nl]),
      UpdateFile ''b.txt'' (Some ''c.txt'')
        [\<lparr>change_context = None, old_lines = [''*** End of File'', ''x'', []], new_lines = [''*** End of File'', [], ''@@ ''],
          is_end_of_file = False\<rparr>,
         \<lparr>change_context = Some '' f()'', old_lines = [''y''], new_lines = [[], ''y''], is_end_of_file = True\<rparr>],
      DeleteFile ''d.txt''],
     pp_patch = ''*** Begin Patch'' @ [nl] @ ''*** Add File: a.txt'' @ [nl] @ ''+*** End Patch'' @ [nl] @
       ''*** Update File: b.txt'' @ [nl] @ ''*** Move to: c.txt'' @ [nl] @ '' *** End of File'' @ [nl] @ ''-x'' @ [nl] @ [nl] @
       ''+@@ '' @ [nl] @ ''@@  f()'' @ [nl] @ ''+'' @ [nl] @ '' y'' @ [nl] @ ''*** End of File'' @ [nl] @
       ''*** Delete File: d.txt'' @ [nl] @ ''*** End Patch''\<rparr>"
proof -
  have "parse_patch (''<<EOF'' @ [nl] @ print_patch sample_written @ [nl] @ ''EOF'')
      = Inr \<lparr>pp_hunks = map hunk_of sample_written, pp_patch = print_patch sample_written\<rparr>"
    using parse_patch_reads_back [OF sample_written_ok] by blast
  then show ?thesis
    by (simp add: sample_written_def chunk_of_def print_patch_def print_hunk_def print_chunk_def patch_markers)
qed

section \<open>Where an error is reported\<close>

lemma chunk_loop_error: "chunk_loop ln ls ch n = Inl e \<Longrightarrow> \<exists>m. e = InvalidHunkError m (ln + 1)"
proof (induction ls arbitrary: ch n)
  case (Cons l ls)
  show ?case
  proof (cases "l = EOF_MARKER")
    case False
    with Cons show ?thesis by (cases l) (auto split: if_splits)
  qed (use Cons.prems in \<open>auto split: if_splits\<close>)
qed simp

lemma parse_update_file_chunk_error:
  "parse_update_file_chunk ls ln allow = Inl e \<Longrightarrow> \<exists>m k. e = InvalidHunkError m k \<and> ln \<le> k \<and> k \<le> ln + 1"
  by (fastforce simp: parse_update_file_chunk_def chunk_start_def dest: chunk_loop_error
      split: list.splits sum.splits prod.splits if_splits option.splits)

lemma update_loop_error:
  "update_loop ln ls chunks n = Inl e \<Longrightarrow>
     \<exists>m k. e = InvalidHunkError m k \<and> ln + n \<le> k \<and> k \<le> ln + n + length ls"
proof (induction ln ls chunks n rule: update_loop.induct)
  case (1 ln ls chunks n)
  show ?case
  proof (cases ls)
    case Nil
    with "1.prems" show ?thesis by (simp add: update_loop_code)
  next
    case (Cons l r)
    consider (blank) "trim l = []" | (stop) "trim l \<noteq> []" "starts_with l ''***''"
      | (chunk) "trim l \<noteq> []" "\<not> starts_with l ''***''" by blast
    then show ?thesis
    proof cases
      case blank
      with "1.prems" "1.IH"(1) [OF Cons] Cons show ?thesis by (auto simp: update_loop_code)
    next
      case stop
      with "1.prems" Cons show ?thesis by (simp add: update_loop_code)
    next
      case chunk
      show ?thesis
      proof (cases "parse_update_file_chunk ls (ln + n) (chunks = [])")
        case (Inl e')
        with "1.prems" Cons chunk parse_update_file_chunk_error [OF Inl] show ?thesis
          by (force simp: update_loop_code)
      next
        case (Inr p)
        obtain ch k where p: "p = (ch, k)" by fastforce
        with Inr "1.prems" Cons chunk have rest: "update_loop ln (drop k ls) (chunks @ [ch]) (n + k) = Inl e"
          by (simp add: update_loop_code)
        from "1.IH"(2) [OF Cons chunk Inr p [symmetric] rest] parse_update_file_chunk_count [OF Inr [unfolded p]]
        show ?thesis by force
      qed
    qed
  qed
qed

lemma parse_update_error:
  "parse_update path r ln = Inl e \<Longrightarrow> \<exists>m k. e = InvalidHunkError m k \<and> ln \<le> k \<and> k \<le> ln + Suc (length r)"
  by (fastforce simp: parse_update_def split_move_to_def dest: update_loop_error
      split: list.splits option.splits sum.splits prod.splits if_splits)

lemma parse_one_hunk_error:
  assumes "parse_one_hunk ls ln = Inl e" and "ls \<noteq> []"
  shows "\<exists>m k. e = InvalidHunkError m k \<and> ln \<le> k \<and> k \<le> ln + length ls"
proof -
  obtain l r where "ls = l # r" using assms(2) by (cases ls) auto
  with assms(1) show ?thesis
    by (fastforce simp: parse_one_hunk_def Let_def dest: parse_update_error split: option.splits prod.splits)
qed

lemma hunk_loop_error:
  "hunk_loop ls n = Inl e \<Longrightarrow> \<exists>m k. e = InvalidHunkError m k \<and> n \<le> k \<and> k \<le> n + length ls"
proof (induction ls n rule: hunk_loop.induct)
  case (1 ls n)
  from "1.prems" have ne: "ls \<noteq> []" by (auto simp: hunk_loop.simps)
  show ?case
  proof (cases "parse_one_hunk ls n")
    case (Inl e')
    with "1.prems" ne have "e' = e" by (simp add: hunk_loop.simps [of ls])
    with parse_one_hunk_error [OF Inl ne] show ?thesis by simp
  next
    case (Inr p)
    obtain h k where p: "p = (h, k)" by fastforce
    with Inr "1.prems" ne have "hunk_loop (drop k ls) (n + k) = Inl e"
      by (simp add: hunk_loop.simps [of ls] split: sum.splits)
    from "1.IH" [OF ne Inr p [symmetric] this] parse_one_hunk_count [OF Inr [unfolded p] ne] show ?thesis by force
  qed
qed

lemma patch_boundaries_lines:
  assumes "patch_boundaries ls mode = Inr ls'"
  shows "2 \<le> length ls' \<and> length ls' \<le> length ls"
proof -
  have strict: "2 \<le> length xs" if "check_patch_boundaries_strict xs = Inr u" for xs u
    using that
    by (cases xs; cases "tl xs")
      (auto simp: check_patch_boundaries_strict_def check_start_and_end_lines_strict_def patch_markers Let_def
        split: if_splits)
  from assms strict show ?thesis
    by (auto simp: patch_boundaries_def check_patch_boundaries_lenient_def Let_def
        split: sum.splits ParseMode.splits if_splits)
qed

text \<open>
  The line number of a hunk error lies in the patch: it is at least 2, the line after the opening marker, and
  at most the number of lines of the trimmed text.
\<close>

theorem parse_error_line_in_patch:
  assumes "parse_patch patch = Inl (InvalidHunkError m k)"
  shows "2 \<le> k \<and> k \<le> length (str_lines (trim patch))"
proof -
  let ?mode = "if PARSE_IN_STRICT_MODE then Strict else Lenient"
  have bounds: "patch_boundaries (str_lines (trim patch)) ?mode \<noteq> Inl (InvalidHunkError m k)"
    by (auto simp: patch_boundaries_def check_patch_boundaries_lenient_def check_patch_boundaries_strict_def
        check_start_and_end_lines_strict_def Let_def split: sum.splits ParseMode.splits if_splits list.splits)
  then obtain ls where ls: "patch_boundaries (str_lines (trim patch)) ?mode = Inr ls"
    and loop: "hunk_loop (butlast (tl ls)) 2 = Inl (InvalidHunkError m k)"
    using assms by (auto simp: parse_patch_def parse_patch_text_def split: sum.splits)
  from hunk_loop_error [OF loop] patch_boundaries_lines [OF ls] show ?thesis by auto
qed

end
