(* ===== verification/Apply_Patch.thy ===== *)
theory Apply_Patch
  imports Patch_Parser Symlink_Follow
begin

text \<open>
  How the apply-patch tool applies a parsed patch: \<open>seek_sequence.rs\<close> and \<open>apply.rs\<close> of
  \<open>crates/codegen/xai-grok-tools/src/implementations/codex/apply_patch\<close>. The lines of a chunk are looked up
  in the file with four comparisons of decreasing strictness, the replacements are sorted by their
  place and applied from the last to the first. A slice, removal or insertion out of range, where
  the code would panic, is the value \<open>None\<close>.
\<close>

section \<open>Looking up a sequence of lines\<close>

text \<open>The code points that \<open>normalise\<close> replaces, as their UTF-8 encodings.\<close>

definition punctuation_table :: "(string \<times> char) list" where
  "punctuation_table =
     map (\<lambda>b. ([CHR 0xE2, CHR 0x80, b], CHR ''-''))
       [CHR 0x90, CHR 0x91, CHR 0x92, CHR 0x93, CHR 0x94, CHR 0x95] @
     [([CHR 0xE2, CHR 0x88, CHR 0x92], CHR ''-'')] @
     map (\<lambda>b. ([CHR 0xE2, CHR 0x80, b], squote)) [CHR 0x98, CHR 0x99, CHR 0x9A, CHR 0x9B] @
     map (\<lambda>b. ([CHR 0xE2, CHR 0x80, b], CHR 0x22)) [CHR 0x9C, CHR 0x9D, CHR 0x9E, CHR 0x9F] @
     [([CHR 0xC2, CHR 0xA0], CHR '' '')] @
     map (\<lambda>b. ([CHR 0xE2, CHR 0x80, b], CHR '' ''))
       [CHR 0x82, CHR 0x83, CHR 0x84, CHR 0x85, CHR 0x86, CHR 0x87, CHR 0x88, CHR 0x89, CHR 0x8A, CHR 0xAF] @
     [([CHR 0xE2, CHR 0x81, CHR 0x9F], CHR '' ''), ([CHR 0xE3, CHR 0x80, CHR 0x80], CHR '' '')]"

text \<open>
  A byte that starts no listed encoding is kept. The listed encodings start with a leading byte and the
  bytes inside another encoding are continuation bytes, so going byte by byte reads whole characters.
\<close>

fun normalise_chars :: "string \<Rightarrow> string" where
  "normalise_chars [] = []"
| "normalise_chars (c # s) =
     (case find (\<lambda>(enc, _). starts_with (c # s) enc) punctuation_table of
        Some (enc, r) \<Rightarrow> r # normalise_chars (drop (length enc - 1) s)
      | None \<Rightarrow> c # normalise_chars s)"

definition normalise :: "string \<Rightarrow> string" where
  "normalise s = normalise_chars (trim s)"

text \<open>One pass: the first place from \<open>search_start\<close> on at which every line agrees under \<open>f\<close>.\<close>

definition seek_pass ::
    "(string \<Rightarrow> string) \<Rightarrow> string list \<Rightarrow> string list \<Rightarrow> nat \<Rightarrow> nat option" where
  "seek_pass f ls pattern search_start =
     find (\<lambda>i. map f (take (length pattern) (drop i ls)) = map f pattern)
       [search_start ..< Suc (length ls - length pattern)]"

fun first_found :: "'a option \<Rightarrow> 'a option \<Rightarrow> 'a option" where
  "first_found (Some x) _ = Some x"
| "first_found None y = y"

definition seek_sequence :: "string list \<Rightarrow> string list \<Rightarrow> nat \<Rightarrow> bool \<Rightarrow> nat option" where
  "seek_sequence ls pattern start eof =
     (if pattern = [] then Some start
      else if length pattern > length ls then None
      else let search_start = (if eof \<and> length ls \<ge> length pattern then length ls - length pattern else start) in
           first_found (seek_pass (\<lambda>l. l) ls pattern search_start)
             (first_found (seek_pass trim_end ls pattern search_start)
               (first_found (seek_pass trim ls pattern search_start)
                 (seek_pass normalise ls pattern search_start))))"

section \<open>Replacements\<close>

type_synonym Replacement = "nat \<times> nat \<times> string list"

datatype ApplyPatchError = Parse ParseError | ComputeReplacements string | Io string string "string option"

definition last_is_empty :: "string list \<Rightarrow> bool" where
  "last_is_empty ls \<longleftrightarrow> ls \<noteq> [] \<and> last ls = []"

text \<open>The place after the change context of a chunk, or its absence.\<close>

definition context_index :: "string list \<Rightarrow> string option \<Rightarrow> nat \<Rightarrow> nat option" where
  "context_index original_lines ctx line_index =
     (case ctx of
        None \<Rightarrow> Some line_index
      | Some ctx_line \<Rightarrow> map_option Suc (seek_sequence original_lines [ctx_line] line_index False))"

text \<open>
  The lookup of the old lines, retried without their final empty line: the place, the length of what
  was looked up, and the lines to put there.
\<close>

definition locate_chunk :: "string list \<Rightarrow> UpdateFileChunk \<Rightarrow> nat \<Rightarrow> Replacement option" where
  "locate_chunk original_lines chunk line_index =
     (case seek_sequence original_lines (old_lines chunk) line_index (is_end_of_file chunk) of
        Some start_idx \<Rightarrow> Some (start_idx, length (old_lines chunk), new_lines chunk)
      | None \<Rightarrow>
          if last_is_empty (old_lines chunk)
          then let pattern = butlast (old_lines chunk);
                   new_slice = (if last_is_empty (new_lines chunk) then butlast (new_lines chunk) else new_lines chunk) in
               map_option (\<lambda>start_idx. (start_idx, length pattern, new_slice))
                 (seek_sequence original_lines pattern line_index (is_end_of_file chunk))
          else None)"

fun compute_loop ::
    "string list \<Rightarrow> string \<Rightarrow> UpdateFileChunk list \<Rightarrow> nat \<Rightarrow> ApplyPatchError + Replacement list" where
  "compute_loop original_lines path [] line_index = Inr []"
| "compute_loop original_lines path (chunk # chunks) line_index =
     (case context_index original_lines (change_context chunk) line_index of
        None \<Rightarrow> Inl (ComputeReplacements
                  (''Failed to find context '' @ quoted (the (change_context chunk)) @ '' in '' @ path))
      | Some line_index \<Rightarrow>
          if old_lines chunk = []
          then let insertion_idx = (if last_is_empty original_lines then length original_lines - 1
                                    else length original_lines) in
               (case compute_loop original_lines path chunks line_index of
                  Inl e \<Rightarrow> Inl e
                | Inr rs \<Rightarrow> Inr ((insertion_idx, 0, new_lines chunk) # rs))
          else (case locate_chunk original_lines chunk line_index of
                  None \<Rightarrow> Inl (ComputeReplacements
                            (''Failed to find expected lines in '' @ path @ '':'' @ [nl] @ join [nl] (old_lines chunk)))
                | Some (start_idx, len, new_slice) \<Rightarrow>
                    (case compute_loop original_lines path chunks (start_idx + len) of
                       Inl e \<Rightarrow> Inl e
                     | Inr rs \<Rightarrow> Inr ((start_idx, len, new_slice) # rs))))"

text \<open>\<open>sort_by_key\<close> is a stable sort, as \<open>sort_key\<close> is.\<close>

definition compute_replacements ::
    "string list \<Rightarrow> string \<Rightarrow> UpdateFileChunk list \<Rightarrow> ApplyPatchError + Replacement list" where
  "compute_replacements original_lines path chunks =
     (case compute_loop original_lines path chunks 0 of
        Inl e \<Rightarrow> Inl e
      | Inr replacements \<Rightarrow> Inr (sort_key fst replacements))"

section \<open>Applying replacements\<close>

text \<open>\<open>for _ in 0..old_len { if start_idx < lines.len() { lines.remove(start_idx); } }\<close>\<close>

fun remove_lines :: "nat \<Rightarrow> nat \<Rightarrow> 'a list \<Rightarrow> 'a list" where
  "remove_lines start_idx 0 ls = ls"
| "remove_lines start_idx (Suc n) ls =
     remove_lines start_idx n (if start_idx < length ls then take start_idx ls @ drop (Suc start_idx) ls else ls)"

text \<open>\<open>Vec::insert\<close>, which panics past the end.\<close>

definition vec_insert :: "nat \<Rightarrow> 'a \<Rightarrow> 'a list \<Rightarrow> 'a list option" where
  "vec_insert i x xs = (if i \<le> length xs then Some (take i xs @ x # drop i xs) else None)"

fun insert_lines :: "nat \<Rightarrow> 'a list \<Rightarrow> 'a list \<Rightarrow> 'a list option" where
  "insert_lines idx [] ls = Some ls"
| "insert_lines idx (x # new) ls = Option.bind (vec_insert idx x ls) (insert_lines (Suc idx) new)"

definition replace_at :: "nat \<times> nat \<times> 'a list \<Rightarrow> 'a list \<Rightarrow> 'a list option" where
  "replace_at rep ls =
     (case rep of (start_idx, old_len, new_segment) \<Rightarrow> insert_lines start_idx new_segment (remove_lines start_idx old_len ls))"

text \<open>The loop over \<open>replacements.iter().rev()\<close>.\<close>

fun replace_each :: "(nat \<times> nat \<times> 'a list) list \<Rightarrow> 'a list \<Rightarrow> 'a list option" where
  "replace_each [] ls = Some ls"
| "replace_each (r # rs) ls = Option.bind (replace_at r ls) (replace_each rs)"

definition apply_replacements :: "'a list \<Rightarrow> (nat \<times> nat \<times> 'a list) list \<Rightarrow> 'a list option" where
  "apply_replacements ls replacements = replace_each (rev replacements) ls"

text \<open>\<open>original_content.split('\n')\<close> less its trailing empty element.\<close>

definition content_lines :: "string \<Rightarrow> string list" where
  "content_lines content =
     (let ls = split_on (\<lambda>c. c = nl) content in if last_is_empty ls then butlast ls else ls)"

definition content_of_lines :: "string list \<Rightarrow> string" where
  "content_of_lines ls = join [nl] (if last_is_empty ls then ls else ls @ [[]])"

definition derive_new_contents ::
    "string \<Rightarrow> string \<Rightarrow> UpdateFileChunk list \<Rightarrow> (ApplyPatchError + string) option" where
  "derive_new_contents original_content path chunks =
     (let original_lines = content_lines original_content in
      case compute_replacements original_lines path chunks of
        Inl e \<Rightarrow> Some (Inl e)
      | Inr replacements \<Rightarrow>
          map_option (\<lambda>ls. Inr (content_of_lines ls)) (apply_replacements original_lines replacements))"

section \<open>Lookup\<close>

lemma find_upt_Some:
  "find P [a ..< b] = Some i \<longleftrightarrow> a \<le> i \<and> i < b \<and> P i \<and> (\<forall>j. a \<le> j \<longrightarrow> j < i \<longrightarrow> \<not> P j)"
proof (induction "b - a" arbitrary: a)
  case (Suc n)
  then have "[a ..< b] = a # [Suc a ..< b]" by (simp add: upt_conv_Cons)
  with Suc(1) [of "Suc a"] Suc(2) show ?case
    by (cases "P a") (auto simp: Suc_le_eq dest: le_neq_implies_less)
qed auto

lemma first_found_Some: "first_found a b = Some x \<longleftrightarrow> a = Some x \<or> a = None \<and> b = Some x"
  by (cases a) auto

lemma first_found_None: "first_found a b = None \<longleftrightarrow> a = None \<and> b = None"
  by (cases a) auto

lemma seek_pass_Some:
  "seek_pass f ls pat st = Some i \<Longrightarrow> length pat \<le> length ls \<Longrightarrow>
     st \<le> i \<and> i + length pat \<le> length ls \<and> map f (take (length pat) (drop i ls)) = map f pat"
  by (auto simp: seek_pass_def find_upt_Some simp del: upt_Suc)

text \<open>The four comparisons.\<close>

definition line_forms :: "(string \<Rightarrow> string) set" where
  "line_forms = {\<lambda>l. l, trim_end, trim, normalise}"

text \<open>A block of lines that agrees with a pattern under one of the four comparisons.\<close>

definition lines_match :: "string list \<Rightarrow> string list \<Rightarrow> bool" where
  "lines_match block pat \<longleftrightarrow> (\<exists>f \<in> line_forms. map f block = map f pat)"

lemma lines_match_length: "lines_match block pat \<Longrightarrow> length block = length pat"
  by (auto simp: lines_match_def dest: map_eq_imp_length_eq)

lemma seek_sequence_sound:
  assumes "seek_sequence ls pat st eof = Some i" and "st \<le> length ls"
  shows "i + length pat \<le> length ls" and "lines_match (take (length pat) (drop i ls)) pat"
    and "\<not> eof \<Longrightarrow> st \<le> i"
proof -
  have "i + length pat \<le> length ls \<and> lines_match (take (length pat) (drop i ls)) pat \<and> (\<not> eof \<longrightarrow> st \<le> i)"
  proof (cases "pat = []")
    case True
    with assms show ?thesis by (auto simp: seek_sequence_def lines_match_def line_forms_def)
  next
    case False
    with assms(1) have len: "length pat \<le> length ls" by (auto simp: seek_sequence_def split: if_splits)
    with assms(1) False seek_pass_Some [OF _ len] show ?thesis
      by (fastforce simp: seek_sequence_def first_found_Some Let_def lines_match_def line_forms_def split: if_splits)
  qed
  then show "i + length pat \<le> length ls" and "lines_match (take (length pat) (drop i ls)) pat"
    and "\<not> eof \<Longrightarrow> st \<le> i" by auto
qed

text \<open>An exact occurrence is found, and the first one is taken, whatever agrees more loosely before it.\<close>

lemma seek_sequence_exact:
  assumes "take (length pat) (drop i ls) = pat" and "pat \<noteq> []" and "st \<le> i"
    and "\<And>j. st \<le> j \<Longrightarrow> j < i \<Longrightarrow> take (length pat) (drop j ls) \<noteq> pat"
  shows "seek_sequence ls pat st False = Some i"
proof -
  have "length pat \<le> length ls - i" using arg_cong [OF assms(1), of length] by simp
  moreover have "0 < length pat" using assms(2) by simp
  ultimately have "i + length pat \<le> length ls" by linarith
  then have "seek_pass (\<lambda>l. l) ls pat st = Some i"
    using assms by (auto simp: seek_pass_def find_upt_Some simp del: upt_Suc)
  then show ?thesis using assms(2) \<open>i + length pat \<le> length ls\<close> by (simp add: seek_sequence_def)
qed

section \<open>Applying replacements is splicing\<close>

lemma remove_lines_eq: "i \<le> length ls \<Longrightarrow> remove_lines i n ls = take i ls @ drop (i + n) ls"
proof (induction n arbitrary: ls)
  case (Suc n)
  then show ?case by (cases "i < length ls") (simp_all add: min_def add.commute)
qed simp

lemma insert_lines_eq: "i \<le> length ls \<Longrightarrow> insert_lines i new ls = Some (take i ls @ new @ drop i ls)"
proof (induction new arbitrary: i ls)
  case (Cons x new)
  have "insert_lines i (x # new) ls = insert_lines (Suc i) new (take i ls @ x # drop i ls)"
    using Cons.prems by (simp add: vec_insert_def)
  also have "\<dots> = Some (take i ls @ (x # new) @ drop i ls)"
    using Cons.prems by (subst Cons.IH) (auto simp: min_def)
  finally show ?case .
qed simp

lemma replace_at_eq: "i \<le> length ls \<Longrightarrow> replace_at (i, n, new) ls = Some (take i ls @ new @ drop (i + n) ls)"
  by (simp add: replace_at_def remove_lines_eq insert_lines_eq)

lemma replace_each_append: "replace_each (rs @ qs) ls = Option.bind (replace_each rs ls) (replace_each qs)"
  by (induction rs arbitrary: ls) (auto split: Option.bind_splits)

lemma apply_replacements_Cons:
  "apply_replacements ls (r # rs) = Option.bind (apply_replacements ls rs) (replace_at r)"
  by (auto simp: apply_replacements_def replace_each_append split: Option.bind_splits)

text \<open>Replacements sorted by their place, each place within the lines, never index out of range.\<close>

lemma apply_replacements_total:
  "sorted (map fst rs) \<Longrightarrow> \<forall>r \<in> set rs. fst r \<le> length ls \<Longrightarrow> \<exists>ls'. apply_replacements ls rs = Some ls'"
proof (induction rs arbitrary: ls rule: rev_induct)
  case Nil
  then show ?case by (simp add: apply_replacements_def)
next
  case (snoc r rs)
  obtain i n new where r: "r = (i, n, new)" by (cases r)
  let ?ls = "take i ls @ new @ drop (i + n) ls"
  have "\<forall>q \<in> set rs. fst q \<le> i" using snoc.prems(1) r by (auto simp: sorted_append)
  moreover have "i \<le> length ?ls" using snoc.prems(2) r by simp
  ultimately have "\<exists>ls'. apply_replacements ?ls rs = Some ls'"
    using snoc.prems(1) by (intro snoc.IH) (auto simp: sorted_append)
  moreover have "apply_replacements ls (rs @ [r]) = apply_replacements ?ls rs"
    using snoc.prems(2) r by (simp add: apply_replacements_def replace_at_eq)
  ultimately show ?case by simp
qed

text \<open>The reference: copy the lines between the replacements from left to right.\<close>

fun splice_lines :: "nat \<Rightarrow> 'a list \<Rightarrow> (nat \<times> nat \<times> 'a list) list \<Rightarrow> 'a list" where
  "splice_lines pos ls [] = drop pos ls"
| "splice_lines pos ls ((i, n, new) # rs) = take (i - pos) (drop pos ls) @ new @ splice_lines (i + n) ls rs"

text \<open>Replacements in order that do not overlap.\<close>

fun ordered_from :: "nat \<Rightarrow> nat \<Rightarrow> (nat \<times> nat \<times> 'a list) list \<Rightarrow> bool" where
  "ordered_from pos len [] \<longleftrightarrow> pos \<le> len"
| "ordered_from pos len ((i, n, new) # rs) \<longleftrightarrow> pos \<le> i \<and> ordered_from (i + n) len rs"

lemma ordered_from_le: "ordered_from pos len rs \<Longrightarrow> pos \<le> len"
  by (induction pos len rs rule: ordered_from.induct) auto

lemma ordered_from_sorted: "ordered_from pos len rs \<Longrightarrow> sorted (map fst rs) \<and> (\<forall>r \<in> set rs. pos \<le> fst r)"
  by (induction pos len rs rule: ordered_from.induct) auto

lemma apply_replacements_splice_from:
  "ordered_from pos (length ls) rs \<Longrightarrow> apply_replacements ls rs = Some (take pos ls @ splice_lines pos ls rs)"
proof (induction rs arbitrary: pos)
  case Nil
  then show ?case by (simp add: apply_replacements_def)
next
  case (Cons r rs)
  obtain i n new where r: "r = (i, n, new)" by (cases r)
  with Cons.prems have i: "pos \<le> i" "i + n \<le> length ls" "ordered_from (i + n) (length ls) rs"
    by (auto dest: ordered_from_le)
  have "take pos ls @ take (i - pos) (drop pos ls) = take i ls"
    using i(1) by (metis le_add_diff_inverse take_add)
  moreover have "apply_replacements ls (r # rs) = replace_at r (take (i + n) ls @ splice_lines (i + n) ls rs)"
    by (simp add: apply_replacements_Cons Cons.IH [OF i(3)])
  ultimately show ?case using i by (simp add: r replace_at_eq min_def)
qed

section \<open>What a chunk replaces\<close>

lemma sort_key_sorted: "sorted (map f xs) \<Longrightarrow> sort_key f xs = xs"
  by (induction xs) (auto simp: insort_is_Cons)

lemma context_index_bounds:
  assumes "context_index ls ctx st = Some i" and "st \<le> length ls"
  shows "st \<le> i \<and> i \<le> length ls"
  using assms seek_sequence_sound [of ls _ st False]
  by (fastforce simp: context_index_def split: option.splits)

text \<open>A replacement stands for a chunk: what it removes agrees with the old lines, what it puts there are the new ones.\<close>

definition chunk_edit :: "string list \<Rightarrow> UpdateFileChunk \<Rightarrow> Replacement \<Rightarrow> bool" where
  "chunk_edit ls ch rep \<longleftrightarrow>
     (case rep of (i, n, new) \<Rightarrow>
        lines_match (take n (drop i ls)) (old_lines ch) \<and> new = new_lines ch
        \<or> last_is_empty (old_lines ch) \<and> lines_match (take n (drop i ls)) (butlast (old_lines ch))
          \<and> new = (if last_is_empty (new_lines ch) then butlast (new_lines ch) else new_lines ch))"

lemma locate_chunk_sound:
  assumes "locate_chunk ls ch st = Some (i, n, new)" and "st \<le> length ls"
  shows "i + n \<le> length ls" and "chunk_edit ls ch (i, n, new)" and "\<not> is_end_of_file ch \<Longrightarrow> st \<le> i"
proof -
  have "i + n \<le> length ls \<and> chunk_edit ls ch (i, n, new) \<and> (\<not> is_end_of_file ch \<longrightarrow> st \<le> i)"
  proof (cases "seek_sequence ls (old_lines ch) st (is_end_of_file ch)")
    case (Some j)
    with assms(1) have "j = i" "n = length (old_lines ch)" "new = new_lines ch" by (auto simp: locate_chunk_def)
    with seek_sequence_sound [OF Some assms(2)] show ?thesis by (auto simp: chunk_edit_def)
  next
    case None
    let ?pat = "butlast (old_lines ch)"
    from None assms(1) have j: "seek_sequence ls ?pat st (is_end_of_file ch) = Some i" and "n = length ?pat"
      and "last_is_empty (old_lines ch)"
      and "new = (if last_is_empty (new_lines ch) then butlast (new_lines ch) else new_lines ch)"
      by (auto simp: locate_chunk_def Let_def split: if_splits)
    with seek_sequence_sound [OF j assms(2)] show ?thesis by (auto simp: chunk_edit_def)
  qed
  then show "i + n \<le> length ls" and "chunk_edit ls ch (i, n, new)" and "\<not> is_end_of_file ch \<Longrightarrow> st \<le> i" by auto
qed

lemma compute_loop_bounds:
  "compute_loop ls path chunks st = Inr rs \<Longrightarrow> st \<le> length ls \<Longrightarrow> \<forall>r \<in> set rs. fst r \<le> length ls"
proof (induction chunks arbitrary: st rs)
  case (Cons ch chunks)
  obtain st' where st': "context_index ls (change_context ch) st = Some st'" "st' \<le> length ls"
    using Cons.prems context_index_bounds by (auto split: option.splits)
  show ?case
  proof (cases "old_lines ch = []")
    case True
    with Cons.prems(1) st'(1) obtain i qs where "rs = (i, 0, new_lines ch) # qs" "i \<le> length ls"
      and "compute_loop ls path chunks st' = Inr qs"
      by (auto simp: Let_def split: sum.splits if_splits)
    with Cons.IH st'(2) show ?thesis by auto
  next
    case False
    with Cons.prems(1) st'(1) obtain i n new qs where loc: "locate_chunk ls ch st' = Some (i, n, new)"
      and "rs = (i, n, new) # qs" and "compute_loop ls path chunks (i + n) = Inr qs"
      by (auto split: sum.splits option.splits)
    with Cons.IH locate_chunk_sound(1) [OF loc st'(2)] show ?thesis by auto
  qed
qed simp

text \<open>
  Applying the chunks of an update never panics: whatever the file and the chunks hold, every replacement
  starts within the file and they are applied from the last to the first, so that no removal and no
  insertion is out of range; the function returns a new text or an error.
\<close>

theorem derive_new_contents_total:
  "\<exists>r. derive_new_contents content path chunks = Some r"
proof (cases "compute_replacements (content_lines content) path chunks")
  case (Inl e)
  then show ?thesis by (simp add: derive_new_contents_def)
next
  case (Inr rs)
  then obtain qs where qs: "compute_loop (content_lines content) path chunks 0 = Inr qs" "rs = sort_key fst qs"
    by (auto simp: compute_replacements_def split: sum.splits)
  then have "\<forall>r \<in> set rs. fst r \<le> length (content_lines content)"
    using compute_loop_bounds [OF qs(1)] by simp
  then obtain ls where "apply_replacements (content_lines content) rs = Some ls"
    using apply_replacements_total [of rs] qs(2) by auto
  with Inr show ?thesis by (simp add: derive_new_contents_def)
qed

text \<open>A chunk that removes or keeps at least one line and is not tied to the end of the file.\<close>

definition anchored :: "UpdateFileChunk \<Rightarrow> bool" where
  "anchored ch \<longleftrightarrow> old_lines ch \<noteq> [] \<and> \<not> is_end_of_file ch"

lemma compute_loop_anchored:
  "compute_loop ls path chunks st = Inr rs \<Longrightarrow> st \<le> length ls \<Longrightarrow> list_all anchored chunks \<Longrightarrow>
     ordered_from st (length ls) rs \<and> list_all2 (chunk_edit ls) chunks rs"
proof (induction chunks arbitrary: st rs)
  case (Cons ch chunks)
  obtain st' where st': "context_index ls (change_context ch) st = Some st'" "st \<le> st'" "st' \<le> length ls"
    using Cons.prems context_index_bounds by (auto split: option.splits)
  obtain i n new qs where loc: "locate_chunk ls ch st' = Some (i, n, new)"
    and rs: "rs = (i, n, new) # qs" and qs: "compute_loop ls path chunks (i + n) = Inr qs"
    using Cons.prems st'(1) by (auto simp: anchored_def split: sum.splits option.splits)
  note sound = locate_chunk_sound [OF loc st'(3)]
  from Cons.IH [OF qs sound(1)] Cons.prems(3) rs sound st' show ?case by (auto simp: anchored_def)
qed simp

text \<open>
  C26: An update whose chunks are all anchored (each has a line to look for, none is marked with the end of the file)
  changes what its chunks name and nothing else. When it succeeds, it is one replacement per chunk, in
  the order of the chunks and without overlap; what each removes agrees with the old lines of its chunk under one of the
  four comparisons (up to a final empty line), what it puts there are the chunk's new lines; and the new text is the
  old one with exactly those blocks exchanged, read from left to right. Without the hypothesis a chunk at the end of the
  file can overlap an earlier one and lose its change (\<open>eof_chunk_lost\<close>).
\<close>

theorem update_edits_only_matches:
  assumes "list_all anchored chunks" and "derive_new_contents content path chunks = Some (Inr new)"
  shows "\<exists>rs. list_all2 (chunk_edit (content_lines content)) chunks rs
     \<and> ordered_from 0 (length (content_lines content)) rs
     \<and> new = content_of_lines (splice_lines 0 (content_lines content) rs)"
proof -
  let ?ls = "content_lines content"
  from assms(2) obtain qs ls' where qs: "compute_loop ?ls path chunks 0 = Inr qs"
    and ls': "apply_replacements ?ls (sort_key fst qs) = Some ls'" "new = content_of_lines ls'"
    by (auto simp: derive_new_contents_def compute_replacements_def Let_def split: sum.splits)
  from compute_loop_anchored [OF qs _ assms(1)]
  have ord: "ordered_from 0 (length ?ls) qs" and edits: "list_all2 (chunk_edit ?ls) chunks qs" by auto
  have "sort_key fst qs = qs" using ordered_from_sorted [OF ord] by (simp add: sort_key_sorted)
  with ls' apply_replacements_splice_from [OF ord] have "new = content_of_lines (splice_lines 0 ?ls qs)" by simp
  with ord edits show ?thesis by blast
qed

section \<open>Concrete updates\<close>

definition edit_chunk :: "string list \<Rightarrow> string list \<Rightarrow> bool \<Rightarrow> UpdateFileChunk" where
  "edit_chunk os ns eof = \<lparr>change_context = None, old_lines = os, new_lines = ns, is_end_of_file = eof\<rparr>"

lemma update_edits_only_matches_witness:
  "\<exists>rs. list_all2 (chunk_edit [''a'', ''b  '', ''c'']) [edit_chunk [''b''] [''x'', ''y''] False] rs
     \<and> ordered_from 0 3 rs
     \<and> ''a'' @ [nl] @ ''x'' @ [nl] @ ''y'' @ [nl] @ ''c'' @ [nl] = content_of_lines (splice_lines 0 [''a'', ''b  '', ''c''] rs)"
proof -
  let ?c = "''a'' @ [nl] @ ''b  '' @ [nl] @ ''c'' @ [nl]"
  have "derive_new_contents ?c ''f'' [edit_chunk [''b''] [''x'', ''y''] False]
    = Some (Inr (''a'' @ [nl] @ ''x'' @ [nl] @ ''y'' @ [nl] @ ''c'' @ [nl]))"
    by code_simp
  moreover have "content_lines ?c = [''a'', ''b  '', ''c'']" by (simp add: content_lines_def last_is_empty_def)
  ultimately show ?thesis
    using update_edits_only_matches [of "[edit_chunk [''b''] [''x'', ''y''] False]" ?c "''f''"]
    by (simp add: anchored_def edit_chunk_def numeral_3_eq_3)
qed

text \<open>
  A search at the end of the file does not fall back to the start: the lines of a chunk marked with the
  end of the file that occur only before the end are not found.
\<close>

lemma eof_search_no_fallback:
  "seek_sequence [''a'', ''b'', ''c''] [''a''] 0 False = Some 0 \<and> seek_sequence [''a'', ''b'', ''c''] [''a''] 0 True = None"
  by code_simp

text \<open>
  A chunk tied to the end of the file may match lines that an earlier chunk has already replaced; the
  update succeeds and the change of the later chunk is lost.
\<close>

lemma eof_chunk_lost:
  "derive_new_contents (''a'' @ [nl] @ ''b'' @ [nl]) ''f''
     [edit_chunk [''a'', ''b''] [''x'', ''y''] False, edit_chunk [''b''] [''z''] True]
   = Some (Inr (''x'' @ [nl] @ ''y'' @ [nl]))"
  by code_simp

text \<open>The documented form with several context lines in a row is refused.\<close>

lemma second_context_line_refused:
  "parse_patch (''*** Begin Patch'' @ [nl] @ ''*** Update File: f'' @ [nl] @ ''@@ class B'' @ [nl] @
      ''@@ def m():'' @ [nl] @ ''-x'' @ [nl] @ ''+y'' @ [nl] @ ''*** End Patch'')
   = Inl (InvalidHunkError (unexpected_line ''@@ def m():'') 4)"
  by code_simp

text \<open>A first line of an update that is no change line is line 3 of this patch; the error says line 4.\<close>

lemma unexpected_line_number_off:
  "parse_patch (''*** Begin Patch'' @ [nl] @ ''*** Update File: f'' @ [nl] @ ''x'' @ [nl] @ ''*** End Patch'')
   = Inl (InvalidHunkError (unexpected_line ''x'') 4)"
  by code_simp

end
