(* ===== verification/Patch_Tool.thy ===== *)
theory Patch_Tool
  imports Apply_Patch
begin

text \<open>
  The apply-patch tool itself: \<open>tool.rs\<close> of
  \<open>crates/codegen/xai-grok-tools/src/implementations/codex/apply_patch\<close>. The file system is a parameter, the
  operations of the \<open>AsyncFileSystem\<close> trait and \<open>tokio::fs::create_dir_all\<close> as functions on a world
  of their own; a run passes the world along and collects the notifications. The tool parses, then
  computes every change in memory, then writes.
\<close>

section \<open>Decoding a file\<close>

text \<open>
  \<open>String::from_utf8_lossy\<close>: a well-formed character is kept; the longest start of one that cannot be
  completed, or one stray byte, becomes U+FFFD. \<open>utf8_width\<close> is the number of bytes to take, and whether
  they are a character.
\<close>

definition cont_byte :: "nat \<Rightarrow> nat \<Rightarrow> string \<Rightarrow> bool" where
  "cont_byte lo hi s \<longleftrightarrow> s \<noteq> [] \<and> byte_between lo hi (hd s)"

abbreviation any_cont :: "string \<Rightarrow> bool" where "any_cont \<equiv> cont_byte 0x80 0xBF"

definition second_byte :: "nat \<Rightarrow> string \<Rightarrow> bool" where
  "second_byte b s \<longleftrightarrow>
     (if b = 0xE0 then cont_byte 0xA0 0xBF s
      else if b = 0xED then cont_byte 0x80 0x9F s
      else if b = 0xF0 then cont_byte 0x90 0xBF s
      else if b = 0xF4 then cont_byte 0x80 0x8F s
      else any_cont s)"

definition utf8_width :: "char \<Rightarrow> string \<Rightarrow> nat \<times> bool" where
  "utf8_width c s =
     (let b = (of_char c :: nat) in
      if b < 0x80 then (1, True)
      else if 0xC2 \<le> b \<and> b \<le> 0xDF then (if any_cont s then (2, True) else (1, False))
      else if 0xE0 \<le> b \<and> b \<le> 0xEF
      then (if \<not> second_byte b s then (1, False)
            else if \<not> any_cont (drop 1 s) then (2, False) else (3, True))
      else if 0xF0 \<le> b \<and> b \<le> 0xF4
      then (if \<not> second_byte b s then (1, False)
            else if \<not> any_cont (drop 1 s) then (2, False)
            else if \<not> any_cont (drop 2 s) then (3, False) else (4, True))
      else (1, False))"

fun from_utf8_lossy :: "string \<Rightarrow> string" where
  "from_utf8_lossy [] = []"
| "from_utf8_lossy (c # s) =
     (case utf8_width c s of (n, ok) \<Rightarrow>
        (if ok then take n (c # s) else [CHR 0xEF, CHR 0xBF, CHR 0xBD]) @ from_utf8_lossy (drop (n - 1) s))"

section \<open>Data\<close>

datatype FileChange =
    FileAdd string string
  | FileDelete string string
  | FileUpdate string string string
  | FileMove string string string string

record FileWritten =
  fw_absolute_path :: string
  fw_content :: string
  fw_previous_content :: "string option"
  fw_is_new_file :: bool

record ApplyPatchFileResult =
  pr_path :: string
  pr_action :: string
  pr_old_text :: "string option"
  pr_new_text :: string
  pr_move_to :: "string option"

datatype ApplyPatchOutput =
    PatchSuccess "ApplyPatchFileResult list" string
  | PatchParseError string
  | ApplicationError string
  | EmptyPatch string

text \<open>The operations of the file system on a world; an error is its printed form.\<close>

record 'w patch_fs =
  fs_read :: "'w \<Rightarrow> string \<Rightarrow> string + string"
  fs_write :: "string \<Rightarrow> string \<Rightarrow> 'w \<Rightarrow> (string option \<times> 'w)"
  fs_delete :: "string \<Rightarrow> 'w \<Rightarrow> (string option \<times> 'w)"
  fs_create_dir_all :: "string \<Rightarrow> 'w \<Rightarrow> (string option \<times> 'w)"

section \<open>Computing the changes\<close>

definition read_file_as_string :: "'w patch_fs \<Rightarrow> 'w \<Rightarrow> string \<Rightarrow> string + string" where
  "read_file_as_string fs w path =
     (case fs_read fs w path of Inl e \<Rightarrow> Inl e | Inr data \<Rightarrow> Inr (from_utf8_lossy data))"

text \<open>\<open>ApplyPatchError::to_string\<close>, of which only one variant reaches the tool.\<close>

fun parse_error_text :: "ParseError \<Rightarrow> string" where
  "parse_error_text (InvalidPatchError m) = ''invalid patch: '' @ m"
| "parse_error_text (InvalidHunkError m n) = ''invalid hunk at line '' @ to_decimal n @ '', '' @ m"

fun apply_error_text :: "ApplyPatchError \<Rightarrow> string" where
  "apply_error_text (ComputeReplacements msg) = msg"
| "apply_error_text (Parse e) = parse_error_text e"
| "apply_error_text (Io context message _) = context @ '': '' @ message"

text \<open>\<open>None\<close> is a panic of \<open>derive_new_contents\<close>.\<close>

definition compute_change :: "string \<Rightarrow> 'w patch_fs \<Rightarrow> 'w \<Rightarrow> Hunk \<Rightarrow> (string + FileChange) option" where
  "compute_change cwd fs w hunk =
     (case hunk of
        AddFile path contents \<Rightarrow> Some (Inr (FileAdd (path_join cwd path) contents))
      | DeleteFile path \<Rightarrow>
          (let resolved = path_join cwd path in
           case read_file_as_string fs w resolved of
             Inl e \<Rightarrow> Some (Inl (''Failed to read file: '' @ resolved @ '', '' @ e))
           | Inr original_content \<Rightarrow> Some (Inr (FileDelete resolved original_content)))
      | UpdateFile path move_path chunks \<Rightarrow>
          (let resolved = path_join cwd path in
           case read_file_as_string fs w resolved of
             Inl e \<Rightarrow> Some (Inl (''Failed to read file to update: '' @ resolved @ '', '' @ e))
           | Inr original_content \<Rightarrow>
               (case derive_new_contents original_content resolved chunks of
                  None \<Rightarrow> None
                | Some (Inl e) \<Rightarrow> Some (Inl (apply_error_text e))
                | Some (Inr new_content) \<Rightarrow>
                    Some (Inr (case move_path of
                                 Some dest \<Rightarrow> FileMove resolved (path_join cwd dest) original_content new_content
                               | None \<Rightarrow> FileUpdate resolved original_content new_content)))))"

fun compute_all_changes ::
    "string \<Rightarrow> 'w patch_fs \<Rightarrow> 'w \<Rightarrow> Hunk list \<Rightarrow> (string + FileChange list) option" where
  "compute_all_changes cwd fs w [] = Some (Inr [])"
| "compute_all_changes cwd fs w (hunk # hunks) =
     (case compute_change cwd fs w hunk of
        None \<Rightarrow> None
      | Some (Inl e) \<Rightarrow> Some (Inl e)
      | Some (Inr change) \<Rightarrow>
          (case compute_all_changes cwd fs w hunks of
             None \<Rightarrow> None
           | Some (Inl e) \<Rightarrow> Some (Inl e)
           | Some (Inr changes) \<Rightarrow> Some (Inr (change # changes))))"

section \<open>Writing the changes\<close>

definition ensure_parent_dirs :: "'w patch_fs \<Rightarrow> string \<Rightarrow> 'w \<Rightarrow> string option \<times> 'w" where
  "ensure_parent_dirs fs path w =
     (case path_parent path of
        Some parent \<Rightarrow> if parent \<noteq> [] then fs_create_dir_all fs parent w else (None, w)
      | None \<Rightarrow> (None, w))"

text \<open>Two operations in sequence, the second only after success of the first: the \<open>?\<close> of the source.\<close>

definition and_then ::
    "('w \<Rightarrow> string option \<times> 'w) \<Rightarrow> ('w \<Rightarrow> string option \<times> 'w) \<Rightarrow> 'w \<Rightarrow> string option \<times> 'w" where
  "and_then f g w = (case f w of (Some e, w1) \<Rightarrow> (Some e, w1) | (None, w1) \<Rightarrow> g w1)"

fun write_change :: "'w patch_fs \<Rightarrow> FileChange \<Rightarrow> 'w \<Rightarrow> string option \<times> 'w" where
  "write_change fs (FileAdd path content) =
     and_then (ensure_parent_dirs fs path) (fs_write fs path content)"
| "write_change fs (FileDelete path original_content) = fs_delete fs path"
| "write_change fs (FileUpdate path original_content new_content) = fs_write fs path new_content"
| "write_change fs (FileMove source_path dest_path original_content new_content) =
     and_then (and_then (ensure_parent_dirs fs dest_path) (fs_write fs dest_path new_content))
       (fs_delete fs source_path)"

fun change_notifications :: "FileChange \<Rightarrow> FileWritten list" where
  "change_notifications (FileAdd path content) =
     [\<lparr>fw_absolute_path = path, fw_content = content, fw_previous_content = None, fw_is_new_file = True\<rparr>]"
| "change_notifications (FileDelete path original_content) =
     [\<lparr>fw_absolute_path = path, fw_content = [], fw_previous_content = Some original_content, fw_is_new_file = False\<rparr>]"
| "change_notifications (FileUpdate path original_content new_content) =
     [\<lparr>fw_absolute_path = path, fw_content = new_content, fw_previous_content = Some original_content,
       fw_is_new_file = False\<rparr>]"
| "change_notifications (FileMove source_path dest_path original_content new_content) =
     [\<lparr>fw_absolute_path = dest_path, fw_content = new_content, fw_previous_content = None, fw_is_new_file = True\<rparr>,
      \<lparr>fw_absolute_path = source_path, fw_content = [], fw_previous_content = Some original_content,
       fw_is_new_file = False\<rparr>]"

fun change_result :: "FileChange \<Rightarrow> ApplyPatchFileResult" where
  "change_result (FileAdd path content) =
     \<lparr>pr_path = path, pr_action = ''added'', pr_old_text = None, pr_new_text = content, pr_move_to = None\<rparr>"
| "change_result (FileDelete path original_content) =
     \<lparr>pr_path = path, pr_action = ''deleted'', pr_old_text = Some original_content, pr_new_text = [], pr_move_to = None\<rparr>"
| "change_result (FileUpdate path original_content new_content) =
     \<lparr>pr_path = path, pr_action = ''modified'', pr_old_text = Some original_content, pr_new_text = new_content,
      pr_move_to = None\<rparr>"
| "change_result (FileMove source_path dest_path original_content new_content) =
     \<lparr>pr_path = source_path, pr_action = ''moved'', pr_old_text = Some original_content, pr_new_text = new_content,
      pr_move_to = Some dest_path\<rparr>"

text \<open>Phase 3: an error of the file system ends the run, with what was written and sent before it.\<close>

fun write_all ::
    "'w patch_fs \<Rightarrow> FileChange list \<Rightarrow> 'w \<Rightarrow> (string + ApplyPatchFileResult list) \<times> 'w \<times> FileWritten list" where
  "write_all fs [] w = (Inr [], w, [])"
| "write_all fs (change # changes) w =
     (case write_change fs change w of
        (Some e, w1) \<Rightarrow> (Inl e, w1, [])
      | (None, w1) \<Rightarrow>
          (case write_all fs changes w1 of
             (Inl e, w2, sent) \<Rightarrow> (Inl e, w2, change_notifications change @ sent)
           | (Inr results, w2, sent) \<Rightarrow>
               (Inr (change_result change # results), w2, change_notifications change @ sent)))"

definition build_summary :: "ApplyPatchFileResult list \<Rightarrow> string" where
  "build_summary results =
     ''Success. Updated the following files:'' @ [nl] @
     concat (map (\<lambda>r. (if pr_action r = ''added'' then ''A'' else if pr_action r = ''deleted'' then ''D'' else ''M'')
                      @ '' '' @ pr_path r @ [nl]) results)"

section \<open>The run\<close>

fun parse_error_message :: "ParseError \<Rightarrow> string" where
  "parse_error_message (InvalidPatchError m) = ''Invalid patch: '' @ m"
| "parse_error_message (InvalidHunkError message line_number) =
     ''Invalid patch hunk on line '' @ to_decimal line_number @ '': '' @ message"

text \<open>\<open>Inl\<close> is a \<open>ToolError\<close>; \<open>None\<close> would be a panic.\<close>

definition run_apply_patch ::
    "string \<Rightarrow> 'w patch_fs \<Rightarrow> string \<Rightarrow> 'w \<Rightarrow> ((string + ApplyPatchOutput) \<times> 'w \<times> FileWritten list) option" where
  "run_apply_patch cwd fs patch w =
     (case parse_patch patch of
        Inl e \<Rightarrow> Some (Inr (PatchParseError (parse_error_message e)), w, [])
      | Inr parsed \<Rightarrow>
          if pp_hunks parsed = [] then Some (Inr (EmptyPatch ''No files were modified.''), w, [])
          else (case compute_all_changes cwd fs w (pp_hunks parsed) of
                  None \<Rightarrow> None
                | Some (Inl msg) \<Rightarrow> Some (Inr (ApplicationError msg), w, [])
                | Some (Inr changes) \<Rightarrow>
                    (case write_all fs changes w of
                       (Inl e, w1, sent) \<Rightarrow> Some (Inl e, w1, sent)
                     | (Inr file_results, w1, sent) \<Rightarrow>
                         Some (Inr (PatchSuccess file_results (build_summary file_results)), w1, sent))))"

section \<open>What the tool relies on\<close>

text \<open>
  The documented effect of the file operations on files \<open>P\<close> with different names that are different files:
  a write that succeeds makes the file read as what was written, a removal makes it unreadable, and
  neither changes how another file reads; nor does the creation of directories.
\<close>

definition fs_laws :: "'w patch_fs \<Rightarrow> string set \<Rightarrow> bool" where
  "fs_laws fs P \<longleftrightarrow>
     (\<forall>p \<in> P. \<forall>c w w'. fs_write fs p c w = (None, w') \<longrightarrow>
        fs_read fs w' p = Inr c \<and> (\<forall>q \<in> P. q \<noteq> p \<longrightarrow> fs_read fs w' q = fs_read fs w q))
     \<and> (\<forall>p \<in> P. \<forall>w w'. fs_delete fs p w = (None, w') \<longrightarrow>
        (\<exists>e. fs_read fs w' p = Inl e) \<and> (\<forall>q \<in> P. q \<noteq> p \<longrightarrow> fs_read fs w' q = fs_read fs w q))
     \<and> (\<forall>d w r w'. fs_create_dir_all fs d w = (r, w') \<longrightarrow> (\<forall>q \<in> P. fs_read fs w' q = fs_read fs w q))"

fun change_paths :: "FileChange \<Rightarrow> string list" where
  "change_paths (FileAdd path _) = [path]"
| "change_paths (FileDelete path _) = [path]"
| "change_paths (FileUpdate path _ _) = [path]"
| "change_paths (FileMove source_path dest_path _ _) = [source_path, dest_path]"

fun change_done :: "'w patch_fs \<Rightarrow> 'w \<Rightarrow> FileChange \<Rightarrow> bool" where
  "change_done fs w (FileAdd path content) \<longleftrightarrow> fs_read fs w path = Inr content"
| "change_done fs w (FileDelete path _) \<longleftrightarrow> (\<exists>e. fs_read fs w path = Inl e)"
| "change_done fs w (FileUpdate path _ new_content) \<longleftrightarrow> fs_read fs w path = Inr new_content"
| "change_done fs w (FileMove source_path dest_path _ new_content) \<longleftrightarrow>
     fs_read fs w dest_path = Inr new_content \<and> (\<exists>e. fs_read fs w source_path = Inl e)"

lemma change_done_cong:
  "(\<And>p. p \<in> set (change_paths c) \<Longrightarrow> fs_read fs w p = fs_read fs w' p) \<Longrightarrow> change_done fs w c \<longleftrightarrow> change_done fs w' c"
  by (cases c) auto

lemma and_then_ok: "and_then f g w = (None, w') \<longleftrightarrow> (\<exists>w1. f w = (None, w1) \<and> g w1 = (None, w'))"
  by (auto simp: and_then_def split: prod.splits option.splits)

lemma ensure_parent_dirs_reads:
  "fs_laws fs P \<Longrightarrow> ensure_parent_dirs fs path w = (r, w') \<Longrightarrow> q \<in> P \<Longrightarrow> fs_read fs w' q = fs_read fs w q"
  by (auto simp: ensure_parent_dirs_def fs_laws_def split: option.splits if_splits)

lemma fs_write_reads:
  assumes "fs_laws fs P" and "p \<in> P" and "fs_write fs p c w = (None, w')"
  shows "fs_read fs w' p = Inr c" and "q \<in> P \<Longrightarrow> q \<noteq> p \<Longrightarrow> fs_read fs w' q = fs_read fs w q"
  using assms by (auto simp: fs_laws_def)

lemma fs_delete_reads:
  assumes "fs_laws fs P" and "p \<in> P" and "fs_delete fs p w = (None, w')"
  shows "\<exists>e. fs_read fs w' p = Inl e" and "q \<in> P \<Longrightarrow> q \<noteq> p \<Longrightarrow> fs_read fs w' q = fs_read fs w q"
  using assms unfolding fs_laws_def by blast+

lemma write_change_reads:
  assumes laws: "fs_laws fs P" and sub: "set (change_paths c) \<subseteq> P" and dist: "distinct (change_paths c)"
    and ok: "write_change fs c w = (None, w')"
  shows "change_done fs w' c" and "q \<in> P \<Longrightarrow> q \<notin> set (change_paths c) \<Longrightarrow> fs_read fs w' q = fs_read fs w q"
proof -
  note dirs = ensure_parent_dirs_reads [OF laws]
  note wr = fs_write_reads [OF laws] and del = fs_delete_reads [OF laws]
  have "change_done fs w' c \<and> (q \<in> P \<longrightarrow> q \<notin> set (change_paths c) \<longrightarrow> fs_read fs w' q = fs_read fs w q)"
  proof (cases c)
    case (FileAdd p t)
    with ok obtain w1 where "ensure_parent_dirs fs p w = (None, w1)" and "fs_write fs p t w1 = (None, w')"
      by (auto simp: and_then_ok)
    with FileAdd sub wr [of p t w1 w'] dirs show ?thesis by auto
  next
    case (FileDelete p t)
    with ok sub del [of p w w'] show ?thesis by auto
  next
    case (FileUpdate p t u)
    with ok sub wr [of p u w w'] show ?thesis by auto
  next
    case (FileMove p d t u)
    with ok obtain w1 w2 where w1: "ensure_parent_dirs fs d w = (None, w1)"
      and w2: "fs_write fs d u w1 = (None, w2)" and w3: "fs_delete fs p w2 = (None, w')"
      by (auto simp: and_then_ok)
    from FileMove sub dist wr [OF _ w2] del [OF _ w3] dirs [OF w1] show ?thesis by auto
  qed
  then show "change_done fs w' c" and "q \<in> P \<Longrightarrow> q \<notin> set (change_paths c) \<Longrightarrow> fs_read fs w' q = fs_read fs w q"
    by auto
qed

lemma write_all_reads:
  assumes laws: "fs_laws fs P"
  shows "write_all fs changes w = (Inr rs, w', sent) \<Longrightarrow> set (concat (map change_paths changes)) \<subseteq> P \<Longrightarrow>
     distinct (concat (map change_paths changes)) \<Longrightarrow>
     (\<forall>c \<in> set changes. change_done fs w' c)
     \<and> (\<forall>q \<in> P - set (concat (map change_paths changes)). fs_read fs w' q = fs_read fs w q)
     \<and> rs = map change_result changes \<and> sent = concat (map change_notifications changes)"
proof (induction changes arbitrary: w rs sent)
  case (Cons c cs)
  from Cons.prems(1) obtain w1 rs1 sent1 where w1: "write_change fs c w = (None, w1)"
    and rest: "write_all fs cs w1 = (Inr rs1, w', sent1)"
    and out: "rs = change_result c # rs1" "sent = change_notifications c @ sent1"
    by (auto split: prod.splits option.splits sum.splits)
  have sub: "set (change_paths c) \<subseteq> P" and dist: "distinct (change_paths c)"
    and disj: "set (change_paths c) \<inter> set (concat (map change_paths cs)) = {}"
    using Cons.prems(2,3) by auto
  note first = write_change_reads [OF laws sub dist w1]
  note later = Cons.IH [OF rest]
  have frame: "fs_read fs w' q = fs_read fs w1 q" if "q \<in> P" "q \<notin> set (concat (map change_paths cs))" for q
    using later Cons.prems(2,3) that by auto
  have "change_done fs w' c"
    using first(1) change_done_cong [of c fs w' w1] frame sub disj by (auto simp: disjoint_iff)
  moreover have "fs_read fs w' q = fs_read fs w q" if "q \<in> P - set (concat (map change_paths (c # cs)))" for q
    using that frame [of q] first(2) [of q] by simp
  ultimately show ?case using later Cons.prems(2,3) out by auto
qed simp

section \<open>What a run does\<close>

text \<open>The files a hunk names, and the state of the file system that it asks for.\<close>

fun hunk_paths :: "string \<Rightarrow> Hunk \<Rightarrow> string list" where
  "hunk_paths cwd (AddFile path _) = [path_join cwd path]"
| "hunk_paths cwd (DeleteFile path) = [path_join cwd path]"
| "hunk_paths cwd (UpdateFile path move_path _) =
     path_join cwd path # (case move_path of None \<Rightarrow> [] | Some dest \<Rightarrow> [path_join cwd dest])"

fun hunk_done :: "string \<Rightarrow> 'w patch_fs \<Rightarrow> 'w \<Rightarrow> 'w \<Rightarrow> Hunk \<Rightarrow> bool" where
  "hunk_done cwd fs w w' (AddFile path contents) \<longleftrightarrow> fs_read fs w' (path_join cwd path) = Inr contents"
| "hunk_done cwd fs w w' (DeleteFile path) \<longleftrightarrow> (\<exists>e. fs_read fs w' (path_join cwd path) = Inl e)"
| "hunk_done cwd fs w w' (UpdateFile path move_path chunks) \<longleftrightarrow>
     (\<exists>data new_content. fs_read fs w (path_join cwd path) = Inr data
        \<and> derive_new_contents (from_utf8_lossy data) (path_join cwd path) chunks = Some (Inr new_content)
        \<and> (case move_path of
              None \<Rightarrow> fs_read fs w' (path_join cwd path) = Inr new_content
            | Some dest \<Rightarrow> fs_read fs w' (path_join cwd dest) = Inr new_content
                \<and> (\<exists>e. fs_read fs w' (path_join cwd path) = Inl e)))"

lemma derive_not_None: "derive_new_contents c p chs = None \<longleftrightarrow> False"
  using derive_new_contents_total [of c p chs] by auto

lemma compute_change_None: "compute_change cwd fs w h = None \<longleftrightarrow> False"
  by (auto simp: compute_change_def Let_def derive_not_None split: Hunk.splits sum.splits option.splits)

lemma compute_all_changes_None: "compute_all_changes cwd fs w hs = None \<longleftrightarrow> False"
  by (induction hs) (auto simp: compute_change_None split: option.splits sum.splits)

lemma compute_all_changes_each:
  "compute_all_changes cwd fs w hs = Some (Inr cs) \<Longrightarrow> list_all2 (\<lambda>h c. compute_change cwd fs w h = Some (Inr c)) hs cs"
  by (induction hs arbitrary: cs) (auto split: option.splits sum.splits)

lemma compute_change_paths: "compute_change cwd fs w h = Some (Inr c) \<Longrightarrow> change_paths c = hunk_paths cwd h"
  by (auto simp: compute_change_def Let_def split: Hunk.splits sum.splits option.splits)

lemma change_done_hunk:
  "compute_change cwd fs w h = Some (Inr c) \<Longrightarrow> change_done fs w' c \<Longrightarrow> hunk_done cwd fs w w' h"
  by (auto simp: compute_change_def Let_def read_file_as_string_def
      split: Hunk.splits sum.splits option.splits)

lemma run_Success:
  assumes "run_apply_patch cwd fs patch w = Some (Inr (PatchSuccess results summary), w', sent)"
  obtains parsed changes where "parse_patch patch = Inr parsed" and "pp_hunks parsed \<noteq> []"
    and "compute_all_changes cwd fs w (pp_hunks parsed) = Some (Inr changes)"
    and "write_all fs changes w = (Inr results, w', sent)" and "summary = build_summary results"
  using assms by (auto simp: run_apply_patch_def split: sum.splits if_splits option.splits prod.splits)

text \<open>
  C13: A run that reports success has done what the patch says. If the files the hunks name are different files,
  and the file system has the documented effects on a set of files that includes them, then after the run every
  added file reads as its contents, every deleted file and every source of a move is gone, and
  every updated file (or the destination of its move) reads as the text derived from the old one; every
  other file of the set reads as before.
\<close>

theorem successful_patch_is_applied:
  assumes run: "run_apply_patch cwd fs patch w = Some (Inr (PatchSuccess results summary), w', sent)"
    and parsed: "parse_patch patch = Inr parsed"
    and laws: "fs_laws fs P"
    and sub: "set (concat (map (hunk_paths cwd) (pp_hunks parsed))) \<subseteq> P"
    and dist: "distinct (concat (map (hunk_paths cwd) (pp_hunks parsed)))"
  shows "(\<forall>h \<in> set (pp_hunks parsed). hunk_done cwd fs w w' h)
     \<and> (\<forall>q \<in> P - set (concat (map (hunk_paths cwd) (pp_hunks parsed))). fs_read fs w' q = fs_read fs w q)"
proof -
  from run parsed obtain changes where
    comp: "compute_all_changes cwd fs w (pp_hunks parsed) = Some (Inr changes)"
    and wr: "write_all fs changes w = (Inr results, w', sent)"
    by (auto elim: run_Success)
  note each = compute_all_changes_each [OF comp]
  have "map change_paths changes = map (hunk_paths cwd) (pp_hunks parsed)"
    using each by (induction rule: list_all2_induct) (auto dest: compute_change_paths)
  then have paths: "concat (map change_paths changes) = concat (map (hunk_paths cwd) (pp_hunks parsed))" by simp
  have fin: "\<forall>c \<in> set changes. change_done fs w' c"
    and frame: "\<forall>q \<in> P - set (concat (map change_paths changes)). fs_read fs w' q = fs_read fs w q"
    using write_all_reads [OF laws wr] sub dist unfolding paths by auto
  have "hunk_done cwd fs w w' h" if h: "h \<in> set (pp_hunks parsed)" for h
  proof -
    from h obtain i where i: "i < length (pp_hunks parsed)" "h = pp_hunks parsed ! i" by (auto simp: in_set_conv_nth)
    then have "changes ! i \<in> set changes" "compute_change cwd fs w h = Some (Inr (changes ! i))"
      using each by (auto simp: list_all2_conv_all_nth)
    with fin show ?thesis by (intro change_done_hunk [where c = "changes ! i"]) auto
  qed
  with frame show ?thesis unfolding paths by blast
qed

text \<open>
  C14: A patch is either written or reported. A run never panics. If it ends with anything but success or an error of
  the file system while writing (a patch that does not parse, that is empty, that names a file that
  cannot be read, or whose context or old lines are not found), no file has been touched and
  no notification has been sent, even when earlier hunks of the patch would have applied.
\<close>

theorem failed_patch_touches_nothing:
  "\<exists>out w' sent. run_apply_patch cwd fs patch w = Some (out, w', sent)
     \<and> (case out of
          Inr (PatchSuccess _ _) \<Rightarrow> True
        | Inl _ \<Rightarrow> \<exists>parsed changes e. parse_patch patch = Inr parsed
            \<and> compute_all_changes cwd fs w (pp_hunks parsed) = Some (Inr changes)
            \<and> write_all fs changes w = (Inl e, w', sent)
        | _ \<Rightarrow> w' = w \<and> sent = [])"
proof (cases "parse_patch patch")
  case (Inl e)
  then show ?thesis by (simp add: run_apply_patch_def)
next
  case (Inr parsed)
  show ?thesis
  proof (cases "pp_hunks parsed = []")
    case True
    with Inr show ?thesis by (simp add: run_apply_patch_def)
  next
    case False
    consider (err) msg where "compute_all_changes cwd fs w (pp_hunks parsed) = Some (Inl msg)"
      | (ok) changes where "compute_all_changes cwd fs w (pp_hunks parsed) = Some (Inr changes)"
      using compute_all_changes_None by (metis option.exhaust sum.exhaust)
    then show ?thesis
    proof cases
      case err
      with Inr False show ?thesis by (simp add: run_apply_patch_def)
    next
      case ok
      obtain r w' sent where "write_all fs changes w = (r, w', sent)" by (metis prod.exhaust)
      with ok Inr False show ?thesis by (cases r) (simp_all add: run_apply_patch_def)
    qed
  qed
qed

section \<open>Concrete runs\<close>

text \<open>A file system in memory.\<close>

definition store_fs :: "(string \<Rightarrow> string option) patch_fs" where
  "store_fs =
     \<lparr>fs_read = (\<lambda>w p. case w p of None \<Rightarrow> Inl ''No such file'' | Some data \<Rightarrow> Inr data),
      fs_write = (\<lambda>p c w. (None, w(p \<mapsto> c))),
      fs_delete = (\<lambda>p w. case w p of None \<Rightarrow> (Some ''No such file'', w) | Some _ \<Rightarrow> (None, w(p := None))),
      fs_create_dir_all = (\<lambda>_ w. (None, w))\<rparr>"

lemma store_fs_laws: "fs_laws store_fs P"
  by (auto simp: fs_laws_def store_fs_def split: option.splits)

text \<open>The text of a patch, one line per element.\<close>

abbreviation patch_text :: "string list \<Rightarrow> string" where
  "patch_text body \<equiv> join [nl] (''*** Begin Patch'' # body @ [''*** End Patch''])"

definition demo_patch :: string where
  "demo_patch = patch_text [''*** Add File: n'', ''+new'', ''*** Update File: u'', ''@@'', ''-a'', ''+b'', ''*** Delete File: d'']"

definition demo_store :: "string \<Rightarrow> string option" where
  "demo_store = [''/w/u'' \<mapsto> ''a'' @ [nl], ''/w/d'' \<mapsto> ''x'', ''/w/k'' \<mapsto> ''k'']"

lemma demo_parsed:
  "parse_patch demo_patch = Inr \<lparr>pp_hunks = [AddFile ''n'' (''new'' @ [nl]),
     UpdateFile ''u'' None [edit_chunk [''a''] [''b''] False], DeleteFile ''d''], pp_patch = demo_patch\<rparr>"
  by code_simp

lemma demo_derived: "derive_new_contents (''a'' @ [nl]) ''/w/u'' [edit_chunk [''a''] [''b''] False] = Some (Inr (''b'' @ [nl]))"
  by code_simp

lemma lossy_values: "from_utf8_lossy [] = []" "from_utf8_lossy (''a'' @ [nl]) = ''a'' @ [nl]" "from_utf8_lossy ''x'' = ''x''"
  by code_simp+

lemma demo_run:
  "\<exists>results summary sent. run_apply_patch ''/w'' store_fs demo_patch demo_store
     = Some (Inr (PatchSuccess results summary), demo_store(''/w/n'' \<mapsto> ''new'' @ [nl], ''/w/u'' \<mapsto> ''b'' @ [nl], ''/w/d'' := None), sent)"
proof -
  have "path_parent ''/w/n'' = Some ''/w''" by code_simp
  then show ?thesis
    using demo_derived lossy_values
    by (simp add: run_apply_patch_def demo_parsed compute_change_def path_push_def is_absolute_def read_file_as_string_def
        store_fs_def demo_store_def and_then_def ensure_parent_dirs_def)
qed

lemma successful_patch_is_applied_witness:
  "fs_read store_fs (demo_store(''/w/n'' \<mapsto> ''new'' @ [nl], ''/w/u'' \<mapsto> ''b'' @ [nl], ''/w/d'' := None)) ''/w/k''
   = fs_read store_fs demo_store ''/w/k''"
proof -
  obtain results summary sent where run: "run_apply_patch ''/w'' store_fs demo_patch demo_store
     = Some (Inr (PatchSuccess results summary), demo_store(''/w/n'' \<mapsto> ''new'' @ [nl], ''/w/u'' \<mapsto> ''b'' @ [nl], ''/w/d'' := None), sent)"
    using demo_run by blast
  from successful_patch_is_applied [OF run demo_parsed store_fs_laws [of UNIV]]
  show ?thesis by (simp add: path_push_def is_absolute_def)
qed

text \<open>The outcome of a run for one file: whether success was reported, and what the file holds afterwards.\<close>

definition run_on :: "string \<Rightarrow> string \<Rightarrow> (bool \<times> string option) option" where
  "run_on data patch =
     (case run_apply_patch ''/w'' store_fs patch [''/w/u'' \<mapsto> data] of
        Some (Inr (PatchSuccess _ _), w', _) \<Rightarrow> Some (True, w' ''/w/u'')
      | Some (_, w', _) \<Rightarrow> Some (False, w' ''/w/u'')
      | None \<Rightarrow> None)"

text \<open>
  Bytes that are not UTF-8, outside of the lines that a patch names, are replaced in the file by U+FFFD.
\<close>

lemma update_rewrites_other_bytes:
  "run_on [CHR 0xE9, nl, CHR ''a'', nl] (patch_text [''*** Update File: u'', ''@@'', ''-a'', ''+b''])
   = Some (True, Some [CHR 0xEF, CHR 0xBF, CHR 0xBD, nl, CHR ''b'', nl])"
  by code_simp

text \<open>Two updates of one file in one patch are both reported as done; the first one is lost.\<close>

lemma second_update_discards_first:
  "run_on (''a'' @ [nl] @ ''c'' @ [nl])
     (patch_text [''*** Update File: u'', ''@@'', ''-a'', ''+b'', ''*** Update File: u'', ''@@'', ''-c'', ''+d''])
   = Some (True, Some (''a'' @ [nl] @ ''d'' @ [nl]))"
  by code_simp

text \<open>A move of a file to its own path deletes it.\<close>

lemma move_onto_itself_deletes:
  "run_on (''a'' @ [nl]) (patch_text [''*** Update File: u'', ''*** Move to: u'', ''@@'', ''-a'', ''+b'']) = Some (True, None)"
  by code_simp

end
