(* ===== verification/Scheduler.thy ===== *)
theory Scheduler
  imports Bash_Script
begin

text \<open>
  The scheduler of recurring prompts: its intervals, tasks and version clock. Sources:
  \<open>interval.rs\<close> and \<open>types.rs\<close> of
  \<open>crates/codegen/xai-grok-tools/src/implementations/grok_build/scheduler\<close>. Every change of the schedule gets a
  version, a generation and a revision of 64 bits; versions are reserved before a change and
  committed after it. A failed assertion, where the code panics, is the value \<open>None\<close>. Dates are
  integers, counted in the resolution of the date library; the addition of seconds to a date is a parameter, because
  that library panics outside its range.
\<close>

section \<open>Intervals\<close>

definition MINIMUM_INTERVAL_SECS :: nat where "MINIMUM_INTERVAL_SECS = 60"

text \<open>What an error message says, with the text it quotes.\<close>

datatype IntervalError = EmptyInterval | BadFormat string | ZeroInterval | BadSuffix string | IntervalTooLarge string

text \<open>\<open>s.split_at(i)\<close>, which panics inside a character.\<close>

definition split_at :: "string \<Rightarrow> nat \<Rightarrow> (string \<times> string) option" where
  "split_at s i = (if is_char_boundary s i then Some (take i s, drop i s) else None)"

definition unit_secs :: "string \<Rightarrow> nat option" where
  "unit_secs suf =
     (if suf = ''s'' then Some 1 else if suf = ''m'' then Some 60
      else if suf = ''h'' then Some 3600 else if suf = ''d'' then Some 86400 else None)"

definition checked_mul :: "nat \<Rightarrow> nat \<Rightarrow> nat option" where
  "checked_mul a b = (if a * b \<le> u64_max then Some (a * b) else None)"

definition parse_interval :: "string \<Rightarrow> (IntervalError + nat) option" where
  "parse_interval s0 =
     (let s = trim s0 in
      if s = [] then Some (Inl EmptyInterval)
      else case split_at s (length s - 1) of
             None \<Rightarrow> None
           | Some (digits, suf) \<Rightarrow>
               Some (case parse_uint u64_max digits of
                       None \<Rightarrow> Inl (BadFormat s)
                     | Some v \<Rightarrow>
                         if v = 0 then Inl ZeroInterval
                         else (case unit_secs suf of
                                 None \<Rightarrow> Inl (BadSuffix suf)
                               | Some unit \<Rightarrow>
                                   (case checked_mul v unit of
                                      None \<Rightarrow> Inl (IntervalTooLarge s)
                                    | Some secs \<Rightarrow> Inr (max secs MINIMUM_INTERVAL_SECS)))))"

definition plural :: "nat \<Rightarrow> string \<Rightarrow> string" where
  "plural n u = ''every '' @ to_decimal n @ '' '' @ u @ (if n = 1 then [] else ''s'')"

definition interval_to_human :: "nat \<Rightarrow> string" where
  "interval_to_human secs =
     (if secs mod 86400 = 0 then plural (secs div 86400) ''day''
      else if secs mod 3600 = 0 then plural (secs div 3600) ''hour''
      else if secs mod 60 = 0 then plural (secs div 60) ''minute''
      else plural secs ''second'')"

lemma parse_interval_accepts:
  assumes "parse_interval s = Some (Inr n)"
  shows "MINIMUM_INTERVAL_SECS \<le> n \<and> n \<le> u64_max"
  using assms
  by (auto simp: parse_interval_def Let_def MINIMUM_INTERVAL_SECS_def checked_mul_def max_def
      split: if_splits option.splits prod.splits)

lemmas parse_interval_simps = parse_interval_def split_at_def is_char_boundary_def byte_between_def parse_uint_def
  decimal_value_def digit_value_def is_ascii_digit_def unit_secs_def checked_mul_def MINIMUM_INTERVAL_SECS_def

text \<open>An interval whose last character takes more than one byte makes the parser panic.\<close>

lemma parse_interval_panics: "parse_interval (''5'' @ [CHR 0xE5, CHR 0x88, CHR 0x86]) = None"
  by code_simp

section \<open>Tasks\<close>

type_synonym date_time = int

text \<open>The date library: a date plus a number of seconds given as an \<open>i64\<close>.\<close>

type_synonym add_secs = "date_time \<Rightarrow> int \<Rightarrow> date_time option"

definition as_i64 :: "nat \<Rightarrow> int" where
  "as_i64 n = (let m = n mod 2 ^ 64 in if m < 2 ^ 63 then int m else int m - 2 ^ 64)"

record ScheduledTask =
  st_id :: string
  st_interval_secs :: nat
  st_prompt :: string
  st_recurring :: bool
  st_durable :: bool
  st_created_at :: date_time
  st_last_fired_at :: "date_time option"
  st_expires_at :: "date_time option"
  st_last_subagent_id :: "string option"
  st_iterations_since_fresh :: nat
  st_chain_reset_pending :: bool

definition LOOP_FRESH_CHAIN_EVERY :: nat where "LOOP_FRESH_CHAIN_EVERY = 10"
definition RECURRING_TASK_TTL_DAYS :: nat where "RECURRING_TASK_TTL_DAYS = 7"
definition MAX_SCHEDULER_TRANSITIONS :: nat where "MAX_SCHEDULER_TRANSITIONS = 50"

text \<open>The clock reading and the new identity are arguments.\<close>

definition with_fire_immediately ::
    "add_secs \<Rightarrow> string \<Rightarrow> date_time \<Rightarrow> nat \<Rightarrow> string \<Rightarrow> bool \<Rightarrow> bool \<Rightarrow> bool \<Rightarrow> ScheduledTask option" where
  "with_fire_immediately add new_id now interval_secs prompt recurring durable fire_immediately =
     (case (if fire_immediately then add now (- as_i64 interval_secs) else Some now) of
        None \<Rightarrow> None
      | Some created_at \<Rightarrow>
          (case (if recurring then map_option Some (add now (int RECURRING_TASK_TTL_DAYS * 86400)) else Some None) of
             None \<Rightarrow> None
           | Some expires_at \<Rightarrow>
               Some \<lparr>st_id = new_id, st_interval_secs = interval_secs, st_prompt = prompt, st_recurring = recurring,
                     st_durable = durable, st_created_at = created_at, st_last_fired_at = None,
                     st_expires_at = expires_at, st_last_subagent_id = None, st_iterations_since_fresh = 0,
                     st_chain_reset_pending = False\<rparr>))"

definition next_fire_at :: "add_secs \<Rightarrow> ScheduledTask \<Rightarrow> date_time option" where
  "next_fire_at add t =
     add (case st_last_fired_at t of Some at \<Rightarrow> at | None \<Rightarrow> st_created_at t) (as_i64 (st_interval_secs t))"

definition next_wake_at :: "add_secs \<Rightarrow> ScheduledTask \<Rightarrow> date_time option" where
  "next_wake_at add t =
     (case st_expires_at t of
        Some expires_at \<Rightarrow> map_option (\<lambda>fire. min fire expires_at) (next_fire_at add t)
      | None \<Rightarrow> next_fire_at add t)"

definition is_expired :: "ScheduledTask \<Rightarrow> date_time \<Rightarrow> bool" where
  "is_expired t now \<longleftrightarrow> (case st_expires_at t of Some exp \<Rightarrow> exp \<le> now | None \<Rightarrow> False)"

text \<open>The outer option is the panic of the date library.\<close>

definition pending_fire_at :: "add_secs \<Rightarrow> ScheduledTask \<Rightarrow> date_time \<Rightarrow> date_time option option" where
  "pending_fire_at add t now =
     (if is_expired t now \<or> \<not> st_recurring t \<and> st_last_fired_at t \<noteq> None then Some None
      else map_option Some (next_fire_at add t))"

section \<open>Versions\<close>

type_synonym Uuid = string

record SchedulerVersion =
  sv_generation :: Uuid
  sv_revision :: nat

record GenerationRollover =
  old_generation :: Uuid
  new_generation :: Uuid

record SchedulerReservation =
  sr_source :: SchedulerVersion
  sr_generation :: Uuid
  sr_next_revision :: nat
  sr_remaining :: nat
  sr_rollover :: "GenerationRollover option"

record SchedulerCommit =
  sc_version :: SchedulerVersion
  sc_rollover :: "GenerationRollover option"

text \<open>The clock is its version; \<open>fresh\<close> is the generation minted when one is needed.\<close>

definition clock_new :: "Uuid \<Rightarrow> SchedulerVersion" where
  "clock_new fresh = \<lparr>sv_generation = fresh, sv_revision = 0\<rparr>"

definition version_at :: "SchedulerReservation \<Rightarrow> nat \<Rightarrow> SchedulerVersion option" where
  "version_at r offset =
     (if offset < sr_remaining r \<and> sr_next_revision r + offset \<le> u64_max
      then Some \<lparr>sv_generation = sr_generation r, sv_revision = sr_next_revision r + offset\<rparr> else None)"

definition expected_source :: "SchedulerReservation \<Rightarrow> SchedulerVersion" where
  "expected_source r =
     (case sr_rollover r of
        None \<Rightarrow> \<lparr>sv_generation = sr_generation r, sv_revision = sr_next_revision r - 1\<rparr>
      | Some _ \<Rightarrow> sr_source r)"

definition commit_next ::
    "SchedulerReservation \<Rightarrow> SchedulerVersion \<Rightarrow> (SchedulerReservation \<times> SchedulerVersion \<times> SchedulerCommit) option" where
  "commit_next r clock =
     (if sr_remaining r = 0 \<or> clock \<noteq> expected_source r then None
      else case version_at r 0 of
             None \<Rightarrow> None
           | Some version \<Rightarrow>
               let remaining = sr_remaining r - 1 in
               if remaining > 0 \<and> sr_next_revision r + 1 > u64_max then None
               else Some (r\<lparr>sr_rollover := None, sr_remaining := remaining,
                            sr_next_revision := (if remaining > 0 then sr_next_revision r + 1 else sr_next_revision r)\<rparr>,
                          version, \<lparr>sc_version = version, sc_rollover = sr_rollover r\<rparr>))"

definition prepare_transition :: "SchedulerVersion \<Rightarrow> nat \<Rightarrow> Uuid \<Rightarrow> SchedulerReservation option" where
  "prepare_transition clock n fresh =
     (if n = 0 \<or> n > MAX_SCHEDULER_TRANSITIONS then None
      else let rollover = (if sv_revision clock + n > u64_max
                           then Some \<lparr>old_generation = sv_generation clock, new_generation = fresh\<rparr> else None) in
           Some \<lparr>sr_source = clock,
                 sr_generation = (case rollover of Some ro \<Rightarrow> new_generation ro | None \<Rightarrow> sv_generation clock),
                 sr_next_revision = (if rollover \<noteq> None then 1 else sv_revision clock + 1),
                 sr_remaining = n, sr_rollover = rollover\<rparr>)"

subsection \<open>A reservation that belongs to a clock\<close>

definition reserved :: "SchedulerVersion \<Rightarrow> SchedulerReservation \<Rightarrow> bool" where
  "reserved clock r \<longleftrightarrow>
     0 < sr_remaining r \<and> 0 < sr_next_revision r \<and> sr_next_revision r + (sr_remaining r - 1) \<le> u64_max
     \<and> expected_source r = clock"

text \<open>The version after a version: the next revision, or the first of the fresh generation.\<close>

definition successor :: "Uuid \<Rightarrow> SchedulerVersion \<Rightarrow> SchedulerVersion \<Rightarrow> bool" where
  "successor fresh v v' \<longleftrightarrow>
     sv_generation v' = sv_generation v \<and> sv_revision v' = sv_revision v + 1
     \<or> sv_generation v' = fresh \<and> sv_revision v' = 1"

lemma prepare_reserved:
  assumes "0 < n" and "n \<le> MAX_SCHEDULER_TRANSITIONS" and "sv_revision clock \<le> u64_max"
  obtains r where "prepare_transition clock n fresh = Some r" and "reserved clock r" and "sr_remaining r = n"
    and "sr_rollover r = None \<longleftrightarrow> sv_revision clock + n \<le> u64_max"
    and "sr_generation r = (if sv_revision clock + n \<le> u64_max then sv_generation clock else fresh)"
proof -
  have "n \<le> u64_max" using assms(2) by (simp add: MAX_SCHEDULER_TRANSITIONS_def)
  then show thesis
    using assms that by (auto simp: prepare_transition_def reserved_def expected_source_def Let_def)
qed

lemma commit_reserved:
  assumes "reserved clock r"
  obtains r' v where "commit_next r clock = Some (r', v, \<lparr>sc_version = v, sc_rollover = sr_rollover r\<rparr>)"
    and "version_at r 0 = Some v" and "sv_generation v = sr_generation r" and "sv_revision v = sr_next_revision r"
    and "sr_remaining r' = sr_remaining r - 1" and "sr_rollover r' = None" and "sr_generation r' = sr_generation r"
    and "1 < sr_remaining r \<Longrightarrow> reserved v r'"
proof -
  let ?v = "\<lparr>sv_generation = sr_generation r, sv_revision = sr_next_revision r\<rparr>"
  let ?r' = "r\<lparr>sr_rollover := None, sr_remaining := sr_remaining r - 1,
    sr_next_revision := (if 0 < sr_remaining r - 1 then sr_next_revision r + 1 else sr_next_revision r)\<rparr>"
  from assms have rem: "0 < sr_remaining r" "0 < sr_next_revision r"
    and top: "sr_next_revision r + (sr_remaining r - 1) \<le> u64_max" and src: "clock = expected_source r"
    by (auto simp: reserved_def)
  then have v: "version_at r 0 = Some ?v" by (simp add: version_at_def)
  have "\<not> (0 < sr_remaining r - 1 \<and> sr_next_revision r + 1 > u64_max)" using top by linarith
  with rem src v have eq: "commit_next r clock = Some (?r', ?v, \<lparr>sc_version = ?v, sc_rollover = sr_rollover r\<rparr>)"
    unfolding commit_next_def Let_def by simp
  have "reserved ?v ?r'" if "1 < sr_remaining r"
    using that top rem unfolding reserved_def expected_source_def by simp
  then show thesis using that [of ?r' ?v] eq v by simp
qed

text \<open>Committing all reserved versions.\<close>

fun commit_all :: "SchedulerReservation \<Rightarrow> SchedulerVersion \<Rightarrow> nat \<Rightarrow> (SchedulerVersion \<times> SchedulerVersion list) option" where
  "commit_all r clock 0 = Some (clock, [])"
| "commit_all r clock (Suc n) =
     (case commit_next r clock of
        None \<Rightarrow> None
      | Some (r', clock', c) \<Rightarrow> map_option (\<lambda>(k, vs). (k, sc_version c # vs)) (commit_all r' clock' n))"

text \<open>Consecutive revisions of a generation.\<close>

fun revisions :: "Uuid \<Rightarrow> nat \<Rightarrow> nat \<Rightarrow> SchedulerVersion list" where
  "revisions g start 0 = []"
| "revisions g start (Suc n) = \<lparr>sv_generation = g, sv_revision = start\<rparr> # revisions g (start + 1) n"

lemma commit_all_reserved:
  "reserved clock r \<Longrightarrow> n \<le> sr_remaining r \<Longrightarrow>
     commit_all r clock n = Some (last (clock # revisions (sr_generation r) (sr_next_revision r) n),
       revisions (sr_generation r) (sr_next_revision r) n)"
proof (induction n arbitrary: r clock)
  case (Suc n)
  from Suc.prems(1) obtain r' v where c: "commit_next r clock = Some (r', v, \<lparr>sc_version = v, sc_rollover = sr_rollover r\<rparr>)"
    and v: "sv_generation v = sr_generation r" "sv_revision v = sr_next_revision r"
    and r': "sr_remaining r' = sr_remaining r - 1" "sr_generation r' = sr_generation r"
    and res: "1 < sr_remaining r \<Longrightarrow> reserved v r'"
    by (rule commit_reserved) blast
  have veq: "v = \<lparr>sv_generation = sr_generation r, sv_revision = sr_next_revision r\<rparr>" using v by (cases v) simp
  show ?case
  proof (cases n)
    case 0
    with c veq show ?thesis by simp
  next
    case (Suc m)
    with Suc.prems(2) have res': "reserved v r'" and le: "n \<le> sr_remaining r'" using res r' by auto
    have nxt: "sr_next_revision r' = sr_next_revision r + 1"
      using c Suc Suc.prems(2) by (auto simp: commit_next_def Let_def split: if_splits option.splits)
    from Suc.IH [OF res' le] c veq nxt r'(2) show ?thesis by simp
  qed
qed simp

text \<open>
  Versions never go wrong. From any clock within 64 bits, reserving up to 50 versions and committing
  them one after the other never panics: it gives consecutive revisions of one generation, the clock
  ends at the last of them, and the generation is the old one unless the revisions would
  overflow, in which case they are the first ones of the fresh generation.
\<close>

theorem reservation_commits_in_order:
  assumes "0 < n" and "n \<le> 50" and "sv_revision clock \<le> u64_max"
  shows "\<exists>r. prepare_transition clock n fresh = Some r
     \<and> (let vs = (if sv_revision clock + n \<le> u64_max
                  then revisions (sv_generation clock) (sv_revision clock + 1) n else revisions fresh 1 n)
        in commit_all r clock n = Some (last vs, vs))"
proof -
  have "n \<le> MAX_SCHEDULER_TRANSITIONS" using assms(2) by (simp add: MAX_SCHEDULER_TRANSITIONS_def)
  then obtain r where r: "prepare_transition clock n fresh = Some r" "reserved clock r" "sr_remaining r = n"
    and gen: "sr_generation r = (if sv_revision clock + n \<le> u64_max then sv_generation clock else fresh)"
    using prepare_reserved assms(1,3) by metis
  have start: "sr_next_revision r = (if sv_revision clock + n \<le> u64_max then sv_revision clock else 0) + 1"
    using r(1) by (auto simp: prepare_transition_def Let_def split: if_splits)
  have "last (k # revisions g m n) = last (revisions g m n)" for k g m using assms(1) by (cases n) simp_all
  with commit_all_reserved [OF r(2), of n] r start gen show ?thesis by (simp add: Let_def)
qed

lemma reservation_commits_in_order_witness:
  "\<exists>r. prepare_transition \<lparr>sv_generation = ''old'', sv_revision = u64_max\<rparr> 2 ''new'' = Some r
     \<and> commit_all r \<lparr>sv_generation = ''old'', sv_revision = u64_max\<rparr> 2
       = Some (\<lparr>sv_generation = ''new'', sv_revision = 2\<rparr>,
           [\<lparr>sv_generation = ''new'', sv_revision = 1\<rparr>, \<lparr>sv_generation = ''new'', sv_revision = 2\<rparr>])"
  using reservation_commits_in_order [of 2 "\<lparr>sv_generation = ''old'', sv_revision = u64_max\<rparr>" "''new''"]
  by (auto simp: Let_def numeral_2_eq_2)

end
