(* ===== verification/Interjection.thy ===== *)
theory Interjection
  imports Rust_Prelude
begin

text \<open>
  Messages sent while a turn is running: the shared event queue, the interjection buffer and its
  framing (\<open>crates/common/xai-interjection-core/src\<close>: \<open>events.rs\<close>, \<open>buffer.rs\<close>, \<open>format.rs\<close>), and the
  rules by which queued prompts are merged into one (\<open>crates/codegen/xai-prompt-queue/src/combine.rs\<close>).
  The queue is behind a mutex, so its operations run one after the other; clones of a handle share it.
\<close>

section \<open>The event queue\<close>

type_synonym 'e EventQueue = "'e list"

definition queue_new :: "'e EventQueue" where "queue_new = []"

definition push :: "'e \<Rightarrow> 'e EventQueue \<Rightarrow> 'e EventQueue" where
  "push event q = q @ [event]"

definition push_capped :: "'e \<Rightarrow> nat \<Rightarrow> 'e EventQueue \<Rightarrow> 'e EventQueue" where
  "push_capped event mx q =
     (let q = q @ [event] in if length q > mx then drop (length q - mx) q else q)"

definition drain_matching :: "('e \<Rightarrow> bool) \<Rightarrow> 'e EventQueue \<Rightarrow> 'e list \<times> 'e EventQueue" where
  "drain_matching take_it q = partition take_it q"

definition drain_all :: "'e EventQueue \<Rightarrow> 'e list \<times> 'e EventQueue" where
  "drain_all q = (q, [])"

definition restore_front :: "'e list \<Rightarrow> 'e EventQueue \<Rightarrow> 'e EventQueue" where
  "restore_front events q = (if events = [] then q else events @ q)"

definition queue_clear :: "'e EventQueue \<Rightarrow> 'e EventQueue" where
  "queue_clear q = []"

definition snapshot :: "'e EventQueue \<Rightarrow> 'e list" where
  "snapshot q = q"

section \<open>Framing\<close>

definition LARGE_PROMPT_THRESHOLD :: nat where "LARGE_PROMPT_THRESHOLD = 25000"
definition INTERJECTION_NOTE :: string where
  "INTERJECTION_NOTE = ''The user sent a message while you were working:''"
definition INTERRUPT_NOTE :: string where
  "INTERRUPT_NOTE = ''The user interrupted the previous turn:''"
definition UNFINISHED_TASKS_REMINDER :: string where
  "UNFINISHED_TASKS_REMINDER = ''Make sure to complete any unfinished tasks from previous turns.''"

definition newline :: string where "newline = [CHR 0x0A]"

definition user_query :: "string \<Rightarrow> string" where
  "user_query user_message = ''<user_query>'' @ newline @ user_message @ newline @ ''</user_query>''"

definition frame_user_turn :: "string \<Rightarrow> string \<Rightarrow> string" where
  "frame_user_turn note assembled = note @ newline @ assembled @ newline @ UNFINISHED_TASKS_REMINDER"

text \<open>\<open>char_indices\<close> with \<open>len_utf8\<close> of each character, read from the leading byte of its encoding.\<close>

definition len_utf8 :: "char \<Rightarrow> nat" where
  "len_utf8 c = (let b = (of_char c :: nat) in
     if b < 0x80 then 1 else if b < 0xE0 then 2 else if b < 0xF0 then 3 else 4)"

function char_indices :: "nat \<Rightarrow> string \<Rightarrow> (nat \<times> nat) list" where
  "char_indices i [] = []"
| "char_indices i (c # s) = (i, len_utf8 c) # char_indices (i + len_utf8 c) (drop (len_utf8 c - 1) s)"
  by pat_completeness auto
termination by (relation "measure (\<lambda>(i, s). length s)") auto

definition truncation_end :: "string \<Rightarrow> nat" where
  "truncation_end s =
     (case takeWhile (\<lambda>(i, n). i < LARGE_PROMPT_THRESHOLD) (char_indices 0 s) of
        [] \<Rightarrow> length s
      | xs \<Rightarrow> (case last xs of (i, n) \<Rightarrow> i + n))"

definition truncate_query :: "string \<Rightarrow> string" where
  "truncate_query s =
     (if length s \<le> LARGE_PROMPT_THRESHOLD then s
      else take (truncation_end s) s @ ''... [truncated]'')"

definition format_steered_query :: "string \<Rightarrow> string \<Rightarrow> string" where
  "format_steered_query note s = frame_user_turn note (user_query (truncate_query s))"

definition format_interjection :: "string \<Rightarrow> string" where
  "format_interjection s = format_steered_query INTERJECTION_NOTE s"

definition format_interrupt :: "string \<Rightarrow> string" where
  "format_interrupt s = format_steered_query INTERRUPT_NOTE s"

record 'a PendingInterjection =
  text_of :: string
  attachments :: "'a list"

definition drain_formatted ::
  "(string \<Rightarrow> string) \<Rightarrow> 'a PendingInterjection EventQueue
   \<Rightarrow> 'a PendingInterjection list \<times> 'a PendingInterjection EventQueue" where
  "drain_formatted sanitize_text buffer =
     (let (drained, buffer) = drain_all buffer
      in (map (\<lambda>entry. \<lparr>text_of = format_interjection (sanitize_text (text_of entry)),
                        attachments = attachments entry\<rparr>) drained, buffer))"

section \<open>Merging queued prompts\<close>

record CombineGate =
  gate_id :: string
  is_plain_prompt :: bool
  is_synthetic :: bool
  is_expanded_skill :: bool
  is_bash :: bool
  has_images :: bool
  gate_text :: string

definition TEXT_SEPARATOR :: string where "TEXT_SEPARATOR = newline @ newline"

definition can_merge_front :: "CombineGate \<Rightarrow> bool" where
  "can_merge_front g \<longleftrightarrow>
     is_plain_prompt g \<and> \<not> is_synthetic g \<and> \<not> is_expanded_skill g \<and> \<not> is_bash g \<and> gate_text g \<noteq> []"

definition can_merge_follower :: "CombineGate \<Rightarrow> string list \<Rightarrow> bool" where
  "can_merge_follower g skip_ids \<longleftrightarrow> can_merge_front g \<and> \<not> has_images g \<and> gate_id g \<notin> set skip_ids"

fun combine_followers :: "CombineGate list \<Rightarrow> string list \<Rightarrow> nat \<Rightarrow> nat" where
  "combine_followers [] skip_ids n = n"
| "combine_followers (g # gs) skip_ids n =
     (if \<not> can_merge_follower g skip_ids then n else combine_followers gs skip_ids (n + 1))"

definition combine_prefix_len :: "CombineGate list \<Rightarrow> string list \<Rightarrow> nat" where
  "combine_prefix_len items skip_ids =
     (case items of
        [] \<Rightarrow> 0
      | front # rest \<Rightarrow> if \<not> can_merge_front front then 1 else combine_followers rest skip_ids 1)"

definition join_texts :: "string list \<Rightarrow> string" where
  "join_texts texts = join TEXT_SEPARATOR (filter (\<lambda>t. t \<noteq> []) texts)"

definition is_combined :: "string list \<Rightarrow> bool" where
  "is_combined segs \<longleftrightarrow> length segs \<ge> 2"

definition COMBINED_DISPLAY_TEXTS_META :: string where
  "COMBINED_DISPLAY_TEXTS_META = ''combinedDisplayTexts''"

text \<open>The JSON crate's array of strings is the argument \<open>array\<close>.\<close>

definition stamp_combined_display_texts ::
  "(string list \<Rightarrow> 'v) \<Rightarrow> (string \<rightharpoonup> 'v) \<Rightarrow> string list \<Rightarrow> (string \<rightharpoonup> 'v)" where
  "stamp_combined_display_texts array meta segs =
     (if \<not> is_combined segs then meta else meta(COMBINED_DISPLAY_TEXTS_META \<mapsto> array segs))"

section \<open>The capped queue keeps the newest events\<close>

lemma push_capped_recent:
  assumes "length q \<le> mx"
  shows "foldl (\<lambda>q e. push_capped e mx q) q es = drop (length q + length es - mx) (q @ es)"
  using assms
proof (induction es arbitrary: q)
  case (Cons e es)
  show ?case
  proof (cases "length q = mx")
    case True
    then have "push_capped e mx q = drop 1 (q @ [e])" by (simp add: push_capped_def)
    moreover have "length (drop 1 (q @ [e])) \<le> mx" using True by simp
    ultimately show ?thesis
      using Cons.IH [of "drop 1 (q @ [e])"] True by (cases q) auto
  next
    case False
    with Cons.prems Cons.IH [of "q @ [e]"] show ?thesis by (simp add: push_capped_def)
  qed
qed simp

section \<open>Truncation keeps whole characters\<close>

text \<open>Every encoding is complete, as in any Rust string.\<close>

function whole_chars :: "string \<Rightarrow> bool" where
  "whole_chars [] = True"
| "whole_chars (c # s) \<longleftrightarrow> len_utf8 c - 1 \<le> length s \<and> whole_chars (drop (len_utf8 c - 1) s)"
  by pat_completeness auto
termination by (relation "measure length") auto

lemma len_utf8_bounds: "0 < len_utf8 c" "len_utf8 c \<le> 4"
  by (simp_all add: len_utf8_def Let_def)

lemma last_index:
  assumes "whole_chars s" and "s \<noteq> []" and "i < m" and "m \<le> i + length s"
  shows "\<exists>j n. last (takeWhile (\<lambda>(i, n). i < m) (char_indices i s)) = (j, n) \<and>
     m \<le> j + n \<and> j + n \<le> m + 3 \<and> i \<le> j \<and> j + n \<le> i + length s \<and>
     whole_chars (take (j + n - i) s) \<and> whole_chars (drop (j + n - i) s)"
  using assms
proof (induction i s rule: char_indices.induct)
  case (2 i c s)
  let ?n = "len_utf8 c" and ?r = "drop (len_utf8 c - 1) s"
  note n = len_utf8_bounds [of c]
  have whole: "?n - 1 \<le> length s" "whole_chars ?r" using 2(2) by simp_all
  have cons: "c # s = (c # take (?n - 1) s) @ ?r" by simp
  show ?case
  proof (cases "i + ?n < m")
    case True
    then have "?r \<noteq> []" using 2(5) n whole(1) by auto
    moreover have "m \<le> i + ?n + length ?r" using 2(5) n whole(1) by auto
    ultimately obtain j k where jk: "last (takeWhile (\<lambda>(i, n). i < m) (char_indices (i + ?n) ?r)) = (j, k)"
      "m \<le> j + k" "j + k \<le> m + 3" "i + ?n \<le> j" "j + k \<le> i + ?n + length ?r"
      "whole_chars (take (j + k - (i + ?n)) ?r)" "whole_chars (drop (j + k - (i + ?n)) ?r)"
      using 2(1) whole(2) True by blast
    have ne: "takeWhile (\<lambda>(i, n). i < m) (char_indices (i + ?n) ?r) \<noteq> []"
      using \<open>?r \<noteq> []\<close> True by (cases ?r) auto
    have split: "j + k - i = Suc (j + k - (i + ?n) + (?n - 1))" using jk(4) n by simp
    have "whole_chars (take (j + k - i) (c # s))" "whole_chars (drop (j + k - i) (c # s))"
      using jk(6,7) whole(1) jk(4,5) n unfolding split by (simp_all add: drop_take)
    with jk ne 2(4) n whole(1) show ?thesis by auto
  next
    case False
    then have "takeWhile (\<lambda>(i, n). i < m) (char_indices (i + ?n) ?r) = []"
      by (cases ?r) auto
    with False 2(4,5) n whole show ?thesis by (cases ?n) (auto simp: drop_Cons' take_Cons')
  qed
qed simp

text \<open>
  A prompt over the limit is cut at a character boundary: what is kept is a prefix of the
  prompt, made of whole characters, that reaches the limit and exceeds it by three bytes at most.
  A prompt within the limit is kept as it is.
\<close>

theorem truncate_query_boundary:
  assumes "whole_chars s"
  shows "\<exists>kept rest. s = kept @ rest \<and> whole_chars kept \<and> whole_chars rest \<and>
     (if length s \<le> 25000 then truncate_query s = s
      else truncate_query s = kept @ ''... [truncated]'' \<and> 25000 \<le> length kept \<and> length kept \<le> 25003)"
proof (cases "length s \<le> 25000")
  case True
  with assms show ?thesis
    by (intro exI [of _ s] exI [of _ "[]"]) (simp add: truncate_query_def LARGE_PROMPT_THRESHOLD_def)
next
  case False
  then have "s \<noteq> []" by auto
  with last_index [OF assms this, of 0 25000] False obtain j n where jn:
    "last (takeWhile (\<lambda>(i, n). i < 25000) (char_indices 0 s)) = (j, n)"
    "25000 \<le> j + n" "j + n \<le> 25003" "j + n \<le> length s" "whole_chars (take (j + n) s)" "whole_chars (drop (j + n) s)"
    by auto
  have "takeWhile (\<lambda>(i, n). i < 25000) (char_indices 0 s) \<noteq> []"
    using \<open>s \<noteq> []\<close> by (cases s) auto
  then have "truncation_end s = j + n"
    using jn(1) by (auto simp: truncation_end_def LARGE_PROMPT_THRESHOLD_def split: list.splits)
  with jn False show ?thesis
    by (intro exI [of _ "take (j + n) s"] exI [of _ "drop (j + n) s"])
      (simp add: truncate_query_def LARGE_PROMPT_THRESHOLD_def)
qed

lemma whole_chars_replicate: "whole_chars (replicate n CHR ''a'')"
  by (induction n) (simp_all add: len_utf8_def)

theorem truncate_query_boundary_witness:
  "\<exists>kept. truncate_query (replicate 30000 CHR ''a'') = kept @ ''... [truncated]'' \<and> length kept \<le> 25003"
  using truncate_query_boundary [OF whole_chars_replicate [of 30000]] by auto

section \<open>Merging is maximal and keeps every text\<close>

lemma combine_followers_eq:
  "combine_followers gs skip_ids n = n + length (takeWhile (\<lambda>g. can_merge_follower g skip_ids) gs)"
  by (induction gs skip_ids n rule: combine_followers.induct) auto

text \<open>
  The number of prompts merged is at least one for a queue that is not empty, and the merged
  ones after the front carry no image and are not being edited. The run is maximal: it ends with
  the queue, at a front that cannot merge, or before the first prompt that cannot follow. When
  prompts are merged, the joined text holds the text of each in order; none is dropped.
\<close>

theorem combine_prefix_maximal:
  fixes skip_ids :: "string list"
  assumes "items \<noteq> []"
  defines "n \<equiv> combine_prefix_len items skip_ids"
  shows "1 \<le> n \<and> n \<le> length items \<and>
    (\<forall>g \<in> set (drop 1 (take n items)). can_merge_follower g skip_ids) \<and>
    (n < length items \<longrightarrow> \<not> can_merge_front (hd items) \<or> \<not> can_merge_follower (items ! n) skip_ids) \<and>
    (2 \<le> n \<longrightarrow> join_texts (map gate_text (take n items)) = join TEXT_SEPARATOR (map gate_text (take n items)))"
proof -
  obtain front rest where items: "items = front # rest" using assms(1) by (cases items) auto
  show ?thesis
  proof (cases "can_merge_front front")
    case False
    then show ?thesis by (simp add: n_def combine_prefix_len_def items)
  next
    case True
    let ?P = "\<lambda>g. can_merge_follower g skip_ids"
    have n: "n = Suc (length (takeWhile ?P rest))"
      using True by (simp add: n_def combine_prefix_len_def items combine_followers_eq)
    have run: "take n items = front # takeWhile ?P rest"
      by (simp add: n items takeWhile_eq_take [symmetric])
    have "gate_text g \<noteq> []" if "g \<in> set (take n items)" for g
      using that True set_takeWhileD [of g ?P rest]
      by (auto simp: run can_merge_front_def can_merge_follower_def)
    then have "filter (\<lambda>t. t \<noteq> []) (map gate_text (take n items)) = map gate_text (take n items)"
      by (intro filter_True) auto
    then have texts: "join_texts (map gate_text (take n items)) = join TEXT_SEPARATOR (map gate_text (take n items))"
      by (simp add: join_texts_def)
    have "\<not> ?P (items ! n)" if "n < length items"
      using that nth_length_takeWhile [of ?P rest] by (simp add: n items)
    moreover have "\<forall>g \<in> set (drop 1 (take n items)). ?P g"
      unfolding run by (auto dest: set_takeWhileD)
    moreover have "1 \<le> n" "n \<le> length items"
      using length_takeWhile_le [of ?P rest] by (simp_all add: n items)
    ultimately show ?thesis using texts by blast
  qed
qed

definition plain_gate :: "string \<Rightarrow> bool \<Rightarrow> CombineGate" where
  "plain_gate t images = \<lparr>gate_id = t, is_plain_prompt = True, is_synthetic = False, is_expanded_skill = False,
     is_bash = False, has_images = images, gate_text = t\<rparr>"

theorem combine_prefix_maximal_witness:
  "join_texts (map gate_text (take 2 [plain_gate ''one'' True, plain_gate ''two'' False, plain_gate ''see'' True]))
   = join TEXT_SEPARATOR [''one'', ''two'']"
proof -
  have "combine_prefix_len [plain_gate ''one'' True, plain_gate ''two'' False, plain_gate ''see'' True] [] = 2"
    by (simp add: combine_prefix_len_def plain_gate_def can_merge_front_def can_merge_follower_def)
  then show ?thesis
    using combine_prefix_maximal [of "[plain_gate ''one'' True, plain_gate ''two'' False, plain_gate ''see'' True]" "[]"]
    by (simp add: plain_gate_def)
qed

end
