(* ===== verification/Scheduler_Actor.thy ===== *)
theory Scheduler_Actor
  imports Scheduler Interjection
begin

text \<open>
  The actor that owns the schedule: \<open>actor.rs\<close> of
  \<open>crates/codegen/xai-grok-tools/src/implementations/grok_build/scheduler\<close>. It handles commands (create, update,
  delete, list), fires due tasks as child agents and removes expired ones. What the surroundings
  answer during one step (the clock, persistence, the acknowledgement of notifications, the coordinator of
  child agents) is a record of answers; the notifications and requests a step sends are its output. Only
  the actor changes the schedule, apart from the clean-up after a failed child, which is a step of its own.
\<close>

section \<open>Data\<close>

datatype SchedulerError =
    InvalidInterval IntervalError
  | TaskLimitReached nat
  | TaskNotFound string
  | PersistenceError string
  | NotificationError string
  | NoDurableNotificationConsumer
  | RemovalPending string
  | Cancelled
  | Timeout

datatype ScheduledTaskRemovedReason = Deleted | Expired | Completed | Shutdown

text \<open>What a step sends: notifications with their version, and the request for a child agent.\<close>

datatype SchedulerNote =
    TaskCreated string string string date_time SchedulerVersion
  | TaskFired string string string "date_time option" string SchedulerVersion
  | TaskRemoved string ScheduledTaskRemovedReason SchedulerVersion
  | SpawnSent string string "string option" "string option"

record SchedulerActor =
  sa_tasks :: "ScheduledTask list"
  sa_clock :: SchedulerVersion
  sa_pending :: "(string \<times> SchedulerReservation) option"
  sa_blocked :: "string list"

datatype ExpiryPersistenceOutcome = Committed | NotCommitted | UnknownOutcome

text \<open>The answer to the query for the previous child: no usable answer, no such child, or its status.\<close>

datatype QueryReply = QueryFailed | QueryUnknown | QueryActive | QueryCompleted string | QueryEnded

datatype UnitReply = UnitFailed | UnitActive | UnitIdle

text \<open>
  What the wait for the registration of a child ends with: the actor is cancelled, the coordinator refuses (it drops the
  sender), it accepts, or \<open>SPAWN_REGISTRATION_TIMEOUT\<close> passes, which the code treats as a start.
\<close>

datatype Registration = RegCancelled | RegRefused | RegStarted | RegTimedOut

record ActorEnv =
  ae_add :: add_secs
  ae_now :: date_time
  ae_now2 :: date_time
  ae_fresh :: Uuid
  ae_durable_target :: bool
  ae_persist :: "SchedulerError option"
  ae_publish :: "SchedulerError option"
  ae_expiry :: ExpiryPersistenceOutcome
  ae_wired :: bool
  ae_query :: QueryReply
  ae_unit :: UnitReply
  ae_new_id :: string
  ae_spawn_sent :: bool
  ae_registration :: Registration

definition MAX_SCHEDULED_TASKS :: nat where "MAX_SCHEDULED_TASKS = 50"

datatype SchedulerCommand =
    Create ScheduledTask
  | Update string "string option" "nat option"
  | Delete string
  | ListTasks

datatype SchedulerReply =
    TaskReply "SchedulerError + ScheduledTask"
  | DeleteReply "SchedulerError + bool"
  | Snapshot SchedulerVersion "ScheduledTask list"

section \<open>Helpers\<close>

text \<open>Characters of a text, and the first ones of them with an ellipsis.\<close>

function chars_of :: "string \<Rightarrow> string list" where
  "chars_of [] = []"
| "chars_of (c # s) = (c # take (len_utf8 c - 1) s) # chars_of (drop (len_utf8 c - 1) s)"
  by pat_completeness auto
termination by (relation "measure length") auto

definition truncate_chars :: "string \<Rightarrow> nat \<Rightarrow> string" where
  "truncate_chars s max_chars =
     (if length (chars_of s) \<le> max_chars then s
      else concat (take max_chars (chars_of s)) @ [CHR 0xE2, CHR 0x80, CHR 0xA6])"

definition task_created_payload :: "ActorEnv \<Rightarrow> ScheduledTask \<Rightarrow> SchedulerVersion \<Rightarrow> SchedulerNote option" where
  "task_created_payload e t version =
     map_option (\<lambda>fire. TaskCreated (st_id t) (st_prompt t) (interval_to_human (st_interval_secs t)) fire version)
       (next_fire_at (ae_add e) t)"

section \<open>Commands\<close>

definition complete_pending_removal ::
    "ActorEnv \<Rightarrow> SchedulerActor \<Rightarrow> (SchedulerActor \<times> (SchedulerError + bool) \<times> SchedulerNote list) option" where
  "complete_pending_removal e a =
     (case sa_pending a of
        None \<Rightarrow> None
      | Some (task_id, reservation) \<Rightarrow>
          if \<not> ae_durable_target e then Some (a\<lparr>sa_pending := None\<rparr>, Inl NoDurableNotificationConsumer, [])
          else case ae_persist e of
                 Some err \<Rightarrow> Some (a, Inl err, [])
               | None \<Rightarrow>
                   (case version_at reservation 0 of
                      None \<Rightarrow> None
                    | Some version \<Rightarrow>
                        (case ae_publish e of
                           Some err \<Rightarrow> Some (a, Inl err, [TaskRemoved task_id Deleted version])
                         | None \<Rightarrow>
                             (case commit_next reservation (sa_clock a) of
                                None \<Rightarrow> None
                              | Some (_, clock, _) \<Rightarrow>
                                  Some (a\<lparr>sa_pending := None, sa_clock := clock\<rparr>, Inr True,
                                        [TaskRemoved task_id Deleted version])))))"

definition create_task ::
    "ActorEnv \<Rightarrow> SchedulerActor \<Rightarrow> ScheduledTask \<Rightarrow> (SchedulerActor \<times> SchedulerReply \<times> SchedulerNote list) option" where
  "create_task e a t =
     (case sa_pending a of
        Some (task_id, _) \<Rightarrow> Some (a, TaskReply (Inl (RemovalPending task_id)), [])
      | None \<Rightarrow>
          if length (sa_tasks a) \<ge> MAX_SCHEDULED_TASKS
          then Some (a, TaskReply (Inl (TaskLimitReached MAX_SCHEDULED_TASKS)), [])
          else (case prepare_transition (sa_clock a) 1 (ae_fresh e) of
                  None \<Rightarrow> None
                | Some reservation \<Rightarrow>
                    (case commit_next reservation (sa_clock a) of
                       None \<Rightarrow> None
                     | Some (_, clock, commit) \<Rightarrow>
                         map_option (\<lambda>note.
                             (a\<lparr>sa_tasks := sa_tasks a @ [t], sa_clock := clock\<rparr>, TaskReply (Inr t), [note]))
                           (task_created_payload e t (sc_version commit)))))"

definition patch_prompt :: "string option \<Rightarrow> ScheduledTask \<Rightarrow> ScheduledTask" where
  "patch_prompt prompt t =
     (case prompt of
        None \<Rightarrow> t
      | Some p \<Rightarrow>
          (if p \<noteq> st_prompt t then t\<lparr>st_chain_reset_pending := True, st_iterations_since_fresh := 0\<rparr> else t)
            \<lparr>st_prompt := p\<rparr>)"

definition patch_interval :: "ActorEnv \<Rightarrow> nat option \<Rightarrow> ScheduledTask \<Rightarrow> ScheduledTask option" where
  "patch_interval e interval_secs t =
     (case interval_secs of
        None \<Rightarrow> Some t
      | Some secs \<Rightarrow>
          (let t' = t\<lparr>st_interval_secs := secs\<rparr> in
           map_option (\<lambda>fire. if fire \<le> ae_now e then t'\<lparr>st_last_fired_at := Some (ae_now2 e)\<rparr> else t')
             (next_fire_at (ae_add e) t')))"

definition update_task ::
    "ActorEnv \<Rightarrow> SchedulerActor \<Rightarrow> string \<Rightarrow> string option \<Rightarrow> nat option
      \<Rightarrow> (SchedulerActor \<times> SchedulerReply \<times> SchedulerNote list) option" where
  "update_task e a task_id prompt interval_secs =
     (case sa_pending a of
        Some (pending_id, _) \<Rightarrow> Some (a, TaskReply (Inl (RemovalPending pending_id)), [])
      | None \<Rightarrow>
          (case position (\<lambda>t. st_id t = task_id) (sa_tasks a) of
             None \<Rightarrow> Some (a, TaskReply (Inl (TaskNotFound task_id)), [])
           | Some index \<Rightarrow>
               (case prepare_transition (sa_clock a) 1 (ae_fresh e) of
                  None \<Rightarrow> None
                | Some reservation \<Rightarrow>
                    (case patch_interval e interval_secs (patch_prompt prompt (sa_tasks a ! index)) of
                       None \<Rightarrow> None
                     | Some updated \<Rightarrow>
                         (case commit_next reservation (sa_clock a) of
                            None \<Rightarrow> None
                          | Some (_, clock, commit) \<Rightarrow>
                              map_option (\<lambda>note.
                                  (a\<lparr>sa_tasks := (sa_tasks a)[index := updated], sa_clock := clock\<rparr>,
                                   TaskReply (Inr updated), [note]))
                                (task_created_payload e updated (sc_version commit)))))))"

definition delete_task ::
    "ActorEnv \<Rightarrow> SchedulerActor \<Rightarrow> string \<Rightarrow> (SchedulerActor \<times> SchedulerReply \<times> SchedulerNote list) option" where
  "delete_task e a task_id =
     (let complete = (\<lambda>b. map_option (\<lambda>(b', r, notes). (b', DeleteReply r, notes)) (complete_pending_removal e b)) in
      case sa_pending a of
        Some (pending_id, _) \<Rightarrow>
          if pending_id = task_id then complete a
          else Some (a, DeleteReply (Inl (RemovalPending pending_id)), [])
      | None \<Rightarrow>
          (case position (\<lambda>t. st_id t = task_id) (sa_tasks a) of
             None \<Rightarrow> Some (a, DeleteReply (Inr False), [])
           | Some index \<Rightarrow>
               if \<not> ae_durable_target e then Some (a, DeleteReply (Inl NoDurableNotificationConsumer), [])
               else (case prepare_transition (sa_clock a) 1 (ae_fresh e) of
                       None \<Rightarrow> None
                     | Some reservation \<Rightarrow>
                         complete (a\<lparr>sa_tasks := remove_at index (sa_tasks a),
                                     sa_pending := Some (task_id, reservation)\<rparr>))))"

fun handle_command ::
    "ActorEnv \<Rightarrow> SchedulerActor \<Rightarrow> SchedulerCommand \<Rightarrow> (SchedulerActor \<times> SchedulerReply \<times> SchedulerNote list) option" where
  "handle_command e a (Create t) = create_task e a t"
| "handle_command e a (Update task_id prompt interval_secs) = update_task e a task_id prompt interval_secs"
| "handle_command e a (Delete task_id) = delete_task e a task_id"
| "handle_command e a ListTasks = Some (a, Snapshot (sa_clock a) (sa_tasks a), [])"

section \<open>Firing\<close>

datatype LoopFireOutcome = Spawned string | Skipped

definition on_task :: "string \<Rightarrow> (ScheduledTask \<Rightarrow> ScheduledTask) \<Rightarrow> SchedulerActor \<Rightarrow> SchedulerActor" where
  "on_task task_id f a =
     (case position (\<lambda>t. st_id t = task_id) (sa_tasks a) of
        None \<Rightarrow> a
      | Some i \<Rightarrow> a\<lparr>sa_tasks := (sa_tasks a)[i := f (sa_tasks a ! i)]\<rparr>)"

definition restore_fire_anchor :: "string \<Rightarrow> string option \<Rightarrow> nat \<Rightarrow> bool \<Rightarrow> SchedulerActor \<Rightarrow> SchedulerActor" where
  "restore_fire_anchor task_id last_subagent_id iterations_since_fresh chain_reset_pending =
     on_task task_id (\<lambda>t. t\<lparr>st_last_subagent_id := last_subagent_id,
       st_iterations_since_fresh := iterations_since_fresh, st_chain_reset_pending := chain_reset_pending\<rparr>)"

text \<open>From which transcript the child continues, with what summary, and its place in the chain.\<close>

definition chain_plan :: "ScheduledTask \<Rightarrow> QueryReply \<Rightarrow> string option \<times> string option \<times> nat" where
  "chain_plan t reply =
     (let output = (if st_last_subagent_id t = None then None
                    else case reply of QueryCompleted out \<Rightarrow> Some out | _ \<Rightarrow> None);
          chain_due_for_restart = st_iterations_since_fresh t \<ge> LOOP_FRESH_CHAIN_EVERY;
          anchor_usable = output \<noteq> None \<and> st_last_subagent_id t \<noteq> None in
      if st_chain_reset_pending t then (None, None, 1)
      else if chain_due_for_restart \<or> \<not> anchor_usable then (None, map_option (\<lambda>out. truncate_chars out 600) output, 1)
      else (st_last_subagent_id t, None, st_iterations_since_fresh t + 1))"

text \<open>The previous child or a descendant of it may still be running.\<close>

definition previous_running :: "ActorEnv \<Rightarrow> ScheduledTask \<Rightarrow> bool" where
  "previous_running e t \<longleftrightarrow>
     st_last_subagent_id t \<noteq> None \<and> (ae_query e \<in> {QueryFailed, QueryActive} \<or> ae_unit e \<noteq> UnitIdle)"

definition fire_as_loop_subagent ::
    "ActorEnv \<Rightarrow> SchedulerActor \<Rightarrow> ScheduledTask \<Rightarrow> SchedulerActor \<times> LoopFireOutcome \<times> SchedulerNote list" where
  "fire_as_loop_subagent e a t =
     (if previous_running e t then (a, Skipped, [])
      else
        let (resume_from, prior_summary, next_iterations) = chain_plan t (ae_query e);
            subagent_id = ae_new_id e;
            restore = restore_fire_anchor (st_id t) (st_last_subagent_id t) (st_iterations_since_fresh t)
                        (st_chain_reset_pending t);
            request = SpawnSent (st_id t) subagent_id resume_from prior_summary in
        case position (\<lambda>u. st_id u = st_id t) (sa_tasks a) of
          None \<Rightarrow> (a, Skipped, [])
        | Some _ \<Rightarrow>
            let a1 = on_task (st_id t) (\<lambda>u. u\<lparr>st_last_subagent_id := Some subagent_id,
                       st_iterations_since_fresh := next_iterations, st_chain_reset_pending := False\<rparr>) a in
            if \<not> ae_spawn_sent e then (restore a1, Skipped, [])
            else (case ae_registration e of
                    RegCancelled \<Rightarrow> (a1, Skipped, [request])
                  | RegRefused \<Rightarrow> (restore a1, Skipped, [request])
                  | RegStarted \<Rightarrow> (a1, Spawned subagent_id, [request])
                  | RegTimedOut \<Rightarrow> (a1, Spawned subagent_id, [request])))"

text \<open>The clean-up that runs when a child ends with an error.\<close>

definition child_failed :: "string \<Rightarrow> SchedulerActor \<Rightarrow> SchedulerActor" where
  "child_failed subagent_id a =
     (case position (\<lambda>t. st_last_subagent_id t = Some subagent_id) (sa_tasks a) of
        None \<Rightarrow> a
      | Some i \<Rightarrow>
          a\<lparr>sa_tasks := (sa_tasks a)[i := (sa_tasks a ! i)\<lparr>st_last_subagent_id := None, st_iterations_since_fresh := 0\<rparr>]\<rparr>)"

definition expire_durable ::
    "ActorEnv \<Rightarrow> SchedulerActor \<Rightarrow> nat \<Rightarrow> (SchedulerActor \<times> SchedulerNote list) option" where
  "expire_durable e a idx =
     (let t = sa_tasks a ! idx; block = (\<lambda>b. b\<lparr>sa_blocked := List.insert (st_id t) (sa_blocked b)\<rparr>) in
      if \<not> ae_durable_target e then Some (block a, [])
      else case prepare_transition (sa_clock a) 1 (ae_fresh e) of
             None \<Rightarrow> None
           | Some reservation \<Rightarrow>
               let removed = a\<lparr>sa_tasks := remove_at idx (sa_tasks a)\<rparr> in
               (case ae_expiry e of
                  NotCommitted \<Rightarrow> Some (block a, [])
                | UnknownOutcome \<Rightarrow> Some (removed, [])
                | Committed \<Rightarrow>
                    (case version_at reservation 0 of
                       None \<Rightarrow> None
                     | Some version \<Rightarrow>
                         (case ae_publish e of
                            Some _ \<Rightarrow> Some (removed, [TaskRemoved (st_id t) Expired version])
                          | None \<Rightarrow>
                              map_option (\<lambda>(_, clock, _).
                                  (removed\<lparr>sa_clock := clock\<rparr>, [TaskRemoved (st_id t) Expired version]))
                                (commit_next reservation (sa_clock a))))))"

text \<open>A failure to persist the absence is only logged.\<close>

definition expire_plain ::
    "ActorEnv \<Rightarrow> SchedulerActor \<Rightarrow> nat \<Rightarrow> (SchedulerActor \<times> SchedulerNote list) option" where
  "expire_plain e a idx =
     (case prepare_transition (sa_clock a) 1 (ae_fresh e) of
        None \<Rightarrow> None
      | Some reservation \<Rightarrow>
          map_option (\<lambda>(_, clock, commit).
              (a\<lparr>sa_tasks := remove_at idx (sa_tasks a), sa_clock := clock\<rparr>,
               [TaskRemoved (st_id (sa_tasks a ! idx)) Expired (sc_version commit)]))
            (commit_next reservation (sa_clock a)))"

text \<open>After a child has started: the notification, and the removal of a task that fires once.\<close>

definition commit_fire ::
    "SchedulerReservation \<Rightarrow> SchedulerActor \<Rightarrow> ScheduledTask \<Rightarrow> date_time option \<Rightarrow> string
      \<Rightarrow> (SchedulerActor \<times> SchedulerNote list) option" where
  "commit_fire reservation a t next_fire subagent_id =
     (case commit_next reservation (sa_clock a) of
        None \<Rightarrow> None
      | Some (reservation1, clock, commit) \<Rightarrow>
          let fired = TaskFired (st_id t) (st_prompt t) (interval_to_human (st_interval_secs t)) next_fire
                        subagent_id (sc_version commit) in
          if st_recurring t then Some (a\<lparr>sa_clock := clock\<rparr>, [fired])
          else map_option (\<lambda>(_, clock', removal).
                   (a\<lparr>sa_tasks := filter (\<lambda>u. st_id u \<noteq> st_id t) (sa_tasks a), sa_clock := clock'\<rparr>,
                    [fired, TaskRemoved (st_id t) Completed (sc_version removal)]))
                 (commit_next reservation1 clock))"

definition fire_due ::
    "ActorEnv \<Rightarrow> SchedulerActor \<Rightarrow> nat \<Rightarrow> (SchedulerActor \<times> SchedulerNote list) option" where
  "fire_due e a idx =
     (let t = sa_tasks a ! idx; fired_task = t\<lparr>st_last_fired_at := Some (ae_now e)\<rparr> in
      case prepare_transition (sa_clock a) (if st_recurring t then 1 else 2) (ae_fresh e) of
        None \<Rightarrow> None
      | Some reservation \<Rightarrow>
          let a1 = a\<lparr>sa_tasks := (sa_tasks a)[idx := fired_task]\<rparr> in
          (case (if st_recurring t then map_option Some (next_fire_at (ae_add e) fired_task) else Some None) of
             None \<Rightarrow> None
           | Some next_fire \<Rightarrow>
               let (a2, outcome, sent) = (if ae_wired e then fire_as_loop_subagent e a1 t else (a1, Skipped, [])) in
               (case outcome of
                  Skipped \<Rightarrow>
                    (case find (\<lambda>u. st_id u = st_id t) (sa_tasks a2) of
                       None \<Rightarrow> Some (a2, sent)
                     | Some u \<Rightarrow> map_option (\<lambda>note. (a2, sent @ [note])) (task_created_payload e u (sa_clock a2)))
                | Spawned subagent_id \<Rightarrow>
                    map_option (\<lambda>(a3, notes). (a3, sent @ notes)) (commit_fire reservation a2 t next_fire subagent_id))))"

text \<open>The index of the first task that is due and not blocked; the outer option is the panic of the date library.\<close>

fun due_from :: "ActorEnv \<Rightarrow> string list \<Rightarrow> nat \<Rightarrow> ScheduledTask list \<Rightarrow> nat option option" where
  "due_from e blocked i [] = Some None"
| "due_from e blocked i (t # ts) =
     (case next_wake_at (ae_add e) t of
        None \<Rightarrow> None
      | Some wake \<Rightarrow>
          if wake \<le> ae_now e \<and> st_id t \<notin> set blocked then Some (Some i) else due_from e blocked (Suc i) ts)"

definition fire_next_task :: "ActorEnv \<Rightarrow> SchedulerActor \<Rightarrow> (SchedulerActor \<times> SchedulerNote list) option" where
  "fire_next_task e a =
     (case due_from e (sa_blocked a) 0 (sa_tasks a) of
        None \<Rightarrow> None
      | Some None \<Rightarrow> Some (a, [])
      | Some (Some idx) \<Rightarrow>
          let t = sa_tasks a ! idx; is_exp = st_recurring t \<and> is_expired t (ae_now e) in
          if is_exp \<and> st_durable t then expire_durable e a idx
          else if is_exp then expire_plain e a idx
          else fire_due e a idx)"

section \<open>Start and end of the actor\<close>

fun announce :: "ActorEnv \<Rightarrow> SchedulerVersion \<Rightarrow> ScheduledTask list \<Rightarrow> SchedulerNote list option" where
  "announce e version [] = Some []"
| "announce e version (t # ts) =
     (case (if st_recurring t then Some True else map_option (\<lambda>fire. ae_now e < fire) (next_fire_at (ae_add e) t)) of
        None \<Rightarrow> None
      | Some False \<Rightarrow> announce e version ts
      | Some True \<Rightarrow>
          (case task_created_payload e t version of
             None \<Rightarrow> None
           | Some note \<Rightarrow> map_option ((#) note) (announce e version ts)))"

definition announce_existing_tasks :: "ActorEnv \<Rightarrow> SchedulerActor \<Rightarrow> SchedulerNote list option" where
  "announce_existing_tasks e a = announce e (sa_clock a) (sa_tasks a)"

fun shutdown_loop :: "SchedulerReservation \<Rightarrow> SchedulerVersion \<Rightarrow> string list \<Rightarrow> (SchedulerVersion \<times> SchedulerNote list) option" where
  "shutdown_loop reservation clock [] = Some (clock, [])"
| "shutdown_loop reservation clock (task_id # ids) =
     (case commit_next reservation clock of
        None \<Rightarrow> None
      | Some (reservation', clock', commit) \<Rightarrow>
          map_option (\<lambda>(k, notes). (k, TaskRemoved task_id Shutdown (sc_version commit) # notes))
            (shutdown_loop reservation' clock' ids))"

definition shutdown :: "ActorEnv \<Rightarrow> SchedulerActor \<Rightarrow> (SchedulerVersion \<times> SchedulerNote list) option" where
  "shutdown e a =
     (let task_ids = map st_id (sa_tasks a) in
      if task_ids = [] then Some (sa_clock a, [])
      else case prepare_transition (sa_clock a) (length task_ids) (ae_fresh e) of
             None \<Rightarrow> None
           | Some reservation \<Rightarrow> shutdown_loop reservation (sa_clock a) task_ids)"

end
