(* ===== verification/Scheduler_Laws.thy ===== *)
theory Scheduler_Laws
  imports Scheduler_Actor
begin

text \<open>
  The steps of the scheduler actor as a transition system, its invariant, and what follows for a schedule:
  the actor panics only on a date out of range, a fire never overlaps with a running child of the same
  task, and a deleted task is never fired again.
\<close>

section \<open>Lists of tasks\<close>

abbreviation task_ids :: "SchedulerActor \<Rightarrow> string list" where
  "task_ids a \<equiv> map st_id (sa_tasks a)"

text \<open>An update in place that keeps the identity keeps the list of identities.\<close>

lemma ids_update: "st_id t = st_id (sa_tasks a ! i) \<Longrightarrow> map st_id ((sa_tasks a)[i := t]) = task_ids a"
  by (metis list_update_id list_update_beyond map_update not_less nth_map length_map)

lemma on_task_simps [simp]:
  "sa_clock (on_task i f a) = sa_clock a" "sa_pending (on_task i f a) = sa_pending a"
  "sa_blocked (on_task i f a) = sa_blocked a"
  by (simp_all add: on_task_def split: option.splits)

lemma on_task_ids: "(\<And>t. st_id (f t) = st_id t) \<Longrightarrow> task_ids (on_task i f a) = task_ids a"
  by (auto simp: on_task_def intro!: ids_update split: option.splits)

lemma patch_ids:
  "st_id (patch_prompt p t) = st_id t" "patch_interval e n t = Some t' \<Longrightarrow> st_id t' = st_id t"
  by (auto simp: patch_prompt_def patch_interval_def Let_def split: option.splits if_splits)

section \<open>The invariant\<close>

definition sched_inv :: "SchedulerActor \<Rightarrow> bool" where
  "sched_inv a \<longleftrightarrow>
     length (sa_tasks a) \<le> MAX_SCHEDULED_TASKS \<and> distinct (task_ids a) \<and> sv_revision (sa_clock a) \<le> u64_max
     \<and> (case sa_pending a of
          None \<Rightarrow> True
        | Some (task_id, r) \<Rightarrow> reserved (sa_clock a) r \<and> task_id \<notin> set (task_ids a))"

text \<open>
  The date library panics when an addition leaves its range. A task is datable when the two additions that a step makes for
  it stay in range: its interval after the last fire (or its creation), and after the present moment.
\<close>

definition datable :: "ActorEnv \<Rightarrow> ScheduledTask \<Rightarrow> bool" where
  "datable e t \<longleftrightarrow> next_fire_at (ae_add e) t \<noteq> None \<and> ae_add e (ae_now e) (as_i64 (st_interval_secs t)) \<noteq> None"

text \<open>The task a command stores: the new one, or the one that is updated, with its new interval.\<close>

fun command_datable :: "ActorEnv \<Rightarrow> SchedulerActor \<Rightarrow> SchedulerCommand \<Rightarrow> bool" where
  "command_datable e a (Create t) \<longleftrightarrow> datable e t"
| "command_datable e a (Update task_id prompt interval_secs) \<longleftrightarrow>
     (\<forall>t \<in> set (sa_tasks a). st_id t = task_id \<longrightarrow>
        (let t' = (case interval_secs of None \<Rightarrow> t | Some secs \<Rightarrow> t\<lparr>st_interval_secs := secs\<rparr>) in
         datable e t' \<and> ae_add e (ae_now2 e) (as_i64 (st_interval_secs t')) \<noteq> None))"
| "command_datable e a _ \<longleftrightarrow> True"

lemma datable_wake: "datable e t \<Longrightarrow> \<exists>w. next_wake_at (ae_add e) t = Some w"
  by (auto simp: datable_def next_wake_at_def split: option.splits)

lemma datable_fired: "datable e t \<Longrightarrow> datable e (t\<lparr>st_last_fired_at := Some (ae_now e)\<rparr>)"
  by (auto simp: datable_def next_fire_at_def)

lemma datable_payload: "datable e t \<Longrightarrow> task_created_payload e t v \<noteq> None"
  by (simp add: datable_def task_created_payload_def)

lemma patch_datable:
  assumes "datable e t'" and "ae_add e (ae_now2 e) (as_i64 (st_interval_secs t')) \<noteq> None"
    and t': "t' = (case n of None \<Rightarrow> t | Some secs \<Rightarrow> t\<lparr>st_interval_secs := secs\<rparr>)"
  shows "\<exists>u. patch_interval e n (patch_prompt p t) = Some u \<and> task_created_payload e u v \<noteq> None"
proof -
  have p: "st_last_fired_at (patch_prompt p t) = st_last_fired_at t" "st_created_at (patch_prompt p t) = st_created_at t"
    "st_interval_secs (patch_prompt p t) = st_interval_secs t"
    by (simp_all add: patch_prompt_def split: option.split)
  show ?thesis
  proof (cases n)
    case None
    with assms p show ?thesis by (auto simp: datable_def patch_interval_def task_created_payload_def next_fire_at_def
          cong: option.case_cong)
  next
    case (Some secs)
    let ?u = "(patch_prompt p t)\<lparr>st_interval_secs := secs\<rparr>"
    from Some assms p obtain f where f: "next_fire_at (ae_add e) ?u = Some f" by (auto simp: datable_def next_fire_at_def cong: option.case_cong)
    let ?v = "if f \<le> ae_now e then ?u\<lparr>st_last_fired_at := Some (ae_now2 e)\<rparr> else ?u"
    have "patch_interval e n (patch_prompt p t) = Some ?v" using Some f by (simp add: patch_interval_def Let_def)
    moreover have "next_fire_at (ae_add e) ?v \<noteq> None" using Some assms(2) t' f by (auto simp: next_fire_at_def)
    ultimately show ?thesis by (intro exI [of _ ?v]) (simp add: task_created_payload_def)
  qed
qed

text \<open>What decides when a task is due: everything but the chain of its children.\<close>

definition timing :: "ScheduledTask \<Rightarrow> ScheduledTask" where
  "timing t = t\<lparr>st_last_subagent_id := None, st_iterations_since_fresh := 0, st_chain_reset_pending := False\<rparr>"

lemma timing_simps [simp]:
  "st_id (timing t) = st_id t" "next_fire_at add (timing t) = next_fire_at add t"
  "next_wake_at add (timing t) = next_wake_at add t" "datable e (timing t) = datable e t"
  "timing (t\<lparr>st_last_subagent_id := x\<rparr>) = timing t" "timing (t\<lparr>st_iterations_since_fresh := n\<rparr>) = timing t"
  "timing (t\<lparr>st_chain_reset_pending := b\<rparr>) = timing t"
  by (simp_all add: timing_def next_fire_at_def next_wake_at_def datable_def split: option.split)

text \<open>
  A step that is total for datable tasks, keeps the invariant and adds no identities but the given ones.
\<close>

definition keeps_inv :: "bool \<Rightarrow> string set \<Rightarrow> (SchedulerActor \<times> 'r) option \<Rightarrow> bool" where
  "keeps_inv dated ids r \<longleftrightarrow>
     (case r of None \<Rightarrow> \<not> dated | Some (a', _) \<Rightarrow> sched_inv a' \<and> set (task_ids a') \<subseteq> ids)"

lemma keeps_invD:
  "keeps_inv dated ids r \<Longrightarrow> dated \<Longrightarrow> r \<noteq> None"
  "keeps_inv dated ids (Some (a', x)) \<Longrightarrow> sched_inv a' \<and> set (task_ids a') \<subseteq> ids"
  by (auto simp: keeps_inv_def split: option.splits)

text \<open>One version, reserved and committed at once.\<close>

lemma one_version:
  assumes "sv_revision clock \<le> u64_max"
  obtains r r' v where "prepare_transition clock 1 fresh = Some r" and "reserved clock r"
    and "version_at r 0 = Some v" and "commit_next r clock = Some (r', v, \<lparr>sc_version = v, sc_rollover = sr_rollover r\<rparr>)"
    and "sv_revision v \<le> u64_max"
proof -
  obtain r where r: "prepare_transition clock 1 fresh = Some r" "reserved clock r"
    using prepare_reserved [of 1 clock fresh] assms by (auto simp: MAX_SCHEDULER_TRANSITIONS_def)
  from r(2) obtain r' v where "commit_next r clock = Some (r', v, \<lparr>sc_version = v, sc_rollover = sr_rollover r\<rparr>)"
    and "version_at r 0 = Some v" and "sv_revision v = sr_next_revision r"
    by (rule commit_reserved) blast
  moreover have "sr_next_revision r \<le> u64_max" using r(2) by (simp add: reserved_def)
  ultimately show thesis using that r by simp
qed

text \<open>What every step leaves alone.\<close>

lemma reserved_top: "reserved clock r \<Longrightarrow> sv_revision clock \<le> u64_max \<Longrightarrow>
  \<exists>v. version_at r 0 = Some v \<and> (\<exists>r' c. commit_next r clock = Some (r', v, c)) \<and> sv_revision v \<le> u64_max"
proof -
  assume r: "reserved clock r"
  then obtain r' v where "commit_next r clock = Some (r', v, \<lparr>sc_version = v, sc_rollover = sr_rollover r\<rparr>)"
    and "version_at r 0 = Some v" and "sv_revision v = sr_next_revision r"
    by (rule commit_reserved) blast
  moreover have "sr_next_revision r \<le> u64_max" using r by (simp add: reserved_def)
  ultimately show ?thesis by auto
qed

lemma complete_inv:
  assumes "sched_inv a" and "sa_pending a = Some (task_id, r)"
  shows "\<exists>a' reply ns. complete_pending_removal e a = Some (a', reply, ns) \<and> sched_inv a' \<and> sa_tasks a' = sa_tasks a"
proof -
  from assms have "reserved (sa_clock a) r" "sv_revision (sa_clock a) \<le> u64_max" by (auto simp: sched_inv_def)
  from reserved_top [OF this] obtain v r' c where v: "version_at r 0 = Some v"
    and c: "commit_next r (sa_clock a) = Some (r', v, c)" and top: "sv_revision v \<le> u64_max" by blast
  show ?thesis
    using assms v c top
    by (cases "ae_persist e"; cases "ae_publish e") (simp_all add: complete_pending_removal_def sched_inv_def)
qed

text \<open>A new task has a new identity.\<close>

fun fresh_command :: "SchedulerActor \<Rightarrow> SchedulerCommand \<Rightarrow> bool" where
  "fresh_command a (Create t) \<longleftrightarrow> st_id t \<notin> set (task_ids a)"
| "fresh_command a _ \<longleftrightarrow> True"

fun created_id :: "SchedulerCommand \<Rightarrow> string option" where
  "created_id (Create t) = Some (st_id t)"
| "created_id _ = None"

lemma create_inv:
  assumes inv: "sched_inv a" and new: "st_id t \<notin> set (task_ids a)"
  shows "keeps_inv (datable e t) (insert (st_id t) (set (task_ids a))) (create_task e a t)"
proof (cases "sa_pending a = None \<and> length (sa_tasks a) < MAX_SCHEDULED_TASKS")
  case False
  with inv show ?thesis by (cases "sa_pending a") (auto simp: create_task_def keeps_inv_def)
next
  case True
  from inv have "sv_revision (sa_clock a) \<le> u64_max" by (simp add: sched_inv_def)
  then obtain r r' v where r: "prepare_transition (sa_clock a) 1 (ae_fresh e) = Some r"
    and c: "commit_next r (sa_clock a) = Some (r', v, \<lparr>sc_version = v, sc_rollover = sr_rollover r\<rparr>)"
    and v: "sv_revision v \<le> u64_max"
    by (rule one_version) blast
  from True r c have "create_task e a t
      = map_option (\<lambda>msg. (a\<lparr>sa_tasks := sa_tasks a @ [t], sa_clock := v\<rparr>, TaskReply (Inr t), [msg])) (task_created_payload e t v)"
    by (simp add: create_task_def)
  with inv True v new datable_payload [of e t v] show ?thesis
    by (cases "task_created_payload e t v") (auto simp: sched_inv_def keeps_inv_def)
qed

lemma update_inv:
  assumes inv: "sched_inv a"
  shows "keeps_inv (command_datable e a (Update task_id prompt secs)) (set (task_ids a)) (update_task e a task_id prompt secs)"
proof (cases "sa_pending a")
  case (Some p)
  with inv show ?thesis by (cases p) (simp add: update_task_def keeps_inv_def)
next
  case None
  show ?thesis
  proof (cases "position (\<lambda>t. st_id t = task_id) (sa_tasks a)")
    case (Some i)
    let ?t = "sa_tasks a ! i"
    from inv have "sv_revision (sa_clock a) \<le> u64_max" by (simp add: sched_inv_def)
    then obtain r r' v where r: "prepare_transition (sa_clock a) 1 (ae_fresh e) = Some r"
      and c: "commit_next r (sa_clock a) = Some (r', v, \<lparr>sc_version = v, sc_rollover = sr_rollover r\<rparr>)"
      and v: "sv_revision v \<le> u64_max"
      by (rule one_version) blast
    have eq: "update_task e a task_id prompt secs = Option.bind (patch_interval e secs (patch_prompt prompt ?t)) (\<lambda>t'.
        map_option (\<lambda>msg. (a\<lparr>sa_tasks := (sa_tasks a)[i := t'], sa_clock := v\<rparr>, TaskReply (Inr t'), [msg]))
          (task_created_payload e t' v))"
      using None Some r c by (simp add: update_task_def split: option.split)
    have ids: "map st_id ((sa_tasks a)[i := t']) = task_ids a" if "patch_interval e secs (patch_prompt prompt ?t) = Some t'" for t'
      using that by (intro ids_update) (simp add: patch_ids)
    have dated: "\<exists>t'. patch_interval e secs (patch_prompt prompt ?t) = Some t' \<and> task_created_payload e t' v \<noteq> None"
      if "command_datable e a (Update task_id prompt secs)"
      using that position_Some [OF Some] patch_datable [OF _ _ refl] by (auto simp: Let_def)
    show ?thesis
    proof (cases "update_task e a task_id prompt secs")
      case None
      with eq dated show ?thesis by (fastforce simp: keeps_inv_def)
    next
      case (Some res)
      with eq obtain t' msg where "patch_interval e secs (patch_prompt prompt ?t) = Some t'"
        "res = (a\<lparr>sa_tasks := (sa_tasks a)[i := t'], sa_clock := v\<rparr>, TaskReply (Inr t'), [msg])"
        by (auto simp: bind_eq_Some_conv dest!: sym [of "Some res"])
      with Some ids inv None v show ?thesis by (simp add: keeps_inv_def sched_inv_def del: set_map)
    qed
  qed (use inv None in \<open>simp add: update_task_def keeps_inv_def\<close>)
qed

lemma delete_inv:
  assumes inv: "sched_inv a"
  shows "\<exists>a' reply ns. delete_task e a task_id = Some (a', reply, ns) \<and> sched_inv a'
     \<and> set (task_ids a') \<subseteq> set (task_ids a) \<and> (reply = DeleteReply (Inr True) \<longrightarrow> task_id \<notin> set (task_ids a'))"
proof (cases "sa_pending a")
  case (Some p)
  obtain pid r where p: "p = (pid, r)" by fastforce
  with Some inv have nin: "pid \<notin> set (task_ids a)" by (simp add: sched_inv_def)
  show ?thesis
  proof (cases "pid = task_id")
    case True
    from complete_inv [OF inv Some [unfolded p], of e] obtain a' reply ns where
      "complete_pending_removal e a = Some (a', reply, ns)" "sched_inv a'" "sa_tasks a' = sa_tasks a" by blast
    with Some p True nin show ?thesis by (simp add: delete_task_def)
  qed (use Some p inv in \<open>simp add: delete_task_def\<close>)
next
  case None
  show ?thesis
  proof (cases "position (\<lambda>t. st_id t = task_id) (sa_tasks a)")
    case (Some i)
    then have i: "i < length (sa_tasks a)" "st_id (sa_tasks a ! i) = task_id" by (auto dest: position_Some)
    show ?thesis
    proof (cases "ae_durable_target e")
      case True
      from inv have "sv_revision (sa_clock a) \<le> u64_max" by (simp add: sched_inv_def)
      then obtain r where r: "prepare_transition (sa_clock a) 1 (ae_fresh e) = Some r" "reserved (sa_clock a) r"
        by (rule one_version) blast
      let ?b = "a\<lparr>sa_tasks := remove_at i (sa_tasks a), sa_pending := Some (task_id, r)\<rparr>"
      have gone: "task_id \<notin> set (task_ids ?b)" and dist: "distinct (task_ids ?b)"
        using distinct_remove_at [of "task_ids a" i] inv i by (auto simp: sched_inv_def map_remove_at)
      have sub: "set (task_ids ?b) \<subseteq> set (task_ids a)" using set_remove_at [of i "sa_tasks a"] by auto
      have "length (sa_tasks ?b) \<le> MAX_SCHEDULED_TASKS"
        using inv length_remove_at [of i "sa_tasks a"] by (simp add: sched_inv_def)
      with inv r(2) gone dist have "sched_inv ?b" by (simp add: sched_inv_def)
      then obtain a' reply ns where "complete_pending_removal e ?b = Some (a', reply, ns)" "sched_inv a'"
        "sa_tasks a' = sa_tasks ?b"
        using complete_inv [of ?b task_id r e] by auto
      with None Some True r sub gone show ?thesis by (simp add: delete_task_def)
    qed (use None Some inv in \<open>simp add: delete_task_def\<close>)
  qed (use inv None in \<open>simp add: delete_task_def\<close>)
qed

lemma command_inv:
  assumes "sched_inv a" and "fresh_command a cmd"
  shows "keeps_inv (command_datable e a cmd) (set (task_ids a) \<union> set_option (created_id cmd)) (handle_command e a cmd)"
proof (cases cmd)
  case (Create t)
  with create_inv [of a t e] assms show ?thesis by simp
next
  case (Update i p n)
  with update_inv [OF assms(1), of e i p n] show ?thesis by simp
next
  case (Delete i)
  with delete_inv [of a e i] assms show ?thesis by (auto simp: keeps_inv_def)
next
  case ListTasks
  with assms show ?thesis by (simp add: keeps_inv_def)
qed

section \<open>Firing\<close>

lemma due_from_total: "\<forall>t \<in> set ts. datable e t \<Longrightarrow> \<exists>r. due_from e blocked k ts = Some r"
proof (induction ts arbitrary: k)
  case (Cons t ts)
  obtain w where "next_wake_at (ae_add e) t = Some w" using datable_wake Cons.prems by fastforce
  with Cons show ?case by simp
qed simp

lemma due_from_Some:
  "due_from e blocked k ts = Some (Some i) \<Longrightarrow>
     k \<le> i \<and> i < k + length ts \<and> st_id (ts ! (i - k)) \<notin> set blocked
     \<and> (\<exists>wake. next_wake_at (ae_add e) (ts ! (i - k)) = Some wake \<and> wake \<le> ae_now e)"
proof (induction ts arbitrary: k)
  case (Cons t ts)
  show ?case
  proof (cases "\<exists>wake. next_wake_at (ae_add e) t = Some wake \<and> wake \<le> ae_now e \<and> st_id t \<notin> set blocked")
    case True
    with Cons.prems show ?thesis by auto
  next
    case False
    with Cons.prems have "due_from e blocked (Suc k) ts = Some (Some i)" by (auto split: option.splits if_splits)
    from Cons.IH [OF this] show ?thesis by (auto simp: nth_Cons' Suc_diff_Suc)
  qed
qed simp

lemma fire_as_loop_keeps:
  assumes "fire_as_loop_subagent e a t = (a', outcome, sent)"
  shows "sa_clock a' = sa_clock a \<and> sa_pending a' = sa_pending a \<and> sa_blocked a' = sa_blocked a \<and> task_ids a' = task_ids a"
  using assms
  by (auto simp: fire_as_loop_subagent_def Let_def restore_fire_anchor_def on_task_ids
      split: if_splits prod.splits option.splits Registration.splits)

lemma on_task_timing:
  assumes "\<And>t. timing (f t) = timing t"
  shows "map timing (sa_tasks (on_task x f a)) = map timing (sa_tasks a)"
  using assms by (auto simp: on_task_def map_update nth_map split: option.splits)
    (metis list_update_beyond list_update_id map_update not_le_imp_less nth_map length_map)

lemma fire_as_loop_timing:
  assumes "fire_as_loop_subagent e a t = (a', outcome, sent)"
  shows "map timing (sa_tasks a') = map timing (sa_tasks a)"
  using assms
  by (auto simp: fire_as_loop_subagent_def Let_def restore_fire_anchor_def on_task_timing
      split: if_splits prod.splits option.splits Registration.splits)

lemma fire_as_loop_sent:
  assumes "fire_as_loop_subagent e a t = (a', outcome, sent)"
  shows "(sent = [] \<or> \<not> previous_running e t
       \<and> sent = [SpawnSent (st_id t) (ae_new_id e) (fst (chain_plan t (ae_query e))) (fst (snd (chain_plan t (ae_query e))))])
     \<and> (\<forall>sid. outcome = Spawned sid \<longrightarrow> sid = ae_new_id e \<and> sent \<noteq> [] \<and> ae_registration e \<in> {RegStarted, RegTimedOut})"
  using assms
  by (auto simp: fire_as_loop_subagent_def Let_def split: if_splits prod.splits option.splits Registration.splits)

lemma two_versions:
  assumes "sv_revision clock \<le> u64_max"
  obtains r r1 r2 v1 v2 c1 c2 where "prepare_transition clock 2 fresh = Some r"
    and "commit_next r clock = Some (r1, v1, c1)" and "commit_next r1 v1 = Some (r2, v2, c2)"
    and "sv_revision v2 \<le> u64_max"
proof -
  obtain r where r: "prepare_transition clock 2 fresh = Some r" "reserved clock r" "sr_remaining r = 2"
    using prepare_reserved [of 2 clock fresh] assms by (auto simp: MAX_SCHEDULER_TRANSITIONS_def)
  from r(2) obtain r1 v1 where c: "commit_next r clock = Some (r1, v1, \<lparr>sc_version = v1, sc_rollover = sr_rollover r\<rparr>)"
    and rest: "1 < sr_remaining r \<Longrightarrow> reserved v1 r1" and v1: "sv_revision v1 = sr_next_revision r"
    by (rule commit_reserved) blast
  have "sv_revision v1 \<le> u64_max" using r(2) v1 by (simp add: reserved_def)
  then obtain v2 r2 c2 where "commit_next r1 v1 = Some (r2, v2, c2)" "sv_revision v2 \<le> u64_max"
    using reserved_top rest r(3) by (metis one_less_numeral_iff semiring_norm(76))
  with r c show thesis using that by blast
qed

lemma expire_inv:
  assumes inv: "sched_inv a" and none: "sa_pending a = None" and i: "i < length (sa_tasks a)"
  shows "\<exists>a' ns. expire_durable e a i = Some (a', ns) \<and> sched_inv a' \<and> sa_pending a' = None
       \<and> set (task_ids a') \<subseteq> set (task_ids a)" (is ?dur)
    and "\<exists>a' ns. expire_plain e a i = Some (a', ns) \<and> sched_inv a' \<and> sa_pending a' = None
       \<and> set (task_ids a') \<subseteq> set (task_ids a)" (is ?plain)
proof -
  from inv have "sv_revision (sa_clock a) \<le> u64_max" by (simp add: sched_inv_def)
  then obtain r r' v where r: "prepare_transition (sa_clock a) 1 (ae_fresh e) = Some r"
    and at: "version_at r 0 = Some v"
    and c: "commit_next r (sa_clock a) = Some (r', v, \<lparr>sc_version = v, sc_rollover = sr_rollover r\<rparr>)"
    and v: "sv_revision v \<le> u64_max"
    by (rule one_version) blast
  have dist: "distinct (map st_id (remove_at i (sa_tasks a)))"
    using distinct_remove_at [of "task_ids a" i] inv i by (simp add: sched_inv_def map_remove_at)
  have len: "length (remove_at i (sa_tasks a)) \<le> MAX_SCHEDULED_TASKS"
    using inv length_remove_at [of i "sa_tasks a"] by (simp add: sched_inv_def)
  have sub: "st_id ` set (remove_at i (sa_tasks a)) \<subseteq> st_id ` set (sa_tasks a)"
    using set_remove_at [of i "sa_tasks a"] by auto
  show ?dur
    using r at c v dist len sub inv none
    by (cases "ae_expiry e"; cases "ae_publish e"; cases "ae_durable_target e")
      (simp_all add: expire_durable_def Let_def sched_inv_def)
  show ?plain
    using r c v dist len sub inv none by (simp add: expire_plain_def sched_inv_def)
qed

lemma commit_fire_inv:
  assumes inv: "sched_inv a" and none: "sa_pending a = None"
    and r: "prepare_transition (sa_clock a) (if st_recurring t then 1 else 2) fresh = Some r"
  shows "\<exists>a' ns. commit_fire r a t nf sid = Some (a', ns) \<and> sched_inv a' \<and> sa_pending a' = None
     \<and> set (task_ids a') \<subseteq> set (task_ids a)"
proof -
  have top: "sv_revision (sa_clock a) \<le> u64_max" using inv by (simp add: sched_inv_def)
  show ?thesis
  proof (cases "st_recurring t")
    case True
    from top obtain r' r1 v where "prepare_transition (sa_clock a) 1 fresh = Some r'"
      and "commit_next r' (sa_clock a) = Some (r1, v, \<lparr>sc_version = v, sc_rollover = sr_rollover r'\<rparr>)"
      and "sv_revision v \<le> u64_max"
      by (rule one_version) blast
    with True r inv none show ?thesis by (auto simp: commit_fire_def sched_inv_def)
  next
    case False
    from top obtain r' r1 r2 v1 v2 c1 c2 where "prepare_transition (sa_clock a) 2 fresh = Some r'"
      and "commit_next r' (sa_clock a) = Some (r1, v1, c1)" and "commit_next r1 v1 = Some (r2, v2, c2)"
      and "sv_revision v2 \<le> u64_max"
      by (rule two_versions) blast
    moreover have "distinct (map st_id (filter (\<lambda>u. st_id u \<noteq> st_id t) (sa_tasks a)))"
      using inv by (simp add: sched_inv_def distinct_map inj_on_def)
    moreover have "length (filter (\<lambda>u. st_id u \<noteq> st_id t) (sa_tasks a)) \<le> MAX_SCHEDULED_TASKS"
      using inv le_trans [OF length_filter_le] by (auto simp: sched_inv_def)
    ultimately show ?thesis using False r inv none by (auto simp: commit_fire_def sched_inv_def)
  qed
qed

lemma commit_fire_notes:
  "commit_fire r a t nf sid = Some (a', ns) \<Longrightarrow>
     \<exists>v w. ns = TaskFired (st_id t) (st_prompt t) (interval_to_human (st_interval_secs t)) nf sid v
          # (if st_recurring t then [] else [TaskRemoved (st_id t) Completed w])"
  by (auto simp: commit_fire_def Let_def split: option.splits prod.splits if_splits)

text \<open>The parts of a fire: what is sent to the coordinator, and what follows.\<close>

lemma fire_due_split:
  assumes "fire_due e a i = Some (a', ns)" and t: "t = sa_tasks a ! i"
  obtains (skip) a2 sent tail where "ns = sent @ tail" and "sent = [] \<or> (\<exists>oc. fire_as_loop_subagent e
        (a\<lparr>sa_tasks := (sa_tasks a)[i := t\<lparr>st_last_fired_at := Some (ae_now e)\<rparr>]\<rparr>) t = (a2, oc, sent))"
      and "\<forall>m \<in> set tail. \<exists>u. task_created_payload e u (sa_clock a2) = Some m"
  | (fired) a2 sent tail sid r nf where "ns = sent @ tail" and "fire_as_loop_subagent e
        (a\<lparr>sa_tasks := (sa_tasks a)[i := t\<lparr>st_last_fired_at := Some (ae_now e)\<rparr>]\<rparr>) t = (a2, Spawned sid, sent)"
      and "commit_fire r a2 t nf sid = Some (a', tail)"
proof -
  let ?a1 = "a\<lparr>sa_tasks := (sa_tasks a)[i := t\<lparr>st_last_fired_at := Some (ae_now e)\<rparr>]\<rparr>"
  obtain a2 outcome sent where loop: "(if ae_wired e then fire_as_loop_subagent e ?a1 t else (?a1, Skipped, [])) = (a2, outcome, sent)"
    by (metis prod.exhaust)
  from assms(1) obtain r nf where rest: "(case outcome of
      Skipped \<Rightarrow> (case find (\<lambda>u. st_id u = st_id t) (sa_tasks a2) of
          None \<Rightarrow> Some (a2, sent)
        | Some u \<Rightarrow> map_option (\<lambda>note. (a2, sent @ [note])) (task_created_payload e u (sa_clock a2)))
    | Spawned subagent_id \<Rightarrow>
        map_option (\<lambda>(a3, notes). (a3, sent @ notes)) (commit_fire r a2 t nf subagent_id)) = Some (a', ns)"
    unfolding fire_due_def Let_def t [symmetric] loop by (auto split: option.splits)
  show thesis
  proof (cases outcome)
    case (Spawned sid)
    with loop have "fire_as_loop_subagent e ?a1 t = (a2, Spawned sid, sent)" by (auto split: if_splits)
    with rest Spawned fired show thesis by auto
  next
    case Skipped
    have "sent = [] \<or> (\<exists>oc. fire_as_loop_subagent e ?a1 t = (a2, oc, sent))" using loop by (auto split: if_splits)
    moreover from rest Skipped obtain tail where "ns = sent @ tail"
      and "\<forall>m \<in> set tail. \<exists>u. task_created_payload e u (sa_clock a2) = Some m"
      by (cases "find (\<lambda>u. st_id u = st_id t) (sa_tasks a2)") fastforce+
    ultimately show thesis by (intro skip) auto
  qed
qed

text \<open>The resumed transcript is that of the completed previous child, in a chain that is not due for a restart.\<close>

lemma chain_plan_resume:
  "chain_plan t q = (Some p, ps, n) \<Longrightarrow>
     st_last_subagent_id t = Some p \<and> \<not> st_chain_reset_pending t \<and> st_iterations_since_fresh t < LOOP_FRESH_CHAIN_EVERY
     \<and> (\<exists>out. q = QueryCompleted out)"
  by (auto simp: chain_plan_def Let_def split: if_splits QueryReply.splits option.splits)

lemma expire_notes:
  "expire_durable e a i = Some (a', ns) \<Longrightarrow> \<forall>m \<in> set ns. \<exists>v. m = TaskRemoved (st_id (sa_tasks a ! i)) Expired v"
  "expire_plain e a i = Some (a', ns) \<Longrightarrow> \<forall>m \<in> set ns. \<exists>v. m = TaskRemoved (st_id (sa_tasks a ! i)) Expired v"
  by (auto simp: expire_durable_def expire_plain_def Let_def
      split: if_splits option.splits prod.splits ExpiryPersistenceOutcome.splits)

lemma fire_due_spawn:
  assumes "fire_due e a i = Some (a', ns)" and "SpawnSent x sid rf ps \<in> set ns"
  shows "x = st_id (sa_tasks a ! i) \<and> \<not> previous_running e (sa_tasks a ! i)
     \<and> fst (chain_plan (sa_tasks a ! i) (ae_query e)) = rf"
  using assms(1) refl
proof (cases rule: fire_due_split)
  case (skip a2 sent tail)
  from skip(3) have "SpawnSent x sid rf ps \<notin> set tail" by (auto simp: task_created_payload_def)
  with assms(2) skip(1,2) show ?thesis by (auto dest!: fire_as_loop_sent)
next
  case (fired a2 sent tail sid' r nf)
  from commit_fire_notes [OF fired(3)] have "SpawnSent x sid rf ps \<notin> set tail" by (auto split: if_splits)
  with assms(2) fired(1) fire_as_loop_sent [OF fired(2)] show ?thesis by auto
qed

lemma fire_due_fired:
  assumes "fire_due e a i = Some (a', ns)"
    and "TaskFired x p h nf sid v \<in> set ns \<or> TaskRemoved x why v \<in> set ns"
  shows "x = st_id (sa_tasks a ! i)"
    and "\<exists>rf ps. SpawnSent x (ae_new_id e) rf ps \<in> set ns" and "ae_registration e \<in> {RegStarted, RegTimedOut}"
    and "\<exists>p h nf v. TaskFired x p h nf (ae_new_id e) v \<in> set ns"
    and "TaskFired x p h nf sid v \<in> set ns \<Longrightarrow> sid = ae_new_id e"
    and "TaskRemoved x why v \<in> set ns \<Longrightarrow> why = Completed \<and> \<not> st_recurring (sa_tasks a ! i)"
proof -
  have "x = st_id (sa_tasks a ! i) \<and> (\<exists>rf ps. SpawnSent x (ae_new_id e) rf ps \<in> set ns) \<and> ae_registration e \<in> {RegStarted, RegTimedOut}
    \<and> (\<exists>p h nf v. TaskFired x p h nf (ae_new_id e) v \<in> set ns)
    \<and> (TaskFired x p h nf sid v \<in> set ns \<longrightarrow> sid = ae_new_id e)
    \<and> (TaskRemoved x why v \<in> set ns \<longrightarrow> why = Completed \<and> \<not> st_recurring (sa_tasks a ! i))"
    using assms(1) refl
  proof (cases rule: fire_due_split)
    case (skip a2 sent tail)
    from skip(3) have "TaskFired x p h nf sid v \<notin> set tail" "TaskRemoved x why v \<notin> set tail"
      by (auto simp: task_created_payload_def)
    with assms(2) skip(1,2) show ?thesis by (auto dest!: fire_as_loop_sent)
  next
    case (fired a2 sent tail sid' r nf')
    with assms(2) fire_as_loop_sent [OF fired(2)] commit_fire_notes [OF fired(3)] show ?thesis
      by (auto split: if_splits)
  qed
  then show "x = st_id (sa_tasks a ! i)" and "\<exists>rf ps. SpawnSent x (ae_new_id e) rf ps \<in> set ns"
    and "ae_registration e \<in> {RegStarted, RegTimedOut}" and "\<exists>p h nf v. TaskFired x p h nf (ae_new_id e) v \<in> set ns"
    and "TaskFired x p h nf sid v \<in> set ns \<Longrightarrow> sid = ae_new_id e"
    and "TaskRemoved x why v \<in> set ns \<Longrightarrow> why = Completed \<and> \<not> st_recurring (sa_tasks a ! i)"
    by blast+
qed

lemma attempt_datable:
  assumes "map timing (sa_tasks a2) = map timing ((sa_tasks a)[i := t\<lparr>st_last_fired_at := Some (ae_now e)\<rparr>])"
    and "t \<in> set (sa_tasks a)" and every: "\<forall>t \<in> set (sa_tasks a). datable e t" and "u \<in> set (sa_tasks a2)"
  shows "datable e u"
proof -
  from assms(4) have "timing u \<in> set (map timing (sa_tasks a2))" by simp
  with assms(1) obtain v where "timing u = timing v" and "v = t\<lparr>st_last_fired_at := Some (ae_now e)\<rparr> \<or> v \<in> set (sa_tasks a)"
    using set_update_subset_insert [of "sa_tasks a" i] by auto
  with every assms(2) datable_fired [of e t] show ?thesis by (metis timing_simps(4))
qed

lemma fire_due_inv:
  assumes inv: "sched_inv a" and none: "sa_pending a = None" and i: "i < length (sa_tasks a)"
  shows "keeps_inv (\<forall>t \<in> set (sa_tasks a). datable e t) (set (task_ids a)) (fire_due e a i)"
proof -
  let ?t = "sa_tasks a ! i"
  let ?a1 = "a\<lparr>sa_tasks := (sa_tasks a)[i := ?t\<lparr>st_last_fired_at := Some (ae_now e)\<rparr>]\<rparr>"
  have top: "sv_revision (sa_clock a) \<le> u64_max" using inv by (simp add: sched_inv_def)
  obtain r where r: "prepare_transition (sa_clock a) (if st_recurring ?t then 1 else 2) (ae_fresh e) = Some r"
    using one_version [OF top] two_versions [OF top] by metis
  obtain a2 outcome sent where loop: "(if ae_wired e then fire_as_loop_subagent e ?a1 ?t else (?a1, Skipped, [])) = (a2, outcome, sent)"
    by (metis prod.exhaust)
  have ids1: "task_ids ?a1 = task_ids a" using ids_update [of "?t\<lparr>st_last_fired_at := Some (ae_now e)\<rparr>" a i] by simp
  have a2: "sa_clock a2 = sa_clock a" "sa_pending a2 = None" "task_ids a2 = task_ids a"
    using loop fire_as_loop_keeps [of e ?a1 ?t a2 outcome sent] ids1 none by (auto split: if_splits)
  then have "length (sa_tasks a2) = length (sa_tasks a)" by (metis length_map)
  with a2 inv have inv2: "sched_inv a2" by (simp add: sched_inv_def)
  have same: "map timing (sa_tasks a2) = map timing (sa_tasks ?a1)"
    using loop fire_as_loop_timing [of e ?a1 ?t] by (auto split: if_splits)
  have dated: "task_created_payload e u v \<noteq> None" if "u \<in> set (sa_tasks a2)" "\<forall>t \<in> set (sa_tasks a). datable e t" for u v
    using attempt_datable [OF _ _ that(2,1), of i ?t] same i by (intro datable_payload) simp
  let ?nf = "if st_recurring ?t then map_option Some (next_fire_at (ae_add e) (?t\<lparr>st_last_fired_at := Some (ae_now e)\<rparr>)) else Some None"
  show ?thesis
  proof (cases ?nf)
    case None
    then have "\<not> datable e ?t" by (auto simp: datable_def next_fire_at_def split: if_splits)
    with i None r show ?thesis by (auto simp: fire_due_def Let_def keeps_inv_def)
  next
    case (Some nf)
    have eq: "fire_due e a i = (case outcome of
        Skipped \<Rightarrow> (case find (\<lambda>u. st_id u = st_id ?t) (sa_tasks a2) of
            None \<Rightarrow> Some (a2, sent)
          | Some u \<Rightarrow> map_option (\<lambda>note. (a2, sent @ [note])) (task_created_payload e u (sa_clock a2)))
      | Spawned subagent_id \<Rightarrow>
          map_option (\<lambda>(a3, notes). (a3, sent @ notes)) (commit_fire r a2 ?t nf subagent_id))"
      unfolding fire_due_def Let_def loop r Some by simp
    show ?thesis
    proof (cases outcome)
      case (Spawned sid)
      from commit_fire_inv [OF inv2 a2(2), of ?t "ae_fresh e" r nf sid] r a2
      obtain a3 ns where "commit_fire r a2 ?t nf sid = Some (a3, ns)" "sched_inv a3" "set (task_ids a3) \<subseteq> set (task_ids a)"
        by auto
      with eq Spawned show ?thesis by (simp add: keeps_inv_def)
    next
      case Skipped
      show ?thesis
      proof (cases "find (\<lambda>u. st_id u = st_id ?t) (sa_tasks a2)")
        case None
        with eq Skipped inv2 a2 show ?thesis by (simp add: keeps_inv_def del: set_map)
      next
        case (Some u)
        then have "u \<in> set (sa_tasks a2)" by (auto simp: find_Some_iff)
        with Some eq Skipped inv2 a2 dated [of u "sa_clock a2"] show ?thesis
          by (cases "task_created_payload e u (sa_clock a2)") (auto simp: keeps_inv_def simp del: set_map)
      qed
    qed
  qed
qed

lemma fire_inv:
  assumes inv: "sched_inv a" and none: "sa_pending a = None"
  shows "keeps_inv (\<forall>t \<in> set (sa_tasks a). datable e t) (set (task_ids a)) (fire_next_task e a)"
proof (cases "due_from e (sa_blocked a) 0 (sa_tasks a)")
  case None
  then have "\<not> (\<forall>t \<in> set (sa_tasks a). datable e t)" using due_from_total [of "sa_tasks a" e "sa_blocked a" 0] by auto
  with None show ?thesis by (simp add: fire_next_task_def keeps_inv_def)
next
  case (Some d)
  show ?thesis
  proof (cases d)
    case None
    with Some inv show ?thesis by (simp add: fire_next_task_def keeps_inv_def)
  next
    case d: (Some i)
    with Some have i: "i < length (sa_tasks a)" by (auto dest: due_from_Some)
    note parts = expire_inv [OF inv none i, of e] fire_due_inv [OF inv none i, of e]
    from Some d parts show ?thesis unfolding fire_next_task_def Let_def by (auto simp: keeps_inv_def)
  qed
qed

lemma shutdown_loop_total:
  "reserved clock r \<Longrightarrow> length ids \<le> sr_remaining r \<Longrightarrow> \<exists>k ns. shutdown_loop r clock ids = Some (k, ns)"
proof (induction ids arbitrary: r clock)
  case (Cons x ids)
  from Cons.prems(1) obtain r' v where c: "commit_next r clock = Some (r', v, \<lparr>sc_version = v, sc_rollover = sr_rollover r\<rparr>)"
    and rem: "sr_remaining r' = sr_remaining r - 1" and res: "1 < sr_remaining r \<Longrightarrow> reserved v r'"
    by (rule commit_reserved) blast
  show ?case
  proof (cases ids)
    case Nil
    with c show ?thesis by simp
  next
    case (Cons y ys)
    with Cons.prems(2) res rem have "reserved v r'" "length ids \<le> sr_remaining r'" by auto
    from Cons.IH [OF this] c show ?thesis by auto
  qed
qed simp

lemma shutdown_total:
  assumes "sched_inv a"
  shows "\<exists>k ns. shutdown e a = Some (k, ns)"
proof (cases "sa_tasks a = []")
  case False
  then have "0 < length (task_ids a)" "length (task_ids a) \<le> MAX_SCHEDULER_TRANSITIONS" "sv_revision (sa_clock a) \<le> u64_max"
    using assms by (auto simp: sched_inv_def MAX_SCHEDULED_TASKS_def MAX_SCHEDULER_TRANSITIONS_def)
  then obtain r where "prepare_transition (sa_clock a) (length (task_ids a)) (ae_fresh e) = Some r" "reserved (sa_clock a) r"
    "sr_remaining r = length (task_ids a)" using prepare_reserved by metis
  with False shutdown_loop_total [of "sa_clock a" r "task_ids a"] show ?thesis by (simp add: shutdown_def Let_def)
qed (simp add: shutdown_def)

section \<open>Runs\<close>

text \<open>
  The loop of the actor: a command, a fire while no removal is pending, or the clean-up after a failed child. The
  label is the identity a command creates and what the step sends.
\<close>

inductive sched_step :: "SchedulerActor \<Rightarrow> string option \<Rightarrow> SchedulerNote list \<Rightarrow> SchedulerActor \<Rightarrow> bool" where
  command: "handle_command e a cmd = Some (a', reply, ns) \<Longrightarrow> fresh_command a cmd \<Longrightarrow> sched_step a (created_id cmd) ns a'"
| fire: "fire_next_task e a = Some (a', ns) \<Longrightarrow> sa_pending a = None \<Longrightarrow> sched_step a None ns a'"
| child: "sched_step a None [] (child_failed subagent_id a)"

inductive sched_run :: "SchedulerActor \<Rightarrow> (string option \<times> SchedulerNote list) list \<Rightarrow> SchedulerActor \<Rightarrow> bool" where
  stop: "sched_run a [] a"
| step: "sched_step a made ns a1 \<Longrightarrow> sched_run a1 trace a2 \<Longrightarrow> sched_run a ((made, ns) # trace) a2"

inductive_cases sched_step_elim: "sched_step a made ns a'"

lemma child_failed_ids: "task_ids (child_failed sid a) = task_ids a"
  unfolding child_failed_def by (auto intro!: ids_update split: option.splits)

lemma child_failed_inv: "sched_inv a \<Longrightarrow> sched_inv (child_failed sid a)"
proof -
  assume "sched_inv a"
  moreover have "length (sa_tasks (child_failed sid a)) = length (sa_tasks a)" by (metis child_failed_ids length_map)
  moreover have "sa_clock (child_failed sid a) = sa_clock a" "sa_pending (child_failed sid a) = sa_pending a"
    by (simp_all add: child_failed_def split: option.splits)
  ultimately show ?thesis by (auto simp: sched_inv_def child_failed_ids simp del: set_map split: option.splits)
qed

lemma sched_step_inv:
  assumes "sched_step a made ns a'" and "sched_inv a"
  shows "sched_inv a' \<and> set (task_ids a') \<subseteq> set (task_ids a) \<union> set_option made"
  using assms(1)
proof cases
  case (command e cmd reply)
  with command_inv [OF assms(2) command(3), of e] show ?thesis by (auto simp: keeps_inv_def)
next
  case (fire e)
  with fire_inv [OF assms(2) fire(3), of e] show ?thesis by (auto simp: keeps_inv_def)
next
  case (child sid)
  with child_failed_inv [OF assms(2)] child_failed_ids show ?thesis by simp
qed

text \<open>
  C34: The scheduler keeps its invariant, and only a date out of range makes it panic. Take any run of commands, fires and
  clean-ups that panics nowhere, from a state with at most 50 tasks of different identities, a revision of 64 bits and no
  pending removal, in which every created task has an identity that is not scheduled (the tool draws it at random; the
  actor does not check it). In the state it reaches there are at most 50 tasks, their identities differ,
  the revision fits in 64 bits, and a pending removal holds a reservation that matches the clock and a task that is
  gone. There the shutdown succeeds; a command of this kind succeeds without a failed assertion when the dates of the task
  it stores are in range; and so does a fire, while no removal is pending, when those of the scheduled tasks are.
\<close>

theorem scheduler_invariant:
  assumes "sched_run a trace a'" and "length (sa_tasks a) \<le> 50" and "distinct (map st_id (sa_tasks a))"
    and "sv_revision (sa_clock a) \<le> u64_max" and "sa_pending a = None"
  shows "sched_inv a'
     \<and> (\<forall>e cmd. fresh_command a' cmd \<longrightarrow> command_datable e a' cmd \<longrightarrow> handle_command e a' cmd \<noteq> None)
     \<and> (\<forall>e. (\<forall>t \<in> set (sa_tasks a'). datable e t) \<longrightarrow> sa_pending a' = None \<longrightarrow> fire_next_task e a' \<noteq> None)
     \<and> (\<forall>e. shutdown e a' \<noteq> None)"
proof -
  have "sched_inv a" using assms(2-5) by (simp add: sched_inv_def MAX_SCHEDULED_TASKS_def)
  with assms(1) have inv: "sched_inv a'" by (induction rule: sched_run.induct) (auto dest: sched_step_inv)
  have "handle_command e a' cmd \<noteq> None" if "fresh_command a' cmd" "command_datable e a' cmd" for e cmd
    using keeps_invD(1) [OF command_inv [OF inv that(1)] that(2)] .
  moreover have "fire_next_task e a' \<noteq> None" if "\<forall>t \<in> set (sa_tasks a'). datable e t" "sa_pending a' = None" for e
    using keeps_invD(1) [OF fire_inv [OF inv that(2)] that(1)] .
  moreover have "shutdown e a' \<noteq> None" for e using shutdown_total [OF inv, of e] by auto
  ultimately show ?thesis using inv by blast
qed

text \<open>The three shapes of a fire.\<close>

lemma fire_shapes:
  assumes "fire_next_task e a = Some (a', ns)"
  obtains (idle) "ns = []"
    | (expired) i where "\<forall>m \<in> set ns. \<exists>v. m = TaskRemoved (st_id (sa_tasks a ! i)) Expired v"
    | (due) i where "due_from e (sa_blocked a) 0 (sa_tasks a) = Some (Some i)" and "fire_due e a i = Some (a', ns)"
        and "\<not> (st_recurring (sa_tasks a ! i) \<and> is_expired (sa_tasks a ! i) (ae_now e))"
proof (cases "due_from e (sa_blocked a) 0 (sa_tasks a)")
  case (Some d)
  show thesis
  proof (cases d)
    case None
    with assms Some idle show thesis by (simp add: fire_next_task_def)
  next
    case d: (Some i)
    let ?t = "sa_tasks a ! i"
    show thesis
    proof (cases "st_recurring ?t \<and> is_expired ?t (ae_now e)")
      case True
      with assms Some d have "expire_durable e a i = Some (a', ns) \<or> expire_plain e a i = Some (a', ns)"
        by (auto simp: fire_next_task_def Let_def split: if_splits)
      then have "\<forall>m \<in> set ns. \<exists>v. m = TaskRemoved (st_id ?t) Expired v"
        using expire_notes(1) [of e a i a' ns] expire_notes(2) [of e a i a' ns] by blast
      then show thesis by (rule expired)
    next
      case False
      with assms Some d have "fire_due e a i = Some (a', ns)" by (auto simp: fire_next_task_def Let_def)
      with Some d False due show thesis by blast
    qed
  qed
qed (use assms in \<open>simp add: fire_next_task_def\<close>)

lemma fire_spawn:
  assumes "fire_next_task e a = Some (a', ns)" and sent: "SpawnSent x sid rf ps \<in> set ns"
  shows "\<exists>t wake. t \<in> set (sa_tasks a) \<and> st_id t = x \<and> next_wake_at (ae_add e) t = Some wake \<and> wake \<le> ae_now e
     \<and> x \<notin> set (sa_blocked a) \<and> \<not> (st_recurring t \<and> is_expired t (ae_now e))
     \<and> (st_last_subagent_id t = None \<or> ae_query e \<notin> {QueryFailed, QueryActive} \<and> ae_unit e = UnitIdle)
     \<and> (\<forall>p. rf = Some p \<longrightarrow> st_last_subagent_id t = Some p \<and> \<not> st_chain_reset_pending t
          \<and> st_iterations_since_fresh t < LOOP_FRESH_CHAIN_EVERY \<and> (\<exists>out. ae_query e = QueryCompleted out))"
  using assms(1)
proof (cases rule: fire_shapes)
  case (due i)
  let ?t = "sa_tasks a ! i"
  from due_from_Some [OF due(1)] obtain wake where i: "?t \<in> set (sa_tasks a)" "st_id ?t \<notin> set (sa_blocked a)"
    "next_wake_at (ae_add e) ?t = Some wake" "wake \<le> ae_now e" by auto
  note spawn = fire_due_spawn [OF due(2) sent]
  from spawn have ended: "st_last_subagent_id ?t = None \<or> ae_query e \<notin> {QueryFailed, QueryActive} \<and> ae_unit e = UnitIdle"
    by (auto simp: previous_running_def)
  have "st_last_subagent_id ?t = Some p \<and> \<not> st_chain_reset_pending ?t
     \<and> st_iterations_since_fresh ?t < LOOP_FRESH_CHAIN_EVERY \<and> (\<exists>out. ae_query e = QueryCompleted out)" if "rf = Some p" for p
    using spawn that chain_plan_resume [of ?t "ae_query e" p] by (cases "chain_plan ?t (ae_query e)") auto
  with i due(3) spawn ended show ?thesis by blast
qed (use sent in auto)

lemma fire_announced:
  assumes "fire_next_task e a = Some (a', ns)" and sent: "TaskFired x p h nf sid v \<in> set ns"
  shows "ae_registration e \<in> {RegStarted, RegTimedOut} \<and> (\<exists>rf ps. SpawnSent x sid rf ps \<in> set ns)"
  using assms(1)
proof (cases rule: fire_shapes)
  case (due i)
  then show ?thesis using fire_due_fired(2,3,5) [OF due(2)] sent by metis
qed (use sent in auto)

lemma fire_completed:
  assumes "fire_next_task e a = Some (a', ns)" and sent: "TaskRemoved x Completed v \<in> set ns"
  shows "\<exists>p h nf sid v. TaskFired x p h nf sid v \<in> set ns"
  using assms(1)
proof (cases rule: fire_shapes)
  case (due i)
  then show ?thesis using fire_due_fired(4) [OF due(2)] sent by metis
qed (use sent in auto)

text \<open>
  C32: A fire is safe. Whatever the surroundings answer, a request for a child agent is sent only for a task of the schedule
  that is due, not blocked and, when it recurs, not expired (a one-shot task is not checked for expiry); when the
  task still names a previous child, only if the coordinator answered that this child is not running and that
  its descendants are idle (a task whose anchor was cleared, as after a failed child, is started without asking); it resumes
  a transcript only if that is the completed one of the previous child, no reset is pending and the chain is not due for a
  restart. A fire is announced only after such a request was sent and either accepted or not answered within the
  registration timeout, which the code takes for a start; a refusal or a cancellation announces nothing. A
  task is removed as completed only together with that announcement.
\<close>

theorem fire_is_safe:
  assumes "fire_next_task e a = Some (a', ns)"
  shows "(\<forall>x sid rf ps. SpawnSent x sid rf ps \<in> set ns \<longrightarrow>
       (\<exists>t wake. t \<in> set (sa_tasks a) \<and> st_id t = x \<and> next_wake_at (ae_add e) t = Some wake \<and> wake \<le> ae_now e
          \<and> x \<notin> set (sa_blocked a) \<and> \<not> (st_recurring t \<and> is_expired t (ae_now e))
          \<and> (st_last_subagent_id t = None \<or> ae_query e \<notin> {QueryFailed, QueryActive} \<and> ae_unit e = UnitIdle)
          \<and> (\<forall>p. rf = Some p \<longrightarrow> st_last_subagent_id t = Some p \<and> \<not> st_chain_reset_pending t
               \<and> st_iterations_since_fresh t < LOOP_FRESH_CHAIN_EVERY \<and> (\<exists>out. ae_query e = QueryCompleted out))))
    \<and> (\<forall>x p h nf sid v. TaskFired x p h nf sid v \<in> set ns \<longrightarrow>
       ae_registration e \<in> {RegStarted, RegTimedOut} \<and> (\<exists>rf ps. SpawnSent x sid rf ps \<in> set ns))
    \<and> (\<forall>x v. TaskRemoved x Completed v \<in> set ns \<longrightarrow> (\<exists>p h nf sid v. TaskFired x p h nf sid v \<in> set ns))"
  by (rule conjI, (intro allI impI, erule fire_spawn [OF assms]), rule conjI,
      (intro allI impI, erule fire_announced [OF assms]), (intro allI impI, erule fire_completed [OF assms]))

text \<open>The task a message starts.\<close>

fun starts :: "SchedulerNote \<Rightarrow> string option" where
  "starts (TaskFired x _ _ _ _ _) = Some x"
| "starts (SpawnSent x _ _ _) = Some x"
| "starts _ = None"

lemma command_starts_nothing: "handle_command e a cmd = Some (a', reply, ns) \<Longrightarrow> m \<in> set ns \<Longrightarrow> starts m = None"
  by (cases cmd)
    (auto simp: create_task_def update_task_def delete_task_def complete_pending_removal_def task_created_payload_def Let_def
      split: option.splits prod.splits if_splits)

lemma fire_starts_task:
  assumes "fire_next_task e a = Some (a', ns)" and "m \<in> set ns" and "starts m = Some x"
  shows "x \<in> set (task_ids a)"
proof -
  have spawn: "x \<in> set (task_ids a)" if "SpawnSent x sid rf ps \<in> set ns" for sid rf ps
    using fire_spawn [OF assms(1) that] by auto
  show ?thesis
  proof (cases m)
    case (TaskFired y p h nf sid v)
    with assms(2,3) have "TaskFired x p h nf sid v \<in> set ns" by simp
    with fire_announced [OF assms(1)] spawn show ?thesis by blast
  next
    case (SpawnSent y sid rf ps)
    with assms(2,3) spawn show ?thesis by simp
  qed (use assms(3) in simp_all)
qed

lemma run_starts:
  "sched_run a trace a' \<Longrightarrow> sched_inv a \<Longrightarrow> x \<notin> set (task_ids a) \<Longrightarrow> Some x \<notin> fst ` set trace \<Longrightarrow>
     \<forall>(made, ns) \<in> set trace. \<forall>m \<in> set ns. starts m \<noteq> Some x"
proof (induction rule: sched_run.induct)
  case (step a made ns a1 trace a2)
  from sched_step_inv [OF step.hyps(1) step.prems(1)] have inv: "sched_inv a1"
    and ids: "set (task_ids a1) \<subseteq> set (task_ids a) \<union> set_option made" by auto
  have "x \<notin> set (task_ids a1)" using ids step.prems(2,3) by (auto simp del: set_map)
  with step.IH inv step.prems(3) have rest: "\<forall>(made, ns) \<in> set trace. \<forall>m \<in> set ns. starts m \<noteq> Some x" by auto
  have "starts m \<noteq> Some x" if "m \<in> set ns" for m
    using step.hyps(1)
  proof cases
    case (command e cmd reply)
    from command_starts_nothing [OF command(2) that] show ?thesis by simp
  next
    case (fire e)
    from fire_starts_task [OF fire(2) that, of x] step.prems(2) show ?thesis by blast
  qed (use that in simp)
  with rest show ?case by simp
qed simp

text \<open>
  C33: A deleted task is never fired again. Once a delete command has answered that the task was removed, no later step of
  the actor, whatever it is asked and whatever fails around it, sends a request for a child of that task or announces
  a fire of it, unless a task with the same identity is created.
\<close>

theorem deleted_task_never_fires:
  assumes "sched_inv a" and "handle_command e a (Delete x) = Some (a1, DeleteReply (Inr True), ns)"
    and "sched_run a1 trace a2" and "Some x \<notin> fst ` set trace"
  shows "\<forall>(made, ns) \<in> set trace. \<forall>m \<in> set ns. starts m \<noteq> Some x"
proof -
  from delete_inv [OF assms(1), of e x] assms(2) have "sched_inv a1" "x \<notin> set (task_ids a1)" by auto
  with run_starts [OF assms(3)] assms(4) show ?thesis by blast
qed

section \<open>Concrete schedules\<close>

definition plain_env :: ActorEnv where
  "plain_env = \<lparr>ae_add = (\<lambda>at s. Some (at + s)), ae_now = 100, ae_now2 = 100, ae_fresh = ''g'', ae_durable_target = True,
     ae_persist = None, ae_publish = None, ae_expiry = Committed, ae_wired = True, ae_query = QueryCompleted ''ok'',
     ae_unit = UnitIdle, ae_new_id = ''c2'', ae_spawn_sent = True, ae_registration = RegStarted\<rparr>"

definition loop_task :: ScheduledTask where
  "loop_task = \<lparr>st_id = ''t'', st_interval_secs = 60, st_prompt = ''p'', st_recurring = True, st_durable = False,
     st_created_at = 0, st_last_fired_at = None, st_expires_at = Some 1000, st_last_subagent_id = Some ''c1'',
     st_iterations_since_fresh = 1, st_chain_reset_pending = False\<rparr>"

definition one_task :: SchedulerActor where
  "one_task = \<lparr>sa_tasks = [loop_task], sa_clock = clock_new ''g'', sa_pending = None, sa_blocked = []\<rparr>"

definition no_task :: SchedulerActor where
  "no_task = \<lparr>sa_tasks = [], sa_clock = \<lparr>sv_generation = ''g'', sv_revision = 1\<rparr>, sa_pending = None, sa_blocked = []\<rparr>"

lemma plain_dates: "datable plain_env t"
  by (simp add: datable_def next_fire_at_def plain_env_def)

lemmas sample_defs = plain_env_def loop_task_def one_task_def no_task_def clock_new_def

lemmas version_defs = prepare_transition_def MAX_SCHEDULER_TRANSITIONS_def version_at_def commit_next_def expected_source_def

lemma one_task_deleted:
  "handle_command plain_env one_task (Delete ''t'')
   = Some (no_task, DeleteReply (Inr True), [TaskRemoved ''t'' Deleted \<lparr>sv_generation = ''g'', sv_revision = 1\<rparr>])"
  by (simp add: delete_task_def complete_pending_removal_def version_defs sample_defs remove_at_def)

lemma one_task_fires:
  "map_option snd (fire_next_task plain_env one_task)
   = Some [SpawnSent ''t'' ''c2'' (Some ''c1'') None,
       TaskFired ''t'' ''p'' (interval_to_human 60) (Some 160) ''c2'' \<lparr>sv_generation = ''g'', sv_revision = 1\<rparr>]"
  by (simp add: fire_next_task_def next_wake_at_def next_fire_at_def as_i64_def is_expired_def fire_due_def
      fire_as_loop_subagent_def previous_running_def chain_plan_def LOOP_FRESH_CHAIN_EVERY_def commit_fire_def
      on_task_def version_defs sample_defs Let_def)

lemma scheduler_invariant_witness:
  "sched_inv no_task \<and> fire_next_task plain_env no_task \<noteq> None \<and> shutdown plain_env no_task \<noteq> None"
proof -
  have "sched_step one_task (created_id (Delete ''t'')) [TaskRemoved ''t'' Deleted \<lparr>sv_generation = ''g'', sv_revision = 1\<rparr>] no_task"
    by (rule sched_step.command [OF one_task_deleted]) simp
  then have "sched_run one_task [(created_id (Delete ''t''), [TaskRemoved ''t'' Deleted \<lparr>sv_generation = ''g'', sv_revision = 1\<rparr>])] no_task"
    by (rule sched_run.step [OF _ sched_run.stop])
  from scheduler_invariant [OF this] plain_dates show ?thesis
    by (auto simp: one_task_def clock_new_def no_task_def)
qed

lemma fire_is_safe_witness:
  "\<exists>t wake. t \<in> set (sa_tasks one_task) \<and> st_id t = ''t'' \<and> next_wake_at (ae_add plain_env) t = Some wake
     \<and> wake \<le> ae_now plain_env
     \<and> (st_last_subagent_id t = None \<or> ae_query plain_env \<notin> {QueryFailed, QueryActive} \<and> ae_unit plain_env = UnitIdle)"
proof -
  obtain a' ns where ns: "fire_next_task plain_env one_task = Some (a', ns)"
    and "ns = [SpawnSent ''t'' ''c2'' (Some ''c1'') None,
       TaskFired ''t'' ''p'' (interval_to_human 60) (Some 160) ''c2'' \<lparr>sv_generation = ''g'', sv_revision = 1\<rparr>]"
    using one_task_fires by auto
  then have "SpawnSent ''t'' ''c2'' (Some ''c1'') None \<in> set ns" by simp
  with fire_is_safe [OF ns] show ?thesis by blast
qed

lemma deleted_task_never_fires_witness:
  "list_all (\<lambda>(made, ns). list_all (\<lambda>m. starts m \<noteq> Some ''t'') ns) [(None :: string option, [] :: SchedulerNote list)]"
proof -
  have inv: "sched_inv one_task"
    by (simp add: sched_inv_def one_task_def clock_new_def MAX_SCHEDULED_TASKS_def)
  have "child_failed ''c1'' no_task = no_task" by (simp add: child_failed_def no_task_def)
  then have "sched_step no_task None [] no_task" using sched_step.child [of no_task "''c1''"] by simp
  then have "sched_run no_task [(None, [])] no_task" by (rule sched_run.step [OF _ sched_run.stop])
  from deleted_task_never_fires [OF inv one_task_deleted this] show ?thesis by (simp add: list_all_iff)
qed

text \<open>
  An interval that the parser accepts may lie outside the range of the date library; then creating the task panics,
  which ends the actor.
\<close>

lemma huge_interval_panics:
  assumes "ae_add e (st_created_at t) (as_i64 (st_interval_secs t)) = None" and "st_last_fired_at t = None"
    and "sa_pending a = None" and "length (sa_tasks a) < MAX_SCHEDULED_TASKS"
  shows "handle_command e a (Create t) = None"
  using assms
  by (auto simp: create_task_def task_created_payload_def next_fire_at_def split: option.splits)

lemma huge_interval_parsed: "parse_interval ''100000000d'' = Some (Inr 8640000000000)"
proof -
  have "trim ''100000000d'' = ''100000000d''" by code_simp
  then show ?thesis
    by (simp add: parse_interval_simps)
qed

end
