(* ===== verification/Scheduler_Progress.thy ===== *)
theory Scheduler_Progress
  imports Scheduler_Laws
begin

text \<open>
  The loop of \<open>actor.rs\<close> does not spin and leaves no due task behind: the sleep until the next fire
  (\<open>compute_next_fire_delay\<close>), and what a fire does to the tasks that are due.
\<close>

section \<open>The sleep\<close>

fun wakes :: "ActorEnv \<Rightarrow> string list \<Rightarrow> ScheduledTask list \<Rightarrow> date_time list option" where
  "wakes e blocked [] = Some []"
| "wakes e blocked (t # ts) =
     (if st_id t \<in> set blocked then wakes e blocked ts
      else case next_wake_at (ae_add e) t of
             None \<Rightarrow> None
           | Some wake \<Rightarrow> map_option ((#) wake) (wakes e blocked ts))"

text \<open>The outer option is the panic of the date library, the inner \<open>None\<close> is \<open>Duration::MAX\<close>.\<close>

definition compute_next_fire_delay :: "ActorEnv \<Rightarrow> SchedulerActor \<Rightarrow> int option option" where
  "compute_next_fire_delay e a =
     map_option (\<lambda>ws. if ws = [] then None
                      else let nxt = Min (set ws) in Some (if nxt \<le> ae_now e then 0 else nxt - ae_now e))
       (wakes e (sa_blocked a) (sa_tasks a))"

section \<open>Due tasks\<close>

definition is_due :: "ActorEnv \<Rightarrow> string list \<Rightarrow> ScheduledTask \<Rightarrow> bool" where
  "is_due e blocked t \<longleftrightarrow> st_id t \<notin> set blocked
     \<and> (case next_wake_at (ae_add e) t of None \<Rightarrow> False | Some wake \<Rightarrow> wake \<le> ae_now e)"

definition due_ids :: "ActorEnv \<Rightarrow> SchedulerActor \<Rightarrow> string set" where
  "due_ids e a = st_id ` {t \<in> set (sa_tasks a). is_due e (sa_blocked a) t}"

lemma is_due_timing [simp]: "is_due e blocked (timing t) = is_due e blocked t"
  by (simp add: is_due_def)

lemma due_ids_timing: "due_ids e a = st_id ` {t \<in> set (map timing (sa_tasks a)). is_due e (sa_blocked a) t}"
  unfolding due_ids_def by (force simp: image_iff)

text \<open>
  What a fire needs of a task: its dates are in range, its interval added to the present moment is later, and it expires
  exactly when it recurs, as tasks are created.
\<close>

definition task_ok :: "ActorEnv \<Rightarrow> ScheduledTask \<Rightarrow> bool" where
  "task_ok e t \<longleftrightarrow> datable e t \<and> (st_recurring t \<longleftrightarrow> st_expires_at t \<noteq> None)
     \<and> (case ae_add e (ae_now e) (as_i64 (st_interval_secs t)) of None \<Rightarrow> False | Some at \<Rightarrow> ae_now e < at)"

text \<open>A date library without bounds: a second is a positive number of units, and they are added. Then positive intervals do.\<close>

definition exact_dates :: "ActorEnv \<Rightarrow> bool" where
  "exact_dates e \<longleftrightarrow> (\<exists>u > 0. \<forall>at s. ae_add e at s = Some (at + u * s))"

lemma exact_task_ok:
  "exact_dates e \<Longrightarrow> 0 < as_i64 (st_interval_secs t) \<Longrightarrow> (st_recurring t \<longleftrightarrow> st_expires_at t \<noteq> None) \<Longrightarrow> task_ok e t"
  by (auto simp: exact_dates_def task_ok_def datable_def next_fire_at_def)

lemma wakes_total:
  "\<forall>t \<in> set ts. datable e t \<Longrightarrow>
     wakes e blocked ts = Some (map (\<lambda>t. the (next_wake_at (ae_add e) t)) (filter (\<lambda>t. st_id t \<notin> set blocked) ts))"
proof (induction ts)
  case (Cons t ts)
  obtain w where "next_wake_at (ae_add e) t = Some w" using datable_wake Cons.prems by fastforce
  with Cons show ?case by simp
qed simp

lemma no_delay_iff_due:
  assumes "\<forall>t \<in> set (sa_tasks a). datable e t"
  shows "compute_next_fire_delay e a = Some (Some 0) \<longleftrightarrow> due_ids e a \<noteq> {}"
proof -
  let ?ws = "map (\<lambda>t. the (next_wake_at (ae_add e) t)) (filter (\<lambda>t. st_id t \<notin> set (sa_blocked a)) (sa_tasks a))"
  have wake: "\<exists>w. next_wake_at (ae_add e) t = Some w" if "t \<in> set (sa_tasks a)" for t using datable_wake assms that by blast
  have "due_ids e a \<noteq> {} \<longleftrightarrow> (\<exists>w \<in> set ?ws. w \<le> ae_now e)"
    using wake by (fastforce simp: due_ids_def is_due_def split: option.splits)
  also have "\<dots> \<longleftrightarrow> ?ws \<noteq> [] \<and> Min (set ?ws) \<le> ae_now e"
    by (cases "?ws = []") (simp_all add: Min_le_iff del: set_map)
  finally show ?thesis
    by (auto simp: compute_next_fire_delay_def wakes_total [OF assms] Let_def split: if_splits)
qed

lemma due_from_None:
  "due_from e blocked k ts = Some None \<Longrightarrow> \<forall>t \<in> set ts. \<not> is_due e blocked t"
proof (induction ts arbitrary: k)
  case (Cons t ts)
  then have "due_from e blocked (Suc k) ts = Some None" and "\<not> is_due e blocked t"
    by (auto simp: is_due_def split: option.splits if_splits)
  with Cons.IH show ?case by simp
qed simp

section \<open>What a fire leaves due\<close>

text \<open>A task that was fired now, or found not expired, is not due again at the same moment.\<close>

lemma fired_not_due:
  assumes "task_ok e t" and "\<not> (st_recurring t \<and> is_expired t (ae_now e))"
  shows "\<not> is_due e blocked (t\<lparr>st_last_fired_at := Some (ae_now e)\<rparr>)"
  using assms by (auto simp: is_due_def next_wake_at_def next_fire_at_def task_ok_def is_expired_def split: option.splits)

lemma due_ids_filter:
  "due_ids e (a\<lparr>sa_tasks := filter (\<lambda>u. st_id u \<noteq> x) (sa_tasks a)\<rparr>) = due_ids e a - {x}"
  by (auto simp: due_ids_def)

lemma set_update_distinct:
  assumes "distinct (map f xs)" and "i < length xs"
  shows "set (xs[i := y]) = insert y {x \<in> set xs. f x \<noteq> f (xs ! i)}"
proof -
  have "x \<in> set (xs[i := y]) \<longleftrightarrow> x = y \<or> x \<in> set xs \<and> f x \<noteq> f (xs ! i)" for x
  proof -
    have inj: "f (xs ! j) = f (xs ! i) \<longleftrightarrow> j = i" if "j < length xs" for j
      using that assms nth_eq_iff_index_eq [OF assms(1), of j i] by simp
    then show ?thesis using assms(2) by (auto simp: in_set_conv_nth nth_list_update) metis+
  qed
  then show ?thesis by blast
qed

lemma due_ids_update:
  assumes "distinct (task_ids a)" and "i < length (sa_tasks a)" and "st_id t = st_id (sa_tasks a ! i)"
    and "\<not> is_due e (sa_blocked a) t"
  shows "due_ids e (a\<lparr>sa_tasks := (sa_tasks a)[i := t]\<rparr>) = due_ids e a - {st_id (sa_tasks a ! i)}"
  using assms(3,4) by (auto simp: due_ids_def set_update_distinct [OF assms(1,2)])

lemma due_ids_remove:
  assumes "distinct (task_ids a)" and "i < length (sa_tasks a)"
  shows "due_ids e (a\<lparr>sa_tasks := remove_at i (sa_tasks a)\<rparr>) = due_ids e a - {st_id (sa_tasks a ! i)}"
proof -
  have eq: "sa_tasks a = take i (sa_tasks a) @ sa_tasks a ! i # drop (Suc i) (sa_tasks a)"
    using assms(2) by (rule id_take_nth_drop)
  have "set (sa_tasks a) = insert (sa_tasks a ! i) (set (remove_at i (sa_tasks a)))"
    by (subst eq) (auto simp: remove_at_def)
  moreover have "st_id (sa_tasks a ! i) \<notin> st_id ` set (remove_at i (sa_tasks a))"
    using distinct_remove_at(2) [OF assms(1), of i] assms(2) by (simp add: map_remove_at [symmetric])
  ultimately show ?thesis by (auto simp: due_ids_def) (metis imageI)
qed

lemma due_ids_block:
  "due_ids e (a\<lparr>sa_blocked := List.insert x (sa_blocked a)\<rparr>) = due_ids e a - {x}"
  by (auto simp: due_ids_def is_due_def)

lemma due_ids_clock [simp]: "due_ids e (a\<lparr>sa_clock := k\<rparr>) = due_ids e a"
  by (simp add: due_ids_def)

lemma expire_due_ids:
  assumes "distinct (task_ids a)" and "i < length (sa_tasks a)"
  shows "expire_durable e a i = Some (a', ns) \<Longrightarrow> due_ids e' a' = due_ids e' a - {st_id (sa_tasks a ! i)}"
    and "expire_plain e a i = Some (a', ns) \<Longrightarrow> due_ids e' a' = due_ids e' a - {st_id (sa_tasks a ! i)}"
  by (auto simp: expire_durable_def expire_plain_def Let_def due_ids_block due_ids_remove [OF assms]
      split: if_splits option.splits prod.splits ExpiryPersistenceOutcome.splits)

text \<open>A fire in two parts: the attempt to start a child, which touches the chain only, and the commit.\<close>

lemma fire_due_parts:
  assumes "fire_due e a i = Some (a', ns)"
  obtains a2 r nf where "map timing (sa_tasks a2)
        = map timing ((sa_tasks a)[i := (sa_tasks a ! i)\<lparr>st_last_fired_at := Some (ae_now e)\<rparr>])"
    and "sa_blocked a2 = sa_blocked a" and "sa_pending a2 = sa_pending a"
    and "a' = a2 \<or> (\<exists>sid ns'. commit_fire r a2 (sa_tasks a ! i) nf sid = Some (a', ns'))"
proof -
  define t where "t = sa_tasks a ! i"
  let ?a1 = "a\<lparr>sa_tasks := (sa_tasks a)[i := t\<lparr>st_last_fired_at := Some (ae_now e)\<rparr>]\<rparr>"
  obtain a2 outcome sent where loop: "(if ae_wired e then fire_as_loop_subagent e ?a1 t else (?a1, Skipped, [])) = (a2, outcome, sent)"
    by (metis prod.exhaust)
  have "map timing (sa_tasks a2) = map timing (sa_tasks ?a1)" "sa_blocked a2 = sa_blocked a" "sa_pending a2 = sa_pending a"
    using loop fire_as_loop_timing [of e ?a1 t] fire_as_loop_keeps [of e ?a1 t] by (auto split: if_splits)
  moreover from assms obtain r nf where "(case outcome of
      Skipped \<Rightarrow> (case find (\<lambda>u. st_id u = st_id t) (sa_tasks a2) of
          None \<Rightarrow> Some (a2, sent)
        | Some u \<Rightarrow> map_option (\<lambda>note. (a2, sent @ [note])) (task_created_payload e u (sa_clock a2)))
    | Spawned subagent_id \<Rightarrow>
        map_option (\<lambda>(a3, notes). (a3, sent @ notes)) (commit_fire r a2 t nf subagent_id)) = Some (a', ns)"
    unfolding fire_due_def Let_def t_def [symmetric] loop by (auto split: option.splits)
  then have "a' = a2 \<or> (\<exists>sid ns'. commit_fire r a2 t nf sid = Some (a', ns'))"
    by (auto split: LoopFireOutcome.splits option.splits)
  ultimately show thesis using that by (simp add: t_def)
qed

lemma commit_fire_due:
  "commit_fire r a t nf sid = Some (a', ns) \<Longrightarrow> due_ids e a' \<in> {due_ids e a, due_ids e a - {st_id t}}"
  by (auto simp: commit_fire_def Let_def due_ids_filter simp del: insert_iff split: option.splits prod.splits if_splits)

lemma fire_due_ids:
  assumes dist: "distinct (task_ids a)" and i: "i < length (sa_tasks a)"
    and ok: "task_ok e (sa_tasks a ! i)" and live: "\<not> (st_recurring (sa_tasks a ! i) \<and> is_expired (sa_tasks a ! i) (ae_now e))"
    and fire: "fire_due e a i = Some (a', ns)"
  shows "due_ids e a' = due_ids e a - {st_id (sa_tasks a ! i)}"
  using fire
proof (cases rule: fire_due_parts)
  case (1 a2 r nf)
  let ?t = "sa_tasks a ! i"
  let ?a1 = "a\<lparr>sa_tasks := (sa_tasks a)[i := ?t\<lparr>st_last_fired_at := Some (ae_now e)\<rparr>]\<rparr>"
  from 1(1,2) have "due_ids e a2 = due_ids e ?a1" unfolding due_ids_timing by simp
  also have "\<dots> = due_ids e a - {st_id ?t}"
    by (intro due_ids_update dist i) (use fired_not_due [OF ok live] in simp_all)
  finally have a2: "due_ids e a2 = due_ids e a - {st_id ?t}" .
  from 1(4) have "due_ids e a' = due_ids e a2 - {st_id ?t} \<or> due_ids e a' = due_ids e a2"
    using commit_fire_due by blast
  with a2 show ?thesis by auto
qed

lemma fire_handles_first:
  assumes "distinct (task_ids a)" and "\<forall>t \<in> set (sa_tasks a). task_ok e t"
    and "fire_next_task e a = Some (a', ns)" and "due_ids e a \<noteq> {}"
  shows "\<exists>x \<in> due_ids e a. due_ids e a' = due_ids e a - {x}"
proof -
  from assms(3) obtain d where d: "due_from e (sa_blocked a) 0 (sa_tasks a) = Some d"
    by (auto simp: fire_next_task_def split: option.splits)
  moreover have "d \<noteq> None" using due_from_None [of e "sa_blocked a" 0 "sa_tasks a"] d assms(4) by (auto simp: due_ids_def)
  ultimately obtain i where i: "due_from e (sa_blocked a) 0 (sa_tasks a) = Some (Some i)" by auto
  let ?t = "sa_tasks a ! i"
  from due_from_Some [OF i] have len: "i < length (sa_tasks a)" and due: "is_due e (sa_blocked a) ?t"
    by (auto simp: is_due_def)
  then have "st_id ?t \<in> due_ids e a" by (simp add: due_ids_def)
  moreover have "due_ids e a' = due_ids e a - {st_id ?t}"
  proof (cases "st_recurring ?t \<and> is_expired ?t (ae_now e)")
    case True
    with assms(3) i have "expire_durable e a i = Some (a', ns) \<or> expire_plain e a i = Some (a', ns)"
      by (auto simp: fire_next_task_def Let_def split: if_splits)
    then show ?thesis using expire_due_ids [OF assms(1) len] by blast
  next
    case False
    with assms(3) i have "fire_due e a i = Some (a', ns)" by (auto simp: fire_next_task_def Let_def)
    with fire_due_ids [OF assms(1) len _ False] assms(2) len show ?thesis by simp
  qed
  ultimately show ?thesis by blast
qed

text \<open>Fires keep tasks as they are created.\<close>

lemma task_ok_timing [simp]: "task_ok e (timing t) = task_ok e t"
  by (simp add: task_ok_def) (simp add: timing_def)

lemma all_ok_timing: "(\<forall>t \<in> set ts. task_ok e t) \<longleftrightarrow> (\<forall>t \<in> set (map timing ts). task_ok e t)"
  by auto

lemma commit_fire_tasks:
  "commit_fire r a t nf sid = Some (a', ns) \<Longrightarrow> set (sa_tasks a') \<subseteq> set (sa_tasks a) \<and> sa_pending a' = sa_pending a"
  by (auto simp: commit_fire_def Let_def split: option.splits prod.splits if_splits)

lemma fire_due_ok:
  assumes fire: "fire_due e a i = Some (a', ns)" and ok: "\<forall>t \<in> set (sa_tasks a). task_ok e t" and i: "i < length (sa_tasks a)"
  shows "(\<forall>t \<in> set (sa_tasks a'). task_ok e t) \<and> sa_pending a' = sa_pending a"
  using fire
proof (cases rule: fire_due_parts)
  case (1 a2 r nf)
  have "task_ok e ((sa_tasks a ! i)\<lparr>st_last_fired_at := Some (ae_now e)\<rparr>)" using ok i datable_fired by (simp add: task_ok_def)
  then have "\<forall>t \<in> set ((sa_tasks a)[i := (sa_tasks a ! i)\<lparr>st_last_fired_at := Some (ae_now e)\<rparr>]). task_ok e t"
    using ok set_update_subset_insert by fastforce
  with 1(1) have ok2: "\<forall>t \<in> set (sa_tasks a2). task_ok e t" using all_ok_timing [of _ e] by metis
  from 1(4) show ?thesis
  proof
    assume "\<exists>sid ns'. commit_fire r a2 (sa_tasks a ! i) nf sid = Some (a', ns')"
    then show ?thesis using commit_fire_tasks ok2 1(3) by (metis subset_iff)
  qed (use ok2 1(3) in simp)
qed

lemma expire_ok:
  "expire_durable e a i = Some (a', ns) \<Longrightarrow> set (sa_tasks a') \<subseteq> set (sa_tasks a) \<and> sa_pending a' = sa_pending a"
  "expire_plain e a i = Some (a', ns) \<Longrightarrow> set (sa_tasks a') \<subseteq> set (sa_tasks a) \<and> sa_pending a' = sa_pending a"
  using set_remove_at [of i "sa_tasks a"]
  by (auto simp: expire_durable_def expire_plain_def Let_def
      split: if_splits option.splits prod.splits ExpiryPersistenceOutcome.splits)

lemma fire_ok:
  assumes "fire_next_task e a = Some (a', ns)" and "\<forall>t \<in> set (sa_tasks a). task_ok e t"
  shows "(\<forall>t \<in> set (sa_tasks a'). task_ok e t) \<and> sa_pending a' = sa_pending a"
proof (cases "due_from e (sa_blocked a) 0 (sa_tasks a)")
  case (Some d)
  show ?thesis
  proof (cases d)
    case None
    with assms Some show ?thesis by (simp add: fire_next_task_def)
  next
    case d: (Some i)
    then have i: "i < length (sa_tasks a)" using due_from_Some Some by fastforce
    from assms(1) Some d have "expire_durable e a i = Some (a', ns) \<or> expire_plain e a i = Some (a', ns) \<or> fire_due e a i = Some (a', ns)"
      by (auto simp: fire_next_task_def Let_def split: if_splits)
    then show ?thesis using expire_ok fire_due_ok [OF _ assms(2) i] assms(2) by blast
  qed
qed (use assms in \<open>simp add: fire_next_task_def\<close>)

text \<open>The loop while the clock stands still: one fire after the other.\<close>

fun fire_all :: "ActorEnv list \<Rightarrow> SchedulerActor \<Rightarrow> SchedulerActor option" where
  "fire_all [] a = Some a"
| "fire_all (e # es) a = (case fire_next_task e a of None \<Rightarrow> None | Some (a', _) \<Rightarrow> fire_all es a')"

lemma due_ids_cong: "ae_add e = ae_add e' \<Longrightarrow> ae_now e = ae_now e' \<Longrightarrow> due_ids e a = due_ids e' a"
proof -
  assume add: "ae_add e = ae_add e'" and now: "ae_now e = ae_now e'"
  have "is_due e blocked t = is_due e' blocked t" for blocked t by (simp only: is_due_def now add)
  then show ?thesis by (simp add: due_ids_def)
qed

lemma fire_idle: "fire_next_task e a = Some (a', ns) \<Longrightarrow> due_ids e a = {} \<Longrightarrow> a' = a"
proof (cases "due_from e (sa_blocked a) 0 (sa_tasks a)")
  assume fire: "fire_next_task e a = Some (a', ns)" and none: "due_ids e a = {}"
  case (Some d)
  have "\<not> is_due e (sa_blocked a) (sa_tasks a ! i)" if "d = Some i" for i
    using none due_from_Some [of e "sa_blocked a" 0 "sa_tasks a" i] Some that by (simp add: due_ids_def)
  then have "d = None" using due_from_Some [of e "sa_blocked a" 0 "sa_tasks a"] Some by (cases d) (auto simp: is_due_def)
  with Some fire show ?thesis by (simp add: fire_next_task_def)
qed (simp add: fire_next_task_def)

lemma fire_all_clears:
  assumes "sched_inv a" and "sa_pending a = None" and "\<forall>t \<in> set (sa_tasks a). task_ok e0 t"
    and "\<forall>e \<in> set es. ae_add e = ae_add e0 \<and> ae_now e = ae_now e0"
  shows "\<exists>a'. fire_all es a = Some a' \<and> sched_inv a' \<and> (\<forall>t \<in> set (sa_tasks a'). task_ok e0 t)
    \<and> card (due_ids e0 a') \<le> card (due_ids e0 a) - length es"
  using assms
proof (induction es arbitrary: a)
  case (Cons e es)
  have same: "ae_add e = ae_add e0" "ae_now e = ae_now e0" using Cons.prems(4) by auto
  then have ok: "task_ok e t = task_ok e0 t" for t by (simp only: task_ok_def datable_def)
  have due: "due_ids e b = due_ids e0 b" for b using due_ids_cong [OF same] .
  have "\<forall>t \<in> set (sa_tasks a). datable e t" using Cons.prems(3) ok task_ok_def by blast
  then obtain a1 ns where fire: "fire_next_task e a = Some (a1, ns)" and inv: "sched_inv a1"
    using fire_inv [OF Cons.prems(1,2), of e] by (auto simp: keeps_inv_def split: option.splits)
  note kept = fire_ok [OF fire, unfolded ok, OF Cons.prems(3)]
  have fin: "finite (due_ids e0 a)" by (simp add: due_ids_def)
  have "card (due_ids e0 a1) \<le> card (due_ids e0 a) - 1"
  proof (cases "due_ids e0 a = {}")
    case True
    with fire_idle [OF fire] due show ?thesis by simp
  next
    case False
    have "distinct (task_ids a)" using Cons.prems(1) by (simp add: sched_inv_def)
    from fire_handles_first [OF this _ fire] Cons.prems(3) False due ok
    obtain x where "x \<in> due_ids e0 a" "due_ids e0 a1 = due_ids e0 a - {x}" by auto
    with fin show ?thesis by simp
  qed
  with Cons.IH [OF inv] kept Cons.prems(2,4) fire show ?case by fastforce
qed simp

lemma due_ids_card: "sched_inv a \<Longrightarrow> card (due_ids e a) \<le> MAX_SCHEDULED_TASKS"
proof -
  assume "sched_inv a"
  have "card (due_ids e a) \<le> card (set (sa_tasks a))"
    unfolding due_ids_def by (rule le_trans [OF card_image_le]) (auto intro: card_mono)
  also have "\<dots> \<le> length (sa_tasks a)" by (rule card_length)
  finally show ?thesis using \<open>sched_inv a\<close> by (simp add: sched_inv_def)
qed

text \<open>
  C35: The loop of the scheduler neither spins nor starves a task, for tasks whose interval moves the clock on. Take a
  schedule that satisfies the invariant and has no pending removal, in which every task has dates in range, an interval
  whose addition to the present moment gives a later one, and an expiry exactly when it recurs; and let the clock stand
  still. Whatever persistence, the notification channel and the coordinator answer, fifty fires in a row succeed and leave no
  task due, so that the sleep to the next fire is not zero, although tasks that could not be started stay scheduled. Before,
  the sleep is zero exactly as long as some task is due. The hypothesis on the interval is needed: the
  largest intervals the parser accepts turn negative in the cast to 64 bits and stay due (\<open>wrapped_interval_always_due\<close>).
\<close>

theorem due_tasks_are_handled:
  assumes "sched_inv a" and "sa_pending a = None" and "\<forall>t \<in> set (sa_tasks a). task_ok e0 t"
    and "\<forall>e \<in> set es. ae_add e = ae_add e0 \<and> ae_now e = ae_now e0" and "50 \<le> length es"
  shows "\<exists>a'. fire_all es a = Some a' \<and> sched_inv a' \<and> due_ids e0 a' = {}
    \<and> compute_next_fire_delay e0 a' \<noteq> Some (Some 0)
    \<and> (compute_next_fire_delay e0 a = Some (Some 0) \<longleftrightarrow> due_ids e0 a \<noteq> {})"
proof -
  from fire_all_clears [OF assms(1-4)]
  obtain a' where a': "fire_all es a = Some a'" "sched_inv a'" "\<forall>t \<in> set (sa_tasks a'). task_ok e0 t"
    "card (due_ids e0 a') \<le> card (due_ids e0 a) - length es"
    by blast
  have "card (due_ids e0 a') = 0" using a'(4) due_ids_card [OF assms(1), of e0] assms(5) by (simp add: MAX_SCHEDULED_TASKS_def)
  then have "due_ids e0 a' = {}" by (simp add: due_ids_def)
  moreover have "\<forall>t \<in> set (sa_tasks a'). datable e0 t" "\<forall>t \<in> set (sa_tasks a). datable e0 t"
    using a'(3) assms(3) task_ok_def by blast+
  then have "compute_next_fire_delay e0 a' \<noteq> Some (Some 0)"
    "compute_next_fire_delay e0 a = Some (Some 0) \<longleftrightarrow> due_ids e0 a \<noteq> {}"
    using no_delay_iff_due \<open>due_ids e0 a' = {}\<close> by simp_all
  ultimately show ?thesis using a'(1,2) by blast
qed

lemma due_tasks_are_handled_witness:
  "\<exists>a'. fire_all (replicate 50 (plain_env\<lparr>ae_registration := RegRefused\<rparr>)) one_task = Some a'
     \<and> compute_next_fire_delay plain_env a' \<noteq> Some (Some 0)"
proof -
  let ?e = "plain_env\<lparr>ae_registration := RegRefused\<rparr>"
  have inv: "sched_inv one_task" by (simp add: sched_inv_def one_task_def clock_new_def MAX_SCHEDULED_TASKS_def)
  have "exact_dates plain_env" unfolding exact_dates_def plain_env_def by (rule exI [of _ 1]) simp
  then have ok: "\<forall>t \<in> set (sa_tasks one_task). task_ok plain_env t"
    by (simp add: one_task_def exact_task_ok loop_task_def as_i64_def)
  have all: "\<forall>e \<in> set (replicate 50 ?e). ae_add e = ae_add plain_env \<and> ae_now e = ae_now plain_env" by simp
  from due_tasks_are_handled [OF inv _ ok all] show ?thesis by (auto simp: one_task_def)
qed

text \<open>
  The interval is cast to a signed number of 64 bits, so that the largest intervals the parser accepts are negative:
  a task with such an interval is due again at the moment it is fired, as often as the loop comes round.
\<close>

lemma wrapped_interval_parsed: "parse_interval ''18446744073709551615s'' = Some (Inr 18446744073709551615)"
proof -
  have "trim ''18446744073709551615s'' = ''18446744073709551615s''" by code_simp
  then show ?thesis
    by (simp add: parse_interval_simps)
qed

lemma wrapped_interval_always_due:
  assumes "exact_dates e" and "st_interval_secs t = 18446744073709551615" and "st_id t \<notin> set blocked"
  shows "is_due e blocked (t\<lparr>st_last_fired_at := Some (ae_now e)\<rparr>)"
proof -
  obtain u where u: "u > 0" "\<And>at s. ae_add e at s = Some (at + u * s)" using assms(1) by (auto simp: exact_dates_def)
  have "next_fire_at (ae_add e) (t\<lparr>st_last_fired_at := Some (ae_now e)\<rparr>) = Some (ae_now e - u)"
    by (simp add: next_fire_at_def u(2) assms(2) as_i64_def)
  with u(1) assms(3) show ?thesis by (auto simp: is_due_def next_wake_at_def split: option.splits)
qed

end
