(* ===== verification/Scheduler_Tools.thy ===== *)
theory Scheduler_Tools
  imports Scheduler_Progress
begin

text \<open>
  The tools of the scheduler: \<open>create.rs\<close>, \<open>delete.rs\<close> and \<open>list.rs\<close> of
  \<open>crates/codegen/xai-grok-tools/src/implementations/grok_build/scheduler\<close>. A tool checks its input, sends one command to the
  actor and turns the reply into its output. The actor is an option: it is absent when it was stopped, and a panic while
  it handles a command, seen as a dropped reply, ends it.
\<close>

section \<open>Requests\<close>

text \<open>Errors of a tool: its own texts, and the display of an error of the scheduler with its code.\<close>

datatype ToolError =
    BadInterval IntervalError
  | InvalidArguments string
  | CustomError string string
  | SchedulerToolError string SchedulerError
  | ExecutionError string string

fun scheduler_tool_error :: "SchedulerError \<Rightarrow> ToolError" where
  "scheduler_tool_error (InvalidInterval x) = SchedulerToolError ''scheduler_invalid_request'' (InvalidInterval x)"
| "scheduler_tool_error (TaskLimitReached n) = SchedulerToolError ''scheduler_invalid_request'' (TaskLimitReached n)"
| "scheduler_tool_error (TaskNotFound x) = SchedulerToolError ''scheduler_invalid_request'' (TaskNotFound x)"
| "scheduler_tool_error (PersistenceError x) = SchedulerToolError ''scheduler_persistence'' (PersistenceError x)"
| "scheduler_tool_error (NotificationError x) = SchedulerToolError ''scheduler_notification'' (NotificationError x)"
| "scheduler_tool_error NoDurableNotificationConsumer
     = SchedulerToolError ''scheduler_durability_unavailable'' NoDurableNotificationConsumer"
| "scheduler_tool_error (RemovalPending x) = SchedulerToolError ''scheduler_removal_pending'' (RemovalPending x)"
| "scheduler_tool_error Cancelled = SchedulerToolError ''scheduler_cancelled'' Cancelled"
| "scheduler_tool_error Timeout = SchedulerToolError ''scheduler_timeout'' Timeout"

text \<open>
  A command and its reply. \<open>None\<close> for the resource is a session without a scheduler, \<open>Some None\<close> a stopped actor. The two
  errors are those of the closed channel and of the dropped reply.
\<close>

type_synonym scheduler_resource = "SchedulerActor option option"

definition send_and_wait ::
    "ToolError \<Rightarrow> ToolError \<Rightarrow> ActorEnv \<Rightarrow> SchedulerActor option \<Rightarrow> SchedulerCommand
      \<Rightarrow> SchedulerActor option \<times> (ToolError + SchedulerReply) \<times> SchedulerNote list" where
  "send_and_wait stopped dropped e actor cmd =
     (case actor of
        None \<Rightarrow> (None, Inl stopped, [])
      | Some a \<Rightarrow>
          (case handle_command e a cmd of
             None \<Rightarrow> (None, Inl dropped, [])
           | Some (a', reply, ns) \<Rightarrow> (Some a', Inr reply, ns)))"

definition actor_stopped :: ToolError where
  "actor_stopped = CustomError ''process_manager'' ''Scheduler actor stopped''"

definition reply_dropped :: ToolError where
  "reply_dropped = CustomError ''process_manager'' ''Scheduler actor dropped reply''"

section \<open>Create and update\<close>

record SchedulerCreateInput =
  ci_task_id :: "string option"
  ci_interval :: "string option"
  ci_prompt :: "string option"
  ci_recurring :: bool
  ci_durable :: "bool option"
  ci_fire_immediately :: bool

record SchedulerCreateOutput =
  co_id :: string
  co_human_schedule :: string
  co_updated :: bool

text \<open>
  The request of a create call. The outer option is a panic, of the parser or of the date library. The identity and
  the time of a new task are arguments.
\<close>

definition create_request ::
    "ActorEnv \<Rightarrow> string \<Rightarrow> SchedulerCreateInput \<Rightarrow> (ToolError + SchedulerCommand) option" where
  "create_request e new_id input =
     (case (case ci_interval input of
              None \<Rightarrow> Some (Inr None)
            | Some s \<Rightarrow> map_option (\<lambda>r. case r of Inl err \<Rightarrow> Inl err | Inr secs \<Rightarrow> Inr (Some secs)) (parse_interval s)) of
        None \<Rightarrow> None
      | Some (Inl err) \<Rightarrow> Some (Inl (BadInterval err))
      | Some (Inr interval_secs) \<Rightarrow>
          (case ci_task_id input of
             Some task_id \<Rightarrow>
               Some (if ci_prompt input = None \<and> interval_secs = None
                     then Inl (InvalidArguments ''nothing to update: provide interval and/or prompt alongside task_id'')
                     else Inr (Update task_id (ci_prompt input) interval_secs))
           | None \<Rightarrow>
               if \<not> ci_recurring input
               then Some (Inl (InvalidArguments (''one-shot tasks are not supported; run a background terminal command instead ''
                      @ ''(`sleep <secs> && <command>`, background: true) or do the work now'')))
               else (case interval_secs of
                       None \<Rightarrow> Some (Inl (InvalidArguments ''interval is required when creating a task''))
                     | Some secs \<Rightarrow>
                         (case ci_prompt input of
                            None \<Rightarrow> Some (Inl (InvalidArguments ''prompt is required when creating a task''))
                          | Some prompt \<Rightarrow>
                              map_option (\<lambda>task. Inr (Create task))
                                (with_fire_immediately (ae_add e) new_id (ae_now e) secs prompt True
                                   (case ci_durable input of Some b \<Rightarrow> b | None \<Rightarrow> False) (ci_fire_immediately input))))))"

text \<open>
  The run of the tool: the interval is parsed before the resource is looked up, the other checks come after it; the answer
  \<open>None\<close> is a panic of the tool itself.
\<close>

definition run_scheduler_create ::
    "ActorEnv \<Rightarrow> string \<Rightarrow> scheduler_resource \<Rightarrow> SchedulerCreateInput
      \<Rightarrow> scheduler_resource \<times> (ToolError + SchedulerCreateOutput) option \<times> SchedulerNote list" where
  "run_scheduler_create e new_id res input =
     (case map_option parse_interval (ci_interval input) of
        Some None \<Rightarrow> (res, None, [])
      | Some (Some (Inl err)) \<Rightarrow> (res, Some (Inl (BadInterval err)), [])
      | _ \<Rightarrow>
          (case res of
             None \<Rightarrow> (res, Some (Inl (CustomError ''missing_resource'' ''SchedulerHandle'')), [])
           | Some actor \<Rightarrow>
               (case create_request e new_id input of
                  None \<Rightarrow> (res, None, [])
                | Some (Inl err) \<Rightarrow> (res, Some (Inl err), [])
                | Some (Inr cmd) \<Rightarrow>
                    (let (actor', reply, ns) = send_and_wait actor_stopped reply_dropped e actor cmd in
                     (Some actor',
                      Some (case reply of
                              Inl err \<Rightarrow> Inl err
                            | Inr (TaskReply (Inl err)) \<Rightarrow> Inl (scheduler_tool_error err)
                            | Inr (TaskReply (Inr task)) \<Rightarrow>
                                Inr \<lparr>co_id = st_id task, co_human_schedule = interval_to_human (st_interval_secs task),
                                     co_updated = ci_task_id input \<noteq> None\<rparr>
                            | Inr _ \<Rightarrow> Inl reply_dropped),
                      ns)))))"

section \<open>Delete and list\<close>

definition run_scheduler_delete ::
    "ActorEnv \<Rightarrow> scheduler_resource \<Rightarrow> string
      \<Rightarrow> scheduler_resource \<times> (ToolError + bool \<times> string) \<times> SchedulerNote list" where
  "run_scheduler_delete e res task_id =
     (case res of
        None \<Rightarrow> (res, Inl (CustomError ''missing_resource'' ''SchedulerHandle''), [])
      | Some actor \<Rightarrow>
          (let (actor', reply, ns) = send_and_wait actor_stopped reply_dropped e actor (Delete task_id) in
           (Some actor',
            (case reply of
               Inl err \<Rightarrow> Inl err
             | Inr (DeleteReply (Inl err)) \<Rightarrow> Inl (scheduler_tool_error err)
             | Inr (DeleteReply (Inr True)) \<Rightarrow> Inr (True, ''Scheduled task '' @ task_id @ '' cancelled.'')
             | Inr (DeleteReply (Inr False)) \<Rightarrow>
                 Inr (False, ''No scheduled task with ID '' @ task_id @ '' found. Use scheduler_list to see active tasks.'')
             | Inr _ \<Rightarrow> Inl reply_dropped),
            ns)))"

record ScheduledTaskSummary =
  ts_id :: string
  ts_prompt :: string
  ts_interval_human :: string
  ts_next_fire_at :: date_time
  ts_created_at :: date_time
  ts_recurring :: bool

fun boundary_below :: "string \<Rightarrow> nat \<Rightarrow> nat" where
  "boundary_below s i = (if 0 < i \<and> \<not> is_char_boundary s i then boundary_below s (i - 1) else i)"

declare boundary_below.simps [simp del]

definition floor_char_boundary :: "string \<Rightarrow> nat \<Rightarrow> nat" where
  "floor_char_boundary s index = (if length s \<le> index then length s else boundary_below s index)"

text \<open>A summary; slicing the prompt and adding to the date may panic. The dates are printed by the date library.\<close>

definition summarize :: "ActorEnv \<Rightarrow> ScheduledTask \<Rightarrow> ScheduledTaskSummary option" where
  "summarize e t =
     (case next_fire_at (ae_add e) t of
        None \<Rightarrow> None
      | Some next_fire \<Rightarrow>
          map_option (\<lambda>prompt. \<lparr>ts_id = st_id t, ts_prompt = prompt, ts_interval_human = interval_to_human (st_interval_secs t),
              ts_next_fire_at = next_fire, ts_created_at = st_created_at t, ts_recurring = st_recurring t\<rparr>)
            (if length (st_prompt t) > 80
             then (let cut = floor_char_boundary (st_prompt t) 80 in
                   if is_char_boundary (st_prompt t) cut then Some (take cut (st_prompt t) @ ''...'') else None)
             else Some (st_prompt t)))"

fun collect_some :: "'a option list \<Rightarrow> 'a list option" where
  "collect_some [] = Some []"
| "collect_some (None # xs) = None"
| "collect_some (Some x # xs) = map_option ((#) x) (collect_some xs)"

definition run_scheduler_list ::
    "ActorEnv \<Rightarrow> scheduler_resource \<Rightarrow> (ToolError + ScheduledTaskSummary list) option" where
  "run_scheduler_list e res =
     (case res of
        None \<Rightarrow> Some (Inl (CustomError ''missing_dependency'' ''missing dependency: SchedulerHandle''))
      | Some actor \<Rightarrow>
          (case send_and_wait (ExecutionError ''scheduler_list'' ''Scheduler actor stopped'')
                  (ExecutionError ''scheduler_list'' ''Scheduler actor dropped reply'') e actor ListTasks of
             (_, Inl err, _) \<Rightarrow> Some (Inl err)
           | (_, Inr (Snapshot _ tasks), _) \<Rightarrow> map_option Inr (collect_some (map (summarize e) tasks))
           | (_, Inr _, _) \<Rightarrow> Some (Inl (ExecutionError ''scheduler_list'' ''Scheduler actor dropped reply''))))"

section \<open>What the tools do\<close>

lemma boundary_below_ok: "is_char_boundary s (boundary_below s i)"
proof (induction s i rule: boundary_below.induct)
  case (1 s i)
  then show ?case by (subst boundary_below.simps) (auto simp: is_char_boundary_def)
qed

lemma floor_char_boundary_ok: "is_char_boundary s (floor_char_boundary s i)"
  by (simp add: floor_char_boundary_def boundary_below_ok) (simp add: is_char_boundary_def)

text \<open>A date library without bounds. What holds for it says nothing of a date out of range.\<close>

definition dates_in_range :: "ActorEnv \<Rightarrow> bool" where
  "dates_in_range e \<longleftrightarrow> (\<forall>at s. ae_add e at s \<noteq> None)"

lemma unbounded_datable: "dates_in_range e \<Longrightarrow> command_datable e a cmd"
  by (cases cmd) (auto simp: dates_in_range_def datable_def next_fire_at_def Let_def)

lemma summarize_total:
  assumes "datable e t"
  shows "\<exists>sm. summarize e t = Some sm \<and> ts_id sm = st_id t"
proof -
  obtain f where "next_fire_at (ae_add e) t = Some f" using assms by (auto simp: datable_def)
  then show ?thesis by (simp add: summarize_def floor_char_boundary_ok Let_def)
qed

lemma collect_some_map:
  "(\<And>x. x \<in> set xs \<Longrightarrow> \<exists>y. f x = Some y \<and> g y = h x) \<Longrightarrow> \<exists>ys. collect_some (map f xs) = Some ys \<and> map g ys = map h xs"
  by (induction xs) fastforce+

text \<open>The list shows every task, in order, and slicing a prompt never panics.\<close>

lemma list_shows_every_task:
  assumes "\<forall>t \<in> set (sa_tasks a). datable e t"
  shows "\<exists>ss. run_scheduler_list e (Some (Some a)) = Some (Inr ss) \<and> map ts_id ss = task_ids a"
proof -
  have "\<exists>ss. collect_some (map (summarize e) (sa_tasks a)) = Some ss \<and> map ts_id ss = task_ids a"
    using assms by (intro collect_some_map) (simp add: summarize_total)
  then show ?thesis by (auto simp: run_scheduler_list_def send_and_wait_def)
qed

lemma with_fire_immediately_ok:
  assumes "with_fire_immediately add new_id now secs prompt True durable soon = Some t"
  shows "st_id t = new_id \<and> st_recurring t \<and> st_interval_secs t = secs \<and> st_prompt t = prompt \<and> st_durable t = durable
     \<and> st_expires_at t \<noteq> None"
  using assms by (auto simp: with_fire_immediately_def split: option.splits if_splits)

lemma create_request_new:
  assumes "create_request e new_id input = Some (Inr cmd)" and "ci_task_id input = None"
  obtains t secs prompt where "cmd = Create t" and "ci_interval input \<noteq> None" and "ci_prompt input = Some prompt"
    and "parse_interval (the (ci_interval input)) = Some (Inr secs)"
    and "st_id t = new_id \<and> st_recurring t \<and> st_interval_secs t = secs \<and> st_prompt t = prompt \<and> st_expires_at t \<noteq> None"
  using assms
  by (auto simp: create_request_def dest: with_fire_immediately_ok split: option.splits sum.splits if_splits)

lemma command_error_keeps:
  "create_task e a t = Some (a', TaskReply (Inl err), ns) \<Longrightarrow> a' = a \<and> ns = []"
  "update_task e a x p i = Some (a', TaskReply (Inl err), ns) \<Longrightarrow> a' = a \<and> ns = []"
  by (auto simp: create_task_def update_task_def split: option.splits prod.splits if_splits)

lemma command_replies:
  "create_task e a t = Some (a', reply, ns) \<Longrightarrow> \<exists>r. reply = TaskReply r"
  "update_task e a x p i = Some (a', reply, ns) \<Longrightarrow> \<exists>r. reply = TaskReply r"
  by (auto simp: create_task_def update_task_def split: option.splits prod.splits if_splits)

lemma create_task_adds:
  "create_task e a t = Some (a', TaskReply (Inr u), ns) \<Longrightarrow>
     u = t \<and> sa_tasks a' = sa_tasks a @ [t] \<and> sa_pending a' = sa_pending a \<and> sa_blocked a' = sa_blocked a"
  by (auto simp: create_task_def split: option.splits prod.splits if_splits)

lemma create_request_shape:
  assumes "create_request e new_id input = Some (Inr cmd)"
  shows "(\<exists>t. cmd = Create t \<and> st_id t = new_id \<and> ci_task_id input = None) \<or> (\<exists>x p i. cmd = Update x p i \<and> ci_task_id input \<noteq> None)"
  using assms
  by (auto simp: create_request_def dest: with_fire_immediately_ok split: option.splits sum.splits if_splits)

lemma create_request_read:
  assumes "create_request e new_id input = Some (Inr cmd)"
  shows "run_scheduler_create e new_id (Some (Some a)) input =
     (let (actor', reply, ns) = send_and_wait actor_stopped reply_dropped e (Some a) cmd in
      (Some actor',
       Some (case reply of
               Inl err \<Rightarrow> Inl err
             | Inr (TaskReply (Inl err)) \<Rightarrow> Inl (scheduler_tool_error err)
             | Inr (TaskReply (Inr task)) \<Rightarrow>
                 Inr \<lparr>co_id = st_id task, co_human_schedule = interval_to_human (st_interval_secs task),
                      co_updated = ci_task_id input \<noteq> None\<rparr>
             | Inr _ \<Rightarrow> Inl reply_dropped), ns))"
proof -
  have "\<exists>x. map_option parse_interval (ci_interval input) \<in> {None, Some (Some (Inr x))}"
    using assms by (auto simp: create_request_def split: option.splits sum.splits)
  then show ?thesis unfolding run_scheduler_create_def by (auto simp: assms)
qed

text \<open>The request is answered by the actor, and an error answer changes nothing.\<close>

lemma create_request_answer:
  assumes "sched_inv a" and "dates_in_range e" and "new_id \<notin> st_id ` set (sa_tasks a)"
    and cmd: "create_request e new_id input = Some (Inr cmd)"
  obtains a' reply ns where "handle_command e a cmd = Some (a', TaskReply reply, ns)"
    and "(\<exists>err. reply = Inl err) \<longrightarrow> a' = a \<and> ns = []"
    and "run_scheduler_create e new_id (Some (Some a)) input = (Some (Some a'),
       Some (case reply of Inl err \<Rightarrow> Inl (scheduler_tool_error err)
             | Inr task \<Rightarrow> Inr \<lparr>co_id = st_id task, co_human_schedule = interval_to_human (st_interval_secs task),
                      co_updated = ci_task_id input \<noteq> None\<rparr>), ns)"
proof -
  have "fresh_command a cmd" using create_request_shape [OF cmd] assms(3) by auto
  then obtain a' r ns where h: "handle_command e a cmd = Some (a', r, ns)" 
    using command_inv [OF assms(1), of cmd e] unbounded_datable [OF assms(2)] by (auto simp: keeps_inv_def split: option.splits)
  have kind: "(\<exists>t. create_task e a t = Some (a', r, ns)) \<or> (\<exists>x p i. update_task e a x p i = Some (a', r, ns))"
    using create_request_shape [OF cmd] h by auto
  then obtain reply where r: "r = TaskReply reply" using command_replies by blast
  have "a' = a \<and> ns = []" if "reply = Inl err" for err
    using kind [unfolded r that] command_error_keeps by blast
  moreover have "run_scheduler_create e new_id (Some (Some a)) input = (Some (Some a'),
       Some (case reply of Inl err \<Rightarrow> Inl (scheduler_tool_error err)
             | Inr task \<Rightarrow> Inr \<lparr>co_id = st_id task, co_human_schedule = interval_to_human (st_interval_secs task),
                      co_updated = ci_task_id input \<noteq> None\<rparr>), ns)"
    unfolding create_request_read [OF cmd] send_and_wait_def by (simp add: h r split: sum.split)
  ultimately show thesis using that h r by blast
qed

text \<open>
  A call of the create tool is all or nothing. With a date library without bounds and a fresh identity, a call that fails with an error
  leaves the schedule as it was and announces nothing; a call without a task identity that succeeds appends exactly one
  recurring task with the new identity, the prompt and the parsed interval of at least a minute, and reports it; the
  actor survives every call; and the call itself only panics on an interval text whose last character takes several bytes.
\<close>

theorem create_tool_all_or_nothing:
  assumes "sched_inv a" and "dates_in_range e" and "new_id \<notin> st_id ` set (sa_tasks a)"
    and run: "run_scheduler_create e new_id (Some (Some a)) input = (res, r, ns)"
  shows "(\<forall>err. r = Some (Inl err) \<longrightarrow> res = Some (Some a) \<and> ns = [])
    \<and> (\<forall>out. r = Some (Inr out) \<longrightarrow> ci_task_id input = None \<longrightarrow>
         (\<exists>a' t. res = Some (Some a') \<and> sa_tasks a' = sa_tasks a @ [t] \<and> st_id t = new_id \<and> st_recurring t
            \<and> Some (st_prompt t) = ci_prompt input \<and> 60 \<le> st_interval_secs t
            \<and> parse_interval (the (ci_interval input)) = Some (Inr (st_interval_secs t))
            \<and> out = \<lparr>co_id = new_id, co_human_schedule = interval_to_human (st_interval_secs t), co_updated = False\<rparr>))
    \<and> (r = None \<longrightarrow> map_option parse_interval (ci_interval input) = Some None)"
proof (cases "create_request e new_id input")
  case None
  have "with_fire_immediately (ae_add e) new_id (ae_now e) secs prompt True d b \<noteq> None" for secs prompt d b
    using assms(2) by (simp add: with_fire_immediately_def dates_in_range_def option.case_eq_if del: not_None_eq)
  with None have "map_option parse_interval (ci_interval input) = Some None"
    by (auto simp: create_request_def simp del: not_None_eq split: option.splits sum.splits if_splits)
  with run show ?thesis by (simp add: run_scheduler_create_def)
next
  case (Some req)
  show ?thesis
  proof (cases req)
    case (Inl err)
    with Some run show ?thesis
      by (auto simp: run_scheduler_create_def create_request_def split: option.splits sum.splits if_splits)
  next
    case (Inr cmd)
    obtain a' reply ns' where h: "handle_command e a cmd = Some (a', TaskReply reply, ns')"
      and err: "(\<exists>err. reply = Inl err) \<longrightarrow> a' = a \<and> ns' = []"
      and ran: "run_scheduler_create e new_id (Some (Some a)) input = (Some (Some a'),
       Some (case reply of Inl err \<Rightarrow> Inl (scheduler_tool_error err)
             | Inr task \<Rightarrow> Inr \<lparr>co_id = st_id task, co_human_schedule = interval_to_human (st_interval_secs task),
                      co_updated = ci_task_id input \<noteq> None\<rparr>), ns')"
      by (rule create_request_answer [OF assms(1-3) Some [unfolded Inr]])
    from ran run have res: "res = Some (Some a')" and ns: "ns = ns'" and r: "r = Some (case reply of
        Inl err \<Rightarrow> Inl (scheduler_tool_error err)
      | Inr task \<Rightarrow> Inr \<lparr>co_id = st_id task, co_human_schedule = interval_to_human (st_interval_secs task),
                      co_updated = ci_task_id input \<noteq> None\<rparr>)"
      by simp_all
    have "\<exists>a' t. res = Some (Some a') \<and> sa_tasks a' = sa_tasks a @ [t] \<and> st_id t = new_id \<and> st_recurring t
            \<and> Some (st_prompt t) = ci_prompt input \<and> 60 \<le> st_interval_secs t
            \<and> parse_interval (the (ci_interval input)) = Some (Inr (st_interval_secs t))
            \<and> out = \<lparr>co_id = new_id, co_human_schedule = interval_to_human (st_interval_secs t), co_updated = False\<rparr>"
      if out: "r = Some (Inr out)" and new: "ci_task_id input = None" for out
      using Some [unfolded Inr] new
    proof (rule create_request_new)
      fix t secs prompt
      assume t: "cmd = Create t" "ci_prompt input = Some prompt"
        "parse_interval (the (ci_interval input)) = Some (Inr secs)"
        "st_id t = new_id \<and> st_recurring t \<and> st_interval_secs t = secs \<and> st_prompt t = prompt \<and> st_expires_at t \<noteq> None"
      from out r obtain u where u: "reply = Inr u" by (auto split: sum.splits)
      with h t(1) create_task_adds have "u = t" "sa_tasks a' = sa_tasks a @ [t]" by fastforce+
      moreover have "60 \<le> secs" using parse_interval_accepts [OF t(3)] by (simp add: MINIMUM_INTERVAL_SECS_def)
      ultimately show ?thesis using t res r out u new by auto
    qed
    with err res r ns show ?thesis by (auto split: sum.splits)
  qed
qed

definition five_minutes :: SchedulerCreateInput where
  "five_minutes = \<lparr>ci_task_id = None, ci_interval = Some ''5m'', ci_prompt = Some ''look'', ci_recurring = True,
     ci_durable = None, ci_fire_immediately = True\<rparr>"

lemma create_tool_all_or_nothing_witness:
  "\<exists>res r ns. run_scheduler_create plain_env ''u'' (Some (Some one_task)) five_minutes = (res, r, ns) \<and> r \<noteq> None"
proof -
  obtain res r ns where run: "run_scheduler_create plain_env ''u'' (Some (Some one_task)) five_minutes = (res, r, ns)"
    by (metis prod.exhaust)
  have inv: "sched_inv one_task" by (simp add: sched_inv_def one_task_def clock_new_def MAX_SCHEDULED_TASKS_def)
  have dates: "dates_in_range plain_env" by (simp add: dates_in_range_def plain_env_def)
  have fresh: "''u'' \<notin> st_id ` set (sa_tasks one_task)" by (simp add: one_task_def loop_task_def)
  have "trim ''5m'' = ''5m''" by code_simp
  then have "parse_interval ''5m'' = Some (Inr 300)" by (simp add: parse_interval_simps)
  with create_tool_all_or_nothing [OF inv dates fresh run] run show ?thesis
    by (auto simp: five_minutes_def)
qed

end
