(* ===== verification/Occurrence_Journal.thy ===== *)
theory Occurrence_Journal
  imports Scheduler_Laws Permission_Rules "HOL-Library.Multiset"
begin

text \<open>
  The journal of one-shot tasks: \<open>occurrence_journal.rs\<close> of
  \<open>crates/codegen/xai-grok-tools/src/implementations/grok_build/scheduler\<close>. A one-shot task that fires leaves the list
  of tasks and gets a receipt in one snapshot of the persisted state; the receipt is cleared when its removal has
  been published. After a restart the receipts decide which timers stay off. Reading a persisted journal never
  fails: what it cannot read it turns into quarantine.
\<close>

section \<open>Receipts\<close>

definition MAX_PENDING_ONE_SHOTS :: nat where "MAX_PENDING_ONE_SHOTS = 50"
definition MAX_QUARANTINED_TASK_IDS :: nat where "MAX_QUARANTINED_TASK_IDS = 50"
definition MAX_TASK_ID_BYTES :: nat where "MAX_TASK_ID_BYTES = 256"

record ScheduledOccurrenceVersions =
  ov_fire :: SchedulerVersion
  ov_removal :: SchedulerVersion

record OneShotOccurrence =
  oc_id :: Uuid
  oc_task :: ScheduledTask
  oc_versions :: ScheduledOccurrenceVersions

record OccurrenceJournal =
  oj_entries :: "OneShotOccurrence list"
  oj_quarantined :: "string list"
  oj_block_all :: bool
  oj_overflowed :: bool

datatype OccurrenceJournalError =
    JTaskNotFound string
  | NotDurableOneShot string
  | TaskAlreadyJournaled string
  | JournalFull
  | InvalidVersions
  | DuplicateTransitionVersion
  | RecoveryRequired
  | OccurrenceNotFound

text \<open>
  The parameters: whether an identity is a UUID of version 7 in the RFC variant, and the derived reading of
  the fields of a receipt (its identity, task, fire and removal version) from JSON.
\<close>

record journal_env =
  je_v7 :: "Uuid \<Rightarrow> bool"
  je_fields :: "json \<Rightarrow> (Uuid \<times> ScheduledTask \<times> SchedulerVersion \<times> SchedulerVersion) option"

definition try_new ::
    "journal_env \<Rightarrow> SchedulerVersion \<Rightarrow> SchedulerVersion \<Rightarrow> OccurrenceJournalError + ScheduledOccurrenceVersions" where
  "try_new je fire removal =
     (if \<not> je_v7 je (sv_generation fire) \<or> sv_revision fire = 0 \<or> sv_generation removal \<noteq> sv_generation fire
         \<or> sv_revision fire + 1 > u64_max \<or> sv_revision removal \<noteq> sv_revision fire + 1
      then Inl InvalidVersions else Inr \<lparr>ov_fire = fire, ov_removal = removal\<rparr>)"

definition versions_contain :: "ScheduledOccurrenceVersions \<Rightarrow> SchedulerVersion \<Rightarrow> bool" where
  "versions_contain vs v \<longleftrightarrow> ov_fire vs = v \<or> ov_removal vs = v"

text \<open>The hand-written \<open>Deserialize\<close> of a receipt and of its parts.\<close>

definition decode_occurrence :: "journal_env \<Rightarrow> json \<Rightarrow> OneShotOccurrence option" where
  "decode_occurrence je j =
     (case je_fields je j of
        None \<Rightarrow> None
      | Some (occurrence_id, task, fire, removal) \<Rightarrow>
          if \<not> je_v7 je occurrence_id then None
          else case try_new je fire removal of
                 Inl _ \<Rightarrow> None
               | Inr versions \<Rightarrow>
                   if st_recurring task \<or> \<not> st_durable task then None
                   else Some \<lparr>oc_id = occurrence_id, oc_task = task, oc_versions = versions\<rparr>)"

section \<open>Reading a journal\<close>

definition parse_json_array :: "json option \<Rightarrow> json list \<times> bool" where
  "parse_json_array v = (case v of None \<Rightarrow> ([], False) | Some (JArray xs) \<Rightarrow> (xs, False) | Some _ \<Rightarrow> ([], True))"

definition parse_json_bool :: "json option \<Rightarrow> bool \<times> bool" where
  "parse_json_bool v = (case v of None \<Rightarrow> (False, False) | Some (JBool b) \<Rightarrow> (b, False) | Some _ \<Rightarrow> (True, True))"

definition quarantined_task_id :: "json \<Rightarrow> string option" where
  "quarantined_task_id v = Option.bind (Option.bind (json_get v ''task'') (\<lambda>t. json_get t ''id'')) as_str"

definition quarantine_task_id :: "string \<Rightarrow> OccurrenceJournal \<Rightarrow> OccurrenceJournal" where
  "quarantine_task_id task_id j =
     (if task_id = [] \<or> length task_id > MAX_TASK_ID_BYTES then j\<lparr>oj_block_all := True\<rparr>
      else if task_id \<in> set (oj_quarantined j) then j
      else if length (oj_quarantined j) = MAX_QUARANTINED_TASK_IDS then j\<lparr>oj_block_all := True\<rparr>
      else j\<lparr>oj_quarantined := oj_quarantined j @ [task_id]\<rparr>)"

definition decode_entry :: "journal_env \<Rightarrow> json \<Rightarrow> OccurrenceJournal \<Rightarrow> OccurrenceJournal" where
  "decode_entry je v j =
     (case decode_occurrence je v of
        Some occurrence \<Rightarrow> j\<lparr>oj_entries := oj_entries j @ [occurrence]\<rparr>
      | None \<Rightarrow>
          (case quarantined_task_id v of
             Some task_id \<Rightarrow> quarantine_task_id task_id j
           | None \<Rightarrow> j\<lparr>oj_block_all := True\<rparr>))"

text \<open>The parts of the persisted value: entries, quarantined identities, the two flags, and whether it is malformed.\<close>

definition journal_parts :: "json \<Rightarrow> json list \<times> string list \<times> bool \<times> bool \<times> bool" where
  "journal_parts value =
     (case value of
        JArray es \<Rightarrow> (es, [], False, False, False)
      | JObject _ \<Rightarrow>
          (let (es, bad_entries) = parse_json_array (json_get value ''entries'');
               (task_values, bad_task_ids) = parse_json_array (json_get value ''quarantinedTaskIds'');
               bad_task_element = list_ex (\<lambda>v. as_str v = None) task_values;
               (block_all, bad_block) = parse_json_bool (json_get value ''blockAllOneShots'');
               (over, bad_overflow) = parse_json_bool (json_get value ''overflowed'') in
           (es, List.map_filter as_str task_values, block_all, over,
            bad_entries \<or> bad_task_ids \<or> bad_task_element \<or> bad_block \<or> bad_overflow))
      | _ \<Rightarrow> ([], [], True, False, True))"

definition decode_json :: "journal_env \<Rightarrow> json \<Rightarrow> OccurrenceJournal" where
  "decode_json je value =
     (let (es, task_ids, block_all, over, is_malformed) = journal_parts value;
          j0 = \<lparr>oj_entries = [], oj_quarantined = [], oj_block_all = block_all \<or> over \<or> is_malformed, oj_overflowed = over\<rparr>;
          j1 = fold quarantine_task_id task_ids j0;
          j2 = (if length es > MAX_PENDING_ONE_SHOTS then j1\<lparr>oj_block_all := True, oj_overflowed := True\<rparr> else j1) in
      fold (decode_entry je) (take MAX_PENDING_ONE_SHOTS es) j2)"

definition journal_is_empty :: "OccurrenceJournal \<Rightarrow> bool" where
  "journal_is_empty j \<longleftrightarrow> oj_entries j = [] \<and> oj_quarantined j = [] \<and> \<not> oj_block_all j \<and> \<not> oj_overflowed j"

section \<open>Preparing and finishing\<close>

record SchedulerState =
  ss_tasks :: "ScheduledTask list"
  ss_journal :: OccurrenceJournal

definition has_conflict :: "OneShotOccurrence list \<Rightarrow> bool" where
  "has_conflict es \<longleftrightarrow>
     length (remdups (map oc_id es)) \<noteq> length es
     \<or> length (remdups (map (\<lambda>oc. st_id (oc_task oc)) es)) \<noteq> length es
     \<or> length (remdups (concat (map (\<lambda>oc. [ov_fire (oc_versions oc), ov_removal (oc_versions oc)]) es))) \<noteq> length es * 2"

definition prepare_one_shot_occurrence_with_id ::
    "SchedulerState \<Rightarrow> Uuid \<Rightarrow> string \<Rightarrow> ScheduledOccurrenceVersions
      \<Rightarrow> SchedulerState \<times> (OccurrenceJournalError + OneShotOccurrence)" where
  "prepare_one_shot_occurrence_with_id s occurrence_id task_id versions =
     (let j = ss_journal s; es = oj_entries j in
      if oj_quarantined j \<noteq> [] \<or> oj_block_all j \<or> oj_overflowed j \<or> has_conflict es then (s, Inl RecoveryRequired)
      else if length es \<ge> MAX_PENDING_ONE_SHOTS then (s, Inl JournalFull)
      else if list_ex (\<lambda>oc. st_id (oc_task oc) = task_id) es then (s, Inl (TaskAlreadyJournaled task_id))
      else if list_ex (\<lambda>oc. versions_contain (oc_versions oc) (ov_fire versions)
                          \<or> versions_contain (oc_versions oc) (ov_removal versions)) es
      then (s, Inl DuplicateTransitionVersion)
      else case position (\<lambda>t. st_id t = task_id) (ss_tasks s) of
             None \<Rightarrow> (s, Inl (JTaskNotFound task_id))
           | Some index \<Rightarrow>
               let task = ss_tasks s ! index in
               if st_recurring task \<or> \<not> st_durable task then (s, Inl (NotDurableOneShot task_id))
               else let occurrence = \<lparr>oc_id = occurrence_id, oc_task = task, oc_versions = versions\<rparr> in
                    (s\<lparr>ss_tasks := remove_at index (ss_tasks s), ss_journal := j\<lparr>oj_entries := es @ [occurrence]\<rparr>\<rparr>,
                     Inr occurrence))"

definition finish_one_shot_removal ::
    "SchedulerState \<Rightarrow> Uuid \<Rightarrow> SchedulerState \<times> (OccurrenceJournalError + OneShotOccurrence)" where
  "finish_one_shot_removal s occurrence_id =
     (let es = oj_entries (ss_journal s) in
      case position (\<lambda>oc. oc_id oc = occurrence_id) es of
        None \<Rightarrow> (s, Inl OccurrenceNotFound)
      | Some index \<Rightarrow> (s\<lparr>ss_journal := (ss_journal s)\<lparr>oj_entries := remove_at index es\<rparr>\<rparr>, Inr (es ! index)))"

section \<open>Reconciling after a restart\<close>

datatype OneShotJournalConflict = ConflictOccurrenceId | ConflictTaskId | ConflictTransitionVersion

record SchedulerLoadReconciliation =
  lr_requires_persistence :: bool
  lr_task_ids_to_remove :: "string list"
  lr_blocked :: "string set"
  lr_block_all :: bool
  lr_recovery_required :: bool
  lr_conflicts :: "OneShotJournalConflict list"
  lr_overflow_error :: "OccurrenceJournalError option"

text \<open>\<open>count_by\<close>: how often a key occurs.\<close>

definition count_by :: "'a list \<Rightarrow> ('a \<Rightarrow> 'k) \<Rightarrow> 'k \<Rightarrow> nat" where
  "count_by xs key k = length (filter (\<lambda>x. key x = k) xs)"

definition conflict_for :: "OneShotOccurrence list \<Rightarrow> OneShotOccurrence \<Rightarrow> OneShotJournalConflict option" where
  "conflict_for es oc =
     (let version_count = count_by (concat (map (\<lambda>o2. [ov_fire (oc_versions o2), ov_removal (oc_versions o2)]) es)) (\<lambda>v. v) in
      if count_by es oc_id (oc_id oc) > 1 then Some ConflictOccurrenceId
      else if count_by es (\<lambda>o2. st_id (oc_task o2)) (st_id (oc_task oc)) > 1 then Some ConflictTaskId
      else if version_count (ov_fire (oc_versions oc)) > 1 \<or> version_count (ov_removal (oc_versions oc)) > 1
      then Some ConflictTransitionVersion
      else None)"

definition reconcile_one_shot_occurrences :: "SchedulerState \<Rightarrow> SchedulerLoadReconciliation" where
  "reconcile_one_shot_occurrences s =
     (let j = ss_journal s; es = oj_entries j;
          conflicts = List.map_filter (conflict_for es) es;
          recovery_required = (oj_block_all j \<or> oj_overflowed j \<or> oj_quarantined j \<noteq> [] \<or> conflicts \<noteq> []);
          journaled = map (\<lambda>oc. st_id (oc_task oc)) es;
          blocked = set (oj_quarantined j) \<union> set journaled
            \<union> (if oj_block_all j then set (map st_id (filter (\<lambda>t. \<not> st_recurring t) (ss_tasks s))) else {});
          task_ids_to_remove =
            (if recovery_required then [] else map st_id (filter (\<lambda>t. st_id t \<in> set journaled) (ss_tasks s))) in
      \<lparr>lr_requires_persistence = task_ids_to_remove \<noteq> [], lr_task_ids_to_remove = task_ids_to_remove,
       lr_blocked = blocked, lr_block_all = oj_block_all j, lr_recovery_required = recovery_required,
       lr_conflicts = conflicts, lr_overflow_error = (if oj_overflowed j then Some JournalFull else None)\<rparr>)"

section \<open>What a loaded journal keeps off\<close>

text \<open>
  What a restart must keep off: a task whose receipt is read, one whose identity is quarantined, and every one-shot
  when everything is blocked.
\<close>

definition keeps_off :: "OccurrenceJournal \<Rightarrow> string \<Rightarrow> bool" where
  "keeps_off j tid \<longleftrightarrow> oj_block_all j \<or> tid \<in> set (oj_quarantined j) \<or> tid \<in> (st_id \<circ> oc_task) ` set (oj_entries j)"

text \<open>What the derived reading of a receipt satisfies: the task it reads has the identity written under \<open>task.id\<close>.\<close>

definition reads_task_id :: "journal_env \<Rightarrow> bool" where
  "reads_task_id je \<longleftrightarrow> (\<forall>v i t f r. je_fields je v = Some (i, t, f, r) \<longrightarrow> quarantined_task_id v = Some (st_id t))"

lemma blocked_iff:
  assumes "t \<in> set (ss_tasks s)" and "\<not> st_recurring t"
  shows "keeps_off (ss_journal s) (st_id t) \<Longrightarrow> st_id t \<in> lr_blocked (reconcile_one_shot_occurrences s)"
  using assms by (auto simp: keeps_off_def reconcile_one_shot_occurrences_def Let_def)

lemma decode_occurrence_task:
  "reads_task_id je \<Longrightarrow> decode_occurrence je v = Some oc \<Longrightarrow> quarantined_task_id v = Some (st_id (oc_task oc))"
  by (auto simp: decode_occurrence_def reads_task_id_def split: option.splits if_splits sum.splits)

lemma quarantine_keeps: "keeps_off j tid \<Longrightarrow> keeps_off (quarantine_task_id i j) tid"
  by (auto simp: quarantine_task_id_def keeps_off_def)

lemma quarantine_adds: "keeps_off (quarantine_task_id tid j) tid"
  by (auto simp: quarantine_task_id_def keeps_off_def)

lemma decode_entry_keeps: "keeps_off j tid \<Longrightarrow> keeps_off (decode_entry je v j) tid"
  by (auto simp: decode_entry_def quarantine_keeps split: option.splits) (auto simp: keeps_off_def)

lemma decode_entry_adds:
  assumes "reads_task_id je" and "quarantined_task_id v = Some tid \<or> quarantined_task_id v = None"
  shows "keeps_off (decode_entry je v j) tid"
proof (cases "decode_occurrence je v")
  case None
  then show ?thesis
    using assms(2) by (auto simp: decode_entry_def quarantine_adds) (simp add: keeps_off_def)
next
  case (Some oc)
  with decode_occurrence_task [OF assms(1)] assms(2) show ?thesis by (auto simp: decode_entry_def keeps_off_def)
qed

lemma fold_keeps: "(\<And>x j. P j \<Longrightarrow> P (f x j)) \<Longrightarrow> P j \<Longrightarrow> P (fold f xs j)"
  by (induction xs arbitrary: j) auto

lemma fold_adds:
  assumes "\<And>x j. P j \<Longrightarrow> P (f x j)" and "\<And>j. P (f x j)" and "x \<in> set xs"
  shows "P (fold f xs j)"
  using assms(3) by (induction xs arbitrary: j) (auto intro: fold_keeps [of P f] assms(1,2))

lemma decode_json_keeps_off:
  assumes parts: "journal_parts value = (es, ids, block, over, bad)"
  shows "block \<or> over \<or> bad \<Longrightarrow> keeps_off (decode_json je value) tid"
    and "tid \<in> set ids \<Longrightarrow> keeps_off (decode_json je value) tid"
    and "reads_task_id je \<Longrightarrow> v \<in> set es \<Longrightarrow> quarantined_task_id v \<in> {None, Some tid} \<Longrightarrow>
           keeps_off (decode_json je value) tid"
proof -
  define j0 where "j0 = \<lparr>oj_entries = [], oj_quarantined = [], oj_block_all = block \<or> over \<or> bad, oj_overflowed = over\<rparr>"
  define j1 where "j1 = fold quarantine_task_id ids j0"
  define j2 where "j2 = (if length es > MAX_PENDING_ONE_SHOTS then j1\<lparr>oj_block_all := True, oj_overflowed := True\<rparr> else j1)"
  have dec: "decode_json je value = fold (decode_entry je) (take MAX_PENDING_ONE_SHOTS es) j2"
    by (simp add: decode_json_def parts j0_def j1_def j2_def Let_def)
  have later: "keeps_off j2 tid \<Longrightarrow> keeps_off (decode_json je value) tid"
    unfolding dec by (rule fold_keeps) (rule decode_entry_keeps)
  have early: "keeps_off j1 tid \<Longrightarrow> keeps_off j2 tid" by (simp add: j2_def keeps_off_def)
  show "block \<or> over \<or> bad \<Longrightarrow> keeps_off (decode_json je value) tid"
    by (intro later early, unfold j1_def, rule fold_keeps [of "\<lambda>j. keeps_off j tid"], rule quarantine_keeps)
      (auto simp: j0_def keeps_off_def)
  show "tid \<in> set ids \<Longrightarrow> keeps_off (decode_json je value) tid"
    by (intro later early, unfold j1_def, rule fold_adds [of "\<lambda>j. keeps_off j tid" _ tid])
      (auto intro: quarantine_keeps quarantine_adds)
  assume je: "reads_task_id je" and v: "v \<in> set es" "quarantined_task_id v \<in> {None, Some tid}"
  show "keeps_off (decode_json je value) tid"
  proof (cases "length es > MAX_PENDING_ONE_SHOTS")
    case True
    then show ?thesis by (intro later) (simp add: j2_def keeps_off_def)
  next
    case False
    then show ?thesis unfolding dec using v je
      by (intro fold_adds [of "\<lambda>j. keeps_off j tid" _ v]) (auto intro: decode_entry_keeps decode_entry_adds)
  qed
qed

section \<open>Conflicts\<close>

text \<open>A list of keys repeats iff some key occurs more than once: the count by a set and the count per key agree.\<close>

lemma count_by_map: "count_by xs key k = count_list (map key xs) k"
  by (induction xs) (auto simp: count_by_def)

lemma count_list_gt_one: "(\<exists>k \<in> set ks. count_list ks k > 1) \<longleftrightarrow> \<not> distinct ks"
proof (induction ks)
  case (Cons a ks)
  have pos: "count_list ks k > 0 \<longleftrightarrow> k \<in> set ks" for k by (metis count_list_0_iff gr0I less_irrefl)
  show ?case using Cons.IH pos by auto
qed simp

lemma card_repeats: "length (remdups ks) \<noteq> length ks \<longleftrightarrow> \<not> distinct ks"
  by (metis length_remdups_card_conv card_distinct distinct_card)

lemma has_conflict_iff:
  "has_conflict es \<longleftrightarrow> \<not> (distinct (map oc_id es) \<and> distinct (map (\<lambda>oc. st_id (oc_task oc)) es)
     \<and> distinct (concat (map (\<lambda>oc. [ov_fire (oc_versions oc), ov_removal (oc_versions oc)]) es)))"
proof -
  have len: "length (concat (map (\<lambda>oc. [ov_fire (oc_versions oc), ov_removal (oc_versions oc)]) es)) = length es * 2"
    by (induction es) auto
  show ?thesis
    using card_repeats [of "map oc_id es"] card_repeats [of "map (\<lambda>oc. st_id (oc_task oc)) es"]
      card_repeats [of "concat (map (\<lambda>oc. [ov_fire (oc_versions oc), ov_removal (oc_versions oc)]) es)"]
    unfolding has_conflict_def len by simp
qed

lemma conflicts_found: "List.map_filter (conflict_for es) es \<noteq> [] \<longleftrightarrow> has_conflict es"
proof -
  let ?ids = "map oc_id es" and ?ts = "map (\<lambda>oc. st_id (oc_task oc)) es"
    and ?vs = "concat (map (\<lambda>oc. [ov_fire (oc_versions oc), ov_removal (oc_versions oc)]) es)"
  have "List.map_filter (conflict_for es) es \<noteq> [] \<longleftrightarrow> (\<exists>oc \<in> set es. conflict_for es oc \<noteq> None)"
    by (auto simp: List.map_filter_def filter_empty_conv)
  also have "\<dots> \<longleftrightarrow> (\<exists>oc \<in> set es. count_list ?ids (oc_id oc) > 1 \<or> count_list ?ts (st_id (oc_task oc)) > 1
       \<or> count_list ?vs (ov_fire (oc_versions oc)) > 1 \<or> count_list ?vs (ov_removal (oc_versions oc)) > 1)"
    by (intro bex_cong refl) (simp add: conflict_for_def Let_def count_by_map)
  also have "\<dots> \<longleftrightarrow> (\<exists>k \<in> set ?ids. count_list ?ids k > 1) \<or> (\<exists>k \<in> set ?ts. count_list ?ts k > 1)
       \<or> (\<exists>k \<in> set ?vs. count_list ?vs k > 1)"
    by (auto simp: bex_Un)
  finally show ?thesis unfolding count_list_gt_one has_conflict_iff by blast
qed

section \<open>Runs of the journal\<close>

text \<open>
  What a session does with its one-shots, from the tasks \<open>ts\<close> and an empty journal: prepare a removal under a
  fresh identity and valid versions, and finish one. \<open>fs\<close> are the receipts finished so far.
\<close>

definition empty_journal :: OccurrenceJournal where
  "empty_journal = \<lparr>oj_entries = [], oj_quarantined = [], oj_block_all = False, oj_overflowed = False\<rparr>"

inductive one_shots :: "journal_env \<Rightarrow> ScheduledTask list \<Rightarrow> SchedulerState \<Rightarrow> OneShotOccurrence list \<Rightarrow> bool"
  for je ts where
  load: "one_shots je ts \<lparr>ss_tasks = ts, ss_journal = empty_journal\<rparr> []"
| prepare: "one_shots je ts s fs \<Longrightarrow> try_new je fire removal = Inr versions \<Longrightarrow>
    occurrence_id \<notin> oc_id ` set (oj_entries (ss_journal s)) \<Longrightarrow>
    prepare_one_shot_occurrence_with_id s occurrence_id task_id versions = (s', r) \<Longrightarrow> one_shots je ts s' fs"
| finish: "one_shots je ts s fs \<Longrightarrow> finish_one_shot_removal s occurrence_id = (s', Inr oc) \<Longrightarrow> one_shots je ts s' (fs @ [oc])"
| no_finish: "one_shots je ts s fs \<Longrightarrow> finish_one_shot_removal s occurrence_id = (s', Inl e) \<Longrightarrow> one_shots je ts s' fs"

lemma mset_remove_at: "i < length xs \<Longrightarrow> add_mset (xs ! i) (mset (remove_at i xs)) = mset xs"
  by (subst (3) id_take_nth_drop) (simp_all add: remove_at_def)

lemma prepare_cases:
  assumes "prepare_one_shot_occurrence_with_id s occurrence_id task_id versions = (s', r)"
  obtains (refused) e where "r = Inl e" "s' = s"
  | (prepared) i oc where "r = Inr oc" "oc = \<lparr>oc_id = occurrence_id, oc_task = ss_tasks s ! i, oc_versions = versions\<rparr>"
      "i < length (ss_tasks s)" "st_id (ss_tasks s ! i) = task_id"
      "\<not> st_recurring (ss_tasks s ! i)" "st_durable (ss_tasks s ! i)"
      "s' = s\<lparr>ss_tasks := remove_at i (ss_tasks s),
              ss_journal := (ss_journal s)\<lparr>oj_entries := oj_entries (ss_journal s) @ [oc]\<rparr>\<rparr>"
      "\<not> has_conflict (oj_entries (ss_journal s))" "length (oj_entries (ss_journal s)) < MAX_PENDING_ONE_SHOTS"
      "\<forall>o2 \<in> set (oj_entries (ss_journal s)). st_id (oc_task o2) \<noteq> task_id
         \<and> \<not> versions_contain (oc_versions o2) (ov_fire versions) \<and> \<not> versions_contain (oc_versions o2) (ov_removal versions)"
proof (cases r)
  case (Inl e)
  with assms have "s' = s"
    by (simp add: prepare_one_shot_occurrence_with_id_def Let_def split: if_splits option.splits)
  with Inl show ?thesis by (rule refused)
next
  case (Inr oc)
  note unfolded = assms [unfolded Inr prepare_one_shot_occurrence_with_id_def Let_def]
  from unfolded obtain i where i: "position (\<lambda>t. st_id t = task_id) (ss_tasks s) = Some i"
    by (simp split: if_splits option.splits)
  have oc: "oc = \<lparr>oc_id = occurrence_id, oc_task = ss_tasks s ! i, oc_versions = versions\<rparr>"
    and s': "s' = s\<lparr>ss_tasks := remove_at i (ss_tasks s),
              ss_journal := (ss_journal s)\<lparr>oj_entries := oj_entries (ss_journal s) @ [oc]\<rparr>\<rparr>"
    and kind: "\<not> st_recurring (ss_tasks s ! i)" "st_durable (ss_tasks s ! i)"
    and room: "\<not> has_conflict (oj_entries (ss_journal s))" "length (oj_entries (ss_journal s)) < MAX_PENDING_ONE_SHOTS"
    using unfolded by (auto simp: i split: if_splits)
  have fresh: "\<not> list_ex (\<lambda>o2. st_id (oc_task o2) = task_id) (oj_entries (ss_journal s))"
    "\<not> list_ex (\<lambda>o2. versions_contain (oc_versions o2) (ov_fire versions)
                   \<or> versions_contain (oc_versions o2) (ov_removal versions)) (oj_entries (ss_journal s))"
    using unfolded by (simp_all split: if_splits)
  from position_Some [OF i] show ?thesis
    by (intro prepared [OF Inr oc _ _ kind s' room]) (use fresh in \<open>auto simp: list_ex_iff\<close>)
qed

lemma finish_cases:
  assumes "finish_one_shot_removal s occurrence_id = (s', r)"
  obtains (refused) "r = Inl OccurrenceNotFound" "s' = s" "occurrence_id \<notin> oc_id ` set (oj_entries (ss_journal s))"
  | (finished) i where "r = Inr (oj_entries (ss_journal s) ! i)" "i < length (oj_entries (ss_journal s))"
      "oc_id (oj_entries (ss_journal s) ! i) = occurrence_id"
      "s' = s\<lparr>ss_journal := (ss_journal s)\<lparr>oj_entries := remove_at i (oj_entries (ss_journal s))\<rparr>\<rparr>"
  using assms position_Some [of "\<lambda>oc. oc_id oc = occurrence_id" "oj_entries (ss_journal s)"]
    position_None [of "\<lambda>oc. oc_id oc = occurrence_id" "oj_entries (ss_journal s)"]
  unfolding finish_one_shot_removal_def Let_def
  by (auto split: option.splits)

definition journal_inv :: "ScheduledTask list \<Rightarrow> SchedulerState \<Rightarrow> OneShotOccurrence list \<Rightarrow> bool" where
  "journal_inv ts s fs \<longleftrightarrow>
     (let j = ss_journal s; es = oj_entries j in
      oj_quarantined j = [] \<and> \<not> oj_block_all j \<and> \<not> oj_overflowed j \<and> \<not> has_conflict es
      \<and> length es \<le> MAX_PENDING_ONE_SHOTS
      \<and> mset (ss_tasks s) + mset (map oc_task es) + mset (map oc_task fs) = mset ts
      \<and> (\<forall>oc \<in> set es \<union> set fs. st_durable (oc_task oc) \<and> \<not> st_recurring (oc_task oc)))"

lemma conflict_free_add:
  assumes "\<not> has_conflict es" and "oc_id oc \<notin> oc_id ` set es" and "try_new je fire removal = Inr (oc_versions oc)"
    and "\<forall>o2 \<in> set es. st_id (oc_task o2) \<noteq> st_id (oc_task oc)
         \<and> \<not> versions_contain (oc_versions o2) (ov_fire (oc_versions oc))
         \<and> \<not> versions_contain (oc_versions o2) (ov_removal (oc_versions oc))"
  shows "\<not> has_conflict (es @ [oc])"
proof -
  have "ov_fire (oc_versions oc) \<noteq> ov_removal (oc_versions oc)"
    using assms(3) by (cases "oc_versions oc") (auto simp: try_new_def split: if_splits)
  then show ?thesis using assms(1,2,4) unfolding has_conflict_iff versions_contain_def by fastforce
qed

lemma remove_at_versions:
  "distinct (concat (map f es)) \<Longrightarrow> i < length es \<Longrightarrow> distinct (concat (map f (remove_at i es)))"
  by (subst (asm) id_take_nth_drop [of i es]) (auto simp: remove_at_def)

lemma conflict_free_remove:
  "\<not> has_conflict es \<Longrightarrow> i < length es \<Longrightarrow> \<not> has_conflict (remove_at i es)"
  unfolding has_conflict_iff by (simp add: map_remove_at distinct_remove_at(1) remove_at_versions [unfolded map_remove_at])

lemma one_shots_inv: "one_shots je ts s fs \<Longrightarrow> journal_inv ts s fs"
proof (induction rule: one_shots.induct)
  case load
  then show ?case by (simp add: journal_inv_def empty_journal_def has_conflict_def)
next
  case (prepare s fs fire removal versions occurrence_id task_id s' r)
  from prepare.hyps(4) show ?case
  proof (cases rule: prepare_cases)
    case refused
    then show ?thesis using prepare.IH by simp
  next
    case (prepared i oc)
    moreover have "\<not> has_conflict (oj_entries (ss_journal s) @ [oc])"
      by (rule conflict_free_add [where fire = fire and removal = removal and je = je])
        (use prepared prepare.hyps(2,3) in auto)
    moreover have "mset (ss_tasks s) = add_mset (ss_tasks s ! i) (mset (remove_at i (ss_tasks s)))"
      using prepared(3) by (simp add: mset_remove_at)
    ultimately show ?thesis using prepare.IH by (auto simp: journal_inv_def Let_def)
  qed
next
  case (finish s fs occurrence_id s' oc)
  from finish.hyps(2) show ?case
  proof (cases rule: finish_cases)
    case (finished i)
    let ?es = "oj_entries (ss_journal s)"
    have "mset (map oc_task ?es) = add_mset (oc_task (?es ! i)) (mset (map oc_task (remove_at i ?es)))"
      using mset_remove_at [of i "map oc_task ?es"] finished(2) by (simp add: map_remove_at)
    moreover have "?es ! i \<in> set ?es" using finished(2) by simp
    ultimately show ?thesis
      using finish.IH finished conflict_free_remove [of ?es i] set_remove_at [of i ?es] length_remove_at [of i ?es]
      by (auto simp: journal_inv_def Let_def simp del: mset_map)
  qed simp
next
  case (no_finish s fs occurrence_id s' e)
  from no_finish.hyps(2) show ?case
    by (cases rule: finish_cases) (use no_finish.IH in auto)
qed

section \<open>The properties\<close>

text \<open>
  A receipt is never lost on the way through a restart. Whatever JSON value is persisted, every one-shot task that
  some entry names, that some entry may name (an entry without a readable task identity), that the persisted
  quarantine lists, or any one-shot at all when the value is malformed, overflowed or blocks everything, is in the
  set of tasks whose timers stay off after the load. This holds for entries past the limit and identities that do
  not fit the quarantine too. The reading of a receipt is only assumed to take the task's identity from \<open>task.id\<close>.
\<close>

theorem loaded_receipts_block:
  assumes "reads_task_id je" and "journal_parts value = (es, ids, block, over, bad)"
    and "t \<in> set ts" and "\<not> st_recurring t"
    and "(\<exists>v \<in> set es. quarantined_task_id v \<in> {None, Some (st_id t)}) \<or> st_id t \<in> set ids \<or> block \<or> over \<or> bad"
  shows "st_id t \<in> lr_blocked (reconcile_one_shot_occurrences \<lparr>ss_tasks = ts, ss_journal = decode_json je value\<rparr>)"
  using blocked_iff [of t "\<lparr>ss_tasks = ts, ss_journal = decode_json je value\<rparr>"] assms
    decode_json_keeps_off [OF assms(2), where je = je and tid = "st_id t"] by auto

text \<open>
  The check that refuses a new removal and the plan made after a restart agree on what needs manual recovery: a
  prepare fails with \<open>RecoveryRequired\<close> exactly when the reconciliation of the same state requires recovery,
  although one counts distinct keys and the other counts each key's occurrences.
\<close>

theorem recovery_agrees:
  "snd (prepare_one_shot_occurrence_with_id s occurrence_id task_id versions) = Inl RecoveryRequired
     \<longleftrightarrow> lr_recovery_required (reconcile_one_shot_occurrences s)"
  unfolding prepare_one_shot_occurrence_with_id_def reconcile_one_shot_occurrences_def Let_def
  by (auto simp: conflicts_found split: if_splits option.splits)

text \<open>
  One-shot tasks are neither lost nor run twice. However removals are prepared and finished from an empty journal
  (identities of receipts fresh, versions accepted), every task is in exactly one place, still scheduled, in a receipt or
  finished, as often as it was at the start; receipts hold durable one-shots only, at most fifty; a restart in that
  state needs no recovery; and when identities are distinct it has no task to remove and refuses a second removal of a
  journaled task.
\<close>

theorem journal_conserves_tasks:
  assumes "one_shots je ts s fs" and "distinct (map st_id ts)"
  shows "mset (ss_tasks s) + mset (map oc_task (oj_entries (ss_journal s))) + mset (map oc_task fs) = mset ts
    \<and> length (oj_entries (ss_journal s)) \<le> MAX_PENDING_ONE_SHOTS
    \<and> (\<forall>oc \<in> set (oj_entries (ss_journal s)) \<union> set fs. st_durable (oc_task oc) \<and> \<not> st_recurring (oc_task oc))
    \<and> \<not> lr_recovery_required (reconcile_one_shot_occurrences s)
    \<and> lr_task_ids_to_remove (reconcile_one_shot_occurrences s) = []
    \<and> (\<forall>oc \<in> set (oj_entries (ss_journal s)) \<union> set fs.
         \<exists>e. prepare_one_shot_occurrence_with_id s occurrence_id (st_id (oc_task oc)) versions = (s, Inl e))"
proof -
  let ?es = "oj_entries (ss_journal s)"
  from one_shots_inv [OF assms(1)]
  have inv: "oj_quarantined (ss_journal s) = []" "\<not> oj_block_all (ss_journal s)" "\<not> oj_overflowed (ss_journal s)"
    "\<not> has_conflict ?es" "length ?es \<le> MAX_PENDING_ONE_SHOTS"
    "mset (ss_tasks s) + mset (map oc_task ?es) + mset (map oc_task fs) = mset ts"
    "\<forall>oc \<in> set ?es \<union> set fs. st_durable (oc_task oc) \<and> \<not> st_recurring (oc_task oc)"
    by (auto simp: journal_inv_def Let_def)
  have "mset (map st_id ts) = mset (map st_id (ss_tasks s @ map oc_task ?es @ map oc_task fs))"
    using inv(6) by (metis mset_append mset_map union_assoc)
  then have dist: "distinct (map st_id (ss_tasks s @ map oc_task ?es @ map oc_task fs))"
    using assms(2) mset_eq_imp_distinct_iff by blast
  then have elsewhere: "st_id t \<noteq> st_id (oc_task oc)" if "t \<in> set (ss_tasks s)" "oc \<in> set ?es \<union> set fs" for t oc
    using that by (auto simp: image_iff)
  have plan: "\<not> lr_recovery_required (reconcile_one_shot_occurrences s)"
    using inv(1-4) by (simp add: reconcile_one_shot_occurrences_def Let_def conflicts_found)
  have none: "lr_task_ids_to_remove (reconcile_one_shot_occurrences s) = []"
    using elsewhere by (auto simp: reconcile_one_shot_occurrences_def Let_def filter_empty_conv)
  have "\<exists>e. prepare_one_shot_occurrence_with_id s occurrence_id (st_id (oc_task oc)) versions = (s, Inl e)"
    if oc: "oc \<in> set ?es \<union> set fs" for oc
  proof (cases "prepare_one_shot_occurrence_with_id s occurrence_id (st_id (oc_task oc)) versions")
    case (Pair s' r)
    then show ?thesis
    proof (cases rule: prepare_cases)
      case (refused e)
      with Pair show ?thesis by simp
    next
      case (prepared i new)
      then show ?thesis using elsewhere [of "ss_tasks s ! i" oc] oc by auto
    qed
  qed
  with inv plan none show ?thesis by blast
qed

section \<open>Instances\<close>

text \<open>A reading of receipts that takes the identity and nothing else from the value.\<close>

definition sample_env :: journal_env where
  "sample_env = \<lparr>je_v7 = (\<lambda>_. True),
     je_fields = (\<lambda>v. map_option (\<lambda>tid. ([], loop_task\<lparr>st_id := tid, st_recurring := False, st_durable := True\<rparr>,
       \<lparr>sv_generation = [], sv_revision = 1\<rparr>, \<lparr>sv_generation = [], sv_revision = 2\<rparr>)) (quarantined_task_id v))\<rparr>"

definition once_task :: ScheduledTask where
  "once_task = loop_task\<lparr>st_recurring := False, st_durable := True\<rparr>"

definition broken_receipt :: json where
  "broken_receipt = JObject [(''task'', JObject [(''id'', JString ''t'')]), (''versions'', JNull)]"

lemma loaded_receipts_block_witness:
  "''t'' \<in> lr_blocked (reconcile_one_shot_occurrences
     \<lparr>ss_tasks = [once_task], ss_journal = decode_json sample_env (JArray [broken_receipt])\<rparr>)"
proof -
  have "reads_task_id sample_env" by (auto simp: reads_task_id_def sample_env_def)
  from loaded_receipts_block [OF this, of "JArray [broken_receipt]" "[broken_receipt]" "[]" False False False once_task "[once_task]"]
  show ?thesis
    by (simp add: journal_parts_def broken_receipt_def quarantined_task_id_def once_task_def loop_task_def)
qed

definition once_versions :: ScheduledOccurrenceVersions where
  "once_versions = \<lparr>ov_fire = \<lparr>sv_generation = ''g'', sv_revision = 1\<rparr>, ov_removal = \<lparr>sv_generation = ''g'', sv_revision = 2\<rparr>\<rparr>"

definition once_prepared :: SchedulerState where
  "once_prepared = \<lparr>ss_tasks = [],
     ss_journal = empty_journal\<lparr>oj_entries := [\<lparr>oc_id = ''o'', oc_task = once_task, oc_versions = once_versions\<rparr>]\<rparr>\<rparr>"

lemma journal_conserves_tasks_witness:
  "\<exists>e. prepare_one_shot_occurrence_with_id once_prepared ''p'' ''t'' once_versions = (once_prepared, Inl e)"
proof -
  have versions: "try_new sample_env (ov_fire once_versions) (ov_removal once_versions) = Inr once_versions"
    by (simp add: try_new_def sample_env_def once_versions_def)
  have prep: "prepare_one_shot_occurrence_with_id \<lparr>ss_tasks = [once_task], ss_journal = empty_journal\<rparr> ''o'' ''t'' once_versions
    = (once_prepared, Inr \<lparr>oc_id = ''o'', oc_task = once_task, oc_versions = once_versions\<rparr>)"
    by (simp add: prepare_one_shot_occurrence_with_id_def empty_journal_def once_task_def loop_task_def has_conflict_def
        MAX_PENDING_ONE_SHOTS_def remove_at_def once_prepared_def Let_def)
  have run: "one_shots sample_env [once_task] once_prepared []"
    by (rule one_shots.prepare [OF one_shots.load versions _ prep]) (simp add: empty_journal_def)
  from journal_conserves_tasks [OF run, of "''p''" once_versions] show ?thesis
    by (simp add: once_prepared_def once_task_def loop_task_def)
qed

end
