(* ===== verification/Conversation.thy ===== *)
theory Conversation
  imports Rust_Prelude
begin

text \<open>
  The conversation with the model: the items of \<open>crates/codegen/xai-grok-sampling-types/src/conversation.rs\<close>, their texts,
  and the repair of tool calls without a result. A provider rejects a request in which a tool call
  is not answered by exactly one result directly after it, so every path that changes the history ends in one of the
  repairs. Slicing inside a character panics; that is the value \<open>None\<close>.
\<close>

section \<open>Items\<close>

datatype ContentPart = TextPart string | ImagePart string

datatype SyntheticReason =
    CompactionMeta | SystemReminder | LengthContinue | ProjectInstructions | AutoContinue | AutoRecovery
  | InterjectionReason | AgentMessageReason | TaskCompleted | SubagentCompleted | NotificationDrain | GoalSummary
  | GoalClassifierNudge | SchedulerFired | StopHookFeedback | WorkingDirectorySwitch | UnknownReason

fun starts_prompt_turn :: "SyntheticReason \<Rightarrow> bool" where
  "starts_prompt_turn AgentMessageReason = True"
| "starts_prompt_turn UnknownReason = True"
| "starts_prompt_turn TaskCompleted = True"
| "starts_prompt_turn SubagentCompleted = True"
| "starts_prompt_turn NotificationDrain = True"
| "starts_prompt_turn GoalClassifierNudge = True"
| "starts_prompt_turn SchedulerFired = True"
| "starts_prompt_turn _ = False"

datatype PriorTurnInterrupt = MidTurnAbort | PermissionRejected | PermissionCancelled | UnknownInterrupt

record UserItem =
  ui_content :: "ContentPart list"
  ui_synthetic_reason :: "SyntheticReason option"
  ui_cwd_generation :: "nat option"
  ui_prior_turn_interrupt :: "PriorTurnInterrupt option"
  ui_prompt_index :: "nat option"

record ToolCall =
  tc_id :: string
  tc_name :: string
  tc_arguments :: string

record AssistantItem =
  ai_content :: string
  ai_tool_calls :: "ToolCall list"
  ai_model_id :: "string option"
  ai_model_fingerprint :: "string option"

record ToolResultItem =
  tr_tool_call_id :: string
  tr_content :: string
  tr_images :: "ContentPart list"

text \<open>Calls that the server ran: the fields of the response types that the code reads.\<close>

datatype WebSearchAction = SearchAction string | OpenPage "string option" | FindInPage string string

datatype BackendToolKind =
    WebSearchCall string WebSearchAction
  | XSearchCall string string string
  | CodeInterpreterCall string "string option"

record ReasoningItem =
  ri_id :: string
  ri_summary :: "string list"
  ri_content :: "string list option"
  ri_encrypted :: "string option"

datatype ConversationItem =
    System string
  | User UserItem
  | Assistant AssistantItem
  | ToolResult ToolResultItem
  | BackendToolCall BackendToolKind
  | Reasoning ReasoningItem

section \<open>Texts and roles\<close>

text \<open>\<open>&s[..n]\<close>, which panics inside a character.\<close>

definition slice_to :: "string \<Rightarrow> nat \<Rightarrow> string option" where
  "slice_to s n = (if is_char_boundary s n then Some (take n s) else None)"

fun action_text :: "WebSearchAction \<Rightarrow> string" where
  "action_text (SearchAction q) = ''search: '' @ q"
| "action_text (OpenPage u) = ''open: '' @ (case u of Some x \<Rightarrow> x | None \<Rightarrow> ''?'')"
| "action_text (FindInPage p u) = ''find '' @ [CHR 0x22] @ p @ [CHR 0x22] @ '' in '' @ u"

fun text_summary :: "BackendToolKind \<Rightarrow> string option" where
  "text_summary (WebSearchCall i action) = Some (''[backend web_search] '' @ action_text action)"
| "text_summary (XSearchCall i name input) = Some (''[backend x_search] '' @ name @ ''('' @ input @ '')'')"
| "text_summary (CodeInterpreterCall i code) =
     map_option (\<lambda>preview. ''[backend code_interpreter] '' @ preview)
       (case code of
          None \<Rightarrow> Some []
        | Some c \<Rightarrow> if length c > 100 then map_option (\<lambda>p. p @ ''...'') (slice_to c 100) else Some c)"

definition reasoning_item_text :: "ReasoningItem \<Rightarrow> string" where
  "reasoning_item_text r = join [newline] (ri_summary r @ (case ri_content r of None \<Rightarrow> [] | Some c \<Rightarrow> c))"

fun part_text :: "ContentPart \<Rightarrow> string option" where
  "part_text (TextPart t) = Some t"
| "part_text (ImagePart u) = None"

definition user_text :: "UserItem \<Rightarrow> string" where
  "user_text u = join [newline] (List.map_filter part_text (ui_content u))"

fun text_content :: "ConversationItem \<Rightarrow> string option" where
  "text_content (System s) = Some s"
| "text_content (User u) = Some (user_text u)"
| "text_content (Assistant a) = Some (ai_content a)"
| "text_content (ToolResult t) = Some (tr_content t)"
| "text_content (BackendToolCall b) = text_summary b"
| "text_content (Reasoning r) = Some (reasoning_item_text r)"

datatype Role = SystemRole | UserRole | AssistantRole | ToolRole

fun item_role :: "ConversationItem \<Rightarrow> Role" where
  "item_role (System _) = SystemRole"
| "item_role (User _) = UserRole"
| "item_role (Assistant _) = AssistantRole"
| "item_role (ToolResult _) = ToolRole"
| "item_role (BackendToolCall _) = AssistantRole"
| "item_role (Reasoning _) = AssistantRole"

text \<open>A short program with a long line outside of ASCII makes the summary panic.\<close>

lemma code_preview_panics:
  "text_content (BackendToolCall (CodeInterpreterCall i (Some (replicate 99 CHR ''x'' @ [CHR 0xC3, CHR 0xA9])))) = None"
  by code_simp

section \<open>Constructors\<close>

definition user_item :: "string \<Rightarrow> SyntheticReason option \<Rightarrow> ConversationItem" where
  "user_item content reason = User \<lparr>ui_content = [TextPart content], ui_synthetic_reason = reason,
     ui_cwd_generation = None, ui_prior_turn_interrupt = None, ui_prompt_index = None\<rparr>"

definition user :: "string \<Rightarrow> ConversationItem" where
  "user content = user_item content None"

definition user_meta :: "string \<Rightarrow> ConversationItem" where
  "user_meta content = user_item content (Some CompactionMeta)"

definition project_instructions :: "string \<Rightarrow> ConversationItem" where
  "project_instructions content = user_item content (Some ProjectInstructions)"

definition system_reminder :: "string \<Rightarrow> ConversationItem" where
  "system_reminder content = user_item content (Some SystemReminder)"

definition tool_result :: "string \<Rightarrow> string \<Rightarrow> ConversationItem" where
  "tool_result call_id content = ToolResult \<lparr>tr_tool_call_id = call_id, tr_content = content, tr_images = []\<rparr>"

section \<open>Calls without a result\<close>

datatype DanglingToolCallReason = UserCancelled | HarnessHalted string

fun synthetic_dangling_result_text :: "string \<Rightarrow> DanglingToolCallReason \<Rightarrow> string" where
  "synthetic_dangling_result_text name UserCancelled =
     ''Tool execution was cancelled by the user (tool `'' @ name @ ''` was not executed).''"
| "synthetic_dangling_result_text name (HarnessHalted cls) =
     ''Tool execution was halted by the harness ('' @ cls @ ''); the tool `'' @ name @ ''` was not executed.''"

fun result_id :: "ConversationItem \<Rightarrow> string option" where
  "result_id (ToolResult t) = Some (tr_tool_call_id t)"
| "result_id _ = None"

fun is_result :: "ConversationItem \<Rightarrow> bool" where
  "is_result (ToolResult t) = True"
| "is_result _ = False"

lemma result_id_None [simp]: "result_id x = None \<longleftrightarrow> \<not> is_result x"
  by (cases x) simp_all

fun call_list :: "ConversationItem \<Rightarrow> ToolCall list" where
  "call_list (Assistant a) = ai_tool_calls a"
| "call_list _ = []"

text \<open>The index after the run of results that starts at \<open>j\<close>.\<close>

definition run_end :: "ConversationItem list \<Rightarrow> nat \<Rightarrow> nat" where
  "run_end conversation j = skip_while is_result conversation j"

definition answered_ids :: "ConversationItem list \<Rightarrow> nat \<Rightarrow> nat \<Rightarrow> string set" where
  "answered_ids conversation i j = set (List.map_filter result_id (take (j - i) (drop i conversation)))"

lemma run_end_ge: "j \<le> run_end conversation j"
  by (simp add: run_end_def skip_while_ge)

text \<open>Phase 1: where results are missing, and which.\<close>

function repair_sites :: "DanglingToolCallReason \<Rightarrow> ConversationItem list \<Rightarrow> nat \<Rightarrow> (nat \<times> ConversationItem list) list" where
  "repair_sites reason conversation i =
     (if i < length conversation then
        (if call_list (conversation ! i) \<noteq> [] then
           (let j = run_end conversation (i + 1);
                answered = answered_ids conversation (i + 1) j;
                synthetic = map (\<lambda>tc. tool_result (tc_id tc) (synthetic_dangling_result_text (tc_name tc) reason))
                  (filter (\<lambda>tc. tc_id tc \<notin> answered) (call_list (conversation ! i))) in
            (if synthetic \<noteq> [] then [(j, synthetic)] else []) @ repair_sites reason conversation j)
         else repair_sites reason conversation (i + 1))
      else [])"
  by pat_completeness auto
termination
proof (relation "measure (\<lambda>(reason, conversation, i). length conversation - i)")
  fix conversation :: "ConversationItem list" and i j reason
  assume "i < length conversation" and j: "j = run_end conversation (i + 1)"
  then show "((reason, conversation, j), reason, conversation, i) \<in> measure (\<lambda>(reason, conversation, i). length conversation - i)"
    using run_end_ge [of "i + 1" conversation] by simp
qed auto

declare repair_sites.simps [simp del]

text \<open>Phase 2: the insertions, last one first so that indices stay valid.\<close>

definition splice_at :: "nat \<times> 'a list \<Rightarrow> 'a list \<Rightarrow> 'a list" where
  "splice_at = (\<lambda>(at, ys) xs. take at xs @ ys @ drop at xs)"

definition repair_dangling_tool_calls ::
    "DanglingToolCallReason \<Rightarrow> ConversationItem list \<Rightarrow> ConversationItem list \<times> nat" where
  "repair_dangling_tool_calls reason conversation =
     (let repairs = repair_sites reason conversation 0 in
      (fold splice_at (rev repairs) conversation, sum_list (map (\<lambda>(_, s). length s) repairs)))"

function dangling_from :: "ConversationItem list \<Rightarrow> nat \<Rightarrow> bool" where
  "dangling_from conversation i =
     (if i < length conversation then
        (if call_list (conversation ! i) \<noteq> [] then
           (let j = run_end conversation (i + 1);
                answered = answered_ids conversation (i + 1) j in
            if list_ex (\<lambda>tc. tc_id tc \<notin> answered) (call_list (conversation ! i)) then True
            else dangling_from conversation j)
         else dangling_from conversation (i + 1))
      else False)"
  by pat_completeness auto
termination
proof (relation "measure (\<lambda>(conversation, i). length conversation - i)")
  fix conversation :: "ConversationItem list" and i j
  assume "i < length conversation" and j: "j = run_end conversation (i + 1)"
  then show "((conversation, j), conversation, i) \<in> measure (\<lambda>(conversation, i). length conversation - i)"
    using run_end_ge [of "i + 1" conversation] by simp
qed auto

declare dangling_from.simps [simp del]

definition has_dangling_tool_calls :: "ConversationItem list \<Rightarrow> bool" where
  "has_dangling_tool_calls conversation = dangling_from conversation 0"

end
