(* ===== verification/Conversation_Repair.thy ===== *)
theory Conversation_Repair
  imports Conversation "HOL-Library.Sublist"
begin

text \<open>
  The repairs of a conversation: duplicate results (\<open>dedup_duplicate_tool_results\<close> of \<open>conversation.rs\<close>), displaced and
  orphaned results and the whole repair (\<open>repair_history\<close>, \<open>sanitize_compacted_history\<close> of
  \<open>crates/codegen/xai-chat-state/src/compaction_utils.rs\<close>). The loops over indices are shown equal to recursions over the
  list, and the result is shown to pair every call with exactly one result.
\<close>

section \<open>Duplicate results\<close>

abbreviation call_ids :: "ConversationItem \<Rightarrow> string list" where
  "call_ids x \<equiv> map tc_id (call_list x)"

text \<open>The scan of one run: the index of an earlier result is noted when its identity comes again.\<close>

fun dup_scan :: "(string \<rightharpoonup> nat) \<Rightarrow> nat \<Rightarrow> ConversationItem list \<Rightarrow> nat list" where
  "dup_scan seen k [] = []"
| "dup_scan seen k (x # xs) =
     (case result_id x of
        None \<Rightarrow> dup_scan seen (Suc k) xs
      | Some tid \<Rightarrow>
          (case seen tid of Some prev \<Rightarrow> [prev] | None \<Rightarrow> []) @ dup_scan (seen(tid \<mapsto> k)) (Suc k) xs)"

definition remove_marked :: "nat list \<Rightarrow> 'a list \<Rightarrow> 'a list" where
  "remove_marked to_remove xs = fold remove_at (rev (sort to_remove)) xs"

lemma dup_scan_bounds:
  "p \<in> set (dup_scan seen k xs) \<Longrightarrow> p \<in> ran seen \<or> k \<le> p \<and> p < k + length xs"
proof (induction xs arbitrary: seen k)
  case (Cons x xs)
  show ?case
  proof (cases "result_id x")
    case None
    with Cons show ?thesis by fastforce
  next
    case (Some tid)
    with Cons.prems consider "seen tid = Some p" | "p \<in> set (dup_scan (seen(tid \<mapsto> k)) (Suc k) xs)"
      by (auto split: option.splits)
    then show ?thesis
    proof cases
      case 1
      then show ?thesis by (auto simp: ran_def)
    next
      case 2
      from Cons.IH [OF this] show ?thesis by (auto simp: ran_def split: if_splits)
    qed
  qed
qed simp

lemma length_remove_at_strict: "i < length xs \<Longrightarrow> length (remove_at i xs) < length xs"
  by (simp add: remove_at_def)

lemma length_fold_remove_at: "length (fold remove_at is xs) \<le> length xs"
  by (induction "is" arbitrary: xs) (auto intro: le_trans length_remove_at)

lemma remove_marked_shrinks:
  assumes "to_remove \<noteq> []" and "\<forall>p \<in> set to_remove. p < length xs"
  shows "length (remove_marked to_remove xs) < length xs"
proof -
  obtain m "is" where rev: "rev (sort to_remove) = m # is"
    using assms(1) by (metis neq_Nil_conv rev_is_Nil_conv set_empty set_sort)
  then have "m \<in> set to_remove" by (metis list.set_intros(1) set_rev set_sort)
  with assms(2) have "length (remove_at m xs) < length xs" by (intro length_remove_at_strict) simp
  then show ?thesis unfolding remove_marked_def rev using length_fold_remove_at [of "is" "remove_at m xs"] by simp
qed

function dedup_from :: "ConversationItem list \<Rightarrow> ConversationItem list \<times> nat" where
  "dedup_from [] = ([], 0)"
| "dedup_from (x # xs) =
     (if call_list x \<noteq> [] then
        (let run = takeWhile is_result xs; to_remove = dup_scan Map.empty 0 run in
         if to_remove \<noteq> [] then
           (let (ys, n) = dedup_from (x # remove_marked to_remove run @ dropWhile is_result xs) in
            (ys, n + length to_remove))
         else let (ys, n) = dedup_from (dropWhile is_result xs) in (x # run @ ys, n))
      else let (ys, n) = dedup_from xs in (x # ys, n))"
  by pat_completeness auto
termination
proof (relation "measure length")
  fix x and xs run :: "ConversationItem list" and to_remove
  assume run: "run = takeWhile is_result xs" and marked: "to_remove = dup_scan Map.empty 0 run" "to_remove \<noteq> []"
  then have "\<forall>p \<in> set to_remove. p < length run" using dup_scan_bounds by fastforce
  then have "length (remove_marked to_remove run) < length run" by (rule remove_marked_shrinks [OF marked(2)])
  moreover have "length run + length (dropWhile is_result xs) = length xs"
    unfolding run by (metis length_append takeWhile_dropWhile_id)
  ultimately show "(x # remove_marked to_remove run @ dropWhile is_result xs, x # xs) \<in> measure length" by simp
next
  fix x and xs :: "ConversationItem list"
  show "(dropWhile is_result xs, x # xs) \<in> measure length" by (simp add: le_imp_less_Suc length_dropWhile_le)
qed auto

declare dedup_from.simps(2) [simp del]

definition dedup_duplicate_tool_results :: "ConversationItem list \<Rightarrow> ConversationItem list \<times> nat" where
  "dedup_duplicate_tool_results = dedup_from"

section \<open>Displaced results\<close>

fun strip_displaced_from :: "string set \<Rightarrow> ConversationItem list \<Rightarrow> ConversationItem list \<times> string list" where
  "strip_displaced_from run_ids [] = ([], [])"
| "strip_displaced_from run_ids (x # xs) =
     (case x of
        Assistant a \<Rightarrow>
          (let (ys, stripped) = strip_displaced_from (set (map tc_id (ai_tool_calls a))) xs in (x # ys, stripped))
      | ToolResult t \<Rightarrow>
          (let (ys, stripped) = strip_displaced_from run_ids xs in
           if tr_tool_call_id t \<in> run_ids then (x # ys, stripped) else (ys, tr_tool_call_id t # stripped))
      | _ \<Rightarrow> (let (ys, stripped) = strip_displaced_from {} xs in (x # ys, stripped)))"

definition strip_displaced_tool_results :: "ConversationItem list \<Rightarrow> ConversationItem list \<times> string list" where
  "strip_displaced_tool_results = strip_displaced_from {}"

record HistoryRepairReport =
  duplicates_removed :: nat
  stripped_tool_result_ids :: "string list"
  synthetic_results_inserted :: nat

definition changed :: "HistoryRepairReport \<Rightarrow> bool" where
  "changed r \<longleftrightarrow> duplicates_removed r > 0 \<or> stripped_tool_result_ids r \<noteq> [] \<or> synthetic_results_inserted r > 0"

definition repair_history :: "ConversationItem list \<Rightarrow> ConversationItem list \<times> HistoryRepairReport" where
  "repair_history items =
     (let (deduped, removed) = dedup_duplicate_tool_results items;
          (kept, stripped) = strip_displaced_tool_results deduped;
          (repaired, inserted) = repair_dangling_tool_calls (HarnessHalted ''history_repair'') kept in
      (repaired, \<lparr>duplicates_removed = removed, stripped_tool_result_ids = stripped, synthetic_results_inserted = inserted\<rparr>))"

section \<open>Orphans in a compacted history\<close>

fun validate_from :: "string set \<Rightarrow> ConversationItem list \<Rightarrow> string list" where
  "validate_from seen_ids [] = []"
| "validate_from seen_ids (x # xs) =
     (case x of
        Assistant a \<Rightarrow> validate_from (seen_ids \<union> set (map tc_id (ai_tool_calls a))) xs
      | ToolResult t \<Rightarrow>
          (if tr_tool_call_id t \<notin> seen_ids then [tr_tool_call_id t] else []) @ validate_from seen_ids xs
      | _ \<Rightarrow> validate_from seen_ids xs)"

definition validate_compacted_history :: "ConversationItem list \<Rightarrow> string list" where
  "validate_compacted_history = validate_from {}"

fun sanitize_from :: "string set \<Rightarrow> ConversationItem list \<Rightarrow> ConversationItem list \<times> string list" where
  "sanitize_from seen_ids [] = ([], [])"
| "sanitize_from seen_ids (x # xs) =
     (case x of
        Assistant a \<Rightarrow>
          (let (ys, stripped) = sanitize_from (seen_ids \<union> set (map tc_id (ai_tool_calls a))) xs in (x # ys, stripped))
      | ToolResult t \<Rightarrow>
          (let (ys, stripped) = sanitize_from seen_ids xs in
           if tr_tool_call_id t \<in> seen_ids then (x # ys, stripped) else (ys, tr_tool_call_id t # stripped))
      | _ \<Rightarrow> (let (ys, stripped) = sanitize_from seen_ids xs in (x # ys, stripped)))"

definition sanitize_compacted_history :: "ConversationItem list \<Rightarrow> ConversationItem list \<times> string list" where
  "sanitize_compacted_history = sanitize_from {}"

section \<open>The loops as recursions over the list\<close>

lemma run_end_takeWhile:
  "j \<le> length c \<Longrightarrow> run_end c j = j + length (takeWhile is_result (drop j c))"
  by (simp add: run_end_def skip_while_takeWhile)

definition missing_results :: "DanglingToolCallReason \<Rightarrow> ConversationItem \<Rightarrow> ConversationItem list \<Rightarrow> ConversationItem list" where
  "missing_results reason x run =
     map (\<lambda>tc. tool_result (tc_id tc) (synthetic_dangling_result_text (tc_name tc) reason))
       (filter (\<lambda>tc. tc_id tc \<notin> set (List.map_filter result_id run)) (call_list x))"

function answer_calls :: "DanglingToolCallReason \<Rightarrow> ConversationItem list \<Rightarrow> ConversationItem list" where
  "answer_calls reason [] = []"
| "answer_calls reason (x # xs) =
     (if call_list x \<noteq> [] then
        x # takeWhile is_result xs @ missing_results reason x (takeWhile is_result xs)
          @ answer_calls reason (dropWhile is_result xs)
      else x # answer_calls reason xs)"
  by pat_completeness auto
termination
  by (relation "measure (\<lambda>(reason, c). length c)") (auto simp: le_imp_less_Suc length_dropWhile_le)

declare answer_calls.simps(2) [simp del]

text \<open>At a call, the scan sees the run behind it.\<close>

lemma run_at:
  assumes "i < length c"
  shows "drop (run_end c (i + 1)) c = dropWhile is_result (drop (Suc i) c)"
    and "take (run_end c (i + 1)) c = take i c @ c ! i # takeWhile is_result (drop (Suc i) c)"
    and "answered_ids c (i + 1) (run_end c (i + 1)) = set (List.map_filter result_id (takeWhile is_result (drop (Suc i) c)))"
    and "run_end c (i + 1) \<le> length c"
proof -
  let ?rest = "drop (Suc i) c" and ?run = "takeWhile is_result (drop (Suc i) c)"
  have e: "run_end c (i + 1) = Suc i + length ?run" using run_end_takeWhile [of "Suc i" c] assms by simp
  have take: "take (length ?run) ?rest = ?run" by (rule takeWhile_eq_take [symmetric])
  have drop: "drop (length ?run) ?rest = dropWhile is_result ?rest" by (rule dropWhile_eq_drop [symmetric])
  show "drop (run_end c (i + 1)) c = dropWhile is_result ?rest" unfolding e drop [symmetric] by (simp add: add.commute)
  have "take (run_end c (i + 1)) c = take (Suc i) c @ take (length ?run) ?rest" unfolding e by (rule take_add)
  with take assms show "take (run_end c (i + 1)) c = take i c @ c ! i # ?run" by (simp add: take_Suc_conv_app_nth)
  show "answered_ids c (i + 1) (run_end c (i + 1)) = set (List.map_filter result_id ?run)"
    unfolding answered_ids_def e using take by simp
  have "length ?run \<le> length ?rest" by (rule length_takeWhile_le)
  with assms show "run_end c (i + 1) \<le> length c" unfolding e by simp
qed

lemma splice_at_simps [simp]: "splice_at (at, ys) xs = take at xs @ ys @ drop at xs"
  by (simp add: splice_at_def)

lemma repair_sites_answer:
  "i \<le> length c \<Longrightarrow> fold splice_at (rev (repair_sites reason c i)) c = take i c @ answer_calls reason (drop i c)"
proof (induction reason c i rule: repair_sites.induct)
  case (1 reason c i)
  show ?case
  proof (cases "i < length c")
    case False
    with 1 show ?thesis by (subst repair_sites.simps) simp
  next
    case True
    then have drop: "drop i c = c ! i # drop (Suc i) c" by (rule Cons_nth_drop_Suc [symmetric])
    show ?thesis
    proof (cases "call_list (c ! i) = []")
      case calls: True
      with 1 True show ?thesis
        by (subst repair_sites.simps) (simp add: drop answer_calls.simps take_Suc_conv_app_nth)
    next
      case calls: False
      let ?j = "run_end c (i + 1)" and ?run = "takeWhile is_result (drop (Suc i) c)"
      let ?syn = "missing_results reason (c ! i) ?run"
      note run = run_at [OF True]
      have sites: "repair_sites reason c i = (if ?syn \<noteq> [] then [(?j, ?syn)] else []) @ repair_sites reason c ?j"
        using True calls run(3) by (subst repair_sites.simps) (simp add: Let_def missing_results_def)
      have IH: "fold splice_at (rev (repair_sites reason c ?j)) c = take ?j c @ answer_calls reason (drop ?j c)"
        using "1.IH"(1) [OF True calls refl refl refl] run(4) by simp
      have "fold splice_at (rev (repair_sites reason c i)) c = take ?j c @ ?syn @ answer_calls reason (drop ?j c)"
        using run(4) IH by (simp add: sites)
      also have "\<dots> = take i c @ answer_calls reason (drop i c)"
        unfolding run(1,2) drop using calls by (simp add: answer_calls.simps)
      finally show ?thesis .
    qed
  qed
qed

lemma repair_dangling_answer: "fst (repair_dangling_tool_calls reason c) = answer_calls reason c"
  using repair_sites_answer [of 0 c reason] by (simp add: repair_dangling_tool_calls_def Let_def)

section \<open>Duplicates, as a recursion\<close>

text \<open>The last result of every identity.\<close>

fun keep_last :: "ConversationItem list \<Rightarrow> ConversationItem list" where
  "keep_last [] = []"
| "keep_last (x # xs) = (if result_id x \<in> result_id ` set xs then keep_last xs else x # keep_last xs)"

text \<open>
  Removing at an index panics outside of the vector. Removing marked positions from the largest to the smallest, as the
  deduplication does, never gets there.
\<close>

fun checked_removals :: "nat list \<Rightarrow> 'a list \<Rightarrow> 'a list option" where
  "checked_removals [] xs = Some xs"
| "checked_removals (i # is) xs = (if i < length xs then checked_removals is (remove_at i xs) else None)"

lemma removals_in_range:
  "sorted_wrt (<) is \<Longrightarrow> \<forall>i \<in> set is. i < length xs \<Longrightarrow> checked_removals (rev is) xs = Some (fold remove_at (rev is) xs)"
proof (induction "is" arbitrary: xs rule: rev_induct)
  case (snoc m "is")
  have "checked_removals (rev is) (remove_at m xs) = Some (fold remove_at (rev is) (remove_at m xs))"
    using snoc.prems by (intro snoc.IH) (auto simp: sorted_wrt_append remove_at_def)
  with snoc.prems show ?case by simp
qed simp

lemma fold_remove_at_nths:
  "sorted_wrt (<) is \<Longrightarrow> \<forall>i \<in> set is. i < length xs \<Longrightarrow> fold remove_at (rev is) xs = nths xs (- set is)"
proof (induction "is" arbitrary: xs rule: rev_induct)
  case Nil
  then show ?case by (simp add: nths_all)
next
  case (snoc m "is")
  then have below: "\<forall>i \<in> set is. i < m" and m: "m < length xs" by (auto simp: sorted_wrt_append)
  let ?l = "take m xs" and ?r = "drop (Suc m) xs"
  have xs: "xs = ?l @ xs ! m # ?r" using m by (rule id_take_nth_drop)
  have len: "length ?l = m" using m by simp
  have right: "nths ys {j. Suc (j + m) \<in> - set (is @ [m])} = ys" "nths ys {j. j + m \<in> - set is} = ys" for ys :: "'a list"
    using below by (auto intro!: nths_all)
  have left: "nths ?l (- set (is @ [m])) = nths ?l (- set is)"
    unfolding nths_def by (intro arg_cong [of _ _ "map fst"] filter_cong refl) (auto simp: set_zip len)
  have "fold remove_at (rev is) (remove_at m xs) = nths (remove_at m xs) (- set is)"
    using snoc below m by (intro snoc.IH) (auto simp: sorted_wrt_append remove_at_def)
  also have "\<dots> = nths ?l (- set is) @ ?r"
    unfolding remove_at_def nths_append len using right(2) by simp
  also have "\<dots> = nths (?l @ xs ! m # ?r) (- set (is @ [m]))"
    unfolding nths_append len nths_Cons left using right(1) by simp
  finally show ?case using xs by simp
qed

lemma nths_cong: "(\<And>i. i < length xs \<Longrightarrow> i \<in> A \<longleftrightarrow> i \<in> B) \<Longrightarrow> nths xs A = nths xs B"
  unfolding nths_def by (intro arg_cong [of _ _ "map fst"] filter_cong refl) (auto simp: set_zip)

text \<open>Which places the scan marks: those whose identity comes again.\<close>

definition comes_again :: "ConversationItem list \<Rightarrow> nat \<Rightarrow> bool" where
  "comes_again xs i \<longleftrightarrow> i < length xs \<and> result_id (xs ! i) \<in> result_id ` set (drop (Suc i) xs)"

lemma comes_again_Cons [simp]:
  "comes_again (x # xs) 0 \<longleftrightarrow> result_id x \<in> result_id ` set xs" "comes_again (x # xs) (Suc i) \<longleftrightarrow> comes_again xs i"
  by (simp_all add: comes_again_def)

lemma keep_last_nths: "nths xs {i. \<not> comes_again xs i} = keep_last xs"
  by (induction xs) (simp_all add: nths_Cons)

lemma dup_scan_set:
  "\<forall>x \<in> set xs. is_result x \<Longrightarrow> p \<in> set (dup_scan seen k xs) \<longleftrightarrow>
     (\<exists>t. seen t = Some p \<and> Some t \<in> result_id ` set xs) \<or> (\<exists>i. p = k + i \<and> comes_again xs i)"
proof (induction xs arbitrary: seen k)
  case Nil
  then show ?case by (simp add: comes_again_def)
next
  case (Cons x xs)
  then obtain t where t: "result_id x = Some t" by (metis list.set_intros(1) not_None_eq result_id_None)
  have shift: "(\<exists>i. p = k + i \<and> comes_again (x # xs) i) \<longleftrightarrow>
      p = k \<and> Some t \<in> result_id ` set xs \<or> (\<exists>i. p = Suc k + i \<and> comes_again xs i)"
    by (metis add_Suc_right add_Suc add_0_right comes_again_Cons old.nat.exhaust t)
  have "p \<in> set (dup_scan seen k (x # xs)) \<longleftrightarrow> seen t = Some p \<or> p \<in> set (dup_scan (seen(t \<mapsto> k)) (Suc k) xs)"
    using t by (auto split: option.splits)
  also have "\<dots> \<longleftrightarrow> seen t = Some p
      \<or> (\<exists>u. (seen(t \<mapsto> k)) u = Some p \<and> Some u \<in> result_id ` set xs) \<or> (\<exists>i. p = Suc k + i \<and> comes_again xs i)"
    by (subst Cons.IH) (use Cons.prems in simp_all)
  also have "\<dots> \<longleftrightarrow> (\<exists>u. seen u = Some p \<and> Some u \<in> result_id ` set (x # xs)) \<or> (\<exists>i. p = k + i \<and> comes_again (x # xs) i)"
    unfolding shift using t by auto
  finally show ?case .
qed

lemma dup_scan_distinct:
  "\<forall>x \<in> set xs. is_result x \<Longrightarrow> (\<And>t u p. seen t = Some p \<Longrightarrow> seen u = Some p \<Longrightarrow> t = u) \<Longrightarrow> \<forall>p \<in> ran seen. p < k \<Longrightarrow>
     distinct (dup_scan seen k xs)"
proof (induction xs arbitrary: seen k)
  case (Cons x xs)
  then obtain t where t: "result_id x = Some t" by (metis list.set_intros(1) not_None_eq result_id_None)
  have small: "seen u = Some p \<Longrightarrow> p < k" for u p using Cons.prems(3) by (auto simp: ran_def)
  have "distinct (dup_scan (seen(t \<mapsto> k)) (Suc k) xs)"
  proof (rule Cons.IH)
    show "\<forall>x \<in> set xs. is_result x" using Cons.prems(1) by simp
    show "v = w" if "(seen(t \<mapsto> k)) v = Some p" "(seen(t \<mapsto> k)) w = Some p" for v w p
      using that small Cons.prems(2) by (auto split: if_splits)
    show "\<forall>p \<in> ran (seen(t \<mapsto> k)). p < Suc k" using small by (fastforce simp: ran_def split: if_splits)
  qed
  moreover have "prev \<notin> set (dup_scan (seen(t \<mapsto> k)) (Suc k) xs)" if prev: "seen t = Some prev" for prev
  proof
    assume "prev \<in> set (dup_scan (seen(t \<mapsto> k)) (Suc k) xs)"
    then consider u where "(seen(t \<mapsto> k)) u = Some prev" | i where "prev = Suc k + i"
      using dup_scan_set [of xs prev "seen(t \<mapsto> k)" "Suc k"] Cons.prems(1) by auto
    then show False using small [OF prev] Cons.prems(2) [OF prev] by cases (auto split: if_splits)
  qed
  ultimately show ?case using t by (auto split: option.splits)
qed simp

lemma remove_marked_keep_last:
  assumes "\<forall>x \<in> set run. is_result x"
  shows "remove_marked (dup_scan Map.empty 0 run) run = keep_last run"
    and "length (dup_scan Map.empty 0 run) + length (keep_last run) = length run"
    and "dup_scan Map.empty 0 run = [] \<Longrightarrow> keep_last run = run"
proof -
  let ?D = "dup_scan Map.empty 0 run"
  have D: "set ?D = {i. comes_again run i}" using dup_scan_set [OF assms, of _ Map.empty 0] by auto
  have "distinct ?D" using dup_scan_distinct [OF assms, of Map.empty 0] by simp
  then have sorted: "sorted_wrt (<) (sort ?D)" by (simp add: strict_sorted_iff)
  have "remove_marked ?D run = nths run (- set (sort ?D))"
    unfolding remove_marked_def using D by (intro fold_remove_at_nths sorted) (auto simp: comes_again_def)
  also have "\<dots> = nths run {i. \<not> comes_again run i}" using D by (intro nths_cong) auto
  finally show eq: "remove_marked ?D run = keep_last run" by (simp add: keep_last_nths)
  have "length (keep_last run) = card {i. i < length run \<and> \<not> comes_again run i}"
    unfolding keep_last_nths [symmetric] length_nths by simp
  moreover have "length ?D = card {i. i < length run \<and> comes_again run i}"
    using \<open>distinct ?D\<close> D by (metis (no_types, lifting) comes_again_def distinct_card Collect_cong)
  moreover have "card {i. i < length run \<and> comes_again run i} + card {i. i < length run \<and> \<not> comes_again run i} = length run"
    by (subst card_Un_disjoint [symmetric]) (auto simp: Un_def intro!: arg_cong [of _ "{..<length run}" card, THEN trans [OF _ card_lessThan]])
  ultimately show "length ?D + length (keep_last run) = length run" by simp
  show "?D = [] \<Longrightarrow> keep_last run = run" using eq by (simp add: remove_marked_def)
qed

lemma dedup_removals_in_range:
  assumes "\<forall>x \<in> set run. is_result x"
  shows "checked_removals (rev (sort (dup_scan Map.empty 0 run))) run = Some (keep_last run)"
proof -
  let ?D = "dup_scan Map.empty 0 run"
  have D: "set ?D = {i. comes_again run i}" using dup_scan_set [OF assms, of _ Map.empty 0] by auto
  have "distinct ?D" using dup_scan_distinct [OF assms, of Map.empty 0] by simp
  then have "checked_removals (rev (sort ?D)) run = Some (fold remove_at (rev (sort ?D)) run)"
    using D by (intro removals_in_range) (auto simp: strict_sorted_iff comes_again_def)
  with remove_marked_keep_last(1) [OF assms] show ?thesis by (simp add: remove_marked_def)
qed

lemma set_keep_last: "set (keep_last xs) \<subseteq> set xs" "result_id ` set (keep_last xs) = result_id ` set xs"
  by (induction xs) auto

lemma keep_last_distinct: "distinct (map result_id (keep_last xs))"
  by (induction xs) (auto simp: set_keep_last)

lemma keep_last_id: "distinct (map result_id xs) \<Longrightarrow> keep_last xs = xs"
  by (induction xs) (auto simp: rev_image_eqI)

lemma keep_last_results: "\<forall>x \<in> set xs. is_result x \<Longrightarrow> \<forall>x \<in> set (keep_last xs). is_result x"
  using set_keep_last(1) by blast

text \<open>A run of results in front of something else is what the scan sees.\<close>

lemma run_split:
  assumes "\<forall>x \<in> set run. is_result x"
  shows "takeWhile is_result (run @ dropWhile is_result xs) = run"
    and "dropWhile is_result (run @ dropWhile is_result xs) = dropWhile is_result xs"
  using assms hd_dropWhile [of is_result xs] by (auto simp: takeWhile_append dropWhile_append takeWhile_eq_Nil_iff)

function dedup_runs :: "ConversationItem list \<Rightarrow> ConversationItem list" where
  "dedup_runs [] = []"
| "dedup_runs (x # xs) =
     (if call_list x \<noteq> [] then x # keep_last (takeWhile is_result xs) @ dedup_runs (dropWhile is_result xs)
      else x # dedup_runs xs)"
  by pat_completeness auto
termination by (relation "measure length") (auto simp: le_imp_less_Suc length_dropWhile_le)

declare dedup_runs.simps(2) [simp del]

lemma dedup_from_runs: "fst (dedup_from c) = dedup_runs c \<and> length (fst (dedup_from c)) + snd (dedup_from c) = length c"
proof (induction c rule: dedup_from.induct)
  case (2 x xs)
  let ?run = "takeWhile is_result xs" and ?post = "dropWhile is_result xs"
  let ?D = "dup_scan Map.empty 0 ?run"
  have res: "\<forall>y \<in> set ?run. is_result y" by (auto dest: set_takeWhileD)
  have len: "length ?run + length ?post = length xs" by (metis length_append takeWhile_dropWhile_id)
  note run = remove_marked_keep_last [OF res]
  consider "call_list x = []" | "call_list x \<noteq> []" "?D = []" | "call_list x \<noteq> []" "?D \<noteq> []" by blast
  then show ?case
  proof cases
    case 1
    with "2.IH"(3) show ?thesis by (auto simp: dedup_from.simps dedup_runs.simps split_beta)
  next
    case calls: 2
    with "2.IH"(2) [OF calls(1) refl refl] run(3) len show ?thesis
      by (auto simp: dedup_from.simps dedup_runs.simps split_beta)
  next
    case calls: 3
    have eq: "dedup_runs (x # keep_last ?run @ ?post) = dedup_runs (x # xs)"
      using calls run_split [OF keep_last_results [OF res], of xs] keep_last_id [OF keep_last_distinct]
      by (simp add: dedup_runs.simps)
    have step: "dedup_from (x # xs) = (let (ys, n) = dedup_from (x # keep_last ?run @ ?post) in (ys, n + length ?D))"
      using calls run(1) by (subst dedup_from.simps(2)) (simp add: Let_def)
    have IH: "fst (dedup_from (x # keep_last ?run @ ?post)) = dedup_runs (x # keep_last ?run @ ?post)"
      "length (fst (dedup_from (x # keep_last ?run @ ?post))) + snd (dedup_from (x # keep_last ?run @ ?post))
         = length (x # keep_last ?run @ ?post)"
      using "2.IH"(1) [OF calls(1) refl refl calls(2)] unfolding run(1) by blast+
    show ?thesis unfolding step using IH eq run(2) len by (simp add: split_beta)
  qed
qed simp

section \<open>The whole repair\<close>

text \<open>What a provider accepts: every call is answered once, directly behind it, and there is no other result.\<close>

function paired :: "ConversationItem list \<Rightarrow> bool" where
  "paired [] \<longleftrightarrow> True"
| "paired (x # xs) \<longleftrightarrow>
     (if call_list x \<noteq> [] then
        (let run = List.map_filter result_id (takeWhile is_result xs) in
         distinct run \<and> set run = set (call_ids x) \<and> paired (dropWhile is_result xs))
      else \<not> is_result x \<and> paired xs)"
  by pat_completeness auto
termination by (relation "measure length") (auto simp: le_imp_less_Suc length_dropWhile_le)

declare paired.simps(2) [simp del]

text \<open>The three passes in one.\<close>

function repair_runs :: "DanglingToolCallReason \<Rightarrow> ConversationItem list \<Rightarrow> ConversationItem list" where
  "repair_runs reason [] = []"
| "repair_runs reason (x # xs) =
     (if call_list x \<noteq> [] then
        (let kept = filter (\<lambda>r. result_id r \<in> Some ` set (call_ids x)) (keep_last (takeWhile is_result xs)) in
         x # kept @ missing_results reason x kept @ repair_runs reason (dropWhile is_result xs))
      else if is_result x then repair_runs reason xs
      else x # repair_runs reason xs)"
  by pat_completeness auto
termination
  by (relation "measure (\<lambda>(reason, c). length c)") (auto simp: le_imp_less_Suc length_dropWhile_le)

declare repair_runs.simps(2) [simp del]

lemma call_list_not_result: "call_list x \<noteq> [] \<Longrightarrow> \<not> is_result x"
  by (cases x) auto

lemma strip_displaced_Cons:
  "\<not> is_result x \<Longrightarrow> fst (strip_displaced_from ids (x # xs)) = x # fst (strip_displaced_from (set (call_ids x)) xs)"
  "\<not> is_result x \<Longrightarrow> snd (strip_displaced_from ids (x # xs)) = snd (strip_displaced_from (set (call_ids x)) xs)"
  by (cases x; simp add: split_beta)+

lemma strip_displaced_run:
  "\<forall>r \<in> set run. is_result r \<Longrightarrow> fst (strip_displaced_from ids (run @ xs)) =
     filter (\<lambda>r. result_id r \<in> Some ` ids) run @ fst (strip_displaced_from ids xs)"
proof (induction run)
  case (Cons r run)
  then show ?case by (cases r) (auto simp: split_beta)
qed simp

text \<open>Behind a run, what was called before no longer matters.\<close>

lemma strip_displaced_fresh:
  "takeWhile is_result xs = [] \<Longrightarrow> strip_displaced_from ids xs = strip_displaced_from {} xs"
  by (cases xs) (auto split: ConversationItem.splits if_splits)

lemma strip_displaced_head: "takeWhile is_result (fst (strip_displaced_from {} xs)) = []"
proof (induction xs)
  case (Cons x xs)
  then show ?case by (cases x) (simp_all add: split_beta)
qed simp

lemma dedup_runs_head: "takeWhile is_result xs = [] \<Longrightarrow> takeWhile is_result (dedup_runs xs) = []"
  by (cases xs) (auto simp: dedup_runs.simps split: if_splits)

lemma takeWhile_dropWhile_Nil: "takeWhile is_result (dropWhile is_result xs) = []"
  using hd_dropWhile [of is_result xs] by (auto simp: takeWhile_eq_Nil_iff)

lemma passes_runs: "answer_calls reason (fst (strip_displaced_from {} (dedup_runs c))) = repair_runs reason c"
proof (induction reason c rule: repair_runs.induct)
  case (2 reason x xs)
  let ?run = "takeWhile is_result xs" and ?post = "dropWhile is_result xs"
  consider "call_list x \<noteq> []" | "call_list x = []" "is_result x" | "call_list x = []" "\<not> is_result x" by blast
  then show ?case
  proof cases
    case 1
    let ?kept = "filter (\<lambda>r. result_id r \<in> Some ` set (call_ids x)) (keep_last ?run)"
    have res: "\<forall>y \<in> set (keep_last ?run). is_result y"
      by (rule keep_last_results) (auto dest: set_takeWhileD)
    have "strip_displaced_from (set (call_ids x)) (dedup_runs ?post) = strip_displaced_from {} (dedup_runs ?post)"
      by (rule strip_displaced_fresh) (rule dedup_runs_head [OF takeWhile_dropWhile_Nil])
    then have strip: "fst (strip_displaced_from {} (dedup_runs (x # xs))) = x # ?kept @ fst (strip_displaced_from {} (dedup_runs ?post))"
      using 1 strip_displaced_Cons(1) [OF call_list_not_result [OF 1]] strip_displaced_run [OF res]
      by (simp add: dedup_runs.simps)
    have "\<forall>y \<in> set ?kept. is_result y" using res by auto
    then have "takeWhile is_result (?kept @ fst (strip_displaced_from {} (dedup_runs ?post))) = ?kept"
      and "dropWhile is_result (?kept @ fst (strip_displaced_from {} (dedup_runs ?post))) = fst (strip_displaced_from {} (dedup_runs ?post))"
      using strip_displaced_head [of "dedup_runs ?post"]
      by (simp_all add: takeWhile_append dropWhile_append takeWhile_eq_Nil_iff dropWhile_eq_self_iff)
    with 1 "2.IH"(1) [OF 1 refl] strip show ?thesis by (simp add: answer_calls.simps repair_runs.simps Let_def)
  next
    case 2
    with "2.IH"(2) show ?thesis
      by (cases x) (simp_all add: dedup_runs.simps repair_runs.simps split_beta)
  next
    case 3
    with "2.IH"(3) strip_displaced_Cons(1) [OF 3(2)] show ?thesis
      by (simp add: dedup_runs.simps repair_runs.simps answer_calls.simps)
  qed
qed simp

lemma repair_history_runs:
  "fst (repair_history c) = repair_runs (HarnessHalted ''history_repair'') c"
  using dedup_from_runs [of c] passes_runs
  by (simp add: repair_history_def dedup_duplicate_tool_results_def strip_displaced_tool_results_def
      repair_dangling_answer [symmetric] split_beta)

lemma repair_runs_head: "takeWhile is_result (repair_runs reason c) = []"
proof (induction reason c rule: repair_runs.induct)
  case (2 reason x xs)
  then show ?case using call_list_not_result [of x] by (auto simp: repair_runs.simps Let_def)
qed simp

lemma map_filter_ids: "Some t \<in> result_id ` set xs \<longleftrightarrow> t \<in> set (List.map_filter result_id xs)"
  by (induction xs) (force simp: List.map_filter_simps simp del: result_id_None split: option.splits)+

lemma distinct_ids: "\<forall>x \<in> set xs. is_result x \<Longrightarrow> distinct (List.map_filter result_id xs) \<longleftrightarrow> distinct (map result_id xs)"
proof (induction xs)
  case (Cons x xs)
  then obtain t where "result_id x = Some t" by (metis list.set_intros(1) not_None_eq result_id_None)
  with Cons map_filter_ids [of t xs] show ?case by (auto simp: List.map_filter_simps image_iff)
qed (simp add: List.map_filter_simps)

lemma map_filter_append: "List.map_filter f (xs @ ys) = List.map_filter f xs @ List.map_filter f ys"
  by (simp add: List.map_filter_def)

lemma missing_ids: "List.map_filter result_id (missing_results reason x run)
    = filter (\<lambda>t. t \<notin> set (List.map_filter result_id run)) (call_ids x)"
  by (simp add: missing_results_def List.map_filter_def tool_result_def comp_def filter_map)

lemma missing_results_are: "\<forall>y \<in> set (missing_results reason x run). is_result y"
  by (auto simp: missing_results_def tool_result_def)

lemma repair_runs_paired:
  "\<forall>x \<in> set c. distinct (call_ids x) \<Longrightarrow> paired (repair_runs reason c)"
proof (induction reason c rule: repair_runs.induct)
  case (2 reason x xs)
  let ?run = "takeWhile is_result xs" and ?post = "dropWhile is_result xs"
  show ?case
  proof (cases "call_list x = []")
    case True
    with 2 show ?thesis using set_dropWhileD by (auto simp: repair_runs.simps paired.simps)
  next
    case False
    define kept where "kept = filter (\<lambda>r. result_id r \<in> Some ` set (call_ids x)) (keep_last ?run)"
    let ?miss = "missing_results reason x kept"
    have res: "\<forall>y \<in> set kept. is_result y"
      using keep_last_results [of ?run] by (auto simp: kept_def dest: set_takeWhileD)
    have "distinct (map result_id kept)" unfolding kept_def using keep_last_distinct distinct_map_filter by blast
    then have kept: "distinct (List.map_filter result_id kept)" using distinct_ids [OF res] by simp
    have sub: "set (List.map_filter result_id kept) \<subseteq> set (call_ids x)"
    proof
      fix t
      assume "t \<in> set (List.map_filter result_id kept)"
      then obtain r where "r \<in> set kept" "result_id r = Some t" using map_filter_ids [of t kept] by (metis imageE)
      then show "t \<in> set (call_ids x)" by (auto simp: kept_def)
    qed
    have tw: "takeWhile is_result (kept @ ?miss @ repair_runs reason ?post) = kept @ ?miss"
      and dw: "dropWhile is_result (kept @ ?miss @ repair_runs reason ?post) = repair_runs reason ?post"
      using res missing_results_are [of reason x kept] repair_runs_head [of reason ?post]
      by (auto simp: takeWhile_append dropWhile_append takeWhile_eq_Nil_iff dropWhile_eq_self_iff)
    have "\<forall>y \<in> set ?post. distinct (call_ids y)" using "2.prems" set_dropWhileD by fastforce
    with "2.IH"(1) [OF False kept_def] have "paired (repair_runs reason ?post)" by simp
    moreover have "distinct (call_ids x)" using "2.prems" by simp
    moreover have "repair_runs reason (x # xs) = x # kept @ ?miss @ repair_runs reason ?post"
      using False by (simp add: repair_runs.simps Let_def kept_def)
    ultimately show ?thesis
      using False kept sub by (auto simp: paired.simps tw dw Let_def missing_ids map_filter_append)
  qed
qed simp

text \<open>On a paired history no pass finds anything.\<close>

lemma paired_run:
  assumes "paired (x # xs)" and "call_list x \<noteq> []"
  defines "run \<equiv> takeWhile is_result xs"
  shows "\<forall>r \<in> set run. is_result r" and "keep_last run = run" and "missing_results reason x run = []"
    and "filter (\<lambda>r. result_id r \<in> Some ` set (call_ids x)) run = run" and "paired (dropWhile is_result xs)"
proof -
  show res: "\<forall>r \<in> set run. is_result r" unfolding run_def by (auto dest: set_takeWhileD)
  from assms have p: "distinct (List.map_filter result_id run)" "set (List.map_filter result_id run) = set (call_ids x)"
    and "paired (dropWhile is_result xs)" by (auto simp: paired.simps Let_def)
  then show "paired (dropWhile is_result xs)" by simp
  show "keep_last run = run" using p(1) distinct_ids [OF res] by (intro keep_last_id) simp
  show "missing_results reason x run = []" using p(2) by (auto simp: missing_results_def filter_empty_conv)
  show "filter (\<lambda>r. result_id r \<in> Some ` set (call_ids x)) run = run"
  proof (rule filter_True, rule ballI)
    fix r
    assume r: "r \<in> set run"
    with res obtain t where t: "result_id r = Some t" by (metis not_None_eq result_id_None)
    with r map_filter_ids [of t run] p(2) show "result_id r \<in> Some ` set (call_ids x)" by (metis imageI)
  qed
qed

lemma paired_step: "paired (x # xs) \<Longrightarrow> call_list x = [] \<Longrightarrow> \<not> is_result x \<and> paired xs"
  by (simp add: paired.simps)

lemma paired_dedup: "paired c \<Longrightarrow> dedup_runs c = c"
proof (induction c rule: dedup_runs.induct)
  case (2 x xs)
  show ?case
  proof (cases "call_list x = []")
    case True
    with "2.IH"(2) paired_step [OF "2.prems"] show ?thesis by (simp add: dedup_runs.simps)
  next
    case False
    note run = paired_run [OF "2.prems" False]
    show ?thesis using False "2.IH"(1) [OF False run(5)] run(2) by (simp add: dedup_runs.simps)
  qed
qed simp

lemma paired_answered: "paired c \<Longrightarrow> answer_calls reason c = c"
proof (induction reason c rule: answer_calls.induct)
  case (2 reason x xs)
  show ?case
  proof (cases "call_list x = []")
    case True
    with "2.IH"(2) paired_step [OF "2.prems"] show ?thesis by (simp add: answer_calls.simps)
  next
    case False
    note run = paired_run [OF "2.prems" False]
    show ?thesis using False "2.IH"(1) [OF False run(5)] run(3) by (simp add: answer_calls.simps)
  qed
qed simp

lemma paired_strip: "paired c \<Longrightarrow> fst (strip_displaced_from {} c) = c"
proof (induction c rule: paired.induct)
  case (2 x xs)
  show ?case
  proof (cases "call_list x = []")
    case True
    with "2.IH"(2) paired_step [OF "2.prems" True] strip_displaced_Cons(1) [of x "{}" xs] show ?thesis by simp
  next
    case False
    note run = paired_run [OF "2.prems" False]
    let ?ids = "set (call_ids x)" and ?run = "takeWhile is_result xs" and ?post = "dropWhile is_result xs"
    have "fst (strip_displaced_from {} (x # xs)) = x # fst (strip_displaced_from ?ids (?run @ ?post))"
      using strip_displaced_Cons(1) [OF call_list_not_result [OF False], of "{}" xs] by simp
    also have "\<dots> = x # ?run @ fst (strip_displaced_from {} ?post)"
      using strip_displaced_fresh [OF takeWhile_dropWhile_Nil, where ids = ?ids]
      by (simp only: strip_displaced_run [OF run(1)] run(4))
    finally show ?thesis using "2.IH"(1) [OF False refl run(5)] by simp
  qed
qed simp

section \<open>What the report says\<close>

lemma subseq_keep_last: "subseq (keep_last xs) xs"
  by (induction xs) auto

lemma dedup_runs_subseq: "subseq (dedup_runs c) c"
proof (induction c rule: dedup_runs.induct)
  case (2 x xs)
  show ?case
  proof (cases "call_list x = []")
    case False
    with 2 have "subseq (keep_last (takeWhile is_result xs) @ dedup_runs (dropWhile is_result xs))
        (takeWhile is_result xs @ dropWhile is_result xs)"
      by (intro list_emb_append_mono subseq_keep_last) simp
    with False show ?thesis by (simp add: dedup_runs.simps)
  qed (use 2 in \<open>simp add: dedup_runs.simps\<close>)
qed simp

lemma strip_displaced_subseq:
  "subseq (fst (strip_displaced_from ids c)) c"
  "length (fst (strip_displaced_from ids c)) + length (snd (strip_displaced_from ids c)) = length c"
  by (induction c arbitrary: ids; auto simp: split_beta split: ConversationItem.splits)+

lemma repair_sites_range: "list_all (\<lambda>(at, s). s \<noteq> [] \<and> at \<le> length c) (repair_sites reason c i)"
proof (induction reason c i rule: repair_sites.induct)
  case (1 reason c i)
  consider "i \<ge> length c" | "i < length c" "call_list (c ! i) \<noteq> []" | "i < length c" "call_list (c ! i) = []" by linarith
  then show ?case
  proof cases
    case 2
    from "1.IH"(1) [OF this refl refl refl] 2 run_at(4) [OF 2(1)] show ?thesis
      by (subst repair_sites.simps) (simp add: Let_def)
  next
    case 3
    with "1.IH"(2) show ?thesis by (subst repair_sites.simps) simp
  qed (subst repair_sites.simps, simp)
qed

lemma length_fold_splice_at:
  "\<forall>(at, s) \<in> set sites. at \<le> length c \<Longrightarrow>
     length (fold splice_at sites c) = length c + sum_list (map (\<lambda>(_, s). length s) sites)"
proof (induction sites arbitrary: c)
  case (Cons site sites)
  obtain at s where site: "site = (at, s)" by force
  with Cons.prems have "\<forall>(at', s') \<in> set sites. at' \<le> length (take at c @ s @ drop at c)" by auto
  from Cons.IH [OF this] Cons.prems show ?case by (simp add: site)
qed simp

lemma repair_dangling_length:
  "length (fst (repair_dangling_tool_calls reason c)) = length c + snd (repair_dangling_tool_calls reason c)"
  using length_fold_splice_at [of "rev (repair_sites reason c 0)" c] repair_sites_range [of c reason 0]
  by (simp add: repair_dangling_tool_calls_def Let_def rev_map [symmetric] sum_list_rev list_all_iff split_beta)

lemma repair_dangling_zero:
  "snd (repair_dangling_tool_calls reason c) = 0 \<longleftrightarrow> repair_sites reason c 0 = []"
  using repair_sites_range [of c reason 0]
  by (cases "repair_sites reason c 0") (auto simp: repair_dangling_tool_calls_def Let_def)

lemma has_dangling_sites: "dangling_from c i \<longleftrightarrow> repair_sites reason c i \<noteq> []"
proof (induction reason c i rule: repair_sites.induct)
  case (1 reason c i)
  consider "i \<ge> length c" | "i < length c" "call_list (c ! i) \<noteq> []" | "i < length c" "call_list (c ! i) = []" by linarith
  then show ?case
  proof cases
    case 1
    then show ?thesis by (simp add: dangling_from.simps [of c i] repair_sites.simps [of reason c i])
  next
    case 2
    from "1.IH"(1) [OF this refl refl refl] 2 show ?thesis
      by (simp add: dangling_from.simps [of c i] repair_sites.simps [of reason c i] Let_def list_ex_iff filter_empty_conv)
  next
    case 3
    with "1.IH"(2) show ?thesis by (simp add: dangling_from.simps [of c i] repair_sites.simps [of reason c i])
  qed
qed

lemma not_result_run: "\<forall>r \<in> set run. is_result r \<Longrightarrow> filter (\<lambda>x. \<not> is_result x) run = []"
  by (simp add: filter_empty_conv)

lemma filter_dropWhile_results:
  "filter (\<lambda>x. \<not> is_result x) (dropWhile is_result xs) = filter (\<lambda>x. \<not> is_result x) xs"
  by (induction xs) auto

lemma repair_runs_others:
  "filter (\<lambda>x. \<not> is_result x) (repair_runs reason c) = filter (\<lambda>x. \<not> is_result x) c"
proof (induction reason c rule: repair_runs.induct)
  case (2 reason x xs)
  have "filter (\<lambda>x. \<not> is_result x) (filter Q (keep_last (takeWhile is_result xs))) = []" for Q
    using keep_last_results [of "takeWhile is_result xs"] by (intro not_result_run) (auto dest: set_takeWhileD)
  with 2 show ?case
    using not_result_run [OF missing_results_are]
    by (cases "call_list x = []") (auto simp: repair_runs.simps Let_def filter_dropWhile_results)
qed simp

lemma repair_runs_set:
  "y \<in> set (repair_runs reason c) \<Longrightarrow> y \<in> set c \<or> (\<exists>x \<in> set c. \<exists>tc \<in> set (call_list x).
     y = tool_result (tc_id tc) (synthetic_dangling_result_text (tc_name tc) reason))"
proof (induction reason c rule: repair_runs.induct)
  case (2 reason x xs)
  show ?case
  proof (cases "call_list x = []")
    case True
    with 2 show ?thesis by (auto simp: repair_runs.simps split: if_splits)
  next
    case False
    with "2.prems" consider "y = x" | "y \<in> set (keep_last (takeWhile is_result xs))"
      | run where "y \<in> set (missing_results reason x run)" | "y \<in> set (repair_runs reason (dropWhile is_result xs))"
      by (auto simp: repair_runs.simps Let_def)
    then show ?thesis
    proof cases
      case 2
      then show ?thesis using set_keep_last(1) [of "takeWhile is_result xs"] by (auto dest: set_takeWhileD)
    next
      case 3
      then show ?thesis by (auto simp: missing_results_def)
    next
      case 4
      from "2.IH"(1) [OF False refl this] show ?thesis by (auto dest: set_dropWhileD)
    qed simp
  qed
qed simp

text \<open>The report counts nothing exactly on the histories that stay as they are.\<close>

lemma unchanged_report: "\<not> changed (snd (repair_history c)) \<Longrightarrow> fst (repair_history c) = c"
proof -
  assume "\<not> changed (snd (repair_history c))"
  then have none: "snd (dedup_from c) = 0" "snd (strip_displaced_from {} (fst (dedup_from c))) = []"
    "snd (repair_dangling_tool_calls (HarnessHalted ''history_repair'') (fst (strip_displaced_from {} (fst (dedup_from c))))) = 0"
    by (simp_all add: changed_def repair_history_def dedup_duplicate_tool_results_def strip_displaced_tool_results_def split_beta)
  have dedup: "fst (dedup_from c) = c"
    using dedup_from_runs [of c] none(1) dedup_runs_subseq [of c] by (metis add_0_right subseq_same_length)
  then have strip: "fst (strip_displaced_from {} c) = c"
    using none(2) strip_displaced_subseq [of "{}" c] by (simp add: subseq_same_length)
  show ?thesis
    using none(3) dedup strip repair_dangling_zero [of "HarnessHalted ''history_repair''" c]
    by (simp add: repair_history_def dedup_duplicate_tool_results_def strip_displaced_tool_results_def split_beta
        repair_dangling_tool_calls_def Let_def)
qed

lemma paired_report: "paired c \<Longrightarrow> \<not> changed (snd (repair_history c))"
proof -
  assume p: "paired c"
  have "fst (dedup_from c) = c" "snd (dedup_from c) = 0" using dedup_from_runs [of c] paired_dedup [OF p] by auto
  moreover have "snd (strip_displaced_from {} c) = []" using strip_displaced_subseq(2) [of "{}" c] paired_strip [OF p] by simp
  moreover have "snd (repair_dangling_tool_calls reason c) = 0" for reason
    using repair_dangling_length [of reason c] repair_dangling_answer [of reason c] paired_answered [OF p] by simp
  ultimately show ?thesis
    using paired_strip [OF p]
    by (simp add: changed_def repair_history_def dedup_duplicate_tool_results_def strip_displaced_tool_results_def split_beta)
qed

section \<open>Properties\<close>

text \<open>
  C15: For a history in which no assistant item uses a call identity twice, the repaired history is one that a provider
  accepts: every call is answered exactly once directly behind it and no other result is left. Items that
  are no results stay, in their order; a result that is new is the placeholder of a call; the report says whether anything
  changed, and repairing again changes nothing. Without the hypothesis the documented idempotence fails
  (\<open>repair_history_not_idempotent\<close>).
\<close>

theorem repair_history_sound:
  assumes "list_all (\<lambda>x. distinct (map tc_id (call_list x))) c"
  defines "h \<equiv> fst (repair_history c)"
  shows "paired h \<and> filter (\<lambda>x. \<not> is_result x) h = filter (\<lambda>x. \<not> is_result x) c
    \<and> (changed (snd (repair_history c)) \<longleftrightarrow> \<not> paired c) \<and> (h = c \<longleftrightarrow> paired c)
    \<and> fst (repair_history h) = h
    \<and> set h \<subseteq> set c \<union> {tool_result (tc_id tc) (synthetic_dangling_result_text (tc_name tc) (HarnessHalted ''history_repair''))
         | x tc. x \<in> set c \<and> tc \<in> set (call_list x)}"
proof -
  have p: "paired h" unfolding h_def repair_history_runs
    using assms(1) by (intro repair_runs_paired) (simp add: list_all_iff)
  have stays: "fst (repair_history d) = d" if "paired d" for d using unchanged_report paired_report that by blast
  have "h = c \<longleftrightarrow> paired c" using p stays [of c] h_def by metis
  moreover have "changed (snd (repair_history c)) \<longleftrightarrow> \<not> paired c"
    using paired_report unchanged_report p h_def by metis
  moreover have "filter (\<lambda>x. \<not> is_result x) h = filter (\<lambda>x. \<not> is_result x) c"
    unfolding h_def repair_history_runs by (rule repair_runs_others)
  moreover have "set h \<subseteq> set c \<union> {tool_result (tc_id tc) (synthetic_dangling_result_text (tc_name tc) (HarnessHalted ''history_repair''))
         | x tc. x \<in> set c \<and> tc \<in> set (call_list x)}"
    unfolding h_def repair_history_runs using repair_runs_set by blast
  ultimately show ?thesis using p stays [OF p] by blast
qed

abbreviation sample_call :: "string \<Rightarrow> ToolCall" where
  "sample_call i \<equiv> \<lparr>tc_id = i, tc_name = ''ls'', tc_arguments = ''{}''\<rparr>"

abbreviation sample_assistant :: "string list \<Rightarrow> ConversationItem" where
  "sample_assistant ids \<equiv> Assistant \<lparr>ai_content = [], ai_tool_calls = map sample_call ids, ai_model_id = None,
     ai_model_fingerprint = None\<rparr>"

theorem repair_history_sound_witness:
  "paired (fst (repair_history
     [sample_assistant [''a'', ''b''], tool_result ''a'' ''1'', tool_result ''a'' ''2'', user ''hi'', tool_result ''b'' ''3'']))"
  using repair_history_sound
    [of "[sample_assistant [''a'', ''b''], tool_result ''a'' ''1'', tool_result ''a'' ''2'', user ''hi'', tool_result ''b'' ''3'']"]
  by (simp add: tool_result_def user_def user_item_def)

text \<open>With one identity twice in an item, a second repair still changes the history.\<close>

lemma repair_history_not_idempotent:
  defines "h \<equiv> fst (repair_history [sample_assistant [''a'', ''a'']])"
  shows "length h = 3" and "length (fst (repair_history h)) = 2"
  unfolding h_def by code_simp+

text \<open>
  The cheap test agrees with the repair: a history has an open call exactly when the repair would insert a result.\<close>

theorem has_dangling_iff:
  "has_dangling_tool_calls c \<longleftrightarrow> 0 < snd (repair_dangling_tool_calls reason c)"
  using has_dangling_sites [of c 0 reason] repair_dangling_zero [of reason c] by (auto simp: has_dangling_tool_calls_def)

end
