(* ===== verification/Turn_Selection.thy ===== *)
theory Turn_Selection
  imports Conversation_Repair
begin

text \<open>
  Where a conversation is cut for compaction: \<open>crates/common/xai-grok-compaction/src/select.rs\<close>, the fit of the
  summarizer's input (\<open>intra_compaction/fit.rs\<close>) and the trigger (\<open>intra_compaction/trigger.rs\<close>). The code is generic in the
  type of the items; the methods it calls are arguments. Token counts are \<open>u32\<close> and saturate. An index out of
  range panics, which is the value \<open>None\<close>.
\<close>

section \<open>The split\<close>

record SplitPlan =
  split_idx :: nat
  tokens_to_compact :: nat

fun walk_back :: "nat list \<Rightarrow> nat \<Rightarrow> nat \<Rightarrow> nat \<Rightarrow> nat \<Rightarrow> nat option" where
  "walk_back counts target 0 kept split = Some split"
| "walk_back counts target (Suc i) kept split =
     (case get counts i of
        None \<Rightarrow> None
      | Some cnt \<Rightarrow>
          if sat_add32 kept cnt > target then Some (i + 1)
          else walk_back counts target i (sat_add32 kept cnt) i)"

definition snap_to_safe_boundary :: "('a \<Rightarrow> bool) \<Rightarrow> 'a list \<Rightarrow> nat \<Rightarrow> nat" where
  "snap_to_safe_boundary is_tool_result items candidate =
     (if candidate \<ge> length items then length items
      else if \<not> is_tool_result (items ! candidate) then candidate
      else skip_while is_tool_result items candidate)"

definition sum_counts :: "nat list \<Rightarrow> nat" where
  "sum_counts counts = fold (\<lambda>c a. sat_add32 a c) counts 0"

definition select_turns_to_compact ::
    "('a \<Rightarrow> bool) \<Rightarrow> nat list \<Rightarrow> 'a list \<Rightarrow> nat \<Rightarrow> nat \<Rightarrow> SplitPlan option option" where
  "select_turns_to_compact is_tool_result counts items target min_compactable =
     (let total = length items in
      if total = 0 then Some None
      else (case walk_back counts target total 0 total of
          None \<Rightarrow> None
        | Some split \<Rightarrow>
            if split = 0 then Some None
            else
              (let safe = snap_to_safe_boundary is_tool_result items split in
               if safe \<ge> total then Some None
               else
                 (let tokens = sum_counts (take safe counts) in
                  if tokens < min_compactable then Some None
                  else Some (Some \<lparr>split_idx = safe, tokens_to_compact = tokens\<rparr>)))))"

text \<open>
  The same as a search: nothing is compacted when everything fits, and otherwise the cut is the first place
  from which the rest fits and which is no tool result.
\<close>

definition first_split :: "('a \<Rightarrow> bool) \<Rightarrow> nat list \<Rightarrow> 'a list \<Rightarrow> nat \<Rightarrow> nat \<Rightarrow> SplitPlan option" where
  "first_split is_tool_result counts items target min_compactable =
     (if sum_counts counts \<le> target then None
      else (case find (\<lambda>i. sum_counts (drop i counts) \<le> target \<and> \<not> is_tool_result (items ! i)) [0..<length items] of
          None \<Rightarrow> None
        | Some i \<Rightarrow>
            if sum_counts (take i counts) < min_compactable then None
            else Some \<lparr>split_idx = i, tokens_to_compact = sum_counts (take i counts)\<rparr>))"

lemma sum_counts_min: "sum_counts xs = min (sum_list xs) u32_max"
  by (simp add: sum_counts_def fold_sat_add32)

lemma sum_counts_exact: "sum_counts xs \<le> t \<Longrightarrow> t < u32_max \<Longrightarrow> sum_list xs \<le> t"
  by (simp add: sum_counts_min)

lemma sum_counts_drop_mono: "i \<le> j \<Longrightarrow> sum_counts (drop j xs) \<le> sum_counts (drop i xs)"
proof -
  assume "i \<le> j"
  then have "drop i xs = take (j - i) (drop i xs) @ drop j xs"
    by (metis append_take_drop_id drop_drop le_add_diff_inverse2)
  then have "sum_list (drop j xs) \<le> sum_list (drop i xs)" by (metis le_add2 sum_list_append)
  then show ?thesis by (simp add: sum_counts_min min.coboundedI1)
qed

text \<open>The walk stops at the first place from which the rest fits.\<close>

lemma walk_back_first:
  assumes "i \<le> length counts" and "sum_counts (drop i counts) \<le> target" and "kept = sum_counts (drop i counts)"
  obtains k where "walk_back counts target i kept i = Some k" and "k \<le> i"
    and "sum_counts (drop k counts) \<le> target" and "k > 0 \<longrightarrow> sum_counts (drop (k - 1) counts) > target"
  using assms
proof (induction i arbitrary: kept thesis)
  case (Suc i)
  then have i: "i < length counts" by simp
  then have "drop i counts = counts ! i # drop (Suc i) counts" by (rule Cons_nth_drop_Suc [symmetric])
  then have acc: "sat_add32 kept (counts ! i) = sum_counts (drop i counts)"
    using Suc.prems(4) by (auto simp: sum_counts_min sat_add32_def min_def)
  show ?case
  proof (cases "sum_counts (drop i counts) > target")
    case True
    then show ?thesis using Suc.prems i acc by (intro Suc.prems(1) [of "Suc i"]) (simp_all add: get_def)
  next
    case False
    then obtain k where k: "walk_back counts target i (sum_counts (drop i counts)) i = Some k" "k \<le> i"
      "sum_counts (drop k counts) \<le> target" "k > 0 \<longrightarrow> sum_counts (drop (k - 1) counts) > target"
      using Suc.IH [of "sum_counts (drop i counts)"] i by (metis less_imp_le_nat not_le)
    then show ?thesis using False i acc by (intro Suc.prems(1) [of k]) (simp_all add: get_def)
  qed
qed simp

lemma find_upt:
  assumes "m < n" and "P m" and "\<And>i. i < m \<Longrightarrow> \<not> P i"
  shows "find P [0..<n] = Some m"
  using assms by (auto simp: find_Some_iff intro!: exI [of _ m])

lemma snap_is_skip: "candidate \<le> length items \<Longrightarrow> snap_to_safe_boundary p items candidate = skip_while p items candidate"
  by (auto simp: snap_to_safe_boundary_def skip_while.simps)

lemma select_first_split:
  assumes "length counts = length items"
  shows "select_turns_to_compact is_tool_result counts items target min_compactable
           = Some (first_split is_tool_result counts items target min_compactable)"
proof (cases "items = []")
  case True
  with assms show ?thesis by (simp add: select_turns_to_compact_def first_split_def)
next
  case False
  let ?n = "length items"
  obtain k where k: "walk_back counts target ?n 0 ?n = Some k" "k \<le> ?n" "sum_counts (drop k counts) \<le> target"
    "k > 0 \<longrightarrow> sum_counts (drop (k - 1) counts) > target"
    using walk_back_first [of ?n counts target 0] assms by (auto simp: sum_counts_def)
  have below: "sum_counts (drop i counts) > target" if "i < k" for i
    using k(4) sum_counts_drop_mono [of i "k - 1" counts] that by fastforce
  let ?s = "skip_while is_tool_result items k"
  note stop = skip_while_stops [OF k(2), where p = is_tool_result]
  have after: "sum_counts (drop i counts) \<le> target" if "k \<le> i" for i
    using k(3) sum_counts_drop_mono [OF that, of counts] by simp
  show ?thesis
  proof (cases "k = 0")
    case True
    with k False show ?thesis by (simp add: select_turns_to_compact_def first_split_def)
  next
    case pos: False
    then have big: "\<not> sum_counts counts \<le> target" using below [of 0] by simp
    let ?P = "\<lambda>i. sum_counts (drop i counts) \<le> target \<and> \<not> is_tool_result (items ! i)"
    have none: "\<not> ?P i" if "i < ?s" for i using that below [of i] stop(3) [of i] by (cases "i < k") auto
    show ?thesis
    proof (cases "?s < ?n")
      case True
      then have "find ?P [0..<?n] = Some ?s"
        using stop(2) after [OF skip_while_ge] none by (intro find_upt) auto
      with True pos big False k snap_is_skip [OF k(2)] show ?thesis
        by (simp add: select_turns_to_compact_def first_split_def Let_def)
    next
      case over: False
      then have "find ?P [0..<?n] = None" using none stop(1) by (auto simp: find_None_iff)
      with over pos big False k snap_is_skip [OF k(2)] show ?thesis
        by (simp add: select_turns_to_compact_def first_split_def Let_def)
    qed
  qed
qed

lemma select_plan:
  assumes "length counts = length items"
    and "select_turns_to_compact p counts items target min_compactable = Some (Some plan)"
  defines "i \<equiv> split_idx plan"
  shows "0 < i" and "i < length items" and "\<not> p (items ! i)" and "sum_counts (drop i counts) \<le> target"
    and "\<And>j. j < i \<Longrightarrow> sum_counts (drop j counts) > target \<or> p (items ! j)"
    and "tokens_to_compact plan = sum_counts (take i counts)" and "min_compactable \<le> tokens_to_compact plan"
proof -
  let ?P = "\<lambda>i. sum_counts (drop i counts) \<le> target \<and> \<not> p (items ! i)"
  from assms(2) have f: "first_split p counts items target min_compactable = Some plan"
    by (simp add: select_first_split [OF assms(1)])
  then obtain k where k: "find ?P [0..<length items] = Some k" and big: "\<not> sum_counts counts \<le> target"
    and plan: "plan = \<lparr>split_idx = k, tokens_to_compact = sum_counts (take k counts)\<rparr>"
    and mn: "\<not> sum_counts (take k counts) < min_compactable"
    by (auto simp: first_split_def split: if_splits option.splits)
  from k have at: "k < length items" "?P k" and before: "j < k \<Longrightarrow> \<not> ?P j" for j
    by (auto simp: find_Some_iff)
  have "k \<noteq> 0" using at(2) big by (cases "k = 0") auto
  then show "0 < i" and "i < length items" and "\<not> p (items ! i)" and "sum_counts (drop i counts) \<le> target"
    and "tokens_to_compact plan = sum_counts (take i counts)" and "min_compactable \<le> tokens_to_compact plan"
    using at plan mn by (auto simp: i_def)
  show "sum_counts (drop j counts) > target \<or> p (items ! j)" if "j < i" for j
    using before [of j] that plan by (auto simp: i_def)
qed

section \<open>A cut keeps calls and results together\<close>

text \<open>
  What the selector relies on: a list in which every call has its results can be cut in front of anything but a
  result.
\<close>

locale compaction_items =
  fixes is_tool_result :: "'a \<Rightarrow> bool" and self_contained :: "'a list \<Rightarrow> bool"
  assumes cut: "self_contained (xs @ y # ys) \<Longrightarrow> \<not> is_tool_result y \<Longrightarrow> self_contained xs \<and> self_contained (y # ys)"
begin

lemma cut_at:
  "self_contained items \<Longrightarrow> i < length items \<Longrightarrow> \<not> is_tool_result (items ! i) \<Longrightarrow>
     self_contained (take i items) \<and> self_contained (drop i items)"
  using cut [of "take i items" "items ! i" "drop (Suc i) items"] by (simp add: Cons_nth_drop_Suc id_take_nth_drop [symmetric])

lemma split_safe:
  assumes "length counts = length items" and "self_contained items"
    and "select_turns_to_compact is_tool_result counts items target min_compactable = Some (Some plan)"
  shows "self_contained (take (split_idx plan) items) \<and> self_contained (drop (split_idx plan) items)"
  using cut_at select_plan(2,3) [OF assms(1,3)] assms(2) by blast

end

lemma paired_cut: "paired (xs @ y # ys) \<Longrightarrow> \<not> is_result y \<Longrightarrow> paired xs \<and> paired (y # ys)"
proof (induction xs rule: paired.induct)
  case (2 x xs)
  have tw: "takeWhile is_result (xs @ y # ys) = takeWhile is_result xs"
    using "2.prems"(2) by (induction xs) auto
  have dw: "dropWhile is_result (xs @ y # ys) = dropWhile is_result xs @ y # ys"
    using "2.prems"(2) by (induction xs) auto
  show ?case
  proof (cases "call_list x = []")
    case True
    with 2 paired_step [of x "xs @ y # ys"] show ?thesis by (simp add: paired.simps(2) [of x xs])
  next
    case False
    with 2 show ?thesis by (simp add: paired.simps(2) [of x] Let_def tw dw)
  qed
qed simp

interpretation conv: compaction_items is_result paired
  by unfold_locales (rule paired_cut)

section \<open>Fitting the input of the summarizer\<close>

datatype FitRung = Verbatim | HistoryTurnSelected | ToolTruncated | StepTurnsSelected | Emergency

record 'a FitPlan =
  llm_turns :: "'a list"
  tokens_raw :: nat
  tokens_fit :: nat
  rung :: FitRung
  items_truncated :: nat
  history_turns_omitted :: nat
  step_turns_omitted :: nat

text \<open>\<open>n as u32\<close> on a \<open>usize\<close>.\<close>

definition as_u32 :: "nat \<Rightarrow> nat" where
  "as_u32 n = n mod 2 ^ 32"

definition sum_tokens :: "('a \<Rightarrow> nat) \<Rightarrow> 'a list \<Rightarrow> nat" where
  "sum_tokens counter turns = sum_counts (map counter turns)"

definition shrink_oversized_tool_results ::
    "('a \<Rightarrow> bool) \<Rightarrow> ('a \<Rightarrow> nat \<Rightarrow> 'a) \<Rightarrow> ('a \<Rightarrow> nat) \<Rightarrow> nat \<Rightarrow> 'a list \<Rightarrow> 'a list \<times> nat" where
  "shrink_oversized_tool_results is_tool_result truncate_payload counter max_tokens turns =
     (map (\<lambda>t. if is_tool_result t \<and> counter t > max_tokens then truncate_payload t max_tokens else t) turns,
      length (filter (\<lambda>t. is_tool_result t \<and> counter t > max_tokens) turns))"

definition keep_recent_under_budget ::
    "('a \<Rightarrow> bool) \<Rightarrow> 'a list \<Rightarrow> nat list \<Rightarrow> nat \<Rightarrow> ('a list \<times> nat) option option" where
  "keep_recent_under_budget is_tool_result turns counts budget =
     (if turns = [] then Some (Some ([], 0))
      else if budget = 0 then Some (Some ([], as_u32 (length turns)))
      else if sum_counts counts \<le> budget then Some (Some (turns, 0))
      else (case select_turns_to_compact is_tool_result counts turns budget 0 of
          None \<Rightarrow> None
        | Some None \<Rightarrow> Some None
        | Some (Some plan) \<Rightarrow> Some (Some (drop (split_idx plan) turns, as_u32 (split_idx plan)))))"

text \<open>Stages 1 and 3: drop the oldest turns of one side, with what the other side leaves of the budget.\<close>

definition drop_oldest ::
    "('a \<Rightarrow> bool) \<Rightarrow> 'a list \<Rightarrow> nat list \<Rightarrow> nat \<Rightarrow> nat \<Rightarrow> ('a list \<times> nat list \<times> nat) option" where
  "drop_oldest is_tool_result turns counts other_tokens budget =
     (if other_tokens < budget then
        (if sum_counts counts > budget - other_tokens then
           (case keep_recent_under_budget is_tool_result turns counts (budget - other_tokens) of
              None \<Rightarrow> None
            | Some None \<Rightarrow> Some ([], [], as_u32 (length turns))
            | Some (Some (keep, omitted)) \<Rightarrow>
                map_option (\<lambda>rest. (keep, rest, omitted)) (get_from counts omitted))
         else Some (turns, counts, 0))
      else Some ([], [], as_u32 (length turns)))"

definition plan_ok ::
    "('a \<Rightarrow> nat) \<Rightarrow> 'a list \<Rightarrow> 'a list \<Rightarrow> nat \<Rightarrow> FitRung \<Rightarrow> nat \<Rightarrow> nat \<Rightarrow> nat \<Rightarrow> 'a FitPlan" where
  "plan_ok counter history steps raw r truncated hist_omitted step_omitted =
     \<lparr>llm_turns = history @ steps, tokens_raw = raw, tokens_fit = sum_tokens counter (history @ steps), rung = r,
      items_truncated = truncated, history_turns_omitted = hist_omitted, step_turns_omitted = step_omitted\<rparr>"

definition emergency_plan ::
    "('a \<Rightarrow> nat \<Rightarrow> 'a) \<Rightarrow> ('a \<Rightarrow> nat) \<Rightarrow> 'a list \<Rightarrow> 'a list \<Rightarrow> 'a list \<Rightarrow> 'a list \<Rightarrow> nat \<Rightarrow> nat \<Rightarrow> nat \<Rightarrow> nat \<Rightarrow> nat
      \<Rightarrow> 'a FitPlan" where
  "emergency_plan truncate_payload counter history steps hist step raw truncated hist_omitted step_omitted budget =
     (let (source, ho, so) =
        (if hist @ step = [] then
           (history @ steps,
            if steps = [] then as_u32 (length history - 1) else as_u32 (length history),
            if steps = [] then 0 else as_u32 (length steps - 1))
         else if step = [] then
           (hist @ step, sat_add32 hist_omitted (as_u32 (length hist - 1)), step_omitted)
         else
           (hist @ step, sat_add32 hist_omitted (as_u32 (length hist)),
            sat_add32 step_omitted (as_u32 (length step - 1)))) in
      if source = [] then
        \<lparr>llm_turns = [], tokens_raw = raw, tokens_fit = 0, rung = Emergency, items_truncated = truncated,
         history_turns_omitted = ho, step_turns_omitted = so\<rparr>
      else
        (let last_turn = [truncate_payload (last source) budget] in
         \<lparr>llm_turns = last_turn, tokens_raw = raw, tokens_fit = sum_tokens counter last_turn, rung = Emergency,
          items_truncated = sat_add32 truncated 1, history_turns_omitted = ho, step_turns_omitted = so\<rparr>))"

definition fit_turns_for_summarizer ::
    "('a \<Rightarrow> bool) \<Rightarrow> ('a \<Rightarrow> nat \<Rightarrow> 'a) \<Rightarrow> ('a \<Rightarrow> nat) \<Rightarrow> 'a list \<Rightarrow> 'a list \<Rightarrow> nat \<Rightarrow> 'a FitPlan option" where
  "fit_turns_for_summarizer is_tool_result truncate_payload counter history steps budget =
     (let hist_counts = map counter history; step_counts = map counter steps;
          raw = sat_add32 (sum_counts hist_counts) (sum_counts step_counts) in
      if budget = 0 then
        Some \<lparr>llm_turns = [], tokens_raw = raw, tokens_fit = 0, rung = Emergency, items_truncated = 0,
          history_turns_omitted = as_u32 (length history), step_turns_omitted = as_u32 (length steps)\<rparr>
      else if raw \<le> budget then Some (plan_ok counter history steps raw Verbatim 0 0 0)
      else
        (case drop_oldest is_tool_result history hist_counts (sum_counts step_counts) budget of
           None \<Rightarrow> None
         | Some (hist, hist_counts, hist_omitted) \<Rightarrow>
             if sat_add32 (sum_counts hist_counts) (sum_counts step_counts) \<le> budget
             then Some (plan_ok counter hist steps raw HistoryTurnSelected 0 hist_omitted 0)
             else
               (let (hist, n1) = shrink_oversized_tool_results is_tool_result truncate_payload counter budget hist;
                    (step, n2) = shrink_oversized_tool_results is_tool_result truncate_payload counter budget steps;
                    truncated = sat_add32 n1 n2;
                    hist_counts = map counter hist; step_counts = map counter step in
                if sat_add32 (sum_counts hist_counts) (sum_counts step_counts) \<le> budget
                then Some (plan_ok counter hist step raw ToolTruncated truncated hist_omitted 0)
                else
                  (case drop_oldest is_tool_result step step_counts (sum_counts hist_counts) budget of
                     None \<Rightarrow> None
                   | Some (step, step_counts, step_omitted) \<Rightarrow>
                       if sat_add32 (sum_counts hist_counts) (sum_counts step_counts) \<le> budget
                          \<and> (hist \<noteq> [] \<or> step \<noteq> [])
                       then Some (plan_ok counter hist step raw StepTurnsSelected truncated hist_omitted step_omitted)
                       else Some (emergency_plan truncate_payload counter history steps hist step raw truncated
                         hist_omitted step_omitted budget)))))"

lemma sat_add_counts: "sat_add32 (sum_counts xs) (sum_counts ys) = sum_counts (xs @ ys)"
  by (auto simp: sum_counts_min sat_add32_def min_def)

lemma sum_tokens_append:
  "sum_tokens counter (hist @ step) = sat_add32 (sum_counts (map counter hist)) (sum_counts (map counter step))"
  by (simp add: sum_tokens_def sat_add_counts)

text \<open>
  Dropping never fails on lists that a \<open>u32\<close> can count, and leaves a suffix with its counts: one that fits beside
  the other side, or nothing.
\<close>

lemma as_u32_small: "n < 2 ^ 32 \<Longrightarrow> as_u32 n = n"
  by (simp add: as_u32_def)

lemma drop_oldest_suffix:
  assumes "length turns < 2 ^ 32"
  obtains n where "drop_oldest p turns (map counter turns) other budget = Some (drop n turns, map counter (drop n turns), n)"
    and "n \<le> length turns" and "n = length turns \<or> sum_counts (map counter (drop n turns)) + other \<le> budget"
proof -
  obtain r where r: "select_turns_to_compact p (map counter turns) turns (budget - other) 0 = Some r"
    by (simp add: select_first_split)
  have sel: "split_idx plan \<le> length turns" "as_u32 (split_idx plan) = split_idx plan"
    "sum_counts (map counter (drop (split_idx plan) turns)) \<le> budget - other" if "r = Some plan" for plan
    using select_plan(2,4) [OF _ r [unfolded that]] assms by (simp_all add: as_u32_small drop_map)
  have "\<exists>n \<le> length turns.
      drop_oldest p turns (map counter turns) other budget = Some (drop n turns, map counter (drop n turns), n)
      \<and> (n = length turns \<or> sum_counts (map counter (drop n turns)) + other \<le> budget)"
    using r sel as_u32_small [OF assms]
    by (fastforce simp: drop_oldest_def keep_recent_under_budget_def get_from_def drop_map split: option.splits)
  then show ?thesis using that by blast
qed

lemma clipped_tool_results:
  "shrink_oversized_tool_results is_tool_result truncate_payload counter budget xs
     = (map (\<lambda>t. if is_tool_result t \<and> counter t > budget then truncate_payload t budget else t) xs,
        length (filter (\<lambda>t. is_tool_result t \<and> counter t > budget) xs))"
  by (simp add: shrink_oversized_tool_results_def)

text \<open>The emergency rung is reached with both sides emptied, and goes back to the newest step.\<close>

lemma emergency_plan_newest:
  assumes "steps \<noteq> []" and "length history < 2 ^ 32" and "length steps < 2 ^ 32"
  shows "emergency_plan truncate_payload counter history steps [] [] raw truncated ho so budget
    = \<lparr>llm_turns = [truncate_payload (last steps) budget], tokens_raw = raw,
       tokens_fit = sum_counts [counter (truncate_payload (last steps) budget)], rung = Emergency,
       items_truncated = sat_add32 truncated 1, history_turns_omitted = length history,
       step_turns_omitted = length steps - 1\<rparr>"
  using assms by (simp add: emergency_plan_def sum_tokens_def as_u32_small Let_def)

text \<open>
  C25: With a positive budget, at least one step and fewer than two to the power of 32 turns on each side, the fit always
  yields a plan that is not empty and whose count is that of its turns; on every rung but the last the count is within the
  budget. The plan never reorders and leaves out only the oldest turns: verbatim it is everything; then the oldest
  turns of the history are left out; then the whole history, with oversized tool results of the steps clipped; then the oldest
  steps too; and on the last rung the newest step alone is left, cut to the budget. The numbers of omitted turns are
  those left out.
\<close>

theorem fit_within_budget:
  fixes history steps :: "'a list" and is_tool_result :: "'a \<Rightarrow> bool" and counter :: "'a \<Rightarrow> nat"
    and truncate_payload :: "'a \<Rightarrow> nat \<Rightarrow> 'a"
  assumes "0 < budget" and "steps \<noteq> []" and "length history < 2 ^ 32" and "length steps < 2 ^ 32"
  defines "clip \<equiv> \<lambda>t. if is_tool_result t \<and> counter t > budget then truncate_payload t budget else t"
  shows "\<exists>plan. fit_turns_for_summarizer is_tool_result truncate_payload counter history steps budget = Some plan
    \<and> llm_turns plan \<noteq> [] \<and> tokens_fit plan = sum_counts (map counter (llm_turns plan))
    \<and> (rung plan \<noteq> Emergency \<longrightarrow> tokens_fit plan \<le> budget)
    \<and> (case rung plan of
         Verbatim \<Rightarrow> llm_turns plan = history @ steps \<and> history_turns_omitted plan = 0 \<and> step_turns_omitted plan = 0
       | HistoryTurnSelected \<Rightarrow>
           llm_turns plan = drop (history_turns_omitted plan) history @ steps \<and> step_turns_omitted plan = 0
       | ToolTruncated \<Rightarrow>
           llm_turns plan = map clip steps \<and> history_turns_omitted plan = length history \<and> step_turns_omitted plan = 0
       | StepTurnsSelected \<Rightarrow>
           llm_turns plan = map clip (drop (step_turns_omitted plan) steps) \<and> history_turns_omitted plan = length history
       | Emergency \<Rightarrow>
           llm_turns plan = [truncate_payload (last steps) budget] \<and> history_turns_omitted plan = length history
             \<and> step_turns_omitted plan = length steps - 1)"
proof -
  let ?sum = "\<lambda>xs ys. sat_add32 (sum_counts (map counter xs)) (sum_counts (map counter ys))" and ?s = "map clip steps"
  obtain n where n: "drop_oldest is_tool_result history (map counter history) (sum_counts (map counter steps)) budget
      = Some (drop n history, map counter (drop n history), n)" "n \<le> length history"
    "n = length history \<or> sum_counts (map counter (drop n history)) + sum_counts (map counter steps) \<le> budget"
    using drop_oldest_suffix [OF assms(3)] by blast
  obtain m where m: "drop_oldest is_tool_result ?s (map counter ?s) 0 budget
      = Some (drop m ?s, map counter (drop m ?s), m)" "m \<le> length ?s" "m = length ?s \<or> sum_counts (map counter (drop m ?s)) + 0 \<le> budget"
    using drop_oldest_suffix [of ?s is_tool_result counter 0 budget] assms(4) by (metis length_map)
  have zero: "sum_counts [] = 0" "sat_add32 0 (sum_counts xs) = sum_counts xs" for xs
    by (auto simp: sum_counts_min sat_add32_def)
  note fit = fit_turns_for_summarizer_def [of is_tool_result truncate_payload counter history steps budget,
      unfolded Let_def clipped_tool_results n(1), folded clip_def]
  have gone: "n = length history" if "\<not> ?sum (drop n history) steps \<le> budget"
    using that n(3) by (auto simp: sat_add32_def)
  consider (verbatim) "?sum history steps \<le> budget"
    | (selected) "\<not> ?sum history steps \<le> budget" "?sum (drop n history) steps \<le> budget"
    | (clipped) "\<not> ?sum history steps \<le> budget" "\<not> ?sum (drop n history) steps \<le> budget" "sum_counts (map counter ?s) \<le> budget"
    | (over) "\<not> ?sum history steps \<le> budget" "\<not> ?sum (drop n history) steps \<le> budget" "\<not> sum_counts (map counter ?s) \<le> budget"
    by blast
  then show ?thesis
  proof cases
    case over
    note over = over gone [OF over(2)]
    show ?thesis
    proof (cases "m = length ?s")
      case True
      with over assms(1-4) m show ?thesis by (simp add: fit zero emergency_plan_newest)
    next
      case False
      with over assms(1) m show ?thesis
        by (auto simp: fit zero plan_ok_def sum_tokens_def drop_map)
    qed
  qed (use assms(1,2) gone in \<open>simp_all add: fit plan_ok_def sum_tokens_append sum_tokens_def sat_add_counts zero\<close>)
qed

theorem fit_within_budget_witness:
  "\<exists>plan. fit_turns_for_summarizer (\<lambda>t. t = (0 :: nat)) (\<lambda>t m. m) (\<lambda>t. t) [7, 2] [3] 6 = Some plan
     \<and> llm_turns plan \<noteq> [] \<and> tokens_fit plan = sum_counts (llm_turns plan)"
  using fit_within_budget [of 6 "[3 :: nat]" "[7, 2]" "\<lambda>t. t = 0" "\<lambda>t m. m" "\<lambda>t. t"] by auto

text \<open>Before the first step it can be empty: one turn of history over the budget is dropped, and no rung looks at it again.\<close>

lemma fit_plan_empty:
  "map_option llm_turns (fit_turns_for_summarizer (\<lambda>t. False) (\<lambda>t m. m) (\<lambda>t. t) [9 :: nat] [] 6) = Some []"
  by (simp add: fit_turns_for_summarizer_def drop_oldest_def keep_recent_under_budget_def select_turns_to_compact_def
      sum_counts_min sat_add32_def plan_ok_def as_u32_def get_from_def snap_to_safe_boundary_def)

section \<open>When to compact\<close>

datatype IntraCompactionMode = FullReplace | StepsOnly | HistoryOnly | HistoryThenSteps

record IntraCompactionConfig =
  ic_enabled :: bool
  ic_mode :: IntraCompactionMode
  trigger_threshold_percent :: nat
  min_steps_before_compact :: nat

record IntraCompactionTrigger =
  last_prompt_tokens :: nat
  trigger_window :: nat
  percent :: nat
  trigger_step :: nat

definition should_compact :: "IntraCompactionConfig \<Rightarrow> nat \<Rightarrow> nat \<Rightarrow> nat \<Rightarrow> IntraCompactionTrigger option" where
  "should_compact policy last_tokens context_window current_step =
     (if \<not> ic_enabled policy then None
      else if context_window = 0 then None
      else if ic_mode policy \<noteq> FullReplace \<and> current_step < min_steps_before_compact policy then None
      else
        (let threshold = as_u32 (context_window * trigger_threshold_percent policy div 100) in
         if last_tokens \<le> threshold then None
         else Some \<lparr>last_prompt_tokens = last_tokens, trigger_window = context_window,
           percent = min (last_tokens * 100 div context_window) 100, trigger_step = current_step\<rparr>))"

text \<open>
  The cast of the threshold cannot wrap as long as the percentage is at most 100, so a prompt over the window always
  triggers an enabled policy that is past its first steps.
\<close>

theorem full_window_compacts:
  assumes "ic_enabled policy" and "0 < context_window" and "context_window \<le> u32_max"
    and "trigger_threshold_percent policy \<le> 100" and "context_window < last_tokens"
    and "ic_mode policy = FullReplace \<or> min_steps_before_compact policy \<le> current_step"
  shows "should_compact policy last_tokens context_window current_step
    = Some \<lparr>last_prompt_tokens = last_tokens, trigger_window = context_window, percent = 100, trigger_step = current_step\<rparr>"
proof -
  have "context_window * trigger_threshold_percent policy div 100 \<le> context_window"
    using assms(4) by (metis div_le_mono div_mult_self_is_m mult_le_mono2 zero_less_numeral)
  with assms(3) have "as_u32 (context_window * trigger_threshold_percent policy div 100) \<le> context_window"
    by (simp add: as_u32_def mod_le_divisor order_trans [OF mod_less_eq_dividend])
  moreover have "100 \<le> last_tokens * 100 div context_window"
    using assms(2,5) by (metis div_le_mono div_mult_self_is_m less_imp_le_nat mult.commute mult_le_mono2)
  ultimately show ?thesis using assms by (auto simp: should_compact_def Let_def)
qed

end
