(* ===== verification/Summary_Text.thy ===== *)
theory Summary_Text
  imports Rust_Prelude
begin

text \<open>
  The texts around a compaction (\<open>crates/codegen/xai-chat-state/src/compaction_utils.rs\<close>): the query of a user message
  without the tags of the runtime, and the cleaned summary of the model. Strings are their UTF-8 bytes. All
  patterns are ASCII, so a slice at a match is at a character boundary; a slice whose start is behind its end
  panics, which is the value \<open>None\<close>.
\<close>

section \<open>Searching and replacing\<close>

text \<open>\<open>s.find(p)\<close>, \<open>s.rfind(p)\<close> and \<open>s.replace(p, r)\<close> for a pattern that is not empty.\<close>

fun find_str :: "'a list \<Rightarrow> 'a list \<Rightarrow> nat option" where
  "find_str [] p = (if p = [] then Some 0 else None)"
| "find_str (c # s) p = (if starts_with (c # s) p then Some 0 else map_option Suc (find_str s p))"

fun rfind_str :: "'a list \<Rightarrow> 'a list \<Rightarrow> nat option" where
  "rfind_str [] p = (if p = [] then Some 0 else None)"
| "rfind_str (c # s) p =
     (case rfind_str s p of
        Some k \<Rightarrow> Some (Suc k)
      | None \<Rightarrow> if starts_with (c # s) p then Some 0 else None)"

function replace_str :: "'a list \<Rightarrow> 'a list \<Rightarrow> 'a list \<Rightarrow> 'a list" where
  "replace_str [] p r = []"
| "replace_str (c # s) p r =
     (if p \<noteq> [] \<and> starts_with (c # s) p then r @ replace_str (drop (length p) (c # s)) p r
      else c # replace_str s p r)"
  by pat_completeness auto
termination by (relation "measure (\<lambda>(s, p, r). length s)") auto

declare replace_str.simps(2) [simp del]

definition str_slice :: "nat \<Rightarrow> nat \<Rightarrow> 'a list \<Rightarrow> 'a list option" where
  "str_slice a b s = (if a \<le> b \<and> b \<le> length s then Some (take (b - a) (drop a s)) else None)"

lemma find_str_Some:
  "find_str s p = Some i \<Longrightarrow> i + length p \<le> length s \<and> starts_with (drop i s) p"
proof (induction s p arbitrary: i rule: find_str.induct)
  case (2 c s p)
  show ?case
  proof (cases "starts_with (c # s) p")
    case True
    with 2 have "i = 0" by simp
    with True show ?thesis by (metis add_0 drop0 prefix_length_le starts_with_prefix)
  next
    case False
    with "2.prems" obtain j where "find_str s p = Some j" "i = Suc j" by auto
    with "2.IH" [OF False] show ?thesis by simp
  qed
qed (auto split: if_splits)

lemma find_str_None: "find_str s p = None \<longleftrightarrow> \<not> contains_sub s p"
  by (induction s p rule: find_str.induct) auto

lemma find_str_first: "find_str s p = Some i \<Longrightarrow> j < i \<Longrightarrow> \<not> starts_with (drop j s) p"
proof (induction s p arbitrary: i j rule: find_str.induct)
  case (2 c s p)
  then show ?case by (cases j) (auto split: if_splits)
qed (auto split: if_splits)

lemma rfind_str_Some:
  "rfind_str s p = Some i \<Longrightarrow> i + length p \<le> length s \<and> starts_with (drop i s) p"
proof (induction s p arbitrary: i rule: rfind_str.induct)
  case (2 c s p)
  then show ?case
    by (cases "rfind_str s p") (auto simp: starts_with_prefix dest: prefix_length_le split: if_splits)
qed (auto split: if_splits)

lemma contains_sub_iff: "contains_sub s p \<longleftrightarrow> (\<exists>u v. s = u @ p @ v)"
proof (induction s)
  case (Cons c s)
  have "(\<exists>u v. c # s = u @ p @ v) \<longleftrightarrow> starts_with (c # s) p \<or> (\<exists>u v. s = u @ p @ v)"
    by (auto simp: starts_with_iff Cons_eq_append_conv)
  with Cons show ?case by simp
qed auto

lemma contains_sub_infix: "contains_sub s p \<Longrightarrow> contains_sub (u @ s @ v) p"
  by (metis contains_sub_iff append.assoc)

text \<open>Two matches of patterns that begin with a byte they do not have inside do not overlap.\<close>

lemma marker_positions:
  assumes "starts_with (drop i s) (a # p)" and "a \<notin> set p" and "i < j" and "j < length s" and "s ! j = a"
  shows "i + length (a # p) \<le> j"
proof (rule ccontr)
  assume "\<not> i + length (a # p) \<le> j"
  then have k: "j - i < length (a # p)" "0 < j - i" using assms(3) by simp_all
  from assms(1) obtain r where "drop i s = (a # p) @ r" by (auto simp: starts_with_iff)
  then have "((a # p) @ r) ! (j - i) = drop i s ! (j - i)" by simp
  also have "\<dots> = s ! j" using assms(3,4) by simp
  finally have "s ! j = ((a # p) @ r) ! (j - i)" by simp
  also have "\<dots> = (a # p) ! (j - i)" using k by (simp only: nth_append if_True)
  also have "\<dots> = p ! (j - i - 1)" using k by simp
  also have "\<dots> \<in> set p" using k by simp
  finally show False using assms(2,5) by simp
qed

section \<open>Replacing tokens\<close>

lemma replace_str_miss:
  "\<not> starts_with (c # s) (a # p) \<Longrightarrow> replace_str (c # s) (a # p) r = c # replace_str s (a # p) r"
  by (auto simp: replace_str.simps)

lemma replace_str_hit:
  "starts_with (c # s) (a # p) \<Longrightarrow> replace_str (c # s) (a # p) r = r @ replace_str (drop (length p) s) (a # p) r"
  by (simp add: replace_str.simps)

lemma replace_str_keeps_start:
  "starts_with (replace_str s (a # p) (a # r)) u \<Longrightarrow> a \<notin> set u \<Longrightarrow> starts_with s u"
proof (induction s arbitrary: u)
  case (Cons c s)
  show ?case
  proof (cases u)
    case u: (Cons b v)
    show ?thesis
    proof (cases "starts_with (c # s) (a # p)")
      case True
      with Cons.prems u show ?thesis by (simp only: replace_str_hit) simp
    next
      case False
      from Cons.prems(1) have "starts_with (c # replace_str s (a # p) (a # r)) (b # v)"
        unfolding u replace_str_miss [OF False] .
      with Cons.IH [of v] Cons.prems(2) u show ?thesis by simp
    qed
  qed simp
qed simp

lemma contains_sub_skip: "q \<noteq> [] \<Longrightarrow> hd q \<notin> set u \<Longrightarrow> contains_sub (u @ x) q \<Longrightarrow> contains_sub x q"
  by (induction u) (auto dest: starts_with_hd)

lemma contains_sub_drop: "contains_sub (drop n s) q \<Longrightarrow> contains_sub s q"
  using contains_sub_infix [of "drop n s" q "take n s" "[]"] by simp

text \<open>A token that is replaced is gone, and no other token that begins alike comes to be.\<close>

lemma replace_str_token:
  assumes q: "q = a # y # q'" "a \<notin> set (y # q')" "y \<noteq> z" and r: "r = a # z # r'" "a \<notin> set (z # r')"
  shows "contains_sub (replace_str s (a # p) r) q \<Longrightarrow> contains_sub s q \<and> q \<noteq> a # p"
proof (induction "length s" arbitrary: s rule: less_induct)
  case less
  show ?case
  proof (cases s)
    case (Cons c cs)
    show ?thesis
    proof (cases "starts_with (c # cs) (a # p)")
      case True
      let ?rest = "replace_str (drop (length p) cs) (a # p) r"
      from less.prems have "contains_sub (r @ ?rest) q" unfolding Cons replace_str_hit [OF True] .
      then have "starts_with (r @ ?rest) q \<or> contains_sub ((z # r') @ ?rest) q" by (simp add: r(1))
      moreover have "\<not> starts_with (r @ ?rest) q" using q(1,3) r(1) by simp
      ultimately have "contains_sub ?rest q" using contains_sub_skip [of q "z # r'"] q(1) r(2) by auto
      then have "contains_sub (drop (length p) cs) q \<and> q \<noteq> a # p" using less.hyps [of "drop (length p) cs"] Cons by simp
      then show ?thesis using contains_sub_drop [of "length p" cs q] Cons by simp
    next
      case False
      from less.prems have "starts_with (c # replace_str cs (a # p) r) q \<or> contains_sub (replace_str cs (a # p) r) q"
        unfolding Cons replace_str_miss [OF False] by simp
      then show ?thesis
      proof
        assume "starts_with (c # replace_str cs (a # p) r) q"
        then have "c = a" "starts_with (replace_str cs (a # p) (a # z # r')) (y # q')" using q(1) r(1) by auto
        then have "starts_with (c # cs) q" using replace_str_keeps_start q(1,2) by fastforce
        with False Cons show ?thesis by auto
      next
        assume "contains_sub (replace_str cs (a # p) r) q"
        with less.hyps [of cs] Cons show ?thesis by auto
      qed
    qed
  qed (use less.prems q in simp)
qed

lemma replace_str_run:
  assumes q: "q \<noteq> []" "a \<notin> set q" and r: "r = a # r'" "set r' \<subseteq> {a}"
  shows "contains_sub (replace_str s (a # p) r) q \<Longrightarrow> contains_sub s q"
proof (induction "length s" arbitrary: s rule: less_induct)
  case less
  show ?case
  proof (cases s)
    case (Cons c cs)
    show ?thesis
    proof (cases "starts_with (c # cs) (a # p)")
      case True
      have "hd q \<notin> set r" using q r by (auto simp: hd_in_set)
      with less.prems have "contains_sub (replace_str (drop (length p) cs) (a # p) r) q"
        unfolding Cons replace_str_hit [OF True] using contains_sub_skip [OF q(1)] by blast
      then have "contains_sub (drop (length p) cs) q" using less.hyps [of "drop (length p) cs"] Cons by simp
      then show ?thesis using contains_sub_drop [of "length p" cs q] Cons by simp
    next
      case False
      from less.prems have "starts_with (replace_str (c # cs) (a # p) r) q \<or> contains_sub (replace_str cs (a # p) r) q"
        unfolding Cons replace_str_miss [OF False] by simp
      then show ?thesis
        using replace_str_keeps_start [of "c # cs" a p r' q] q(2) r(1) less.hyps [of cs] Cons by auto
    qed
  qed (use less.prems q in simp)
qed

section \<open>The query of a user message\<close>

definition SYSTEM_TAGS :: "string list" where
  "SYSTEM_TAGS = [''user_info'', ''project_layout'', ''git_status'', ''fork-context'', ''system-reminder'', ''agent-memory'',
     ''system_reminder'', ''background_context'', ''command-name'', ''command-message'', ''command-args'', ''rules'']"

abbreviation lt :: char where "lt \<equiv> CHR ''<''"

definition open_tag :: "string \<Rightarrow> string" where
  "open_tag tag = lt # tag @ ''>''"

definition close_tag :: "string \<Rightarrow> string" where
  "close_tag tag = lt # CHR ''/'' # tag @ ''>''"

function strip_tag :: "string \<Rightarrow> string \<Rightarrow> string" where
  "strip_tag tag s =
     (case find_str s (open_tag tag) of
        None \<Rightarrow> s
      | Some start \<Rightarrow>
          (case find_str (drop start s) (close_tag tag) of
             Some rel_end \<Rightarrow> strip_tag tag (take start s @ drop (start + rel_end + length (close_tag tag)) s)
           | None \<Rightarrow> s))"
  by pat_completeness auto
termination
proof (relation "measure (\<lambda>(tag, s). length s)")
  fix tag s :: string and start rel
  assume "find_str s (open_tag tag) = Some start" and "find_str (drop start s) (close_tag tag) = Some rel"
  then have "rel + length (close_tag tag) \<le> length s - start" "start \<le> length s"
    using find_str_Some [of s "open_tag tag"] find_str_Some [of "drop start s" "close_tag tag"] by auto
  then show "((tag, take start s @ drop (start + rel + length (close_tag tag)) s), tag, s) \<in> measure (\<lambda>(tag, s). length s)"
    by (simp add: close_tag_def)
qed simp

declare strip_tag.simps [simp del]

definition strip_system_tags :: "string \<Rightarrow> string" where
  "strip_system_tags s = trim (fold strip_tag SYSTEM_TAGS s)"

definition extract_user_query :: "string \<Rightarrow> string" where
  "extract_user_query s =
     (let stripped = strip_system_tags s in
      case find_str stripped ''<user_query>'' of
        None \<Rightarrow> stripped
      | Some start \<Rightarrow>
          (let content_start = start + length ''<user_query>'' in
           case find_str (drop content_start stripped) ''</user_query>'' of
             None \<Rightarrow> stripped
           | Some e \<Rightarrow> trim (take e (drop content_start stripped))))"

definition wrap_user_query :: "string \<Rightarrow> string" where
  "wrap_user_query s = ''<user_query>'' @ [newline] @ s @ [newline] @ ''</user_query>''"

definition AUTO_CONTINUE_PROMPT :: string where
  "AUTO_CONTINUE_PROMPT = ''Continue the conversation from where it left off without asking the user any further questions. Resume directly - do not acknowledge the summary, do not recap what was happening, do not preface with '' @ [dquote] @ ''I'' @ [squote] @ ''ll continue'' @ [dquote] @ '' or similar.'' @ [newline] @ ''Pick up the last task as if the break never happened.''"

definition is_synthetic_extracted_query :: "string \<Rightarrow> bool" where
  "is_synthetic_extracted_query s \<longleftrightarrow> s = [] \<or> s = ''__auto_continue__'' \<or> s = AUTO_CONTINUE_PROMPT"

section \<open>The summary\<close>

text \<open>Leading scratchpad blocks are peeled off; an unclosed one ends at the summary.\<close>

definition is_leading :: "string \<Rightarrow> nat \<Rightarrow> bool option" where
  "is_leading s start =
     (case find_str s ''<summary>'' of
        Some sp \<Rightarrow>
          if start < sp then Some True
          else map_option (\<lambda>between. trim between = []) (str_slice (sp + length ''<summary>'') start s)
      | None \<Rightarrow> Some (trim (take start s) = []))"

function peel_analysis :: "string \<Rightarrow> string option" where
  "peel_analysis s =
     (case find_str s ''<analysis>'' of
        None \<Rightarrow> Some s
      | Some start \<Rightarrow>
          (case is_leading s start of
             None \<Rightarrow> None
           | Some leading \<Rightarrow>
               if \<not> leading then Some s
               else
                 (case find_str (drop start s) ''</analysis>'' of
                    Some rel \<Rightarrow> peel_analysis (take start s @ drop (start + rel + length ''</analysis>'') s)
                  | None \<Rightarrow>
                      Some (take start s @ drop (case find_str (drop start s) ''<summary>'' of
                          None \<Rightarrow> length s
                        | Some rel \<Rightarrow> start + rel) s))))"
  by pat_completeness auto
termination
proof (relation "measure length")
  fix s :: string and start rel
  assume "find_str s ''<analysis>'' = Some start" and "find_str (drop start s) ''</analysis>'' = Some rel"
  then have "rel + length ''</analysis>'' \<le> length s - start" "start \<le> length s"
    using find_str_Some [of s "''<analysis>''"] find_str_Some [of "drop start s" "''</analysis>''"] by auto
  then show "(take start s @ drop (start + rel + length ''</analysis>'') s, s) \<in> measure length" by simp
qed simp

declare peel_analysis.simps [simp del]

definition strip_leading_scratchpad :: "string \<Rightarrow> string" where
  "strip_leading_scratchpad inner =
     (let s = trim inner;
          lead = dropWhile (\<lambda>c. c \<in> {CHR ''#'', CHR ''*'', CHR ''-'', CHR ''>'', CHR '' '', CHR 0x09}) s;
          s = (if \<not> (lead \<noteq> [] \<and> is_ascii_digit (hd lead)) then
                 (case rfind_str s ''</analysis>'' of
                    Some pos \<Rightarrow> trim_start (drop (pos + length ''</analysis>'') s)
                  | None \<Rightarrow> s)
               else s) in
      case strip_prefix ''<summary>'' s of Some rest \<Rightarrow> trim_start rest | None \<Rightarrow> s)"

abbreviation zero_width_space :: string where
  "zero_width_space \<equiv> [CHR 0xE2, CHR 0x80, CHR 0x8B]"

definition neutralize_tag :: "string \<Rightarrow> string \<Rightarrow> string" where
  "neutralize_tag tag s =
     replace_str (replace_str s (close_tag tag) (lt # zero_width_space @ ''/'' @ tag @ ''>''))
       (open_tag tag) (lt # zero_width_space @ tag @ ''>'')"

definition neutralize_compaction_control_tokens :: "string \<Rightarrow> string" where
  "neutralize_compaction_control_tokens s = fold neutralize_tag [''summary'', ''analysis'', ''summary_request''] s"

definition take_summary :: "string \<Rightarrow> string option" where
  "take_summary s =
     (case (find_str s ''<summary>'', rfind_str s ''</summary>'') of
        (Some start, Some e) \<Rightarrow>
          if e > start then
            map_option (\<lambda>inner. take start s @ ''Summary:'' @ [newline] @ strip_leading_scratchpad (trim inner)
                @ drop (e + length ''</summary>'') s)
              (str_slice (start + length ''<summary>'') e s)
          else Some s
      | _ \<Rightarrow> Some s)"

text \<open>\<open>while result.contains(..) { result = result.replace(..) }\<close>: three line ends become two.\<close>

lemma length_replace_str: "length r \<le> length p \<Longrightarrow> length (replace_str s p r) \<le> length s"
proof (induction s p r rule: replace_str.induct)
  case (2 c s p r)
  show ?case
  proof (cases "p \<noteq> [] \<and> starts_with (c # s) p")
    case True
    then have "length p \<le> length (c # s)" by (metis prefix_length_le starts_with_prefix)
    with 2 True show ?thesis by (simp add: replace_str.simps)
  next
    case False
    with 2 show ?thesis by (auto simp: replace_str.simps)
  qed
qed simp

lemma length_replace_str_less:
  "contains_sub s p \<Longrightarrow> p \<noteq> [] \<Longrightarrow> length r < length p \<Longrightarrow> length (replace_str s p r) < length s"
proof (induction s p r rule: replace_str.induct)
  case (2 c s p r)
  show ?case
  proof (cases "starts_with (c # s) p")
    case True
    then have len: "length p \<le> length (c # s)" by (metis prefix_length_le starts_with_prefix)
    have "length (replace_str (drop (length p) (c # s)) p r) \<le> length (drop (length p) (c # s))"
      using 2(5) by (intro length_replace_str) simp
    with 2(4,5) True len show ?thesis by (simp add: replace_str.simps)
  next
    case False
    with 2 show ?thesis by (auto simp: replace_str.simps)
  qed
qed simp

function collapse_blank_lines :: "string \<Rightarrow> string" where
  "collapse_blank_lines s =
     (if contains_sub s [newline, newline, newline]
      then collapse_blank_lines (replace_str s [newline, newline, newline] [newline, newline]) else s)"
  by pat_completeness auto
termination by (relation "measure length") (auto intro: length_replace_str_less)

declare collapse_blank_lines.simps [simp del]

definition format_compact_summary :: "string \<Rightarrow> string option" where
  "format_compact_summary summary =
     (case peel_analysis summary of
        None \<Rightarrow> None
      | Some s \<Rightarrow>
          map_option (\<lambda>s. trim (collapse_blank_lines (neutralize_compaction_control_tokens s))) (take_summary s))"

definition format_compact_summary_content :: "string \<Rightarrow> string option" where
  "format_compact_summary_content raw_summary =
     map_option (\<lambda>cleaned. ''This session is being continued from a previous conversation that ran out of context. The summary below covers the earlier portion of the conversation.''
         @ [newline, newline] @ cleaned) (format_compact_summary raw_summary)"

section \<open>Cleaning always ends with a text\<close>

lemma markers_apart:
  assumes "starts_with (drop i s) (a # p)" and "starts_with (drop j s) (a # q)" and "a \<notin> set p"
    and "i \<le> j" and "\<not> starts_with (a # p) (a # q)" and "\<not> starts_with (a # q) (a # p)"
  shows "i + length (a # p) \<le> j" and "j \<le> length s"
proof -
  from assms(2) obtain r where r: "drop j s = (a # q) @ r" by (auto simp: starts_with_iff)
  then have j: "j < length s" by (metis Cons_eq_appendI drop_all list.discI not_le)
  with r have "s ! j = a" by (metis Cons_eq_appendI Cons_nth_drop_Suc list.inject)
  moreover have "i \<noteq> j"
  proof
    assume "i = j"
    then have "prefix (a # p) (drop j s)" "prefix (a # q) (drop j s)" using assms(1,2) by (simp_all add: starts_with_prefix)
    then have "prefix (a # p) (a # q) \<or> prefix (a # q) (a # p)" by (rule prefix_same_cases)
    with assms(5,6) show False unfolding starts_with_prefix by blast
  qed
  ultimately show "i + length (a # p) \<le> j" "j \<le> length s"
    using marker_positions [OF assms(1,3)] assms(4) j by simp_all
qed

lemma is_leading_defined:
  assumes "find_str s ''<analysis>'' = Some start"
  shows "is_leading s start \<noteq> None"
proof (cases "find_str s ''<summary>''")
  case (Some sp)
  have "starts_with (drop sp s) ''<summary>''" "starts_with (drop start s) ''<analysis>''"
    using find_str_Some [OF Some] find_str_Some [OF assms] by simp_all
  then have "sp \<le> start \<Longrightarrow> sp + length ''<summary>'' \<le> start" "sp \<le> start \<Longrightarrow> start \<le> length s"
    using markers_apart [of sp s lt "''summary>''" start "''analysis>''"] by simp_all
  with Some show ?thesis by (auto simp: is_leading_def str_slice_def)
qed (simp add: is_leading_def)

lemma peel_analysis_defined: "peel_analysis s \<noteq> None"
proof (induction s rule: peel_analysis.induct)
  case (1 s)
  show ?case
  proof (cases "find_str s ''<analysis>''")
    case None
    then show ?thesis by (simp add: peel_analysis.simps)
  next
    case (Some start)
    then obtain leading where l: "is_leading s start = Some leading" using is_leading_defined by blast
    with Some 1 show ?thesis
      by (cases leading; cases "find_str (drop start s) ''</analysis>''") (simp_all add: peel_analysis.simps [of s])
  qed
qed

lemma take_summary_defined: "take_summary s \<noteq> None"
proof (cases "find_str s ''<summary>''")
  case (Some start)
  show ?thesis
  proof (cases "rfind_str s ''</summary>''")
    case e: (Some e)
    have "starts_with (drop start s) ''<summary>''" "starts_with (drop e s) ''</summary>''"
      using find_str_Some [OF Some] rfind_str_Some [OF e] by simp_all
    then have "start < e \<Longrightarrow> start + length ''<summary>'' \<le> e" "start < e \<Longrightarrow> e \<le> length s"
      using markers_apart [of start s lt "''summary>''" e "''/summary>''"] by simp_all
    with Some e show ?thesis by (auto simp: take_summary_def str_slice_def)
  qed (simp add: take_summary_def Some)
qed (simp add: take_summary_def)

lemma summary_defined: "\<exists>cleaned. format_compact_summary raw = Some cleaned"
  using peel_analysis_defined [of raw] take_summary_defined by (fastforce simp: format_compact_summary_def)

section \<open>What is left carries no control token\<close>

lemma trim_infix: "\<exists>u v. s = u @ trim s @ v"
proof -
  obtain u where u: "s = u @ trim_start s" using strip_all_suffix [of s whitespace_encodings] by (auto simp: trim_start_def)
  obtain v where "rev (trim_start s) = v @ strip_all (map rev whitespace_encodings) (rev (trim_start s))"
    using strip_all_suffix by blast
  then have "trim_start s = trim s @ rev v" by (metis rev_append rev_rev_ident trim_def trim_end_def)
  with u show ?thesis by metis
qed

lemma contains_sub_trim: "contains_sub (trim s) q \<Longrightarrow> contains_sub s q"
  using trim_infix [of s] contains_sub_infix by metis

lemma contains_sub_collapse:
  "q \<noteq> [] \<Longrightarrow> newline \<notin> set q \<Longrightarrow> contains_sub (collapse_blank_lines s) q \<Longrightarrow> contains_sub s q"
proof (induction s rule: collapse_blank_lines.induct)
  case (1 s)
  show ?case
  proof (cases "contains_sub s [newline, newline, newline]")
    case True
    with "1.prems"(3) have "contains_sub (collapse_blank_lines (replace_str s [newline, newline, newline] [newline, newline])) q"
      by (simp add: collapse_blank_lines.simps [of s])
    with 1 True have "contains_sub (replace_str s [newline, newline, newline] [newline, newline]) q" by blast
    then show ?thesis using replace_str_run [OF "1.prems"(1,2), of "[newline, newline]" "[newline]"] by simp
  next
    case False
    with "1.prems"(3) show ?thesis by (simp add: collapse_blank_lines.simps [of s])
  qed
qed

definition control_tokens :: "string list" where
  "control_tokens = [''<summary>'', ''</summary>'', ''<analysis>'', ''</analysis>'', ''<summary_request>'', ''</summary_request>'']"

lemma control_tokens_shape:
  "list_all (\<lambda>x. x = lt # tl x \<and> tl x = hd (tl x) # tl (tl x) \<and> lt \<notin> set (tl x) \<and> hd (tl x) \<noteq> CHR 0xE2) control_tokens"
  by (simp add: control_tokens_def)

lemma token_replaced:
  assumes "q \<in> set control_tokens" and "p \<in> set control_tokens" and "lt \<notin> set r"
    and "contains_sub (replace_str s p (lt # CHR 0xE2 # r)) q"
  shows "contains_sub s q \<and> q \<noteq> p"
proof -
  have q: "q = lt # hd (tl q) # tl (tl q)" "lt \<notin> set (hd (tl q) # tl (tl q))" "hd (tl q) \<noteq> CHR 0xE2"
    using control_tokens_shape assms(1) by (fastforce simp: list_all_iff)+
  have p: "p = lt # tl p" using control_tokens_shape assms(2) by (simp add: list_all_iff)
  have r: "lt \<notin> set (CHR 0xE2 # r)" using assms(3) by simp
  have "contains_sub (replace_str s (lt # tl p) (lt # CHR 0xE2 # r)) q" unfolding p [symmetric] by (rule assms(4))
  from replace_str_token [OF q refl r this] show ?thesis unfolding p [symmetric] .
qed

lemma neutralized:
  assumes "q \<in> set control_tokens"
  shows "\<not> contains_sub (neutralize_compaction_control_tokens s) q"
proof
  assume c: "contains_sub (neutralize_compaction_control_tokens s) q"
  have step: "contains_sub s q \<and> q \<noteq> close_tag tag \<and> q \<noteq> open_tag tag"
    if "contains_sub (neutralize_tag tag s) q" and "tag \<in> {''summary'', ''analysis'', ''summary_request''}" for tag s
  proof -
    have t: "open_tag tag \<in> set control_tokens" "close_tag tag \<in> set control_tokens" "lt \<notin> set tag"
      using that(2) by (auto simp: control_tokens_def open_tag_def close_tag_def)
    from that(1) t token_replaced [OF assms t(1), of "[CHR 0x80, CHR 0x8B] @ tag @ ''>''"]
    have "contains_sub (replace_str s (close_tag tag) (lt # zero_width_space @ ''/'' @ tag @ ''>'')) q" "q \<noteq> open_tag tag"
      by (simp_all add: neutralize_tag_def)
    with t token_replaced [OF assms t(2), of "[CHR 0x80, CHR 0x8B] @ ''/'' @ tag @ ''>''"] show ?thesis by simp
  qed
  from c have c3: "contains_sub (neutralize_tag ''summary_request'' (neutralize_tag ''analysis'' (neutralize_tag ''summary'' s))) q"
    by (simp add: neutralize_compaction_control_tokens_def)
  note s3 = step [OF c3, simplified]
  note s2 = step [OF s3 [THEN conjunct1], simplified]
  note s1 = step [OF s2 [THEN conjunct1], simplified]
  from s1 s2 s3 have "q \<noteq> close_tag ''summary_request'' \<and> q \<noteq> open_tag ''summary_request'' \<and>
      q \<noteq> close_tag ''analysis'' \<and> q \<noteq> open_tag ''analysis'' \<and> q \<noteq> close_tag ''summary'' \<and> q \<noteq> open_tag ''summary''"
    by simp
  with assms show False by (auto simp: control_tokens_def open_tag_def close_tag_def)
qed

text \<open>
  C17: Whatever the model wrote, cleaning its summary does not panic, and what comes out has no tag that a later turn could take
  for the start or the end of a summary, of a scratchpad or of a request for one.
\<close>

theorem summary_is_inert:
  "\<exists>cleaned. format_compact_summary raw = Some cleaned \<and>
     \<not> contains_sub cleaned ''<summary>'' \<and> \<not> contains_sub cleaned ''</summary>'' \<and>
     \<not> contains_sub cleaned ''<analysis>'' \<and> \<not> contains_sub cleaned ''</analysis>'' \<and>
     \<not> contains_sub cleaned ''<summary_request>'' \<and> \<not> contains_sub cleaned ''</summary_request>'' \<and>
     \<not> contains_sub cleaned [newline, newline, newline]"
proof -
  obtain s t where s: "peel_analysis raw = Some s" "take_summary s = Some t"
    using peel_analysis_defined [of raw] take_summary_defined by fastforce
  let ?c = "collapse_blank_lines (neutralize_compaction_control_tokens t)"
  have f: "format_compact_summary raw = Some (trim ?c)" using s by (simp add: format_compact_summary_def)
  have "\<not> contains_sub (trim ?c) q" if "q \<in> set control_tokens" for q
  proof -
    have "q \<noteq> []" "newline \<notin> set q" using that by (auto simp: control_tokens_def)
    then show ?thesis using contains_sub_trim contains_sub_collapse neutralized [OF that] by blast
  qed
  moreover have "\<not> contains_sub (collapse_blank_lines x) [newline, newline, newline]" for x
    by (induction x rule: collapse_blank_lines.induct) (subst collapse_blank_lines.simps, simp)
  then have "\<not> contains_sub (trim ?c) [newline, newline, newline]" using contains_sub_trim by blast
  ultimately show ?thesis using f by (simp add: control_tokens_def)
qed

section \<open>A wrapped query comes back\<close>

lemma find_str_skip:
  "q \<noteq> [] \<Longrightarrow> hd q \<notin> set u \<Longrightarrow> find_str (u @ x) q = map_option (\<lambda>i. length u + i) (find_str x q)"
  by (induction u) (cases "find_str x q"; auto dest: starts_with_hd)+

lemma find_str_absent: "q \<noteq> [] \<Longrightarrow> hd q \<notin> set u \<Longrightarrow> find_str u q = None"
  using find_str_skip [of q u "[]"] by simp

lemma wrap_shape:
  "wrap_user_query t = lt # (''user_query>'' @ [newline] @ t @ [newline]) @ lt # ''/user_query>''"
  by (simp add: wrap_user_query_def)

lemma wrapped_untouched:
  assumes "lt \<notin> set t"
  shows "strip_system_tags (wrap_user_query t) = wrap_user_query t"
proof -
  let ?mid = "''user_query>'' @ [newline] @ t @ [newline]"
  have "find_str (wrap_user_query t) (open_tag tag) = None" if "tag \<in> set SYSTEM_TAGS" for tag
  proof -
    have "\<not> starts_with (wrap_user_query t) (open_tag tag)" "\<not> starts_with (lt # ''/user_query>'') (open_tag tag)"
      using that by (auto simp: SYSTEM_TAGS_def open_tag_def wrap_shape)
    moreover have "find_str (?mid @ lt # ''/user_query>'') (open_tag tag)
        = map_option (\<lambda>i. length ?mid + i) (find_str (lt # ''/user_query>'') (open_tag tag))"
      using assms by (intro find_str_skip) (simp_all add: open_tag_def)
    moreover have "find_str ''/user_query>'' (open_tag tag) = None"
      by (rule find_str_absent) (simp_all add: open_tag_def)
    ultimately show ?thesis
      unfolding wrap_shape by (simp only: find_str.simps if_False option.map)
  qed
  then have "strip_tag tag (wrap_user_query t) = wrap_user_query t" if "tag \<in> set SYSTEM_TAGS" for tag
    using that by (simp add: strip_tag.simps)
  then have "fold strip_tag tags (wrap_user_query t) = wrap_user_query t" if "set tags \<subseteq> set SYSTEM_TAGS" for tags
    using that by (induction tags) auto
  then show ?thesis
    unfolding strip_system_tags_def by (simp add: trim_plain wrap_user_query_def plain_byte_def byte_between_def)
qed

lemma strip_first_before_newline:
  assumes "t \<noteq> []" and "\<forall>p \<in> set ps. p \<noteq> [] \<and> (p = [a] \<or> a \<notin> set p)"
  shows "strip_first ps (t @ [a]) = map_option (\<lambda>r. r @ [a]) (strip_first ps t)"
  using assms(2)
proof (induction ps)
  case (Cons p ps)
  have "strip_prefix p (t @ [a]) = map_option (\<lambda>r. r @ [a]) (strip_prefix p t)"
  proof (cases "strip_prefix p t")
    case None
    have "\<not> prefix p (t @ [a])"
    proof
      assume "prefix p (t @ [a])"
      moreover have "\<not> prefix p t" using None by (simp add: strip_prefix_None starts_with_prefix)
      ultimately have "p = t @ [a]" by (simp add: prefix_snoc)
      with Cons.prems assms(1) show False by auto
    qed
    then have "strip_prefix p (t @ [a]) = None" by (simp add: strip_prefix_None starts_with_prefix)
    with None show ?thesis by simp
  next
    case (Some r)
    then show ?thesis by (simp add: strip_prefix_Some)
  qed
  with Cons show ?case by (auto split: option.splits)
qed simp

lemma whitespace_newline: "list_all (\<lambda>p. p \<noteq> [] \<and> (p = [newline] \<or> newline \<notin> set p)) whitespace_encodings"
  by (simp add: whitespace_encodings_def)

lemma trim_end_newline: "trim_end (s @ [newline]) = trim_end s"
  by (simp add: trim_end_def strip_all.simps [of _ "newline # rev s"] whitespace_encodings_def)

lemma trim_start_newline: "trim_start (newline # s) = trim_start s"
  by (simp add: trim_start_def strip_all.simps [of _ "newline # s"] whitespace_encodings_def)

lemma trim_start_snoc: "trim_start (t @ [newline]) = (if trim_start t = [] then [] else trim_start t @ [newline])"
proof -
  let ?w = whitespace_encodings
  have w: "\<forall>p \<in> set ?w. p \<noteq> [] \<and> (p = [newline] \<or> newline \<notin> set p)" using whitespace_newline by (simp add: list_all_iff)
  then have ne: "[] \<notin> set ?w" by blast
  have nil: "strip_all ?w [] = []" by (simp add: strip_all.simps whitespace_encodings_def)
  have "strip_all ?w (t @ [newline]) = (if strip_all ?w t = [] then [] else strip_all ?w t @ [newline])"
  proof (induction "length t" arbitrary: t rule: less_induct)
    case less
    show ?case
    proof (cases "t = []")
      case True
      then show ?thesis using trim_start_newline [of "[]"] nil by (simp add: trim_start_def)
    next
      case False
      note first = strip_first_before_newline [OF False w]
      show ?thesis
      proof (cases "strip_first ?w t")
        case None
        with first False ne show ?thesis by (simp add: strip_all.simps [of ?w])
      next
        case (Some r)
        then have "length r < length t" by (rule strip_first_shorter [OF _ ne])
        with less [of r] Some first ne show ?thesis by (simp add: strip_all.simps [of ?w t] strip_all.simps [of ?w "t @ [newline]"])
      qed
    qed
  qed
  then show ?thesis by (simp add: trim_start_def)
qed

lemma trim_newlines: "trim (newline # t @ [newline]) = trim t"
  unfolding trim_def trim_start_newline trim_start_snoc by (simp add: trim_end_newline)

text \<open>
  A query that was wrapped is extracted again, up to the white space around it.\<close>

theorem wrapped_query_roundtrip:
  assumes "CHR ''<'' \<notin> set t"
  shows "extract_user_query (wrap_user_query t) = trim t"
proof -
  have "drop (length ''<user_query>'') (wrap_user_query t) = (newline # t @ [newline]) @ ''</user_query>''"
    by (simp add: wrap_user_query_def)
  moreover have "find_str ((newline # t @ [newline]) @ ''</user_query>'') ''</user_query>'' = Some (length (newline # t @ [newline]))"
    using assms by (subst find_str_skip) simp_all
  moreover have "find_str (wrap_user_query t) ''<user_query>'' = Some 0" by (simp add: wrap_user_query_def)
  ultimately show ?thesis
    using trim_newlines [of t] by (simp add: extract_user_query_def wrapped_untouched [OF assms] Let_def)
qed

theorem wrapped_query_roundtrip_witness:
  "extract_user_query (wrap_user_query '' fix it '') = trim '' fix it ''"
  by (rule wrapped_query_roundtrip) simp

end
