(* ===== verification/Compaction.thy ===== *)
theory Compaction
  imports Turn_Selection Summary_Text
begin

text \<open>
  What compaction makes of a conversation (\<open>crates/codegen/xai-chat-state/src/compaction_utils.rs\<close>): the views that a summarizer
  gets, the fit of a view to a token budget and the history that replaces the old one. The point is that none of
  this takes a call from its results. Token counts are the estimates of \<open>actor/state.rs\<close>; an estimate is \<open>None\<close>
  when the preview of a server-side program slices inside a character and panics.
\<close>

section \<open>Token estimates\<close>

definition estimate_tokens :: "string \<Rightarrow> nat" where
  "estimate_tokens s = length s div 4"

definition estimate_image_tokens :: "nat \<Rightarrow> nat" where
  "estimate_image_tokens image_count = min (image_count * 765) u64_max"

fun is_image :: "ContentPart \<Rightarrow> bool" where
  "is_image (ImagePart u) = True"
| "is_image (TextPart t) = False"

fun estimate_item_tokens :: "ConversationItem \<Rightarrow> nat option" where
  "estimate_item_tokens (System s) = Some (estimate_tokens s)"
| "estimate_item_tokens (User u) =
     Some (sum_list (map length (List.map_filter part_text (ui_content u))) div 4
       + estimate_image_tokens (length (filter is_image (ui_content u))))"
| "estimate_item_tokens (Assistant a) =
     Some ((length (ai_content a) + sum_list (map (\<lambda>tc. length (tc_arguments tc)) (ai_tool_calls a))) div 4)"
| "estimate_item_tokens (ToolResult t) = Some (estimate_tokens (tr_content t))"
| "estimate_item_tokens (BackendToolCall b) = map_option estimate_tokens (text_summary b)"
| "estimate_item_tokens (Reasoning r) =
     Some (max (length (reasoning_item_text r))
         (case ri_encrypted r of None \<Rightarrow> 0 | Some e \<Rightarrow> length e * 3 div 4) div 4)"

text \<open>The estimates of a list; summing them panics when one of them does.\<close>

fun estimate_items :: "ConversationItem list \<Rightarrow> nat list option" where
  "estimate_items [] = Some []"
| "estimate_items (x # xs) =
     (case estimate_item_tokens x of
        None \<Rightarrow> None
      | Some n \<Rightarrow> map_option (\<lambda>ns. n # ns) (estimate_items xs))"

definition estimate_conversation_tokens :: "ConversationItem list \<Rightarrow> nat option" where
  "estimate_conversation_tokens items = map_option sum_list (estimate_items items)"

text \<open>The counter of the shared engine: the estimate, cut off at \<open>u32::MAX\<close>.\<close>

definition count_item_tokens :: "ConversationItem \<Rightarrow> nat option" where
  "count_item_tokens item = map_option (\<lambda>n. min n u32_max) (estimate_item_tokens item)"

lemma estimate_items_Some:
  "estimate_items xs = Some ns \<Longrightarrow> length ns = length xs \<and> (\<forall>i < length xs. estimate_item_tokens (xs ! i) = Some (ns ! i))"
proof (induction xs arbitrary: ns)
  case (Cons x xs)
  then obtain n ms where "estimate_item_tokens x = Some n" "estimate_items xs = Some ms" "ns = n # ms"
    by (auto split: option.splits)
  with Cons.IH show ?case by (auto simp: nth_Cons split: nat.splits)
qed simp

lemma estimate_items_drop: "estimate_items xs = Some ns \<Longrightarrow> estimate_items (drop k xs) = Some (drop k ns)"
proof (induction xs arbitrary: ns k)
  case (Cons x xs)
  then show ?case by (cases k) (auto split: option.splits)
qed simp

section \<open>Views for a summarizer\<close>

definition AGENT_MESSAGE_MODEL_LABEL :: string where
  "AGENT_MESSAGE_MODEL_LABEL = ''[Message authored by another agent; not a human request or approval.]''"

fun is_agent_message :: "ConversationItem \<Rightarrow> bool" where
  "is_agent_message (User u) \<longleftrightarrow> ui_synthetic_reason u = Some AgentMessageReason"
| "is_agent_message _ \<longleftrightarrow> False"

fun label_agent_message :: "ConversationItem \<Rightarrow> ConversationItem" where
  "label_agent_message (User u) =
     (if ui_synthetic_reason u = Some AgentMessageReason
      then User (u\<lparr>ui_content := TextPart AGENT_MESSAGE_MODEL_LABEL # ui_content u\<rparr>) else User u)"
| "label_agent_message item = item"

definition model_request_history :: "ConversationItem list \<Rightarrow> ConversationItem list" where
  "model_request_history conversation = map label_agent_message conversation"

fun strip_tool_message :: "ConversationItem \<Rightarrow> ConversationItem option" where
  "strip_tool_message (ToolResult t) = None"
| "strip_tool_message (BackendToolCall b) = None"
| "strip_tool_message (Assistant a) =
     Some (Assistant (if ai_tool_calls a \<noteq> []
       then a\<lparr>ai_content := ai_content a @ newline # ''[Called tools: ''
           @ join '', '' (map tc_name (ai_tool_calls a)) @ '']'', ai_tool_calls := []\<rparr>
       else a))"
| "strip_tool_message item = Some item"

definition strip_tool_messages_for_conversation_item :: "ConversationItem list \<Rightarrow> ConversationItem list" where
  "strip_tool_messages_for_conversation_item conversation = List.map_filter strip_tool_message conversation"

fun is_reasoning :: "ConversationItem \<Rightarrow> bool" where
  "is_reasoning (Reasoning r) = True"
| "is_reasoning _ = False"

definition strip_reasoning_blocks :: "ConversationItem list \<Rightarrow> ConversationItem list" where
  "strip_reasoning_blocks conversation = filter (\<lambda>x. \<not> is_reasoning x) conversation"

fun strip_item_images :: "ConversationItem \<Rightarrow> ConversationItem" where
  "strip_item_images (User u) =
     User (u\<lparr>ui_content := map (\<lambda>p. if is_image p then TextPart ''[image]'' else p) (ui_content u)\<rparr>)"
| "strip_item_images item = item"

definition strip_images :: "ConversationItem list \<Rightarrow> ConversationItem list" where
  "strip_images conversation = map strip_item_images conversation"

definition prepare_conversation_for_summarization :: "ConversationItem list \<Rightarrow> ConversationItem list" where
  "prepare_conversation_for_summarization conversation =
     strip_images (strip_reasoning_blocks (strip_tool_messages_for_conversation_item conversation))"

definition prepare_conversation_for_segment :: "ConversationItem list \<Rightarrow> ConversationItem list" where
  "prepare_conversation_for_segment conversation = strip_images (strip_reasoning_blocks conversation)"

definition truncate_trailing_incomplete_tool_call :: "ConversationItem list \<Rightarrow> ConversationItem list" where
  "truncate_trailing_incomplete_tool_call conversation = rev (dropWhile (\<lambda>x. call_list x \<noteq> []) (rev conversation))"

definition prepare_conversation_for_verbatim_summarization :: "ConversationItem list \<Rightarrow> bool \<Rightarrow> ConversationItem list" where
  "prepare_conversation_for_verbatim_summarization conversation strip_reasoning =
     truncate_trailing_incomplete_tool_call
       (if strip_reasoning then strip_reasoning_blocks conversation else conversation)"

section \<open>Cutting texts\<close>

fun boundary_at_or_below :: "string \<Rightarrow> nat \<Rightarrow> nat" where
  "boundary_at_or_below s 0 = 0"
| "boundary_at_or_below s (Suc e) = (if is_char_boundary s (Suc e) then Suc e else boundary_at_or_below s e)"

definition truncation_marker :: "nat \<Rightarrow> string" where
  "truncation_marker dropped =
     newline # ''[... truncated '' @ to_decimal dropped @ '' bytes to fit the compaction window ...]''"

definition truncate_text_to_bytes :: "string \<Rightarrow> nat \<Rightarrow> string option" where
  "truncate_text_to_bytes s max_bytes =
     (if length s \<le> max_bytes then None
      else
        (let keep = max_bytes - 64; e = boundary_at_or_below s (min keep (length s)) in
         Some (take e s @ truncation_marker (length s - e))))"

definition clip_text :: "nat \<Rightarrow> string \<Rightarrow> string" where
  "clip_text max_bytes s = (case truncate_text_to_bytes s max_bytes of Some t \<Rightarrow> t | None \<Rightarrow> s)"

fun clip_part :: "nat \<Rightarrow> ContentPart \<Rightarrow> ContentPart" where
  "clip_part max_bytes (TextPart t) = TextPart (clip_text max_bytes t)"
| "clip_part max_bytes (ImagePart u) = ImagePart u"

fun truncate_item_to_tokens :: "ConversationItem \<Rightarrow> nat \<Rightarrow> ConversationItem" where
  "truncate_item_to_tokens (ToolResult t) max_tokens =
     ToolResult (t\<lparr>tr_content := clip_text (min (max_tokens * 4) usize_max) (tr_content t)\<rparr>)"
| "truncate_item_to_tokens (Assistant a) max_tokens =
     Assistant (a\<lparr>ai_content := clip_text (min (max_tokens * 4) usize_max) (ai_content a)\<rparr>)"
| "truncate_item_to_tokens (User u) max_tokens =
     User (u\<lparr>ui_content := map (clip_part (min (max_tokens * 4) usize_max)) (ui_content u)\<rparr>)"
| "truncate_item_to_tokens item max_tokens = item"

section \<open>Fitting a conversation to a budget\<close>

fun fit_walk :: "nat list \<Rightarrow> nat \<Rightarrow> nat \<Rightarrow> nat \<Rightarrow> nat" where
  "fit_walk costs 0 remaining start = start"
| "fit_walk costs (Suc i) remaining start =
     (if costs ! i > remaining then start else fit_walk costs i (remaining - costs ! i) i)"

definition recover_truncated_tail_unit :: "ConversationItem list \<Rightarrow> nat \<Rightarrow> ConversationItem list option" where
  "recover_truncated_tail_unit body budget =
     (let results = rev (takeWhile is_result (rev body));
          body = rev (dropWhile is_result (rev body)) in
      if results = [] then
        Some (if body = [] then [] else [truncate_item_to_tokens (last body) budget])
      else
        (let owner = (if body \<noteq> [] \<and> call_list (last body) \<noteq> [] then [last body] else []) in
         map_option (\<lambda>costs.
             let per = max ((budget - sum_list costs) div length results) 1 in
             owner @ map (\<lambda>r. truncate_item_to_tokens r per) results)
           (estimate_items owner)))"

fun is_system :: "ConversationItem \<Rightarrow> bool" where
  "is_system (System s) = True"
| "is_system _ = False"

definition split_head :: "ConversationItem list \<Rightarrow> ConversationItem list \<times> ConversationItem list" where
  "split_head conversation =
     (case conversation of x # body \<Rightarrow> if is_system x then ([x], body) else ([], conversation) | [] \<Rightarrow> ([], []))"

definition fit_conversation_to_budget :: "ConversationItem list \<Rightarrow> nat \<Rightarrow> ConversationItem list option" where
  "fit_conversation_to_budget conversation max_tokens =
     (case estimate_items conversation of
        None \<Rightarrow> None
      | Some costs \<Rightarrow>
          if sum_list costs \<le> max_tokens then Some conversation
          else
            (let (head, body) = split_head conversation;
                 budget = max_tokens - sum_list (take (length head) costs);
                 body_costs = drop (length head) costs;
                 start = fit_walk body_costs (length body) budget (length body);
                 start = skip_while is_result body start in
             if start < length body then Some (head @ drop start body)
             else map_option (\<lambda>unit. head @ unit) (recover_truncated_tail_unit body budget)))"

lemma fit_walk_sum:
  "i \<le> length costs \<Longrightarrow> remaining + sum_list (drop i costs) = budget \<Longrightarrow>
     fit_walk costs i remaining i \<le> length costs \<and> sum_list (drop (fit_walk costs i remaining i) costs) \<le> budget"
proof (induction i arbitrary: remaining)
  case (Suc i)
  then have "drop i costs = costs ! i # drop (Suc i) costs" by (simp add: Cons_nth_drop_Suc)
  with Suc show ?case by (cases "costs ! i > remaining") simp_all
qed simp

section \<open>Pairs survive\<close>

lemma map_filter_same_ids:
  "(\<And>x. result_id (f x) = result_id x) \<Longrightarrow> List.map_filter result_id (map f ys) = List.map_filter result_id ys"
  by (simp add: List.map_filter_def comp_def filter_map del: result_id_None)

lemma paired_map:
  assumes "\<And>x. is_result (f x) = is_result x" and "\<And>x. result_id (f x) = result_id x" and "\<And>x. call_list (f x) = call_list x"
  shows "paired (map f xs) = paired xs"
proof (induction xs rule: paired.induct)
  case (2 x xs)
  have tw: "takeWhile is_result (map f xs) = map f (takeWhile is_result xs)"
    and dw: "dropWhile is_result (map f xs) = map f (dropWhile is_result xs)"
    by (simp_all add: takeWhile_map dropWhile_map comp_def assms)
  with 2 map_filter_same_ids [OF assms(2)] show ?case by (simp add: paired.simps(2) Let_def assms)
qed simp

lemma truncate_keeps_shape:
  "is_result (truncate_item_to_tokens x n) = is_result x" "result_id (truncate_item_to_tokens x n) = result_id x"
  "call_list (truncate_item_to_tokens x n) = call_list x"
  by (cases x; simp)+

lemma paired_hd: "paired (x # xs) \<Longrightarrow> \<not> is_result x"
  using call_list_not_result paired_step by (cases "call_list x = []") auto

lemma paired_Cons: "call_list x = [] \<Longrightarrow> \<not> is_result x \<Longrightarrow> paired (x # xs) \<longleftrightarrow> paired xs"
  by (simp add: paired.simps(2))

lemma paired_unit:
  "call_list x \<noteq> [] \<Longrightarrow> \<forall>r \<in> set rs. is_result r \<Longrightarrow>
     paired (x # rs) \<longleftrightarrow> distinct (List.map_filter result_id rs) \<and> set (List.map_filter result_id rs) = set (call_ids x)"
proof -
  assume x: "call_list x \<noteq> []" and rs: "\<forall>r \<in> set rs. is_result r"
  have "takeWhile is_result rs = rs" "dropWhile is_result rs = []" using rs by simp_all
  with x show ?thesis by (simp only: paired.simps(2) Let_def) simp
qed

text \<open>The last unit of a paired history: a call with its results, or one item.\<close>

lemma last_unit:
  assumes "paired body" and "body \<noteq> []"
  obtains ys x results where "body = ys @ x # results" and "\<forall>r \<in> set results. is_result r" and "\<not> is_result x"
    and "results = rev (takeWhile is_result (rev body))" and "ys @ [x] = rev (dropWhile is_result (rev body))"
    and "paired (x # results)" and "results \<noteq> [] \<longrightarrow> call_list x \<noteq> []"
proof -
  let ?results = "rev (takeWhile is_result (rev body))" and ?rest = "rev (dropWhile is_result (rev body))"
  have split: "body = ?rest @ ?results" by (metis rev_append rev_rev_ident takeWhile_dropWhile_id)
  have res: "\<forall>r \<in> set ?results. is_result r" by (auto dest: set_takeWhileD)
  have "?rest \<noteq> []"
  proof
    assume "?rest = []"
    with split res assms(2) obtain r rs where "body = r # rs" "is_result r" by (metis append_Nil list.set_intros(1) neq_Nil_conv)
    with assms(1) paired_hd show False by blast
  qed
  then obtain ys x where yx: "?rest = ys @ [x]" by (metis rev_exhaust)
  then have "dropWhile is_result (rev body) = x # rev ys" by (metis rev.simps(2) rev_rev_ident rev_append append_Cons append_Nil singleton_rev_conv)
  then have x: "\<not> is_result x" by (metis dropWhile_eq_Cons_conv)
  from split yx have body: "body = ys @ x # ?results" by simp
  with assms(1) x have p: "paired (x # ?results)" using paired_cut by metis
  have "call_list x \<noteq> []" if ne: "?results \<noteq> []"
  proof
    assume "call_list x = []"
    with p have "paired ?results" using paired_step by blast
    with ne res paired_hd show False by (metis list.set_intros(1) neq_Nil_conv)
  qed
  with that [OF body res x refl yx [symmetric] p] show thesis by blast
qed

lemma recover_paired:
  assumes "paired body" and "body \<noteq> []"
  shows "\<exists>unit. recover_truncated_tail_unit body budget = Some unit \<and> paired unit \<and> unit \<noteq> []"
proof -
  obtain ys x results where u: "body = ys @ x # results" "\<forall>r \<in> set results. is_result r" "\<not> is_result x"
    "results = rev (takeWhile is_result (rev body))" "ys @ [x] = rev (dropWhile is_result (rev body))"
    "paired (x # results)" "results \<noteq> [] \<longrightarrow> call_list x \<noteq> []"
    using last_unit [OF assms] by metis
  have cut: "paired (map (\<lambda>r. truncate_item_to_tokens r n) zs) = paired zs" for n zs
    by (rule paired_map) (simp_all add: truncate_keeps_shape)
  show ?thesis
  proof (cases "results = []")
    case True
    with u(6) cut [of budget "[x]"] show ?thesis
      by (simp add: recover_truncated_tail_unit_def u(4,5) [symmetric] Let_def)
  next
    case False
    with u(7) have calls: "call_list x \<noteq> []" by simp
    then obtain cost where est: "estimate_items [x] = Some [cost]" by (cases x) auto
    let ?per = "max ((budget - cost) div length results) 1"
    let ?rs = "map (\<lambda>r. truncate_item_to_tokens r ?per) results"
    have "recover_truncated_tail_unit body budget = Some (x # ?rs)"
      using False calls est by (simp add: recover_truncated_tail_unit_def u(4,5) [symmetric] Let_def)
    moreover have "paired (x # ?rs)"
    proof -
      have ids: "List.map_filter result_id (map (\<lambda>r. truncate_item_to_tokens r n) zs) = List.map_filter result_id zs" for n zs
        by (rule map_filter_same_ids) (simp add: truncate_keeps_shape)
      have "\<forall>r \<in> set ?rs. is_result r" using u(2) by (simp add: truncate_keeps_shape)
      from paired_unit [OF calls this] paired_unit [OF calls u(2)] u(6) ids [of ?per results] show ?thesis by simp
    qed
    ultimately show ?thesis by blast
  qed
qed

lemma split_head_paired:
  "split_head c = (head, body) \<Longrightarrow> c = head @ body \<and> (paired (head @ xs) \<longleftrightarrow> paired xs)"
  by (cases c; cases "hd c") (auto simp: split_head_def paired_Cons)

lemma estimate_items_append:
  "estimate_items (xs @ ys) = (case (estimate_items xs, estimate_items ys) of (Some a, Some b) \<Rightarrow> Some (a @ b) | _ \<Rightarrow> None)"
  by (induction xs) (auto split: option.splits)

text \<open>
  Shrinking a conversation to a budget leaves one that a provider accepts, and never an empty one. It is the
  conversation, or its system prompt and a newest part that fits, or the system prompt and the newest unit with its texts cut.
\<close>

theorem fit_keeps_pairs:
  assumes "paired c" and "c \<noteq> []" and "estimate_items c = Some costs"
  shows "\<exists>h. fit_conversation_to_budget c max_tokens = Some h \<and> paired h \<and> h \<noteq> [] \<and>
    (h = c \<and> sum_list costs \<le> max_tokens
     \<or> (\<exists>head body ns i. split_head c = (head, body) \<and> i < length body \<and> h = head @ drop i body
          \<and> estimate_items (drop i body) = Some ns \<and> sum_list ns \<le> max_tokens - sum_list (take (length head) costs))
     \<or> (\<exists>head body unit. split_head c = (head, body) \<and> h = head @ unit
          \<and> recover_truncated_tail_unit body (max_tokens - sum_list (take (length head) costs)) = Some unit))"
proof (cases "sum_list costs \<le> max_tokens")
  case True
  with assms show ?thesis by (simp add: fit_conversation_to_budget_def)
next
  case over: False
  obtain head body where hb: "split_head c = (head, body)" by fastforce
  note sp = split_head_paired [OF hb]
  have pb: "paired body" using sp assms(1) by blast
  let ?budget = "max_tokens - sum_list (take (length head) costs)" and ?bc = "drop (length head) costs"
  have bc: "estimate_items body = Some ?bc" using estimate_items_drop [OF assms(3), of "length head"] sp by simp
  then have len: "length ?bc = length body" using estimate_items_Some by blast
  let ?w = "fit_walk ?bc (length body) ?budget (length body)"
  have w: "?w \<le> length body" "sum_list (drop ?w ?bc) \<le> ?budget"
    using fit_walk_sum [of "length body" ?bc ?budget ?budget] len by simp_all
  let ?s = "skip_while is_result body ?w"
  have fit: "fit_conversation_to_budget c max_tokens =
      (if ?s < length body then Some (head @ drop ?s body)
       else map_option (\<lambda>unit. head @ unit) (recover_truncated_tail_unit body ?budget))"
    using over assms(3) hb by (simp add: fit_conversation_to_budget_def Let_def)
  show ?thesis
  proof (cases "?s < length body")
    case True
    have "\<not> is_result (body ! ?s)" using skip_while_stops(2) [OF w(1) True] .
    then have "paired (drop ?s body)" using conv.cut_at [OF pb True] by blast
    then have "paired (head @ drop ?s body)" using sp by blast
    moreover have "estimate_items (drop ?s body) = Some (drop ?s ?bc)" by (rule estimate_items_drop [OF bc])
    moreover have "sum_list (drop ?s ?bc) \<le> ?budget"
    proof -
      have "drop ?w ?bc = take (?s - ?w) (drop ?w ?bc) @ drop ?s ?bc"
        using skip_while_ge [of ?w is_result body] by (metis append_take_drop_id drop_drop le_add_diff_inverse2)
      then have "sum_list (drop ?s ?bc) \<le> sum_list (drop ?w ?bc)" by (metis le_add2 sum_list_append)
      with w(2) show ?thesis by simp
    qed
    ultimately show ?thesis using True hb fit by auto
  next
    case False
    show ?thesis
    proof (cases "body = []")
      case True
      with sp assms(1,2) hb fit show ?thesis by (simp add: recover_truncated_tail_unit_def Let_def)
    next
      case ne: False
      from recover_paired [OF pb ne, of ?budget] obtain unit where
        "recover_truncated_tail_unit body ?budget = Some unit" "paired unit" "unit \<noteq> []" by blast
      with False fit hb sp show ?thesis by auto
    qed
  qed
qed

section \<open>Real user turns and anchors\<close>

text \<open>\<open>iter().rposition(p)\<close>.\<close>

definition rposition :: "('a \<Rightarrow> bool) \<Rightarrow> 'a list \<Rightarrow> nat option" where
  "rposition p xs = map_option (\<lambda>i. length xs - 1 - i) (position p (rev xs))"

fun is_real_user_turn :: "ConversationItem \<Rightarrow> bool" where
  "is_real_user_turn (User u) \<longleftrightarrow>
     ui_synthetic_reason u = None
     \<and> (list_ex is_image (ui_content u) \<or> \<not> is_synthetic_extracted_query (extract_user_query (user_text u)))"
| "is_real_user_turn _ \<longleftrightarrow> False"

fun user_query_text :: "ConversationItem \<Rightarrow> string" where
  "user_query_text (User u) = extract_user_query (user_text u)"
| "user_query_text _ = []"

definition extract_real_user_queries :: "ConversationItem list \<Rightarrow> string list" where
  "extract_real_user_queries conversation = map user_query_text (filter is_real_user_turn conversation)"

definition extract_last_real_user_query :: "ConversationItem list \<Rightarrow> string option" where
  "extract_last_real_user_query conversation = map_option user_query_text (find is_real_user_turn (rev conversation))"

definition omitted_result :: "ToolResultItem \<Rightarrow> ConversationItem" where
  "omitted_result t = tool_result (tr_tool_call_id t) ''Tool call omitted...''"

fun recent_message :: "ConversationItem \<Rightarrow> ConversationItem option" where
  "recent_message (Assistant a) = Some (Assistant a)"
| "recent_message (ToolResult t) = Some (omitted_result t)"
| "recent_message _ = None"

fun is_user :: "ConversationItem \<Rightarrow> bool" where
  "is_user (User u) = True"
| "is_user _ = False"

definition extract_messages_since_last_user :: "ConversationItem list \<Rightarrow> ConversationItem list" where
  "extract_messages_since_last_user conversation =
     rev (List.map_filter recent_message (takeWhile (\<lambda>x. \<not> is_user x) (rev conversation)))"

definition extract_messages_since_last_real_user :: "ConversationItem list \<Rightarrow> ConversationItem list" where
  "extract_messages_since_last_real_user conversation =
     List.map_filter recent_message
       (drop (case rposition is_real_user_turn conversation of Some idx \<Rightarrow> idx + 1 | None \<Rightarrow> 0) conversation)"

datatype AgentMessagePosition = Only | BeforeHuman | AfterHuman

record AgentMessageAnchor =
  anchor_item :: ConversationItem
  anchor_position :: AgentMessagePosition

definition extract_latest_agent_message :: "ConversationItem list \<Rightarrow> AgentMessageAnchor option" where
  "extract_latest_agent_message conversation =
     (case rposition is_agent_message conversation of
        None \<Rightarrow> None
      | Some agent_message_index \<Rightarrow>
          Some \<lparr>anchor_item = conversation ! agent_message_index,
            anchor_position = (case rposition is_real_user_turn conversation of
                Some human_index \<Rightarrow> if agent_message_index < human_index then BeforeHuman else AfterHuman
              | None \<Rightarrow> Only)\<rparr>)"

fun anchored_message :: "ConversationItem \<Rightarrow> ConversationItem option" where
  "anchored_message (User u) = (if ui_synthetic_reason u = Some AgentMessageReason then Some (User u) else None)"
| "anchored_message (Assistant a) = Some (Assistant a)"
| "anchored_message (ToolResult t) = Some (omitted_result t)"
| "anchored_message _ = None"

definition extract_messages_since_last_compaction_anchor :: "ConversationItem list \<Rightarrow> ConversationItem list" where
  "extract_messages_since_last_compaction_anchor conversation =
     (let start = (case rposition (\<lambda>x. is_real_user_turn x \<or> is_agent_message x) conversation of
            None \<Rightarrow> 0
          | Some idx \<Rightarrow> if is_agent_message (conversation ! idx) then idx else idx + 1) in
      List.map_filter anchored_message (drop start conversation))"

section \<open>The history after compaction\<close>

text \<open>The live state that is carried along unread (tasks, subagents, servers, todos, loops, workflows) is one field.\<close>

record 'l CompactionStateContext =
  cwd_generation :: nat
  destination_project_instructions :: "string option"
  agent_message_anchor :: "AgentMessageAnchor option"
  recent_messages :: "ConversationItem list"
  last_user_query :: "string option"
  live_state :: 'l

record 'l CompactionInputs =
  in_cwd_generation :: nat
  in_destination_project_instructions :: "string option"
  in_live_state :: 'l

definition build_state_context :: "ConversationItem list \<Rightarrow> 'l CompactionInputs \<Rightarrow> 'l CompactionStateContext" where
  "build_state_context conversation inputs =
     \<lparr>cwd_generation = in_cwd_generation inputs,
      destination_project_instructions = in_destination_project_instructions inputs,
      agent_message_anchor = extract_latest_agent_message conversation,
      recent_messages = extract_messages_since_last_compaction_anchor conversation,
      last_user_query = extract_last_real_user_query conversation,
      live_state = in_live_state inputs\<rparr>"

definition for_compaction :: "'l CompactionStateContext \<Rightarrow> 'l CompactionStateContext" where
  "for_compaction ctx = ctx\<lparr>
     agent_message_anchor := (case agent_message_anchor ctx of
         Some a \<Rightarrow> Some a
       | None \<Rightarrow> extract_latest_agent_message (recent_messages ctx)),
     recent_messages := []\<rparr>"

record 'l CompactedHistoryInput =
  system_message :: ConversationItem
  user_message_prefix :: string
  agents_md_reminder :: "string option"
  state_context :: "'l CompactionStateContext"
  compaction_summary :: string
  history_reminder :: "string option"
  transcript_hint :: "string option"

definition optional_item :: "(string \<Rightarrow> ConversationItem) \<Rightarrow> string option \<Rightarrow> ConversationItem list" where
  "optional_item mk t = (case t of Some s \<Rightarrow> [mk s] | None \<Rightarrow> [])"

text \<open>The alternate carrier is not compiled in, so the recent messages come before the summary.\<close>

definition build_compacted_history :: "'l CompactedHistoryInput \<Rightarrow> ConversationItem list option" where
  "build_compacted_history input =
     (case format_compact_summary_content (compaction_summary input) of
        None \<Rightarrow> None
      | Some formatted \<Rightarrow>
          (let ctx = state_context input;
               summary_item = user_meta (formatted @ (case transcript_hint input of Some hint \<Rightarrow> hint | None \<Rightarrow> []));
               project = (if cwd_generation ctx = 0 then agents_md_reminder input
                 else destination_project_instructions ctx);
               anchor = (case agent_message_anchor ctx of
                   Some a \<Rightarrow> if list_ex is_agent_message (recent_messages ctx) then None else Some a
                 | None \<Rightarrow> None);
               before = (case anchor of
                   Some a \<Rightarrow> if anchor_position a = BeforeHuman then [anchor_item a] else []
                 | None \<Rightarrow> []);
               after = (case anchor of
                   Some a \<Rightarrow> if anchor_position a \<noteq> BeforeHuman then [anchor_item a] else []
                 | None \<Rightarrow> []) in
           Some ([system_message input, user_meta (user_message_prefix input)]
             @ optional_item project_instructions project
             @ before
             @ optional_item (\<lambda>q. user (wrap_user_query q)) (last_user_query ctx)
             @ after
             @ recent_messages ctx
             @ [summary_item]
             @ optional_item system_reminder (history_reminder input))))"

section \<open>Compaction keeps calls and results together\<close>

lemma rposition_Some: "rposition p xs = Some i \<Longrightarrow> i < length xs \<and> p (xs ! i)"
proof -
  assume "rposition p xs = Some i"
  then obtain j where "position p (rev xs) = Some j" "i = length xs - 1 - j" by (auto simp: rposition_def)
  with position_Some [of p "rev xs" j] show ?thesis by (auto simp: rev_nth)
qed

lemma paired_append: "paired xs \<Longrightarrow> paired ys \<Longrightarrow> paired (xs @ ys)"
proof (induction xs rule: paired.induct)
  case (2 x xs)
  have hd: "takeWhile is_result ys = []" using "2.prems"(2) paired_hd by (cases ys) auto
  then have tw: "takeWhile is_result (xs @ ys) = takeWhile is_result xs" by (induction xs) auto
  from hd have "dropWhile is_result ys = ys" by (cases ys) (auto split: if_splits)
  then have dw: "dropWhile is_result (xs @ ys) = dropWhile is_result xs @ ys" by (induction xs) auto
  show ?case
  proof (cases "call_list x = []")
    case True
    with 2 paired_step [OF "2.prems"(1)] show ?thesis by (simp add: paired.simps(2) [of x "xs @ ys"])
  next
    case False
    with 2 show ?thesis by (simp add: paired.simps(2) [of x] Let_def tw dw)
  qed
qed simp

definition plain :: "ConversationItem \<Rightarrow> bool" where
  "plain x \<longleftrightarrow> call_list x = [] \<and> \<not> is_result x"

lemma paired_plain: "list_all plain xs \<Longrightarrow> paired xs"
  by (induction xs) (auto simp: plain_def paired_Cons)

lemma paired_plain_Cons: "plain x \<Longrightarrow> paired (x # xs) \<longleftrightarrow> paired xs"
  by (simp add: plain_def paired_Cons)

lemma plain_items [simp]:
  "plain (user t)" "plain (user_meta t)" "plain (project_instructions t)" "plain (system_reminder t)" "plain (System t)"
  by (simp_all add: plain_def user_def user_meta_def project_instructions_def system_reminder_def user_item_def)

lemma plain_agent_message: "is_agent_message x \<Longrightarrow> plain x"
  by (cases x) (simp_all add: plain_def)

lemma plain_boundary: "is_real_user_turn x \<or> is_agent_message x \<Longrightarrow> plain x"
  by (cases x) (simp_all add: plain_def)

lemma plain_optional: "(\<And>t. plain (mk t)) \<Longrightarrow> list_all plain (optional_item mk t)"
  by (simp add: optional_item_def split: option.splits)

lemma paired_optional: "(\<And>t. plain (mk t)) \<Longrightarrow> paired (optional_item mk t)"
  by (intro paired_plain plain_optional)

lemma anchor_plain: "extract_latest_agent_message c = Some a \<Longrightarrow> plain (anchor_item a)"
  using rposition_Some [of is_agent_message c]
  by (auto simp: extract_latest_agent_message_def split: option.splits intro: plain_agent_message)

text \<open>The retained tail keeps the calls and the identities of the results.\<close>

lemma anchored_message_shape:
  "anchored_message x = Some y \<Longrightarrow> is_result y = is_result x \<and> result_id y = result_id x \<and> call_list y = call_list x"
  by (cases x) (auto simp: omitted_result_def tool_result_def split: if_splits)

lemma anchored_message_kept: "call_list x \<noteq> [] \<or> is_result x \<Longrightarrow> anchored_message x \<noteq> None"
  by (cases x) auto

lemma anchored_head: "paired xs \<Longrightarrow> takeWhile is_result (List.map_filter anchored_message xs) = []"
proof (induction xs rule: paired.induct)
  case (2 x xs)
  have nr: "\<not> is_result x" using "2.prems" by (rule paired_hd)
  show ?case
  proof (cases "anchored_message x")
    case None
    then have calls: "call_list x = []" using anchored_message_kept by blast
    with "2.IH"(2) paired_step [OF "2.prems"] None show ?thesis by simp
  next
    case (Some y)
    with nr anchored_message_shape show ?thesis by simp
  qed
qed simp

lemma anchored_run:
  "\<forall>r \<in> set run. is_result r \<Longrightarrow>
     (\<forall>r \<in> set (List.map_filter anchored_message run). is_result r)
     \<and> List.map_filter result_id (List.map_filter anchored_message run) = List.map_filter result_id run"
proof (induction run)
  case (Cons r run)
  then obtain y where "anchored_message r = Some y" using anchored_message_kept by fastforce
  with anchored_message_shape [OF this] Cons show ?case by (auto split: option.splits)
qed simp

lemma anchored_paired: "paired xs \<Longrightarrow> paired (List.map_filter anchored_message xs)"
proof (induction xs rule: paired.induct)
  case (2 x xs)
  show ?case
  proof (cases "call_list x = []")
    case True
    with "2.IH"(2) paired_step [OF "2.prems"] have p: "paired (List.map_filter anchored_message xs)" and nr: "\<not> is_result x" by simp_all
    show ?thesis
    proof (cases "anchored_message x")
      case (Some y)
      with anchored_message_shape [OF Some] p nr True show ?thesis by (simp add: paired_Cons)
    qed (use p in simp)
  next
    case False
    let ?m = "List.map_filter anchored_message" and ?run = "takeWhile is_result xs" and ?post = "dropWhile is_result xs"
    obtain y where y: "anchored_message x = Some y" using anchored_message_kept False by blast
    note shape = anchored_message_shape [OF y]
    have res: "\<forall>r \<in> set ?run. is_result r" by (auto dest: set_takeWhileD)
    note run = anchored_run [OF res]
    have post: "paired ?post" using paired_run(5) [OF "2.prems" False] .
    then have rest: "paired (?m ?post)" using "2.IH"(1) [OF False refl] by simp
    have unit: "paired (x # ?run)"
      using "2.prems" False paired_unit [OF False res] by (simp add: paired.simps(2) [of x xs] Let_def)
    then have "paired (y # ?m ?run)"
      using paired_unit [OF False res] paired_unit [of y "?m ?run"] shape run False by simp
    from paired_append [OF this rest] have "paired (y # ?m (?run @ ?post))" by (simp only: map_filter_append append_Cons)
    then show ?thesis using y by simp
  qed
qed simp

lemma recent_messages_paired:
  assumes "paired c"
  shows "paired (extract_messages_since_last_compaction_anchor c)"
proof -
  let ?b = "\<lambda>x. is_real_user_turn x \<or> is_agent_message x"
  have "paired (drop idx c) \<and> paired (drop (idx + 1) c)" if "rposition ?b c = Some idx" for idx
  proof -
    from rposition_Some [OF that] have i: "idx < length c" and pl: "plain (c ! idx)" using plain_boundary by blast+
    then have "paired (drop idx c)" using conv.cut_at [OF assms i] by (simp add: plain_def)
    moreover have "drop idx c = c ! idx # drop (idx + 1) c" using Cons_nth_drop_Suc [OF i] by simp
    ultimately show ?thesis using pl paired_Cons [of "c ! idx"] by (metis plain_def)
  qed
  with assms show ?thesis
    unfolding extract_messages_since_last_compaction_anchor_def Let_def
    by (intro anchored_paired) (auto split: option.splits)
qed

lemma validate_from_paired: "paired c \<Longrightarrow> validate_from seen c = []"
proof (induction c arbitrary: seen rule: paired.induct)
  case (2 x xs)
  have run_ok: "validate_from ids (run @ ys) = validate_from ids ys"
    if "set (List.map_filter result_id run) \<subseteq> ids" and "\<forall>r \<in> set run. is_result r" for ids run ys
    using that
  proof (induction run)
    case (Cons r run)
    then show ?case by (cases r) auto
  qed simp
  show ?case
  proof (cases "call_list x = []")
    case True
    with "2.IH"(2) paired_step [OF "2.prems"] show ?thesis by (cases x) simp_all
  next
    case False
    then obtain a where x: "x = Assistant a" by (cases x) auto
    have ids: "set (List.map_filter result_id (takeWhile is_result xs)) = set (call_ids x)"
      using "2.prems" False by (simp add: paired.simps(2) Let_def)
    have "validate_from (seen \<union> set (call_ids x)) (takeWhile is_result xs @ dropWhile is_result xs)
        = validate_from (seen \<union> set (call_ids x)) (dropWhile is_result xs)"
      using ids by (intro run_ok) (auto dest: set_takeWhileD)
    with "2.IH"(1) [OF False refl] paired_run(5) [OF "2.prems" False] x show ?thesis by simp
  qed
qed simp

text \<open>
  C16: When the conversation that is compacted is itself paired (every call answered directly behind it and no other
  result), the state context is built from it, with its recent messages or by \<open>for_compaction\<close> without, and the first message
  is a system message, the history after the compaction exists, is again paired and passes the code's own
  validation: the conversation is cut in front of a real user turn or a message of an agent, never between a call and
  its results, and what is dropped from the tail takes no half of a pair with it. Nothing is promised for a conversation
  that has a dangling call or an orphaned result; those may survive in the tail.
\<close>

theorem compaction_keeps_pairs:
  assumes "paired c" and "system_message input = System prompt"
    and "state_context input = build_state_context c live
         \<or> state_context input = for_compaction (build_state_context c live)"
  shows "\<exists>h. build_compacted_history input = Some h \<and> paired h \<and> validate_compacted_history h = []"
proof -
  let ?ctx = "state_context input"
  obtain formatted where f: "format_compact_summary_content (compaction_summary input) = Some formatted"
    using summary_defined [of "compaction_summary input"] by (auto simp: format_compact_summary_content_def)
  have recent: "paired (recent_messages ?ctx)"
    using assms(3) recent_messages_paired [OF assms(1)] by (auto simp: build_state_context_def for_compaction_def)
  have anchor: "plain (anchor_item a)" if "agent_message_anchor ?ctx = Some a" for a
    using that assms(3)
    by (auto simp: build_state_context_def for_compaction_def dest: anchor_plain split: option.splits)
  have "\<exists>h. build_compacted_history input = Some h \<and> paired h"
    using f recent anchor assms(2)
    by (auto simp: build_compacted_history_def Let_def paired_plain_Cons split: option.splits
        intro!: paired_append paired_optional)
  then show ?thesis using validate_from_paired by (auto simp: validate_compacted_history_def)
qed

abbreviation sample_history :: "ConversationItem list" where
  "sample_history \<equiv> [System ''sys'', user ''go'', sample_assistant [''a''], tool_result ''a'' ''out'']"

lemma sample_history_paired: "paired sample_history"
  by (simp add: paired.simps user_def user_item_def tool_result_def)

theorem compaction_keeps_pairs_witness:
  "\<exists>h. build_compacted_history
     \<lparr>system_message = System ''sys'', user_message_prefix = ''info'', agents_md_reminder = None,
      state_context = build_state_context sample_history
        \<lparr>in_cwd_generation = 0, in_destination_project_instructions = None, in_live_state = ()\<rparr>,
      compaction_summary = ''done'', history_reminder = None, transcript_hint = None\<rparr> = Some h \<and> paired h"
  using compaction_keeps_pairs [OF sample_history_paired, of
      "\<lparr>system_message = System ''sys'', user_message_prefix = ''info'', agents_md_reminder = None,
      state_context = build_state_context sample_history
        \<lparr>in_cwd_generation = 0, in_destination_project_instructions = None, in_live_state = ()\<rparr>,
      compaction_summary = ''done'', history_reminder = None, transcript_hint = None\<rparr>" "''sys''"
      "\<lparr>in_cwd_generation = 0, in_destination_project_instructions = None, in_live_state = ()\<rparr>"]
  by auto

theorem fit_keeps_pairs_witness:
  "\<exists>h. fit_conversation_to_budget sample_history 0 = Some h \<and> paired h \<and> h \<noteq> []"
  using fit_keeps_pairs [OF sample_history_paired, of "[0, 0, 0, 0]" 0]
  by (auto simp: estimate_tokens_def user_def user_item_def tool_result_def estimate_image_tokens_def)

text \<open>
  C18: A turn selection of the shared engine on this conversation type: the two halves are accepted on their own, the kept one is
  within the target, and no earlier safe cut would be.
\<close>

theorem turn_selection_sound:
  assumes "length counts = length c" and "paired c"
  shows "\<exists>plan. select_turns_to_compact is_result counts c target min_compactable = Some plan \<and>
    (case plan of
       None \<Rightarrow> True
     | Some p \<Rightarrow>
         0 < split_idx p \<and> split_idx p < length c
         \<and> paired (take (split_idx p) c) \<and> paired (drop (split_idx p) c)
         \<and> sum_counts (drop (split_idx p) counts) \<le> target
         \<and> list_all (\<lambda>j. target < sum_counts (drop j counts) \<or> is_result (c ! j)) [0..<split_idx p]
         \<and> tokens_to_compact p = sum_counts (take (split_idx p) counts) \<and> min_compactable \<le> tokens_to_compact p)"
proof -
  obtain plan where sel: "select_turns_to_compact is_result counts c target min_compactable = Some plan"
    by (simp add: select_first_split [OF assms(1)])
  moreover have "0 < split_idx p \<and> split_idx p < length c
         \<and> paired (take (split_idx p) c) \<and> paired (drop (split_idx p) c)
         \<and> sum_counts (drop (split_idx p) counts) \<le> target
         \<and> list_all (\<lambda>j. target < sum_counts (drop j counts) \<or> is_result (c ! j)) [0..<split_idx p]
         \<and> tokens_to_compact p = sum_counts (take (split_idx p) counts) \<and> min_compactable \<le> tokens_to_compact p"
    if "plan = Some p" for p
    using select_plan [OF assms(1) sel [unfolded that]] conv.split_safe [OF assms sel [unfolded that]]
    by (simp add: list_all_iff)
  ultimately show ?thesis by (auto split: option.splits)
qed

theorem turn_selection_sound_witness:
  "\<exists>p. select_turns_to_compact is_result [9, 9, 9, 9] sample_history 18 0 = Some (Some p) \<and> split_idx p = 2
     \<and> paired (take 2 sample_history) \<and> paired (drop 2 sample_history)"
proof -
  let ?p = "\<lparr>split_idx = 2, tokens_to_compact = 18\<rparr>"
  have sel: "select_turns_to_compact is_result [9, 9, 9, 9] sample_history 18 0 = Some (Some ?p)"
    by (simp add: select_first_split first_split_def sum_counts_min upt_rec user_def user_item_def tool_result_def)
  have "paired (take (split_idx ?p) sample_history) \<and> paired (drop (split_idx ?p) sample_history)"
    using turn_selection_sound [OF _ sample_history_paired, of "[9, 9, 9, 9]" 18 0] unfolding sel
    by (simp only: option.inject option.case ex_simps simp_thms) auto
  with sel show ?thesis by (intro exI [of _ ?p]) (simp only: SplitPlan.select_convs simp_thms)
qed

section \<open>What the truncation promises\<close>

lemma boundary_at_or_below_le: "boundary_at_or_below s e \<le> e"
  by (induction s e rule: boundary_at_or_below.induct) (auto intro: le_SucI)

lemma boundary_at_or_below_is: "e \<le> length s \<Longrightarrow> is_char_boundary s (boundary_at_or_below s e)"
  by (induction s e rule: boundary_at_or_below.induct) (auto simp: is_char_boundary_def)

lemma length_to_decimal: "n < 10 ^ Suc k \<Longrightarrow> length (to_decimal n) \<le> Suc k"
proof (induction k arbitrary: n)
  case (Suc k)
  then have "n div 10 < 10 ^ Suc k" by (simp add: less_mult_imp_div_less mult.commute)
  with Suc.IH [of "n div 10"] show ?case by (subst to_decimal.simps) simp
qed (subst to_decimal.simps, simp)

text \<open>With room for the marker, a text of less than a hundred megabytes is cut to the limit.\<close>

lemma truncated_within_limit:
  assumes "64 \<le> max_bytes" and "truncate_text_to_bytes s max_bytes = Some t" and "length s < 10 ^ 8"
  shows "length t \<le> max_bytes"
proof -
  let ?e = "boundary_at_or_below s (min (max_bytes - 64) (length s))"
  have "?e \<le> max_bytes - 64" using boundary_at_or_below_le [of s "min (max_bytes - 64) (length s)"] by linarith
  moreover have "t = take ?e s @ truncation_marker (length s - ?e)"
    using assms(2) by (simp add: truncate_text_to_bytes_def Let_def split: if_splits)
  moreover have "length (truncation_marker n) = 56 + length (to_decimal n)" for n by (simp add: truncation_marker_def)
  moreover have "length (to_decimal (length s - ?e)) \<le> 8" using assms(3) length_to_decimal [of "length s - ?e" 7] by simp
  moreover have "length (take ?e s) \<le> ?e" by simp
  ultimately show ?thesis using assms(1) by (simp only: length_append) linarith
qed

text \<open>Below that the marker alone is longer than the limit: five bytes that should become four become 57.\<close>

lemma truncation_exceeds_limit: "map_option length (truncate_text_to_bytes ''abcde'' 4) = Some 57"
  by (simp add: truncate_text_to_bytes_def truncation_marker_def to_decimal.simps)

end
