(* ===== verification/Usage_Ledger.thy ===== *)
theory Usage_Ledger
  imports Rust_Prelude
begin

text \<open>
  The billing ledgers of a prompt and of a session (\<open>crates/codegen/xai-chat-state/src/usage.rs\<close>): totals, the same
  by model, and whether the bill may under-count. Counters are \<open>u64\<close> and saturate, costs are signed and saturate on both
  sides; the map by model keeps the order of insertion and is an association list.
\<close>

section \<open>Totals\<close>

definition sat_add64 :: "nat \<Rightarrow> nat \<Rightarrow> nat" where
  "sat_add64 a b = min (a + b) u64_max"

definition i64_saturating_add :: "int \<Rightarrow> int \<Rightarrow> int" where
  "i64_saturating_add a b = max (- (2 ^ 63)) (min (a + b) (2 ^ 63 - 1))"

record TokenUsage =
  prompt_tokens :: nat
  completion_tokens :: nat
  reported_total_tokens :: nat
  reported_reasoning_tokens :: nat
  cached_prompt_tokens :: nat
  cache_creation_prompt_tokens :: nat

record UsageTotals =
  input_tokens :: nat
  output_tokens :: nat
  cached_read_tokens :: nat
  cache_creation_tokens :: nat
  reasoning_tokens :: nat
  model_calls :: nat
  api_duration_ms :: nat
  cost_usd_ticks :: "int option"
  cost_missing_calls :: nat

definition no_usage :: UsageTotals where
  "no_usage = \<lparr>input_tokens = 0, output_tokens = 0, cached_read_tokens = 0, cache_creation_tokens = 0, reasoning_tokens = 0,
     model_calls = 0, api_duration_ms = 0, cost_usd_ticks = None, cost_missing_calls = 0\<rparr>"

definition reported_cost_ticks :: "int option \<Rightarrow> int option" where
  "reported_cost_ticks raw = (case raw of Some n \<Rightarrow> if n > 0 then Some n else None | None \<Rightarrow> None)"

definition from_call :: "TokenUsage \<Rightarrow> nat option \<Rightarrow> int option \<Rightarrow> UsageTotals" where
  "from_call usage duration cost =
     (let cost = reported_cost_ticks cost in
      \<lparr>input_tokens = prompt_tokens usage, output_tokens = completion_tokens usage,
       cached_read_tokens = cached_prompt_tokens usage, cache_creation_tokens = cache_creation_prompt_tokens usage,
       reasoning_tokens = reported_reasoning_tokens usage, model_calls = 1,
       api_duration_ms = (case duration of Some d \<Rightarrow> d | None \<Rightarrow> 0), cost_usd_ticks = cost,
       cost_missing_calls = (if cost = None then 1 else 0)\<rparr>)"

definition total_usage_tokens :: "UsageTotals \<Rightarrow> nat" where
  "total_usage_tokens t = sat_add64 (input_tokens t) (output_tokens t)"

definition cost_is_partial :: "UsageTotals \<Rightarrow> bool" where
  "cost_is_partial t \<longleftrightarrow> cost_usd_ticks t \<noteq> None \<and> cost_missing_calls t > 0"

fun merge_cost_ticks :: "int option \<Rightarrow> int option \<Rightarrow> int option" where
  "merge_cost_ticks None None = None"
| "merge_cost_ticks a b =
     Some (i64_saturating_add (case a of Some x \<Rightarrow> x | None \<Rightarrow> 0) (case b of Some y \<Rightarrow> y | None \<Rightarrow> 0))"

definition fold_totals :: "UsageTotals \<Rightarrow> UsageTotals \<Rightarrow> UsageTotals" where
  "fold_totals t u =
     \<lparr>input_tokens = sat_add64 (input_tokens t) (input_tokens u),
      output_tokens = sat_add64 (output_tokens t) (output_tokens u),
      cached_read_tokens = sat_add64 (cached_read_tokens t) (cached_read_tokens u),
      cache_creation_tokens = sat_add64 (cache_creation_tokens t) (cache_creation_tokens u),
      reasoning_tokens = sat_add64 (reasoning_tokens t) (reasoning_tokens u),
      model_calls = sat_add64 (model_calls t) (model_calls u),
      api_duration_ms = sat_add64 (api_duration_ms t) (api_duration_ms u),
      cost_usd_ticks = merge_cost_ticks (cost_usd_ticks t) (cost_usd_ticks u),
      cost_missing_calls = sat_add64 (cost_missing_calls t) (cost_missing_calls u)\<rparr>"

section \<open>Ledgers\<close>

record UsageLedger =
  totals :: UsageTotals
  by_model :: "(string \<times> UsageTotals) list"
  main_loop_model_calls :: nat
  incomplete :: bool

definition empty_ledger :: UsageLedger where
  "empty_ledger = \<lparr>totals = no_usage, by_model = [], main_loop_model_calls = 0, incomplete = False\<rparr>"

text \<open>\<open>entry(model).or_default().fold_totals(..)\<close>.\<close>

fun fold_model :: "string \<Rightarrow> UsageTotals \<Rightarrow> (string \<times> UsageTotals) list \<Rightarrow> (string \<times> UsageTotals) list" where
  "fold_model m u [] = [(m, fold_totals no_usage u)]"
| "fold_model m u ((k, t) # rest) = (if k = m then (k, fold_totals t u) # rest else (k, t) # fold_model m u rest)"

definition fold_entry :: "string \<Rightarrow> UsageTotals \<Rightarrow> UsageLedger \<Rightarrow> UsageLedger" where
  "fold_entry model_id u l =
     l\<lparr>totals := fold_totals (totals l) u, by_model := fold_model model_id u (by_model l)\<rparr>"

definition record_main_loop_call ::
    "string \<Rightarrow> TokenUsage \<Rightarrow> nat option \<Rightarrow> int option \<Rightarrow> UsageLedger \<Rightarrow> UsageLedger" where
  "record_main_loop_call model_id usage duration cost l =
     fold_entry model_id (from_call usage duration cost)
       (l\<lparr>main_loop_model_calls := sat_add64 (main_loop_model_calls l) 1\<rparr>)"

definition mark_incomplete :: "UsageLedger \<Rightarrow> UsageLedger" where
  "mark_incomplete l = l\<lparr>incomplete := True\<rparr>"

definition record_subagent :: "(string \<times> UsageTotals) list \<Rightarrow> bool \<Rightarrow> UsageLedger \<Rightarrow> UsageLedger" where
  "record_subagent usages partial l =
     (let l = fold (\<lambda>(m, u). fold_entry m u) usages l in if partial then l\<lparr>incomplete := True\<rparr> else l)"

section \<open>The totals are the sum over the models\<close>

definition counters :: "(UsageTotals \<Rightarrow> nat) list" where
  "counters = [input_tokens, output_tokens, cached_read_tokens, cache_creation_tokens, reasoning_tokens, model_calls,
     api_duration_ms, cost_missing_calls]"

definition ledger_inv :: "UsageLedger \<Rightarrow> bool" where
  "ledger_inv l \<longleftrightarrow>
     distinct (map fst (by_model l))
     \<and> list_all (\<lambda>f. f (totals l) = min (sum_list (map (\<lambda>(m, t). f t) (by_model l))) u64_max) counters
     \<and> (cost_usd_ticks (totals l) = None \<longleftrightarrow> list_all (\<lambda>(m, t). cost_usd_ticks t = None) (by_model l))
     \<and> main_loop_model_calls l \<le> model_calls (totals l)"

lemma counter_fold: "f \<in> set counters \<Longrightarrow> f (fold_totals t u) = sat_add64 (f t) (f u)"
  by (auto simp: counters_def fold_totals_def)

lemma counter_none: "f \<in> set counters \<Longrightarrow> f no_usage = 0"
  by (auto simp: counters_def no_usage_def)

lemma fold_model_keys: "map fst (fold_model m u ms) = (if m \<in> fst ` set ms then map fst ms else map fst ms @ [m])"
  by (induction m u ms rule: fold_model.induct) auto

lemma fold_model_sum:
  assumes "f \<in> set counters"
  shows "min (sum_list (map (\<lambda>(m, t). f t) (fold_model m u ms))) u64_max
    = min (sum_list (map (\<lambda>(m, t). f t) ms) + f u) u64_max"
proof (induction m u ms rule: fold_model.induct)
  case (1 m u)
  then show ?case by (simp add: counter_fold [OF assms] counter_none [OF assms] sat_add64_def)
next
  case (2 m u k t rest)
  then show ?case by (auto simp: counter_fold [OF assms] sat_add64_def min_def split: if_splits)
qed

lemma cost_fold: "cost_usd_ticks (fold_totals t u) = None \<longleftrightarrow> cost_usd_ticks t = None \<and> cost_usd_ticks u = None"
  by (cases "cost_usd_ticks t"; cases "cost_usd_ticks u") (simp_all add: fold_totals_def)

lemma fold_model_cost:
  "list_all (\<lambda>(m, t). cost_usd_ticks t = None) (fold_model m u ms)
     \<longleftrightarrow> list_all (\<lambda>(m, t). cost_usd_ticks t = None) ms \<and> cost_usd_ticks u = None"
  by (induction m u ms rule: fold_model.induct) (auto simp: cost_fold no_usage_def)

lemma fold_entry_inv:
  assumes "ledger_inv l" and "c \<le> main_loop_model_calls l + model_calls u" and "c \<le> u64_max"
  shows "ledger_inv ((fold_entry m u l)\<lparr>main_loop_model_calls := c\<rparr>)"
proof -
  have "f (fold_totals (totals l) u) = min (sum_list (map (\<lambda>(m, t). f t) (fold_model m u (by_model l)))) u64_max"
    if "f \<in> set counters" for f
    using assms(1) that fold_model_sum [OF that, of m u "by_model l"]
    by (auto simp: ledger_inv_def list_all_iff counter_fold [OF that] sat_add64_def)
  moreover have "c \<le> model_calls (fold_totals (totals l) u)"
    using assms by (simp add: ledger_inv_def fold_totals_def sat_add64_def)
  ultimately show ?thesis
    using assms(1) by (auto simp: ledger_inv_def fold_entry_def list_all_iff fold_model_keys cost_fold
        fold_model_cost [unfolded list_all_iff])
qed

section \<open>Any sequence of records\<close>

datatype LedgerOp =
    MainLoopCall string TokenUsage "nat option" "int option"
  | Subagent "(string \<times> UsageTotals) list" bool
  | Incomplete

fun ledger_op :: "LedgerOp \<Rightarrow> UsageLedger \<Rightarrow> UsageLedger" where
  "ledger_op (MainLoopCall m u d c) l = record_main_loop_call m u d c l"
| "ledger_op (Subagent us partial) l = record_subagent us partial l"
| "ledger_op Incomplete l = mark_incomplete l"

lemma fold_entry_fields [simp]:
  "main_loop_model_calls (fold_entry m u l) = main_loop_model_calls l" "incomplete (fold_entry m u l) = incomplete l"
  by (simp_all add: fold_entry_def)

lemma ledger_inv_calls: "ledger_inv l \<Longrightarrow> main_loop_model_calls l \<le> u64_max"
proof -
  assume inv: "ledger_inv l"
  then have "model_calls (totals l) \<le> u64_max" by (auto simp: ledger_inv_def counters_def)
  with inv show ?thesis by (auto simp: ledger_inv_def)
qed

lemma fold_entry_inv_same: "ledger_inv l \<Longrightarrow> ledger_inv (fold_entry m u l)"
  using fold_entry_inv [of l "main_loop_model_calls l" u m] ledger_inv_calls [of l] by (simp add: fold_entry_def)

lemma record_main_loop_call_inv:
  assumes "ledger_inv l" shows "ledger_inv (record_main_loop_call m u d c l)"
proof -
  have "ledger_inv ((fold_entry m (from_call u d c) l)\<lparr>main_loop_model_calls := sat_add64 (main_loop_model_calls l) 1\<rparr>)"
    by (rule fold_entry_inv [OF assms]) (simp_all add: sat_add64_def from_call_def Let_def)
  then show ?thesis by (cases l) (simp add: record_main_loop_call_def fold_entry_def)
qed

lemma fold_entries_inv: "ledger_inv l \<Longrightarrow> ledger_inv (fold (\<lambda>(m, u). fold_entry m u) us l)"
  by (induction us arbitrary: l) (auto simp: fold_entry_inv_same)

lemma fold_entries_incomplete: "incomplete (fold (\<lambda>(m, u). fold_entry m u) us l) = incomplete l"
  by (induction us arbitrary: l) (simp_all add: split_beta)

lemma ledger_inv_incomplete [simp]: "ledger_inv (l\<lparr>incomplete := b\<rparr>) = ledger_inv l"
  by (simp add: ledger_inv_def)

lemma ledger_op_inv: "ledger_inv l \<Longrightarrow> ledger_inv (ledger_op x l)"
  by (cases x) (simp_all add: record_main_loop_call_inv record_subagent_def fold_entries_inv Let_def mark_incomplete_def)

fun marks_incomplete :: "LedgerOp \<Rightarrow> bool" where
  "marks_incomplete (MainLoopCall m u d c) = False"
| "marks_incomplete (Subagent us partial) = partial"
| "marks_incomplete Incomplete = True"

lemma ledger_op_incomplete: "incomplete (ledger_op x l) \<longleftrightarrow> incomplete l \<or> marks_incomplete x"
  by (cases x) (simp_all add: record_main_loop_call_def record_subagent_def fold_entries_incomplete Let_def mark_incomplete_def)

lemma empty_ledger_inv: "ledger_inv empty_ledger"
  by (simp add: ledger_inv_def empty_ledger_def counters_def no_usage_def)

text \<open>
  C24: Whatever is recorded in a ledger, in whatever order: a model has one entry; each counter of the totals is the sum of
  that counter over the models, cut off at \<open>u64::MAX\<close>; a total cost is missing only when no model has one; the rounds of
  the main loop are among the counted calls; and the ledger is marked incomplete exactly when some record marked it.
\<close>

theorem ledger_consistent:
  fixes ops :: "LedgerOp list"
  defines "l \<equiv> fold ledger_op ops empty_ledger"
  shows "distinct (map fst (by_model l))
    \<and> list_all (\<lambda>f. f (totals l) = min (sum_list (map (\<lambda>(m, t). f t) (by_model l))) u64_max)
         [input_tokens, output_tokens, cached_read_tokens, cache_creation_tokens, reasoning_tokens, model_calls,
          api_duration_ms, cost_missing_calls]
    \<and> (cost_usd_ticks (totals l) = None \<longleftrightarrow> list_all (\<lambda>(m, t). cost_usd_ticks t = None) (by_model l))
    \<and> main_loop_model_calls l \<le> model_calls (totals l)
    \<and> (incomplete l \<longleftrightarrow> list_ex marks_incomplete ops)"
proof -
  have "ledger_inv (fold ledger_op ops k)" if "ledger_inv k" for k
    using that by (induction ops arbitrary: k) (auto simp: ledger_op_inv)
  moreover have "incomplete (fold ledger_op ops k) \<longleftrightarrow> incomplete k \<or> list_ex marks_incomplete ops" for k
    by (induction ops arbitrary: k) (auto simp: ledger_op_incomplete)
  ultimately have "ledger_inv l" and "incomplete l \<longleftrightarrow> list_ex marks_incomplete ops"
    using empty_ledger_inv by (simp_all add: l_def empty_ledger_def)
  then show ?thesis unfolding ledger_inv_def counters_def by blast
qed

end
