(* ===== verification/Image_Budget.thy ===== *)
theory Image_Budget
  imports Compaction
begin

text \<open>
  The byte budget for the images of a request (\<open>crates/codegen/xai-chat-state/src/image_budget.rs\<close>) and the removal of
  images that the server rejected (\<open>strip_images_by_url\<close> of \<open>conversation.rs\<close>). The sizes of the JSON encodings come from
  \<open>serde_json\<close> and are arguments. An \<open>unreachable!\<close> is the value \<open>None\<close>.
\<close>

section \<open>Sizes\<close>

record Json =
  json_items :: "ConversationItem list \<Rightarrow> nat"
  json_part :: "ContentPart \<Rightarrow> nat"
  json_str :: "string \<Rightarrow> nat"

definition IMAGE_COMPACT_PLACEHOLDER :: string where
  "IMAGE_COMPACT_PLACEHOLDER = ''[An earlier image was removed to keep the request within its size limit and is no longer visible. Do not describe or reason about its contents from memory; ask the user to re-share it if you need to see it again.]''"

definition TOOL_IMAGE_COMPACT_NOTE :: string where
  "TOOL_IMAGE_COMPACT_NOTE = ''[One or more images from this tool result were removed to keep the request within its size limit and are no longer visible. Do not describe or reason about their contents from memory.]''"

definition MAX_REQUEST_BYTES :: nat where "MAX_REQUEST_BYTES = 50 * 1024 * 1024"

definition IMAGE_COMPACT_TRIGGER_BYTES :: nat where
  "IMAGE_COMPACT_TRIGGER_BYTES = MAX_REQUEST_BYTES - 3 * 1024 * 1024"

definition IMAGE_COMPACT_RECLAIM_TARGET_BYTES :: nat where
  "IMAGE_COMPACT_RECLAIM_TARGET_BYTES = MAX_REQUEST_BYTES div 2"

text \<open>The parts of an item that may be images.\<close>

fun image_parts :: "ConversationItem \<Rightarrow> ContentPart list" where
  "image_parts (User u) = filter is_image (ui_content u)"
| "image_parts (ToolResult t) = filter is_image (tr_images t)"
| "image_parts _ = []"

definition inline_image_count :: "ConversationItem list \<Rightarrow> nat" where
  "inline_image_count conversation = sum_list (map (\<lambda>x. length (image_parts x)) conversation)"

definition encoded_url_bytes :: "Json \<Rightarrow> string \<Rightarrow> nat" where
  "encoded_url_bytes json url =
     (case split_once CHR '','' url of
        None \<Rightarrow> json_str json url - 2
      | Some (header, base64_tail) \<Rightarrow>
          if starts_with header ''data:'' \<and> ends_with header '';base64''
          then json_str json header - 2 + 1 + length base64_tail
          else json_str json url - 2)"

definition IMAGE_PART_FRAME_BYTES :: nat where "IMAGE_PART_FRAME_BYTES = 25"

fun image_part_bytes :: "Json \<Rightarrow> ContentPart \<Rightarrow> nat option" where
  "image_part_bytes json (ImagePart url) = Some (IMAGE_PART_FRAME_BYTES + encoded_url_bytes json url)"
| "image_part_bytes json (TextPart t) = None"

fun blank_part :: "ContentPart \<Rightarrow> ContentPart" where
  "blank_part (ImagePart url) = ImagePart []"
| "blank_part (TextPart t) = TextPart t"

fun part_url_bytes :: "Json \<Rightarrow> ContentPart \<Rightarrow> nat" where
  "part_url_bytes json (ImagePart url) = encoded_url_bytes json url"
| "part_url_bytes json (TextPart t) = 0"

fun blank_image_urls :: "ConversationItem \<Rightarrow> ConversationItem" where
  "blank_image_urls (User u) = User (u\<lparr>ui_content := map blank_part (ui_content u)\<rparr>)"
| "blank_image_urls (ToolResult t) = ToolResult (t\<lparr>tr_images := map blank_part (tr_images t)\<rparr>)"
| "blank_image_urls x = x"

definition conversation_body_bytes :: "Json \<Rightarrow> ConversationItem list \<Rightarrow> nat" where
  "conversation_body_bytes json conversation =
     json_items json (map blank_image_urls conversation)
       + sum_list (map (\<lambda>x. sum_list (map (part_url_bytes json) (image_parts x))) conversation)"

section \<open>Eviction\<close>

datatype ImageLocation = UserImage nat nat | ToolResultImage nat

fun user_images :: "Json \<Rightarrow> nat \<Rightarrow> nat \<Rightarrow> ContentPart list \<Rightarrow> (ImageLocation \<times> nat) list" where
  "user_images json item k [] = []"
| "user_images json item k (p # ps) =
     (case p of ImagePart url \<Rightarrow> [(UserImage item k, IMAGE_PART_FRAME_BYTES + encoded_url_bytes json url)] | TextPart t \<Rightarrow> [])
       @ user_images json item (Suc k) ps"

definition tool_images :: "Json \<Rightarrow> nat \<Rightarrow> ContentPart list \<Rightarrow> (ImageLocation \<times> nat) list" where
  "tool_images json item ps =
     List.map_filter (\<lambda>p. map_option (Pair (ToolResultImage item)) (image_part_bytes json p)) ps"

fun images_from :: "Json \<Rightarrow> nat \<Rightarrow> ConversationItem list \<Rightarrow> (ImageLocation \<times> nat) list" where
  "images_from json item [] = []"
| "images_from json item (x # xs) =
     (case x of
        User u \<Rightarrow> user_images json item 0 (ui_content u)
      | ToolResult t \<Rightarrow> tool_images json item (tr_images t)
      | _ \<Rightarrow> []) @ images_from json (Suc item) xs"

text \<open>One image replaced; the result also says how the running size changes.\<close>

definition evict_image ::
    "Json \<Rightarrow> ImageLocation \<Rightarrow> nat \<Rightarrow> ConversationItem list \<Rightarrow> nat \<Rightarrow> (ConversationItem list \<times> nat) option" where
  "evict_image json location image_bytes conversation running =
     (let placeholder = TextPart IMAGE_COMPACT_PLACEHOLDER;
          placeholder_bytes = json_part json placeholder;
          tool_note_bytes = json_str json ([newline, newline] @ TOOL_IMAGE_COMPACT_NOTE) - 2 in
      case location of
        UserImage item k \<Rightarrow>
          (case get conversation item of
             Some (User u) \<Rightarrow>
               if k < length (ui_content u) then
                 Some (conversation[item := User (u\<lparr>ui_content := (ui_content u)[k := placeholder]\<rparr>)],
                   running - (image_bytes - placeholder_bytes))
               else None
           | _ \<Rightarrow> None)
      | ToolResultImage item \<Rightarrow>
          (case get conversation item of
             Some (ToolResult t) \<Rightarrow>
               (case position is_image (tr_images t) of
                  None \<Rightarrow> None
                | Some image_index \<Rightarrow>
                    (let images = remove_at image_index (tr_images t);
                         running = running - (image_bytes + (if images \<noteq> [] then 1 else 0)) in
                     if \<not> contains_sub (tr_content t) TOOL_IMAGE_COMPACT_NOTE then
                       Some (conversation[item := ToolResult (t\<lparr>tr_images := images,
                           tr_content := tr_content t @ [newline, newline] @ TOOL_IMAGE_COMPACT_NOTE\<rparr>)],
                         min (running + tool_note_bytes) usize_max)
                     else Some (conversation[item := ToolResult (t\<lparr>tr_images := images\<rparr>)], running)))
           | _ \<Rightarrow> None))"

fun evict_all ::
    "Json \<Rightarrow> nat \<Rightarrow> (ImageLocation \<times> nat) list \<Rightarrow> ConversationItem list \<Rightarrow> nat \<Rightarrow> nat \<Rightarrow> (ConversationItem list \<times> nat) option" where
  "evict_all json target_bytes [] conversation running evicted = Some (conversation, evicted)"
| "evict_all json target_bytes ((location, image_bytes) # images) conversation running evicted =
     (if running \<le> target_bytes then Some (conversation, evicted)
      else
        (case evict_image json location image_bytes conversation running of
           None \<Rightarrow> None
         | Some (conversation, running) \<Rightarrow> evict_all json target_bytes images conversation running (Suc evicted)))"

definition evict_images_to_budget ::
    "Json \<Rightarrow> ConversationItem list \<Rightarrow> nat \<Rightarrow> nat \<Rightarrow> (ConversationItem list \<times> nat) option" where
  "evict_images_to_budget json conversation current_bytes target_bytes =
     evict_all json target_bytes (images_from json 0 conversation) conversation current_bytes 0"

record ImageBudgetOutcome =
  ib_body_bytes :: nat
  ib_body_bytes_after :: nat
  ib_inline_images :: nat
  ib_needs_image_compaction :: bool
  ib_evicted :: nat

definition apply_image_budget_with_limits ::
    "Json \<Rightarrow> ConversationItem list \<Rightarrow> nat \<Rightarrow> nat \<Rightarrow> (ConversationItem list \<times> ImageBudgetOutcome) option" where
  "apply_image_budget_with_limits json items trigger_bytes reclaim_target_bytes =
     (let body_bytes = conversation_body_bytes json items;
          needs_image_compaction = body_bytes \<ge> trigger_bytes in
      case (if needs_image_compaction \<and> body_bytes > reclaim_target_bytes
            then evict_images_to_budget json items body_bytes reclaim_target_bytes else Some (items, 0)) of
        None \<Rightarrow> None
      | Some (items', evicted) \<Rightarrow>
          Some (items', \<lparr>ib_body_bytes = body_bytes,
            ib_body_bytes_after = (if evicted = 0 then body_bytes else conversation_body_bytes json items'),
            ib_inline_images = inline_image_count items,
            ib_needs_image_compaction = needs_image_compaction, ib_evicted = evicted\<rparr>))"

definition apply_image_budget :: "Json \<Rightarrow> ConversationItem list \<Rightarrow> (ConversationItem list \<times> ImageBudgetOutcome) option" where
  "apply_image_budget json items =
     apply_image_budget_with_limits json items IMAGE_COMPACT_TRIGGER_BYTES IMAGE_COMPACT_RECLAIM_TARGET_BYTES"

section \<open>Images that the server rejected\<close>

definition IMAGE_STRIP_PLACEHOLDER :: string where
  "IMAGE_STRIP_PLACEHOLDER = ''[image removed '' @ [CHR 0xE2, CHR 0x80, CHR 0x94] @ '' the server could not process it; its contents are unavailable. Ask the user to re-attach the image if it is still needed.]''"

fun strips_part :: "string list \<Rightarrow> ContentPart \<Rightarrow> bool" where
  "strips_part urls (ImagePart url) \<longleftrightarrow> url \<in> set urls"
| "strips_part urls (TextPart t) \<longleftrightarrow> False"

fun strip_images_item :: "string list \<Rightarrow> ConversationItem \<Rightarrow> ConversationItem \<times> nat" where
  "strip_images_item urls (User u) =
     (User (u\<lparr>ui_content := map (\<lambda>p. if strips_part urls p then TextPart IMAGE_STRIP_PLACEHOLDER else p) (ui_content u)\<rparr>),
      length (filter (strips_part urls) (ui_content u)))"
| "strip_images_item urls (ToolResult t) =
     (ToolResult (t\<lparr>tr_images := filter (\<lambda>p. \<not> strips_part urls p) (tr_images t)\<rparr>),
      length (filter (strips_part urls) (tr_images t)))"
| "strip_images_item urls x = (x, 0)"

definition strip_images_by_url :: "string list \<Rightarrow> ConversationItem list \<Rightarrow> ConversationItem list \<times> nat" where
  "strip_images_by_url urls items =
     (map (\<lambda>x. fst (strip_images_item urls x)) items, sum_list (map (\<lambda>x. snd (strip_images_item urls x)) items))"

section \<open>The shape of a conversation\<close>

text \<open>What pairs calls with results: two conversations of the same shape have the same open calls.\<close>

definition shape :: "ConversationItem list \<Rightarrow> (string option \<times> ToolCall list) list" where
  "shape = map (\<lambda>x. (result_id x, call_list x))"

lemma shape_simps [simp]:
  "shape [] = []" "shape (x # xs) = (result_id x, call_list x) # shape xs" "shape (xs @ ys) = shape xs @ shape ys"
  by (simp_all add: shape_def)

lemma shape_update: "i < length c \<Longrightarrow> result_id y = result_id (c ! i) \<Longrightarrow> call_list y = call_list (c ! i)
    \<Longrightarrow> shape (c[i := y]) = shape c"
  unfolding shape_def map_update by (rule trans [OF _ list_update_id [of _ i]]) simp

lemma shape_runs:
  assumes "shape c = shape d"
  shows "shape (takeWhile is_result c) = shape (takeWhile is_result d)"
    and "shape (dropWhile is_result c) = shape (dropWhile is_result d)"
    and "List.map_filter result_id c = List.map_filter result_id d"
proof -
  have r: "is_result = (\<lambda>(r, cs). r \<noteq> None) \<circ> (\<lambda>x. (result_id x, call_list x))"
    by (rule ext) (simp del: not_None_eq)
  show "shape (takeWhile is_result c) = shape (takeWhile is_result d)"
    and "shape (dropWhile is_result c) = shape (dropWhile is_result d)"
    using assms unfolding shape_def by (simp_all only: r takeWhile_map [symmetric] dropWhile_map [symmetric])
  have "List.map_filter result_id e = List.map_filter fst (shape e)" for e
    unfolding shape_def by (simp add: List.map_filter_def filter_map comp_def del: not_None_eq)
  with assms show "List.map_filter result_id c = List.map_filter result_id d" by metis
qed

lemma answered_shape:
  assumes "shape c = shape d" and "answer_calls reason c = c"
  shows "answer_calls reason d = d"
  using assms
proof (induction reason c arbitrary: d rule: answer_calls.induct)
  case (1 reason)
  then show ?case by (simp add: shape_def)
next
  case (2 reason x xs)
  then obtain y ys where d: "d = y # ys" and y: "result_id x = result_id y" "call_list x = call_list y"
    and ys: "shape xs = shape ys" by (cases d) auto
  show ?case
  proof (cases "call_list x = []")
    case True
    with "2.prems"(2) have "answer_calls reason xs = xs" by (simp add: answer_calls.simps(2))
    with "2.IH"(2) [OF _ ys] True have "answer_calls reason ys = ys" by simp
    with True y show ?thesis unfolding d by (simp add: answer_calls.simps(2))
  next
    case False
    let ?run = "takeWhile is_result xs" and ?rest = "dropWhile is_result xs"
    from "2.prems"(2) False have e: "?run @ missing_results reason x ?run @ answer_calls reason ?rest = xs"
      by (simp add: answer_calls.simps(2))
    then have m: "missing_results reason x ?run @ answer_calls reason ?rest = ?rest"
      by (metis append_eq_append_conv takeWhile_dropWhile_id)
    have "missing_results reason x ?run = []"
    proof (rule ccontr)
      assume "missing_results reason x ?run \<noteq> []"
      then obtain r rs where r: "missing_results reason x ?run = r # rs" by (cases "missing_results reason x ?run") auto
      then have "is_result r" using missing_results_are [of reason x ?run] by simp
      moreover have "?rest = r # rs @ answer_calls reason ?rest" using m r by simp
      ultimately show False using takeWhile_dropWhile_Nil [of xs] by (metis list.distinct(1) takeWhile.simps(2))
    qed
    moreover have "missing_results reason y (takeWhile is_result ys) = missing_results reason x ?run"
      unfolding missing_results_def using shape_runs(3) [OF shape_runs(1) [OF ys]] y by simp
    moreover from this have "answer_calls reason ?rest = ?rest" using m calculation by simp
    then have "answer_calls reason (dropWhile is_result ys) = dropWhile is_result ys"
      using "2.IH"(1) [OF False shape_runs(2) [OF ys]] by simp
    ultimately show ?thesis using False y d by (simp add: answer_calls.simps(2))
  qed
qed

section \<open>The oldest images go first\<close>

definition all_images :: "ConversationItem list \<Rightarrow> ContentPart list" where
  "all_images c = concat (map image_parts c)"

lemma all_images_simps [simp]: "all_images [] = []" "all_images (x # xs) = image_parts x @ all_images xs"
  by (simp_all add: all_images_def)

lemma inline_image_count_all: "inline_image_count c = length (all_images c)"
  by (induction c) (simp_all add: inline_image_count_def)

lemma user_images_Nil: "user_images json i k ps = [] \<longleftrightarrow> filter is_image ps = []"
  by (induction json i k ps rule: user_images.induct) (auto split: ContentPart.splits)

lemmas user_images_none = iffD2 [OF user_images_Nil]

lemma user_images_first:
  "user_images json i k ps = (loc, b) # r \<Longrightarrow>
     \<exists>j < length ps. loc = UserImage i (k + j) \<and> user_images json i k (ps[j := TextPart t]) = r
       \<and> filter is_image (ps[j := TextPart t]) = tl (filter is_image ps)"
proof (induction json i k ps rule: user_images.induct)
  case (2 json i k p ps)
  show ?case
  proof (cases p)
    case (ImagePart url)
    with 2 show ?thesis by (intro exI [of _ 0]) auto
  next
    case (TextPart s)
    with 2 obtain j where "j < length ps" "loc = UserImage i (Suc k + j)" "user_images json i (Suc k) (ps[j := TextPart t]) = r"
      "filter is_image (ps[j := TextPart t]) = tl (filter is_image ps)" by auto
    with TextPart show ?thesis by (intro exI [of _ "Suc j"]) auto
  qed
qed simp

lemma tool_images_simps [simp]:
  "tool_images json i [] = []"
  "tool_images json i (TextPart s # ps) = tool_images json i ps"
  "tool_images json i (ImagePart url # ps) =
     (ToolResultImage i, IMAGE_PART_FRAME_BYTES + encoded_url_bytes json url) # tool_images json i ps"
  by (simp_all add: tool_images_def List.map_filter_def)

lemma tool_images_Nil: "tool_images json i ps = [] \<longleftrightarrow> filter is_image ps = []"
proof (induction ps)
  case (Cons p ps)
  then show ?case by (cases p) simp_all
qed simp

lemmas tool_images_none = iffD2 [OF tool_images_Nil]

lemma tool_images_first:
  "tool_images json i ps = (loc, b) # r \<Longrightarrow>
     loc = ToolResultImage i \<and> (\<exists>j. position is_image ps = Some j \<and> tool_images json i (remove_at j ps) = r
       \<and> filter is_image (remove_at j ps) = tl (filter is_image ps))"
proof (induction ps)
  case (Cons p ps)
  then show ?case by (cases p) (auto simp: remove_at_def)
qed simp

lemma evict_first:
  assumes "images_from json (length pre) c = (loc, b) # rest"
  shows "\<exists>c' running'. evict_image json loc b (pre @ c) running = Some (pre @ c', running')
    \<and> images_from json (length pre) c' = rest \<and> shape c' = shape c \<and> all_images c' = tl (all_images c)"
  using assms
proof (induction c arbitrary: pre)
  case (Cons x xs)
  note prems = Cons.prems and IH = Cons.IH and user = user_images_first [where t = IMAGE_COMPACT_PLACEHOLDER]
  show ?case
  proof (cases "image_parts x")
    case Nil
    then have "images_from json (length (pre @ [x])) xs = (loc, b) # rest"
      using prems by (cases x) (simp_all add: user_images_none tool_images_none)
    from IH [OF this] obtain ys running' where ys: "evict_image json loc b (pre @ x # xs) running = Some (pre @ x # ys, running')"
      "images_from json (Suc (length pre)) ys = rest" "shape ys = shape xs" "all_images ys = tl (all_images xs)" by auto
    with Nil show ?thesis
      by (intro exI [of _ "x # ys"] exI [of _ running'], cases x)
        (simp_all add: user_images_none tool_images_none)
  next
    case more: (Cons p ps)
    then consider u where "x = User u" | t where "x = ToolResult t" by (cases x) auto
    then show ?thesis
    proof cases
      case 1
      then have ne: "user_images json (length pre) 0 (ui_content u) \<noteq> []" using more user_images_Nil by fastforce
      then obtain r where r: "user_images json (length pre) 0 (ui_content u) = (loc, b) # r"
        "rest = r @ images_from json (Suc (length pre)) xs"
        using prems 1 by (cases "user_images json (length pre) 0 (ui_content u)") auto
      from user [OF r(1)] obtain j where j: "j < length (ui_content u)" "loc = UserImage (length pre) j"
        "user_images json (length pre) 0 ((ui_content u)[j := TextPart IMAGE_COMPACT_PLACEHOLDER]) = r"
        "filter is_image ((ui_content u)[j := TextPart IMAGE_COMPACT_PLACEHOLDER]) = tl (filter is_image (ui_content u))" by auto
      let ?y = "User (u\<lparr>ui_content := (ui_content u)[j := TextPart IMAGE_COMPACT_PLACEHOLDER]\<rparr>)"
      show ?thesis using j r 1 more
        by (intro exI [of _ "?y # xs"]) (auto simp: evict_image_def get_def Let_def)
    next
      case 2
      then have ne: "tool_images json (length pre) (tr_images t) \<noteq> []" using more tool_images_Nil by fastforce
      then obtain r where r: "tool_images json (length pre) (tr_images t) = (loc, b) # r"
        "rest = r @ images_from json (Suc (length pre)) xs"
        using prems 2 by (cases "tool_images json (length pre) (tr_images t)") auto
      from tool_images_first [OF r(1)] obtain j where j: "loc = ToolResultImage (length pre)" "position is_image (tr_images t) = Some j"
        "tool_images json (length pre) (remove_at j (tr_images t)) = r"
        "filter is_image (remove_at j (tr_images t)) = tl (filter is_image (tr_images t))" by auto
      let ?content = "if \<not> contains_sub (tr_content t) TOOL_IMAGE_COMPACT_NOTE
        then tr_content t @ [newline, newline] @ TOOL_IMAGE_COMPACT_NOTE else tr_content t"
      let ?y = "ToolResult (t\<lparr>tr_images := remove_at j (tr_images t), tr_content := ?content\<rparr>)"
      show ?thesis using j r 2 more
        by (intro exI [of _ "?y # xs"]) (auto simp: evict_image_def get_def Let_def)
    qed
  qed
qed simp

lemma evict_all_oldest:
  "images_from json 0 c = images \<Longrightarrow>
     \<exists>c' n. evict_all json target images c running k = Some (c', k + n) \<and> n \<le> length images
       \<and> shape c' = shape c \<and> all_images c' = drop n (all_images c)"
proof (induction images arbitrary: c running k)
  case (Cons a images)
  obtain loc b where a: "a = (loc, b)" by (cases a)
  show ?case
  proof (cases "running \<le> target")
    case True
    then show ?thesis by (intro exI [of _ c] exI [of _ 0]) (simp add: a)
  next
    case False
    from evict_first [of json "[]" c loc b images running] Cons.prems obtain d running'
      where d: "evict_image json loc b c running = Some (d, running')" "images_from json 0 d = images"
        "shape d = shape c" "all_images d = tl (all_images c)" by (auto simp: a)
    from Cons.IH [OF d(2), of running' "Suc k"] obtain c' n where "evict_all json target images d running' (Suc k) = Some (c', Suc k + n)"
      "n \<le> length images" "shape c' = shape d" "all_images c' = drop n (all_images d)" by blast
    with d False show ?thesis
      by (intro exI [of _ c'] exI [of _ "Suc n"]) (simp add: a drop_Suc)
  qed
qed simp

lemma evict_all_zero: "evict_all json target images c running 0 = Some (c', 0) \<Longrightarrow> c' = c"
proof -
  have k: "evict_all json target images c running k = Some (c', n) \<Longrightarrow> k \<le> n \<and> (n = k \<longrightarrow> c' = c)" for k n
    by (induction json target images c running k rule: evict_all.induct) (fastforce split: if_splits option.splits prod.splits)+
  show "evict_all json target images c running 0 = Some (c', 0) \<Longrightarrow> c' = c" using k by blast
qed

lemma length_images_from: "length (images_from json i c) = inline_image_count c"
proof -
  have u: "length (user_images json i k ps) = length (filter is_image ps)" for json i k ps
    by (induction json i k ps rule: user_images.induct) (auto split: ContentPart.splits)
  have t: "length (tool_images json i ps) = length (filter is_image ps)" for json i ps
  proof (induction ps)
    case (Cons p ps)
    then show ?case by (cases p) simp_all
  qed simp
  show ?thesis by (induction json i c rule: images_from.induct)
      (auto simp: inline_image_count_def u t split: ConversationItem.splits)
qed

text \<open>
  C23: Fitting the images of a request into the byte budget never hits an \<open>unreachable!\<close>. A body below the trigger stays as it
  is; otherwise some number of images is evicted, at most as many as there are, always the oldest ones: the remaining images
  are the list of all images without its first entries, in order. Calls and results stay where they were.
\<close>

theorem image_budget_oldest_first:
  "\<exists>items' outcome. apply_image_budget_with_limits json items trigger_bytes reclaim_target_bytes = Some (items', outcome)
    \<and> ib_evicted outcome \<le> inline_image_count items
    \<and> all_images items' = drop (ib_evicted outcome) (all_images items)
    \<and> map result_id items' = map result_id items \<and> map call_list items' = map call_list items
    \<and> (ib_evicted outcome = 0 \<longleftrightarrow> items' = items)
    \<and> (ib_evicted outcome = 0 \<or>
         trigger_bytes \<le> conversation_body_bytes json items \<and> reclaim_target_bytes < conversation_body_bytes json items)"
proof (cases "trigger_bytes \<le> conversation_body_bytes json items \<and> reclaim_target_bytes < conversation_body_bytes json items")
  case True
  from evict_all_oldest [OF refl, of json reclaim_target_bytes items "conversation_body_bytes json items" 0]
  obtain c' n where c': "evict_images_to_budget json items (conversation_body_bytes json items) reclaim_target_bytes = Some (c', n)"
    "n \<le> inline_image_count items" "shape c' = shape items" "all_images c' = drop n (all_images items)"
    by (auto simp: evict_images_to_budget_def length_images_from)
  have "n = 0 \<longleftrightarrow> c' = items"
  proof
    assume "c' = items"
    then have "length (drop n (all_images items)) = length (all_images items)" using c'(4) by simp
    with c'(2) show "n = 0" by (auto simp: inline_image_count_all)
  next
    assume "n = 0"
    with c'(1) show "c' = items" unfolding evict_images_to_budget_def
      using evict_all_zero [of json] by blast
  qed
  moreover have "map result_id c' = map result_id items" "map call_list c' = map call_list items"
    using arg_cong [OF c'(3), of "map fst"] arg_cong [OF c'(3), of "map snd"] by (simp_all add: shape_def comp_def)
  ultimately show ?thesis using True c' by (auto simp: apply_image_budget_with_limits_def Let_def)
qed (auto simp: apply_image_budget_with_limits_def Let_def)

end
