(* ===== verification/Chat_State.thy ===== *)
theory Chat_State
  imports Image_Budget Usage_Ledger Float64 "HOL-Library.Monad_Syntax"
begin

text \<open>
  The state of a chat and everything that changes it (\<open>crates/codegen/xai-chat-state/src/actor/state.rs\<close>, \<open>mutations.rs\<close>,
  \<open>request_builder.rs\<close>, \<open>conversation_util.rs\<close>). One task owns the state and handles one command after the other, so an
  operation is a function on the actor. What the actor hands to its store and to the session are two logs of the actor. A panic
  (a slice inside a character while estimating a text) is the value \<open>None\<close>; \<open>u64\<close> and \<open>usize\<close> sums wrap as in a release build.
\<close>

section \<open>State\<close>

definition wrapping_add64 :: "nat \<Rightarrow> nat \<Rightarrow> nat" where
  "wrapping_add64 a b = (a + b) mod 2 ^ 64"

record PruningConfig =
  pc_enabled :: bool
  pc_keep_last_n_turns :: nat
  pc_soft_trim_threshold :: nat
  pc_soft_trim_head :: nat
  pc_soft_trim_tail :: nat
  pc_hard_clear_age_turns :: nat

definition default_pruning :: PruningConfig where
  "default_pruning = \<lparr>pc_enabled = True, pc_keep_last_n_turns = 3, pc_soft_trim_threshold = 4000, pc_soft_trim_head = 1500,
     pc_soft_trim_tail = 1500, pc_hard_clear_age_turns = 10\<rparr>"

text \<open>The fields that the actor reads; the others are carried along unread and are the value \<open>sc_options\<close>.\<close>

record 's SamplingConfig =
  sc_model :: string
  sc_context_window :: nat
  sc_options :: 's

datatype AuthType = SessionToken | ApiKey

record Credentials =
  api_key :: "string option"
  auth_type :: AuthType
  alpha_test_key :: "string option"
  client_version :: "string option"

definition no_credentials :: Credentials where
  "no_credentials = \<lparr>api_key = None, auth_type = SessionToken, alpha_test_key = None, client_version = None\<rparr>"

record TurnCaptureState =
  turn_start_offset :: nat
  pre_replacement_messages :: "ConversationItem list"
  compaction_occurred :: bool

record 's ChatState =
  cs_conversation :: "ConversationItem list"
  cs_sampling_config :: "'s SamplingConfig"
  cs_prompt_index :: nat
  cs_prompt_texts :: "string list"
  cs_total_tokens :: nat
  cs_stream_start_ms :: "int option"
  cs_turn_start_ms :: "int option"
  cs_agent_edited_paths :: "string set"
  cs_last_compaction_prompt_index :: "nat option"
  cs_credentials :: Credentials
  cs_estimated_tokens_since_model :: nat
  cs_estimate_at_last_response :: nat
  cs_last_turn_usage :: "TokenUsage option"
  cs_prompt_usage :: "UsageLedger option"
  cs_session_usage :: UsageLedger
  cs_turn_capture :: "TurnCaptureState option"
  cs_harness_trace_buffer :: "ConversationItem list"
  cs_harness_trace_turns :: "ConversationItem list list"

record 's ChatStateSnapshot =
  sn_conversation :: "ConversationItem list"
  sn_sampling_config :: "'s SamplingConfig"
  sn_prompt_index :: nat
  sn_total_tokens :: nat
  sn_estimate_at_last_response :: nat
  sn_agent_edited_paths :: "string set"
  sn_prompt_texts :: "string list"
  sn_stream_start_ms :: "int option"
  sn_turn_start_ms :: "int option"
  sn_last_compaction_prompt_index :: "nat option"
  sn_credentials :: Credentials

datatype ChatStateEvent =
    PromptIndexChanged nat
  | TokensUpdated nat
  | ConversationReset nat
  | ImageBudget nat nat ImageBudgetOutcome

datatype StrictAppendAck = Appended | AlreadyPresent ConversationItem
datatype StrictAppendError = NotCommitted | Committed StrictAppendAck | Indeterminate

text \<open>The calls of the store, with what it answers where it answers.\<close>

datatype PersistenceRecord =
    Message ConversationItem
  | AcknowledgedMessage ConversationItem "StrictAppendError + StrictAppendAck"
  | ReplaceHistory "ConversationItem list"
  | ReplaceHistoryForStrip "ConversationItem list" bool
  | FlushRecord

record 's ChatStateActor =
  act_state :: "'s ChatState"
  act_pruning_config :: PruningConfig
  act_persistence :: "PersistenceRecord list"
  act_events :: "ChatStateEvent list"

definition chat_state_new :: "ConversationItem list \<Rightarrow> 's SamplingConfig \<Rightarrow> 's ChatState option" where
  "chat_state_new history config =
     (let deduped = fst (dedup_duplicate_tool_results history);
          repaired = fst (repair_dangling_tool_calls UserCancelled deduped) in
      map_option (\<lambda>initial_tokens.
        \<lparr>cs_conversation = repaired, cs_sampling_config = config, cs_prompt_index = 0, cs_prompt_texts = [],
         cs_total_tokens = initial_tokens, cs_stream_start_ms = None, cs_turn_start_ms = None, cs_agent_edited_paths = {},
         cs_last_compaction_prompt_index = None, cs_credentials = no_credentials, cs_estimated_tokens_since_model = 0,
         cs_estimate_at_last_response = initial_tokens, cs_last_turn_usage = None, cs_prompt_usage = None,
         cs_session_usage = empty_ledger, cs_turn_capture = None, cs_harness_trace_buffer = [], cs_harness_trace_turns = []\<rparr>)
        (estimate_conversation_tokens repaired))"

definition spawn_with_pruning :: "ConversationItem list \<Rightarrow> 's SamplingConfig \<Rightarrow> PruningConfig \<Rightarrow> 's ChatStateActor option" where
  "spawn_with_pruning history config pruning =
     map_option (\<lambda>st. \<lparr>act_state = st, act_pruning_config = pruning, act_persistence = [], act_events = []\<rparr>)
       (chat_state_new history config)"

definition seal_harness_trace_turn :: "'s ChatState \<Rightarrow> 's ChatState" where
  "seal_harness_trace_turn st =
     (if cs_harness_trace_buffer st \<noteq> [] then
        st\<lparr>cs_harness_trace_turns := cs_harness_trace_turns st @ [cs_harness_trace_buffer st], cs_harness_trace_buffer := []\<rparr>
      else st)"

section \<open>The log of the store, events, the capture of a turn\<close>

definition on_state :: "('s ChatState \<Rightarrow> 's ChatState) \<Rightarrow> 's ChatStateActor \<Rightarrow> 's ChatStateActor" where
  "on_state f a = a\<lparr>act_state := f (act_state a)\<rparr>"

definition persist :: "PersistenceRecord \<Rightarrow> 's ChatStateActor \<Rightarrow> 's ChatStateActor" where
  "persist r a = a\<lparr>act_persistence := act_persistence a @ [r]\<rparr>"

definition send_event :: "ChatStateEvent \<Rightarrow> 's ChatStateActor \<Rightarrow> 's ChatStateActor" where
  "send_event e a = a\<lparr>act_events := act_events a @ [e]\<rparr>"

abbreviation history :: "'s ChatStateActor \<Rightarrow> ConversationItem list" where
  "history a \<equiv> cs_conversation (act_state a)"

text \<open>An offset behind the end is an empty slice; a debug build stops there.\<close>

definition turn_tail :: "ConversationItem list \<Rightarrow> nat \<Rightarrow> ConversationItem list" where
  "turn_tail c offset = (case get_from c offset of Some xs \<Rightarrow> xs | None \<Rightarrow> [])"

definition snapshot_turn_slice :: "'s ChatState \<Rightarrow> 's ChatState" where
  "snapshot_turn_slice st =
     (case cs_turn_capture st of
        None \<Rightarrow> st
      | Some cap \<Rightarrow>
          st\<lparr>cs_turn_capture := Some (cap\<lparr>pre_replacement_messages :=
            pre_replacement_messages cap @ turn_tail (cs_conversation st) (turn_start_offset cap)\<rparr>)\<rparr>)"

definition rebase_turn_capture_offset :: "'s ChatState \<Rightarrow> 's ChatState" where
  "rebase_turn_capture_offset st =
     (case cs_turn_capture st of
        None \<Rightarrow> st
      | Some cap \<Rightarrow> st\<lparr>cs_turn_capture := Some (cap\<lparr>turn_start_offset := length (cs_conversation st)\<rparr>)\<rparr>)"

section \<open>Rewrites in place\<close>

datatype HistoryRewrite = IntegrityRepair | RetainedPrune | ImageStrip

text \<open>\<open>disk_ok\<close> is the answer of the store to the rewrite of a strip.\<close>

definition rewrite_history ::
    "HistoryRewrite \<Rightarrow> (ConversationItem list \<Rightarrow> ConversationItem list \<times> nat) \<Rightarrow> bool \<Rightarrow> 's ChatStateActor \<Rightarrow> 's ChatStateActor \<times> nat" where
  "rewrite_history kind mutate disk_ok a =
     (let snapshots_capture = (kind = IntegrityRepair);
          a = (if snapshots_capture then on_state snapshot_turn_slice a else a);
          (c, changed) = mutate (history a);
          a = on_state (\<lambda>st. st\<lparr>cs_conversation := c\<rparr>) a;
          a = (if changed > 0
               then persist (if kind = ImageStrip then ReplaceHistoryForStrip c disk_ok else ReplaceHistory c) a else a);
          a = (if snapshots_capture then on_state rebase_turn_capture_offset a else a) in
      (a, changed))"

definition repair_in_place :: "DanglingToolCallReason \<Rightarrow> ConversationItem list \<Rightarrow> ConversationItem list \<times> nat" where
  "repair_in_place reason c =
     (let (c, deduped) = dedup_duplicate_tool_results c; (c, repaired) = repair_dangling_tool_calls reason c in
      (c, repaired + deduped))"

definition ensure_conversation_integrity_with_reason :: "DanglingToolCallReason \<Rightarrow> 's ChatStateActor \<Rightarrow> 's ChatStateActor" where
  "ensure_conversation_integrity_with_reason reason a = fst (rewrite_history IntegrityRepair (repair_in_place reason) True a)"

definition ensure_conversation_integrity :: "'s ChatStateActor \<Rightarrow> 's ChatStateActor" where
  "ensure_conversation_integrity = ensure_conversation_integrity_with_reason UserCancelled"

fun is_continue_reminder :: "ConversationItem \<Rightarrow> bool" where
  "is_continue_reminder (User u) \<longleftrightarrow> ui_synthetic_reason u = Some LengthContinue"
| "is_continue_reminder _ \<longleftrightarrow> False"

text \<open>\<open>while matches!(conversation.last(), ..) { conversation.pop(); stranded += 1 }\<close>.\<close>

function pop_reminders :: "ConversationItem list \<Rightarrow> ConversationItem list \<times> nat" where
  "pop_reminders c =
     (if c \<noteq> [] \<and> is_continue_reminder (last c)
      then (let (c', n) = pop_reminders (butlast c) in (c', Suc n)) else (c, 0))"
  by pat_completeness auto
termination by (relation "measure length") auto

declare pop_reminders.simps [simp del]

definition pop_stranded_continue_reminder :: "'s ChatStateActor \<Rightarrow> 's ChatStateActor" where
  "pop_stranded_continue_reminder a =
     (if history a \<noteq> [] \<and> is_continue_reminder (last (history a))
      then fst (rewrite_history IntegrityRepair pop_reminders True a) else a)"

definition repair_dangling_after_harness_halt :: "string \<Rightarrow> 's ChatStateActor \<Rightarrow> 's ChatStateActor" where
  "repair_dangling_after_harness_halt cls a =
     ensure_conversation_integrity_with_reason (HarnessHalted cls) (pop_stranded_continue_reminder a)"

definition strip_conversation_images :: "string list \<Rightarrow> bool \<Rightarrow> 's ChatStateActor \<Rightarrow> 's ChatStateActor \<times> nat option" where
  "strip_conversation_images urls disk_ok a =
     (let (a, stripped) = rewrite_history ImageStrip (strip_images_by_url urls) disk_ok a in
      (a, if stripped > 0 then Some stripped else None))"

section \<open>Pruning of old tool results\<close>

definition HARD_CLEAR_PLACEHOLDER :: string where
  "HARD_CLEAR_PLACEHOLDER = ''[Tool result omitted '' @ [CHR 0xE2, CHR 0x80, CHR 0x94] @ '' too old]''"

definition SOFT_TRIM_SEPARATOR :: string where
  "SOFT_TRIM_SEPARATOR = [newline, newline] @ ''['' @ [CHR 0xE2, CHR 0x80, CHR 0xA6] @ ''trimmed'' @ [CHR 0xE2, CHR 0x80, CHR 0xA6]
     @ '']'' @ [newline, newline]"

text \<open>\<open>s.chars()\<close>: a character is a byte and the continuation bytes behind it.\<close>

function str_chars :: "string \<Rightarrow> string list" where
  "str_chars [] = []"
| "str_chars (b # s) = (b # takeWhile (byte_between 0x80 0xBF) s) # str_chars (dropWhile (byte_between 0x80 0xBF) s)"
  by pat_completeness auto
termination by (relation "measure length") (auto simp: le_imp_less_Suc length_dropWhile_le)

definition safe_char_slice :: "string \<Rightarrow> nat \<Rightarrow> nat \<Rightarrow> string" where
  "safe_char_slice s start n = concat (take n (drop start (str_chars s)))"

definition safe_char_slice_tail :: "string \<Rightarrow> nat \<Rightarrow> string" where
  "safe_char_slice_tail s n =
     (let total = length (str_chars s) in if n \<ge> total then s else concat (drop (total - n) (str_chars s)))"

text \<open>The walk from the end; the list is reversed. The argument says what to do with a result of a given age.\<close>

fun walk_back_turns :: "(nat \<Rightarrow> string \<Rightarrow> string) \<Rightarrow> nat \<Rightarrow> bool \<Rightarrow> ConversationItem list \<Rightarrow> ConversationItem list" where
  "walk_back_turns edit turn_from_end seen [] = []"
| "walk_back_turns edit turn_from_end seen (x # xs) =
     (case x of
        User u \<Rightarrow> x # walk_back_turns edit (if seen then Suc turn_from_end else turn_from_end) True xs
      | ToolResult t \<Rightarrow>
          ToolResult (t\<lparr>tr_content := edit turn_from_end (tr_content t)\<rparr>) # walk_back_turns edit turn_from_end seen xs
      | _ \<Rightarrow> x # walk_back_turns edit turn_from_end seen xs)"

definition prune_result :: "PruningConfig \<Rightarrow> nat \<Rightarrow> string \<Rightarrow> string" where
  "prune_result config turn_from_end content =
     (if turn_from_end < pc_keep_last_n_turns config then content
      else if turn_from_end \<ge> pc_hard_clear_age_turns config then HARD_CLEAR_PLACEHOLDER
      else if length (str_chars content) > pc_soft_trim_threshold config then
        safe_char_slice content 0 (pc_soft_trim_head config) @ SOFT_TRIM_SEPARATOR
          @ safe_char_slice_tail content (pc_soft_trim_tail config)
      else content)"

definition prune_conversation :: "PruningConfig \<Rightarrow> ConversationItem list \<Rightarrow> ConversationItem list" where
  "prune_conversation config c =
     (if \<not> pc_enabled config then c else rev (walk_back_turns (prune_result config) 0 False (rev c)))"

definition should_prune :: "nat \<Rightarrow> nat \<Rightarrow> bool" where
  "should_prune total_tokens context_window \<longleftrightarrow> total_tokens > context_window div 2"

definition clear_result :: "nat \<Rightarrow> nat \<Rightarrow> string \<Rightarrow> string" where
  "clear_result threshold turn_from_end content = (if turn_from_end < threshold then content else HARD_CLEAR_PLACEHOLDER)"

text \<open>The rewritten list and in how many places it differs: an item counts when its text was not the placeholder already.\<close>

definition hard_clear :: "nat \<Rightarrow> ConversationItem list \<Rightarrow> ConversationItem list \<times> nat" where
  "hard_clear threshold c =
     (let c' = rev (walk_back_turns (clear_result threshold) 0 False (rev c)) in
      (c', length (filter (\<lambda>(x, y). x \<noteq> y) (zip c c'))))"

fun item_content_bytes :: "ConversationItem \<Rightarrow> nat option" where
  "item_content_bytes (System s) = Some (length s)"
| "item_content_bytes (User u) =
     Some (sum_list (map (\<lambda>p. case p of TextPart t \<Rightarrow> length t | ImagePart url \<Rightarrow> length url) (ui_content u)))"
| "item_content_bytes (Assistant a) = Some (length (ai_content a))"
| "item_content_bytes (ToolResult t) = Some (length (tr_content t))"
| "item_content_bytes (BackendToolCall b) = map_option length (text_summary b)"
| "item_content_bytes (Reasoning r) =
     Some (length (reasoning_item_text r) + (case ri_encrypted r of None \<Rightarrow> 0 | Some e \<Rightarrow> length e))"

definition conversation_content_bytes :: "ConversationItem list \<Rightarrow> nat option" where
  "conversation_content_bytes c =
     (if list_ex (\<lambda>x. item_content_bytes x = None) c then None else Some (sum_list (List.map_filter item_content_bytes c)))"

definition prune_retained_conversation :: "'s ChatStateActor \<Rightarrow> 's ChatStateActor option" where
  "prune_retained_conversation a =
     (let config = act_pruning_config a; st = act_state a in
      if \<not> pc_enabled config then Some a
      else if cs_prompt_index st < pc_hard_clear_age_turns config then Some a
      else
        (let total_user_items = length (filter is_user (cs_conversation st));
             synthetic_count = total_user_items - cs_prompt_index st;
             effective_threshold = min (pc_hard_clear_age_turns config + synthetic_count) usize_max in
         do {
           _ \<leftarrow> conversation_content_bytes (cs_conversation st);
           let (a, cleared) = rewrite_history RetainedPrune (hard_clear effective_threshold) True a;
           _ \<leftarrow> (if cleared > 0 then conversation_content_bytes (history a) else Some 0);
           Some a
         }))"

section \<open>Pushing items\<close>

definition add_estimate :: "nat \<Rightarrow> 's ChatStateActor \<Rightarrow> 's ChatStateActor" where
  "add_estimate n = on_state (\<lambda>st. st\<lparr>cs_estimated_tokens_since_model := wrapping_add64 (cs_estimated_tokens_since_model st) n\<rparr>)"

definition persist_and_push_message :: "ConversationItem \<Rightarrow> 's ChatStateActor \<Rightarrow> 's ChatStateActor" where
  "persist_and_push_message item a =
     on_state (\<lambda>st. st\<lparr>cs_conversation := cs_conversation st @ [item]\<rparr>) (persist (Message item) a)"

fun is_assistant :: "ConversationItem \<Rightarrow> bool" where
  "is_assistant (Assistant _) \<longleftrightarrow> True"
| "is_assistant _ \<longleftrightarrow> False"

definition push_message :: "ConversationItem \<Rightarrow> 's ChatStateActor \<Rightarrow> 's ChatStateActor option" where
  "push_message item a =
     (if is_assistant item then Some (persist_and_push_message item a)
      else map_option (\<lambda>n. persist_and_push_message item (add_estimate n a)) (estimate_item_tokens item))"

definition push_model_output :: "ConversationItem \<Rightarrow> 's ChatStateActor \<Rightarrow> 's ChatStateActor" where
  "push_model_output item a = persist_and_push_message item a"

definition push_unreported_model_output :: "ConversationItem \<Rightarrow> 's ChatStateActor \<Rightarrow> 's ChatStateActor option" where
  "push_unreported_model_output item a =
     map_option (\<lambda>n. persist_and_push_message item (add_estimate n a)) (estimate_item_tokens item)"

text \<open>The items that show that a trailing reminder to continue is dead.\<close>

fun ends_continuation :: "ConversationItem \<Rightarrow> bool" where
  "ends_continuation (User u) \<longleftrightarrow>
     (case ui_synthetic_reason u of
        None \<Rightarrow> True
      | Some r \<Rightarrow> starts_prompt_turn r
          \<or> r \<in> {AutoRecovery, StopHookFeedback, GoalSummary, WorkingDirectorySwitch, InterjectionReason})"
| "ends_continuation _ \<longleftrightarrow> False"

definition push_user_message_with_repair_reason ::
    "ConversationItem \<Rightarrow> DanglingToolCallReason \<Rightarrow> 's ChatStateActor \<Rightarrow> 's ChatStateActor option" where
  "push_user_message_with_repair_reason item reason a =
     (let a = (if ends_continuation item then pop_stranded_continue_reminder a else a);
          a = ensure_conversation_integrity_with_reason reason a in
      do {
        estimated_tokens \<leftarrow> estimate_item_tokens item;
        prune_retained_conversation (persist_and_push_message item (add_estimate estimated_tokens a))
      })"

definition push_user_message :: "ConversationItem \<Rightarrow> 's ChatStateActor \<Rightarrow> 's ChatStateActor option" where
  "push_user_message item = push_user_message_with_repair_reason item UserCancelled"

fun push_user_messages :: "ConversationItem list \<Rightarrow> 's ChatStateActor \<Rightarrow> 's ChatStateActor option" where
  "push_user_messages [] a = Some a"
| "push_user_messages (x # xs) a = Option.bind (push_user_message x a) (push_user_messages xs)"

section \<open>A switch of the working directory\<close>

definition working_directory_switch :: "string \<Rightarrow> nat \<Rightarrow> ConversationItem" where
  "working_directory_switch content generation = User \<lparr>ui_content = [TextPart content],
     ui_synthetic_reason = Some WorkingDirectorySwitch, ui_cwd_generation = Some generation,
     ui_prior_turn_interrupt = None, ui_prompt_index = None\<rparr>"

fun working_directory_switch_generation :: "ConversationItem \<Rightarrow> nat option" where
  "working_directory_switch_generation (User u) =
     (if ui_synthetic_reason u = Some WorkingDirectorySwitch then ui_cwd_generation u else None)"
| "working_directory_switch_generation _ = None"

definition converge_working_directory_switch :: "nat \<Rightarrow> ConversationItem \<Rightarrow> 's ChatStateActor \<Rightarrow> 's ChatStateActor option" where
  "converge_working_directory_switch generation authoritative a =
     (case position (\<lambda>x. working_directory_switch_generation x = Some generation) (history a) of
        Some i \<Rightarrow>
          do {
            old_tokens \<leftarrow> estimate_item_tokens (history a ! i);
            new_tokens \<leftarrow> estimate_item_tokens authoritative;
            Some (on_state (\<lambda>st. st\<lparr>
              cs_estimated_tokens_since_model :=
                (if new_tokens \<ge> old_tokens
                 then sat_add64 (cs_estimated_tokens_since_model st) (new_tokens - old_tokens)
                 else cs_estimated_tokens_since_model st - (old_tokens - new_tokens)),
              cs_conversation := (cs_conversation st)[i := authoritative]\<rparr>) a)
          }
      | None \<Rightarrow>
          map_option (\<lambda>n. on_state (\<lambda>st. st\<lparr>cs_conversation := cs_conversation st @ [authoritative]\<rparr>) (add_estimate n a))
            (estimate_item_tokens authoritative))"

definition authoritative_switch :: "ConversationItem \<Rightarrow> StrictAppendError + StrictAppendAck \<Rightarrow> ConversationItem option" where
  "authoritative_switch candidate result =
     (case result of
        Inr Appended \<Rightarrow> Some candidate
      | Inl (Committed Appended) \<Rightarrow> Some candidate
      | Inr (AlreadyPresent x) \<Rightarrow> Some x
      | Inl (Committed (AlreadyPresent x)) \<Rightarrow> Some x
      | Inl _ \<Rightarrow> None)"

text \<open>\<open>answer\<close> is what the store sends back; a dropped channel counts as not known.\<close>

definition append_working_directory_switch ::
    "string \<Rightarrow> nat \<Rightarrow> (StrictAppendError + StrictAppendAck) option \<Rightarrow> 's ChatStateActor
      \<Rightarrow> ('s ChatStateActor \<times> (StrictAppendError + StrictAppendAck)) option" where
  "append_working_directory_switch content generation answer a =
     (let candidate = working_directory_switch content generation;
          a = pop_stranded_continue_reminder a;
          result = (case answer of Some r \<Rightarrow> r | None \<Rightarrow> Inl Indeterminate);
          a = persist (AcknowledgedMessage candidate result) a in
      case authoritative_switch candidate result of
        Some authoritative \<Rightarrow> map_option (\<lambda>a. (a, result)) (converge_working_directory_switch generation authoritative a)
      | None \<Rightarrow> Some (a, result))"

section \<open>Tokens and usage\<close>

definition record_token_usage :: "nat \<Rightarrow> 's ChatStateActor \<Rightarrow> 's ChatStateActor option" where
  "record_token_usage total_tokens a =
     map_option (\<lambda>n. send_event (TokensUpdated total_tokens)
         (on_state (\<lambda>st. st\<lparr>cs_estimated_tokens_since_model := 0, cs_estimate_at_last_response := n, cs_total_tokens := total_tokens\<rparr>) a))
       (estimate_conversation_tokens (history a))"

definition record_last_turn_usage :: "TokenUsage \<Rightarrow> 's ChatState \<Rightarrow> 's ChatState" where
  "record_last_turn_usage usage st = st\<lparr>cs_last_turn_usage := Some usage\<rparr>"

definition prompt_ledger :: "'s ChatState \<Rightarrow> UsageLedger" where
  "prompt_ledger st = (case cs_prompt_usage st of Some l \<Rightarrow> l | None \<Rightarrow> empty_ledger)"

definition record_model_call_usage ::
    "string option \<Rightarrow> TokenUsage \<Rightarrow> nat option \<Rightarrow> int option \<Rightarrow> 's ChatState \<Rightarrow> 's ChatState" where
  "record_model_call_usage model_id usage duration cost st =
     (let model_key = (case model_id of Some i \<Rightarrow> if i \<noteq> [] then i else sc_model (cs_sampling_config st)
                       | None \<Rightarrow> sc_model (cs_sampling_config st)) in
      st\<lparr>cs_prompt_usage := Some (record_main_loop_call model_key usage duration cost (prompt_ledger st)),
         cs_session_usage := record_main_loop_call model_key usage duration cost (cs_session_usage st)\<rparr>)"

definition record_subagent_usage :: "(string \<times> UsageTotals) list \<Rightarrow> bool \<Rightarrow> bool \<Rightarrow> 's ChatState \<Rightarrow> 's ChatState" where
  "record_subagent_usage usages attribute_to_prompt partial st =
     (if usages = [] \<and> \<not> partial then st
      else
        (let st = (if attribute_to_prompt
                   then st\<lparr>cs_prompt_usage := Some (record_subagent usages partial (prompt_ledger st))\<rparr> else st) in
         st\<lparr>cs_session_usage := record_subagent usages partial (cs_session_usage st)\<rparr>))"

definition mark_usage_incomplete :: "bool \<Rightarrow> bool \<Rightarrow> 's ChatState \<Rightarrow> 's ChatState" where
  "mark_usage_incomplete prompt session st =
     (let st = (if prompt then st\<lparr>cs_prompt_usage := Some (mark_incomplete (prompt_ledger st))\<rparr> else st) in
      if session then st\<lparr>cs_session_usage := mark_incomplete (cs_session_usage st)\<rparr> else st)"

definition increment_prompt_index :: "'s ChatStateActor \<Rightarrow> 's ChatStateActor" where
  "increment_prompt_index a =
     (let n = wrapping_add64 (cs_prompt_index (act_state a)) 1 in
      send_event (PromptIndexChanged n) (on_state (\<lambda>st. st\<lparr>cs_prompt_usage := None, cs_prompt_index := n\<rparr>) a))"

text \<open>\<open>(base as f64 * (total as f64 / estimate as f64)).round() as u64\<close>.\<close>

definition scaled_estimate :: "nat \<Rightarrow> nat \<Rightarrow> nat \<Rightarrow> nat" where
  "scaled_estimate base_estimate pre_total estimate =
     (let f = (\<lambda>n. f64_nearest (of_nat n)); ratio = f64_nearest (f pre_total / f estimate) in
      f64_as_u64 (f64_round (f64_nearest (f base_estimate * ratio))))"

definition reseed_total_tokens :: "nat \<Rightarrow> 's ChatState \<Rightarrow> nat" where
  "reseed_total_tokens base_estimate st =
     (let pre_replace_total = cs_total_tokens st;
          estimated_tokens =
            (if pre_replace_total > 0 \<and> cs_estimate_at_last_response st > 0
             then scaled_estimate base_estimate pre_replace_total (cs_estimate_at_last_response st) else base_estimate) in
      if pre_replace_total > 0 then min estimated_tokens pre_replace_total else estimated_tokens)"

section \<open>Replacing the history\<close>

definition mark_compaction :: "'s ChatState \<Rightarrow> 's ChatState" where
  "mark_compaction st =
     (case cs_turn_capture st of None \<Rightarrow> st | Some cap \<Rightarrow> st\<lparr>cs_turn_capture := Some (cap\<lparr>compaction_occurred := True\<rparr>)\<rparr>)"

definition replace_conversation :: "ConversationItem list \<Rightarrow> bool \<Rightarrow> 's ChatStateActor \<Rightarrow> 's ChatStateActor option" where
  "replace_conversation items is_compaction a =
     (let a = on_state snapshot_turn_slice a;
          a = (if is_compaction then on_state mark_compaction a else a);
          a = persist (ReplaceHistory items) a in
      do {
        base_estimate \<leftarrow> estimate_conversation_tokens items;
        let estimated_tokens = reseed_total_tokens base_estimate (act_state a);
        let a = on_state (\<lambda>st. st\<lparr>cs_conversation := items, cs_estimated_tokens_since_model := 0,
              cs_total_tokens := estimated_tokens, cs_estimate_at_last_response := base_estimate\<rparr>) a;
        let a = on_state rebase_turn_capture_offset a;
        Some (send_event (TokensUpdated estimated_tokens) (send_event (ConversationReset (length items)) a))
      })"

text \<open>
  The repair out of band takes the conversation out of the state before it replaces it, so the snapshot of an active capture
  sees an empty list. The refusal while a turn is running is the caller's flag.
\<close>

definition repair_history_command ::
    "bool \<Rightarrow> 's ChatStateActor \<Rightarrow> ('s ChatStateActor \<times> HistoryRepairReport) option" where
  "repair_history_command dry_run a =
     (let (items, report) = repair_history (history a) in
      if dry_run then Some (a, report)
      else if changed report then
        map_option (\<lambda>a. (a, report)) (replace_conversation items False (on_state (\<lambda>st. st\<lparr>cs_conversation := []\<rparr>) a))
      else Some (on_state (\<lambda>st. st\<lparr>cs_conversation := items\<rparr>) a, report))"

definition trim_end_where :: "(char \<Rightarrow> bool) \<Rightarrow> string \<Rightarrow> string" where
  "trim_end_where p s = rev (dropWhile p (rev s))"

definition canonical_system_prompt_eq :: "string \<Rightarrow> string \<Rightarrow> bool" where
  "canonical_system_prompt_eq a b \<longleftrightarrow>
     trim_end_where (\<lambda>c. c \<in> {CHR 0x0A, CHR 0x0D}) a = trim_end_where (\<lambda>c. c \<in> {CHR 0x0A, CHR 0x0D}) b"

fun replace_or_insert_system_head :: "string \<Rightarrow> ConversationItem list \<Rightarrow> ConversationItem list \<times> bool" where
  "replace_or_insert_system_head prompt (System content # rest) =
     (if canonical_system_prompt_eq content prompt then (System content # rest, False) else (System prompt # rest, True))"
| "replace_or_insert_system_head prompt c = (System prompt # c, True)"

definition replace_system_head :: "string \<Rightarrow> 's ChatStateActor \<Rightarrow> ('s ChatStateActor \<times> bool) option" where
  "replace_system_head prompt a =
     (case history a of
        System content # rest \<Rightarrow>
          if canonical_system_prompt_eq content prompt then Some (a, False)
          else
            (let (c, changed) = replace_or_insert_system_head prompt (history a) in
             map_option (\<lambda>a. (a, changed)) (replace_conversation c False a))
      | _ \<Rightarrow>
          (let (c, changed) = replace_or_insert_system_head prompt (history a) in
           map_option (\<lambda>a. (a, changed)) (replace_conversation c False a)))"

definition restore_snapshot :: "'s ChatStateSnapshot \<Rightarrow> 's ChatStateActor \<Rightarrow> 's ChatStateActor option" where
  "restore_snapshot snap a =
     (let a = on_state (\<lambda>st. rebase_turn_capture_offset ((snapshot_turn_slice st)\<lparr>cs_conversation := sn_conversation snap\<rparr>)) a in
      do {
        n \<leftarrow> (if sn_estimate_at_last_response snap > 0 then Some (sn_estimate_at_last_response snap)
             else estimate_conversation_tokens (history a));
        Some (on_state (\<lambda>st. st\<lparr>
          cs_sampling_config := sn_sampling_config snap, cs_prompt_index := sn_prompt_index snap,
          cs_total_tokens := sn_total_tokens snap, cs_estimated_tokens_since_model := 0, cs_estimate_at_last_response := n,
          cs_agent_edited_paths := sn_agent_edited_paths snap, cs_prompt_texts := sn_prompt_texts snap,
          cs_stream_start_ms := sn_stream_start_ms snap, cs_turn_start_ms := sn_turn_start_ms snap,
          cs_last_compaction_prompt_index := sn_last_compaction_prompt_index snap, cs_credentials := sn_credentials snap,
          cs_prompt_usage := None\<rparr>) a)
      })"

text \<open>The rewind to a prompt: the position of the user item with that number.\<close>

fun nth_user_from :: "nat \<Rightarrow> nat \<Rightarrow> ConversationItem list \<Rightarrow> nat \<Rightarrow> nat" where
  "nth_user_from target user_count [] i = i"
| "nth_user_from target user_count (x # xs) i =
     (if is_user x then (if user_count = target then i else nth_user_from target (Suc user_count) xs (Suc i))
      else nth_user_from target user_count xs (Suc i))"

definition truncate_to_prompt_index :: "nat \<Rightarrow> 's ChatStateActor \<Rightarrow> 's ChatStateActor option" where
  "truncate_to_prompt_index target a =
     (if target \<ge> cs_prompt_index (act_state a) then Some a
      else
        (let c = take (nth_user_from target 0 (history a) 0) (history a);
             a = on_state (\<lambda>st. st\<lparr>cs_conversation := c, cs_prompt_texts := take target (cs_prompt_texts st),
               cs_prompt_index := target\<rparr>) a in
         map_option (\<lambda>base_estimate.
           send_event (ConversationReset (length c)) (persist (ReplaceHistory c)
             (on_state (\<lambda>st. st\<lparr>cs_total_tokens := reseed_total_tokens base_estimate st,
               cs_estimated_tokens_since_model := 0, cs_estimate_at_last_response := base_estimate\<rparr>) a)))
           (estimate_conversation_tokens c)))"

section \<open>Requests\<close>

definition MEMORY_CONTEXT_OPEN_TAG :: string where "MEMORY_CONTEXT_OPEN_TAG = ''<memory-context>''"

abbreviation trim_newlines_end :: "string \<Rightarrow> string" where
  "trim_newlines_end \<equiv> trim_end_where (\<lambda>c. c = newline)"

definition upsert_memory_reminder_text :: "string \<Rightarrow> string \<Rightarrow> string \<times> bool" where
  "upsert_memory_reminder_text system_prompt reminder =
     (let updated =
        (case find_str system_prompt MEMORY_CONTEXT_OPEN_TAG of
           Some idx \<Rightarrow>
             (let prefix_len = length (trim_newlines_end (take idx system_prompt));
                  before = trim_newlines_end (take prefix_len system_prompt) in
              if before = [] then reminder else before @ [newline, newline] @ reminder)
         | None \<Rightarrow>
             if trim_end system_prompt = reminder then system_prompt
             else if system_prompt = [] then reminder
             else trim_newlines_end system_prompt @ [newline, newline] @ reminder) in
      (updated, updated \<noteq> system_prompt))"

fun inject_memory_reminder :: "ConversationItem list \<Rightarrow> string \<Rightarrow> ConversationItem list \<times> bool" where
  "inject_memory_reminder items reminder =
     (let reminder = trim reminder in
      if reminder = [] then (items, False)
      else
        (case items of
           System content # rest \<Rightarrow>
             (let (content, changed) = upsert_memory_reminder_text content reminder in (System content # rest, changed))
         | _ \<Rightarrow> (System reminder # items, True)))"

declare inject_memory_reminder.simps [simp del]

text \<open>The parts of a request that vary; the remaining fields are the same in every request that is built here.\<close>

record ('s, 't) ConversationRequest =
  rq_items :: "ConversationItem list"
  rq_tools :: "'t list"
  rq_model :: string
  rq_options :: 's
  rq_conv_id :: string
  rq_req_id :: string

text \<open>The reminder goes into the history itself when it is to persist, otherwise into the copy.\<close>

definition persist_reminder :: "string option \<Rightarrow> bool \<Rightarrow> 's ChatStateActor \<Rightarrow> 's ChatStateActor \<times> string option" where
  "persist_reminder memory_reminder persist_memory_reminder a =
     (case memory_reminder of
        Some reminder \<Rightarrow>
          if persist_memory_reminder then
            (let a = on_state snapshot_turn_slice a;
                 (c, injected) = inject_memory_reminder (history a) reminder;
                 a = on_state (\<lambda>st. st\<lparr>cs_conversation := c\<rparr>) a;
                 a' = (if injected then persist (ReplaceHistory c) a else a) in
             (on_state rebase_turn_capture_offset a', if injected then None else memory_reminder))
          else (a, memory_reminder)
      | None \<Rightarrow> (a, None))"

definition build_conversation_request ::
    "Json \<Rightarrow> 't list \<Rightarrow> string option \<Rightarrow> bool \<Rightarrow> string \<Rightarrow> string \<Rightarrow> 's ChatStateActor
      \<Rightarrow> ('s ChatStateActor \<times> ('s, 't) ConversationRequest) option" where
  "build_conversation_request json tools memory_reminder persist_memory_reminder conv_id req_id a =
     (let config = cs_sampling_config (act_state a);
          needs_prune = should_prune (cs_total_tokens (act_state a)) (sc_context_window config);
          (a, memory_reminder) = persist_reminder memory_reminder persist_memory_reminder a in
      do {
        (items, outcome) \<leftarrow> apply_image_budget json (history a);
        let a = (if ib_inline_images outcome > 0
             then send_event (ImageBudget IMAGE_COMPACT_TRIGGER_BYTES IMAGE_COMPACT_RECLAIM_TARGET_BYTES outcome) a else a);
        let items = (if needs_prune then prune_conversation (act_pruning_config a) items else items);
        let items = (case memory_reminder of Some reminder \<Rightarrow> fst (inject_memory_reminder items reminder) | None \<Rightarrow> items);
        Some (a, \<lparr>rq_items = model_request_history items, rq_tools = tools, rq_model = sc_model config,
          rq_options = sc_options config, rq_conv_id = conv_id, rq_req_id = req_id\<rparr>)
      })"

end
