(* ===== verification/Chat_Actor.thy ===== *)
theory Chat_Actor
  imports Chat_State
begin

text \<open>
  The commands of the chat actor (\<open>crates/codegen/xai-chat-state/src/commands.rs\<close>, dispatched in \<open>actor/mod.rs\<close>) and the
  queries (\<open>actor/queries.rs\<close>). The answers of the store are part of a command. The theorems are about any sequence of
  commands: what the store holds, what the capture of a turn holds, and what a request holds.
\<close>

section \<open>Commands\<close>

datatype ('s, 't) ChatStateCommand =
    PushUserMessage ConversationItem
  | PushUserMessagesBatch "ConversationItem list"
  | PushUserMessagesBatchAndAck "ConversationItem list"
  | PushUserMessageAndAck ConversationItem
  | AppendWorkingDirectorySwitchAndAck string nat "(StrictAppendError + StrictAppendAck) option"
  | PushUserMessageWithRepairReason ConversationItem DanglingToolCallReason
  | PushAssistantResponse ConversationItem
  | PushToolResult ConversationItem
  | PushModelOutput ConversationItem
  | PushUnreportedModelOutput ConversationItem
  | RecordTokenUsage nat
  | RecordLastTurnUsage TokenUsage
  | RecordModelCallUsage "string option" TokenUsage "nat option" "int option"
  | RecordSubagentUsage "(string \<times> UsageTotals) list" bool bool
  | MarkUsageIncomplete bool bool
  | IncrementPromptIndex
  | UpdateSamplingConfig "'s SamplingConfig"
  | RecordAgentEditedPath string
  | RecordStreamStart int
  | RecordTurnStart int
  | ReplaceConversation "ConversationItem list" bool
  | RepairHistory bool "bool option"
  | StripConversationImages "string list" bool
  | ReplaceSystemHead string
  | CachePromptText string
  | RecordCompactionAt nat
  | Flush
  | UpdateCredentials Credentials
  | RestoreSnapshot "'s ChatStateSnapshot"
  | BeginTurnCapture
  | AppendHarnessTraceItems "ConversationItem list"
  | FlushHarnessTraceTurn
  | RepairDanglingAfterHarnessHalt string
  | PopStrandedContinueReminder
  | BuildConversationRequest "'t list" "string option" bool string string
  | TruncateToPromptIndex nat
  | TakeTurnMessages
  | TakeHarnessTraceTurns

record TurnCapture =
  messages :: "ConversationItem list"
  capture_compacted :: bool

datatype StripOutcome = Applied nat | NoMatch | WriteFailed nat

datatype ('s, 't) Reply =
    NoReply
  | SwitchReply "StrictAppendError + StrictAppendAck"
  | RepairBlocked
  | RepairReply HistoryRepairReport
  | StripReply StripOutcome
  | HeadReply bool
  | RequestReply "('s, 't) ConversationRequest"
  | TurnReply "TurnCapture option"
  | TracesReply "ConversationItem list list"

definition take_turn_messages :: "'s ChatState \<Rightarrow> 's ChatState \<times> TurnCapture option" where
  "take_turn_messages st =
     (st\<lparr>cs_turn_capture := None\<rparr>,
      map_option (\<lambda>cap. \<lparr>messages = pre_replacement_messages cap @ turn_tail (cs_conversation st) (turn_start_offset cap),
        capture_compacted = compaction_occurred cap\<rparr>) (cs_turn_capture st))"

abbreviation quiet :: "'s ChatStateActor option \<Rightarrow> ('s ChatStateActor \<times> ('s, 't) Reply) option" where
  "quiet \<equiv> map_option (\<lambda>a. (a, NoReply))"

fun handle_command ::
    "Json \<Rightarrow> ('s, 't) ChatStateCommand \<Rightarrow> 's ChatStateActor \<Rightarrow> ('s ChatStateActor \<times> ('s, 't) Reply) option" where
  "handle_command json (PushUserMessage item) a = quiet (push_user_message item a)"
| "handle_command json (PushUserMessagesBatch items) a = quiet (push_user_messages items a)"
| "handle_command json (PushUserMessagesBatchAndAck items) a = quiet (push_user_messages items a)"
| "handle_command json (PushUserMessageAndAck item) a = quiet (push_user_message item a)"
| "handle_command json (AppendWorkingDirectorySwitchAndAck content generation answer) a =
     map_option (map_prod id SwitchReply) (append_working_directory_switch content generation answer a)"
| "handle_command json (PushUserMessageWithRepairReason item reason) a =
     quiet (push_user_message_with_repair_reason item reason a)"
| "handle_command json (PushAssistantResponse item) a = quiet (push_message item a)"
| "handle_command json (PushToolResult item) a = quiet (push_message item a)"
| "handle_command json (PushModelOutput item) a = Some (push_model_output item a, NoReply)"
| "handle_command json (PushUnreportedModelOutput item) a = quiet (push_unreported_model_output item a)"
| "handle_command json (RecordTokenUsage n) a = quiet (record_token_usage n a)"
| "handle_command json (RecordLastTurnUsage usage) a = Some (on_state (record_last_turn_usage usage) a, NoReply)"
| "handle_command json (RecordModelCallUsage model_id usage duration cost) a =
     Some (on_state (record_model_call_usage model_id usage duration cost) a, NoReply)"
| "handle_command json (RecordSubagentUsage usages attribute_to_prompt partial) a =
     Some (on_state (record_subagent_usage usages attribute_to_prompt partial) a, NoReply)"
| "handle_command json (MarkUsageIncomplete prompt session) a =
     Some (on_state (mark_usage_incomplete prompt session) a, NoReply)"
| "handle_command json IncrementPromptIndex a = Some (increment_prompt_index a, NoReply)"
| "handle_command json (UpdateSamplingConfig config) a = Some (on_state (\<lambda>st. st\<lparr>cs_sampling_config := config\<rparr>) a, NoReply)"
| "handle_command json (RecordAgentEditedPath path) a =
     Some (on_state (\<lambda>st. st\<lparr>cs_agent_edited_paths := insert path (cs_agent_edited_paths st)\<rparr>) a, NoReply)"
| "handle_command json (RecordStreamStart t) a = Some (on_state (\<lambda>st. st\<lparr>cs_stream_start_ms := Some t\<rparr>) a, NoReply)"
| "handle_command json (RecordTurnStart t) a = Some (on_state (\<lambda>st. st\<lparr>cs_turn_start_ms := Some t\<rparr>) a, NoReply)"
| "handle_command json (ReplaceConversation items is_compaction) a = quiet (replace_conversation items is_compaction a)"
| "handle_command json (RepairHistory dry_run turn_active) a =
     (if turn_active = Some True then Some (a, RepairBlocked)
      else map_option (map_prod id RepairReply) (repair_history_command dry_run a))"
| "handle_command json (StripConversationImages urls disk_ok) a =
     (case strip_conversation_images urls disk_ok a of
        (a, None) \<Rightarrow> Some (a, StripReply NoMatch)
      | (a, Some stripped) \<Rightarrow> Some (a, StripReply (if disk_ok then Applied stripped else WriteFailed stripped)))"
| "handle_command json (ReplaceSystemHead prompt) a = map_option (map_prod id HeadReply) (replace_system_head prompt a)"
| "handle_command json (CachePromptText s) a =
     Some (on_state (\<lambda>st. st\<lparr>cs_prompt_texts := cs_prompt_texts st @ [s]\<rparr>) a, NoReply)"
| "handle_command json (RecordCompactionAt n) a =
     Some (on_state (\<lambda>st. st\<lparr>cs_last_compaction_prompt_index := Some n\<rparr>) a, NoReply)"
| "handle_command json Flush a = Some (persist FlushRecord a, NoReply)"
| "handle_command json (UpdateCredentials credentials) a = Some (on_state (\<lambda>st. st\<lparr>cs_credentials := credentials\<rparr>) a, NoReply)"
| "handle_command json (RestoreSnapshot snap) a = quiet (restore_snapshot snap a)"
| "handle_command json BeginTurnCapture a =
     Some (on_state (\<lambda>st. st\<lparr>cs_turn_capture := Some \<lparr>turn_start_offset = length (cs_conversation st),
       pre_replacement_messages = [], compaction_occurred = False\<rparr>\<rparr>) a, NoReply)"
| "handle_command json (AppendHarnessTraceItems items) a =
     Some (on_state (\<lambda>st. st\<lparr>cs_harness_trace_buffer := cs_harness_trace_buffer st @ items\<rparr>) a, NoReply)"
| "handle_command json FlushHarnessTraceTurn a = Some (on_state seal_harness_trace_turn a, NoReply)"
| "handle_command json (RepairDanglingAfterHarnessHalt cls) a = Some (repair_dangling_after_harness_halt cls a, NoReply)"
| "handle_command json PopStrandedContinueReminder a = Some (pop_stranded_continue_reminder a, NoReply)"
| "handle_command json (BuildConversationRequest tools memory_reminder persist_memory_reminder conv_id req_id) a =
     map_option (map_prod id RequestReply)
       (build_conversation_request json tools memory_reminder persist_memory_reminder conv_id req_id (ensure_conversation_integrity a))"
| "handle_command json (TruncateToPromptIndex target) a =
     quiet (map_option (on_state (\<lambda>st. st\<lparr>cs_turn_capture := None, cs_prompt_usage := None\<rparr>)) (truncate_to_prompt_index target a))"
| "handle_command json TakeTurnMessages a =
     (let (st, result) = take_turn_messages (act_state a) in Some (a\<lparr>act_state := st\<rparr>, TurnReply result))"
| "handle_command json TakeHarnessTraceTurns a =
     (let st = seal_harness_trace_turn (act_state a) in
      Some (a\<lparr>act_state := st\<lparr>cs_harness_trace_turns := []\<rparr>\<rparr>, TracesReply (cs_harness_trace_turns st)))"

text \<open>The loop of the actor over the commands in the channel.\<close>

fun run_commands ::
    "Json \<Rightarrow> ('s, 't) ChatStateCommand list \<Rightarrow> 's ChatStateActor \<Rightarrow> ('s ChatStateActor \<times> ('s, 't) Reply list) option" where
  "run_commands json [] a = Some (a, [])"
| "run_commands json (cmd # cmds) a =
     (case handle_command json cmd a of
        None \<Rightarrow> None
      | Some (a, reply) \<Rightarrow> map_option (\<lambda>(a, replies). (a, reply # replies)) (run_commands json cmds a))"

section \<open>Queries\<close>

definition snapshot :: "'s ChatState \<Rightarrow> 's ChatStateSnapshot" where
  "snapshot st = \<lparr>sn_conversation = cs_conversation st, sn_sampling_config = cs_sampling_config st,
     sn_prompt_index = cs_prompt_index st, sn_total_tokens = cs_total_tokens st,
     sn_estimate_at_last_response = cs_estimate_at_last_response st, sn_agent_edited_paths = cs_agent_edited_paths st,
     sn_prompt_texts = cs_prompt_texts st, sn_stream_start_ms = cs_stream_start_ms st, sn_turn_start_ms = cs_turn_start_ms st,
     sn_last_compaction_prompt_index = cs_last_compaction_prompt_index st, sn_credentials = cs_credentials st\<rparr>"

definition exceeds_threshold :: "nat \<Rightarrow> nat \<Rightarrow> nat \<Rightarrow> bool" where
  "exceeds_threshold used context_window threshold_percent \<longleftrightarrow>
     context_window \<noteq> 0 \<and> min (used * 100) u64_max \<ge> min (context_window * threshold_percent) u64_max"

definition usage_percentage_truncated_u8 :: "nat \<Rightarrow> nat \<Rightarrow> nat" where
  "usage_percentage_truncated_u8 used window = (if window = 0 then 0 else min (min (used * 100) u64_max div window) 100)"

record AutoCompactTrigger =
  act_total_tokens :: nat
  act_context_window :: nat
  utilization_percent :: nat

definition check_auto_compact_needed :: "nat \<Rightarrow> 's ChatState \<Rightarrow> AutoCompactTrigger option" where
  "check_auto_compact_needed threshold_percent st =
     (let cw = sc_context_window (cs_sampling_config st) in
      if exceeds_threshold (cs_total_tokens st) cw threshold_percent
      then Some \<lparr>act_total_tokens = cs_total_tokens st, act_context_window = cw,
        utilization_percent = usage_percentage_truncated_u8 (cs_total_tokens st) cw\<rparr>
      else None)"

definition get_estimated_total_tokens :: "'s ChatState \<Rightarrow> nat" where
  "get_estimated_total_tokens st = wrapping_add64 (cs_total_tokens st) (cs_estimated_tokens_since_model st)"

definition estimate_messages_tokens :: "ConversationItem list \<Rightarrow> nat option" where
  "estimate_messages_tokens c = estimate_conversation_tokens (filter (\<lambda>x. \<not> is_system x) c)"

definition extract_last_user_query :: "ConversationItem list \<Rightarrow> string option" where
  "extract_last_user_query c =
     (case find_map (\<lambda>x. case x of User u \<Rightarrow> Some u | _ \<Rightarrow> None) (rev c) of
        None \<Rightarrow> None
      | Some u \<Rightarrow> (let q = extract_user_query (user_text u) in if q = [] then None else Some q))"

fun assistant_text :: "ConversationItem \<Rightarrow> string option" where
  "assistant_text (Assistant a) = (if trim (ai_content a) \<noteq> [] then Some (ai_content a) else None)"
| "assistant_text _ = None"

definition get_last_assistant_text :: "ConversationItem list \<Rightarrow> string option" where
  "get_last_assistant_text c = find_map assistant_text (rev c)"

text \<open>A user item that begins a prompt ends the walk back through a turn.\<close>

fun turn_boundary :: "ConversationItem \<Rightarrow> bool" where
  "turn_boundary (User u) \<longleftrightarrow> ui_prompt_index u \<noteq> None
     \<or> (case ui_synthetic_reason u of None \<Rightarrow> True | Some r \<Rightarrow> starts_prompt_turn r)"
| "turn_boundary _ \<longleftrightarrow> False"

definition assistant_texts_in_turn :: "ConversationItem list \<Rightarrow> string list" where
  "assistant_texts_in_turn c = rev (List.map_filter assistant_text (takeWhile (\<lambda>x. \<not> turn_boundary x) (rev c)))"

definition get_last_assistant_text_in_turn :: "ConversationItem list \<Rightarrow> string option" where
  "get_last_assistant_text_in_turn c = (let texts = assistant_texts_in_turn c in if texts = [] then None else Some (last texts))"

definition get_assistant_text_in_turn :: "ConversationItem list \<Rightarrow> string option" where
  "get_assistant_text_in_turn c = (let texts = assistant_texts_in_turn c in if texts = [] then None else Some (join [newline] texts))"

text \<open>The report of a turn that was cut off and continued: its last text and the texts that it continues. Lists are reversed.\<close>

fun seek_report :: "ConversationItem list \<Rightarrow> (string \<times> ConversationItem list) option" where
  "seek_report [] = None"
| "seek_report (x # xs) =
     (case assistant_text x of
        Some s \<Rightarrow> Some (s, xs)
      | None \<Rightarrow> if turn_boundary x then None else seek_report xs)"

fun join_report :: "ConversationItem list \<Rightarrow> string list" where
  "join_report [] = []"
| "join_report (x # xs) =
     (case x of
        Assistant a \<Rightarrow>
          if ai_tool_calls a \<noteq> [] then []
          else if trim (ai_content a) \<noteq> [] then ai_content a # join_report xs else join_report xs
      | Reasoning r \<Rightarrow> join_report xs
      | User u \<Rightarrow> if ui_synthetic_reason u = Some LengthContinue then join_report xs else []
      | _ \<Rightarrow> [])"

definition get_trailing_assistant_report :: "ConversationItem list \<Rightarrow> string option" where
  "get_trailing_assistant_report c =
     map_option (\<lambda>(s, rest). concat (rev (s # join_report rest))) (seek_report (rev c))"

fun first_part_text :: "ConversationItem \<Rightarrow> string option" where
  "first_part_text (User u) = (case ui_content u of TextPart t # _ \<Rightarrow> Some t | _ \<Rightarrow> None)"
| "first_part_text _ = None"

definition get_first_user_text :: "ConversationItem list \<Rightarrow> string option" where
  "get_first_user_text c = find_map first_part_text c"

record ConversationCounts =
  count_total :: nat
  count_user :: nat
  count_assistant :: nat
  count_tool_result :: nat

definition get_conversation_counts :: "ConversationItem list \<Rightarrow> ConversationCounts" where
  "get_conversation_counts c = \<lparr>count_total = length c, count_user = length (filter is_user c),
     count_assistant = length (filter is_assistant c), count_tool_result = length (filter is_result c)\<rparr>"

definition get_system_message :: "ConversationItem list \<Rightarrow> ConversationItem option" where
  "get_system_message c = List.find is_system c"

fun model_metadata :: "ConversationItem \<Rightarrow> (string option \<times> string option) option" where
  "model_metadata (Assistant a) = Some (ai_model_id a, ai_model_fingerprint a)"
| "model_metadata _ = None"

definition get_last_model_metadata :: "ConversationItem list \<Rightarrow> string option \<times> string option" where
  "get_last_model_metadata c = (case find_map model_metadata (rev c) of Some m \<Rightarrow> m | None \<Rightarrow> (None, None))"

text \<open>
  The first user text is sought in all user items, not only in the first one; and the rewind counts the synthetic user items,
  which the prompt index does not count: going back to prompt 1 of two prompts loses prompt 0 as well.
\<close>

lemma first_user_text_scans_on:
  "get_first_user_text [User \<lparr>ui_content = [ImagePart u], ui_synthetic_reason = None, ui_cwd_generation = None,
     ui_prior_turn_interrupt = None, ui_prompt_index = None\<rparr>, user ''later''] = Some ''later''"
  by (simp add: get_first_user_text_def user_def user_item_def)

lemma rewind_counts_synthetic:
  "take (nth_user_from 1 0 [project_instructions d, user p, user q] 0) [project_instructions d, user p, user q]
     = [project_instructions d]"
  by (simp add: user_def user_item_def project_instructions_def)

end
