(* ===== verification/Chat_Laws.thy ===== *)
theory Chat_Laws
  imports Chat_Actor
begin

text \<open>
  What the chat actor promises over any sequence of commands: the capture of a turn holds what was pushed, the store holds
  what the memory holds, a request has no open call, and pruning and rewrites keep what they should.
\<close>

section \<open>Projections\<close>

lemma on_state_simps [simp]:
  "act_state (on_state f a) = f (act_state a)" "act_persistence (on_state f a) = act_persistence a"
  "act_pruning_config (on_state f a) = act_pruning_config a"
  by (simp_all add: on_state_def)

lemma persist_simps [simp]:
  "act_state (persist r a) = act_state a" "act_persistence (persist r a) = act_persistence a @ [r]"
  "act_pruning_config (persist r a) = act_pruning_config a"
  by (simp_all add: persist_def)

lemma send_event_simps [simp]:
  "act_state (send_event e a) = act_state a" "act_persistence (send_event e a) = act_persistence a"
  "act_pruning_config (send_event e a) = act_pruning_config a"
  by (simp_all add: send_event_def)

lemma snapshot_conversation [simp]: "cs_conversation (snapshot_turn_slice st) = cs_conversation st"
  by (simp add: snapshot_turn_slice_def split: option.splits)

lemma rebase_conversation [simp]: "cs_conversation (rebase_turn_capture_offset st) = cs_conversation st"
  by (simp add: rebase_turn_capture_offset_def split: option.splits)

lemma mark_conversation [simp]: "cs_conversation (mark_compaction st) = cs_conversation st"
  by (simp add: mark_compaction_def split: option.splits)

lemma rewrite_history_state:
  "act_state (fst (rewrite_history kind mutate disk_ok a)) =
     (if kind = IntegrityRepair
      then rebase_turn_capture_offset ((snapshot_turn_slice (act_state a))\<lparr>cs_conversation := fst (mutate (history a))\<rparr>)
      else (act_state a)\<lparr>cs_conversation := fst (mutate (history a))\<rparr>)"
  by (simp add: rewrite_history_def Let_def split_beta)

lemma rewrite_history_log:
  "act_persistence (fst (rewrite_history kind mutate disk_ok a)) = act_persistence a @
     (if snd (mutate (history a)) > 0
      then [if kind = ImageStrip then ReplaceHistoryForStrip (fst (mutate (history a))) disk_ok
            else ReplaceHistory (fst (mutate (history a)))] else [])"
  by (simp add: rewrite_history_def Let_def split_beta)

lemma rewrite_history_rest [simp]:
  "act_pruning_config (fst (rewrite_history kind mutate disk_ok a)) = act_pruning_config a"
  "snd (rewrite_history kind mutate disk_ok a) = snd (mutate (history a))"
  by (simp_all add: rewrite_history_def Let_def split_beta)

lemma rewrite_history_history [simp]: "history (fst (rewrite_history kind mutate disk_ok a)) = fst (mutate (history a))"
  by (simp add: rewrite_history_state)

section \<open>The capture of a turn\<close>

definition captured :: "'s ChatState \<Rightarrow> (ConversationItem list \<times> bool) option" where
  "captured st = map_option (\<lambda>cap. (pre_replacement_messages cap @ turn_tail (cs_conversation st) (turn_start_offset cap),
     compaction_occurred cap)) (cs_turn_capture st)"

definition capture_ok :: "'s ChatState \<Rightarrow> bool" where
  "capture_ok st \<longleftrightarrow> (case cs_turn_capture st of None \<Rightarrow> True | Some cap \<Rightarrow> turn_start_offset cap \<le> length (cs_conversation st))"

lemma capture_same:
  "cs_turn_capture st' = cs_turn_capture st \<Longrightarrow> cs_conversation st' = cs_conversation st
     \<Longrightarrow> captured st' = captured st \<and> capture_ok st' = capture_ok st"
  by (simp add: captured_def capture_ok_def split: option.splits)

lemma capture_rebased:
  "captured (rebase_turn_capture_offset ((snapshot_turn_slice st)\<lparr>cs_conversation := c\<rparr>)) = captured st"
  "capture_ok (rebase_turn_capture_offset ((snapshot_turn_slice st)\<lparr>cs_conversation := c\<rparr>))"
  by (auto simp: captured_def capture_ok_def rebase_turn_capture_offset_def snapshot_turn_slice_def turn_tail_def get_from_def
      split: option.splits)

lemma capture_push:
  assumes "capture_ok st"
  shows "captured (st\<lparr>cs_conversation := cs_conversation st @ xs\<rparr>) = map_option (\<lambda>(m, b). (m @ xs, b)) (captured st)"
    and "capture_ok (st\<lparr>cs_conversation := cs_conversation st @ xs\<rparr>)"
  using assms by (auto simp: captured_def capture_ok_def turn_tail_def get_from_def split: option.splits)

text \<open>How an operation relates the captures before and after it: it adds \<open>xs\<close>, and marks a compaction when \<open>b\<close>.\<close>

definition adds_to_capture :: "ConversationItem list \<Rightarrow> bool \<Rightarrow> 's ChatState \<Rightarrow> 's ChatState \<Rightarrow> bool" where
  "adds_to_capture xs b st st' \<longleftrightarrow>
     capture_ok st' \<and> captured st' = map_option (\<lambda>(m, f). (m @ xs, f \<or> b)) (captured st)"

lemma adds_trans:
  "adds_to_capture xs b st st' \<Longrightarrow> adds_to_capture ys d st' st'' \<Longrightarrow> adds_to_capture (xs @ ys) (b \<or> d) st st''"
  by (cases "captured st") (auto simp: adds_to_capture_def)

lemma adds_none:
  "capture_ok st \<Longrightarrow> cs_turn_capture st' = cs_turn_capture st \<Longrightarrow> cs_conversation st' = cs_conversation st
     \<Longrightarrow> adds_to_capture [] False st st'"
  using capture_same [of st' st] by (cases "captured st") (auto simp: adds_to_capture_def)

lemma adds_rebased:
  "adds_to_capture [] False st (rebase_turn_capture_offset ((snapshot_turn_slice st)\<lparr>cs_conversation := c\<rparr>))"
  using capture_rebased [of c st] by (cases "captured st") (auto simp: adds_to_capture_def)

lemma adds_integrity:
  "adds_to_capture [] False (act_state a) (act_state (fst (rewrite_history IntegrityRepair mutate disk_ok a)))"
  by (simp add: rewrite_history_state adds_rebased)

lemma adds_pop: "capture_ok (act_state a) \<Longrightarrow> adds_to_capture [] False (act_state a) (act_state (pop_stranded_continue_reminder a))"
  by (simp add: pop_stranded_continue_reminder_def adds_integrity adds_none)

lemma adds_ensure:
  "adds_to_capture [] False (act_state a) (act_state (ensure_conversation_integrity_with_reason reason a))"
  by (simp add: ensure_conversation_integrity_with_reason_def adds_integrity)

lemma adds_push:
  "capture_ok (act_state a) \<Longrightarrow> adds_to_capture [item] False (act_state a) (act_state (persist_and_push_message item (add_estimate n a)))"
  "capture_ok (act_state a) \<Longrightarrow> adds_to_capture [item] False (act_state a) (act_state (persist_and_push_message item a))"
  using capture_push [of "(act_state a)\<lparr>cs_estimated_tokens_since_model := k\<rparr>" "[item]" for k] capture_push [of "act_state a" "[item]"]
    capture_same [of "(act_state a)\<lparr>cs_estimated_tokens_since_model := k\<rparr>" "act_state a" for k]
  by (auto simp: adds_to_capture_def persist_and_push_message_def add_estimate_def)

text \<open>Pruning leaves the items from the last user item on alone, and with it what was just pushed.\<close>

lemma length_walk_back [simp]: "length (walk_back_turns edit n seen xs) = length xs"
proof (induction xs arbitrary: n seen)
  case (Cons x xs)
  then show ?case by (cases x) simp_all
qed simp

lemma hard_clear_last: "is_user x \<Longrightarrow> \<exists>c'. fst (hard_clear k (c @ [x])) = c' @ [x] \<and> length c' = length c"
  by (cases x) (simp_all add: hard_clear_def Let_def)

lemma adds_prune:
  assumes "prune_retained_conversation b = Some b'" and "history b = c @ [x]" and "is_user x" and "capture_ok (act_state b)"
    and "cs_turn_capture (act_state b) = None \<or> (\<exists>cap. cs_turn_capture (act_state b) = Some cap \<and> turn_start_offset cap = length c)"
  shows "adds_to_capture [] False (act_state b) (act_state b')"
proof -
  have "act_state b' = act_state b \<or> (\<exists>k. act_state b' = (act_state b)\<lparr>cs_conversation := fst (hard_clear k (history b))\<rparr>)"
    using assms(1) by (auto simp: prune_retained_conversation_def Let_def split_beta rewrite_history_state bind_eq_Some_conv split: if_splits)
  then show ?thesis
  proof
    assume "act_state b' = act_state b"
    with assms(4) show ?thesis by (simp add: adds_none)
  next
    assume "\<exists>k. act_state b' = (act_state b)\<lparr>cs_conversation := fst (hard_clear k (history b))\<rparr>"
    then obtain c' where b': "act_state b' = (act_state b)\<lparr>cs_conversation := c' @ [x]\<rparr>" "length c' = length c"
      using hard_clear_last [OF assms(3)] assms(2) by metis
    with assms(2,5) show ?thesis
      by (auto simp: adds_to_capture_def captured_def capture_ok_def turn_tail_def get_from_def)
  qed
qed

lemma rebased_offset:
  "cs_turn_capture (act_state (ensure_conversation_integrity_with_reason reason a)) = Some cap
     \<Longrightarrow> turn_start_offset cap = length (history (ensure_conversation_integrity_with_reason reason a))"
  by (auto simp: ensure_conversation_integrity_with_reason_def rewrite_history_state rebase_turn_capture_offset_def
      split: option.splits)

lemma adds_push_user:
  assumes "push_user_message_with_repair_reason item reason a = Some a'" and "is_user item" and "capture_ok (act_state a)"
  shows "adds_to_capture [item] False (act_state a) (act_state a')"
proof -
  let ?p = "if ends_continuation item then pop_stranded_continue_reminder a else a"
  let ?e = "ensure_conversation_integrity_with_reason reason ?p"
  from assms(1) obtain n where "estimate_item_tokens item = Some n"
    and prune: "prune_retained_conversation (persist_and_push_message item (add_estimate n ?e)) = Some a'"
    by (auto simp: push_user_message_with_repair_reason_def Let_def bind_eq_Some_conv)
  let ?b = "persist_and_push_message item (add_estimate n ?e)"
  have p: "adds_to_capture [] False (act_state a) (act_state ?p)" using assms(3) by (simp add: adds_pop adds_none)
  have e: "adds_to_capture [] False (act_state ?p) (act_state ?e)" by (rule adds_ensure)
  then have ok: "capture_ok (act_state ?e)" by (simp add: adds_to_capture_def)
  then have b: "adds_to_capture [item] False (act_state ?e) (act_state ?b)" by (rule adds_push)
  then have "capture_ok (act_state ?b)" by (simp add: adds_to_capture_def)
  moreover have "history ?b = history ?e @ [item]" by (simp add: persist_and_push_message_def add_estimate_def)
  moreover have "cs_turn_capture (act_state ?b) = cs_turn_capture (act_state ?e)"
    by (simp add: persist_and_push_message_def add_estimate_def)
  ultimately have "adds_to_capture [] False (act_state ?b) (act_state a')"
    using adds_prune [OF prune _ assms(2)] rebased_offset [of reason ?p] by (cases "cs_turn_capture (act_state ?e)") auto
  with adds_trans [OF p adds_trans [OF e b]] show ?thesis using adds_trans by fastforce
qed

lemma adds_push_users:
  "push_user_messages items a = Some a' \<Longrightarrow> list_all is_user items \<Longrightarrow> capture_ok (act_state a)
     \<Longrightarrow> adds_to_capture items False (act_state a) (act_state a')"
proof (induction items arbitrary: a)
  case Nil
  then show ?case by (simp add: adds_none)
next
  case (Cons x xs)
  from Cons.prems(1) obtain b where b: "push_user_message x a = Some b" "push_user_messages xs b = Some a'"
    by (auto simp: bind_eq_Some_conv)
  with Cons.prems have x: "adds_to_capture [x] False (act_state a) (act_state b)"
    by (intro adds_push_user) (auto simp: push_user_message_def)
  then have "adds_to_capture xs False (act_state b) (act_state a')"
    using Cons.IH [OF b(2)] Cons.prems by (simp add: adds_to_capture_def)
  from adds_trans [OF x this] show ?case by simp
qed

lemma adds_replace:
  assumes "replace_conversation items is_compaction a = Some a'"
  shows "adds_to_capture [] is_compaction (act_state a) (act_state a')"
proof -
  from assms obtain n t where "act_state a' = rebase_turn_capture_offset
      ((if is_compaction then mark_compaction (snapshot_turn_slice (act_state a)) else snapshot_turn_slice (act_state a))
         \<lparr>cs_conversation := items, cs_estimated_tokens_since_model := 0, cs_total_tokens := t, cs_estimate_at_last_response := n\<rparr>)"
    by (cases is_compaction) (auto simp: replace_conversation_def Let_def bind_eq_Some_conv)
  then show ?thesis
    by (cases "cs_turn_capture (act_state a)")
      (auto simp: adds_to_capture_def captured_def capture_ok_def rebase_turn_capture_offset_def snapshot_turn_slice_def
        mark_compaction_def turn_tail_def get_from_def)
qed

lemma adds_restore:
  assumes "restore_snapshot snap a = Some a'"
  shows "adds_to_capture [] False (act_state a) (act_state a')"
proof -
  let ?st = "rebase_turn_capture_offset ((snapshot_turn_slice (act_state a))\<lparr>cs_conversation := sn_conversation snap\<rparr>)"
  have "cs_turn_capture (act_state a') = cs_turn_capture ?st" "cs_conversation (act_state a') = cs_conversation ?st"
    using assms by (auto simp: restore_snapshot_def Let_def bind_eq_Some_conv split: if_splits)
  moreover have "adds_to_capture [] False (act_state a) ?st" by (rule adds_rebased)
  ultimately show ?thesis using capture_same [of "act_state a'" ?st] by (simp add: adds_to_capture_def)
qed

lemma adds_head:
  "replace_system_head prompt a = Some (a', r) \<Longrightarrow> capture_ok (act_state a) \<Longrightarrow> adds_to_capture [] False (act_state a) (act_state a')"
  by (auto simp: replace_system_head_def split_beta adds_none dest: adds_replace split: list.splits ConversationItem.splits if_splits)

lemma adds_request:
  assumes "build_conversation_request json tools memory_reminder persist_it conv_id req_id a = Some (a', rq)"
    and "capture_ok (act_state a)"
  shows "adds_to_capture [] False (act_state a) (act_state a')"
proof -
  have "act_state a' = act_state (fst (persist_reminder memory_reminder persist_it a))"
    using assms(1) by (auto simp: build_conversation_request_def Let_def split_beta bind_eq_Some_conv)
  moreover have "adds_to_capture [] False (act_state a) (act_state (fst (persist_reminder memory_reminder persist_it a)))"
    using assms(2) by (auto simp: persist_reminder_def Let_def split_beta adds_rebased adds_none split: option.splits)
  ultimately show ?thesis by simp
qed

lemma adds_state:
  "capture_ok st \<Longrightarrow> adds_to_capture [] False st (record_last_turn_usage usage st)"
  "capture_ok st \<Longrightarrow> adds_to_capture [] False st (record_model_call_usage model_id usage duration cost st)"
  "capture_ok st \<Longrightarrow> adds_to_capture [] False st (record_subagent_usage usages attribute_to_prompt partial st)"
  "capture_ok st \<Longrightarrow> adds_to_capture [] False st (mark_usage_incomplete prompt session st)"
  "capture_ok st \<Longrightarrow> adds_to_capture [] False st (seal_harness_trace_turn st)"
  by (rule adds_none; simp add: record_last_turn_usage_def record_model_call_usage_def record_subagent_usage_def
      mark_usage_incomplete_def seal_harness_trace_turn_def Let_def)+

lemma seal_fields [simp]:
  "cs_turn_capture (seal_harness_trace_turn st) = cs_turn_capture st" "cs_conversation (seal_harness_trace_turn st) = cs_conversation st"
  by (simp_all add: seal_harness_trace_turn_def)

lemma adds_repair:
  "repair_history_command True a = Some (a', report) \<Longrightarrow> capture_ok (act_state a) \<Longrightarrow> adds_to_capture [] False (act_state a) (act_state a')"
  by (auto simp: repair_history_command_def split_beta adds_none)

text \<open>What a command pushes, and the commands that a capture survives.\<close>

fun pushed :: "('s, 't) ChatStateCommand \<Rightarrow> ConversationItem list" where
  "pushed (PushUserMessage x) = [x]"
| "pushed (PushUserMessagesBatch xs) = xs"
| "pushed (PushUserMessagesBatchAndAck xs) = xs"
| "pushed (PushUserMessageAndAck x) = [x]"
| "pushed (PushUserMessageWithRepairReason x reason) = [x]"
| "pushed (PushAssistantResponse x) = [x]"
| "pushed (PushToolResult x) = [x]"
| "pushed (PushModelOutput x) = [x]"
| "pushed (PushUnreportedModelOutput x) = [x]"
| "pushed _ = []"

fun compacts :: "('s, 't) ChatStateCommand \<Rightarrow> bool" where
  "compacts (ReplaceConversation items is_compaction) \<longleftrightarrow> is_compaction"
| "compacts _ \<longleftrightarrow> False"

fun within_turn :: "('s, 't) ChatStateCommand \<Rightarrow> bool" where
  "within_turn (PushUserMessage x) \<longleftrightarrow> is_user x"
| "within_turn (PushUserMessagesBatch xs) \<longleftrightarrow> list_all is_user xs"
| "within_turn (PushUserMessagesBatchAndAck xs) \<longleftrightarrow> list_all is_user xs"
| "within_turn (PushUserMessageAndAck x) \<longleftrightarrow> is_user x"
| "within_turn (PushUserMessageWithRepairReason x reason) \<longleftrightarrow> is_user x"
| "within_turn (AppendWorkingDirectorySwitchAndAck content generation answer) \<longleftrightarrow> False"
| "within_turn (RepairHistory dry_run turn_active) \<longleftrightarrow> dry_run \<or> turn_active = Some True"
| "within_turn (StripConversationImages urls disk_ok) \<longleftrightarrow> False"
| "within_turn BeginTurnCapture \<longleftrightarrow> False"
| "within_turn (TruncateToPromptIndex n) \<longleftrightarrow> False"
| "within_turn TakeTurnMessages \<longleftrightarrow> False"
| "within_turn _ \<longleftrightarrow> True"

lemma adds_push_message:
  "push_message item a = Some a' \<Longrightarrow> capture_ok (act_state a) \<Longrightarrow> adds_to_capture [item] False (act_state a) (act_state a')"
  by (auto simp: push_message_def adds_push split: if_splits)

lemma adds_unreported:
  "push_unreported_model_output item a = Some a' \<Longrightarrow> capture_ok (act_state a)
     \<Longrightarrow> adds_to_capture [item] False (act_state a) (act_state a')"
  by (auto simp: push_unreported_model_output_def adds_push)

lemma adds_halt:
  assumes "capture_ok (act_state a)"
  shows "adds_to_capture [] False (act_state a) (act_state (repair_dangling_after_harness_halt cls a))"
  unfolding repair_dangling_after_harness_halt_def
  using adds_trans [OF adds_pop [OF assms] adds_ensure] by simp

lemma adds_build:
  assumes "build_conversation_request json tools memory_reminder persist_it conv_id req_id (ensure_conversation_integrity a) = Some (a', rq)"
  shows "adds_to_capture [] False (act_state a) (act_state a')"
proof -
  have e: "adds_to_capture [] False (act_state a) (act_state (ensure_conversation_integrity a))"
    by (simp add: ensure_conversation_integrity_def adds_ensure)
  then have "adds_to_capture [] False (act_state (ensure_conversation_integrity a)) (act_state a')"
    using adds_request [OF assms] by (simp add: adds_to_capture_def)
  from adds_trans [OF e this] show ?thesis by simp
qed

lemma adds_command:
  assumes "handle_command json cmd a = Some (a', reply)" and "within_turn cmd" and "capture_ok (act_state a)"
  shows "adds_to_capture (pushed cmd) (compacts cmd) (act_state a) (act_state a')"
  using assms
  by (cases cmd)
    (auto simp: push_user_message_def push_model_output_def record_token_usage_def increment_prompt_index_def
      Let_def split_beta split: if_splits
      intro: adds_repair adds_push_user adds_push_users adds_push adds_push_message adds_unreported adds_replace adds_head adds_restore
        adds_pop adds_halt adds_build adds_state adds_none)

lemma adds_commands:
  "run_commands json cmds a = Some (a', replies) \<Longrightarrow> list_all within_turn cmds \<Longrightarrow> capture_ok (act_state a)
     \<Longrightarrow> adds_to_capture (concat (map pushed cmds)) (list_ex compacts cmds) (act_state a) (act_state a')"
proof (induction cmds arbitrary: a replies)
  case Nil
  then show ?case by (simp add: adds_none)
next
  case (Cons cmd cmds)
  from Cons.prems(1) obtain b r rs where b: "handle_command json cmd a = Some (b, r)" "run_commands json cmds b = Some (a', rs)"
    by (auto split: option.splits)
  with Cons.prems have c: "adds_to_capture (pushed cmd) (compacts cmd) (act_state a) (act_state b)"
    by (intro adds_command [OF b(1)]) auto
  then have "adds_to_capture (concat (map pushed cmds)) (list_ex compacts cmds) (act_state b) (act_state a')"
    using Cons.IH [OF b(2)] Cons.prems by (simp add: adds_to_capture_def)
  from adds_trans [OF c this] show ?case by simp
qed

lemma run_commands_append:
  "run_commands json (xs @ ys) a =
     (case run_commands json xs a of
        None \<Rightarrow> None
      | Some (b, rs) \<Rightarrow> map_option (\<lambda>(c, ss). (c, rs @ ss)) (run_commands json ys b))"
proof (induction xs arbitrary: a)
  case (Cons x xs)
  then show ?case by (auto simp: split_beta option.map_comp comp_def split: option.splits)
qed (simp add: split_beta option.map_id)

text \<open>
  C20: When a capture is begun, commands of the kind below are run, and it is taken, it yields exactly the items that
  were pushed in between, in order and as they were pushed, and says whether the history was compacted. The commands
  may push items of every kind (a user push being a user item), repair the calls that a halt left open,
  prune, compact or replace the history, restore a snapshot and build requests. Not covered are the commands that
  change the captured part itself or the capture: an out-of-band history repair that takes effect (neither a dry run
  nor refused during a turn; it loses what was captured, \<open>repair_loses_capture\<close>), a working-directory switch, an image strip, a truncation, and the begin
  or end of another capture.
\<close>

theorem capture_records_pushes:
  assumes "run_commands json (BeginTurnCapture # cmds @ [TakeTurnMessages]) a = Some (a', replies)"
    and "list_all within_turn cmds"
  shows "last replies = TurnReply (Some \<lparr>messages = concat (map pushed cmds), capture_compacted = list_ex compacts cmds\<rparr>)"
proof -
  let ?start = "on_state (\<lambda>st. st\<lparr>cs_turn_capture := Some \<lparr>turn_start_offset = length (cs_conversation st),
       pre_replacement_messages = [], compaction_occurred = False\<rparr>\<rparr>) a"
  from assms(1) obtain b rs where b: "run_commands json cmds ?start = Some (b, rs)"
    and l: "last replies = TurnReply (snd (take_turn_messages (act_state b)))"
    by (auto simp: run_commands_append split_beta split: option.splits)
  have "capture_ok (act_state ?start)" "captured (act_state ?start) = Some ([], False)"
    by (simp_all add: capture_ok_def captured_def turn_tail_def get_from_def)
  with adds_commands [OF b assms(2)] have "captured (act_state b) = Some (concat (map pushed cmds), list_ex compacts cmds)"
    by (simp add: adds_to_capture_def)
  with l show ?thesis by (auto simp: captured_def take_turn_messages_def)
qed

section \<open>The store mirrors the memory\<close>

text \<open>What the store holds after a call: a switch is appended unless its generation is there, a strip that failed leaves the file.\<close>

fun store :: "PersistenceRecord \<Rightarrow> ConversationItem list \<Rightarrow> ConversationItem list" where
  "store (Message x) d = d @ [x]"
| "store (AcknowledgedMessage x result) d = (if result \<in> {Inr Appended, Inl (Committed Appended)} then d @ [x] else d)"
| "store (ReplaceHistory xs) d = xs"
| "store (ReplaceHistoryForStrip xs ok) d = (if ok then xs else d)"
| "store FlushRecord d = d"

definition stored :: "ConversationItem list \<Rightarrow> 's ChatStateActor \<Rightarrow> ConversationItem list" where
  "stored d0 a = fold store (act_persistence a) d0"

lemma stored_simps [simp]:
  "stored d0 (on_state f a) = stored d0 a" "stored d0 (send_event e a) = stored d0 a"
  "stored d0 (persist r a) = store r (stored d0 a)" "stored d0 (a\<lparr>act_state := st\<rparr>) = stored d0 a"
  by (simp_all add: stored_def)

definition mirrors :: "ConversationItem list \<Rightarrow> 's ChatStateActor \<Rightarrow> bool" where
  "mirrors d0 a \<longleftrightarrow> stored d0 a = history a"

lemma mirrors_state: "(\<And>st. cs_conversation (f st) = cs_conversation st) \<Longrightarrow> mirrors d0 (on_state f a) = mirrors d0 a"
  by (simp add: mirrors_def)

lemma mirrors_quiet [simp]:
  "mirrors d0 (send_event e a) = mirrors d0 a" "mirrors d0 (persist FlushRecord a) = mirrors d0 a"
  "mirrors d0 (a\<lparr>act_state := fst (take_turn_messages (act_state a))\<rparr>) = mirrors d0 a"
  "mirrors d0 (a\<lparr>act_state := (seal_harness_trace_turn (act_state a))\<lparr>cs_harness_trace_turns := ts\<rparr>\<rparr>) = mirrors d0 a"
  by (simp_all add: mirrors_def take_turn_messages_def)

lemma mirrors_rewrite:
  assumes "mirrors d0 a" and "kind = ImageStrip \<Longrightarrow> disk_ok" and "\<And>c. snd (mutate c) = 0 \<Longrightarrow> fst (mutate c) = c"
  shows "mirrors d0 (fst (rewrite_history kind mutate disk_ok a))"
proof (cases "snd (mutate (history a)) > 0")
  case True
  then show ?thesis using assms(2) by (auto simp: mirrors_def stored_def rewrite_history_log)
next
  case False
  with assms(1,3) show ?thesis by (simp add: mirrors_def stored_def rewrite_history_log)
qed

lemma dedup_zero: "snd (dedup_duplicate_tool_results c) = 0 \<Longrightarrow> fst (dedup_duplicate_tool_results c) = c"
  using dedup_from_runs [of c] dedup_runs_subseq [of c] by (auto simp: dedup_duplicate_tool_results_def subseq_same_length)

lemma repair_zero: "snd (repair_dangling_tool_calls reason c) = 0 \<Longrightarrow> fst (repair_dangling_tool_calls reason c) = c"
  by (simp only: repair_dangling_zero) (simp add: repair_dangling_tool_calls_def)

lemma repair_in_place_zero: "snd (repair_in_place reason c) = 0 \<Longrightarrow> fst (repair_in_place reason c) = c"
  using dedup_zero [of c] repair_zero [of reason c] by (auto simp: repair_in_place_def split_beta Let_def)

lemma pop_reminders_zero: "snd (pop_reminders c) = 0 \<Longrightarrow> fst (pop_reminders c) = c"
  by (subst pop_reminders.simps) (subst (asm) pop_reminders.simps, auto simp: split_beta Let_def split: if_splits)

lemma hard_clear_zero: "snd (hard_clear k c) = 0 \<Longrightarrow> fst (hard_clear k c) = c"
proof -
  let ?c' = "rev (walk_back_turns (clear_result k) 0 False (rev c))"
  assume "snd (hard_clear k c) = 0"
  then have "\<forall>(x, y) \<in> set (zip c ?c'). x = y" by (auto simp: hard_clear_def Let_def filter_empty_conv)
  then have "list_all2 (=) c ?c'" by (simp add: list_all2_iff)
  then show ?thesis by (simp add: hard_clear_def Let_def list.rel_eq)
qed

lemma strip_item_zero: "snd (strip_images_item urls x) = 0 \<Longrightarrow> fst (strip_images_item urls x) = x"
proof (cases x)
  case (User u)
  assume "snd (strip_images_item urls x) = 0"
  then have "map (\<lambda>p. if strips_part urls p then TextPart IMAGE_STRIP_PLACEHOLDER else p) (ui_content u) = ui_content u"
    using User by (auto simp: filter_empty_conv intro: map_idI)
  with User show ?thesis by simp
next
  case (ToolResult t)
  assume "snd (strip_images_item urls x) = 0"
  then have "filter (\<lambda>p. \<not> strips_part urls p) (tr_images t) = tr_images t"
    using ToolResult by (auto simp: filter_empty_conv filter_id_conv)
  with ToolResult show ?thesis by simp
qed simp_all

lemma strip_zero: "snd (strip_images_by_url urls c) = 0 \<Longrightarrow> fst (strip_images_by_url urls c) = c"
  using strip_item_zero by (auto simp: strip_images_by_url_def intro: map_idI)

lemma mirrors_pop: "mirrors d0 a \<Longrightarrow> mirrors d0 (pop_stranded_continue_reminder a)"
  by (simp add: pop_stranded_continue_reminder_def mirrors_rewrite pop_reminders_zero)

lemma mirrors_ensure: "mirrors d0 a \<Longrightarrow> mirrors d0 (ensure_conversation_integrity_with_reason reason a)"
  by (simp add: ensure_conversation_integrity_with_reason_def mirrors_rewrite repair_in_place_zero)

lemma mirrors_push: "mirrors d0 a \<Longrightarrow> mirrors d0 (persist_and_push_message item a)"
  by (simp add: mirrors_def persist_and_push_message_def)

lemma mirrors_estimate [simp]: "mirrors d0 (add_estimate n a) = mirrors d0 a"
  by (simp add: add_estimate_def mirrors_state)

lemma mirrors_prune: "prune_retained_conversation a = Some a' \<Longrightarrow> mirrors d0 a \<Longrightarrow> mirrors d0 a'"
  by (auto simp: prune_retained_conversation_def Let_def split_beta bind_eq_Some_conv mirrors_rewrite hard_clear_zero split: if_splits)

lemma mirrors_push_user:
  "push_user_message_with_repair_reason item reason a = Some a' \<Longrightarrow> mirrors d0 a \<Longrightarrow> mirrors d0 a'"
  by (auto simp: push_user_message_with_repair_reason_def Let_def bind_eq_Some_conv mirrors_push mirrors_ensure mirrors_pop
      elim!: mirrors_prune split: if_splits)

lemma mirrors_push_users: "push_user_messages items a = Some a' \<Longrightarrow> mirrors d0 a \<Longrightarrow> mirrors d0 a'"
  by (induction items arbitrary: a) (auto simp: bind_eq_Some_conv push_user_message_def intro: mirrors_push_user)

lemma mirrors_replace: "replace_conversation items is_compaction a = Some a' \<Longrightarrow> mirrors d0 a'"
  by (auto simp: replace_conversation_def Let_def bind_eq_Some_conv mirrors_def)

lemma mirrors_head: "replace_system_head prompt a = Some (a', r) \<Longrightarrow> mirrors d0 a \<Longrightarrow> mirrors d0 a'"
  by (auto simp: replace_system_head_def split_beta dest: mirrors_replace split: list.splits ConversationItem.splits if_splits)

lemma mirrors_repair:
  "repair_history_command dry_run a = Some (a', report) \<Longrightarrow> mirrors d0 a \<Longrightarrow> mirrors d0 a'"
  using unchanged_report [of "history a"]
  by (auto simp: repair_history_command_def split_beta mirrors_def [of d0 a] dest: mirrors_replace split: if_splits)
    (auto simp: mirrors_def)

lemma mirrors_truncate: "truncate_to_prompt_index n a = Some a' \<Longrightarrow> mirrors d0 a \<Longrightarrow> mirrors d0 a'"
  by (auto simp: truncate_to_prompt_index_def Let_def mirrors_def split: if_splits)

lemma upsert_changed: "snd (upsert_memory_reminder_text s r) \<longleftrightarrow> fst (upsert_memory_reminder_text s r) \<noteq> s"
  by (simp add: upsert_memory_reminder_text_def Let_def)

lemma inject_unchanged: "\<not> snd (inject_memory_reminder items reminder) \<Longrightarrow> fst (inject_memory_reminder items reminder) = items"
  by (subst (asm) inject_memory_reminder.simps, subst inject_memory_reminder.simps)
    (auto simp: Let_def split_beta upsert_changed split: list.splits ConversationItem.splits if_splits)

lemma mirrors_request:
  assumes "build_conversation_request json tools memory_reminder persist_it conv_id req_id a = Some (a', rq)" and "mirrors d0 a"
  shows "mirrors d0 a'"
proof -
  have "mirrors d0 (fst (persist_reminder memory_reminder persist_it a))"
    using assms(2) inject_unchanged [of "history a"] by (auto simp: persist_reminder_def Let_def split_beta mirrors_def split: option.splits)
  then show ?thesis
    using assms(1) by (auto simp: build_conversation_request_def Let_def split_beta bind_eq_Some_conv mirrors_def)
qed

text \<open>
  The commands after which the state of the store is known and no different from the memory by design. A switch is
  answered, and truthfully: the store has appended it exactly when it had none of that generation, names the one that
  it had, and has not written when it answers \<open>NotCommitted\<close>. An indeterminate answer or a dropped acknowledgement leaves
  open whether the switch was written, a strip that could not be written leaves the file behind the memory, and a
  restored snapshot is never written; these three are outside.
\<close>

definition switch_at :: "nat \<Rightarrow> ConversationItem list \<Rightarrow> ConversationItem option" where
  "switch_at generation d = List.find (\<lambda>x. working_directory_switch_generation x = Some generation) d"

fun honest :: "ConversationItem list \<Rightarrow> ('s, 't) ChatStateCommand \<Rightarrow> bool" where
  "honest d (AppendWorkingDirectorySwitchAndAck content generation answer) \<longleftrightarrow>
     (let ack = (case switch_at generation d of None \<Rightarrow> Appended | Some x \<Rightarrow> AlreadyPresent x) in
      answer \<in> {Some (Inl NotCommitted), Some (Inr ack), Some (Inl (Committed ack))})"
| "honest d (StripConversationImages urls disk_ok) \<longleftrightarrow> disk_ok"
| "honest d (RestoreSnapshot snap) \<longleftrightarrow> False"
| "honest d _ \<longleftrightarrow> True"

lemma pop_reminders_switch: "switch_at generation (fst (pop_reminders c)) = switch_at generation c"
proof (induction c rule: pop_reminders.induct)
  case (1 c)
  show ?case
  proof (cases "c \<noteq> [] \<and> is_continue_reminder (last c)")
    case True
    then have "working_directory_switch_generation (last c) = None" by (cases "last c") auto
    moreover have "List.find p (xs @ [x]) = List.find p xs" if "\<not> p x" for p :: "ConversationItem \<Rightarrow> bool" and xs x
      using that by (induction xs) auto
    ultimately have "switch_at generation (butlast c @ [last c]) = switch_at generation (butlast c)" by (simp add: switch_at_def)
    with 1 True show ?thesis by (subst pop_reminders.simps) (simp add: split_beta Let_def)
  next
    case False
    then have "pop_reminders c = (c, 0)" by (subst pop_reminders.simps) auto
    then show ?thesis by simp
  qed
qed

lemma position_find:
  "position p xs = None \<Longrightarrow> List.find p xs = None" "position p xs = Some i \<Longrightarrow> List.find p xs = Some (xs ! i)"
  by (induction xs arbitrary: i) (auto split: if_splits)

lemma mirrors_switch:
  assumes "append_working_directory_switch content generation answer a = Some (a', result)" and "mirrors d0 a"
    and honest: "answer \<in> {Some (Inl NotCommitted), Some (Inr ack), Some (Inl (Committed ack))}"
    and ack: "ack = (case switch_at generation (history a) of None \<Rightarrow> Appended | Some x \<Rightarrow> AlreadyPresent x)"
  shows "mirrors d0 a'"
proof -
  let ?p = "pop_stranded_continue_reminder a"
  let ?gen = "\<lambda>x. working_directory_switch_generation x = Some generation"
  have p: "stored d0 ?p = history ?p" using mirrors_pop [OF assms(2)] by (simp add: mirrors_def)
  have same: "switch_at generation (history ?p) = switch_at generation (history a)"
    by (simp add: pop_stranded_continue_reminder_def pop_reminders_switch)
  show ?thesis
  proof (cases "position ?gen (history ?p)")
    case None
    from position_find(1) [OF this] ack same have "ack = Appended" by (simp add: switch_at_def)
    with None assms(1) honest p show ?thesis
      by (auto simp: append_working_directory_switch_def Let_def authoritative_switch_def converge_working_directory_switch_def
          mirrors_def add_estimate_def split: option.splits)
  next
    case (Some i)
    from position_find(2) [OF this] same have "switch_at generation (history a) = Some (history ?p ! i)"
      by (simp add: switch_at_def)
    with ack have "ack = AlreadyPresent (history ?p ! i)" by simp
    with Some assms(1) honest p show ?thesis
      by (auto simp: append_working_directory_switch_def Let_def authoritative_switch_def converge_working_directory_switch_def
          mirrors_def bind_eq_Some_conv split: option.splits)
  qed
qed

lemma mirrors_fields:
  "cs_conversation (record_last_turn_usage usage st) = cs_conversation st"
  "cs_conversation (record_model_call_usage model_id usage duration cost st) = cs_conversation st"
  "cs_conversation (record_subagent_usage usages attribute_to_prompt partial st) = cs_conversation st"
  "cs_conversation (mark_usage_incomplete prompt session st) = cs_conversation st"
  by (simp_all add: record_last_turn_usage_def record_model_call_usage_def record_subagent_usage_def mark_usage_incomplete_def Let_def)

lemma mirrors_strip: "mirrors d0 a \<Longrightarrow> mirrors d0 (fst (strip_conversation_images urls True a))"
  by (simp add: strip_conversation_images_def split_beta Let_def mirrors_rewrite strip_zero)

lemma mirrors_command:
  assumes "handle_command json cmd a = Some (a', reply)" and "mirrors d0 a" and "honest (stored d0 a) cmd"
  shows "mirrors d0 a'"
proof -
  consider content generation answer where "cmd = AppendWorkingDirectorySwitchAndAck content generation answer"
    | urls disk_ok where "cmd = StripConversationImages urls disk_ok"
    | "\<And>content generation answer. cmd \<noteq> AppendWorkingDirectorySwitchAndAck content generation answer"
      "\<And>urls disk_ok. cmd \<noteq> StripConversationImages urls disk_ok" by blast
  then show ?thesis
  proof cases
    case 1
    let ?ack = "case switch_at generation (history a) of None \<Rightarrow> Appended | Some x \<Rightarrow> AlreadyPresent x"
    have h: "stored d0 a = history a" using assms(2) by (simp add: mirrors_def)
    from 1 assms(1) obtain result where r: "append_working_directory_switch content generation answer a = Some (a', result)" by auto
    have "answer \<in> {Some (Inl NotCommitted), Some (Inr ?ack), Some (Inl (Committed ?ack))}"
      using assms(3) unfolding h 1 honest.simps Let_def .
    from mirrors_switch [OF r assms(2) this refl] show ?thesis .
  next
    case 2
    with assms mirrors_strip [of d0 a urls] show ?thesis by (auto split: prod.splits option.splits)
  next
    case 3
    with assms show ?thesis
      by (cases cmd) (auto simp: push_user_message_def push_model_output_def push_message_def push_unreported_model_output_def
          record_token_usage_def increment_prompt_index_def repair_dangling_after_harness_halt_def ensure_conversation_integrity_def
          mirrors_fields mirrors_push mirrors_pop mirrors_ensure mirrors_state Let_def split_beta
          intro: mirrors_push_user mirrors_push_users mirrors_replace mirrors_head mirrors_repair mirrors_request
          dest: mirrors_truncate split: if_splits)
  qed
qed

fun honest_run :: "Json \<Rightarrow> ConversationItem list \<Rightarrow> ('s, 't) ChatStateCommand list \<Rightarrow> 's ChatStateActor \<Rightarrow> bool" where
  "honest_run json d0 [] a \<longleftrightarrow> True"
| "honest_run json d0 (cmd # cmds) a \<longleftrightarrow>
     honest (stored d0 a) cmd
       \<and> (case handle_command json cmd a of None \<Rightarrow> True | Some (a', reply) \<Rightarrow> honest_run json d0 cmds a')"

text \<open>
  C19: When the store holds what the memory holds, it does so after every sequence of commands of the following kind: no
  snapshot is restored (restoring writes nothing to the store), every strip of images is written, and every
  working-directory switch is answered definitely and truthfully (an indeterminate or dropped acknowledgement is excluded).
  Replaying the calls of the store, in the order in which the actor made them, then gives the conversation of the actor.
\<close>

theorem disk_mirrors_memory:
  assumes "stored d0 a = history a" and "honest_run json d0 cmds a" and "run_commands json cmds a = Some (a', replies)"
  shows "stored d0 a' = history a'"
  using assms
proof (induction cmds arbitrary: a replies)
  case (Cons cmd cmds)
  then obtain b r rs where b: "handle_command json cmd a = Some (b, r)" "run_commands json cmds b = Some (a', rs)"
    by (auto split: option.splits)
  with Cons.prems have "stored d0 b = history b" using mirrors_command [OF b(1), of d0] by (simp add: mirrors_def)
  with Cons b show ?case by simp
qed simp

section \<open>Requests have no open call\<close>

lemma answer_calls_head: "takeWhile is_result xs = [] \<Longrightarrow> takeWhile is_result (answer_calls reason xs) = []"
  by (cases xs) (auto simp: answer_calls.simps(2) call_list_not_result split: if_splits)

lemma answer_calls_idem: "answer_calls reason (answer_calls reason c) = answer_calls reason c"
proof (induction reason c rule: answer_calls.induct)
  case (2 reason x xs)
  show ?case
  proof (cases "call_list x = []")
    case True
    with 2 show ?thesis by (simp add: answer_calls.simps(2))
  next
    case False
    let ?run = "takeWhile is_result xs" and ?rest = "answer_calls reason (dropWhile is_result xs)"
    let ?all = "?run @ missing_results reason x ?run"
    have all: "\<forall>r \<in> set ?all. is_result r" using missing_results_are [of reason x ?run] set_takeWhileD by fastforce
    have rest: "takeWhile is_result ?rest = []" by (simp add: answer_calls_head takeWhile_dropWhile_Nil)
    have run: "takeWhile is_result (?all @ ?rest) = ?all" "dropWhile is_result (?all @ ?rest) = ?rest"
      using all rest takeWhile_dropWhile_id [of is_result ?rest]
      by (metis append_Nil append_Nil2 takeWhile_append2, metis append_Nil dropWhile_append2)
    have "missing_results reason x ?all = []"
      by (auto simp: missing_results_def [of reason x ?all] filter_empty_conv map_filter_append missing_ids)
    with run False 2 have "answer_calls reason (x # ?all @ ?rest) = x # ?all @ ?rest"
      by (subst answer_calls.simps(2)) (simp only: if_True not_False_eq_True append_Nil append_Nil2 append.assoc simp_thms)
    with False show ?thesis by (simp add: answer_calls.simps(2))
  qed
qed simp

definition no_open_call :: "ConversationItem list \<Rightarrow> bool" where
  "no_open_call c \<longleftrightarrow> answer_calls UserCancelled c = c"

lemma no_open_call_dangling: "no_open_call c \<Longrightarrow> \<not> has_dangling_tool_calls c"
  using repair_dangling_length [of UserCancelled c] has_dangling_sites [of c 0 UserCancelled] repair_dangling_zero [of UserCancelled c]
  by (simp add: no_open_call_def has_dangling_tool_calls_def repair_dangling_answer)

lemma ensure_no_open: "no_open_call (history (ensure_conversation_integrity a))"
  by (simp add: ensure_conversation_integrity_def ensure_conversation_integrity_with_reason_def repair_in_place_def split_beta Let_def
      repair_dangling_answer no_open_call_def answer_calls_idem)

lemma no_open_shape: "shape c = shape d \<Longrightarrow> no_open_call c = no_open_call d"
  unfolding no_open_call_def using answered_shape by metis

lemma no_open_system: "no_open_call (System s # c) = no_open_call c"
  by (simp add: no_open_call_def answer_calls.simps(2))

lemma no_open_inject: "no_open_call c \<Longrightarrow> no_open_call (fst (inject_memory_reminder c reminder))"
  by (subst inject_memory_reminder.simps)
    (auto simp: Let_def split_beta no_open_system split: list.splits ConversationItem.splits)

lemma shape_walk_back: "shape (walk_back_turns edit n seen xs) = shape xs"
proof (induction xs arbitrary: n seen)
  case (Cons x xs)
  then show ?case by (cases x) simp_all
qed simp

lemma shape_rev: "shape (rev c) = rev (shape c)"
  by (simp add: shape_def rev_map)

lemma shape_prune: "shape (prune_conversation config c) = shape c"
  by (simp add: prune_conversation_def shape_rev shape_walk_back)

lemma shape_label: "shape (model_request_history c) = shape c"
proof -
  have "result_id (label_agent_message x) = result_id x \<and> call_list (label_agent_message x) = call_list x" for x
    by (cases x) simp_all
  then show ?thesis by (simp add: shape_def model_request_history_def comp_def)
qed

lemma shape_budget:
  assumes "apply_image_budget json c = Some (items, outcome)" shows "shape items = shape c"
proof -
  from evict_all_oldest [OF refl, of json IMAGE_COMPACT_RECLAIM_TARGET_BYTES c "conversation_body_bytes json c" 0]
  obtain c' n where "evict_images_to_budget json c (conversation_body_bytes json c) IMAGE_COMPACT_RECLAIM_TARGET_BYTES = Some (c', n)"
    "shape c' = shape c" by (auto simp: evict_images_to_budget_def)
  with assms show ?thesis
    by (auto simp: apply_image_budget_def apply_image_budget_with_limits_def Let_def split: if_splits)
qed

lemma build_total:
  "\<exists>a' request. build_conversation_request json tools memory_reminder persist_it conv_id req_id a = Some (a', request)"
proof -
  let ?c = "history (fst (persist_reminder memory_reminder persist_it a))"
  from evict_all_oldest [OF refl, of json IMAGE_COMPACT_RECLAIM_TARGET_BYTES ?c "conversation_body_bytes json ?c" 0]
  obtain items outcome where "apply_image_budget json ?c = Some (items, outcome)"
    by (fastforce simp: apply_image_budget_def apply_image_budget_with_limits_def evict_images_to_budget_def Let_def)
  then show ?thesis by (simp add: build_conversation_request_def Let_def split_beta)
qed

text \<open>
  C21: Whatever state the history is in, building a request succeeds, and the request has no call without a result directly
  behind it; neither has the history from then on. The images that are taken out, the results that are pruned, the reminder
  that is put into the prompt and the labels on messages of other agents do not separate a call from its results.
\<close>

theorem request_answers_every_call:
  "\<exists>a' request. handle_command json (BuildConversationRequest tools memory_reminder persist_it conv_id req_id) a
       = Some (a', RequestReply request)
     \<and> \<not> has_dangling_tool_calls (rq_items request) \<and> \<not> has_dangling_tool_calls (history a')"
proof -
  let ?e = "ensure_conversation_integrity a"
  let ?p = "fst (persist_reminder memory_reminder persist_it ?e)"
  obtain a' request where b: "build_conversation_request json tools memory_reminder persist_it conv_id req_id ?e = Some (a', request)"
    using build_total by blast
  have p: "no_open_call (history ?p)"
    using ensure_no_open [of a] by (auto simp: persist_reminder_def Let_def split_beta no_open_inject split: option.splits)
  from b obtain items outcome where i: "apply_image_budget json (history ?p) = Some (items, outcome)"
    by (auto simp: build_conversation_request_def Let_def split_beta bind_eq_Some_conv)
  then have items: "no_open_call items" using p by (simp add: no_open_shape [OF shape_budget])
  have "no_open_call (rq_items request)" and "history a' = history ?p"
    using b i items by (auto simp: build_conversation_request_def Let_def split_beta no_open_shape [OF shape_label]
        no_open_shape [OF shape_prune] no_open_inject split: option.splits)
  with p b show ?thesis by (simp add: no_open_call_dangling)
qed

section \<open>What can stop the actor\<close>

text \<open>An item is readable unless it is a server-side program whose preview panics.\<close>

fun readable :: "ConversationItem \<Rightarrow> bool" where
  "readable (BackendToolCall b) \<longleftrightarrow> text_summary b \<noteq> None"
| "readable _ \<longleftrightarrow> True"

lemma readable_estimate: "estimate_item_tokens x = None \<longleftrightarrow> \<not> readable x"
  by (cases x) auto

lemma readable_bytes: "item_content_bytes x = None \<longleftrightarrow> \<not> readable x"
  by (cases x) auto

lemma readable_estimates: "list_all readable c \<Longrightarrow> \<exists>n. estimate_conversation_tokens c = Some n"
proof -
  have "list_all readable c \<Longrightarrow> \<exists>ns. estimate_items c = Some ns"
  proof (induction c)
    case (Cons x xs)
    then show ?case using readable_estimate [of x] by (cases "estimate_item_tokens x") auto
  qed simp
  then show "list_all readable c \<Longrightarrow> \<exists>n. estimate_conversation_tokens c = Some n"
    by (auto simp: estimate_conversation_tokens_def)
qed

lemma readable_content: "list_all readable c \<Longrightarrow> \<exists>n. conversation_content_bytes c = Some n"
  by (auto simp: conversation_content_bytes_def list_ex_iff list_all_iff readable_bytes)

lemma readable_result: "is_result x \<Longrightarrow> readable x"
  by (cases x) simp_all

lemma readable_subseq: "subseq xs ys \<Longrightarrow> list_all readable ys \<Longrightarrow> list_all readable xs"
  by (auto simp: list_all_iff dest: list_emb_set)

lemma readable_answer: "list_all readable c \<Longrightarrow> list_all readable (answer_calls reason c)"
proof (induction reason c rule: answer_calls.induct)
  case (2 reason x xs)
  have "list_all readable (takeWhile is_result xs)" using set_takeWhileD readable_result by (fastforce simp: list_all_iff)
  moreover have "list_all readable (dropWhile is_result xs)" using 2(3) set_dropWhileD by (fastforce simp: list_all_iff)
  moreover have "list_all readable (missing_results reason x (takeWhile is_result xs))"
    using missing_results_are readable_result by (fastforce simp: list_all_iff)
  ultimately show ?case using 2 by (simp add: answer_calls.simps(2))
qed simp

lemma readable_repair: "list_all readable c \<Longrightarrow> list_all readable (fst (repair_in_place reason c))"
  using readable_answer [OF readable_subseq [OF dedup_runs_subseq]] dedup_from_runs [of c]
  by (simp add: repair_in_place_def split_beta Let_def repair_dangling_answer dedup_duplicate_tool_results_def)

lemma readable_pop: "list_all readable c \<Longrightarrow> list_all readable (fst (pop_reminders c))"
proof (induction c rule: pop_reminders.induct)
  case (1 c)
  then show ?case
    by (subst pop_reminders.simps) (auto simp: split_beta Let_def list_all_iff dest: in_set_butlastD)
qed

lemma readable_walk_back: "list_all readable xs \<Longrightarrow> list_all readable (walk_back_turns edit n seen xs)"
proof (induction xs arbitrary: n seen)
  case (Cons x xs)
  then show ?case by (cases x) simp_all
qed simp

lemma readable_clear: "list_all readable c \<Longrightarrow> list_all readable (fst (hard_clear k c))"
  by (simp add: hard_clear_def Let_def readable_walk_back)

lemma readable_strip: "list_all readable c \<Longrightarrow> list_all readable (fst (strip_images_by_url urls c))"
proof -
  have "readable (fst (strip_images_item urls x)) = readable x" for x by (cases x) simp_all
  then show "list_all readable c \<Longrightarrow> list_all readable (fst (strip_images_by_url urls c))"
    by (simp add: strip_images_by_url_def list_all_iff)
qed

lemma readable_inject: "list_all readable c \<Longrightarrow> list_all readable (fst (inject_memory_reminder c reminder))"
  by (subst inject_memory_reminder.simps) (auto simp: Let_def split_beta split: list.splits ConversationItem.splits)

lemma readable_head: "list_all readable c \<Longrightarrow> list_all readable (fst (replace_or_insert_system_head prompt c))"
  by (cases "(prompt, c)" rule: replace_or_insert_system_head.cases) auto

lemma readable_repair_history: "list_all readable c \<Longrightarrow> list_all readable (fst (repair_history c))"
proof -
  assume c: "list_all readable c"
  have "list_all readable (dedup_runs c)" using readable_subseq [OF dedup_runs_subseq c] .
  then have "list_all readable (fst (strip_displaced_from {} (dedup_runs c)))"
    using readable_subseq [OF strip_displaced_subseq(1)] by blast
  then show ?thesis
    using dedup_from_runs [of c] by (simp add: repair_history_def split_beta Let_def dedup_duplicate_tool_results_def
        strip_displaced_tool_results_def repair_dangling_answer readable_answer)
qed

definition alive :: "'s ChatStateActor \<Rightarrow> bool" where
  "alive a \<longleftrightarrow> list_all readable (history a)"

definition continues :: "'s ChatStateActor option \<Rightarrow> bool" where
  "continues r \<longleftrightarrow> (\<exists>a. r = Some a \<and> alive a)"

lemma continues_Some [simp]: "continues (Some a) = alive a"
  by (simp add: continues_def)

lemma alive_pop: "alive a \<Longrightarrow> alive (pop_stranded_continue_reminder a)"
  by (simp add: alive_def pop_stranded_continue_reminder_def readable_pop)

lemma alive_ensure: "alive a \<Longrightarrow> alive (ensure_conversation_integrity_with_reason reason a)"
  by (simp add: alive_def ensure_conversation_integrity_with_reason_def readable_repair)

lemma alive_push [simp]: "alive (persist_and_push_message x a) \<longleftrightarrow> alive a \<and> readable x"
  by (auto simp: alive_def persist_and_push_message_def)

lemma alive_estimate [simp]: "alive (add_estimate n a) = alive a"
  by (simp add: alive_def add_estimate_def)

lemma alive_prune:
  assumes "alive a" shows "continues (prune_retained_conversation a)"
proof -
  let ?k = "min (pc_hard_clear_age_turns (act_pruning_config a) + (length (filter is_user (history a)) - cs_prompt_index (act_state a))) usize_max"
  let ?b = "fst (rewrite_history RetainedPrune (hard_clear ?k) True a)"
  have b: "alive ?b" using assms by (simp add: alive_def readable_clear)
  obtain n m where "conversation_content_bytes (history a) = Some n" "conversation_content_bytes (history ?b) = Some m"
    using readable_content assms b unfolding alive_def by blast
  with assms b show ?thesis by (simp add: prune_retained_conversation_def Let_def split_beta del: rewrite_history_history)
qed

lemma alive_push_user:
  assumes "alive a" and "readable x" shows "continues (push_user_message_with_repair_reason x reason a)"
proof -
  obtain n where "estimate_item_tokens x = Some n" using readable_estimate [of x] assms(2) by (cases "estimate_item_tokens x") auto
  with assms show ?thesis by (simp add: push_user_message_with_repair_reason_def Let_def alive_prune alive_ensure alive_pop)
qed

lemma alive_push_users: "alive a \<Longrightarrow> list_all readable xs \<Longrightarrow> continues (push_user_messages xs a)"
proof (induction xs arbitrary: a)
  case (Cons x xs)
  then obtain b where "push_user_message x a = Some b" "alive b"
    using alive_push_user [of a x UserCancelled] by (auto simp: push_user_message_def continues_def)
  with Cons show ?case by simp
qed simp

lemma alive_push_message:
  "alive a \<Longrightarrow> readable x \<Longrightarrow> continues (push_message x a)" "alive a \<Longrightarrow> readable x \<Longrightarrow> continues (push_unreported_model_output x a)"
  using readable_estimate [of x] by (auto simp: push_message_def push_unreported_model_output_def)

lemma alive_replace: "list_all readable items \<Longrightarrow> continues (replace_conversation items is_compaction a)"
  using readable_estimates [of items] by (auto simp: replace_conversation_def Let_def alive_def)

lemma alive_truncate:
  assumes "alive a" shows "continues (truncate_to_prompt_index n a)"
proof -
  let ?c = "take (nth_user_from n 0 (history a) 0) (history a)"
  have c: "list_all readable ?c" using assms by (auto simp: alive_def list_all_iff dest: in_set_takeD)
  then obtain k where "estimate_conversation_tokens ?c = Some k" using readable_estimates by blast
  with assms c show ?thesis by (simp add: truncate_to_prompt_index_def Let_def alive_def)
qed

lemma alive_restore: "list_all readable (sn_conversation snap) \<Longrightarrow> continues (restore_snapshot snap a)"
  using readable_estimates [of "sn_conversation snap"] by (auto simp: restore_snapshot_def Let_def alive_def)

lemma alive_record: "alive a \<Longrightarrow> continues (record_token_usage n a)"
  using readable_estimates [of "history a"] by (auto simp: record_token_usage_def alive_def)

lemma alive_head: "alive a \<Longrightarrow> continues (map_option fst (replace_system_head prompt a))"
  using alive_replace [of "fst (replace_or_insert_system_head prompt (history a))" False a] readable_head [of "history a" prompt]
  by (auto simp: replace_system_head_def alive_def split_beta option.map_comp comp_def continues_def
      split: list.splits ConversationItem.splits)

lemma alive_repair: "alive a \<Longrightarrow> continues (map_option fst (repair_history_command dry_run a))"
  using alive_replace [of "fst (repair_history (history a))" False "on_state (\<lambda>st. st\<lparr>cs_conversation := []\<rparr>) a"]
    readable_repair_history [of "history a"]
  by (auto simp: repair_history_command_def alive_def split_beta option.map_comp comp_def continues_def Let_def)

lemma alive_converge:
  assumes "alive a" and "readable x" shows "continues (converge_working_directory_switch generation x a)"
proof (cases "position (\<lambda>x. working_directory_switch_generation x = Some generation) (history a)")
  case None
  then show ?thesis using assms readable_estimate [of x] by (auto simp: converge_working_directory_switch_def alive_def add_estimate_def)
next
  case (Some i)
  then have "readable (history a ! i)" using assms(1) position_Some [OF Some] by (simp add: alive_def list_all_length)
  moreover have "list_all readable ((history a)[i := x])"
    using assms set_update_subset_insert [of "history a" i x] by (auto simp: alive_def list_all_iff)
  ultimately show ?thesis using Some assms(2) readable_estimate [of x] readable_estimate [of "history a ! i"]
    by (auto simp: converge_working_directory_switch_def alive_def)
qed

fun command_items :: "('s, 't) ChatStateCommand \<Rightarrow> ConversationItem list" where
  "command_items (AppendWorkingDirectorySwitchAndAck content generation answer) =
     (case answer of
        Some (Inr (AlreadyPresent x)) \<Rightarrow> [x]
      | Some (Inl (Committed (AlreadyPresent x))) \<Rightarrow> [x]
      | _ \<Rightarrow> [])"
| "command_items (ReplaceConversation items is_compaction) = items"
| "command_items (RestoreSnapshot snap) = sn_conversation snap"
| "command_items cmd = pushed cmd"

lemma alive_switch:
  assumes "alive a" and "list_all readable (command_items (AppendWorkingDirectorySwitchAndAck content generation answer))"
  shows "continues (map_option fst (append_working_directory_switch content generation answer a))"
proof -
  have p: "alive (persist r (pop_stranded_continue_reminder a))" for r using alive_pop [OF assms(1)] by (simp add: alive_def)
  have "readable x" if "authoritative_switch (working_directory_switch content generation)
      (case answer of Some r \<Rightarrow> r | None \<Rightarrow> Inl Indeterminate) = Some x" for x
    using that assms(2) by (auto simp: authoritative_switch_def working_directory_switch_def
        split: option.splits sum.splits StrictAppendAck.splits StrictAppendError.splits)
  then show ?thesis using p alive_converge [OF p]
    by (cases "authoritative_switch (working_directory_switch content generation)
        (case answer of Some r \<Rightarrow> r | None \<Rightarrow> Inl Indeterminate)")
      (simp_all add: append_working_directory_switch_def Let_def option.map_comp comp_def option.map_ident)
qed

lemma continues_map: "continues (map_option fst r) \<Longrightarrow> \<exists>a x. r = Some (a, x) \<and> alive a"
  by (auto simp: continues_def)

lemma continues_quiet: "continues r \<Longrightarrow> continues (map_option fst (map_option (\<lambda>a. (a, x)) r))"
  by (simp add: option.map_comp comp_def option.map_ident)

lemma alive_state: "cs_conversation st = history a \<Longrightarrow> alive (a\<lparr>act_state := st\<rparr>) = alive a"
  by (simp add: alive_def)

lemma alive_quiet [simp]:
  "alive (send_event e a) = alive a" "alive (persist r a) = alive a"
  by (simp_all add: alive_def)

lemma alive_on_state [simp]: "(\<And>st. cs_conversation (f st) = cs_conversation st) \<Longrightarrow> alive (on_state f a) = alive a"
  by (simp add: alive_def)

lemma alive_build:
  assumes "alive a" and "build_conversation_request json tools memory_reminder persist_it conv_id req_id a = Some (a', rq)"
  shows "alive a'"
proof -
  have "alive (fst (persist_reminder memory_reminder persist_it a))"
    using assms(1) readable_inject by (auto simp: persist_reminder_def Let_def split_beta alive_def split: option.splits)
  with assms(2) show ?thesis by (auto simp: build_conversation_request_def Let_def split_beta bind_eq_Some_conv)
qed

lemma alive_strip: "alive a \<Longrightarrow> alive (fst (strip_conversation_images urls disk_ok a))"
  by (simp add: strip_conversation_images_def split_beta Let_def alive_def readable_strip)

lemma command_continues:
  assumes "alive a" and "list_all readable (command_items cmd)"
  shows "continues (map_option fst (handle_command json cmd a))"
proof (cases cmd)
  case (AppendWorkingDirectorySwitchAndAck content generation answer)
  with assms alive_switch show ?thesis by (fastforce simp: option.map_comp comp_def)
next
  case (BuildConversationRequest tools memory_reminder persist_it conv_id req_id)
  obtain a' rq where b: "build_conversation_request json tools memory_reminder persist_it conv_id req_id (ensure_conversation_integrity a) = Some (a', rq)"
    using build_total by blast
  have "alive (ensure_conversation_integrity a)" using alive_ensure [OF assms(1)] by (simp add: ensure_conversation_integrity_def)
  from alive_build [OF this b] b BuildConversationRequest show ?thesis by simp
next
  case (StripConversationImages urls disk_ok)
  with alive_strip [OF assms(1), of urls disk_ok] show ?thesis by (auto split: prod.splits option.splits)
next
  case (RepairHistory dry_run turn_active)
  with assms(1) alive_repair [OF assms(1), of dry_run] show ?thesis by (auto simp: option.map_comp comp_def)
next
  case (ReplaceSystemHead prompt)
  with alive_head [OF assms(1), of prompt] show ?thesis by (simp add: option.map_comp comp_def)
next
  case (TruncateToPromptIndex n)
  with alive_truncate [OF assms(1), of n] show ?thesis by (auto simp: continues_def)
qed (use assms in \<open>auto intro!: continues_quiet simp: push_user_message_def push_model_output_def alive_push_user alive_push_users
    alive_push_message alive_replace alive_restore alive_record increment_prompt_index_def alive_pop alive_ensure
    repair_dangling_after_harness_halt_def alive_state take_turn_messages_def mirrors_fields Let_def split_beta\<close>)

text \<open>
  The one panic of the model of this actor is the preview of a server-side program cut inside a character. Without such
  items every sequence of commands is handled to its end, one reply each.
\<close>

lemma readable_commands_continue:
  assumes "list_all readable (history a)" and "list_all (\<lambda>cmd. list_all readable (command_items cmd)) cmds"
  shows "\<exists>a' replies. run_commands json cmds a = Some (a', replies) \<and> length replies = length cmds
    \<and> list_all readable (history a')"
  using assms
proof (induction cmds arbitrary: a)
  case (Cons cmd cmds)
  have "continues (map_option fst (handle_command json cmd a))"
    using Cons.prems by (intro command_continues) (simp_all add: alive_def)
  then obtain b r where b: "handle_command json cmd a = Some (b, r)" "list_all readable (history b)"
    using continues_map by (fastforce simp: alive_def)
  with Cons.IH [of b] Cons.prems(2) show ?case by auto
qed simp

section \<open>Rewriting keeps the measured total\<close>

lemma product_error:
  fixes x r' p' :: rat
  assumes "0 \<le> b" and "0 \<le> r" and "\<bar>r' - r\<bar> \<le> r / 2 ^ 53" and "\<bar>p' - b * r'\<bar> \<le> b * r' / 2 ^ 53" and "b * r \<le> 2 ^ 50"
  shows "\<bar>p' - b * r\<bar> < 1 / 2"
proof -
  have "b * \<bar>r' - r\<bar> \<le> b * (r / 2 ^ 53)" using assms(1,3) by (rule mult_left_mono [rotated])
  moreover have "\<bar>b * r' - b * r\<bar> = b * \<bar>r' - r\<bar>" using assms(1) by (simp add: right_diff_distrib [symmetric] abs_mult)
  ultimately have 1: "\<bar>b * r' - b * r\<bar> \<le> b * r / 2 ^ 53" by simp
  then have "b * r' \<le> b * r + b * r / 2 ^ 53" by linarith
  then have "b * r' / 2 ^ 53 \<le> (b * r + b * r / 2 ^ 53) / 2 ^ 53" by (rule divide_right_mono) simp
  with assms(4) 1 have "\<bar>p' - b * r\<bar> \<le> b * r / 2 ^ 53 + (b * r + b * r / 2 ^ 53) / 2 ^ 53"
    unfolding abs_le_iff by linarith
  also have "\<dots> \<le> 2 ^ 50 / 2 ^ 53 + (2 ^ 50 + 2 ^ 50 / 2 ^ 53) / 2 ^ 53"
    using assms(5) by (intro add_mono divide_right_mono) simp_all
  also have "\<dots> < 1 / 2" by simp
  finally show ?thesis .
qed

lemma scaled_estimate_error:
  assumes "base < 2 ^ 53" and "measured < 2 ^ 53" and "estimate < 2 ^ 53" and "0 < estimate" and "base * measured \<le> 2 ^ 50 * estimate"
  defines "x \<equiv> (of_nat base * (of_nat measured / of_nat estimate) :: rat)"
  shows "\<exists>p. \<bar>p - x\<bar> < 1 / 2 \<and> scaled_estimate base measured estimate = f64_as_u64 (f64_round p)"
proof -
  let ?r = "of_nat measured / of_nat estimate :: rat"
  let ?r' = "f64_nearest ?r"
  let ?p = "f64_nearest (of_nat base * ?r')"
  have r: "\<bar>?r' - ?r\<bar> \<le> ?r / 2 ^ 53" by (rule f64_nearest_error) simp
  have p: "\<bar>?p - of_nat base * ?r'\<bar> \<le> of_nat base * ?r' / 2 ^ 53" by (intro f64_nearest_error) (simp add: f64_nearest_nonneg)
  have "of_nat (base * measured) \<le> (of_nat (2 ^ 50 * estimate) :: rat)" using assms(5) by (rule of_nat_mono)
  then have "of_nat base * ?r \<le> 2 ^ 50" using assms(4) by (simp add: divide_le_eq)
  then have "\<bar>?p - x\<bar> < 1 / 2" unfolding x_def using r p by (intro product_error [of _ ?r ?r']) simp_all
  moreover have "scaled_estimate base measured estimate = f64_as_u64 (f64_round ?p)"
    using assms(1-3) by (simp add: scaled_estimate_def Let_def f64_nearest_nat)
  ultimately show ?thesis by blast
qed

lemma as_u64_near:
  fixes p x :: rat
  assumes "\<bar>p - x\<bar> < 1 / 2" and "0 \<le> x" and "x \<le> 2 ^ 50"
  shows "\<bar>of_nat (f64_as_u64 (f64_round p)) - x\<bar> < 1" and "x = of_nat t \<Longrightarrow> f64_as_u64 (f64_round p) = t"
proof -
  let ?f = "\<lfloor>p + 1 / 2\<rfloor>"
  have lo: "x - 1 / 2 < p" and hi: "p < x + 1 / 2" using assms(1) unfolding abs_less_iff by linarith+
  have f: "of_int ?f \<le> p + 1 / 2" "p + 1 / 2 < of_int ?f + 1" using floor_correct [of "p + 1 / 2"] by simp_all
  have "0 \<le> p + 1 / 2" using lo assms(2) by linarith
  then have pos: "0 \<le> ?f" by simp
  have "of_int ?f \<le> (2 ^ 50 + 1 :: rat)" using f hi assms(3) by linarith
  then have "of_int ?f \<le> (of_int (2 ^ 50 + 1) :: rat)" by simp
  then have "?f \<le> 2 ^ 50 + 1" by (simp only: of_int_le_iff)
  then have "nat ?f \<le> nat (2 ^ 50 + 1)" by (rule nat_mono)
  also have "\<dots> \<le> 2 ^ 64 - 1" by (simp add: nat_add_distrib nat_power_eq)
  finally have u: "f64_as_u64 (f64_round p) = nat ?f" unfolding f64_as_u64_def f64_round_def floor_of_int by (rule min_absorb1)
  show "\<bar>of_nat (f64_as_u64 (f64_round p)) - x\<bar> < 1"
    unfolding u of_nat_nat [OF pos] abs_less_iff using f lo hi by linarith
  show "f64_as_u64 (f64_round p) = t" if "x = of_nat t"
  proof -
    from that have x: "of_int (int t) = x" by simp
    have "?f = int t" by (rule floor_unique) (unfold x, use lo in linarith, use hi in linarith)
    then show ?thesis by (simp add: u)
  qed
qed

text \<open>
  C22: After a rewrite of the history the total is estimated anew: at most the total that the provider had confirmed, and, as
  long as the products stay below \<open>2^50\<close>, within one token of the new estimate scaled by the ratio of the confirmed total to the
  estimate at that time, although it is computed in binary64. A rewrite that leaves the estimate alone leaves the total alone.
\<close>

theorem reseed_tracks_measure:
  fixes st :: "'s ChatState" and base :: nat
  defines "measured \<equiv> cs_total_tokens st" and "estimate \<equiv> cs_estimate_at_last_response st"
  assumes "0 < measured" and "0 < estimate" and "measured < 2 ^ 53" and "estimate < 2 ^ 53" and "base < 2 ^ 53"
    and "base * measured \<le> 2 ^ 50 * estimate"
  shows "reseed_total_tokens base st \<le> measured
    \<and> (\<exists>n. reseed_total_tokens base st = min n measured
        \<and> \<bar>of_nat n - of_nat base * of_nat measured / of_nat estimate\<bar> < (1 :: rat))
    \<and> (base = estimate \<longrightarrow> reseed_total_tokens base st = measured)"
proof -
  let ?x = "of_nat base * (of_nat measured / of_nat estimate) :: rat"
  let ?n = "scaled_estimate base measured estimate"
  obtain p where p: "\<bar>p - ?x\<bar> < 1 / 2" "?n = f64_as_u64 (f64_round p)"
    using scaled_estimate_error [of base measured estimate] assms by blast
  have "of_nat (base * measured) \<le> (of_nat (2 ^ 50 * estimate) :: rat)" using assms(8) by (rule of_nat_mono)
  then have "?x \<le> 2 ^ 50" using assms(4) by (simp add: divide_le_eq)
  note near = as_u64_near [OF p(1) _ this]
  have r: "reseed_total_tokens base st = min ?n measured"
    using assms(3,4) unfolding measured_def estimate_def by (simp add: reseed_total_tokens_def Let_def)
  have "?n = measured" if "base = estimate"
    using that assms(4) near(2) [of measured] p(2) by simp
  with near(1) p(2) r show ?thesis by auto
qed

section \<open>Pruning spares recent turns\<close>

lemma walk_back_nth:
  "j < length xs \<Longrightarrow> walk_back_turns edit n seen xs ! j =
     (case xs ! j of
        ToolResult t \<Rightarrow>
          (let users = length (filter is_user (take j xs)) in
           ToolResult (t\<lparr>tr_content := edit (n + (if seen then users else users - 1)) (tr_content t)\<rparr>))
      | x \<Rightarrow> x)"
proof (induction xs arbitrary: n seen j)
  case (Cons x xs)
  show ?case
  proof (cases j)
    case 0
    then show ?thesis by (cases x) simp_all
  next
    case (Suc k)
    with Cons show ?thesis by (cases x) (auto split: ConversationItem.splits)
  qed
qed simp

lemma walk_back_rev:
  assumes "i < length c"
  shows "rev (walk_back_turns edit 0 False (rev c)) ! i =
     (case c ! i of
        ToolResult t \<Rightarrow> ToolResult (t\<lparr>tr_content := edit (length (filter is_user (drop (Suc i) c)) - 1) (tr_content t)\<rparr>)
      | x \<Rightarrow> x)"
proof -
  let ?j = "length c - Suc i"
  have j: "?j < length (rev c)" "rev c ! ?j = c ! i" "take ?j (rev c) = rev (drop (Suc i) c)"
    using assms by (simp_all add: rev_nth take_rev Suc_diff_Suc)
  have "rev (walk_back_turns edit 0 False (rev c)) ! i = walk_back_turns edit 0 False (rev c) ! ?j"
    using assms by (simp add: rev_nth)
  also have "\<dots> = (case c ! i of
        ToolResult t \<Rightarrow> ToolResult (t\<lparr>tr_content := edit (length (filter is_user (drop (Suc i) c)) - 1) (tr_content t)\<rparr>)
      | x \<Rightarrow> x)"
    unfolding walk_back_nth [OF j(1)] j by (simp add: rev_filter [symmetric] split: ConversationItem.splits)
  finally show ?thesis .
qed

text \<open>
  Pruning the kept history changes nothing but the text of tool results, and that only when the turns behind the result
  (the user items, less the current one) are at least the configured age plus the number of user items that are no prompts; so
  that many real prompts lie between. No item is added or removed.
\<close>

theorem prune_spares_recent:
  assumes "prune_retained_conversation a = Some a'" and "i < length (history a)"
  shows "length (history a') = length (history a)
    \<and> (history a' ! i = history a ! i
      \<or> (\<exists>t. history a ! i = ToolResult t \<and> history a' ! i = ToolResult (t\<lparr>tr_content := HARD_CLEAR_PLACEHOLDER\<rparr>)
          \<and> min (pc_hard_clear_age_turns (act_pruning_config a)
                + (length (filter is_user (history a)) - cs_prompt_index (act_state a))) usize_max
              \<le> length (filter is_user (drop (Suc i) (history a))) - 1))"
proof -
  let ?k = "min (pc_hard_clear_age_turns (act_pruning_config a)
                + (length (filter is_user (history a)) - cs_prompt_index (act_state a))) usize_max"
  have "history a' = history a \<or> history a' = fst (hard_clear ?k (history a))"
    using assms(1) by (auto simp: prune_retained_conversation_def Let_def split_beta bind_eq_Some_conv split: if_splits)
  then show ?thesis
  proof
    assume "history a' = fst (hard_clear ?k (history a))"
    then have "history a' = rev (walk_back_turns (clear_result ?k) 0 False (rev (history a)))" by (simp add: hard_clear_def Let_def)
    with walk_back_rev [OF assms(2), of "clear_result ?k"] show ?thesis
      by (cases "history a ! i") (auto simp: clear_result_def)
  qed simp
qed

section \<open>Witnesses\<close>

abbreviation sample_json :: Json where
  "sample_json \<equiv> \<lparr>json_items = length, json_part = (\<lambda>p. 2), json_str = length\<rparr>"

abbreviation sample_actor :: "unit ChatStateActor" where
  "sample_actor \<equiv> the (spawn_with_pruning [] \<lparr>sc_model = ''m'', sc_context_window = 9, sc_options = ()\<rparr>
     \<lparr>pc_enabled = False, pc_keep_last_n_turns = 1, pc_soft_trim_threshold = 2, pc_soft_trim_head = 1, pc_soft_trim_tail = 1,
      pc_hard_clear_age_turns = 2\<rparr>)"

abbreviation sample_turn :: "(unit, unit) ChatStateCommand list" where
  "sample_turn \<equiv> [PushModelOutput (sample_assistant [''c'']), RepairDanglingAfterHarnessHalt ''h'', PushModelOutput (System ''s'')]"

lemma sample_turn_runs:
  "map_option snd (run_commands sample_json (BeginTurnCapture # sample_turn @ [TakeTurnMessages]) sample_actor)
     = Some [NoReply, NoReply, NoReply, NoReply,
        TurnReply (Some \<lparr>messages = [sample_assistant [''c''], System ''s''], capture_compacted = False\<rparr>)]"
  by code_simp

lemma ran: "map_option f r = Some y \<Longrightarrow> \<exists>a replies. r = Some (a, replies)"
  by (cases r) auto

theorem capture_records_pushes_witness:
  "\<exists>a' replies. run_commands sample_json (BeginTurnCapture # sample_turn @ [TakeTurnMessages]) sample_actor = Some (a', replies)
     \<and> last replies = TurnReply (Some \<lparr>messages = concat (map pushed sample_turn), capture_compacted = list_ex compacts sample_turn\<rparr>)"
proof -
  obtain a' replies where r: "run_commands sample_json (BeginTurnCapture # sample_turn @ [TakeTurnMessages]) sample_actor = Some (a', replies)"
    using ran [OF sample_turn_runs] by blast
  have "list_all within_turn sample_turn" by simp
  from capture_records_pushes [OF r this] r show ?thesis by blast
qed

lemma sample_turn_mirrors:
  "stored [] sample_actor = history sample_actor \<and> honest_run sample_json [] sample_turn sample_actor
     \<and> map_option (length \<circ> snd) (run_commands sample_json sample_turn sample_actor) = Some 3"
  by code_simp

theorem disk_mirrors_memory_witness:
  "\<exists>a' replies. run_commands sample_json sample_turn sample_actor = Some (a', replies) \<and> stored [] a' = history a'"
proof -
  obtain a' replies where r: "run_commands sample_json sample_turn sample_actor = Some (a', replies)"
    using ran [OF conjunct2 [OF conjunct2 [OF sample_turn_mirrors]]] by blast
  from disk_mirrors_memory [OF conjunct1 [OF sample_turn_mirrors] conjunct1 [OF conjunct2 [OF sample_turn_mirrors]] r] r
  show ?thesis by blast
qed

theorem reseed_tracks_measure_witness:
  "reseed_total_tokens 70 ((act_state sample_actor)\<lparr>cs_total_tokens := 130, cs_estimate_at_last_response := 100\<rparr>) \<le> 130"
  using reseed_tracks_measure [of "(act_state sample_actor)\<lparr>cs_total_tokens := 130, cs_estimate_at_last_response := 100\<rparr>" 70] by simp

abbreviation sample_old :: "unit ChatStateActor" where
  "sample_old \<equiv> (on_state (\<lambda>st. st\<lparr>cs_conversation := [tool_result ''c'' ''old'', user ''p'', user ''q'']\<rparr>) sample_actor)
     \<lparr>act_pruning_config := default_pruning\<lparr>pc_hard_clear_age_turns := 0\<rparr>\<rparr>"

theorem prune_spares_recent_witness:
  "\<exists>a'. prune_retained_conversation sample_old = Some a' \<and> length (history a') = 3 \<and> history a' ! 1 = user ''p''"
proof -
  have "alive sample_old" by (simp add: alive_def tool_result_def user_def user_item_def on_state_def)
  then obtain a' where a': "prune_retained_conversation sample_old = Some a'" using alive_prune by (auto simp: continues_def)
  from prune_spares_recent [OF a', of 1] a' show ?thesis by (simp add: on_state_def user_def user_item_def)
qed

text \<open>
  The out-of-band repair takes the conversation away before the capture is saved, so what was pushed in a running capture is lost.
\<close>

lemma repair_loses_capture:
  "map_option (last \<circ> snd) (run_commands sample_json
      [PushModelOutput (System ''s''), BeginTurnCapture, PushModelOutput (tool_result ''c'' ''r''), RepairHistory False None,
       TakeTurnMessages] sample_actor)
     = Some (TurnReply (Some \<lparr>messages = [], capture_compacted = False\<rparr>) :: (unit, unit) Reply)"
  by code_simp

end
