(* ===== verification/Breaker_Races.thy ===== *)
theory Breaker_Races
  imports Breaker_Laws
begin

text \<open>
  The circuit breaker under concurrency: the same code of \<open>breaker.rs\<close> as a step relation in which
  each atomic load, store, read-modify-write and clock reading of \<open>check\<close>, \<open>trip\<close> and \<open>close\<close> is
  one step, and the threads interleave freely. The steps are sequentially consistent; the code's
  acquire/release orderings allow every behaviour shown here. The sample window is behind a mutex
  and left out, and so are the retry-after values of refusals. A thread is the point its code has reached, with the locals it still needs.
\<close>

section \<open>Threads and shared memory\<close>

record Shared =
  s_state :: BreakerState
  s_opened :: u64
  s_probes :: usize
  s_claimed :: u64
  s_fast :: bool
  s_now :: u64                     \<comment> \<open>what the clock shows, in milliseconds since the baseline\<close>

datatype Pc =
  CheckState                       \<comment> \<open>\<open>check\<close>: load the state\<close>
| OpenLoad                         \<comment> \<open>\<open>check_open\<close>: load \<open>opened_at_millis\<close>\<close>
| OpenNow u64                      \<comment> \<open>read the clock and compare with the open duration\<close>
| OpenCas                          \<comment> \<open>swap \<open>Open\<close> for \<open>HalfOpen\<close>\<close>
| OpenFast                         \<comment> \<open>clear the fast flag\<close>
| OpenLost                         \<comment> \<open>the swap lost: load the state again\<close>
| ProbeNow                         \<comment> \<open>\<open>try_half_open_probe\<close>: read the clock\<close>
| ProbeAdd u64                     \<comment> \<open>\<open>fetch_add\<close> on the probe counter\<close>
| ProbeStore u64                   \<comment> \<open>a slot was free: store the claim time\<close>
| ProbeSub u64                     \<comment> \<open>no slot: \<open>fetch_sub\<close>\<close>
| ProbeLoad u64                    \<comment> \<open>load the claim time\<close>
| ProbeCas u64 u64                 \<comment> \<open>take over an expired claim\<close>
| TripState | TripNow | TripOpened u64 | TripProbes | TripFast
| CloseState | CloseProbes | CloseFast
| Admitted bool                    \<comment> \<open>\<open>Ok\<close>; true if by taking over a claim\<close>
| Rejected
| Recorded

definition lease :: "BreakerConfig \<Rightarrow> u64" where
  "lease cfg = of_nat (open_duration cfg div 10 ^ 6)"

fun thread_step :: "BreakerConfig \<Rightarrow> Pc \<Rightarrow> Shared \<Rightarrow> Pc \<times> Shared" where
  "thread_step cfg CheckState s =
     ((case s_state s of Closed \<Rightarrow> Admitted False | Open \<Rightarrow> OpenLoad | HalfOpen \<Rightarrow> ProbeNow), s)"
| "thread_step cfg OpenLoad s = (OpenNow (s_opened s), s)"
| "thread_step cfg (OpenNow opened) s =
     ((if millis (unat (sat_sub (s_now s) opened)) \<ge> open_duration cfg then OpenCas else Rejected), s)"
| "thread_step cfg OpenCas s =
     (if s_state s = Open then (OpenFast, s\<lparr>s_state := HalfOpen\<rparr>) else (OpenLost, s))"
| "thread_step cfg OpenFast s = (ProbeNow, s\<lparr>s_fast := False\<rparr>)"
| "thread_step cfg OpenLost s =
     ((case s_state s of Closed \<Rightarrow> Admitted False | HalfOpen \<Rightarrow> ProbeNow | Open \<Rightarrow> Rejected), s)"
| "thread_step cfg ProbeNow s = (ProbeAdd (s_now s), s)"
| "thread_step cfg (ProbeAdd now) s =
     ((if s_probes s < half_open_max_probes cfg then ProbeStore now else ProbeSub now),
      s\<lparr>s_probes := s_probes s + 1\<rparr>)"
| "thread_step cfg (ProbeStore now) s = (Admitted False, s\<lparr>s_claimed := now\<rparr>)"
| "thread_step cfg (ProbeSub now) s = (ProbeLoad now, s\<lparr>s_probes := s_probes s - 1\<rparr>)"
| "thread_step cfg (ProbeLoad now) s =
     ((if sat_sub now (s_claimed s) \<ge> lease cfg then ProbeCas now (s_claimed s) else Rejected), s)"
| "thread_step cfg (ProbeCas now claimed) s =
     (if s_claimed s = claimed then (Admitted True, s\<lparr>s_claimed := now\<rparr>) else (Rejected, s))"
| "thread_step cfg TripState s = (TripNow, s\<lparr>s_state := Open\<rparr>)"
| "thread_step cfg TripNow s = (TripOpened (s_now s), s)"
| "thread_step cfg (TripOpened now) s = (TripProbes, s\<lparr>s_opened := now\<rparr>)"
| "thread_step cfg TripProbes s = (TripFast, s\<lparr>s_probes := 0\<rparr>)"
| "thread_step cfg TripFast s = (Recorded, s\<lparr>s_fast := True\<rparr>)"
| "thread_step cfg CloseState s = (CloseProbes, s\<lparr>s_state := Closed\<rparr>)"
| "thread_step cfg CloseProbes s = (CloseFast, s\<lparr>s_probes := 0\<rparr>)"
| "thread_step cfg CloseFast s = (Recorded, s\<lparr>s_fast := False\<rparr>)"
| "thread_step cfg (Admitted r) s = (Admitted r, s)"
| "thread_step cfg Rejected s = (Rejected, s)"
| "thread_step cfg Recorded s = (Recorded, s)"

type_synonym system = "Pc list \<times> Shared"

inductive system_step :: "BreakerConfig \<Rightarrow> system \<Rightarrow> system \<Rightarrow> bool" for cfg where
  run_thread: "i < length ts \<Longrightarrow> thread_step cfg (ts ! i) s = (pc, s') \<Longrightarrow>
     system_step cfg (ts, s) (ts[i := pc], s')"

inductive_cases system_stepE: "system_step cfg (ts, s) y"

text \<open>The steps of the threads named by a schedule, one after the other.\<close>

fun run_schedule :: "BreakerConfig \<Rightarrow> nat list \<Rightarrow> system \<Rightarrow> system" where
  "run_schedule cfg [] y = y"
| "run_schedule cfg (i # is) (ts, s) =
     (if i < length ts
      then let (pc, s') = thread_step cfg (ts ! i) s in run_schedule cfg is (ts[i := pc], s')
      else run_schedule cfg is (ts, s))"

lemma run_schedule_steps: "(system_step cfg)\<^sup>*\<^sup>* y (run_schedule cfg is y)"
proof (induction cfg "is" y rule: run_schedule.induct)
  case (2 cfg i "is" ts s)
  show ?case
  proof (cases "i < length ts")
    case True
    obtain pc s' where t: "thread_step cfg (ts ! i) s = (pc, s')" by (cases "thread_step cfg (ts ! i) s")
    with True have "system_step cfg (ts, s) (ts[i := pc], s')" by (rule run_thread)
    with 2(1) [OF True] t True show ?thesis by (auto intro: converse_rtranclp_into_rtranclp)
  qed (use 2 in auto)
qed simp

section \<open>A burst of checks admits at most one probe too many\<close>

fun check_pc :: "u64 \<Rightarrow> u64 \<Rightarrow> Pc \<Rightarrow> bool" where
  "check_pc now l (OpenNow _) = True"
| "check_pc now l (ProbeAdd n) = (n = now)"
| "check_pc now l (ProbeStore n) = (n = now)"
| "check_pc now l (ProbeSub n) = (n = now)"
| "check_pc now l (ProbeLoad n) = (n = now)"
| "check_pc now l (ProbeCas n c) = (n = now \<and> l \<le> sat_sub n c)"
| "check_pc now l pc = (pc \<in> {CheckState, OpenLoad, OpenCas, OpenFast, OpenLost, ProbeNow, Rejected,
                           Admitted True, Admitted False})"

definition slot_pc :: "Pc \<Rightarrow> bool" where
  "slot_pc pc \<longleftrightarrow> (\<exists>n. pc = ProbeStore n) \<or> pc = Admitted False"

definition sub_pc :: "Pc \<Rightarrow> bool" where
  "sub_pc pc \<longleftrightarrow> (\<exists>n. pc = ProbeSub n)"

abbreviation tally :: "('a \<Rightarrow> bool) \<Rightarrow> 'a list \<Rightarrow> nat" where
  "tally P xs \<equiv> length (filter P xs)"

lemma tally_update:
  "i < length ts \<Longrightarrow>
   tally P (ts[i := x]) + (if P (ts ! i) then 1 else 0) = tally P ts + (if P x then 1 else 0)"
proof (induction ts arbitrary: i)
  case (Cons t ts)
  then show ?case by (cases i) auto
qed simp

definition burst_inv :: "BreakerConfig \<Rightarrow> system \<Rightarrow> bool" where
  "burst_inv cfg y =
     (case y of (ts, s) \<Rightarrow>
        list_all (check_pc (s_now s) (lease cfg)) ts \<and> s_state s \<noteq> Closed \<and> length ts < 2 ^ 64 \<and>
        unat (s_probes s) = tally slot_pc ts + tally sub_pc ts \<and>
        tally slot_pc ts \<le> unat (half_open_max_probes cfg) \<and>
        (tally (\<lambda>pc. pc = Admitted True) ts = 0 \<or>
         tally (\<lambda>pc. pc = Admitted True) ts = 1 \<and> s_claimed s = s_now s))"

lemma tally_disjoint: "tally slot_pc ts + tally sub_pc ts \<le> length ts"
  by (induction ts) (auto simp: slot_pc_def sub_pc_def)

lemma unat_inc_bound: "unat (p :: usize) + 1 < 2 ^ 64 \<Longrightarrow> unat (p + 1) = unat p + 1"
  by (subst unat_plus_if') simp

lemma list_all_update: "list_all P xs \<Longrightarrow> P x \<Longrightarrow> list_all P (xs[i := x])"
  by (auto simp: list_all_iff dest: set_update_subset_insert [THEN subsetD])

lemma burst_step:
  assumes inv: "burst_inv cfg (ts, s)" and i: "i < length ts"
    and step: "thread_step cfg (ts ! i) s = (pc, s')" and pos: "0 < lease cfg"
  shows "burst_inv cfg (ts[i := pc], s')"
proof -
  let ?all = "check_pc (s_now s) (lease cfg)"
  have all: "list_all ?all ts" and open_state: "s_state s \<noteq> Closed" and len: "length ts < 2 ^ 64"
    and probes: "unat (s_probes s) = tally slot_pc ts + tally sub_pc ts"
    and slots: "tally slot_pc ts \<le> unat (half_open_max_probes cfg)"
    and taken: "tally (\<lambda>pc. pc = Admitted True) ts = 0 \<or>
      tally (\<lambda>pc. pc = Admitted True) ts = 1 \<and> s_claimed s = s_now s"
    using inv by (auto simp: burst_inv_def)
  have here: "?all (ts ! i)" using all i by (simp add: list_all_length)
  note u = tally_update [OF i, of slot_pc pc] tally_update [OF i, of sub_pc pc]
    tally_update [OF i, of "\<lambda>pc. pc = Admitted True" pc]
  have bound: "tally slot_pc (ts[i := pc]) + tally sub_pc (ts[i := pc]) \<le> length ts"
    using tally_disjoint [of "ts[i := pc]"] by simp
  have goal: "burst_inv cfg (ts[i := pc], s')"
    if "check_pc (s_now s') (lease cfg) pc" "s_now s' = s_now s" "s_state s' \<noteq> Closed"
      "unat (s_probes s') = tally slot_pc (ts[i := pc]) + tally sub_pc (ts[i := pc])"
      "tally slot_pc (ts[i := pc]) \<le> unat (half_open_max_probes cfg)"
      "tally (\<lambda>pc. pc = Admitted True) (ts[i := pc]) = 0 \<or>
       tally (\<lambda>pc. pc = Admitted True) (ts[i := pc]) = 1 \<and> s_claimed s' = s_now s'"
    using that all len by (simp add: burst_inv_def list_all_update)
  have quiet: "burst_inv cfg (ts[i := pc], s')"
    if "check_pc (s_now s) (lease cfg) pc" "s_now s' = s_now s" "s_state s' \<noteq> Closed"
      "slot_pc pc \<longleftrightarrow> slot_pc (ts ! i)" "sub_pc pc \<longleftrightarrow> sub_pc (ts ! i)"
      "pc = Admitted True \<longleftrightarrow> ts ! i = Admitted True"
      "s_probes s' = s_probes s" "s_claimed s' = s_claimed s \<or> s_claimed s' = s_now s"
  proof -
    have "tally slot_pc (ts[i := pc]) = tally slot_pc ts" "tally sub_pc (ts[i := pc]) = tally sub_pc ts"
      "tally (\<lambda>pc. pc = Admitted True) (ts[i := pc]) = tally (\<lambda>pc. pc = Admitted True) ts"
      using u that(4-6) by simp_all
    then show ?thesis using that probes slots taken by (intro goal) auto
  qed
  show ?thesis
  proof (cases "ts ! i")
    case (ProbeAdd n)
    have "unat (s_probes s + 1) = unat (s_probes s) + 1"
      by (rule unat_inc_bound) (use u bound step ProbeAdd probes len in
        \<open>auto simp: slot_pc_def sub_pc_def split: if_splits\<close>)
    then show ?thesis
      by (intro goal) (use u step ProbeAdd probes slots taken here open_state in
        \<open>auto simp: slot_pc_def sub_pc_def word_less_nat_alt split: if_splits\<close>)
  next
    case (ProbeSub n)
    have "unat (s_probes s - 1) = unat (s_probes s) - 1"
      by (rule unat_pred) (use u step ProbeSub probes in \<open>auto simp: slot_pc_def sub_pc_def\<close>)
    then show ?thesis
      by (intro goal) (use u step ProbeSub probes slots taken here open_state in
        \<open>auto simp: slot_pc_def sub_pc_def split: if_splits\<close>)
  next
    case (ProbeCas n c)
    have "c \<noteq> s_now s" using here ProbeCas pos by (auto simp: sat_sub_def)
    then show ?thesis
      by (intro goal) (use u step ProbeCas probes slots taken here open_state in
        \<open>auto simp: slot_pc_def sub_pc_def split: if_splits\<close>)
  next
    case (Admitted r)
    then have "pc = Admitted r" "s' = s" using step by simp_all
    with Admitted here open_state show ?thesis by (intro quiet) auto
  qed (rule quiet; use here step open_state in
      \<open>auto simp: slot_pc_def sub_pc_def split: if_splits BreakerState.splits\<close>)+
qed

lemma burst_steps:
  assumes "(system_step cfg)\<^sup>*\<^sup>* y z" and "burst_inv cfg y" and "0 < lease cfg"
  shows "burst_inv cfg z"
  using assms
proof (induction rule: rtranclp_induct)
  case (step z z')
  then show ?case by (cases z) (auto elim!: system_stepE intro: burst_step)
qed

definition open_shared :: "u64 \<Rightarrow> u64 \<Rightarrow> u64 \<Rightarrow> Shared" where
  "open_shared opened claimed now =
     \<lparr>s_state = Open, s_opened = opened, s_probes = 0, s_claimed = claimed, s_fast = True, s_now = now\<rparr>"

text \<open>
  However many threads check an open breaker at one instant, and however their steps interleave,
  at most one probe more than the configured number is admitted: free slots admit at most that many,
  and at most one further thread takes over an expired claim.
\<close>

theorem burst_admission_limit:
  assumes "(system_step cfg)\<^sup>*\<^sup>* (replicate n CheckState, open_shared opened claimed now) (ts, s)"
    and "n < 2 ^ 64" and "0 < lease cfg"
  shows "length (filter (\<lambda>pc. pc = Admitted False) ts) \<le> unat (half_open_max_probes cfg) \<and>
    length (filter (\<lambda>pc. pc = Admitted True) ts) \<le> 1"
proof -
  have "burst_inv cfg (replicate n CheckState, open_shared opened claimed now)"
    using assms(2) by (simp add: burst_inv_def open_shared_def slot_pc_def sub_pc_def list_all_iff filter_replicate)
  then have "burst_inv cfg (ts, s)" using burst_steps [OF assms(1)] assms(3) by blast
  moreover have "tally (\<lambda>pc. pc = Admitted False) ts \<le> tally slot_pc ts"
    by (induction ts) (auto simp: slot_pc_def)
  ultimately show ?thesis by (auto simp: burst_inv_def)
qed

section \<open>Two races\<close>

definition one_second :: BreakerConfig where
  "one_second = server_config\<lparr>open_duration := secs 1\<rparr>"

lemma one_second_values:
  "lease one_second = 1000" "half_open_max_probes one_second = 1" "open_duration one_second = 1000000000"
  by (simp_all add: lease_def one_second_def server_config_def secs_def)

text \<open>The second thread runs while the first is between claiming its slot and stamping the claim.\<close>

theorem burst_admission_limit_witness:
  "length (filter (\<lambda>pc. pc = Admitted True)
     (fst (run_schedule one_second [0, 0, 0, 0, 0, 0, 0, 1, 1, 1, 1, 1, 1, 0]
             (replicate 2 CheckState, open_shared 0 0 5000)))) \<le> 1"
proof -
  let ?y = "(replicate 2 CheckState, open_shared 0 0 5000)"
  obtain ts s where run: "run_schedule one_second [0, 0, 0, 0, 0, 0, 0, 1, 1, 1, 1, 1, 1, 0] ?y = (ts, s)"
    by (cases "run_schedule one_second [0, 0, 0, 0, 0, 0, 0, 1, 1, 1, 1, 1, 1, 0] ?y")
  then have "(system_step one_second)\<^sup>*\<^sup>* ?y (ts, s)"
    using run_schedule_steps [of one_second ?y "[0, 0, 0, 0, 0, 0, 0, 1, 1, 1, 1, 1, 1, 0]"] by simp
  from burst_admission_limit [OF this] run one_second_values(1) show ?thesis by simp
qed

lemmas race_simps = open_shared_def one_second_values sat_sub_def millis_def Let_def

text \<open>
  Two probes at once. With one slot configured, a thread that finds the slot taken can read the
  claim time of an earlier half-open period, because the owner has counted its slot but not yet
  stored its claim; it takes the claim for expired and is admitted beside the owner.
\<close>

theorem two_probes_admitted:
  "fst (run_schedule one_second [0, 0, 0, 0, 0, 0, 0, 1, 1, 1, 1, 1, 1, 0]
          ([CheckState, CheckState], open_shared 0 0 5000)) = [Admitted False, Admitted True]"
  by (simp add: race_simps)

text \<open>
  A failed probe can skip the cool-down. Tripping stores the open state before the opening time,
  so a concurrent check reads the old time, finds it long past and goes half-open at once; the trip
  then completes with the open flag set on a half-open breaker whose slots are all free again.
\<close>

theorem trip_loses_cool_down:
  "snd (run_schedule one_second [0, 1, 1, 1, 1, 1, 0, 0, 0, 0]
          ([TripState, CheckState],
           \<lparr>s_state = HalfOpen, s_opened = 0, s_probes = 1, s_claimed = 4900, s_fast = False, s_now = 5000\<rparr>))
   = \<lparr>s_state = HalfOpen, s_opened = 5000, s_probes = 0, s_claimed = 4900, s_fast = True, s_now = 5000\<rparr>"
  by (simp add: race_simps)

end
