(* ===== verification/Retry_Policy.thy ===== *)
theory Retry_Policy
  imports Rust_Prelude "HOL-Library.Word"
begin

text \<open>
  What to do with a failed request: \<open>crates/common/xai-circuit-breaker/src/retry_policy.rs\<close> for HTTP
  status codes and \<open>grpc.rs\<close> for gRPC codes. The gRPC code type belongs to the \<open>tonic\<close> crate: it is
  a type parameter, and the five codes the policies name are arguments.
\<close>

section \<open>HTTP\<close>

datatype Disposition = Retryable | AuthRefresh | Terminal

record RetryPolicy =
  retryable :: "16 word list"
  auth_refresh :: "16 word list"
  terminal :: "16 word list"
  default_disposition :: Disposition

definition classify :: "RetryPolicy \<Rightarrow> 16 word \<Rightarrow> Disposition option" where
  "classify policy status =
     (if 200 \<le> status \<and> status < 300 then None
      else if status \<in> set (auth_refresh policy) then Some AuthRefresh
      else if status \<in> set (terminal policy) then Some Terminal
      else if status \<in> set (retryable policy) \<or> 500 \<le> status \<and> status < 600 then Some Retryable
      else Some (default_disposition policy))"

definition should_retry :: "RetryPolicy \<Rightarrow> 16 word \<Rightarrow> bool" where
  "should_retry policy status = (case classify policy status of Some Retryable \<Rightarrow> True | _ \<Rightarrow> False)"

definition server :: RetryPolicy where
  "server = \<lparr>retryable = [429], auth_refresh = [], terminal = [], default_disposition = Terminal\<rparr>"

definition edge_client :: RetryPolicy where
  "edge_client = \<lparr>retryable = [429], auth_refresh = [], terminal = [525, 526], default_disposition = Terminal\<rparr>"

definition client_storage :: RetryPolicy where
  "client_storage =
     \<lparr>retryable = [], auth_refresh = [401], terminal = [400, 403, 404, 525, 526], default_disposition = Retryable\<rparr>"

section \<open>gRPC\<close>

record 'code GrpcRetryPolicy =
  grpc_retryable :: "'code list"

definition grpc_default :: "'code \<Rightarrow> 'code \<Rightarrow> 'code GrpcRetryPolicy" where
  "grpc_default unavailable unknown = \<lparr>grpc_retryable = [unavailable, unknown]\<rparr>"

definition grpc_permissive :: "'code \<Rightarrow> 'code \<Rightarrow> 'code \<Rightarrow> 'code \<Rightarrow> 'code GrpcRetryPolicy" where
  "grpc_permissive unavailable unknown internal deadline_exceeded =
     \<lparr>grpc_retryable = [unavailable, unknown, internal, deadline_exceeded]\<rparr>"

definition is_retryable :: "'code GrpcRetryPolicy \<Rightarrow> 'code \<Rightarrow> bool" where
  "is_retryable policy code \<longleftrightarrow> code \<in> set (grpc_retryable policy)"

definition grpc_classify :: "'code \<Rightarrow> 'code GrpcRetryPolicy \<Rightarrow> 'code \<Rightarrow> Disposition option" where
  "grpc_classify ok policy code =
     (if code = ok then None else if is_retryable policy code then Some Retryable else Some Terminal)"

section \<open>The presets\<close>

lemma should_retry_iff: "should_retry policy status \<longleftrightarrow> classify policy status = Some Retryable"
  by (auto simp: should_retry_def split: option.splits Disposition.splits)

lemma not_success_and_error: "500 \<le> status \<Longrightarrow> \<not> status < 300" for status :: "16 word"
  using order.strict_trans2 [of status 300 500] by auto

lemmas preset_defs = classify_def server_def edge_client_def client_storage_def

text \<open>
  The three presets differ as their documentation says, for every 16-bit status: success is
  never an error; a server retries exactly 429 and the 5xx codes; a client behind the edge retries
  the same codes but the two origin-TLS ones, which are terminal; the storage client refreshes
  credentials on 401 only, drops 400, 403, 404 and the origin-TLS codes, and retries all the rest,
  so that it retries whatever an edge client would.
\<close>

theorem retry_presets:
  "(classify policy status = None \<longleftrightarrow> 200 \<le> status \<and> status < 300) \<and>
   (should_retry server status \<longleftrightarrow> status = 429 \<or> 500 \<le> status \<and> status < 600) \<and>
   (should_retry edge_client status \<longleftrightarrow> should_retry server status \<and> status \<notin> {525, 526}) \<and>
   (classify client_storage status = Some AuthRefresh \<longleftrightarrow> status = 401) \<and>
   (classify client_storage status = Some Terminal \<longleftrightarrow> status \<in> {400, 403, 404, 525, 526}) \<and>
   (should_retry client_storage status \<longleftrightarrow>
      \<not> (200 \<le> status \<and> status < 300) \<and> status \<notin> {400, 401, 403, 404, 525, 526})"
  unfolding should_retry_iff
  by (intro conjI) (auto simp: preset_defs dest: not_success_and_error split: if_splits)

text \<open>The permissive gRPC policy retries whatever the default one does.\<close>

theorem grpc_permissive_retries_more:
  "is_retryable (grpc_default unavailable unknown) code \<Longrightarrow>
   is_retryable (grpc_permissive unavailable unknown internal deadline_exceeded) code"
  by (auto simp: is_retryable_def grpc_default_def grpc_permissive_def)

end
