(* ===== verification/Message_Delivery.thy ===== *)
theory Message_Delivery
  imports Rust_Prelude "HOL-Library.Multiset"
begin

text \<open>
  Turn-bound ownership of messages: \<open>crates/common/xai-message-delivery-core/src/lifecycle.rs\<close>. A
  message is admitted pending for a turn, projected when the turn reaches a safe point, delivered
  when the commit succeeds, and leaves with the end of its turn, either to fall back to an ordinary
  prompt or to complete. The completion handle is an opaque value.
\<close>

section \<open>Slots and operations\<close>

record ('p, 'e) TurnBinding =
  prompt_id :: 'p
  epoch :: 'e

record ('i, 's, 'c) DeliveryMessage =
  identity :: 'i
  source :: 's
  content :: 'c

record ('i, 's, 'c, 'k, 'p, 'e) OwnedDelivery =
  binding :: "('p, 'e) TurnBinding"
  message :: "('i, 's, 'c) DeliveryMessage"
  completion :: 'k

datatype ('i, 's, 'c, 'k, 'p, 'e) DeliverySlot =
  Pending (owned: "('i, 's, 'c, 'k, 'p, 'e) OwnedDelivery")
| Projecting (owned: "('i, 's, 'c, 'k, 'p, 'e) OwnedDelivery")
| Delivered (owned: "('i, 's, 'c, 'k, 'p, 'e) OwnedDelivery")

datatype TerminalCause = Completion | SoftCancel | Rewind | HardTeardown | ActorDrop

definition falls_back :: "TerminalCause \<Rightarrow> bool" where
  "falls_back cause \<longleftrightarrow> cause \<in> {Completion, SoftCancel, Rewind}"

datatype ('p, 'e) TerminalTarget = Turn "('p, 'e) TurnBinding" | All

record ('i, 's, 'c, 'k, 'p, 'e) TerminalTransition =
  fallbacks :: "('i, 's, 'c, 'k, 'p, 'e) OwnedDelivery list"
  completions :: "('i, 's, 'c, 'k, 'p, 'e) OwnedDelivery list"

type_synonym ('i, 's, 'c, 'k, 'p, 'e) Lifecycle = "('i, 's, 'c, 'k, 'p, 'e) DeliverySlot list"

definition lifecycle_default :: "('i, 's, 'c, 'k, 'p, 'e) Lifecycle" where
  "lifecycle_default = []"

definition contains_identity :: "'i \<Rightarrow> ('i, 's, 'c, 'k, 'p, 'e) Lifecycle \<Rightarrow> bool" where
  "contains_identity i slots = list_ex (\<lambda>slot. identity (message (owned slot)) = i) slots"

text \<open>\<open>Err\<close> hands the message back.\<close>

definition admit_pending ::
  "('p, 'e) TurnBinding \<Rightarrow> ('i, 's, 'c) DeliveryMessage \<Rightarrow> 'k \<Rightarrow> ('i, 's, 'c, 'k, 'p, 'e) Lifecycle
   \<Rightarrow> (('i, 's, 'c) DeliveryMessage + unit) \<times> ('i, 's, 'c, 'k, 'p, 'e) Lifecycle" where
  "admit_pending b m k slots =
     (if list_ex (\<lambda>slot. identity (message (owned slot)) = identity m) slots then (Inl m, slots)
      else (Inr (), slots @ [Pending \<lparr>binding = b, message = m, completion = k\<rparr>]))"

definition pending_messages ::
  "('p, 'e) TurnBinding \<Rightarrow> ('i, 's, 'c, 'k, 'p, 'e) Lifecycle \<Rightarrow> ('i, 's, 'c) DeliveryMessage list" where
  "pending_messages b slots =
     filter_map (\<lambda>slot. case slot of
        Pending own \<Rightarrow> if binding own = b then Some (message own) else None
      | _ \<Rightarrow> None) slots"

definition begin_delivery ::
  "('p, 'e) TurnBinding \<Rightarrow> ('i, 's, 'c, 'k, 'p, 'e) Lifecycle
   \<Rightarrow> ('i, 's, 'c) DeliveryMessage list \<times> ('i, 's, 'c, 'k, 'p, 'e) Lifecycle" where
  "begin_delivery b slots =
     (let messages = pending_messages b slots in
      if messages = [] then (messages, slots)
      else (messages, map (\<lambda>slot. case slot of
               Pending own \<Rightarrow> if binding own = b then Projecting own else slot
             | _ \<Rightarrow> slot) slots))"

definition projecting_messages ::
  "('p, 'e) TurnBinding \<Rightarrow> ('i, 's, 'c, 'k, 'p, 'e) Lifecycle \<Rightarrow> ('i, 's, 'c) DeliveryMessage list" where
  "projecting_messages b slots =
     filter_map (\<lambda>slot. case slot of
        Projecting own \<Rightarrow> if binding own = b then Some (message own) else None
      | _ \<Rightarrow> None) slots"

text \<open>The caller's \<open>commit\<close> may refuse with an error; then nothing changes.\<close>

definition finish_delivery ::
  "('p, 'e) TurnBinding \<Rightarrow> (('i, 's, 'c) DeliveryMessage list \<Rightarrow> 'err + unit) \<Rightarrow> ('i, 's, 'c, 'k, 'p, 'e) Lifecycle
   \<Rightarrow> ('err + ('i, 's, 'c) DeliveryMessage list) \<times> ('i, 's, 'c, 'k, 'p, 'e) Lifecycle" where
  "finish_delivery b commit slots =
     (let messages = projecting_messages b slots in
      if messages = [] then (Inr messages, slots)
      else case commit messages of
             Inl err \<Rightarrow> (Inl err, slots)
           | Inr _ \<Rightarrow>
               (Inr messages, map (\<lambda>slot. case slot of
                    Projecting own \<Rightarrow> if binding own = b then Delivered own else slot
                  | _ \<Rightarrow> slot) slots))"

definition target_matches :: "('p, 'e) TerminalTarget \<Rightarrow> ('i, 's, 'c, 'k, 'p, 'e) DeliverySlot \<Rightarrow> bool" where
  "target_matches target slot = (case target of Turn b \<Rightarrow> binding (owned slot) = b | All \<Rightarrow> True)"

text \<open>The closure of \<open>filter_map\<close> run over the slots, with the transition it fills.\<close>

fun transition_loop ::
  "('p, 'e) TerminalTarget \<Rightarrow> TerminalCause \<Rightarrow> ('i, 's, 'c, 'k, 'p, 'e) Lifecycle
   \<Rightarrow> ('i, 's, 'c, 'k, 'p, 'e) TerminalTransition
   \<Rightarrow> ('i, 's, 'c, 'k, 'p, 'e) TerminalTransition \<times> ('i, 's, 'c, 'k, 'p, 'e) Lifecycle" where
  "transition_loop target cause [] tr = (tr, [])"
| "transition_loop target cause (slot # slots) tr =
     (if \<not> target_matches target slot then
        (let (tr', kept) = transition_loop target cause slots tr in (tr', slot # kept))
      else case slot of
             Pending own \<Rightarrow>
               if falls_back cause
               then transition_loop target cause slots (tr\<lparr>fallbacks := fallbacks tr @ [own]\<rparr>)
               else transition_loop target cause slots (tr\<lparr>completions := completions tr @ [own]\<rparr>)
           | Projecting own \<Rightarrow> transition_loop target cause slots (tr\<lparr>completions := completions tr @ [own]\<rparr>)
           | Delivered own \<Rightarrow> transition_loop target cause slots (tr\<lparr>completions := completions tr @ [own]\<rparr>))"

definition transition ::
  "('p, 'e) TerminalTarget \<Rightarrow> TerminalCause \<Rightarrow> ('i, 's, 'c, 'k, 'p, 'e) Lifecycle
   \<Rightarrow> ('i, 's, 'c, 'k, 'p, 'e) TerminalTransition \<times> ('i, 's, 'c, 'k, 'p, 'e) Lifecycle" where
  "transition target cause slots = transition_loop target cause slots \<lparr>fallbacks = [], completions = []\<rparr>"

section \<open>What a transition takes\<close>

definition is_pending :: "('i, 's, 'c, 'k, 'p, 'e) DeliverySlot \<Rightarrow> bool" where
  "is_pending slot = (case slot of Pending _ \<Rightarrow> True | _ \<Rightarrow> False)"

definition is_delivered :: "('i, 's, 'c, 'k, 'p, 'e) DeliverySlot \<Rightarrow> bool" where
  "is_delivered slot = (case slot of Delivered _ \<Rightarrow> True | _ \<Rightarrow> False)"

lemma transition_loop_eq:
  "transition_loop target cause slots tr =
     (tr\<lparr>fallbacks := fallbacks tr @
           map owned (filter (\<lambda>s. target_matches target s \<and> is_pending s \<and> falls_back cause) slots),
         completions := completions tr @
           map owned (filter (\<lambda>s. target_matches target s \<and> \<not> (is_pending s \<and> falls_back cause)) slots)\<rparr>,
      filter (\<lambda>s. \<not> target_matches target s) slots)"
  by (induction target cause slots tr rule: transition_loop.induct)
    (auto simp: is_pending_def Let_def split: DeliverySlot.splits)

lemma transition_eq:
  "transition target cause slots =
     (\<lparr>fallbacks = map owned (filter (\<lambda>s. target_matches target s \<and> is_pending s \<and> falls_back cause) slots),
       completions = map owned (filter (\<lambda>s. target_matches target s \<and> \<not> (is_pending s \<and> falls_back cause)) slots)\<rparr>,
      filter (\<lambda>s. \<not> target_matches target s) slots)"
  by (simp add: transition_def transition_loop_eq)

text \<open>
  The end of a turn takes exactly the messages bound to it, each once and in admission order:
  the ones still pending fall back if the cause allows it, all others complete, and the messages of
  other turns stay as they are. After a transition on all turns nothing is left.
\<close>

theorem transition_partitions:
  "let (tr, kept) = transition target cause slots in
     mset (map owned slots) = mset (map owned kept) + mset (fallbacks tr) + mset (completions tr) \<and>
     kept = filter (\<lambda>s. \<not> target_matches target s) slots \<and>
     fallbacks tr = (if falls_back cause then map owned (filter (\<lambda>s. target_matches target s \<and> is_pending s) slots) else []) \<and>
     (case target of All \<Rightarrow> kept = [] | Turn b \<Rightarrow> True)"
proof -
  have "mset (map owned slots) = mset (map owned (filter (\<lambda>s. \<not> P s) slots)) +
      mset (map owned (filter (\<lambda>s. P s \<and> Q s) slots)) + mset (map owned (filter (\<lambda>s. P s \<and> \<not> Q s) slots))"
    for P Q :: "('a, 'b, 'c, 'd, 'e, 'f) DeliverySlot \<Rightarrow> bool"
    by (induction slots) auto
  from this [of "target_matches target" "\<lambda>s. is_pending s \<and> falls_back cause"] show ?thesis
    by (cases target) (simp_all add: transition_eq target_matches_def conj_assoc)
qed

section \<open>Every admitted message leaves once\<close>

datatype ('i, 's, 'c, 'k, 'p, 'e) DeliveryOp =
  Admit "('p, 'e) TurnBinding" "('i, 's, 'c) DeliveryMessage" 'k
| Begin "('p, 'e) TurnBinding"
| Finish "('p, 'e) TurnBinding" bool            \<comment> \<open>whether the commit succeeds\<close>
| Terminate "('p, 'e) TerminalTarget" TerminalCause

text \<open>The lifecycle together with the history of what it accepted, committed and gave up.\<close>

record ('i, 's, 'c, 'k, 'p, 'e) History =
  h_slots :: "('i, 's, 'c, 'k, 'p, 'e) Lifecycle"
  h_admitted :: "('i, 's, 'c, 'k, 'p, 'e) OwnedDelivery list"
  h_committed :: "('i, 's, 'c) DeliveryMessage list"
  h_fallbacks :: "('i, 's, 'c, 'k, 'p, 'e) OwnedDelivery list"
  h_completions :: "('i, 's, 'c, 'k, 'p, 'e) OwnedDelivery list"

fun delivery_step :: "('i, 's, 'c, 'k, 'p, 'e) History \<Rightarrow> ('i, 's, 'c, 'k, 'p, 'e) DeliveryOp
    \<Rightarrow> ('i, 's, 'c, 'k, 'p, 'e) History" where
  "delivery_step h (Admit b m k) =
     (case admit_pending b m k (h_slots h) of
        (Inl _, slots) \<Rightarrow> h\<lparr>h_slots := slots\<rparr>
      | (Inr _, slots) \<Rightarrow>
          h\<lparr>h_slots := slots, h_admitted := h_admitted h @ [\<lparr>binding = b, message = m, completion = k\<rparr>]\<rparr>)"
| "delivery_step h (Begin b) = h\<lparr>h_slots := snd (begin_delivery b (h_slots h))\<rparr>"
| "delivery_step h (Finish b success) =
     (case finish_delivery b (\<lambda>_. if success then Inr () else Inl ()) (h_slots h) of
        (Inl _, slots) \<Rightarrow> h\<lparr>h_slots := slots\<rparr>
      | (Inr ms, slots) \<Rightarrow> h\<lparr>h_slots := slots, h_committed := h_committed h @ ms\<rparr>)"
| "delivery_step h (Terminate target cause) =
     (let (tr, slots) = transition target cause (h_slots h)
      in h\<lparr>h_slots := slots, h_fallbacks := h_fallbacks h @ fallbacks tr,
           h_completions := h_completions h @ completions tr\<rparr>)"

definition history_new :: "('i, 's, 'c, 'k, 'p, 'e) History" where
  "history_new = \<lparr>h_slots = [], h_admitted = [], h_committed = [], h_fallbacks = [], h_completions = []\<rparr>"

definition slot_identity :: "('i, 's, 'c, 'k, 'p, 'e) DeliverySlot \<Rightarrow> 'i" where
  "slot_identity slot = identity (message (owned slot))"

definition history_inv :: "('i, 's, 'c, 'k, 'p, 'e) History \<Rightarrow> bool" where
  "history_inv h \<longleftrightarrow>
     mset (h_admitted h) = mset (map owned (h_slots h)) + mset (h_fallbacks h) + mset (h_completions h) \<and>
     mset (h_committed h) \<subseteq># mset (map (message \<circ> owned) (filter is_delivered (h_slots h)))
       + mset (map message (h_completions h)) \<and>
     distinct (map slot_identity (h_slots h))"

lemma begin_slots:
  "snd (begin_delivery b slots) =
     map (\<lambda>slot. if is_pending slot \<and> binding (owned slot) = b then Projecting (owned slot) else slot) slots"
proof (cases "pending_messages b slots = []")
  case True
  then have "\<not> (is_pending slot \<and> binding (owned slot) = b)" if "slot \<in> set slots" for slot
    using that unfolding pending_messages_def
    by (induction slots) (auto simp: is_pending_def split: DeliverySlot.splits option.splits if_splits)
  then have "map (\<lambda>slot. if is_pending slot \<and> binding (owned slot) = b then Projecting (owned slot) else slot) slots = slots"
    by (intro map_idI) auto
  with True show ?thesis by (simp add: begin_delivery_def)
next
  case False
  then show ?thesis
    by (auto simp: begin_delivery_def is_pending_def Let_def split: DeliverySlot.splits)
qed

definition is_projecting_for :: "('p, 'e) TurnBinding \<Rightarrow> ('i, 's, 'c, 'k, 'p, 'e) DeliverySlot \<Rightarrow> bool" where
  "is_projecting_for b slot = (case slot of Projecting own \<Rightarrow> binding own = b | _ \<Rightarrow> False)"

lemma projecting_messages_eq:
  "projecting_messages b slots = map (message \<circ> owned) (filter (is_projecting_for b) slots)"
  by (induction slots)
    (auto simp: projecting_messages_def is_projecting_for_def split: DeliverySlot.splits)

lemma finish_eq:
  "finish_delivery b (\<lambda>_. if success then Inr () else Inl ()) slots =
     (if projecting_messages b slots = [] then (Inr [], slots)
      else if success
        then (Inr (projecting_messages b slots),
              map (\<lambda>slot. if is_projecting_for b slot then Delivered (owned slot) else slot) slots)
      else (Inl (), slots))"
  by (auto simp: finish_delivery_def is_projecting_for_def Let_def split: DeliverySlot.splits)

lemma owned_map_keeps: "map owned (map (\<lambda>slot. if P slot then f (owned slot) else slot) slots) = map owned slots"
  if "\<And>x. owned (f x) = x"
  using that by simp

lemma finish_delivered:
  "mset (map (message \<circ> owned) (filter is_delivered
       (map (\<lambda>slot. if is_projecting_for b slot then Delivered (owned slot) else slot) slots)))
   = mset (map (message \<circ> owned) (filter is_delivered slots)) + mset (projecting_messages b slots)"
  unfolding projecting_messages_eq
  by (induction slots) (auto simp: is_delivered_def is_projecting_for_def split: DeliverySlot.splits)

lemma slot_identity_map:
  "map slot_identity (map (\<lambda>slot. if P slot then f (owned slot) else slot) slots) = map slot_identity slots"
  if "\<And>x. owned (f x) = x"
  using that by (simp add: slot_identity_def)

lemma admit_inv: "history_inv h \<Longrightarrow> history_inv (delivery_step h (Admit b m k))"
  by (auto simp: history_inv_def admit_pending_def list_ex_iff slot_identity_def is_delivered_def)

lemma begin_inv: "history_inv h \<Longrightarrow> history_inv (delivery_step h (Begin b))"
proof -
  assume inv: "history_inv h"
  let ?f = "\<lambda>slot. if is_pending slot \<and> binding (owned slot) = b then Projecting (owned slot) else slot"
  have "map (message \<circ> owned) (filter is_delivered (map ?f slots)) = map (message \<circ> owned) (filter is_delivered slots)"
    for slots :: "('a, 'b, 'c, 'd, 'e, 'f) DeliverySlot list"
    by (induction slots) (auto simp: is_delivered_def is_pending_def split: DeliverySlot.splits)
  with inv show ?thesis
    by (simp add: history_inv_def begin_slots owned_map_keeps [OF DeliverySlot.sel(2)]
        slot_identity_map [OF DeliverySlot.sel(2)] del: map_map)
qed

lemma finish_inv: "history_inv h \<Longrightarrow> history_inv (delivery_step h (Finish b success))"
proof -
  assume inv: "history_inv h"
  show ?thesis
  proof (cases "projecting_messages b (h_slots h) = [] \<or> \<not> success")
    case True
    with inv show ?thesis by (auto simp: history_inv_def finish_eq)
  next
    case False
    let ?P = "projecting_messages b (h_slots h)"
    define slots where
      "slots = map (\<lambda>slot. if is_projecting_for b slot then Delivered (owned slot) else slot) (h_slots h)"
    have step: "delivery_step h (Finish b success) = h\<lparr>h_slots := slots, h_committed := h_committed h @ ?P\<rparr>"
      using False by (simp add: slots_def finish_eq [of b True, simplified])
    have "mset (h_committed h) + mset ?P \<subseteq># mset (map (message \<circ> owned) (filter is_delivered (h_slots h))) +
        mset (map message (h_completions h)) + mset ?P"
      using inv unfolding history_inv_def by (blast intro: subset_mset.add_right_mono)
    then have "mset (h_committed h @ ?P) \<subseteq># mset (map (message \<circ> owned) (filter is_delivered slots)) +
        mset (map message (h_completions h))"
      by (simp only: slots_def finish_delivered mset_append ac_simps)
    moreover have "map owned slots = map owned (h_slots h)" "map slot_identity slots = map slot_identity (h_slots h)"
      unfolding slots_def by (intro owned_map_keeps slot_identity_map; simp)+
    ultimately show ?thesis
      using inv unfolding step history_inv_def by (simp del: mset_map)
  qed
qed

lemma split_three:
  "mset (map f xs) = mset (map f (filter (\<lambda>s. \<not> P s) xs)) + mset (map f (filter (\<lambda>s. P s \<and> Q s) xs)) +
     mset (map f (filter (\<lambda>s. P s \<and> \<not> Q s) xs))"
  by (induction xs) auto

lemma delivered_leave:
  "mset (map (message \<circ> owned) (filter is_delivered slots)) \<subseteq>#
     mset (map (message \<circ> owned) (filter is_delivered (filter (\<lambda>s. \<not> P s) slots))) +
     mset (map message (map owned (filter (\<lambda>s. P s \<and> \<not> (is_pending s \<and> c)) slots)))"
proof -
  let ?f = "message \<circ> owned" and ?slots = "mset slots"
  have "filter_mset is_delivered ?slots =
      filter_mset (\<lambda>s. \<not> P s \<and> is_delivered s) ?slots + filter_mset (\<lambda>s. P s \<and> is_delivered s) ?slots"
    by (induction slots) auto
  moreover have "filter_mset (\<lambda>s. P s \<and> is_delivered s) ?slots \<subseteq>#
      filter_mset (\<lambda>s. P s \<and> \<not> (is_pending s \<and> c)) ?slots"
    by (rule filter_mset_mono_strong)
      (auto simp: is_delivered_def is_pending_def split: DeliverySlot.splits)
  ultimately show ?thesis
    by (simp add: image_mset_subseteq_mono image_mset.compositionality)
qed

lemma terminate_inv: "history_inv h \<Longrightarrow> history_inv (delivery_step h (Terminate target cause))"
proof -
  assume inv: "history_inv h"
  let ?T = "target_matches target" and ?F = "\<lambda>s. is_pending s \<and> falls_back cause"
  let ?slots = "h_slots h"
  have "mset (h_committed h) \<subseteq># mset (map (message \<circ> owned) (filter is_delivered (filter (\<lambda>s. \<not> ?T s) ?slots))) +
      mset (map message (map owned (filter (\<lambda>s. ?T s \<and> \<not> ?F s) ?slots))) + mset (map message (h_completions h))"
    using inv subset_mset.order_trans [OF _ subset_mset.add_right_mono 
        [OF delivered_leave [of "h_slots h" ?T "falls_back cause"]]]
    by (simp add: history_inv_def)
  moreover have "distinct (map slot_identity (filter (\<lambda>s. \<not> ?T s) ?slots))"
    using inv by (auto simp: history_inv_def intro: distinct_map_filter)
  ultimately show ?thesis
    using inv split_three [of owned ?slots ?T ?F] by (simp add: history_inv_def transition_eq Let_def ac_simps)
qed

lemma delivery_step_inv: "history_inv h \<Longrightarrow> history_inv (delivery_step h oper)"
  by (cases oper) (simp_all only: admit_inv begin_inv finish_inv terminate_inv)

lemma history_run_inv: "history_inv (foldl delivery_step history_new ops)"
proof -
  have "history_inv (foldl delivery_step h ops)" if "history_inv h" for h
    using that by (induction ops arbitrary: h) (simp_all add: delivery_step_inv del: delivery_step.simps)
  then show ?thesis by (simp add: history_inv_def history_new_def)
qed

lemma distinct_submset:
  assumes "mset xs \<subseteq># mset ys" and "distinct ys"
  shows "distinct xs"
proof -
  obtain zs where "mset ys = mset (xs @ zs)"
    using assms(1) by (metis ex_mset mset_append subset_mset.le_iff_add)
  with assms(2) have "distinct (xs @ zs)" using mset_eq_imp_distinct_iff by blast
  then show ?thesis by simp
qed

lemma exits_disjoint:
  assumes "history_inv h" and "distinct (map (identity \<circ> message) (h_admitted h))"
  shows "distinct (map identity (h_committed h) @ map (identity \<circ> message) (h_fallbacks h))"
proof (rule distinct_submset [OF _ assms(2)])
  have "mset (map (message \<circ> owned) (filter is_delivered (h_slots h))) \<subseteq># mset (map (message \<circ> owned) (h_slots h))"
    by (simp add: image_mset_subseteq_mono)
  then have "mset (h_committed h) \<subseteq># mset (map (message \<circ> owned) (h_slots h)) + mset (map message (h_completions h))"
    using assms(1) unfolding history_inv_def by (meson subset_mset.add_right_mono subset_mset.order_trans)
  from image_mset_subseteq_mono [OF this, of identity]
  show "mset (map identity (h_committed h) @ map (identity \<circ> message) (h_fallbacks h))
      \<subseteq># mset (map (identity \<circ> message) (h_admitted h))"
    using assms(1) by (simp add: history_inv_def image_mset.compositionality comp_def ac_simps)
qed

text \<open>
  C40: Over any sequence of operations no message is lost or handled twice. Every admitted message
  is either still owned by the lifecycle or has left through exactly one of the two exits; no two
  owned messages share an identity; every committed message is owned as delivered or has
  completed; and when the admitted messages have different identities, none is committed twice and
  none that was committed ever falls back to be prompted again.
\<close>

theorem delivery_exactly_once:
  "let h = foldl delivery_step history_new ops in
     mset (h_admitted h) = mset (map owned (h_slots h)) + mset (h_fallbacks h) + mset (h_completions h) \<and>
     distinct (map slot_identity (h_slots h)) \<and>
     mset (h_committed h) \<subseteq># mset (map (message \<circ> owned) (filter is_delivered (h_slots h)))
       + mset (map message (h_completions h)) \<and>
     (distinct (map (identity \<circ> message) (h_admitted h)) \<longrightarrow>
        distinct (map identity (h_committed h)) \<and>
        (\<forall>d \<in> set (h_fallbacks h). message d \<notin> set (h_committed h)))"
proof -
  define h where "h = foldl delivery_step history_new ops"
  have inv: "history_inv h" unfolding h_def by (rule history_run_inv)
  then have adm: "mset (h_admitted h) = mset (map owned (h_slots h)) + mset (h_fallbacks h) + mset (h_completions h)"
    and slots: "distinct (map slot_identity (h_slots h))"
    and comm: "mset (h_committed h) \<subseteq># mset (map (message \<circ> owned) (filter is_delivered (h_slots h)))
       + mset (map message (h_completions h))"
    by (simp_all add: history_inv_def)
  moreover have "distinct (map identity (h_committed h)) \<and> (\<forall>d \<in> set (h_fallbacks h). message d \<notin> set (h_committed h))"
    if "distinct (map (identity \<circ> message) (h_admitted h))"
    using exits_disjoint [OF inv that] by auto
  ultimately show ?thesis unfolding h_def [symmetric] Let_def by blast
qed

definition sample_turn :: "nat \<Rightarrow> (nat, nat) TurnBinding" where
  "sample_turn n = \<lparr>prompt_id = n, epoch = 0\<rparr>"

definition sample_message :: "nat \<Rightarrow> (nat, nat, nat) DeliveryMessage" where
  "sample_message n = \<lparr>identity = n, source = 0, content = n\<rparr>"

definition sample_ops :: "(nat, nat, nat, nat, nat, nat) DeliveryOp list" where
  "sample_ops =
     [Admit (sample_turn 1) (sample_message 1) 0, Begin (sample_turn 1), Finish (sample_turn 1) True,
      Admit (sample_turn 1) (sample_message 2) 0, Terminate All Completion]"

text \<open>The first message is committed; the second, still pending, falls back.\<close>

theorem delivery_exactly_once_witness:
  "let h = foldl delivery_step history_new sample_ops in
     h_committed h = [sample_message 1] \<and> map message (h_fallbacks h) = [sample_message 2] \<and>
     distinct (map (identity \<circ> message) (h_admitted h)) \<and> distinct (map identity (h_committed h)) \<and>
     (\<forall>d \<in> set (h_fallbacks h). message d \<notin> set (h_committed h))"
proof -
  have run: "foldl delivery_step history_new sample_ops =
      \<lparr>h_slots = [], h_admitted = map (\<lambda>n. \<lparr>binding = sample_turn 1, message = sample_message n, completion = 0\<rparr>) [1, 2],
        h_committed = [sample_message 1],
        h_fallbacks = [\<lparr>binding = sample_turn 1, message = sample_message 2, completion = 0\<rparr>],
        h_completions = [\<lparr>binding = sample_turn 1, message = sample_message 1, completion = 0\<rparr>]\<rparr>"
    by code_simp
  have "distinct (map (identity \<circ> message) (h_admitted (foldl delivery_step history_new sample_ops)))"
    unfolding run by code_simp
  with delivery_exactly_once [of sample_ops] show ?thesis
    unfolding Let_def by (auto simp: run)
qed

end
