(* ===== verification/Agent_Identity.thy ===== *)
theory Agent_Identity
  imports Rust_Prelude "HOL-Library.Word"
begin

unbundle bit_operations_syntax

text \<open>
  Names of agents, of their activations and of their addresses:
  \<open>crates/common/xai-message-delivery-core/src/identity.rs\<close>, \<open>address.rs\<close> and \<open>envelope.rs\<close>. The host
  supplies the 128-bit entropy of a minted token. The three kinds of token share a contract, the
  locale \<open>minted_token\<close>, which is interpreted for each.
\<close>

section \<open>Tokens\<close>

definition AGENT_PREFIX :: string where "AGENT_PREFIX = ''ag1.''"
definition ATTEMPT_PREFIX :: string where "ATTEMPT_PREFIX = ''at1.''"
definition ADDRESS_PREFIX :: string where "ADDRESS_PREFIX = ''aa1.''"
definition UUID_TOKEN_LEN :: nat where "UUID_TOKEN_LEN = 36"
definition UUID_HYPHENS :: "nat list" where "UUID_HYPHENS = [8, 13, 18, 23]"
definition UUID_V7_INDEX :: nat where "UUID_V7_INDEX = 14"
definition UUID_VARIANT_INDEX :: nat where "UUID_VARIANT_INDEX = 19"

lemmas token_consts [rust_defs] = AGENT_PREFIX_def ATTEMPT_PREFIX_def ADDRESS_PREFIX_def UUID_TOKEN_LEN_def
  UUID_HYPHENS_def UUID_V7_INDEX_def UUID_VARIANT_INDEX_def

datatype AgentId = AgentId (agent_str: string)
datatype AttemptId = AttemptId (attempt_str: string)
datatype AgentAddress = AgentAddress (address_str: string)

definition is_uuid_v7 :: "string \<Rightarrow> bool" where
  "is_uuid_v7 token \<longleftrightarrow>
     length token = UUID_TOKEN_LEN \<and>
     list_all (\<lambda>(index, byte). if index \<in> set UUID_HYPHENS then byte = CHR ''-'' else is_lower_hex byte)
       (enumerate 0 token) \<and>
     token ! UUID_V7_INDEX = CHR ''7'' \<and>
     token ! UUID_VARIANT_INDEX \<in> set ''89ab''"

definition parse_prefixed :: "string \<Rightarrow> string \<Rightarrow> string option" where
  "parse_prefixed token pre =
     (let token = trim token in
      case strip_prefix pre token of
        None \<Rightarrow> None
      | Some rest \<Rightarrow> if rest = [] \<or> \<not> list_all is_lower_hex rest then None else Some token)"

definition agent_mint :: "128 word \<Rightarrow> AgentId" where
  "agent_mint entropy = AgentId (AGENT_PREFIX @ to_hex (unat entropy))"

definition agent_parse :: "string \<Rightarrow> AgentId option" where
  "agent_parse token =
     (let token = trim token in
      if is_uuid_v7 token then Some (AgentId token)
      else map_option AgentId (parse_prefixed token AGENT_PREFIX))"

definition from_uuid_v7 :: "string \<Rightarrow> AgentId option" where
  "from_uuid_v7 token = (if is_uuid_v7 token then Some (AgentId token) else None)"

definition attempt_mint :: "128 word \<Rightarrow> AttemptId" where
  "attempt_mint entropy = AttemptId (ATTEMPT_PREFIX @ to_hex (unat entropy))"

definition attempt_parse :: "string \<Rightarrow> AttemptId option" where
  "attempt_parse token = map_option AttemptId (parse_prefixed token ATTEMPT_PREFIX)"

datatype IdentityAction =
  Start AgentId AttemptId
| Resume AgentId AttemptId
| Fork AgentId AttemptId

definition next_identity :: "AgentId option \<Rightarrow> bool \<Rightarrow> 128 word \<Rightarrow> 128 word \<Rightarrow> IdentityAction" where
  "next_identity previous fork agent_entropy attempt_entropy =
     (let attempt = attempt_mint attempt_entropy in
      case previous of
        None \<Rightarrow> Start (agent_mint agent_entropy) attempt
      | Some agent \<Rightarrow>
          if fork then Fork (agent_mint agent_entropy) attempt else Resume agent attempt)"

section \<open>Addresses\<close>

definition is_presentable :: "string \<Rightarrow> bool" where
  "is_presentable token \<longleftrightarrow>
     token \<noteq> [] \<and> \<not> eq_ignore_ascii_case token ''null'' \<and> \<not> eq_ignore_ascii_case token ''none'' \<and>
     \<not> eq_ignore_ascii_case token ''undefined''"

definition address_mint :: "128 word \<Rightarrow> AgentAddress" where
  "address_mint entropy = AgentAddress (ADDRESS_PREFIX @ to_hex (unat entropy))"

definition address_parse :: "string \<Rightarrow> AgentAddress option" where
  "address_parse token =
     (let token = trim token in if \<not> is_presentable token then None else Some (AgentAddress token))"

definition mint_child_address :: "bool \<Rightarrow> 128 word \<Rightarrow> AgentAddress option" where
  "mint_child_address workflow entropy = (if workflow then None else Some (address_mint entropy))"

definition advertised_address :: "string option \<Rightarrow> bool \<Rightarrow> string option" where
  "advertised_address stored workflow =
     (if workflow then None
      else case stored of
             Some token \<Rightarrow> if address_parse token \<noteq> None then Some token else None
           | None \<Rightarrow> None)"

datatype AddressPresence = Active | Pending | Gone

record AddressCandidate =
  stored_address :: "string option"
  session_id :: string
  owner_match :: bool
  generation_current :: bool
  workflow :: bool
  presence :: AddressPresence

datatype AddressDecision =
  Owned AddressPresence | RawSessionId | Foreign | Stale | WorkflowNotAddressable | Unresolved

definition resolve_address :: "string \<Rightarrow> AddressCandidate option \<Rightarrow> AddressDecision" where
  "resolve_address presented candidate =
     (case candidate of
        None \<Rightarrow> Unresolved
      | Some c \<Rightarrow>
          let presented = trim presented;
              address_match = (stored_address c = Some presented)
          in if session_id c = presented \<and> \<not> address_match then RawSessionId
             else if \<not> address_match then Unresolved
             else if workflow c then WorkflowNotAddressable
             else if \<not> owner_match c then Foreign
             else if \<not> generation_current c \<or> presence c = Gone then Stale
             else Owned (presence c))"

section \<open>Operations and their grants\<close>

datatype Principal = Human | Agent | Runtime
datatype Operation = Queue | Steer | Interject | InterruptAndSend

record ('g, 'c, 'i) DeliveryEnvelope =
  principal :: Principal
  operation :: Operation
  env_content :: 'c
  env_identity :: 'i
  grant :: 'g

definition from_human :: "Operation \<Rightarrow> 'c \<Rightarrow> 'i \<Rightarrow> 'g \<Rightarrow> ('g, 'c, 'i) DeliveryEnvelope" where
  "from_human oper cont ident gr =
     \<lparr>principal = Human, operation = oper, env_content = cont, env_identity = ident, grant = gr\<rparr>"

definition from_agent :: "Operation \<Rightarrow> 'c \<Rightarrow> 'i \<Rightarrow> 'g \<Rightarrow> ('g, 'c, 'i) DeliveryEnvelope" where
  "from_agent oper cont ident gr =
     \<lparr>principal = Agent, operation = oper, env_content = cont, env_identity = ident, grant = gr\<rparr>"

definition into_parts :: "('g, 'c, 'i) DeliveryEnvelope \<Rightarrow> Operation \<times> 'c \<times> 'i \<times> 'g" where
  "into_parts e = (operation e, env_content e, env_identity e, grant e)"

datatype OperationSet = OperationSet (set_bits_of: "8 word")

definition QUEUE :: OperationSet where "QUEUE = OperationSet (push_bit 0 1)"
definition QUEUE_AND_STEER :: OperationSet where
  "QUEUE_AND_STEER = OperationSet (push_bit 0 1 OR push_bit 1 1)"

definition operation_flag :: "Operation \<Rightarrow> 8 word" where
  "operation_flag oper = (case oper of
     Queue \<Rightarrow> push_bit 0 1 | Steer \<Rightarrow> push_bit 1 1 | Interject \<Rightarrow> push_bit 2 1 | InterruptAndSend \<Rightarrow> push_bit 3 1)"

definition set_contains :: "OperationSet \<Rightarrow> Operation \<Rightarrow> bool" where
  "set_contains s oper \<longleftrightarrow> set_bits_of s AND operation_flag oper \<noteq> 0"

definition authorize_operation :: "OperationSet \<Rightarrow> Operation \<Rightarrow> Operation + Operation" where
  "authorize_operation allowed requested = (if set_contains allowed requested then Inr requested else Inl requested)"

section \<open>The contract of a minted token\<close>

locale minted_token =
  fixes mint :: "128 word \<Rightarrow> 't" and parse :: "string \<Rightarrow> 't option" and as_str :: "'t \<Rightarrow> string"
    and pre :: string
  assumes as_str_mint: "as_str (mint e) = pre @ to_hex (unat e)"
    and parse_minted: "parse (as_str (mint e)) = Some (mint e)"
    and parse_trims: "parse s = Some t \<Longrightarrow> as_str t = trim s"
    and parse_trimmed: "parse (trim s) = parse s"
begin

lemma mint_inj: "mint a = mint b \<longleftrightarrow> a = b"
  by (metis append_same_eq as_str_mint same_append_eq to_hex_inject word_unat_eq_iff)

lemma reparse: "parse s = Some t \<Longrightarrow> parse (as_str t) = Some t"
  by (simp add: parse_trims parse_trimmed)

lemma adopted_unchanged: "parse s = Some t \<Longrightarrow> as_str t = s \<or> trim s \<noteq> s"
  by (auto dest: parse_trims)

end

section \<open>The three kinds of token keep it\<close>

lemma parse_prefixed_Some:
  "parse_prefixed token pre = Some r \<longleftrightarrow>
     r = trim token \<and> (\<exists>rest. r = pre @ rest \<and> rest \<noteq> [] \<and> list_all is_lower_hex rest)"
  by (auto simp: parse_prefixed_def Let_def strip_prefix_Some strip_prefix_None starts_with_iff split: option.splits if_splits)

lemma parse_prefixed_trim [simp]: "parse_prefixed (trim token) pre = parse_prefixed token pre"
  by (simp add: parse_prefixed_def)

lemma trim_token [simp]:
  assumes "pre \<noteq> []" and "plain_byte (hd pre)"
  shows "trim (pre @ to_hex n) = pre @ to_hex n"
proof (rule trim_plain)
  have "last (to_hex n) \<in> set (to_hex n)" by simp
  then show "plain_byte (last (pre @ to_hex n))"
    using to_hex_lower_hex [of n] by (auto simp: list_all_iff intro: lower_hex_plain)
qed (use assms in auto)

lemma prefix_plain:
  "AGENT_PREFIX \<noteq> []" "plain_byte (hd AGENT_PREFIX)" "ATTEMPT_PREFIX \<noteq> []" "plain_byte (hd ATTEMPT_PREFIX)"
  "ADDRESS_PREFIX \<noteq> []" "plain_byte (hd ADDRESS_PREFIX)"
  by (simp_all add: token_consts plain_byte_def byte_between_def)

lemma parse_prefixed_mint:
  "plain_byte (hd pre) \<Longrightarrow> pre \<noteq> [] \<Longrightarrow> parse_prefixed (pre @ to_hex n) pre = Some (pre @ to_hex n)"
  by (simp add: parse_prefixed_Some to_hex_lower_hex)

lemma parse_other_prefix:
  "plain_byte (hd p) \<Longrightarrow> p \<noteq> [] \<Longrightarrow> length p = length q \<Longrightarrow> p \<noteq> q \<Longrightarrow> parse_prefixed (p @ to_hex n) q = None"
  by (cases "parse_prefixed (p @ to_hex n) q") (auto simp: parse_prefixed_Some)

lemma prefix_distinct:
  "ATTEMPT_PREFIX \<noteq> AGENT_PREFIX" "ADDRESS_PREFIX \<noteq> AGENT_PREFIX" "AGENT_PREFIX \<noteq> ATTEMPT_PREFIX"
  "ADDRESS_PREFIX \<noteq> ATTEMPT_PREFIX" "length ATTEMPT_PREFIX = 4" "length ADDRESS_PREFIX = 4" "length AGENT_PREFIX = 4"
  by (simp_all add: token_consts)

lemma uuid_fourth_byte:
  assumes "is_uuid_v7 (a # b # c # d # s)"
  shows "is_lower_hex d"
proof -
  have "(3, d) \<in> set (enumerate 0 (a # b # c # d # s))" by simp
  with assms show ?thesis
    unfolding is_uuid_v7_def list_all_iff by (auto simp: UUID_HYPHENS_def)
qed

lemma minted_not_uuid:
  "\<not> is_uuid_v7 (AGENT_PREFIX @ s)" "\<not> is_uuid_v7 (ATTEMPT_PREFIX @ s)" "\<not> is_uuid_v7 (ADDRESS_PREFIX @ s)"
  by (auto simp: token_consts is_lower_hex_def is_ascii_digit_def byte_between_def dest!: uuid_fourth_byte)

interpretation agent_token: minted_token agent_mint agent_parse agent_str AGENT_PREFIX
  by unfold_locales
    (auto simp: agent_mint_def agent_parse_def prefix_plain minted_not_uuid parse_prefixed_mint Let_def
      parse_prefixed_Some split: if_splits)

interpretation attempt_token: minted_token attempt_mint attempt_parse attempt_str ATTEMPT_PREFIX
  by unfold_locales
    (auto simp: attempt_mint_def attempt_parse_def prefix_plain parse_prefixed_mint parse_prefixed_Some)

lemma minted_presentable: "is_presentable (ADDRESS_PREFIX @ s)"
  by (simp add: is_presentable_def eq_ignore_ascii_case_def ADDRESS_PREFIX_def to_ascii_lowercase_def ascii_lower_def
      is_ascii_uppercase_def byte_between_def)

interpretation address_token: minted_token address_mint address_parse address_str ADDRESS_PREFIX
  by unfold_locales
    (auto simp: address_mint_def address_parse_def prefix_plain minted_presentable Let_def split: if_splits)

text \<open>
  A minted agent, attempt or address token, presented as text, is adopted as the same token, and
  two mints are equal only if their entropy is. The kinds are not confused: an attempt or an address
  is never adopted as an agent, nor an agent or an address as an attempt.
\<close>

theorem identity_tokens_roundtrip:
  "agent_parse (agent_str (agent_mint e)) = Some (agent_mint e) \<and>
   attempt_parse (attempt_str (attempt_mint e)) = Some (attempt_mint e) \<and>
   address_parse (address_str (address_mint e)) = Some (address_mint e) \<and>
   (agent_mint e = agent_mint e' \<longleftrightarrow> e = e') \<and> (attempt_mint e = attempt_mint e' \<longleftrightarrow> e = e') \<and>
   (address_mint e = address_mint e' \<longleftrightarrow> e = e') \<and>
   agent_parse (attempt_str (attempt_mint e)) = None \<and> agent_parse (address_str (address_mint e)) = None \<and>
   attempt_parse (agent_str (agent_mint e)) = None \<and> attempt_parse (address_str (address_mint e)) = None"
proof -
  show ?thesis
    by (simp add: agent_token.parse_minted attempt_token.parse_minted address_token.parse_minted
        agent_token.mint_inj attempt_token.mint_inj address_token.mint_inj)
      (simp add: agent_parse_def attempt_parse_def agent_mint_def attempt_mint_def address_mint_def
        prefix_plain minted_not_uuid parse_other_prefix prefix_distinct Let_def)
qed

text \<open>
  A presented token reaches an agent only through its stored address, and only if the agent is
  no workflow child, belongs to the presenter, is of the current generation and is not gone. A
  session id on its own is told apart, and never reaches the agent.
\<close>

theorem resolve_address_owned:
  "(resolve_address presented candidate = Owned p \<longleftrightarrow>
     (\<exists>c. candidate = Some c \<and> stored_address c = Some (trim presented) \<and> \<not> workflow c \<and> owner_match c \<and>
          generation_current c \<and> presence c = p \<and> p \<noteq> Gone)) \<and>
   (resolve_address presented candidate = RawSessionId \<longleftrightarrow>
     (\<exists>c. candidate = Some c \<and> session_id c = trim presented \<and> stored_address c \<noteq> Some (trim presented)))"
  by (auto simp: resolve_address_def Let_def split: option.splits)

text \<open>
  What is advertised for a live child of the presenter, minted or stored as a trimmed token, is
  an address that resolves to it.
\<close>

theorem advertised_address_resolves:
  assumes "advertised_address (stored_address c) (workflow c) = Some token" and "trim token = token"
    and "owner_match c" and "generation_current c" and "presence c \<noteq> Gone"
  shows "resolve_address token (Some c) = Owned (presence c)"
  using assms by (auto simp: resolve_address_def advertised_address_def split: option.splits if_splits)

text \<open>
  An operation is authorised exactly if the grant's bit for it is set, and is passed on as it
  is; the queue grant allows queueing alone, and the other one queueing and steering but neither
  interjecting nor interrupting.
\<close>

theorem authorize_operation_exact:
  "(authorize_operation allowed oper = Inr oper' \<longleftrightarrow>
      oper' = oper \<and> bit (set_bits_of allowed) (case oper of Queue \<Rightarrow> 0 | Steer \<Rightarrow> 1 | Interject \<Rightarrow> 2 | InterruptAndSend \<Rightarrow> 3)) \<and>
   (authorize_operation QUEUE oper = Inr oper \<longleftrightarrow> oper = Queue) \<and>
   (authorize_operation QUEUE_AND_STEER oper = Inr oper \<longleftrightarrow> oper \<in> {Queue, Steer})"
proof -
  have flag: "operation_flag oper = push_bit (case oper of Queue \<Rightarrow> 0 | Steer \<Rightarrow> 1 | Interject \<Rightarrow> 2 | InterruptAndSend \<Rightarrow> 3) 1"
    by (cases oper) (simp_all add: operation_flag_def)
  have "w AND push_bit n 1 \<noteq> 0 \<longleftrightarrow> bit w n" for w :: "8 word" and n
    by (simp add: bit_iff_and_push_bit_not_eq_0)
  then have "set_contains allowed oper \<longleftrightarrow>
      bit (set_bits_of allowed) (case oper of Queue \<Rightarrow> 0 | Steer \<Rightarrow> 1 | Interject \<Rightarrow> 2 | InterruptAndSend \<Rightarrow> 3)" for allowed
    unfolding set_contains_def flag by simp
  then show ?thesis
    by (cases oper) (auto simp: authorize_operation_def QUEUE_def QUEUE_AND_STEER_def bit_simps)
qed

definition sample_candidate :: AddressCandidate where
  "sample_candidate = \<lparr>stored_address = Some ''aa1.2f'', session_id = ''s-1'', owner_match = True,
     generation_current = True, workflow = False, presence = Active\<rparr>"

theorem advertised_address_resolves_witness:
  "resolve_address ''aa1.2f'' (Some sample_candidate) = Owned Active"
proof -
  have "trim ''aa1.2f'' = ''aa1.2f''"
    by (rule trim_plain) (simp_all add: plain_byte_def byte_between_def)
  moreover have "address_parse ''aa1.2f'' \<noteq> None"
    using minted_presentable [of "''2f''"] calculation by (simp add: address_parse_def ADDRESS_PREFIX_def)
  ultimately show ?thesis
    using advertised_address_resolves [of sample_candidate "''aa1.2f''"]
    by (simp add: sample_candidate_def advertised_address_def)
qed

end
