(* ===== verification/File_Content.thy ===== *)
theory File_Content
  imports Patch_Parser
begin

text \<open>
  What the hunk tracker keeps of a file and how it reads one
  (\<open>crates/codegen/xai-hunk-tracker/src/actor/state.rs\<close>, \<open>actor/file_utils.rs\<close> and the views of \<open>types.rs\<close>). A path
  is its list of components: \<open>PathBuf\<close> compares, hashes, joins and strips prefixes by components. The file
  system is a parameter over a world \<open>'w\<close>; a file is read in two steps, a first read of at most 8000 bytes
  and the rest.
\<close>

section \<open>Paths by components\<close>

type_synonym PathBuf = "Component list"

definition components_join :: "PathBuf \<Rightarrow> PathBuf \<Rightarrow> PathBuf" where
  "components_join base rel =
     (case rel of
        RootDir # _ \<Rightarrow> rel
      | CurDir # rest \<Rightarrow> if base = [] then rel else base @ rest
      | _ \<Rightarrow> base @ rel)"

definition relative_or_self :: "PathBuf \<Rightarrow> PathBuf \<Rightarrow> PathBuf" where
  "relative_or_self path base = (case strip_prefix base path of Some rel \<Rightarrow> rel | None \<Rightarrow> path)"

definition rewrite_single_path :: "PathBuf \<Rightarrow> PathBuf \<Rightarrow> PathBuf \<Rightarrow> PathBuf \<Rightarrow> PathBuf option" where
  "rewrite_single_path path old_cwd canonical_old new_cwd =
     map_option (components_join new_cwd)
       (case strip_prefix canonical_old path of Some rel \<Rightarrow> Some rel | None \<Rightarrow> strip_prefix old_cwd path)"

section \<open>Content states\<close>

definition MAX_TRACKED_TEXT_BYTES :: nat where "MAX_TRACKED_TEXT_BYTES = 1024 * 1024"

datatype FileContentState =
    Missing
  | Binary "nat option"
  | TooLarge nat
  | LfsPointer nat
  | Symlink
  | Full string

fun content_str :: "FileContentState \<Rightarrow> string option" where
  "content_str (Full s) = Some s"
| "content_str _ = None"

fun is_diffable :: "FileContentState \<Rightarrow> bool" where
  "is_diffable (Full _) = True"
| "is_diffable _ = False"

fun content_byte_len :: "FileContentState \<Rightarrow> nat option" where
  "content_byte_len Missing = Some 0"
| "content_byte_len (Binary n) = n"
| "content_byte_len (TooLarge n) = Some n"
| "content_byte_len (LfsPointer n) = Some n"
| "content_byte_len Symlink = None"
| "content_byte_len (Full s) = Some (length s)"

definition missing_content :: FileContentState where "missing_content = Missing"

section \<open>Classification\<close>

definition LFS_POINTER_PREFIX :: string where
  "LFS_POINTER_PREFIX = ''version https://git-lfs.github.com/spec/v1'' @ [nl]"

definition is_lfs_pointer :: "string \<Rightarrow> bool" where
  "is_lfs_pointer bytes \<longleftrightarrow> length bytes < 1024 \<and> starts_with bytes LFS_POINTER_PREFIX"

definition is_binary :: "string \<Rightarrow> bool" where
  "is_binary content \<longleftrightarrow> CHR 0x00 \<in> set (take (min (length content) 8000) content)"

text \<open>\<open>String::from_utf8\<close> accepts exactly the well-formed sequences of the Unicode standard (table 3-7).\<close>

abbreviation utf8_continuation :: "char \<Rightarrow> bool" where
  "utf8_continuation \<equiv> byte_between 0x80 0xBF"

fun valid_utf8 :: "string \<Rightarrow> bool" where
  "valid_utf8 [] = True"
| "valid_utf8 (a # s) =
     (if byte_between 0 0x7F a then valid_utf8 s
      else case s of
        [] \<Rightarrow> False
      | b # t \<Rightarrow>
          if byte_between 0xC2 0xDF a then utf8_continuation b \<and> valid_utf8 t
          else case t of
            [] \<Rightarrow> False
          | c # u \<Rightarrow>
              if byte_between 0xE0 0xEF a
              then (if byte_between 0xE0 0xE0 a then byte_between 0xA0 0xBF b
                    else if byte_between 0xED 0xED a then byte_between 0x80 0x9F b
                    else utf8_continuation b)
                 \<and> utf8_continuation c \<and> valid_utf8 u
              else case u of
                [] \<Rightarrow> False
              | d # v \<Rightarrow>
                  byte_between 0xF0 0xF4 a
                \<and> (if byte_between 0xF0 0xF0 a then byte_between 0x90 0xBF b
                   else if byte_between 0xF4 0xF4 a then byte_between 0x80 0x8F b
                   else utf8_continuation b)
                \<and> utf8_continuation c \<and> utf8_continuation d \<and> valid_utf8 v)"

definition classify_bytes :: "string \<Rightarrow> FileContentState" where
  "classify_bytes bytes =
     (let byte_len = length bytes in
      if byte_len > MAX_TRACKED_TEXT_BYTES then TooLarge byte_len
      else if is_lfs_pointer bytes then LfsPointer byte_len
      else if is_binary bytes then Binary (Some byte_len)
      else if valid_utf8 bytes then Full bytes
      else Binary (Some byte_len))"

definition classify_string :: "string \<Rightarrow> FileContentState" where
  "classify_string s =
     (let byte_len = length s in
      if byte_len > MAX_TRACKED_TEXT_BYTES then TooLarge byte_len
      else if is_lfs_pointer s then LfsPointer byte_len
      else if is_binary s then Binary (Some byte_len)
      else Full s)"

section \<open>Bounded reads\<close>

text \<open>
  The file system: \<open>symlink_metadata\<close> says whether the path is a link and how long the file is; \<open>file_open\<close>
  gives the bytes behind a handle, \<open>file_read\<close> how many of them the first read delivers into a buffer of
  the given size, and \<open>file_read_to_end\<close> whether the rest can be read. The writes answer with the world they
  leave behind and, where they fail, an error.
\<close>

record 'w TrackerFs =
  symlink_metadata :: "'w \<Rightarrow> PathBuf \<Rightarrow> (bool \<times> nat) option"
  file_open :: "'w \<Rightarrow> PathBuf \<Rightarrow> string option"
  file_read :: "'w \<Rightarrow> PathBuf \<Rightarrow> nat \<Rightarrow> nat option"
  file_read_to_end :: "'w \<Rightarrow> PathBuf \<Rightarrow> bool"
  path_exists :: "'w \<Rightarrow> PathBuf \<Rightarrow> bool"
  path_is_dir :: "'w \<Rightarrow> PathBuf \<Rightarrow> bool"
  canonicalize :: "'w \<Rightarrow> PathBuf \<Rightarrow> PathBuf option"
  fs_write :: "'w \<Rightarrow> PathBuf \<Rightarrow> string \<Rightarrow> 'w \<times> string option"
  fs_remove_file :: "'w \<Rightarrow> PathBuf \<Rightarrow> 'w \<times> string option"

definition read_file_bounded :: "'w TrackerFs \<Rightarrow> 'w \<Rightarrow> PathBuf \<Rightarrow> FileContentState" where
  "read_file_bounded fs w path =
     (case symlink_metadata fs w path of
        None \<Rightarrow> missing_content
      | Some (is_symlink, byte_len) \<Rightarrow>
          if is_symlink then Symlink
          else if byte_len > MAX_TRACKED_TEXT_BYTES then TooLarge byte_len
          else case file_open fs w path of
            None \<Rightarrow> missing_content
          | Some bytes \<Rightarrow>
              (let prefix_size = min 8000 byte_len in
               case file_read fs w path prefix_size of
                 None \<Rightarrow> missing_content
               | Some n \<Rightarrow>
                   (let prefix_buf = take (min n prefix_size) bytes in
                    if is_lfs_pointer prefix_buf then LfsPointer byte_len
                    else if is_binary prefix_buf then Binary (Some byte_len)
                    else if byte_len > prefix_size \<and> \<not> file_read_to_end fs w path then missing_content
                    else let full_buf = (if byte_len > prefix_size then bytes else prefix_buf) in
                         if valid_utf8 full_buf then Full full_buf else Binary (Some byte_len))))"

section \<open>Views\<close>

datatype FileContentStatus =
  MissingStatus | BinaryStatus | TooLargeStatus | LfsPointerStatus | SymlinkStatus | FullStatus

record FileContentView =
  view_status :: FileContentStatus
  view_byte_len :: "nat option"
  view_content :: "string option"

fun from_content_state :: "FileContentState \<Rightarrow> FileContentView" where
  "from_content_state Missing = \<lparr>view_status = MissingStatus, view_byte_len = None, view_content = None\<rparr>"
| "from_content_state (Binary byte_len) = \<lparr>view_status = BinaryStatus, view_byte_len = byte_len, view_content = None\<rparr>"
| "from_content_state (TooLarge byte_len) =
     \<lparr>view_status = TooLargeStatus, view_byte_len = Some byte_len, view_content = None\<rparr>"
| "from_content_state (LfsPointer byte_len) =
     \<lparr>view_status = LfsPointerStatus, view_byte_len = Some byte_len, view_content = None\<rparr>"
| "from_content_state Symlink = \<lparr>view_status = SymlinkStatus, view_byte_len = None, view_content = None\<rparr>"
| "from_content_state (Full content) =
     \<lparr>view_status = FullStatus, view_byte_len = Some (length content), view_content = Some content\<rparr>"

section \<open>A bounded read classifies the whole file\<close>

text \<open>A regular file whose length is what the metadata say, read without errors or short reads.\<close>

definition reads_whole :: "'w TrackerFs \<Rightarrow> 'w \<Rightarrow> PathBuf \<Rightarrow> string \<Rightarrow> bool" where
  "reads_whole fs w path bytes \<longleftrightarrow>
     symlink_metadata fs w path = Some (False, length bytes)
   \<and> file_open fs w path = Some bytes
   \<and> file_read fs w path (min 8000 (length bytes)) = Some (min 8000 (length bytes))
   \<and> file_read_to_end fs w path"

lemma is_lfs_pointer_prefix: "is_lfs_pointer (take 8000 bytes) \<longleftrightarrow> is_lfs_pointer bytes"
  by (cases "length bytes \<le> 8000") (simp_all add: is_lfs_pointer_def)

lemma is_binary_prefix: "is_binary (take 8000 bytes) \<longleftrightarrow> is_binary bytes"
  by (simp add: is_binary_def min_def)

text \<open>
  Reading a file in two bounded steps classifies it as reading all of it would: for a regular file
  read without errors, \<open>read_file_bounded\<close> returns what \<open>classify_bytes\<close> makes of the complete content, and
  for text that is \<open>classify_string\<close> as well, so the three entry points agree on every file.
\<close>
theorem read_file_bounded_classifies:
  assumes "reads_whole fs w path bytes"
  shows "read_file_bounded fs w path = classify_bytes bytes
       \<and> (valid_utf8 bytes \<longrightarrow> read_file_bounded fs w path = classify_string bytes)"
proof -
  have "read_file_bounded fs w path = classify_bytes bytes"
    using assms is_lfs_pointer_prefix [of bytes] is_binary_prefix [of bytes]
    by (cases "length bytes \<le> 8000")
      (simp_all add: read_file_bounded_def reads_whole_def classify_bytes_def Let_def)
  then show ?thesis by (simp add: classify_bytes_def classify_string_def Let_def)
qed

definition sample_fs :: "(PathBuf \<rightharpoonup> string) TrackerFs" where
  "sample_fs =
     \<lparr>symlink_metadata = \<lambda>w p. map_option (\<lambda>s. (False, length s)) (w p),
      file_open = \<lambda>w p. w p,
      file_read = \<lambda>w p n. map_option (\<lambda>s. min n (length s)) (w p),
      file_read_to_end = \<lambda>w p. w p \<noteq> None,
      path_exists = \<lambda>w p. w p \<noteq> None,
      path_is_dir = \<lambda>w p. False,
      canonicalize = \<lambda>w p. Some p,
      fs_write = \<lambda>w p s. (w(p \<mapsto> s), None),
      fs_remove_file = \<lambda>w p. (if w p = None then (w, Some ''not found'') else (w(p := None), None))\<rparr>"

theorem read_file_bounded_classifies_witness:
  "reads_whole sample_fs [[RootDir, Normal ''f''] \<mapsto> ''hello''] [RootDir, Normal ''f''] ''hello''
 \<and> read_file_bounded sample_fs [[RootDir, Normal ''f''] \<mapsto> ''hello''] [RootDir, Normal ''f''] = Full ''hello''"
proof -
  have whole: "reads_whole sample_fs [[RootDir, Normal ''f''] \<mapsto> ''hello''] [RootDir, Normal ''f''] ''hello''"
    by (simp add: reads_whole_def sample_fs_def)
  have "classify_bytes ''hello'' = Full ''hello''"
    by (simp add: classify_bytes_def Let_def MAX_TRACKED_TEXT_BYTES_def is_lfs_pointer_def is_binary_def
        LFS_POINTER_PREFIX_def starts_with_def byte_between_def)
  then show ?thesis using whole read_file_bounded_classifies [OF whole] by simp
qed

end
