(* ===== verification/Hunk_Diff.thy ===== *)
theory Hunk_Diff
  imports File_Content
begin

text \<open>
  Hunks and the differences they come from (\<open>crates/codegen/xai-hunk-tracker/src/types.rs\<close> and \<open>diff.rs\<close>). The line
  differ of the \<open>similar\<close> crate, its running time, the fresh identifiers and the clock are parameters; what is
  drawn from them is numbered. Line numbers count from one. Texts are bytes.
\<close>

section \<open>Hunks\<close>

type_synonym HunkId = string

record HunkLineInfo =
  old_start :: nat
  old_count :: nat
  new_start :: nat
  new_count :: nat

datatype HunkSource = AgentEdit nat | ExternalEditOnAgentFile | External

fun is_agent_edit :: "HunkSource \<Rightarrow> bool" where
  "is_agent_edit (AgentEdit _) = True"
| "is_agent_edit _ = False"

fun is_agent_tracked :: "HunkSource \<Rightarrow> bool" where
  "is_agent_tracked (AgentEdit _) = True"
| "is_agent_tracked ExternalEditOnAgentFile = True"
| "is_agent_tracked External = False"

fun is_external :: "HunkSource \<Rightarrow> bool" where
  "is_external (AgentEdit _) = False"
| "is_external _ = True"

fun prompt_index :: "HunkSource \<Rightarrow> nat option" where
  "prompt_index (AgentEdit i) = Some i"
| "prompt_index _ = None"

record TrackedHunk =
  hunk_id :: HunkId
  hunk_path :: PathBuf
  line_info :: HunkLineInfo
  hunk_source :: HunkSource
  old_text :: "string option"
  new_text :: string
  hunk_patch :: "string option"
  created_at :: int
  selected :: bool

text \<open>
  The parameters: the changes of \<open>TextDiff::diff_lines\<close> in order, whether the \<open>n\<close>-th diff runs into its time
  limit, and the \<open>n\<close>-th fresh identifier and time stamp.
\<close>

datatype ChangeTag = Equal | Delete | Insert

type_synonym changes = "(ChangeTag \<times> string) list"

record DiffEnv =
  diff_lines :: "string \<Rightarrow> string \<Rightarrow> changes"
  diff_timed_out :: "nat \<Rightarrow> bool"
  new_hunk_id :: "nat \<Rightarrow> HunkId"
  utc_now :: "nat \<Rightarrow> int"

definition line_count :: "string \<Rightarrow> nat" where
  "line_count s = max (length (str_lines s)) 1"

definition file_created :: "DiffEnv \<Rightarrow> nat \<Rightarrow> PathBuf \<Rightarrow> string \<Rightarrow> HunkSource \<Rightarrow> TrackedHunk" where
  "file_created env n path content source =
     \<lparr>hunk_id = new_hunk_id env n, hunk_path = path,
      line_info = \<lparr>old_start = 0, old_count = 0, new_start = 1, new_count = line_count content\<rparr>,
      hunk_source = source, old_text = None, new_text = content, hunk_patch = None,
      created_at = utc_now env n, selected = False\<rparr>"

definition file_deleted :: "DiffEnv \<Rightarrow> nat \<Rightarrow> PathBuf \<Rightarrow> string \<Rightarrow> HunkSource \<Rightarrow> TrackedHunk" where
  "file_deleted env n path content source =
     \<lparr>hunk_id = new_hunk_id env n, hunk_path = path,
      line_info = \<lparr>old_start = 1, old_count = line_count content, new_start = 0, new_count = 0\<rparr>,
      hunk_source = source, old_text = Some content, new_text = [], hunk_patch = None,
      created_at = utc_now env n, selected = False\<rparr>"

definition hunk_summary :: "TrackedHunk \<Rightarrow> string" where
  "hunk_summary h =
     ''+'' @ to_decimal (length (str_lines (new_text h))) @ ''/-'' @
     to_decimal (case old_text h of Some t \<Rightarrow> length (str_lines t) | None \<Rightarrow> 0)"

definition display_path :: "TrackedHunk \<Rightarrow> string" where
  "display_path h = collect_path (hunk_path h) @ '':'' @ to_decimal (new_start (line_info h))"

section \<open>Collecting hunks from the changes\<close>

definition MAX_DIFF_FILE_SIZE :: nat where "MAX_DIFF_FILE_SIZE = 1024 * 1024"

record HunkBuilder =
  hb_old_start :: nat
  hb_new_start :: nat
  hb_old_lines :: "string list"
  hb_new_lines :: "string list"

definition builder_new :: "nat \<Rightarrow> nat \<Rightarrow> HunkBuilder" where
  "builder_new old_line new_line =
     \<lparr>hb_old_start = old_line, hb_new_start = new_line, hb_old_lines = [], hb_new_lines = []\<rparr>"

definition add_old_line :: "string \<Rightarrow> HunkBuilder \<Rightarrow> HunkBuilder" where
  "add_old_line line b = b\<lparr>hb_old_lines := hb_old_lines b @ [line]\<rparr>"

definition add_new_line :: "string \<Rightarrow> HunkBuilder \<Rightarrow> HunkBuilder" where
  "add_new_line line b = b\<lparr>hb_new_lines := hb_new_lines b @ [line]\<rparr>"

definition build_hunk :: "DiffEnv \<Rightarrow> nat \<Rightarrow> PathBuf \<Rightarrow> HunkSource \<Rightarrow> HunkBuilder \<Rightarrow> TrackedHunk" where
  "build_hunk env n path source b =
     \<lparr>hunk_id = new_hunk_id env n, hunk_path = path,
      line_info = \<lparr>old_start = hb_old_start b, old_count = length (hb_old_lines b),
                   new_start = hb_new_start b, new_count = length (hb_new_lines b)\<rparr>,
      hunk_source = source,
      old_text = (if hb_old_lines b = [] then None else Some (concat (hb_old_lines b))),
      new_text = concat (hb_new_lines b), hunk_patch = None,
      created_at = utc_now env n, selected = False\<rparr>"

text \<open>The loop over the changes: the hunks in the order in which they are finished.\<close>

definition in_progress :: "HunkBuilder option \<Rightarrow> nat \<Rightarrow> nat \<Rightarrow> HunkBuilder" where
  "in_progress cur old_line new_line = (case cur of Some b \<Rightarrow> b | None \<Rightarrow> builder_new old_line new_line)"

fun collect_hunks :: "changes \<Rightarrow> nat \<Rightarrow> nat \<Rightarrow> HunkBuilder option \<Rightarrow> HunkBuilder list" where
  "collect_hunks [] old_line new_line cur = (case cur of Some b \<Rightarrow> [b] | None \<Rightarrow> [])"
| "collect_hunks ((Equal, line) # changes) old_line new_line cur =
     (case cur of Some b \<Rightarrow> [b] | None \<Rightarrow> []) @ collect_hunks changes (old_line + 1) (new_line + 1) None"
| "collect_hunks ((Delete, line) # changes) old_line new_line cur =
     collect_hunks changes (old_line + 1) new_line (Some (add_old_line line (in_progress cur old_line new_line)))"
| "collect_hunks ((Insert, line) # changes) old_line new_line cur =
     collect_hunks changes old_line (new_line + 1) (Some (add_new_line line (in_progress cur old_line new_line)))"

fun build_all :: "DiffEnv \<Rightarrow> nat \<Rightarrow> PathBuf \<Rightarrow> HunkSource \<Rightarrow> HunkBuilder list \<Rightarrow> TrackedHunk list" where
  "build_all env n path source [] = []"
| "build_all env n path source (b # bs) = build_hunk env n path source b # build_all env (n + 1) path source bs"

definition compute_hunks :: "DiffEnv \<Rightarrow> nat \<Rightarrow> PathBuf \<Rightarrow> string \<Rightarrow> string \<Rightarrow> HunkSource \<Rightarrow> TrackedHunk list" where
  "compute_hunks env n path baseline current source =
     (if baseline = current then []
      else if length baseline > MAX_DIFF_FILE_SIZE \<or> length current > MAX_DIFF_FILE_SIZE then []
      else if diff_timed_out env n then []
      else build_all env n path source (collect_hunks (diff_lines env baseline current) 1 1 None))"

section \<open>Patching lines\<close>

definition patch_lines :: "string \<Rightarrow> nat \<Rightarrow> nat \<Rightarrow> string \<Rightarrow> string" where
  "patch_lines content start_line remove_count insert_text =
     (let lines = str_lines content;
          start_idx = start_line - 1;
          end_idx = min (start_idx + remove_count) (length lines);
          result = take (min start_idx (length lines)) lines
            @ (if insert_text \<noteq> [] then str_lines insert_text else [])
            @ drop end_idx lines;
          output = join [nl] result in
      if ends_with content [nl] \<and> output \<noteq> [] then output @ [nl] else output)"

section \<open>Rendering\<close>

definition line_info_display :: "HunkLineInfo \<Rightarrow> string" where
  "line_info_display i =
     ''@@ -'' @ to_decimal (old_start i) @ '','' @ to_decimal (old_count i) @
     '' +'' @ to_decimal (new_start i) @ '','' @ to_decimal (new_count i) @ '' @@''"

definition marked_lines :: "string \<Rightarrow> string list \<Rightarrow> string" where
  "marked_lines mark ls = concat (map (\<lambda>l. mark @ l @ [nl]) ls)"

definition format_unified_diff :: "TrackedHunk \<Rightarrow> string" where
  "format_unified_diff h =
     ''--- a/'' @ collect_path (hunk_path h) @ [nl] @ ''+++ b/'' @ collect_path (hunk_path h) @ [nl] @
     line_info_display (line_info h) @ [nl] @
     (case old_text h of Some t \<Rightarrow> marked_lines ''-'' (str_lines t) | None \<Rightarrow> []) @
     marked_lines ''+'' (str_lines (new_text h))"

definition CONTEXT_LINES :: nat where "CONTEXT_LINES = 3"

text \<open>
  The fragment of one hunk. The subtractions of \<open>usize\<close> wrap where a range is empty the wrong way round, as in
  a build without overflow checks.
\<close>

definition wrapping_sub :: "nat \<Rightarrow> nat \<Rightarrow> nat" where
  "wrapping_sub a b = nat ((int a - int b) mod 2 ^ 64)"

definition generate_hunk_patch :: "string \<Rightarrow> string \<Rightarrow> TrackedHunk \<Rightarrow> string" where
  "generate_hunk_patch baseline current h =
     (let old_ls = str_lines baseline; new_ls = str_lines current;
          old_start_idx = old_start (line_info h) - 1;
          new_start_idx = new_start (line_info h) - 1;
          context_before_start = old_start_idx - CONTEXT_LINES;
          changes_end_new = new_start_idx + new_count (line_info h);
          context_after_end = min (changes_end_new + CONTEXT_LINES) (length new_ls);
          changes_end_old = old_start_idx + old_count (line_info h);
          context_after_end_old = min (changes_end_old + CONTEXT_LINES) (length old_ls);
          total_old_lines = ((old_start_idx - context_before_start) + old_count (line_info h)
            + wrapping_sub context_after_end_old changes_end_old) mod 2 ^ 64;
          total_new_lines = ((old_start_idx - context_before_start) + new_count (line_info h)
            + wrapping_sub context_after_end changes_end_new) mod 2 ^ 64;
          header_start = context_before_start + 1 in
      ''@@ -'' @ to_decimal header_start @ '','' @ to_decimal total_old_lines @
      '' +'' @ to_decimal header_start @ '','' @ to_decimal total_new_lines @ '' @@'' @ [nl] @
      marked_lines '' '' (take (old_start_idx - context_before_start) (drop context_before_start old_ls)) @
      (case old_text h of Some t \<Rightarrow> marked_lines ''-'' (str_lines t) | None \<Rightarrow> []) @
      marked_lines ''+'' (str_lines (new_text h)) @
      marked_lines '' '' (take (context_after_end - changes_end_new) (drop changes_end_new new_ls)))"

section \<open>Matching hunks across a recomputation\<close>

definition hunks_match_content :: "TrackedHunk \<Rightarrow> TrackedHunk \<Rightarrow> bool" where
  "hunks_match_content a b \<longleftrightarrow>
     hunk_path a = hunk_path b \<and> old_text a = old_text b \<and> new_text a = new_text b"

definition hunk_moved :: "TrackedHunk \<Rightarrow> TrackedHunk \<Rightarrow> bool" where
  "hunk_moved a b \<longleftrightarrow> hunks_match_content a b \<and> line_info a \<noteq> line_info b"

definition sat_end :: "HunkLineInfo \<Rightarrow> nat" where
  "sat_end i = min (old_start i + old_count i) usize_max"

definition hunks_overlap :: "TrackedHunk \<Rightarrow> TrackedHunk \<Rightarrow> bool" where
  "hunks_overlap a b \<longleftrightarrow>
     hunk_path a = hunk_path b \<and>
     (let ai = line_info a; bi = line_info b in
      if old_count ai = 0 \<and> old_count bi = 0 then old_start ai = old_start bi
      else if old_count ai = 0 then old_start bi \<le> old_start ai \<and> old_start ai \<le> sat_end bi
      else if old_count bi = 0 then old_start ai \<le> old_start bi \<and> old_start bi \<le> sat_end ai
      else \<not> (sat_end ai < old_start bi \<or> sat_end bi < old_start ai))"

definition abs_diff :: "nat \<Rightarrow> nat \<Rightarrow> nat" where
  "abs_diff a b = (if a < b then b - a else a - b)"

text \<open>\<open>Iterator::min_by_key\<close> returns the first least element, \<open>max_by_key\<close> the last greatest one.\<close>

fun min_by_key :: "('a \<Rightarrow> nat) \<Rightarrow> 'a list \<Rightarrow> 'a option" where
  "min_by_key f [] = None"
| "min_by_key f (x # xs) =
     (case min_by_key f xs of None \<Rightarrow> Some x | Some y \<Rightarrow> Some (if f y < f x then y else x))"

fun max_by_key :: "('a \<Rightarrow> nat) \<Rightarrow> 'a list \<Rightarrow> 'a option" where
  "max_by_key f [] = None"
| "max_by_key f (x # xs) =
     (case max_by_key f xs of None \<Rightarrow> Some x | Some y \<Rightarrow> Some (if f x \<le> f y then y else x))"

definition calculate_overlap_size :: "HunkLineInfo \<Rightarrow> HunkLineInfo \<Rightarrow> nat" where
  "calculate_overlap_size a b =
     min (old_start a + old_count a) (old_start b + old_count b) - max (old_start a) (old_start b)"

definition find_matching_old_hunk :: "TrackedHunk \<Rightarrow> TrackedHunk list \<Rightarrow> TrackedHunk option" where
  "find_matching_old_hunk new_hunk old_hunks =
     (let content_matches = filter (\<lambda>h. hunks_match_content h new_hunk) old_hunks in
      if content_matches \<noteq> []
      then min_by_key (\<lambda>h. abs_diff (new_start (line_info h)) (new_start (line_info new_hunk))) content_matches
      else max_by_key (\<lambda>h. calculate_overlap_size (line_info h) (line_info new_hunk))
             (filter (\<lambda>h. hunks_overlap h new_hunk) old_hunks))"

definition find_overlapping_hunks :: "TrackedHunk \<Rightarrow> TrackedHunk list \<Rightarrow> TrackedHunk list" where
  "find_overlapping_hunks new_hunk old_hunks = filter (\<lambda>h. hunks_overlap h new_hunk) old_hunks"

end
