(* ===== verification/Hunk_Tracker.thy ===== *)
theory Hunk_Tracker
  imports Hunk_Diff Usage_Ledger "HOL-Library.AList"
begin

text \<open>
  The state of the hunk tracker and the operations on it (\<open>crates/codegen/xai-hunk-tracker/src/actor/\<close>): recomputing
  the hunks of a file, accepting and rejecting them, recording the writes of the agent and the changes seen on
  disk, and following git. A hash map is an association list; where the code iterates over one, the order is
  a parameter. Git (the \<open>gix\<close> crate) is a parameter over the same world as the file system, and so is the
  outcome of the blocking task that asks it.
\<close>

section \<open>State\<close>

datatype TrackingMode = AgentOnly | AllDirty

record FileHunkState =
  baseline :: FileContentState
  current_content :: FileContentState
  hunks :: "TrackedHunk list"
  is_agent_file :: bool
  baseline_accepted :: bool

record SessionStats =
  accepted_hunks :: nat
  rejected_hunks :: nat
  accepted_lines_added :: nat
  accepted_lines_removed :: nat
  rejected_lines_added :: nat
  rejected_lines_removed :: nat

definition no_stats :: SessionStats where
  "no_stats = \<lparr>accepted_hunks = 0, rejected_hunks = 0, accepted_lines_added = 0, accepted_lines_removed = 0,
     rejected_lines_added = 0, rejected_lines_removed = 0\<rparr>"

text \<open>A repository that was found is known by its root and the way from there to the working directory.\<close>

datatype GitRepoState = Unknown | NotARepo | Discovered PathBuf PathBuf

record RepoSyncState =
  head_oid :: "string option"
  index_mtime :: "nat option"

datatype HunkRemovalReason = Accepted | Rejected | Superseded

datatype HunkEvent =
    HunkAdded PathBuf TrackedHunk
  | HunkRemoved PathBuf HunkId HunkRemovalReason
  | HunkMoved PathBuf HunkId HunkLineInfo
  | HunkContentChanged PathBuf TrackedHunk HunkSource nat nat
  | FileAdded PathBuf bool
  | FileRemoved PathBuf
  | BaselineUpdated PathBuf

record 'w HunkTrackerActor =
  working_dir :: PathBuf
  file_states :: "(PathBuf \<times> FileHunkState) list"
  turn_index :: "(nat \<times> HunkId list) list"
  git_dirty_cache :: "PathBuf list"
  git_staged_cache :: "PathBuf list"
  git_repo_state :: GitRepoState
  repo_sync_state :: RepoSyncState
  tracking_mode :: TrackingMode
  session_stats :: SessionStats
  sent_events :: "HunkEvent list"
  world :: 'w
  draws :: nat

datatype GitEntry = GitLink | GitBlob string

record 'w TrackerGit =
  git_discover :: "'w \<Rightarrow> PathBuf \<Rightarrow> PathBuf option"
  git_head_entry :: "'w \<Rightarrow> PathBuf \<Rightarrow> PathBuf \<Rightarrow> GitEntry option"
  git_index_len :: "'w \<Rightarrow> PathBuf \<Rightarrow> nat option"
  git_status :: "'w \<Rightarrow> PathBuf \<Rightarrow> PathBuf list \<Rightarrow> (PathBuf \<times> bool) list option"
  git_sync :: "'w \<Rightarrow> PathBuf \<Rightarrow> RepoSyncState"
  blocking_ok :: "'w \<Rightarrow> bool"

record 'w TrackerEnv =
  env_diff :: DiffEnv
  env_fs :: "'w TrackerFs"
  env_git :: "'w TrackerGit"
  path_order :: "PathBuf list \<Rightarrow> PathBuf list"
  id_order :: "HunkId list \<Rightarrow> HunkId list"

definition tracker_new :: "PathBuf \<Rightarrow> TrackingMode \<Rightarrow> 'w \<Rightarrow> 'w HunkTrackerActor" where
  "tracker_new dir mode w =
     \<lparr>working_dir = dir, file_states = [], turn_index = [], git_dirty_cache = [], git_staged_cache = [],
      git_repo_state = Unknown, repo_sync_state = \<lparr>head_oid = None, index_mtime = None\<rparr>,
      tracking_mode = mode, session_stats = no_stats, sent_events = [], world = w, draws = 0\<rparr>"

definition send :: "HunkEvent \<Rightarrow> 'w HunkTrackerActor \<Rightarrow> 'w HunkTrackerActor" where
  "send e a = a\<lparr>sent_events := sent_events a @ [e]\<rparr>"

definition send_all :: "HunkEvent list \<Rightarrow> 'w HunkTrackerActor \<Rightarrow> 'w HunkTrackerActor" where
  "send_all es a = a\<lparr>sent_events := sent_events a @ es\<rparr>"

abbreviation file_of :: "'w HunkTrackerActor \<Rightarrow> PathBuf \<Rightarrow> FileHunkState option" where
  "file_of a path \<equiv> map_of (file_states a) path"

definition set_file :: "PathBuf \<Rightarrow> FileHunkState \<Rightarrow> 'w HunkTrackerActor \<Rightarrow> 'w HunkTrackerActor" where
  "set_file path st a = a\<lparr>file_states := AList.update path st (file_states a)\<rparr>"

text \<open>The entries of a map in the order of its iteration.\<close>

definition entries :: "(PathBuf list \<Rightarrow> PathBuf list) \<Rightarrow> (PathBuf \<times> 'a) list \<Rightarrow> (PathBuf \<times> 'a) list" where
  "entries order m = map (\<lambda>p. (p, the (map_of m p))) (order (map fst m))"

definition tracked_file :: "FileContentState \<Rightarrow> FileContentState \<Rightarrow> bool \<Rightarrow> FileHunkState" where
  "tracked_file base current agent =
     \<lparr>baseline = base, current_content = current, hunks = [], is_agent_file = agent, baseline_accepted = False\<rparr>"

section \<open>The index of turns\<close>

definition index_remove :: "nat \<Rightarrow> HunkId \<Rightarrow> (nat \<times> HunkId list) list \<Rightarrow> (nat \<times> HunkId list) list" where
  "index_remove i hid ti = map (\<lambda>(k, ids). (k, if k = i then removeAll hid ids else ids)) ti"

definition index_insert :: "nat \<Rightarrow> HunkId \<Rightarrow> (nat \<times> HunkId list) list \<Rightarrow> (nat \<times> HunkId list) list" where
  "index_insert i hid ti =
     AList.update i (List.insert hid (case map_of ti i of Some ids \<Rightarrow> ids | None \<Rightarrow> [])) ti"

definition unindex :: "TrackedHunk \<Rightarrow> (nat \<times> HunkId list) list \<Rightarrow> (nat \<times> HunkId list) list" where
  "unindex h ti = (case prompt_index (hunk_source h) of Some i \<Rightarrow> index_remove i (hunk_id h) ti | None \<Rightarrow> ti)"

definition reindex :: "TrackedHunk \<Rightarrow> (nat \<times> HunkId list) list \<Rightarrow> (nat \<times> HunkId list) list" where
  "reindex h ti = (case prompt_index (hunk_source h) of Some i \<Rightarrow> index_insert i (hunk_id h) ti | None \<Rightarrow> ti)"

section \<open>Recomputing the hunks of a file\<close>

definition fresh_hunks ::
    "DiffEnv \<Rightarrow> nat \<Rightarrow> PathBuf \<Rightarrow> FileContentState \<Rightarrow> FileContentState \<Rightarrow> HunkSource \<Rightarrow> TrackedHunk list" where
  "fresh_hunks env n path base current source =
     (case (base, current) of
        (Full b, Full c) \<Rightarrow> compute_hunks env n path b c source
      | (Full b, Missing) \<Rightarrow> (if b = [] then [] else [file_deleted env n path b source])
      | (Missing, Full c) \<Rightarrow> (if c = [] then [] else [file_created env n path c source])
      | _ \<Rightarrow> [])"

text \<open>A hunk keeps the identifier of the old one it matches, once; an edit from outside keeps the agent's name on it.\<close>

fun preserve_ids :: "TrackedHunk list \<Rightarrow> HunkId list \<Rightarrow> TrackedHunk list \<Rightarrow> TrackedHunk list" where
  "preserve_ids old_hunks claimed [] = []"
| "preserve_ids old_hunks claimed (h # hs) =
     (case find_matching_old_hunk h old_hunks of
        None \<Rightarrow> h # preserve_ids old_hunks claimed hs
      | Some best \<Rightarrow>
          if hunk_id best \<in> set claimed then h # preserve_ids old_hunks claimed hs
          else h\<lparr>hunk_id := hunk_id best,
                 hunk_source := (if is_external (hunk_source h) \<and> is_agent_edit (hunk_source best)
                                 then hunk_source best else hunk_source h)\<rparr>
               # preserve_ids old_hunks (hunk_id best # claimed) hs)"

definition removed_events :: "PathBuf \<Rightarrow> HunkRemovalReason \<Rightarrow> TrackedHunk list \<Rightarrow> HunkEvent list" where
  "removed_events path reason hs = map (\<lambda>h. HunkRemoved path (hunk_id h) reason) hs"

definition changed_event :: "PathBuf \<Rightarrow> TrackedHunk list \<Rightarrow> HunkSource \<Rightarrow> TrackedHunk \<Rightarrow> HunkEvent" where
  "changed_event path old_hunks trigger h =
     (let prev = (case find (\<lambda>q. hunk_id q = hunk_id h) old_hunks of
                    Some q \<Rightarrow> Some q
                  | None \<Rightarrow> find (\<lambda>q. hunks_overlap q h) old_hunks) in
      HunkContentChanged path h trigger
        (case prev of Some q \<Rightarrow> new_count (line_info q) | None \<Rightarrow> 0)
        (case prev of Some q \<Rightarrow> old_count (line_info q) | None \<Rightarrow> 0))"

definition new_hunk_events :: "PathBuf \<Rightarrow> TrackedHunk list \<Rightarrow> HunkSource \<Rightarrow> TrackedHunk \<Rightarrow> HunkEvent list" where
  "new_hunk_events path old_hunks trigger h =
     (case find (\<lambda>q. hunks_match_content q h) old_hunks of
        Some q \<Rightarrow> if hunk_moved q h then [HunkMoved path (hunk_id q) (line_info h)] else []
      | None \<Rightarrow>
          if \<exists>q\<in>set old_hunks. hunks_overlap q h then [changed_event path old_hunks trigger h]
          else [HunkAdded path h])"

definition emit_hunk_diff_events ::
    "PathBuf \<Rightarrow> TrackedHunk list \<Rightarrow> TrackedHunk list \<Rightarrow> HunkSource \<Rightarrow> HunkEvent list" where
  "emit_hunk_diff_events path old_hunks new_hunks trigger =
     removed_events path Superseded
       (filter (\<lambda>q. \<not> (\<exists>h\<in>set new_hunks. hunks_overlap q h \<or> hunks_match_content q h)) old_hunks)
   @ concat (map (new_hunk_events path old_hunks trigger) new_hunks)"

definition recompute_hunks ::
    "DiffEnv \<Rightarrow> PathBuf \<Rightarrow> FileContentState option \<Rightarrow> HunkSource \<Rightarrow> 'w HunkTrackerActor \<Rightarrow> 'w HunkTrackerActor" where
  "recompute_hunks env path new_current source a =
     (case file_of a path of
        None \<Rightarrow> a
      | Some st \<Rightarrow>
          (let old_hunks = hunks st;
               current = (case new_current of Some c \<Rightarrow> c | None \<Rightarrow> missing_content);
               drawn = fresh_hunks env (draws a) path (baseline st) current source;
               new_hunks = preserve_ids old_hunks [] drawn in
           send_all (emit_hunk_diff_events path old_hunks new_hunks source)
             (set_file path (st\<lparr>current_content := current, hunks := new_hunks\<rparr>) a)
               \<lparr>draws := draws a + length drawn + 1,
                turn_index := fold reindex new_hunks (fold unindex old_hunks (turn_index a))\<rparr>))"

definition remaining_source :: "PathBuf \<Rightarrow> 'w HunkTrackerActor \<Rightarrow> HunkSource" where
  "remaining_source path a =
     (case file_of a path of
        Some st \<Rightarrow> (case hunks st of h # _ \<Rightarrow> hunk_source h | [] \<Rightarrow> External)
      | None \<Rightarrow> External)"

section \<open>Accepting and rejecting\<close>

datatype HunkAction = Accept | Reject

datatype HunkActionError =
  HunkNotFound HunkId | WriteError PathBuf string | DeleteError PathBuf string | ReadError PathBuf string

definition update_session_stats :: "HunkLineInfo \<Rightarrow> bool \<Rightarrow> SessionStats \<Rightarrow> SessionStats" where
  "update_session_stats info accepted s =
     (if accepted
      then s\<lparr>accepted_hunks := sat_add64 (accepted_hunks s) 1,
             accepted_lines_added := sat_add64 (accepted_lines_added s) (new_count info),
             accepted_lines_removed := sat_add64 (accepted_lines_removed s) (old_count info)\<rparr>
      else s\<lparr>rejected_hunks := sat_add64 (rejected_hunks s) 1,
             rejected_lines_added := sat_add64 (rejected_lines_added s) (new_count info),
             rejected_lines_removed := sat_add64 (rejected_lines_removed s) (old_count info)\<rparr>)"

definition book_hunk :: "HunkAction \<Rightarrow> TrackedHunk \<Rightarrow> 'w HunkTrackerActor \<Rightarrow> 'w HunkTrackerActor" where
  "book_hunk action h a =
     a\<lparr>session_stats := update_session_stats (line_info h) (action = Accept) (session_stats a),
       turn_index := unindex h (turn_index a)\<rparr>"

definition drop_hunks :: "TrackedHunk list \<Rightarrow> FileHunkState \<Rightarrow> FileHunkState" where
  "drop_hunks hs st = st\<lparr>hunks := filter (\<lambda>q. hunk_id q \<notin> hunk_id ` set hs) (hunks st)\<rparr>"

definition accept_patch :: "TrackedHunk \<Rightarrow> FileContentState \<Rightarrow> FileContentState" where
  "accept_patch h base =
     (case base of
        Full b \<Rightarrow> Full (patch_lines b (old_start (line_info h)) (old_count (line_info h)) (new_text h))
      | _ \<Rightarrow> base)"

definition accept_hunk :: "DiffEnv \<Rightarrow> PathBuf \<Rightarrow> TrackedHunk \<Rightarrow> 'w HunkTrackerActor \<Rightarrow> 'w HunkTrackerActor" where
  "accept_hunk env path h a =
     (case file_of a path of
        None \<Rightarrow> a
      | Some st \<Rightarrow>
          (let notices = [HunkRemoved path (hunk_id h) Accepted, BaselineUpdated path] in
           if baseline st = Missing
           then send_all notices
                  (set_file path (drop_hunks [h] (st\<lparr>baseline := current_content st, baseline_accepted := True\<rparr>)) a)
           else let a = send_all notices
                      (set_file path (drop_hunks [h] (st\<lparr>baseline := accept_patch h (baseline st), baseline_accepted := True\<rparr>)) a) in
                recompute_hunks env path (Some (current_content st)) (remaining_source path a) a))"

definition revert_patch :: "TrackedHunk \<Rightarrow> string \<Rightarrow> string" where
  "revert_patch h current =
     patch_lines current (new_start (line_info h)) (new_count (line_info h))
       (case old_text h of Some t \<Rightarrow> t | None \<Rightarrow> [])"

datatype RejectAction = RestoreDeleted string | DeleteCreated | RevertChange string | NoOp

definition reject_action :: "TrackedHunk \<Rightarrow> FileHunkState \<Rightarrow> RejectAction" where
  "reject_action h st =
     (case (baseline st, current_content st) of
        (Full b, Missing) \<Rightarrow> RestoreDeleted b
      | (Missing, Full c) \<Rightarrow> DeleteCreated
      | (_, Full c) \<Rightarrow> RevertChange (revert_patch h c)
      | _ \<Rightarrow> NoOp)"

text \<open>\<open>tokio::fs::write\<close> and \<open>remove_file\<close>, an error turned into the tracker's.\<close>

definition write_file ::
    "'w TrackerFs \<Rightarrow> PathBuf \<Rightarrow> string \<Rightarrow> 'w HunkTrackerActor \<Rightarrow> 'w HunkTrackerActor \<times> HunkActionError option" where
  "write_file fs path content a =
     (let (w, err) = fs_write fs (world a) path content in (a\<lparr>world := w\<rparr>, map_option (WriteError path) err))"

definition remove_file ::
    "'w TrackerFs \<Rightarrow> PathBuf \<Rightarrow> 'w HunkTrackerActor \<Rightarrow> 'w HunkTrackerActor \<times> HunkActionError option" where
  "remove_file fs path a =
     (let (w, err) = fs_remove_file fs (world a) path in (a\<lparr>world := w\<rparr>, map_option (DeleteError path) err))"

definition reject_hunk ::
    "'w TrackerEnv \<Rightarrow> PathBuf \<Rightarrow> TrackedHunk \<Rightarrow> 'w HunkTrackerActor \<Rightarrow> 'w HunkTrackerActor \<times> HunkActionError option" where
  "reject_hunk env path h a =
     (case file_of a path of
        None \<Rightarrow> (a, None)
      | Some st \<Rightarrow>
          (let notice = [HunkRemoved path (hunk_id h) Rejected] in
           case reject_action h st of
             RestoreDeleted b \<Rightarrow>
               (case write_file (env_fs env) path b a of
                  (a, Some e) \<Rightarrow> (a, Some e)
                | (a, None) \<Rightarrow> (send_all notice (set_file path (drop_hunks [h] (st\<lparr>current_content := Full b\<rparr>)) a), None))
           | DeleteCreated \<Rightarrow>
               (case remove_file (env_fs env) path a of
                  (a, Some e) \<Rightarrow> (a, Some e)
                | (a, None) \<Rightarrow> (send_all notice (set_file path (drop_hunks [h] (st\<lparr>current_content := Missing\<rparr>)) a), None))
           | RevertChange patched \<Rightarrow>
               (case write_file (env_fs env) path patched a of
                  (a, Some e) \<Rightarrow> (a, Some e)
                | (a, None) \<Rightarrow>
                    (let a = send_all notice (set_file path (drop_hunks [h] (st\<lparr>current_content := Full patched\<rparr>)) a) in
                     (recompute_hunks (env_diff env) path (Some (Full patched)) (remaining_source path a) a, None)))
           | NoOp \<Rightarrow> (a, None)))"

definition find_hunk :: "'w TrackerEnv \<Rightarrow> HunkId \<Rightarrow> 'w HunkTrackerActor \<Rightarrow> (PathBuf \<times> TrackedHunk) option" where
  "find_hunk env hid a =
     find_map (\<lambda>(path, st). map_option (Pair path) (find (\<lambda>h. hunk_id h = hid) (hunks st)))
       (entries (path_order env) (file_states a))"

definition apply_hunk_action ::
    "'w TrackerEnv \<Rightarrow> HunkId \<Rightarrow> HunkAction \<Rightarrow> 'w HunkTrackerActor \<Rightarrow> 'w HunkTrackerActor \<times> HunkActionError option" where
  "apply_hunk_action env hid action a =
     (case find_hunk env hid a of
        None \<Rightarrow> (a, Some (HunkNotFound hid))
      | Some (path, h) \<Rightarrow>
          (let a = book_hunk action h a in
           case action of
             Accept \<Rightarrow> (accept_hunk (env_diff env) path h a, None)
           | Reject \<Rightarrow> reject_hunk env path h a))"

section \<open>Batches of hunks\<close>

text \<open>\<open>sort_by_key\<close> with a reversed key: stable, the last start first.\<close>

definition accept_hunks_batch ::
    "DiffEnv \<Rightarrow> PathBuf \<Rightarrow> TrackedHunk list \<Rightarrow> 'w HunkTrackerActor \<Rightarrow> 'w HunkTrackerActor" where
  "accept_hunks_batch env path hs a =
     (if hs = [] then a
      else case file_of a path of
        None \<Rightarrow> a
      | Some st \<Rightarrow>
          (let notices = removed_events path Accepted hs @ [BaselineUpdated path] in
           if baseline st = Missing
           then send_all notices
                  (set_file path (drop_hunks hs (st\<lparr>baseline := current_content st, baseline_accepted := True\<rparr>)) a)
           else let sorted_hunks = sort_key (\<lambda>h. - int (old_start (line_info h))) hs;
                    a = send_all notices
                      (set_file path (drop_hunks hs
                        (st\<lparr>baseline := fold accept_patch sorted_hunks (baseline st), baseline_accepted := True\<rparr>)) a) in
                recompute_hunks env path (Some (current_content st)) (remaining_source path a) a))"

definition reject_hunks_batch ::
    "'w TrackerEnv \<Rightarrow> PathBuf \<Rightarrow> TrackedHunk list \<Rightarrow> 'w HunkTrackerActor \<Rightarrow> 'w HunkTrackerActor \<times> HunkActionError option" where
  "reject_hunks_batch env path hs a =
     (if hs = [] then (a, None)
      else case file_of a path of
        None \<Rightarrow> (a, None)
      | Some st \<Rightarrow>
          (let notices = removed_events path Rejected hs in
           case (baseline st, current_content st) of
             (Full b, Missing) \<Rightarrow>
               (case write_file (env_fs env) path b a of
                  (a, Some e) \<Rightarrow> (a, Some e)
                | (a, None) \<Rightarrow> (send_all notices (set_file path (drop_hunks hs (st\<lparr>current_content := Full b\<rparr>)) a), None))
           | (Missing, Full c) \<Rightarrow>
               (case remove_file (env_fs env) path a of
                  (a, Some e) \<Rightarrow> (a, Some e)
                | (a, None) \<Rightarrow> (send_all notices (set_file path (drop_hunks hs (st\<lparr>current_content := Missing\<rparr>)) a), None))
           | (_, Full c) \<Rightarrow>
               (let sorted_hunks = sort_key (\<lambda>h. - int (new_start (line_info h))) hs;
                    current = fold revert_patch sorted_hunks c in
                case write_file (env_fs env) path current a of
                  (a, Some e) \<Rightarrow> (a, Some e)
                | (a, None) \<Rightarrow>
                    (let a = send_all notices (set_file path (drop_hunks hs (st\<lparr>current_content := Full current\<rparr>)) a) in
                     (recompute_hunks (env_diff env) path (Some (Full current)) (remaining_source path a) a, None)))
           | _ \<Rightarrow> (a, None)))"

fun apply_action_batch ::
    "'w TrackerEnv \<Rightarrow> HunkAction \<Rightarrow> (PathBuf \<times> TrackedHunk list) list \<Rightarrow> 'w HunkTrackerActor
     \<Rightarrow> 'w HunkTrackerActor \<times> (HunkActionError + HunkId list)" where
  "apply_action_batch env action [] a = (a, Inr [])"
| "apply_action_batch env action ((path, hs) # files) a =
     (let a = fold (book_hunk action) hs a;
          (a, err) = (case action of
             Accept \<Rightarrow> (accept_hunks_batch (env_diff env) path hs a, None)
           | Reject \<Rightarrow> reject_hunks_batch env path hs a) in
      case err of
        Some e \<Rightarrow> (a, Inl e)
      | None \<Rightarrow>
          (let (a, rest) = apply_action_batch env action files a in
           (a, map_sum (\<lambda>e. e) (\<lambda>ids. map hunk_id hs @ ids) rest)))"

definition apply_file_action ::
    "'w TrackerEnv \<Rightarrow> PathBuf \<Rightarrow> HunkAction \<Rightarrow> 'w HunkTrackerActor \<Rightarrow> 'w HunkTrackerActor \<times> (HunkActionError + HunkId list)" where
  "apply_file_action env path action a =
     (case file_of a path of
        None \<Rightarrow> (a, Inr [])
      | Some st \<Rightarrow> if hunks st = [] then (a, Inr []) else apply_action_batch env action [(path, hunks st)] a)"

definition apply_all_action ::
    "'w TrackerEnv \<Rightarrow> HunkAction \<Rightarrow> 'w HunkTrackerActor \<Rightarrow> 'w HunkTrackerActor \<times> (HunkActionError + HunkId list)" where
  "apply_all_action env action a =
     apply_action_batch env action
       (map (\<lambda>(path, st). (path, hunks st)) (filter (\<lambda>(path, st). hunks st \<noteq> []) (entries (path_order env) (file_states a)))) a"

definition turn_hunks :: "nat \<Rightarrow> FileHunkState \<Rightarrow> TrackedHunk list" where
  "turn_hunks i st = filter (\<lambda>h. prompt_index (hunk_source h) = Some i) (hunks st)"

definition apply_turn_action ::
    "'w TrackerEnv \<Rightarrow> nat \<Rightarrow> HunkAction \<Rightarrow> 'w HunkTrackerActor \<Rightarrow> 'w HunkTrackerActor \<times> (HunkActionError + HunkId list)" where
  "apply_turn_action env i action a =
     apply_action_batch env action
       (entries (path_order env)
         (filter (\<lambda>(path, hs). hs \<noteq> []) (map (\<lambda>(path, st). (path, turn_hunks i st)) (file_states a)))) a"

end
