(* ===== verification/Hunk_Watch.thy ===== *)
theory Hunk_Watch
  imports Hunk_Tracker
begin

text \<open>
  What reaches the hunk tracker from outside (\<open>actor/git.rs\<close> and \<open>actor/mutations.rs\<close>): the writes of the agent, the
  notifications about changed and deleted files, the commits of git and the change of the mode.
\<close>

section \<open>Git\<close>

text \<open>The repository and the way to the working directory, with what is to be remembered of a first search.\<close>

definition open_or_discover ::
    "'w TrackerEnv \<Rightarrow> 'w HunkTrackerActor \<Rightarrow> (PathBuf \<times> PathBuf) option \<times> GitRepoState" where
  "open_or_discover env a =
     (case git_repo_state a of
        Discovered root way \<Rightarrow> (Some (root, way), Discovered root way)
      | NotARepo \<Rightarrow> (None, NotARepo)
      | Unknown \<Rightarrow>
          (case git_discover (env_git env) (world a) (working_dir a) of
             None \<Rightarrow> (None, NotARepo)
           | Some root \<Rightarrow>
               (let canonical = (\<lambda>p. case canonicalize (env_fs env) (world a) p of Some c \<Rightarrow> c | None \<Rightarrow> p) in
                case strip_prefix (canonical root) (canonical (working_dir a)) of
                  None \<Rightarrow> (None, NotARepo)
                | Some way \<Rightarrow> (Some (root, way), Discovered root way))))"

fun parent_and_name :: "PathBuf \<Rightarrow> (PathBuf \<times> Component) option" where
  "parent_and_name path =
     (if path = [] then None else case last path of Normal s \<Rightarrow> Some (butlast path, Normal s) | _ \<Rightarrow> None)"

definition canonicalize_or_parent :: "'w TrackerFs \<Rightarrow> 'w \<Rightarrow> PathBuf \<Rightarrow> PathBuf" where
  "canonicalize_or_parent fs w path =
     (case canonicalize fs w path of
        Some c \<Rightarrow> c
      | None \<Rightarrow>
          (case parent_and_name path of
             None \<Rightarrow> path
           | Some (dir, name) \<Rightarrow>
               (case canonicalize fs w dir of None \<Rightarrow> path | Some cp \<Rightarrow> components_join cp [name])))"

text \<open>The content of a path in the commit at HEAD, as both readers of baselines find it.\<close>

definition head_content :: "'w TrackerEnv \<Rightarrow> 'w HunkTrackerActor \<Rightarrow> (PathBuf \<times> PathBuf) option \<Rightarrow> PathBuf \<Rightarrow> FileContentState" where
  "head_content env a repo path =
     (case repo of
        None \<Rightarrow> missing_content
      | Some (root, way) \<Rightarrow>
          (let fs = env_fs env; w = world a;
               dir = (case canonicalize fs w (working_dir a) of Some c \<Rightarrow> c | None \<Rightarrow> working_dir a) in
           case strip_prefix dir (canonicalize_or_parent fs w path) of
             None \<Rightarrow> missing_content
           | Some rel \<Rightarrow>
               (case git_head_entry (env_git env) w root (components_join way rel) of
                  None \<Rightarrow> missing_content
                | Some GitLink \<Rightarrow> Symlink
                | Some (GitBlob bytes) \<Rightarrow> classify_bytes bytes)))"

definition read_baseline ::
    "'w TrackerEnv \<Rightarrow> PathBuf \<Rightarrow> 'w HunkTrackerActor \<Rightarrow> 'w HunkTrackerActor \<times> FileContentState" where
  "read_baseline env path a =
     (if git_repo_state a = NotARepo \<or> \<not> blocking_ok (env_git env) (world a) then (a, missing_content)
      else let (repo, remembered) = open_or_discover env a in
           (a\<lparr>git_repo_state := remembered\<rparr>, head_content env a repo path))"

definition read_baselines_batch ::
    "'w TrackerEnv \<Rightarrow> PathBuf list \<Rightarrow> 'w HunkTrackerActor \<Rightarrow> 'w HunkTrackerActor \<times> (PathBuf \<times> FileContentState) list" where
  "read_baselines_batch env paths a =
     (if paths = [] \<or> git_repo_state a = NotARepo \<or> \<not> blocking_ok (env_git env) (world a) then (a, [])
      else let (repo, remembered) = open_or_discover env a in
           (a\<lparr>git_repo_state := remembered\<rparr>, map (\<lambda>p. (p, head_content env a repo p)) paths))"

definition read_repo_sync_state ::
    "'w TrackerEnv \<Rightarrow> 'w HunkTrackerActor \<Rightarrow> 'w HunkTrackerActor \<times> RepoSyncState option" where
  "read_repo_sync_state env a =
     (if git_repo_state a = NotARepo \<or> \<not> blocking_ok (env_git env) (world a) then (a, None)
      else let (repo, remembered) = open_or_discover env a in
           (a\<lparr>git_repo_state := remembered\<rparr>, map_option (\<lambda>(root, way). git_sync (env_git env) (world a) root) repo))"

section \<open>Writes of the agent\<close>

definition record_agent_write ::
    "'w TrackerEnv \<Rightarrow> PathBuf \<Rightarrow> string \<Rightarrow> nat \<Rightarrow> string option \<Rightarrow> 'w HunkTrackerActor \<Rightarrow> 'w HunkTrackerActor" where
  "record_agent_write env path content i previous a =
     (let current = classify_string content in
      if \<not> is_diffable current
      then (case file_of a path of
              None \<Rightarrow>
                (let (a, base) = (case previous of Some prev \<Rightarrow> (a, classify_string prev) | None \<Rightarrow> read_baseline env path a) in
                 send (FileAdded path True) (set_file path (tracked_file base current True) a))
            | Some st \<Rightarrow> set_file path (st\<lparr>is_agent_file := True, current_content := current, hunks := []\<rparr>) a)
      else let a = (case file_of a path of
              None \<Rightarrow>
                (let (a, head) = read_baseline env path a;
                     base = (if head = Missing then (case previous of Some prev \<Rightarrow> classify_string prev | None \<Rightarrow> missing_content)
                             else head) in
                 send (FileAdded path True) (set_file path (tracked_file base current True) a))
            | Some st \<Rightarrow> set_file path (st\<lparr>is_agent_file := True\<rparr>) a) in
           recompute_hunks (env_diff env) path (Some current) (AgentEdit i) a)"

section \<open>Changes on disk\<close>

definition strip_single_trailing_newline :: "string \<Rightarrow> string" where
  "strip_single_trailing_newline content =
     (case strip_suffix [cr, nl] content of
        Some s \<Rightarrow> s
      | None \<Rightarrow> (case strip_suffix [nl] content of Some s \<Rightarrow> s | None \<Rightarrow> content))"

definition is_dirty :: "'w HunkTrackerActor \<Rightarrow> PathBuf \<Rightarrow> bool" where
  "is_dirty a path \<longleftrightarrow> relative_or_self path (working_dir a) \<in> set (git_dirty_cache a)"

text \<open>A path that neither HEAD nor the status of git knows is taken for ignored by git, a directory apart.\<close>

definition seems_ignored :: "'w TrackerEnv \<Rightarrow> 'w HunkTrackerActor \<Rightarrow> PathBuf \<Rightarrow> FileContentState \<Rightarrow> bool" where
  "seems_ignored env a path base \<longleftrightarrow>
     tracking_mode a = AllDirty \<and> base = Missing \<and> \<not> path_is_dir (env_fs env) (world a) path \<and> \<not> is_dirty a path"

fun content_matches_head :: "bool \<Rightarrow> FileContentState \<Rightarrow> FileContentState \<Rightarrow> bool" where
  "content_matches_head dirty (Full current) (Full head) =
     (strip_single_trailing_newline current = strip_single_trailing_newline head)"
| "content_matches_head dirty Missing Missing = True"
| "content_matches_head dirty (Binary _) (Binary _) = True"
| "content_matches_head dirty (TooLarge _) (TooLarge _) = True"
| "content_matches_head dirty (LfsPointer _) (LfsPointer _) = True"
| "content_matches_head dirty Symlink Symlink = True"
| "content_matches_head dirty Symlink (Full _) = (\<not> dirty)"
| "content_matches_head dirty (Full _) Symlink = (\<not> dirty)"
| "content_matches_head dirty _ _ = False"

definition edit_source :: "PathBuf \<Rightarrow> 'w HunkTrackerActor \<Rightarrow> HunkSource" where
  "edit_source path a =
     (case file_of a path of
        Some st \<Rightarrow> if is_agent_file st then ExternalEditOnAgentFile else External
      | None \<Rightarrow> External)"

definition baseline_or_read ::
    "'w TrackerEnv \<Rightarrow> PathBuf \<Rightarrow> FileContentState option \<Rightarrow> 'w HunkTrackerActor \<Rightarrow> 'w HunkTrackerActor \<times> FileContentState" where
  "baseline_or_read env path preloaded a =
     (case preloaded of Some b \<Rightarrow> (a, b) | None \<Rightarrow> read_baseline env path a)"

definition start_tracking :: "PathBuf \<Rightarrow> FileContentState \<Rightarrow> FileContentState \<Rightarrow> 'w HunkTrackerActor \<Rightarrow> 'w HunkTrackerActor" where
  "start_tracking path base current a = send (FileAdded path False) (set_file path (tracked_file base current False) a)"

definition process_untracked ::
    "'w TrackerEnv \<Rightarrow> PathBuf \<Rightarrow> FileContentState option \<Rightarrow> FileContentState \<Rightarrow> 'w HunkTrackerActor \<Rightarrow> 'w HunkTrackerActor" where
  "process_untracked env path preloaded current a =
     (if \<not> is_diffable current
      then let (a, base) = (if tracking_mode a = AllDirty then baseline_or_read env path preloaded a else (a, missing_content)) in
           if seems_ignored env a path base then a
           else let a = start_tracking path base current a in
                if is_diffable base then recompute_hunks (env_diff env) path None External a else a
      else let (a, base) = baseline_or_read env path preloaded a in
           if seems_ignored env a path base then a
           else let a = start_tracking path base missing_content a in
                recompute_hunks (env_diff env) path (Some current) (edit_source path a) a)"

definition process_file_change ::
    "'w TrackerEnv \<Rightarrow> PathBuf \<Rightarrow> FileContentState option \<Rightarrow> 'w HunkTrackerActor \<Rightarrow> 'w HunkTrackerActor" where
  "process_file_change env path preloaded a =
     (case file_of a path of
        None \<Rightarrow>
          if tracking_mode a = AgentOnly then a
          else process_untracked env path preloaded (read_file_bounded (env_fs env) (world a) path) a
      | Some st \<Rightarrow>
          (let current = read_file_bounded (env_fs env) (world a) path in
           if baseline_accepted st
           then let (a, head) = baseline_or_read env path preloaded a in
                if content_matches_head (is_dirty a path) current head
                then set_file path (st\<lparr>baseline := head, current_content := head, baseline_accepted := False, hunks := []\<rparr>) a
                else recompute_hunks (env_diff env) path (Some current) (edit_source path a) a
           else recompute_hunks (env_diff env) path (Some current) (edit_source path a) a))"

definition handle_file_change :: "'w TrackerEnv \<Rightarrow> PathBuf \<Rightarrow> 'w HunkTrackerActor \<Rightarrow> 'w HunkTrackerActor" where
  "handle_file_change env path a = process_file_change env path None a"

definition needs_baseline :: "'w HunkTrackerActor \<Rightarrow> PathBuf \<Rightarrow> bool" where
  "needs_baseline a path =
     (case file_of a path of
        None \<Rightarrow> tracking_mode a \<noteq> AgentOnly
      | Some st \<Rightarrow> baseline_accepted st)"

fun process_changes ::
    "'w TrackerEnv \<Rightarrow> PathBuf list \<Rightarrow> (PathBuf \<times> FileContentState) list \<Rightarrow> 'w HunkTrackerActor \<Rightarrow> 'w HunkTrackerActor" where
  "process_changes env [] baselines a = a"
| "process_changes env (path # paths) baselines a =
     process_changes env paths (AList.delete path baselines) (process_file_change env path (map_of baselines path) a)"

definition handle_file_changes_batch :: "'w TrackerEnv \<Rightarrow> PathBuf list \<Rightarrow> 'w HunkTrackerActor \<Rightarrow> 'w HunkTrackerActor" where
  "handle_file_changes_batch env paths a =
     (if paths = [] then a
      else let (a, baselines) = read_baselines_batch env (filter (needs_baseline a) paths) a in
           process_changes env paths baselines a)"

definition handle_file_deleted :: "'w TrackerEnv \<Rightarrow> PathBuf \<Rightarrow> 'w HunkTrackerActor \<Rightarrow> 'w HunkTrackerActor" where
  "handle_file_deleted env path a =
     (case file_of a path of
        None \<Rightarrow>
          if tracking_mode a = AgentOnly \<or> path_exists (env_fs env) (world a) path then a
          else let (a, base) = read_baseline env path a in
               if base = Missing then a
               else recompute_hunks (env_diff env) path None External (start_tracking path base missing_content a)
      | Some st \<Rightarrow>
          if path_exists (env_fs env) (world a) path then handle_file_change env path a
          else recompute_hunks (env_diff env) path None (edit_source path a) a)"

section \<open>Following git\<close>

definition refresh_git_dirty_cache :: "'w TrackerEnv \<Rightarrow> PathBuf list option \<Rightarrow> 'w HunkTrackerActor \<Rightarrow> 'w HunkTrackerActor" where
  "refresh_git_dirty_cache env scope a =
     (if git_repo_state a = NotARepo \<or> \<not> blocking_ok (env_git env) (world a) then a
      else let (repo, remembered) = open_or_discover env a;
               git = env_git env; w = world a;
               items = (case repo of
                  None \<Rightarrow> []
                | Some (root, way) \<Rightarrow>
                    (case git_index_len git w root of
                       None \<Rightarrow> []
                     | Some len \<Rightarrow>
                         if len = 0 then []
                         else case git_status git w root (map (components_join way) (case scope of Some rels \<Rightarrow> rels | None \<Rightarrow> [])) of
                           None \<Rightarrow> []
                         | Some found \<Rightarrow>
                             List.map_filter (\<lambda>(p, staged). map_option (\<lambda>rel. (rel, staged)) (strip_prefix way p)) found));
               dirty = path_order env (remdups (map fst items));
               to_track = filter (\<lambda>rel. file_of a (components_join (working_dir a) rel) = None) dirty;
               a = a\<lparr>git_repo_state := remembered, git_dirty_cache := dirty,
                     git_staged_cache := remdups (map fst (filter snd items))\<rparr> in
           if tracking_mode a = AllDirty
           then fold (\<lambda>rel a. handle_file_change env (components_join (working_dir a) rel) a) to_track a
           else a)"

definition clear_file_hunks :: "PathBuf \<Rightarrow> FileHunkState \<Rightarrow> 'w HunkTrackerActor \<Rightarrow> 'w HunkTrackerActor" where
  "clear_file_hunks path st a =
     send_all (removed_events path Superseded (hunks st)) a\<lparr>turn_index := fold unindex (hunks st) (turn_index a)\<rparr>"

definition reset_baseline :: "PathBuf \<Rightarrow> 'w HunkTrackerActor \<Rightarrow> 'w HunkTrackerActor" where
  "reset_baseline path a =
     (case file_of a path of
        None \<Rightarrow> a
      | Some st \<Rightarrow>
          send (BaselineUpdated path)
            (clear_file_hunks path st
              (set_file path (st\<lparr>baseline := current_content st, baseline_accepted := False, hunks := []\<rparr>) a)))"

definition untrack_file :: "PathBuf \<Rightarrow> FileHunkState \<Rightarrow> 'w HunkTrackerActor \<Rightarrow> 'w HunkTrackerActor" where
  "untrack_file path st a =
     send (FileRemoved path) (clear_file_hunks path st (a\<lparr>file_states := AList.delete path (file_states a)\<rparr>))"

fun is_clean :: "'w TrackerEnv \<Rightarrow> 'w HunkTrackerActor \<Rightarrow> PathBuf \<Rightarrow> FileContentState \<Rightarrow> FileContentState \<Rightarrow> bool" where
  "is_clean env a path (Full b) (Full c) = (strip_single_trailing_newline b = strip_single_trailing_newline c)"
| "is_clean env a path (Binary _) (Binary _) = (\<not> is_dirty a path)"
| "is_clean env a path (TooLarge _) (TooLarge _) = (\<not> is_dirty a path)"
| "is_clean env a path (LfsPointer _) (LfsPointer _) = (\<not> is_dirty a path)"
| "is_clean env a path Symlink Symlink = (\<not> is_dirty a path)"
| "is_clean env a path (LfsPointer _) _ = (\<not> is_dirty a path)"
| "is_clean env a path _ (LfsPointer _) = (\<not> is_dirty a path)"
| "is_clean env a path Symlink (Full _) = (\<not> is_dirty a path)"
| "is_clean env a path (Full _) Symlink = (\<not> is_dirty a path)"
| "is_clean env a path Missing Missing = (\<not> path_exists (env_fs env) (world a) path)"
| "is_clean env a path Missing _ = (\<not> is_dirty a path)"
| "is_clean env a path _ _ = False"

definition refresh_file ::
    "'w TrackerEnv \<Rightarrow> (PathBuf \<times> FileContentState) list \<Rightarrow> PathBuf \<Rightarrow> 'w HunkTrackerActor \<Rightarrow> 'w HunkTrackerActor" where
  "refresh_file env baselines path a =
     (case file_of a path of
        None \<Rightarrow> a
      | Some st \<Rightarrow>
          (let base = (case map_of baselines path of Some b \<Rightarrow> b | None \<Rightarrow> missing_content);
               current = read_file_bounded (env_fs env) (world a) path;
               st = st\<lparr>baseline := base, current_content := current, baseline_accepted := False\<rparr>;
               a = set_file path st a in
           if is_clean env a path base current
           then if is_agent_file st
                then send (BaselineUpdated path) (clear_file_hunks path st (set_file path (st\<lparr>hunks := []\<rparr>) a))
                else untrack_file path st a
           else send (BaselineUpdated path) (recompute_hunks (env_diff env) path (Some current) (edit_source path a) a)))"

definition scoped_paths :: "'w TrackerEnv \<Rightarrow> 'w HunkTrackerActor \<Rightarrow> PathBuf list" where
  "scoped_paths env a =
     List.map_filter (\<lambda>p. strip_prefix (working_dir a) p) (path_order env (map fst (file_states a)))"

definition refresh_caches :: "'w TrackerEnv \<Rightarrow> 'w HunkTrackerActor \<Rightarrow> 'w HunkTrackerActor" where
  "refresh_caches env a =
     (case tracking_mode a of
        AllDirty \<Rightarrow> refresh_git_dirty_cache env None a
      | AgentOnly \<Rightarrow>
          (let rels = scoped_paths env a in
           if rels = [] then a\<lparr>git_dirty_cache := [], git_staged_cache := []\<rparr>
           else refresh_git_dirty_cache env (Some rels) a))"

definition refresh_all_baselines_except :: "'w TrackerEnv \<Rightarrow> PathBuf list \<Rightarrow> 'w HunkTrackerActor \<Rightarrow> 'w HunkTrackerActor" where
  "refresh_all_baselines_except env skip a =
     (if tracking_mode a = AgentOnly \<and> file_states a = [] then a
      else let (a, sync) = read_repo_sync_state env a in
           if sync = Some (repo_sync_state a) then a
           else let a = (case sync of Some s \<Rightarrow> a\<lparr>repo_sync_state := s\<rparr> | None \<Rightarrow> a);
                    a = refresh_caches env a;
                    paths = filter (\<lambda>p. p \<notin> set skip) (path_order env (map fst (file_states a)));
                    (a, baselines) = read_baselines_batch env paths a in
                fold (refresh_file env baselines) paths a)"

definition refresh_all_baselines :: "'w TrackerEnv \<Rightarrow> 'w HunkTrackerActor \<Rightarrow> 'w HunkTrackerActor" where
  "refresh_all_baselines env a = refresh_all_baselines_except env [] a"

section \<open>The mode\<close>

definition set_mode :: "'w TrackerEnv \<Rightarrow> TrackingMode \<Rightarrow> 'w HunkTrackerActor \<Rightarrow> 'w HunkTrackerActor" where
  "set_mode env mode a =
     (let old_mode = tracking_mode a; a = a\<lparr>tracking_mode := mode\<rparr> in
      if old_mode = AgentOnly \<and> mode = AllDirty then refresh_git_dirty_cache env None a
      else if old_mode = AllDirty \<and> mode = AgentOnly
      then fold (\<lambda>(path, st). untrack_file path st)
             (filter (\<lambda>(path, st). \<not> is_agent_file st) (entries (path_order env) (file_states a))) a
      else a)"

end
