(* ===== verification/Hunk_Actor.thy ===== *)
theory Hunk_Actor
  imports Hunk_Watch
begin

text \<open>
  The commands of the hunk tracker (\<open>commands.rs\<close>, dispatched in \<open>actor/mod.rs\<close>), their coalescing into batches, the
  queries (\<open>actor/queries.rs\<close>), snapshots and the move to another working directory.
\<close>

section \<open>Queries\<close>

definition get_all_hunks :: "'w TrackerEnv \<Rightarrow> 'w HunkTrackerActor \<Rightarrow> TrackedHunk list" where
  "get_all_hunks env a = concat (map (hunks \<circ> snd) (entries (path_order env) (file_states a)))"

definition get_hunks_for_path :: "PathBuf \<Rightarrow> 'w HunkTrackerActor \<Rightarrow> TrackedHunk list" where
  "get_hunks_for_path path a = (case file_of a path of Some st \<Rightarrow> hunks st | None \<Rightarrow> [])"

record FileHunkData =
  data_hunks :: "TrackedHunk list"
  data_baseline :: FileContentView
  data_current :: FileContentView
  data_baseline_content :: "string option"
  data_current_content :: "string option"

definition hunk_patch_for :: "FileHunkState \<Rightarrow> TrackedHunk \<Rightarrow> string option" where
  "hunk_patch_for st h =
     (case (content_str (baseline st), content_str (current_content st)) of
        (Some b, Some c) \<Rightarrow> Some (generate_hunk_patch b c h)
      | (None, Some c) \<Rightarrow> Some (generate_hunk_patch [] c h)
      | (Some b, None) \<Rightarrow> Some (generate_hunk_patch b [] h)
      | (None, None) \<Rightarrow> None)"

definition get_file_hunk_data :: "PathBuf \<Rightarrow> 'w HunkTrackerActor \<Rightarrow> FileHunkData" where
  "get_file_hunk_data path a =
     (case file_of a path of
        Some st \<Rightarrow>
          (let base = from_content_state (baseline st); current = from_content_state (current_content st) in
           \<lparr>data_hunks = map (\<lambda>h. h\<lparr>hunk_patch := hunk_patch_for st h\<rparr>) (hunks st),
            data_baseline = base, data_current = current,
            data_baseline_content = view_content base, data_current_content = view_content current\<rparr>)
      | None \<Rightarrow>
          \<lparr>data_hunks = [], data_baseline = from_content_state Missing, data_current = from_content_state Missing,
           data_baseline_content = None, data_current_content = None\<rparr>)"

definition get_all_tracked_paths :: "'w TrackerEnv \<Rightarrow> 'w HunkTrackerActor \<Rightarrow> PathBuf list" where
  "get_all_tracked_paths env a = path_order env (map fst (file_states a))"

datatype HunkSourceFilter = AgentHunks | ExternalHunks

fun source_passes :: "HunkSourceFilter \<Rightarrow> HunkSource \<Rightarrow> bool" where
  "source_passes AgentHunks s = is_agent_edit s"
| "source_passes ExternalHunks s = is_external s"

definition get_hunks_by_source :: "'w TrackerEnv \<Rightarrow> HunkSourceFilter \<Rightarrow> 'w HunkTrackerActor \<Rightarrow> TrackedHunk list" where
  "get_hunks_by_source env f a = filter (\<lambda>h. source_passes f (hunk_source h)) (get_all_hunks env a)"

definition get_hunk :: "'w TrackerEnv \<Rightarrow> HunkId \<Rightarrow> 'w HunkTrackerActor \<Rightarrow> TrackedHunk option" where
  "get_hunk env hid a = find (\<lambda>h. hunk_id h = hid) (get_all_hunks env a)"

definition get_hunks_for_turn :: "'w TrackerEnv \<Rightarrow> nat \<Rightarrow> 'w HunkTrackerActor \<Rightarrow> TrackedHunk list" where
  "get_hunks_for_turn env i a =
     (case map_of (turn_index a) i of
        None \<Rightarrow> []
      | Some ids \<Rightarrow> List.map_filter (\<lambda>hid. get_hunk env hid a) (id_order env ids))"

definition is_agent_path :: "PathBuf \<Rightarrow> 'w HunkTrackerActor \<Rightarrow> bool" where
  "is_agent_path path a = (case file_of a path of Some st \<Rightarrow> is_agent_file st | None \<Rightarrow> False)"

definition get_staged_files :: "'w HunkTrackerActor \<Rightarrow> PathBuf list" where
  "get_staged_files a = remdups (map (components_join (working_dir a)) (git_staged_cache a))"

record FileContentEntry =
  entry_path :: PathBuf
  entry_baseline :: FileContentView
  entry_current :: FileContentView
  entry_is_agent_file :: bool
  entry_staged :: bool

definition get_all_file_contents :: "'w TrackerEnv \<Rightarrow> 'w HunkTrackerActor \<Rightarrow> FileContentEntry list" where
  "get_all_file_contents env a =
     map (\<lambda>(path, st).
       \<lparr>entry_path = path, entry_baseline = from_content_state (baseline st),
        entry_current = from_content_state (current_content st), entry_is_agent_file = is_agent_file st,
        entry_staged = relative_or_self path (working_dir a) \<in> set (git_staged_cache a)\<rparr>)
       (entries (path_order env) (file_states a))"

section \<open>The summary of a session\<close>

record TurnSummary =
  turn_prompt_index :: nat
  turn_files :: "PathBuf list"
  turn_pending_hunks :: "TrackedHunk list"
  turn_lines_added :: nat
  turn_lines_removed :: nat

record SessionSummary =
  summary_stats :: SessionStats
  summary_turns :: "TurnSummary list"
  files_modified :: nat
  files_with_pending :: nat
  pending_hunks :: nat
  pending_lines_added :: nat
  pending_lines_removed :: nat
  unattributed_pending :: nat

definition add_to_turn :: "PathBuf \<Rightarrow> TrackedHunk \<Rightarrow> nat \<Rightarrow> (nat \<times> TurnSummary) list \<Rightarrow> (nat \<times> TurnSummary) list" where
  "add_to_turn path h i turns =
     (let t = (case map_of turns i of
           Some t \<Rightarrow> t
         | None \<Rightarrow> \<lparr>turn_prompt_index = i, turn_files = [], turn_pending_hunks = [], turn_lines_added = 0, turn_lines_removed = 0\<rparr>) in
      AList.update i
        (t\<lparr>turn_files := List.insert path (turn_files t), turn_pending_hunks := turn_pending_hunks t @ [h],
           turn_lines_added := turn_lines_added t + new_count (line_info h),
           turn_lines_removed := turn_lines_removed t + old_count (line_info h)\<rparr>) turns)"

definition turn_step :: "PathBuf \<times> TrackedHunk \<Rightarrow> (nat \<times> TurnSummary) list \<times> nat \<Rightarrow> (nat \<times> TurnSummary) list \<times> nat" where
  "turn_step = (\<lambda>(path, h) (turns, unattributed).
     case prompt_index (hunk_source h) of
       Some i \<Rightarrow> (add_to_turn path h i turns, unattributed)
     | None \<Rightarrow> (turns, unattributed + 1))"

definition all_pending :: "'w TrackerEnv \<Rightarrow> 'w HunkTrackerActor \<Rightarrow> (PathBuf \<times> TrackedHunk) list" where
  "all_pending env a =
     concat (map (\<lambda>(path, st). map (Pair path) (hunks st)) (entries (path_order env) (file_states a)))"

definition compute_session_summary :: "'w TrackerEnv \<Rightarrow> 'w HunkTrackerActor \<Rightarrow> SessionSummary" where
  "compute_session_summary env a =
     (let (by_prompt, unattributed) = fold turn_step (all_pending env a) ([], 0);
          agent_files = length (filter (\<lambda>(path, st). list_ex (\<lambda>h. prompt_index (hunk_source h) \<noteq> None) (hunks st)) (file_states a));
          turns = sort_key turn_prompt_index (map snd by_prompt) in
      \<lparr>summary_stats = session_stats a, summary_turns = turns,
       files_modified = agent_files, files_with_pending = agent_files,
       pending_hunks = sum_list (map (length \<circ> turn_pending_hunks) turns),
       pending_lines_added = sum_list (map turn_lines_added turns),
       pending_lines_removed = sum_list (map turn_lines_removed turns),
       unattributed_pending = unattributed\<rparr>)"

section \<open>Snapshots\<close>

record HunkTrackerSnapshot =
  snap_file_states :: "(PathBuf \<times> FileHunkState) list"
  snap_turn_index :: "(nat \<times> HunkId list) list"
  snap_session_stats :: SessionStats

record HunkTurnDelta =
  delta_prompt_index :: nat
  delta_file_states :: "(PathBuf \<times> FileHunkState) list"
  delta_hunk_ids :: "HunkId list"

definition take_snapshot :: "'w HunkTrackerActor \<Rightarrow> HunkTrackerSnapshot" where
  "take_snapshot a =
     \<lparr>snap_file_states = file_states a, snap_turn_index = turn_index a, snap_session_stats = session_stats a\<rparr>"

definition take_turn_delta :: "nat \<Rightarrow> 'w HunkTrackerActor \<Rightarrow> HunkTurnDelta" where
  "take_turn_delta i a =
     (let ids = (case map_of (turn_index a) i of Some ids \<Rightarrow> ids | None \<Rightarrow> []) in
      \<lparr>delta_prompt_index = i,
       delta_file_states = filter (\<lambda>(path, st). list_ex (\<lambda>h. hunk_id h \<in> set ids) (hunks st)) (file_states a),
       delta_hunk_ids = ids\<rparr>)"

definition restore_tracker :: "HunkTrackerSnapshot \<Rightarrow> 'w HunkTrackerActor \<Rightarrow> 'w HunkTrackerActor" where
  "restore_tracker snap a =
     a\<lparr>file_states := snap_file_states snap, turn_index := snap_turn_index snap, session_stats := snap_session_stats snap\<rparr>"

definition set_hunk_paths :: "PathBuf \<Rightarrow> FileHunkState \<Rightarrow> FileHunkState" where
  "set_hunk_paths path st = st\<lparr>hunks := map (\<lambda>h. h\<lparr>hunk_path := path\<rparr>) (hunks st)\<rparr>"

text \<open>Moving the paths of a snapshot: collected into a new map, a later entry replaces an earlier one.\<close>

definition rewrite_paths :: "'w TrackerEnv \<Rightarrow> PathBuf \<Rightarrow> PathBuf \<Rightarrow> PathBuf \<Rightarrow> HunkTrackerSnapshot \<Rightarrow> HunkTrackerSnapshot" where
  "rewrite_paths env old_cwd canonical_old new_cwd snap =
     snap\<lparr>snap_file_states :=
       fold (\<lambda>(path, st) m.
         let target = (case rewrite_single_path path old_cwd canonical_old new_cwd of Some p \<Rightarrow> p | None \<Rightarrow> path) in
         AList.update target (set_hunk_paths target st) m)
       (entries (path_order env) (snap_file_states snap)) []\<rparr>"

section \<open>Moving to another working directory\<close>

definition rekey_path :: "PathBuf \<Rightarrow> PathBuf \<Rightarrow> PathBuf \<Rightarrow> PathBuf" where
  "rekey_path old new_cwd path =
     (if starts_with path new_cwd then path
      else case rewrite_single_path path old old new_cwd of Some p \<Rightarrow> p | None \<Rightarrow> path)"

definition merge_rekeyed :: "PathBuf \<Rightarrow> PathBuf \<Rightarrow> PathBuf \<times> FileHunkState \<Rightarrow> (PathBuf \<times> FileHunkState) list \<Rightarrow> (PathBuf \<times> FileHunkState) list" where
  "merge_rekeyed old new_cwd = (\<lambda>(path, st) m.
     let p = rekey_path old new_cwd path; st = set_hunk_paths p st in
     case map_of m p of
       None \<Rightarrow> AList.update p st m
     | Some dest \<Rightarrow>
         AList.update p (dest\<lparr>hunks := hunks dest @ hunks st, is_agent_file := is_agent_file dest \<or> is_agent_file st,
           baseline_accepted := baseline_accepted dest \<or> baseline_accepted st\<rparr>) m)"

definition rekey_paths_for_working_dir :: "'w TrackerEnv \<Rightarrow> PathBuf \<Rightarrow> 'w HunkTrackerActor \<Rightarrow> 'w HunkTrackerActor" where
  "rekey_paths_for_working_dir env new_cwd a =
     (if new_cwd = working_dir a then a
      else let old = working_dir a;
               pairs = entries (path_order env) (file_states a);
               already = filter (\<lambda>(path, st). starts_with path new_cwd) pairs;
               moved = filter (\<lambda>(path, st). \<not> starts_with path new_cwd) pairs;
               kept = fold (\<lambda>(path, st). let p = rekey_path old new_cwd path in AList.update p (set_hunk_paths p st)) already [] in
           a\<lparr>file_states := fold (merge_rekeyed old new_cwd) moved kept,
             git_dirty_cache := remdups (map (rekey_path old new_cwd) (git_dirty_cache a)),
             git_staged_cache := remdups (map (rekey_path old new_cwd) (git_staged_cache a))\<rparr>)"

definition set_working_dir :: "'w TrackerEnv \<Rightarrow> PathBuf \<Rightarrow> 'w HunkTrackerActor \<Rightarrow> 'w HunkTrackerActor" where
  "set_working_dir env dir a =
     (rekey_paths_for_working_dir env dir a)
       \<lparr>working_dir := dir, git_repo_state := Unknown, repo_sync_state := \<lparr>head_oid = None, index_mtime = None\<rparr>\<rparr>"

section \<open>Commands\<close>

datatype HunkTrackerCommand =
    RecordAgentWrite PathBuf string nat "string option"
  | HandleFileChange PathBuf
  | HandleFileDeleted PathBuf
  | RefreshGitDirtyCache
  | ResetBaseline PathBuf
  | SetMode TrackingMode
  | SetWorkingDir PathBuf
  | HunkActionCmd HunkId HunkAction
  | FileAction PathBuf HunkAction
  | AllAction HunkAction
  | TurnAction nat HunkAction
  | GetAllHunks
  | GetHunksForPath PathBuf
  | GetFileHunkData PathBuf
  | GetHunksBySource HunkSourceFilter
  | GetHunk HunkId
  | IsAgentFile PathBuf
  | GetAllTrackedPaths
  | GetStagedFiles
  | GetAllFileContents
  | GetSessionSummary
  | GetTurnHunks nat
  | ResetStats
  | RefreshAllBaselines
  | SnapshotState
  | SnapshotTurnDelta nat
  | RestoreState HunkTrackerSnapshot

datatype TrackerReply =
    Silent
  | ActionReply "HunkActionError option"
  | AffectedReply "HunkActionError + HunkId list"
  | HunksReply "TrackedHunk list"
  | DataReply FileHunkData
  | HunkReply "TrackedHunk option"
  | BoolReply bool
  | PathsReply "PathBuf list"
  | ContentsReply "FileContentEntry list"
  | SummaryReply SessionSummary
  | SnapshotReply HunkTrackerSnapshot
  | DeltaReply HunkTurnDelta

fun tracker_command :: "'w TrackerEnv \<Rightarrow> HunkTrackerCommand \<Rightarrow> 'w HunkTrackerActor \<Rightarrow> 'w HunkTrackerActor \<times> TrackerReply" where
  "tracker_command env (RecordAgentWrite path content i previous) a = (record_agent_write env path content i previous a, Silent)"
| "tracker_command env (HandleFileChange path) a = (handle_file_change env path a, Silent)"
| "tracker_command env (HandleFileDeleted path) a = (handle_file_deleted env path a, Silent)"
| "tracker_command env RefreshGitDirtyCache a = (refresh_git_dirty_cache env None a, Silent)"
| "tracker_command env (ResetBaseline path) a = (reset_baseline path a, Silent)"
| "tracker_command env (SetMode mode) a = (set_mode env mode a, Silent)"
| "tracker_command env (SetWorkingDir dir) a = (set_working_dir env dir a, Silent)"
| "tracker_command env (HunkActionCmd hid action) a = map_prod id ActionReply (apply_hunk_action env hid action a)"
| "tracker_command env (FileAction path action) a = map_prod id AffectedReply (apply_file_action env path action a)"
| "tracker_command env (AllAction action) a = map_prod id AffectedReply (apply_all_action env action a)"
| "tracker_command env (TurnAction i action) a = map_prod id AffectedReply (apply_turn_action env i action a)"
| "tracker_command env GetAllHunks a = (a, HunksReply (get_all_hunks env a))"
| "tracker_command env (GetHunksForPath path) a = (a, HunksReply (get_hunks_for_path path a))"
| "tracker_command env (GetFileHunkData path) a = (a, DataReply (get_file_hunk_data path a))"
| "tracker_command env (GetHunksBySource f) a = (a, HunksReply (get_hunks_by_source env f a))"
| "tracker_command env (GetHunk hid) a = (a, HunkReply (get_hunk env hid a))"
| "tracker_command env (IsAgentFile path) a = (a, BoolReply (is_agent_path path a))"
| "tracker_command env GetAllTrackedPaths a = (a, PathsReply (get_all_tracked_paths env a))"
| "tracker_command env GetStagedFiles a = (a, PathsReply (get_staged_files a))"
| "tracker_command env GetAllFileContents a = (a, ContentsReply (get_all_file_contents env a))"
| "tracker_command env GetSessionSummary a = (a, SummaryReply (compute_session_summary env a))"
| "tracker_command env (GetTurnHunks i) a = (a, HunksReply (get_hunks_for_turn env i a))"
| "tracker_command env ResetStats a = (a\<lparr>session_stats := no_stats\<rparr>, Silent)"
| "tracker_command env RefreshAllBaselines a = (refresh_all_baselines env a, Silent)"
| "tracker_command env SnapshotState a = (a, SnapshotReply (take_snapshot a))"
| "tracker_command env (SnapshotTurnDelta i) a = (a, DeltaReply (take_turn_delta i a))"
| "tracker_command env (RestoreState snap) a = (restore_tracker snap a, Silent)"

section \<open>Coalescing\<close>

datatype CoalescedPathAction = Changed | Deleted | DeletedThenChanged

record CoalescedBatch =
  file_actions :: "(PathBuf \<times> CoalescedPathAction) list"
  refresh_all :: bool
  refresh_dirty :: bool
  other_commands :: "HunkTrackerCommand list"
  command_count :: nat

definition batch_new :: CoalescedBatch where
  "batch_new = \<lparr>file_actions = [], refresh_all = False, refresh_dirty = False, other_commands = [], command_count = 0\<rparr>"

definition changed_action :: "CoalescedPathAction option \<Rightarrow> CoalescedPathAction" where
  "changed_action old = (case old of None \<Rightarrow> Changed | Some Deleted \<Rightarrow> DeletedThenChanged | Some act \<Rightarrow> act)"

fun batch_entry :: "HunkTrackerCommand \<Rightarrow> CoalescedBatch \<Rightarrow> CoalescedBatch" where
  "batch_entry (HandleFileChange path) b =
     b\<lparr>file_actions := AList.update path (changed_action (map_of (file_actions b) path)) (file_actions b)\<rparr>"
| "batch_entry (HandleFileDeleted path) b = b\<lparr>file_actions := AList.update path Deleted (file_actions b)\<rparr>"
| "batch_entry RefreshAllBaselines b = b\<lparr>refresh_all := True\<rparr>"
| "batch_entry RefreshGitDirtyCache b = b\<lparr>refresh_dirty := True\<rparr>"
| "batch_entry cmd b = b\<lparr>other_commands := other_commands b @ [cmd]\<rparr>"

definition batch_add :: "HunkTrackerCommand \<Rightarrow> CoalescedBatch \<Rightarrow> CoalescedBatch" where
  "batch_add cmd b = batch_entry cmd (b\<lparr>command_count := command_count b + 1\<rparr>)"

fun is_coalescable :: "HunkTrackerCommand \<Rightarrow> bool" where
  "is_coalescable (HandleFileChange _) = True"
| "is_coalescable (HandleFileDeleted _) = True"
| "is_coalescable RefreshAllBaselines = True"
| "is_coalescable RefreshGitDirtyCache = True"
| "is_coalescable _ = False"

definition drain_and_coalesce :: "HunkTrackerCommand list \<Rightarrow> CoalescedBatch" where
  "drain_and_coalesce cmds = fold batch_add cmds batch_new"

fun batch_before_refresh ::
    "'w TrackerEnv \<Rightarrow> (PathBuf \<times> CoalescedPathAction) list \<Rightarrow> 'w HunkTrackerActor \<Rightarrow> 'w HunkTrackerActor \<times> PathBuf list" where
  "batch_before_refresh env [] a = (a, [])"
| "batch_before_refresh env ((path, action) # rest) a =
     (let tracked = file_of a path \<noteq> None in
      if action = Deleted
      then batch_before_refresh env rest (if tracked then handle_file_deleted env path a else a)
      else if tracked then batch_before_refresh env rest a
      else let (a, processed) = batch_before_refresh env rest (handle_file_change env path a) in (a, path # processed))"

definition batch_files :: "'w TrackerEnv \<Rightarrow> (PathBuf \<times> CoalescedPathAction) list \<Rightarrow> 'w HunkTrackerActor \<Rightarrow> 'w HunkTrackerActor" where
  "batch_files env actions a =
     handle_file_changes_batch env (map fst (filter (\<lambda>(path, action). action \<noteq> Deleted) actions))
       (fold (handle_file_deleted env) (map fst (filter (\<lambda>(path, action). action = Deleted) actions)) a)"

fun run_commands_in_order ::
    "'w TrackerEnv \<Rightarrow> HunkTrackerCommand list \<Rightarrow> 'w HunkTrackerActor \<Rightarrow> 'w HunkTrackerActor \<times> TrackerReply list" where
  "run_commands_in_order env [] a = (a, [])"
| "run_commands_in_order env (cmd # cmds) a =
     (let (a, r) = tracker_command env cmd a; (a, rs) = run_commands_in_order env cmds a in (a, r # rs))"

definition handle_coalesced_batch ::
    "'w TrackerEnv \<Rightarrow> CoalescedBatch \<Rightarrow> 'w HunkTrackerActor \<Rightarrow> 'w HunkTrackerActor \<times> TrackerReply list" where
  "handle_coalesced_batch env b a =
     (let a = (if refresh_dirty b \<and> \<not> refresh_all b then refresh_git_dirty_cache env None a else a);
          actions = entries (path_order env) (file_actions b);
          a = (if refresh_all b
               then let (a, processed) = batch_before_refresh env actions a in refresh_all_baselines_except env processed a
               else batch_files env actions a) in
      run_commands_in_order env (other_commands b) a)"

text \<open>
  One pass of the loop over the commands that wait: a command that can be coalesced takes all others with it.
  Between two passes the world may become any other.
\<close>

fun run_queue ::
    "'w TrackerEnv \<Rightarrow> HunkTrackerCommand list \<Rightarrow> 'w HunkTrackerActor \<Rightarrow> 'w HunkTrackerActor \<times> TrackerReply list" where
  "run_queue env [] a = (a, [])"
| "run_queue env (cmd # cmds) a =
     (if is_coalescable cmd then handle_coalesced_batch env (drain_and_coalesce (cmd # cmds)) a
      else let (a, r) = tracker_command env cmd a; (a, rs) = run_queue env cmds a in (a, r # rs))"

datatype 'w TrackerStep = Outside 'w | Receive "HunkTrackerCommand list"

definition tracker_start :: "'w TrackerEnv \<Rightarrow> PathBuf \<Rightarrow> TrackingMode \<Rightarrow> 'w \<Rightarrow> 'w HunkTrackerActor" where
  "tracker_start env dir mode w =
     (let a = tracker_new dir mode w in if mode = AllDirty then refresh_git_dirty_cache env None a else a)"

fun run_tracker ::
    "'w TrackerEnv \<Rightarrow> 'w TrackerStep list \<Rightarrow> 'w HunkTrackerActor \<Rightarrow> 'w HunkTrackerActor \<times> TrackerReply list" where
  "run_tracker env [] a = (a, [])"
| "run_tracker env (Outside w # steps) a = run_tracker env steps (a\<lparr>world := w\<rparr>)"
| "run_tracker env (Receive cmds # steps) a =
     (let (a, rs) = run_queue env cmds a; (a, more) = run_tracker env steps a in (a, rs @ more))"

end
