(* ===== verification/Hunk_Patch.thy ===== *)
theory Hunk_Patch
  imports Hunk_Actor
begin

text \<open>
  The hunks of a file describe the change exactly. For texts with Unix line ends, patching the baseline with all
  hunks gives the current content, and patching the current content back gives the baseline, which is what
  accepting and rejecting a whole file does. The places where the patching of lines loses a line end are shown
  by example.
\<close>

section \<open>Texts of whole lines\<close>

definition unlines :: "string list \<Rightarrow> string" where
  "unlines ls = concat (map (\<lambda>l. l @ [nl]) ls)"

definition plain_line :: "string \<Rightarrow> bool" where
  "plain_line l \<longleftrightarrow> nl \<notin> set l \<and> cr \<notin> set l"

lemma unlines_simps [simp]:
  "unlines [] = []" "unlines (l # ls) = l @ nl # unlines ls" "unlines (ls @ ms) = unlines ls @ unlines ms"
  by (simp_all add: unlines_def)

lemma unlines_Nil [simp]: "unlines ls = [] \<longleftrightarrow> ls = []"
  by (cases ls) auto

lemma split_unlines: "list_all plain_line ls \<Longrightarrow> split_on (\<lambda>c. c = nl) (unlines ls) = ls @ [[]]"
proof (induction ls)
  case (Cons l ls)
  then have "\<forall>c\<in>set l. c \<noteq> nl" by (auto simp: plain_line_def)
  then show ?case using Cons split_on_append_sep [of l "\<lambda>c. c = nl" nl] by simp
qed simp

lemma strip_cr_plain [simp]: "plain_line l \<Longrightarrow> strip_cr l = l"
  by (cases "strip_suffix [cr] l") (auto simp: strip_cr_def strip_suffix_Some plain_line_def)

lemma str_lines_unlines: "list_all plain_line ls \<Longrightarrow> str_lines (unlines ls) = ls"
  by (auto simp: str_lines_def split_unlines Let_def list_all_iff intro: map_idI)

lemma ends_with_unlines: "ls \<noteq> [] \<Longrightarrow> ends_with (unlines ls) [nl]"
  by (cases ls rule: rev_cases) (auto simp: ends_with_iff)

lemma join_unlines: "ls \<noteq> [] \<Longrightarrow> join [nl] ls @ [nl] = unlines ls"
  by (induction "[nl]" ls rule: join.induct) auto

lemma join_empty: "join [nl] ls = [] \<longleftrightarrow> ls = [] \<or> ls = [[]]"
  by (induction "[nl]" ls rule: join.induct) auto

lemma patch_lines_unlines:
  assumes "list_all plain_line ls" and "list_all plain_line ins" and "ls \<noteq> []"
    and "take (start - 1) ls @ ins @ drop (start - 1 + n) ls \<noteq> [[]]"
  shows "patch_lines (unlines ls) start n (unlines ins) = unlines (take (start - 1) ls @ ins @ drop (start - 1 + n) ls)"
proof -
  let ?r = "take (start - 1) ls @ ins @ drop (start - 1 + n) ls"
  have cut: "take (min (start - 1) (length ls)) ls = take (start - 1) ls"
    "drop (min (start - 1 + n) (length ls)) ls = drop (start - 1 + n) ls"
    by (simp_all add: min_def)
  have ins: "(if unlines ins \<noteq> [] then str_lines (unlines ins) else []) = ins"
    using assms(2) by (auto simp: str_lines_unlines)
  have "patch_lines (unlines ls) start n (unlines ins) =
      (if join [nl] ?r \<noteq> [] then join [nl] ?r @ [nl] else join [nl] ?r)"
    unfolding patch_lines_def Let_def str_lines_unlines [OF assms(1)] cut ins
    using ends_with_unlines [OF assms(3)] by simp
  then show ?thesis using assms(4) by (auto simp: join_empty join_unlines)
qed

text \<open>The same for lines that carry their line end, as the differ delivers them.\<close>

definition whole_line :: "string \<Rightarrow> bool" where
  "whole_line v \<longleftrightarrow> v \<noteq> [] \<and> last v = nl \<and> plain_line (butlast v)"

lemma whole_line_ends: "whole_line v \<Longrightarrow> butlast v @ [nl] = v"
  by (metis append_butlast_last_id whole_line_def)

lemma whole_lines_unlines: "list_all whole_line vs \<Longrightarrow> concat vs = unlines (map butlast vs)"
  by (induction vs) (auto dest: whole_line_ends)

lemma whole_lines_plain: "list_all whole_line vs \<Longrightarrow> list_all plain_line (map butlast vs)"
  by (auto simp: list_all_iff whole_line_def)

lemma patch_whole_lines:
  assumes "list_all whole_line vs" and "list_all whole_line ins" and "vs \<noteq> []"
    and "take (start - 1) vs @ ins @ drop (start - 1 + n) vs \<noteq> [[nl]]"
  shows "patch_lines (concat vs) start n (concat ins) = concat (take (start - 1) vs @ ins @ drop (start - 1 + n) vs)"
proof -
  let ?r = "take (start - 1) vs @ ins @ drop (start - 1 + n) vs"
  have whole: "list_all whole_line ?r"
    using assms(1,2) by (auto simp: list_all_iff dest: in_set_takeD in_set_dropD)
  have "map butlast ?r \<noteq> [[]]"
  proof
    assume "map butlast ?r = [[]]"
    then obtain v where v: "?r = [v]" "butlast v = []" unfolding map_eq_Cons_conv by auto
    then have "whole_line v" using whole by simp
    then have "v = [nl]" using whole_line_ends [of v] v(2) by simp
    then show False using v assms(4) by simp
  qed
  then have "patch_lines (unlines (map butlast vs)) start n (unlines (map butlast ins)) = unlines (map butlast ?r)"
    using patch_lines_unlines [of "map butlast vs" "map butlast ins" start n] assms(1-3)
    by (simp add: whole_lines_plain take_map drop_map)
  then show ?thesis using whole assms(1,2) by (simp only: whole_lines_unlines)
qed

section \<open>Both sides of the changes\<close>

definition old_side :: "changes \<Rightarrow> string list" where
  "old_side ch = map snd (filter (\<lambda>(t, l). t \<noteq> Insert) ch)"

definition new_side :: "changes \<Rightarrow> string list" where
  "new_side ch = map snd (filter (\<lambda>(t, l). t \<noteq> Delete) ch)"

definition kept_lines :: "changes \<Rightarrow> string list" where
  "kept_lines ch = map snd (filter (\<lambda>(t, l). t = Equal) ch)"

lemma side_simps [simp]:
  "old_side [] = []" "new_side [] = []" "kept_lines [] = []"
  "old_side ((Equal, l) # ch) = l # old_side ch" "new_side ((Equal, l) # ch) = l # new_side ch"
  "old_side ((Delete, l) # ch) = l # old_side ch" "new_side ((Delete, l) # ch) = new_side ch"
  "old_side ((Insert, l) # ch) = old_side ch" "new_side ((Insert, l) # ch) = l # new_side ch"
  "kept_lines ((Equal, l) # ch) = l # kept_lines ch"
  "kept_lines ((Delete, l) # ch) = kept_lines ch" "kept_lines ((Insert, l) # ch) = kept_lines ch"
  by (simp_all add: old_side_def new_side_def kept_lines_def)

fun flip_tag :: "ChangeTag \<Rightarrow> ChangeTag" where
  "flip_tag Equal = Equal"
| "flip_tag Delete = Insert"
| "flip_tag Insert = Delete"

definition flip_changes :: "changes \<Rightarrow> changes" where
  "flip_changes = map (\<lambda>(t, l). (flip_tag t, l))"

definition flip_builder :: "HunkBuilder \<Rightarrow> HunkBuilder" where
  "flip_builder b =
     \<lparr>hb_old_start = hb_new_start b, hb_new_start = hb_old_start b,
      hb_old_lines = hb_new_lines b, hb_new_lines = hb_old_lines b\<rparr>"

lemma flip_sides:
  "old_side (flip_changes ch) = new_side ch \<and> new_side (flip_changes ch) = old_side ch
 \<and> kept_lines (flip_changes ch) = kept_lines ch"
proof (induction ch)
  case (Cons x ch)
  then show ?case by (cases x; cases "fst x") (auto simp: flip_changes_def)
qed (simp add: flip_changes_def)

lemma flip_adds:
  "flip_builder (add_old_line l b) = add_new_line l (flip_builder b)"
  "flip_builder (add_new_line l b) = add_old_line l (flip_builder b)"
  "flip_builder (in_progress cur m k) = in_progress (map_option flip_builder cur) k m"
  by (simp_all add: flip_builder_def add_old_line_def add_new_line_def in_progress_def builder_new_def split: option.split)

lemma collect_flip:
  "collect_hunks (flip_changes ch) k m (map_option flip_builder cur) = map flip_builder (collect_hunks ch m k cur)"
proof (induction ch m k cur rule: collect_hunks.induct)
  case (2 line changes old_line new_line cur)
  then show ?case by (auto simp: flip_changes_def split: option.split)
next
  case (3 line changes old_line new_line cur)
  then show ?case by (simp add: flip_changes_def flip_adds)
next
  case (4 line changes old_line new_line cur)
  then show ?case by (simp add: flip_changes_def flip_adds)
qed (auto simp: flip_changes_def split: option.split)

section \<open>Patching with all hunks\<close>

definition patch_with :: "HunkBuilder \<Rightarrow> string \<Rightarrow> string" where
  "patch_with b s = patch_lines s (hb_old_start b) (length (hb_old_lines b)) (concat (hb_new_lines b))"

text \<open>
  The state of the collecting loop: \<open>before\<close> are the old lines before the hunk in progress, \<open>gone\<close> and \<open>come\<close> its lines.
\<close>

definition collecting :: "HunkBuilder option \<Rightarrow> string list \<Rightarrow> string list \<Rightarrow> string list \<Rightarrow> bool" where
  "collecting cur before gone come \<longleftrightarrow>
     (case cur of
        None \<Rightarrow> gone = [] \<and> come = []
      | Some b \<Rightarrow> hb_old_start b = length before + 1 \<and> hb_old_lines b = gone \<and> hb_new_lines b = come)"

lemma collecting_steps:
  "collecting cur before gone come \<Longrightarrow> k = length before + length gone + 1 \<Longrightarrow>
     collecting (Some (add_old_line l (in_progress cur k m))) before (gone @ [l]) come"
  "collecting cur before gone come \<Longrightarrow> k = length before + length gone + 1 \<Longrightarrow>
     collecting (Some (add_new_line l (in_progress cur k m))) before gone (come @ [l])"
  by (auto simp: collecting_def add_old_line_def add_new_line_def in_progress_def builder_new_def split: option.splits)

lemma patch_one:
  assumes "collecting (Some b) before gone come" and "list_all whole_line (before @ gone @ come @ after)"
    and "before @ gone @ after \<noteq> []" and "before @ come @ after \<noteq> [[nl]]"
  shows "patch_with b (concat (before @ gone @ after)) = concat (before @ come @ after)"
  using patch_whole_lines [of "before @ gone @ after" come "length before + 1" "length gone"] assms
  by (simp add: patch_with_def collecting_def)

lemma patch_all:
  assumes "collecting cur before gone come"
    and "list_all whole_line (before @ gone @ come)" and "list_all (\<lambda>(t, v). whole_line v) ch"
    and "before @ gone @ old_side ch \<noteq> []" and "before @ come @ new_side ch \<noteq> [[nl]]"
    and "before @ gone = [] \<Longrightarrow> kept_lines ch \<noteq> [[nl]]"
    and "k = length before + length gone + 1"
  shows "fold patch_with (rev (collect_hunks ch k m cur)) (concat (before @ gone @ old_side ch))
       = concat (before @ come @ new_side ch)"
  using assms
proof (induction ch k m cur arbitrary: before gone come rule: collect_hunks.induct)
  case (1 k m cur)
  then show ?case
    using patch_one [of "the cur" before gone come "[]"] by (cases cur) (auto simp: collecting_def)
next
  case (2 l ch k m cur)
  let ?patched = "concat (before @ gone @ [l] @ new_side ch)"
  have "fold patch_with (rev (collect_hunks ch (k + 1) (m + 1) None)) (concat ((before @ gone @ [l]) @ [] @ old_side ch))
      = concat ((before @ gone @ [l]) @ [] @ new_side ch)"
  proof (rule 2(1))
    show "(before @ gone @ [l]) @ [] @ new_side ch \<noteq> [[nl]]"
    proof
      assume "(before @ gone @ [l]) @ [] @ new_side ch = [[nl]]"
      then have "before @ gone = []" "l = [nl]" "new_side ch = []" by (auto simp: append_eq_Cons_conv)
      moreover have "kept_lines ch = []" using \<open>new_side ch = []\<close>
        by (auto simp: new_side_def kept_lines_def filter_empty_conv)
      ultimately show False using 2(7) by simp
    qed
  qed (use 2 in \<open>auto simp: collecting_def\<close>)
  then have rest: "fold patch_with (rev (collect_hunks ch (k + 1) (m + 1) None)) (concat (before @ gone @ l # old_side ch)) = ?patched"
    by simp
  show ?case
  proof (cases cur)
    case None
    then show ?thesis using rest 2(2) by (simp add: collecting_def)
  next
    case (Some b)
    have whole: "list_all whole_line (l # new_side ch)"
      using 2(4) by (auto simp: list_all_iff new_side_def)
    have "patch_with b (concat (before @ gone @ l # new_side ch)) = concat (before @ come @ l # new_side ch)"
      using 2(2,3,6) whole Some by (intro patch_one) auto
    then show ?thesis using rest Some by simp
  qed
next
  case (3 l ch k m cur)
  then show ?case
    using 3(1) [of before "gone @ [l]" come] collecting_steps(1) [of cur before gone come k l m] by auto
next
  case (4 l ch k m cur)
  then show ?case
    using 4(1) [of before gone "come @ [l]"] collecting_steps(2) [of cur before gone come k l m] by auto
qed

lemma collect_starts:
  "case_option True (\<lambda>b. hb_old_start b \<le> k) cur \<Longrightarrow>
     sorted_wrt (<) (map hb_old_start (collect_hunks ch k m cur))
   \<and> (\<forall>x\<in>set (collect_hunks ch k m cur). case_option k hb_old_start cur \<le> hb_old_start x)"
proof (induction ch k m cur rule: collect_hunks.induct)
  case (2 l ch k m cur)
  then show ?case by (cases cur) fastforce+
next
  case (3 l ch k m cur)
  then show ?case by (cases cur) (auto simp: add_old_line_def in_progress_def builder_new_def)
next
  case (4 l ch k m cur)
  then show ?case by (cases cur) (auto simp: add_new_line_def in_progress_def builder_new_def)
qed (auto split: option.splits)

lemma collect_sorted: "sorted_wrt (<) (map hb_old_start (collect_hunks ch 1 1 None))"
  using collect_starts [of 1 None ch 1] by simp

lemma collect_sorted_new: "sorted_wrt (<) (map hb_new_start (collect_hunks ch 1 1 None))"
  using collect_sorted [of "flip_changes ch"] collect_flip [of ch 1 1 None]
  by (simp add: comp_def flip_builder_def)

lemma insort_greatest: "\<forall>y\<in>set ys. f y < f x \<Longrightarrow> insort_key f x ys = ys @ [x]"
  by (induction ys) auto

lemma sort_descending:
  fixes f :: "'a \<Rightarrow> nat"
  shows "sorted_wrt (<) (map f xs) \<Longrightarrow> sort_key (\<lambda>x. - int (f x)) xs = rev xs"
  by (induction xs) (auto simp: insort_greatest)

section \<open>Hunks and builders\<close>

definition hunk_shape :: "TrackedHunk \<Rightarrow> PathBuf \<times> HunkLineInfo \<times> string option \<times> string" where
  "hunk_shape h = (hunk_path h, line_info h, old_text h, new_text h)"

definition builder_shape :: "PathBuf \<Rightarrow> HunkBuilder \<Rightarrow> PathBuf \<times> HunkLineInfo \<times> string option \<times> string" where
  "builder_shape path b =
     (path,
      \<lparr>old_start = hb_old_start b, old_count = length (hb_old_lines b), new_start = hb_new_start b, new_count = length (hb_new_lines b)\<rparr>,
      if hb_old_lines b = [] then None else Some (concat (hb_old_lines b)), concat (hb_new_lines b))"

lemma build_all_shapes: "map hunk_shape (build_all env n path source bs) = map (builder_shape path) bs"
  by (induction bs arbitrary: n) (simp_all add: build_hunk_def hunk_shape_def builder_shape_def)

lemma accept_patch_shape:
  "hunk_shape h = builder_shape path b \<Longrightarrow> accept_patch h (Full s) = Full (patch_with b s)"
  by (simp add: hunk_shape_def builder_shape_def accept_patch_def patch_with_def)

lemma revert_patch_shape:
  "hunk_shape h = builder_shape path b \<Longrightarrow> revert_patch h s = patch_with (flip_builder b) s"
  by (auto simp: hunk_shape_def builder_shape_def revert_patch_def patch_with_def flip_builder_def)

lemma accept_all_shapes:
  "map hunk_shape hs = map (builder_shape path) bs \<Longrightarrow> fold accept_patch hs (Full s) = Full (fold patch_with bs s)"
proof (induction hs arbitrary: bs s)
  case (Cons h hs)
  then obtain b rest where "bs = b # rest" "hunk_shape h = builder_shape path b"
    "map hunk_shape hs = map (builder_shape path) rest" by (auto simp: Cons_eq_map_conv)
  then show ?case using Cons.IH by (simp add: accept_patch_shape)
qed simp

lemma revert_all_shapes:
  "map hunk_shape hs = map (builder_shape path) bs \<Longrightarrow> fold revert_patch hs s = fold patch_with (map flip_builder bs) s"
proof (induction hs arbitrary: bs s)
  case (Cons h hs)
  then obtain b rest where "bs = b # rest" "hunk_shape h = builder_shape path b"
    "map hunk_shape hs = map (builder_shape path) rest" by (auto simp: Cons_eq_map_conv)
  then show ?case using Cons.IH by (simp add: revert_patch_shape)
qed simp

section \<open>The differ\<close>

text \<open>
  What the \<open>similar\<close> crate documents of a diff by lines, for texts whose lines all end in a line feed: the values of
  the changes are whole lines with their line ends, those that are not inserted make up the old text and those
  that are not deleted the new one.
\<close>

definition unix_text :: "string \<Rightarrow> bool" where
  "unix_text s \<longleftrightarrow> cr \<notin> set s \<and> (s = [] \<or> last s = nl)"

definition line_differ :: "DiffEnv \<Rightarrow> bool" where
  "line_differ env \<longleftrightarrow>
     (\<forall>old new. unix_text old \<longrightarrow> unix_text new \<longrightarrow>
        list_all (\<lambda>(t, v). whole_line v) (diff_lines env old new)
      \<and> concat (old_side (diff_lines env old new)) = old \<and> concat (new_side (diff_lines env old new)) = new)"

lemma flip_whole: "list_all (\<lambda>(t, v). whole_line v) (flip_changes ch) = list_all (\<lambda>(t, v). whole_line v) ch"
  by (auto simp: flip_changes_def list_all_iff)

lemma patch_forward:
  assumes "list_all (\<lambda>(t, v). whole_line v) ch" and "concat (old_side ch) = s" and "concat (new_side ch) = t"
    and "s \<noteq> []" and "t \<noteq> [nl]" and "kept_lines ch \<noteq> [[nl]]"
  shows "fold patch_with (rev (collect_hunks ch 1 1 None)) s = t"
proof -
  have "old_side ch \<noteq> []" "new_side ch \<noteq> [[nl]]" using assms(2-5) by auto
  then show ?thesis using patch_all [of None "[]" "[]" "[]" ch 1 1] assms by (simp add: collecting_def)
qed

lemma patch_backward:
  assumes "list_all (\<lambda>(t, v). whole_line v) ch" and "concat (old_side ch) = s" and "concat (new_side ch) = t"
    and "t \<noteq> []" and "s \<noteq> [nl]" and "kept_lines ch \<noteq> [[nl]]"
  shows "fold patch_with (map flip_builder (rev (collect_hunks ch 1 1 None))) t = s"
  using patch_forward [of "flip_changes ch" t s] assms collect_flip [of ch 1 1 None]
  by (simp add: flip_whole flip_sides rev_map)

lemma accept_all_text:
  assumes "line_differ env" and "unix_text b" and "unix_text c" and "b \<noteq> []" and "c \<noteq> [nl]"
    and "kept_lines (diff_lines env b c) \<noteq> [[nl]]"
    and "map hunk_shape hs = map (builder_shape path) (collect_hunks (diff_lines env b c) 1 1 None)"
  shows "fold accept_patch (sort_key (\<lambda>h. - int (old_start (line_info h))) hs) (Full b) = Full c"
proof -
  let ?bs = "collect_hunks (diff_lines env b c) 1 1 None"
  have "map (\<lambda>h. old_start (line_info h)) hs = map hb_old_start ?bs"
    using arg_cong [OF assms(7), of "map (\<lambda>(p, i, ot, nt). old_start i)"]
    by (simp add: hunk_shape_def builder_shape_def comp_def)
  then have "sort_key (\<lambda>h. - int (old_start (line_info h))) hs = rev hs"
    using collect_sorted by (intro sort_descending) (simp add: comp_def)
  moreover have "map hunk_shape (rev hs) = map (builder_shape path) (rev ?bs)"
    using assms(7) by (simp flip: rev_map)
  ultimately show ?thesis
    using accept_all_shapes [of "rev hs" path "rev ?bs" b] patch_forward [of "diff_lines env b c" b c] assms(1-6)
    by (auto simp: line_differ_def)
qed

lemma revert_all_text:
  assumes "line_differ env" and "unix_text b" and "unix_text c" and "c \<noteq> []" and "b \<noteq> [nl]"
    and "kept_lines (diff_lines env b c) \<noteq> [[nl]]"
    and "map hunk_shape hs = map (builder_shape path) (collect_hunks (diff_lines env b c) 1 1 None)"
  shows "fold revert_patch (sort_key (\<lambda>h. - int (new_start (line_info h))) hs) c = b"
proof -
  let ?bs = "collect_hunks (diff_lines env b c) 1 1 None"
  have "map (\<lambda>h. new_start (line_info h)) hs = map hb_new_start ?bs"
    using arg_cong [OF assms(7), of "map (\<lambda>(p, i, ot, nt). new_start i)"]
    by (simp add: hunk_shape_def builder_shape_def comp_def)
  then have "sort_key (\<lambda>h. - int (new_start (line_info h))) hs = rev hs"
    using collect_sorted_new by (intro sort_descending) (simp add: comp_def)
  moreover have "map hunk_shape (rev hs) = map (builder_shape path) (rev ?bs)"
    using assms(7) by (simp flip: rev_map)
  ultimately show ?thesis
    using revert_all_shapes [of "rev hs" path "rev ?bs" c] patch_backward [of "diff_lines env b c" b c] assms(1-6)
    by (auto simp: line_differ_def)
qed

section \<open>Where the patching of lines loses a line end\<close>

text \<open>Accepted on an empty baseline, a line loses its line end, so the next comparison finds a difference again.\<close>

lemma empty_baseline_loses_newline: "patch_lines [] 1 0 (unlines [''x'']) = ''x''"
  by (simp add: patch_lines_def Let_def str_lines_unlines [of "[''x'']", simplified] plain_line_def ends_with_iff str_lines_def)

text \<open>An empty line that alone remains is written as nothing.\<close>

lemma lone_blank_line_lost: "patch_lines (unlines [[], ''x'']) 2 1 [] = []"
proof -
  have "str_lines (unlines [[], ''x'']) = [[], ''x'']" by (rule str_lines_unlines) (simp add: plain_line_def)
  then show ?thesis by (simp add: patch_lines_def del: unlines_simps)
qed

text \<open>Lines that end in a carriage return and a line feed come back with a line feed only, also those outside of the hunk.\<close>

lemma crlf_rewritten: "patch_lines (''a'' @ [cr, nl] @ ''b'' @ [cr, nl]) 2 1 (''c'' @ [cr, nl]) = unlines [''a'', ''c'']"
proof -
  have "str_lines (''a'' @ [cr, nl] @ ''b'' @ [cr, nl]) = [''a'', ''b'']" "str_lines (''c'' @ [cr, nl]) = [''c'']"
    by code_simp+
  then show ?thesis by (simp add: patch_lines_def ends_with_iff)
qed

end
