(* ===== verification/Hunk_Consistency.thy ===== *)
theory Hunk_Consistency
  imports Hunk_Patch
begin

text \<open>
  The consistency of the hunk tracker's state: identifiers are unique, the index of turns agrees with the hunks,
  and the hunks of a file are those of its baseline and current content. The lemmas show what keeps it:
  recomputing, clearing, untracking, accepting and rejecting.
\<close>

section \<open>Identifiers and the index of turns\<close>

definition indexed :: "(nat \<times> HunkId list) list \<Rightarrow> nat \<Rightarrow> HunkId set" where
  "indexed ti i = (case map_of ti i of Some ids \<Rightarrow> set ids | None \<Rightarrow> {})"

definition ids_of_turn :: "TrackedHunk list \<Rightarrow> nat \<Rightarrow> HunkId set" where
  "ids_of_turn hs i = hunk_id ` {h \<in> set hs. prompt_index (hunk_source h) = Some i}"

lemma indexed_remove: "indexed (index_remove k hid ti) i = (if i = k then indexed ti i - {hid} else indexed ti i)"
proof -
  have "map_of (index_remove k hid ti) i = map_option (\<lambda>ids. if i = k then removeAll hid ids else ids) (map_of ti i)"
    by (induction ti) (auto simp: index_remove_def)
  then show ?thesis by (auto simp: indexed_def split: option.split)
qed

lemma indexed_insert: "indexed (index_insert k hid ti) i = (if i = k then insert hid (indexed ti i) else indexed ti i)"
  by (auto simp: indexed_def index_insert_def update_conv split: option.split)

lemma indexed_unindex: "indexed (fold unindex hs ti) i = indexed ti i - ids_of_turn hs i"
proof (induction hs arbitrary: ti)
  case (Cons h hs)
  then show ?case by (auto simp: unindex_def ids_of_turn_def indexed_remove split: option.splits if_splits)
qed (simp add: ids_of_turn_def)

lemma indexed_reindex: "indexed (fold reindex hs ti) i = indexed ti i \<union> ids_of_turn hs i"
proof (induction hs arbitrary: ti)
  case (Cons h hs)
  then show ?case by (auto simp: reindex_def ids_of_turn_def indexed_insert split: option.splits if_splits)
qed (simp add: ids_of_turn_def)

lemmas indexed_folds = ext [OF indexed_unindex] ext [OF indexed_reindex]

text \<open>
  Every identifier was drawn, no two pending hunks share one, and the index holds a pending hunk exactly under
  the turn that it is attributed to.
\<close>

abbreviation drawn :: "DiffEnv \<Rightarrow> nat \<Rightarrow> HunkId set" where
  "drawn env n \<equiv> new_hunk_id env ` {..<n}"

definition ids_rel :: "DiffEnv \<Rightarrow> (PathBuf \<Rightarrow> TrackedHunk list) \<Rightarrow> (nat \<Rightarrow> HunkId set) \<Rightarrow> nat \<Rightarrow> bool" where
  "ids_rel env at idx n \<longleftrightarrow>
     (\<forall>p. distinct (map hunk_id (at p)) \<and> hunk_id ` set (at p) \<subseteq> drawn env n
        \<and> (\<forall>h\<in>set (at p). \<forall>i. hunk_id h \<in> idx i \<longleftrightarrow> prompt_index (hunk_source h) = Some i))
   \<and> (\<forall>p q. p \<noteq> q \<longrightarrow> hunk_id ` set (at p) \<inter> hunk_id ` set (at q) = {})
   \<and> (\<forall>i. idx i \<subseteq> drawn env n)"

lemma ids_relI:
  assumes "\<And>p. distinct (map hunk_id (at p))"
    and "\<And>p h. h \<in> set (at p) \<Longrightarrow> hunk_id h \<in> drawn env n"
    and "\<And>p h i. h \<in> set (at p) \<Longrightarrow> hunk_id h \<in> idx i \<longleftrightarrow> prompt_index (hunk_source h) = Some i"
    and "\<And>p q h k. p \<noteq> q \<Longrightarrow> h \<in> set (at p) \<Longrightarrow> k \<in> set (at q) \<Longrightarrow> hunk_id h \<noteq> hunk_id k"
    and "\<And>i. idx i \<subseteq> drawn env n"
  shows "ids_rel env at idx n"
  unfolding ids_rel_def using assms by (intro conjI allI impI ballI) auto

lemma ids_relD:
  assumes "ids_rel env at idx n"
  shows "distinct (map hunk_id (at p))"
    and "h \<in> set (at p) \<Longrightarrow> hunk_id h \<in> drawn env n"
    and "h \<in> set (at p) \<Longrightarrow> hunk_id h \<in> idx i \<longleftrightarrow> prompt_index (hunk_source h) = Some i"
    and "p \<noteq> q \<Longrightarrow> h \<in> set (at p) \<Longrightarrow> k \<in> set (at q) \<Longrightarrow> hunk_id h \<noteq> hunk_id k"
    and "idx i \<subseteq> drawn env n"
proof -
  show "p \<noteq> q \<Longrightarrow> h \<in> set (at p) \<Longrightarrow> k \<in> set (at q) \<Longrightarrow> hunk_id h \<noteq> hunk_id k"
    using assms unfolding ids_rel_def by (metis (no_types, lifting) disjoint_iff imageI)
qed (use assms in \<open>auto simp: ids_rel_def\<close>)

lemma ids_of_turnE: "x \<in> ids_of_turn hs i \<Longrightarrow> (\<And>h. h \<in> set hs \<Longrightarrow> x = hunk_id h \<Longrightarrow> prompt_index (hunk_source h) = Some i \<Longrightarrow> R) \<Longrightarrow> R"
  by (auto simp: ids_of_turn_def)

lemma ids_rel_drop:
  assumes rel: "ids_rel env at idx n" and hs: "set hs \<subseteq> set (at p)"
  shows "ids_rel env (at(p := filter (\<lambda>q. hunk_id q \<notin> hunk_id ` set hs) (at p))) (\<lambda>i. idx i - ids_of_turn hs i) n"
    (is "ids_rel env ?at ?idx n")
proof (rule ids_relI)
  have keep: "h \<in> set (at r)" if "h \<in> set (?at r)" for h r using that by (auto split: if_splits)
  show "distinct (map hunk_id (?at r))" for r using ids_relD(1) [OF rel] by (simp add: distinct_map_filter)
  show "hunk_id h \<in> drawn env n" if "h \<in> set (?at r)" for h r using ids_relD(2) [OF rel keep [OF that]] .
  show "hunk_id h \<noteq> hunk_id k" if "r \<noteq> q" "h \<in> set (?at r)" "k \<in> set (?at q)" for r q h k
    using ids_relD(4) [OF rel that(1) keep [OF that(2)] keep [OF that(3)]] .
  show "hunk_id h \<in> ?idx i \<longleftrightarrow> prompt_index (hunk_source h) = Some i" if h: "h \<in> set (?at r)" for h r i
  proof -
    have "hunk_id h \<notin> ids_of_turn hs i"
    proof
      assume "hunk_id h \<in> ids_of_turn hs i"
      then obtain k where k: "k \<in> set hs" "hunk_id h = hunk_id k" by (rule ids_of_turnE)
      show False
      proof (cases "r = p")
        case True
        then show False using h k by auto
      next
        case False
        then show False using ids_relD(4) [OF rel, of p r k h] k hs keep [OF h] by auto
      qed
    qed
    then show ?thesis using ids_relD(3) [OF rel keep [OF h]] by simp
  qed
  show "?idx i \<subseteq> drawn env n" for i using ids_relD(5) [OF rel, of i] by auto
qed

lemma ids_rel_clear: "ids_rel env at idx n \<Longrightarrow> ids_rel env (at(p := [])) idx n"
  by (rule ids_relI) (auto dest: ids_relD split: if_splits)

section \<open>Keeping identifiers\<close>

lemma preserve_ids_shapes: "map hunk_shape (preserve_ids old_hunks claimed hs) = map hunk_shape hs"
  by (induction hs arbitrary: claimed) (auto simp: hunk_shape_def split: option.split)

lemma min_by_key_in: "min_by_key f xs = Some x \<Longrightarrow> x \<in> set xs"
  by (induction xs arbitrary: x) (auto split: option.splits if_splits)

lemma max_by_key_in: "max_by_key f xs = Some x \<Longrightarrow> x \<in> set xs"
  by (induction xs arbitrary: x) (auto split: option.splits if_splits)

lemma find_matching_in: "find_matching_old_hunk h old_hunks = Some q \<Longrightarrow> q \<in> set old_hunks"
  by (auto simp: find_matching_old_hunk_def Let_def split: if_splits dest!: min_by_key_in max_by_key_in)

lemma preserve_ids_ids:
  assumes "distinct (map hunk_id hs)" and "hunk_id ` set hs \<inter> hunk_id ` set old_hunks = {}"
  shows "distinct (map hunk_id (preserve_ids old_hunks claimed hs))
    \<and> hunk_id ` set (preserve_ids old_hunks claimed hs) \<subseteq> hunk_id ` set hs \<union> (hunk_id ` set old_hunks - set claimed)"
  using assms
proof (induction hs arbitrary: claimed)
  case (Cons h hs)
  have IH: "distinct (map hunk_id (preserve_ids old_hunks cl hs))
    \<and> hunk_id ` set (preserve_ids old_hunks cl hs) \<subseteq> hunk_id ` set hs \<union> (hunk_id ` set old_hunks - set cl)" for cl
    using Cons by auto
  show ?case
  proof (cases "find_matching_old_hunk h old_hunks")
    case None
    then show ?thesis using IH [of claimed] Cons.prems by auto
  next
    case (Some q)
    then have "q \<in> set old_hunks" by (rule find_matching_in)
    moreover have "hunk_id q \<notin> hunk_id ` set (preserve_ids old_hunks (hunk_id q # claimed) hs)"
      using \<open>q \<in> set old_hunks\<close> IH [of "hunk_id q # claimed"] Cons.prems(2) by auto
    ultimately show ?thesis using Some IH [of claimed] IH [of "hunk_id q # claimed"] Cons.prems by auto
  qed
qed simp

lemma build_all_ids: "map hunk_id (build_all env n path source bs) = map (new_hunk_id env) [n..<n + length (build_all env n path source bs)]"
  by (induction bs arbitrary: n) (simp_all add: build_hunk_def upt_rec)

lemma fresh_hunks_ids:
  "map hunk_id (fresh_hunks env n path b c source) = map (new_hunk_id env) [n..<n + length (fresh_hunks env n path b c source)]"
  by (auto simp: fresh_hunks_def compute_hunks_def file_created_def file_deleted_def build_all_ids split: FileContentState.split)

lemma distinct_ids_inj: "distinct (map f xs) \<Longrightarrow> x \<in> set xs \<Longrightarrow> y \<in> set xs \<Longrightarrow> f x = f y \<Longrightarrow> x = y"
  by (auto simp: distinct_map dest: inj_onD)

lemma ids_rel_recompute:
  fixes p :: PathBuf
  assumes rel: "ids_rel env at idx n" and inj: "inj (new_hunk_id env)"
    and ids: "map hunk_id hs = map (new_hunk_id env) [n..<n + length hs]"
  defines "new \<equiv> preserve_ids (at p) [] hs"
  shows "ids_rel env (at(p := new)) (\<lambda>i. (idx i - ids_of_turn (at p) i) \<union> ids_of_turn new i) (n + length hs + 1)"
    (is "ids_rel env ?at ?idx ?n")
proof (rule ids_relI)
  have fresh_ids: "hunk_id ` set hs = new_hunk_id env ` {n..<n + length hs}"
    using arg_cong [OF ids, of set] by simp
  then have apart: "hunk_id ` set hs \<inter> drawn env n = {}"
    using inj by (auto dest: injD)
  have "distinct (map hunk_id hs)" unfolding ids by (simp add: distinct_map inj_on_subset [OF inj])
  moreover have known: "hunk_id ` set (at r) \<subseteq> drawn env n" for r using ids_relD(2) [OF rel] by auto
  then have "hunk_id ` set hs \<inter> hunk_id ` set (at p) = {}" using apart known [of p] by blast
  ultimately have new: "distinct (map hunk_id new)" "hunk_id ` set new \<subseteq> hunk_id ` set hs \<union> hunk_id ` set (at p)"
    using preserve_ids_ids [of hs "at p" "[]"] by (simp_all add: new_def)
  have grown: "drawn env n \<subseteq> drawn env ?n" "hunk_id ` set hs \<subseteq> drawn env ?n" using fresh_ids by auto
  have elsewhere: "hunk_id h \<notin> hunk_id ` set new" "hunk_id h \<notin> hunk_id ` set (at p)" if "h \<in> set (at r)" "r \<noteq> p" for h r
  proof -
    show "hunk_id h \<notin> hunk_id ` set (at p)" using ids_relD(4) [OF rel that(2) that(1)] by force
    then show "hunk_id h \<notin> hunk_id ` set new" using new(2) apart ids_relD(2) [OF rel that(1)] by (metis IntI Un_iff empty_iff subsetD)
  qed
  show "distinct (map hunk_id (?at r))" for r using new(1) ids_relD(1) [OF rel] by simp
  have new_drawn: "hunk_id ` set new \<subseteq> drawn env ?n" using new(2) grown known [of p] by (meson Un_least order_trans)
  then show "hunk_id h \<in> drawn env ?n" if "h \<in> set (?at r)" for h r
    using that subsetD [OF grown(1), of "hunk_id h"] known [of r] by (cases "r = p") auto
  show "hunk_id h \<noteq> hunk_id k" if "r \<noteq> q" "h \<in> set (?at r)" "k \<in> set (?at q)" for r q h k
  proof (cases "r = p \<or> q = p")
    case True
    then show ?thesis using that elsewhere(1) by (metis fun_upd_apply imageI)
  next
    case False
    then show ?thesis using that ids_relD(4) [OF rel, of r q] by simp
  qed
  show "?idx i \<subseteq> drawn env ?n" for i
  proof -
    have "ids_of_turn new i \<subseteq> hunk_id ` set new" by (auto simp: ids_of_turn_def)
    then show ?thesis using ids_relD(5) [OF rel, of i] grown(1) new_drawn by (meson Diff_subset Un_least order_trans)
  qed
  show "hunk_id h \<in> ?idx i \<longleftrightarrow> prompt_index (hunk_source h) = Some i" if h: "h \<in> set (?at r)" for h r i
  proof (cases "r = p")
    case True
    then have here: "h \<in> set new" using h by simp
    have "hunk_id h \<notin> idx i - ids_of_turn (at p) i"
    proof
      assume there: "hunk_id h \<in> idx i - ids_of_turn (at p) i"
      then have "hunk_id h \<in> drawn env n" using ids_relD(5) [OF rel, of i] by auto
      then obtain q where "q \<in> set (at p)" "hunk_id h = hunk_id q" using here new(2) apart by blast
      then show False using there ids_relD(3) [OF rel, of q p i] by (auto simp: ids_of_turn_def)
    qed
    moreover have "hunk_id h \<in> ids_of_turn new i \<longleftrightarrow> prompt_index (hunk_source h) = Some i"
      using here distinct_ids_inj [OF new(1) here] by (auto simp: ids_of_turn_def)
    ultimately show ?thesis by blast
  next
    case False
    then show ?thesis using h elsewhere [of h r] ids_relD(3) [OF rel, of h r i] by (auto simp: ids_of_turn_def)
  qed
qed

section \<open>Consistent states\<close>

text \<open>The hunks of a file are those of its baseline and current content, up to identifiers, sources and times.\<close>

definition described :: "DiffEnv \<Rightarrow> PathBuf \<Rightarrow> FileHunkState \<Rightarrow> bool" where
  "described env path st \<longleftrightarrow>
     hunks st = [] \<or>
     (\<exists>n source. map hunk_shape (hunks st) = map hunk_shape (fresh_hunks env n path (baseline st) (current_content st) source))"

definition ids_ok :: "DiffEnv \<Rightarrow> 'w HunkTrackerActor \<Rightarrow> bool" where
  "ids_ok env a \<longleftrightarrow>
     distinct (map fst (file_states a))
   \<and> ids_rel env (\<lambda>p. get_hunks_for_path p a) (indexed (turn_index a)) (draws a)"

definition all_described :: "DiffEnv \<Rightarrow> 'w HunkTrackerActor \<Rightarrow> bool" where
  "all_described env a \<longleftrightarrow> (\<forall>p st. file_of a p = Some st \<longrightarrow> described env p st)"

definition consistent :: "DiffEnv \<Rightarrow> 'w HunkTrackerActor \<Rightarrow> bool" where
  "consistent env a \<longleftrightarrow> ids_ok env a \<and> all_described env a"

lemma set_file_simps [simp]:
  "file_states (set_file p st a) = AList.update p st (file_states a)" "turn_index (set_file p st a) = turn_index a"
  "draws (set_file p st a) = draws a" "tracking_mode (set_file p st a) = tracking_mode a"
  "world (set_file p st a) = world a" "session_stats (set_file p st a) = session_stats a"
  "set_file p st (set_file p st' a) = set_file p st a"
  by (simp_all add: set_file_def update_last)

lemma send_simps [simp]:
  "file_states (send e a) = file_states a" "turn_index (send e a) = turn_index a"
  "draws (send e a) = draws a" "tracking_mode (send e a) = tracking_mode a" "world (send e a) = world a"
  "file_states (send_all es a) = file_states a" "turn_index (send_all es a) = turn_index a"
  "draws (send_all es a) = draws a" "tracking_mode (send_all es a) = tracking_mode a" "world (send_all es a) = world a"
  by (simp_all add: send_def send_all_def)

lemma hunks_for_path_set: "(\<lambda>q. get_hunks_for_path q (set_file p st a)) = (\<lambda>q. get_hunks_for_path q a)(p := hunks st)"
  by (auto simp: get_hunks_for_path_def update_conv' fun_upd_def)

lemma hunks_for_path_simps [simp]:
  "file_of a p = Some st \<Longrightarrow> get_hunks_for_path p a = hunks st"
  "get_hunks_for_path p (send e a) = get_hunks_for_path p a"
  "get_hunks_for_path p (send_all es a) = get_hunks_for_path p a"
  "get_hunks_for_path p (a\<lparr>turn_index := ti\<rparr>) = get_hunks_for_path p a"
  "get_hunks_for_path p (a\<lparr>draws := n\<rparr>) = get_hunks_for_path p a"
  "get_hunks_for_path p (a\<lparr>world := w\<rparr>) = get_hunks_for_path p a"
  by (simp_all add: get_hunks_for_path_def)

lemma consistent_frame:
  assumes "consistent env a" and "file_states b = file_states a" and "turn_index b = turn_index a" and "draws b = draws a"
  shows "consistent env b"
  using assms by (simp add: consistent_def ids_ok_def all_described_def get_hunks_for_path_def)

lemma ids_ok_recompute:
  assumes "ids_ok env a" and "inj (new_hunk_id env)"
  shows "ids_ok env (recompute_hunks env path cur source a)"
proof (cases "file_of a path")
  case None
  then show ?thesis using assms by (simp add: recompute_hunks_def)
next
  case (Some st)
  let ?hs = "fresh_hunks env (draws a) path (baseline st) (case cur of Some c \<Rightarrow> c | None \<Rightarrow> missing_content) source"
  have "ids_rel env ((\<lambda>p. get_hunks_for_path p a)(path := preserve_ids (get_hunks_for_path path a) [] ?hs))
      (\<lambda>i. (indexed (turn_index a) i - ids_of_turn (get_hunks_for_path path a) i)
        \<union> ids_of_turn (preserve_ids (get_hunks_for_path path a) [] ?hs) i) (draws a + length ?hs + 1)"
    using assms fresh_hunks_ids by (intro ids_rel_recompute) (auto simp: ids_ok_def)
  then show ?thesis
    using assms(1) Some
    by (simp add: ids_ok_def recompute_hunks_def Let_def hunks_for_path_set distinct_update indexed_folds)
qed

lemma recompute_file:
  "file_of (recompute_hunks env path cur source a) q =
     (if q = path then map_option (\<lambda>st.
        let c = (case cur of Some c \<Rightarrow> c | None \<Rightarrow> missing_content) in
        st\<lparr>current_content := c,
           hunks := preserve_ids (hunks st) [] (fresh_hunks env (draws a) path (baseline st) c source)\<rparr>) (file_of a path)
      else file_of a q)"
  by (auto simp: recompute_hunks_def Let_def update_conv' split: option.split)

lemma recompute_simps [simp]:
  "tracking_mode (recompute_hunks env path cur source a) = tracking_mode a"
  "world (recompute_hunks env path cur source a) = world a"
  by (simp_all add: recompute_hunks_def Let_def split: option.split)

lemma described_recompute:
  assumes "\<And>p st. p \<noteq> path \<Longrightarrow> file_of a p = Some st \<Longrightarrow> described env p st"
  shows "all_described env (recompute_hunks env path cur source a)"
proof -
  have "described env path (st\<lparr>current_content := c, hunks := preserve_ids (hunks st) [] (fresh_hunks env n path (baseline st) c source)\<rparr>)"
    for st c n
    unfolding described_def by (simp add: preserve_ids_shapes) blast
  then show ?thesis using assms by (auto simp: all_described_def recompute_file Let_def split: if_splits)
qed

lemma consistent_recomputeI:
  assumes "ids_ok env a" and "inj (new_hunk_id env)" and "\<And>p st. p \<noteq> path \<Longrightarrow> file_of a p = Some st \<Longrightarrow> described env p st"
  shows "consistent env (recompute_hunks env path cur source a)"
  unfolding consistent_def using assms by (intro conjI ids_ok_recompute described_recompute)

lemma consistent_recompute:
  "consistent env a \<Longrightarrow> inj (new_hunk_id env) \<Longrightarrow> consistent env (recompute_hunks env path cur source a)"
  by (rule consistent_recomputeI) (auto simp: consistent_def all_described_def)

lemma ids_ok_clear:
  "ids_ok env a \<Longrightarrow> hunks st = [] \<Longrightarrow> ids_ok env (set_file path st a)"
  by (simp add: ids_ok_def hunks_for_path_set ids_rel_clear distinct_update)

lemma consistent_clear:
  "consistent env a \<Longrightarrow> hunks st = [] \<Longrightarrow> consistent env (set_file path st a)"
  by (auto simp: consistent_def ids_ok_clear all_described_def described_def update_conv' split: if_splits)

lemma ids_ok_same:
  "ids_ok env a \<Longrightarrow> file_of a path = Some st \<Longrightarrow> hunks st' = hunks st \<Longrightarrow> ids_ok env (set_file path st' a)"
  by (simp add: ids_ok_def hunks_for_path_set distinct_update fun_upd_idem)

lemma described_same:
  "described env path st \<Longrightarrow> hunks st' = hunks st \<Longrightarrow> baseline st' = baseline st \<Longrightarrow> current_content st' = current_content st
     \<Longrightarrow> described env path st'"
  by (simp add: described_def)

lemma consistent_same:
  assumes "consistent env a" and "file_of a path = Some st" and "hunks st' = hunks st"
    and "baseline st' = baseline st" and "current_content st' = current_content st"
  shows "consistent env (set_file path st' a)"
  using assms ids_ok_same [of env a path st st'] described_same [of env path st st']
  by (auto simp: consistent_def all_described_def update_conv' split: if_splits)

lemma consistent_rebase:
  assumes "consistent env a" and "file_of a path = Some st" and "hunks st' = hunks st" and "inj (new_hunk_id env)"
  shows "consistent env (recompute_hunks env path cur source (set_file path st' a))"
  using assms ids_ok_same [of env a path st st']
  by (intro consistent_recomputeI) (auto simp: consistent_def all_described_def update_conv')

lemma ids_rel_unindex_all:
  assumes "ids_rel env at idx n"
  shows "ids_rel env (at(p := [])) (\<lambda>i. idx i - ids_of_turn (at p) i) n"
  using ids_rel_drop [OF assms, of "at p" p] by (simp add: filter_False)

lemma consistent_clear_unindex:
  assumes "consistent env a" and "file_of a path = Some st" and "hunks st' = []" and "hunks st'' = hunks st"
  shows "consistent env (clear_file_hunks path st'' (set_file path st' a))"
  using assms ids_rel_unindex_all [of env "\<lambda>p. get_hunks_for_path p a" "indexed (turn_index a)" "draws a" path]
  by (auto simp: consistent_def ids_ok_def all_described_def clear_file_hunks_def hunks_for_path_set distinct_update indexed_folds
      described_def update_conv' split: if_splits)

lemma hunks_for_path_delete:
  "(\<lambda>q. get_hunks_for_path q (a\<lparr>file_states := AList.delete p (file_states a)\<rparr>)) = (\<lambda>q. get_hunks_for_path q a)(p := [])"
  by (auto simp: get_hunks_for_path_def delete_conv' fun_upd_def)

lemma consistent_untrack:
  assumes "consistent env a" and "file_of a path = Some st" and "hunks st' = hunks st"
  shows "consistent env (untrack_file path st' a)"
  using assms ids_rel_unindex_all [of env "\<lambda>p. get_hunks_for_path p a" "indexed (turn_index a)" "draws a" path]
  by (auto simp: consistent_def ids_ok_def all_described_def untrack_file_def clear_file_hunks_def hunks_for_path_delete
      distinct_delete indexed_folds delete_conv' split: if_splits)

section \<open>Accepting and rejecting\<close>

lemma book_simps [simp]:
  "file_states (fold (book_hunk act) hs a) = file_states a"
  "turn_index (fold (book_hunk act) hs a) = fold unindex hs (turn_index a)"
  "draws (fold (book_hunk act) hs a) = draws a" "world (fold (book_hunk act) hs a) = world a"
  "tracking_mode (fold (book_hunk act) hs a) = tracking_mode a"
  by (induction hs arbitrary: a) (simp_all add: book_hunk_def)

lemma drop_simps [simp]:
  "hunks (drop_hunks hs st) = filter (\<lambda>q. hunk_id q \<notin> hunk_id ` set hs) (hunks st)"
  "baseline (drop_hunks hs st) = baseline st" "current_content (drop_hunks hs st) = current_content st"
  "is_agent_file (drop_hunks hs st) = is_agent_file st"
  by (simp_all add: drop_hunks_def)

lemma ids_ok_drop:
  assumes "ids_ok env a" and "file_of a path = Some st" and "set hs \<subseteq> set (hunks st)"
    and "hunks st' = filter (\<lambda>q. hunk_id q \<notin> hunk_id ` set hs) (hunks st)"
    and "file_states b = file_states a" and "turn_index b = fold unindex hs (turn_index a)" and "draws b = draws a"
  shows "ids_ok env (set_file path st' b)"
proof -
  have "(\<lambda>p. get_hunks_for_path p b) = (\<lambda>p. get_hunks_for_path p a)"
    using assms(5) by (simp add: get_hunks_for_path_def)
  then show ?thesis
    using ids_rel_drop [of env "\<lambda>p. get_hunks_for_path p a" "indexed (turn_index a)" "draws a" hs path] assms
    by (simp add: ids_ok_def hunks_for_path_set distinct_update indexed_folds)
qed

text \<open>A file with pending hunks is text on both sides, or was created or deleted and has one hunk only.\<close>

lemma described_cases:
  assumes "described env path st" and "hunks st \<noteq> []"
  obtains b c where "baseline st = Full b" and "current_content st = Full c"
  | b h where "baseline st = Full b" and "current_content st = Missing" and "hunks st = [h]"
  | c h where "baseline st = Missing" and "current_content st = Full c" and "hunks st = [h]"
proof -
  obtain n source where "map hunk_shape (hunks st) = map hunk_shape (fresh_hunks env n path (baseline st) (current_content st) source)"
    using assms by (auto simp: described_def)
  then have len: "length (hunks st) = length (fresh_hunks env n path (baseline st) (current_content st) source)"
    by (metis length_map)
  then show ?thesis
    using assms(2) that
    by (cases "baseline st"; cases "current_content st")
      (auto simp: fresh_hunks_def length_Suc_conv split: if_splits)
qed

lemma drop_single:
  "length xs \<le> 1 \<Longrightarrow> set hs \<subseteq> set xs \<Longrightarrow> hs \<noteq> [] \<Longrightarrow> filter (\<lambda>q. hunk_id q \<notin> hunk_id ` set hs) xs = []"
  by (cases xs; cases hs) auto

lemma consistent_dropped:
  assumes "consistent env a" and "file_of a path = Some st" and "set hs \<subseteq> set (hunks st)"
    and "hunks st' = []" and "hunks st' = filter (\<lambda>q. hunk_id q \<notin> hunk_id ` set hs) (hunks st)"
    and "file_states b = file_states a" and "turn_index b = fold unindex hs (turn_index a)" and "draws b = draws a"
  shows "consistent env (send_all es (set_file path st' b))"
proof -
  have "ids_ok env (set_file path st' b)" using assms by (intro ids_ok_drop [of env a path st hs]) (auto simp: consistent_def)
  then have "consistent env (set_file path st' b)"
    using assms(1,4,6) by (auto simp: consistent_def all_described_def described_def update_conv' split: if_splits)
  then show ?thesis by (rule consistent_frame) simp_all
qed

lemma consistent_drop_recompute:
  assumes "consistent env a" and "inj (new_hunk_id env)" and "file_of a path = Some st" and "set hs \<subseteq> set (hunks st)"
    and "hunks st' = filter (\<lambda>q. hunk_id q \<notin> hunk_id ` set hs) (hunks st)"
    and "file_states b = file_states a" and "turn_index b = fold unindex hs (turn_index a)" and "draws b = draws a"
  shows "consistent env (recompute_hunks env path cur source (send_all es (set_file path st' b)))"
proof (rule consistent_recomputeI)
  have "ids_ok env (set_file path st' b)" using assms by (intro ids_ok_drop [of env a path st hs]) (auto simp: consistent_def)
  then show "ids_ok env (send_all es (set_file path st' b))" by (simp add: ids_ok_def get_hunks_for_path_def)
qed (use assms in \<open>auto simp: consistent_def all_described_def update_conv'\<close>)

lemma consistent_accept:
  assumes "consistent env a" and "inj (new_hunk_id env)" and "file_of a path = Some st"
    and "set hs \<subseteq> set (hunks st)" and "hs \<noteq> []"
  shows "consistent env (accept_hunks_batch env path hs (fold (book_hunk Accept) hs a))"
proof (cases "baseline st = Missing")
  case True
  have "described env path st" and "hunks st \<noteq> []"
    using assms(1,3,4,5) by (auto simp: consistent_def all_described_def)
  then have "length (hunks st) \<le> 1" by (cases rule: described_cases) (use True in auto)
  from drop_single [OF this assms(4,5)] show ?thesis
    using True assms unfolding accept_hunks_batch_def
    by (auto simp: Let_def intro!: consistent_dropped [OF assms(1,3,4)])
next
  case False
  then show ?thesis
    using assms unfolding accept_hunks_batch_def
    by (auto simp: Let_def intro!: consistent_drop_recompute [OF assms(1,2,3,4)])
qed

lemma write_file_simps:
  assumes "write_file fs path s a = (b, err)"
  shows "file_states b = file_states a" "turn_index b = turn_index a" "draws b = draws a" "tracking_mode b = tracking_mode a"
  using assms by (auto simp: write_file_def split: prod.splits)

lemma remove_file_simps:
  assumes "remove_file fs path a = (b, err)"
  shows "file_states b = file_states a" "turn_index b = turn_index a" "draws b = draws a" "tracking_mode b = tracking_mode a"
  using assms by (auto simp: remove_file_def split: prod.splits)

lemma consistent_reject:
  assumes "consistent (env_diff env) a" and "inj (new_hunk_id (env_diff env))" and "file_of a path = Some st"
    and "set hs \<subseteq> set (hunks st)" and "hs \<noteq> []"
    and rej: "reject_hunks_batch env path hs (fold (book_hunk Reject) hs a) = (b, None)"
  shows "consistent (env_diff env) b"
proof -
  have "described (env_diff env) path st" and "hunks st \<noteq> []"
    using assms(1,3,4,5) by (auto simp: consistent_def all_described_def)
  then show ?thesis
  proof (cases rule: described_cases)
    case (1 s c)
    then show ?thesis
      using rej assms(3,5)
      by (auto simp: reject_hunks_batch_def Let_def split: prod.splits option.splits
          simp: write_file_def intro!: consistent_drop_recompute [OF assms(1,2,3,4)])
  next
    case (2 s h)
    then show ?thesis
      using rej assms(3,5) drop_single [OF _ assms(4,5)]
      by (auto simp: reject_hunks_batch_def Let_def split: prod.splits option.splits
          simp: write_file_def intro!: consistent_dropped [OF assms(1,3,4)])
  next
    case (3 c h)
    then show ?thesis
      using rej assms(3,5) drop_single [OF _ assms(4,5)]
      by (auto simp: reject_hunks_batch_def Let_def split: prod.splits option.splits
          simp: remove_file_def intro!: consistent_dropped [OF assms(1,3,4)])
  qed
qed

end
