(* ===== verification/Hunk_Laws.thy ===== *)
theory Hunk_Laws
  imports Hunk_Consistency
begin

text \<open>
  What holds of the hunk tracker after any run. A locale states what an invariant of the state has to survive; it
  is interpreted for the consistency of the state and for what the mode says about the files that are tracked.
\<close>

section \<open>Orders of iteration\<close>

text \<open>A hash map is iterated over in some order: every key once.\<close>

definition iteration_order :: "('a list \<Rightarrow> 'a list) \<Rightarrow> bool" where
  "iteration_order f \<longleftrightarrow> (\<forall>xs. set (f xs) = set xs \<and> length (f xs) = length xs)"

lemma iteration_order_distinct: "iteration_order f \<Longrightarrow> distinct xs \<Longrightarrow> distinct (f xs)"
  by (metis card_distinct distinct_card iteration_order_def)

lemma fst_entries: "map fst (entries f m) = f (map fst m)"
  by (simp add: entries_def comp_def)

lemma in_entries: "iteration_order f \<Longrightarrow> (p, v) \<in> set (entries f m) \<longleftrightarrow> map_of m p = Some v"
proof -
  assume "iteration_order f"
  then have "(p, v) \<in> set (entries f m) \<longleftrightarrow> p \<in> fst ` set m \<and> v = the (map_of m p)"
    by (auto simp: entries_def iteration_order_def)
  then show ?thesis by (auto simp flip: dom_map_of_conv_image_fst)
qed

section \<open>What an invariant has to survive\<close>

definition same_core :: "'w HunkTrackerActor \<Rightarrow> 'w HunkTrackerActor \<Rightarrow> bool" where
  "same_core a b \<longleftrightarrow>
     file_states b = file_states a \<and> turn_index b = turn_index a \<and> draws b = draws a \<and> tracking_mode b = tracking_mode a"

lemma same_core_reads:
  "read_baseline env path a = (b, s) \<Longrightarrow> same_core a b"
  "read_baselines_batch env paths a = (b, ss) \<Longrightarrow> same_core a b"
  "read_repo_sync_state env a = (b, sync) \<Longrightarrow> same_core a b"
  "baseline_or_read env path pre a = (b, s) \<Longrightarrow> same_core a b"
  by (auto simp: same_core_def read_baseline_def read_baselines_batch_def read_repo_sync_state_def baseline_or_read_def Let_def
      split: if_splits prod.splits option.splits)

fun reply_failed :: "TrackerReply \<Rightarrow> bool" where
  "reply_failed (ActionReply (Some (HunkNotFound _))) = False"
| "reply_failed (ActionReply (Some _)) = True"
| "reply_failed (AffectedReply (Inl _)) = True"
| "reply_failed _ = False"

text \<open>The commands that do not replace the state or its keys wholesale.\<close>

fun ordinary :: "HunkTrackerCommand \<Rightarrow> bool" where
  "ordinary (RestoreState _) = False"
| "ordinary (SetWorkingDir _) = False"
| "ordinary _ = True"

fun ordinary_step :: "'w TrackerStep \<Rightarrow> bool" where
  "ordinary_step (Outside w) = True"
| "ordinary_step (Receive cmds) = list_all ordinary cmds"

lemma untrack_file_mode: "untrack_file p st (a\<lparr>tracking_mode := m\<rparr>) = (untrack_file p st a)\<lparr>tracking_mode := m\<rparr>"
  by (simp add: untrack_file_def clear_file_hunks_def send_def send_all_def)

lemma untrack_mode:
  "fold (\<lambda>(p, st). untrack_file p st) xs (a\<lparr>tracking_mode := m\<rparr>) = (fold (\<lambda>(p, st). untrack_file p st) xs a)\<lparr>tracking_mode := m\<rparr>"
  by (induction xs arbitrary: a) (auto simp: untrack_file_mode)

lemma accept_file_others:
  "q \<noteq> path \<Longrightarrow> file_of (accept_hunks_batch env path hs a) q = file_of a q"
  by (simp add: accept_hunks_batch_def Let_def recompute_file update_conv' split: option.split)

lemma reject_file_others:
  "q \<noteq> path \<Longrightarrow> reject_hunks_batch env path hs a = (b, err) \<Longrightarrow> file_of b q = file_of a q"
  by (auto simp: reject_hunks_batch_def write_file_def remove_file_def Let_def recompute_file update_conv'
      split: if_splits option.splits FileContentState.splits prod.splits)

lemma batch_file_others:
  assumes "(case action of Accept \<Rightarrow> (accept_hunks_batch (env_diff env) p hs a, None) | Reject \<Rightarrow> reject_hunks_batch env p hs a) = (c, err)"
    and "q \<noteq> p"
  shows "file_of c q = file_of a q"
  using assms by (cases action) (auto simp: accept_file_others reject_file_others)

text \<open>The action on one hunk and the batch of that hunk alone are the same operation.\<close>

lemma accept_single: "accept_hunk env path h a = accept_hunks_batch env path [h] a"
  by (simp add: accept_hunk_def accept_hunks_batch_def removed_events_def Let_def split: option.split)

lemma reject_single: "reject_hunk env path h a = reject_hunks_batch env path [h] a"
  by (auto simp: reject_hunk_def reject_hunks_batch_def reject_action_def removed_events_def Let_def
      split: option.splits FileContentState.splits)

lemma find_map_Some: "find_map f xs = Some y \<Longrightarrow> \<exists>x\<in>set xs. f x = Some y"
  by (induction xs) (auto split: option.splits)

lemma affected_failed: "reply_failed (AffectedReply r) \<longleftrightarrow> (\<exists>e. r = Inl e)"
  by (cases r) auto

lemma batch_add_others: "set (other_commands (batch_add cmd b)) \<subseteq> insert cmd (set (other_commands b))"
  by (cases cmd) (auto simp: batch_add_def)

lemma coalesced_others: "set (other_commands (fold batch_add cmds b)) \<subseteq> set (other_commands b) \<union> set cmds"
proof (induction cmds arbitrary: b)
  case (Cons cmd cmds)
  then show ?case using Cons [of "batch_add cmd b"] batch_add_others [of cmd b] by auto
qed simp

locale tracker_invariant =
  fixes env :: "'w TrackerEnv" and tolerant :: bool and I :: "'w HunkTrackerActor \<Rightarrow> bool"
  assumes order: "iteration_order (path_order env)"
    and keys: "I a \<Longrightarrow> distinct (map fst (file_states a))"
    and frame: "I a \<Longrightarrow> same_core a b \<Longrightarrow> I b"
    and recompute: "I a \<Longrightarrow> I (recompute_hunks (env_diff env) path cur source a)"
    and track: "I a \<Longrightarrow> file_of a path = None \<Longrightarrow> agent \<or> tracking_mode a = AllDirty
      \<Longrightarrow> I (set_file path (tracked_file base content agent) a)"
    and mark: "I a \<Longrightarrow> file_of a path = Some st \<Longrightarrow> I (set_file path (st\<lparr>is_agent_file := True\<rparr>) a)"
    and clear: "I a \<Longrightarrow> file_of a path = Some st \<Longrightarrow> hunks st' = [] \<Longrightarrow> is_agent_file st' \<or> is_agent_file st' = is_agent_file st
      \<Longrightarrow> I (set_file path st' a)"
    and clear_unindex: "I a \<Longrightarrow> file_of a path = Some st \<Longrightarrow> hunks st' = [] \<Longrightarrow> is_agent_file st' = is_agent_file st
      \<Longrightarrow> hunks st'' = hunks st \<Longrightarrow> I (clear_file_hunks path st'' (set_file path st' a))"
    and rebase: "I a \<Longrightarrow> file_of a path = Some st \<Longrightarrow> hunks st' = hunks st \<Longrightarrow> is_agent_file st' = is_agent_file st
      \<Longrightarrow> I (recompute_hunks (env_diff env) path cur source (set_file path st' a))"
    and untrack: "I a \<Longrightarrow> file_of a path = Some st \<Longrightarrow> hunks st' = hunks st \<Longrightarrow> I (untrack_file path st' a)"
    and widen: "I a \<Longrightarrow> I (a\<lparr>tracking_mode := AllDirty\<rparr>)"
    and narrow: "I a \<Longrightarrow> \<forall>p st. file_of a p = Some st \<longrightarrow> is_agent_file st \<Longrightarrow> I (a\<lparr>tracking_mode := AgentOnly\<rparr>)"
    and accept: "I a \<Longrightarrow> file_of a path = Some st \<Longrightarrow> set hs \<subseteq> set (hunks st) \<Longrightarrow> hs \<noteq> []
      \<Longrightarrow> I (accept_hunks_batch (env_diff env) path hs (fold (book_hunk Accept) hs a))"
    and reject: "I a \<Longrightarrow> file_of a path = Some st \<Longrightarrow> set hs \<subseteq> set (hunks st) \<Longrightarrow> hs \<noteq> []
      \<Longrightarrow> reject_hunks_batch env path hs (fold (book_hunk Reject) hs a) = (b, err) \<Longrightarrow> err = None \<or> tolerant \<Longrightarrow> I b"
begin

lemma send_keeps: "I a \<Longrightarrow> I (send e a)" "I a \<Longrightarrow> I (send_all es a)"
  by (rule frame, assumption, simp add: same_core_def)+

lemma record_keeps:
  assumes "I a"
  shows "I (record_agent_write env path content i previous a)"
proof -
  have new: "I (send e (set_file path (tracked_file base cur True) b))"
    if "file_of a path = None" "same_core a b" for e base cur b
    using that assms by (intro send_keeps track frame [of a b]) (auto simp: same_core_def)
  show ?thesis
  proof (cases "file_of a path")
    case None
    then show ?thesis
      using new [OF None] assms
      by (auto simp: record_agent_write_def Let_def same_core_def split: prod.splits option.splits
          intro!: recompute dest!: same_core_reads)
  next
    case (Some st)
    then show ?thesis
      using assms clear [OF assms Some] mark [OF assms Some]
      by (auto simp: record_agent_write_def Let_def intro!: recompute)
  qed
qed

lemma untracked_keeps:
  assumes "I a" and "file_of a path = None" and "tracking_mode a = AllDirty"
  shows "I (process_untracked env path pre current a)"
proof -
  have start: "I b \<and> I (start_tracking path base cur b)" if "same_core a b" for base cur b
    using that assms frame [of a b] unfolding start_tracking_def
    by (auto simp: same_core_def intro!: send_keeps track)
  show ?thesis
    using start assms(3)
    by (auto simp: process_untracked_def Let_def split: prod.splits intro!: recompute dest!: same_core_reads)
qed

lemma change_keeps:
  assumes "I a"
  shows "I (process_file_change env path pre a)"
proof (cases "file_of a path")
  case None
  then show ?thesis
    using assms untracked_keeps [OF assms None] by (cases "tracking_mode a") (auto simp: process_file_change_def)
next
  case (Some st)
  have "I b" "file_of b path = Some st" if "same_core a b" for b
    using that Some frame [OF assms that] by (auto simp: same_core_def)
  then show ?thesis
    using Some assms
    by (auto simp: process_file_change_def Let_def split: prod.splits intro!: recompute clear dest!: same_core_reads)
qed

lemma changes_keep: "I a \<Longrightarrow> I (process_changes env paths bs a)"
  by (induction paths arbitrary: bs a) (simp_all add: change_keeps)

lemma changes_batch_keeps: "I a \<Longrightarrow> I (handle_file_changes_batch env paths a)"
  by (auto simp: handle_file_changes_batch_def split: prod.split intro!: changes_keep frame [of a] dest!: same_core_reads)

lemma deleted_keeps:
  assumes "I a"
  shows "I (handle_file_deleted env path a)"
proof (cases "file_of a path")
  case None
  have start: "I b \<and> (tracking_mode a = AllDirty \<longrightarrow> I (start_tracking path base cur b))" if "same_core a b" for base cur b
    using that assms None frame [of a b] unfolding start_tracking_def by (auto simp: same_core_def intro!: send_keeps track)
  then show ?thesis
    using None assms
    by (cases "tracking_mode a")
      (auto simp: handle_file_deleted_def Let_def split: prod.splits intro!: recompute dest!: same_core_reads)
next
  case (Some st)
  then show ?thesis using assms by (auto simp: handle_file_deleted_def handle_file_change_def intro!: change_keeps recompute)
qed

lemma folding_keeps: "(\<And>x a. I a \<Longrightarrow> I (f x a)) \<Longrightarrow> I a \<Longrightarrow> I (fold f xs a)"
  by (induction xs arbitrary: a) auto

lemma dirty_cache_keeps:
  assumes "I a"
  shows "I (refresh_git_dirty_cache env scope a)"
proof -
  have "I (fold (\<lambda>rel a. handle_file_change env (components_join (working_dir a) rel) a) rels b)" if "I b" for rels b
    using that by (intro folding_keeps) (auto simp: handle_file_change_def intro: change_keeps)
  moreover have "I (a\<lparr>git_repo_state := r, git_dirty_cache := d, git_staged_cache := g\<rparr>)" for r d g
    using assms by (rule frame) (simp add: same_core_def)
  ultimately show ?thesis using assms by (auto simp: refresh_git_dirty_cache_def Let_def split: prod.split)
qed

lemma refresh_file_keeps:
  assumes "I a"
  shows "I (refresh_file env bs path a)"
proof (cases "file_of a path")
  case None
  then show ?thesis using assms by (simp add: refresh_file_def)
next
  case (Some st)
  have drop: "untrack_file path st' (set_file path st'' a) = untrack_file path st' a" for st' st''
    by (simp add: untrack_file_def set_file_def clear_file_hunks_def send_def send_all_def delete_update_same)
  show ?thesis
    using Some clear_unindex [OF assms Some] untrack [OF assms Some] rebase [OF assms Some]
    by (auto simp: refresh_file_def Let_def drop intro!: send_keeps)
qed

lemma refresh_all_keeps:
  assumes "I a"
  shows "I (refresh_all_baselines_except env skip a)"
proof -
  have caches: "I (refresh_caches env b)" if "I b" for b
    using that dirty_cache_keeps [OF that] frame [OF that]
    by (auto simp: refresh_caches_def Let_def same_core_def split: TrackingMode.split)
  have refreshed: "I (fold (refresh_file env bs) paths c)" if "same_core b c" "I b" for b c paths bs
    using frame [OF that(2,1)] by (intro folding_keeps refresh_file_keeps)
  have "I b \<and> I (refresh_caches env (b\<lparr>repo_sync_state := r\<rparr>)) \<and> I (refresh_caches env b)" if "same_core a b" for b r
    using frame [OF assms that] frame [OF assms, of "b\<lparr>repo_sync_state := r\<rparr>"] that caches by (simp add: same_core_def)
  then show ?thesis
    using assms
    by (auto simp: refresh_all_baselines_except_def Let_def split: prod.splits option.splits
        intro: refreshed dest!: same_core_reads)
qed

lemma untrack_all:
  assumes "I a" and "distinct (map fst xs)" and "\<forall>(p, st)\<in>set xs. file_of a p = Some st"
  shows "I (fold (\<lambda>(p, st). untrack_file p st) xs a)
    \<and> (\<forall>p. file_of (fold (\<lambda>(p, st). untrack_file p st) xs a) p = (if p \<in> fst ` set xs then None else file_of a p))"
  using assms
proof (induction xs arbitrary: a)
  case (Cons x xs)
  obtain p st where x: "x = (p, st)" by force
  have after: "file_of (untrack_file p st a) q = (if q = p then None else file_of a q)" for q
    by (simp add: untrack_file_def clear_file_hunks_def delete_conv')
  have "I (untrack_file p st a)" using Cons.prems x by (intro untrack) auto
  moreover have "\<forall>(q, st')\<in>set xs. file_of (untrack_file p st a) q = Some st'"
  proof clarify
    fix q st'
    assume q: "(q, st') \<in> set xs"
    then have "q \<noteq> p" using Cons.prems(2) x by (metis distinct.simps(2) fst_conv image_eqI list.simps(9) set_map)
    moreover have "file_of a q = Some st'" using Cons.prems(3) q by auto
    ultimately show "file_of (untrack_file p st a) q = Some st'" by (simp add: after)
  qed
  ultimately show ?case using Cons.IH [of "untrack_file p st a"] Cons.prems(2) x by (auto simp: after)
qed simp

lemma mode_keeps:
  assumes "I a"
  shows "I (set_mode env mode a)"
proof -
  let ?xs = "filter (\<lambda>(path, st). \<not> is_agent_file st) (entries (path_order env) (file_states a))"
  let ?b = "fold (\<lambda>(p, st). untrack_file p st) ?xs a"
  have "distinct (map fst ?xs)"
    using iteration_order_distinct [OF order keys [OF assms]] by (simp add: distinct_map_filter fst_entries)
  moreover have "\<forall>(p, st)\<in>set ?xs. file_of a p = Some st" by (auto simp: in_entries [OF order])
  ultimately have b: "I ?b" "\<And>p. file_of ?b p = (if p \<in> fst ` set ?xs then None else file_of a p)"
    using untrack_all [OF assms] by auto
  then have "I (?b\<lparr>tracking_mode := AgentOnly\<rparr>)"
    by (intro narrow) (auto simp: in_entries [OF order] image_iff split: if_splits)
  moreover have "I (a\<lparr>tracking_mode := tracking_mode a\<rparr>)" using assms by simp
  ultimately show ?thesis
    using dirty_cache_keeps [OF widen [OF assms]]
    by (cases "tracking_mode a"; cases mode) (auto simp: set_mode_def Let_def untrack_mode)
qed

lemma batch_keeps:
  assumes "I a" and "distinct (map fst files)"
    and "\<forall>(p, hs)\<in>set files. hs \<noteq> [] \<and> (\<exists>st. file_of a p = Some st \<and> set hs \<subseteq> set (hunks st))"
    and "apply_action_batch env action files a = (b, res)" and "tolerant \<or> (\<forall>e. res \<noteq> Inl e)"
  shows "I b"
  using assms
proof (induction files arbitrary: a res)
  case (Cons x files)
  obtain p hs where x: "x = (p, hs)" by force
  obtain st where st: "file_of a p = Some st" "set hs \<subseteq> set (hunks st)" "hs \<noteq> []" using Cons.prems(3) x by auto
  let ?a = "fold (book_hunk action) hs a"
  obtain c err where c: "(case action of Accept \<Rightarrow> (accept_hunks_batch (env_diff env) p hs ?a, None)
      | Reject \<Rightarrow> reject_hunks_batch env p hs ?a) = (c, err)" by force
  have others: "file_of c q = file_of a q" if "q \<noteq> p" for q
    using batch_file_others [OF c that] by simp
  have kept: "I c" if "err = None \<or> tolerant"
    using c that accept [OF Cons.prems(1) st] reject [OF Cons.prems(1) st] by (cases action) auto
  show ?case
  proof (cases err)
    case (Some e)
    then have "b = c \<and> res = Inl e" using Cons.prems(4) c x by (simp add: Let_def)
    then show ?thesis using kept Cons.prems(5) by auto
  next
    case None
    then obtain more where more: "apply_action_batch env action files c = (b, more)"
      "res = map_sum (\<lambda>e. e) (\<lambda>ids. map hunk_id hs @ ids) more"
      using Cons.prems(4) c x by (auto simp: Let_def split: prod.splits)
    have "\<forall>(q, hs)\<in>set files. hs \<noteq> [] \<and> (\<exists>st. file_of c q = Some st \<and> set hs \<subseteq> set (hunks st))"
    proof clarify
      fix q hs'
      assume q: "(q, hs') \<in> set files"
      then have "q \<noteq> p" using Cons.prems(2) x by (metis distinct.simps(2) fst_conv image_eqI list.simps(9) set_map)
      then show "hs' \<noteq> [] \<and> (\<exists>st. file_of c q = Some st \<and> set hs' \<subseteq> set (hunks st))"
        using Cons.prems(3) q others by fastforce
    qed
    moreover have "tolerant \<or> (\<forall>e. more \<noteq> Inl e)" using Cons.prems(5) more(2) by auto
    ultimately show ?thesis using Cons.IH [of c more] kept None Cons.prems(2) more(1) x by auto
  qed
qed simp

lemma hunk_action_keeps:
  assumes "I a" and "apply_hunk_action env hid action a = (b, err)" and "tolerant \<or> \<not> reply_failed (ActionReply err)"
  shows "I b"
proof (cases "find_hunk env hid a")
  case None
  then show ?thesis using assms by (simp add: apply_hunk_action_def)
next
  case (Some x)
  obtain path h where x: "x = (path, h)" by force
  then obtain st where "(path, st) \<in> set (entries (path_order env) (file_states a))" "find (\<lambda>h. hunk_id h = hid) (hunks st) = Some h"
    using Some by (auto simp: find_hunk_def dest!: find_map_Some)
  then have st: "file_of a path = Some st" "set [h] \<subseteq> set (hunks st)"
    by (auto simp: in_entries [OF order] find_Some_iff)
  have "err = None \<or> tolerant" if "action = Reject"
    using that assms(2,3) Some x
    by (auto simp: apply_hunk_action_def reject_single reject_hunks_batch_def write_file_def remove_file_def Let_def
        split: option.splits FileContentState.splits prod.splits)
  then show ?thesis
    using assms(2) Some x accept [OF assms(1) st] reject [OF assms(1) st]
    by (cases action) (auto simp: apply_hunk_action_def accept_single reject_single)
qed

lemma file_action_keeps:
  assumes "I a" and "apply_file_action env path action a = (b, res)" and "tolerant \<or> (\<forall>e. res \<noteq> Inl e)"
  shows "I b"
  using assms batch_keeps [of a "[(path, hs)]" for hs]
  by (auto simp: apply_file_action_def simp del: apply_action_batch.simps split: option.splits if_splits)

lemma entries_distinct: "I a \<Longrightarrow> distinct (map fst (entries (path_order env) (file_states a)))"
  by (simp add: fst_entries iteration_order_distinct [OF order keys])

lemma all_action_keeps:
  assumes "I a" and "apply_all_action env action a = (b, res)" and "tolerant \<or> (\<forall>e. res \<noteq> Inl e)"
  shows "I b"
proof (rule batch_keeps [OF assms(1) _ _ _ assms(3)])
  let ?files = "map (\<lambda>(path, st). (path, hunks st)) (filter (\<lambda>(path, st). hunks st \<noteq> []) (entries (path_order env) (file_states a)))"
  show "apply_action_batch env action ?files a = (b, res)" using assms(2) by (simp add: apply_all_action_def)
  have "map fst ?files = map fst (filter (\<lambda>(path, st). hunks st \<noteq> []) (entries (path_order env) (file_states a)))"
    by (simp add: comp_def case_prod_unfold)
  then show "distinct (map fst ?files)" by (simp only: distinct_map_filter [OF entries_distinct [OF assms(1)]])
qed (auto simp: in_entries [OF order])

lemma turn_action_keeps:
  assumes "I a" and "apply_turn_action env i action a = (b, res)" and "tolerant \<or> (\<forall>e. res \<noteq> Inl e)"
  shows "I b"
proof (rule batch_keeps [OF assms(1) _ _ _ assms(3)])
  let ?m = "filter (\<lambda>(path, hs). hs \<noteq> []) (map (\<lambda>(path, st). (path, turn_hunks i st)) (file_states a))"
  show "apply_action_batch env action (entries (path_order env) ?m) a = (b, res)" using assms(2) by (simp add: apply_turn_action_def)
  have "map fst (map (\<lambda>(path, st). (path, turn_hunks i st)) (file_states a)) = map fst (file_states a)" by auto
  then have m: "distinct (map fst ?m)" using keys [OF assms(1)] by (metis distinct_map_filter)
  then show "distinct (map fst (entries (path_order env) ?m))"
    unfolding fst_entries by (rule iteration_order_distinct [OF order])
  show "\<forall>(p, hs)\<in>set (entries (path_order env) ?m). hs \<noteq> [] \<and> (\<exists>st. file_of a p = Some st \<and> set hs \<subseteq> set (hunks st))"
  proof clarify
    fix p hs
    assume "(p, hs) \<in> set (entries (path_order env) ?m)"
    then have "(p, hs) \<in> set ?m" by (auto simp: in_entries [OF order] dest: map_of_SomeD)
    then obtain st where "(p, st) \<in> set (file_states a)" "hs = turn_hunks i st" "hs \<noteq> []" by auto
    then show "hs \<noteq> [] \<and> (\<exists>st. file_of a p = Some st \<and> set hs \<subseteq> set (hunks st))"
      using map_of_is_SomeI [OF keys [OF assms(1)]] by (auto simp: turn_hunks_def)
  qed
qed

lemma command_keeps:
  assumes "I a" and "ordinary cmd" and "tracker_command env cmd a = (b, r)" and "tolerant \<or> \<not> reply_failed r"
  shows "I b"
proof -
  note keeps = record_keeps [OF assms(1)] change_keeps [OF assms(1)] deleted_keeps [OF assms(1)] dirty_cache_keeps [OF assms(1)]
    refresh_all_keeps [OF assms(1)] mode_keeps [OF assms(1)]
  have stats: "I (a\<lparr>session_stats := s\<rparr>)" for s using assms(1) by (rule frame) (simp add: same_core_def)
  have reset: "I (reset_baseline path a)" for path
    using assms(1) by (auto simp: reset_baseline_def split: option.split intro!: send_keeps clear_unindex)
  show ?thesis
  proof (cases cmd)
    case (HunkActionCmd hid action)
    then show ?thesis using assms hunk_action_keeps [OF assms(1), of hid action] by (auto simp: map_prod_def affected_failed split: prod.splits)
  next
    case (FileAction path action)
    then show ?thesis using assms file_action_keeps [OF assms(1), of path action] by (auto simp: map_prod_def affected_failed split: prod.splits)
  next
    case (AllAction action)
    then show ?thesis using assms all_action_keeps [OF assms(1), of action] by (auto simp: map_prod_def affected_failed split: prod.splits)
  next
    case (TurnAction i action)
    then show ?thesis using assms turn_action_keeps [OF assms(1), of i action] by (auto simp: map_prod_def affected_failed split: prod.splits)
  qed (use assms keeps stats reset in \<open>auto simp: handle_file_change_def refresh_all_baselines_def\<close>)
qed

lemma in_order_keeps:
  "I a \<Longrightarrow> list_all ordinary cmds \<Longrightarrow> run_commands_in_order env cmds a = (b, rs) \<Longrightarrow> tolerant \<or> \<not> list_ex reply_failed rs \<Longrightarrow> I b"
proof (induction cmds arbitrary: a rs)
  case (Cons cmd cmds)
  obtain c r where c: "tracker_command env cmd a = (c, r)" by force
  obtain rs' where rest: "run_commands_in_order env cmds c = (b, rs')" "rs = r # rs'"
    using Cons.prems(3) c by (auto simp: Let_def split: prod.splits)
  then have "I c" using Cons.prems c by (intro command_keeps [of a cmd c r]) auto
  then show ?case using Cons.IH [of c rs'] Cons.prems(2,4) rest by auto
qed simp

lemma before_refresh_keeps: "I a \<Longrightarrow> I (fst (batch_before_refresh env actions a))"
proof (induction actions arbitrary: a)
  case (Cons x actions)
  then show ?case
    using deleted_keeps change_keeps
    by (cases x) (auto simp: Let_def handle_file_change_def case_prod_unfold)
qed simp

lemma coalesced_keeps:
  assumes "I a" and "list_all ordinary (other_commands b)" and "handle_coalesced_batch env b a = (c, rs)"
    and "tolerant \<or> \<not> list_ex reply_failed rs"
  shows "I c"
proof -
  let ?actions = "entries (path_order env) (file_actions b)"
  let ?a = "if refresh_dirty b \<and> \<not> refresh_all b then refresh_git_dirty_cache env None a else a"
  let ?b = "if refresh_all b
    then refresh_all_baselines_except env (snd (batch_before_refresh env ?actions ?a)) (fst (batch_before_refresh env ?actions ?a))
    else batch_files env ?actions ?a"
  have "I ?a" using assms(1) dirty_cache_keeps by simp
  then have "I ?b"
    using before_refresh_keeps refresh_all_keeps
    by (auto simp: batch_files_def intro!: changes_batch_keeps folding_keeps deleted_keeps)
  moreover have "run_commands_in_order env (other_commands b) ?b = (c, rs)"
    using assms(3) unfolding handle_coalesced_batch_def Let_def case_prod_unfold .
  ultimately show ?thesis using assms(2,4) in_order_keeps by blast
qed

lemma queue_keeps:
  "I a \<Longrightarrow> list_all ordinary cmds \<Longrightarrow> run_queue env cmds a = (b, rs) \<Longrightarrow> tolerant \<or> \<not> list_ex reply_failed rs \<Longrightarrow> I b"
proof (induction cmds arbitrary: a rs)
  case (Cons cmd cmds)
  show ?case
  proof (cases "is_coalescable cmd")
    case True
    have "list_all ordinary (other_commands (drain_and_coalesce (cmd # cmds)))"
      using coalesced_others [of "cmd # cmds" batch_new] Cons.prems(2)
      by (auto simp: drain_and_coalesce_def batch_new_def list_all_iff)
    then show ?thesis using Cons.prems(3,4) True coalesced_keeps [OF Cons.prems(1)] by simp
  next
    case False
    obtain c r where c: "tracker_command env cmd a = (c, r)" by force
    obtain rs' where rest: "run_queue env cmds c = (b, rs')" "rs = r # rs'"
      using Cons.prems(3) c False by (auto simp: Let_def split: prod.splits)
    then have "I c" using Cons.prems c by (intro command_keeps [of a cmd c r]) auto
    then show ?thesis using Cons.IH [of c rs'] Cons.prems(2,4) rest by auto
  qed
qed simp

lemma run_keeps:
  "I a \<Longrightarrow> list_all ordinary_step steps \<Longrightarrow> run_tracker env steps a = (b, rs) \<Longrightarrow> tolerant \<or> \<not> list_ex reply_failed rs \<Longrightarrow> I b"
proof (induction steps arbitrary: a rs)
  case (Cons step steps)
  show ?case
  proof (cases step)
    case (Outside w)
    have "I (a\<lparr>world := w\<rparr>)" using Cons.prems(1) by (rule frame) (simp add: same_core_def)
    then show ?thesis using Cons Outside by auto
  next
    case (Receive cmds)
    obtain c rs1 where c: "run_queue env cmds a = (c, rs1)" by force
    obtain rs2 where rest: "run_tracker env steps c = (b, rs2)" "rs = rs1 @ rs2"
      using Cons.prems(3) c Receive by (auto simp: Let_def split: prod.splits)
    then have "I c" using Cons.prems c Receive by (intro queue_keeps [of a cmds c rs1]) auto
    then show ?thesis using Cons.IH [of c rs2] Cons.prems(2,4) rest by auto
  qed
qed simp

lemma start_keeps: "I (tracker_new dir mode w) \<Longrightarrow> I (tracker_start env dir mode w)"
  by (auto simp: tracker_start_def Let_def intro: dirty_cache_keeps)

end

section \<open>The invariants\<close>

lemma consistent_new: "consistent env (tracker_new dir mode w)"
  by (simp add: consistent_def ids_ok_def all_described_def tracker_new_def ids_rel_def indexed_def get_hunks_for_path_def)

definition agent_files_only :: "'w HunkTrackerActor \<Rightarrow> bool" where
  "agent_files_only a \<longleftrightarrow>
     distinct (map fst (file_states a))
   \<and> (tracking_mode a = AgentOnly \<longrightarrow> (\<forall>p st. file_of a p = Some st \<longrightarrow> is_agent_file st))"

lemma agent_files_only_new: "agent_files_only (tracker_new dir mode w)"
  by (simp add: agent_files_only_def tracker_new_def)

text \<open>What the environment provides: fresh identifiers do not repeat, and a map is iterated over completely.\<close>

locale tracker_world =
  fixes env :: "'w TrackerEnv"
  assumes orders: "iteration_order (path_order env)"
    and fresh: "inj (new_hunk_id (env_diff env))"

sublocale tracker_world \<subseteq> ids: tracker_invariant env False "consistent (env_diff env)"
proof unfold_locales
  show "iteration_order (path_order env)" by (rule orders)
  show "distinct (map fst (file_states a))" if "consistent (env_diff env) a" for a :: "'w HunkTrackerActor"
    using that by (simp add: consistent_def ids_ok_def)
qed (auto simp: same_core_def tracked_file_def fresh
    intro: consistent_frame consistent_recompute consistent_clear consistent_same consistent_clear_unindex consistent_rebase
      consistent_untrack consistent_accept consistent_reject)

lemma recompute_keys:
  "distinct (map fst (file_states a)) \<Longrightarrow> distinct (map fst (file_states (recompute_hunks env path cur source a)))"
  by (simp add: recompute_hunks_def Let_def distinct_update split: option.split)

lemma agent_recompute:
  "agent_files_only a \<Longrightarrow> agent_files_only (recompute_hunks env path cur source a)"
  by (auto simp: agent_files_only_def recompute_keys recompute_file Let_def split: if_splits)

lemma agent_set_file:
  "agent_files_only a \<Longrightarrow> is_agent_file st' \<or> tracking_mode a = AllDirty \<or> file_of a path = Some st \<and> is_agent_file st' = is_agent_file st
     \<Longrightarrow> agent_files_only (set_file path st' a)"
  by (auto simp: agent_files_only_def distinct_update update_conv' split: if_splits)

lemma agent_frame:
  "agent_files_only a \<Longrightarrow> file_states b = file_states a \<Longrightarrow> tracking_mode b = tracking_mode a \<Longrightarrow> agent_files_only b"
  by (simp add: agent_files_only_def)

lemma agent_simps [simp]:
  "agent_files_only (send_all es a) = agent_files_only a" "agent_files_only (a\<lparr>world := w\<rparr>) = agent_files_only a"
  "agent_files_only (fold (book_hunk act) hs a) = agent_files_only a"
  by (simp_all add: agent_files_only_def)

lemma agent_accept: "agent_files_only a \<Longrightarrow> agent_files_only (accept_hunks_batch env path hs a)"
  by (auto simp: accept_hunks_batch_def Let_def split: option.split intro!: agent_recompute agent_set_file)

lemma agent_reject: "agent_files_only a \<Longrightarrow> reject_hunks_batch env path hs a = (b, err) \<Longrightarrow> agent_files_only b"
  by (auto simp: reject_hunks_batch_def write_file_def remove_file_def Let_def
      split: if_splits option.splits FileContentState.splits prod.splits intro!: agent_recompute agent_set_file)

sublocale tracker_world \<subseteq> modes: tracker_invariant env True agent_files_only
proof unfold_locales
  show "iteration_order (path_order env)" by (rule orders)
  show "distinct (map fst (file_states a))" if "agent_files_only a" for a :: "'w HunkTrackerActor"
    using that by (simp add: agent_files_only_def)
  show "agent_files_only (a\<lparr>tracking_mode := AllDirty\<rparr>)" if "agent_files_only a" for a :: "'w HunkTrackerActor"
    using that by (simp add: agent_files_only_def)
  show "agent_files_only (a\<lparr>tracking_mode := AgentOnly\<rparr>)"
    if "agent_files_only a" "\<forall>p st. file_of a p = Some st \<longrightarrow> is_agent_file st" for a :: "'w HunkTrackerActor"
    using that by (simp add: agent_files_only_def)
  show "agent_files_only b" if "agent_files_only a" "reject_hunks_batch env path hs (fold (book_hunk Reject) hs a) = (b, err)"
    for a b :: "'w HunkTrackerActor" and path hs err
    using agent_reject [OF _ that(2)] that(1) by simp
  show "agent_files_only (untrack_file path st' a)" if "agent_files_only a" for a :: "'w HunkTrackerActor" and path st'
    using that
    by (auto simp: agent_files_only_def untrack_file_def clear_file_hunks_def distinct_delete delete_conv' split: if_splits)
qed (auto simp: same_core_def tracked_file_def clear_file_hunks_def
    intro: agent_frame agent_recompute agent_set_file agent_accept agent_reject)

end
