(* ===== verification/Hunk_Properties.thy ===== *)
theory Hunk_Properties
  imports Hunk_Laws
begin

text \<open>
  What the hunk tracker promises after any run: the pending hunks describe the files and can be looked up by
  turn, accepting a file makes its baseline the current content, rejecting it writes the baseline back, and in
  the agent mode only files of the agent are tracked.
\<close>

section \<open>Runs\<close>

context tracker_world
begin

lemma run_consistent:
  assumes "run_tracker env steps (tracker_start env dir mode w) = (a, replies)" and "list_all ordinary_step steps"
    and "\<not> list_ex reply_failed replies"
  shows "consistent (env_diff env) a"
  using ids.run_keeps [OF ids.start_keeps [OF consistent_new] assms(2,1)] assms(3) by blast

lemma run_agent_files:
  assumes "run_tracker env steps (tracker_start env dir mode w) = (a, replies)" and "list_all ordinary_step steps"
  shows "agent_files_only a"
  using modes.run_keeps [OF modes.start_keeps [OF agent_files_only_new] assms(2,1)] by blast

end

text \<open>The hunks of two texts are what the collecting loop makes of their changes.\<close>

lemma described_text:
  assumes "described env path st" and "hunks st \<noteq> []" and "baseline st = Full b" and "current_content st = Full c"
  shows "map hunk_shape (hunks st) = map (builder_shape path) (collect_hunks (diff_lines env b c) 1 1 None)"
proof -
  obtain n source where "map hunk_shape (hunks st) = map hunk_shape (compute_hunks env n path b c source)"
    using assms by (auto simp: described_def fresh_hunks_def)
  with assms(2) show ?thesis by (auto simp: compute_hunks_def build_all_shapes split: if_splits)
qed

lemma fresh_hunks_same: "fresh_hunks env n path s s source = []"
  by (cases s) (simp_all add: fresh_hunks_def compute_hunks_def)

lemma recompute_same:
  "file_of a path = Some st \<Longrightarrow> baseline st = s \<Longrightarrow>
     file_of (recompute_hunks env path (Some s) source a) path = Some (st\<lparr>current_content := s, hunks := []\<rparr>)"
  by (simp add: recompute_file Let_def fresh_hunks_same)

section \<open>Accepting and rejecting a file\<close>

text \<open>
  The files whose pending hunks can be accepted, or rejected, exactly: a created or deleted file, or text with Unix line ends
  on both sides that the patching of lines does not cut short.
\<close>

definition acceptable :: "DiffEnv \<Rightarrow> FileHunkState \<Rightarrow> bool" where
  "acceptable env st \<longleftrightarrow>
     (case (baseline st, current_content st) of
        (Missing, _) \<Rightarrow> True
      | (Full b, Full c) \<Rightarrow> unix_text b \<and> unix_text c \<and> b \<noteq> [] \<and> c \<noteq> [nl] \<and> kept_lines (diff_lines env b c) \<noteq> [[nl]]
      | _ \<Rightarrow> False)"

definition rejectable :: "DiffEnv \<Rightarrow> FileHunkState \<Rightarrow> bool" where
  "rejectable env st \<longleftrightarrow>
     (case (baseline st, current_content st) of
        (Full b, Full c) \<Rightarrow> unix_text b \<and> unix_text c \<and> c \<noteq> [] \<and> b \<noteq> [nl] \<and> kept_lines (diff_lines env b c) \<noteq> [[nl]]
      | _ \<Rightarrow> True)"

text \<open>The one call to the file system that a rejected file should lead to.\<close>

definition restore_baseline :: "'w TrackerFs \<Rightarrow> PathBuf \<Rightarrow> FileHunkState \<Rightarrow> 'w \<Rightarrow> 'w \<times> string option" where
  "restore_baseline fs path st w =
     (case baseline st of Full b \<Rightarrow> fs_write fs w path b | _ \<Rightarrow> fs_remove_file fs w path)"

lemma drop_all: "filter (\<lambda>q. hunk_id q \<notin> hunk_id ` set hs) hs = []"
  by (auto simp: filter_empty_conv)

lemma accept_file:
  assumes st: "file_of a path = Some st" "described env path st" "hunks st \<noteq> []"
    and differ: "line_differ env" and ok: "acceptable env st"
    and b: "b = accept_hunks_batch env path (hunks st) a"
  shows "\<exists>st'. file_of b path = Some st' \<and> baseline st' = current_content st \<and> current_content st' = current_content st
    \<and> hunks st' = [] \<and> world b = world a"
proof (cases "baseline st = Missing")
  case True
  with st b show ?thesis by (simp add: accept_hunks_batch_def Let_def update_conv' drop_all)
next
  case False
  with ok obtain old new where texts: "baseline st = Full old" "current_content st = Full new"
    by (auto simp: acceptable_def split: FileContentState.splits)
  with ok have "fold accept_patch (sort_key (\<lambda>h. - int (old_start (line_info h))) (hunks st)) (Full old) = Full new"
    using described_text [OF st(2,3) texts] differ by (intro accept_all_text) (auto simp: acceptable_def)
  with st texts b show ?thesis
    by (simp add: accept_hunks_batch_def Let_def recompute_file update_conv' fresh_hunks_same drop_all)
qed

lemma reject_file:
  assumes st: "file_of a path = Some st" "described (env_diff env) path st" "hunks st \<noteq> []"
    and differ: "line_differ (env_diff env)" and ok: "rejectable (env_diff env) st"
    and call: "restore_baseline (env_fs env) path st (world a) = (w, None)"
  shows "\<exists>b st'. reject_hunks_batch env path (hunks st) a = (b, None) \<and> file_of b path = Some st' \<and> baseline st' = baseline st
    \<and> current_content st' = baseline st \<and> hunks st' = [] \<and> world b = w"
  using st(2,3)
proof (cases rule: described_cases)
  case (1 old new)
  with ok have "fold revert_patch (sort_key (\<lambda>h. - int (new_start (line_info h))) (hunks st)) new = old"
    using described_text [OF st(2,3) 1] differ by (intro revert_all_text) (auto simp: rejectable_def)
  with 1 st call show ?thesis
    by (simp add: reject_hunks_batch_def restore_baseline_def write_file_def Let_def recompute_file update_conv' fresh_hunks_same drop_all)
next
  case (2 old h)
  with st call show ?thesis
    by (simp add: reject_hunks_batch_def restore_baseline_def write_file_def Let_def update_conv')
next
  case (3 new h)
  with st call show ?thesis
    by (simp add: reject_hunks_batch_def restore_baseline_def remove_file_def Let_def update_conv')
qed

lemma file_action_batch:
  assumes "file_of a path = Some st" and "hunks st \<noteq> []"
  shows "tracker_command env (FileAction path Accept) a =
       (accept_hunks_batch (env_diff env) path (hunks st) (fold (book_hunk Accept) (hunks st) a), AffectedReply (Inr (map hunk_id (hunks st))))"
    and "reject_hunks_batch env path (hunks st) (fold (book_hunk Reject) (hunks st) a) = (b, None)
       \<Longrightarrow> tracker_command env (FileAction path Reject) a = (b, AffectedReply (Inr (map hunk_id (hunks st))))"
  using assms by (simp_all add: apply_file_action_def Let_def)

section \<open>Looking up hunks\<close>

lemma find_SomeD: "find P xs = Some x \<Longrightarrow> x \<in> set xs \<and> P x"
  by (auto simp: find_Some_iff)

lemma set_map_filter: "y \<in> set (List.map_filter f xs) \<longleftrightarrow> (\<exists>x \<in> set xs. f x = Some y)"
  by (force simp: List.map_filter_def)

lemma in_all_hunks:
  assumes "iteration_order (path_order env)"
  shows "h \<in> set (get_all_hunks env a) \<longleftrightarrow> (\<exists>path. h \<in> set (get_hunks_for_path path a))"
proof -
  have "h \<in> set (get_all_hunks env a) \<longleftrightarrow> (\<exists>p st. (p, st) \<in> set (entries (path_order env) (file_states a)) \<and> h \<in> set (hunks st))"
    by (simp add: get_all_hunks_def Bex_def split_paired_Ex)
  moreover have "h \<in> set (get_hunks_for_path p a) \<longleftrightarrow> (\<exists>st. file_of a p = Some st \<and> h \<in> set (hunks st))" for p
    by (cases "file_of a p") (simp_all add: get_hunks_for_path_def)
  ultimately show ?thesis by (simp add: in_entries [OF assms])
qed

text \<open>Identifiers are unique over all files.\<close>

lemma consistent_unique:
  assumes "consistent env a" and "h \<in> set (get_hunks_for_path p a)" and "k \<in> set (get_hunks_for_path q a)" and "hunk_id h = hunk_id k"
  shows "p = q \<and> h = k"
proof -
  have rel: "ids_rel env (\<lambda>p. get_hunks_for_path p a) (indexed (turn_index a)) (draws a)"
    using assms(1) by (simp add: consistent_def ids_ok_def)
  have "p = q" using ids_relD(4) [OF rel _ assms(2,3)] assms(4) by auto
  with ids_relD(1) [OF rel, of p] assms(2-4) distinct_ids_inj show ?thesis by metis
qed

lemma get_hunk_exact:
  assumes "iteration_order (path_order env)" and "consistent (env_diff env) a"
  shows "get_hunk env hid a = Some h \<longleftrightarrow> hunk_id h = hid \<and> (\<exists>path. h \<in> set (get_hunks_for_path path a))"
proof
  assume "get_hunk env hid a = Some h"
  then show "hunk_id h = hid \<and> (\<exists>path. h \<in> set (get_hunks_for_path path a))"
    using in_all_hunks [OF assms(1)] by (auto simp: get_hunk_def dest!: find_SomeD)
next
  assume h: "hunk_id h = hid \<and> (\<exists>path. h \<in> set (get_hunks_for_path path a))"
  then have "get_hunk env hid a \<noteq> None"
    using in_all_hunks [OF assms(1)] by (auto simp: get_hunk_def find_None_iff)
  then obtain k where k: "get_hunk env hid a = Some k" by blast
  then have "hunk_id k = hid" "\<exists>path. k \<in> set (get_hunks_for_path path a)"
    using in_all_hunks [OF assms(1)] by (auto simp: get_hunk_def dest!: find_SomeD)
  with h k show "get_hunk env hid a = Some h" using consistent_unique [OF assms(2)] by metis
qed

lemma turn_hunks_exact:
  assumes "iteration_order (path_order env)" and "iteration_order (id_order env)" and "consistent (env_diff env) a"
  shows "h \<in> set (get_hunks_for_turn env i a) \<longleftrightarrow>
     prompt_index (hunk_source h) = Some i \<and> (\<exists>path. h \<in> set (get_hunks_for_path path a))"
proof -
  have rel: "ids_rel (env_diff env) (\<lambda>p. get_hunks_for_path p a) (indexed (turn_index a)) (draws a)"
    using assms(3) by (simp add: consistent_def ids_ok_def)
  have "h \<in> set (get_hunks_for_turn env i a) \<longleftrightarrow> (\<exists>hid \<in> indexed (turn_index a) i. get_hunk env hid a = Some h)"
    using assms(2) by (auto simp: get_hunks_for_turn_def indexed_def iteration_order_def set_map_filter split: option.splits)
  also have "\<dots> \<longleftrightarrow> hunk_id h \<in> indexed (turn_index a) i \<and> (\<exists>path. h \<in> set (get_hunks_for_path path a))"
    by (auto simp: get_hunk_exact [OF assms(1,3)])
  also have "\<dots> \<longleftrightarrow> prompt_index (hunk_source h) = Some i \<and> (\<exists>path. h \<in> set (get_hunks_for_path path a))"
    using ids_relD(3) [OF rel] by blast
  finally show ?thesis .
qed

section \<open>A sample environment\<close>

text \<open>
  A differ that keeps the common lines at the start and exchanges the rest, no repository, and the file system of
  \<open>File_Content\<close>: it meets what the properties ask of the environment.
\<close>

fun exchange_rest :: "string list \<Rightarrow> string list \<Rightarrow> changes" where
  "exchange_rest (x # xs) (y # ys) =
     (if x = y then (Equal, x) # exchange_rest xs ys
      else map (Pair Delete) (x # xs) @ map (Pair Insert) (y # ys))"
| "exchange_rest xs ys = map (Pair Delete) xs @ map (Pair Insert) ys"

definition ended_lines :: "string \<Rightarrow> string list" where
  "ended_lines s = map (\<lambda>l. l @ [nl]) (str_lines s)"

definition sample_tracker_env :: "(PathBuf \<rightharpoonup> string) TrackerEnv" where
  "sample_tracker_env =
     \<lparr>env_diff = \<lparr>diff_lines = \<lambda>old new. exchange_rest (ended_lines old) (ended_lines new), diff_timed_out = \<lambda>n. False,
        new_hunk_id = \<lambda>n. replicate n (CHR ''h''), utc_now = int\<rparr>,
      env_fs = sample_fs,
      env_git = \<lparr>git_discover = \<lambda>w p. None, git_head_entry = \<lambda>w r p. None, git_index_len = \<lambda>w r. None,
        git_status = \<lambda>w r ps. None, git_sync = \<lambda>w r. \<lparr>head_oid = None, index_mtime = None\<rparr>, blocking_ok = \<lambda>w. True\<rparr>,
      path_order = \<lambda>ps. ps, id_order = \<lambda>ids. ids\<rparr>"

lemma unix_text_lines: "unix_text s \<Longrightarrow> \<exists>ls. list_all plain_line ls \<and> s = unlines ls"
proof (induction s)
  case Nil
  show ?case by (intro exI [of _ "[]"]) simp
next
  case (Cons c s)
  show ?case
  proof (cases "s = []")
    case True
    with Cons.prems show ?thesis by (intro exI [of _ "[[]]"]) (simp add: unix_text_def plain_line_def)
  next
    case False
    with Cons.prems have "unix_text s" by (simp add: unix_text_def)
    with Cons.IH False obtain l ls where ls: "list_all plain_line (l # ls)" "s = unlines (l # ls)"
      by (metis neq_Nil_conv unlines_simps(1))
    with Cons.prems show ?thesis
      by (intro exI [of _ "if c = nl then [] # l # ls else (c # l) # ls"])
        (auto simp: unix_text_def plain_line_def list_all_iff)
  qed
qed

lemma side_maps [simp]:
  "old_side (map (Pair Delete) xs @ map (Pair Insert) ys) = xs" "new_side (map (Pair Delete) xs @ map (Pair Insert) ys) = ys"
  by (simp_all add: old_side_def new_side_def comp_def filter_map)

lemma exchange_rest_sides: "old_side (exchange_rest xs ys) = xs \<and> new_side (exchange_rest xs ys) = ys"
  by (induction xs ys rule: exchange_rest.induct) (auto simp del: list.map)

lemma exchange_rest_lines: "snd ` set (exchange_rest xs ys) \<subseteq> set xs \<union> set ys"
  by (induction xs ys rule: exchange_rest.induct) auto

lemma ended_lines_unix:
  "unix_text s \<Longrightarrow> concat (ended_lines s) = s \<and> list_all whole_line (ended_lines s)"
proof -
  assume "unix_text s"
  then obtain ls where ls: "list_all plain_line ls" "s = unlines ls" using unix_text_lines by blast
  then have "ended_lines s = map (\<lambda>l. l @ [nl]) ls" by (simp add: ended_lines_def str_lines_unlines)
  with ls show ?thesis by (simp add: unlines_def whole_line_def list_all_iff)
qed

lemma sample_differ: "line_differ (env_diff sample_tracker_env)"
proof -
  have "list_all (\<lambda>(t, v). whole_line v) (exchange_rest xs ys)" if "list_all whole_line xs" "list_all whole_line ys" for xs ys
    using that exchange_rest_lines [of xs ys] by (fastforce simp: list_all_iff)
  then show ?thesis by (simp add: line_differ_def sample_tracker_env_def exchange_rest_sides ended_lines_unix)
qed

lemma sample_orders: "iteration_order (path_order sample_tracker_env)" "iteration_order (id_order sample_tracker_env)"
  by (simp_all add: iteration_order_def sample_tracker_env_def)

lemma sample_ids: "inj (new_hunk_id (env_diff sample_tracker_env))"
  by (auto simp: inj_def sample_tracker_env_def dest: arg_cong [where f = length])

interpretation sample: tracker_world sample_tracker_env
  using sample_orders(1) sample_ids by unfold_locales

definition sample_path :: PathBuf where "sample_path = [RootDir, Normal ''f'']"

definition sample_before :: string where "sample_before = unlines [''a'', ''b'']"

definition sample_after :: string where "sample_after = unlines [''a'', ''c'', ''d'']"

definition sample_steps :: "(PathBuf \<rightharpoonup> string) TrackerStep list" where
  "sample_steps =
     [Outside [sample_path \<mapsto> sample_after], Receive [RecordAgentWrite sample_path sample_after 4 (Some sample_before)]]"

definition sample_hunk :: TrackedHunk where
  "sample_hunk =
     \<lparr>hunk_id = [], hunk_path = sample_path, line_info = \<lparr>old_start = 2, old_count = 1, new_start = 2, new_count = 2\<rparr>,
      hunk_source = AgentEdit 4, old_text = Some (unlines [''b'']), new_text = unlines [''c'', ''d''], hunk_patch = None,
      created_at = 0, selected = False\<rparr>"

definition sample_state :: FileHunkState where
  "sample_state =
     \<lparr>baseline = Full sample_before, current_content = Full sample_after, hunks = [sample_hunk], is_agent_file = True,
      baseline_accepted = False\<rparr>"

lemma sample_classified: "classify_string sample_before = Full sample_before" "classify_string sample_after = Full sample_after"
  by (simp_all add: classify_string_def Let_def MAX_TRACKED_TEXT_BYTES_def is_lfs_pointer_def is_binary_def
      LFS_POINTER_PREFIX_def starts_with_def sample_before_def sample_after_def)

lemma sample_changes:
  "diff_lines (env_diff sample_tracker_env) sample_before sample_after =
     [(Equal, ''a'' @ [nl]), (Delete, ''b'' @ [nl]), (Insert, ''c'' @ [nl]), (Insert, ''d'' @ [nl])]"
proof -
  have "str_lines sample_before = [''a'', ''b'']" "str_lines sample_after = [''a'', ''c'', ''d'']"
    unfolding sample_before_def sample_after_def by (rule str_lines_unlines, simp add: plain_line_def)+
  then show ?thesis by (simp add: sample_tracker_env_def ended_lines_def)
qed

lemma sample_fresh:
  "fresh_hunks (env_diff sample_tracker_env) 0 sample_path (Full sample_before) (Full sample_after) (AgentEdit 4) = [sample_hunk]"
proof -
  have "sample_before \<noteq> sample_after" "length sample_before \<le> MAX_DIFF_FILE_SIZE" "length sample_after \<le> MAX_DIFF_FILE_SIZE"
    by (simp_all add: sample_before_def sample_after_def MAX_DIFF_FILE_SIZE_def)
  then show ?thesis
    by (simp add: fresh_hunks_def compute_hunks_def sample_changes in_progress_def builder_new_def add_old_line_def
        add_new_line_def build_hunk_def sample_hunk_def) (simp add: sample_tracker_env_def)
qed

lemma sample_read:
  "git_repo_state a = Unknown \<Longrightarrow> read_baseline sample_tracker_env path a = (a\<lparr>git_repo_state := NotARepo\<rparr>, Missing)"
  by (simp add: read_baseline_def open_or_discover_def head_content_def) (simp add: sample_tracker_env_def missing_content_def)

lemma sample_kept: "preserve_ids [] [] [sample_hunk] = [sample_hunk]" "reindex sample_hunk [] = [(4, [[]])]"
  by (simp_all add: find_matching_old_hunk_def reindex_def sample_hunk_def index_insert_def)

definition sample_end :: "(PathBuf \<rightharpoonup> string) HunkTrackerActor" where
  "sample_end = fst (run_tracker sample_tracker_env sample_steps (tracker_start sample_tracker_env [RootDir] AgentOnly Map.empty))"

lemma sample_run:
  "run_tracker sample_tracker_env sample_steps (tracker_start sample_tracker_env [RootDir] AgentOnly Map.empty) = (sample_end, [Silent])"
  by (simp add: sample_end_def sample_steps_def)

lemma sample_end_simps [simp]:
  "file_states sample_end = [(sample_path, sample_state)]" "tracking_mode sample_end = AgentOnly"
  "world sample_end = [sample_path \<mapsto> sample_after]"
  using sample_kept(1)
  by (simp_all add: sample_end_def sample_steps_def tracker_start_def tracker_new_def record_agent_write_def sample_classified
      sample_read recompute_hunks_def set_file_def tracked_file_def sample_fresh sample_state_def send_def send_all_def Let_def
      del: preserve_ids.simps)

lemma sample_state_simps [simp]:
  "hunks sample_state = [sample_hunk]" "baseline sample_state = Full sample_before"
  "current_content sample_state = Full sample_after" "hunk_id sample_hunk = []"
  by (simp_all add: sample_state_def sample_hunk_def)

lemma sample_texts:
  "acceptable (env_diff sample_tracker_env) sample_state" "rejectable (env_diff sample_tracker_env) sample_state"
  by (simp_all add: acceptable_def rejectable_def sample_changes) (simp_all add: unix_text_def sample_before_def sample_after_def)

lemma sample_ordinary: "list_all ordinary_step sample_steps"
  by (simp add: sample_steps_def)

lemma sample_replies: "\<not> list_ex reply_failed [Silent]"
  by simp

lemma sample_pending: "file_of sample_end sample_path = Some sample_state" "hunks sample_state \<noteq> []"
  by simp_all

lemma sample_answer: "map hunk_id (hunks sample_state) = [[]]"
  by simp

lemmas sample_facts = sample_run sample_ordinary

section \<open>Properties\<close>

text \<open>
  C30: After any run of the tracker the pending hunks are what they say. Take a run from the start of the actor, of commands and,
  between the passes of its loop, of changes of the world, in which no command restores a snapshot or moves the working directory and no accepting or
  rejecting fails on input or output; let maps be iterated over completely and drawn identifiers not repeat. Then no two
  pending hunks of any files share an identifier; a query for a turn returns exactly the pending hunks attributed to
  it, whatever was accepted, rejected, superseded or recomputed before; and the pending hunks of a file, if it has any, have exactly
  the path, line ranges and texts of those computed afresh from its baseline and its current content.
\<close>

theorem pending_hunks_exact:
  assumes "iteration_order (path_order env)" and "iteration_order (id_order env)" and "inj (new_hunk_id (env_diff env))"
    and "run_tracker env steps (tracker_start env dir mode w) = (a, replies)" and "list_all ordinary_step steps"
    and "\<not> list_ex reply_failed replies"
  shows "(\<forall>p q h k. h \<in> set (get_hunks_for_path p a) \<longrightarrow> k \<in> set (get_hunks_for_path q a) \<longrightarrow> hunk_id h = hunk_id k \<longrightarrow> p = q \<and> h = k)
    \<and> (\<forall>i. set (get_hunks_for_turn env i a)
         = {h. prompt_index (hunk_source h) = Some i \<and> (\<exists>path. h \<in> set (get_hunks_for_path path a))})
    \<and> (\<forall>path st. file_of a path = Some st \<longrightarrow> hunks st \<noteq> [] \<longrightarrow>
         (\<exists>n source. map hunk_shape (hunks st)
            = map hunk_shape (fresh_hunks (env_diff env) n path (baseline st) (current_content st) source)))"
proof -
  have world: "tracker_world env" using assms(1,3) by (rule tracker_world.intro)
  note ok = tracker_world.run_consistent [OF world assms(4-6)]
  have "\<forall>i. set (get_hunks_for_turn env i a)
      = {h. prompt_index (hunk_source h) = Some i \<and> (\<exists>path. h \<in> set (get_hunks_for_path path a))}"
    using turn_hunks_exact [OF assms(1,2) ok] by blast
  moreover have "described (env_diff env) path st" if "file_of a path = Some st" for path st
    using ok that by (simp add: consistent_def all_described_def)
  ultimately show ?thesis using consistent_unique [OF ok] unfolding described_def by blast
qed

theorem pending_hunks_exact_witness: "set (get_hunks_for_turn sample_tracker_env 4 sample_end) = {sample_hunk}"
proof -
  have "set (get_hunks_for_turn sample_tracker_env 4 sample_end)
      = {h. prompt_index (hunk_source h) = Some 4 \<and> (\<exists>path. h \<in> set (get_hunks_for_path path sample_end))}"
    using pending_hunks_exact [OF sample_orders sample_ids sample_facts sample_replies] by blast
  then show ?thesis by (auto simp: get_hunks_for_path_def sample_hunk_def)
qed

text \<open>
  C29: Accepting the changes of a file makes them its baseline. After a run as above, with a differ that delivers the lines of
  both texts, let a file with pending hunks be new, or be text with Unix line ends on both sides whose baseline is
  not empty, whose current content is not one empty line, and where an empty line is not all that both share. Then accepting
  the file reports all its hunks, leaves the baseline equal to the current content and no hunk pending, and touches neither
  the disk nor any other file.
\<close>

theorem accept_all_converges:
  assumes "iteration_order (path_order env)" and "inj (new_hunk_id (env_diff env))" and "line_differ (env_diff env)"
    and "run_tracker env steps (tracker_start env dir mode w) = (a, replies)" and "list_all ordinary_step steps"
    and "\<not> list_ex reply_failed replies"
    and "file_of a path = Some st" and "hunks st \<noteq> []" and "acceptable (env_diff env) st"
  shows "\<exists>b st'. tracker_command env (FileAction path Accept) a = (b, AffectedReply (Inr (map hunk_id (hunks st))))
    \<and> file_of b path = Some st' \<and> baseline st' = current_content st \<and> current_content st' = current_content st \<and> hunks st' = []
    \<and> world b = world a \<and> (\<forall>q. q \<noteq> path \<longrightarrow> file_of b q = file_of a q)"
proof -
  have world: "tracker_world env" using assms(1,2) by (rule tracker_world.intro)
  have "described (env_diff env) path st"
    using tracker_world.run_consistent [OF world assms(4-6)] assms(7) by (simp add: consistent_def all_described_def)
  moreover let ?a = "fold (book_hunk Accept) (hunks st) a"
  have "file_of ?a path = Some st" using assms(7) by simp
  ultimately have "\<exists>st'. file_of (accept_hunks_batch (env_diff env) path (hunks st) ?a) path = Some st'
      \<and> baseline st' = current_content st \<and> current_content st' = current_content st \<and> hunks st' = []
      \<and> world (accept_hunks_batch (env_diff env) path (hunks st) ?a) = world ?a"
    using assms(3,8,9) by (intro accept_file) simp_all
  then show ?thesis
    using file_action_batch(1) [OF assms(7,8), of env] accept_file_others [of _ path "env_diff env" "hunks st" ?a] by simp
qed

theorem accept_all_converges_witness:
  "\<exists>b st'. tracker_command sample_tracker_env (FileAction sample_path Accept) sample_end = (b, AffectedReply (Inr [[]]))
    \<and> file_of b sample_path = Some st' \<and> baseline st' = Full sample_after \<and> hunks st' = []"
  using accept_all_converges [OF sample_orders(1) sample_ids sample_differ sample_facts sample_replies sample_pending sample_texts(1)]
  unfolding sample_answer unfolding sample_state_simps
    by (elim exE conjE) (rule exI, rule exI, intro conjI; assumption)

text \<open>
  C28: Rejecting the changes of a file undoes them. After a run as above, let a file with pending hunks be new, or deleted, or text
  with Unix line ends on both sides whose current content is not empty, whose baseline is not one empty line, and where
  an empty line is not all that both share. If the one call that restores the file succeeds (writing the baseline, or
  removing a file that had none), then rejecting the file makes exactly this call, reports all hunks, leaves the
  baseline as it was with the current content equal to it and no hunk pending, and touches no other file of the state.
\<close>

theorem reject_all_restores:
  assumes "iteration_order (path_order env)" and "inj (new_hunk_id (env_diff env))" and "line_differ (env_diff env)"
    and "run_tracker env steps (tracker_start env dir mode w) = (a, replies)" and "list_all ordinary_step steps"
    and "\<not> list_ex reply_failed replies"
    and "file_of a path = Some st" and "hunks st \<noteq> []" and "rejectable (env_diff env) st"
    and "restore_baseline (env_fs env) path st (world a) = (w', None)"
  shows "\<exists>b st'. tracker_command env (FileAction path Reject) a = (b, AffectedReply (Inr (map hunk_id (hunks st))))
    \<and> file_of b path = Some st' \<and> baseline st' = baseline st \<and> current_content st' = baseline st \<and> hunks st' = []
    \<and> world b = w' \<and> (\<forall>q. q \<noteq> path \<longrightarrow> file_of b q = file_of a q)"
proof -
  have world: "tracker_world env" using assms(1,2) by (rule tracker_world.intro)
  let ?a = "fold (book_hunk Reject) (hunks st) a"
  have "described (env_diff env) path st"
    using tracker_world.run_consistent [OF world assms(4-6)] assms(7) by (simp add: consistent_def all_described_def)
  then obtain b st' where b: "reject_hunks_batch env path (hunks st) ?a = (b, None)" "file_of b path = Some st'"
    "baseline st' = baseline st" "current_content st' = baseline st" "hunks st' = []" "world b = w'"
    using reject_file [of ?a path st env w'] assms(3,7-10) by auto
  have "file_of b q = file_of a q" if "q \<noteq> path" for q
    using reject_file_others [OF that b(1)] by simp
  with b file_action_batch(2) [OF assms(7,8) b(1)] show ?thesis by blast
qed

theorem reject_all_restores_witness:
  "\<exists>b st'. tracker_command sample_tracker_env (FileAction sample_path Reject) sample_end = (b, AffectedReply (Inr [[]]))
    \<and> file_of b sample_path = Some st' \<and> current_content st' = Full sample_before \<and> hunks st' = []
    \<and> world b = [sample_path \<mapsto> sample_before]"
proof -
  have "restore_baseline (env_fs sample_tracker_env) sample_path sample_state (world sample_end) = ([sample_path \<mapsto> sample_before], None)"
    by (simp add: restore_baseline_def sample_tracker_env_def sample_fs_def)
  from reject_all_restores [OF sample_orders(1) sample_ids sample_differ sample_facts sample_replies sample_pending sample_texts(2) this]
  show ?thesis unfolding sample_answer unfolding sample_state_simps
    by (elim exE conjE) (rule exI, rule exI, intro conjI; assumption)
qed

text \<open>
  C31: In the agent mode only files of the agent are tracked. After any run of commands that neither restore a snapshot nor move
  the working directory, whatever failed in it and whatever happened to the world, every file that is tracked while
  the mode is \<open>AgentOnly\<close> is marked as one of the agent: switching to this mode untracks all others, and neither a
  notification nor a refresh from git adds one.
\<close>

theorem agent_mode_tracks_agent_files:
  assumes "iteration_order (path_order env)" and "inj (new_hunk_id (env_diff env))"
    and "run_tracker env steps (tracker_start env dir mode w) = (a, replies)" and "list_all ordinary_step steps"
    and "tracking_mode a = AgentOnly" and "file_of a path = Some st"
  shows "is_agent_file st"
proof -
  have world: "tracker_world env" using assms(1,2) by (rule tracker_world.intro)
  show ?thesis using tracker_world.run_agent_files [OF world assms(3,4)] assms(5,6) by (simp add: agent_files_only_def)
qed

theorem agent_mode_tracks_agent_files_witness: "file_of sample_end sample_path = Some sample_state \<and> is_agent_file sample_state"
  using agent_mode_tracks_agent_files [OF sample_orders(1) sample_ids sample_facts, of sample_path sample_state] by simp

end
