(* ===== verification/Spec2Isabelle.thy ===== *)
theory Spec2Isabelle
  imports
    Rust_Prelude Bash_Words Bash_Script Unix_Path Permission_Rules Shell_Inline Permission_Match
    Symlink_Follow Permission_Policy Bash_Gate Shell_Tree Exec_Risk Sliding_Window Circuit_Breaker Breaker_Laws
    Shell_Access Edit_Protection Security_Findings Domain_Matcher Session_Grants Bash_Evaluation
    Routine_Bash Url_Match Managed_Policy Patch_Parser Apply_Patch Patch_Tool
    Scheduler Scheduler_Actor Scheduler_Laws Scheduler_Progress Scheduler_Tools Occurrence_Journal
    Conversation Conversation_Repair Turn_Selection Summary_Text Compaction
    Usage_Ledger Float64 Image_Budget Chat_State Chat_Actor Chat_Laws
    Breaker_Races Retry_Policy Message_Delivery Agent_Identity Interjection
    File_Content Hunk_Diff Hunk_Tracker Hunk_Watch Hunk_Actor Hunk_Patch Hunk_Consistency Hunk_Laws Hunk_Properties
begin

text \<open>
  A coding agent that runs in a terminal, and what decides whether it may act. The repository is a
  workspace of Rust crates below \<open>src/crates\<close>. A session (\<open>codegen/xai-grok-shell\<close>,
  \<open>codegen/xai-grok-agent\<close>) samples a model, runs the tools it asks for (\<open>codegen/xai-grok-tools\<close>) and
  shows the result in a terminal interface (\<open>codegen/xai-grok-pager\<close>). Before a tool runs, its access goes
  through the permission code of \<open>codegen/xai-grok-workspace/src/permission\<close>; calls to services go through
  \<open>common/xai-circuit-breaker\<close>; messages between agents and to running turns go through
  \<open>common/xai-message-delivery-core\<close>, \<open>common/xai-interjection-core\<close> and \<open>codegen/xai-prompt-queue\<close>; the
  conversation itself is owned by the actor of \<open>codegen/xai-chat-state\<close>, which keeps it in order for the provider and within
  the window of the model; what the agent and others changed in the files is followed by the tracker of
  \<open>codegen/xai-hunk-tracker\<close>. These are the parts modelled here, with two of the tools, the patch tool and the scheduler of
  recurring prompts: they hold the program's own decisions and its shared state. The properties are numbered C1, C2, \<dots> in the order of importance; each stands with its proof in the theory
  of its component.

  \<^bold>\<open>How an access is decided, and where it is modelled.\<close>

  \<^item> A shell command is a text. \<open>Bash_Script\<close> models its decomposition into plain commands over the tree of
    the tree-sitter grammar (\<open>bash_command_splitting.rs\<close>), \<open>Shell_Tree\<close> the reading of words, scopes,
    directory changes and redirections off any tree (\<open>shell_access.rs\<close>). Both show that nothing of the tree
    is missed.
  \<^item> A command is an argv. \<open>Bash_Words\<close> models the peeling of wrappers and prefixes (\<open>env\<close>, \<open>timeout\<close>,
    \<open>exec\<close>, \<dots>) with its depth bounds, \<open>Shell_Inline\<close> the scripts behind \<open>bash -c\<close> and the programs that
    run code (\<open>policy.rs\<close>). The locale \<open>peeler\<close> holds what all peelers share.
  \<^item> A rule is a text. \<open>Permission_Rules\<close> models its parser (\<open>rules.rs\<close>, \<open>types.rs\<close>), \<open>Permission_Match\<close> the
    matching of one rule against one access, with the spellings of a path (\<open>policy.rs\<close>), \<open>Unix_Path\<close> the
    paths of the standard library and \<open>xai-grok-paths\<close>, \<open>Symlink_Follow\<close> the resolution of links.
  \<^item> The rules make a policy. \<open>Permission_Policy\<close> models the compiled policy and all its evaluations, with
    the precedence of deny over ask over allow, the conjunctive allow of Bash chains and the escalation
    gate; verdicts and gate decisions are two interpretations of the locale \<open>ranked_join\<close>. \<open>Bash_Gate\<close>
    proves that both cover every command reached through inline scripts and fail closed beyond.
  \<^item> A shell command touches files. \<open>Shell_Access\<close> models the file gate: the operand tables of the listed
    programs, redirections, directory changes and links; the properties are again that every path is seen
    and that what cannot be followed is asked about. \<open>Edit_Protection\<close> models which edit targets always need
    confirmation.
  \<^item> What was granted before. \<open>Session_Grants\<close> models the remembered state (\<open>state.rs\<close>), its merge, MCP tools, web hosts and the built-in lists
    (\<open>manager/mod.rs\<close>); \<open>Domain_Matcher\<close> the table of permitted hosts; \<open>Bash_Evaluation\<close> the evaluation of
    one request against the state, what the grants may approve, and what an always-allow answer stores
    (\<open>manager/mod.rs\<close>, \<open>manager/bash_grants.rs\<close>).
  \<^item> What is risky. \<open>Exec_Risk\<close> models git and sort flags that start programs and the scan plan for git
    configuration (\<open>exec_risk.rs\<close>), \<open>Security_Findings\<close> the finding set and the risk of environment
    variables, \<open>Routine_Bash\<close> the rule-based classifier of auto mode with its launchers (\<open>auto_mode/\<close>).
  \<^item> What the organisation allows. \<open>Url_Match\<close> models the address patterns, \<open>Managed_Policy\<close> the layers of
    managed policy on MCP servers and marketplaces (\<open>managed_policy/\<close>), folded together in the locale
    \<open>accumulating\<close>.

  \<^bold>\<open>Editing files.\<close> \<open>Patch_Parser\<close> models the patch format and its strict and lenient parser
  (\<open>codex/apply_patch/parser.rs\<close>), and that it reads back every written patch of context, removed, added and empty lines. \<open>Apply_Patch\<close> models the search for the lines of a
  chunk and the replacement (\<open>seek_sequence.rs\<close>, \<open>apply.rs\<close>); an update whose chunks are anchored exchanges exactly the
  blocks that its chunks name. \<open>Patch_Tool\<close> models the run from the patch text to the written files (\<open>tool.rs\<close>): a run that succeeds has done what
  the patch says and nothing else, one that fails before the write phase has touched nothing.

  \<^bold>\<open>Following the edits.\<close> \<open>File_Content\<close> models what is kept of a file and how it is read (\<open>actor/state.rs\<close>,
  \<open>actor/file_utils.rs\<close>), \<open>Hunk_Diff\<close> the hunks, their collection from the changes of a line differ and the patching of lines
  (\<open>diff.rs\<close>, \<open>types.rs\<close>), \<open>Hunk_Tracker\<close> the state of the tracker with the recomputation of a file, accepting and rejecting
  (\<open>actor/hunks.rs\<close>, \<open>actor/actions.rs\<close>), \<open>Hunk_Watch\<close> the writes of the agent, the notifications and git (\<open>actor/mutations.rs\<close>,
  \<open>actor/git.rs\<close>), \<open>Hunk_Actor\<close> the commands, their coalescing, the queries and snapshots (\<open>actor/mod.rs\<close>, \<open>actor/queries.rs\<close>).
  \<open>Hunk_Patch\<close> shows that patching with all hunks leads from one text to the other and back, \<open>Hunk_Consistency\<close> and \<open>Hunk_Laws\<close>
  that every command keeps identifiers, index and hunks consistent: the locale \<open>tracker_invariant\<close> says what an
  invariant has to survive, \<open>tracker_world\<close> interprets it for the consistency and for the agent mode. \<open>Hunk_Properties\<close> has what
  follows for any run: pending hunks are exact, accepting a file makes its content the baseline, rejecting it writes the baseline back.

  \<^bold>\<open>Scheduled prompts.\<close> \<open>Scheduler\<close> models intervals, tasks and the version clock of
  \<open>grok_build/scheduler/{interval,types}.rs\<close>, \<open>Scheduler_Actor\<close> the actor's commands, firing, expiry and shutdown
  (\<open>actor.rs\<close>) as functions of the state and of what the surroundings answer. \<open>Scheduler_Laws\<close> has the step relation of
  the actor with its invariant, what a fire may start and that a deleted task never starts; \<open>Scheduler_Progress\<close> that the
  loop neither spins nor starves; \<open>Scheduler_Tools\<close> the create, delete and list tools; \<open>Occurrence_Journal\<close> the receipts of
  one-shot tasks, which survive any persisted value and lose no task (\<open>occurrence_journal.rs\<close>).

  \<^bold>\<open>The conversation.\<close> \<open>Conversation\<close> models the items (\<open>xai-grok-sampling-types/src/conversation.rs\<close>) and the repair of calls
  without a result, \<open>Conversation_Repair\<close> the repair of a whole history and that it pairs every call with one result.
  \<open>Turn_Selection\<close> models what a compaction keeps (\<open>xai-grok-compaction\<close>), generic in the item type with the traits as arguments,
  its laws in the locale \<open>compaction_items\<close>; \<open>Summary_Text\<close> the texts of summaries and queries, \<open>Compaction\<close> the views for a
  summarizer and the history that replaces the old one (\<open>compaction_utils.rs\<close>). \<open>Usage_Ledger\<close> models the bills (\<open>usage.rs\<close>),
  \<open>Image_Budget\<close> the byte budget of a request (\<open>image_budget.rs\<close>), \<open>Float64\<close> the binary64 arithmetic that the estimates and the
  breaker use. \<open>Chat_State\<close> has the state of the actor and everything that changes it (\<open>actor/mutations.rs\<close>,
  \<open>request_builder.rs\<close>), \<open>Chat_Actor\<close> the commands and queries (\<open>actor/mod.rs\<close>, \<open>queries.rs\<close>), and \<open>Chat_Laws\<close> what holds of any
  run of commands within the scope that each property names: the store holds what the memory holds, a captured turn is
  what was pushed, a request has no open call.

  \<^bold>\<open>Services and messages.\<close> \<open>Sliding_Window\<close>, \<open>Circuit_Breaker\<close> and \<open>Breaker_Laws\<close> model the breaker run
  by one thread at a time, with 64-bit counters, binary64 quotients and clock readings; the window is the
  locale \<open>sample_window\<close>, the reachable breakers an inductive set with an invariant. \<open>Breaker_Races\<close> models
  the same code at the level of atomic accesses with free interleaving. \<open>Retry_Policy\<close> models which status
  codes are retried. \<open>Message_Delivery\<close> models who owns a message during a turn and shows that it is
  delivered or falls back exactly once; \<open>Agent_Identity\<close> the tokens and addresses of agents (locale
  \<open>minted_token\<close>); \<open>Interjection\<close> the event queue and the merging of prompts. \<open>Rust_Prelude\<close> holds the string, slice and integer
  operations of the Rust library that the components share.

  \<^bold>\<open>Conventions.\<close> Strings are byte strings, as the code indexes them; where it works on characters, the
  encoding is read from the bytes. A \<open>Result\<close> or an early return is an option, a sum or a verdict type. Sets
  that the code keeps in hash sets are duplicate-free lists, and no property depends on their order. A loop
  with a bound in the code has the same bound in the model: wrapper depth and inline depth 8, prefix
  depth 8, 16 alternations of peeling, 8 rounds of environment operands, 40 symbolic links, 10000 window
  samples, 5 segment grants, 50 scheduled tasks and pending receipts; no fuel is added, every other recursion is structural or has a termination
  proof, and what happens at each bound is part of the properties.

  \<^bold>\<open>Parameters.\<close> Code outside the repository is an argument of the model: the tree-sitter parser, the glob and
  URL crates, Unicode case mapping, the file system at one moment, libgit2's configuration, the clock, the
  entropy of tokens, TOML values and their conversion to JSON, the asynchronous file system of the patch tool, the
  date library, the sizes of JSON encodings, and the answers of persistence, of the notification channel and of the
  coordinator of child agents, and for the hunk tracker the file system, the \<open>gix\<close> crate, the line differ of the
  \<open>similar\<close> crate, fresh identifiers and the order in which a hash map is iterated over. Nothing is assumed of them except in named
  hypotheses: \<open>glob_literal_head\<close> and \<open>url_env_ok\<close> state documented behaviour of the glob and URL crates,
  \<open>canonical_not_link\<close> that a canonical path is no link, \<open>fs_laws\<close> that writing, deleting and creating a directory have their
  documented effect, \<open>datable\<close> and \<open>task_ok\<close> that the dates of one task at hand stay in the range of the date library,
  \<open>reads_task_id\<close> that a receipt is read with the identity it holds, \<open>honest\<close> that the store of a conversation has done what it
  answers (a run with an indeterminate answer is outside of it), \<open>iteration_order\<close> that a map is iterated over
  completely and \<open>line_differ\<close> that the differ delivers the lines of both texts. Commands outside of the scope of a property
  (restored snapshots, for instance) are named in it.

  \<^bold>\<open>What modelling showed.\<close> Theorems on concrete inputs record where the code departs from what it says:
  \<open>normalize_command_words_unread_env\<close>, \<open>dash_O_cluster_not_seen\<close>, \<open>path_match_forms_backslash\<close>,
  \<open>domain_rule_upper_www\<close>, \<open>unread_env_option_hides_git\<close>, \<open>branch_delete_is_a_query\<close>,
  \<open>dash_dash_directory_hides_flag\<close>, \<open>colon_name_is_not_asked\<close>, \<open>spaced_name_passes_safe_list\<close>,
  \<open>unbracketed_ipv6_glob_not_denied\<close>, \<open>two_probes_admitted\<close>, \<open>trip_loses_cool_down\<close>,
  \<open>eof_search_no_fallback\<close>, \<open>eof_chunk_lost\<close>, \<open>second_context_line_refused\<close>, \<open>unexpected_line_number_off\<close>,
  \<open>update_rewrites_other_bytes\<close>, \<open>second_update_discards_first\<close>, \<open>move_onto_itself_deletes\<close>, \<open>parse_interval_panics\<close>,
  \<open>huge_interval_panics\<close>, \<open>wrapped_interval_always_due\<close>, \<open>code_preview_panics\<close>, \<open>repair_history_not_idempotent\<close>,
  \<open>fit_plan_empty\<close>, \<open>truncation_exceeds_limit\<close>, \<open>repair_loses_capture\<close>, \<open>first_user_text_scans_on\<close>, \<open>rewind_counts_synthetic\<close>,
  \<open>empty_baseline_loses_newline\<close>, \<open>lone_blank_line_lost\<close>, \<open>crlf_rewritten\<close>.

  \<^bold>\<open>Not modelled.\<close> The actor around the decisions (\<open>manager/mod.rs\<close> below \<open>spawn_permission_manager\<close>,
  \<open>prompter.rs\<close>, \<open>resolution.rs\<close>): asynchronous prompting and file reading. The model-based classifier of
  auto mode: a request to a service. The display helpers of \<open>bash_command_splitting.rs\<close>. The terminal
  interface, rendering, login, telemetry and update code: input and output around third-party services.
  The handle and the channels of the chat actor, the calls of the summarizing model and the conversion of a conversation to the
  wire formats: messages between tasks and to services. Vendored code and scripts. Worth modelling next: the resolution of
  settings files into a policy, the retry decisions of the sampler, and the tool registry of the computer hub.
\<close>

end
